(* ===== verification/Go_Prelude.thy ===== *)
theory Go_Prelude
  imports Main "HOL-Library.Multiset" "HOL-Library.Char_ord" "HOL-Library.List_Lexorder"
begin

text \<open>
  Shared vocabulary of the development: the parts of Go and of its standard library that the
  operator uses, and the lemmas every component needs about them.

  \<^item> A Go \<open>string\<close> is a \<^typ>\<open>string\<close> read as a sequence of bytes; Go compares strings
    bytewise and lexicographically, which is the order of \<open>List_Lexorder\<close> over \<open>Char_ord\<close>.
  \<^item> A nil-able pointer is an \<open>option\<close>.
  \<^item> A Go \<open>map\<close> is an association list whose keys are distinct (\<open>gm_wf\<close>); its meaning is
    \<^const>\<open>map_of\<close>, and assignment is \<open>gm_set\<close>.  The order of the entries is the order of a
    range loop, which Go leaves open, so properties are stated on \<^const>\<open>map_of\<close>.
  \<^item> A panic is a value of \<open>go_result\<close>.
  \<^item> \<open>sort.Sort\<close>, \<open>sort.Slice\<close> and \<open>slices.SortFunc\<close> are \<open>go_sort\<close>, the insertion
    sort those functions run on short inputs; what clients use of it is the contract of the
    locales \<open>go_weak_order\<close> and \<open>go_total_order\<close>.
\<close>

named_theorems go_simps \<open>rewrite rules for the Go standard library\<close>

section \<open>Panics\<close>

datatype 'a go_result = Panic string | Return 'a

fun gbind :: "'a go_result \<Rightarrow> ('a \<Rightarrow> 'b go_result) \<Rightarrow> 'b go_result" where
  "gbind (Panic m) f = Panic m"
| "gbind (Return x) f = f x"

fun returned :: "'a go_result \<Rightarrow> 'a option" where
  "returned (Panic m) = None"
| "returned (Return x) = Some x"

lemma gbind_eq_Return [simp]:
  "gbind r f = Return y \<longleftrightarrow> (\<exists>x. r = Return x \<and> f x = Return y)"
  by (cases r) auto

lemma gbind_assoc: "gbind (gbind r f) g = gbind r (\<lambda>x. gbind (f x) g)"
  by (cases r) auto

section \<open>Errors\<close>

text \<open>A call that returns \<open>(value, error)\<close> is a sum: \<open>Inl\<close> the error, \<open>Inr\<close> the value.\<close>

fun ebind :: "'e + 'a \<Rightarrow> ('a \<Rightarrow> 'e + 'b) \<Rightarrow> 'e + 'b" where
  "ebind (Inl e) f = Inl e"
| "ebind (Inr x) f = f x"

lemma ebind_cong [fundef_cong]:
  "r = r' \<Longrightarrow> (\<And>x. r' = Inr x \<Longrightarrow> f x = g x) \<Longrightarrow> ebind r f = ebind r' g"
  by (cases r') auto

lemma ebind_eq_Inr [simp]: "ebind r f = Inr y \<longleftrightarrow> (\<exists>x. r = Inr x \<and> f x = Inr y)"
  by (cases r) auto

lemma ebind_case: "ebind r f = (case r of Inl e \<Rightarrow> Inl e | Inr x \<Rightarrow> f x)"
  by (cases r) auto

text \<open>A loop that collects results and stops at the first error.\<close>

fun etraverse :: "('a \<Rightarrow> 'e + 'b) \<Rightarrow> 'a list \<Rightarrow> 'e + 'b list" where
  "etraverse f [] = Inr []"
| "etraverse f (x # xs) = ebind (f x) (\<lambda>y. ebind (etraverse f xs) (\<lambda>ys. Inr (y # ys)))"

lemma etraverse_cong [fundef_cong]:
  "xs = ys \<Longrightarrow> (\<And>x. x \<in> set ys \<Longrightarrow> f x = g x) \<Longrightarrow> etraverse f xs = etraverse g ys"
  by (induction xs arbitrary: ys) auto

lemma etraverse_map: "etraverse f (map g xs) = etraverse (f \<circ> g) xs"
  by (induction xs) auto

lemma etraverse_Inr [simp]: "etraverse Inr xs = Inr xs"
  by (induction xs) auto

lemma etraverse_eq_Inr: "etraverse f xs = Inr ys \<longleftrightarrow> list_all2 (\<lambda>x y. f x = Inr y) xs ys"
  by (induction xs arbitrary: ys) (auto simp: list_all2_Cons1)

section \<open>Searching\<close>

lemma find_SomeD: "List.find P xs = Some x \<Longrightarrow> x \<in> set xs \<and> P x"
  by (induction xs) (auto split: if_splits)

lemma set_map_filter: "set (List.map_filter f xs) = {y. \<exists>x\<in>set xs. f x = Some y}"
  by (induction xs) (auto simp: List.map_filter_def)

section \<open>Pointers\<close>

definition Deref :: "'a option \<Rightarrow> 'a \<Rightarrow> 'a" where
  "Deref p d = (case p of None \<Rightarrow> d | Some v \<Rightarrow> v)"

lemma Deref_simps [simp]: "Deref None d = d" "Deref (Some v) d = v"
  by (simp_all add: Deref_def)

section \<open>Maps\<close>

type_synonym ('k, 'v) gomap = "('k \<times> 'v) list"

abbreviation gm_wf :: "('k, 'v) gomap \<Rightarrow> bool" where
  "gm_wf m \<equiv> distinct (map fst m)"

fun gm_set :: "'k \<Rightarrow> 'v \<Rightarrow> ('k, 'v) gomap \<Rightarrow> ('k, 'v) gomap" where
  "gm_set k v [] = [(k, v)]"
| "gm_set k v ((k', v') # m) = (if k = k' then (k, v) # m else (k', v') # gm_set k v m)"

definition gm_delete :: "'k \<Rightarrow> ('k, 'v) gomap \<Rightarrow> ('k, 'v) gomap" where
  "gm_delete k m = filter (\<lambda>(k', v). k' \<noteq> k) m"

definition gm_map_values :: "('v \<Rightarrow> 'k \<Rightarrow> 'w) \<Rightarrow> ('k, 'v) gomap \<Rightarrow> ('k, 'w) gomap" where
  "gm_map_values f m = map (\<lambda>(k, v). (k, f v k)) m"

lemma map_of_gm_set [simp]: "map_of (gm_set k v m) = (map_of m)(k \<mapsto> v)"
  by (induction k v m rule: gm_set.induct) auto

lemma fst_set_gm_set: "fst ` set (gm_set k v m) = insert k (fst ` set m)"
  by (induction k v m rule: gm_set.induct) auto

lemma gm_wf_set [simp]: "gm_wf m \<Longrightarrow> gm_wf (gm_set k v m)"
  by (induction k v m rule: gm_set.induct) (auto simp: fst_set_gm_set)

lemma set_gm_set_subset: "set (gm_set k v m) \<subseteq> insert (k, v) (set m)"
  by (induction k v m rule: gm_set.induct) auto

lemma set_gm_set: "gm_wf m \<Longrightarrow> set (gm_set k v m) = insert (k, v) {e \<in> set m. fst e \<noteq> k}"
  by (induction k v m rule: gm_set.induct) (auto simp: image_iff)

lemma list_all_gm_set: "list_all P m \<Longrightarrow> P (k, v) \<Longrightarrow> list_all P (gm_set k v m)"
  by (induction k v m rule: gm_set.induct) auto

lemma set_gm_delete: "set (gm_delete k m) = {e \<in> set m. fst e \<noteq> k}"
  by (auto simp: gm_delete_def)

lemma gm_wf_filter [simp]: "gm_wf m \<Longrightarrow> gm_wf (filter P m)"
  by (induction m) auto

lemma map_of_filter_wf:
  "gm_wf m \<Longrightarrow> map_of (filter P m) k = (case map_of m k of Some v \<Rightarrow> if P (k, v) then Some v else None | None \<Rightarrow> None)"
  by (induction m) (auto split: option.splits simp: map_of_eq_None_iff image_iff)

lemma map_of_gm_delete [simp]: "map_of (gm_delete k m) = (map_of m)(k := None)"
  by (induction m) (auto simp: gm_delete_def fun_eq_iff)

lemma gm_wf_delete [simp]: "gm_wf m \<Longrightarrow> gm_wf (gm_delete k m)"
  unfolding gm_delete_def by (induction m) auto

lemma map_of_gm_map_values [simp]:
  "map_of (gm_map_values f m) k = map_option (\<lambda>v. f v k) (map_of m k)"
  by (induction m) (auto simp: gm_map_values_def)

lemma fst_gm_map_values [simp]: "map fst (gm_map_values f m) = map fst m"
  by (simp add: gm_map_values_def comp_def case_prod_beta)

lemma gm_wf_map_values: "gm_wf m \<Longrightarrow> gm_wf (gm_map_values f m)"
  by simp

lemma gm_map_values_id:
  "(\<And>k v. (k, v) \<in> set m \<Longrightarrow> f v k = v) \<Longrightarrow> gm_map_values f m = m"
  unfolding gm_map_values_def by (induction m) auto

lemma map_of_eq_None_fst: "map_of m k = None \<longleftrightarrow> k \<notin> fst ` set m"
  by (simp add: map_of_eq_None_iff)

text \<open>A loop whose body may panic.\<close>

fun gfold :: "('s \<Rightarrow> 'e \<Rightarrow> 's go_result) \<Rightarrow> 's \<Rightarrow> 'e list \<Rightarrow> 's go_result" where
  "gfold body s [] = Return s"
| "gfold body s (e # es) = gbind (body s e) (\<lambda>s'. gfold body s' es)"

lemma gfold_append: "gfold body s (xs @ ys) = gbind (gfold body s xs) (\<lambda>s'. gfold body s' ys)"
  by (induction xs arbitrary: s) (auto simp: gbind_assoc)

lemma gm_set_fresh: "k \<notin> fst ` set m \<Longrightarrow> gm_set k v m = m @ [(k, v)]"
  by (induction k v m rule: gm_set.induct) auto

lemma foldl_gm_set:
  "gm_wf xs \<Longrightarrow> fst ` set xs \<inter> fst ` set m = {} \<Longrightarrow>
    foldl (\<lambda>m (k, v). gm_set k (f k v) m) m xs = m @ map (\<lambda>(k, v). (k, f k v)) xs"
proof (induction xs arbitrary: m)
  case (Cons a xs)
  obtain k v where a: "a = (k, v)" by fastforce
  have "foldl (\<lambda>m (k, v). gm_set k (f k v) m) (m @ [(k, f k v)]) xs =
    (m @ [(k, f k v)]) @ map (\<lambda>(k, v). (k, f k v)) xs"
    using Cons.prems a by (intro Cons.IH) auto
  with Cons.prems a show ?case by (auto simp: gm_set_fresh)
qed simp

section \<open>Strings\<close>

abbreviation quote_char :: char where "quote_char \<equiv> CHR 0x22"

abbreviation backslash :: char where "backslash \<equiv> CHR 0x5C"

definition HasPrefix :: "string \<Rightarrow> string \<Rightarrow> bool" where
  "HasPrefix s p \<longleftrightarrow> take (length p) s = p"

definition HasSuffix :: "string \<Rightarrow> string \<Rightarrow> bool" where
  "HasSuffix s p \<longleftrightarrow> length p \<le> length s \<and> drop (length s - length p) s = p"

fun Contains :: "string \<Rightarrow> string \<Rightarrow> bool" where
  "Contains [] sub \<longleftrightarrow> sub = []"
| "Contains (c # s) sub \<longleftrightarrow> HasPrefix (c # s) sub \<or> Contains s sub"

definition TrimPrefix :: "string \<Rightarrow> string \<Rightarrow> string" where
  "TrimPrefix s p = (if HasPrefix s p then drop (length p) s else s)"

definition Trim :: "string \<Rightarrow> char list \<Rightarrow> string" where
  "Trim s cutset = rev (dropWhile (\<lambda>c. c \<in> set cutset) (rev (dropWhile (\<lambda>c. c \<in> set cutset) s)))"

text \<open>\<open>strings.Split\<close> with a separator of one byte.\<close>

fun Split :: "string \<Rightarrow> char \<Rightarrow> string list" where
  "Split [] sep = [[]]"
| "Split (c # s) sep =
     (if c = sep then [] # Split s sep
      else (case Split s sep of [] \<Rightarrow> [[c]] | p # ps \<Rightarrow> (c # p) # ps))"

text \<open>\<open>strings.SplitN(s, sep, 2)\<close>: at most one cut, at the first separator.\<close>

fun SplitN2 :: "string \<Rightarrow> char \<Rightarrow> string list" where
  "SplitN2 [] sep = [[]]"
| "SplitN2 (c # s) sep =
     (if c = sep then [[], s]
      else (case SplitN2 s sep of [] \<Rightarrow> [[c]] | p # ps \<Rightarrow> (c # p) # ps))"

fun Join :: "string list \<Rightarrow> string \<Rightarrow> string" where
  "Join [] sep = []"
| "Join [x] sep = x"
| "Join (x # y # ys) sep = x @ sep @ Join (y # ys) sep"

text \<open>
  \<open>strings.ReplaceAll\<close>, scanning from the left.  Every call in the modelled code passes a
  non-empty pattern; the empty pattern, for which Go inserts the replacement between runes, is
  not used and leaves the string unchanged here.
\<close>

function ReplaceAll :: "string \<Rightarrow> string \<Rightarrow> string \<Rightarrow> string" where
  "ReplaceAll s old new =
     (if s = [] \<or> old = [] then s
      else if HasPrefix s old then new @ ReplaceAll (drop (length old) s) old new
      else hd s # ReplaceAll (tl s) old new)"
  by pat_completeness auto
termination
  by (relation "measure (\<lambda>(s, old, new). length s)") auto

declare ReplaceAll.simps [simp del]

definition ToLowerChar :: "char \<Rightarrow> char" where
  "ToLowerChar c = (if 65 \<le> (of_char c :: nat) \<and> (of_char c :: nat) \<le> 90 then char_of ((of_char c :: nat) + 32) else c)"

definition ToLower :: "string \<Rightarrow> string" where
  "ToLower s = map ToLowerChar s"

text \<open>\<open>%d\<close> of a non-negative integer.\<close>

fun itoa :: "nat \<Rightarrow> string" where
  "itoa n = (if n < 10 then [char_of (48 + n)] else itoa (n div 10) @ [char_of (48 + n mod 10)])"

declare itoa.simps [simp del]

definition itoa_int :: "int \<Rightarrow> string" where
  "itoa_int i = (if i < 0 then ''-'' @ itoa (nat (- i)) else itoa (nat i))"

text \<open>The position of the last occurrence of a byte, \<open>strings.LastIndex\<close> with one byte.\<close>

fun LastIndex :: "string \<Rightarrow> char \<Rightarrow> nat option" where
  "LastIndex [] c = None"
| "LastIndex (x # xs) c =
     (case LastIndex xs c of Some i \<Rightarrow> Some (Suc i) | None \<Rightarrow> if x = c then Some 0 else None)"

subsection \<open>Lemmas on strings\<close>

lemma HasPrefix_append [simp]: "HasPrefix (p @ s) p"
  by (simp add: HasPrefix_def)

lemma HasPrefix_iff: "HasPrefix s p \<longleftrightarrow> (\<exists>r. s = p @ r)"
  unfolding HasPrefix_def by (metis append_eq_conv_conj append_take_drop_id)

lemma HasSuffix_iff: "HasSuffix s p \<longleftrightarrow> (\<exists>r. s = r @ p)"
proof
  assume "HasSuffix s p"
  then have "s = take (length s - length p) s @ p"
    unfolding HasSuffix_def by (metis append_take_drop_id)
  then show "\<exists>r. s = r @ p" by blast
qed (auto simp: HasSuffix_def)

lemma HasSuffix_trans: "HasSuffix a b \<Longrightarrow> HasSuffix b c \<Longrightarrow> HasSuffix a c"
  by (auto simp: HasSuffix_iff)

lemma HasSuffix_refl [simp]: "HasSuffix a a"
  by (simp add: HasSuffix_iff)

lemma HasSuffix_drop [simp]: "HasSuffix s (drop n s)"
  unfolding HasSuffix_iff by (metis append_take_drop_id)

lemma HasSuffix_dropWhile [simp]: "HasSuffix s (dropWhile P s)"
  unfolding HasSuffix_iff by (metis takeWhile_dropWhile_id)

lemma Contains_iff: "Contains s sub \<longleftrightarrow> (\<exists>a b. s = a @ sub @ b)"
proof (induction s)
  case (Cons c s)
  have "(\<exists>a b. c # s = a @ sub @ b) \<longleftrightarrow> (\<exists>b. c # s = sub @ b) \<or> (\<exists>a b. s = a @ sub @ b)"
    by (metis append_Cons append_eq_Cons_conv append_Nil)
  then show ?case using Cons.IH by (simp add: HasPrefix_iff)
qed auto

lemma Contains_append: "Contains b sub \<Longrightarrow> Contains (a @ b @ c) sub"
  unfolding Contains_iff by (metis append.assoc)

lemma Split_not_Nil [simp]: "Split s sep \<noteq> []"
  by (induction s sep rule: Split.induct) (auto split: list.splits)

lemma length_Split: "length (Split s sep) = Suc (count_list s sep)"
  by (induction s sep rule: Split.induct) (auto split: list.splits)

lemma Join_Cons_head: "Join ((c # p) # ps) sep = c # Join (p # ps) sep"
  by (cases ps) auto

lemma Join_Split: "Join (Split s sep) [sep] = s"
proof (induction s sep rule: Split.induct)
  case (2 c s sep)
  then show ?case by (cases "Split s sep") (auto simp: Join_Cons_head)
qed simp

lemma itoa_digits: "c \<in> set (itoa n) \<Longrightarrow> 48 \<le> (of_char c :: nat) \<and> (of_char c :: nat) \<le> 57"
proof (induction n rule: itoa.induct)
  case (1 n)
  show ?case
  proof (cases "n < 10")
    case True
    with "1.prems" show ?thesis by (simp add: itoa.simps [of n])
  next
    case False
    with "1.prems" consider "c \<in> set (itoa (n div 10))" | "c = char_of (48 + n mod 10)"
      by (auto simp: itoa.simps [of n])
    then show ?thesis using "1.IH" [OF False] by cases auto
  qed
qed

lemma itoa_not_Nil [simp]: "itoa n \<noteq> []" "[] \<noteq> itoa n"
  by (subst itoa.simps, simp)+

lemma itoa_less_10: "n < 10 \<Longrightarrow> itoa n = [char_of (48 + n)]"
  by (simp add: itoa.simps [of n])

lemma itoa_ge_10: "\<not> n < 10 \<Longrightarrow> itoa n = itoa (n div 10) @ [char_of (48 + n mod 10)]"
  by (simp add: itoa.simps [of n])

lemma char_of_digit_inj: "a < 10 \<Longrightarrow> b < 10 \<Longrightarrow> char_of (48 + a) = (char_of (48 + b) :: char) \<Longrightarrow> a = (b::nat)"
  using of_char_of [of "48 + a"] of_char_of [of "48 + b"] by simp

lemma itoa_inj: "itoa m = itoa n \<Longrightarrow> m = n"
proof (induction m arbitrary: n rule: itoa.induct)
  case (1 m)
  consider "m < 10" "n < 10" | "m < 10" "\<not> n < 10" | "\<not> m < 10" "n < 10" | "\<not> m < 10" "\<not> n < 10"
    by blast
  then show ?case
  proof cases
    case 1
    then show ?thesis using "1.prems" char_of_digit_inj by (auto simp: itoa_less_10)
  next
    case 2
    then show ?thesis using "1.prems" by (auto simp: itoa_less_10 itoa_ge_10)
  next
    case 3
    then show ?thesis using "1.prems" by (auto simp: itoa_less_10 itoa_ge_10)
  next
    case 4
    then have "itoa (m div 10) = itoa (n div 10)" and
      "char_of (48 + m mod 10) = (char_of (48 + n mod 10) :: char)"
      using "1.prems" by (auto simp: itoa_ge_10)
    then have "m div 10 = n div 10" and "m mod 10 = n mod 10"
      using "1.IH" [OF 4(1)] char_of_digit_inj [of "m mod 10" "n mod 10"] by simp_all
    then show ?thesis by (metis mult_div_mod_eq)
  qed
qed

section \<open>Reachable states\<close>

text \<open>
  The interface of a component with state: where it starts, which steps it takes, and an
  invariant that the start has and every step keeps.
\<close>

locale transition_system =
  fixes start :: 's
    and step :: "'s \<Rightarrow> 's \<Rightarrow> bool"
    and inv :: "'s \<Rightarrow> bool"
  assumes inv_start: "inv start"
    and inv_step: "step s t \<Longrightarrow> inv s \<Longrightarrow> inv t"
begin

lemma inv_run: "step\<^sup>*\<^sup>* s t \<Longrightarrow> inv s \<Longrightarrow> inv t"
  by (induction rule: rtranclp_induct) (auto intro: inv_step)

lemma inv_reachable: "step\<^sup>*\<^sup>* start t \<Longrightarrow> inv t"
  using inv_run inv_start by blast

end

section \<open>Sorting\<close>

text \<open>
  Go's sort functions run insertion sort on short inputs: each element in turn moves left past
  the elements it is smaller than.  \<open>ins_left\<close> does this on the sorted prefix held in reverse,
  so its first comparison is with the prefix's last element, as in the library.
\<close>

fun ins_left :: "('a \<Rightarrow> 'a \<Rightarrow> bool) \<Rightarrow> 'a \<Rightarrow> 'a list \<Rightarrow> 'a list" where
  "ins_left lt x [] = [x]"
| "ins_left lt x (y # ys) = (if lt x y then y # ins_left lt x ys else x # y # ys)"

definition go_sort :: "('a \<Rightarrow> 'a \<Rightarrow> bool) \<Rightarrow> 'a list \<Rightarrow> 'a list" where
  "go_sort lt xs = rev (foldl (\<lambda>acc x. ins_left lt x acc) [] xs)"

lemma mset_ins_left [simp]: "mset (ins_left lt x ys) = add_mset x (mset ys)"
  by (induction ys) auto

lemma mset_foldl_ins_left:
  "mset (foldl (\<lambda>acc x. ins_left lt x acc) acc xs) = mset acc + mset xs"
  by (induction xs arbitrary: acc) auto

lemma mset_go_sort [simp]: "mset (go_sort lt xs) = mset xs"
  by (simp add: go_sort_def mset_foldl_ins_left)

lemma set_go_sort [simp]: "set (go_sort lt xs) = set xs"
  using mset_go_sort by (metis set_mset_mset)

lemma length_go_sort [simp]: "length (go_sort lt xs) = length xs"
  using mset_go_sort by (metis size_mset)

lemma go_sort_Nil [simp]: "go_sort lt [] = []"
  by (simp add: go_sort_def)

lemma go_sort_eq_Nil [simp]: "go_sort lt xs = [] \<longleftrightarrow> xs = []"
  using length_go_sort [of lt xs] by (metis length_0_conv)

lemma distinct_go_sort [simp]: "distinct (go_sort lt xs) \<longleftrightarrow> distinct xs"
  by (metis mset_go_sort mset_eq_imp_distinct_iff)

text \<open>
  The interface of a comparison passed to Go's sort: a strict weak order.  The result is then
  ordered, whichever order the input had.
\<close>

locale go_weak_order =
  fixes lt :: "'a \<Rightarrow> 'a \<Rightarrow> bool"
  assumes less_irrefl: "\<not> lt x x"
    and less_trans: "lt x y \<Longrightarrow> lt y z \<Longrightarrow> lt x z"
    and incomp_trans: "\<not> lt x y \<Longrightarrow> \<not> lt y z \<Longrightarrow> \<not> lt x z"
begin

lemma less_asym: "lt x y \<Longrightarrow> \<not> lt y x"
  using less_irrefl less_trans by blast

lemma ins_left_sorted:
  "sorted_wrt (\<lambda>a b. \<not> lt a b) ys \<Longrightarrow> sorted_wrt (\<lambda>a b. \<not> lt a b) (ins_left lt x ys)"
proof (induction ys)
  case (Cons y ys)
  have in_set: "set (ins_left lt x ys) = insert x (set ys)"
    by (metis mset_ins_left set_mset_mset set_mset_add_mset_insert)
  show ?case
  proof (cases "lt x y")
    case True
    then show ?thesis using Cons in_set by (auto dest: less_asym)
  next
    case False
    then show ?thesis using Cons.prems incomp_trans by auto
  qed
qed simp

lemma go_sort_sorted: "sorted_wrt (\<lambda>a b. \<not> lt b a) (go_sort lt xs)"
proof -
  have "sorted_wrt (\<lambda>a b. \<not> lt a b) acc \<Longrightarrow>
    sorted_wrt (\<lambda>a b. \<not> lt a b) (foldl (\<lambda>acc x. ins_left lt x acc) acc xs)" for acc
    by (induction xs arbitrary: acc) (auto intro: ins_left_sorted)
  then show ?thesis
    by (simp add: go_sort_def sorted_wrt_rev)
qed

lemma sorted_unique_on:
  assumes "\<forall>x\<in>set xs. \<forall>y\<in>set xs. \<not> lt x y \<longrightarrow> \<not> lt y x \<longrightarrow> x = y"
    and "sorted_wrt (\<lambda>a b. \<not> lt b a) xs" "sorted_wrt (\<lambda>a b. \<not> lt b a) ys"
    and "mset xs = mset ys"
  shows "xs = ys"
  using assms
proof (induction xs arbitrary: ys)
  case (Cons x xs)
  then obtain y ys' where ys: "ys = y # ys'"
    by (cases ys) auto
  have mem: "x \<in> set ys" "y \<in> set (x # xs)"
    using Cons.prems(4) ys by (metis list.set_intros(1) mset_eq_setD)+
  have "\<not> lt y x" using mem(2) Cons.prems(2) less_irrefl by auto
  moreover have "\<not> lt x y" using mem(1) Cons.prems(3) ys less_irrefl by auto
  ultimately have "x = y" using mem(2) Cons.prems(1) by auto
  with Cons ys show ?case by auto
qed simp

lemma go_sort_eq_iff_on:
  assumes "\<forall>x\<in>set xs. \<forall>y\<in>set xs. \<not> lt x y \<longrightarrow> \<not> lt y x \<longrightarrow> x = y"
  shows "go_sort lt xs = go_sort lt ys \<longleftrightarrow> mset xs = mset ys"
  using sorted_unique_on [of "go_sort lt xs" "go_sort lt ys"] assms go_sort_sorted
  by (auto dest: arg_cong [of _ _ mset])

end

text \<open>
  A comparison that also separates different elements determines the sorted list from the
  multiset of elements alone: sorting is then independent of the order of the input.
\<close>

locale go_total_order = go_weak_order +
  assumes less_total: "\<not> lt x y \<Longrightarrow> \<not> lt y x \<Longrightarrow> x = y"
begin

lemma sorted_unique:
  "sorted_wrt (\<lambda>a b. \<not> lt b a) xs \<Longrightarrow> sorted_wrt (\<lambda>a b. \<not> lt b a) ys \<Longrightarrow>
    mset xs = mset ys \<Longrightarrow> xs = ys"
  by (rule sorted_unique_on) (auto intro: less_total)

lemma go_sort_cong: "mset xs = mset ys \<Longrightarrow> go_sort lt xs = go_sort lt ys"
  by (rule sorted_unique) (simp_all add: go_sort_sorted)

lemma go_sort_idem: "sorted_wrt (\<lambda>a b. \<not> lt b a) xs \<Longrightarrow> go_sort lt xs = xs"
  by (rule sorted_unique) (simp_all add: go_sort_sorted)

lemma go_sort_eq_iff: "go_sort lt xs = go_sort lt ys \<longleftrightarrow> mset xs = mset ys"
  using go_sort_cong by (metis mset_go_sort)

lemma go_sort_strict: "distinct xs \<Longrightarrow> sorted_wrt lt (go_sort lt xs)"
proof -
  assume "distinct xs"
  then have "distinct (go_sort lt xs)" by simp
  moreover have "sorted_wrt (\<lambda>a b. \<not> lt b a) (go_sort lt xs)" by (rule go_sort_sorted)
  ultimately show ?thesis
  proof (induction "go_sort lt xs" arbitrary: xs rule: list.induct)
    case Nil
    then show ?case by simp
  next
    case (Cons z zs)
    then show ?case
      by (metis distinct.simps(2) go_sort_idem less_total sorted_wrt.simps(2))
  qed
qed

end

text \<open>Go's order on strings, used by \<open>sort.Strings\<close> and \<open>strings.Compare\<close>.\<close>

definition string_less :: "string \<Rightarrow> string \<Rightarrow> bool" where
  "string_less a b \<longleftrightarrow> a < b"

interpretation strings: go_total_order string_less
  by unfold_locales (auto simp: string_less_def)

definition sort_strings :: "string list \<Rightarrow> string list" where
  "sort_strings xs = go_sort string_less xs"

lemma sort_strings_eq_iff: "sort_strings xs = sort_strings ys \<longleftrightarrow> mset xs = mset ys"
  by (simp add: sort_strings_def strings.go_sort_eq_iff)

lemma set_sort_strings [simp]: "set (sort_strings xs) = set xs"
  by (simp add: sort_strings_def)

lemma length_sort_strings [simp]: "length (sort_strings xs) = length xs"
  by (simp add: sort_strings_def)

lemma sort_strings_idem [simp]: "sort_strings (sort_strings xs) = sort_strings xs"
  by (simp add: sort_strings_eq_iff) (simp add: sort_strings_def)

lemma sorted_sort_strings: "sorted (sort_strings xs)"
  using strings.go_sort_sorted [of xs]
  by (simp add: sort_strings_def string_less_def not_less)

end
