(* ===== verification/Rate_Limit_Index.thy ===== *)
theory Rate_Limit_Index
  imports Go_Prelude "HOL-Library.Product_Lexorder"
begin

text \<open>
  The index of limits that the operator collects for Limitador and the comparison that decides
  whether the Limitador resource must be updated (\<open>internal/ratelimit/index.go\<close>,
  \<open>internal/utils/slice_utils.go\<close>).

  A nil slice is \<open>None\<close>, so that the code's treatment of nil and of the empty slice shows.
  \<open>EqualTo\<close> sorts the \<open>Conditions\<close> and \<open>Variables\<close> of shallow copies, which share
  their arrays with the arguments: the model returns both arguments as the call leaves them.
  The ordered map of the library \<open>orderedmap\<close> is a parameter: \<open>om_set\<close> is its \<open>Set\<close>
  and \<open>om_entries\<close> the sequence that \<open>Front\<close> and \<open>Next\<close> walk.
\<close>

section \<open>Slices\<close>

definition GetEmptySliceIfNil :: "'a list option \<Rightarrow> 'a list" where
  "GetEmptySliceIfNil val = (case val of None \<Rightarrow> [] | Some xs \<Rightarrow> xs)"

fun utils_Index_from :: "nat \<Rightarrow> 'a list \<Rightarrow> ('a \<Rightarrow> bool) \<Rightarrow> int" where
  "utils_Index_from i [] match = -1"
| "utils_Index_from i (item # slice) match =
     (if match item then int i else utils_Index_from (Suc i) slice match)"

definition utils_Index :: "'a list \<Rightarrow> ('a \<Rightarrow> bool) \<Rightarrow> int" where
  "utils_Index slice match = utils_Index_from 0 slice match"

definition utils_Find :: "'a list \<Rightarrow> ('a \<Rightarrow> bool) \<Rightarrow> 'a option \<times> bool" where
  "utils_Find slice match =
     (let i = utils_Index slice match in
      if i \<ge> 0 then (Some (slice ! nat i), True) else (None, False))"

definition utils_Map :: "'a list option \<Rightarrow> ('a \<Rightarrow> 'b) \<Rightarrow> 'b list option" where
  "utils_Map slice f = (case slice of None \<Rightarrow> None | Some xs \<Rightarrow> Some (map f xs))"

fun utils_Filter :: "'a list \<Rightarrow> ('a \<Rightarrow> bool) \<Rightarrow> 'a list" where
  "utils_Filter [] f = []"
| "utils_Filter (e # slice) f = (if f e then e # utils_Filter slice f else utils_Filter slice f)"

definition utils_Associate :: "'a list \<Rightarrow> ('a \<Rightarrow> 'k \<times> 'v) \<Rightarrow> ('k, 'v) gomap" where
  "utils_Associate collection transform =
     foldl (\<lambda>result element. let (key, val) = transform element in gm_set key val result) [] collection"

lemma utils_Index_from_spec:
  "utils_Index_from i xs P = (case List.find P xs of None \<Rightarrow> -1 | Some _ \<Rightarrow> int (i + length (takeWhile (Not \<circ> P) xs)))"
  by (induction i xs P rule: utils_Index_from.induct) (auto split: option.splits)

lemma takeWhile_find: "List.find P xs = Some x \<Longrightarrow> xs ! length (takeWhile (Not \<circ> P) xs) = x"
  by (induction xs) (auto split: if_splits)

lemma utils_Find_spec:
  "utils_Find xs P = (case List.find P xs of None \<Rightarrow> (None, False) | Some x \<Rightarrow> (Some x, True))"
  by (auto simp: utils_Find_def utils_Index_def utils_Index_from_spec takeWhile_find split: option.splits)

lemma utils_Filter_eq [simp]: "utils_Filter xs f = filter f xs"
  by (induction xs f rule: utils_Filter.induct) auto

lemma utils_Associate_lookup:
  "map_of (utils_Associate xs t) k = map_of (rev (map t xs)) k"
proof -
  have "map_of (foldl (\<lambda>m e. let (k, v) = t e in gm_set k v m) m xs) =
      map_of m ++ map_of (rev (map t xs))" for m
    by (induction xs arbitrary: m) (auto simp: case_prod_beta Let_def map_add_def fun_eq_iff split: option.splits)
  then show ?thesis by (simp add: utils_Associate_def)
qed

section \<open>Limits of Limitador\<close>

record RateLimit =
  lim_Conditions :: "string list option"
  lim_MaxValue :: int
  lim_Namespace :: string
  lim_Seconds :: int
  lim_Variables :: "string list option"
  lim_Name :: string

type_synonym LimitadorRateLimits = "RateLimit list"

section \<open>The index\<close>

definition Index_Set ::
  "(string \<Rightarrow> LimitadorRateLimits \<Rightarrow> 'om \<Rightarrow> 'om) \<Rightarrow> 'om \<Rightarrow> string \<Rightarrow> LimitadorRateLimits \<Rightarrow> 'om" where
  "Index_Set om_set l key rateLimits =
     (if length rateLimits = 0 then l else om_set key rateLimits l)"

definition ToRateLimits :: "('om \<Rightarrow> (string \<times> LimitadorRateLimits) list) \<Rightarrow> 'om \<Rightarrow> LimitadorRateLimits" where
  "ToRateLimits om_entries l =
     foldl (\<lambda>limitadorRateLimits (key, rlSet). limitadorRateLimits @ rlSet) [] (om_entries l)"

section \<open>Comparisons\<close>

text \<open>\<open>strings.Compare\<close>.\<close>

definition strings_Compare :: "string \<Rightarrow> string \<Rightarrow> int" where
  "strings_Compare a b = (if a = b then 0 else if a < b then -1 else 1)"

fun lessLists :: "string list \<Rightarrow> string list \<Rightarrow> bool option" where
  "lessLists (condI # xs) (condJ # ys) =
     (if strings_Compare condI condJ = 1 then Some True
      else if strings_Compare condI condJ = -1 then Some False
      else lessLists xs ys)"
| "lessLists _ _ = None"

definition RateLimit_Less :: "RateLimit \<Rightarrow> RateLimit \<Rightarrow> bool" where
  "RateLimit_Less li lj =
     (let condI = GetEmptySliceIfNil (lim_Conditions li); condJ = GetEmptySliceIfNil (lim_Conditions lj);
          varI = GetEmptySliceIfNil (lim_Variables li); varJ = GetEmptySliceIfNil (lim_Variables lj) in
      if lim_MaxValue li \<noteq> lim_MaxValue lj then lim_MaxValue li > lim_MaxValue lj
      else if lim_Seconds li \<noteq> lim_Seconds lj then lim_Seconds li > lim_Seconds lj
      else if length condI \<noteq> length condJ then length condI > length condJ
      else (case lessLists condI condJ of Some r \<Rightarrow> r
        | None \<Rightarrow> if length varI \<noteq> length varJ then length varI > length varJ
            else (case lessLists varI varJ of Some r \<Rightarrow> r | None \<Rightarrow> True)))"

definition LimitadorRateLimits_Less :: "LimitadorRateLimits \<Rightarrow> nat \<Rightarrow> nat \<Rightarrow> bool go_result" where
  "LimitadorRateLimits_Less l i j =
     (if i < length l \<and> j < length l then Return (RateLimit_Less (l ! i) (l ! j))
      else Panic ''index out of range'')"

definition LimitadorRateLimits_Swap :: "LimitadorRateLimits \<Rightarrow> nat \<Rightarrow> nat \<Rightarrow> LimitadorRateLimits go_result" where
  "LimitadorRateLimits_Swap l i j =
     (if i < length l \<and> j < length l then Return (l[i := l ! j, j := l ! i])
      else Panic ''index out of range'')"

fun compareLists :: "string list \<Rightarrow> string list \<Rightarrow> int go_result" where
  "compareLists [] b = Return 0"
| "compareLists (x # a) [] = Panic ''index out of range''"
| "compareLists (x # a) (y # b) =
     (if x < y then Return (-1) else if x > y then Return 1 else compareLists a b)"

definition LimitadorRateLimits_sort :: "RateLimit \<Rightarrow> RateLimit \<Rightarrow> int go_result" where
  "LimitadorRateLimits_sort a b =
     (let condA = GetEmptySliceIfNil (lim_Conditions a); condB = GetEmptySliceIfNil (lim_Conditions b);
          varA = GetEmptySliceIfNil (lim_Variables a); varB = GetEmptySliceIfNil (lim_Variables b) in
      if lim_Name a < lim_Name b then Return (-1) else if lim_Name a > lim_Name b then Return 1
      else if lim_Namespace a < lim_Namespace b then Return (-1)
      else if lim_Namespace a > lim_Namespace b then Return 1
      else if lim_MaxValue a < lim_MaxValue b then Return (-1)
      else if lim_MaxValue a > lim_MaxValue b then Return 1
      else if lim_Seconds a < lim_Seconds b then Return (-1)
      else if lim_Seconds a > lim_Seconds b then Return 1
      else if length condA < length condB then Return (-1)
      else if length condA > length condB then Return 1
      else gbind (compareLists condA condB) (\<lambda>result. if result \<noteq> 0 then Return result
      else if length varA < length varB then Return (-1)
      else if length varA > length varB then Return 1
      else gbind (compareLists varA varB) (\<lambda>result. if result \<noteq> 0 then Return result
      else Return 0)))"

text \<open>How \<open>slices.SortFunc\<close> uses the comparison: the left one is smaller when it is negative.\<close>

definition sortFunc_less :: "RateLimit \<Rightarrow> RateLimit \<Rightarrow> bool" where
  "sortFunc_less a b \<longleftrightarrow> (case LimitadorRateLimits_sort a b of Return n \<Rightarrow> n < 0 | Panic m \<Rightarrow> False)"

text \<open>
  The loop that prepares one copy.  The copy gets an empty slice for nil and is sorted in place;
  the argument, whose non-nil arrays are the same, keeps nil and otherwise shows the sorted array.
\<close>

definition normalizeCopy :: "RateLimit \<Rightarrow> RateLimit" where
  "normalizeCopy r = r\<lparr>lim_Conditions := Some (sort_strings (GetEmptySliceIfNil (lim_Conditions r))),
     lim_Variables := Some (sort_strings (GetEmptySliceIfNil (lim_Variables r)))\<rparr>"

definition sortedInPlace :: "RateLimit \<Rightarrow> RateLimit" where
  "sortedInPlace r = r\<lparr>lim_Conditions := map_option sort_strings (lim_Conditions r),
     lim_Variables := map_option sort_strings (lim_Variables r)\<rparr>"

definition LimitadorRateLimits_EqualTo ::
  "LimitadorRateLimits \<Rightarrow> LimitadorRateLimits \<Rightarrow> bool \<times> LimitadorRateLimits \<times> LimitadorRateLimits" where
  "LimitadorRateLimits_EqualTo l other =
     (if length l \<noteq> length other then (False, l, other)
      else let aCopy = go_sort sortFunc_less (map normalizeCopy l);
               bCopy = go_sort sortFunc_less (map normalizeCopy other)
           in (aCopy = bCopy, map sortedInPlace l, map sortedInPlace other))"

section \<open>The comparison is a total order\<close>

lemma compareLists_spec:
  "length a = length b \<Longrightarrow>
    compareLists a b = Return (if a = b then 0 else if a < b then -1 else 1)"
  by (induction a b rule: compareLists.induct) (auto simp: less_list_code)

text \<open>The key the comparison orders by, field after field.\<close>

definition limit_key where
  "limit_key r = (lim_Name r, lim_Namespace r, lim_MaxValue r, lim_Seconds r,
     length (GetEmptySliceIfNil (lim_Conditions r)), GetEmptySliceIfNil (lim_Conditions r),
     length (GetEmptySliceIfNil (lim_Variables r)), GetEmptySliceIfNil (lim_Variables r))"

lemma LimitadorRateLimits_sort_spec:
  "LimitadorRateLimits_sort a b =
     Return (if limit_key a = limit_key b then 0 else if limit_key a < limit_key b then -1 else 1)"
  by (simp add: LimitadorRateLimits_sort_def limit_key_def Let_def compareLists_spec less_prod_simp)

lemma sortFunc_less_spec: "sortFunc_less a b \<longleftrightarrow> limit_key a < limit_key b"
  by (auto simp: sortFunc_less_def LimitadorRateLimits_sort_spec)

interpretation limits: go_weak_order sortFunc_less
  by unfold_locales (auto simp: sortFunc_less_spec)

section \<open>What \<open>EqualTo\<close> decides\<close>

text \<open>What a limit means to Limitador: conditions and variables are unordered, nil is empty.\<close>

definition limit_meaning where
  "limit_meaning r = (lim_Name r, lim_Namespace r, lim_MaxValue r, lim_Seconds r,
     mset (GetEmptySliceIfNil (lim_Conditions r)), mset (GetEmptySliceIfNil (lim_Variables r)))"

lemma normalizeCopy_eq_iff: "normalizeCopy a = normalizeCopy b \<longleftrightarrow> limit_meaning a = limit_meaning b"
  by (cases a; cases b) (auto simp: normalizeCopy_def limit_meaning_def sort_strings_eq_iff)

lemma normalizeCopy_total:
  "\<not> sortFunc_less (normalizeCopy a) (normalizeCopy b) \<Longrightarrow> \<not> sortFunc_less (normalizeCopy b) (normalizeCopy a) \<Longrightarrow>
    normalizeCopy a = normalizeCopy b"
  unfolding sortFunc_less_spec not_less
  by (drule (1) order.antisym, cases a; cases b) (auto simp: normalizeCopy_def limit_key_def GetEmptySliceIfNil_def)

lemma EqualTo_normalized:
  "fst (LimitadorRateLimits_EqualTo l other) \<longleftrightarrow> mset (map normalizeCopy l) = mset (map normalizeCopy other)"
proof (cases "length l = length other")
  case True
  then show ?thesis
    using limits.go_sort_eq_iff_on [of "map normalizeCopy l" "map normalizeCopy other"] normalizeCopy_total
    by (auto simp: LimitadorRateLimits_EqualTo_def Let_def)
next
  case False
  then show ?thesis
    by (auto simp: LimitadorRateLimits_EqualTo_def dest: arg_cong [of _ _ size])
qed

text \<open>A multiset equality is kept and reflected by functions with the same kernel.\<close>

lemma image_mset_kernel:
  assumes "\<And>a b. f a = f b \<longleftrightarrow> g a = g b"
  shows "image_mset f A = image_mset f B \<longleftrightarrow> image_mset g A = image_mset g B"
proof -
  define h where "h y = g (SOME a. f a = y)" for y
  define k where "k y = f (SOME a. g a = y)" for y
  have h: "h (f a) = g a" for a unfolding h_def by (metis (mono_tags, lifting) assms someI)
  have k: "k (g a) = f a" for a unfolding k_def by (metis (mono_tags, lifting) assms someI)
  have hf: "image_mset g X = image_mset h (image_mset f X)" for X
    by (simp add: image_mset.compositionality comp_def h)
  have kg: "image_mset f X = image_mset k (image_mset g X)" for X
    by (simp add: image_mset.compositionality comp_def k)
  show ?thesis using hf kg by metis
qed

text \<open>
  C37.  Two sets of limits are reported equal exactly when they hold the same limits with the same
  multiplicity, where the order of the limits, the order of conditions and variables within a
  limit, and the difference between a nil and an empty slice do not matter.
\<close>

theorem EqualTo_decides_meaning:
  "fst (LimitadorRateLimits_EqualTo l other) \<longleftrightarrow>
     image_mset limit_meaning (mset l) = image_mset limit_meaning (mset other)"
  unfolding EqualTo_normalized mset_map by (rule image_mset_kernel) (rule normalizeCopy_eq_iff)

text \<open>
  The comparison is not free of effects: when the lengths agree it leaves the conditions and
  variables of both arguments sorted, and this changes nothing of what the limits mean.
\<close>

theorem EqualTo_effect:
  "length l = length other \<longrightarrow>
     snd (LimitadorRateLimits_EqualTo l other) = (map sortedInPlace l, map sortedInPlace other) \<and>
     map limit_meaning (map sortedInPlace l) = map limit_meaning l \<and>
     map limit_meaning (map sortedInPlace other) = map limit_meaning other \<and>
     (\<forall>r\<in>set (map sortedInPlace l @ map sortedInPlace other).
        sorted (GetEmptySliceIfNil (lim_Conditions r)) \<and> sorted (GetEmptySliceIfNil (lim_Variables r)))"
proof -
  have "limit_meaning (sortedInPlace r) = limit_meaning r" for r
    by (cases "lim_Conditions r"; cases "lim_Variables r")
      (auto simp: limit_meaning_def sortedInPlace_def GetEmptySliceIfNil_def sort_strings_def)
  moreover have "sorted (GetEmptySliceIfNil (lim_Conditions (sortedInPlace r)))"
      "sorted (GetEmptySliceIfNil (lim_Variables (sortedInPlace r)))" for r
    by (auto simp: sortedInPlace_def GetEmptySliceIfNil_def sorted_sort_strings split: option.splits)
  ultimately show ?thesis
    by (auto simp: LimitadorRateLimits_EqualTo_def Let_def)
qed

definition ex_limitador_limit :: "string list \<Rightarrow> RateLimit" where
  "ex_limitador_limit cs = \<lparr>lim_Conditions = Some cs, lim_MaxValue = 5, lim_Namespace = ''ns'',
     lim_Seconds = 10, lim_Variables = None, lim_Name = ''l''\<rparr>"

theorem EqualTo_effect_witness:
  "snd (LimitadorRateLimits_EqualTo [ex_limitador_limit [''b'', ''a'']] [ex_limitador_limit [''a'', ''b'']]) =
     ([ex_limitador_limit [''a'', ''b'']], [ex_limitador_limit [''a'', ''b'']])"
proof -
  have "sort_strings [''b'', ''a''] = [''a'', ''b'']" "sort_strings [''a'', ''b''] = [''a'', ''b'']"
    by (simp_all add: sort_strings_def go_sort_def string_less_def less_list_code less_char_def)
  then show ?thesis
    using EqualTo_effect [of "[ex_limitador_limit [''b'', ''a'']]" "[ex_limitador_limit [''a'', ''b'']]"]
    by (simp add: sortedInPlace_def ex_limitador_limit_def)
qed

section \<open>What the index keeps\<close>

text \<open>
  The ordered map, as its library documents it: a new key goes to the end, a known key keeps its
  place and gets the new value, and walking from the front gives the entries in that order.
\<close>

definition om_laws :: "'om \<Rightarrow> (string \<Rightarrow> LimitadorRateLimits \<Rightarrow> 'om \<Rightarrow> 'om) \<Rightarrow> ('om \<Rightarrow> (string \<times> LimitadorRateLimits) list) \<Rightarrow> bool" where
  "om_laws om_empty om_set om_entries \<longleftrightarrow>
     om_entries om_empty = [] \<and> (\<forall>k v m. om_entries (om_set k v m) = gm_set k v (om_entries m))"

lemma foldl_append_concat: "foldl (\<lambda>acc (k, v). acc @ v) a es = a @ concat (map snd es)"
  by (induction es arbitrary: a) auto

lemma Index_entries:
  assumes "om_laws om_empty om_set om_entries"
  shows "om_entries (foldl (\<lambda>m (k, v). Index_Set om_set m k v) om_empty sets) =
    foldl (\<lambda>m (k, v). gm_set k v m) [] (filter (\<lambda>(k, v). v \<noteq> []) sets)"
proof -
  have "om_entries (foldl (\<lambda>m (k, v). Index_Set om_set m k v) m sets) =
      foldl (\<lambda>m (k, v). gm_set k v m) (om_entries m) (filter (\<lambda>(k, v). v \<noteq> []) sets)" for m
    using assms by (induction sets arbitrary: m) (auto simp: om_laws_def Index_Set_def)
  then show ?thesis using assms by (simp add: om_laws_def)
qed

lemma gm_wf_foldl_gm_set: "gm_wf m \<Longrightarrow> gm_wf (foldl (\<lambda>m (k, v). gm_set k v m) m xs)"
  by (induction xs arbitrary: m) auto

lemma map_of_foldl_gm_set: "map_of (foldl (\<lambda>m (k, v). gm_set k v m) m xs) = map_of m ++ map_of (rev xs)"
  by (induction xs arbitrary: m) (auto simp: map_add_def fun_eq_iff split: option.splits)

text \<open>
  After any sequence of \<open>Set\<close> calls, the limits of the index are, key by key without
  repetition, those of the last non-empty set written under the key; empty sets leave no trace.
\<close>

theorem ToRateLimits_last_writes:
  assumes "om_laws om_empty om_set om_entries"
  shows "\<exists>es. ToRateLimits om_entries (foldl (\<lambda>m (k, v). Index_Set om_set m k v) om_empty sets) = concat (map snd es) \<and>
    gm_wf es \<and> map_of es = map_of (rev (filter (\<lambda>(k, v). v \<noteq> []) sets))"
  using gm_wf_foldl_gm_set [of "[]"] map_of_foldl_gm_set [of "[]" "filter (\<lambda>(k, v). v \<noteq> []) sets"]
  unfolding ToRateLimits_def Index_entries [OF assms] foldl_append_concat by fastforce

theorem ToRateLimits_last_writes_witness:
  "\<exists>es. ToRateLimits (\<lambda>m. m) (foldl (\<lambda>m (k, v). Index_Set gm_set m k v) []
      [(''a'', [ex_limitador_limit []]), (''b'', []), (''a'', [ex_limitador_limit [''c'']])]) = concat (map snd es) \<and>
    gm_wf es \<and> map_of es = map_of [(''a'', [ex_limitador_limit [''c'']]), (''a'', [ex_limitador_limit []])]"
proof -
  have "om_laws [] gm_set (\<lambda>m. m)" by (simp add: om_laws_def)
  from ToRateLimits_last_writes [OF this, of "[(''a'', [ex_limitador_limit []]), (''b'', []), (''a'', [ex_limitador_limit [''c'']])]"]
  show ?thesis by simp
qed

end
