(* ===== verification/Gateway_API.thy ===== *)
theory Gateway_API
  imports Go_Prelude Rate_Limit_Index "HOL-Library.Product_Lexorder"
begin

text \<open>
  Hostnames, route matches and status conditions (\<open>internal/utils/hostname.go\<close>,
  \<open>internal/utils/map_utils.go\<close>, \<open>internal/utils/k8s_utils.go\<close>, \<open>internal/utils/crd.go\<close>,
  \<open>internal/gatewayapi/types.go\<close>, \<open>internal/gatewayapi/utils.go\<close>).

  The structs of the Gateway API are records with the fields the operator reads; a time stamp is
  the instant it denotes, an \<^typ>\<open>int\<close>.  The condition helpers of \<open>apimachinery\<close> are
  parameters (\<open>isTrue\<close> for \<open>meta.IsStatusConditionTrue\<close>, \<open>findCond\<close> for
  \<open>meta.FindStatusCondition\<close>), as are \<open>schema.ParseGroupVersion\<close>, the REST mapper and the
  Kubernetes client.
\<close>

section \<open>Hostnames\<close>

definition IsWildCarded :: "string \<Rightarrow> bool" where
  "IsWildCarded n \<longleftrightarrow> length n > 0 \<and> n ! 0 = CHR ''*''"

definition SubsetOf :: "string \<Rightarrow> string \<Rightarrow> bool" where
  "SubsetOf n o' =
     (let hWildcard = IsWildCarded n; oWildcard = IsWildCarded o' in
      if hWildcard then
        (if oWildcard then
           (if length n < length o' then False else HasSuffix (drop 1 n) (drop 1 o'))
         else False)
      else if oWildcard then HasSuffix n (drop 1 o')
      else n = o')"

definition CompareHostnamesSpecificity :: "string \<Rightarrow> string \<Rightarrow> bool" where
  "CompareHostnamesSpecificity hostname1 hostname2 =
     (let labels1 = length (Split hostname1 CHR ''.'');
          labels2 = length (Split hostname2 CHR ''.'') in
      if labels1 \<noteq> labels2 then labels1 > labels2
      else let hasWildcard1 = HasPrefix hostname1 ''*'';
               hasWildcard2 = HasPrefix hostname2 ''*'' in
        if hasWildcard1 \<noteq> hasWildcard2 then \<not> hasWildcard1
        else hostname1 < hostname2)"

section \<open>Route matches\<close>

abbreviation PathMatchExact :: string where "PathMatchExact \<equiv> ''Exact''"
abbreviation PathMatchPathPrefix :: string where "PathMatchPathPrefix \<equiv> ''PathPrefix''"
abbreviation PathMatchRegularExpression :: string where "PathMatchRegularExpression \<equiv> ''RegularExpression''"

record HTTPPathMatch =
  path_Type :: "string option"
  path_Value :: "string option"

record HTTPHeaderMatch =
  header_Type :: "string option"
  header_Name :: string
  header_Value :: string

record HTTPQueryParamMatch =
  query_Name :: string
  query_Value :: string

record HTTPRouteMatch =
  match_Path :: "HTTPPathMatch option"
  match_Headers :: "HTTPHeaderMatch list"
  match_QueryParams :: "HTTPQueryParamMatch list"
  match_Method :: "string option"

record GRPCMethodMatch =
  gm_Type :: "string option"
  gm_Service :: "string option"
  gm_Method :: "string option"

record GRPCHeaderMatch =
  gh_Type :: "string option"
  gh_Name :: string
  gh_Value :: string

record GRPCRouteMatch =
  gr_Method :: "GRPCMethodMatch option"
  gr_Headers :: "GRPCHeaderMatch list"

text \<open>The \<open>Config\<close> a match carries is opaque to the sort.\<close>

record 'cfg HTTPRouteMatchConfig =
  rm_Hostname :: string
  rm_HTTPRouteMatch :: HTTPRouteMatch
  rm_CreationTimestamp :: int
  rm_Namespace :: string
  rm_Name :: string
  rm_RuleIndex :: int
  rm_MatchIndex :: int
  rm_Identifier :: string
  rm_Config :: 'cfg

definition pathMatchCount :: "HTTPPathMatch option \<Rightarrow> int" where
  "pathMatchCount pathMatch =
     (case pathMatch of Some p \<Rightarrow> (case path_Value p of Some v \<Rightarrow> int (length v) | None \<Rightarrow> 0) | None \<Rightarrow> 0)"

text \<open>The type of a path match, when there is a path and it states one.\<close>

definition pathMatchType :: "HTTPRouteMatch \<Rightarrow> string option" where
  "pathMatchType m = Option.bind (match_Path m) path_Type"

definition SortableHTTPRouteMatchConfigs_Less ::
  "'cfg HTTPRouteMatchConfig \<Rightarrow> 'cfg HTTPRouteMatchConfig \<Rightarrow> bool" where
  "SortableHTTPRouteMatchConfigs_Less ci cj =
     (let mi = rm_HTTPRouteMatch ci; mj = rm_HTTPRouteMatch cj;
          ti = pathMatchType mi; tj = pathMatchType mj in
      if rm_Hostname ci \<noteq> rm_Hostname cj
        then CompareHostnamesSpecificity (rm_Hostname ci) (rm_Hostname cj)
      else if ti = Some PathMatchExact \<and>
          (tj = Some PathMatchRegularExpression \<or> tj = Some PathMatchPathPrefix) then True
      else if ti = Some PathMatchRegularExpression \<and> tj = Some PathMatchExact then False
      else if ti = Some PathMatchRegularExpression \<and> tj = Some PathMatchPathPrefix then True
      else if ti = Some PathMatchPathPrefix \<and>
          (tj = Some PathMatchExact \<or> tj = Some PathMatchRegularExpression) then False
      else
      let pCountI = pathMatchCount (match_Path mi); pCountJ = pathMatchCount (match_Path mj);
          hasMethodI = (match_Method mi \<noteq> None); hasMethodJ = (match_Method mj \<noteq> None);
          hCountI = length (match_Headers mi); hCountJ = length (match_Headers mj);
          qCountI = length (match_QueryParams mi); qCountJ = length (match_QueryParams mj);
          p1Time = rm_CreationTimestamp ci; p2Time = rm_CreationTimestamp cj;
          iName = rm_Namespace ci @ ''/'' @ rm_Name ci; jName = rm_Namespace cj @ ''/'' @ rm_Name cj in
      if pCountI \<noteq> pCountJ then pCountI > pCountJ
      else if hasMethodI \<noteq> hasMethodJ then \<not> hasMethodI
      else if hCountI \<noteq> hCountJ then hCountI > hCountJ
      else if qCountI \<noteq> qCountJ then qCountI > qCountJ
      else if p1Time \<noteq> p2Time then p1Time < p2Time
      else if iName \<noteq> jName then iName < jName
      else if rm_RuleIndex ci \<noteq> rm_RuleIndex cj then rm_RuleIndex ci < rm_RuleIndex cj
      else if rm_MatchIndex ci \<noteq> rm_MatchIndex cj then rm_MatchIndex ci < rm_MatchIndex cj
      else rm_Identifier ci < rm_Identifier cj)"

type_synonym 'cfg GroupedHTTPRouteMatchConfigs = "(string, 'cfg HTTPRouteMatchConfig list) gomap"

definition Grouped_Add ::
  "'cfg GroupedHTTPRouteMatchConfigs \<Rightarrow> string \<Rightarrow> 'cfg HTTPRouteMatchConfig list \<Rightarrow> 'cfg GroupedHTTPRouteMatchConfigs" where
  "Grouped_Add g key configs =
     foldl (\<lambda>g config. gm_set key (Deref (map_of g key) [] @ [config]) g) g configs"

definition Grouped_Sorted ::
  "'cfg GroupedHTTPRouteMatchConfigs option \<Rightarrow> 'cfg GroupedHTTPRouteMatchConfigs option" where
  "Grouped_Sorted g = (case g of None \<Rightarrow> None
     | Some g \<Rightarrow> Some (gm_map_values (\<lambda>configs _. go_sort SortableHTTPRouteMatchConfigs_Less configs) g))"

section \<open>References and status\<close>

abbreviation GroupName :: string where "GroupName \<equiv> ''gateway.networking.k8s.io''"
abbreviation GatewayKind :: string where "GatewayKind \<equiv> ''Gateway''"

record ParentReference =
  parent_Group :: "string option"
  parent_Kind :: "string option"
  parent_Namespace :: "string option"
  parent_Name :: string
  parent_SectionName :: "string option"
  parent_Port :: "int option"

record Condition =
  cond_Type :: string
  cond_Status :: string
  cond_Reason :: string
  cond_Message :: string

record RouteParentStatus =
  rps_ParentRef :: ParentReference
  rps_ControllerName :: string
  rps_Conditions :: "Condition list"

record Listener =
  listener_Name :: string
  listener_Hostname :: "string option"
  listener_Port :: int

record Gateway =
  gateway_Group :: string
  gateway_Kind :: string
  gateway_Namespace :: string
  gateway_Name :: string
  gateway_ClassName :: string
  gateway_ListenerStatus :: "(string \<times> Condition list) list"

text \<open>What the helpers read of an \<open>HTTPRoute\<close>; a \<open>GRPCRoute\<close> has the same fields.\<close>

record Route =
  route_Namespace :: string
  route_Name :: string
  route_Hostnames :: "string list"
  route_ParentRefs :: "ParentReference list"
  route_Parents :: "RouteParentStatus list"

definition normalizeParentReference :: "ParentReference \<Rightarrow> string \<Rightarrow> ParentReference" where
  "normalizeParentReference ref routeNamespace =
     (let normalized = ref;
          normalized = (if parent_Group normalized = None then normalized\<lparr>parent_Group := Some GroupName\<rparr> else normalized);
          normalized = (if parent_Kind normalized = None then normalized\<lparr>parent_Kind := Some GatewayKind\<rparr> else normalized);
          normalized = (if parent_Namespace normalized = None
            then normalized\<lparr>parent_Namespace := Some routeNamespace\<rparr> else normalized)
      in normalized)"

definition parentReferencesMatch :: "ParentReference \<Rightarrow> ParentReference \<Rightarrow> string \<Rightarrow> bool" where
  "parentReferencesMatch a b routeNamespace =
     (let normA = normalizeParentReference a routeNamespace;
          normB = normalizeParentReference b routeNamespace in
      Deref (parent_Group normA) [] = Deref (parent_Group normB) [] \<and>
      Deref (parent_Kind normA) [] = Deref (parent_Kind normB) [] \<and>
      Deref (parent_Namespace normA) [] = Deref (parent_Namespace normB) [] \<and>
      parent_Name normA = parent_Name normB \<and>
      Deref (parent_SectionName normA) [] = Deref (parent_SectionName normB) [] \<and>
      Deref (parent_Port normA) 0 = Deref (parent_Port normB) 0)"

definition HostnamesFromListenerAndHTTPRoute :: "Listener \<Rightarrow> Route \<Rightarrow> string list" where
  "HostnamesFromListenerAndHTTPRoute listener httpRoute =
     (let hostname = (case listener_Hostname listener of None \<Rightarrow> ''*'' | Some h \<Rightarrow> h) in
      if length (route_Hostnames httpRoute) > 0
      then filter (\<lambda>h. SubsetOf h hostname) (route_Hostnames httpRoute)
      else [hostname])"

definition GetHTTPRouteAcceptedParentRefs ::
  "(Condition list \<Rightarrow> string \<Rightarrow> bool) \<Rightarrow> Route option \<Rightarrow> ParentReference list" where
  "GetHTTPRouteAcceptedParentRefs isTrue route = (case route of None \<Rightarrow> [] | Some route \<Rightarrow>
     utils_Filter (route_ParentRefs route) (\<lambda>p.
       list_ex (\<lambda>parentStatus. parentReferencesMatch (rps_ParentRef parentStatus) p (route_Namespace route) \<and>
         isTrue (rps_Conditions parentStatus) ''Accepted'') (route_Parents route)))"

definition IsHTTPRouteAccepted :: "(Condition list \<Rightarrow> string \<Rightarrow> bool) \<Rightarrow> Route \<Rightarrow> bool" where
  "IsHTTPRouteAccepted isTrue httpRoute =
     (let acceptedParentRefs = GetHTTPRouteAcceptedParentRefs isTrue (Some httpRoute) in
      if length acceptedParentRefs = 0 then False
      else length acceptedParentRefs = length (route_ParentRefs httpRoute))"

definition GetGRPCRouteAcceptedParentRefs ::
  "(Condition list \<Rightarrow> string \<Rightarrow> bool) \<Rightarrow> Route option \<Rightarrow> ParentReference list" where
  "GetGRPCRouteAcceptedParentRefs isTrue route = (case route of None \<Rightarrow> [] | Some route \<Rightarrow>
     utils_Filter (route_ParentRefs route) (\<lambda>p.
       list_ex (\<lambda>parentStatus. parentReferencesMatch (rps_ParentRef parentStatus) p (route_Namespace route) \<and>
         isTrue (rps_Conditions parentStatus) ''Accepted'') (route_Parents route)))"

definition IsGRPCRouteAccepted :: "(Condition list \<Rightarrow> string \<Rightarrow> bool) \<Rightarrow> Route \<Rightarrow> bool" where
  "IsGRPCRouteAccepted isTrue grpcRoute =
     (let acceptedParentRefs = GetGRPCRouteAcceptedParentRefs isTrue (Some grpcRoute) in
      if length acceptedParentRefs = 0 then False
      else length acceptedParentRefs = length (route_ParentRefs grpcRoute))"

definition gatewayRefMatches :: "ParentReference \<Rightarrow> Gateway \<Rightarrow> string \<Rightarrow> bool" where
  "gatewayRefMatches ref gateway routeNamespace \<longleftrightarrow>
     Deref (parent_Group ref) GroupName = gateway_Group gateway \<and>
     Deref (parent_Kind ref) GatewayKind = gateway_Kind gateway \<and>
     Deref (parent_Namespace ref) routeNamespace = gateway_Namespace gateway \<and>
     parent_Name ref = gateway_Name gateway"

definition IsHTTPRouteReady ::
  "(Condition list \<Rightarrow> string \<Rightarrow> bool) \<Rightarrow> Route \<Rightarrow> Gateway \<Rightarrow> string \<Rightarrow> bool" where
  "IsHTTPRouteReady isTrue httpRoute gateway controllerName =
     (case List.find (\<lambda>s. rps_ControllerName s = controllerName \<and>
          gatewayRefMatches (rps_ParentRef s) gateway (route_Namespace httpRoute)) (route_Parents httpRoute) of
        None \<Rightarrow> False | Some routeStatus \<Rightarrow> isTrue (rps_Conditions routeStatus) ''Accepted'')"

definition IsGRPCRouteReady ::
  "(Condition list \<Rightarrow> string \<Rightarrow> bool) \<Rightarrow> Route \<Rightarrow> Gateway \<Rightarrow> Listener \<Rightarrow> string \<Rightarrow> bool" where
  "IsGRPCRouteReady isTrue grpcRoute gateway listener controllerName =
     (case List.find (\<lambda>s. let ref = rps_ParentRef s in
          if rps_ControllerName s \<noteq> controllerName then False
          else if \<not> gatewayRefMatches ref gateway (route_Namespace grpcRoute) then False
          else if parent_SectionName ref \<noteq> None \<and> parent_SectionName ref \<noteq> Some (listener_Name listener) then False
          else if parent_Port ref \<noteq> None \<and> parent_Port ref \<noteq> Some (listener_Port listener) then False
          else True) (route_Parents grpcRoute) of
        None \<Rightarrow> False | Some routeStatus \<Rightarrow> isTrue (rps_Conditions routeStatus) ''Accepted'')"

definition IsListenerReady :: "(Condition list \<Rightarrow> string \<Rightarrow> bool) \<Rightarrow> Listener \<Rightarrow> Gateway \<Rightarrow> bool" where
  "IsListenerReady isTrue listener gateway =
     (case List.find (\<lambda>(name, conditions). name = listener_Name listener) (gateway_ListenerStatus gateway) of
        None \<Rightarrow> False | Some (name, conditions) \<Rightarrow> isTrue conditions ''Programmed'')"

definition IsPolicyAccepted :: "(Condition list \<Rightarrow> string \<Rightarrow> Condition option) \<Rightarrow> Condition list \<Rightarrow> bool" where
  "IsPolicyAccepted findCond conditions =
     (case findCond conditions ''Accepted'' of None \<Rightarrow> False | Some condition \<Rightarrow> cond_Status condition = ''True'')"

record PolicyAncestorStatus =
  pas_AncestorRef :: ParentReference
  pas_ControllerName :: string
  pas_Conditions :: "Condition list"

definition PolicyStatusConditionsFromAncestor ::
  "PolicyAncestorStatus list \<Rightarrow> string \<Rightarrow> ParentReference \<Rightarrow> string \<Rightarrow> Condition list" where
  "PolicyStatusConditionsFromAncestor ancestors controllerName ancestor defaultNamespace =
     (case List.find (\<lambda>a. let ref = pas_AncestorRef a in
          pas_ControllerName a = controllerName \<and>
          Deref (parent_Group ref) GroupName = Deref (parent_Group ancestor) GroupName \<and>
          Deref (parent_Kind ref) GatewayKind = Deref (parent_Kind ancestor) GatewayKind \<and>
          Deref (parent_Namespace ref) defaultNamespace = Deref (parent_Namespace ancestor) defaultNamespace \<and>
          parent_Name ref = parent_Name ancestor \<and>
          Deref (parent_SectionName ref) [] = Deref (parent_SectionName ancestor) []) ancestors of
        None \<Rightarrow> [] | Some status \<Rightarrow> pas_Conditions status)"

record TargetRefWithSectionName =
  tref_Group :: string
  tref_Kind :: string
  tref_Name :: string
  tref_SectionName :: "string option"

definition EqualLocalPolicyTargetReferencesWithSectionName ::
  "TargetRefWithSectionName list \<Rightarrow> TargetRefWithSectionName list \<Rightarrow> bool" where
  "EqualLocalPolicyTargetReferencesWithSectionName a b \<longleftrightarrow>
     length a = length b \<and>
     list_all (\<lambda>aRef. list_ex (\<lambda>bRef. tref_Group aRef = tref_Group bRef \<and> tref_Kind aRef = tref_Kind bRef \<and>
       tref_Name aRef = tref_Name bRef \<and>
       Deref (tref_SectionName aRef) [] = Deref (tref_SectionName bRef) []) b) a"

section \<open>Installed resources and object metadata\<close>

text \<open>The answer of the REST mapper: a mapping, the error for no match, or another error.\<close>

datatype rest_mapping = Mapped | NoMatch | MapperError string

type_synonym rest_mapper = "string \<Rightarrow> string \<Rightarrow> string \<Rightarrow> rest_mapping"

definition IsCRDInstalled :: "rest_mapper \<Rightarrow> string \<Rightarrow> string \<Rightarrow> string \<Rightarrow> bool \<times> string option" where
  "IsCRDInstalled restMapper grp kind version =
     (case restMapper grp kind version of Mapped \<Rightarrow> (True, None)
      | NoMatch \<Rightarrow> (False, None) | MapperError e \<Rightarrow> (False, Some e))"

definition IsGatewayAPIInstalled :: "rest_mapper \<Rightarrow> bool \<times> string option" where
  "IsGatewayAPIInstalled restMapper = IsCRDInstalled restMapper GroupName ''HTTPRoute'' ''v1''"

definition IsCertManagerInstalled :: "rest_mapper \<Rightarrow> bool \<times> string option" where
  "IsCertManagerInstalled restMapper =
     (let (ok, err) = IsCRDInstalled restMapper ''cert-manager.io'' ''Certificate'' ''v1'' in
      if \<not> ok \<or> err \<noteq> None then (False, err)
      else let (ok, err) = IsCRDInstalled restMapper ''cert-manager.io'' ''Issuer'' ''v1'' in
      if \<not> ok \<or> err \<noteq> None then (False, err)
      else let (ok, err) = IsCRDInstalled restMapper ''cert-manager.io'' ''ClusterIssuer'' ''v1'' in
      if \<not> ok \<or> err \<noteq> None then (False, err)
      else (True, None))"

text \<open>\<open>existing\<close> is a pointer to a map: nil, or a map that is itself nil or not.\<close>

definition MergeMapStringString ::
  "(string, string) gomap option option \<Rightarrow> (string, string) gomap \<Rightarrow> (string, string) gomap option option \<times> bool" where
  "MergeMapStringString existing desired =
     (case existing of None \<Rightarrow> (None, False)
      | Some m \<Rightarrow>
        let m = Deref m [];
            (m, modified) = foldl (\<lambda>(m, modified) (desiredKey, desiredValue).
              if map_of m desiredKey \<noteq> Some desiredValue
              then (gm_set desiredKey desiredValue m, True) else (m, modified)) (m, False) desired
        in (Some (Some m), modified))"

definition DeleteTagAnnotation :: string where "DeleteTagAnnotation = ''kuadrant.io/delete''"

record OwnerReference =
  owner_APIVersion :: string
  owner_Kind :: string
  owner_Name :: string
  owner_UID :: string
  owner_BlockOwnerDeletion :: "bool option"
  owner_Controller :: "bool option"

record ObjectMeta =
  obj_Group :: string
  obj_Kind :: string
  obj_Namespace :: string
  obj_Name :: string
  obj_Annotations :: "(string, string) gomap option"
  obj_OwnerReferences :: "OwnerReference list"

definition TagObjectToDelete :: "'a ObjectMeta_scheme \<Rightarrow> 'a ObjectMeta_scheme" where
  "TagObjectToDelete obj =
     (let annotations = (case obj_Annotations obj of None \<Rightarrow> [] | Some m \<Rightarrow> m)
      in obj\<lparr>obj_Annotations := Some (gm_set DeleteTagAnnotation ''true'' annotations)\<rparr>)"

definition IsObjectTaggedToDelete :: "'a ObjectMeta_scheme \<Rightarrow> bool" where
  "IsObjectTaggedToDelete obj =
     (case obj_Annotations obj of None \<Rightarrow> False
      | Some annotations \<Rightarrow> map_of annotations DeleteTagAnnotation = Some ''true'')"

text \<open>\<open>parseGroup\<close> is the group of \<open>schema.ParseGroupVersion\<close>, \<open>None\<close> its error.\<close>

fun isOwnedByLoop :: "(string \<Rightarrow> string option) \<Rightarrow> ObjectMeta \<Rightarrow> OwnerReference list \<Rightarrow> bool" where
  "isOwnedByLoop parseGroup owner [] = False"
| "isOwnedByLoop parseGroup owner (ref # refs) =
     (case parseGroup (owner_APIVersion ref) of None \<Rightarrow> False
      | Some grp \<Rightarrow> if grp = obj_Group owner \<and> owner_Kind ref = obj_Kind owner \<and> obj_Name owner = owner_Name ref
          then True else isOwnedByLoop parseGroup owner refs)"

definition IsOwnedBy :: "(string \<Rightarrow> string option) \<Rightarrow> ObjectMeta \<Rightarrow> ObjectMeta \<Rightarrow> bool" where
  "IsOwnedBy parseGroup owned owner =
     (if obj_Namespace owned \<noteq> obj_Namespace owner then False
      else isOwnedByLoop parseGroup owner (obj_OwnerReferences owned))"

text \<open>
  The cluster id is cached in a package variable: the state is the cache, \<open>uid\<close> the answer of
  the API server for the namespace \<open>kube-system\<close>.
\<close>

definition GetClusterUID :: "string + string \<Rightarrow> string \<Rightarrow> (string + string) \<times> string" where
  "GetClusterUID uid clusterUID =
     (if clusterUID \<noteq> [] then (Inr clusterUID, clusterUID)
      else (case uid of Inl err \<Rightarrow> (Inl err, clusterUID) | Inr u \<Rightarrow> (Inr u, u)))"

section \<open>Hostname patterns\<close>

text \<open>The concrete hostnames a possibly wildcarded hostname stands for.\<close>

definition covers :: "string \<Rightarrow> string set" where
  "covers n = {x. \<not> IsWildCarded x \<and> (if IsWildCarded n then HasSuffix x (drop 1 n) else x = n)}"

lemma SubsetOf_cases:
  "SubsetOf n o' \<longleftrightarrow>
     (if IsWildCarded o' then HasSuffix (if IsWildCarded n then drop 1 n else n) (drop 1 o')
      else \<not> IsWildCarded n \<and> n = o')"
  by (cases n; cases o') (auto simp: SubsetOf_def Let_def HasSuffix_def IsWildCarded_def)

lemma covers_concrete: "\<not> IsWildCarded n \<Longrightarrow> covers n = {n}"
  by (auto simp: covers_def)

lemma concrete_prefix: "c \<noteq> CHR ''*'' \<Longrightarrow> \<not> IsWildCarded (c # s)"
  by (simp add: IsWildCarded_def)

lemma covers_wildcard_mem: "IsWildCarded n \<Longrightarrow> c \<noteq> CHR ''*'' \<Longrightarrow> c # drop 1 n \<in> covers n"
  by (auto simp: covers_def concrete_prefix HasSuffix_iff)

lemma suffix_of_two_extensions:
  assumes "HasSuffix (c # s) t" "HasSuffix (d # s) t" "c \<noteq> d"
  shows "HasSuffix s t"
  using assms by (auto simp: HasSuffix_iff Cons_eq_append_conv)

lemma covers_wildcards:
  assumes "IsWildCarded n" "IsWildCarded o'"
  shows "covers n \<subseteq> covers o' \<longleftrightarrow> HasSuffix (drop 1 n) (drop 1 o')"
proof
  assume sub: "covers n \<subseteq> covers o'"
  have "CHR ''a'' # drop 1 n \<in> covers o'" "CHR ''b'' # drop 1 n \<in> covers o'"
    using covers_wildcard_mem [OF assms(1)] sub by auto
  then have "HasSuffix (CHR ''a'' # drop 1 n) (drop 1 o')" "HasSuffix (CHR ''b'' # drop 1 n) (drop 1 o')"
    using assms(2) by (simp_all add: covers_def)
  then show "HasSuffix (drop 1 n) (drop 1 o')" by (rule suffix_of_two_extensions) simp
qed (use assms in \<open>auto simp: covers_def intro: HasSuffix_trans\<close>)

lemma SubsetOf_covers: "SubsetOf n o' \<longleftrightarrow> covers n \<subseteq> covers o'"
proof (cases "IsWildCarded n")
  case True
  show ?thesis
  proof (cases "IsWildCarded o'")
    case o: True
    then show ?thesis using covers_wildcards [OF True o] True by (simp add: SubsetOf_cases)
  next
    case False
    have "CHR ''a'' # drop 1 n \<in> covers n" "CHR ''b'' # drop 1 n \<in> covers n"
      using covers_wildcard_mem [OF True] by auto
    moreover have "CHR ''a'' # drop 1 n \<noteq> CHR ''b'' # drop 1 n" by simp
    ultimately have "\<not> covers n \<subseteq> {o'}" by blast
    then have "\<not> covers n \<subseteq> covers o'" using covers_concrete [OF False] by simp
    then show ?thesis using True False by (simp add: SubsetOf_cases)
  qed
next
  case False
  then have "covers n \<subseteq> covers o' \<longleftrightarrow> n \<in> covers o'" by (simp add: covers_concrete)
  with False show ?thesis by (simp add: SubsetOf_cases) (simp add: covers_def)
qed

text \<open>
  \<open>SubsetOf\<close> is inclusion of the concrete hostnames: a hostname is a subset of another
  exactly when every concrete hostname it stands for is one the other stands for.
\<close>

theorem SubsetOf_is_inclusion: "SubsetOf n o' \<longleftrightarrow> covers n \<subseteq> covers o'"
  by (rule SubsetOf_covers)

text \<open>
  The hostnames used for a route on a listener: the listener's own when the route names
  none; otherwise exactly the route's hostnames, in order, that the listener's hostname covers.
  In particular no hostname outside the listener's is ever used.
\<close>

theorem HostnamesFromListener_within:
  "let hostname = Deref (listener_Hostname l) ''*''; hs = HostnamesFromListenerAndHTTPRoute l r in
     (route_Hostnames r = [] \<longrightarrow> hs = [hostname]) \<and>
     (route_Hostnames r \<noteq> [] \<longrightarrow> hs = filter (\<lambda>h. covers h \<subseteq> covers hostname) (route_Hostnames r)) \<and>
     (\<forall>h\<in>set hs. covers h \<subseteq> covers hostname)"
  by (auto simp: HostnamesFromListenerAndHTTPRoute_def Let_def Deref_def SubsetOf_covers split: option.splits)

definition ex_wildcard_listener :: Listener where
  "ex_wildcard_listener = \<lparr>listener_Name = ''l'', listener_Hostname = Some ''*.example.com'', listener_Port = 80\<rparr>"

definition ex_two_hosts :: Route where
  "ex_two_hosts = \<lparr>route_Namespace = ''ns'', route_Name = ''r'', route_Hostnames = [''a.example.com'', ''a.other.com''],
     route_ParentRefs = [], route_Parents = []\<rparr>"

theorem HostnamesFromListener_within_witness:
  "list_all (\<lambda>h. covers h \<subseteq> covers ''*.example.com'') (HostnamesFromListenerAndHTTPRoute ex_wildcard_listener ex_two_hosts)"
proof -
  have "Deref (listener_Hostname ex_wildcard_listener) ''*'' = ''*.example.com''"
    by (simp add: ex_wildcard_listener_def)
  with HostnamesFromListener_within [of ex_wildcard_listener ex_two_hosts] show ?thesis
    unfolding Let_def list_all_iff by metis
qed

section \<open>The order of route matches\<close>

definition hostname_key :: "string \<Rightarrow> int \<times> bool \<times> string" where
  "hostname_key h = (- int (length (Split h CHR ''.'')), HasPrefix h ''*'', h)"

lemma CompareHostnamesSpecificity_key:
  "CompareHostnamesSpecificity a b \<longleftrightarrow> hostname_key a < hostname_key b"
  by (auto simp: CompareHostnamesSpecificity_def hostname_key_def Let_def less_prod_simp)

interpretation hostnames: go_total_order CompareHostnamesSpecificity
  by unfold_locales (auto simp: CompareHostnamesSpecificity_key hostname_key_def less_prod_simp)

text \<open>
  A path the API server admits after defaulting: it has one of the three types and a value that
  is not empty.  A match converted from gRPC may have no path at all.
\<close>

definition path_ok :: "HTTPRouteMatch \<Rightarrow> bool" where
  "path_ok m = (case match_Path m of None \<Rightarrow> True
     | Some p \<Rightarrow> (case path_Type p of None \<Rightarrow> False
         | Some t \<Rightarrow> t \<in> {PathMatchExact, PathMatchRegularExpression, PathMatchPathPrefix} \<and>
             path_Value p \<noteq> None \<and> path_Value p \<noteq> Some []))"

definition path_rank :: "HTTPRouteMatch \<Rightarrow> nat" where
  "path_rank m = (if pathMatchType m = Some PathMatchExact then 0
     else if pathMatchType m = Some PathMatchRegularExpression then 1
     else if pathMatchType m = Some PathMatchPathPrefix then 2 else 3)"

text \<open>What a match config is sorted by, from the most to the least significant.\<close>

definition match_key where
  "match_key c = (hostname_key (rm_Hostname c), path_rank (rm_HTTPRouteMatch c),
     - pathMatchCount (match_Path (rm_HTTPRouteMatch c)), match_Method (rm_HTTPRouteMatch c) \<noteq> None,
     - int (length (match_Headers (rm_HTTPRouteMatch c))), - int (length (match_QueryParams (rm_HTTPRouteMatch c))),
     rm_CreationTimestamp c, rm_Namespace c @ ''/'' @ rm_Name c, rm_RuleIndex c, rm_MatchIndex c, rm_Identifier c)"

lemma path_ok_rank_count:
  "path_ok m \<Longrightarrow> path_rank m = 3 \<longleftrightarrow> match_Path m = None"
  "path_ok m \<Longrightarrow> match_Path m \<noteq> None \<Longrightarrow> pathMatchCount (match_Path m) > 0"
  "match_Path m = None \<Longrightarrow> pathMatchCount (match_Path m) = 0"
  by (auto simp: path_ok_def path_rank_def pathMatchType_def pathMatchCount_def split: option.splits)

lemma path_rank_cases:
  obtains "pathMatchType m = Some PathMatchExact" "path_rank m = 0"
  | "pathMatchType m = Some PathMatchRegularExpression" "path_rank m = 1"
  | "pathMatchType m = Some PathMatchPathPrefix" "path_rank m = 2"
  | "pathMatchType m \<noteq> Some PathMatchExact" "pathMatchType m \<noteq> Some PathMatchRegularExpression"
    "pathMatchType m \<noteq> Some PathMatchPathPrefix" "path_rank m = 3"
  by (auto simp: path_rank_def split: if_splits)

lemma hostname_key_inj: "hostname_key a = hostname_key b \<longleftrightarrow> a = b"
  by (auto simp: hostname_key_def)

text \<open>One step of a comparison field by field, ascending or descending.\<close>

lemma lex_steps:
  "(if x \<noteq> y then x < y else R) \<longleftrightarrow> x < y \<or> x = y \<and> R"
  "(if i \<noteq> j then i > j else R) \<longleftrightarrow> - i < - j \<or> i = j \<and> R"
  "(if m \<noteq> n then m > n else R) \<longleftrightarrow> - int m < - int n \<or> m = n \<and> R"
  "(if p \<noteq> q then \<not> p else R) \<longleftrightarrow> p < q \<or> p = q \<and> R"
  for x y :: "'o :: linorder" and i j :: int and m n :: nat and p q :: bool
  by auto

lemma lex_pair: "(x, u) < (y, v) \<longleftrightarrow> x < y \<or> x = y \<and> u < v" for x y :: "'o :: linorder" and u v :: "'p :: linorder"
  by (auto simp: less_prod_simp)

text \<open>The part of the key below the path type.\<close>

definition match_key_tail where
  "match_key_tail c = (- pathMatchCount (match_Path (rm_HTTPRouteMatch c)), match_Method (rm_HTTPRouteMatch c) \<noteq> None,
     - int (length (match_Headers (rm_HTTPRouteMatch c))), - int (length (match_QueryParams (rm_HTTPRouteMatch c))),
     rm_CreationTimestamp c, rm_Namespace c @ ''/'' @ rm_Name c, rm_RuleIndex c, rm_MatchIndex c, rm_Identifier c)"

lemma Less_tail:
  "SortableHTTPRouteMatchConfigs_Less a b =
     (let ti = pathMatchType (rm_HTTPRouteMatch a); tj = pathMatchType (rm_HTTPRouteMatch b) in
      if rm_Hostname a \<noteq> rm_Hostname b then hostname_key (rm_Hostname a) < hostname_key (rm_Hostname b)
      else if ti = Some PathMatchExact \<and>
          (tj = Some PathMatchRegularExpression \<or> tj = Some PathMatchPathPrefix) then True
      else if ti = Some PathMatchRegularExpression \<and> tj = Some PathMatchExact then False
      else if ti = Some PathMatchRegularExpression \<and> tj = Some PathMatchPathPrefix then True
      else if ti = Some PathMatchPathPrefix \<and>
          (tj = Some PathMatchExact \<or> tj = Some PathMatchRegularExpression) then False
      else match_key_tail a < match_key_tail b)"
  unfolding SortableHTTPRouteMatchConfigs_Less_def Let_def CompareHostnamesSpecificity_key
    match_key_tail_def lex_pair lex_steps prod.inject neg_equal_iff_equal of_nat_eq_iff
  by (rule refl)

lemma match_key_less:
  "match_key a < match_key b \<longleftrightarrow>
     hostname_key (rm_Hostname a) < hostname_key (rm_Hostname b) \<or> rm_Hostname a = rm_Hostname b \<and>
     (path_rank (rm_HTTPRouteMatch a) < path_rank (rm_HTTPRouteMatch b) \<or>
      path_rank (rm_HTTPRouteMatch a) = path_rank (rm_HTTPRouteMatch b) \<and> match_key_tail a < match_key_tail b)"
  by (simp only: match_key_def match_key_tail_def [symmetric] lex_pair hostname_key_inj)

lemma match_Less_key:
  assumes "path_ok (rm_HTTPRouteMatch a)" "path_ok (rm_HTTPRouteMatch b)"
  shows "SortableHTTPRouteMatchConfigs_Less a b \<longleftrightarrow> match_key a < match_key b"
proof -
  let ?ma = "rm_HTTPRouteMatch a" and ?mb = "rm_HTTPRouteMatch b"
  have less: "match_key_tail a < match_key_tail b" if "path_rank ?ma < 3" "path_rank ?mb = 3"
    using that assms path_ok_rank_count [of ?ma] path_ok_rank_count [of ?mb]
    by (auto simp: match_key_tail_def lex_pair)
  have more: "\<not> match_key_tail a < match_key_tail b" if "path_rank ?ma = 3" "path_rank ?mb < 3"
    using that assms path_ok_rank_count [of ?ma] path_ok_rank_count [of ?mb]
    by (auto simp: match_key_tail_def lex_pair)
  show ?thesis
  proof (cases "rm_Hostname a = rm_Hostname b")
    case True
    then show ?thesis
      unfolding match_key_less Less_tail Let_def
      by (cases rule: path_rank_cases [of ?ma]; cases rule: path_rank_cases [of ?mb]) (use less more in simp_all)
  next
    case False
    then show ?thesis by (simp add: match_key_less Less_tail Let_def)
  qed
qed

interpretation match_keys: go_weak_order "\<lambda>a b. match_key a < match_key b"
  by unfold_locales auto

lemma go_sort_lt_cong:
  assumes "\<forall>x\<in>set xs. \<forall>y\<in>set xs. lt x y = lt' x y"
  shows "go_sort lt xs = go_sort lt' xs"
proof -
  have ins: "ins_left lt x ys = ins_left lt' x ys" if "x \<in> set xs" "set ys \<subseteq> set xs" for x ys
    using that assms by (induction ys) auto
  have "foldl (\<lambda>acc x. ins_left lt x acc) acc zs = foldl (\<lambda>acc x. ins_left lt' x acc) acc zs"
    if "set acc \<subseteq> set xs" "set zs \<subseteq> set xs" for acc zs
    using that
  proof (induction zs arbitrary: acc)
    case (Cons z zs)
    moreover have "set (ins_left lt' z acc) = insert z (set acc)"
      by (metis mset_ins_left set_mset_mset set_mset_add_mset_insert)
    ultimately show ?case using ins [of z acc] by simp
  qed simp
  then show ?thesis by (simp add: go_sort_def)
qed

lemma sort_matches_key:
  assumes "list_all (path_ok \<circ> rm_HTTPRouteMatch) cs"
  shows "go_sort SortableHTTPRouteMatchConfigs_Less cs = go_sort (\<lambda>a b. match_key a < match_key b) cs"
  using assms by (intro go_sort_lt_cong) (simp add: list_all_iff match_Less_key)

lemma Grouped_Add_lookup:
  "map_of (Grouped_Add g key cs) k =
     (if k = key \<and> cs \<noteq> [] then Some (Deref (map_of g key) [] @ cs) else map_of g k)"
proof (induction cs arbitrary: g)
  case (Cons c cs)
  have "Grouped_Add g key (c # cs) = Grouped_Add (gm_set key (Deref (map_of g key) [] @ [c]) g) key cs"
    by (simp add: Grouped_Add_def)
  with Cons show ?case by auto
qed (simp add: Grouped_Add_def)

text \<open>
  Sorting the match configs of a gateway keeps every config and orders them by hostname
  specificity, path match type, path length, absence of a method, number of headers and query
  parameters, age, route name, rule and match index, and identifier, in this order of
  significance; when no two configs agree on all of these the result does not depend on the order
  in which the configs were collected.
\<close>

theorem Grouped_Sorted_order:
  assumes "map_of g k = Some cs" "list_all (path_ok \<circ> rm_HTTPRouteMatch) cs"
  shows "\<exists>g' cs'. Grouped_Sorted (Some g) = Some g' \<and> map_of g' k = Some cs' \<and>
    mset cs' = mset cs \<and> sorted (map match_key cs') \<and>
    (inj_on match_key (set cs) \<longrightarrow>
      (\<forall>ds. mset ds = mset cs \<longrightarrow> go_sort SortableHTTPRouteMatchConfigs_Less ds = cs'))"
proof -
  define cs' where "cs' = go_sort SortableHTTPRouteMatchConfigs_Less cs"
  have "sorted (map match_key cs')"
    using match_keys.go_sort_sorted [of cs]
    by (simp add: cs'_def sort_matches_key [OF assms(2)] sorted_wrt_map not_less)
  moreover have "go_sort SortableHTTPRouteMatchConfigs_Less ds = cs'"
    if inj: "inj_on match_key (set cs)" and ds: "mset ds = mset cs" for ds
  proof -
    have set: "set ds = set cs" using ds by (rule mset_eq_setD)
    then have ok: "list_all (path_ok \<circ> rm_HTTPRouteMatch) ds" using assms(2) by (simp add: list_all_iff)
    have "\<forall>x\<in>set ds. \<forall>y\<in>set ds. \<not> match_key x < match_key y \<longrightarrow> \<not> match_key y < match_key x \<longrightarrow> x = y"
      using inj set by (simp add: inj_on_def not_less)
    from match_keys.go_sort_eq_iff_on [OF this, of cs] ds show ?thesis
      by (simp add: cs'_def sort_matches_key [OF ok] sort_matches_key [OF assms(2)])
  qed
  moreover have "mset cs' = mset cs" by (simp add: cs'_def)
  moreover have "map_of (gm_map_values (\<lambda>configs _. go_sort SortableHTTPRouteMatchConfigs_Less configs) g) k = Some cs'"
    by (simp add: assms(1) cs'_def)
  ultimately show ?thesis unfolding Grouped_Sorted_def option.case by blast
qed

text \<open>Two matches on the same path, one for \<open>GET\<close> and one for every method.\<close>

definition ex_match :: "string option \<Rightarrow> HTTPRouteMatch" where
  "ex_match method = \<lparr>match_Path = Some \<lparr>path_Type = Some PathMatchPathPrefix, path_Value = Some ''/toy''\<rparr>,
     match_Headers = [], match_QueryParams = [], match_Method = method\<rparr>"

definition ex_match_config :: "string option \<Rightarrow> nat HTTPRouteMatchConfig" where
  "ex_match_config method = \<lparr>rm_Hostname = ''a.example.com'', rm_HTTPRouteMatch = ex_match method,
     rm_CreationTimestamp = 7, rm_Namespace = ''ns'', rm_Name = ''route'', rm_RuleIndex = 0,
     rm_MatchIndex = 0, rm_Identifier = ''id'', rm_Config = 0\<rparr>"

lemmas ex_match_defs = ex_match_def ex_match_config_def

lemma ex_match_path_ok: "path_ok (ex_match method)"
  by (simp add: path_ok_def ex_match_def)

theorem Grouped_Sorted_order_witness:
  "\<exists>g' cs'. Grouped_Sorted (Some [(''gw'', [ex_match_config (Some ''GET''), ex_match_config None])]) = Some g' \<and>
    map_of g' ''gw'' = Some cs' \<and> mset cs' = {#ex_match_config (Some ''GET''), ex_match_config None#} \<and>
    sorted (map match_key cs')"
proof -
  have "map_of [(''gw'', [ex_match_config (Some ''GET''), ex_match_config None])] ''gw'' =
      Some [ex_match_config (Some ''GET''), ex_match_config None]"
    and "list_all (path_ok \<circ> rm_HTTPRouteMatch) [ex_match_config (Some ''GET''), ex_match_config None]"
    by (simp_all add: ex_match_path_ok ex_match_config_def)
  from Grouped_Sorted_order [OF this] show ?thesis by (simp del: go_sort_Nil) blast
qed

text \<open>
  Among matches that differ only in the method, the one without a method comes first, and
  the one that names a method is ordered after it.
\<close>

theorem Less_method_last:
  "SortableHTTPRouteMatchConfigs_Less
     (c\<lparr>rm_HTTPRouteMatch := m\<lparr>match_Method := None\<rparr>\<rparr>) (c\<lparr>rm_HTTPRouteMatch := m\<lparr>match_Method := Some method\<rparr>\<rparr>) \<and>
   \<not> SortableHTTPRouteMatchConfigs_Less
     (c\<lparr>rm_HTTPRouteMatch := m\<lparr>match_Method := Some method\<rparr>\<rparr>) (c\<lparr>rm_HTTPRouteMatch := m\<lparr>match_Method := None\<rparr>\<rparr>)"
  by (simp add: SortableHTTPRouteMatchConfigs_Less_def pathMatchType_def Let_def)

section \<open>Acceptance, target references and metadata\<close>

lemma length_filter_eq: "length (filter P xs) = length xs \<longleftrightarrow> (\<forall>x\<in>set xs. P x)"
  by (metis filter_id_conv length_filter_less less_irrefl)

lemma normalizeParentReference_fields:
  "Deref (parent_Group (normalizeParentReference r ns)) [] = Deref (parent_Group r) GroupName"
  "Deref (parent_Kind (normalizeParentReference r ns)) [] = Deref (parent_Kind r) GatewayKind"
  "Deref (parent_Namespace (normalizeParentReference r ns)) [] = Deref (parent_Namespace r) ns"
  "parent_Name (normalizeParentReference r ns) = parent_Name r"
  "parent_SectionName (normalizeParentReference r ns) = parent_SectionName r"
  "parent_Port (normalizeParentReference r ns) = parent_Port r"
  by (auto simp: normalizeParentReference_def Let_def)

text \<open>What identifies a parent reference of a route in namespace \<open>ns\<close>.\<close>

definition parent_identity where
  "parent_identity ns r = (Deref (parent_Group r) GroupName, Deref (parent_Kind r) GatewayKind,
     Deref (parent_Namespace r) ns, parent_Name r, Deref (parent_SectionName r) [], Deref (parent_Port r) 0)"

lemma parentReferencesMatch_iff: "parentReferencesMatch a b ns \<longleftrightarrow> parent_identity ns a = parent_identity ns b"
  by (simp add: parentReferencesMatch_def Let_def parent_identity_def normalizeParentReference_fields)

text \<open>
  A route counts as accepted exactly when it has parent references and every one of them,
  not just some, is matched by a status entry for the same parent (defaults applied) that carries
  the condition \<open>Accepted\<close>; the same holds for gRPC routes.
\<close>

theorem IsRouteAccepted_all_parents:
  "(IsHTTPRouteAccepted isTrue r \<longleftrightarrow> route_ParentRefs r \<noteq> [] \<and>
     (\<forall>p\<in>set (route_ParentRefs r). \<exists>s\<in>set (route_Parents r).
        parent_identity (route_Namespace r) (rps_ParentRef s) = parent_identity (route_Namespace r) p \<and>
        isTrue (rps_Conditions s) ''Accepted'')) \<and>
   (IsGRPCRouteAccepted isTrue r \<longleftrightarrow> IsHTTPRouteAccepted isTrue r)"
proof -
  have "IsHTTPRouteAccepted isTrue r \<longleftrightarrow> route_ParentRefs r \<noteq> [] \<and>
      length (GetHTTPRouteAcceptedParentRefs isTrue (Some r)) = length (route_ParentRefs r)"
    by (auto simp: IsHTTPRouteAccepted_def Let_def)
  then show ?thesis
    by (simp add: IsGRPCRouteAccepted_def GetGRPCRouteAcceptedParentRefs_def IsHTTPRouteAccepted_def
        GetHTTPRouteAcceptedParentRefs_def length_filter_eq list_ex_iff parentReferencesMatch_iff
        filter_empty_conv)
qed

theorem IsRouteAccepted_all_parents_witness:
  "\<not> IsHTTPRouteAccepted (\<lambda>cs t. cs \<noteq> [])
     \<lparr>route_Namespace = ''ns'', route_Name = ''r'', route_Hostnames = [],
      route_ParentRefs = [\<lparr>parent_Group = None, parent_Kind = None, parent_Namespace = None, parent_Name = ''gw'',
        parent_SectionName = None, parent_Port = None\<rparr>], route_Parents = []\<rparr>"
  using IsRouteAccepted_all_parents [of "\<lambda>cs t. cs \<noteq> []" "\<lparr>route_Namespace = ''ns'', route_Name = ''r'', route_Hostnames = [],
      route_ParentRefs = [\<lparr>parent_Group = None, parent_Kind = None, parent_Namespace = None, parent_Name = ''gw'',
        parent_SectionName = None, parent_Port = None\<rparr>], route_Parents = []\<rparr>"] by simp

text \<open>
  A route hostname that is wider than the listener's is dropped: the route then has no hostname
  on the listener, although both have hostnames in common.
\<close>

lemma wider_route_hostname_dropped:
  "HostnamesFromListenerAndHTTPRoute
     \<lparr>listener_Name = ''l'', listener_Hostname = Some ''api.example.com'', listener_Port = 80\<rparr>
     \<lparr>route_Namespace = ''ns'', route_Name = ''r'', route_Hostnames = [''*.example.com''],
      route_ParentRefs = [], route_Parents = []\<rparr> = [] \<and>
   covers ''api.example.com'' \<inter> covers ''*.example.com'' = {''api.example.com''}"
  by (auto simp: HostnamesFromListenerAndHTTPRoute_def SubsetOf_def Let_def IsWildCarded_def covers_def HasSuffix_def)

definition tref_identity where
  "tref_identity r = (tref_Group r, tref_Kind r, tref_Name r, Deref (tref_SectionName r) [])"

lemma EqualTargetRefs_iff:
  "EqualLocalPolicyTargetReferencesWithSectionName a b \<longleftrightarrow>
     length a = length b \<and> tref_identity ` set a \<subseteq> tref_identity ` set b"
  by (auto simp: EqualLocalPolicyTargetReferencesWithSectionName_def list_all_iff list_ex_iff tref_identity_def image_iff)

text \<open>Without duplicates on the left, the comparison is equality up to order.\<close>

lemma EqualTargetRefs_distinct:
  assumes "distinct (map tref_identity a)"
  shows "EqualLocalPolicyTargetReferencesWithSectionName a b \<longleftrightarrow>
    mset (map tref_identity a) = mset (map tref_identity b)"
proof
  assume "EqualLocalPolicyTargetReferencesWithSectionName a b"
  then have len: "length a = length b" and sub: "set (map tref_identity a) \<subseteq> set (map tref_identity b)"
    by (auto simp: EqualTargetRefs_iff)
  have "card (set (map tref_identity b)) \<le> card (set (map tref_identity a))"
    using assms len by (metis card_length distinct_card length_map)
  with sub have eq: "set (map tref_identity a) = set (map tref_identity b)"
    by (intro card_seteq) auto
  then have "distinct (map tref_identity b)"
    using assms len by (metis card_distinct distinct_card length_map)
  with assms eq show "mset (map tref_identity a) = mset (map tref_identity b)"
    by (metis set_eq_iff_mset_eq_distinct)
next
  assume "mset (map tref_identity a) = mset (map tref_identity b)"
  then show "EqualLocalPolicyTargetReferencesWithSectionName a b"
    using mset_eq_setD [of "map tref_identity a" "map tref_identity b"]
      mset_eq_length [of "map tref_identity a" "map tref_identity b"]
    by (simp add: EqualTargetRefs_iff)
qed

lemma IsObjectTaggedToDelete_Tag: "IsObjectTaggedToDelete (TagObjectToDelete obj)"
  by (simp add: IsObjectTaggedToDelete_def TagObjectToDelete_def Let_def)

text \<open>Labels and annotations: desired entries win, the others stay, and a change is reported.\<close>

definition mergeMapStep where
  "mergeMapStep = (\<lambda>(m :: (string, string) gomap, modified) (k, v).
     if map_of m k \<noteq> Some v then (gm_set k v m, True) else (m, modified))"

lemma MergeMap_fold:
  "gm_wf d \<Longrightarrow> foldl mergeMapStep (m, b) d = (m', b') \<Longrightarrow>
    map_of m' = map_of m ++ map_of d \<and> (b' \<longleftrightarrow> b \<or> map_of m' \<noteq> map_of m)"
proof (induction d arbitrary: m b)
  case (Cons e d)
  obtain k v where e: "e = (k, v)" by fastforce
  have wf: "gm_wf d" and new: "map_of d k = None" using Cons.prems(1) e by (simp_all add: map_of_eq_None_fst)
  have upd: "map_of m ++ map_of (e # d) = (map_of m)(k \<mapsto> v) ++ map_of d"
    using new by (auto simp: e map_add_def fun_eq_iff split: option.splits)
  show ?case
  proof (cases "map_of m k = Some v")
    case True
    then have same: "(map_of m)(k \<mapsto> v) = map_of m" by auto
    from True Cons.prems(2) have "foldl mergeMapStep (m, b) d = (m', b')" by (simp add: e mergeMapStep_def)
    with Cons.IH [OF wf] have "map_of m' = map_of m ++ map_of d \<and> (b' \<longleftrightarrow> b \<or> map_of m' \<noteq> map_of m)" by blast
    then show ?thesis unfolding upd same .
  next
    case False
    from False Cons.prems(2) have "foldl mergeMapStep (gm_set k v m, True) d = (m', b')"
      by (simp add: e mergeMapStep_def)
    from Cons.IH [OF wf this] have fold: "map_of m' = (map_of m)(k \<mapsto> v) ++ map_of d" "b'"
      unfolding map_of_gm_set by blast+
    then have "map_of m' k = Some v" using new by (simp add: map_add_def)
    with False fold(2) have "b' \<longleftrightarrow> b \<or> map_of m' \<noteq> map_of m" by auto
    with fold(1) show ?thesis unfolding upd by blast
  qed
qed simp

lemma MergeMapStringString_spec:
  assumes "gm_wf desired"
  shows "\<exists>m modified. MergeMapStringString (Some existing) desired = (Some (Some m), modified) \<and>
    map_of m = map_of (Deref existing []) ++ map_of desired \<and>
    (modified \<longleftrightarrow> map_of m \<noteq> map_of (Deref existing []))"
  using MergeMap_fold [OF assms, of "Deref existing []" False]
  by (auto simp: MergeMapStringString_def mergeMapStep_def Let_def split: prod.splits)

lemma IsCertManagerInstalled_iff:
  "fst (IsCertManagerInstalled rm) \<longleftrightarrow>
     (\<forall>kind\<in>{''Certificate'', ''Issuer'', ''ClusterIssuer''}. rm ''cert-manager.io'' kind ''v1'' = Mapped)"
  by (auto simp: IsCertManagerInstalled_def IsCRDInstalled_def split: rest_mapping.splits)

text \<open>Once read, the cluster id never changes and no further request can fail.\<close>

lemma GetClusterUID_cached:
  "GetClusterUID u [] = (Inr x, c) \<Longrightarrow> x \<noteq> [] \<Longrightarrow> GetClusterUID u' c = (Inr x, c)"
  by (auto simp: GetClusterUID_def split: sum.splits)

end
