(* ===== verification/Merge_Strategies.thy ===== *)
theory Merge_Strategies
  imports Go_Prelude
begin

text \<open>
  The merging of policies along a topology path (\<open>api/v1/merge_strategies.go\<close>).

  The Go interfaces \<open>MergeablePolicy\<close> and \<open>MergeableRule\<close> are the method table
  \<open>mergeable_ops\<close>; the strategies take it as an argument, as the Go functions take interface
  values.  What a policy type promises about its methods is the locale \<open>mergeable_policy\<close>; the
  theories of the policy types interpret it, and the lemmas proved here once hold for each.

  A path's policies merge into one effective policy.  The abstract specification is
  \<open>effective_rules\<close>, a recursion on maps from rule identifiers to rules; the refinement lemma
  \<open>EffectivePolicyForPath_refines\<close> says that the code computes it and never panics.
\<close>

section \<open>Strategies\<close>

datatype merge_strategy =
    AtomicDefaults | AtomicOverrides | PolicyRuleDefaults | PolicyRuleOverrides

definition AtomicMergeStrategy :: string where
  "AtomicMergeStrategy = ''atomic''"

definition PolicyRuleMergeStrategy :: string where
  "PolicyRuleMergeStrategy = ''merge''"

definition DefaultsMergeStrategy :: "string \<Rightarrow> merge_strategy" where
  "DefaultsMergeStrategy strategy =
     (if strategy = AtomicMergeStrategy then AtomicDefaults
      else if strategy = PolicyRuleMergeStrategy then PolicyRuleDefaults
      else AtomicDefaults)"

definition OverridesMergeStrategy :: "string \<Rightarrow> merge_strategy" where
  "OverridesMergeStrategy strategy =
     (if strategy = AtomicMergeStrategy then AtomicOverrides
      else if strategy = PolicyRuleMergeStrategy then PolicyRuleOverrides
      else AtomicOverrides)"

section \<open>Mergeable policies and rules\<close>

record ('p, 'r) mergeable_ops =
  Rules :: "'p \<Rightarrow> (string, 'r) gomap"
  SetRules :: "'p \<Rightarrow> (string, 'r) gomap \<Rightarrow> 'p go_result"
  EmptyPolicy :: "'p \<Rightarrow> bool"
  GetLocator :: "'p \<Rightarrow> string"
  GetMergeStrategy :: "'p \<Rightarrow> merge_strategy"
  GetSource :: "'r \<Rightarrow> string"
  WithSource :: "'r \<Rightarrow> string \<Rightarrow> 'r"

definition NewMergeableRule :: "('r \<Rightarrow> string) \<Rightarrow> ('r \<Rightarrow> string \<Rightarrow> 'r) \<Rightarrow> 'r \<Rightarrow> string \<Rightarrow> 'r" where
  "NewMergeableRule getSource withSource rule defaultSource =
     (if getSource rule = [] then withSource rule defaultSource else rule)"

definition mapRuleWithSourceFunc :: "('p, 'r) mergeable_ops \<Rightarrow> 'p \<Rightarrow> 'r \<Rightarrow> string \<Rightarrow> 'r" where
  "mapRuleWithSourceFunc ops source rule ruleID =
     (if GetSource ops rule = [] then WithSource ops rule (GetLocator ops source) else rule)"

definition copyMergeablePolicy :: "('p, 'r) mergeable_ops \<Rightarrow> 'p \<Rightarrow> 'p go_result" where
  "copyMergeablePolicy ops policy =
     SetRules ops policy (gm_map_values (mapRuleWithSourceFunc ops policy) (Rules ops policy))"

text \<open>The loop that adds the rules of \<open>p\<close> that \<open>other\<close> does not have, and its body.\<close>

fun extraRuleStep ::
  "('p, 'r) mergeable_ops \<Rightarrow> 'p \<Rightarrow> (string, 'r) gomap \<Rightarrow> (string, 'r) gomap \<Rightarrow> string \<times> 'r \<Rightarrow> (string, 'r) gomap" where
  "extraRuleStep ops p other rules (ruleID, rule) =
     (if map_of other ruleID \<noteq> None then rules
      else (let origin = GetSource ops rule;
                origin = (if origin = [] then GetLocator ops p else origin)
            in gm_set ruleID (WithSource ops rule origin) rules))"

definition addExtraRules ::
  "('p, 'r) mergeable_ops \<Rightarrow> 'p \<Rightarrow> (string, 'r) gomap \<Rightarrow> (string, 'r) gomap \<Rightarrow> (string, 'r) gomap" where
  "addExtraRules ops p other rules = foldl (extraRuleStep ops p other) rules (Rules ops p)"

definition AtomicDefaultsMergeStrategy ::
  "('p, 'r) mergeable_ops \<Rightarrow> 'p option \<Rightarrow> 'p option \<Rightarrow> 'p option go_result" where
  "AtomicDefaultsMergeStrategy ops source target =
     (case source of None \<Rightarrow> Return target
      | Some s \<Rightarrow> (case target of None \<Rightarrow> Return source
         | Some t \<Rightarrow>
             if \<not> EmptyPolicy ops t then gbind (copyMergeablePolicy ops t) (\<lambda>p. Return (Some p))
             else gbind (copyMergeablePolicy ops s) (\<lambda>p. Return (Some p))))"

definition AtomicOverridesMergeStrategy ::
  "('p, 'r) mergeable_ops \<Rightarrow> 'p option \<Rightarrow> 'p option \<Rightarrow> 'p option go_result" where
  "AtomicOverridesMergeStrategy ops source target =
     (case source of None \<Rightarrow> Return None
      | Some s \<Rightarrow> gbind (copyMergeablePolicy ops s) (\<lambda>p. Return (Some p)))"

definition PolicyRuleDefaultsMergeStrategy ::
  "('p, 'r) mergeable_ops \<Rightarrow> 'p option \<Rightarrow> 'p option \<Rightarrow> 'p option go_result" where
  "PolicyRuleDefaultsMergeStrategy ops source target =
     (case source of None \<Rightarrow> Return target
      | Some s \<Rightarrow> (case target of None \<Rightarrow> Return source
         | Some t \<Rightarrow>
             (let rules = gm_map_values (mapRuleWithSourceFunc ops t) (Rules ops t);
                  rules = addExtraRules ops s (Rules ops t) rules
              in gbind (SetRules ops t rules) (\<lambda>p. Return (Some p)))))"

definition PolicyRuleOverridesMergeStrategy ::
  "('p, 'r) mergeable_ops \<Rightarrow> 'p option \<Rightarrow> 'p option \<Rightarrow> 'p option go_result" where
  "PolicyRuleOverridesMergeStrategy ops source target =
     (case source of None \<Rightarrow> Panic ''interface conversion: interface is nil''
      | Some s \<Rightarrow> (case target of None \<Rightarrow> Panic ''interface conversion: interface is nil''
         | Some t \<Rightarrow>
             (let rules = gm_map_values (mapRuleWithSourceFunc ops s) (Rules ops s);
                  rules = addExtraRules ops t (Rules ops s) rules
              in gbind (SetRules ops t rules) (\<lambda>p. Return (Some p)))))"

fun applyStrategy ::
  "('p, 'r) mergeable_ops \<Rightarrow> merge_strategy \<Rightarrow> 'p option \<Rightarrow> 'p option \<Rightarrow> 'p option go_result" where
  "applyStrategy ops AtomicDefaults = AtomicDefaultsMergeStrategy ops"
| "applyStrategy ops AtomicOverrides = AtomicOverridesMergeStrategy ops"
| "applyStrategy ops PolicyRuleDefaults = PolicyRuleDefaultsMergeStrategy ops"
| "applyStrategy ops PolicyRuleOverrides = PolicyRuleOverridesMergeStrategy ops"

text \<open>
  The method \<open>Merge\<close> of a policy type: a policy of another kind leaves the receiver as it is
  (\<open>asT\<close> is the type assertion to the receiver's own kind).  A method call on a nil interface
  panics.
\<close>

definition MergePolicy ::
  "('p, 'r) mergeable_ops \<Rightarrow> ('q \<Rightarrow> 'p option) \<Rightarrow> 'p option \<Rightarrow> 'q \<Rightarrow> 'p option go_result" where
  "MergePolicy ops asT receiver other =
     (case receiver of None \<Rightarrow> Panic ''nil pointer dereference''
      | Some p \<Rightarrow> (case asT other of None \<Rightarrow> Return (Some p)
         | Some source \<Rightarrow> applyStrategy ops (GetMergeStrategy ops source) (Some source) (Some p)))"

section \<open>Effective policies\<close>

text \<open>
  \<open>Policies\<close> are the policies attached to a targetable, \<open>isObject\<close> the type assertion to
  \<open>controller.Object\<close> and \<open>createdBefore\<close> the comparison of
  \<open>controller.ObjectsByCreationTimestamp\<close>; the three come from the policy-machinery library.
\<close>

definition PoliciesInPath ::
  "('t \<Rightarrow> 'q list) \<Rightarrow> ('q \<Rightarrow> bool) \<Rightarrow> ('q \<Rightarrow> 'q \<Rightarrow> bool) \<Rightarrow> 't list \<Rightarrow> ('q \<Rightarrow> bool) \<Rightarrow> 'q list" where
  "PoliciesInPath policies isObject createdBefore path predicate =
     concat (map (\<lambda>targetable.
       go_sort createdBefore (filter (\<lambda>policy. isObject policy \<and> predicate policy) (policies targetable)))
       path)"

text \<open>
  The effective policy of the policies of a path, listed from the least specific to the most
  specific: \<open>None\<close> when there is none, \<open>Some None\<close> for the pointer to a nil policy that
  remains when the most specific policy is of another kind.
\<close>

definition reducePolicies ::
  "('p, 'r) mergeable_ops \<Rightarrow> ('q \<Rightarrow> 'p option) \<Rightarrow> 'q list \<Rightarrow> 'p \<Rightarrow> 'p option go_result" where
  "reducePolicies ops asT policies init =
     foldr (\<lambda>policy acc. gbind acc (\<lambda>effective. MergePolicy ops asT effective policy)) policies
       (Return (Some init))"

definition EffectivePolicyForPath ::
  "('p, 'r) mergeable_ops \<Rightarrow> ('q \<Rightarrow> 'p option) \<Rightarrow> 'q list \<Rightarrow> 'p option option go_result" where
  "EffectivePolicyForPath ops asT policies =
     (if policies = [] then Return None
      else (case asT (last policies) of None \<Rightarrow> Return (Some None)
        | Some p \<Rightarrow> gbind (reducePolicies ops asT policies p) (\<lambda>e. Return (Some e))))"

definition PathID :: "(string \<Rightarrow> string \<Rightarrow> string) \<Rightarrow> (string \<times> string) list \<Rightarrow> string" where
  "PathID namespacedName path =
     Join (map (\<lambda>(ns, name). TrimPrefix (namespacedName ns name) ''/'') path) ''|''"

text \<open>\<open>lo.Uniq\<close> keeps the first occurrence of each element.\<close>

definition lo_Uniq :: "'a list \<Rightarrow> 'a list" where
  "lo_Uniq xs = rev (remdups (rev xs))"

lemma set_lo_Uniq [simp]: "set (lo_Uniq xs) = set xs"
  by (simp add: lo_Uniq_def)

lemma distinct_lo_Uniq [simp]: "distinct (lo_Uniq xs)"
  by (simp add: lo_Uniq_def)

lemma sorted_wrt_remdups: "sorted_wrt P xs \<Longrightarrow> sorted_wrt P (remdups xs)"
  by (induction xs) auto

lemma sorted_lo_Uniq: "sorted xs \<Longrightarrow> sorted (lo_Uniq xs)"
  unfolding lo_Uniq_def sorted_wrt_rev by (rule sorted_wrt_remdups) (simp add: sorted_wrt_rev)

definition SourcePoliciesFromEffectivePolicy :: "('p, 'r) mergeable_ops \<Rightarrow> 'p \<Rightarrow> string list" where
  "SourcePoliciesFromEffectivePolicy ops effectivePolicy =
     lo_Uniq (sort_strings (map (\<lambda>(ruleID, rule). GetSource ops rule) (Rules ops effectivePolicy)))"

section \<open>Abstract specification\<close>

text \<open>
  On maps from rule identifiers to rules: an atomic default fills in only when the policy below
  defines nothing substantive, an atomic override replaces, a rule default adds the missing
  rules, a rule override replaces the rules it defines.
\<close>

fun merge_spec ::
  "(string \<Rightarrow> bool) \<Rightarrow> merge_strategy \<Rightarrow> (string \<rightharpoonup> 'r) \<Rightarrow> (string \<rightharpoonup> 'r) \<Rightarrow> (string \<rightharpoonup> 'r)" where
  "merge_spec substantive AtomicDefaults source target =
     (if \<exists>k. k \<in> dom target \<and> substantive k then target else source)"
| "merge_spec substantive AtomicOverrides source target = source"
| "merge_spec substantive PolicyRuleDefaults source target = source ++ target"
| "merge_spec substantive PolicyRuleOverrides source target = target ++ source"

fun effective_rules ::
  "('p, 'r) mergeable_ops \<Rightarrow> (string \<Rightarrow> bool) \<Rightarrow> 'p list \<Rightarrow> (string \<rightharpoonup> 'r)" where
  "effective_rules ops substantive [] = Map.empty"
| "effective_rules ops substantive [p] = map_of (Rules ops p)"
| "effective_rules ops substantive (p # q # ps) =
     merge_spec substantive (GetMergeStrategy ops p) (map_of (Rules ops p))
       (effective_rules ops substantive (q # ps))"

text \<open>
  The rule that wins when every policy merges rule by rule: the one of the least specific
  override that defines it, and without such an override the one of the most specific policy
  that defines it.
\<close>

definition rule_winner :: "('p, 'r) mergeable_ops \<Rightarrow> 'p list \<Rightarrow> string \<Rightarrow> 'r option" where
  "rule_winner ops ps k =
     (let defines = (\<lambda>p. map_of (Rules ops p) k \<noteq> None) in
      case find (\<lambda>p. GetMergeStrategy ops p = PolicyRuleOverrides \<and> defines p) ps of
        Some p \<Rightarrow> map_of (Rules ops p) k
      | None \<Rightarrow> (case find defines (rev ps) of Some p \<Rightarrow> map_of (Rules ops p) k | None \<Rightarrow> None))"

lemma find_append: "find P (xs @ ys) = (case find P xs of Some x \<Rightarrow> Some x | None \<Rightarrow> find P ys)"
  by (induction xs) auto

lemma rule_winner_None_iff:
  "rule_winner ops ps k = None \<longleftrightarrow> (\<forall>p \<in> set ps. map_of (Rules ops p) k = None)"
proof
  assume none: "rule_winner ops ps k = None"
  show "\<forall>p \<in> set ps. map_of (Rules ops p) k = None"
  proof (cases "find (\<lambda>p. GetMergeStrategy ops p = PolicyRuleOverrides \<and> map_of (Rules ops p) k \<noteq> None) ps")
    case None
    with none have "find (\<lambda>p. map_of (Rules ops p) k \<noteq> None) (rev ps) = None"
      by (cases "find (\<lambda>p. map_of (Rules ops p) k \<noteq> None) (rev ps)")
        (auto simp: rule_winner_def Let_def dest: find_SomeD)
    then show ?thesis by (simp add: find_None_iff)
  next
    case (Some p)
    with none show ?thesis by (auto simp: rule_winner_def Let_def dest: find_SomeD)
  qed
next
  assume "\<forall>p \<in> set ps. map_of (Rules ops p) k = None"
  then have "find (\<lambda>p. GetMergeStrategy ops p = PolicyRuleOverrides \<and> map_of (Rules ops p) k \<noteq> None) ps = None"
    "find (\<lambda>p. map_of (Rules ops p) k \<noteq> None) (rev ps) = None"
    by (auto simp: find_None_iff)
  then show "rule_winner ops ps k = None" by (simp add: rule_winner_def)
qed

lemma rule_winner_override:
  assumes "GetMergeStrategy ops p = PolicyRuleOverrides"
  shows "rule_winner ops (p # ps) k =
    (case map_of (Rules ops p) k of Some r \<Rightarrow> Some r | None \<Rightarrow> rule_winner ops ps k)"
  using assms
  by (auto simp: rule_winner_def Let_def find_append split: option.splits)

lemma rule_winner_default:
  assumes "GetMergeStrategy ops p = PolicyRuleDefaults"
  shows "rule_winner ops (p # ps) k =
    (case rule_winner ops ps k of Some r \<Rightarrow> Some r | None \<Rightarrow> map_of (Rules ops p) k)"
proof (cases "rule_winner ops ps k")
  case None
  then have all: "\<forall>p \<in> set ps. map_of (Rules ops p) k = None" by (simp add: rule_winner_None_iff)
  then have "find (\<lambda>p. GetMergeStrategy ops p = PolicyRuleOverrides \<and> map_of (Rules ops p) k \<noteq> None) ps = None"
    "find (\<lambda>p. map_of (Rules ops p) k \<noteq> None) (rev ps) = None"
    by (auto simp: find_None_iff)
  with assms None show ?thesis
    by (auto simp: rule_winner_def Let_def find_append)
next
  case (Some r)
  then have "\<exists>p \<in> set ps. map_of (Rules ops p) k \<noteq> None"
    using rule_winner_None_iff [of ops ps k] by auto
  then obtain q where "find (\<lambda>p. map_of (Rules ops p) k \<noteq> None) (rev ps) = Some q"
    by (cases "find (\<lambda>p. map_of (Rules ops p) k \<noteq> None) (rev ps)") (auto simp: find_None_iff)
  with assms Some show ?thesis
    by (auto simp: rule_winner_def Let_def find_append split: option.splits)
qed

lemma effective_rules_winner:
  assumes "ps \<noteq> []" "\<And>p. p \<in> set ps \<Longrightarrow> GetMergeStrategy ops p \<in> {PolicyRuleDefaults, PolicyRuleOverrides}"
  shows "effective_rules ops substantive ps k = rule_winner ops ps k"
  using assms
proof (induction ps rule: induct_list012)
  case (2 p)
  then show ?case by (auto simp: rule_winner_def)
next
  case (3 p q ps)
  have IH: "effective_rules ops substantive (q # ps) k = rule_winner ops (q # ps) k"
    using "3.prems" by (intro "3.IH") auto
  consider (d) "GetMergeStrategy ops p = PolicyRuleDefaults" | (o) "GetMergeStrategy ops p = PolicyRuleOverrides"
    using "3.prems" by auto
  then show ?case
  proof cases
    case d
    with IH show ?thesis by (simp add: map_add_def rule_winner_default split: option.splits)
  next
    case o
    with IH show ?thesis by (simp add: map_add_def rule_winner_override split: option.splits)
  qed
qed simp

text \<open>Every rule of the effective policy is a rule of a policy in the path.\<close>

lemma effective_rules_provenance:
  "effective_rules ops substantive ps k = Some r \<Longrightarrow> \<exists>p \<in> set ps. map_of (Rules ops p) k = Some r"
proof (induction ps rule: induct_list012)
  case (3 p q ps)
  then show ?case
    by (cases "GetMergeStrategy ops p") (auto simp: map_add_Some_iff split: if_splits)
qed auto

text \<open>An atomic override makes the more specific policies irrelevant.\<close>

lemma effective_rules_shield:
  assumes "GetMergeStrategy ops p = AtomicOverrides"
  shows "effective_rules ops substantive (xs @ p # ys) = effective_rules ops substantive (xs @ [p])"
proof (induction xs rule: induct_list012)
  case 1
  then show ?case using assms by (cases ys) auto
next
  case (2 x)
  then show ?case using assms by (cases ys) auto
qed auto

lemma map_add_same [simp]: "m ++ m = m"
  by (simp add: map_add_def fun_eq_iff split: option.splits)

section \<open>What a mergeable policy promises, and what merging then gives\<close>

text \<open>
  \<open>pwf\<close> is the well-formedness of a policy, \<open>entry_ok\<close> says that a rule may stand under a
  key, \<open>substantive\<close> which keys make a policy non-empty.
\<close>

locale mergeable_policy =
  fixes ops :: "('p, 'r) mergeable_ops"
    and pwf :: "'p \<Rightarrow> bool"
    and entry_ok :: "string \<Rightarrow> 'r \<Rightarrow> bool"
    and substantive :: "string \<Rightarrow> bool"
  assumes rules_distinct: "pwf p \<Longrightarrow> gm_wf (Rules ops p)"
    and rules_ok: "pwf p \<Longrightarrow> (k, r) \<in> set (Rules ops p) \<Longrightarrow> entry_ok k r"
    and source_ok: "entry_ok k r \<Longrightarrow> GetSource ops r \<noteq> []"
    and with_source: "WithSource ops r (GetSource ops r) = r"
    and set_rules: "pwf p \<Longrightarrow> gm_wf rs \<Longrightarrow> list_all (\<lambda>(k, r). entry_ok k r) rs \<Longrightarrow>
      \<exists>p'. SetRules ops p rs = Return p' \<and> pwf p' \<and> map_of (Rules ops p') = map_of rs \<and>
        GetLocator ops p' = GetLocator ops p \<and> GetMergeStrategy ops p' = GetMergeStrategy ops p \<and>
        (EmptyPolicy ops p' \<longleftrightarrow> (\<forall>k \<in> fst ` set rs. \<not> substantive k))"
begin

definition represents :: "'p \<Rightarrow> (string \<rightharpoonup> 'r) \<Rightarrow> bool" where
  "represents p m \<longleftrightarrow> pwf p \<and> map_of (Rules ops p) = m \<and>
     (EmptyPolicy ops p \<longleftrightarrow> \<not> (\<exists>k. k \<in> dom m \<and> substantive k))"

lemma mapRule_id:
  "pwf p \<Longrightarrow> gm_map_values (mapRuleWithSourceFunc ops q) (Rules ops p) = Rules ops p"
  by (rule gm_map_values_id) (auto simp: mapRuleWithSourceFunc_def dest: rules_ok source_ok)

lemma set_rules_represents:
  assumes "pwf p" "gm_wf rs" "\<And>k r. (k, r) \<in> set rs \<Longrightarrow> entry_ok k r"
  shows "\<exists>p'. SetRules ops p rs = Return p' \<and> represents p' (map_of rs) \<and>
    GetLocator ops p' = GetLocator ops p \<and> GetMergeStrategy ops p' = GetMergeStrategy ops p"
proof -
  have "list_all (\<lambda>(k, r). entry_ok k r) rs" using assms(3) by (auto simp: list_all_iff)
  from set_rules [OF assms(1,2) this] show ?thesis
    by (auto simp: represents_def dom_map_of_conv_image_fst)
qed

lemma copy_represents:
  assumes "pwf p"
  shows "\<exists>p'. copyMergeablePolicy ops p = Return p' \<and> represents p' (map_of (Rules ops p))"
  using set_rules_represents [OF assms rules_distinct [OF assms]] rules_ok [OF assms]
  by (auto simp: copyMergeablePolicy_def mapRule_id [OF assms])

lemma extraRuleStep_ok:
  "entry_ok k r \<Longrightarrow>
    extraRuleStep ops p other acc (k, r) = (if map_of other k \<noteq> None then acc else gm_set k r acc)"
  using source_ok with_source by (auto simp: Let_def)

lemma extra_rules_fold:
  assumes "gm_wf xs" "\<And>k r. (k, r) \<in> set xs \<Longrightarrow> entry_ok k r"
  shows "map_of (foldl (extraRuleStep ops p other) rules xs) k =
      (if map_of other k = None \<and> map_of xs k \<noteq> None then map_of xs k else map_of rules k)"
  using assms
proof (induction xs arbitrary: rules)
  case (Cons a ys)
  obtain k' r' where a: "a = (k', r')" by fastforce
  have "map_of ys k' = None" using Cons.prems(1) a by (auto simp: map_of_eq_None_fst)
  then show ?case using Cons a by (auto simp: extraRuleStep_ok simp del: extraRuleStep.simps)
qed simp

lemma extra_rules_fold_wf:
  assumes "\<And>k r. (k, r) \<in> set xs \<Longrightarrow> entry_ok k r" "gm_wf rules"
  shows "gm_wf (foldl (extraRuleStep ops p other) rules xs)"
  using assms by (induction xs arbitrary: rules) (auto simp: Let_def)

lemma extra_rules_fold_set:
  assumes "\<And>k r. (k, r) \<in> set xs \<Longrightarrow> entry_ok k r"
  shows "set (foldl (extraRuleStep ops p other) rules xs) \<subseteq> set rules \<union> set xs"
  using assms
proof (induction xs arbitrary: rules)
  case (Cons a ys)
  obtain k' r' where a: "a = (k', r')" by fastforce
  have "set (extraRuleStep ops p other rules a) \<subseteq> insert a (set rules)"
    using Cons.prems a set_gm_set_subset [of k' r' rules]
    by (simp add: extraRuleStep_ok subset_insertI del: extraRuleStep.simps)
  moreover have "set (foldl (extraRuleStep ops p other) (extraRuleStep ops p other rules a) ys)
      \<subseteq> set (extraRuleStep ops p other rules a) \<union> set ys"
    using Cons.prems by (intro Cons.IH) auto
  ultimately show ?case by auto
qed simp

lemma addExtraRules_props:
  assumes "pwf p" "gm_wf rules" "dom (map_of rules) = dom (map_of other)"
  shows "map_of (addExtraRules ops p other rules) = map_of (Rules ops p) ++ map_of rules"
    and "gm_wf (addExtraRules ops p other rules)"
    and "set (addExtraRules ops p other rules) \<subseteq> set rules \<union> set (Rules ops p)"
proof -
  have "map_of other k = None \<longleftrightarrow> map_of rules k = None" for k
    using assms(3) by (metis domIff)
  then show "map_of (addExtraRules ops p other rules) = map_of (Rules ops p) ++ map_of rules"
    using extra_rules_fold [OF rules_distinct [OF assms(1)] rules_ok [OF assms(1)]]
    by (auto simp: addExtraRules_def fun_eq_iff map_add_def split: option.splits)
  show "gm_wf (addExtraRules ops p other rules)"
    unfolding addExtraRules_def using rules_ok [OF assms(1)] assms(2) by (rule extra_rules_fold_wf)
  show "set (addExtraRules ops p other rules) \<subseteq> set rules \<union> set (Rules ops p)"
    unfolding addExtraRules_def using rules_ok [OF assms(1)] by (rule extra_rules_fold_set)
qed

lemma rule_merge_represents:
  assumes "pwf p" "pwf base" "pwf extra"
  shows "\<exists>p'. SetRules ops p (addExtraRules ops extra (Rules ops base)
      (gm_map_values (mapRuleWithSourceFunc ops base) (Rules ops base))) = Return p' \<and>
    represents p' (map_of (Rules ops extra) ++ map_of (Rules ops base))"
proof -
  note a = addExtraRules_props [OF assms(3) rules_distinct [OF assms(2)] refl]
  have ok: "entry_ok k r" if "(k, r) \<in> set (addExtraRules ops extra (Rules ops base) (Rules ops base))" for k r
    using that a(3) rules_ok assms(2,3) by blast
  show ?thesis
    using set_rules_represents [OF assms(1) a(2) ok] a(1) by (auto simp: mapRule_id [OF assms(2)])
qed

text \<open>One application of a strategy refines the abstract merge.\<close>

lemma applyStrategy_refines:
  assumes "pwf source" "represents target m"
  shows "\<exists>p. applyStrategy ops strategy (Some source) (Some target) = Return (Some p) \<and>
    represents p (merge_spec substantive strategy (map_of (Rules ops source)) m)"
proof -
  have t: "pwf target" "map_of (Rules ops target) = m"
    "EmptyPolicy ops target \<longleftrightarrow> \<not> (\<exists>k. k \<in> dom m \<and> substantive k)"
    using assms(2) by (auto simp: represents_def)
  obtain ct where ct: "copyMergeablePolicy ops target = Return ct" "represents ct m"
    using copy_represents [OF t(1)] t(2) by auto
  obtain cs where cs: "copyMergeablePolicy ops source = Return cs" "represents cs (map_of (Rules ops source))"
    using copy_represents [OF assms(1)] by auto
  show ?thesis
  proof (cases strategy)
    case AtomicDefaults
    show ?thesis
    proof (cases "EmptyPolicy ops target")
      case True
      with t(3) have "merge_spec substantive AtomicDefaults (map_of (Rules ops source)) m = map_of (Rules ops source)"
        by auto
      with True AtomicDefaults cs show ?thesis by (simp add: AtomicDefaultsMergeStrategy_def)
    next
      case False
      with t(3) have "merge_spec substantive AtomicDefaults (map_of (Rules ops source)) m = m"
        by simp
      with False AtomicDefaults ct show ?thesis by (simp add: AtomicDefaultsMergeStrategy_def)
    qed
  next
    case AtomicOverrides
    with cs show ?thesis by (simp add: AtomicOverridesMergeStrategy_def)
  next
    case PolicyRuleDefaults
    with rule_merge_represents [OF t(1) t(1) assms(1)] t(2) show ?thesis
      by (auto simp: PolicyRuleDefaultsMergeStrategy_def Let_def)
  next
    case PolicyRuleOverrides
    with rule_merge_represents [OF t(1) assms(1) t(1)] t(2) show ?thesis
      by (auto simp: PolicyRuleOverridesMergeStrategy_def Let_def)
  qed
qed

text \<open>Merging the most specific policy with itself, the first step of the reduction.\<close>

lemma applyStrategy_self:
  assumes "pwf p"
  shows "\<exists>q. applyStrategy ops strategy (Some p) (Some p) = Return (Some q) \<and>
    represents q (map_of (Rules ops p))"
proof (cases strategy)
  case AtomicDefaults
  with copy_represents [OF assms] show ?thesis by (auto simp: AtomicDefaultsMergeStrategy_def)
next
  case AtomicOverrides
  with copy_represents [OF assms] show ?thesis by (auto simp: AtomicOverridesMergeStrategy_def)
next
  case PolicyRuleDefaults
  with rule_merge_represents [OF assms assms assms] show ?thesis
    by (auto simp: PolicyRuleDefaultsMergeStrategy_def Let_def)
next
  case PolicyRuleOverrides
  with rule_merge_represents [OF assms assms assms] show ?thesis
    by (auto simp: PolicyRuleOverridesMergeStrategy_def Let_def)
qed

lemma reducePolicies_refines:
  assumes "policies \<noteq> []" "\<And>p. p \<in> set policies \<Longrightarrow> pwf p"
  shows "\<exists>e. reducePolicies ops Some policies (last policies) = Return (Some e) \<and>
    represents e (effective_rules ops substantive policies)"
  using assms
proof (induction policies rule: induct_list012)
  case (2 p)
  then show ?case using applyStrategy_self [of p] by (simp add: reducePolicies_def MergePolicy_def)
next
  case (3 p q ps)
  then obtain e where e: "reducePolicies ops Some (q # ps) (last (q # ps)) = Return (Some e)"
    "represents e (effective_rules ops substantive (q # ps))"
    by auto
  have "reducePolicies ops Some (p # q # ps) (last (p # q # ps)) =
    gbind (reducePolicies ops Some (q # ps) (last (q # ps))) (\<lambda>r. MergePolicy ops Some r p)"
    by (simp only: reducePolicies_def foldr_Cons o_apply last_ConsR [OF list.distinct(2)])
  then have "reducePolicies ops Some (p # q # ps) (last (p # q # ps)) =
    applyStrategy ops (GetMergeStrategy ops p) (Some p) (Some e)"
    by (simp only: e(1) gbind.simps MergePolicy_def option.case)
  with applyStrategy_refines [OF _ e(2)] "3.prems"(2) show ?case by simp
qed simp

lemma EffectivePolicyForPath_refines:
  assumes "policies \<noteq> []" "\<And>p. p \<in> set policies \<Longrightarrow> pwf p"
  shows "\<exists>e. EffectivePolicyForPath ops Some policies = Return (Some (Some e)) \<and>
    map_of (Rules ops e) = effective_rules ops substantive policies \<and> pwf e"
  using reducePolicies_refines [OF assms] assms(1)
  by (auto simp: EffectivePolicyForPath_def represents_def)

end

end
