(* ===== verification/Rate_Limit_Policy.thy ===== *)
theory Rate_Limit_Policy
  imports Merge_Strategies
begin

text \<open>
  \<open>RateLimitPolicy\<close> as a mergeable policy (\<open>api/v1/ratelimitpolicy_types.go\<close>,
  \<open>api/v1/common_types.go\<close>): its specification, the rules it contributes, how a set of rules
  is written back, and its merge strategy.  The theory interprets \<open>mergeable_policy\<close> on these
  definitions.

  \<open>machinery.LocatorFromObject\<close> of the policy-machinery library is the parameter \<open>locator\<close>,
  a function of the kind, the namespace and the name of the object.
\<close>

section \<open>Predicates\<close>

datatype Predicate = Predicate (predicate_of: string)

type_synonym WhenPredicates = "Predicate list"

definition NewPredicate :: "string \<Rightarrow> Predicate" where
  "NewPredicate predicate = Predicate predicate"

definition NewWhenPredicates :: "string list \<Rightarrow> WhenPredicates" where
  "NewWhenPredicates predicates = map NewPredicate predicates"

definition WhenPredicates_Extend :: "WhenPredicates \<Rightarrow> WhenPredicates \<Rightarrow> WhenPredicates" where
  "WhenPredicates_Extend w other = w @ other"

definition WhenPredicates_Into :: "WhenPredicates \<Rightarrow> string list" where
  "WhenPredicates_Into w = map predicate_of w"

record MergeableWhenPredicates =
  mwp_Predicates :: WhenPredicates
  mwp_Source :: string

section \<open>Limits\<close>

datatype Counter = Counter (counter_Expression: string)

record Rate =
  rate_Limit :: int
  rate_Window :: string

record Limit =
  limit_When :: WhenPredicates
  limit_Counters :: "Counter list"
  limit_Rates :: "Rate list"
  limit_Source :: string

text \<open>
  \<open>time.ParseDuration\<close> on the durations the API admits (\<open>^([0-9]{1,5}(h|m|s|ms)){1,4}$\<close>),
  in milliseconds; \<open>None\<close> is the parse error.
\<close>

fun parse_number :: "string \<Rightarrow> nat option \<Rightarrow> (nat \<times> string) option" where
  "parse_number [] acc = map_option (\<lambda>n. (n, [])) acc"
| "parse_number (c # s) acc =
     (if 48 \<le> (of_char c :: nat) \<and> (of_char c :: nat) \<le> 57
      then parse_number s (Some ((case acc of None \<Rightarrow> 0 | Some n \<Rightarrow> 10 * n) + (of_char c - 48)))
      else map_option (\<lambda>n. (n, c # s)) acc)"

definition parse_unit :: "string \<Rightarrow> (nat \<times> string) option" where
  "parse_unit s =
     (if HasPrefix s ''ms'' then Some (1, drop 2 s)
      else if HasPrefix s ''h'' then Some (3600000, drop 1 s)
      else if HasPrefix s ''m'' then Some (60000, drop 1 s)
      else if HasPrefix s ''s'' then Some (1000, drop 1 s)
      else None)"

lemma parse_number_length: "parse_number s acc = Some (n, r) \<Longrightarrow> length r \<le> length s"
  by (induction s acc rule: parse_number.induct) (auto split: if_splits)

lemma parse_unit_length: "parse_unit s = Some (n, r) \<Longrightarrow> length r < length s"
  by (auto simp: parse_unit_def HasPrefix_iff split: if_splits)

function parse_duration_ms :: "string \<Rightarrow> nat option" where
  "parse_duration_ms s =
     (case parse_number s None of None \<Rightarrow> None
      | Some (n, r) \<Rightarrow> (case parse_unit r of None \<Rightarrow> None
         | Some (u, r') \<Rightarrow> if r' = [] then Some (n * u)
             else map_option (\<lambda>rest. n * u + rest) (parse_duration_ms r')))"
  by pat_completeness auto
termination
  by (relation "measure length") (auto dest!: parse_number_length parse_unit_length)

declare parse_duration_ms.simps [simp del]

definition Duration_Seconds :: "string \<Rightarrow> int" where
  "Duration_Seconds d = (case parse_duration_ms d of None \<Rightarrow> 0 | Some ms \<Rightarrow> int (ms div 1000))"

definition Rate_ToSeconds :: "Rate \<Rightarrow> int \<times> int" where
  "Rate_ToSeconds r =
     (let maxValue = rate_Limit r;
          seconds = Duration_Seconds (rate_Window r);
          maxValue = (if rate_Limit r < 0 then 0 else maxValue)
      in (maxValue, seconds))"

text \<open>\<open>transform\<close> is \<open>cel.TransformCounterVariable(str, false)\<close>; \<open>None\<close> is its error.\<close>

definition Limit_CountersAsStringList :: "(string \<Rightarrow> string option) \<Rightarrow> Limit \<Rightarrow> string list" where
  "Limit_CountersAsStringList transform l =
     map (\<lambda>counter. let str = counter_Expression counter in
       case transform str of Some e \<Rightarrow> e | None \<Rightarrow> str) (limit_Counters l)"

section \<open>The policy\<close>

record LocalPolicyTargetReference =
  ref_Group :: string
  ref_Kind :: string
  ref_Name :: string
  ref_SectionName :: "string option"

record RateLimitPolicySpecProper =
  rlp_When :: MergeableWhenPredicates
  rlp_Limits :: "(string, Limit) gomap"

record MergeableRateLimitPolicySpec =
  rlp_Strategy :: string
  rlp_ProperOf :: RateLimitPolicySpecProper

record RateLimitPolicySpec =
  rlp_TargetRef :: LocalPolicyTargetReference
  rlp_Defaults :: "MergeableRateLimitPolicySpec option"
  rlp_Overrides :: "MergeableRateLimitPolicySpec option"
  rlp_Bare :: RateLimitPolicySpecProper

record RateLimitPolicy =
  rlp_Namespace :: string
  rlp_Name :: string
  rlp_Spec :: RateLimitPolicySpec

definition RateLimitPolicy_Proper :: "RateLimitPolicySpec \<Rightarrow> RateLimitPolicySpecProper" where
  "RateLimitPolicy_Proper s =
     (case rlp_Defaults s of Some d \<Rightarrow> rlp_ProperOf d
      | None \<Rightarrow> (case rlp_Overrides s of Some d \<Rightarrow> rlp_ProperOf d | None \<Rightarrow> rlp_Bare s))"

text \<open>A write through the pointer that \<open>Proper()\<close> returns.\<close>

definition RateLimitPolicy_withProper ::
  "RateLimitPolicySpec \<Rightarrow> RateLimitPolicySpecProper \<Rightarrow> RateLimitPolicySpec" where
  "RateLimitPolicy_withProper s pr =
     (case rlp_Defaults s of Some d \<Rightarrow> s\<lparr>rlp_Defaults := Some (d\<lparr>rlp_ProperOf := pr\<rparr>)\<rparr>
      | None \<Rightarrow> (case rlp_Overrides s of Some d \<Rightarrow> s\<lparr>rlp_Overrides := Some (d\<lparr>rlp_ProperOf := pr\<rparr>)\<rparr>
        | None \<Rightarrow> s\<lparr>rlp_Bare := pr\<rparr>))"

definition RateLimitPolicy_GetLocator ::
  "(string \<Rightarrow> string \<Rightarrow> string \<Rightarrow> string) \<Rightarrow> RateLimitPolicy \<Rightarrow> string" where
  "RateLimitPolicy_GetLocator locator p = locator ''RateLimitPolicy'' (rlp_Namespace p) (rlp_Name p)"

definition RateLimitPolicy_GetMergeStrategy :: "RateLimitPolicy \<Rightarrow> merge_strategy" where
  "RateLimitPolicy_GetMergeStrategy p =
     (case rlp_Defaults (rlp_Spec p) of Some spec \<Rightarrow> DefaultsMergeStrategy (rlp_Strategy spec)
      | None \<Rightarrow> (case rlp_Overrides (rlp_Spec p) of Some spec \<Rightarrow> OverridesMergeStrategy (rlp_Strategy spec)
        | None \<Rightarrow> AtomicDefaults))"

definition RateLimitPolicy_Empty :: "RateLimitPolicy \<Rightarrow> bool" where
  "RateLimitPolicy_Empty p \<longleftrightarrow> length (rlp_Limits (RateLimitPolicy_Proper (rlp_Spec p))) = 0"

section \<open>Rules\<close>

definition RulesKeyTopLevelPredicates :: string where
  "RulesKeyTopLevelPredicates = ''###_TOP_LEVEL_PREDICATES_###''"

datatype rlp_rule = RuleWhen MergeableWhenPredicates | RuleLimit Limit

fun rlp_GetSource :: "rlp_rule \<Rightarrow> string" where
  "rlp_GetSource (RuleWhen w) = mwp_Source w"
| "rlp_GetSource (RuleLimit l) = limit_Source l"

fun rlp_WithSource :: "rlp_rule \<Rightarrow> string \<Rightarrow> rlp_rule" where
  "rlp_WithSource (RuleWhen w) source = RuleWhen (w\<lparr>mwp_Source := source\<rparr>)"
| "rlp_WithSource (RuleLimit l) source = RuleLimit (l\<lparr>limit_Source := source\<rparr>)"

definition RateLimitPolicy_Rules ::
  "(string \<Rightarrow> string \<Rightarrow> string \<Rightarrow> string) \<Rightarrow> RateLimitPolicy \<Rightarrow> (string, rlp_rule) gomap" where
  "RateLimitPolicy_Rules locator p =
     (let policyLocator = RateLimitPolicy_GetLocator locator p;
          spec = RateLimitPolicy_Proper (rlp_Spec p);
          newRule = (\<lambda>rule. NewMergeableRule rlp_GetSource rlp_WithSource rule policyLocator);
          rules = (if length (mwp_Predicates (rlp_When spec)) > 0
            then gm_set RulesKeyTopLevelPredicates (newRule (RuleWhen (rlp_When spec))) [] else [])
      in foldl (\<lambda>rules (ruleID, limit). gm_set ruleID (newRule (RuleLimit limit)) rules)
           rules (rlp_Limits spec))"

text \<open>One iteration of the loop of \<open>SetRules\<close>; a rule of the wrong type panics.\<close>

fun rlp_setRule :: "RateLimitPolicySpecProper \<Rightarrow> string \<times> rlp_rule \<Rightarrow> RateLimitPolicySpecProper go_result" where
  "rlp_setRule pr (ruleID, rule) =
     (if ruleID = RulesKeyTopLevelPredicates
      then (case rule of RuleWhen w \<Rightarrow> Return (pr\<lparr>rlp_When := w\<rparr>)
            | RuleLimit l \<Rightarrow> Panic ''interface conversion'')
      else (case rule of RuleLimit l \<Rightarrow> Return (pr\<lparr>rlp_Limits := gm_set ruleID l (rlp_Limits pr)\<rparr>)
            | RuleWhen w \<Rightarrow> Panic ''interface conversion''))"

definition RateLimitPolicy_SetRules ::
  "RateLimitPolicy \<Rightarrow> (string, rlp_rule) gomap \<Rightarrow> RateLimitPolicy go_result" where
  "RateLimitPolicy_SetRules p rules =
     (let pr = RateLimitPolicy_Proper (rlp_Spec p);
          pr = pr\<lparr>rlp_Limits := [], rlp_When := (rlp_When pr)\<lparr>mwp_Predicates := []\<rparr>\<rparr>
      in gbind (gfold rlp_setRule pr rules)
           (\<lambda>pr. Return (p\<lparr>rlp_Spec := RateLimitPolicy_withProper (rlp_Spec p) pr\<rparr>)))"

definition rlp_ops ::
  "(string \<Rightarrow> string \<Rightarrow> string \<Rightarrow> string) \<Rightarrow> (RateLimitPolicy, rlp_rule) mergeable_ops" where
  "rlp_ops locator =
     \<lparr>Rules = RateLimitPolicy_Rules locator, SetRules = RateLimitPolicy_SetRules,
      EmptyPolicy = RateLimitPolicy_Empty, GetLocator = RateLimitPolicy_GetLocator locator,
      GetMergeStrategy = RateLimitPolicy_GetMergeStrategy,
      GetSource = rlp_GetSource, WithSource = rlp_WithSource\<rparr>"

section \<open>The policy keeps the promises of a mergeable policy\<close>

text \<open>
  Well-formedness: the locator is not empty (it names the object), the limits are a map, and no
  limit has the reserved name of the top-level predicates.
\<close>

definition rlp_wf :: "(string \<Rightarrow> string \<Rightarrow> string \<Rightarrow> string) \<Rightarrow> RateLimitPolicy \<Rightarrow> bool" where
  "rlp_wf locator p \<longleftrightarrow> RateLimitPolicy_GetLocator locator p \<noteq> [] \<and>
     gm_wf (rlp_Limits (RateLimitPolicy_Proper (rlp_Spec p))) \<and>
     list_all (\<lambda>(k, l). k \<noteq> RulesKeyTopLevelPredicates) (rlp_Limits (RateLimitPolicy_Proper (rlp_Spec p)))"

fun rlp_entry_ok :: "string \<Rightarrow> rlp_rule \<Rightarrow> bool" where
  "rlp_entry_ok k (RuleWhen w) \<longleftrightarrow>
     k = RulesKeyTopLevelPredicates \<and> mwp_Source w \<noteq> [] \<and> mwp_Predicates w \<noteq> []"
| "rlp_entry_ok k (RuleLimit l) \<longleftrightarrow> k \<noteq> RulesKeyTopLevelPredicates \<and> limit_Source l \<noteq> []"

definition rlp_substantive :: "string \<Rightarrow> bool" where
  "rlp_substantive k \<longleftrightarrow> k \<noteq> RulesKeyTopLevelPredicates"

lemma rlp_ops_simps [simp]:
  "Rules (rlp_ops locator) = RateLimitPolicy_Rules locator"
  "SetRules (rlp_ops locator) = RateLimitPolicy_SetRules"
  "EmptyPolicy (rlp_ops locator) = RateLimitPolicy_Empty"
  "GetLocator (rlp_ops locator) = RateLimitPolicy_GetLocator locator"
  "GetMergeStrategy (rlp_ops locator) = RateLimitPolicy_GetMergeStrategy"
  "GetSource (rlp_ops locator) = rlp_GetSource"
  "WithSource (rlp_ops locator) = rlp_WithSource"
  by (simp_all add: rlp_ops_def)

lemma Proper_withProper [simp]:
  "RateLimitPolicy_Proper (RateLimitPolicy_withProper s pr) = pr"
  by (simp add: RateLimitPolicy_Proper_def RateLimitPolicy_withProper_def split: option.splits)

lemma strategy_withProper [simp]:
  "RateLimitPolicy_GetMergeStrategy (p\<lparr>rlp_Spec := RateLimitPolicy_withProper (rlp_Spec p) pr\<rparr>) =
     RateLimitPolicy_GetMergeStrategy p"
  by (simp add: RateLimitPolicy_GetMergeStrategy_def RateLimitPolicy_withProper_def split: option.splits)

lemma rlp_WithSource_GetSource: "rlp_WithSource r (rlp_GetSource r) = r"
  by (cases r) auto

lemma rlp_GetSource_WithSource [simp]: "rlp_GetSource (rlp_WithSource r src) = src"
  by (cases r) auto

text \<open>The rules of a well-formed policy, as a list: first the predicates, then the limits.\<close>

lemma rlp_Rules_eq:
  assumes "rlp_wf locator p"
  defines "new \<equiv> \<lambda>r. NewMergeableRule rlp_GetSource rlp_WithSource r (RateLimitPolicy_GetLocator locator p)"
    and "pr \<equiv> RateLimitPolicy_Proper (rlp_Spec p)"
  shows "RateLimitPolicy_Rules locator p =
    (if mwp_Predicates (rlp_When pr) \<noteq> [] then [(RulesKeyTopLevelPredicates, new (RuleWhen (rlp_When pr)))] else [])
    @ map (\<lambda>(k, l). (k, new (RuleLimit l))) (rlp_Limits pr)"
proof -
  have "foldl (\<lambda>m (k, l). gm_set k (new (RuleLimit l)) m) m (rlp_Limits pr) =
      m @ map (\<lambda>(k, l). (k, new (RuleLimit l))) (rlp_Limits pr)"
    if "fst ` set m \<subseteq> {RulesKeyTopLevelPredicates}" for m
  proof (rule foldl_gm_set)
    show "gm_wf (rlp_Limits pr)" using assms(1) by (simp add: rlp_wf_def pr_def)
    show "fst ` set (rlp_Limits pr) \<inter> fst ` set m = {}"
      using assms(1) that unfolding rlp_wf_def pr_def by (fastforce simp: list_all_iff)
  qed
  then show ?thesis
    by (simp add: RateLimitPolicy_Rules_def Let_def pr_def [symmetric]) (simp add: new_def)
qed

lemma rlp_entry_ok_source: "rlp_entry_ok k r \<Longrightarrow> rlp_GetSource r \<noteq> []"
  by (cases r) auto

text \<open>Writing back a well-formed map of rules.\<close>

fun limit_entry :: "string \<times> rlp_rule \<Rightarrow> (string, Limit) gomap" where
  "limit_entry (k, RuleLimit l) = [(k, l)]"
| "limit_entry (k, RuleWhen w) = []"

definition when_of_rules :: "MergeableWhenPredicates \<Rightarrow> (string, rlp_rule) gomap \<Rightarrow> MergeableWhenPredicates" where
  "when_of_rules w rs =
     (case map_of rs RulesKeyTopLevelPredicates of Some (RuleWhen w') \<Rightarrow> w' | _ \<Rightarrow> w)"

lemma limit_entries_keys:
  "fst ` set (concat (map limit_entry rs)) \<subseteq> fst ` set rs"
proof (induction rs)
  case (Cons e rs)
  obtain k r where "e = (k, r)" by fastforce
  with Cons show ?case by (cases r) auto
qed simp

lemma gfold_setRule:
  assumes "gm_wf rs" "list_all (\<lambda>(k, r). rlp_entry_ok k r) rs"
    and "fst ` set rs \<inter> fst ` set (rlp_Limits pr) = {}"
  shows "gfold rlp_setRule pr rs = Return (pr\<lparr>rlp_When := when_of_rules (rlp_When pr) rs,
      rlp_Limits := rlp_Limits pr @ concat (map limit_entry rs)\<rparr>)"
  using assms
proof (induction rs arbitrary: pr)
  case Nil
  then show ?case by (simp add: when_of_rules_def)
next
  case (Cons e rs)
  obtain k r where e: "e = (k, r)" by fastforce
  have ok: "rlp_entry_ok k r" using Cons.prems(2) e by simp
  have fresh: "map_of rs k = None" using Cons.prems(1) e by (auto simp: map_of_eq_None_fst)
  show ?case
  proof (cases r)
    case (RuleWhen w)
    then have "gfold rlp_setRule pr (e # rs) = gfold rlp_setRule (pr\<lparr>rlp_When := w\<rparr>) rs"
      using ok e by simp
    also have "\<dots> = Return (pr\<lparr>rlp_When := when_of_rules w rs,
        rlp_Limits := rlp_Limits pr @ concat (map limit_entry rs)\<rparr>)"
      using Cons.prems e by (subst Cons.IH) auto
    also have "when_of_rules w rs = when_of_rules (rlp_When pr) (e # rs)"
      using ok e fresh RuleWhen by (simp add: when_of_rules_def)
    finally show ?thesis using e RuleWhen by simp
  next
    case (RuleLimit l)
    then have "gfold rlp_setRule pr (e # rs) =
        gfold rlp_setRule (pr\<lparr>rlp_Limits := rlp_Limits pr @ [(k, l)]\<rparr>) rs"
      using ok e Cons.prems(3) by (simp add: gm_set_fresh)
    also have "\<dots> = Return (pr\<lparr>rlp_When := when_of_rules (rlp_When pr) rs,
        rlp_Limits := (rlp_Limits pr @ [(k, l)]) @ concat (map limit_entry rs)\<rparr>)"
      using Cons.prems e by (subst Cons.IH) auto
    also have "when_of_rules (rlp_When pr) rs = when_of_rules (rlp_When pr) (e # rs)"
      using ok e RuleLimit by (auto simp: when_of_rules_def)
    finally show ?thesis using e RuleLimit by simp
  qed
qed

lemma gm_wf_limit_entries:
  "gm_wf rs \<Longrightarrow> gm_wf (concat (map limit_entry rs))"
proof (induction rs)
  case (Cons e rs)
  obtain k r where "e = (k, r)" by fastforce
  with Cons limit_entries_keys [of rs] show ?case by (cases r) auto
qed simp

lemma map_of_limit_entries:
  assumes "list_all (\<lambda>(k, r). rlp_entry_ok k r) rs" "k \<noteq> RulesKeyTopLevelPredicates"
  shows "map_option RuleLimit (map_of (concat (map limit_entry rs)) k) = map_of rs k"
  using assms(1)
proof (induction rs)
  case (Cons e rs)
  obtain k' r' where e: "e = (k', r')" by fastforce
  with Cons assms(2) show ?case by (cases r') auto
qed simp

lemma top_not_limit_entry:
  assumes "list_all (\<lambda>(k, r). rlp_entry_ok k r) rs"
  shows "list_all (\<lambda>(k, l). k \<noteq> RulesKeyTopLevelPredicates) (concat (map limit_entry rs))"
  using assms
proof (induction rs)
  case (Cons e rs)
  obtain k' r' where "e = (k', r')" by fastforce
  with Cons show ?case by (cases r') auto
qed simp

lemma limit_entries_Nil_iff:
  assumes "list_all (\<lambda>(k, r). rlp_entry_ok k r) rs"
  shows "concat (map limit_entry rs) = [] \<longleftrightarrow> (\<forall>k \<in> fst ` set rs. \<not> rlp_substantive k)"
  using assms
proof (induction rs)
  case (Cons e rs)
  obtain k' r' where "e = (k', r')" by fastforce
  with Cons show ?case by (cases r') (auto simp: rlp_substantive_def)
qed simp

lemma limit_entries_source:
  assumes "list_all (\<lambda>(k, r). rlp_entry_ok k r) rs"
    and "(k, l) \<in> set (concat (map limit_entry rs))"
  shows "limit_Source l \<noteq> []"
  using assms
proof (induction rs)
  case (Cons e rs)
  obtain k' r' where "e = (k', r')" by fastforce
  with Cons show ?case by (cases r') auto
qed simp

lemma rlp_set_rules:
  assumes wf: "rlp_wf locator p" and rs: "gm_wf rs"
    and ok: "list_all (\<lambda>(k, r). rlp_entry_ok k r) rs"
  shows "\<exists>p'. RateLimitPolicy_SetRules p rs = Return p' \<and> rlp_wf locator p' \<and>
    map_of (RateLimitPolicy_Rules locator p') = map_of rs \<and>
    RateLimitPolicy_GetLocator locator p' = RateLimitPolicy_GetLocator locator p \<and>
    RateLimitPolicy_GetMergeStrategy p' = RateLimitPolicy_GetMergeStrategy p \<and>
    (RateLimitPolicy_Empty p' \<longleftrightarrow> (\<forall>k \<in> fst ` set rs. \<not> rlp_substantive k))"
proof -
  define w where "w = when_of_rules ((rlp_When (RateLimitPolicy_Proper (rlp_Spec p)))\<lparr>mwp_Predicates := []\<rparr>) rs"
  define ls where "ls = concat (map limit_entry rs)"
  define pr' where "pr' = (RateLimitPolicy_Proper (rlp_Spec p))\<lparr>rlp_When := w, rlp_Limits := ls\<rparr>"
  define p' where "p' = p\<lparr>rlp_Spec := RateLimitPolicy_withProper (rlp_Spec p) pr'\<rparr>"
  have set: "RateLimitPolicy_SetRules p rs = Return p'"
    using gfold_setRule [OF rs ok] by (simp add: RateLimitPolicy_SetRules_def Let_def p'_def pr'_def w_def ls_def)
  have proper: "RateLimitPolicy_Proper (rlp_Spec p') = pr'" by (simp add: p'_def)
  have loc: "RateLimitPolicy_GetLocator locator p' = RateLimitPolicy_GetLocator locator p"
    by (simp add: p'_def RateLimitPolicy_GetLocator_def)
  have wf': "rlp_wf locator p'"
    using wf rs gm_wf_limit_entries top_not_limit_entry [OF ok]
    by (simp add: rlp_wf_def loc proper) (simp add: pr'_def ls_def)
  have src: "limit_Source l \<noteq> []" if "(k, l) \<in> set ls" for k l
    using limit_entries_source [OF ok] that by (auto simp: ls_def)
  have limits: "map (\<lambda>(k, l). (k, NewMergeableRule rlp_GetSource rlp_WithSource (RuleLimit l) loc)) ls =
      map (\<lambda>(k, l). (k, RuleLimit l)) ls" for loc
    using src by (auto simp: NewMergeableRule_def)
  have limit_lookup: "map_of (map (\<lambda>(k, l). (k, RuleLimit l)) xs) k = map_option RuleLimit (map_of xs k)" for xs k
    by (induction xs) auto
  have "map_of (RateLimitPolicy_Rules locator p') k = map_of rs k" for k
  proof (cases "k = RulesKeyTopLevelPredicates")
    case True
    have none: "map_of ls k = None"
      using top_not_limit_entry [OF ok] True
      unfolding ls_def [symmetric] by (auto simp: map_of_eq_None_fst list_all_iff)
    show ?thesis
    proof (cases "map_of rs k")
      case None
      then have "mwp_Predicates w = []" using True by (simp add: w_def when_of_rules_def)
      then show ?thesis using None none True
        by (simp add: rlp_Rules_eq [OF wf'] proper) (simp add: pr'_def limits limit_lookup)
    next
      case (Some r)
      then have "rlp_entry_ok k r" using ok by (auto simp: list_all_iff dest: map_of_SomeD)
      with True obtain w' where "r = RuleWhen w'" "mwp_Source w' \<noteq> []" "mwp_Predicates w' \<noteq> []"
        by (cases r) auto
      with Some True show ?thesis
        by (simp add: rlp_Rules_eq [OF wf'] proper) (simp add: pr'_def w_def when_of_rules_def NewMergeableRule_def)
    qed
  next
    case False
    then show ?thesis
      using map_of_limit_entries [OF ok False, folded ls_def]
      by (simp add: rlp_Rules_eq [OF wf'] proper) (simp add: pr'_def limits limit_lookup)
  qed
  then show ?thesis
    using set wf' loc limit_entries_Nil_iff [OF ok]
    by (auto simp: fun_eq_iff p'_def RateLimitPolicy_Empty_def pr'_def ls_def)
qed

lemma rlp_rules_ok:
  "rlp_wf locator p \<Longrightarrow> (k, r) \<in> set (RateLimitPolicy_Rules locator p) \<Longrightarrow> rlp_entry_ok k r"
  by (auto simp: rlp_Rules_eq NewMergeableRule_def) (auto simp: rlp_wf_def list_all_iff split: if_splits)

lemma rlp_rules_distinct: "rlp_wf locator p \<Longrightarrow> gm_wf (RateLimitPolicy_Rules locator p)"
  by (auto simp: rlp_Rules_eq comp_def case_prod_beta) (auto simp: rlp_wf_def list_all_iff)

interpretation rlp: mergeable_policy "rlp_ops locator" "rlp_wf locator" rlp_entry_ok rlp_substantive
  for locator
proof unfold_locales
  fix p rs
  assume "rlp_wf locator p" "gm_wf rs" "list_all (\<lambda>(k, r). rlp_entry_ok k r) rs"
  then show "\<exists>p'. SetRules (rlp_ops locator) p rs = Return p' \<and> rlp_wf locator p' \<and>
      map_of (Rules (rlp_ops locator) p') = map_of rs \<and>
      GetLocator (rlp_ops locator) p' = GetLocator (rlp_ops locator) p \<and>
      GetMergeStrategy (rlp_ops locator) p' = GetMergeStrategy (rlp_ops locator) p \<and>
      EmptyPolicy (rlp_ops locator) p' = (\<forall>k\<in>fst ` set rs. \<not> rlp_substantive k)"
    using rlp_set_rules by simp
qed (auto intro: rlp_rules_ok rlp_rules_distinct rlp_WithSource_GetSource dest: rlp_entry_ok_source)

section \<open>Effective rate limit policies\<close>

abbreviation rlp_effective ::
  "(string \<Rightarrow> string \<Rightarrow> string \<Rightarrow> string) \<Rightarrow> RateLimitPolicy list \<Rightarrow> RateLimitPolicy option option go_result" where
  "rlp_effective locator policies \<equiv> EffectivePolicyForPath (rlp_ops locator) Some policies"

lemma rlp_effective_ex:
  assumes "policies \<noteq> []" "list_all (rlp_wf locator) policies"
  shows "\<exists>e. rlp_effective locator policies = Return (Some (Some e)) \<and>
    map_of (RateLimitPolicy_Rules locator e) = effective_rules (rlp_ops locator) rlp_substantive policies \<and>
    rlp_wf locator e"
  using rlp.EffectivePolicyForPath_refines [of policies locator] assms by (auto simp: list_all_iff)

text \<open>A small instance: a gateway policy with a rule-by-rule override and a route policy.\<close>

definition ex_locator :: "string \<Rightarrow> string \<Rightarrow> string \<Rightarrow> string" where
  "ex_locator kind ns name = kind @ '':'' @ ns @ ''/'' @ name"

definition ex_limit :: "int \<Rightarrow> Limit" where
  "ex_limit n = \<lparr>limit_When = [], limit_Counters = [],
     limit_Rates = [\<lparr>rate_Limit = n, rate_Window = ''10s''\<rparr>], limit_Source = []\<rparr>"

definition ex_ref :: LocalPolicyTargetReference where
  "ex_ref = \<lparr>ref_Group = ''gateway.networking.k8s.io'', ref_Kind = ''Gateway'', ref_Name = ''gw'', ref_SectionName = None\<rparr>"

definition ex_proper :: "(string, Limit) gomap \<Rightarrow> RateLimitPolicySpecProper" where
  "ex_proper ls = \<lparr>rlp_When = \<lparr>mwp_Predicates = [], mwp_Source = []\<rparr>, rlp_Limits = ls\<rparr>"

definition ex_gateway_rlp :: "string \<Rightarrow> RateLimitPolicy" where
  "ex_gateway_rlp strategy = \<lparr>rlp_Namespace = ''ns'', rlp_Name = ''gw-rlp'',
     rlp_Spec = \<lparr>rlp_TargetRef = ex_ref, rlp_Defaults = None,
       rlp_Overrides = Some \<lparr>rlp_Strategy = strategy, rlp_ProperOf = ex_proper [(''a'', ex_limit 1)]\<rparr>,
       rlp_Bare = ex_proper []\<rparr>\<rparr>"

definition ex_route_rlp :: RateLimitPolicy where
  "ex_route_rlp = \<lparr>rlp_Namespace = ''ns'', rlp_Name = ''route-rlp'',
     rlp_Spec = \<lparr>rlp_TargetRef = ex_ref,
       rlp_Defaults = Some \<lparr>rlp_Strategy = ''merge'', rlp_ProperOf = ex_proper [(''a'', ex_limit 5), (''b'', ex_limit 7)]\<rparr>,
       rlp_Overrides = None, rlp_Bare = ex_proper []\<rparr>\<rparr>"

lemmas ex_rlp_defs = ex_locator_def ex_limit_def ex_ref_def ex_proper_def ex_gateway_rlp_def ex_route_rlp_def

lemma ex_rlp_wf: "rlp_wf ex_locator (ex_gateway_rlp strategy)" "rlp_wf ex_locator ex_route_rlp"
  by (simp_all add: rlp_wf_def ex_rlp_defs RateLimitPolicy_Proper_def RateLimitPolicy_GetLocator_def
      RulesKeyTopLevelPredicates_def)

text \<open>A policy as the API server delivers it: sources are internal and not yet set.\<close>

definition rlp_unsourced :: "RateLimitPolicy \<Rightarrow> bool" where
  "rlp_unsourced p \<longleftrightarrow> (let pr = RateLimitPolicy_Proper (rlp_Spec p) in
     mwp_Source (rlp_When pr) = [] \<and> list_all (\<lambda>(k, l). limit_Source l = []) (rlp_Limits pr))"

lemma ex_rlp_strategy:
  "RateLimitPolicy_GetMergeStrategy (ex_gateway_rlp ''merge'') = PolicyRuleOverrides"
  "RateLimitPolicy_GetMergeStrategy (ex_gateway_rlp ''atomic'') = AtomicOverrides"
  "RateLimitPolicy_GetMergeStrategy ex_route_rlp = PolicyRuleDefaults"
  by (simp_all add: RateLimitPolicy_GetMergeStrategy_def ex_gateway_rlp_def ex_route_rlp_def
      DefaultsMergeStrategy_def OverridesMergeStrategy_def AtomicMergeStrategy_def PolicyRuleMergeStrategy_def)

lemma ex_rlp_unsourced: "rlp_unsourced ex_route_rlp"
  by (simp add: rlp_unsourced_def RateLimitPolicy_Proper_def ex_route_rlp_def ex_proper_def ex_limit_def)

text \<open>
  C1.  Merging the well-formed rate limit policies of a path never panics, and the rules of the
  effective policy are those of the abstract specification \<^const>\<open>effective_rules\<close>: the policies
  combine pairwise from the most to the least specific, each by its own strategy.
\<close>

theorem rlp_effective_refines:
  assumes "policies \<noteq> []" "list_all (rlp_wf locator) policies"
  shows "\<exists>e. EffectivePolicyForPath (rlp_ops locator) Some policies = Return (Some (Some e)) \<and>
    map_of (RateLimitPolicy_Rules locator e) = effective_rules (rlp_ops locator) rlp_substantive policies \<and>
    rlp_wf locator e"
  by (rule rlp_effective_ex [OF assms])

theorem rlp_effective_refines_witness:
  "\<exists>e. EffectivePolicyForPath (rlp_ops ex_locator) Some [ex_gateway_rlp ''merge'', ex_route_rlp] = Return (Some (Some e)) \<and>
    map_of (RateLimitPolicy_Rules ex_locator e) =
      effective_rules (rlp_ops ex_locator) rlp_substantive [ex_gateway_rlp ''merge'', ex_route_rlp] \<and>
    rlp_wf ex_locator e"
  by (rule rlp_effective_refines) (simp_all add: ex_rlp_wf)

text \<open>
  C2.  When the policies of a path all merge rule by rule, a rule of the effective policy is the
  one of the least specific override that defines it; without an override defining it, it is the
  one of the most specific policy that does; and it is absent when no policy defines it.
\<close>

theorem rlp_effective_rule_winner:
  assumes "policies \<noteq> []" "list_all (rlp_wf locator) policies"
    and "list_all (\<lambda>p. RateLimitPolicy_GetMergeStrategy p \<in> {PolicyRuleDefaults, PolicyRuleOverrides}) policies"
  shows "\<exists>e. EffectivePolicyForPath (rlp_ops locator) Some policies = Return (Some (Some e)) \<and>
    map_of (RateLimitPolicy_Rules locator e) = rule_winner (rlp_ops locator) policies"
  using rlp_effective_ex [OF assms(1,2)] assms(3)
    effective_rules_winner [OF assms(1), of "rlp_ops locator" rlp_substantive]
  by (fastforce simp: list_all_iff fun_eq_iff)

theorem rlp_effective_rule_winner_witness:
  "\<exists>e. EffectivePolicyForPath (rlp_ops ex_locator) Some [ex_gateway_rlp ''merge'', ex_route_rlp] = Return (Some (Some e)) \<and>
    map_of (RateLimitPolicy_Rules ex_locator e) = rule_winner (rlp_ops ex_locator) [ex_gateway_rlp ''merge'', ex_route_rlp]"
  by (rule rlp_effective_rule_winner) (simp_all add: ex_rlp_wf ex_rlp_strategy)

text \<open>
  C22.  An atomic override cannot be weakened from below: whatever more specific policies follow
  it in the path, the effective rules are those the path has when it ends at the override.
\<close>

theorem rlp_atomic_override_shields:
  assumes "list_all (rlp_wf locator) (upper @ p # lower)"
    and "RateLimitPolicy_GetMergeStrategy p = AtomicOverrides"
  shows "\<exists>e f. EffectivePolicyForPath (rlp_ops locator) Some (upper @ p # lower) = Return (Some (Some e)) \<and>
    EffectivePolicyForPath (rlp_ops locator) Some (upper @ [p]) = Return (Some (Some f)) \<and>
    map_of (RateLimitPolicy_Rules locator e) = map_of (RateLimitPolicy_Rules locator f)"
  using rlp_effective_ex [of "upper @ p # lower" locator] rlp_effective_ex [of "upper @ [p]" locator] assms
    effective_rules_shield [of "rlp_ops locator" p rlp_substantive upper lower]
  by auto

theorem rlp_atomic_override_shields_witness:
  "\<exists>e f. EffectivePolicyForPath (rlp_ops ex_locator) Some ([] @ ex_gateway_rlp ''atomic'' # [ex_route_rlp]) = Return (Some (Some e)) \<and>
    EffectivePolicyForPath (rlp_ops ex_locator) Some ([] @ [ex_gateway_rlp ''atomic'']) = Return (Some (Some f)) \<and>
    map_of (RateLimitPolicy_Rules ex_locator e) = map_of (RateLimitPolicy_Rules ex_locator f)"
  by (rule rlp_atomic_override_shields) (simp_all add: ex_rlp_wf ex_rlp_strategy)

lemma rlp_unsourced_rules:
  assumes "rlp_wf locator p" "rlp_unsourced p" "map_of (RateLimitPolicy_Rules locator p) k = Some r"
  shows "rlp_GetSource r = RateLimitPolicy_GetLocator locator p"
  using map_of_SomeD [OF assms(3)] assms(1,2)
  by (auto simp: rlp_Rules_eq [OF assms(1)] rlp_unsourced_def Let_def NewMergeableRule_def list_all_iff
      split: if_splits)

text \<open>
  The sources reported for an effective policy are in order, without duplicates, and each is
  the locator of a policy of the path that still contributes a rule.
\<close>

theorem rlp_sources_sound:
  assumes "list_all (rlp_wf locator) policies" "list_all rlp_unsourced policies"
    and "EffectivePolicyForPath (rlp_ops locator) Some policies = Return (Some (Some e))"
  shows "distinct (SourcePoliciesFromEffectivePolicy (rlp_ops locator) e) \<and>
    sorted (SourcePoliciesFromEffectivePolicy (rlp_ops locator) e) \<and>
    (\<forall>src. src \<in> set (SourcePoliciesFromEffectivePolicy (rlp_ops locator) e) \<longleftrightarrow>
      (\<exists>k r. map_of (RateLimitPolicy_Rules locator e) k = Some r \<and> rlp_GetSource r = src)) \<and>
    set (SourcePoliciesFromEffectivePolicy (rlp_ops locator) e) \<subseteq>
      RateLimitPolicy_GetLocator locator ` set policies"
proof -
  have ne: "policies \<noteq> []" using assms(3) by (auto simp: EffectivePolicyForPath_def)
  have rules: "map_of (RateLimitPolicy_Rules locator e) = effective_rules (rlp_ops locator) rlp_substantive policies"
    and wf: "rlp_wf locator e"
    using rlp_effective_ex [OF ne assms(1)] assms(3) by auto
  have src: "src \<in> set (SourcePoliciesFromEffectivePolicy (rlp_ops locator) e) \<longleftrightarrow>
      (\<exists>k r. map_of (RateLimitPolicy_Rules locator e) k = Some r \<and> rlp_GetSource r = src)" for src
    using rlp_rules_distinct [OF wf]
    by (force simp: SourcePoliciesFromEffectivePolicy_def image_iff dest: map_of_SomeD)
  moreover have "src \<in> RateLimitPolicy_GetLocator locator ` set policies"
    if "map_of (RateLimitPolicy_Rules locator e) k = Some r" "rlp_GetSource r = src" for src k r
  proof -
    from that(1) rules obtain p where p: "p \<in> set policies" "map_of (RateLimitPolicy_Rules locator p) k = Some r"
      using effective_rules_provenance [of "rlp_ops locator" rlp_substantive policies k r] by auto
    with rlp_unsourced_rules [of locator p k r] assms(1,2) that(2) show ?thesis
      by (auto simp: list_all_iff)
  qed
  moreover have "sorted (SourcePoliciesFromEffectivePolicy (rlp_ops locator) e)"
    by (simp add: SourcePoliciesFromEffectivePolicy_def sorted_lo_Uniq sorted_sort_strings)
  moreover have "distinct (SourcePoliciesFromEffectivePolicy (rlp_ops locator) e)"
    by (simp add: SourcePoliciesFromEffectivePolicy_def)
  ultimately show ?thesis by blast
qed

theorem rlp_sources_sound_witness:
  "\<exists>e. EffectivePolicyForPath (rlp_ops ex_locator) Some [ex_route_rlp] = Return (Some (Some e)) \<and>
    set (SourcePoliciesFromEffectivePolicy (rlp_ops ex_locator) e) \<subseteq> {''RateLimitPolicy:ns/route-rlp''}"
proof -
  obtain e where e: "EffectivePolicyForPath (rlp_ops ex_locator) Some [ex_route_rlp] = Return (Some (Some e))"
    using rlp_effective_ex [of "[ex_route_rlp]" ex_locator] ex_rlp_wf by auto
  have "list_all (rlp_wf ex_locator) [ex_route_rlp]" "list_all rlp_unsourced [ex_route_rlp]"
    by (simp_all add: ex_rlp_wf ex_rlp_unsourced)
  from rlp_sources_sound [OF this e] e show ?thesis
    by (auto simp: RateLimitPolicy_GetLocator_def ex_locator_def ex_route_rlp_def)
qed

end
