(* ===== verification/Policy_Conditions.thy ===== *)
theory Policy_Conditions
  imports Gateway_API Rate_Limit_Policy
begin

text \<open>
  Errors of policies and the conditions that report them (\<open>internal/kuadrant/errors.go\<close>,
  \<open>internal/kuadrant/conditions.go\<close>, the condition helpers of
  \<open>internal/controller/common.go\<close>, and the comparison of auth policy statuses).

  An error value is either one of the operator's own policy errors or a foreign error, known by
  its text and by the answer of \<open>apierrors.IsNotFound\<close>.  No policy error has a method
  \<open>Unwrap\<close>: \<open>errors.As\<close> finds a policy error only at the top, and an API error inside a
  policy error is hidden from \<open>apierrors.IsNotFound\<close>.  The text of a \<open>NamespacedName\<close> is
  the parameter \<open>nn\<close>, the JSON encoder the parameter \<open>marshal\<close>.
\<close>

section \<open>Errors\<close>

datatype go_error = ForeignError string bool | PolicyError policy_error
and policy_error =
    ErrTargetNotFound string LocalPolicyTargetReference go_error
  | ErrPolicyTargetNotFound string string go_error
  | ErrInvalid string go_error
  | ErrConflict string string go_error
  | ErrUnknown string go_error
  | ErrNoRoutes string
  | ErrOverridden string "(string \<times> string) list"
  | ErrOutOfSync string "string list"
  | ErrDependencyNotInstalled "string list"
  | ErrSystemResource string
  | ErrReservationsDisabled string
  | ErrCelValidation "go_error list"

fun IsNotFound :: "go_error \<Rightarrow> bool" where
  "IsNotFound (ForeignError msg notFound) = notFound"
| "IsNotFound (PolicyError e) = False"

text \<open>The verbs \<open>%s\<close> and \<open>%v\<close> on a slice.\<close>

definition fmt_slice :: "string list \<Rightarrow> string" where
  "fmt_slice xs = ''['' @ Join xs '' '' @ '']''"

fun Error_text :: "(string \<Rightarrow> string \<Rightarrow> string) \<Rightarrow> go_error \<Rightarrow> string"
and Policy_Error :: "(string \<Rightarrow> string \<Rightarrow> string) \<Rightarrow> policy_error \<Rightarrow> string" where
  "Error_text nn (ForeignError msg notFound) = msg"
| "Error_text nn (PolicyError e) = Policy_Error nn e"
| "Policy_Error nn (ErrTargetNotFound kind targetRef err) =
     (if IsNotFound err then kind @ '' target '' @ ref_Name targetRef @ '' was not found''
      else kind @ '' target '' @ ref_Name targetRef @ '' was not found: '' @ Error_text nn err)"
| "Policy_Error nn (ErrPolicyTargetNotFound kind name err) =
     (if IsNotFound err then kind @ '' target '' @ name @ '' was not found''
      else kind @ '' target '' @ name @ '' was not found: '' @ Error_text nn err)"
| "Policy_Error nn (ErrInvalid kind err) = kind @ '' target is invalid: '' @ Error_text nn err"
| "Policy_Error nn (ErrConflict kind nameNamespace err) =
     kind @ '' is conflicted by '' @ nameNamespace @ '': '' @ Error_text nn err"
| "Policy_Error nn (ErrUnknown kind err) = kind @ '' has encountered some issues: '' @ Error_text nn err"
| "Policy_Error nn (ErrNoRoutes kind) = kind @ '' is not in the path to any existing routes''"
| "Policy_Error nn (ErrOverridden kind policies) =
     kind @ '' is overridden by '' @ fmt_slice (map (\<lambda>(ns, name). nn ns name) policies)"
| "Policy_Error nn (ErrOutOfSync kind components) =
     kind @ '' waiting for the following components to sync: '' @ fmt_slice components"
| "Policy_Error nn (ErrDependencyNotInstalled names) =
     ''['' @ Join names '', '' @
     ''] is not installed, please restart Kuadrant Operator pod once dependency has been installed''"
| "Policy_Error nn (ErrSystemResource name) = name @ '' is not installed, please create resource''"
| "Policy_Error nn (ErrReservationsDisabled kind) =
     kind @ '' cannot be enforced: Kuadrant spec.tokenRateLimiting.mode is Reservation, but Limitador has reservations disabled (spec.reservations.enabled=false)''"
| "Policy_Error nn (ErrCelValidation issues) = ''validation issues: '' @ fmt_slice (map (Error_text nn) issues)"

fun Policy_Reason :: "policy_error \<Rightarrow> string" where
  "Policy_Reason (ErrTargetNotFound kind targetRef err) = ''TargetNotFound''"
| "Policy_Reason (ErrPolicyTargetNotFound kind name err) = ''TargetNotFound''"
| "Policy_Reason (ErrInvalid kind err) = ''Invalid''"
| "Policy_Reason (ErrConflict kind nameNamespace err) = ''Conflicted''"
| "Policy_Reason (ErrUnknown kind err) = ''Unknown''"
| "Policy_Reason (ErrNoRoutes kind) = ''Unknown''"
| "Policy_Reason (ErrOverridden kind policies) = ''Overridden''"
| "Policy_Reason (ErrOutOfSync kind components) = ''Unknown''"
| "Policy_Reason (ErrDependencyNotInstalled names) = ''MissingDependency''"
| "Policy_Reason (ErrSystemResource name) = ''MissingResource''"
| "Policy_Reason (ErrReservationsDisabled kind) = ''ReservationsDisabled''"
| "Policy_Reason (ErrCelValidation issues) = ''InvalidCelExpression''"

text \<open>\<open>errors.As(err, &policyErr)\<close>.\<close>

fun asPolicyError :: "go_error \<Rightarrow> policy_error option" where
  "asPolicyError (PolicyError e) = Some e"
| "asPolicyError (ForeignError msg notFound) = None"

definition reasonForError :: "go_error \<Rightarrow> string" where
  "reasonForError err = (case asPolicyError err of Some e \<Rightarrow> Policy_Reason e | None \<Rightarrow> [])"

definition IsTargetNotFound :: "go_error \<Rightarrow> bool" where
  "IsTargetNotFound err \<longleftrightarrow> reasonForError err = ''TargetNotFound''"

section \<open>Conditions\<close>

abbreviation PolicyConditionAccepted :: string where "PolicyConditionAccepted \<equiv> ''Accepted''"
abbreviation PolicyConditionEnforced :: string where "PolicyConditionEnforced \<equiv> ''Enforced''"

definition ConditionMarshal :: "(Condition list \<Rightarrow> string) \<Rightarrow> Condition list \<Rightarrow> string" where
  "ConditionMarshal marshal conditions =
     marshal (go_sort (\<lambda>a b. string_less (cond_Type a) (cond_Type b)) conditions)"

definition AcceptedCondition :: "(string \<Rightarrow> string \<Rightarrow> string) \<Rightarrow> string \<Rightarrow> go_error option \<Rightarrow> Condition" where
  "AcceptedCondition nn kind err =
     (let cond = \<lparr>cond_Type = PolicyConditionAccepted, cond_Status = ''True'', cond_Reason = ''Accepted'',
            cond_Message = kind @ '' has been accepted''\<rparr>
      in case err of None \<Rightarrow> cond
         | Some e \<Rightarrow>
           (let policyErr = (case asPolicyError e of Some p \<Rightarrow> p | None \<Rightarrow> ErrUnknown kind e)
            in cond\<lparr>cond_Status := ''False'', cond_Message := Policy_Error nn policyErr,
                 cond_Reason := Policy_Reason policyErr\<rparr>))"

definition EnforcedCondition ::
  "(string \<Rightarrow> string \<Rightarrow> string) \<Rightarrow> string \<Rightarrow> policy_error option \<Rightarrow> bool \<Rightarrow> Condition" where
  "EnforcedCondition nn kind err fully =
     (let message = (if \<not> fully then kind @ '' has been partially enforced''
            else kind @ '' has been successfully enforced'');
          cond = \<lparr>cond_Type = PolicyConditionEnforced, cond_Status = ''True'', cond_Reason = ''Enforced'',
            cond_Message = message\<rparr>
      in case err of None \<Rightarrow> cond
         | Some e \<Rightarrow> cond\<lparr>cond_Status := ''False'', cond_Message := Policy_Error nn e, cond_Reason := Policy_Reason e\<rparr>)"

definition PolicyAffectedConditionType :: "string \<Rightarrow> string" where
  "PolicyAffectedConditionType policyKind = ''kuadrant.io/'' @ policyKind @ ''Affected''"

definition PolicyAffectedCondition ::
  "(string \<Rightarrow> string \<Rightarrow> string) \<Rightarrow> string \<Rightarrow> (string \<times> string) list \<Rightarrow> Condition" where
  "PolicyAffectedCondition nn policyKind policies =
     \<lparr>cond_Type = PolicyAffectedConditionType policyKind, cond_Status = ''True'', cond_Reason = ''Accepted'',
      cond_Message = ''Object affected by '' @ policyKind @ '' '' @ fmt_slice (map (\<lambda>(ns, name). nn ns name) policies)\<rparr>"

text \<open>\<open>AuthPolicyStatus.Equals\<close>: generations and encoded conditions.\<close>

definition AuthPolicyStatus_Equals ::
  "(Condition list \<Rightarrow> string) \<Rightarrow> int \<times> Condition list \<Rightarrow> int \<times> Condition list \<Rightarrow> bool" where
  "AuthPolicyStatus_Equals marshal s other \<longleftrightarrow>
     fst s = fst other \<and> ConditionMarshal marshal (snd s) = ConditionMarshal marshal (snd other)"

section \<open>Properties\<close>

lemma EnforcedCondition_simps [simp]:
  "cond_Type (EnforcedCondition nn kind err fully) = PolicyConditionEnforced"
  "cond_Status (EnforcedCondition nn kind err fully) = (if err = None then ''True'' else ''False'')"
  "cond_Reason (EnforcedCondition nn kind err fully) =
     (case err of None \<Rightarrow> ''Enforced'' | Some e \<Rightarrow> Policy_Reason e)"
  by (simp_all add: EnforcedCondition_def Let_def split: option.splits)

lemma AcceptedCondition_simps [simp]:
  "cond_Type (AcceptedCondition nn kind err) = PolicyConditionAccepted"
  "cond_Status (AcceptedCondition nn kind err) = (if err = None then ''True'' else ''False'')"
  by (simp_all add: AcceptedCondition_def Let_def split: option.splits)

text \<open>A foreign error is reported as an unknown issue around its text.\<close>

lemma AcceptedCondition_foreign:
  "cond_Message (AcceptedCondition nn kind (Some (ForeignError msg notFound))) =
     kind @ '' has encountered some issues: '' @ msg"
  "cond_Reason (AcceptedCondition nn kind (Some (ForeignError msg notFound))) = ''Unknown''"
  by (simp_all add: AcceptedCondition_def)

lemma target_not_found_text:
  "Policy_Error nn (ErrPolicyTargetNotFound kind name (ForeignError msg True)) =
     kind @ '' target '' @ name @ '' was not found''"
  by simp

interpretation condition_types: go_weak_order "\<lambda>a b. string_less (cond_Type a) (cond_Type b)"
  by unfold_locales (auto simp: string_less_def)

text \<open>
  Two auth policy statuses with one condition for each type are equal exactly when their
  generations agree and they hold the same conditions, in whatever order; the encoder is any
  one that distinguishes different lists.
\<close>

lemma AuthPolicyStatus_Equals_iff:
  assumes "inj marshal" "distinct (map cond_Type cs)" "distinct (map cond_Type ds)"
  shows "AuthPolicyStatus_Equals marshal (g, cs) (h, ds) \<longleftrightarrow> g = h \<and> set cs = set ds"
proof -
  have "\<forall>x\<in>set cs. \<forall>y\<in>set cs. \<not> string_less (cond_Type x) (cond_Type y) \<longrightarrow>
      \<not> string_less (cond_Type y) (cond_Type x) \<longrightarrow> x = y"
    using assms(2) by (auto simp: string_less_def distinct_map inj_on_def)
  from condition_types.go_sort_eq_iff_on [OF this, of ds]
  have "ConditionMarshal marshal cs = ConditionMarshal marshal ds \<longleftrightarrow> mset cs = mset ds"
    using assms(1) by (simp add: ConditionMarshal_def inj_eq)
  moreover have "distinct cs" "distinct ds" using assms(2,3) by (auto simp: distinct_map)
  ultimately show ?thesis by (simp add: AuthPolicyStatus_Equals_def set_eq_iff_mset_eq_distinct)
qed

end
