(* ===== verification/Policy_Machinery.thy ===== *)
theory Policy_Machinery
  imports Gateway_API
begin

text \<open>
  Paths of the topology (\<open>internal/policymachinery/utils.go\<close>): from a gateway class through a
  gateway, a listener and a route to a route rule.

  An element of a path is an interface value: \<open>targetable\<close> has a constructor for each
  concrete type the code asserts, with \<open>None\<close> for a typed nil pointer, and \<open>TOther\<close> for any
  other type and for a nil interface.  Routes and rules are generic in the type of their matches,
  as the Go helper is generic in the route type.
\<close>

record GatewayClass =
  gc_Name :: string

record TopoListener =
  tl_Listener :: Listener
  tl_Gateway :: "Gateway option"

record 'm TopoRoute =
  tr_Route :: Route
  tr_CreationTimestamp :: int
  tr_Rules :: "'m list list"

record 'm TopoRouteRule =
  trr_Name :: string
  trr_Matches :: "'m list"
  trr_Route :: "'m TopoRoute option"

datatype targetable =
    TGatewayClass "GatewayClass option"
  | TGateway "Gateway option"
  | TListener "TopoListener option"
  | THTTPRoute "HTTPRouteMatch TopoRoute option"
  | THTTPRouteRule "HTTPRouteMatch TopoRouteRule option"
  | TGRPCRoute "GRPCRouteMatch TopoRoute option"
  | TGRPCRouteRule "GRPCRouteMatch TopoRouteRule option"
  | TOther

text \<open>Type assertions: \<open>None\<close> when the assertion fails.\<close>

fun asGatewayClass where
  "asGatewayClass (TGatewayClass x) = Some x" | "asGatewayClass _ = None"

fun asGateway where
  "asGateway (TGateway x) = Some x" | "asGateway _ = None"

fun asListener where
  "asListener (TListener x) = Some x" | "asListener _ = None"

fun asHTTPRoute where
  "asHTTPRoute (THTTPRoute x) = Some x" | "asHTTPRoute _ = None"

fun asHTTPRouteRule where
  "asHTTPRouteRule (THTTPRouteRule x) = Some x" | "asHTTPRouteRule _ = None"

fun asGRPCRoute where
  "asGRPCRoute (TGRPCRoute x) = Some x" | "asGRPCRoute _ = None"

fun asGRPCRouteRule where
  "asGRPCRouteRule (TGRPCRouteRule x) = Some x" | "asGRPCRouteRule _ = None"

section \<open>Route types\<close>

datatype RouteType = RouteTypeUnknown | RouteTypeHTTP | RouteTypeGRPC

fun RouteType_String :: "RouteType \<Rightarrow> string" where
  "RouteType_String RouteTypeHTTP = ''HTTP''"
| "RouteType_String RouteTypeGRPC = ''gRPC''"
| "RouteType_String RouteTypeUnknown = ''Unknown''"

definition DetectRouteType :: "targetable list \<Rightarrow> RouteType" where
  "DetectRouteType path =
     (if length path < 4 then RouteTypeUnknown
      else (case path ! 3 of THTTPRoute r \<Rightarrow> RouteTypeHTTP | TGRPCRoute r \<Rightarrow> RouteTypeGRPC
        | _ \<Rightarrow> RouteTypeUnknown))"

section \<open>Objects of a path\<close>

text \<open>What the helper returns: the objects found so far and the message of \<open>ErrInvalidPath\<close>.\<close>

record 'm PathObjects =
  po_GatewayClass :: "GatewayClass option"
  po_Gateway :: "Gateway option"
  po_Listener :: "TopoListener option"
  po_Route :: "'m TopoRoute option"
  po_RouteRule :: "'m TopoRouteRule option"
  po_Error :: "string option"

definition parentRefMatchesListener ::
  "TopoListener \<Rightarrow> Gateway \<Rightarrow> 'm TopoRoute \<Rightarrow> ParentReference \<Rightarrow> bool" where
  "parentRefMatchesListener listener gateway route ref =
     (if Deref (parent_Group ref) GroupName \<noteq> gateway_Group gateway \<or>
         Deref (parent_Kind ref) GatewayKind \<noteq> gateway_Kind gateway \<or>
         Deref (parent_Namespace ref) (route_Namespace (tr_Route route)) \<noteq> gateway_Namespace gateway \<or>
         parent_Name ref \<noteq> gateway_Name gateway then False
      else let sectionName = Deref (parent_SectionName ref) [] in
      if sectionName \<noteq> [] \<and> sectionName \<noteq> listener_Name (tl_Listener listener) then False
      else let hostnameSupersets = (case listener_Hostname (tl_Listener listener) of None \<Rightarrow> [''*''] | Some h \<Rightarrow> [h]) in
      if length (route_Hostnames (tr_Route route)) > 0
      then list_ex (\<lambda>routeHostname. list_ex (\<lambda>hostnameSuperset. SubsetOf routeHostname hostnameSuperset)
        hostnameSupersets) (route_Hostnames (tr_Route route))
      else True)"

definition objectsInRequestPath ::
  "targetable list \<Rightarrow> string \<Rightarrow> string \<Rightarrow> string \<Rightarrow> (targetable \<Rightarrow> 'm TopoRoute option option) \<Rightarrow>
   (targetable \<Rightarrow> 'm TopoRouteRule option option) \<Rightarrow> 'm PathObjects" where
  "objectsInRequestPath path routeTypeName routeDisplayName routeRuleTypeName asRoute asRule =
     (let result = (\<lambda>gc gw l r rr err. \<lparr>po_GatewayClass = gc, po_Gateway = gw, po_Listener = l, po_Route = r,
            po_RouteRule = rr, po_Error = err\<rparr>) in
      if length path \<noteq> 5
        then result None None None None None (Some (''path must have exactly 5 elements, got '' @ itoa (length path)))
      else case asGatewayClass (path ! 0) of
        None \<Rightarrow> result None None None None None (Some ''index 0 is not a GatewayClass'')
      | Some None \<Rightarrow> result None None None None None (Some ''gateway class is a typed nil'')
      | Some (Some gatewayClass) \<Rightarrow>
      (case asGateway (path ! 1) of
        None \<Rightarrow> result (Some gatewayClass) None None None None (Some ''index 1 is not a Gateway'')
      | Some None \<Rightarrow> result (Some gatewayClass) None None None None (Some ''gateway is a typed nil'')
      | Some (Some gateway) \<Rightarrow>
      if gateway_ClassName gateway \<noteq> gc_Name gatewayClass
        then result (Some gatewayClass) (Some gateway) None None None (Some ''gateway does not belong to the gateway class'')
      else (case asListener (path ! 2) of
        None \<Rightarrow> result (Some gatewayClass) (Some gateway) None None None (Some ''index 2 is not a Listener'')
      | Some None \<Rightarrow> result (Some gatewayClass) (Some gateway) None None None (Some ''listener is a typed nil'')
      | Some (Some listener) \<Rightarrow>
      (case tl_Gateway listener of
        None \<Rightarrow> result (Some gatewayClass) (Some gateway) (Some listener) None None (Some ''listener does not belong to the gateway'')
      | Some lgw \<Rightarrow>
      if gateway_Namespace lgw \<noteq> gateway_Namespace gateway \<or> gateway_Name lgw \<noteq> gateway_Name gateway
        then result (Some gatewayClass) (Some gateway) (Some listener) None None (Some ''listener does not belong to the gateway'')
      else (case asRoute (path ! 3) of
        None \<Rightarrow> result (Some gatewayClass) (Some gateway) (Some listener) None None (Some (''index 3 is not a '' @ routeTypeName))
      | Some None \<Rightarrow> result (Some gatewayClass) (Some gateway) (Some listener) None None (Some ''route is a typed nil'')
      | Some (Some route) \<Rightarrow>
      if \<not> list_ex (parentRefMatchesListener listener lgw route) (route_ParentRefs (tr_Route route))
        then result (Some gatewayClass) (Some gateway) (Some listener) (Some route) None
          (Some (routeDisplayName @ '' does not belong to the listener''))
      else (case asRule (path ! 4) of
        None \<Rightarrow> result (Some gatewayClass) (Some gateway) (Some listener) (Some route) None
          (Some (''index 4 is not a '' @ routeRuleTypeName))
      | Some None \<Rightarrow> result (Some gatewayClass) (Some gateway) (Some listener) (Some route) None
          (Some ''route rule is a typed nil'')
      | Some (Some routeRule) \<Rightarrow>
      if (case trr_Route routeRule of None \<Rightarrow> True
          | Some parentRoute \<Rightarrow> route_Namespace (tr_Route parentRoute) \<noteq> route_Namespace (tr_Route route) \<or>
              route_Name (tr_Route parentRoute) \<noteq> route_Name (tr_Route route))
        then result (Some gatewayClass) (Some gateway) (Some listener) (Some route) (Some routeRule)
          (Some (routeDisplayName @ '' rule does not belong to the '' @ routeDisplayName))
      else result (Some gatewayClass) (Some gateway) (Some listener) (Some route) (Some routeRule) None))))))"

definition ObjectsInHTTPRequestPath :: "targetable list \<Rightarrow> HTTPRouteMatch PathObjects" where
  "ObjectsInHTTPRequestPath path =
     objectsInRequestPath path ''HTTPRoute'' ''http route'' ''HTTPRouteRule'' asHTTPRoute asHTTPRouteRule"

definition ObjectsInGRPCRequestPath :: "targetable list \<Rightarrow> GRPCRouteMatch PathObjects" where
  "ObjectsInGRPCRequestPath path =
     objectsInRequestPath path ''GRPCRoute'' ''grpc route'' ''GRPCRouteRule'' asGRPCRoute asGRPCRouteRule"

definition ObjectsInRequestPath :: "targetable list \<Rightarrow> HTTPRouteMatch PathObjects" where
  "ObjectsInRequestPath path = ObjectsInHTTPRequestPath path"

section \<open>Parsed paths\<close>

record ParsedTopologyPath =
  ptp_GatewayClass :: "GatewayClass option"
  ptp_Gateway :: "Gateway option"
  ptp_Listener :: "TopoListener option"
  ptp_RouteType :: RouteType
  ptp_HTTPRoute :: "HTTPRouteMatch TopoRoute option"
  ptp_HTTPRouteRule :: "HTTPRouteMatch TopoRouteRule option"
  ptp_GRPCRoute :: "GRPCRouteMatch TopoRoute option"
  ptp_GRPCRouteRule :: "GRPCRouteMatch TopoRouteRule option"

definition ParseTopologyPath :: "targetable list \<Rightarrow> string + ParsedTopologyPath" where
  "ParseTopologyPath path = (case DetectRouteType path of
     RouteTypeHTTP \<Rightarrow> (let ob = ObjectsInHTTPRequestPath path in
       case po_Error ob of Some err \<Rightarrow> Inl err
       | None \<Rightarrow> Inr \<lparr>ptp_GatewayClass = po_GatewayClass ob, ptp_Gateway = po_Gateway ob, ptp_Listener = po_Listener ob,
           ptp_RouteType = RouteTypeHTTP, ptp_HTTPRoute = po_Route ob, ptp_HTTPRouteRule = po_RouteRule ob,
           ptp_GRPCRoute = None, ptp_GRPCRouteRule = None\<rparr>)
   | RouteTypeGRPC \<Rightarrow> (let ob = ObjectsInGRPCRequestPath path in
       case po_Error ob of Some err \<Rightarrow> Inl err
       | None \<Rightarrow> Inr \<lparr>ptp_GatewayClass = po_GatewayClass ob, ptp_Gateway = po_Gateway ob, ptp_Listener = po_Listener ob,
           ptp_RouteType = RouteTypeGRPC, ptp_HTTPRoute = None, ptp_HTTPRouteRule = None,
           ptp_GRPCRoute = po_Route ob, ptp_GRPCRouteRule = po_RouteRule ob\<rparr>)
   | RouteTypeUnknown \<Rightarrow> Inl ''unsupported route type'')"

definition GetRouteName :: "ParsedTopologyPath \<Rightarrow> string" where
  "GetRouteName p = (case ptp_HTTPRoute p of Some r \<Rightarrow> route_Name (tr_Route r)
     | None \<Rightarrow> (case ptp_GRPCRoute p of Some r \<Rightarrow> route_Name (tr_Route r) | None \<Rightarrow> []))"

definition GetRouteNamespace :: "ParsedTopologyPath \<Rightarrow> string" where
  "GetRouteNamespace p = (case ptp_HTTPRoute p of Some r \<Rightarrow> route_Namespace (tr_Route r)
     | None \<Rightarrow> (case ptp_GRPCRoute p of Some r \<Rightarrow> route_Namespace (tr_Route r) | None \<Rightarrow> []))"

definition GetRouteNamespacedName :: "ParsedTopologyPath \<Rightarrow> string \<times> string" where
  "GetRouteNamespacedName p = (GetRouteNamespace p, GetRouteName p)"

definition GetRouteRuleName :: "ParsedTopologyPath \<Rightarrow> string" where
  "GetRouteRuleName p = (case ptp_HTTPRouteRule p of Some r \<Rightarrow> trr_Name r
     | None \<Rightarrow> (case ptp_GRPCRouteRule p of Some r \<Rightarrow> trr_Name r | None \<Rightarrow> []))"

definition GetRoute :: "ParsedTopologyPath \<Rightarrow> targetable option" where
  "GetRoute p = (case ptp_HTTPRoute p of Some r \<Rightarrow> Some (THTTPRoute (Some r))
     | None \<Rightarrow> (case ptp_GRPCRoute p of Some r \<Rightarrow> Some (TGRPCRoute (Some r)) | None \<Rightarrow> None))"

definition GetRouteRule :: "ParsedTopologyPath \<Rightarrow> targetable option" where
  "GetRouteRule p = (case ptp_HTTPRouteRule p of Some r \<Rightarrow> Some (THTTPRouteRule (Some r))
     | None \<Rightarrow> (case ptp_GRPCRouteRule p of Some r \<Rightarrow> Some (TGRPCRouteRule (Some r)) | None \<Rightarrow> None))"

text \<open>\<open>getLocator\<close> is the method \<open>GetLocator\<close> of the rule, from the policy-machinery library.\<close>

definition GetRouteRuleLocator :: "(targetable \<Rightarrow> string) \<Rightarrow> ParsedTopologyPath \<Rightarrow> string" where
  "GetRouteRuleLocator getLocator p = (case GetRouteRule p of Some r \<Rightarrow> getLocator r | None \<Rightarrow> [])"

definition NamespacedNameFromLocator :: "string \<Rightarrow> string + (string \<times> string)" where
  "NamespacedNameFromLocator locator =
     (let parts = SplitN2 locator CHR '':'' in
      if length parts \<noteq> 2 then Inl (''invalid locator: '' @ locator)
      else let namespacedName = SplitN2 (parts ! 1) CHR ''/'' in
        if length namespacedName = 1 then Inr ([], namespacedName ! 0)
        else Inr (namespacedName ! 0, namespacedName ! 1))"

section \<open>Valid paths\<close>

text \<open>What makes five objects a chain from the gateway class to the route rule.\<close>

definition chain :: "GatewayClass \<Rightarrow> Gateway \<Rightarrow> TopoListener \<Rightarrow> 'm TopoRoute \<Rightarrow> 'm TopoRouteRule \<Rightarrow> bool" where
  "chain gc gw l r rr \<longleftrightarrow> gateway_ClassName gw = gc_Name gc \<and>
     (\<exists>lgw. tl_Gateway l = Some lgw \<and> gateway_Namespace lgw = gateway_Namespace gw \<and> gateway_Name lgw = gateway_Name gw \<and>
        list_ex (parentRefMatchesListener l lgw r) (route_ParentRefs (tr_Route r))) \<and>
     (\<exists>pr. trr_Route rr = Some pr \<and> route_Namespace (tr_Route pr) = route_Namespace (tr_Route r) \<and>
        route_Name (tr_Route pr) = route_Name (tr_Route r))"

lemma objectsInRequestPath_ok:
  "objectsInRequestPath path a b c asRoute asRule = ob \<and> po_Error ob = None \<longleftrightarrow>
    (\<exists>gc gw l r rr. length path = 5 \<and> asGatewayClass (path ! 0) = Some (Some gc) \<and> asGateway (path ! 1) = Some (Some gw) \<and>
       asListener (path ! 2) = Some (Some l) \<and> asRoute (path ! 3) = Some (Some r) \<and> asRule (path ! 4) = Some (Some rr) \<and>
       chain gc gw l r rr \<and> ob = \<lparr>po_GatewayClass = Some gc, po_Gateway = Some gw, po_Listener = Some l, po_Route = Some r,
         po_RouteRule = Some rr, po_Error = None\<rparr>)"
  unfolding objectsInRequestPath_def chain_def Let_def
  by (auto split: if_splits option.splits)

lemma assertions:
  "asGatewayClass t = Some (Some gc) \<longleftrightarrow> t = TGatewayClass (Some gc)"
  "asGateway t = Some (Some gw) \<longleftrightarrow> t = TGateway (Some gw)"
  "asListener t = Some (Some l) \<longleftrightarrow> t = TListener (Some l)"
  "asHTTPRoute t = Some (Some r) \<longleftrightarrow> t = THTTPRoute (Some r)"
  "asHTTPRouteRule t = Some (Some rr) \<longleftrightarrow> t = THTTPRouteRule (Some rr)"
  "asGRPCRoute t = Some (Some gr) \<longleftrightarrow> t = TGRPCRoute (Some gr)"
  "asGRPCRouteRule t = Some (Some grr) \<longleftrightarrow> t = TGRPCRouteRule (Some grr)"
  by (cases t; simp)+

lemma five_elements:
  "length path = 5 \<and> path ! 0 = a \<and> path ! 1 = b \<and> path ! 2 = c \<and> path ! 3 = d \<and> path ! 4 = e \<longleftrightarrow> path = [a, b, c, d, e]"
proof
  assume h: "length path = 5 \<and> path ! 0 = a \<and> path ! 1 = b \<and> path ! 2 = c \<and> path ! 3 = d \<and> path ! 4 = e"
  then obtain p0 p1 p2 p3 p4 where "path = [p0, p1, p2, p3, p4]"
    by (auto simp: numeral_eq_Suc length_Suc_conv)
  with h show "path = [a, b, c, d, e]" by (simp add: numeral_eq_Suc)
qed (auto simp: numeral_eq_Suc)

lemma ObjectsInHTTP_ok:
  "ObjectsInHTTPRequestPath path = ob \<and> po_Error ob = None \<longleftrightarrow> (\<exists>gc gw l r rr. chain gc gw l r rr \<and>
     path = [TGatewayClass (Some gc), TGateway (Some gw), TListener (Some l), THTTPRoute (Some r), THTTPRouteRule (Some rr)] \<and>
     ob = \<lparr>po_GatewayClass = Some gc, po_Gateway = Some gw, po_Listener = Some l, po_Route = Some r,
         po_RouteRule = Some rr, po_Error = None\<rparr>)"
  unfolding ObjectsInHTTPRequestPath_def objectsInRequestPath_ok assertions five_elements [symmetric] by blast

lemma ObjectsInGRPC_ok:
  "ObjectsInGRPCRequestPath path = ob \<and> po_Error ob = None \<longleftrightarrow> (\<exists>gc gw l r rr. chain gc gw l r rr \<and>
     path = [TGatewayClass (Some gc), TGateway (Some gw), TListener (Some l), TGRPCRoute (Some r), TGRPCRouteRule (Some rr)] \<and>
     ob = \<lparr>po_GatewayClass = Some gc, po_Gateway = Some gw, po_Listener = Some l, po_Route = Some r,
         po_RouteRule = Some rr, po_Error = None\<rparr>)"
  unfolding ObjectsInGRPCRequestPath_def objectsInRequestPath_ok assertions five_elements [symmetric] by blast

lemma DetectRouteType_five:
  "DetectRouteType [a, b, c, THTTPRoute r, d] = RouteTypeHTTP" "DetectRouteType [a, b, c, TGRPCRoute r', d] = RouteTypeGRPC"
  by (simp_all add: DetectRouteType_def)

definition http_path where
  "http_path gc gw l r rr = [TGatewayClass (Some gc), TGateway (Some gw), TListener (Some l), THTTPRoute (Some r), THTTPRouteRule (Some rr)]"

definition grpc_path where
  "grpc_path gc gw l r rr = [TGatewayClass (Some gc), TGateway (Some gw), TListener (Some l), TGRPCRoute (Some r), TGRPCRouteRule (Some rr)]"

definition http_parsed where
  "http_parsed gc gw l r rr = \<lparr>ptp_GatewayClass = Some gc, ptp_Gateway = Some gw, ptp_Listener = Some l,
     ptp_RouteType = RouteTypeHTTP, ptp_HTTPRoute = Some r, ptp_HTTPRouteRule = Some rr, ptp_GRPCRoute = None, ptp_GRPCRouteRule = None\<rparr>"

definition grpc_parsed where
  "grpc_parsed gc gw l r rr = \<lparr>ptp_GatewayClass = Some gc, ptp_Gateway = Some gw, ptp_Listener = Some l,
     ptp_RouteType = RouteTypeGRPC, ptp_HTTPRoute = None, ptp_HTTPRouteRule = None, ptp_GRPCRoute = Some r, ptp_GRPCRouteRule = Some rr\<rparr>"

lemma ParseTopologyPath_ok:
  "ParseTopologyPath path = Inr p \<longleftrightarrow>
     (\<exists>gc gw l r rr. chain gc gw l r rr \<and> path = http_path gc gw l r rr \<and> p = http_parsed gc gw l r rr) \<or>
     (\<exists>gc gw l r rr. chain gc gw l r rr \<and> path = grpc_path gc gw l r rr \<and> p = grpc_parsed gc gw l r rr)" (is "?L \<longleftrightarrow> ?H \<or> ?G")
proof
  assume L: ?L
  show "?H \<or> ?G"
  proof (cases "DetectRouteType path")
    case RouteTypeHTTP
    with L have err: "po_Error (ObjectsInHTTPRequestPath path) = None"
      by (auto simp: ParseTopologyPath_def Let_def split: option.splits)
    then obtain gc gw l r rr where "chain gc gw l r rr" "path = http_path gc gw l r rr"
      "ObjectsInHTTPRequestPath path = \<lparr>po_GatewayClass = Some gc, po_Gateway = Some gw, po_Listener = Some l,
         po_Route = Some r, po_RouteRule = Some rr, po_Error = None\<rparr>"
      using ObjectsInHTTP_ok [of path "ObjectsInHTTPRequestPath path"] unfolding http_path_def by blast
    with L RouteTypeHTTP have ?H by (auto simp: ParseTopologyPath_def http_parsed_def)
    then show ?thesis ..
  next
    case RouteTypeGRPC
    with L have err: "po_Error (ObjectsInGRPCRequestPath path) = None"
      by (auto simp: ParseTopologyPath_def Let_def split: option.splits)
    then obtain gc gw l r rr where "chain gc gw l r rr" "path = grpc_path gc gw l r rr"
      "ObjectsInGRPCRequestPath path = \<lparr>po_GatewayClass = Some gc, po_Gateway = Some gw, po_Listener = Some l,
         po_Route = Some r, po_RouteRule = Some rr, po_Error = None\<rparr>"
      using ObjectsInGRPC_ok [of path "ObjectsInGRPCRequestPath path"] unfolding grpc_path_def by blast
    with L RouteTypeGRPC have ?G by (auto simp: ParseTopologyPath_def grpc_parsed_def)
    then show ?thesis ..
  qed (use L in \<open>simp add: ParseTopologyPath_def\<close>)
next
  assume "?H \<or> ?G"
  then show ?L
  proof (elim disjE exE conjE)
    fix gc gw l r rr
    assume h: "chain gc gw l r rr" "path = http_path gc gw l r rr" "p = http_parsed gc gw l r rr"
    then have "ObjectsInHTTPRequestPath path = \<lparr>po_GatewayClass = Some gc, po_Gateway = Some gw, po_Listener = Some l,
         po_Route = Some r, po_RouteRule = Some rr, po_Error = None\<rparr>"
      using ObjectsInHTTP_ok [of path] unfolding http_path_def by blast
    with h(2,3) show ?L
      by (simp add: ParseTopologyPath_def http_parsed_def) (simp add: http_path_def DetectRouteType_five)
  next
    fix gc gw l r rr
    assume h: "chain gc gw l r rr" "path = grpc_path gc gw l r rr" "p = grpc_parsed gc gw l r rr"
    then have "ObjectsInGRPCRequestPath path = \<lparr>po_GatewayClass = Some gc, po_Gateway = Some gw, po_Listener = Some l,
         po_Route = Some r, po_RouteRule = Some rr, po_Error = None\<rparr>"
      using ObjectsInGRPC_ok [of path] unfolding grpc_path_def by blast
    with h(2,3) show ?L
      by (simp add: ParseTopologyPath_def grpc_parsed_def) (simp add: grpc_path_def DetectRouteType_five)
  qed
qed

text \<open>
  A path parses exactly when it is a chain of five objects from a gateway class to an HTTP or
  gRPC route rule: no nil, the gateway of the class, the listener of the gateway, a parent
  reference of the route that names the gateway, admits the listener and shares a hostname with
  it, and a rule of the route.  The result holds these objects and no others.
\<close>

theorem ParseTopologyPath_iff:
  "ParseTopologyPath path = Inr p \<longleftrightarrow>
     (\<exists>gc gw l r rr. chain gc gw l r rr \<and> path = http_path gc gw l r rr \<and> p = http_parsed gc gw l r rr) \<or>
     (\<exists>gc gw l r rr. chain gc gw l r rr \<and> path = grpc_path gc gw l r rr \<and> p = grpc_parsed gc gw l r rr)"
  by (rule ParseTopologyPath_ok)

text \<open>A route on a chain always has a hostname on the listener.\<close>

lemma chain_hostnames:
  assumes "chain gc gw l r rr"
  shows "HostnamesFromListenerAndHTTPRoute (tl_Listener l) (tr_Route r) \<noteq> []"
proof -
  obtain lgw ref where "parentRefMatchesListener l lgw r ref"
    using assms by (auto simp: chain_def list_ex_iff)
  then show ?thesis
    by (auto simp: parentRefMatchesListener_def HostnamesFromListenerAndHTTPRoute_def Let_def list_ex_iff
        filter_empty_conv split: if_splits option.splits)
qed

lemma SplitN2_cases:
  "SplitN2 s c = (if c \<in> set s then [takeWhile (\<lambda>x. x \<noteq> c) s, tl (dropWhile (\<lambda>x. x \<noteq> c) s)] else [s])"
  by (induction s c rule: SplitN2.induct) auto

text \<open>Locators are read back: \<open>kind:namespace/name\<close> and \<open>kind:name\<close>.\<close>

lemma NamespacedNameFromLocator_roundtrip:
  "CHR '':'' \<notin> set kind \<Longrightarrow> CHR ''/'' \<notin> set ns \<Longrightarrow>
     NamespacedNameFromLocator (kind @ '':'' @ ns @ ''/'' @ name) = Inr (ns, name)"
  "CHR '':'' \<notin> set kind \<Longrightarrow> CHR ''/'' \<notin> set name \<Longrightarrow>
     NamespacedNameFromLocator (kind @ '':'' @ name) = Inr ([], name)"
  "CHR '':'' \<notin> set kind \<Longrightarrow> NamespacedNameFromLocator kind = Inl (''invalid locator: '' @ kind)"
  by (simp_all add: NamespacedNameFromLocator_def SplitN2_cases Let_def takeWhile_append dropWhile_append
      takeWhile_eq_all_conv dropWhile_eq_Nil_conv)

end
