(* ===== verification/Auth_Policy.thy ===== *)
theory Auth_Policy
  imports Rate_Limit_Policy
begin

text \<open>
  \<open>AuthPolicy\<close> as a mergeable policy (\<open>api/v1/authpolicy_types.go\<close>).

  The rules of an auth policy come in ten groups: named patterns, the top-level conditions,
  authentication, metadata, authorization, callbacks, the two denial responses and the two maps
  of success responses.  \<open>Rules\<close> flattens them into one map with keys \<open>group#id\<close>;
  \<open>SetRules\<close> cuts the keys again and rebuilds the nested maps, allocating each level on
  demand.  The theory shows that the two are inverse to each other (\<open>rules_lookup\<close>,
  \<open>setRule_lookup\<close>), whatever characters the identifiers hold, and interprets
  \<open>mergeable_policy\<close>, so that the results on merging hold for auth policies as well.

  The specifications of a single rule are data of Authorino's API which this code only moves
  around; they are the type parameter \<open>'s\<close>.
\<close>

section \<open>Data\<close>

text \<open>The structs that pair a specification with the locator of the policy that defines it.\<close>

record 's MergeableAuthRule =
  mar_Spec :: 's
  mar_Source :: string

text \<open>The rules by their type in the source, the values of the interface \<open>MergeableRule\<close>.\<close>

datatype 's auth_rule =
    PatternExpressionsRule "'s MergeableAuthRule"
  | WhenPredicatesRule MergeableWhenPredicates
  | AuthenticationRule "'s MergeableAuthRule"
  | MetadataRule "'s MergeableAuthRule"
  | AuthorizationRule "'s MergeableAuthRule"
  | DenyWithRule "'s MergeableAuthRule"
  | HeaderSuccessRule "'s MergeableAuthRule"
  | SuccessRule "'s MergeableAuthRule"
  | CallbackRule "'s MergeableAuthRule"

record 's MergeableWrappedSuccessResponseSpec =
  succ_Headers :: "(string, 's MergeableAuthRule) gomap"
  succ_DynamicMetadata :: "(string, 's MergeableAuthRule) gomap"

record 's MergeableResponseSpec =
  resp_Unauthenticated :: "'s MergeableAuthRule option"
  resp_Unauthorized :: "'s MergeableAuthRule option"
  resp_Success :: "'s MergeableWrappedSuccessResponseSpec"

record 's AuthSchemeSpec =
  auth_Authentication :: "(string, 's MergeableAuthRule) gomap"
  auth_Metadata :: "(string, 's MergeableAuthRule) gomap"
  auth_Authorization :: "(string, 's MergeableAuthRule) gomap"
  auth_Response :: "'s MergeableResponseSpec option"
  auth_Callbacks :: "(string, 's MergeableAuthRule) gomap"

record 's AuthPolicySpecProper =
  ap_NamedPatterns :: "(string, 's MergeableAuthRule) gomap"
  ap_When :: MergeableWhenPredicates
  ap_AuthScheme :: "'s AuthSchemeSpec option"

record 's MergeableAuthPolicySpec =
  ap_Strategy :: string
  ap_ProperOf :: "'s AuthPolicySpecProper"

record 's AuthPolicySpec =
  ap_TargetRef :: LocalPolicyTargetReference
  ap_Defaults :: "'s MergeableAuthPolicySpec option"
  ap_Overrides :: "'s MergeableAuthPolicySpec option"
  ap_Bare :: "'s AuthPolicySpecProper"

record 's AuthPolicy =
  ap_Namespace :: string
  ap_Name :: string
  ap_Spec :: "'s AuthPolicySpec"

definition AuthPolicy_Proper :: "'s AuthPolicySpec \<Rightarrow> 's AuthPolicySpecProper" where
  "AuthPolicy_Proper s =
     (case ap_Defaults s of Some d \<Rightarrow> ap_ProperOf d
      | None \<Rightarrow> (case ap_Overrides s of Some d \<Rightarrow> ap_ProperOf d | None \<Rightarrow> ap_Bare s))"

text \<open>A write through the pointer that \<open>Proper()\<close> returns.\<close>

definition AuthPolicy_withProper :: "'s AuthPolicySpec \<Rightarrow> 's AuthPolicySpecProper \<Rightarrow> 's AuthPolicySpec" where
  "AuthPolicy_withProper s pr =
     (case ap_Defaults s of Some d \<Rightarrow> s\<lparr>ap_Defaults := Some (d\<lparr>ap_ProperOf := pr\<rparr>)\<rparr>
      | None \<Rightarrow> (case ap_Overrides s of Some d \<Rightarrow> s\<lparr>ap_Overrides := Some (d\<lparr>ap_ProperOf := pr\<rparr>)\<rparr>
        | None \<Rightarrow> s\<lparr>ap_Bare := pr\<rparr>))"

definition AuthPolicy_GetLocator ::
  "(string \<Rightarrow> string \<Rightarrow> string \<Rightarrow> string) \<Rightarrow> 's AuthPolicy \<Rightarrow> string" where
  "AuthPolicy_GetLocator locator p = locator ''AuthPolicy'' (ap_Namespace p) (ap_Name p)"

text \<open>\<open>GetTargetRefs\<close>: the target reference paired with the namespace of the policy.\<close>

definition AuthPolicy_GetTargetRefs :: "'s AuthPolicy \<Rightarrow> (LocalPolicyTargetReference \<times> string) list" where
  "AuthPolicy_GetTargetRefs p = [(ap_TargetRef (ap_Spec p), ap_Namespace p)]"

definition AuthPolicy_GetMergeStrategy :: "'s AuthPolicy \<Rightarrow> merge_strategy" where
  "AuthPolicy_GetMergeStrategy p =
     (case ap_Defaults (ap_Spec p) of Some spec \<Rightarrow> DefaultsMergeStrategy (ap_Strategy spec)
      | None \<Rightarrow> (case ap_Overrides (ap_Spec p) of Some spec \<Rightarrow> OverridesMergeStrategy (ap_Strategy spec)
        | None \<Rightarrow> AtomicDefaults))"

definition AuthPolicy_Empty :: "'s AuthPolicy \<Rightarrow> bool" where
  "AuthPolicy_Empty p \<longleftrightarrow> ap_AuthScheme (AuthPolicy_Proper (ap_Spec p)) = None"

section \<open>Rules\<close>

fun auth_GetSource :: "'s auth_rule \<Rightarrow> string" where
  "auth_GetSource (PatternExpressionsRule r) = mar_Source r"
| "auth_GetSource (WhenPredicatesRule w) = mwp_Source w"
| "auth_GetSource (AuthenticationRule r) = mar_Source r"
| "auth_GetSource (MetadataRule r) = mar_Source r"
| "auth_GetSource (AuthorizationRule r) = mar_Source r"
| "auth_GetSource (DenyWithRule r) = mar_Source r"
| "auth_GetSource (HeaderSuccessRule r) = mar_Source r"
| "auth_GetSource (SuccessRule r) = mar_Source r"
| "auth_GetSource (CallbackRule r) = mar_Source r"

fun auth_WithSource :: "'s auth_rule \<Rightarrow> string \<Rightarrow> 's auth_rule" where
  "auth_WithSource (PatternExpressionsRule r) source = PatternExpressionsRule (r\<lparr>mar_Source := source\<rparr>)"
| "auth_WithSource (WhenPredicatesRule w) source = WhenPredicatesRule (w\<lparr>mwp_Source := source\<rparr>)"
| "auth_WithSource (AuthenticationRule r) source = AuthenticationRule (r\<lparr>mar_Source := source\<rparr>)"
| "auth_WithSource (MetadataRule r) source = MetadataRule (r\<lparr>mar_Source := source\<rparr>)"
| "auth_WithSource (AuthorizationRule r) source = AuthorizationRule (r\<lparr>mar_Source := source\<rparr>)"
| "auth_WithSource (DenyWithRule r) source = DenyWithRule (r\<lparr>mar_Source := source\<rparr>)"
| "auth_WithSource (HeaderSuccessRule r) source = HeaderSuccessRule (r\<lparr>mar_Source := source\<rparr>)"
| "auth_WithSource (SuccessRule r) source = SuccessRule (r\<lparr>mar_Source := source\<rparr>)"
| "auth_WithSource (CallbackRule r) source = CallbackRule (r\<lparr>mar_Source := source\<rparr>)"

text \<open>One of the loops \<open>for ruleID := range group\<close> of \<open>Rules\<close>; the key is \<open>group#ruleID\<close>.\<close>

definition addGroup ::
  "string \<Rightarrow> ('a \<Rightarrow> 'r) \<Rightarrow> (string, 'a) gomap \<Rightarrow> (string, 'r) gomap \<Rightarrow> (string, 'r) gomap" where
  "addGroup g newRule xs rules =
     foldl (\<lambda>rules (ruleID, rule). gm_set (g @ ''#'' @ ruleID) (newRule rule) rules) rules xs"

definition AuthPolicy_Rules ::
  "(string \<Rightarrow> string \<Rightarrow> string \<Rightarrow> string) \<Rightarrow> 's AuthPolicy \<Rightarrow> (string, 's auth_rule) gomap" where
  "AuthPolicy_Rules locator p =
     (let policyLocator = AuthPolicy_GetLocator locator p;
          spec = AuthPolicy_Proper (ap_Spec p);
          new = (\<lambda>rule. NewMergeableRule auth_GetSource auth_WithSource rule policyLocator);
          rules = addGroup ''patterns'' (\<lambda>r. new (PatternExpressionsRule r)) (ap_NamedPatterns spec) [];
          rules = (if length (mwp_Predicates (ap_When spec)) > 0
            then gm_set ''conditions#'' (new (WhenPredicatesRule (ap_When spec))) rules else rules)
      in case ap_AuthScheme spec of None \<Rightarrow> rules
       | Some scheme \<Rightarrow>
         (let rules = addGroup ''authentication'' (\<lambda>r. new (AuthenticationRule r)) (auth_Authentication scheme) rules;
              rules = addGroup ''metadata'' (\<lambda>r. new (MetadataRule r)) (auth_Metadata scheme) rules;
              rules = addGroup ''authorization'' (\<lambda>r. new (AuthorizationRule r)) (auth_Authorization scheme) rules;
              rules = addGroup ''callbacks'' (\<lambda>r. new (CallbackRule r)) (auth_Callbacks scheme) rules
          in case auth_Response scheme of None \<Rightarrow> rules
           | Some response \<Rightarrow>
             (let rules = (case resp_Unauthenticated response of None \<Rightarrow> rules
                    | Some rule \<Rightarrow> gm_set ''response.unauthenticated#'' (new (DenyWithRule rule)) rules);
                  rules = (case resp_Unauthorized response of None \<Rightarrow> rules
                    | Some rule \<Rightarrow> gm_set ''response.unauthorized#'' (new (DenyWithRule rule)) rules);
                  rules = addGroup ''response.success.headers'' (\<lambda>r. new (HeaderSuccessRule r))
                    (succ_Headers (resp_Success response)) rules
              in addGroup ''response.success.metadata'' (\<lambda>r. new (SuccessRule r))
                   (succ_DynamicMetadata (resp_Success response)) rules)))"

text \<open>The closures \<open>ensure...\<close> of \<open>SetRules\<close>: they allocate what is still nil.\<close>

definition ensureAuthScheme :: "'s AuthPolicySpecProper \<Rightarrow> 's AuthPolicySpecProper" where
  "ensureAuthScheme pr =
     (case ap_AuthScheme pr of Some _ \<Rightarrow> pr
      | None \<Rightarrow> pr\<lparr>ap_AuthScheme := Some \<lparr>auth_Authentication = [], auth_Metadata = [],
          auth_Authorization = [], auth_Response = None, auth_Callbacks = []\<rparr>\<rparr>)"

definition updateAuthScheme ::
  "('s AuthSchemeSpec \<Rightarrow> 's AuthSchemeSpec) \<Rightarrow> 's AuthPolicySpecProper \<Rightarrow> 's AuthPolicySpecProper" where
  "updateAuthScheme f pr = pr\<lparr>ap_AuthScheme := map_option f (ap_AuthScheme pr)\<rparr>"

definition ensureResponse :: "'s AuthPolicySpecProper \<Rightarrow> 's AuthPolicySpecProper" where
  "ensureResponse pr =
     updateAuthScheme (\<lambda>scheme. case auth_Response scheme of Some _ \<Rightarrow> scheme
       | None \<Rightarrow> scheme\<lparr>auth_Response := Some \<lparr>resp_Unauthenticated = None, resp_Unauthorized = None,
           resp_Success = \<lparr>succ_Headers = [], succ_DynamicMetadata = []\<rparr>\<rparr>\<rparr>)
       (ensureAuthScheme pr)"

definition updateResponse ::
  "('s MergeableResponseSpec \<Rightarrow> 's MergeableResponseSpec) \<Rightarrow> 's AuthPolicySpecProper \<Rightarrow> 's AuthPolicySpecProper" where
  "updateResponse f = updateAuthScheme (\<lambda>scheme. scheme\<lparr>auth_Response := map_option f (auth_Response scheme)\<rparr>)"

definition updateSuccess ::
  "('s MergeableWrappedSuccessResponseSpec \<Rightarrow> 's MergeableWrappedSuccessResponseSpec) \<Rightarrow>
   's AuthPolicySpecProper \<Rightarrow> 's AuthPolicySpecProper" where
  "updateSuccess f = updateResponse (\<lambda>response. response\<lparr>resp_Success := f (resp_Success response)\<rparr>)"

definition bad_conversion :: "'a go_result" where
  "bad_conversion = Panic ''interface conversion''"

text \<open>
  One iteration of the loop of \<open>SetRules\<close>: the key is cut at its first \<open>#\<close>, a rule of the
  wrong type panics, an unknown group is skipped.
\<close>

definition auth_setRule ::
  "'s AuthPolicySpecProper \<Rightarrow> string \<times> 's auth_rule \<Rightarrow> 's AuthPolicySpecProper go_result" where
  "auth_setRule pr entry =
     (let rule = snd entry;
          parts = SplitN2 (fst entry) CHR ''#'';
          g = hd parts;
          ruleID = last parts;
          pr = (if HasPrefix g ''response.'' then ensureResponse pr else pr)
      in if g = ''patterns''
         then (case rule of PatternExpressionsRule r \<Rightarrow>
             Return (pr\<lparr>ap_NamedPatterns := gm_set ruleID r (ap_NamedPatterns pr)\<rparr>) | _ \<Rightarrow> bad_conversion)
         else if g = ''conditions''
         then (case rule of WhenPredicatesRule w \<Rightarrow> Return (pr\<lparr>ap_When := w\<rparr>) | _ \<Rightarrow> bad_conversion)
         else if g = ''authentication''
         then (case rule of AuthenticationRule r \<Rightarrow>
             Return (updateAuthScheme (\<lambda>s. s\<lparr>auth_Authentication := gm_set ruleID r (auth_Authentication s)\<rparr>)
               (ensureAuthScheme pr)) | _ \<Rightarrow> bad_conversion)
         else if g = ''metadata''
         then (case rule of MetadataRule r \<Rightarrow>
             Return (updateAuthScheme (\<lambda>s. s\<lparr>auth_Metadata := gm_set ruleID r (auth_Metadata s)\<rparr>)
               (ensureAuthScheme pr)) | _ \<Rightarrow> bad_conversion)
         else if g = ''authorization''
         then (case rule of AuthorizationRule r \<Rightarrow>
             Return (updateAuthScheme (\<lambda>s. s\<lparr>auth_Authorization := gm_set ruleID r (auth_Authorization s)\<rparr>)
               (ensureAuthScheme pr)) | _ \<Rightarrow> bad_conversion)
         else if g = ''response.unauthenticated''
         then (case rule of DenyWithRule r \<Rightarrow>
             Return (updateResponse (\<lambda>s. s\<lparr>resp_Unauthenticated := Some r\<rparr>) (ensureResponse pr)) | _ \<Rightarrow> bad_conversion)
         else if g = ''response.unauthorized''
         then (case rule of DenyWithRule r \<Rightarrow>
             Return (updateResponse (\<lambda>s. s\<lparr>resp_Unauthorized := Some r\<rparr>) (ensureResponse pr)) | _ \<Rightarrow> bad_conversion)
         else if g = ''response.success.headers''
         then (case rule of HeaderSuccessRule r \<Rightarrow>
             Return (updateSuccess (\<lambda>s. s\<lparr>succ_Headers := gm_set ruleID r (succ_Headers s)\<rparr>)
               (ensureResponse pr)) | _ \<Rightarrow> bad_conversion)
         else if g = ''response.success.metadata''
         then (case rule of SuccessRule r \<Rightarrow>
             Return (updateSuccess (\<lambda>s. s\<lparr>succ_DynamicMetadata := gm_set ruleID r (succ_DynamicMetadata s)\<rparr>)
               (ensureResponse pr)) | _ \<Rightarrow> bad_conversion)
         else if g = ''callbacks''
         then (case rule of CallbackRule r \<Rightarrow>
             Return (updateAuthScheme (\<lambda>s. s\<lparr>auth_Callbacks := gm_set ruleID r (auth_Callbacks s)\<rparr>)
               (ensureAuthScheme pr)) | _ \<Rightarrow> bad_conversion)
         else Return pr)"

definition AuthPolicy_SetRules ::
  "'s AuthPolicy \<Rightarrow> (string, 's auth_rule) gomap \<Rightarrow> 's AuthPolicy go_result" where
  "AuthPolicy_SetRules p rules =
     (let pr = AuthPolicy_Proper (ap_Spec p);
          pr = pr\<lparr>ap_NamedPatterns := [], ap_When := (ap_When pr)\<lparr>mwp_Predicates := []\<rparr>, ap_AuthScheme := None\<rparr>
      in gbind (gfold auth_setRule pr rules)
           (\<lambda>pr. Return (p\<lparr>ap_Spec := AuthPolicy_withProper (ap_Spec p) pr\<rparr>)))"

definition ap_ops ::
  "(string \<Rightarrow> string \<Rightarrow> string \<Rightarrow> string) \<Rightarrow> ('s AuthPolicy, 's auth_rule) mergeable_ops" where
  "ap_ops locator =
     \<lparr>Rules = AuthPolicy_Rules locator, SetRules = AuthPolicy_SetRules,
      EmptyPolicy = AuthPolicy_Empty, GetLocator = AuthPolicy_GetLocator locator,
      GetMergeStrategy = AuthPolicy_GetMergeStrategy,
      GetSource = auth_GetSource, WithSource = auth_WithSource\<rparr>"

section \<open>Lookups in the flattened rules\<close>

lemma ap_ops_simps [simp]:
  "Rules (ap_ops locator) = AuthPolicy_Rules locator"
  "SetRules (ap_ops locator) = AuthPolicy_SetRules"
  "EmptyPolicy (ap_ops locator) = AuthPolicy_Empty"
  "GetLocator (ap_ops locator) = AuthPolicy_GetLocator locator"
  "GetMergeStrategy (ap_ops locator) = AuthPolicy_GetMergeStrategy"
  "GetSource (ap_ops locator) = auth_GetSource"
  "WithSource (ap_ops locator) = auth_WithSource"
  by (simp_all add: ap_ops_def)

lemma ap_Proper_withProper [simp]: "AuthPolicy_Proper (AuthPolicy_withProper s pr) = pr"
  by (simp add: AuthPolicy_Proper_def AuthPolicy_withProper_def split: option.splits)

lemma ap_strategy_withProper [simp]:
  "AuthPolicy_GetMergeStrategy (p\<lparr>ap_Spec := AuthPolicy_withProper (ap_Spec p) pr\<rparr>) = AuthPolicy_GetMergeStrategy p"
  by (simp add: AuthPolicy_GetMergeStrategy_def AuthPolicy_withProper_def split: option.splits)

lemma auth_WithSource_GetSource: "auth_WithSource r (auth_GetSource r) = r"
  by (cases r) auto

lemma auth_GetSource_WithSource [simp]: "auth_GetSource (auth_WithSource r src) = src"
  by (cases r) auto

lemma SplitN2_hash: "sep \<notin> set g \<Longrightarrow> SplitN2 (g @ sep # i) sep = [g, i]"
  by (induction g) auto

lemma SplitN2_pair: "SplitN2 k sep = [g, i] \<Longrightarrow> k = g @ sep # i \<and> sep \<notin> set g"
  by (induction k sep arbitrary: g rule: SplitN2.induct) (auto split: if_splits list.splits)

lemma SplitN2_group:
  "sep \<notin> set g \<Longrightarrow> (k = g @ sep # i) \<longleftrightarrow> SplitN2 k sep = [g, i]"
  using SplitN2_hash SplitN2_pair by metis

text \<open>The lookup of a loop over one group, by the group and the identifier of the key.\<close>

definition cut_key :: "string \<Rightarrow> (string \<times> string) option" where
  "cut_key k = (case SplitN2 k CHR ''#'' of [g, i] \<Rightarrow> Some (g, i) | _ \<Rightarrow> None)"

lemma cut_key_Some: "cut_key k = Some (g, i) \<longleftrightarrow> SplitN2 k CHR ''#'' = [g, i]"
  by (auto simp: cut_key_def split: list.splits)

lemma key_eq_iff: "CHR ''#'' \<notin> set g \<Longrightarrow> k = g @ ''#'' @ i \<longleftrightarrow> cut_key k = Some (g, i)"
  using SplitN2_group [of "CHR ''#''" g k i] by (simp add: cut_key_Some)

lemma cut_key_append [simp]: "CHR ''#'' \<notin> set g \<Longrightarrow> cut_key (g @ CHR ''#'' # i) = Some (g, i)"
  by (simp add: cut_key_Some SplitN2_hash)

definition group_lookup :: "string \<Rightarrow> ('a \<Rightarrow> 'r) \<Rightarrow> (string, 'a) gomap \<Rightarrow> string \<Rightarrow> 'r option" where
  "group_lookup g new xs k =
     (case cut_key k of Some (g', i) \<Rightarrow> if g' = g then map_option new (map_of xs i) else None | None \<Rightarrow> None)"

lemma map_of_addGroup:
  assumes "CHR ''#'' \<notin> set g" "gm_wf xs"
  shows "map_of (addGroup g new xs m) = map_of m ++ group_lookup g new xs"
  using assms(2)
proof (induction xs arbitrary: m)
  case Nil
  then show ?case
    by (simp add: addGroup_def fun_eq_iff map_add_def group_lookup_def split: option.splits)
next
  case (Cons e xs)
  obtain i x where e: "e = (i, x)" by fastforce
  with Cons.prems have i: "map_of xs i = None" and wf: "gm_wf xs"
    by (auto simp: map_of_eq_None_fst)
  have "map_of (addGroup g new (e # xs) m) =
      map_of (gm_set (g @ ''#'' @ i) (new x) m) ++ group_lookup g new xs"
    using Cons.IH [OF wf, of "gm_set (g @ ''#'' @ i) (new x) m"]
    by (simp only: addGroup_def e foldl.simps prod.case)
  then show ?case
    using i key_eq_iff [OF assms(1)]
    by (auto simp: fun_eq_iff map_add_def group_lookup_def e split: option.splits prod.splits)
qed

lemma gm_wf_addGroup: "gm_wf m \<Longrightarrow> gm_wf (addGroup g new xs m)"
  unfolding addGroup_def by (induction xs arbitrary: m) (auto simp del: gm_set.simps)

text \<open>
  The abstract content of a specification: what it says under the key \<open>group#id\<close>.  \<open>new\<close>
  sets the source of a rule that has none.
\<close>

definition auth_lookup ::
  "('s auth_rule \<Rightarrow> 's auth_rule) \<Rightarrow> 's AuthPolicySpecProper \<Rightarrow> string \<Rightarrow> 's auth_rule option" where
  "auth_lookup new pr k =
     (case cut_key k of None \<Rightarrow> None
      | Some (g, i) \<Rightarrow>
        if g = ''patterns'' then map_option (\<lambda>r. new (PatternExpressionsRule r)) (map_of (ap_NamedPatterns pr) i)
        else if g = ''conditions'' then
          (if i = [] \<and> mwp_Predicates (ap_When pr) \<noteq> [] then Some (new (WhenPredicatesRule (ap_When pr))) else None)
        else (case ap_AuthScheme pr of None \<Rightarrow> None
          | Some s \<Rightarrow>
            if g = ''authentication'' then map_option (\<lambda>r. new (AuthenticationRule r)) (map_of (auth_Authentication s) i)
            else if g = ''metadata'' then map_option (\<lambda>r. new (MetadataRule r)) (map_of (auth_Metadata s) i)
            else if g = ''authorization'' then map_option (\<lambda>r. new (AuthorizationRule r)) (map_of (auth_Authorization s) i)
            else if g = ''callbacks'' then map_option (\<lambda>r. new (CallbackRule r)) (map_of (auth_Callbacks s) i)
            else (case auth_Response s of None \<Rightarrow> None
              | Some resp \<Rightarrow>
                if g = ''response.unauthenticated'' then
                  (if i = [] then map_option (\<lambda>r. new (DenyWithRule r)) (resp_Unauthenticated resp) else None)
                else if g = ''response.unauthorized'' then
                  (if i = [] then map_option (\<lambda>r. new (DenyWithRule r)) (resp_Unauthorized resp) else None)
                else if g = ''response.success.headers'' then
                  map_option (\<lambda>r. new (HeaderSuccessRule r)) (map_of (succ_Headers (resp_Success resp)) i)
                else if g = ''response.success.metadata'' then
                  map_option (\<lambda>r. new (SuccessRule r)) (map_of (succ_DynamicMetadata (resp_Success resp)) i)
                else None)))"

text \<open>Well-formedness: every map of the specification holds each key once.\<close>

definition response_wf :: "'s MergeableResponseSpec \<Rightarrow> bool" where
  "response_wf resp \<longleftrightarrow> gm_wf (succ_Headers (resp_Success resp)) \<and> gm_wf (succ_DynamicMetadata (resp_Success resp))"

definition scheme_wf :: "'s AuthSchemeSpec \<Rightarrow> bool" where
  "scheme_wf s \<longleftrightarrow> gm_wf (auth_Authentication s) \<and> gm_wf (auth_Metadata s) \<and> gm_wf (auth_Authorization s) \<and>
     gm_wf (auth_Callbacks s) \<and> (case auth_Response s of None \<Rightarrow> True | Some resp \<Rightarrow> response_wf resp)"

definition proper_wf :: "'s AuthPolicySpecProper \<Rightarrow> bool" where
  "proper_wf pr \<longleftrightarrow> gm_wf (ap_NamedPatterns pr) \<and>
     (case ap_AuthScheme pr of None \<Rightarrow> True | Some s \<Rightarrow> scheme_wf s)"

definition ap_wf :: "(string \<Rightarrow> string \<Rightarrow> string \<Rightarrow> string) \<Rightarrow> 's AuthPolicy \<Rightarrow> bool" where
  "ap_wf locator p \<longleftrightarrow> AuthPolicy_GetLocator locator p \<noteq> [] \<and> proper_wf (AuthPolicy_Proper (ap_Spec p))"

abbreviation auth_new :: "(string \<Rightarrow> string \<Rightarrow> string \<Rightarrow> string) \<Rightarrow> 's AuthPolicy \<Rightarrow> 's auth_rule \<Rightarrow> 's auth_rule" where
  "auth_new locator p \<equiv> \<lambda>rule. NewMergeableRule auth_GetSource auth_WithSource rule (AuthPolicy_GetLocator locator p)"

lemma singleton_key_iff:
  "k = ''conditions#'' \<longleftrightarrow> cut_key k = Some (''conditions'', [])"
  "k = ''response.unauthenticated#'' \<longleftrightarrow> cut_key k = Some (''response.unauthenticated'', [])"
  "k = ''response.unauthorized#'' \<longleftrightarrow> cut_key k = Some (''response.unauthorized'', [])"
  using key_eq_iff [of "''conditions''" k "[]"] key_eq_iff [of "''response.unauthenticated''" k "[]"]
    key_eq_iff [of "''response.unauthorized''" k "[]"] by simp_all

lemma lookup_step:
  "(m ++ group_lookup g new xs) k =
     (case cut_key k of Some (g', i) \<Rightarrow>
        if g' = g then (case map_of xs i of Some x \<Rightarrow> Some (new x) | None \<Rightarrow> m k) else m k | None \<Rightarrow> m k)"
  by (auto simp: map_add_def group_lookup_def split: option.splits prod.splits)

lemma key_cases:
  fixes k :: string
  obtains (none) "cut_key k = None"
    | (patterns) i where "cut_key k = Some (''patterns'', i)"
    | (conditions) i where "cut_key k = Some (''conditions'', i)"
    | (authentication) i where "cut_key k = Some (''authentication'', i)"
    | (metadata) i where "cut_key k = Some (''metadata'', i)"
    | (authorization) i where "cut_key k = Some (''authorization'', i)"
    | (callbacks) i where "cut_key k = Some (''callbacks'', i)"
    | (unauthenticated) i where "cut_key k = Some (''response.unauthenticated'', i)"
    | (unauthorized) i where "cut_key k = Some (''response.unauthorized'', i)"
    | (headers) i where "cut_key k = Some (''response.success.headers'', i)"
    | (success) i where "cut_key k = Some (''response.success.metadata'', i)"
    | (other) g i where "cut_key k = Some (g, i)" "g \<noteq> ''patterns''"
      "g \<noteq> ''conditions''"
      "g \<noteq> ''authentication''"
      "g \<noteq> ''metadata''"
      "g \<noteq> ''authorization''"
      "g \<noteq> ''callbacks''"
      "g \<noteq> ''response.unauthenticated''"
      "g \<noteq> ''response.unauthorized''"
      "g \<noteq> ''response.success.headers''"
      "g \<noteq> ''response.success.metadata''"
  by (cases "cut_key k") (force+)

lemma rules_lookup:
  assumes "proper_wf (AuthPolicy_Proper (ap_Spec p))"
  shows "map_of (AuthPolicy_Rules locator p) k =
    auth_lookup (auth_new locator p) (AuthPolicy_Proper (ap_Spec p)) k"
proof -
  define pr where "pr = AuthPolicy_Proper (ap_Spec p)"
  have wf: "gm_wf (ap_NamedPatterns pr)" and scheme: "ap_AuthScheme pr = Some s \<Longrightarrow> scheme_wf s" for s
    using assms by (simp_all add: proper_wf_def pr_def)
  have step: "map_of (addGroup g new xs m) k' =
      (case cut_key k' of Some (g', i) \<Rightarrow>
        if g' = g then (case map_of xs i of Some x \<Rightarrow> Some (new x) | None \<Rightarrow> map_of m k') else map_of m k'
       | None \<Rightarrow> map_of m k')"
    if "CHR ''#'' \<notin> set g" "gm_wf xs" for g k' and new :: "'a MergeableAuthRule \<Rightarrow> 'a auth_rule" and xs m
    using that by (simp add: map_of_addGroup lookup_step)
  note set_step = map_of_gm_set fun_upd_apply singleton_key_iff
  show ?thesis
  proof (cases "ap_AuthScheme pr")
    case None
    then show ?thesis
      by (cases k rule: key_cases)
        (simp_all add: AuthPolicy_Rules_def Let_def pr_def [symmetric] step wf set_step auth_lookup_def
          split: option.splits)
  next
    case (Some s)
    note s = Some scheme [OF Some, unfolded scheme_wf_def]
    show ?thesis
    proof (cases "auth_Response s")
      case None
      with s show ?thesis
        by (cases k rule: key_cases)
          (simp_all add: AuthPolicy_Rules_def Let_def pr_def [symmetric] step wf set_step auth_lookup_def
            split: option.splits)
    next
      case (Some resp)
      with s show ?thesis
        by (cases k rule: key_cases)
          (simp_all add: AuthPolicy_Rules_def Let_def pr_def [symmetric] step wf set_step auth_lookup_def
            response_wf_def split: option.splits)
    qed
  qed
qed

section \<open>Writing rules back\<close>

text \<open>Allocating an empty scheme or response adds no rule.\<close>

lemma ensureAuthScheme_props:
  "\<exists>s. ap_AuthScheme (ensureAuthScheme pr) = Some s"
  "proper_wf pr \<Longrightarrow> proper_wf (ensureAuthScheme pr)"
  "ap_NamedPatterns (ensureAuthScheme pr) = ap_NamedPatterns pr"
  "ap_When (ensureAuthScheme pr) = ap_When pr"
  by (cases "ap_AuthScheme pr"; simp add: ensureAuthScheme_def proper_wf_def scheme_wf_def)+

lemma ensureAuthScheme_lookup: "auth_lookup new (ensureAuthScheme pr) = auth_lookup new pr"
proof (cases "ap_AuthScheme pr")
  case None
  show ?thesis
  proof
    fix k
    show "auth_lookup new (ensureAuthScheme pr) k = auth_lookup new pr k"
      using None by (cases k rule: key_cases) (simp_all add: auth_lookup_def ensureAuthScheme_def)
  qed
qed (simp add: ensureAuthScheme_def)

lemma ensureResponse_props:
  "\<exists>s resp. ap_AuthScheme (ensureResponse pr) = Some s \<and> auth_Response s = Some resp"
  "proper_wf pr \<Longrightarrow> proper_wf (ensureResponse pr)"
proof -
  obtain s where s: "ap_AuthScheme (ensureAuthScheme pr) = Some s"
    using ensureAuthScheme_props(1) by blast
  then show "\<exists>s resp. ap_AuthScheme (ensureResponse pr) = Some s \<and> auth_Response s = Some resp"
    by (cases "auth_Response s") (simp_all add: ensureResponse_def updateAuthScheme_def)
  assume "proper_wf pr"
  with s show "proper_wf (ensureResponse pr)"
    using ensureAuthScheme_props(2) [of pr]
    by (cases "auth_Response s")
      (simp_all add: ensureResponse_def updateAuthScheme_def proper_wf_def scheme_wf_def response_wf_def)
qed

lemma ensureResponse_lookup: "auth_lookup new (ensureResponse pr) = auth_lookup new pr"
proof -
  obtain s where s: "ap_AuthScheme (ensureAuthScheme pr) = Some s"
    using ensureAuthScheme_props(1) by blast
  have "auth_lookup new (ensureResponse pr) k = auth_lookup new (ensureAuthScheme pr) k" for k
    using s by (cases "auth_Response s"; cases k rule: key_cases)
      (simp_all add: auth_lookup_def ensureResponse_def updateAuthScheme_def)
  then show ?thesis by (simp add: fun_eq_iff ensureAuthScheme_lookup)
qed

text \<open>The rules that may stand under a key, and the keys that make a policy non-empty.\<close>

fun rule_groups :: "'s auth_rule \<Rightarrow> string list" where
  "rule_groups (PatternExpressionsRule r) = [''patterns'']"
| "rule_groups (WhenPredicatesRule w) = [''conditions'']"
| "rule_groups (AuthenticationRule r) = [''authentication'']"
| "rule_groups (MetadataRule r) = [''metadata'']"
| "rule_groups (AuthorizationRule r) = [''authorization'']"
| "rule_groups (DenyWithRule r) = [''response.unauthenticated'', ''response.unauthorized'']"
| "rule_groups (HeaderSuccessRule r) = [''response.success.headers'']"
| "rule_groups (SuccessRule r) = [''response.success.metadata'']"
| "rule_groups (CallbackRule r) = [''callbacks'']"

fun single_rule :: "'s auth_rule \<Rightarrow> bool" where
  "single_rule (WhenPredicatesRule w) = True"
| "single_rule (DenyWithRule r) = True"
| "single_rule r = False"

fun rule_says_something :: "'s auth_rule \<Rightarrow> bool" where
  "rule_says_something (WhenPredicatesRule w) \<longleftrightarrow> mwp_Predicates w \<noteq> []"
| "rule_says_something r = True"

definition auth_entry_ok :: "string \<Rightarrow> 's auth_rule \<Rightarrow> bool" where
  "auth_entry_ok k r \<longleftrightarrow> auth_GetSource r \<noteq> [] \<and> rule_says_something r \<and>
     (case cut_key k of None \<Rightarrow> False | Some (g, i) \<Rightarrow> g \<in> set (rule_groups r) \<and> (single_rule r \<longrightarrow> i = []))"

definition auth_substantive :: "string \<Rightarrow> bool" where
  "auth_substantive k \<longleftrightarrow>
     (case cut_key k of None \<Rightarrow> False | Some (g, i) \<Rightarrow> g \<noteq> ''patterns'' \<and> g \<noteq> ''conditions'')"

lemma cut_key_inj: "cut_key k = Some gi \<Longrightarrow> cut_key k' = Some gi \<Longrightarrow> k = k'"
  by (cases gi) (auto simp: cut_key_Some dest: SplitN2_pair)

lemma same_key_iff: "cut_key k = Some gi \<Longrightarrow> k' = k \<longleftrightarrow> cut_key k' = Some gi"
  using cut_key_inj by blast

definition writes ::
  "('s auth_rule \<Rightarrow> 's auth_rule) \<Rightarrow> 's AuthPolicySpecProper \<Rightarrow> string \<Rightarrow> 's auth_rule \<Rightarrow> 's AuthPolicySpecProper \<Rightarrow> bool" where
  "writes new pr k r pr' \<longleftrightarrow> proper_wf pr' \<and>
     auth_lookup new pr' = (auth_lookup new pr)(k \<mapsto> new r) \<and>
     (ap_AuthScheme pr' = None \<longleftrightarrow> ap_AuthScheme pr = None \<and> \<not> auth_substantive k)"

lemma writesI:
  assumes "cut_key k = Some gi" "proper_wf pr'"
    and "\<And>k'. auth_lookup new pr' k' = (if cut_key k' = Some gi then Some (new r) else auth_lookup new pr k')"
    and "ap_AuthScheme pr' = None \<longleftrightarrow> ap_AuthScheme pr = None \<and> \<not> auth_substantive k"
  shows "writes new pr k r pr'"
  using assms same_key_iff [OF assms(1)] by (simp add: writes_def fun_eq_iff)

lemma writes_scheme:
  assumes "cut_key k = Some (g, i)" "proper_wf pr" "auth_substantive k"
    and "\<And>s k'. scheme_wf s \<Longrightarrow> ap_AuthScheme (ensureAuthScheme pr) = Some s \<Longrightarrow> scheme_wf (f s) \<and>
      auth_lookup new ((ensureAuthScheme pr)\<lparr>ap_AuthScheme := Some (f s)\<rparr>) k' =
        (if cut_key k' = Some (g, i) then Some (new r) else auth_lookup new (ensureAuthScheme pr) k')"
  shows "writes new pr k r (updateAuthScheme f (ensureAuthScheme pr))"
proof (rule writesI [OF assms(1)])
  obtain s where s: "ap_AuthScheme (ensureAuthScheme pr) = Some s"
    using ensureAuthScheme_props(1) by blast
  have wf: "scheme_wf s" using ensureAuthScheme_props(2) [OF assms(2)] s by (simp add: proper_wf_def)
  show "proper_wf (updateAuthScheme f (ensureAuthScheme pr))"
    using ensureAuthScheme_props(2) [OF assms(2)] s assms(4) [OF wf s]
    by (simp add: updateAuthScheme_def proper_wf_def)
  show "auth_lookup new (updateAuthScheme f (ensureAuthScheme pr)) k' =
      (if cut_key k' = Some (g, i) then Some (new r) else auth_lookup new pr k')" for k'
    using s assms(4) [OF wf s] by (simp add: updateAuthScheme_def ensureAuthScheme_lookup)
  show "ap_AuthScheme (updateAuthScheme f (ensureAuthScheme pr)) = None \<longleftrightarrow>
      ap_AuthScheme pr = None \<and> \<not> auth_substantive k"
    using s assms(3) by (simp add: updateAuthScheme_def)
qed

lemma writes_response:
  assumes "cut_key k = Some (g, i)" "proper_wf pr" "auth_substantive k"
    and "\<And>s resp k'. response_wf resp \<Longrightarrow> ap_AuthScheme (ensureResponse pr) = Some s \<Longrightarrow>
      auth_Response s = Some resp \<Longrightarrow> response_wf (f resp) \<and>
      auth_lookup new ((ensureResponse pr)\<lparr>ap_AuthScheme := Some (s\<lparr>auth_Response := Some (f resp)\<rparr>)\<rparr>) k' =
        (if cut_key k' = Some (g, i) then Some (new r) else auth_lookup new (ensureResponse pr) k')"
  shows "writes new pr k r (updateResponse f (ensureResponse pr))"
proof (rule writesI [OF assms(1)])
  obtain s resp where s: "ap_AuthScheme (ensureResponse pr) = Some s" "auth_Response s = Some resp"
    using ensureResponse_props(1) by blast
  have wf: "scheme_wf s" using ensureResponse_props(2) [OF assms(2)] s by (simp add: proper_wf_def)
  then have "response_wf resp" using s by (simp add: scheme_wf_def)
  note f = assms(4) [OF this s]
  show "proper_wf (updateResponse f (ensureResponse pr))"
    using ensureResponse_props(2) [OF assms(2)] s wf f
    by (simp add: updateResponse_def updateAuthScheme_def proper_wf_def scheme_wf_def)
  show "auth_lookup new (updateResponse f (ensureResponse pr)) k' =
      (if cut_key k' = Some (g, i) then Some (new r) else auth_lookup new pr k')" for k'
    using s f by (simp add: updateResponse_def updateAuthScheme_def ensureResponse_lookup)
  show "ap_AuthScheme (updateResponse f (ensureResponse pr)) = None \<longleftrightarrow>
      ap_AuthScheme pr = None \<and> \<not> auth_substantive k"
    using s assms(3) by (simp add: updateResponse_def updateAuthScheme_def)
qed

lemma ensureResponse_idem: "ensureResponse (ensureResponse pr) = ensureResponse pr"
proof -
  obtain s resp where "ap_AuthScheme (ensureResponse pr) = Some s" "auth_Response s = Some resp"
    using ensureResponse_props(1) by blast
  then show ?thesis
    by (simp add: ensureResponse_def [of "ensureResponse pr"] ensureAuthScheme_def [of "ensureResponse pr"]
        updateAuthScheme_def)
qed

text \<open>One iteration of \<open>SetRules\<close> writes its rule and nothing else, for each group.\<close>

abbreviation setRule_ok ::
  "('s auth_rule \<Rightarrow> 's auth_rule) \<Rightarrow> 's AuthPolicySpecProper \<Rightarrow> string \<Rightarrow> 's auth_rule \<Rightarrow> bool" where
  "setRule_ok new pr k r \<equiv> \<exists>pr'. auth_setRule pr (k, r) = Return pr' \<and> writes new pr k r pr'"

lemmas setRule_eval = auth_setRule_def cut_key_Some ensureResponse_idem HasPrefix_def

lemma setRule_patterns:
  assumes k: "cut_key k = Some (''patterns'', i)" and wf: "proper_wf pr"
  shows "setRule_ok new pr k (PatternExpressionsRule x)"
proof -
  have "writes new pr k (PatternExpressionsRule x) (pr\<lparr>ap_NamedPatterns := gm_set i x (ap_NamedPatterns pr)\<rparr>)"
  proof (rule writesI [OF k])
    show "auth_lookup new (pr\<lparr>ap_NamedPatterns := gm_set i x (ap_NamedPatterns pr)\<rparr>) k' =
        (if cut_key k' = Some (''patterns'', i) then Some (new (PatternExpressionsRule x)) else auth_lookup new pr k')" for k'
      by (cases k' rule: key_cases) (simp_all add: auth_lookup_def)
  qed (use wf k in \<open>simp_all add: proper_wf_def auth_substantive_def\<close>)
  then show ?thesis using k by (simp add: setRule_eval)
qed

lemma setRule_conditions:
  assumes k: "cut_key k = Some (''conditions'', [])" and wf: "proper_wf pr" and w: "mwp_Predicates w \<noteq> []"
  shows "setRule_ok new pr k (WhenPredicatesRule w)"
proof -
  have "writes new pr k (WhenPredicatesRule w) (pr\<lparr>ap_When := w\<rparr>)"
  proof (rule writesI [OF k])
    show "auth_lookup new (pr\<lparr>ap_When := w\<rparr>) k' =
        (if cut_key k' = Some (''conditions'', []) then Some (new (WhenPredicatesRule w)) else auth_lookup new pr k')" for k'
      using w by (cases k' rule: key_cases) (simp_all add: auth_lookup_def)
  qed (use wf k in \<open>simp_all add: proper_wf_def auth_substantive_def\<close>)
  then show ?thesis using k by (simp add: setRule_eval)
qed

lemma setRule_authentication:
  assumes k: "cut_key k = Some (''authentication'', i)" and wf: "proper_wf pr"
  shows "setRule_ok new pr k (AuthenticationRule x)"
proof -
  have "writes new pr k (AuthenticationRule x)
      (updateAuthScheme (\<lambda>s. s\<lparr>auth_Authentication := gm_set i x (auth_Authentication s)\<rparr>) (ensureAuthScheme pr))"
  proof (rule writes_scheme [OF k wf], goal_cases)
    case (2 s k')
    then show ?case by (cases k' rule: key_cases) (simp_all add: auth_lookup_def scheme_wf_def)
  qed (simp add: auth_substantive_def k)
  then show ?thesis using k by (simp add: setRule_eval)
qed

lemma setRule_metadata:
  assumes k: "cut_key k = Some (''metadata'', i)" and wf: "proper_wf pr"
  shows "setRule_ok new pr k (MetadataRule x)"
proof -
  have "writes new pr k (MetadataRule x)
      (updateAuthScheme (\<lambda>s. s\<lparr>auth_Metadata := gm_set i x (auth_Metadata s)\<rparr>) (ensureAuthScheme pr))"
  proof (rule writes_scheme [OF k wf], goal_cases)
    case (2 s k')
    then show ?case by (cases k' rule: key_cases) (simp_all add: auth_lookup_def scheme_wf_def)
  qed (simp add: auth_substantive_def k)
  then show ?thesis using k by (simp add: setRule_eval)
qed

lemma setRule_authorization:
  assumes k: "cut_key k = Some (''authorization'', i)" and wf: "proper_wf pr"
  shows "setRule_ok new pr k (AuthorizationRule x)"
proof -
  have "writes new pr k (AuthorizationRule x)
      (updateAuthScheme (\<lambda>s. s\<lparr>auth_Authorization := gm_set i x (auth_Authorization s)\<rparr>) (ensureAuthScheme pr))"
  proof (rule writes_scheme [OF k wf], goal_cases)
    case (2 s k')
    then show ?case by (cases k' rule: key_cases) (simp_all add: auth_lookup_def scheme_wf_def)
  qed (simp add: auth_substantive_def k)
  then show ?thesis using k by (simp add: setRule_eval)
qed

lemma setRule_callbacks:
  assumes k: "cut_key k = Some (''callbacks'', i)" and wf: "proper_wf pr"
  shows "setRule_ok new pr k (CallbackRule x)"
proof -
  have "writes new pr k (CallbackRule x)
      (updateAuthScheme (\<lambda>s. s\<lparr>auth_Callbacks := gm_set i x (auth_Callbacks s)\<rparr>) (ensureAuthScheme pr))"
  proof (rule writes_scheme [OF k wf], goal_cases)
    case (2 s k')
    then show ?case by (cases k' rule: key_cases) (simp_all add: auth_lookup_def scheme_wf_def)
  qed (simp add: auth_substantive_def k)
  then show ?thesis using k by (simp add: setRule_eval)
qed

lemma setRule_unauthenticated:
  assumes k: "cut_key k = Some (''response.unauthenticated'', [])" and wf: "proper_wf pr"
  shows "setRule_ok new pr k (DenyWithRule x)"
proof -
  have "writes new pr k (DenyWithRule x) (updateResponse (\<lambda>s. s\<lparr>resp_Unauthenticated := Some x\<rparr>) (ensureResponse pr))"
  proof (rule writes_response [OF k wf], goal_cases)
    case (2 s resp k')
    then show ?case by (cases k' rule: key_cases) (simp_all add: auth_lookup_def response_wf_def)
  qed (simp add: auth_substantive_def k)
  then show ?thesis using k by (simp add: setRule_eval)
qed

lemma setRule_unauthorized:
  assumes k: "cut_key k = Some (''response.unauthorized'', [])" and wf: "proper_wf pr"
  shows "setRule_ok new pr k (DenyWithRule x)"
proof -
  have "writes new pr k (DenyWithRule x) (updateResponse (\<lambda>s. s\<lparr>resp_Unauthorized := Some x\<rparr>) (ensureResponse pr))"
  proof (rule writes_response [OF k wf], goal_cases)
    case (2 s resp k')
    then show ?case by (cases k' rule: key_cases) (simp_all add: auth_lookup_def response_wf_def)
  qed (simp add: auth_substantive_def k)
  then show ?thesis using k by (simp add: setRule_eval)
qed

lemma setRule_headers:
  assumes k: "cut_key k = Some (''response.success.headers'', i)" and wf: "proper_wf pr"
  shows "setRule_ok new pr k (HeaderSuccessRule x)"
proof -
  have "writes new pr k (HeaderSuccessRule x) (updateSuccess (\<lambda>s. s\<lparr>succ_Headers := gm_set i x (succ_Headers s)\<rparr>) (ensureResponse pr))"
    unfolding updateSuccess_def
  proof (rule writes_response [OF k wf], goal_cases)
    case (2 s resp k')
    then show ?case by (cases k' rule: key_cases) (simp_all add: auth_lookup_def response_wf_def)
  qed (simp add: auth_substantive_def k)
  then show ?thesis using k by (simp add: setRule_eval)
qed

lemma setRule_success:
  assumes k: "cut_key k = Some (''response.success.metadata'', i)" and wf: "proper_wf pr"
  shows "setRule_ok new pr k (SuccessRule x)"
proof -
  have "writes new pr k (SuccessRule x) (updateSuccess (\<lambda>s. s\<lparr>succ_DynamicMetadata := gm_set i x (succ_DynamicMetadata s)\<rparr>) (ensureResponse pr))"
    unfolding updateSuccess_def
  proof (rule writes_response [OF k wf], goal_cases)
    case (2 s resp k')
    then show ?case by (cases k' rule: key_cases) (simp_all add: auth_lookup_def response_wf_def)
  qed (simp add: auth_substantive_def k)
  then show ?thesis using k by (simp add: setRule_eval)
qed

lemmas setRule_cases = setRule_patterns setRule_conditions setRule_authentication setRule_metadata
  setRule_authorization setRule_callbacks setRule_unauthenticated setRule_unauthorized
  setRule_headers setRule_success

lemma auth_setRule_writes:
  assumes "auth_entry_ok k r" "proper_wf pr"
  shows "setRule_ok new pr k r"
proof -
  obtain g i where gi: "cut_key k = Some (g, i)" "g \<in> set (rule_groups r)" "single_rule r \<longrightarrow> i = []"
    "rule_says_something r"
    using assms(1) by (auto simp: auth_entry_ok_def split: option.splits prod.splits)
  then show ?thesis
    using assms(2) by (cases r) (auto intro: setRule_cases)
qed

definition writes_all ::
  "('s auth_rule \<Rightarrow> 's auth_rule) \<Rightarrow> 's AuthPolicySpecProper \<Rightarrow> (string, 's auth_rule) gomap \<Rightarrow>
   's AuthPolicySpecProper \<Rightarrow> bool" where
  "writes_all new pr rs pr' \<longleftrightarrow> proper_wf pr' \<and>
    (\<forall>k. auth_lookup new pr' k = (case map_of rs k of Some r \<Rightarrow> Some (new r) | None \<Rightarrow> auth_lookup new pr k)) \<and>
    (ap_AuthScheme pr' = None \<longleftrightarrow> ap_AuthScheme pr = None \<and> (\<forall>k \<in> fst ` set rs. \<not> auth_substantive k))"

lemma writes_all_Cons:
  "writes new pr k r pr1 \<Longrightarrow> writes_all new pr1 rs pr' \<Longrightarrow> map_of rs k = None \<Longrightarrow> writes_all new pr ((k, r) # rs) pr'"
  by (auto simp: writes_def writes_all_def split: option.splits)

lemma gfold_auth_setRule:
  assumes "gm_wf rs" "list_all (\<lambda>(k, r). auth_entry_ok k r) rs" "proper_wf pr"
  shows "\<exists>pr'. gfold auth_setRule pr rs = Return pr' \<and> writes_all new pr rs pr'"
  using assms
proof (induction rs arbitrary: pr)
  case Nil
  then show ?case by (simp add: writes_all_def)
next
  case (Cons e rs)
  obtain k r where e: "e = (k, r)" by fastforce
  with Cons.prems obtain pr1 where pr1: "auth_setRule pr (k, r) = Return pr1" "writes new pr k r pr1"
    using auth_setRule_writes [of k r pr new] by auto
  have "proper_wf pr1" "gm_wf rs" "list_all (\<lambda>(k, r). auth_entry_ok k r) rs" and fresh: "map_of rs k = None"
    using pr1(2) Cons.prems by (auto simp: writes_def e map_of_eq_None_fst)
  from Cons.IH [OF this(2,3,1)] obtain pr' where
    pr': "gfold auth_setRule pr1 rs = Return pr'" "writes_all new pr1 rs pr'" by blast
  with writes_all_Cons [OF pr1(2) pr'(2) fresh] pr1(1) show ?case by (simp add: e)
qed

section \<open>The policy keeps the promises of a mergeable policy\<close>

lemma auth_entry_ok_source: "auth_entry_ok k r \<Longrightarrow> auth_GetSource r \<noteq> []"
  by (simp add: auth_entry_ok_def)

lemma auth_new_simps [simp]:
  "auth_GetSource (auth_new locator p r) = [] \<longleftrightarrow> auth_GetSource r = [] \<and> AuthPolicy_GetLocator locator p = []"
  "rule_groups (auth_new locator p r) = rule_groups r"
  "single_rule (auth_new locator p r) = single_rule r"
  "rule_says_something (auth_new locator p r) = rule_says_something r"
  by (cases r; simp add: NewMergeableRule_def)+

lemma auth_lookup_ok:
  assumes "auth_lookup (auth_new locator p) pr k = Some r" "AuthPolicy_GetLocator locator p \<noteq> []"
  shows "auth_entry_ok k r"
  using assms
  by (cases k rule: key_cases)
    (auto simp: auth_lookup_def auth_entry_ok_def split: if_splits option.splits)

lemma gm_wf_Rules: "gm_wf (AuthPolicy_Rules locator p)"
  by (auto simp: AuthPolicy_Rules_def Let_def gm_wf_addGroup simp del: gm_set.simps split: option.splits)

lemma ap_rules_ok:
  "ap_wf locator p \<Longrightarrow> (k, r) \<in> set (AuthPolicy_Rules locator p) \<Longrightarrow> auth_entry_ok k r"
  using rules_lookup [of p locator k] gm_wf_Rules [of locator p]
  by (auto simp: ap_wf_def intro: auth_lookup_ok)

lemma ap_set_rules:
  assumes "ap_wf locator p" "gm_wf rs" "list_all (\<lambda>(k, r). auth_entry_ok k r) rs"
  shows "\<exists>p'. AuthPolicy_SetRules p rs = Return p' \<and> ap_wf locator p' \<and>
    map_of (AuthPolicy_Rules locator p') = map_of rs \<and>
    AuthPolicy_GetLocator locator p' = AuthPolicy_GetLocator locator p \<and>
    AuthPolicy_GetMergeStrategy p' = AuthPolicy_GetMergeStrategy p \<and>
    (AuthPolicy_Empty p' \<longleftrightarrow> (\<forall>k \<in> fst ` set rs. \<not> auth_substantive k))"
proof -
  define pr where "pr = (AuthPolicy_Proper (ap_Spec p))\<lparr>ap_NamedPatterns := [],
    ap_When := (ap_When (AuthPolicy_Proper (ap_Spec p)))\<lparr>mwp_Predicates := []\<rparr>, ap_AuthScheme := None\<rparr>"
  have "proper_wf pr" by (simp add: pr_def proper_wf_def)
  from gfold_auth_setRule [OF assms(2,3) this, of "auth_new locator p"] obtain pr' where
    fold: "gfold auth_setRule pr rs = Return pr'" and all: "writes_all (auth_new locator p) pr rs pr'"
    by blast
  define p' where "p' = p\<lparr>ap_Spec := AuthPolicy_withProper (ap_Spec p) pr'\<rparr>"
  have loc: "AuthPolicy_GetLocator locator p' = AuthPolicy_GetLocator locator p"
    and proper: "AuthPolicy_Proper (ap_Spec p') = pr'"
    by (simp_all add: p'_def AuthPolicy_GetLocator_def)
  have empty: "auth_lookup (auth_new locator p) pr k = None" for k
    by (simp add: auth_lookup_def pr_def split: option.splits)
  have new: "auth_new locator p r = r" if "map_of rs k = Some r" for k r
    using that assms(3) auth_entry_ok_source
    by (fastforce simp: list_all_iff NewMergeableRule_def dest: map_of_SomeD)
  have "map_of (AuthPolicy_Rules locator p') k = map_of rs k" for k
    using rules_lookup [of p' locator k] all new empty
    by (simp add: proper loc writes_all_def split: option.splits)
  moreover have "AuthPolicy_SetRules p rs = Return p'"
    using fold by (simp add: AuthPolicy_SetRules_def Let_def pr_def p'_def)
  ultimately show ?thesis
    using assms(1) all loc
    by (simp add: fun_eq_iff ap_wf_def proper AuthPolicy_Empty_def writes_all_def) (simp add: p'_def pr_def)
qed

interpretation ap: mergeable_policy "ap_ops locator" "ap_wf locator" auth_entry_ok auth_substantive
  for locator
proof unfold_locales
  fix p :: "'a AuthPolicy" and rs :: "(string, 'a auth_rule) gomap"
  assume "ap_wf locator p" "gm_wf rs" "list_all (\<lambda>(k, r). auth_entry_ok k r) rs"
  then show "\<exists>p'. SetRules (ap_ops locator) p rs = Return p' \<and> ap_wf locator p' \<and>
      map_of (Rules (ap_ops locator) p') = map_of rs \<and>
      GetLocator (ap_ops locator) p' = GetLocator (ap_ops locator) p \<and>
      GetMergeStrategy (ap_ops locator) p' = GetMergeStrategy (ap_ops locator) p \<and>
      EmptyPolicy (ap_ops locator) p' = (\<forall>k\<in>fst ` set rs. \<not> auth_substantive k)"
    using ap_set_rules by simp
qed (auto intro: ap_rules_ok gm_wf_Rules auth_WithSource_GetSource dest: auth_entry_ok_source)

section \<open>Effective auth policies\<close>

text \<open>A small instance: authentication at the gateway, authorization and a denial at the route.\<close>

definition ex_auth_rule :: "string \<Rightarrow> string MergeableAuthRule" where
  "ex_auth_rule s = \<lparr>mar_Spec = s, mar_Source = []\<rparr>"

definition ex_auth_proper :: "string AuthSchemeSpec \<Rightarrow> string AuthPolicySpecProper" where
  "ex_auth_proper s = \<lparr>ap_NamedPatterns = [(''a#b'', ex_auth_rule ''pattern'')],
     ap_When = \<lparr>mwp_Predicates = [], mwp_Source = []\<rparr>, ap_AuthScheme = Some s\<rparr>"

definition ex_gateway_ap :: "string AuthPolicy" where
  "ex_gateway_ap = \<lparr>ap_Namespace = ''ns'', ap_Name = ''gw-auth'',
     ap_Spec = \<lparr>ap_TargetRef = ex_ref, ap_Defaults = None,
       ap_Overrides = Some \<lparr>ap_Strategy = ''merge'', ap_ProperOf = ex_auth_proper
         \<lparr>auth_Authentication = [(''jwt'', ex_auth_rule ''issuer'')], auth_Metadata = [], auth_Authorization = [],
          auth_Response = None, auth_Callbacks = []\<rparr>\<rparr>,
       ap_Bare = \<lparr>ap_NamedPatterns = [], ap_When = \<lparr>mwp_Predicates = [], mwp_Source = []\<rparr>, ap_AuthScheme = None\<rparr>\<rparr>\<rparr>"

definition ex_route_ap :: "string AuthPolicy" where
  "ex_route_ap = \<lparr>ap_Namespace = ''ns'', ap_Name = ''route-auth'',
     ap_Spec = \<lparr>ap_TargetRef = ex_ref, ap_Defaults = None, ap_Overrides = None,
       ap_Bare = ex_auth_proper
         \<lparr>auth_Authentication = [(''jwt'', ex_auth_rule ''any'')], auth_Metadata = [],
          auth_Authorization = [(''admins'', ex_auth_rule ''group == admin'')],
          auth_Response = Some \<lparr>resp_Unauthenticated = Some (ex_auth_rule ''302''), resp_Unauthorized = None,
            resp_Success = \<lparr>succ_Headers = [(''x-user'', ex_auth_rule ''user'')], succ_DynamicMetadata = []\<rparr>\<rparr>,
          auth_Callbacks = []\<rparr>\<rparr>\<rparr>"

lemmas ex_ap_defs = ex_auth_rule_def ex_auth_proper_def ex_gateway_ap_def ex_route_ap_def

lemma ex_ap_wf: "ap_wf ex_locator ex_gateway_ap" "ap_wf ex_locator ex_route_ap"
  by (simp_all add: ap_wf_def AuthPolicy_GetLocator_def ex_locator_def ex_ap_defs AuthPolicy_Proper_def
      proper_wf_def scheme_wf_def response_wf_def)

text \<open>
  C20.  Merging the well-formed auth policies of a path never panics: no rule is written back under
  a key of another type and no nested map is written before it is allocated.  The rules of the
  effective policy are those of the abstract specification \<^const>\<open>effective_rules\<close>.
\<close>

theorem ap_effective_refines:
  assumes "policies \<noteq> []" "list_all (ap_wf locator) policies"
  shows "\<exists>e. EffectivePolicyForPath (ap_ops locator) Some policies = Return (Some (Some e)) \<and>
    map_of (AuthPolicy_Rules locator e) = effective_rules (ap_ops locator) auth_substantive policies \<and>
    ap_wf locator e"
  using ap.EffectivePolicyForPath_refines [of policies locator] assms by (auto simp: list_all_iff)

theorem ap_effective_refines_witness:
  "\<exists>e. EffectivePolicyForPath (ap_ops ex_locator) Some [ex_gateway_ap, ex_route_ap] = Return (Some (Some e)) \<and>
    map_of (AuthPolicy_Rules ex_locator e) =
      effective_rules (ap_ops ex_locator) auth_substantive [ex_gateway_ap, ex_route_ap] \<and>
    ap_wf ex_locator e"
  by (rule ap_effective_refines) (simp_all add: ex_ap_wf)



end
