(* ===== verification/Token_Rate_Limit_Policy.thy ===== *)
theory Token_Rate_Limit_Policy
  imports Rate_Limit_Policy
begin

text \<open>
  \<open>TokenRateLimitPolicy\<close> as a mergeable policy
  (\<open>api/v1alpha1/tokenratelimitpolicy_types.go\<close>): limits on tokens, the data extraction that
  says where the token usage stands in a response, and the reservation of tokens.  It is the
  third type that interprets \<open>mergeable_policy\<close>.

  The map of rules keeps the top-level predicates and the data extraction under two reserved
  names.  A limit may not have one of these names; \<open>reserved_limit_name_panics\<close> shows what
  happens otherwise.
\<close>

section \<open>Data\<close>

definition RulesKeyDataExtraction :: string where
  "RulesKeyDataExtraction = ''###_DATA_EXTRACTION_###''"

definition DefaultTotalTokensPointers :: "string list" where
  "DefaultTotalTokensPointers =
     [''/usage/total_tokens'', ''/usageMetadata/totalTokenCount'', ''/response/usage/total_tokens'', ''/usage/totalTokens'']"

definition ResponseDataExtractionKeyTotalTokens :: string where
  "ResponseDataExtractionKeyTotalTokens = ''totalTokens''"

record DataExtraction =
  de_Response :: "(string, string list) gomap"
  de_Source :: string

datatype IntOrString = IntVal int | StrVal string

record Reservation =
  rsv_Amount :: "IntOrString option"
  rsv_TTL :: "string option"

record TokenLimit =
  tl_When :: WhenPredicates
  tl_Rates :: "Rate list"
  tl_Counters :: "Counter list"
  tl_Reservation :: "Reservation option"
  tl_Source :: string

record TokenRateLimitPolicySpecProper =
  trlp_When :: MergeableWhenPredicates
  trlp_Limits :: "(string, TokenLimit) gomap"
  trlp_DataExtraction :: "DataExtraction option"

record MergeableTokenRateLimitPolicySpec =
  trlp_Strategy :: string
  trlp_ProperOf :: TokenRateLimitPolicySpecProper

record TokenRateLimitPolicySpec =
  trlp_TargetRef :: LocalPolicyTargetReference
  trlp_Defaults :: "MergeableTokenRateLimitPolicySpec option"
  trlp_Overrides :: "MergeableTokenRateLimitPolicySpec option"
  trlp_Bare :: TokenRateLimitPolicySpecProper

record TokenRateLimitPolicy =
  trlp_Namespace :: string
  trlp_Name :: string
  trlp_Spec :: TokenRateLimitPolicySpec

text \<open>The pointers to try, in order; a nil receiver, an absent or an empty list give the default.\<close>

definition ResponseTotalTokensPointers :: "DataExtraction option \<Rightarrow> string list" where
  "ResponseTotalTokensPointers d =
     (case d of None \<Rightarrow> DefaultTotalTokensPointers
      | Some de \<Rightarrow>
        (let pointers = (case map_of (de_Response de) ResponseDataExtractionKeyTotalTokens of
              Some ps \<Rightarrow> ps | None \<Rightarrow> [])
         in if length pointers > 0 then pointers else DefaultTotalTokensPointers))"

definition TokenLimit_CountersAsStringList :: "(string \<Rightarrow> string option) \<Rightarrow> TokenLimit \<Rightarrow> string list" where
  "TokenLimit_CountersAsStringList transform l =
     map (\<lambda>counter. let str = counter_Expression counter in
       case transform str of Some e \<Rightarrow> e | None \<Rightarrow> str) (tl_Counters l)"

definition TokenRateLimitPolicy_Proper :: "TokenRateLimitPolicySpec \<Rightarrow> TokenRateLimitPolicySpecProper" where
  "TokenRateLimitPolicy_Proper s =
     (case trlp_Defaults s of Some d \<Rightarrow> trlp_ProperOf d
      | None \<Rightarrow> (case trlp_Overrides s of Some d \<Rightarrow> trlp_ProperOf d | None \<Rightarrow> trlp_Bare s))"

definition TokenRateLimitPolicy_withProper ::
  "TokenRateLimitPolicySpec \<Rightarrow> TokenRateLimitPolicySpecProper \<Rightarrow> TokenRateLimitPolicySpec" where
  "TokenRateLimitPolicy_withProper s pr =
     (case trlp_Defaults s of Some d \<Rightarrow> s\<lparr>trlp_Defaults := Some (d\<lparr>trlp_ProperOf := pr\<rparr>)\<rparr>
      | None \<Rightarrow> (case trlp_Overrides s of Some d \<Rightarrow> s\<lparr>trlp_Overrides := Some (d\<lparr>trlp_ProperOf := pr\<rparr>)\<rparr>
        | None \<Rightarrow> s\<lparr>trlp_Bare := pr\<rparr>))"

definition TokenRateLimitPolicy_GetLocator ::
  "(string \<Rightarrow> string \<Rightarrow> string \<Rightarrow> string) \<Rightarrow> TokenRateLimitPolicy \<Rightarrow> string" where
  "TokenRateLimitPolicy_GetLocator locator p =
     locator ''TokenRateLimitPolicy'' (trlp_Namespace p) (trlp_Name p)"

definition TokenRateLimitPolicy_GetTargetRefs ::
  "TokenRateLimitPolicy \<Rightarrow> (LocalPolicyTargetReference \<times> string) list" where
  "TokenRateLimitPolicy_GetTargetRefs p = [(trlp_TargetRef (trlp_Spec p), trlp_Namespace p)]"

definition TokenRateLimitPolicy_GetMergeStrategy :: "TokenRateLimitPolicy \<Rightarrow> merge_strategy" where
  "TokenRateLimitPolicy_GetMergeStrategy p =
     (case trlp_Defaults (trlp_Spec p) of Some spec \<Rightarrow> DefaultsMergeStrategy (trlp_Strategy spec)
      | None \<Rightarrow> (case trlp_Overrides (trlp_Spec p) of Some spec \<Rightarrow> OverridesMergeStrategy (trlp_Strategy spec)
        | None \<Rightarrow> AtomicDefaults))"

definition TokenRateLimitPolicy_Empty :: "TokenRateLimitPolicy \<Rightarrow> bool" where
  "TokenRateLimitPolicy_Empty p \<longleftrightarrow> length (trlp_Limits (TokenRateLimitPolicy_Proper (trlp_Spec p))) = 0"

section \<open>Rules\<close>

datatype trlp_rule = TokenWhenRule MergeableWhenPredicates | DataExtractionRule DataExtraction | TokenLimitRule TokenLimit

fun trlp_GetSource :: "trlp_rule \<Rightarrow> string" where
  "trlp_GetSource (TokenWhenRule w) = mwp_Source w"
| "trlp_GetSource (DataExtractionRule d) = de_Source d"
| "trlp_GetSource (TokenLimitRule l) = tl_Source l"

fun trlp_WithSource :: "trlp_rule \<Rightarrow> string \<Rightarrow> trlp_rule" where
  "trlp_WithSource (TokenWhenRule w) source = TokenWhenRule (w\<lparr>mwp_Source := source\<rparr>)"
| "trlp_WithSource (DataExtractionRule d) source = DataExtractionRule (d\<lparr>de_Source := source\<rparr>)"
| "trlp_WithSource (TokenLimitRule l) source = TokenLimitRule (l\<lparr>tl_Source := source\<rparr>)"

definition TokenRateLimitPolicy_Rules ::
  "(string \<Rightarrow> string \<Rightarrow> string \<Rightarrow> string) \<Rightarrow> TokenRateLimitPolicy \<Rightarrow> (string, trlp_rule) gomap" where
  "TokenRateLimitPolicy_Rules locator p =
     (let policyLocator = TokenRateLimitPolicy_GetLocator locator p;
          spec = TokenRateLimitPolicy_Proper (trlp_Spec p);
          newRule = (\<lambda>rule. NewMergeableRule trlp_GetSource trlp_WithSource rule policyLocator);
          rules = (if length (mwp_Predicates (trlp_When spec)) > 0
            then gm_set RulesKeyTopLevelPredicates (newRule (TokenWhenRule (trlp_When spec))) [] else []);
          rules = (case trlp_DataExtraction spec of None \<Rightarrow> rules
            | Some d \<Rightarrow> gm_set RulesKeyDataExtraction (newRule (DataExtractionRule d)) rules)
      in foldl (\<lambda>rules (ruleID, limit). gm_set ruleID (newRule (TokenLimitRule limit)) rules)
           rules (trlp_Limits spec))"

fun trlp_setRule ::
  "TokenRateLimitPolicySpecProper \<Rightarrow> string \<times> trlp_rule \<Rightarrow> TokenRateLimitPolicySpecProper go_result" where
  "trlp_setRule pr (ruleID, rule) =
     (if ruleID = RulesKeyTopLevelPredicates
      then (case rule of TokenWhenRule w \<Rightarrow> Return (pr\<lparr>trlp_When := w\<rparr>) | _ \<Rightarrow> Panic ''interface conversion'')
      else if ruleID = RulesKeyDataExtraction
      then (case rule of DataExtractionRule d \<Rightarrow> Return (pr\<lparr>trlp_DataExtraction := Some d\<rparr>)
            | _ \<Rightarrow> Panic ''interface conversion'')
      else (case rule of TokenLimitRule l \<Rightarrow> Return (pr\<lparr>trlp_Limits := gm_set ruleID l (trlp_Limits pr)\<rparr>)
            | _ \<Rightarrow> Panic ''interface conversion''))"

definition TokenRateLimitPolicy_SetRules ::
  "TokenRateLimitPolicy \<Rightarrow> (string, trlp_rule) gomap \<Rightarrow> TokenRateLimitPolicy go_result" where
  "TokenRateLimitPolicy_SetRules p rules =
     (let pr = TokenRateLimitPolicy_Proper (trlp_Spec p);
          pr = pr\<lparr>trlp_Limits := [], trlp_When := \<lparr>mwp_Predicates = [], mwp_Source = []\<rparr>, trlp_DataExtraction := None\<rparr>
      in gbind (gfold trlp_setRule pr rules)
           (\<lambda>pr. Return (p\<lparr>trlp_Spec := TokenRateLimitPolicy_withProper (trlp_Spec p) pr\<rparr>)))"

definition trlp_ops ::
  "(string \<Rightarrow> string \<Rightarrow> string \<Rightarrow> string) \<Rightarrow> (TokenRateLimitPolicy, trlp_rule) mergeable_ops" where
  "trlp_ops locator =
     \<lparr>Rules = TokenRateLimitPolicy_Rules locator, SetRules = TokenRateLimitPolicy_SetRules,
      EmptyPolicy = TokenRateLimitPolicy_Empty, GetLocator = TokenRateLimitPolicy_GetLocator locator,
      GetMergeStrategy = TokenRateLimitPolicy_GetMergeStrategy,
      GetSource = trlp_GetSource, WithSource = trlp_WithSource\<rparr>"

section \<open>The policy keeps the promises of a mergeable policy\<close>

definition trlp_limits_wf :: "(string, TokenLimit) gomap \<Rightarrow> bool" where
  "trlp_limits_wf ls \<longleftrightarrow> gm_wf ls \<and>
     list_all (\<lambda>(k, l). k \<noteq> RulesKeyTopLevelPredicates \<and> k \<noteq> RulesKeyDataExtraction) ls"

definition trlp_wf :: "(string \<Rightarrow> string \<Rightarrow> string \<Rightarrow> string) \<Rightarrow> TokenRateLimitPolicy \<Rightarrow> bool" where
  "trlp_wf locator p \<longleftrightarrow> TokenRateLimitPolicy_GetLocator locator p \<noteq> [] \<and>
     trlp_limits_wf (trlp_Limits (TokenRateLimitPolicy_Proper (trlp_Spec p)))"

fun trlp_entry_ok :: "string \<Rightarrow> trlp_rule \<Rightarrow> bool" where
  "trlp_entry_ok k (TokenWhenRule w) \<longleftrightarrow>
     k = RulesKeyTopLevelPredicates \<and> mwp_Source w \<noteq> [] \<and> mwp_Predicates w \<noteq> []"
| "trlp_entry_ok k (DataExtractionRule d) \<longleftrightarrow> k = RulesKeyDataExtraction \<and> de_Source d \<noteq> []"
| "trlp_entry_ok k (TokenLimitRule l) \<longleftrightarrow>
     k \<noteq> RulesKeyTopLevelPredicates \<and> k \<noteq> RulesKeyDataExtraction \<and> tl_Source l \<noteq> []"

definition trlp_substantive :: "string \<Rightarrow> bool" where
  "trlp_substantive k \<longleftrightarrow> k \<noteq> RulesKeyTopLevelPredicates \<and> k \<noteq> RulesKeyDataExtraction"

lemma reserved_keys_differ [simp]: "RulesKeyTopLevelPredicates \<noteq> RulesKeyDataExtraction"
  "RulesKeyDataExtraction \<noteq> RulesKeyTopLevelPredicates"
  by (simp_all add: RulesKeyTopLevelPredicates_def RulesKeyDataExtraction_def)

lemma trlp_ops_simps [simp]:
  "Rules (trlp_ops locator) = TokenRateLimitPolicy_Rules locator"
  "SetRules (trlp_ops locator) = TokenRateLimitPolicy_SetRules"
  "EmptyPolicy (trlp_ops locator) = TokenRateLimitPolicy_Empty"
  "GetLocator (trlp_ops locator) = TokenRateLimitPolicy_GetLocator locator"
  "GetMergeStrategy (trlp_ops locator) = TokenRateLimitPolicy_GetMergeStrategy"
  "GetSource (trlp_ops locator) = trlp_GetSource"
  "WithSource (trlp_ops locator) = trlp_WithSource"
  by (simp_all add: trlp_ops_def)

lemma trlp_Proper_withProper [simp]:
  "TokenRateLimitPolicy_Proper (TokenRateLimitPolicy_withProper s pr) = pr"
  by (simp add: TokenRateLimitPolicy_Proper_def TokenRateLimitPolicy_withProper_def split: option.splits)

lemma trlp_strategy_withProper [simp]:
  "TokenRateLimitPolicy_GetMergeStrategy (p\<lparr>trlp_Spec := TokenRateLimitPolicy_withProper (trlp_Spec p) pr\<rparr>) =
     TokenRateLimitPolicy_GetMergeStrategy p"
  by (simp add: TokenRateLimitPolicy_GetMergeStrategy_def TokenRateLimitPolicy_withProper_def split: option.splits)

lemma trlp_WithSource_GetSource: "trlp_WithSource r (trlp_GetSource r) = r"
  by (cases r) auto

lemma trlp_GetSource_WithSource [simp]: "trlp_GetSource (trlp_WithSource r src) = src"
  by (cases r) auto

lemma trlp_entry_ok_source: "trlp_entry_ok k r \<Longrightarrow> trlp_GetSource r \<noteq> []"
  by (cases r) auto

abbreviation trlp_new ::
  "(string \<Rightarrow> string \<Rightarrow> string \<Rightarrow> string) \<Rightarrow> TokenRateLimitPolicy \<Rightarrow> trlp_rule \<Rightarrow> trlp_rule" where
  "trlp_new locator p \<equiv>
     \<lambda>r. NewMergeableRule trlp_GetSource trlp_WithSource r (TokenRateLimitPolicy_GetLocator locator p)"

text \<open>What a specification says under a key.\<close>

definition trlp_lookup ::
  "(trlp_rule \<Rightarrow> trlp_rule) \<Rightarrow> TokenRateLimitPolicySpecProper \<Rightarrow> string \<Rightarrow> trlp_rule option" where
  "trlp_lookup new pr k =
     (if k = RulesKeyTopLevelPredicates
      then if mwp_Predicates (trlp_When pr) \<noteq> [] then Some (new (TokenWhenRule (trlp_When pr))) else None
      else if k = RulesKeyDataExtraction then map_option (\<lambda>d. new (DataExtractionRule d)) (trlp_DataExtraction pr)
      else map_option (\<lambda>l. new (TokenLimitRule l)) (map_of (trlp_Limits pr) k))"

lemma map_of_foldl_gm_map:
  "gm_wf xs \<Longrightarrow> map_of (foldl (\<lambda>m (k, v). gm_set k (f v) m) m xs) k =
     (case map_of xs k of Some v \<Rightarrow> Some (f v) | None \<Rightarrow> map_of m k)"
  by (induction xs arbitrary: m) (auto simp: map_of_eq_None_fst [symmetric] split: option.splits)

lemma gm_wf_foldl_gm_map: "gm_wf m \<Longrightarrow> gm_wf (foldl (\<lambda>m (k, v). gm_set k (f v) m) m xs)"
  by (induction xs arbitrary: m) (auto simp del: gm_set.simps)

lemma trlp_rules_lookup:
  assumes "trlp_limits_wf (trlp_Limits (TokenRateLimitPolicy_Proper (trlp_Spec p)))"
  shows "map_of (TokenRateLimitPolicy_Rules locator p) k =
    trlp_lookup (trlp_new locator p) (TokenRateLimitPolicy_Proper (trlp_Spec p)) k"
proof -
  let ?ls = "trlp_Limits (TokenRateLimitPolicy_Proper (trlp_Spec p))"
  have wf: "gm_wf ?ls" "map_of ?ls RulesKeyTopLevelPredicates = None" "map_of ?ls RulesKeyDataExtraction = None"
    using assms by (auto simp: trlp_limits_wf_def list_all_iff map_of_eq_None_fst)
  then show ?thesis
    by (auto simp: TokenRateLimitPolicy_Rules_def Let_def trlp_lookup_def map_of_foldl_gm_map split: option.splits)
qed

lemma trlp_rules_distinct: "gm_wf (TokenRateLimitPolicy_Rules locator p)"
  by (auto simp: TokenRateLimitPolicy_Rules_def Let_def intro!: gm_wf_foldl_gm_map split: option.splits)

lemma trlp_new_ok [simp]:
  assumes "TokenRateLimitPolicy_GetLocator locator p \<noteq> []"
  shows "trlp_entry_ok k (trlp_new locator p (TokenWhenRule w)) \<longleftrightarrow>
      k = RulesKeyTopLevelPredicates \<and> mwp_Predicates w \<noteq> []"
    and "trlp_entry_ok k (trlp_new locator p (DataExtractionRule d)) \<longleftrightarrow> k = RulesKeyDataExtraction"
    and "trlp_entry_ok k (trlp_new locator p (TokenLimitRule l)) \<longleftrightarrow>
      k \<noteq> RulesKeyTopLevelPredicates \<and> k \<noteq> RulesKeyDataExtraction"
  using assms by (simp_all add: NewMergeableRule_def)

lemma trlp_lookup_ok:
  assumes "trlp_lookup (trlp_new locator p) pr k = Some r" "TokenRateLimitPolicy_GetLocator locator p \<noteq> []"
  shows "trlp_entry_ok k r"
  using assms by (auto simp: trlp_lookup_def split: if_splits)

lemma trlp_rules_ok:
  "trlp_wf locator p \<Longrightarrow> (k, r) \<in> set (TokenRateLimitPolicy_Rules locator p) \<Longrightarrow> trlp_entry_ok k r"
  using trlp_rules_lookup [of p locator k] trlp_rules_distinct [of locator p]
  by (auto simp: trlp_wf_def intro: trlp_lookup_ok)

lemma trlp_limits_wf_set:
  "trlp_limits_wf ls \<Longrightarrow> k \<noteq> RulesKeyTopLevelPredicates \<Longrightarrow> k \<noteq> RulesKeyDataExtraction \<Longrightarrow>
    trlp_limits_wf (gm_set k l ls)"
  by (simp add: trlp_limits_wf_def list_all_gm_set)

lemma gm_set_not_Nil [simp]: "gm_set k v m \<noteq> []"
  by (cases m) (auto split: if_splits)

lemma trlp_setRule_writes:
  assumes "trlp_entry_ok k r" "trlp_limits_wf (trlp_Limits pr)"
  shows "\<exists>pr'. trlp_setRule pr (k, r) = Return pr' \<and> trlp_limits_wf (trlp_Limits pr') \<and>
    trlp_lookup new pr' = (trlp_lookup new pr)(k \<mapsto> new r) \<and>
    (trlp_Limits pr' = [] \<longleftrightarrow> trlp_Limits pr = [] \<and> \<not> trlp_substantive k)"
  using assms
  by (cases r) (auto simp: trlp_lookup_def fun_eq_iff trlp_substantive_def trlp_limits_wf_set simp del: gm_set.simps)

lemma gfold_trlp_setRule:
  assumes "gm_wf rs" "list_all (\<lambda>(k, r). trlp_entry_ok k r) rs" "trlp_limits_wf (trlp_Limits pr)"
  shows "\<exists>pr'. gfold trlp_setRule pr rs = Return pr' \<and> trlp_limits_wf (trlp_Limits pr') \<and>
    trlp_lookup new pr' = trlp_lookup new pr ++ (map_option new \<circ> map_of rs) \<and>
    (trlp_Limits pr' = [] \<longleftrightarrow> trlp_Limits pr = [] \<and> (\<forall>k \<in> fst ` set rs. \<not> trlp_substantive k))"
  using assms
proof (induction rs arbitrary: pr)
  case Nil
  then show ?case by (simp add: comp_def)
next
  case (Cons e rs)
  obtain k r where e: "e = (k, r)" by fastforce
  with Cons.prems obtain pr1 where pr1: "trlp_setRule pr (k, r) = Return pr1" "trlp_limits_wf (trlp_Limits pr1)"
    "trlp_lookup new pr1 = (trlp_lookup new pr)(k \<mapsto> new r)"
    "trlp_Limits pr1 = [] \<longleftrightarrow> trlp_Limits pr = [] \<and> \<not> trlp_substantive k"
    using trlp_setRule_writes [of k r pr new] by auto
  have rs: "gm_wf rs" "list_all (\<lambda>(k, r). trlp_entry_ok k r) rs" "map_of rs k = None"
    using Cons.prems by (auto simp: e map_of_eq_None_fst)
  from Cons.IH [OF rs(1,2) pr1(2)] obtain pr' where pr': "gfold trlp_setRule pr1 rs = Return pr'"
    "trlp_limits_wf (trlp_Limits pr')" "trlp_lookup new pr' = trlp_lookup new pr1 ++ (map_option new \<circ> map_of rs)"
    "trlp_Limits pr' = [] \<longleftrightarrow> trlp_Limits pr1 = [] \<and> (\<forall>k \<in> fst ` set rs. \<not> trlp_substantive k)"
    by (elim exE conjE)
  have "trlp_lookup new pr' = trlp_lookup new pr ++ (map_option new \<circ> map_of ((k, r) # rs))"
    unfolding pr'(3) pr1(3) using rs(3) by (auto simp: fun_eq_iff map_add_def split: option.splits)
  with pr1(1,4) pr'(1,2,4) show ?case by (simp add: e comp_def del: trlp_setRule.simps map_of.simps)
qed

lemma trlp_set_rules:
  assumes "trlp_wf locator p" "gm_wf rs" "list_all (\<lambda>(k, r). trlp_entry_ok k r) rs"
  shows "\<exists>p'. TokenRateLimitPolicy_SetRules p rs = Return p' \<and> trlp_wf locator p' \<and>
    map_of (TokenRateLimitPolicy_Rules locator p') = map_of rs \<and>
    TokenRateLimitPolicy_GetLocator locator p' = TokenRateLimitPolicy_GetLocator locator p \<and>
    TokenRateLimitPolicy_GetMergeStrategy p' = TokenRateLimitPolicy_GetMergeStrategy p \<and>
    (TokenRateLimitPolicy_Empty p' \<longleftrightarrow> (\<forall>k \<in> fst ` set rs. \<not> trlp_substantive k))"
proof -
  define pr where "pr = (TokenRateLimitPolicy_Proper (trlp_Spec p))\<lparr>trlp_Limits := [],
    trlp_When := \<lparr>mwp_Predicates = [], mwp_Source = []\<rparr>, trlp_DataExtraction := None\<rparr>"
  have "trlp_limits_wf (trlp_Limits pr)" by (simp add: pr_def trlp_limits_wf_def)
  from gfold_trlp_setRule [OF assms(2,3) this, of "trlp_new locator p"] obtain pr' where
    pr': "gfold trlp_setRule pr rs = Return pr'" "trlp_limits_wf (trlp_Limits pr')"
      "trlp_lookup (trlp_new locator p) pr' = trlp_lookup (trlp_new locator p) pr ++ (map_option (trlp_new locator p) \<circ> map_of rs)"
      "trlp_Limits pr' = [] \<longleftrightarrow> trlp_Limits pr = [] \<and> (\<forall>k \<in> fst ` set rs. \<not> trlp_substantive k)"
    by (elim exE conjE)
  define p' where "p' = p\<lparr>trlp_Spec := TokenRateLimitPolicy_withProper (trlp_Spec p) pr'\<rparr>"
  have loc: "TokenRateLimitPolicy_GetLocator locator p' = TokenRateLimitPolicy_GetLocator locator p"
    and proper: "TokenRateLimitPolicy_Proper (trlp_Spec p') = pr'"
    by (simp_all add: p'_def TokenRateLimitPolicy_GetLocator_def)
  have empty: "trlp_lookup (trlp_new locator p) pr k = None" for k
    by (simp add: trlp_lookup_def pr_def)
  have new: "trlp_new locator p r = r" if "map_of rs k = Some r" for k r
    using that assms(3) trlp_entry_ok_source
    by (fastforce simp: list_all_iff NewMergeableRule_def dest: map_of_SomeD)
  have "map_of (TokenRateLimitPolicy_Rules locator p') k = map_of rs k" for k
    using trlp_rules_lookup [of p' locator k] pr'(2) new empty [of k]
    by (simp add: proper loc pr'(3) map_add_def split: option.splits)
  moreover have "TokenRateLimitPolicy_SetRules p rs = Return p'"
    using pr'(1) by (simp add: TokenRateLimitPolicy_SetRules_def Let_def pr_def p'_def)
  ultimately show ?thesis
    using assms(1) pr'(2,4) loc
    by (simp add: fun_eq_iff trlp_wf_def proper TokenRateLimitPolicy_Empty_def) (simp add: p'_def pr_def)
qed

interpretation trlp: mergeable_policy "trlp_ops locator" "trlp_wf locator" trlp_entry_ok trlp_substantive
  for locator
proof unfold_locales
  fix p rs
  assume "trlp_wf locator p" "gm_wf rs" "list_all (\<lambda>(k, r). trlp_entry_ok k r) rs"
  then show "\<exists>p'. SetRules (trlp_ops locator) p rs = Return p' \<and> trlp_wf locator p' \<and>
      map_of (Rules (trlp_ops locator) p') = map_of rs \<and>
      GetLocator (trlp_ops locator) p' = GetLocator (trlp_ops locator) p \<and>
      GetMergeStrategy (trlp_ops locator) p' = GetMergeStrategy (trlp_ops locator) p \<and>
      EmptyPolicy (trlp_ops locator) p' = (\<forall>k\<in>fst ` set rs. \<not> trlp_substantive k)"
    using trlp_set_rules by simp
qed (auto intro: trlp_rules_ok trlp_rules_distinct trlp_WithSource_GetSource dest: trlp_entry_ok_source)

section \<open>Effective token rate limit policies\<close>

definition ex_token_limit :: "int \<Rightarrow> TokenLimit" where
  "ex_token_limit n = \<lparr>tl_When = [], tl_Rates = [\<lparr>rate_Limit = n, rate_Window = ''1m''\<rparr>], tl_Counters = [],
     tl_Reservation = None, tl_Source = []\<rparr>"

definition ex_trlp :: "string \<Rightarrow> DataExtraction option \<Rightarrow> (string, TokenLimit) gomap \<Rightarrow> TokenRateLimitPolicy" where
  "ex_trlp name de ls = \<lparr>trlp_Namespace = ''ns'', trlp_Name = name,
     trlp_Spec = \<lparr>trlp_TargetRef = ex_ref,
       trlp_Defaults = Some \<lparr>trlp_Strategy = ''merge'',
         trlp_ProperOf = \<lparr>trlp_When = \<lparr>mwp_Predicates = [], mwp_Source = []\<rparr>, trlp_Limits = ls, trlp_DataExtraction = de\<rparr>\<rparr>,
       trlp_Overrides = None,
       trlp_Bare = \<lparr>trlp_When = \<lparr>mwp_Predicates = [], mwp_Source = []\<rparr>, trlp_Limits = [], trlp_DataExtraction = None\<rparr>\<rparr>\<rparr>"

definition ex_extraction :: DataExtraction where
  "ex_extraction = \<lparr>de_Response = [(''totalTokens'', [''/tokens''])], de_Source = []\<rparr>"

definition ex_gateway_trlp :: TokenRateLimitPolicy where
  "ex_gateway_trlp = ex_trlp ''gw-tokens'' (Some ex_extraction) [(''all'', ex_token_limit 100)]"

definition ex_route_trlp :: TokenRateLimitPolicy where
  "ex_route_trlp = ex_trlp ''route-tokens'' None [(''all'', ex_token_limit 10)]"

lemmas ex_trlp_defs = ex_token_limit_def ex_trlp_def ex_extraction_def ex_gateway_trlp_def ex_route_trlp_def

lemma ex_trlp_wf: "trlp_wf ex_locator ex_gateway_trlp" "trlp_wf ex_locator ex_route_trlp"
  by (simp_all add: trlp_wf_def trlp_limits_wf_def ex_trlp_defs TokenRateLimitPolicy_Proper_def
      TokenRateLimitPolicy_GetLocator_def ex_locator_def RulesKeyTopLevelPredicates_def RulesKeyDataExtraction_def)

text \<open>
  Merging the well-formed token rate limit policies of a path never panics, and the rules of
  the effective policy, the data extraction among them, are those of the abstract specification.
\<close>

theorem trlp_effective_refines:
  assumes "policies \<noteq> []" "list_all (trlp_wf locator) policies"
  shows "\<exists>e. EffectivePolicyForPath (trlp_ops locator) Some policies = Return (Some (Some e)) \<and>
    map_of (TokenRateLimitPolicy_Rules locator e) = effective_rules (trlp_ops locator) trlp_substantive policies \<and>
    trlp_wf locator e"
  using trlp.EffectivePolicyForPath_refines [of policies locator] assms by (auto simp: list_all_iff)

theorem trlp_effective_refines_witness:
  "\<exists>e. EffectivePolicyForPath (trlp_ops ex_locator) Some [ex_gateway_trlp, ex_route_trlp] = Return (Some (Some e)) \<and>
    map_of (TokenRateLimitPolicy_Rules ex_locator e) =
      effective_rules (trlp_ops ex_locator) trlp_substantive [ex_gateway_trlp, ex_route_trlp] \<and>
    trlp_wf ex_locator e"
  by (rule trlp_effective_refines) (simp_all add: ex_trlp_wf)

text \<open>
  The gateway's data extraction reaches the effective policy of a route that has none, and its
  pointers are the ones used; without any the defaults are.
\<close>

lemma ex_trlp_extraction:
  "map_option (map_option (map_option (\<lambda>e. ResponseTotalTokensPointers
      (trlp_DataExtraction (TokenRateLimitPolicy_Proper (trlp_Spec e))))))
    (returned (EffectivePolicyForPath (trlp_ops ex_locator) Some [ex_gateway_trlp, ex_route_trlp])) =
    Some (Some (Some [''/tokens'']))"
  "ResponseTotalTokensPointers (Some ex_extraction) = [''/tokens'']"
  "ResponseTotalTokensPointers None = DefaultTotalTokensPointers"
  by code_simp+

text \<open>
  A limit whose name is the reserved key of the data extraction makes the merge panic: the rule
  under that key is a limit, and \<open>SetRules\<close> converts it to a \<open>*DataExtraction\<close>.
\<close>

lemma reserved_limit_name_panics:
  "EffectivePolicyForPath (trlp_ops ex_locator) Some
     [ex_trlp ''p'' None [(''###_DATA_EXTRACTION_###'', ex_token_limit 1)]] = Panic ''interface conversion''"
  by code_simp

end
