(* ===== verification/Policy_Acceptance.thy ===== *)
theory Policy_Acceptance
  imports Policy_Conditions Policy_Machinery Auth_Policy Token_Rate_Limit_Policy
begin

text \<open>
  Which policies take part in a reconciliation, and the effective policies they give: the
  validators (\<open>internal/controller/auth_policies_validator.go\<close>,
  \<open>ratelimit_policies_validator.go\<close>, \<open>tokenratelimit_policies_validator.go\<close>), the
  acceptance functions of the workflow helpers, and the reconcilers that compute the effective
  policies of every path (\<open>effective_auth_policies_reconciler.go\<close>,
  \<open>effective_ratelimit_policies_reconciler.go\<close>,
  \<open>effective_tokenratelimit_policies_reconciler.go\<close>).

  The keys of the workflow's \<open>sync.Map\<close> that these tasks write and read are the fields of the
  record \<open>workflow_state\<close>; a field is \<open>None\<close> until its task has run, since every
  reconciliation starts with an empty map and a task runs only on the events it subscribes to.
  The topology comes from the policy-machinery library; what is read of it is the record
  \<open>topo_view\<close>, and \<open>findCond\<close> is \<open>meta.FindStatusCondition\<close>.
\<close>

section \<open>Policies as objects\<close>

datatype 's machinery_policy =
    AuthPolicyObj "'s AuthPolicy"
  | RateLimitPolicyObj RateLimitPolicy
  | TokenRateLimitPolicyObj TokenRateLimitPolicy
  | OtherPolicyObj string string string

text \<open>\<open>pol_Deleted\<close>: the deletion timestamp is set.\<close>

record 's policy_object =
  pol :: "'s machinery_policy"
  pol_Conditions :: "Condition list"
  pol_Generation :: int
  pol_ObservedGeneration :: int
  pol_Deleted :: bool

type_synonym locator_fun = "string \<Rightarrow> string \<Rightarrow> string \<Rightarrow> string"

fun policy_kind :: "'s machinery_policy \<Rightarrow> string" where
  "policy_kind (AuthPolicyObj p) = ''AuthPolicy''"
| "policy_kind (RateLimitPolicyObj p) = ''RateLimitPolicy''"
| "policy_kind (TokenRateLimitPolicyObj p) = ''TokenRateLimitPolicy''"
| "policy_kind (OtherPolicyObj kind ns name) = kind"

fun policy_locator :: "locator_fun \<Rightarrow> 's machinery_policy \<Rightarrow> string" where
  "policy_locator locator (AuthPolicyObj p) = AuthPolicy_GetLocator locator p"
| "policy_locator locator (RateLimitPolicyObj p) = RateLimitPolicy_GetLocator locator p"
| "policy_locator locator (TokenRateLimitPolicyObj p) = TokenRateLimitPolicy_GetLocator locator p"
| "policy_locator locator (OtherPolicyObj kind ns name) = locator kind ns name"

fun policy_nsname :: "'s machinery_policy \<Rightarrow> string \<times> string" where
  "policy_nsname (AuthPolicyObj p) = (ap_Namespace p, ap_Name p)"
| "policy_nsname (RateLimitPolicyObj p) = (rlp_Namespace p, rlp_Name p)"
| "policy_nsname (TokenRateLimitPolicyObj p) = (trlp_Namespace p, trlp_Name p)"
| "policy_nsname (OtherPolicyObj kind ns name) = (ns, name)"

fun asAuthPolicy :: "'s machinery_policy \<Rightarrow> 's AuthPolicy option" where
  "asAuthPolicy (AuthPolicyObj p) = Some p"
| "asAuthPolicy _ = None"

fun asRateLimitPolicy :: "'s machinery_policy \<Rightarrow> RateLimitPolicy option" where
  "asRateLimitPolicy (RateLimitPolicyObj p) = Some p"
| "asRateLimitPolicy _ = None"

fun asTokenRateLimitPolicy :: "'s machinery_policy \<Rightarrow> TokenRateLimitPolicy option" where
  "asTokenRateLimitPolicy (TokenRateLimitPolicyObj p) = Some p"
| "asTokenRateLimitPolicy _ = None"

section \<open>The workflow state and the topology\<close>

record 'p EffectivePolicy =
  ep_Path :: "targetable list"
  ep_Spec :: 'p
  ep_SourcePolicies :: "string list"

type_synonym valid_map = "(string, go_error option) gomap"

record 's workflow_state =
  st_AuthPolicyValid :: "valid_map option"
  st_RateLimitPolicyValid :: "valid_map option"
  st_TokenRateLimitPolicyValid :: "valid_map option"
  st_EffectiveAuthPolicies :: "(string, 's AuthPolicy EffectivePolicy) gomap option"
  st_EffectiveRateLimitPolicies :: "(string, RateLimitPolicy EffectivePolicy) gomap option"
  st_EffectiveTokenRateLimitPolicies :: "(string, TokenRateLimitPolicy EffectivePolicy) gomap option"

record 's topo_view =
  tv_Policies :: "'s policy_object list"
  tv_Targets :: "'s policy_object \<Rightarrow> targetable list"
  tv_HasKuadrant :: bool
  tv_GatewayClasses :: "targetable list"
  tv_Targetables :: "targetable list"
  tv_Paths :: "targetable \<Rightarrow> targetable \<Rightarrow> targetable list list"
  tv_PoliciesOf :: "targetable \<Rightarrow> 's policy_object list"
  tv_CreatedBefore :: "'s policy_object \<Rightarrow> 's policy_object \<Rightarrow> bool"
  tv_NameOf :: "targetable \<Rightarrow> string \<times> string"

section \<open>Validators\<close>

record validator =
  val_isGatewayAPIInstalled :: bool
  val_isGatewayProviderInstalled :: bool
  val_isOperatorInstalled :: bool

definition missingDependency :: "string \<Rightarrow> validator \<Rightarrow> go_error option" where
  "missingDependency operator r =
     (let missing = (if \<not> val_isGatewayAPIInstalled r then [''Gateway API''] else []);
          missing = (if \<not> val_isGatewayProviderInstalled r
            then missing @ [''Gateway API provider (istio / envoy gateway)''] else missing);
          missing = (if \<not> val_isOperatorInstalled r then missing @ [operator] else missing)
      in if missing \<noteq> [] then Some (PolicyError (ErrDependencyNotInstalled missing)) else None)"

definition AuthPolicyValidator_isMissingDependency :: "validator \<Rightarrow> go_error option" where
  "AuthPolicyValidator_isMissingDependency r = missingDependency ''Authorino Operator'' r"

definition RateLimitPolicyValidator_isMissingDependency :: "validator \<Rightarrow> go_error option" where
  "RateLimitPolicyValidator_isMissingDependency r = missingDependency ''Limitador Operator'' r"

definition TokenRateLimitPolicyValidator_isMissingDependency :: "validator \<Rightarrow> go_error option" where
  "TokenRateLimitPolicyValidator_isMissingDependency r = missingDependency ''Limitador Operator'' r"

text \<open>
  The body of the loop over the policies.  \<open>notFound res name\<close> is the text of
  \<open>apierrors.NewNotFound\<close> for the resource \<open>res\<close>, which the kind of the reference selects.
\<close>

definition resourceOfKind :: "string list \<Rightarrow> string \<Rightarrow> string" where
  "resourceOfKind kinds kind =
     (if kind \<notin> set kinds then []
      else if kind = ''Gateway'' then ''gateways.gateway.networking.k8s.io''
      else if kind = ''HTTPRoute'' then ''httproutes.gateway.networking.k8s.io''
      else if kind = ''GRPCRoute'' then ''grpcroutes.gateway.networking.k8s.io''
      else [])"

definition validatePolicy ::
  "(string \<Rightarrow> string \<Rightarrow> string) \<Rightarrow> string list \<Rightarrow> string \<Rightarrow> go_error option \<Rightarrow> 's topo_view \<Rightarrow> 's policy_object \<Rightarrow>
   (LocalPolicyTargetReference \<times> string) list \<Rightarrow> go_error option" where
  "validatePolicy notFound kinds policyKind missingDep topo policy targetRefs =
     (case missingDep of Some err \<Rightarrow> Some err
      | None \<Rightarrow>
        if length targetRefs > 0 \<and> length (tv_Targets topo policy) = 0
        then (let ref = fst (hd targetRefs) in
          Some (PolicyError (ErrPolicyTargetNotFound policyKind (ref_Name ref)
            (ForeignError (notFound (resourceOfKind kinds (ref_Kind ref)) (ref_Name ref)) True))))
        else None)"

definition AuthPolicyValidator_Validate ::
  "(string \<Rightarrow> string \<Rightarrow> string) \<Rightarrow> locator_fun \<Rightarrow> validator \<Rightarrow> 's topo_view \<Rightarrow> 's workflow_state \<Rightarrow> 's workflow_state" where
  "AuthPolicyValidator_Validate notFound locator r topo st =
     (let results = foldl (\<lambda>m policy. case asAuthPolicy (pol policy) of None \<Rightarrow> m
            | Some p \<Rightarrow> gm_set (policy_locator locator (pol policy))
                (validatePolicy notFound [''Gateway'', ''HTTPRoute'', ''GRPCRoute''] ''AuthPolicy''
                  (AuthPolicyValidator_isMissingDependency r) topo policy (AuthPolicy_GetTargetRefs p)) m)
            [] (tv_Policies topo)
      in st\<lparr>st_AuthPolicyValid := Some results\<rparr>)"

definition RateLimitPolicyValidator_Validate ::
  "(string \<Rightarrow> string \<Rightarrow> string) \<Rightarrow> locator_fun \<Rightarrow> validator \<Rightarrow> 's topo_view \<Rightarrow> 's workflow_state \<Rightarrow> 's workflow_state" where
  "RateLimitPolicyValidator_Validate notFound locator r topo st =
     (let results = foldl (\<lambda>m policy. case asRateLimitPolicy (pol policy) of None \<Rightarrow> m
            | Some p \<Rightarrow> gm_set (policy_locator locator (pol policy))
                (validatePolicy notFound [''Gateway'', ''HTTPRoute'', ''GRPCRoute''] ''RateLimitPolicy''
                  (RateLimitPolicyValidator_isMissingDependency r) topo policy
                  [(rlp_TargetRef (rlp_Spec p), rlp_Namespace p)]) m)
            [] (tv_Policies topo)
      in st\<lparr>st_RateLimitPolicyValid := Some results\<rparr>)"

definition TokenRateLimitPolicyValidator_Validate ::
  "(string \<Rightarrow> string \<Rightarrow> string) \<Rightarrow> locator_fun \<Rightarrow> validator \<Rightarrow> 's topo_view \<Rightarrow> 's workflow_state \<Rightarrow> 's workflow_state" where
  "TokenRateLimitPolicyValidator_Validate notFound locator r topo st =
     (let missingDependencyErr = TokenRateLimitPolicyValidator_isMissingDependency r;
          results = foldl (\<lambda>m policy. case asTokenRateLimitPolicy (pol policy) of None \<Rightarrow> m
            | Some p \<Rightarrow> gm_set (policy_locator locator (pol policy))
                (validatePolicy notFound [''Gateway'', ''HTTPRoute''] ''TokenRateLimitPolicy''
                  missingDependencyErr topo policy (TokenRateLimitPolicy_GetTargetRefs p)) m)
            [] (tv_Policies topo)
      in st\<lparr>st_TokenRateLimitPolicyValid := Some results\<rparr>)"

section \<open>Accepted policies\<close>

type_synonym find_cond = "Condition list \<Rightarrow> string \<Rightarrow> Condition option"

text \<open>The answer of the stored condition, used when the validator did not run.\<close>

definition acceptedFromCondition :: "find_cond \<Rightarrow> 's policy_object \<Rightarrow> bool \<times> go_error option" where
  "acceptedFromCondition findCond p =
     (case findCond (pol_Conditions p) PolicyConditionAccepted of None \<Rightarrow> (False, None)
      | Some condition \<Rightarrow>
        (let accepted = (cond_Status condition = ''True'')
         in (accepted, if \<not> accepted then Some (ForeignError (cond_Message condition) False) else None)))"

definition authPolicyAcceptedStatus :: "find_cond \<Rightarrow> 's policy_object \<Rightarrow> bool \<times> go_error option" where
  "authPolicyAcceptedStatus findCond p =
     (case asAuthPolicy (pol p) of None \<Rightarrow> (False, None) | Some _ \<Rightarrow> acceptedFromCondition findCond p)"

definition authPolicyAcceptedStatusFunc ::
  "find_cond \<Rightarrow> locator_fun \<Rightarrow> 's workflow_state \<Rightarrow> 's policy_object \<Rightarrow> bool \<times> go_error option" where
  "authPolicyAcceptedStatusFunc findCond locator st p =
     (case st_AuthPolicyValid st of None \<Rightarrow> authPolicyAcceptedStatus findCond p
      | Some m \<Rightarrow> (case map_of m (policy_locator locator (pol p)) of
          Some err \<Rightarrow> (err = None, err)
        | None \<Rightarrow> authPolicyAcceptedStatus findCond p))"

definition isAuthPolicyAcceptedFunc :: "find_cond \<Rightarrow> locator_fun \<Rightarrow> 's workflow_state \<Rightarrow> 's policy_object \<Rightarrow> bool" where
  "isAuthPolicyAcceptedFunc findCond locator st p = fst (authPolicyAcceptedStatusFunc findCond locator st p)"

definition isAuthPolicyAcceptedAndNotDeletedFunc ::
  "find_cond \<Rightarrow> locator_fun \<Rightarrow> 's workflow_state \<Rightarrow> 's policy_object \<Rightarrow> bool" where
  "isAuthPolicyAcceptedAndNotDeletedFunc findCond locator st p \<longleftrightarrow>
     isAuthPolicyAcceptedFunc findCond locator st p \<and> \<not> pol_Deleted p"

definition rateLimitPolicyAcceptedStatus :: "find_cond \<Rightarrow> 's policy_object \<Rightarrow> bool \<times> go_error option" where
  "rateLimitPolicyAcceptedStatus findCond p =
     (case asRateLimitPolicy (pol p) of None \<Rightarrow> (False, None) | Some _ \<Rightarrow> acceptedFromCondition findCond p)"

definition rateLimitPolicyAcceptedStatusFunc ::
  "find_cond \<Rightarrow> locator_fun \<Rightarrow> 's workflow_state \<Rightarrow> 's policy_object \<Rightarrow> bool \<times> go_error option" where
  "rateLimitPolicyAcceptedStatusFunc findCond locator st p =
     (case st_RateLimitPolicyValid st of None \<Rightarrow> rateLimitPolicyAcceptedStatus findCond p
      | Some m \<Rightarrow> (case map_of m (policy_locator locator (pol p)) of
          Some err \<Rightarrow> (err = None, err)
        | None \<Rightarrow> rateLimitPolicyAcceptedStatus findCond p))"

definition isRateLimitPolicyAcceptedFunc :: "find_cond \<Rightarrow> locator_fun \<Rightarrow> 's workflow_state \<Rightarrow> 's policy_object \<Rightarrow> bool" where
  "isRateLimitPolicyAcceptedFunc findCond locator st p = fst (rateLimitPolicyAcceptedStatusFunc findCond locator st p)"

definition isRateLimitPolicyAcceptedAndNotDeletedFunc ::
  "find_cond \<Rightarrow> locator_fun \<Rightarrow> 's workflow_state \<Rightarrow> 's policy_object \<Rightarrow> bool" where
  "isRateLimitPolicyAcceptedAndNotDeletedFunc findCond locator st p \<longleftrightarrow>
     isRateLimitPolicyAcceptedFunc findCond locator st p \<and> \<not> pol_Deleted p"

text \<open>The variant for token rate limit policies also accepts an error that \<open>IsNotFound\<close> recognises.\<close>

definition tokenRateLimitPolicyAcceptedStatus :: "find_cond \<Rightarrow> 's policy_object \<Rightarrow> bool \<times> go_error option" where
  "tokenRateLimitPolicyAcceptedStatus findCond p = acceptedFromCondition findCond p"

definition tokenRateLimitPolicyAcceptedStatusFunc ::
  "find_cond \<Rightarrow> locator_fun \<Rightarrow> 's workflow_state \<Rightarrow> 's policy_object \<Rightarrow> bool \<times> go_error option" where
  "tokenRateLimitPolicyAcceptedStatusFunc findCond locator st p =
     (case st_TokenRateLimitPolicyValid st of None \<Rightarrow> tokenRateLimitPolicyAcceptedStatus findCond p
      | Some m \<Rightarrow> (case map_of m (policy_locator locator (pol p)) of
          Some err \<Rightarrow> (case err of None \<Rightarrow> True | Some e \<Rightarrow> IsNotFound e, err)
        | None \<Rightarrow> tokenRateLimitPolicyAcceptedStatus findCond p))"

definition isTokenRateLimitPolicyAcceptedFunc ::
  "find_cond \<Rightarrow> locator_fun \<Rightarrow> 's workflow_state \<Rightarrow> 's policy_object \<Rightarrow> bool" where
  "isTokenRateLimitPolicyAcceptedFunc findCond locator st p =
     (case asTokenRateLimitPolicy (pol p) of
        Some _ \<Rightarrow> fst (tokenRateLimitPolicyAcceptedStatusFunc findCond locator st p) | None \<Rightarrow> False)"

definition isTokenRateLimitPolicyAcceptedAndNotDeletedFunc ::
  "find_cond \<Rightarrow> locator_fun \<Rightarrow> 's workflow_state \<Rightarrow> 's policy_object \<Rightarrow> bool" where
  "isTokenRateLimitPolicyAcceptedAndNotDeletedFunc findCond locator st p \<longleftrightarrow>
     isTokenRateLimitPolicyAcceptedFunc findCond locator st p \<and> \<not> pol_Deleted p"

section \<open>Effective policies of all paths\<close>

fun isHTTPRouteRule :: "targetable \<Rightarrow> bool" where
  "isHTTPRouteRule (THTTPRouteRule x) = True"
| "isHTTPRouteRule _ = False"

fun isGRPCRouteRule :: "targetable \<Rightarrow> bool" where
  "isGRPCRouteRule (TGRPCRouteRule x) = True"
| "isGRPCRouteRule _ = False"

definition pathPolicies ::
  "'s topo_view \<Rightarrow> ('s policy_object \<Rightarrow> bool) \<Rightarrow> targetable list \<Rightarrow> 's policy_object list" where
  "pathPolicies topo predicate path =
     PoliciesInPath (tv_PoliciesOf topo) (\<lambda>_. True) (tv_CreatedBefore topo) path predicate"

definition pathIDOf :: "(string \<Rightarrow> string \<Rightarrow> string) \<Rightarrow> 's topo_view \<Rightarrow> targetable list \<Rightarrow> string" where
  "pathIDOf nn topo path = PathID nn (map (tv_NameOf topo) path)"

text \<open>
  The body of the innermost loop, for one path.  The pointer to a nil policy, which
  \<open>EffectivePolicyForPath\<close> can return, is dereferenced: that panics.
\<close>

definition addEffectivePolicy ::
  "('p, 'r) mergeable_ops \<Rightarrow> ('s policy_object \<Rightarrow> 'p option) \<Rightarrow> (string \<Rightarrow> string \<Rightarrow> string) \<Rightarrow> 's topo_view \<Rightarrow>
   ('s policy_object \<Rightarrow> bool) \<Rightarrow> (string, 'p EffectivePolicy) gomap \<Rightarrow> targetable list \<Rightarrow>
   (string, 'p EffectivePolicy) gomap go_result" where
  "addEffectivePolicy ops asT nn topo predicate effectivePolicies path =
     gbind (EffectivePolicyForPath ops asT (pathPolicies topo predicate path))
       (\<lambda>r. case r of None \<Rightarrow> Return effectivePolicies
          | Some None \<Rightarrow> Panic ''nil pointer dereference''
          | Some (Some e) \<Rightarrow> Return (gm_set (pathIDOf nn topo path)
              \<lparr>ep_Path = path, ep_Spec = e, ep_SourcePolicies = SourcePoliciesFromEffectivePolicy ops e\<rparr> effectivePolicies))"

text \<open>The paths in the order of the nested loops, for the rules of the given kinds.\<close>

definition allPaths :: "'s topo_view \<Rightarrow> targetable list \<Rightarrow> targetable list list" where
  "allPaths topo routeRules =
     concat (map (\<lambda>gatewayClass. concat (map (\<lambda>rule. tv_Paths topo gatewayClass rule) routeRules)) (tv_GatewayClasses topo))"

definition CalculateEffectiveAuthPolicies ::
  "find_cond \<Rightarrow> (string \<Rightarrow> string \<Rightarrow> string) \<Rightarrow> locator_fun \<Rightarrow> 's topo_view \<Rightarrow> 's workflow_state \<Rightarrow>
   (string, 's AuthPolicy EffectivePolicy) gomap go_result" where
  "CalculateEffectiveAuthPolicies findCond nn locator topo st =
     (let httpRouteRules = filter isHTTPRouteRule (tv_Targetables topo);
          grpcRouteRules = filter isGRPCRouteRule (tv_Targetables topo)
      in gfold (addEffectivePolicy (ap_ops locator) (\<lambda>p. asAuthPolicy (pol p)) nn topo
           (isAuthPolicyAcceptedAndNotDeletedFunc findCond locator st)) [] (allPaths topo (httpRouteRules @ grpcRouteRules)))"

definition EffectiveAuthPolicyReconciler_Reconcile ::
  "find_cond \<Rightarrow> (string \<Rightarrow> string \<Rightarrow> string) \<Rightarrow> locator_fun \<Rightarrow> 's topo_view \<Rightarrow> 's workflow_state \<Rightarrow> 's workflow_state go_result" where
  "EffectiveAuthPolicyReconciler_Reconcile findCond nn locator topo st =
     (if \<not> tv_HasKuadrant topo then Return st
      else gbind (CalculateEffectiveAuthPolicies findCond nn locator topo st)
        (\<lambda>effective. Return (st\<lparr>st_EffectiveAuthPolicies := Some effective\<rparr>)))"

definition calculateEffectiveRateLimitPolicies ::
  "find_cond \<Rightarrow> (string \<Rightarrow> string \<Rightarrow> string) \<Rightarrow> locator_fun \<Rightarrow> 's topo_view \<Rightarrow> 's workflow_state \<Rightarrow>
   (string, RateLimitPolicy EffectivePolicy) gomap go_result" where
  "calculateEffectiveRateLimitPolicies findCond nn locator topo st =
     (let httpRouteRules = filter isHTTPRouteRule (tv_Targetables topo);
          grpcRouteRules = filter isGRPCRouteRule (tv_Targetables topo)
      in gfold (addEffectivePolicy (rlp_ops locator) (\<lambda>p. asRateLimitPolicy (pol p)) nn topo
           (isRateLimitPolicyAcceptedAndNotDeletedFunc findCond locator st)) [] (allPaths topo (httpRouteRules @ grpcRouteRules)))"

definition EffectiveRateLimitPolicyReconciler_Reconcile ::
  "find_cond \<Rightarrow> (string \<Rightarrow> string \<Rightarrow> string) \<Rightarrow> locator_fun \<Rightarrow> 's topo_view \<Rightarrow> 's workflow_state \<Rightarrow> 's workflow_state go_result" where
  "EffectiveRateLimitPolicyReconciler_Reconcile findCond nn locator topo st =
     (if \<not> tv_HasKuadrant topo then Return st
      else gbind (calculateEffectiveRateLimitPolicies findCond nn locator topo st)
        (\<lambda>effective. Return (st\<lparr>st_EffectiveRateLimitPolicies := Some effective\<rparr>)))"

definition calculateEffectiveTokenRateLimitPolicies ::
  "find_cond \<Rightarrow> (string \<Rightarrow> string \<Rightarrow> string) \<Rightarrow> locator_fun \<Rightarrow> 's topo_view \<Rightarrow> 's workflow_state \<Rightarrow>
   (string, TokenRateLimitPolicy EffectivePolicy) gomap go_result" where
  "calculateEffectiveTokenRateLimitPolicies findCond nn locator topo st =
     gfold (addEffectivePolicy (trlp_ops locator) (\<lambda>p. asTokenRateLimitPolicy (pol p)) nn topo
       (isTokenRateLimitPolicyAcceptedAndNotDeletedFunc findCond locator st)) []
       (allPaths topo (filter isHTTPRouteRule (tv_Targetables topo)))"

definition EffectiveTokenRateLimitPolicyReconciler_Reconcile ::
  "find_cond \<Rightarrow> (string \<Rightarrow> string \<Rightarrow> string) \<Rightarrow> locator_fun \<Rightarrow> 's topo_view \<Rightarrow> 's workflow_state \<Rightarrow> 's workflow_state go_result" where
  "EffectiveTokenRateLimitPolicyReconciler_Reconcile findCond nn locator topo st =
     (if \<not> tv_HasKuadrant topo then Return st
      else gbind (calculateEffectiveTokenRateLimitPolicies findCond nn locator topo st)
        (\<lambda>effective. Return (st\<lparr>st_EffectiveTokenRateLimitPolicies := Some effective\<rparr>)))"

section \<open>Effective policies, for every type of mergeable policy\<close>

lemma reducePolicies_asT:
  assumes "\<And>q. q \<in> set ps \<Longrightarrow> asT q \<noteq> None"
  shows "reducePolicies ops asT ps init = reducePolicies ops Some (map (\<lambda>q. the (asT q)) ps) init"
  using assms
proof (induction ps)
  case (Cons q ps)
  then obtain p where "asT q = Some p" by fastforce
  with Cons show ?case by (simp add: reducePolicies_def MergePolicy_def)
qed (simp add: reducePolicies_def)

lemma EffectivePolicyForPath_asT:
  assumes "\<And>q. q \<in> set ps \<Longrightarrow> asT q \<noteq> None"
  shows "EffectivePolicyForPath ops asT ps = EffectivePolicyForPath ops Some (map (\<lambda>q. the (asT q)) ps)"
proof (cases "ps = []")
  case False
  then obtain p where p: "asT (last ps) = Some p" using assms by (metis last_in_set not_None_eq)
  with False show ?thesis
    using reducePolicies_asT [of ps asT ops p, OF assms] by (simp add: EffectivePolicyForPath_def last_map)
qed (simp add: EffectivePolicyForPath_def)

lemma set_pathPolicies: "q \<in> set (pathPolicies topo predicate path) \<Longrightarrow> predicate q \<and> (\<exists>t. q \<in> set (tv_PoliciesOf topo t))"
  by (auto simp: pathPolicies_def PoliciesInPath_def)

text \<open>What the effective policies of a list of paths have to be.\<close>

definition effective_for ::
  "('p, 'r) mergeable_ops \<Rightarrow> (string \<Rightarrow> bool) \<Rightarrow> ('s policy_object \<Rightarrow> 'p option) \<Rightarrow> 's topo_view \<Rightarrow>
   ('s policy_object \<Rightarrow> bool) \<Rightarrow> targetable list \<Rightarrow> 'p EffectivePolicy \<Rightarrow> bool" where
  "effective_for ops substantive asT topo predicate path ep \<longleftrightarrow>
     (let ps = map (\<lambda>q. the (asT q)) (pathPolicies topo predicate path)
      in ep_Path ep = path \<and> ps \<noteq> [] \<and> map_of (Rules ops (ep_Spec ep)) = effective_rules ops substantive ps \<and>
         ep_SourcePolicies ep = SourcePoliciesFromEffectivePolicy ops (ep_Spec ep))"

definition effective_map ::
  "('p, 'r) mergeable_ops \<Rightarrow> (string \<Rightarrow> bool) \<Rightarrow> ('s policy_object \<Rightarrow> 'p option) \<Rightarrow> (string \<Rightarrow> string \<Rightarrow> string) \<Rightarrow>
   's topo_view \<Rightarrow> ('s policy_object \<Rightarrow> bool) \<Rightarrow> targetable list list \<Rightarrow> (string, 'p EffectivePolicy) gomap \<Rightarrow> bool" where
  "effective_map ops substantive asT nn topo predicate paths m \<longleftrightarrow> gm_wf m \<and>
     (\<forall>k ep. map_of m k = Some ep \<longrightarrow> ep_Path ep \<in> set paths \<and> k = pathIDOf nn topo (ep_Path ep) \<and>
        effective_for ops substantive asT topo predicate (ep_Path ep) ep) \<and>
     (\<forall>path \<in> set paths. pathPolicies topo predicate path \<noteq> [] \<longrightarrow> map_of m (pathIDOf nn topo path) \<noteq> None)"

context mergeable_policy
begin

lemma addEffectivePolicy_step:
  assumes "\<And>q. q \<in> set (pathPolicies topo predicate path) \<Longrightarrow> \<exists>p. asT q = Some p \<and> pwf p"
  shows "(pathPolicies topo predicate path = [] \<and> addEffectivePolicy ops asT nn topo predicate m path = Return m) \<or>
    (\<exists>ep. addEffectivePolicy ops asT nn topo predicate m path = Return (gm_set (pathIDOf nn topo path) ep m) \<and>
      effective_for ops substantive asT topo predicate path ep)"
proof (cases "pathPolicies topo predicate path = []")
  case True
  then show ?thesis by (simp add: addEffectivePolicy_def EffectivePolicyForPath_def)
next
  case False
  let ?ps = "map (\<lambda>q. the (asT q)) (pathPolicies topo predicate path)"
  have "EffectivePolicyForPath ops asT (pathPolicies topo predicate path) = EffectivePolicyForPath ops Some ?ps"
    by (rule EffectivePolicyForPath_asT) (use assms in fastforce)
  moreover have "\<And>p. p \<in> set ?ps \<Longrightarrow> pwf p" using assms by fastforce
  then obtain e where "EffectivePolicyForPath ops Some ?ps = Return (Some (Some e))"
    "map_of (Rules ops e) = effective_rules ops substantive ?ps"
    using EffectivePolicyForPath_refines [of ?ps] False by auto
  ultimately have "addEffectivePolicy ops asT nn topo predicate m path = Return (gm_set (pathIDOf nn topo path)
      \<lparr>ep_Path = path, ep_Spec = e, ep_SourcePolicies = SourcePoliciesFromEffectivePolicy ops e\<rparr> m)"
    by (simp add: addEffectivePolicy_def)
  moreover have "effective_for ops substantive asT topo predicate path
      \<lparr>ep_Path = path, ep_Spec = e, ep_SourcePolicies = SourcePoliciesFromEffectivePolicy ops e\<rparr>"
    using False \<open>map_of (Rules ops e) = effective_rules ops substantive ?ps\<close> by (simp add: effective_for_def Let_def)
  ultimately show ?thesis by blast
qed

lemma gfold_addEffectivePolicy:
  assumes "\<And>t q. q \<in> set (tv_PoliciesOf topo t) \<Longrightarrow> predicate q \<Longrightarrow> \<exists>p. asT q = Some p \<and> pwf p"
  shows "\<exists>m'. gfold (addEffectivePolicy ops asT nn topo predicate) [] paths = Return m' \<and>
    effective_map ops substantive asT nn topo predicate paths m'"
proof (induction paths rule: rev_induct)
  case Nil
  then show ?case by (simp add: effective_map_def)
next
  case (snoc path paths)
  then obtain m where m: "gfold (addEffectivePolicy ops asT nn topo predicate) [] paths = Return m"
    "effective_map ops substantive asT nn topo predicate paths m" by blast
  have ok: "\<exists>p. asT q = Some p \<and> pwf p" if "q \<in> set (pathPolicies topo predicate path)" for q
    using set_pathPolicies [OF that] assms by blast
  have "(pathPolicies topo predicate path = [] \<and> addEffectivePolicy ops asT nn topo predicate m path = Return m) \<or>
    (\<exists>ep. addEffectivePolicy ops asT nn topo predicate m path = Return (gm_set (pathIDOf nn topo path) ep m) \<and>
      effective_for ops substantive asT topo predicate path ep)"
    by (rule addEffectivePolicy_step) (fact ok)
  then show ?case
  proof (elim disjE conjE exE)
    assume "pathPolicies topo predicate path = []" "addEffectivePolicy ops asT nn topo predicate m path = Return m"
    with m show ?thesis by (auto simp: gfold_append effective_map_def)
  next
    fix ep
    assume ep: "addEffectivePolicy ops asT nn topo predicate m path = Return (gm_set (pathIDOf nn topo path) ep m)"
      "effective_for ops substantive asT topo predicate path ep"
    then have "ep_Path ep = path" by (simp add: effective_for_def Let_def)
    with ep m have "effective_map ops substantive asT nn topo predicate (paths @ [path]) (gm_set (pathIDOf nn topo path) ep m)"
      by (auto simp: effective_map_def split: if_splits)
    with m(1) ep(1) show ?thesis by (simp add: gfold_append)
  qed
qed

end

section \<open>Acceptance after validation\<close>

text \<open>
  What the code relies on: a locator tells the kind of the object (the name of a kind has no
  colon), and a policy of another type has another kind.
\<close>

definition kinds_separate :: "locator_fun \<Rightarrow> bool" where
  "kinds_separate locator \<longleftrightarrow> (\<forall>k k' ns ns' n n'. CHR '':'' \<notin> set k \<longrightarrow> CHR '':'' \<notin> set k' \<longrightarrow>
     locator k ns n = locator k' ns' n' \<longrightarrow> k = k')"

fun policy_ok :: "locator_fun \<Rightarrow> 's machinery_policy \<Rightarrow> bool" where
  "policy_ok locator (AuthPolicyObj p) = ap_wf locator p"
| "policy_ok locator (RateLimitPolicyObj p) = rlp_wf locator p"
| "policy_ok locator (TokenRateLimitPolicyObj p) = trlp_wf locator p"
| "policy_ok locator (OtherPolicyObj kind ns name) \<longleftrightarrow>
     CHR '':'' \<notin> set kind \<and> kind \<notin> {''AuthPolicy'', ''RateLimitPolicy'', ''TokenRateLimitPolicy''}"

lemma locator_of_kind:
  "\<exists>ns n. policy_locator locator p = locator (policy_kind p) ns n"
  by (cases p) (auto simp: AuthPolicy_GetLocator_def RateLimitPolicy_GetLocator_def TokenRateLimitPolicy_GetLocator_def)

lemma kind_no_colon: "policy_ok locator p \<Longrightarrow> CHR '':'' \<notin> set (policy_kind p)"
  by (cases p) auto

lemma same_locator_kind:
  assumes "kinds_separate locator" "policy_locator locator p = policy_locator locator q"
    and "CHR '':'' \<notin> set (policy_kind p)" "CHR '':'' \<notin> set (policy_kind q)"
  shows "policy_kind p = policy_kind q"
  using assms locator_of_kind [of locator p] locator_of_kind [of locator q] unfolding kinds_separate_def by metis

lemma kind_as:
  assumes "policy_ok locator p"
  shows "policy_kind p = ''AuthPolicy'' \<longleftrightarrow> asAuthPolicy p \<noteq> None"
    and "policy_kind p = ''RateLimitPolicy'' \<longleftrightarrow> asRateLimitPolicy p \<noteq> None"
    and "policy_kind p = ''TokenRateLimitPolicy'' \<longleftrightarrow> asTokenRateLimitPolicy p \<noteq> None"
  using assms by (cases p; simp)+

text \<open>The validation results, for policies with different locators.\<close>

definition results_of ::
  "('s policy_object \<Rightarrow> go_error option option) \<Rightarrow> locator_fun \<Rightarrow> 's policy_object list \<Rightarrow> valid_map" where
  "results_of f locator ps =
     foldl (\<lambda>m policy. case f policy of None \<Rightarrow> m | Some err \<Rightarrow> gm_set (policy_locator locator (pol policy)) err m) [] ps"

lemma results_of_lookup:
  assumes "distinct (map (\<lambda>p. policy_locator locator (pol p)) ps)" "p \<in> set ps"
  shows "map_of (results_of f locator ps) (policy_locator locator (pol p)) = f p"
  using assms
proof (induction ps rule: rev_induct)
  case (snoc q ps)
  show ?case
  proof (cases "p = q")
    case True
    have "map_of (results_of f locator ps) k = None" if "k \<notin> (\<lambda>p. policy_locator locator (pol p)) ` set ps" for k
      using that unfolding results_of_def by (induction ps rule: rev_induct) (auto split: option.splits)
    then have "map_of (results_of f locator ps) (policy_locator locator (pol q)) = None"
      using snoc.prems by auto
    with True show ?thesis by (simp add: results_of_def split: option.splits)
  next
    case False
    then have "p \<in> set ps" using snoc.prems by simp
    then have "policy_locator locator (pol p) \<in> (\<lambda>p. policy_locator locator (pol p)) ` set ps" by (rule imageI)
    then have "policy_locator locator (pol p) \<noteq> policy_locator locator (pol q)" using snoc.prems(1) by auto
    with snoc \<open>p \<in> set ps\<close> show ?thesis by (simp add: results_of_def split: option.splits)
  qed
qed simp

lemma results_of_keys:
  "map_of (results_of f locator ps) k = Some err \<Longrightarrow>
    \<exists>p \<in> set ps. policy_locator locator (pol p) = k \<and> f p = Some err"
  unfolding results_of_def by (induction ps rule: rev_induct) (auto split: option.splits if_splits)

lemma Validate_results:
  "st_AuthPolicyValid (AuthPolicyValidator_Validate notFound locator r topo st) =
     Some (results_of (\<lambda>policy. map_option (\<lambda>p. validatePolicy notFound [''Gateway'', ''HTTPRoute'', ''GRPCRoute''] ''AuthPolicy''
       (AuthPolicyValidator_isMissingDependency r) topo policy (AuthPolicy_GetTargetRefs p)) (asAuthPolicy (pol policy)))
       locator (tv_Policies topo))"
  "st_RateLimitPolicyValid (RateLimitPolicyValidator_Validate notFound locator r topo st) =
     Some (results_of (\<lambda>policy. map_option (\<lambda>p. validatePolicy notFound [''Gateway'', ''HTTPRoute'', ''GRPCRoute''] ''RateLimitPolicy''
       (RateLimitPolicyValidator_isMissingDependency r) topo policy [(rlp_TargetRef (rlp_Spec p), rlp_Namespace p)])
       (asRateLimitPolicy (pol policy))) locator (tv_Policies topo))"
  "st_TokenRateLimitPolicyValid (TokenRateLimitPolicyValidator_Validate notFound locator r topo st) =
     Some (results_of (\<lambda>policy. map_option (\<lambda>p. validatePolicy notFound [''Gateway'', ''HTTPRoute''] ''TokenRateLimitPolicy''
       (TokenRateLimitPolicyValidator_isMissingDependency r) topo policy (TokenRateLimitPolicy_GetTargetRefs p))
       (asTokenRateLimitPolicy (pol policy))) locator (tv_Policies topo))"
  unfolding AuthPolicyValidator_Validate_def RateLimitPolicyValidator_Validate_def
    TokenRateLimitPolicyValidator_Validate_def Let_def results_of_def
  by (simp; rule foldl_cong; simp split: option.splits)+

lemma missingDependency_None_iff:
  "missingDependency operator r = None \<longleftrightarrow>
     val_isGatewayAPIInstalled r \<and> val_isGatewayProviderInstalled r \<and> val_isOperatorInstalled r"
  by (simp add: missingDependency_def Let_def)

lemma validatePolicy_None_iff:
  "validatePolicy notFound kinds kind missing topo policy refs = None \<longleftrightarrow>
     missing = None \<and> (refs = [] \<or> tv_Targets topo policy \<noteq> [])"
  by (auto simp: validatePolicy_def Let_def split: option.splits)

lemma validatePolicy_not_IsNotFound:
  "validatePolicy notFound kinds kind (missingDependency operator r) topo policy refs = Some e \<Longrightarrow> \<not> IsNotFound e"
  by (auto simp: validatePolicy_def missingDependency_def Let_def split: option.splits if_splits)

text \<open>An accepted policy is of the kind that was asked for.\<close>

lemma accepted_auth:
  assumes "kinds_separate locator" "policy_ok locator (pol q)"
    and "isAuthPolicyAcceptedAndNotDeletedFunc findCond locator (AuthPolicyValidator_Validate notFound locator r topo st) q"
  shows "\<exists>p. asAuthPolicy (pol q) = Some p \<and> ap_wf locator p"
proof -
  have "asAuthPolicy (pol q) \<noteq> None"
  proof (rule ccontr)
    assume none: "\<not> asAuthPolicy (pol q) \<noteq> None"
    then obtain p where p: "p \<in> set (tv_Policies topo)" "policy_locator locator (pol p) = policy_locator locator (pol q)"
      "asAuthPolicy (pol p) \<noteq> None"
      using assms(3)
      by (auto simp: isAuthPolicyAcceptedAndNotDeletedFunc_def isAuthPolicyAcceptedFunc_def authPolicyAcceptedStatusFunc_def
          authPolicyAcceptedStatus_def Validate_results dest!: results_of_keys split: option.splits)
    then have "policy_kind (pol p) = ''AuthPolicy''" by (cases "pol p") auto
    with same_locator_kind [OF assms(1) p(2)] kind_no_colon [OF assms(2)] have "policy_kind (pol q) = ''AuthPolicy''" by simp
    with kind_as(1) [OF assms(2)] none show False by simp
  qed
  with assms(2) show ?thesis by (cases "pol q") auto
qed

lemma accepted_rlp:
  assumes "kinds_separate locator" "policy_ok locator (pol q)"
    and "isRateLimitPolicyAcceptedAndNotDeletedFunc findCond locator (RateLimitPolicyValidator_Validate notFound locator r topo st) q"
  shows "\<exists>p. asRateLimitPolicy (pol q) = Some p \<and> rlp_wf locator p"
proof -
  have "asRateLimitPolicy (pol q) \<noteq> None"
  proof (rule ccontr)
    assume none: "\<not> asRateLimitPolicy (pol q) \<noteq> None"
    then obtain p where p: "p \<in> set (tv_Policies topo)" "policy_locator locator (pol p) = policy_locator locator (pol q)"
      "asRateLimitPolicy (pol p) \<noteq> None"
      using assms(3)
      by (auto simp: isRateLimitPolicyAcceptedAndNotDeletedFunc_def isRateLimitPolicyAcceptedFunc_def
          rateLimitPolicyAcceptedStatusFunc_def rateLimitPolicyAcceptedStatus_def Validate_results
          dest!: results_of_keys split: option.splits)
    then have "policy_kind (pol p) = ''RateLimitPolicy''" by (cases "pol p") auto
    with same_locator_kind [OF assms(1) p(2)] kind_no_colon [OF assms(2)] have "policy_kind (pol q) = ''RateLimitPolicy''" by simp
    with kind_as(2) [OF assms(2)] none show False by simp
  qed
  with assms(2) show ?thesis by (cases "pol q") auto
qed

lemma accepted_trlp:
  assumes "policy_ok locator (pol q)" "isTokenRateLimitPolicyAcceptedAndNotDeletedFunc findCond locator st q"
  shows "\<exists>p. asTokenRateLimitPolicy (pol q) = Some p \<and> trlp_wf locator p"
  using assms
  by (cases "pol q") (auto simp: isTokenRateLimitPolicyAcceptedAndNotDeletedFunc_def isTokenRateLimitPolicyAcceptedFunc_def)

lemma effective_auth:
  assumes "kinds_separate locator" "\<And>t. list_all (\<lambda>q. policy_ok locator (pol q)) (tv_PoliciesOf topo t)"
    and st': "st' = AuthPolicyValidator_Validate notFound locator r topo st"
  shows "\<exists>m. CalculateEffectiveAuthPolicies findCond nn locator topo st' = Return m \<and>
    effective_map (ap_ops locator) auth_substantive (\<lambda>p. asAuthPolicy (pol p)) nn topo
      (isAuthPolicyAcceptedAndNotDeletedFunc findCond locator st')
      (allPaths topo (filter isHTTPRouteRule (tv_Targetables topo) @ filter isGRPCRouteRule (tv_Targetables topo))) m"
  unfolding CalculateEffectiveAuthPolicies_def Let_def st'
proof (rule ap.gfold_addEffectivePolicy)
  fix t q
  assume q: "q \<in> set (tv_PoliciesOf topo t)"
  have "policy_ok locator (pol q)" using assms(2) [of t] q by (simp add: list_all_iff)
  note accepted_auth [OF assms(1) this]
  then show "isAuthPolicyAcceptedAndNotDeletedFunc findCond locator (AuthPolicyValidator_Validate notFound locator r topo st) q \<Longrightarrow>
      \<exists>p. asAuthPolicy (pol q) = Some p \<and> ap_wf locator p"
    by blast
qed

lemma effective_rlp:
  assumes "kinds_separate locator" "\<And>t. list_all (\<lambda>q. policy_ok locator (pol q)) (tv_PoliciesOf topo t)"
    and st': "st' = RateLimitPolicyValidator_Validate notFound locator r topo st"
  shows "\<exists>m. calculateEffectiveRateLimitPolicies findCond nn locator topo st' = Return m \<and>
    effective_map (rlp_ops locator) rlp_substantive (\<lambda>p. asRateLimitPolicy (pol p)) nn topo
      (isRateLimitPolicyAcceptedAndNotDeletedFunc findCond locator st')
      (allPaths topo (filter isHTTPRouteRule (tv_Targetables topo) @ filter isGRPCRouteRule (tv_Targetables topo))) m"
  unfolding calculateEffectiveRateLimitPolicies_def Let_def st'
proof (rule rlp.gfold_addEffectivePolicy)
  fix t q
  assume q: "q \<in> set (tv_PoliciesOf topo t)"
  have "policy_ok locator (pol q)" using assms(2) [of t] q by (simp add: list_all_iff)
  note accepted_rlp [OF assms(1) this]
  then show "isRateLimitPolicyAcceptedAndNotDeletedFunc findCond locator (RateLimitPolicyValidator_Validate notFound locator r topo st) q \<Longrightarrow>
      \<exists>p. asRateLimitPolicy (pol q) = Some p \<and> rlp_wf locator p"
    by blast
qed

lemma effective_trlp:
  assumes "\<And>t. list_all (\<lambda>q. policy_ok locator (pol q)) (tv_PoliciesOf topo t)"
  shows "\<exists>m. calculateEffectiveTokenRateLimitPolicies findCond nn locator topo st = Return m \<and>
    effective_map (trlp_ops locator) trlp_substantive (\<lambda>p. asTokenRateLimitPolicy (pol p)) nn topo
      (isTokenRateLimitPolicyAcceptedAndNotDeletedFunc findCond locator st)
      (allPaths topo (filter isHTTPRouteRule (tv_Targetables topo))) m"
  unfolding calculateEffectiveTokenRateLimitPolicies_def
proof (rule trlp.gfold_addEffectivePolicy)
  fix t q
  assume q: "q \<in> set (tv_PoliciesOf topo t)"
  have "policy_ok locator (pol q)" using assms(1) [of t] q by (simp add: list_all_iff)
  note accepted_trlp [OF this]
  then show "isTokenRateLimitPolicyAcceptedAndNotDeletedFunc findCond locator st q \<Longrightarrow>
      \<exists>p. asTokenRateLimitPolicy (pol q) = Some p \<and> trlp_wf locator p"
    by blast
qed

section \<open>A topology\<close>

definition ex_obj :: "'s machinery_policy \<Rightarrow> 's policy_object" where
  "ex_obj p = \<lparr>pol = p, pol_Conditions = [], pol_Generation = 1, pol_ObservedGeneration = 0, pol_Deleted = False\<rparr>"

definition ex_installed :: validator where
  "ex_installed = \<lparr>val_isGatewayAPIInstalled = True, val_isGatewayProviderInstalled = True, val_isOperatorInstalled = True\<rparr>"

definition ex_gc :: GatewayClass where "ex_gc = \<lparr>gc_Name = ''istio''\<rparr>"

definition ex_rule_of :: "string \<Rightarrow> 'm TopoRouteRule" where
  "ex_rule_of name = \<lparr>trr_Name = name, trr_Matches = [], trr_Route = None\<rparr>"

text \<open>
  A gateway class and two route rules with the same namespace and name, one of an HTTP route and
  one of a gRPC route; an auth policy of the topology is attached to the HTTP rule only.
\<close>

definition ex_http_rule :: targetable where "ex_http_rule = THTTPRouteRule (Some (ex_rule_of ''toys#rule-1''))"
definition ex_grpc_rule :: targetable where "ex_grpc_rule = TGRPCRouteRule (Some (ex_rule_of ''toys#rule-1''))"

fun ex_name_of :: "targetable \<Rightarrow> string \<times> string" where
  "ex_name_of (TGatewayClass (Some g)) = ([], gc_Name g)"
| "ex_name_of (THTTPRouteRule (Some r)) = (''ns'', trr_Name r)"
| "ex_name_of (TGRPCRouteRule (Some r)) = (''ns'', trr_Name r)"
| "ex_name_of _ = ([], [])"

fun ex_policies_of :: "targetable \<Rightarrow> string policy_object list" where
  "ex_policies_of (TGatewayClass x) = [ex_obj (AuthPolicyObj ex_gateway_ap)]"
| "ex_policies_of (THTTPRouteRule x) = [ex_obj (AuthPolicyObj ex_route_ap), ex_obj (RateLimitPolicyObj ex_route_rlp)]"
| "ex_policies_of _ = []"

definition ex_topo :: "string topo_view" where
  "ex_topo = \<lparr>tv_Policies = [ex_obj (AuthPolicyObj ex_gateway_ap), ex_obj (AuthPolicyObj ex_route_ap),
       ex_obj (RateLimitPolicyObj ex_route_rlp), ex_obj (TokenRateLimitPolicyObj ex_route_trlp)],
     tv_Targets = (\<lambda>_. [ex_http_rule]), tv_HasKuadrant = True, tv_GatewayClasses = [TGatewayClass (Some ex_gc)],
     tv_Targetables = [TGatewayClass (Some ex_gc), ex_http_rule, ex_grpc_rule],
     tv_Paths = (\<lambda>a b. [[a, b]]), tv_PoliciesOf = ex_policies_of, tv_CreatedBefore = (\<lambda>_ _. False),
     tv_NameOf = ex_name_of\<rparr>"

definition ex_state :: "string workflow_state" where
  "ex_state = \<lparr>st_AuthPolicyValid = None, st_RateLimitPolicyValid = None, st_TokenRateLimitPolicyValid = None,
     st_EffectiveAuthPolicies = None, st_EffectiveRateLimitPolicies = None, st_EffectiveTokenRateLimitPolicies = None\<rparr>"

definition ex_nn :: "string \<Rightarrow> string \<Rightarrow> string" where "ex_nn ns name = ns @ ''/'' @ name"

definition ex_find :: find_cond where
  "ex_find conds ty = List.find (\<lambda>c. cond_Type c = ty) conds"

lemma ex_kinds_separate: "kinds_separate ex_locator"
  unfolding kinds_separate_def ex_locator_def
proof (intro allI impI)
  fix k k' ns ns' n n' :: string
  assume k: "CHR '':'' \<notin> set k" "CHR '':'' \<notin> set k'"
    and "k @ '':'' @ ns @ ''/'' @ n = k' @ '':'' @ ns' @ ''/'' @ n'"
  then have "SplitN2 (k @ CHR '':'' # ns @ ''/'' @ n) CHR '':'' = SplitN2 (k' @ CHR '':'' # ns' @ ''/'' @ n') CHR '':''"
    by simp
  with k show "k = k'" by (simp add: SplitN2_hash)
qed

lemma ex_policies_ok: "list_all (\<lambda>q. policy_ok ex_locator (pol q)) (tv_PoliciesOf ex_topo t)"
  by (cases t) (simp_all add: ex_topo_def ex_obj_def ex_ap_wf ex_rlp_wf)



lemma validation_auth:
  assumes "distinct (map (\<lambda>p. policy_locator locator (pol p)) (tv_Policies topo))" "p \<in> set (tv_Policies topo)"
    and "asAuthPolicy (pol p) = Some a"
  shows "isAuthPolicyAcceptedFunc findCond locator (AuthPolicyValidator_Validate notFound locator r topo st) p =
    (val_isGatewayAPIInstalled r \<and> val_isGatewayProviderInstalled r \<and> val_isOperatorInstalled r \<and> tv_Targets topo p \<noteq> [])"
  using assms(3) results_of_lookup [OF assms(1,2)]
  by (simp add: isAuthPolicyAcceptedFunc_def authPolicyAcceptedStatusFunc_def Validate_results
      AuthPolicyValidator_isMissingDependency_def validatePolicy_None_iff missingDependency_None_iff AuthPolicy_GetTargetRefs_def)

lemma validation_rlp:
  assumes "distinct (map (\<lambda>p. policy_locator locator (pol p)) (tv_Policies topo))" "p \<in> set (tv_Policies topo)"
    and "asRateLimitPolicy (pol p) = Some a"
  shows "isRateLimitPolicyAcceptedFunc findCond locator (RateLimitPolicyValidator_Validate notFound locator r topo st) p =
    (val_isGatewayAPIInstalled r \<and> val_isGatewayProviderInstalled r \<and> val_isOperatorInstalled r \<and> tv_Targets topo p \<noteq> [])"
  using assms(3) results_of_lookup [OF assms(1,2)]
  by (simp add: isRateLimitPolicyAcceptedFunc_def rateLimitPolicyAcceptedStatusFunc_def Validate_results
      RateLimitPolicyValidator_isMissingDependency_def validatePolicy_None_iff missingDependency_None_iff)

text \<open>
  An error of a validator is a policy error, so that the disjunct \<open>apierrors.IsNotFound(err)\<close>
  never accepts a token rate limit policy without a target.
\<close>

lemma validation_trlp:
  assumes "distinct (map (\<lambda>p. policy_locator locator (pol p)) (tv_Policies topo))" "p \<in> set (tv_Policies topo)"
    and "asTokenRateLimitPolicy (pol p) = Some a"
  shows "isTokenRateLimitPolicyAcceptedFunc findCond locator (TokenRateLimitPolicyValidator_Validate notFound locator r topo st) p =
    (val_isGatewayAPIInstalled r \<and> val_isGatewayProviderInstalled r \<and> val_isOperatorInstalled r \<and> tv_Targets topo p \<noteq> [])"
proof -
  let ?e = "validatePolicy notFound [''Gateway'', ''HTTPRoute''] ''TokenRateLimitPolicy''
      (missingDependency ''Limitador Operator'' r) topo p (TokenRateLimitPolicy_GetTargetRefs a)"
  have "isTokenRateLimitPolicyAcceptedFunc findCond locator (TokenRateLimitPolicyValidator_Validate notFound locator r topo st) p =
      (case ?e of None \<Rightarrow> True | Some e \<Rightarrow> IsNotFound e)"
    using assms(3) results_of_lookup [OF assms(1,2)]
    by (simp add: isTokenRateLimitPolicyAcceptedFunc_def tokenRateLimitPolicyAcceptedStatusFunc_def Validate_results
        TokenRateLimitPolicyValidator_isMissingDependency_def)
  also have "\<dots> \<longleftrightarrow> ?e = None"
    using validatePolicy_not_IsNotFound by (fastforce split: option.splits)
  finally show ?thesis
    by (simp add: validatePolicy_None_iff missingDependency_None_iff TokenRateLimitPolicy_GetTargetRefs_def)
qed

text \<open>
  Validation decides acceptance: a policy of the topology is accepted exactly when the
  operators it needs are installed and its target exists, whatever its stored conditions say.
\<close>

theorem validation_decides:
  assumes "distinct (map (\<lambda>p. policy_locator locator (pol p)) (tv_Policies topo))" "p \<in> set (tv_Policies topo)"
  shows "(if asAuthPolicy (pol p) \<noteq> None
      then isAuthPolicyAcceptedFunc findCond locator (AuthPolicyValidator_Validate notFound locator r topo st) p =
        (val_isGatewayAPIInstalled r \<and> val_isGatewayProviderInstalled r \<and> val_isOperatorInstalled r \<and> tv_Targets topo p \<noteq> [])
      else if asRateLimitPolicy (pol p) \<noteq> None
      then isRateLimitPolicyAcceptedFunc findCond locator (RateLimitPolicyValidator_Validate notFound locator r topo st) p =
        (val_isGatewayAPIInstalled r \<and> val_isGatewayProviderInstalled r \<and> val_isOperatorInstalled r \<and> tv_Targets topo p \<noteq> [])
      else isTokenRateLimitPolicyAcceptedFunc findCond locator (TokenRateLimitPolicyValidator_Validate notFound locator r topo st) p =
        (asTokenRateLimitPolicy (pol p) \<noteq> None \<and>
         val_isGatewayAPIInstalled r \<and> val_isGatewayProviderInstalled r \<and> val_isOperatorInstalled r \<and> tv_Targets topo p \<noteq> []))"
proof (cases "pol p")
  case (OtherPolicyObj k ns n)
  then show ?thesis by (simp add: isTokenRateLimitPolicyAcceptedFunc_def)
qed (use validation_auth [OF assms] validation_rlp [OF assms] validation_trlp [OF assms] in simp_all)

theorem validation_decides_witness:
  "isAuthPolicyAcceptedFunc ex_find ex_locator
     (AuthPolicyValidator_Validate (\<lambda>_ _. []) ex_locator ex_installed ex_topo ex_state) (ex_obj (AuthPolicyObj ex_route_ap))"
proof -
  have "distinct (map (\<lambda>p. policy_locator ex_locator (pol p)) (tv_Policies ex_topo))" by code_simp
  moreover have "ex_obj (AuthPolicyObj ex_route_ap) \<in> set (tv_Policies ex_topo)" by (simp add: ex_topo_def)
  moreover have "asAuthPolicy (pol (ex_obj (AuthPolicyObj ex_route_ap))) \<noteq> None" by (simp add: ex_obj_def)
  moreover have "tv_Targets ex_topo p \<noteq> []" for p by (simp add: ex_topo_def)
  ultimately show ?thesis
    using validation_decides [of ex_locator ex_topo "ex_obj (AuthPolicyObj ex_route_ap)" ex_find "\<lambda>_ _. []" ex_installed ex_state]
    by (simp add: ex_installed_def)
qed

text \<open>
  The identifier of a path is made of names only.  A rule of an HTTP route and a rule of a gRPC
  route with the same namespace and name give the same identifier, and one entry of the
  effective policies overwrites the other.
\<close>

lemma path_ids_collide:
  "pathIDOf ex_nn ex_topo [TGatewayClass (Some ex_gc), ex_http_rule] =
     pathIDOf ex_nn ex_topo [TGatewayClass (Some ex_gc), ex_grpc_rule]"
  by (simp add: pathIDOf_def ex_topo_def ex_http_rule_def ex_grpc_rule_def ex_rule_of_def)

end
