(* ===== verification/Wasm_JSON.thy ===== *)
theory Wasm_JSON
  imports Go_Prelude
begin

text \<open>
  What the operator uses of \<open>encoding/json\<close>, on the level of JSON values: strings are valid
  UTF-8, so that writing and reading a string gives it back.

  Reading a struct goes through the members of the object in order; a member whose name equals a
  field's name up to case sets the field, so the last one wins, an unknown member is skipped, and
  \<open>null\<close> leaves the field as it is.  A member of the wrong type is an error.
\<close>

datatype json = JNull | JBool bool | JNum int | JStr string | JArr "json list" | JObj "(string \<times> json) list"

datatype json_error = JsonTypeError | JsonUnknownField string | JsonUnknownAction string | JsonUnknownValue | JsonNilConfig

type_synonym 'a decoded = "json_error + 'a"

definition EqualFold :: "string \<Rightarrow> string \<Rightarrow> bool" where
  "EqualFold a b \<longleftrightarrow> ToLower a = ToLower b"

section \<open>Reading\<close>

type_synonym 'a decoder = "'a \<Rightarrow> json \<Rightarrow> 'a decoded"

fun decStr :: "string decoder" where
  "decStr old (JStr s) = Inr s"
| "decStr old JNull = Inr old"
| "decStr old _ = Inl JsonTypeError"

fun decBool :: "bool decoder" where
  "decBool old (JBool b) = Inr b"
| "decBool old JNull = Inr old"
| "decBool old _ = Inl JsonTypeError"

text \<open>A pointer: \<open>null\<close> makes it nil.\<close>

definition decPtr :: "'a \<Rightarrow> 'a decoder \<Rightarrow> 'a option decoder" where
  "decPtr zero dec old v = (if v = JNull then Inr None
     else ebind (dec (Deref old zero) v) (\<lambda>x. Inr (Some x)))"

text \<open>A slice: \<open>null\<close> makes it nil, an array replaces the contents.\<close>

fun decSlice :: "'a \<Rightarrow> 'a decoder \<Rightarrow> 'a list option decoder" where
  "decSlice zero dec old (JArr vs) = ebind (etraverse (dec zero) vs) (\<lambda>xs. Inr (Some xs))"
| "decSlice zero dec old JNull = Inr None"
| "decSlice zero dec old _ = Inl JsonTypeError"

text \<open>Raw messages keep the value.\<close>

definition decRaw :: "json decoder" where
  "decRaw old v = Inr v"

fun decMap :: "'a \<Rightarrow> 'a decoder \<Rightarrow> (string, 'a) gomap option decoder" where
  "decMap zero dec old (JObj ms) =
     ebind (etraverse (\<lambda>(k, v). ebind (dec zero v) (\<lambda>x. Inr (k, x))) ms)
       (\<lambda>es. Inr (Some (foldl (\<lambda>m (k, x). gm_set k x m) (Deref old []) es)))"
| "decMap zero dec old JNull = Inr None"
| "decMap zero dec old _ = Inl JsonTypeError"

fun decFieldStep :: "string \<Rightarrow> 'a decoder \<Rightarrow> 'a decoded \<Rightarrow> string \<times> json \<Rightarrow> 'a decoded" where
  "decFieldStep name dec acc (k, v) = ebind acc (\<lambda>x. if EqualFold k name then dec x v else Inr x)"

definition decField :: "string \<Rightarrow> 'a decoder \<Rightarrow> 'a \<Rightarrow> (string \<times> json) list \<Rightarrow> 'a decoded" where
  "decField name dec init ms = foldl (decFieldStep name dec) (Inr init) ms"

text \<open>The members of the value a struct is read from.\<close>

fun members :: "json \<Rightarrow> (string \<times> json) list decoded" where
  "members (JObj ms) = Inr ms"
| "members JNull = Inr []"
| "members _ = Inl JsonTypeError"

text \<open>\<open>DisallowUnknownFields\<close>.\<close>

fun onlyFields :: "string list \<Rightarrow> (string \<times> json) list \<Rightarrow> unit decoded" where
  "onlyFields names [] = Inr ()"
| "onlyFields names ((k, v) # ms) =
     (if list_ex (EqualFold k) names then onlyFields names ms else Inl (JsonUnknownField k))"

section \<open>Writing\<close>

text \<open>Members of fields tagged \<open>omitempty\<close>.\<close>

definition omitStr :: "string \<Rightarrow> string \<Rightarrow> (string \<times> json) list" where
  "omitStr k s = (if s = [] then [] else [(k, JStr s)])"

definition omitBool :: "string \<Rightarrow> bool \<Rightarrow> (string \<times> json) list" where
  "omitBool k b = (if b then [(k, JBool True)] else [])"

definition omitPtr :: "string \<Rightarrow> ('a \<Rightarrow> json) \<Rightarrow> 'a option \<Rightarrow> (string \<times> json) list" where
  "omitPtr k enc p = (case p of None \<Rightarrow> [] | Some x \<Rightarrow> [(k, enc x)])"

definition omitSlice :: "string \<Rightarrow> ('a \<Rightarrow> json) \<Rightarrow> 'a list \<Rightarrow> (string \<times> json) list" where
  "omitSlice k enc xs = (if xs = [] then [] else [(k, JArr (map enc xs))])"

text \<open>A slice or map of a field without \<open>omitempty\<close>: nil is \<open>null\<close>.\<close>

definition encSlice :: "('a \<Rightarrow> json) \<Rightarrow> 'a list option \<Rightarrow> json" where
  "encSlice enc xs = (case xs of None \<Rightarrow> JNull | Some xs \<Rightarrow> JArr (map enc xs))"

definition encMap :: "('a \<Rightarrow> json) \<Rightarrow> (string, 'a) gomap option \<Rightarrow> json" where
  "encMap enc m = (case m of None \<Rightarrow> JNull
     | Some m \<Rightarrow> JObj (map (\<lambda>(k, x). (k, enc x)) (go_sort (\<lambda>a b. string_less (fst a) (fst b)) m)))"

section \<open>Reading back what was written\<close>

lemma foldl_decFieldStep_Inl: "foldl (decFieldStep name dec) (Inl e) ms = Inl e"
  by (induction ms) auto

lemma decField_append:
  "decField name dec init (ms @ ms') = ebind (decField name dec init ms) (\<lambda>x. decField name dec x ms')"
  by (cases "decField name dec init ms") (auto simp: decField_def foldl_decFieldStep_Inl)

lemma decField_Nil [simp]: "decField name dec init [] = Inr init"
  by (simp add: decField_def)

lemma decField_Cons:
  "decField name dec init ((k, v) # ms) =
     (if EqualFold k name then ebind (dec init v) (\<lambda>x. decField name dec x ms) else decField name dec init ms)"
  by (cases "dec init v") (auto simp: decField_def foldl_decFieldStep_Inl)

lemma decField_skip:
  "list_all (\<lambda>(k, v). \<not> EqualFold k name) ms \<Longrightarrow> decField name dec init ms = Inr init"
  by (induction ms) (auto simp: decField_Cons)

lemma decField_omitStr:
  "decField name decStr init (omitStr k s @ ms) =
     decField name decStr (if EqualFold k name \<and> s \<noteq> [] then s else init) ms"
  by (simp add: omitStr_def decField_Cons)

lemma decField_omitBool:
  "decField name decBool init (omitBool k b @ ms) =
     decField name decBool (if EqualFold k name \<and> b then b else init) ms"
  by (simp add: omitBool_def decField_Cons)

text \<open>Segments of other fields do not matter.\<close>

lemma decField_other:
  assumes "\<not> EqualFold k name"
  shows "decField name dec init (omitStr k s @ ms) = decField name dec init ms"
    and "decField name dec init (omitBool k b @ ms) = decField name dec init ms"
    and "decField name dec init (omitPtr k enc p @ ms) = decField name dec init ms"
    and "decField name dec init (omitSlice k enc' xs @ ms) = decField name dec init ms"
    and "decField name dec init ((k, v) # ms) = decField name dec init ms"
  using assms by (auto simp: omitStr_def omitBool_def omitPtr_def omitSlice_def decField_Cons split: option.splits)

lemma decField_same:
  assumes "EqualFold k name"
  shows "decField name decStr [] (omitStr k s @ ms) = decField name decStr s ms"
    and "decField name decBool False (omitBool k b @ ms) = decField name decBool b ms"
    and "decField name decStr old ((k, JStr s) # ms) = decField name decStr s ms"
    and "decField name decBool old' ((k, JBool b) # ms) = decField name decBool b ms"
  using assms by (auto simp: omitStr_def omitBool_def decField_Cons)

lemma decSlice_enc:
  assumes "\<And>x. x \<in> set xs \<Longrightarrow> dec zero (enc x) = Inr x"
  shows "decSlice zero dec old (JArr (map enc xs)) = Inr (Some xs)"
  using assms by (simp add: etraverse_map comp_def cong: etraverse_cong)

lemma decSlice_encSlice:
  "(\<And>x. x \<in> set (Deref xs []) \<Longrightarrow> dec zero (enc x) = Inr x) \<Longrightarrow>
    decSlice zero dec old (encSlice enc xs) = Inr xs"
  by (cases xs) (simp_all add: encSlice_def decSlice_enc del: decSlice.simps(1))

lemma decField_omitSlice:
  assumes "EqualFold k name" "\<And>x. x \<in> set xs \<Longrightarrow> dec zero (enc x) = Inr x"
  shows "decField name (decSlice zero dec) None (omitSlice k enc xs @ ms) =
    decField name (decSlice zero dec) (if xs = [] then None else Some xs) ms"
  using assms by (simp add: omitSlice_def decField_Cons decSlice_enc del: decSlice.simps(1))

lemma decField_omitPtr:
  assumes "EqualFold k name" "\<And>x. p = Some x \<Longrightarrow> dec zero (enc x) = Inr x \<and> enc x \<noteq> JNull"
  shows "decField name (decPtr zero dec) None (omitPtr k enc p @ ms) = decField name (decPtr zero dec) p ms"
  using assms by (cases p) (auto simp: omitPtr_def decField_Cons decPtr_def)

text \<open>The last segment of an object.\<close>

lemma decField_last:
  "\<not> EqualFold k name \<Longrightarrow> decField name dec init (omitStr k s) = Inr init"
  "\<not> EqualFold k name \<Longrightarrow> decField name dec init (omitPtr k enc p) = Inr init"
  "\<not> EqualFold k name \<Longrightarrow> decField name dec init (omitSlice k enc' xs) = Inr init"
  "EqualFold k name \<Longrightarrow> decField name decStr [] (omitStr k s) = Inr s"
  "EqualFold k name \<Longrightarrow> (\<And>x. p = Some x \<Longrightarrow> dec' zero (enc x) = Inr x \<and> enc x \<noteq> JNull) \<Longrightarrow>
     decField name (decPtr zero dec') None (omitPtr k enc p) = Inr p"
  "EqualFold k name \<Longrightarrow> (\<And>x. x \<in> set xs \<Longrightarrow> dec'' zero' (enc' x) = Inr x) \<Longrightarrow>
     decField name (decSlice zero' dec'') None (omitSlice k enc' xs) = Inr (if xs = [] then None else Some xs)"
  by (auto simp: omitStr_def omitPtr_def omitSlice_def decField_Cons decPtr_def decSlice_enc
      simp del: decSlice.simps(1) split: option.splits)

lemma decMap_encMap:
  assumes "\<And>k x. (k, x) \<in> set (Deref m []) \<Longrightarrow> dec zero (enc x) = Inr x"
  shows "\<exists>m'. decMap zero dec None (encMap enc m) = Inr m' \<and> (m' = None \<longleftrightarrow> m = None) \<and>
    (gm_wf (Deref m []) \<longrightarrow> map_of (Deref m' []) = map_of (Deref m [])) \<and> gm_wf (Deref m' [])"
proof (cases m)
  case None
  then show ?thesis by (simp add: encMap_def)
next
  case (Some es)
  define es' where "es' = go_sort (\<lambda>a b. string_less (fst a) (fst b)) es"
  have "etraverse (\<lambda>(k, v). ebind (dec zero v) (\<lambda>x. Inr (k, x))) (map (\<lambda>(k, x). (k, enc x)) es') = Inr es'"
    using assms Some by (auto simp: etraverse_eq_Inr list_all2_map1 list_all2_same es'_def)
  moreover have "map_of (foldl (\<lambda>m (k, x). gm_set k x m) [] es') = map_of es" if "gm_wf es"
  proof -
    have wf: "gm_wf es'" using that by (metis es'_def mset_go_sort mset_map mset_eq_imp_distinct_iff)
    then have "foldl (\<lambda>m (k, x). gm_set k x m) [] es' = es'"
      using foldl_gm_set [of es' "[]" "\<lambda>k v. v"] by simp
    moreover have "map_of es' = map_of es"
      using wf that by (intro map_of_inject_set [THEN iffD2]) (simp_all add: es'_def)
    ultimately show ?thesis by simp
  qed
  moreover have "gm_wf (foldl (\<lambda>m (k, x). gm_set k x m) m es')" if "gm_wf m" for m
    using that by (induction es' arbitrary: m) auto
  ultimately show ?thesis
    using Some by (simp add: encMap_def es'_def [symmetric])
qed

end
