(* ===== verification/Wasm_Types.thy ===== *)
theory Wasm_Types
  imports Wasm_JSON
begin

text \<open>
  The configuration that the operator hands to the wasm plugin of the gateway
  (\<open>internal/wasm/types.go\<close>): its data, the equality that decides whether the configuration in
  the cluster must be replaced, and its JSON form.

  A slice or map whose field is tagged \<open>omitempty\<close> is a list; where the field has no such tag,
  nil and empty differ on the wire and the field is an \<open>option\<close>.
\<close>

section \<open>Data\<close>

record ActionBase =
  ab_Predicate :: string
  ab_Terminal :: bool
  ab_IsGuard :: bool
  ab_Execution :: string
  ab_SourcePolicyLocators :: "string list"

abbreviation ExecutionSequential :: string where "ExecutionSequential \<equiv> ''sequential''"
abbreviation ExecutionParallel :: string where "ExecutionParallel \<equiv> ''parallel''"
abbreviation HeaderTargetRequest :: string where "HeaderTargetRequest \<equiv> ''request''"
abbreviation HeaderTargetResponse :: string where "HeaderTargetResponse \<equiv> ''response''"

datatype Action =
    GrpcAction ActionBase (grpc_Var: string) (grpc_Service: string) (grpc_Label: string)
      (grpc_MessageBuilder: string) (grpc_OnReply: "Action list")
  | DenyAction ActionBase (deny_DenyWith: string)
  | HeadersAction ActionBase (headers_Target: string) (headers_Headers: string)
  | StoreAction ActionBase (store_Path: string) (store_Value: string) (store_ExportToHost: bool)
  | FailAction ActionBase (fail_LogMessage: string)

fun ActionType :: "Action \<Rightarrow> string" where
  "ActionType (GrpcAction b v s l m rs) = ''grpc''"
| "ActionType (DenyAction b d) = ''deny''"
| "ActionType (HeadersAction b t h) = ''headers''"
| "ActionType (StoreAction b p v e) = ''store''"
| "ActionType (FailAction b m) = ''fail''"

fun Action_Base :: "Action \<Rightarrow> ActionBase" where
  "Action_Base (GrpcAction b v s l m rs) = b"
| "Action_Base (DenyAction b d) = b"
| "Action_Base (HeadersAction b t h) = b"
| "Action_Base (StoreAction b p v e) = b"
| "Action_Base (FailAction b m) = b"

text \<open>A write through the pointer that \<open>Base()\<close> returns.\<close>

fun Action_withBase :: "(ActionBase \<Rightarrow> ActionBase) \<Rightarrow> Action \<Rightarrow> Action" where
  "Action_withBase f (GrpcAction b v s l m rs) = GrpcAction (f b) v s l m rs"
| "Action_withBase f (DenyAction b d) = DenyAction (f b) d"
| "Action_withBase f (HeadersAction b t h) = HeadersAction (f b) t h"
| "Action_withBase f (StoreAction b p v e) = StoreAction (f b) p v e"
| "Action_withBase f (FailAction b m) = FailAction (f b) m"

record RouteRuleConditions =
  rrc_Hostnames :: "string list option"
  rrc_Predicates :: "string list"

record ActionSet =
  as_Name :: string
  as_RouteRuleConditions :: RouteRuleConditions
  as_Actions :: "Action list"
  as_SourceRoute :: string

record Service =
  svc_Endpoint :: string
  svc_Type :: string
  svc_FailureMode :: string
  svc_Timeout :: "string option"
  svc_GrpcService :: "string option"
  svc_GrpcMethod :: "string option"

record Tracing =
  tr_Service :: string

record Observability =
  obs_HTTPHeaderIdentifier :: "string option"
  obs_DefaultLevel :: "string option"
  obs_Tracing :: "Tracing option"

record Config =
  cfg_Services :: "(string, Service) gomap option"
  cfg_ActionSets :: "ActionSet list option"
  cfg_Observability :: "Observability option"
  cfg_DescriptorService :: string

section \<open>Equality\<close>

definition equalBase :: "ActionBase \<Rightarrow> ActionBase \<Rightarrow> bool" where
  "equalBase b other \<longleftrightarrow> ab_Predicate b = ab_Predicate other \<and> ab_Terminal b = ab_Terminal other \<and>
     ab_IsGuard b = ab_IsGuard other \<and> ab_Execution b = ab_Execution other \<and>
     ab_SourcePolicyLocators b = ab_SourcePolicyLocators other"

fun Action_EqualTo :: "Action \<Rightarrow> Action \<Rightarrow> bool"
and Actions_loop :: "Action list \<Rightarrow> Action list \<Rightarrow> bool" where
  "Action_EqualTo (GrpcAction b v s l m rs) other = (case other of GrpcAction b' v' s' l' m' rs' \<Rightarrow>
     if \<not> equalBase b b' \<or> v \<noteq> v' \<or> s \<noteq> s' \<or> l \<noteq> l' \<or> m \<noteq> m' \<or> length rs \<noteq> length rs' then False
     else Actions_loop rs rs' | _ \<Rightarrow> False)"
| "Action_EqualTo (DenyAction b d) other = (case other of DenyAction b' d' \<Rightarrow>
     equalBase b b' \<and> d = d' | _ \<Rightarrow> False)"
| "Action_EqualTo (HeadersAction b t h) other = (case other of HeadersAction b' t' h' \<Rightarrow>
     equalBase b b' \<and> t = t' \<and> h = h' | _ \<Rightarrow> False)"
| "Action_EqualTo (StoreAction b p v e) other = (case other of StoreAction b' p' v' e' \<Rightarrow>
     equalBase b b' \<and> p = p' \<and> v = v' \<and> e = e' | _ \<Rightarrow> False)"
| "Action_EqualTo (FailAction b m) other = (case other of FailAction b' m' \<Rightarrow>
     equalBase b b' \<and> m = m' | _ \<Rightarrow> False)"
| "Actions_loop [] ys = True"
| "Actions_loop (x # xs) ys = (case ys of [] \<Rightarrow> False
     | y # ys' \<Rightarrow> if \<not> Action_EqualTo x y then False else Actions_loop xs ys')"

definition RouteRuleConditions_EqualTo :: "RouteRuleConditions \<Rightarrow> RouteRuleConditions \<Rightarrow> bool" where
  "RouteRuleConditions_EqualTo r other =
     (let rh = Deref (rrc_Hostnames r) []; oh = Deref (rrc_Hostnames other) [] in
      if length rh \<noteq> length oh \<or> length (rrc_Predicates r) \<noteq> length (rrc_Predicates other) then False
      else list_all (\<lambda>i. rh ! i = oh ! i) [0..<length rh] \<and>
        list_all (\<lambda>i. rrc_Predicates r ! i = rrc_Predicates other ! i) [0..<length (rrc_Predicates r)])"

definition ActionSet_EqualTo :: "ActionSet \<Rightarrow> ActionSet \<Rightarrow> bool" where
  "ActionSet_EqualTo s other =
     (if as_Name s \<noteq> as_Name other \<or>
         \<not> RouteRuleConditions_EqualTo (as_RouteRuleConditions s) (as_RouteRuleConditions other) \<or>
         length (as_Actions s) \<noteq> length (as_Actions other) then False
      else Actions_loop (as_Actions s) (as_Actions other))"

text \<open>The test that the source writes out for each optional string.\<close>

definition ptrDiffers :: "'a option \<Rightarrow> 'a option \<Rightarrow> bool" where
  "ptrDiffers p q \<longleftrightarrow> ((p = None) \<noteq> (q = None)) \<or> (p \<noteq> None \<and> q \<noteq> None \<and> the p \<noteq> the q)"

definition Service_EqualTo :: "Service \<Rightarrow> Service \<Rightarrow> bool" where
  "Service_EqualTo s other =
     (if svc_Endpoint s \<noteq> svc_Endpoint other \<or> svc_Type s \<noteq> svc_Type other \<or>
         svc_FailureMode s \<noteq> svc_FailureMode other \<or>
         ptrDiffers (svc_Timeout s) (svc_Timeout other) \<or>
         ptrDiffers (svc_GrpcService s) (svc_GrpcService other) \<or>
         ptrDiffers (svc_GrpcMethod s) (svc_GrpcMethod other) then False
      else True)"

definition Tracing_EqualTo :: "Tracing option \<Rightarrow> Tracing option \<Rightarrow> bool" where
  "Tracing_EqualTo t other = (case (t, other) of (None, None) \<Rightarrow> True
     | (Some t, Some other) \<Rightarrow> tr_Service t = tr_Service other | _ \<Rightarrow> False)"

definition Observability_EqualTo :: "Observability option \<Rightarrow> Observability option \<Rightarrow> bool" where
  "Observability_EqualTo ob other = (case (ob, other) of (None, None) \<Rightarrow> True
     | (Some ob, Some other) \<Rightarrow>
         if ptrDiffers (obs_HTTPHeaderIdentifier ob) (obs_HTTPHeaderIdentifier other) then False
         else if ptrDiffers (obs_DefaultLevel ob) (obs_DefaultLevel other) then False
         else if (obs_Tracing ob = None) \<noteq> (obs_Tracing other = None) then False
         else if obs_Tracing ob \<noteq> None \<and> obs_Tracing other \<noteq> None \<and>
           \<not> Tracing_EqualTo (obs_Tracing ob) (obs_Tracing other) then False
         else True
     | _ \<Rightarrow> False)"

definition Config_EqualTo :: "Config \<Rightarrow> Config option \<Rightarrow> bool" where
  "Config_EqualTo c other = (case other of None \<Rightarrow> False | Some other \<Rightarrow>
     (let cs = Deref (cfg_Services c) []; os = Deref (cfg_Services other) [];
          ca = Deref (cfg_ActionSets c) []; oa = Deref (cfg_ActionSets other) [] in
      if length cs \<noteq> length os \<or> length ca \<noteq> length oa then False
      else if cfg_DescriptorService c \<noteq> cfg_DescriptorService other then False
      else if \<not> list_all (\<lambda>(key, service). case map_of os key of None \<Rightarrow> False
          | Some otherService \<Rightarrow> Service_EqualTo service otherService) cs then False
      else if \<not> list_all (\<lambda>i. ActionSet_EqualTo (ca ! i) (oa ! i)) [0..<length ca] then False
      else if (cfg_Observability c = None) \<noteq> (cfg_Observability other = None) then False
      else if cfg_Observability c \<noteq> None \<and> cfg_Observability other \<noteq> None \<and>
        \<not> Observability_EqualTo (cfg_Observability c) (cfg_Observability other) then False
      else True))"

section \<open>The wire format of actions\<close>

record actionWire =
  w_Type :: string
  w_Predicate :: string
  w_Terminal :: bool
  w_IsGuard :: bool
  w_Execution :: string
  w_Var :: string
  w_Service :: string
  w_Label :: string
  w_MessageBuilder :: string
  w_OnReply :: "json list"
  w_DenyWith :: string
  w_Target :: string
  w_Headers :: string
  w_Path :: string
  w_Value :: string
  w_ExportToHost :: bool
  w_LogMessage :: string
  w_Sources :: "string list"

definition zeroWire :: actionWire where
  "zeroWire = \<lparr>w_Type = [], w_Predicate = [], w_Terminal = False, w_IsGuard = False, w_Execution = [],
     w_Var = [], w_Service = [], w_Label = [], w_MessageBuilder = [], w_OnReply = [], w_DenyWith = [],
     w_Target = [], w_Headers = [], w_Path = [], w_Value = [], w_ExportToHost = False, w_LogMessage = [],
     w_Sources = []\<rparr>"

text \<open>\<open>json.Marshal\<close> of the wire struct, in the order and with the tags of its fields.\<close>

definition marshalWire :: "actionWire \<Rightarrow> json" where
  "marshalWire w = JObj (
     (''type'', JStr (w_Type w)) # (''predicate'', JStr (w_Predicate w)) #
     (''terminal'', JBool (w_Terminal w)) # (''isGuard'', JBool (w_IsGuard w)) #
     omitStr ''execution'' (w_Execution w) @ omitStr ''var'' (w_Var w) @
     omitStr ''service'' (w_Service w) @ omitStr ''label'' (w_Label w) @
     omitStr ''messageBuilder'' (w_MessageBuilder w) @ omitSlice ''onReply'' (\<lambda>v. v) (w_OnReply w) @
     omitStr ''denyWith'' (w_DenyWith w) @ omitStr ''target'' (w_Target w) @
     omitStr ''headers'' (w_Headers w) @ omitStr ''path'' (w_Path w) @ omitStr ''value'' (w_Value w) @
     omitBool ''exportToHost'' (w_ExportToHost w) @ omitStr ''logMessage'' (w_LogMessage w) @
     omitSlice ''sources'' JStr (w_Sources w) @ [])"

definition decList :: "string \<Rightarrow> 'a \<Rightarrow> 'a decoder \<Rightarrow> (string \<times> json) list \<Rightarrow> 'a list decoded" where
  "decList name zero dec ms = ebind (decField name (decSlice zero dec) None ms) (\<lambda>xs. Inr (Deref xs []))"

definition unmarshalWire :: "json \<Rightarrow> actionWire decoded" where
  "unmarshalWire data = ebind (members data) (\<lambda>ms.
     ebind (decField ''type'' decStr [] ms) (\<lambda>ty.
     ebind (decField ''predicate'' decStr [] ms) (\<lambda>predicate.
     ebind (decField ''terminal'' decBool False ms) (\<lambda>terminal.
     ebind (decField ''isGuard'' decBool False ms) (\<lambda>isGuard.
     ebind (decField ''execution'' decStr [] ms) (\<lambda>execution.
     ebind (decField ''var'' decStr [] ms) (\<lambda>var.
     ebind (decField ''service'' decStr [] ms) (\<lambda>service.
     ebind (decField ''label'' decStr [] ms) (\<lambda>label.
     ebind (decField ''messageBuilder'' decStr [] ms) (\<lambda>messageBuilder.
     ebind (decList ''onReply'' JNull decRaw ms) (\<lambda>onReply.
     ebind (decField ''denyWith'' decStr [] ms) (\<lambda>denyWith.
     ebind (decField ''target'' decStr [] ms) (\<lambda>target.
     ebind (decField ''headers'' decStr [] ms) (\<lambda>headers.
     ebind (decField ''path'' decStr [] ms) (\<lambda>path.
     ebind (decField ''value'' decStr [] ms) (\<lambda>val.
     ebind (decField ''exportToHost'' decBool False ms) (\<lambda>exportToHost.
     ebind (decField ''logMessage'' decStr [] ms) (\<lambda>logMessage.
     ebind (decList ''sources'' [] decStr ms) (\<lambda>sources.
     Inr \<lparr>w_Type = ty, w_Predicate = predicate, w_Terminal = terminal, w_IsGuard = isGuard,
       w_Execution = execution, w_Var = var, w_Service = service, w_Label = label,
       w_MessageBuilder = messageBuilder, w_OnReply = onReply, w_DenyWith = denyWith, w_Target = target,
       w_Headers = headers, w_Path = path, w_Value = val, w_ExportToHost = exportToHost,
       w_LogMessage = logMessage, w_Sources = sources\<rparr>)))))))))))))))))))"

definition wireBase :: "string \<Rightarrow> ActionBase \<Rightarrow> actionWire" where
  "wireBase ty b = zeroWire\<lparr>w_Type := ty, w_Predicate := ab_Predicate b, w_Terminal := ab_Terminal b,
     w_IsGuard := ab_IsGuard b, w_Execution := ab_Execution b, w_Sources := ab_SourcePolicyLocators b\<rparr>"

fun Action_MarshalJSON :: "Action \<Rightarrow> json" where
  "Action_MarshalJSON (GrpcAction b v s l m rs) = marshalWire
     ((wireBase ''grpc'' b)\<lparr>w_Var := v, w_Service := s, w_Label := l, w_MessageBuilder := m,
        w_OnReply := map Action_MarshalJSON rs\<rparr>)"
| "Action_MarshalJSON (DenyAction b d) = marshalWire ((wireBase ''deny'' b)\<lparr>w_DenyWith := d\<rparr>)"
| "Action_MarshalJSON (HeadersAction b t h) = marshalWire
     ((wireBase ''headers'' b)\<lparr>w_Target := t, w_Headers := h\<rparr>)"
| "Action_MarshalJSON (StoreAction b p v e) = marshalWire
     ((wireBase ''store'' b)\<lparr>w_Path := p, w_Value := v, w_ExportToHost := e\<rparr>)"
| "Action_MarshalJSON (FailAction b m) = marshalWire ((wireBase ''fail'' b)\<lparr>w_LogMessage := m\<rparr>)"

subsection \<open>Reading actions ends\<close>

lemma decField_raws_size:
  assumes "decField name (decSlice JNull decRaw) init ms = Inr (Some xs)" "x \<in> set xs"
    and "\<And>ys y. init = Some ys \<Longrightarrow> y \<in> set ys \<Longrightarrow> size y < n"
    and "size_list (size_prod (\<lambda>_. 0) size) ms < n"
  shows "size x < n"
  using assms
proof (induction ms arbitrary: init)
  case (Cons e ms)
  obtain k v where e: "e = (k, v)" by fastforce
  show ?case
  proof (cases "EqualFold k name")
    case True
    then obtain init' where dec: "decSlice JNull decRaw init v = Inr init'"
      and rest: "decField name (decSlice JNull decRaw) init' ms = Inr (Some xs)"
      using Cons.prems(1) by (auto simp: e decField_Cons)
    have "size y < n" if "init' = Some ys" "y \<in> set ys" for ys y
    proof -
      from dec that(1) have "v = JArr ys"
        by (cases v) (auto simp: decRaw_def [abs_def] split: if_splits)
      moreover have "size y < size (JArr ys)" using that(2)
        by (simp add: less_Suc_eq_le size_list_estimation')
      ultimately show ?thesis using Cons.prems(4) by (simp add: e)
    qed
    with Cons.IH [OF rest Cons.prems(2)] Cons.prems(4) show ?thesis by (simp add: e)
  next
    case False
    then show ?thesis using Cons by (simp add: e decField_Cons)
  qed
qed simp

lemma unmarshalWire_OnReply:
  "unmarshalWire data = Inr w \<Longrightarrow>
    \<exists>ms. members data = Inr ms \<and> decList ''onReply'' JNull decRaw ms = Inr (w_OnReply w)"
  unfolding unmarshalWire_def ebind_eq_Inr by (elim exE conjE) auto

lemma unmarshalWire_size:
  assumes "unmarshalWire data = Inr w" "x \<in> set (w_OnReply w)"
  shows "size x < size data"
proof -
  obtain ms xs where ms: "members data = Inr ms"
    and xs: "decField ''onReply'' (decSlice JNull decRaw) None ms = Inr xs" "w_OnReply w = Deref xs []"
    using unmarshalWire_OnReply [OF assms(1)] by (auto simp: decList_def)
  with assms(2) obtain ys where ys: "xs = Some ys" "x \<in> set ys" by (cases xs) auto
  have "data = JObj ms" using ms xs ys by (cases data) auto
  then show ?thesis
    using decField_raws_size [OF xs(1) [unfolded ys(1)] ys(2), of "size data"] by simp
qed

function UnmarshalAction :: "json \<Rightarrow> Action decoded" where
  "UnmarshalAction data = ebind (unmarshalWire data) (\<lambda>w.
     let base = \<lparr>ab_Predicate = w_Predicate w, ab_Terminal = w_Terminal w, ab_IsGuard = w_IsGuard w,
           ab_Execution = w_Execution w, ab_SourcePolicyLocators = w_Sources w\<rparr> in
     if w_Type w = ''grpc'' then
       ebind (etraverse UnmarshalAction (w_OnReply w)) (\<lambda>onReply.
         Inr (GrpcAction base (w_Var w) (w_Service w) (w_Label w) (w_MessageBuilder w) onReply))
     else if w_Type w = ''deny'' then Inr (DenyAction base (w_DenyWith w))
     else if w_Type w = ''headers'' then Inr (HeadersAction base (w_Target w) (w_Headers w))
     else if w_Type w = ''store'' then Inr (StoreAction base (w_Path w) (w_Value w) (w_ExportToHost w))
     else if w_Type w = ''fail'' then Inr (FailAction base (w_LogMessage w))
     else Inl (JsonUnknownAction (w_Type w)))"
  by pat_completeness auto
termination
  by (relation "measure size") (auto dest: unmarshalWire_size)

declare UnmarshalAction.simps [simp del]

section \<open>The wire format of configurations\<close>

definition RouteRuleConditions_marshal :: "RouteRuleConditions \<Rightarrow> json" where
  "RouteRuleConditions_marshal r = JObj ((''hostnames'', encSlice JStr (rrc_Hostnames r)) #
     omitSlice ''predicates'' JStr (rrc_Predicates r))"

definition decRouteRuleConditions :: "RouteRuleConditions decoder" where
  "decRouteRuleConditions old data = ebind (members data) (\<lambda>ms.
     ebind (decField ''hostnames'' (decSlice [] decStr) (rrc_Hostnames old) ms) (\<lambda>hostnames.
     ebind (decField ''predicates'' (decSlice [] decStr) (Some (rrc_Predicates old)) ms) (\<lambda>predicates.
     Inr \<lparr>rrc_Hostnames = hostnames, rrc_Predicates = Deref predicates []\<rparr>)))"

definition ActionSet_MarshalJSON :: "ActionSet \<Rightarrow> json" where
  "ActionSet_MarshalJSON s = JObj ((''name'', JStr (as_Name s)) #
     (''routeRuleConditions'', RouteRuleConditions_marshal (as_RouteRuleConditions s)) #
     omitSlice ''actions'' Action_MarshalJSON (as_Actions s))"

definition zeroRouteRuleConditions :: RouteRuleConditions where
  "zeroRouteRuleConditions = \<lparr>rrc_Hostnames = None, rrc_Predicates = []\<rparr>"

definition zeroActionSet :: ActionSet where
  "zeroActionSet = \<lparr>as_Name = [], as_RouteRuleConditions = zeroRouteRuleConditions, as_Actions = [], as_SourceRoute = []\<rparr>"

definition ActionSet_UnmarshalJSON :: "ActionSet decoder" where
  "ActionSet_UnmarshalJSON s data = ebind (members data) (\<lambda>ms.
     ebind (decField ''name'' decStr [] ms) (\<lambda>name.
     ebind (decField ''routeRuleConditions'' decRouteRuleConditions zeroRouteRuleConditions ms) (\<lambda>conditions.
     ebind (decList ''actions'' JNull decRaw ms) (\<lambda>raws.
     ebind (etraverse UnmarshalAction raws) (\<lambda>actions.
     Inr (s\<lparr>as_Name := name, as_RouteRuleConditions := conditions, as_Actions := actions\<rparr>))))))"

definition Service_marshal :: "Service \<Rightarrow> json" where
  "Service_marshal s = JObj ((''endpoint'', JStr (svc_Endpoint s)) # (''type'', JStr (svc_Type s)) #
     (''failureMode'', JStr (svc_FailureMode s)) # omitPtr ''timeout'' JStr (svc_Timeout s) @
     omitPtr ''grpcService'' JStr (svc_GrpcService s) @ omitPtr ''grpcMethod'' JStr (svc_GrpcMethod s))"

definition zeroService :: Service where
  "zeroService = \<lparr>svc_Endpoint = [], svc_Type = [], svc_FailureMode = [], svc_Timeout = None,
     svc_GrpcService = None, svc_GrpcMethod = None\<rparr>"

definition decService :: "Service decoder" where
  "decService old data = ebind (members data) (\<lambda>ms.
     ebind (decField ''endpoint'' decStr (svc_Endpoint old) ms) (\<lambda>endpoint.
     ebind (decField ''type'' decStr (svc_Type old) ms) (\<lambda>ty.
     ebind (decField ''failureMode'' decStr (svc_FailureMode old) ms) (\<lambda>failureMode.
     ebind (decField ''timeout'' (decPtr [] decStr) (svc_Timeout old) ms) (\<lambda>timeout.
     ebind (decField ''grpcService'' (decPtr [] decStr) (svc_GrpcService old) ms) (\<lambda>grpcService.
     ebind (decField ''grpcMethod'' (decPtr [] decStr) (svc_GrpcMethod old) ms) (\<lambda>grpcMethod.
     Inr \<lparr>svc_Endpoint = endpoint, svc_Type = ty, svc_FailureMode = failureMode, svc_Timeout = timeout,
       svc_GrpcService = grpcService, svc_GrpcMethod = grpcMethod\<rparr>)))))))"

definition Tracing_marshal :: "Tracing \<Rightarrow> json" where
  "Tracing_marshal t = JObj (omitStr ''service'' (tr_Service t))"

definition decTracing :: "Tracing decoder" where
  "decTracing old data = ebind (members data) (\<lambda>ms.
     ebind (decField ''service'' decStr (tr_Service old) ms) (\<lambda>service. Inr \<lparr>tr_Service = service\<rparr>))"

definition Observability_marshal :: "Observability \<Rightarrow> json" where
  "Observability_marshal ob = JObj (omitPtr ''httpHeaderIdentifier'' JStr (obs_HTTPHeaderIdentifier ob) @
     omitPtr ''defaultLevel'' JStr (obs_DefaultLevel ob) @ omitPtr ''tracing'' Tracing_marshal (obs_Tracing ob))"

definition zeroObservability :: Observability where
  "zeroObservability = \<lparr>obs_HTTPHeaderIdentifier = None, obs_DefaultLevel = None, obs_Tracing = None\<rparr>"

definition decObservability :: "Observability decoder" where
  "decObservability old data = ebind (members data) (\<lambda>ms.
     ebind (decField ''httpHeaderIdentifier'' (decPtr [] decStr) (obs_HTTPHeaderIdentifier old) ms) (\<lambda>identifier.
     ebind (decField ''defaultLevel'' (decPtr [] decStr) (obs_DefaultLevel old) ms) (\<lambda>level.
     ebind (decField ''tracing'' (decPtr \<lparr>tr_Service = []\<rparr> decTracing) (obs_Tracing old) ms) (\<lambda>tracing.
     Inr \<lparr>obs_HTTPHeaderIdentifier = identifier, obs_DefaultLevel = level, obs_Tracing = tracing\<rparr>))))"

definition Config_ToJSON :: "Config \<Rightarrow> json" where
  "Config_ToJSON c = JObj ((''services'', encMap Service_marshal (cfg_Services c)) #
     (''actionSets'', encSlice ActionSet_MarshalJSON (cfg_ActionSets c)) #
     omitPtr ''observability'' Observability_marshal (cfg_Observability c) @
     omitStr ''descriptorService'' (cfg_DescriptorService c))"

definition ConfigFromJSON :: "json option \<Rightarrow> Config decoded" where
  "ConfigFromJSON configJSON = (case configJSON of None \<Rightarrow> Inl JsonNilConfig | Some data \<Rightarrow>
     ebind (members data) (\<lambda>ms.
     ebind (decField ''services'' (decMap zeroService decService) None ms) (\<lambda>services.
     ebind (decField ''actionSets'' (decSlice zeroActionSet ActionSet_UnmarshalJSON) None ms) (\<lambda>actionSets.
     ebind (decField ''observability'' (decPtr zeroObservability decObservability) None ms) (\<lambda>observability.
     ebind (decField ''descriptorService'' decStr [] ms) (\<lambda>descriptorService.
     Inr \<lparr>cfg_Services = services, cfg_ActionSets = actionSets, cfg_Observability = observability,
       cfg_DescriptorService = descriptorService\<rparr>))))))"

text \<open>
  Data items: \<open>Value\<close> holds a pointer to one of two structs, or something else.
\<close>

datatype DataType = DataStatic (static_Value: string) (static_Key: string)
  | DataExpression (expr_Key: string) (expr_Value: string)
  | DataOther

fun DataType_MarshalJSON :: "DataType \<Rightarrow> json decoded" where
  "DataType_MarshalJSON (DataStatic v k) =
     Inr (JObj [(''static'', JObj [(''value'', JStr v), (''key'', JStr k)])])"
| "DataType_MarshalJSON (DataExpression k v) =
     Inr (JObj [(''expression'', JObj [(''key'', JStr k), (''value'', JStr v)])])"
| "DataType_MarshalJSON DataOther = Inl JsonUnknownValue"

text \<open>A struct with one member, itself a struct of two strings, with unknown fields refused.\<close>

definition decKeyValue :: "(string \<times> string) decoder" where
  "decKeyValue old data = ebind (members data) (\<lambda>ms. ebind (onlyFields [''key'', ''value''] ms) (\<lambda>_.
     ebind (decField ''key'' decStr (fst old) ms) (\<lambda>k.
     ebind (decField ''value'' decStr (snd old) ms) (\<lambda>v. Inr (k, v)))))"

definition decWrapped :: "string \<Rightarrow> json \<Rightarrow> (string \<times> string) decoded" where
  "decWrapped name data = ebind (members data) (\<lambda>ms. ebind (onlyFields [name] ms) (\<lambda>_.
     decField name decKeyValue ([], []) ms))"

definition DataType_UnmarshalJSON :: "json \<Rightarrow> DataType decoded" where
  "DataType_UnmarshalJSON data = (case decWrapped ''static'' data of
     Inr (k, v) \<Rightarrow> Inr (DataStatic v k)
   | Inl _ \<Rightarrow> (case decWrapped ''expression'' data of
       Inr (k, v) \<Rightarrow> Inr (DataExpression k v) | Inl err \<Rightarrow> Inl err))"

section \<open>Actions survive the wire\<close>

lemma ToLower_fields:
  "ToLower ''type'' = ''type''" "ToLower ''predicate'' = ''predicate''" "ToLower ''terminal'' = ''terminal''"
  "ToLower ''isGuard'' = ''isguard''" "ToLower ''execution'' = ''execution''" "ToLower ''var'' = ''var''"
  "ToLower ''service'' = ''service''" "ToLower ''label'' = ''label''"
  "ToLower ''messageBuilder'' = ''messagebuilder''" "ToLower ''onReply'' = ''onreply''"
  "ToLower ''denyWith'' = ''denywith''" "ToLower ''target'' = ''target''" "ToLower ''headers'' = ''headers''"
  "ToLower ''path'' = ''path''" "ToLower ''value'' = ''value''" "ToLower ''exportToHost'' = ''exporttohost''"
  "ToLower ''logMessage'' = ''logmessage''" "ToLower ''sources'' = ''sources''"
  by code_simp+

lemmas wire_names = EqualFold_def ToLower_fields

lemma unmarshal_marshalWire: "unmarshalWire (marshalWire w) = Inr w"
  by (simp add: unmarshalWire_def marshalWire_def decList_def decField_other decField_same decField_omitSlice
      decField_last decRaw_def wire_names del: ebind_eq_Inr)

lemma unmarshal_marshal_action: "UnmarshalAction (Action_MarshalJSON a) = Inr a"
proof (induction a)
  case (GrpcAction b v s l m rs)
  have "etraverse UnmarshalAction (map Action_MarshalJSON rs) = Inr rs"
    using GrpcAction by (simp add: etraverse_map comp_def cong: etraverse_cong)
  then show ?case
    by (simp add: UnmarshalAction.simps [of "marshalWire w" for w] unmarshal_marshalWire wireBase_def Let_def)
qed (simp_all add: UnmarshalAction.simps [of "marshalWire w" for w] unmarshal_marshalWire wireBase_def zeroWire_def Let_def)

text \<open>
  An action read back from its wire form is the action that was written, replies within
  replies included.
\<close>

theorem action_roundtrip: "UnmarshalAction (Action_MarshalJSON a) = Inr a"
  by (rule unmarshal_marshal_action)

text \<open>
  Reading an action fails on an object whose type is not one of the five kinds, whatever
  other members it has, and the error names the type.
\<close>

theorem action_unknown_type:
  assumes "unmarshalWire data = Inr w" "w_Type w \<notin> {''grpc'', ''deny'', ''headers'', ''store'', ''fail''}"
  shows "UnmarshalAction data = Inl (JsonUnknownAction (w_Type w))"
  using assms by (simp add: UnmarshalAction.simps [of data])

theorem action_unknown_type_witness:
  "UnmarshalAction (marshalWire (zeroWire\<lparr>w_Type := ''metrics'', w_Path := ''x''\<rparr>)) = Inl (JsonUnknownAction ''metrics'')"
  using action_unknown_type [OF unmarshal_marshalWire, of "zeroWire\<lparr>w_Type := ''metrics'', w_Path := ''x''\<rparr>"]
  by simp

section \<open>What equality decides\<close>

lemma equalBase_iff [simp]: "equalBase b b' \<longleftrightarrow> b = b'"
  by (cases b; cases b') (auto simp: equalBase_def)

lemma Action_EqualTo_iff_aux:
  "Action_EqualTo a c \<longleftrightarrow> a = c"
  "length xs = length ys \<Longrightarrow> Actions_loop xs ys \<longleftrightarrow> xs = ys"
  by (induction a c and xs ys rule: Action_EqualTo_Actions_loop.induct)
    (auto split: Action.splits list.splits)

text \<open>
  Two actions compare equal exactly when they are the same action, field by field and reply
  by reply.
\<close>

theorem Action_EqualTo_iff: "Action_EqualTo a c \<longleftrightarrow> a = c"
  by (rule Action_EqualTo_iff_aux)

lemma ptrDiffers_iff [simp]: "ptrDiffers p q \<longleftrightarrow> p \<noteq> q"
  by (cases p; cases q) (auto simp: ptrDiffers_def)

lemma Service_EqualTo_iff [simp]: "Service_EqualTo s t \<longleftrightarrow> s = t"
  by (cases s; cases t) (auto simp: Service_EqualTo_def)

lemma Tracing_EqualTo_iff [simp]: "Tracing_EqualTo t u \<longleftrightarrow> t = u"
  by (auto simp: Tracing_EqualTo_def split: option.splits)

lemma Observability_EqualTo_iff [simp]: "Observability_EqualTo t u \<longleftrightarrow> t = u"
  by (auto simp: Observability_EqualTo_def split: option.splits)

text \<open>What the comparison sees of an action set: nil and empty hostnames agree, the source route is ignored.\<close>

definition visible_actionset where
  "visible_actionset s = (as_Name s, Deref (rrc_Hostnames (as_RouteRuleConditions s)) [],
     rrc_Predicates (as_RouteRuleConditions s), as_Actions s)"

lemma list_all_nth_eq: "length xs = length ys \<Longrightarrow> list_all (\<lambda>i. xs ! i = ys ! i) [0..<length xs] \<longleftrightarrow> xs = ys"
  by (auto simp: list_all_iff list_eq_iff_nth_eq [of xs ys])

lemma RouteRuleConditions_EqualTo_iff:
  "RouteRuleConditions_EqualTo r q \<longleftrightarrow>
     Deref (rrc_Hostnames r) [] = Deref (rrc_Hostnames q) [] \<and> rrc_Predicates r = rrc_Predicates q"
proof -
  have loop: "(if length xs \<noteq> length ys \<or> length us \<noteq> length vs then False
      else list_all (\<lambda>i. xs ! i = ys ! i) [0..<length xs] \<and> list_all (\<lambda>i. us ! i = vs ! i) [0..<length us]) \<longleftrightarrow>
    xs = ys \<and> us = vs" for xs ys us vs :: "string list"
    using list_all_nth_eq [of xs ys] list_all_nth_eq [of us vs] by (cases "length xs = length ys"; cases "length us = length vs") auto
  show ?thesis unfolding RouteRuleConditions_EqualTo_def Let_def by (rule loop)
qed

lemma ActionSet_EqualTo_iff: "ActionSet_EqualTo s t \<longleftrightarrow> visible_actionset s = visible_actionset t"
proof -
  have "Actions_loop (as_Actions s) (as_Actions t) \<longleftrightarrow> as_Actions s = as_Actions t"
    if "length (as_Actions s) = length (as_Actions t)"
    using that by (rule Action_EqualTo_iff_aux)
  then show ?thesis
    by (auto simp: ActionSet_EqualTo_def visible_actionset_def RouteRuleConditions_EqualTo_iff)
qed

lemma services_loop:
  assumes "gm_wf cs" "gm_wf os" "length cs = length os"
  shows "list_all (\<lambda>(key, service). case map_of os key of None \<Rightarrow> False
      | Some otherService \<Rightarrow> service = otherService) cs \<longleftrightarrow> map_of cs = map_of os"
proof -
  have "list_all (\<lambda>(key, service). case map_of os key of None \<Rightarrow> False
      | Some otherService \<Rightarrow> service = otherService) cs \<longleftrightarrow> set cs \<subseteq> set os"
    using assms(2) by (auto simp: list_all_iff dest: map_of_SomeD eq_key_imp_eq_value split: option.splits)
  also have "\<dots> \<longleftrightarrow> set cs = set os"
    using assms card_subset_eq [of "set os" "set cs"] by (auto simp: distinct_card distinct_map)
  also have "\<dots> \<longleftrightarrow> map_of cs = map_of os"
    using assms(1,2) by (metis map_of_inject_set)
  finally show ?thesis .
qed

text \<open>What the comparison sees of a configuration.\<close>

definition visible_config where
  "visible_config c = (map_of (Deref (cfg_Services c) []), map visible_actionset (Deref (cfg_ActionSets c) []),
     cfg_Observability c, cfg_DescriptorService c)"

lemma Config_EqualTo_visible:
  assumes "gm_wf (Deref (cfg_Services c) [])" "gm_wf (Deref (cfg_Services d) [])"
  shows "Config_EqualTo c (Some d) \<longleftrightarrow> visible_config c = visible_config d"
proof -
  have sets: "list_all (\<lambda>i. ActionSet_EqualTo (ca ! i) (oa ! i)) [0..<length ca] \<longleftrightarrow>
      map visible_actionset ca = map visible_actionset oa" if "length ca = length oa" for ca oa
    using that by (auto simp: list_all_iff list_eq_iff_nth_eq [of "map visible_actionset ca"] ActionSet_EqualTo_iff)
  have len: "length (Deref (cfg_Services c) []) = length (Deref (cfg_Services d) [])"
    if "map_of (Deref (cfg_Services c) []) = map_of (Deref (cfg_Services d) [])"
    using that assms by (metis distinct_card distinct_map map_of_inject_set)
  have services: "list_all (\<lambda>(key, service). case map_of (Deref (cfg_Services d) []) key of None \<Rightarrow> False
        | Some otherService \<Rightarrow> Service_EqualTo service otherService) (Deref (cfg_Services c) []) \<longleftrightarrow>
      map_of (Deref (cfg_Services c) []) = map_of (Deref (cfg_Services d) [])"
    if "length (Deref (cfg_Services c) []) = length (Deref (cfg_Services d) [])"
    unfolding Service_EqualTo_iff by (rule services_loop [OF assms that])
  have "Config_EqualTo c (Some d) \<longleftrightarrow>
      length (Deref (cfg_Services c) []) = length (Deref (cfg_Services d) []) \<and>
      length (Deref (cfg_ActionSets c) []) = length (Deref (cfg_ActionSets d) []) \<and>
      cfg_DescriptorService c = cfg_DescriptorService d \<and>
      map_of (Deref (cfg_Services c) []) = map_of (Deref (cfg_Services d) []) \<and>
      map visible_actionset (Deref (cfg_ActionSets c) []) = map visible_actionset (Deref (cfg_ActionSets d) []) \<and>
      cfg_Observability c = cfg_Observability d"
    using sets services by (auto simp: Config_EqualTo_def Let_def)
  then show ?thesis
    using len by (auto simp: visible_config_def dest: map_eq_imp_length_eq)
qed


section \<open>Configurations survive the wire\<close>

lemma ToLower_config_fields:
  "ToLower ''hostnames'' = ''hostnames''" "ToLower ''predicates'' = ''predicates''" "ToLower ''name'' = ''name''"
  "ToLower ''routeRuleConditions'' = ''routeruleconditions''" "ToLower ''actions'' = ''actions''"
  "ToLower ''endpoint'' = ''endpoint''" "ToLower ''failureMode'' = ''failuremode''" "ToLower ''timeout'' = ''timeout''"
  "ToLower ''grpcService'' = ''grpcservice''" "ToLower ''grpcMethod'' = ''grpcmethod''"
  "ToLower ''httpHeaderIdentifier'' = ''httpheaderidentifier''" "ToLower ''defaultLevel'' = ''defaultlevel''"
  "ToLower ''tracing'' = ''tracing''" "ToLower ''services'' = ''services''" "ToLower ''actionSets'' = ''actionsets''"
  "ToLower ''observability'' = ''observability''" "ToLower ''descriptorService'' = ''descriptorservice''"
  "ToLower ''static'' = ''static''" "ToLower ''expression'' = ''expression''" "ToLower ''key'' = ''key''"
  by code_simp+

lemmas config_names = wire_names ToLower_config_fields

lemmas dec_simps = decField_other decField_same decField_omitSlice decField_omitPtr decField_last config_names

lemma dec_RouteRuleConditions: "decRouteRuleConditions zeroRouteRuleConditions (RouteRuleConditions_marshal r) = Inr r"
  by (cases r; cases "rrc_Predicates r = []")
    (simp_all add: decRouteRuleConditions_def RouteRuleConditions_marshal_def zeroRouteRuleConditions_def
      decField_Cons decSlice_encSlice decSlice_enc omitSlice_def config_names del: decSlice.simps)

lemma dec_ActionSet: "ActionSet_UnmarshalJSON zeroActionSet (ActionSet_MarshalJSON s) = Inr (s\<lparr>as_SourceRoute := []\<rparr>)"
proof -
  have "etraverse UnmarshalAction (map Action_MarshalJSON (as_Actions s)) = Inr (as_Actions s)"
    by (simp add: etraverse_map comp_def unmarshal_marshal_action)
  then show ?thesis
    by (cases "as_Actions s = []")
      (simp_all add: ActionSet_UnmarshalJSON_def ActionSet_MarshalJSON_def zeroActionSet_def decList_def
        decField_Cons dec_RouteRuleConditions omitSlice_def decRaw_def config_names
        decSlice_enc [of "map Action_MarshalJSON (as_Actions s)" decRaw JNull "\<lambda>v. v", simplified])
qed

lemma dec_Service: "decService zeroService (Service_marshal s) = Inr s"
  by (simp add: decService_def Service_marshal_def zeroService_def dec_simps)

lemma dec_Tracing: "decTracing \<lparr>tr_Service = []\<rparr> (Tracing_marshal t) = Inr t"
  by (simp add: decTracing_def Tracing_marshal_def dec_simps)

lemma dec_Observability: "decObservability zeroObservability (Observability_marshal ob) = Inr ob"
proof -
  have "Tracing_marshal t \<noteq> JNull" for t by (simp add: Tracing_marshal_def)
  then show ?thesis
    by (simp add: decObservability_def Observability_marshal_def zeroObservability_def dec_simps dec_Tracing)
qed


text \<open>What a configuration written to the cluster is when it is read back.\<close>

lemma ConfigFromJSON_ToJSON:
  "\<exists>d. ConfigFromJSON (Some (Config_ToJSON c)) = Inr d \<and> gm_wf (Deref (cfg_Services d) []) \<and>
    (gm_wf (Deref (cfg_Services c) []) \<longrightarrow> visible_config d = visible_config c)"
proof -
  obtain m where m: "decMap zeroService decService None (encMap Service_marshal (cfg_Services c)) = Inr m"
      "gm_wf (Deref m [])" "gm_wf (Deref (cfg_Services c) []) \<longrightarrow> map_of (Deref m []) = map_of (Deref (cfg_Services c) [])"
    using decMap_encMap [of "cfg_Services c" decService zeroService Service_marshal] dec_Service by blast
  define sets where "sets = map_option (map (\<lambda>s. s\<lparr>as_SourceRoute := []\<rparr>)) (cfg_ActionSets c)"
  have sets: "decSlice zeroActionSet ActionSet_UnmarshalJSON None (encSlice ActionSet_MarshalJSON (cfg_ActionSets c)) = Inr sets"
  proof (cases "cfg_ActionSets c")
    case (Some ss)
    have "etraverse (ActionSet_UnmarshalJSON zeroActionSet) (map ActionSet_MarshalJSON ss) =
        Inr (map (\<lambda>s. s\<lparr>as_SourceRoute := []\<rparr>) ss)"
      by (simp add: etraverse_eq_Inr list_all2_map1 list_all2_map2 list_all2_same dec_ActionSet)
    then show ?thesis by (simp add: Some sets_def encSlice_def)
  qed (simp add: sets_def encSlice_def)
  have ptr: "Observability_marshal ob \<noteq> JNull" for ob by (simp add: Observability_marshal_def)
  have "ConfigFromJSON (Some (Config_ToJSON c)) = Inr \<lparr>cfg_Services = m, cfg_ActionSets = sets,
      cfg_Observability = cfg_Observability c, cfg_DescriptorService = cfg_DescriptorService c\<rparr>"
    by (simp add: ConfigFromJSON_def Config_ToJSON_def decField_Cons dec_simps m(1) sets dec_Observability ptr)
  moreover have "map visible_actionset (Deref sets []) = map visible_actionset (Deref (cfg_ActionSets c) [])"
    by (cases "cfg_ActionSets c") (simp_all add: sets_def visible_actionset_def)
  ultimately show ?thesis using m(2,3) by (simp add: visible_config_def)
qed

text \<open>
  For configurations whose services are a map, \<open>EqualTo\<close> compares the services as a map,
  the action sets position by position up to the source route, and observability and descriptor
  service exactly; nil and empty collections are alike.
\<close>

theorem Config_EqualTo_iff:
  assumes "gm_wf (Deref (cfg_Services c) [])" "gm_wf (Deref (cfg_Services d) [])"
  shows "Config_EqualTo c (Some d) \<longleftrightarrow>
    map_of (Deref (cfg_Services c) []) = map_of (Deref (cfg_Services d) []) \<and>
    map visible_actionset (Deref (cfg_ActionSets c) []) = map visible_actionset (Deref (cfg_ActionSets d) []) \<and>
    cfg_Observability c = cfg_Observability d \<and> cfg_DescriptorService c = cfg_DescriptorService d"
  using Config_EqualTo_visible [OF assms] by (simp add: visible_config_def)

definition ex_config :: "string \<Rightarrow> Config" where
  "ex_config route = \<lparr>cfg_Services = Some [(''auth-service'', \<lparr>svc_Endpoint = ''kuadrant-auth-service'',
       svc_Type = ''dynamic'', svc_FailureMode = ''deny'', svc_Timeout = Some ''200ms'',
       svc_GrpcService = None, svc_GrpcMethod = None\<rparr>)],
     cfg_ActionSets = Some [\<lparr>as_Name = ''n'',
       as_RouteRuleConditions = \<lparr>rrc_Hostnames = Some [''a.example.com''], rrc_Predicates = []\<rparr>,
       as_Actions = [], as_SourceRoute = route\<rparr>],
     cfg_Observability = None, cfg_DescriptorService = []\<rparr>"

theorem Config_EqualTo_iff_witness: "Config_EqualTo (ex_config ''a'') (Some (ex_config ''b''))"
  using Config_EqualTo_iff [of "ex_config ''a''" "ex_config ''b''"]
  by (simp add: ex_config_def visible_actionset_def)

text \<open>
  C36.  A configuration written to the cluster and read back compares equal to the original, so
  that an unchanged configuration causes no update.
\<close>

theorem config_roundtrip_equal:
  assumes "gm_wf (Deref (cfg_Services c) [])"
  shows "\<exists>d. ConfigFromJSON (Some (Config_ToJSON c)) = Inr d \<and> Config_EqualTo c (Some d)"
  using ConfigFromJSON_ToJSON [of c] assms Config_EqualTo_visible [OF assms] by fastforce

theorem config_roundtrip_equal_witness:
  "\<exists>d. ConfigFromJSON (Some (Config_ToJSON (ex_config ''a''))) = Inr d \<and> Config_EqualTo (ex_config ''a'') (Some d)"
  by (rule config_roundtrip_equal) (simp add: ex_config_def)

lemma data_roundtrip: "DataType_MarshalJSON d = Inr j \<Longrightarrow> DataType_UnmarshalJSON j = Inr d"
  by (cases d) (auto simp: DataType_UnmarshalJSON_def decWrapped_def decKeyValue_def decField_Cons dec_simps)


end
