(* ===== verification/Wasm_CEL.thy ===== *)
theory Wasm_CEL
  imports Wasm_Types
begin

text \<open>
  Building actions and rendering the messages they send as CEL expressions
  (\<open>internal/wasm/action_builder.go\<close>, \<open>internal/wasm/cel.go\<close>).

  The \<open>With\<close> methods return their receiver after changing a field; the five action types
  each have a copy of them, here one function over \<^typ>\<open>Action\<close>.
\<close>

abbreviation newline :: string where "newline \<equiv> [CHR 0x0A]"

section \<open>Builders\<close>

definition newBase :: "string \<Rightarrow> bool \<Rightarrow> ActionBase" where
  "newBase predicate terminal = \<lparr>ab_Predicate = predicate, ab_Terminal = terminal, ab_IsGuard = True,
     ab_Execution = [], ab_SourcePolicyLocators = []\<rparr>"

definition NewDenyAction :: "string \<Rightarrow> string \<Rightarrow> Action" where
  "NewDenyAction predicate denyWith = DenyAction (newBase predicate True) denyWith"

definition NewHeadersAction :: "string \<Rightarrow> string \<Rightarrow> string \<Rightarrow> Action" where
  "NewHeadersAction predicate target headers = HeadersAction (newBase predicate False) target headers"

definition NewStoreAction :: "string \<Rightarrow> string \<Rightarrow> string \<Rightarrow> Action" where
  "NewStoreAction predicate path val = StoreAction (newBase predicate False) path val False"

definition NewFailAction :: "string \<Rightarrow> string \<Rightarrow> Action" where
  "NewFailAction predicate logMessage = FailAction (newBase predicate True) logMessage"

definition NewGrpcAction :: "string \<Rightarrow> string \<Rightarrow> string \<Rightarrow> string \<Rightarrow> string \<Rightarrow> Action" where
  "NewGrpcAction predicate varName service messageBuilder label =
     GrpcAction (newBase predicate False) varName service label messageBuilder []"

definition WithTerminal :: "bool \<Rightarrow> Action \<Rightarrow> Action" where
  "WithTerminal terminal a = Action_withBase (\<lambda>b. b\<lparr>ab_Terminal := terminal\<rparr>) a"

definition WithGuard :: "bool \<Rightarrow> Action \<Rightarrow> Action" where
  "WithGuard isGuard a = Action_withBase (\<lambda>b. b\<lparr>ab_IsGuard := isGuard\<rparr>) a"

definition WithSources :: "string list \<Rightarrow> Action \<Rightarrow> Action" where
  "WithSources sources a = Action_withBase (\<lambda>b. b\<lparr>ab_SourcePolicyLocators := sources\<rparr>) a"

definition WithExecution :: "string \<Rightarrow> Action \<Rightarrow> Action" where
  "WithExecution execution a = Action_withBase (\<lambda>b. b\<lparr>ab_Execution := execution\<rparr>) a"

text \<open>\<open>WithOnReply\<close> and \<open>WithExportToHost\<close> exist for one type only.\<close>

fun WithOnReply :: "Action list \<Rightarrow> Action \<Rightarrow> Action" where
  "WithOnReply onReply (GrpcAction b v s l m rs) = GrpcAction b v s l m onReply"
| "WithOnReply onReply a = a"

fun WithExportToHost :: "bool \<Rightarrow> Action \<Rightarrow> Action" where
  "WithExportToHost exportToHost (StoreAction b p v e) = StoreAction b p v exportToHost"
| "WithExportToHost exportToHost a = a"

lemma Base_withBase [simp]: "Action_Base (Action_withBase f a) = f (Action_Base a)"
  by (cases a) auto

lemma ActionType_withBase [simp]: "ActionType (Action_withBase f a) = ActionType a"
  by (cases a) auto

lemma Base_WithOnReply [simp]: "Action_Base (WithOnReply rs a) = Action_Base a"
  by (cases a) auto

lemma Base_WithExportToHost [simp]: "Action_Base (WithExportToHost e a) = Action_Base a"
  by (cases a) auto

lemma Base_With [simp]:
  "Action_Base (WithTerminal t a) = (Action_Base a)\<lparr>ab_Terminal := t\<rparr>"
  "Action_Base (WithGuard g a) = (Action_Base a)\<lparr>ab_IsGuard := g\<rparr>"
  "Action_Base (WithSources ss a) = (Action_Base a)\<lparr>ab_SourcePolicyLocators := ss\<rparr>"
  "Action_Base (WithExecution e a) = (Action_Base a)\<lparr>ab_Execution := e\<rparr>"
  by (simp_all add: WithTerminal_def WithGuard_def WithSources_def WithExecution_def)

section \<open>CEL strings and predicates\<close>

definition escapeCELString :: "string \<Rightarrow> string" where
  "escapeCELString s =
     (let s = ReplaceAll s [backslash] [backslash, backslash];
          s = ReplaceAll s [quote_char] [backslash, quote_char];
          s = ReplaceAll s newline [backslash, CHR ''n''];
          s = ReplaceAll s [CHR 0x0D] [backslash, CHR ''r''];
          s = ReplaceAll s [CHR 0x09] [backslash, CHR ''t'']
      in s)"

definition celQuote :: "string \<Rightarrow> string" where
  "celQuote s = quote_char # s @ [quote_char]"

definition joinPredicates :: "string list \<Rightarrow> string \<Rightarrow> string" where
  "joinPredicates predicates op =
     (case predicates of [] \<Rightarrow> ''true''
      | [p] \<Rightarrow> p
      | _ \<Rightarrow> Join (map (\<lambda>p. ''('' @ p @ '')'') predicates) ('' '' @ op @ '' ''))"

section \<open>Messages\<close>

record MetadataFieldCEL =
  mf_Key :: string
  mf_Expression :: string

record FilterMetadataEntryCEL =
  fm_Domain :: string
  fm_Fields :: "MetadataFieldCEL list"

type_synonym MetadataCEL = "FilterMetadataEntryCEL list"

record CheckRequestCEL =
  cr_Scope :: string
  cr_MetadataContext :: MetadataCEL

record DescriptorEntryCEL =
  de_Key :: string
  de_ValueCEL :: string

record RateLimitDescriptorCEL =
  rd_Entries :: "DescriptorEntryCEL list"
  rd_Predicate :: string
  rd_EntriesExpr :: string

record RateLimitRequestCEL =
  rr_Domain :: string
  rr_HitsAddend :: string
  rr_Descriptors :: "RateLimitDescriptorCEL list"

record ReserveRequestCEL =
  rs_Domain :: string
  rs_Amount :: string
  rs_TTL :: string
  rs_Descriptors :: "RateLimitDescriptorCEL list"

record CommitRequestCEL =
  cm_Domain :: string
  cm_ReservationID :: string
  cm_ActualAmount :: string
  cm_Descriptors :: "RateLimitDescriptorCEL list"

definition MetadataField_valueCEL :: "MetadataFieldCEL \<Rightarrow> string" where
  "MetadataField_valueCEL f =
     (if Contains (mf_Expression f) ''auth.''
      then ''google.protobuf.Value{struct_value: google.protobuf.Struct{fields: {'' @ celQuote ''cel_expr'' @
        '': google.protobuf.Value{string_value: '' @ celQuote (escapeCELString (mf_Expression f)) @ ''}}}}''
      else ''google.protobuf.Value{string_value: string('' @ mf_Expression f @ '')}'')"

definition MetadataField_ToCEL :: "MetadataFieldCEL \<Rightarrow> string" where
  "MetadataField_ToCEL f = celQuote (escapeCELString (mf_Key f)) @ '': '' @ MetadataField_valueCEL f"

definition FilterMetadataEntry_ToCEL :: "FilterMetadataEntryCEL \<Rightarrow> string" where
  "FilterMetadataEntry_ToCEL e = celQuote (escapeCELString (fm_Domain e)) @
     '': google.protobuf.Struct{fields: {'' @ Join (map MetadataField_ToCEL (fm_Fields e)) '', '' @ ''}}''"

definition Metadata_ToCEL :: "MetadataCEL \<Rightarrow> string" where
  "Metadata_ToCEL m =
     (if length m = 0 then ''envoy.config.core.v3.Metadata{}''
      else ''envoy.config.core.v3.Metadata{filter_metadata: {'' @
        Join (map FilterMetadataEntry_ToCEL m) '', '' @ ''}}'')"

definition CheckRequest_ToCEL :: "CheckRequestCEL \<Rightarrow> string" where
  "CheckRequest_ToCEL r = Join [
     ''envoy.service.auth.v3.CheckRequest {'',
     ''  attributes: envoy.service.auth.v3.AttributeContext {'',
     ''    request: envoy.service.auth.v3.AttributeContext.Request {'',
     ''      time: request.time,'',
     ''      http: envoy.service.auth.v3.AttributeContext.HttpRequest {'',
     ''        host: request.host,'',
     ''        method: request.method,'',
     ''        scheme: request.scheme,'',
     ''        path: request.path,'',
     ''        protocol: request.protocol,'',
     ''        headers: request.headers'',
     ''      }'',
     ''    },'',
     ''    destination: envoy.service.auth.v3.AttributeContext.Peer {'',
     ''      address: envoy.config.core.v3.Address {'',
     ''        socket_address: envoy.config.core.v3.SocketAddress {'',
     ''          address: destination.address,'',
     ''          port_value: uint(destination.port)'',
     ''        }'',
     ''      }'',
     ''    },'',
     ''    source: envoy.service.auth.v3.AttributeContext.Peer {'',
     ''      address: envoy.config.core.v3.Address {'',
     ''        socket_address: envoy.config.core.v3.SocketAddress {'',
     ''          address: source.address,'',
     ''          port_value: uint(source.port)'',
     ''        }'',
     ''      }'',
     ''    },'',
     ''    context_extensions: {'' @ celQuote ''host'' @ '': '' @ celQuote (escapeCELString (cr_Scope r)) @ ''},'',
     ''    metadata_context: '' @ Metadata_ToCEL (cr_MetadataContext r),
     ''  }'',
     ''}''] newline"

definition DescriptorEntry_ToCEL :: "DescriptorEntryCEL \<Rightarrow> string" where
  "DescriptorEntry_ToCEL e = ''envoy.extensions.common.ratelimit.v3.RateLimitDescriptor.Entry { key: '' @
     celQuote (escapeCELString (de_Key e)) @ '', value: '' @ de_ValueCEL e @ '' }''"

definition conditionalEntriesCEL :: "RateLimitDescriptorCEL \<Rightarrow> string" where
  "conditionalEntriesCEL d =
     (let entriesCEL = ''['' @ Join (map DescriptorEntry_ToCEL (rd_Entries d)) '', '' @ '']'' in
      if rd_Predicate d \<noteq> [] then ''(('' @ rd_Predicate d @ '') ? '' @ entriesCEL @ '' : [])''
      else entriesCEL)"

definition RateLimitDescriptor_ToCEL :: "RateLimitDescriptorCEL \<Rightarrow> string" where
  "RateLimitDescriptor_ToCEL d =
     (let entriesCEL = rd_EntriesExpr d;
          entriesCEL = (if entriesCEL = [] then
            let entriesCEL = ''['' @ Join (map DescriptorEntry_ToCEL (rd_Entries d)) '', '' @ '']'' in
            if rd_Predicate d \<noteq> [] then ''(('' @ rd_Predicate d @ '') ? '' @ entriesCEL @ '' : [])''
            else entriesCEL
          else entriesCEL)
      in ''envoy.extensions.common.ratelimit.v3.RateLimitDescriptor { entries: '' @ entriesCEL @ '' }'')"

definition descriptorsToCEL :: "RateLimitDescriptorCEL list \<Rightarrow> string" where
  "descriptorsToCEL descriptors =
     (if length descriptors = 0 then ''[]''
      else ''['' @ Join (map RateLimitDescriptor_ToCEL descriptors) '', '' @ '']'')"

definition RateLimitRequest_ToCEL :: "RateLimitRequestCEL \<Rightarrow> string" where
  "RateLimitRequest_ToCEL r =
     (let descriptorsCEL = (if length (rr_Descriptors r) > 0
        then ''['' @ Join (map RateLimitDescriptor_ToCEL (rr_Descriptors r)) '', '' @ '']'' else ''[]'')
      in Join [''envoy.service.ratelimit.v3.RateLimitRequest {'',
        ''    domain: '' @ rr_Domain r @ '','',
        ''    hits_addend: '' @ rr_HitsAddend r @ '','',
        ''    descriptors: '' @ descriptorsCEL,
        ''}''] newline)"

definition ReserveRequest_ToCEL :: "ReserveRequestCEL \<Rightarrow> string" where
  "ReserveRequest_ToCEL r =
     (let fields = [''domain: '' @ rs_Domain r, ''descriptors: '' @ descriptorsToCEL (rs_Descriptors r),
            ''amount: '' @ rs_Amount r];
          fields = (if rs_TTL r \<noteq> [] then fields @ [''ttl: '' @ rs_TTL r] else fields)
      in ''kuadrant.service.ratelimit.v1.ReserveRequest {'' @ newline @ ''    '' @
         Join fields ('','' @ newline @ ''    '') @ newline @ ''}'')"

definition CommitRequest_ToCEL :: "CommitRequestCEL \<Rightarrow> string" where
  "CommitRequest_ToCEL r = Join [''kuadrant.service.ratelimit.v1.CommitRequest {'',
     ''    domain: '' @ cm_Domain r @ '','',
     ''    descriptors: '' @ descriptorsToCEL (cm_Descriptors r) @ '','',
     ''    reservation_id: '' @ cm_ReservationID r @ '','',
     ''    actual_amount: '' @ cm_ActualAmount r,
     ''}''] newline"

section \<open>An escaped string cannot leave its literal\<close>

text \<open>
  The reading of a double-quoted CEL literal, from after the opening quote: the characters up to
  the closing quote with the escapes resolved, and the rest of the input.  A raw line break or an
  escape other than the five is an error.
\<close>

definition cel_escape :: "char \<Rightarrow> char option" where
  "cel_escape c = (if c = backslash then Some backslash else if c = quote_char then Some quote_char
     else if c = CHR ''n'' then Some (CHR 0x0A) else if c = CHR ''r'' then Some (CHR 0x0D)
     else if c = CHR ''t'' then Some (CHR 0x09) else None)"

fun cel_read :: "string \<Rightarrow> (string \<times> string) option" where
  "cel_read [] = None"
| "cel_read [c] = (if c = quote_char then Some ([], []) else None)"
| "cel_read (c # d # s) =
     (if c = quote_char then Some ([], d # s)
      else if c = backslash then (case cel_escape d of None \<Rightarrow> None
        | Some x \<Rightarrow> map_option (\<lambda>(t, r). (x # t, r)) (cel_read s))
      else if c = CHR 0x0A \<or> c = CHR 0x0D then None
      else map_option (\<lambda>(t, r). (c # t, r)) (cel_read (d # s)))"

lemma ReplaceAll_single: "ReplaceAll s [c] new = concat (map (\<lambda>x. if x = c then new else [x]) s)"
proof (induction s)
  case (Cons x s)
  then show ?case by (simp add: ReplaceAll.simps [of "x # s"] HasPrefix_def)
qed (simp add: ReplaceAll.simps)

text \<open>The five replacements, one after the other, act on each character on its own.\<close>

definition escape_char :: "char \<Rightarrow> string" where
  "escape_char c = (if c = backslash then [backslash, backslash]
     else if c = quote_char then [backslash, quote_char]
     else if c = CHR 0x0A then [backslash, CHR ''n''] else if c = CHR 0x0D then [backslash, CHR ''r'']
     else if c = CHR 0x09 then [backslash, CHR ''t''] else [c])"

lemma escapeCELString_concat: "escapeCELString s = concat (map escape_char s)"
  by (induction s) (simp_all add: escapeCELString_def Let_def ReplaceAll_single escape_char_def)

lemma cel_read_escape: "cel_read (concat (map escape_char s) @ quote_char # rest) = Some (s, rest)"
proof (induction s)
  case Nil
  show ?case by (cases rest) simp_all
next
  case (Cons c s)
  obtain d u where u: "concat (map escape_char s) @ quote_char # rest = d # u"
    by (cases "concat (map escape_char s) @ quote_char # rest") auto
  show ?case
    using Cons.IH by (auto simp: escape_char_def [of c] cel_escape_def u)
qed

text \<open>
  C35.  Text that the operator writes into a CEL string literal stays inside it: reading the
  literal gives back the text, and what follows the literal is untouched.
\<close>

theorem escapeCELString_confined:
  "celQuote (escapeCELString s) @ rest = quote_char # escapeCELString s @ quote_char # rest \<and>
   cel_read (escapeCELString s @ quote_char # rest) = Some (s, rest)"
  by (simp add: celQuote_def escapeCELString_concat cel_read_escape)

text \<open>Two different scopes, domains or keys never render alike.\<close>

lemma escapeCELString_inj: "escapeCELString s = escapeCELString t \<longleftrightarrow> s = t"
  by (metis cel_read_escape escapeCELString_concat option.inject prod.inject)

lemma RateLimitDescriptor_ToCEL_structured:
  "rd_EntriesExpr d = [] \<Longrightarrow> RateLimitDescriptor_ToCEL d =
     ''envoy.extensions.common.ratelimit.v3.RateLimitDescriptor { entries: '' @ conditionalEntriesCEL d @ '' }''"
  by (simp add: RateLimitDescriptor_ToCEL_def conditionalEntriesCEL_def)

text \<open>The request for a plain check renders its descriptors as the others do.\<close>

lemma RateLimitRequest_descriptors:
  "RateLimitRequest_ToCEL r = Join [''envoy.service.ratelimit.v3.RateLimitRequest {'',
     ''    domain: '' @ rr_Domain r @ '','', ''    hits_addend: '' @ rr_HitsAddend r @ '','',
     ''    descriptors: '' @ descriptorsToCEL (rr_Descriptors r), ''}''] newline"
  by (simp add: RateLimitRequest_ToCEL_def descriptorsToCEL_def Let_def)

end
