(* ===== verification/Wasm_Body_Refs.thy ===== *)
theory Wasm_Body_Refs
  imports Wasm_CEL
begin

text \<open>
  References to fields of the request or response body in CEL expressions
  (\<open>internal/wasm/action_spec.go\<close>): finding the calls \<open>responseBodyJSON(...)\<close> and
  \<open>requestBodyJSON(...)\<close>, and deriving identifiers from JSON pointers.

  The two regular expressions have no ambiguity (each alternative starts with a different
  character, and white space is always followed by something else), so their leftmost match is
  found by a scanner without backtracking.  \<open>\s\<close> is \<open>[\t\n\f\r ]\<close>.
\<close>

definition responseBodyStorePath :: string where
  "responseBodyStorePath = ''kuadrant.internal.response.body''"

definition requestBodyStorePath :: string where
  "requestBodyStorePath = ''kuadrant.internal.request.body''"

definition reservationStorePathPrefix :: string where
  "reservationStorePathPrefix = ''kuadrant.internal.tokenratelimit.reservation''"

abbreviation pointerListKeySep :: string where "pointerListKeySep \<equiv> [CHR 0x1F]"

abbreviation single_quote :: char where "single_quote \<equiv> CHR 0x27"

definition reservationStorePath :: "string \<Rightarrow> string" where
  "reservationStorePath rid = reservationStorePathPrefix @ ''.'' @ ReplaceAll rid ''.'' ''_''"

record bodyRef =
  br_Original :: string
  br_Direction :: string
  br_FieldName :: string
  br_Pointer :: string

section \<open>Scanning calls\<close>

definition is_space :: "char \<Rightarrow> bool" where
  "is_space c \<longleftrightarrow> c \<in> {CHR 0x09, CHR 0x0A, CHR 0x0C, CHR 0x0D, CHR '' ''}"

definition skip_space :: "string \<Rightarrow> string" where
  "skip_space s = dropWhile is_space s"

text \<open>A quoted string: its contents and what follows the closing quote.\<close>

fun scan_quoted :: "string \<Rightarrow> (string \<times> string) option" where
  "scan_quoted [] = None"
| "scan_quoted (q # s) =
     (if q = quote_char \<or> q = single_quote
      then (case dropWhile (\<lambda>c. c \<noteq> q) s of [] \<Rightarrow> None | _ # rest \<Rightarrow> Some (takeWhile (\<lambda>c. c \<noteq> q) s, rest))
      else None)"

lemma scan_quoted_split:
  "scan_quoted s = Some (t, r) \<Longrightarrow> \<exists>q. s = q # t @ q # r \<and> (q = quote_char \<or> q = single_quote) \<and> q \<notin> set t"
proof (cases s)
  case (Cons q u)
  assume s: "scan_quoted s = Some (t, r)"
  then obtain c where d: "dropWhile (\<lambda>c. c \<noteq> q) u = c # r" and t: "t = takeWhile (\<lambda>c. c \<noteq> q) u"
    and q: "q = quote_char \<or> q = single_quote"
    using Cons by (auto split: if_splits list.splits)
  have "c = q" using d by (metis (full_types) hd_dropWhile list.sel(1) list.distinct(1))
  moreover have "u = t @ c # r" using d t by (metis takeWhile_dropWhile_id)
  moreover have "q \<notin> set t" using t by (auto dest: set_takeWhileD)
  ultimately show ?thesis using Cons q by auto
qed simp

lemma scan_quoted_length: "scan_quoted s = Some (t, r) \<Longrightarrow> length r < length s"
  by (auto dest: scan_quoted_split)

lemma length_skip_space: "length (skip_space s) \<le> length s"
  by (simp add: skip_space_def length_dropWhile_le)

text \<open>The rest of a list of quoted strings, from its first item to the closing bracket.\<close>

function scan_list :: "string \<Rightarrow> string option" where
  "scan_list s = (case scan_quoted s of None \<Rightarrow> None
     | Some (item, r) \<Rightarrow>
         if HasPrefix (skip_space r) '','' then scan_list (skip_space (drop 1 (skip_space r)))
         else if HasPrefix (skip_space r) '']'' then Some (drop 1 (skip_space r)) else None)"
  by pat_completeness auto
termination
proof (relation "measure length", goal_cases)
  case (2 s a item r)
  have "length (skip_space (drop 1 (skip_space r))) \<le> length r"
    using length_skip_space [of r] length_skip_space [of "drop 1 (skip_space r)"] by simp
  with 2 scan_quoted_length [of s item r] show ?case by simp
qed simp

declare scan_list.simps [simp del]

definition scan_arg :: "string \<Rightarrow> string option" where
  "scan_arg s = (if HasPrefix s ''['' then scan_list (skip_space (drop 1 s))
     else map_option snd (scan_quoted s))"

text \<open>
  A call at the start of the input: direction, argument, type hint (empty when absent), and the
  rest of the input.
\<close>

definition scan_hint :: "string \<Rightarrow> (string \<times> string) option" where
  "scan_hint s = (if HasPrefix s '',''
     then (if HasPrefix (skip_space (drop 1 s)) [quote_char] then scan_quoted (skip_space (drop 1 s)) else None)
     else Some ([], s))"

definition scan_call :: "string \<Rightarrow> string \<Rightarrow> (string \<times> string \<times> string) option" where
  "scan_call name s =
     (if \<not> HasPrefix s name then None
      else let a = skip_space (drop (length name) s) in
      case scan_arg a of None \<Rightarrow> None
      | Some r \<Rightarrow> (case scan_hint (skip_space r) of None \<Rightarrow> None
         | Some (hint, r') \<Rightarrow> let r'' = skip_space r' in
             if HasPrefix r'' '')'' then Some (take (length a - length r) a, hint, drop 1 r'') else None))"

definition bodyJSONPattern :: "string \<Rightarrow> (string \<times> string \<times> string \<times> string) option" where
  "bodyJSONPattern s =
     (case scan_call ''responseBodyJSON('' s of Some (arg, hint, r) \<Rightarrow> Some (''response'', arg, hint, r)
      | None \<Rightarrow> (case scan_call ''requestBodyJSON('' s of Some (arg, hint, r) \<Rightarrow> Some (''request'', arg, hint, r)
        | None \<Rightarrow> None))"

lemma scan_list_length: "scan_list s = Some r \<Longrightarrow> length r < length s"
proof (induction s arbitrary: r rule: scan_list.induct)
  case (1 s)
  from "1.prems" obtain item u where q: "scan_quoted s = Some (item, u)"
    by (auto simp: scan_list.simps [of s] split: option.splits)
  have u: "length (skip_space u) < length s"
    using length_skip_space [of u] scan_quoted_length [OF q] by simp
  show ?case
  proof (cases "HasPrefix (skip_space u) '',''")
    case True
    with "1.prems" q have rest: "scan_list (skip_space (drop 1 (skip_space u))) = Some r"
      by (simp add: scan_list.simps [of s])
    have "length r < length (skip_space (drop 1 (skip_space u)))"
      by (rule "1.IH" [OF q refl True rest])
    with u length_skip_space [of "drop 1 (skip_space u)"] show ?thesis by simp
  next
    case False
    with "1.prems" q u show ?thesis by (auto simp: scan_list.simps [of s] split: if_splits)
  qed
qed

lemma scan_call_length: "scan_call name s = Some (arg, hint, r) \<Longrightarrow> length r < length s"
proof -
  assume "scan_call name s = Some (arg, hint, r)"
  then obtain u v where p: "HasPrefix s name" and u: "scan_arg (skip_space (drop (length name) s)) = Some u"
    and v: "scan_hint (skip_space u) = Some (hint, v)" and r: "r = drop 1 (skip_space v)"
    by (auto simp: scan_call_def Let_def split: if_splits option.splits)
  have "length u < length (skip_space (drop (length name) s))"
    using u length_skip_space [of "drop 1 (skip_space (drop (length name) s))"] scan_list_length
    by (fastforce simp: scan_arg_def split: if_splits dest: scan_quoted_length)
  moreover have "length v \<le> length (skip_space u)"
    using v length_skip_space [of "drop 1 (skip_space u)"]
    by (fastforce simp: scan_hint_def split: if_splits dest: scan_quoted_length)
  ultimately show ?thesis
    using r length_skip_space [of v] length_skip_space [of u] length_skip_space [of "drop (length name) s"]
    by simp
qed

lemma bodyJSONPattern_length: "bodyJSONPattern s = Some (d, arg, hint, r) \<Longrightarrow> length r < length s"
  by (auto simp: bodyJSONPattern_def split: option.splits dest: scan_call_length)

text \<open>\<open>FindAllStringSubmatch\<close>: matches from the left that do not overlap.\<close>

record bodyMatch =
  bm_All :: string
  bm_Direction :: string
  bm_Arg :: string
  bm_Hint :: string

function findBodyCalls :: "string \<Rightarrow> bodyMatch list" where
  "findBodyCalls s = (if s = [] then [] else case bodyJSONPattern s of
     Some (d, arg, hint, r) \<Rightarrow>
       \<lparr>bm_All = take (length s - length r) s, bm_Direction = d, bm_Arg = arg, bm_Hint = hint\<rparr> # findBodyCalls r
   | None \<Rightarrow> findBodyCalls (tl s))"
  by pat_completeness auto
termination
  by (relation "measure length") (auto dest: bodyJSONPattern_length)

declare findBodyCalls.simps [simp del]

text \<open>The quoted strings of a list argument.\<close>

function parsePointerList :: "string \<Rightarrow> string list" where
  "parsePointerList s = (if s = [] then [] else case scan_quoted s of
     Some (item, r) \<Rightarrow> item # parsePointerList r
   | None \<Rightarrow> parsePointerList (tl s))"
  by pat_completeness auto
termination
  by (relation "measure length") (auto dest: scan_quoted_length)

declare parsePointerList.simps [simp del]

section \<open>Identifiers\<close>

text \<open>The number of bytes of the first rune, one for an invalid byte, as \<open>utf8.DecodeRune\<close> reads it.\<close>

definition cont_byte :: "nat \<Rightarrow> nat \<Rightarrow> string \<Rightarrow> nat \<Rightarrow> bool" where
  "cont_byte lo hi s i \<longleftrightarrow> i < length s \<and> lo \<le> (of_char (s ! i) :: nat) \<and> (of_char (s ! i) :: nat) \<le> hi"

definition rune_width :: "string \<Rightarrow> nat" where
  "rune_width s = (let b = (of_char (s ! 0) :: nat); c = cont_byte 0x80 0xBF s in
     if b < 0x80 then 1
     else if 0xC2 \<le> b \<and> b \<le> 0xDF then (if c 1 then 2 else 1)
     else if b = 0xE0 then (if cont_byte 0xA0 0xBF s 1 \<and> c 2 then 3 else 1)
     else if b = 0xED then (if cont_byte 0x80 0x9F s 1 \<and> c 2 then 3 else 1)
     else if 0xE1 \<le> b \<and> b \<le> 0xEF then (if c 1 \<and> c 2 then 3 else 1)
     else if b = 0xF0 then (if cont_byte 0x90 0xBF s 1 \<and> c 2 \<and> c 3 then 4 else 1)
     else if 0xF1 \<le> b \<and> b \<le> 0xF3 then (if c 1 \<and> c 2 \<and> c 3 then 4 else 1)
     else if b = 0xF4 then (if cont_byte 0x80 0x8F s 1 \<and> c 2 \<and> c 3 then 4 else 1)
     else 1)"

lemma rune_width_pos [simp]: "0 < rune_width s"
  by (simp add: rune_width_def Let_def)

definition is_ident_char :: "char \<Rightarrow> bool" where
  "is_ident_char c = (let b = (of_char c :: nat) in
     (65 \<le> b \<and> b \<le> 90) \<or> (97 \<le> b \<and> b \<le> 122) \<or> (48 \<le> b \<and> b \<le> 57) \<or> c = CHR ''_'')"

definition is_digit :: "char \<Rightarrow> bool" where
  "is_digit c \<longleftrightarrow> 48 \<le> (of_char c :: nat) \<and> (of_char c :: nat) \<le> 57"

function identifierUnsafeChars :: "string \<Rightarrow> string" where
  "identifierUnsafeChars s = (if s = [] then []
     else if is_ident_char (hd s) then hd s # identifierUnsafeChars (tl s)
     else CHR ''_'' # identifierUnsafeChars (drop (rune_width s) s))"
  by pat_completeness auto
termination
  by (relation "measure length") auto

declare identifierUnsafeChars.simps [simp del]

definition sanitizeIdentifier :: "string \<Rightarrow> string" where
  "sanitizeIdentifier s =
     (let sanitized = Trim (identifierUnsafeChars s) ''_'' in
      if sanitized = [] then ''_''
      else if is_digit (sanitized ! 0) then ''_'' @ sanitized
      else sanitized)"

definition bodyRefFieldName :: "string \<Rightarrow> string" where
  "bodyRefFieldName jsonPointer =
     (let segments = Split (TrimPrefix jsonPointer ''/'') CHR ''/'' in sanitizeIdentifier (last segments))"

definition sanitizePointer :: "string \<Rightarrow> string" where
  "sanitizePointer pointer = sanitizeIdentifier (TrimPrefix pointer ''/'')"

definition bodyRefStorePath :: "string \<Rightarrow> string \<Rightarrow> string" where
  "bodyRefStorePath direction fieldName =
     (if direction = ''request'' then requestBodyStorePath @ ''.'' @ fieldName
      else responseBodyStorePath @ ''.'' @ fieldName)"

section \<open>Extracting references\<close>

definition bodyRefOf :: "bodyMatch \<Rightarrow> bodyRef option" where
  "bodyRefOf m =
     (if HasPrefix (bm_Arg m) ''[''
      then (let pointers = parsePointerList (bm_Arg m) in
        if length pointers = 0 then None
        else Some \<lparr>br_Original = bm_All m, br_Direction = bm_Direction m,
          br_FieldName = bodyRefFieldName (hd pointers),
          br_Pointer = Join pointers pointerListKeySep @ pointerListKeySep @ bm_Hint m\<rparr>)
      else (let p = Trim (bm_Arg m) [quote_char, single_quote] in
        Some \<lparr>br_Original = bm_All m, br_Direction = bm_Direction m,
          br_FieldName = bodyRefFieldName p, br_Pointer = p\<rparr>))"

fun extractBodyRefsLoop :: "string list \<Rightarrow> bodyMatch list \<Rightarrow> bodyRef list" where
  "extractBodyRefsLoop seen [] = []"
| "extractBodyRefsLoop seen (m # ms) =
     (if bm_All m \<in> set seen then extractBodyRefsLoop seen ms
      else (case bodyRefOf m of None \<Rightarrow> extractBodyRefsLoop (bm_All m # seen) ms
        | Some ref \<Rightarrow> ref # extractBodyRefsLoop (bm_All m # seen) ms))"

definition extractBodyRefs :: "string \<Rightarrow> bodyRef list" where
  "extractBodyRefs expr = extractBodyRefsLoop [] (findBodyCalls expr)"

section \<open>Derived identifiers are safe\<close>

text \<open>What CEL accepts as an identifier between two dots.\<close>

definition cel_identifier :: "string \<Rightarrow> bool" where
  "cel_identifier s \<longleftrightarrow> s \<noteq> [] \<and> list_all is_ident_char s \<and> \<not> is_digit (hd s)"

lemma identifierUnsafeChars_safe: "c \<in> set (identifierUnsafeChars s) \<Longrightarrow> is_ident_char c"
proof (induction s rule: identifierUnsafeChars.induct)
  case (1 s)
  have us: "is_ident_char CHR ''_''" by (simp add: is_ident_char_def)
  show ?case
  proof (cases "s = []")
    case True
    with "1.prems" show ?thesis by (simp add: identifierUnsafeChars.simps)
  next
    case False
    show ?thesis
    proof (cases "is_ident_char (hd s)")
      case True
      with "1.IH"(1) [OF False True] "1.prems" False show ?thesis
        by (auto simp: identifierUnsafeChars.simps [of s])
    next
      case unsafe: False
      with "1.IH"(2) [OF False unsafe] "1.prems" False us show ?thesis
        by (auto simp: identifierUnsafeChars.simps [of s])
    qed
  qed
qed

lemma set_Trim: "set (Trim s cs) \<subseteq> set s"
  by (auto simp: Trim_def dest!: set_dropWhileD)

lemma sanitizeIdentifier_cel: "cel_identifier (sanitizeIdentifier s)"
proof -
  have "is_ident_char c" if "c \<in> set (Trim (identifierUnsafeChars s) ''_'')" for c
    using that set_Trim identifierUnsafeChars_safe by blast
  moreover have "is_ident_char CHR ''_''" "\<not> is_digit CHR ''_''"
    by (simp_all add: is_ident_char_def is_digit_def)
  ultimately show ?thesis
    by (auto simp: sanitizeIdentifier_def cel_identifier_def Let_def list_all_iff hd_conv_nth)
qed

lemma bodyRefFieldName_cel: "cel_identifier (bodyRefFieldName p)"
  by (simp add: bodyRefFieldName_def Let_def sanitizeIdentifier_cel)

lemma sanitizePointer_cel: "cel_identifier (sanitizePointer p)"
  by (simp add: sanitizePointer_def sanitizeIdentifier_cel)

section \<open>What the scanner finds\<close>

lemma skip_space_suffix [simp]: "HasSuffix s (skip_space s)"
  by (simp add: skip_space_def)

lemma scan_quoted_suffix: "scan_quoted s = Some (t, r) \<Longrightarrow> HasSuffix s r"
  by (drule scan_quoted_split) (auto simp: HasSuffix_iff)

lemma scan_list_suffix: "scan_list s = Some r \<Longrightarrow> HasSuffix s r"
proof (induction s arbitrary: r rule: scan_list.induct)
  case (1 s)
  from "1.prems" obtain item u where q: "scan_quoted s = Some (item, u)"
    by (auto simp: scan_list.simps [of s] split: option.splits)
  have u: "HasSuffix s (drop 1 (skip_space u))"
    using scan_quoted_suffix [OF q] skip_space_suffix HasSuffix_drop HasSuffix_trans by blast
  show ?case
  proof (cases "HasPrefix (skip_space u) '',''")
    case True
    with "1.prems" q have "scan_list (skip_space (drop 1 (skip_space u))) = Some r"
      by (simp add: scan_list.simps [of s])
    from "1.IH" [OF q refl True this] u show ?thesis
      using skip_space_suffix HasSuffix_trans by blast
  next
    case False
    with "1.prems" q u show ?thesis by (auto simp: scan_list.simps [of s] split: if_splits)
  qed
qed

lemma scan_arg_suffix: "scan_arg s = Some r \<Longrightarrow> HasSuffix s r"
  unfolding scan_arg_def
  by (auto split: if_splits dest!: scan_list_suffix scan_quoted_suffix
      intro: HasSuffix_trans [OF HasSuffix_drop HasSuffix_trans [OF skip_space_suffix]])

lemma scan_hint_suffix: "scan_hint s = Some (hint, r) \<Longrightarrow> HasSuffix s r"
  unfolding scan_hint_def
  by (auto split: if_splits dest!: scan_quoted_suffix
      intro: HasSuffix_trans [OF HasSuffix_drop HasSuffix_trans [OF skip_space_suffix]])

lemma scan_call_suffix:
  assumes "scan_call name s = Some (arg, hint, r)"
  shows "HasSuffix s r"
proof -
  from assms obtain u v where u: "scan_arg (skip_space (drop (length name) s)) = Some u"
    and v: "scan_hint (skip_space u) = Some (hint, v)" and r: "r = drop 1 (skip_space v)"
    by (auto simp: scan_call_def Let_def split: if_splits option.splits)
  have "HasSuffix s u"
    using scan_arg_suffix [OF u] HasSuffix_drop skip_space_suffix HasSuffix_trans by blast
  moreover have "HasSuffix u r"
    using scan_hint_suffix [OF v] r HasSuffix_drop skip_space_suffix HasSuffix_trans by blast
  ultimately show ?thesis by (rule HasSuffix_trans)
qed

lemma bodyJSONPattern_suffix: "bodyJSONPattern s = Some (d, arg, hint, r) \<Longrightarrow> HasSuffix s r"
  by (auto simp: bodyJSONPattern_def split: option.splits dest: scan_call_suffix)

lemma bodyJSONPattern_direction: "bodyJSONPattern s = Some (d, arg, hint, r) \<Longrightarrow> d \<in> {''request'', ''response''}"
  by (auto simp: bodyJSONPattern_def split: option.splits)

lemma take_suffix: "HasSuffix s r \<Longrightarrow> take (length s - length r) s @ r = s"
  by (auto simp: HasSuffix_iff)

lemma findBodyCalls_sound:
  "m \<in> set (findBodyCalls s) \<Longrightarrow>
    Contains s (bm_All m) \<and> bm_All m \<noteq> [] \<and> bm_Direction m \<in> {''request'', ''response''}"
proof (induction s rule: findBodyCalls.induct)
  case (1 s)
  then have s: "s \<noteq> []" by (auto simp: findBodyCalls.simps [of s])
  show ?case
  proof (cases "bodyJSONPattern s")
    case None
    with "1.prems" s have "m \<in> set (findBodyCalls (tl s))" by (simp add: findBodyCalls.simps [of s])
    from "1.IH"(1) [OF s None this] s show ?thesis by (cases s) auto
  next
    case (Some x)
    obtain d arg hint r where x: "x = (d, arg, hint, r)" by (cases x)
    have m: "take (length s - length r) s @ r = s"
      using bodyJSONPattern_suffix Some x by (auto intro: take_suffix)
    have ne: "take (length s - length r) s \<noteq> []"
      using bodyJSONPattern_length Some x s by fastforce
    from "1.prems" s Some x consider
      "m = \<lparr>bm_All = take (length s - length r) s, bm_Direction = d, bm_Arg = arg, bm_Hint = hint\<rparr>"
      | "m \<in> set (findBodyCalls r)" by (auto simp: findBodyCalls.simps [of s])
    then show ?thesis
    proof cases
      case 1
      then show ?thesis using m ne bodyJSONPattern_direction Some x
        by (auto simp: Contains_iff) (metis append_Nil)
    next
      case 2
      from "1.IH"(2) [OF s Some x [symmetric] refl refl 2] m show ?thesis
        by (metis append_Nil2 Contains_append)
    qed
  qed
qed

lemma bodyRefOf_Original: "bodyRefOf m = Some ref \<Longrightarrow> br_Original ref = bm_All m \<and> br_Direction ref = bm_Direction m"
  by (auto simp: bodyRefOf_def Let_def split: if_splits)

lemma bodyRefOf_FieldName: "bodyRefOf m = Some ref \<Longrightarrow> cel_identifier (br_FieldName ref)"
  by (auto simp: bodyRefOf_def Let_def bodyRefFieldName_cel split: if_splits)

lemma extractLoop_from:
  "ref \<in> set (extractBodyRefsLoop seen ms) \<Longrightarrow> \<exists>m\<in>set ms. bodyRefOf m = Some ref \<and> bm_All m \<notin> set seen"
  by (induction seen ms rule: extractBodyRefsLoop.induct) (auto split: if_splits option.splits)

lemma extractLoop_distinct: "distinct (map br_Original (extractBodyRefsLoop seen ms))"
proof (induction seen ms rule: extractBodyRefsLoop.induct)
  case (2 seen m ms)
  then show ?case
    by (auto split: option.splits dest!: extractLoop_from bodyRefOf_Original)
qed simp

text \<open>
  The references extracted from an expression are calls that occur in it, each spelling
  once, with a direction that is \<open>request\<close> or \<open>response\<close> and a field name that CEL
  accepts as an identifier whatever characters the JSON pointer holds.
\<close>

theorem extractBodyRefs_sound:
  "distinct (map br_Original (extractBodyRefs expr)) \<and>
   (\<forall>ref\<in>set (extractBodyRefs expr). Contains expr (br_Original ref) \<and> br_Original ref \<noteq> [] \<and>
      br_Direction ref \<in> {''request'', ''response''} \<and> cel_identifier (br_FieldName ref))"
proof (intro conjI ballI)
  show "distinct (map br_Original (extractBodyRefs expr))"
    by (simp add: extractBodyRefs_def extractLoop_distinct)
  fix ref
  assume "ref \<in> set (extractBodyRefs expr)"
  then obtain m where m: "m \<in> set (findBodyCalls expr)" "bodyRefOf m = Some ref"
    by (auto simp: extractBodyRefs_def dest: extractLoop_from)
  note facts = findBodyCalls_sound [OF m(1)] bodyRefOf_Original [OF m(2)] bodyRefOf_FieldName [OF m(2)]
  show "Contains expr (br_Original ref)" "br_Original ref \<noteq> []" "br_Direction ref \<in> {''request'', ''response''}"
    "cel_identifier (br_FieldName ref)" using facts by simp_all
qed

theorem extractBodyRefs_sound_witness:
  "distinct (map br_Original (extractBodyRefs ''responseBodyJSON('/a/b-c')'')) \<and>
   list_all (\<lambda>ref. cel_identifier (br_FieldName ref)) (extractBodyRefs ''responseBodyJSON('/a/b-c')'')"
  using extractBodyRefs_sound [of "''responseBodyJSON('/a/b-c')''"] unfolding list_all_iff by blast

end
