(* ===== verification/Wasm_Action_Spec.thy ===== *)
theory Wasm_Action_Spec
  imports Wasm_Body_Refs
begin

text \<open>
  Action specifications and the actions built from them (\<open>internal/wasm/action_spec.go\<close>):
  the dispatch on the service, hoisting of body references into store actions, attaching data
  bindings along the pipeline, predicates, and the request and reply of each service.

  Maps that Go ranges over in no fixed order are lists here and are walked in list order.
\<close>

section \<open>Data\<close>

abbreviation RateLimitServiceName :: string where "RateLimitServiceName \<equiv> ''ratelimit-service''"
abbreviation RateLimitCheckServiceName :: string where "RateLimitCheckServiceName \<equiv> ''ratelimit-check-service''"
abbreviation RateLimitReportServiceName :: string where "RateLimitReportServiceName \<equiv> ''ratelimit-report-service''"
abbreviation RateLimitReserveServiceName :: string where "RateLimitReserveServiceName \<equiv> ''ratelimit-reserve-service''"
abbreviation RateLimitCommitServiceName :: string where "RateLimitCommitServiceName \<equiv> ''ratelimit-commit-service''"
abbreviation AuthServiceName :: string where "AuthServiceName \<equiv> ''auth-service''"

record ReservationSpec =
  resv_ID :: string
  resv_Amount :: string
  resv_TTL :: string
  resv_ActualAmount :: string

record DataBinding =
  db_Domain :: string
  db_Field :: string
  db_Expression :: string

record ConditionalData =
  cd_Predicates :: "string list"
  cd_Data :: "DataType list"

record ActionSpec =
  sp_ServiceName :: string
  sp_Scope :: string
  sp_Predicates :: "string list"
  sp_ConditionalData :: "ConditionalData list"
  sp_Sources :: "string list"
  sp_Bindings :: "DataBinding list"
  sp_Execution :: string
  sp_Reservation :: "ReservationSpec option"

record ActionSetSpec =
  ass_Name :: string
  ass_RouteRuleConditions :: RouteRuleConditions
  ass_Specs :: "ActionSpec list"
  ass_ExtensionActions :: "Action list"
  ass_SourceRoute :: string

fun dataHasAuth :: "DataType \<Rightarrow> bool" where
  "dataHasAuth (DataStatic v k) = False"
| "dataHasAuth (DataExpression k v) = Contains v ''auth.''"
| "dataHasAuth DataOther = False"

definition HasAuthAccess :: "ActionSpec \<Rightarrow> bool" where
  "HasAuthAccess s = list_ex (\<lambda>cd. list_ex (\<lambda>predicate. Contains predicate ''auth.'') (cd_Predicates cd) \<or>
     list_ex dataHasAuth (cd_Data cd)) (sp_ConditionalData s)"

definition AuthStorePath :: string where "AuthStorePath = ''auth''"

definition IsGuard :: "ActionSpec \<Rightarrow> bool" where
  "IsGuard s \<longleftrightarrow> sp_ServiceName s \<noteq> RateLimitReportServiceName \<and> sp_ServiceName s \<noteq> RateLimitCommitServiceName"

definition ProducedStorePaths :: "ActionSpec \<Rightarrow> string list" where
  "ProducedStorePaths s = (if sp_ServiceName s = AuthServiceName then [AuthStorePath] else [])"

section \<open>Small helpers\<close>

definition sortedKeys :: "(string, 'v) gomap \<Rightarrow> string list" where
  "sortedKeys m = sort_strings (map fst m)"

text \<open>\<open>seen\<close> holds what \<open>dest\<close> holds.\<close>

fun appendUnique :: "string list \<Rightarrow> string list \<Rightarrow> string list" where
  "appendUnique dest [] = dest"
| "appendUnique dest (item # items) =
     (if item \<notin> set dest then appendUnique (dest @ [item]) items else appendUnique dest items)"

definition andPredicate :: "string \<Rightarrow> string \<Rightarrow> string" where
  "andPredicate a b = (if a = ''true'' then b else if b = ''true'' then a
     else ''('' @ a @ '') && ('' @ b @ '')'')"

definition buildActionPredicate :: "string list \<Rightarrow> string" where
  "buildActionPredicate predicates = joinPredicates predicates ''&&''"

definition buildDescriptorPredicate :: "ConditionalData list \<Rightarrow> string" where
  "buildDescriptorPredicate conditionalData =
     (if length conditionalData = 0 then ''true''
      else if list_ex (\<lambda>cd. length (cd_Predicates cd) = 0) conditionalData then ''true''
      else let blockPredicates = map (\<lambda>cd. if length (cd_Predicates cd) = 1 then cd_Predicates cd ! 0
             else ''('' @ joinPredicates (cd_Predicates cd) ''&&'' @ '')'') conditionalData
        in if length blockPredicates = 1 then blockPredicates ! 0 else Join blockPredicates '' || '')"

definition buildRateLimitPredicate :: "string list \<Rightarrow> ConditionalData list \<Rightarrow> string" where
  "buildRateLimitPredicate actionPredicates conditionalData =
     (let actionPred = buildActionPredicate actionPredicates;
          conditionalPred = buildDescriptorPredicate conditionalData in
      if actionPred = ''true'' \<and> conditionalPred = ''true'' then ''true''
      else if actionPred = ''true'' then conditionalPred
      else if conditionalPred = ''true'' then actionPred
      else ''('' @ actionPred @ '') && ('' @ conditionalPred @ '')'')"

definition DomainAndFieldName :: "string \<Rightarrow> string \<times> string" where
  "DomainAndFieldName name = (case LastIndex name CHR ''.'' of None \<Rightarrow> ([], name)
     | Some idx \<Rightarrow> (take idx name, drop (idx + 1) name))"

section \<open>Bindings\<close>

definition isResponsePhaseExpression :: "string \<Rightarrow> bool" where
  "isResponsePhaseExpression expr \<longleftrightarrow> Contains expr ''responseBodyJSON('' \<or> Contains expr ''requestBodyJSON('' \<or>
     Contains expr responseBodyStorePath \<or> Contains expr requestBodyStorePath"

definition referencesPendingPath :: "string \<Rightarrow> string list \<Rightarrow> bool" where
  "referencesPendingPath expr pendingPaths = list_ex (\<lambda>path. Contains expr (path @ ''.'')) pendingPaths"

definition availableBindings :: "DataBinding list \<Rightarrow> string list \<Rightarrow> bool \<Rightarrow> DataBinding list" where
  "availableBindings bindings pendingPaths guard =
     (if length pendingPaths = 0 \<and> \<not> guard then bindings
      else filter (\<lambda>b. \<not> referencesPendingPath (db_Expression b) pendingPaths \<and>
        \<not> (guard \<and> isResponsePhaseExpression (db_Expression b))) bindings)"

text \<open>The second loop, with the set of pending paths as a list of its members.\<close>

fun attachLoop :: "DataBinding list \<Rightarrow> string list \<Rightarrow> ActionSpec list \<Rightarrow> ActionSpec list" where
  "attachLoop bindings pendingPaths [] = []"
| "attachLoop bindings pendingPaths (spec # specs) =
     (let pendingPaths = filter (\<lambda>p. p \<notin> set (ProducedStorePaths spec)) pendingPaths in
      spec\<lparr>sp_Bindings := sp_Bindings spec @ availableBindings bindings pendingPaths (IsGuard spec)\<rparr> #
        attachLoop bindings pendingPaths specs)"

definition AttachBindings :: "ActionSpec list \<Rightarrow> DataBinding list \<Rightarrow> ActionSpec list" where
  "AttachBindings specs bindings =
     (if length bindings = 0 then specs
      else attachLoop bindings (remdups (concat (map ProducedStorePaths specs))) specs)"

section \<open>Auth\<close>

definition metadataDomain :: "DataBinding \<Rightarrow> string" where
  "metadataDomain b = (if db_Domain b \<noteq> [] then ''io.kuadrant.'' @ db_Domain b else ''io.kuadrant'')"

definition groupByDomain :: "DataBinding list \<Rightarrow> (string, MetadataFieldCEL list) gomap" where
  "groupByDomain bindings = foldl (\<lambda>byDomain b.
     gm_set (metadataDomain b) (Deref (map_of byDomain (metadataDomain b)) [] @
       [\<lparr>mf_Key = db_Field b, mf_Expression = db_Expression b\<rparr>]) byDomain) [] bindings"

definition buildMetadataContext :: "DataBinding list \<Rightarrow> MetadataCEL" where
  "buildMetadataContext bindings =
     (if length bindings = 0 then []
      else map (\<lambda>(domain, fields). \<lparr>fm_Domain = domain, fm_Fields = fields\<rparr>)
        (go_sort (\<lambda>g h. fst g < fst h) (groupByDomain bindings)))"

definition buildAuthOnReply :: "string \<Rightarrow> Action list" where
  "buildAuthOnReply name = [
     NewDenyAction (''has('' @ name @ ''.denied_response)'')
       (''DenyResponse{status: ('' @ name @ ''.denied_response.status.code != 0) ? uint('' @ name @
        ''.denied_response.status.code) : 403u, headers: '' @ name @ ''.denied_response.headers, body: '' @
        name @ ''.denied_response.body}''),
     NewFailAction (''has('' @ name @ ''.ok_response) && ('' @ name @ ''.ok_response.response_headers_to_add.size() > 0 || '' @
        name @ ''.ok_response.headers_to_remove.size() > 0 || '' @ name @
        ''.ok_response.query_parameters_to_set.size() > 0 || '' @ name @
        ''.ok_response.query_parameters_to_remove.size() > 0)'')
       ''Unsupported field in OkHttpResponse'',
     WithExportToHost True (NewStoreAction
       (''has('' @ name @ ''.ok_response) && has('' @ name @ ''.dynamic_metadata)'')
       AuthStorePath (name @ ''.dynamic_metadata'')),
     NewHeadersAction (''has('' @ name @ ''.ok_response)'') HeaderTargetRequest (name @ ''.ok_response.headers''),
     NewFailAction (''!has('' @ name @ ''.denied_response) && !has('' @ name @ ''.ok_response)'')
       (''Auth response contained no http_response from '' @ name)]"

definition buildAuth :: "ActionSpec \<Rightarrow> Action" where
  "buildAuth s =
     (let request = \<lparr>cr_Scope = sp_Scope s, cr_MetadataContext = buildMetadataContext (sp_Bindings s)\<rparr>;
          predicate = buildActionPredicate (sp_Predicates s)
      in WithOnReply (buildAuthOnReply ''auth_response'') (WithSources (sp_Sources s)
           (NewGrpcAction predicate ''auth_response'' (sp_ServiceName s) (CheckRequest_ToCEL request) ''auth'')))"

section \<open>Rate limit requests\<close>

fun dataKey :: "DataType \<Rightarrow> string" where
  "dataKey (DataStatic v k) = k"
| "dataKey (DataExpression k v) = k"
| "dataKey DataOther = []"

definition isRateLimitKnownAttr :: "DataType \<Rightarrow> bool" where
  "isRateLimitKnownAttr d \<longleftrightarrow> dataKey d = ''ratelimit.domain'' \<or> dataKey d = ''ratelimit.hits_addend''"

definition ReservationAmountCEL :: "ActionSpec \<Rightarrow> string" where
  "ReservationAmountCEL s = (case sp_Reservation s of None \<Rightarrow> []
     | Some r \<Rightarrow> if resv_Amount r = [] then [] else ''uint('' @ resv_Amount r @ '')'')"

definition ReservationTTLCEL :: "ActionSpec \<Rightarrow> string" where
  "ReservationTTLCEL s = (case sp_Reservation s of None \<Rightarrow> [] | Some r \<Rightarrow> resv_TTL r)"

fun knownAttrCEL :: "string \<Rightarrow> DataType \<Rightarrow> string option" where
  "knownAttrCEL attrKey (DataStatic v k) = (if k = attrKey
     then Some (if attrKey = ''ratelimit.hits_addend'' then ''uint('' @ v @ '')'' else celQuote (escapeCELString v))
     else None)"
| "knownAttrCEL attrKey (DataExpression k v) = (if k = attrKey
     then Some (if attrKey = ''ratelimit.hits_addend'' then ''uint('' @ v @ '')'' else v) else None)"
| "knownAttrCEL attrKey DataOther = None"

text \<open>The two loops return at the first item with the key.\<close>

definition findRateLimitKnownAttrCEL :: "ConditionalData list \<Rightarrow> string \<Rightarrow> string" where
  "findRateLimitKnownAttrCEL conditionalData attrKey =
     (case List.map_filter (knownAttrCEL attrKey) (concat (map cd_Data conditionalData)) of
        [] \<Rightarrow> [] | v # _ \<Rightarrow> v)"

fun dataTypeToDescriptorEntry :: "DataType \<Rightarrow> DescriptorEntryCEL" where
  "dataTypeToDescriptorEntry (DataStatic v k) = \<lparr>de_Key = k, de_ValueCEL = celQuote (escapeCELString v)\<rparr>"
| "dataTypeToDescriptorEntry (DataExpression k v) = \<lparr>de_Key = k, de_ValueCEL = ''string('' @ v @ '')''\<rparr>"
| "dataTypeToDescriptorEntry DataOther = \<lparr>de_Key = [], de_ValueCEL = []\<rparr>"

definition cdEntries :: "ConditionalData \<Rightarrow> DescriptorEntryCEL list" where
  "cdEntries cd = map dataTypeToDescriptorEntry (filter (\<lambda>item. \<not> isRateLimitKnownAttr item) (cd_Data cd))"

definition cdStep ::
  "DescriptorEntryCEL list \<times> string list \<Rightarrow> ConditionalData \<Rightarrow> DescriptorEntryCEL list \<times> string list" where
  "cdStep acc cd = (case acc of (unconditionalEntries, entryListParts) \<Rightarrow>
     let entries = cdEntries cd in
     if length entries = 0 then acc
     else if length (cd_Predicates cd) = 0 then (unconditionalEntries @ entries, entryListParts)
     else (unconditionalEntries, entryListParts @ [conditionalEntriesCEL
       \<lparr>rd_Entries = entries, rd_Predicate = joinPredicates (cd_Predicates cd) ''&&'', rd_EntriesExpr = []\<rparr>]))"

definition conditionalDataToDescriptor :: "ConditionalData list \<Rightarrow> RateLimitDescriptorCEL option" where
  "conditionalDataToDescriptor conditionalData =
     (case foldl cdStep ([], []) conditionalData of (unconditionalEntries, entryListParts) \<Rightarrow>
      if length unconditionalEntries = 0 \<and> length entryListParts = 0 then None
      else let entryListParts = (if length unconditionalEntries > 0
             then entryListParts @ [''['' @ Join (map DescriptorEntry_ToCEL unconditionalEntries) '', '' @ '']'']
             else entryListParts) in
        if length entryListParts = 1 \<and> length unconditionalEntries > 0
        then Some \<lparr>rd_Entries = unconditionalEntries, rd_Predicate = [], rd_EntriesExpr = []\<rparr>
        else Some \<lparr>rd_Entries = [], rd_Predicate = [], rd_EntriesExpr = Join entryListParts '' + ''\<rparr>)"

definition bindingKey :: "DataBinding \<Rightarrow> string" where
  "bindingKey b = (if db_Domain b \<noteq> [] \<and> db_Domain b \<noteq> ''metrics.labels''
     then db_Domain b @ ''.'' @ db_Field b else db_Field b)"

definition bindingsToDescriptor :: "DataBinding list \<Rightarrow> RateLimitDescriptorCEL option" where
  "bindingsToDescriptor bindings =
     (if length bindings = 0 then None
      else Some \<lparr>rd_Entries = map (\<lambda>b. \<lparr>de_Key = bindingKey b, de_ValueCEL = ''string('' @ db_Expression b @ '')''\<rparr>) bindings,
        rd_Predicate = [], rd_EntriesExpr = []\<rparr>)"

definition collectDescriptors :: "ConditionalData list \<Rightarrow> DataBinding list \<Rightarrow> RateLimitDescriptorCEL list" where
  "collectDescriptors conditionalData bindings =
     (case conditionalDataToDescriptor conditionalData of Some desc \<Rightarrow> [desc] | None \<Rightarrow> []) @
     (case bindingsToDescriptor bindings of Some bindingDesc \<Rightarrow> [bindingDesc] | None \<Rightarrow> [])"

definition domainCEL :: "string \<Rightarrow> ConditionalData list \<Rightarrow> string" where
  "domainCEL scope conditionalData =
     (let domain = findRateLimitKnownAttrCEL conditionalData ''ratelimit.domain'' in
      if domain = [] then celQuote (escapeCELString scope) else domain)"

definition buildRateLimitRequest :: "string \<Rightarrow> ConditionalData list \<Rightarrow> DataBinding list \<Rightarrow> RateLimitRequestCEL" where
  "buildRateLimitRequest scope conditionalData bindings =
     (let domain = domainCEL scope conditionalData;
          hitsAddend = findRateLimitKnownAttrCEL conditionalData ''ratelimit.hits_addend'';
          hitsAddend = (if hitsAddend = [] then ''1u'' else hitsAddend)
      in \<lparr>rr_Domain = domain, rr_HitsAddend = hitsAddend,
          rr_Descriptors = collectDescriptors conditionalData bindings\<rparr>)"

definition buildReserveRequest ::
  "string \<Rightarrow> ConditionalData list \<Rightarrow> DataBinding list \<Rightarrow> ReservationSpec option \<Rightarrow> ReserveRequestCEL" where
  "buildReserveRequest scope conditionalData bindings reservation =
     (let domain = domainCEL scope conditionalData;
          amount = (case reservation of None \<Rightarrow> ''0u''
            | Some r \<Rightarrow> if resv_Amount r \<noteq> [] then ''uint('' @ resv_Amount r @ '')'' else ''0u'');
          ttl = (case reservation of None \<Rightarrow> [] | Some r \<Rightarrow> resv_TTL r)
      in \<lparr>rs_Domain = domain, rs_Amount = amount, rs_TTL = ttl,
          rs_Descriptors = collectDescriptors conditionalData bindings\<rparr>)"

definition buildCommitRequest ::
  "string \<Rightarrow> ConditionalData list \<Rightarrow> DataBinding list \<Rightarrow> string \<Rightarrow> string \<Rightarrow> string \<Rightarrow> string \<Rightarrow> CommitRequestCEL" where
  "buildCommitRequest scope conditionalData bindings storePath hasReservation rawActualAmount amountKnown =
     (let domain = domainCEL scope conditionalData;
          actualAmount = (if rawActualAmount \<noteq> []
            then ''('' @ amountKnown @ '') ? uint('' @ rawActualAmount @ '') : 0u'' else ''0u'');
          reservationID = ''('' @ hasReservation @ '') ? '' @ storePath @ '' : '' @ celQuote []
      in \<lparr>cm_Domain = domain, cm_ReservationID = reservationID, cm_ActualAmount = actualAmount,
          cm_Descriptors = collectDescriptors conditionalData bindings\<rparr>)"

section \<open>Replies of the rate limit services\<close>

definition escapedQuote :: string where "escapedQuote = [backslash, quote_char]"

definition tokenRateLimitDenyBody :: string where
  "tokenRateLimitDenyBody = celQuote (''{'' @ escapedQuote @ ''error'' @ escapedQuote @ '': {'' @ escapedQuote @
     ''message'' @ escapedQuote @ '': '' @ escapedQuote @ ''Too Many Requests'' @ escapedQuote @ '', '' @
     escapedQuote @ ''type'' @ escapedQuote @ '': '' @ escapedQuote @ ''rate_limit_exceeded'' @ escapedQuote @
     '', '' @ escapedQuote @ ''code'' @ escapedQuote @ '': 429}}'')"

definition tokenRateLimitDenyContentTypeHeader :: string where
  "tokenRateLimitDenyContentTypeHeader =
     ''['' @ celQuote ''content-type'' @ '', '' @ celQuote ''application/json'' @ '']''"

definition buildRateLimitOnReply :: "string \<Rightarrow> bool \<Rightarrow> Action list" where
  "buildRateLimitOnReply name tokenBased =
     (let denyBody = (if tokenBased then tokenRateLimitDenyBody
            else celQuote (''Too Many Requests'' @ [backslash, CHR ''n'']));
          denyHeaders = (if tokenBased
            then name @ ''.response_headers_to_add + ['' @ tokenRateLimitDenyContentTypeHeader @ '']''
            else name @ ''.response_headers_to_add'')
      in [NewDenyAction (name @ ''.overall_code == 2'')
            (''DenyResponse{status: 429u, headers: '' @ denyHeaders @ '', body: '' @ denyBody @ ''}''),
          NewHeadersAction (name @ ''.overall_code == 1'') HeaderTargetResponse (name @ ''.response_headers_to_add''),
          NewFailAction (name @ ''.overall_code != 1 && '' @ name @ ''.overall_code != 2'')
            (''Unknown rate limit response code from '' @ name)])"

definition buildReportOnReply :: "string \<Rightarrow> Action list" where
  "buildReportOnReply name = [WithGuard False (WithTerminal False
     (NewFailAction (''!has('' @ name @ ''.overall_code)'') ''Rate limit report failed: invalid gRPC response''))]"

definition buildReserveOnReply :: "string \<Rightarrow> string \<Rightarrow> Action list" where
  "buildReserveOnReply name rid = [
     NewDenyAction (name @ ''.code == 2'')
       (''DenyResponse{status: 429u, headers: ['' @ tokenRateLimitDenyContentTypeHeader @ ''], body: '' @
        tokenRateLimitDenyBody @ ''}''),
     NewStoreAction (name @ ''.code == 1 && has('' @ name @ ''.reservation_id)'')
       (reservationStorePath rid) (name @ ''.reservation_id''),
     NewFailAction (name @ ''.code != 1 && '' @ name @ ''.code != 2'')
       (''Unknown reserve response code from '' @ name)]"

definition buildCommitOnReply :: "string \<Rightarrow> Action list" where
  "buildCommitOnReply name = [WithGuard False (WithTerminal False
     (NewFailAction (''!has('' @ name @ ''.reservation_released)'') ''Reserve commit failed: invalid gRPC response''))]"

section \<open>Building one action\<close>

definition buildRateLimit :: "ActionSpec \<Rightarrow> string \<Rightarrow> bool \<Rightarrow> string \<Rightarrow> Action" where
  "buildRateLimit s responseVar isGuard label =
     (let request = buildRateLimitRequest (sp_Scope s) (sp_ConditionalData s) (sp_Bindings s);
          predicate = buildRateLimitPredicate (sp_Predicates s) (sp_ConditionalData s);
          onReply = (if isGuard then buildRateLimitOnReply responseVar (sp_ServiceName s = RateLimitCheckServiceName)
            else buildReportOnReply responseVar)
      in WithOnReply onReply (WithSources (sp_Sources s) (WithExecution (sp_Execution s) (WithGuard isGuard
           (NewGrpcAction predicate responseVar (sp_ServiceName s) (RateLimitRequest_ToCEL request) label)))))"

definition buildReserve :: "ActionSpec \<Rightarrow> Action" where
  "buildReserve s =
     (let rid = (case sp_Reservation s of None \<Rightarrow> [] | Some r \<Rightarrow> resv_ID r);
          request = buildReserveRequest (sp_Scope s) (sp_ConditionalData s) (sp_Bindings s) (sp_Reservation s);
          predicate = buildRateLimitPredicate (sp_Predicates s) (sp_ConditionalData s)
      in WithOnReply (buildReserveOnReply ''reserve_response'' rid) (WithSources (sp_Sources s)
           (WithExecution (sp_Execution s) (WithGuard True (NewGrpcAction predicate ''reserve_response''
             (sp_ServiceName s) (ReserveRequest_ToCEL request) ''ratelimit_reserve'')))))"

definition buildCommit :: "ActionSpec \<Rightarrow> Action" where
  "buildCommit s =
     (let rid = (case sp_Reservation s of None \<Rightarrow> [] | Some r \<Rightarrow> resv_ID r);
          rawActualAmount = (case sp_Reservation s of None \<Rightarrow> [] | Some r \<Rightarrow> resv_ActualAmount r);
          storePath = reservationStorePath rid;
          hasReservation = storePath @ '' != null'';
          amountKnown = (if rawActualAmount \<noteq> [] then ''('' @ rawActualAmount @ '') != null'' else ''false'');
          request = buildCommitRequest (sp_Scope s) (sp_ConditionalData s) (sp_Bindings s) storePath
            hasReservation rawActualAmount amountKnown;
          predicate = andPredicate (buildRateLimitPredicate (sp_Predicates s) (sp_ConditionalData s))
            (''('' @ hasReservation @ '') || ('' @ amountKnown @ '')'')
      in WithOnReply (buildCommitOnReply ''commit_response'') (WithSources (sp_Sources s)
           (WithExecution (sp_Execution s) (WithGuard False (NewGrpcAction predicate ''commit_response''
             (sp_ServiceName s) (CommitRequest_ToCEL request) ''ratelimit_commit'')))))"

definition Build :: "ActionSpec \<Rightarrow> Action" where
  "Build s =
     (if sp_ServiceName s = AuthServiceName then buildAuth s
      else if sp_ServiceName s = RateLimitServiceName \<or> sp_ServiceName s = RateLimitCheckServiceName
        then buildRateLimit s ''ratelimit_response'' True ''ratelimit''
      else if sp_ServiceName s = RateLimitReportServiceName
        then buildRateLimit s ''report_response'' False ''ratelimit_report''
      else if sp_ServiceName s = RateLimitReserveServiceName then buildReserve s
      else if sp_ServiceName s = RateLimitCommitServiceName then buildCommit s
      else WithSources (sp_Sources s) (NewFailAction ''true'' (''unknown service: '' @ sp_ServiceName s)))"

section \<open>Building all actions\<close>

record refEntry =
  re_ref :: bodyRef
  re_sources :: "string list"

type_synonym refsByDirection = "(string, (string, refEntry) gomap) gomap"

definition addRef :: "string list \<Rightarrow> refsByDirection \<Rightarrow> bodyRef \<Rightarrow> refsByDirection" where
  "addRef sources byDirection ref =
     (let flds = Deref (map_of byDirection (br_Direction ref)) [];
          old = (case map_of flds (br_Pointer ref) of None \<Rightarrow> [] | Some entry \<Rightarrow> re_sources entry);
          entry = \<lparr>re_ref = ref, re_sources = appendUnique old sources\<rparr>
      in gm_set (br_Direction ref) (gm_set (br_Pointer ref) entry flds) byDirection)"

fun dataExpression :: "DataType \<Rightarrow> string option" where
  "dataExpression (DataExpression k v) = Some v"
| "dataExpression _ = None"

text \<open>The expressions of a specification that may hold body references, in the order of the loops.\<close>

definition specExpressions :: "ActionSpec \<Rightarrow> string list" where
  "specExpressions spec =
     List.map_filter dataExpression (concat (map cd_Data (sp_ConditionalData spec))) @
     map db_Expression (sp_Bindings spec) @
     (case sp_Reservation spec of None \<Rightarrow> [] | Some r \<Rightarrow> [resv_ActualAmount r])"

definition collectRefs :: "ActionSpec list \<Rightarrow> refsByDirection" where
  "collectRefs specs = foldl (\<lambda>byDirection spec.
     foldl (addRef (sp_Sources spec)) byDirection (concat (map extractBodyRefs (specExpressions spec)))) [] specs"

text \<open>
  The loop that finds a free key.  \<open>usedKeys\<close> is finite and the candidates differ, so it ends;
  its fuel, one more than the number of used keys, is enough (\<open>freshKey_fresh\<close>).
\<close>

fun freshKeyLoop :: "nat \<Rightarrow> string list \<Rightarrow> string \<Rightarrow> nat \<Rightarrow> string \<Rightarrow> string" where
  "freshKeyLoop 0 usedKeys base n mapKey = mapKey"
| "freshKeyLoop (Suc fuel) usedKeys base n mapKey =
     (if mapKey \<in> set usedKeys then freshKeyLoop fuel usedKeys base (n + 1) (base @ ''_'' @ itoa n) else mapKey)"

definition freshKey :: "string list \<Rightarrow> string \<Rightarrow> string" where
  "freshKey usedKeys base = freshKeyLoop (length usedKeys + 1) usedKeys base 2 base"

definition leafCount :: "(string, refEntry) gomap \<Rightarrow> string \<Rightarrow> nat" where
  "leafCount flds name = length (filter (\<lambda>(p, entry). br_FieldName (re_ref entry) = name) flds)"

definition mapKeyBase :: "(string, refEntry) gomap \<Rightarrow> refEntry \<Rightarrow> string" where
  "mapKeyBase flds entry =
     (let mapKey = br_FieldName (re_ref entry) in
      if leafCount flds mapKey > 1 then sanitizePointer (br_Pointer (re_ref entry)) else mapKey)"

text \<open>The keys given to the entries, in the order of the sorted pointers.\<close>

fun assignKeys :: "(string, refEntry) gomap \<Rightarrow> string list \<Rightarrow> refEntry list \<Rightarrow> (string \<times> refEntry) list" where
  "assignKeys flds usedKeys [] = []"
| "assignKeys flds usedKeys (entry # entries) =
     (let mapKey = freshKey usedKeys (mapKeyBase flds entry) in
      (mapKey, entry) # assignKeys flds (mapKey # usedKeys) entries)"

definition sortedEntries :: "(string, refEntry) gomap \<Rightarrow> refEntry list" where
  "sortedEntries flds = List.map_filter (map_of flds) (sortedKeys flds)"

definition directionStore :: "string \<Rightarrow> (string, refEntry) gomap \<Rightarrow> Action" where
  "directionStore direction flds =
     (let keyed = assignKeys flds [] (sortedEntries flds);
          mapEntries = map (\<lambda>(mapKey, entry). celQuote mapKey @ '': '' @ br_Original (re_ref entry)) keyed;
          allSources = foldl (\<lambda>acc (mapKey, entry). appendUnique acc (re_sources entry)) [] keyed;
          storePath = (if direction = ''request'' then requestBodyStorePath else responseBodyStorePath)
      in WithSources allSources (WithGuard False
           (NewStoreAction ''true'' storePath (''{'' @ Join mapEntries '', '' @ ''}''))))"

definition directionReplacements ::
  "string \<Rightarrow> (string, refEntry) gomap \<Rightarrow> (string, string) gomap \<Rightarrow> (string, string) gomap" where
  "directionReplacements direction flds replacements =
     foldl (\<lambda>m (mapKey, entry). gm_set (br_Original (re_ref entry)) (bodyRefStorePath direction mapKey) m)
       replacements (assignKeys flds [] (sortedEntries flds))"

definition replaceAllRefs :: "(string, string) gomap \<Rightarrow> string \<Rightarrow> string" where
  "replaceAllRefs replacements s = foldl (\<lambda>v (original, storePath). ReplaceAll v original storePath) s replacements"

fun replaceInData :: "(string, string) gomap \<Rightarrow> DataType \<Rightarrow> DataType" where
  "replaceInData replacements (DataExpression k v) = DataExpression k (replaceAllRefs replacements v)"
| "replaceInData replacements item = item"

definition replaceBodyRefs :: "(string, string) gomap \<Rightarrow> ActionSpec \<Rightarrow> ActionSpec" where
  "replaceBodyRefs replacements s =
     s\<lparr>sp_ConditionalData := map (\<lambda>cd. \<lparr>cd_Predicates = cd_Predicates cd,
           cd_Data = map (replaceInData replacements) (cd_Data cd)\<rparr>) (sp_ConditionalData s),
       sp_Bindings := map (\<lambda>b. b\<lparr>db_Expression := replaceAllRefs replacements (db_Expression b)\<rparr>) (sp_Bindings s),
       sp_Reservation := map_option (\<lambda>r. r\<lparr>resv_ActualAmount := replaceAllRefs replacements (resv_ActualAmount r)\<rparr>)
         (sp_Reservation s)\<rparr>"

definition presentDirections :: "refsByDirection \<Rightarrow> (string \<times> (string, refEntry) gomap) list" where
  "presentDirections byDirection = List.map_filter (\<lambda>direction. map_option (\<lambda>flds. (direction, flds))
     (map_of byDirection direction)) [''request'', ''response'']"

definition BuildActions :: "ActionSpec list \<Rightarrow> Action list" where
  "BuildActions specs =
     (let byDirection = collectRefs specs in
      if length byDirection = 0 then map Build specs
      else let directions = presentDirections byDirection;
               storeActions = map (\<lambda>(direction, flds). directionStore direction flds) directions;
               replacements = foldl (\<lambda>m (direction, flds). directionReplacements direction flds m) [] directions
           in storeActions @ map (Build \<circ> replaceBodyRefs replacements) specs)"

section \<open>Guards, sources and execution\<close>

lemmas build_defs = Build_def buildAuth_def buildRateLimit_def buildReserve_def buildCommit_def

lemma Base_New [simp]:
  "Action_Base (NewDenyAction p d) = newBase p True"
  "Action_Base (NewHeadersAction p t h) = newBase p False"
  "Action_Base (NewStoreAction p q v) = newBase p False"
  "Action_Base (NewFailAction p m) = newBase p True"
  "Action_Base (NewGrpcAction p v s m l) = newBase p False"
  by (simp_all add: NewDenyAction_def NewHeadersAction_def NewStoreAction_def NewFailAction_def NewGrpcAction_def)

lemma newBase_sel [simp]:
  "ab_Predicate (newBase p t) = p" "ab_Terminal (newBase p t) = t" "ab_IsGuard (newBase p t)"
  "ab_Execution (newBase p t) = []" "ab_SourcePolicyLocators (newBase p t) = []"
  by (simp_all add: newBase_def)

text \<open>
  The action built from a specification runs in the phase the specification declares: it is
  a guard exactly when \<open>IsGuard\<close> says so, and it names exactly the policies of the
  specification as its sources, an unknown service included.
\<close>

theorem Build_phase_and_sources:
  "ab_IsGuard (Action_Base (Build s)) = IsGuard s \<and>
   ab_SourcePolicyLocators (Action_Base (Build s)) = sp_Sources s"
  by (simp add: build_defs IsGuard_def Let_def)

section \<open>Attaching bindings\<close>

lemma availableBindings_filter:
  "availableBindings bs pending guard =
     filter (\<lambda>b. \<not> referencesPendingPath (db_Expression b) pending \<and>
       \<not> (guard \<and> isResponsePhaseExpression (db_Expression b))) bs"
  by (auto simp: availableBindings_def referencesPendingPath_def intro!: filter_True [symmetric])

text \<open>
  The paths still to be produced when the pipeline reaches a position: those that a later
  specification produces and none up to this position does.
\<close>

definition pending_at :: "ActionSpec list \<Rightarrow> nat \<Rightarrow> string set" where
  "pending_at specs i = {p. (\<exists>j. i < j \<and> j < length specs \<and> p \<in> set (ProducedStorePaths (specs ! j))) \<and>
     (\<forall>j\<le>i. p \<notin> set (ProducedStorePaths (specs ! j)))}"

definition may_attach :: "ActionSpec list \<Rightarrow> nat \<Rightarrow> DataBinding \<Rightarrow> bool" where
  "may_attach specs i b \<longleftrightarrow> (\<forall>p\<in>pending_at specs i. \<not> Contains (db_Expression b) (p @ ''.'')) \<and>
     \<not> (IsGuard (specs ! i) \<and> isResponsePhaseExpression (db_Expression b))"

lemma length_attachLoop [simp]: "length (attachLoop bs pending specs) = length specs"
  by (induction bs pending specs rule: attachLoop.induct) (simp_all add: Let_def)

lemma attachLoop_nth:
  "i < length specs \<Longrightarrow> attachLoop bs pending specs ! i =
     (specs ! i)\<lparr>sp_Bindings := sp_Bindings (specs ! i) @ availableBindings bs
       (filter (\<lambda>p. \<forall>j\<le>i. p \<notin> set (ProducedStorePaths (specs ! j))) pending) (IsGuard (specs ! i))\<rparr>"
proof (induction bs pending specs arbitrary: i rule: attachLoop.induct)
  case (2 bs pending spec specs)
  show ?case
  proof (cases i)
    case 0
    then show ?thesis by (simp add: Let_def)
  next
    case (Suc i')
    have "(\<forall>j\<le>Suc i'. p \<notin> set (ProducedStorePaths ((spec # specs) ! j))) \<longleftrightarrow>
        p \<notin> set (ProducedStorePaths spec) \<and> (\<forall>j\<le>i'. p \<notin> set (ProducedStorePaths (specs ! j)))" for p
      by (simp add: All_less_Suc2 less_Suc_eq_le [symmetric])
    with 2 Suc show ?thesis by (simp add: Let_def conj_commute)
  qed
qed simp

lemma filter_referencesPending:
  "i < length specs \<Longrightarrow> referencesPendingPath e
     (filter (\<lambda>p. \<forall>j\<le>i. p \<notin> set (ProducedStorePaths (specs ! j))) (remdups (concat (map ProducedStorePaths specs)))) \<longleftrightarrow>
   (\<exists>p\<in>pending_at specs i. Contains e (p @ ''.''))"
proof -
  assume i: "i < length specs"
  have "p \<in> pending_at specs i \<longleftrightarrow> (\<forall>j\<le>i. p \<notin> set (ProducedStorePaths (specs ! j))) \<and>
      p \<in> set (concat (map ProducedStorePaths specs))" for p
  proof -
    have "p \<in> set (concat (map ProducedStorePaths specs)) \<longleftrightarrow>
        (\<exists>j<length specs. p \<in> set (ProducedStorePaths (specs ! j)))"
      by (auto simp: set_conv_nth [of specs])
    with i show ?thesis unfolding pending_at_def by (auto simp: not_le)  (metis not_le)
  qed
  then show ?thesis by (simp add: referencesPendingPath_def list_ex_iff) blast
qed

text \<open>
  Attaching bindings changes nothing but the bindings of the specifications, and each one
  receives, in order, exactly the bindings whose data can exist where it runs: none that reads a
  store path which only a later action produces, and on a guard none that reads a body.
\<close>

theorem AttachBindings_available:
  assumes "i < length specs"
  shows "length (AttachBindings specs bs) = length specs \<and>
    AttachBindings specs bs ! i =
      (specs ! i)\<lparr>sp_Bindings := sp_Bindings (specs ! i) @ filter (may_attach specs i) bs\<rparr>"
proof (cases "bs = []")
  case True
  then show ?thesis by (simp add: AttachBindings_def)
next
  case False
  have "availableBindings bs (filter (\<lambda>p. \<forall>j\<le>i. p \<notin> set (ProducedStorePaths (specs ! j)))
      (remdups (concat (map ProducedStorePaths specs)))) (IsGuard (specs ! i)) = filter (may_attach specs i) bs"
    unfolding availableBindings_filter may_attach_def filter_referencesPending [OF assms] by simp
  with False show ?thesis
    by (simp add: AttachBindings_def attachLoop_nth [OF assms])
qed

definition ex_spec :: "string \<Rightarrow> ActionSpec" where
  "ex_spec service = \<lparr>sp_ServiceName = service, sp_Scope = ''scope'', sp_Predicates = [],
     sp_ConditionalData = [], sp_Sources = [''policy''], sp_Bindings = [], sp_Execution = [], sp_Reservation = None\<rparr>"

definition ex_binding :: "string \<Rightarrow> DataBinding" where
  "ex_binding e = \<lparr>db_Domain = ''metrics.labels'', db_Field = ''f'', db_Expression = e\<rparr>"

theorem AttachBindings_available_witness:
  "AttachBindings [ex_spec RateLimitServiceName, ex_spec AuthServiceName, ex_spec RateLimitReportServiceName]
     [ex_binding ''auth.identity''] ! 1 =
   (ex_spec AuthServiceName)\<lparr>sp_Bindings := filter (may_attach
     [ex_spec RateLimitServiceName, ex_spec AuthServiceName, ex_spec RateLimitReportServiceName] 1) [ex_binding ''auth.identity'']\<rparr>"
  using AttachBindings_available [of 1 "[ex_spec RateLimitServiceName, ex_spec AuthServiceName, ex_spec RateLimitReportServiceName]"
      "[ex_binding ''auth.identity'']"]
  by (simp add: ex_spec_def [of AuthServiceName])

section \<open>Keys of hoisted body fields\<close>

lemma set_appendUnique: "set (appendUnique dest items) = set dest \<union> set items"
  by (induction dest items rule: appendUnique.induct) auto

lemma distinct_appendUnique: "distinct dest \<Longrightarrow> distinct (appendUnique dest items)"
  by (induction dest items rule: appendUnique.induct) auto

lemma appendUnique_prefix: "\<exists>more. appendUnique dest items = dest @ more"
proof (induction dest items rule: appendUnique.induct)
  case (2 dest item items)
  then show ?case by (cases "item \<in> set dest") auto
qed simp

lemma freshKeyLoop_tried:
  assumes "freshKeyLoop fuel used base n key \<in> set used"
  shows "key \<in> set used \<and> (\<forall>i<fuel. base @ ''_'' @ itoa (n + i) \<in> set used)"
  using assms
proof (induction fuel arbitrary: n key)
  case (Suc fuel)
  then have key: "key \<in> set used" by (auto split: if_splits)
  with Suc.prems have "freshKeyLoop fuel used base (n + 1) (base @ ''_'' @ itoa n) \<in> set used" by simp
  from Suc.IH [OF this] key show ?case
    by (auto simp: less_Suc_eq_0_disj)
qed simp

lemma freshKey_fresh: "freshKey used base \<notin> set used"
proof
  assume "freshKey used base \<in> set used"
  then have "\<forall>i<length used + 1. base @ ''_'' @ itoa (2 + i) \<in> set used"
    unfolding freshKey_def by (rule freshKeyLoop_tried [THEN conjunct2])
  then have "(\<lambda>i. base @ ''_'' @ itoa (2 + i)) ` {..<length used + 1} \<subseteq> set used" by blast
  then have "card ((\<lambda>i. base @ ''_'' @ itoa (2 + i)) ` {..<length used + 1}) \<le> length used"
    by (meson card_length card_mono finite_set le_trans)
  moreover have "inj_on (\<lambda>i. base @ ''_'' @ itoa (2 + i)) {..<length used + 1}"
    by (auto simp: inj_on_def dest: itoa_inj)
  ultimately show False by (simp add: card_image)
qed

lemma itoa_ident: "c \<in> set (itoa n) \<Longrightarrow> is_ident_char c"
  using itoa_digits [of c n] by (simp add: is_ident_char_def Let_def)

lemma cel_identifier_numbered: "cel_identifier base \<Longrightarrow> cel_identifier (base @ ''_'' @ itoa n)"
  using itoa_ident by (auto simp: cel_identifier_def list_all_iff) (simp add: is_ident_char_def)

lemma freshKeyLoop_cel:
  "cel_identifier base \<Longrightarrow> cel_identifier key \<Longrightarrow> cel_identifier (freshKeyLoop fuel used base n key)"
  by (induction fuel used base n key rule: freshKeyLoop.induct) (simp_all add: cel_identifier_numbered [simplified])

lemma freshKey_cel: "cel_identifier base \<Longrightarrow> cel_identifier (freshKey used base)"
  unfolding freshKey_def by (rule freshKeyLoop_cel)

lemma assignKeys_entries [simp]: "map snd (assignKeys flds used es) = es"
  by (induction flds used es rule: assignKeys.induct) (auto simp: Let_def)

lemma assignKeys_fresh: "k \<in> set (map fst (assignKeys flds used es)) \<Longrightarrow> k \<notin> set used"
proof (induction flds used es rule: assignKeys.induct)
  case (2 flds used entry es)
  then show ?case using freshKey_fresh [of used] by (auto simp: Let_def)
qed simp

lemma assignKeys_distinct: "distinct (map fst (assignKeys flds used es))"
proof (induction flds used es rule: assignKeys.induct)
  case (2 flds used entry es)
  then show ?case using assignKeys_fresh by (fastforce simp: Let_def)
qed simp

definition named_entry :: "refEntry \<Rightarrow> bool" where
  "named_entry e \<longleftrightarrow> cel_identifier (br_FieldName (re_ref e))"

lemma assignKeys_cel:
  "list_all named_entry es \<Longrightarrow> list_all cel_identifier (map fst (assignKeys flds used es))"
proof (induction flds used es rule: assignKeys.induct)
  case (2 flds used entry es)
  then have "cel_identifier (mapKeyBase flds entry)"
    by (simp add: mapKeyBase_def named_entry_def Let_def sanitizePointer_cel)
  with 2 show ?case by (simp add: Let_def freshKey_cel)
qed simp

lemma map_filter_map_of: "set ks \<subseteq> fst ` set m \<Longrightarrow> length (List.map_filter (map_of m) ks) = length ks"
proof (induction ks)
  case (Cons k ks)
  then obtain v where "map_of m k = Some v" by (cases "map_of m k") (auto simp: map_of_eq_None_fst)
  with Cons show ?case by (simp add: List.map_filter_simps)
qed (simp add: List.map_filter_simps)

text \<open>What collecting the references keeps: entries sit under their direction and pointer.\<close>

definition entry_ok :: "string \<Rightarrow> string \<Rightarrow> refEntry \<Rightarrow> bool" where
  "entry_ok d p e \<longleftrightarrow> named_entry e \<and> br_Direction (re_ref e) = d \<and> br_Pointer (re_ref e) = p"

definition refs_ok :: "refsByDirection \<Rightarrow> bool" where
  "refs_ok m \<longleftrightarrow> gm_wf m \<and> (\<forall>d flds. map_of m d = Some flds \<longrightarrow>
     d \<in> {''request'', ''response''} \<and> gm_wf flds \<and> (\<forall>p e. map_of flds p = Some e \<longrightarrow> entry_ok d p e))"

lemma refs_ok_addRef:
  assumes "refs_ok m" "br_Direction ref \<in> {''request'', ''response''}" "cel_identifier (br_FieldName ref)"
  shows "refs_ok (addRef sources m ref)"
proof -
  define flds where "flds = Deref (map_of m (br_Direction ref)) []"
  have flds: "gm_wf flds" "map_of flds p = Some e \<Longrightarrow> entry_ok (br_Direction ref) p e" for p e
    using assms(1) by (auto simp: flds_def refs_ok_def Deref_def split: option.splits)
  show ?thesis
    using assms flds unfolding addRef_def flds_def [symmetric] Let_def
    by (auto simp: refs_ok_def entry_ok_def named_entry_def)
qed

lemma refs_ok_foldl:
  "refs_ok m \<Longrightarrow> list_all (\<lambda>ref. br_Direction ref \<in> {''request'', ''response''} \<and> cel_identifier (br_FieldName ref)) refs \<Longrightarrow>
    refs_ok (foldl (addRef sources) m refs)"
proof (induction refs arbitrary: m)
  case (Cons ref refs)
  then show ?case using refs_ok_addRef by simp
qed simp

lemma extractBodyRefs_ok:
  "list_all (\<lambda>ref. br_Direction ref \<in> {''request'', ''response''} \<and> cel_identifier (br_FieldName ref)) (extractBodyRefs e)"
proof -
  have "br_Direction ref \<in> {''request'', ''response''} \<and> cel_identifier (br_FieldName ref)"
    if ref: "ref \<in> set (extractBodyRefs e)" for ref
  proof -
    from ref obtain m where m: "m \<in> set (findBodyCalls e)" "bodyRefOf m = Some ref"
      by (auto simp: extractBodyRefs_def dest: extractLoop_from)
    show ?thesis
      using findBodyCalls_sound [OF m(1)] bodyRefOf_Original [OF m(2)] bodyRefOf_FieldName [OF m(2)] by simp
  qed
  then show ?thesis by (simp add: list_all_iff)
qed

lemma refs_ok_collectRefs: "refs_ok (collectRefs specs)"
proof -
  have "refs_ok (foldl (\<lambda>m spec. foldl (addRef (sp_Sources spec)) m
      (concat (map extractBodyRefs (specExpressions spec)))) m specs)" if "refs_ok m" for m
    using that
  proof (induction specs arbitrary: m)
    case (Cons spec specs)
    have "list_all (\<lambda>ref. br_Direction ref \<in> {''request'', ''response''} \<and> cel_identifier (br_FieldName ref))
        (concat (map extractBodyRefs (specExpressions spec)))"
      using extractBodyRefs_ok by (fastforce simp: list_all_iff)
    with Cons refs_ok_foldl show ?case by simp
  qed simp
  moreover have "refs_ok []" by (simp add: refs_ok_def)
  ultimately show ?thesis by (simp add: collectRefs_def)
qed

lemma sortedEntries_sound: "gm_wf flds \<Longrightarrow> e \<in> set (sortedEntries flds) \<Longrightarrow> \<exists>p. map_of flds p = Some e"
  by (auto simp: sortedEntries_def List.map_filter_def)

lemma sortedEntries_pointers:
  assumes "gm_wf flds" "\<And>p e. map_of flds p = Some e \<Longrightarrow> br_Pointer (re_ref e) = p"
  shows "map (br_Pointer \<circ> re_ref) (sortedEntries flds) = sortedKeys flds"
proof -
  have "map (br_Pointer \<circ> re_ref) (List.map_filter (map_of flds) ks) = ks" if "set ks \<subseteq> fst ` set flds" for ks
    using that
  proof (induction ks)
    case (Cons k ks)
    then obtain v where "map_of flds k = Some v" by (cases "map_of flds k") (auto simp: map_of_eq_None_fst)
    with Cons assms(2) show ?case by (simp add: List.map_filter_simps)
  qed (simp add: List.map_filter_simps)
  then show ?thesis by (simp add: sortedEntries_def sortedKeys_def)
qed

text \<open>
  The fields hoisted from the bodies of one direction are one for each distinct JSON
  pointer, in the order of the pointers; they get pairwise different keys, so that no two pointers
  share a store path, and every key is an identifier that CEL can read back after a dot.
\<close>

theorem hoisted_keys_unique:
  assumes "map_of (collectRefs specs) direction = Some flds"
  defines "keyed \<equiv> assignKeys flds [] (sortedEntries flds)"
  shows "distinct (map fst keyed) \<and> list_all cel_identifier (map fst keyed) \<and>
    map (br_Pointer \<circ> re_ref \<circ> snd) keyed = sortedKeys flds \<and> distinct (sortedKeys flds)"
proof -
  have wf: "gm_wf flds" and ok: "\<And>p e. map_of flds p = Some e \<Longrightarrow> entry_ok direction p e"
    using refs_ok_collectRefs [of specs] assms(1) by (auto simp: refs_ok_def)
  have "list_all named_entry (sortedEntries flds)"
    using ok sortedEntries_sound [OF wf] by (fastforce simp: list_all_iff entry_ok_def)
  moreover have "map (br_Pointer \<circ> re_ref \<circ> snd) keyed = map (br_Pointer \<circ> re_ref) (map snd keyed)" by simp
  then have "map (br_Pointer \<circ> re_ref \<circ> snd) keyed = sortedKeys flds"
    using sortedEntries_pointers [OF wf] ok by (simp add: keyed_def entry_ok_def del: map_map)
  moreover have "distinct (sortedKeys flds)"
    using wf by (simp add: sortedKeys_def sort_strings_def)
  ultimately show ?thesis using assignKeys_distinct assignKeys_cel unfolding keyed_def by blast
qed

definition ex_body_spec :: ActionSpec where
  "ex_body_spec = (ex_spec RateLimitReportServiceName)\<lparr>sp_ConditionalData :=
     [\<lparr>cd_Predicates = [], cd_Data = [DataExpression ''k'' (''responseBodyJSON('' @ celQuote ''/a'' @ '')''),
       DataExpression ''l'' (''responseBodyJSON('' @ [single_quote] @ ''/a'' @ [single_quote] @ '')'')]\<rparr>]\<rparr>"

lemma ex_body_refs:
  "map_option (map fst) (map_of (collectRefs [ex_body_spec]) ''response'') = Some [''/a'']"
  by code_simp

theorem hoisted_keys_unique_witness:
  "\<exists>flds. map_of (collectRefs [ex_body_spec]) ''response'' = Some flds \<and>
     distinct (map fst (assignKeys flds [] (sortedEntries flds)))"
  using ex_body_refs hoisted_keys_unique [of "[ex_body_spec]" "''response''"] by auto

lemma freshKeyLoop_more:
  assumes "freshKeyLoop fuel used base n key \<notin> set used" and "fuel \<le> rounds"
  shows "freshKeyLoop rounds used base n key = freshKeyLoop fuel used base n key"
  using assms
proof (induction fuel arbitrary: n key rounds)
  case 0
  then show ?case by (cases rounds) simp_all
next
  case (Suc fuel)
  then obtain r where r: "rounds = Suc r" "fuel \<le> r" by (cases rounds) simp_all
  show ?case
  proof (cases "key \<in> set used")
    case True
    with Suc.prems(1) have "freshKeyLoop fuel used base (n + 1) (base @ ''_'' @ itoa n) \<notin> set used" by simp
    from Suc.IH [OF this r(2)] True r(1) show ?thesis by simp
  qed (use r(1) in simp)
qed

text \<open>
  The search for a free key ends: it needs at most as many rounds as there are used keys,
  plus one; with any larger number of rounds it gives the same key, and the key is not in use.
\<close>

theorem freshKey_terminates:
  assumes "length usedKeys < fuel"
  shows "freshKeyLoop fuel usedKeys base 2 base = freshKey usedKeys base \<and> freshKey usedKeys base \<notin> set usedKeys"
  using freshKey_fresh [of usedKeys base] freshKeyLoop_more [of "length usedKeys + 1" usedKeys base 2 base fuel] assms
  by (simp add: freshKey_def)

theorem freshKey_terminates_witness:
  "freshKeyLoop 7 [''user'', ''user_2''] ''user'' 2 ''user'' = ''user_3''"
proof -
  have "freshKey [''user'', ''user_2''] ''user'' = ''user_3''" by code_simp
  with freshKey_terminates [of "[''user'', ''user_2'']" 7 "''user''"] show ?thesis by simp
qed

section \<open>Building the whole pipeline\<close>

lemma Build_guard_aux: "ab_IsGuard (Action_Base (Build s)) = IsGuard s"
  and Build_sources_aux: "ab_SourcePolicyLocators (Action_Base (Build s)) = sp_Sources s"
  by (simp_all add: build_defs IsGuard_def Let_def)

lemma replaceBodyRefs_keeps [simp]:
  "sp_ServiceName (replaceBodyRefs r s) = sp_ServiceName s" "sp_Sources (replaceBodyRefs r s) = sp_Sources s"
  "IsGuard (replaceBodyRefs r s) = IsGuard s"
  by (simp_all add: replaceBodyRefs_def IsGuard_def)

lemma directionStore_base [simp]:
  "ab_IsGuard (Action_Base (directionStore d flds)) = False"
  "ActionType (directionStore d flds) = ''store''"
  by (simp_all add: directionStore_def Let_def WithSources_def WithGuard_def NewStoreAction_def)

lemma directionStore_path: "store_Path (directionStore d flds) =
    (if d = ''request'' then requestBodyStorePath else responseBodyStorePath)"
  by (simp add: directionStore_def Let_def WithSources_def WithGuard_def NewStoreAction_def)

text \<open>
  The pipeline built from specifications starts with at most one store action for the
  request body and then at most one for the response body, none of them a guard; it continues
  with one action for each specification, in order, in the phase and with the sources the
  specification has.
\<close>

theorem BuildActions_pipeline:
  "\<exists>stores. length (BuildActions specs) = length stores + length specs \<and>
    take (length stores) (BuildActions specs) = stores \<and>
    (\<exists>ds. map store_Path stores = ds \<and> ds \<in> {[], [requestBodyStorePath], [responseBodyStorePath],
       [requestBodyStorePath, responseBodyStorePath]}) \<and>
    list_all (\<lambda>a. ActionType a = ''store'' \<and> \<not> ab_IsGuard (Action_Base a)) stores \<and>
    map (\<lambda>a. (ab_IsGuard (Action_Base a), ab_SourcePolicyLocators (Action_Base a)))
      (drop (length stores) (BuildActions specs)) = map (\<lambda>s. (IsGuard s, sp_Sources s)) specs"
proof (cases "collectRefs specs = []")
  case True
  then show ?thesis
    by (intro exI [of _ "[]"]) (simp add: BuildActions_def Build_guard_aux Build_sources_aux)
next
  case False
  define directions where "directions = presentDirections (collectRefs specs)"
  define stores where "stores = map (\<lambda>(direction, flds). directionStore direction flds) directions"
  obtain r where build: "BuildActions specs = stores @ map (Build \<circ> replaceBodyRefs r) specs"
    using False by (auto simp: BuildActions_def Let_def stores_def directions_def)
  have "map store_Path stores \<in> {[], [requestBodyStorePath], [responseBodyStorePath], [requestBodyStorePath, responseBodyStorePath]}"
    by (simp add: stores_def directions_def presentDirections_def List.map_filter_simps directionStore_path
        split: option.splits)
  moreover have "list_all (\<lambda>a. ActionType a = ''store'' \<and> \<not> ab_IsGuard (Action_Base a)) stores"
    by (auto simp: stores_def list_all_iff)
  ultimately show ?thesis
    by (intro exI [of _ stores]) (simp add: build Build_guard_aux Build_sources_aux)
qed

lemma Contains_Join: "x \<in> set xs \<Longrightarrow> Contains x sub \<Longrightarrow> Contains (Join xs sep) sub"
proof (induction xs sep rule: Join.induct)
  case (3 x' y ys sep)
  then show ?case
    using Contains_append [of x' sub "[]" "sep @ Join (y # ys) sep"]
      Contains_append [of "Join (y # ys) sep" sub "x' @ sep" "[]"] by auto
qed auto

lemma CommitRequest_reservation:
  "Contains (CommitRequest_ToCEL r) (''reservation_id: '' @ cm_ReservationID r)"
proof -
  have "''    reservation_id: '' @ cm_ReservationID r @ '','' = ''    '' @ (''reservation_id: '' @ cm_ReservationID r) @ '',''"
    by simp
  then have "Contains (''    reservation_id: '' @ cm_ReservationID r @ '','') (''reservation_id: '' @ cm_ReservationID r)"
    unfolding Contains_iff by blast
  then show ?thesis unfolding CommitRequest_ToCEL_def by (rule Contains_Join [rotated]) simp
qed

text \<open>
  A reserve action and a commit action for the same reservation meet at one store path: the
  reserve action stores the reservation id there on reply, and the commit action runs on, and
  sends, what is stored there.
\<close>

theorem reserve_commit_paired:
  assumes "sp_ServiceName r = RateLimitReserveServiceName" "sp_ServiceName c = RateLimitCommitServiceName"
    and "sp_Reservation r = Some x" "sp_Reservation c = Some y" "resv_ID x = resv_ID y"
  defines "path \<equiv> reservationStorePath (resv_ID x)"
  shows "\<exists>d f. grpc_OnReply (Build r) = [d, NewStoreAction
      ''reserve_response.code == 1 && has(reserve_response.reservation_id)'' path ''reserve_response.reservation_id'', f] \<and>
    Contains (ab_Predicate (Action_Base (Build c))) (''('' @ path @ '' != null) || ('') \<and>
    Contains (grpc_MessageBuilder (Build c)) (''reservation_id: ('' @ path @ '' != null) ? '' @ path @ '' : '' @ celQuote [])"
proof -
  have reserve: "Build r = buildReserve r" using assms(1) by (simp add: Build_def)
  have commit: "Build c = buildCommit c" using assms(2) by (simp add: Build_def)
  have "\<exists>d f. grpc_OnReply (Build r) = [d, NewStoreAction
      ''reserve_response.code == 1 && has(reserve_response.reservation_id)'' path ''reserve_response.reservation_id'', f]"
    by (simp add: reserve buildReserve_def assms(3) Let_def buildReserveOnReply_def path_def NewGrpcAction_def
        WithGuard_def WithExecution_def WithSources_def)
  moreover have "Contains (ab_Predicate (Action_Base (Build c))) (''('' @ path @ '' != null) || ('')"
    unfolding commit buildCommit_def Let_def assms(4) assms(5) [symmetric] path_def [symmetric] option.case
    by (simp add: andPredicate_def Contains_iff) (metis append.assoc append_Cons append_Nil)
  moreover have "Contains (grpc_MessageBuilder (Build c))
      (''reservation_id: ('' @ path @ '' != null) ? '' @ path @ '' : '' @ celQuote [])"
  proof -
    define request where "request = buildCommitRequest (sp_Scope c) (sp_ConditionalData c) (sp_Bindings c) path
      (path @ '' != null'') (resv_ActualAmount y)
      (if resv_ActualAmount y \<noteq> [] then ''('' @ resv_ActualAmount y @ '') != null'' else ''false'')"
    have "grpc_MessageBuilder (Build c) = CommitRequest_ToCEL request"
      by (simp add: commit buildCommit_def Let_def assms(4) assms(5) [symmetric] path_def request_def NewGrpcAction_def
          WithGuard_def WithExecution_def WithSources_def)
    moreover have "cm_ReservationID request = ''('' @ path @ '' != null) ? '' @ path @ '' : '' @ celQuote []"
      by (simp add: request_def buildCommitRequest_def Let_def)
    ultimately show ?thesis using CommitRequest_reservation [of request] by simp
  qed
  ultimately show ?thesis by blast
qed

theorem reserve_commit_paired_witness:
  "\<exists>d f. grpc_OnReply (Build ((ex_spec RateLimitReserveServiceName)\<lparr>sp_Reservation := Some \<lparr>resv_ID = ''limit.a'', resv_Amount = ''100'',
        resv_TTL = [], resv_ActualAmount = []\<rparr>\<rparr>)) = [d, NewStoreAction
      ''reserve_response.code == 1 && has(reserve_response.reservation_id)''
      (reservationStorePath ''limit.a'') ''reserve_response.reservation_id'', f]"
  using reserve_commit_paired [of "(ex_spec RateLimitReserveServiceName)\<lparr>sp_Reservation := Some \<lparr>resv_ID = ''limit.a'', resv_Amount = ''100'',
        resv_TTL = [], resv_ActualAmount = []\<rparr>\<rparr>"
      "(ex_spec RateLimitCommitServiceName)\<lparr>sp_Reservation := Some \<lparr>resv_ID = ''limit.a'', resv_Amount = ''100'',
        resv_TTL = [], resv_ActualAmount = []\<rparr>\<rparr>"]
  by (simp add: ex_spec_def)

section \<open>Metadata of the auth request\<close>

abbreviation binding_field :: "DataBinding \<Rightarrow> MetadataFieldCEL" where
  "binding_field b \<equiv> \<lparr>mf_Key = db_Field b, mf_Expression = db_Expression b\<rparr>"

lemma groupByDomain_snoc:
  "groupByDomain (bs @ [b]) = gm_set (metadataDomain b)
     (Deref (map_of (groupByDomain bs) (metadataDomain b)) [] @ [binding_field b]) (groupByDomain bs)"
  by (simp add: groupByDomain_def)

lemma gm_wf_groupByDomain: "gm_wf (groupByDomain bs)"
  by (induction bs rule: rev_induct) (simp_all add: groupByDomain_snoc, simp add: groupByDomain_def)

lemma groupByDomain_lookup:
  "map_of (groupByDomain bs) d = (let bs' = filter (\<lambda>b. metadataDomain b = d) bs in
     if bs' = [] then None else Some (map binding_field bs'))"
proof (induction bs rule: rev_induct)
  case Nil
  then show ?case by (simp add: groupByDomain_def)
next
  case (snoc b bs)
  then show ?case by (auto simp: groupByDomain_snoc Let_def)
qed

interpretation domain_groups: go_weak_order "\<lambda>(g :: string \<times> MetadataFieldCEL list) h. fst g < fst h"
  by unfold_locales auto

lemma sorted_groups: "sorted (map fst (go_sort (\<lambda>(g :: string \<times> MetadataFieldCEL list) h. fst g < fst h) gs))"
  using domain_groups.go_sort_sorted [of gs] by (simp add: sorted_wrt_map not_less)

text \<open>
  The metadata of the auth request lists every domain once, in order, and under each domain
  exactly the fields of the bindings of that domain in the order of the bindings.
\<close>

theorem buildMetadataContext_groups:
  "sorted (map fm_Domain (buildMetadataContext bs)) \<and> distinct (map fm_Domain (buildMetadataContext bs)) \<and>
   (\<forall>d flds. \<lparr>fm_Domain = d, fm_Fields = flds\<rparr> \<in> set (buildMetadataContext bs) \<longleftrightarrow>
      flds \<noteq> [] \<and> flds = map binding_field (filter (\<lambda>b. metadataDomain b = d) bs))"
proof -
  define gs where "gs = go_sort (\<lambda>(g :: string \<times> MetadataFieldCEL list) h. fst g < fst h) (groupByDomain bs)"
  have ctx: "buildMetadataContext bs = map (\<lambda>(d, f). \<lparr>fm_Domain = d, fm_Fields = f\<rparr>) gs"
    by (auto simp: buildMetadataContext_def gs_def groupByDomain_def)
  have dom: "map fm_Domain (buildMetadataContext bs) = map fst gs"
    by (simp add: ctx comp_def case_prod_beta)
  have "distinct (map fst gs)"
    using gm_wf_groupByDomain [of bs] unfolding gs_def by (metis mset_go_sort mset_map mset_eq_imp_distinct_iff)
  moreover have "(d, flds) \<in> set gs \<longleftrightarrow> map_of (groupByDomain bs) d = Some flds" for d flds
    using gm_wf_groupByDomain [of bs] by (simp add: gs_def)
  then have "(d, flds) \<in> set gs \<longleftrightarrow> flds \<noteq> [] \<and> flds = map binding_field (filter (\<lambda>b. metadataDomain b = d) bs)" for d flds
    by (auto simp: groupByDomain_lookup Let_def)
  then have "\<lparr>fm_Domain = d, fm_Fields = flds\<rparr> \<in> set (buildMetadataContext bs) \<longleftrightarrow>
      flds \<noteq> [] \<and> flds = map binding_field (filter (\<lambda>b. metadataDomain b = d) bs)" for d flds
    by (auto simp: ctx)
  moreover have "sorted (map fst gs)" by (simp add: gs_def sorted_groups)
  ultimately show ?thesis unfolding dom by blast
qed

lemma LastIndex_None: "LastIndex s c = None \<longleftrightarrow> c \<notin> set s"
  by (induction s) (auto split: option.splits)

lemma LastIndex_Some: "LastIndex s c = Some i \<Longrightarrow> s = take i s @ c # drop (i + 1) s \<and> c \<notin> set (drop (i + 1) s)"
  by (induction s arbitrary: i) (auto split: option.splits if_splits simp: LastIndex_None)

text \<open>Splitting a binding key and joining the parts gives the key back; the field holds no dot.\<close>

lemma DomainAndFieldName_join:
  "let (domain, field) = DomainAndFieldName name in
     CHR ''.'' \<notin> set field \<and> (if CHR ''.'' \<in> set name then name = domain @ ''.'' @ field else domain = [] \<and> field = name)"
  by (cases "LastIndex name CHR ''.''")
    (use LastIndex_Some [of name "CHR ''.''"] LastIndex_None [of name "CHR ''.''"] in \<open>auto simp: DomainAndFieldName_def\<close>)

section \<open>Two flaws\<close>

text \<open>
  References are collected by their pointer, and only the last spelling of a pointer is replaced:
  with the same field written with double and with single quotes, the first stays in the message.
\<close>

lemma second_spelling_unreplaced:
  "length (BuildActions [ex_body_spec]) = 2 \<and>
   Contains (grpc_MessageBuilder (BuildActions [ex_body_spec] ! 1)) (''responseBodyJSON('' @ celQuote ''/a'' @ '')'')"
  by code_simp

text \<open>
  Blocks with one predicate each are joined without parentheses, so that a ternary predicate takes
  the rest of the disjunction into its last branch.
\<close>

lemma descriptor_predicates_unparenthesised:
  "buildDescriptorPredicate [\<lparr>cd_Predicates = [p], cd_Data = ds\<rparr>, \<lparr>cd_Predicates = [q], cd_Data = es\<rparr>] = p @ '' || '' @ q"
  by (simp add: buildDescriptorPredicate_def)

end
