(* ===== verification/Wasm_Config.thy ===== *)
theory Wasm_Config
  imports Wasm_Action_Spec Policy_Machinery
begin

text \<open>
  From the topology to the configuration of the wasm plugin (\<open>internal/wasm/utils.go\<close>): the
  services, the observability settings, the predicates of a route match, and the action sets of a
  path.

  Parameters: the environment (\<open>os.Getenv\<close> and \<open>env.GetString\<close>), \<open>sha256hex\<close> for the
  hexadecimal SHA-256 of a string, \<open>ruleNames\<close> for the names of the rules that the
  policy-machinery library derives from a route, and \<open>listenerGetName\<close> for the name it gives
  a listener.  Tracing spans and logs are left out.
\<close>

section \<open>Services\<close>

definition IsMergeableService :: "string \<Rightarrow> bool" where
  "IsMergeableService name \<longleftrightarrow> map_of [(RateLimitServiceName, True), (RateLimitCheckServiceName, True),
     (RateLimitReportServiceName, True)] name = Some True"

datatype LogLevel = LogLevelError | LogLevelWarn | LogLevelInfo | LogLevelDebug

fun LogLevel_rank :: "LogLevel \<Rightarrow> nat" where
  "LogLevel_rank LogLevelError = 0"
| "LogLevel_rank LogLevelWarn = 1"
| "LogLevel_rank LogLevelInfo = 2"
| "LogLevel_rank LogLevelDebug = 3"

fun LogLevel_String :: "LogLevel \<Rightarrow> string" where
  "LogLevel_String LogLevelError = ''ERROR''"
| "LogLevel_String LogLevelWarn = ''WARN''"
| "LogLevel_String LogLevelInfo = ''INFO''"
| "LogLevel_String LogLevelDebug = ''DEBUG''"

record environment =
  Getenv :: "string \<Rightarrow> string"
  GetString :: "string \<Rightarrow> string \<Rightarrow> string"

abbreviation FailureModeDeny :: string where "FailureModeDeny \<equiv> ''deny''"
abbreviation FailureModeAllow :: string where "FailureModeAllow \<equiv> ''allow''"

definition parseFailureModeValue :: "environment \<Rightarrow> string \<Rightarrow> string \<Rightarrow> string" where
  "parseFailureModeValue env envVarName defaultValue =
     (let val = Getenv env envVarName in
      if val = [] then defaultValue
      else if val = FailureModeAllow \<or> val = FailureModeDeny then val
      else defaultValue)"

definition AuthServiceTimeout :: "environment \<Rightarrow> string" where
  "AuthServiceTimeout env = GetString env ''AUTH_SERVICE_TIMEOUT'' ''200ms''"

definition AuthServiceFailureMode :: "environment \<Rightarrow> string" where
  "AuthServiceFailureMode env = parseFailureModeValue env ''AUTH_SERVICE_FAILURE_MODE'' FailureModeDeny"

definition RatelimitServiceTimeout :: "environment \<Rightarrow> string" where
  "RatelimitServiceTimeout env = GetString env ''RATELIMIT_SERVICE_TIMEOUT'' ''100ms''"

definition RatelimitServiceFailureMode :: "environment \<Rightarrow> string" where
  "RatelimitServiceFailureMode env = parseFailureModeValue env ''RATELIMIT_SERVICE_FAILURE_MODE'' FailureModeAllow"

definition RatelimitCheckServiceTimeout :: "environment \<Rightarrow> string" where
  "RatelimitCheckServiceTimeout env = GetString env ''RATELIMIT_CHECK_SERVICE_TIMEOUT'' ''100ms''"

definition RatelimitCheckServiceFailureMode :: "environment \<Rightarrow> string" where
  "RatelimitCheckServiceFailureMode env = parseFailureModeValue env ''RATELIMIT_CHECK_SERVICE_FAILURE_MODE'' FailureModeAllow"

definition RatelimitReportServiceTimeout :: "environment \<Rightarrow> string" where
  "RatelimitReportServiceTimeout env = GetString env ''RATELIMIT_REPORT_SERVICE_TIMEOUT'' ''100ms''"

definition RatelimitReportServiceFailureMode :: "environment \<Rightarrow> string" where
  "RatelimitReportServiceFailureMode env = parseFailureModeValue env ''RATELIMIT_REPORT_SERVICE_FAILURE_MODE'' FailureModeAllow"

definition RatelimitReserveServiceTimeout :: "environment \<Rightarrow> string" where
  "RatelimitReserveServiceTimeout env = GetString env ''RATELIMIT_RESERVE_SERVICE_TIMEOUT'' ''100ms''"

definition RatelimitReserveServiceFailureMode :: "environment \<Rightarrow> string" where
  "RatelimitReserveServiceFailureMode env = parseFailureModeValue env ''RATELIMIT_RESERVE_SERVICE_FAILURE_MODE'' FailureModeAllow"

definition RatelimitCommitServiceTimeout :: "environment \<Rightarrow> string" where
  "RatelimitCommitServiceTimeout env = GetString env ''RATELIMIT_COMMIT_SERVICE_TIMEOUT'' ''100ms''"

definition RatelimitCommitServiceFailureMode :: "environment \<Rightarrow> string" where
  "RatelimitCommitServiceFailureMode env = parseFailureModeValue env ''RATELIMIT_COMMIT_SERVICE_FAILURE_MODE'' FailureModeAllow"

definition TracingServiceTimeout :: "environment \<Rightarrow> string" where
  "TracingServiceTimeout env = GetString env ''TRACING_SERVICE_TIMEOUT'' ''100ms''"

definition TracingServiceFailureMode :: "environment \<Rightarrow> string" where
  "TracingServiceFailureMode env = parseFailureModeValue env ''TRACING_SERVICE_FAILURE_MODE'' FailureModeAllow"

definition ExtensionName :: "string \<Rightarrow> string" where
  "ExtensionName gatewayName = ''kuadrant-'' @ gatewayName"

definition TracingServiceName :: string where "TracingServiceName = ''tracing-service''"

definition DescriptorServiceClusterName :: string where "DescriptorServiceClusterName = ''kuadrant-operator-grpc''"

definition dynamicService :: "string \<Rightarrow> string \<Rightarrow> string \<Rightarrow> string \<Rightarrow> string \<Rightarrow> Service" where
  "dynamicService endpoint failureMode timeout grpcService grpcMethod =
     \<lparr>svc_Endpoint = endpoint, svc_Type = ''dynamic'', svc_FailureMode = failureMode, svc_Timeout = Some timeout,
      svc_GrpcService = Some grpcService, svc_GrpcMethod = Some grpcMethod\<rparr>"

type_synonym ServiceBuilder = "(string, Service) gomap"

definition NewServiceBuilder :: "environment \<Rightarrow> ServiceBuilder" where
  "NewServiceBuilder env = [
     (AuthServiceName, dynamicService ''kuadrant-auth-service'' (AuthServiceFailureMode env) (AuthServiceTimeout env)
        ''envoy.service.auth.v3.Authorization'' ''Check''),
     (RateLimitServiceName, dynamicService ''kuadrant-ratelimit-service'' (RatelimitServiceFailureMode env)
        (RatelimitServiceTimeout env) ''envoy.service.ratelimit.v3.RateLimitService'' ''ShouldRateLimit''),
     (RateLimitCheckServiceName, dynamicService ''kuadrant-ratelimit-service'' (RatelimitCheckServiceFailureMode env)
        (RatelimitCheckServiceTimeout env) ''kuadrant.service.ratelimit.v1.RateLimitService'' ''CheckRateLimit''),
     (RateLimitReportServiceName, dynamicService ''kuadrant-ratelimit-service'' (RatelimitReportServiceFailureMode env)
        (RatelimitReportServiceTimeout env) ''kuadrant.service.ratelimit.v1.RateLimitService'' ''Report''),
     (RateLimitReserveServiceName, dynamicService ''kuadrant-ratelimit-service'' (RatelimitReserveServiceFailureMode env)
        (RatelimitReserveServiceTimeout env) ''kuadrant.service.ratelimit.v1.RateLimitService'' ''Reserve''),
     (RateLimitCommitServiceName, dynamicService ''kuadrant-ratelimit-service'' (RatelimitCommitServiceFailureMode env)
        (RatelimitCommitServiceTimeout env) ''kuadrant.service.ratelimit.v1.RateLimitService'' ''Commit'')]"

definition ServiceBuilder_WithTracing :: "environment \<Rightarrow> ServiceBuilder \<Rightarrow> ServiceBuilder" where
  "ServiceBuilder_WithTracing env sb = gm_set TracingServiceName
     \<lparr>svc_Endpoint = ''kuadrant-tracing-service'', svc_Type = ''tracing'', svc_FailureMode = TracingServiceFailureMode env,
      svc_Timeout = Some (TracingServiceTimeout env), svc_GrpcService = None, svc_GrpcMethod = None\<rparr> sb"

definition ServiceBuilder_WithService :: "string \<Rightarrow> Service \<Rightarrow> ServiceBuilder \<Rightarrow> ServiceBuilder" where
  "ServiceBuilder_WithService name service sb = gm_set name service sb"

definition ServiceBuilder_Build :: "ServiceBuilder \<Rightarrow> (string, Service) gomap" where
  "ServiceBuilder_Build sb = sb"

section \<open>Observability\<close>

record LogLevelSpec =
  ll_Debug :: "string option"
  ll_Info :: "string option"
  ll_Warn :: "string option"
  ll_Error :: "string option"

record DataPlaneSpec =
  dp_DefaultLevels :: "LogLevelSpec list"
  dp_HTTPHeaderIdentifier :: "string option"

record ObservabilitySpec =
  ob_Enable :: bool
  ob_DataPlane :: "DataPlaneSpec option"
  ob_Tracing :: "string option"

text \<open>One entry of the loop over the levels; \<open>ob_Tracing\<close> is the default endpoint.\<close>

definition logLevelStep :: "LogLevel \<Rightarrow> LogLevelSpec \<Rightarrow> LogLevel" where
  "logLevelStep logLevel level =
     (let logLevel = (if ll_Debug level \<noteq> None then LogLevelDebug else logLevel);
          logLevel = (if ll_Info level \<noteq> None \<and> LogLevel_rank logLevel < LogLevel_rank LogLevelInfo then LogLevelInfo else logLevel);
          logLevel = (if ll_Warn level \<noteq> None \<and> LogLevel_rank logLevel < LogLevel_rank LogLevelWarn then LogLevelWarn else logLevel)
      in logLevel)"

definition BuildObservabilityConfig ::
  "environment \<Rightarrow> ServiceBuilder \<Rightarrow> ObservabilitySpec option \<Rightarrow> Observability option \<times> ServiceBuilder" where
  "BuildObservabilityConfig env serviceBuilder observabilitySpec =
     (case observabilitySpec of None \<Rightarrow> (None, serviceBuilder) | Some ob \<Rightarrow>
     (case ob_DataPlane ob of None \<Rightarrow> (None, serviceBuilder) | Some dataPlane \<Rightarrow>
      let logLevel = foldl logLevelStep LogLevelError (dp_DefaultLevels dataPlane);
          withTracing = (case ob_Tracing ob of None \<Rightarrow> False | Some endpoint \<Rightarrow> endpoint \<noteq> []);
          tracing = (if withTracing then Some \<lparr>tr_Service = TracingServiceName\<rparr> else None);
          serviceBuilder = (if withTracing then ServiceBuilder_WithTracing env serviceBuilder else serviceBuilder)
      in (Some \<lparr>obs_HTTPHeaderIdentifier = dp_HTTPHeaderIdentifier dataPlane,
            obs_DefaultLevel = Some (LogLevel_String logLevel), obs_Tracing = tracing\<rparr>, serviceBuilder)))"

definition BuildConfigForActionSet ::
  "environment \<Rightarrow> ActionSet list option \<Rightarrow> Observability option \<Rightarrow> ServiceBuilder option \<Rightarrow> Config" where
  "BuildConfigForActionSet env actionSets observability serviceBuilder =
     (let serviceBuilder = (case serviceBuilder of None \<Rightarrow> NewServiceBuilder env | Some sb \<Rightarrow> sb)
      in \<lparr>cfg_Services = Some (ServiceBuilder_Build serviceBuilder), cfg_ActionSets = actionSets,
          cfg_Observability = observability, cfg_DescriptorService = DescriptorServiceClusterName\<rparr>)"

section \<open>Predicates of a match\<close>

abbreviation sq :: string where "sq \<equiv> [single_quote]"

definition predicateFromPathMatch :: "HTTPPathMatch \<Rightarrow> string" where
  "predicateFromPathMatch pathMatch =
     (let attr = ''request.url_path'';
          val = Deref (path_Value pathMatch) ''/'';
          pathMatchType = Deref (path_Type pathMatch) PathMatchPathPrefix in
      if pathMatchType = PathMatchExact then attr @ '' == '' @ sq @ val @ sq
      else if pathMatchType = PathMatchPathPrefix then attr @ ''.startsWith('' @ sq @ val @ sq @ '')''
      else if pathMatchType = PathMatchRegularExpression then attr @ ''.matches('' @ sq @ val @ sq @ '')''
      else attr @ '' == '' @ sq @ val @ sq)"

definition predicateFromMethod :: "string \<Rightarrow> string" where
  "predicateFromMethod method = ''request.method == '' @ sq @ method @ sq"

definition headerPredicate :: "string \<Rightarrow> string \<Rightarrow> string" where
  "headerPredicate name val = ''request.headers.exists(h, h.lowerAscii() == '' @ sq @ ToLower name @ sq @
     '' && request.headers[h] == '' @ sq @ val @ sq @ '')''"

definition predicateFromHeader :: "HTTPHeaderMatch \<Rightarrow> string" where
  "predicateFromHeader headerMatch = headerPredicate (header_Name headerMatch) (header_Value headerMatch)"

definition predicateFromGRPCHeader :: "GRPCHeaderMatch \<Rightarrow> string" where
  "predicateFromGRPCHeader headerMatch = headerPredicate (gh_Name headerMatch) (gh_Value headerMatch)"

definition predicateFromQueryParam :: "HTTPQueryParamMatch \<Rightarrow> string" where
  "predicateFromQueryParam queryParam = sq @ query_Name queryParam @ sq @ '' in queryMap(request.query) ? queryMap(request.query)['' @
     sq @ query_Name queryParam @ sq @ ''] == '' @ sq @ query_Value queryParam @ sq @ '' : false''"

definition predicateFromGRPCMethod :: "GRPCMethodMatch \<Rightarrow> string" where
  "predicateFromGRPCMethod methodMatch =
     (let service = Deref (gm_Service methodMatch) []; method = Deref (gm_Method methodMatch) [];
          serviceType = Deref (gm_Type methodMatch) ''Exact''; attr = ''request.url_path'';
          hasService = (service \<noteq> []); hasMethod = (method \<noteq> []) in
      if \<not> hasService \<and> \<not> hasMethod then []
      else if serviceType = ''Exact'' then
        (if hasService \<and> hasMethod then attr @ '' == '' @ sq @ ''/'' @ service @ ''/'' @ method @ sq
         else if hasService then attr @ ''.startsWith('' @ sq @ ''/'' @ service @ ''/'' @ sq @ '')''
         else attr @ ''.matches('' @ sq @ ''^/[^/]+/'' @ method @ ''$'' @ sq @ '')'')
      else if hasService \<and> hasMethod then attr @ ''.matches('' @ sq @ ''^/'' @ service @ ''/'' @ method @ ''$'' @ sq @ '')''
      else if hasService then attr @ ''.matches('' @ sq @ ''^/'' @ service @ ''/.*$'' @ sq @ '')''
      else attr @ ''.matches('' @ sq @ ''^/[^/]+/'' @ method @ ''$'' @ sq @ '')'')"

text \<open>Query parameters: only the first match for each name counts.\<close>

fun queryPredicates :: "string list \<Rightarrow> HTTPQueryParamMatch list \<Rightarrow> string list" where
  "queryPredicates seen [] = []"
| "queryPredicates seen (q # qs) =
     (if query_Name q \<notin> set seen then predicateFromQueryParam q # queryPredicates (query_Name q # seen) qs
      else queryPredicates seen qs)"

definition PredicatesFromHTTPRouteMatch :: "HTTPRouteMatch \<Rightarrow> string list" where
  "PredicatesFromHTTPRouteMatch m =
     (case match_Method m of Some method \<Rightarrow> [predicateFromMethod method] | None \<Rightarrow> []) @
     (case match_Path m of Some path \<Rightarrow> [predicateFromPathMatch path] | None \<Rightarrow> []) @
     map predicateFromHeader (match_Headers m) @ queryPredicates [] (match_QueryParams m)"

definition PredicatesFromGRPCRouteMatch :: "GRPCRouteMatch \<Rightarrow> string list" where
  "PredicatesFromGRPCRouteMatch m =
     (case gr_Method m of Some method \<Rightarrow>
        (let predicate = predicateFromGRPCMethod method in if predicate \<noteq> [] then [predicate] else []) | None \<Rightarrow> []) @
     map predicateFromGRPCHeader (gr_Headers m)"

definition mkPath :: "string \<Rightarrow> string \<Rightarrow> HTTPPathMatch option" where
  "mkPath ty v = Some \<lparr>path_Type = Some ty, path_Value = Some v\<rparr>"

definition grpcMethodPath :: "GRPCMethodMatch \<Rightarrow> HTTPPathMatch option" where
  "grpcMethodPath m =
     (let service = Deref (gm_Service m) []; method = Deref (gm_Method m) []; matchType = Deref (gm_Type m) ''Exact'' in
      if matchType = ''RegularExpression'' then
        (if service \<noteq> [] \<and> method \<noteq> [] then mkPath PathMatchRegularExpression (''^/'' @ service @ ''/'' @ method @ ''$'')
         else if service \<noteq> [] then mkPath PathMatchRegularExpression (''^/'' @ service)
         else if method \<noteq> [] then mkPath PathMatchRegularExpression (''^/'' @ method)
         else None)
      else
        (if service \<noteq> [] \<and> method \<noteq> [] then mkPath PathMatchExact (''/'' @ service @ ''/'' @ method)
         else if service \<noteq> [] then mkPath PathMatchPathPrefix (''/'' @ service)
         else if method \<noteq> [] then mkPath PathMatchPathPrefix (''/'' @ method)
         else None))"

definition ConvertGRPCRouteMatchToHTTP :: "GRPCRouteMatch \<Rightarrow> HTTPRouteMatch" where
  "ConvertGRPCRouteMatchToHTTP m =
     \<lparr>match_Path = (case gr_Method m of None \<Rightarrow> None | Some method \<Rightarrow> grpcMethodPath method),
      match_Headers = map (\<lambda>h. \<lparr>header_Type = gh_Type h, header_Name = gh_Name h, header_Value = gh_Value h\<rparr>) (gr_Headers m),
      match_QueryParams = [], match_Method = None\<rparr>"

section \<open>Action sets\<close>

definition actionSetSource :: "string \<Rightarrow> nat \<Rightarrow> string \<Rightarrow> string" where
  "actionSetSource pathID httpRouteMatchIndex hostname =
     pathID @ ''|'' @ itoa (httpRouteMatchIndex + 1) @ ''|'' @ hostname"

definition ActionSetNameForPath :: "(string \<Rightarrow> string) \<Rightarrow> string \<Rightarrow> nat \<Rightarrow> string \<Rightarrow> string" where
  "ActionSetNameForPath sha256hex pathID httpRouteMatchIndex hostname =
     sha256hex (actionSetSource pathID httpRouteMatchIndex hostname)"

fun nameIndex :: "string list \<Rightarrow> string \<Rightarrow> nat" where
  "nameIndex [] name = 0"
| "nameIndex (n # ns) name = (if n = name then 0 else Suc (nameIndex ns name))"

definition httpRuleListIndex :: "(HTTPRouteMatch TopoRoute \<Rightarrow> string list) \<Rightarrow> HTTPRouteMatch TopoRoute \<Rightarrow> string \<Rightarrow> nat" where
  "httpRuleListIndex ruleNames route name =
     (let rules = ruleNames route in if name \<in> set rules then nameIndex rules name else length rules)"

definition grpcRuleListIndex :: "(GRPCRouteMatch TopoRoute \<Rightarrow> string list) \<Rightarrow> GRPCRouteMatch TopoRoute \<Rightarrow> string \<Rightarrow> nat" where
  "grpcRuleListIndex ruleNames route name =
     (let rules = ruleNames route in if name \<in> set rules then nameIndex rules name else length rules)"

definition defaultHTTPMatch :: HTTPRouteMatch where
  "defaultHTTPMatch = \<lparr>match_Path = mkPath PathMatchPathPrefix ''/'', match_Headers = [], match_QueryParams = [], match_Method = None\<rparr>"

definition defaultGRPCMatch :: GRPCRouteMatch where
  "defaultGRPCMatch = \<lparr>gr_Method = None, gr_Headers = []\<rparr>"

text \<open>The action set and the sort entry made for one hostname and one match of a rule.\<close>

definition matchConfig ::
  "(string \<Rightarrow> string) \<Rightarrow> string \<Rightarrow> Action list \<Rightarrow> string \<Rightarrow> 'm TopoRoute \<Rightarrow> nat \<Rightarrow> string \<Rightarrow> nat \<Rightarrow> HTTPRouteMatch \<Rightarrow>
   string list \<Rightarrow> ActionSet HTTPRouteMatchConfig" where
  "matchConfig sha256hex pathID actions kind route ruleIndex hostname j httpRouteMatch predicates =
     (let actionSet = \<lparr>as_Name = ActionSetNameForPath sha256hex pathID j hostname,
            as_RouteRuleConditions = \<lparr>rrc_Hostnames = Some [hostname],
              rrc_Predicates = (if length predicates > 0 then predicates else [])\<rparr>,
            as_Actions = actions,
            as_SourceRoute = kind @ ''/'' @ route_Namespace (tr_Route route) @ ''/'' @ route_Name (tr_Route route)\<rparr>
      in \<lparr>rm_Hostname = hostname, rm_HTTPRouteMatch = httpRouteMatch, rm_CreationTimestamp = tr_CreationTimestamp route,
          rm_Namespace = route_Namespace (tr_Route route), rm_Name = route_Name (tr_Route route),
          rm_RuleIndex = int ruleIndex, rm_MatchIndex = int j, rm_Identifier = pathID, rm_Config = actionSet\<rparr>)"

definition enumerate_matches :: "'m list \<Rightarrow> (nat \<times> 'm) list" where
  "enumerate_matches ms = zip [0..<length ms] ms"

definition BuildActionSetsForPath ::
  "(string \<Rightarrow> string) \<Rightarrow> (HTTPRouteMatch TopoRoute \<Rightarrow> string list) \<Rightarrow> (GRPCRouteMatch TopoRoute \<Rightarrow> string list) \<Rightarrow>
   string \<Rightarrow> targetable list \<Rightarrow> Action list \<Rightarrow> string + ActionSet HTTPRouteMatchConfig list" where
  "BuildActionSetsForPath sha256hex httpRuleNames grpcRuleNames pathID path actions =
     ebind (ParseTopologyPath path) (\<lambda>parsed.
     case (ptp_RouteType parsed, ptp_Listener parsed, ptp_HTTPRoute parsed, ptp_HTTPRouteRule parsed,
           ptp_GRPCRoute parsed, ptp_GRPCRouteRule parsed) of
       (RouteTypeHTTP, Some listener, Some route, Some rule, _, _) \<Rightarrow>
         (let ruleIndex = httpRuleListIndex httpRuleNames route (trr_Name rule);
              hostnames = HostnamesFromListenerAndHTTPRoute (tl_Listener listener) (tr_Route route);
              matches = (if length (trr_Matches rule) = 0 then [defaultHTTPMatch] else trr_Matches rule)
          in Inr (concat (map (\<lambda>hostname. map (\<lambda>(j, m).
               matchConfig sha256hex pathID actions ''HTTPRoute'' route ruleIndex hostname j m
                 (PredicatesFromHTTPRouteMatch m)) (enumerate_matches matches)) hostnames)))
     | (RouteTypeGRPC, Some listener, _, _, Some route, Some rule) \<Rightarrow>
         (let ruleIndex = grpcRuleListIndex grpcRuleNames route (trr_Name rule);
              hostnames = HostnamesFromListenerAndHTTPRoute (tl_Listener listener) (tr_Route route);
              matches = (if length (trr_Matches rule) = 0 then [defaultGRPCMatch] else trr_Matches rule)
          in Inr (concat (map (\<lambda>hostname. map (\<lambda>(j, m).
               matchConfig sha256hex pathID actions ''GRPCRoute'' route ruleIndex hostname j
                 (ConvertGRPCRouteMatchToHTTP m) (PredicatesFromGRPCRouteMatch m)) (enumerate_matches matches)) hostnames)))
     | _ \<Rightarrow> Inr [])"

definition skeletonSets ::
  "(string \<Rightarrow> string) \<Rightarrow> string \<Rightarrow> string \<Rightarrow> string \<Rightarrow> string list \<Rightarrow> string list list list \<Rightarrow> ActionSet list" where
  "skeletonSets sha256hex routeNamespace routeName listenerName hostnames matchPredicates =
     concat (map (\<lambda>(ruleIdx, rulePreds). concat (map (\<lambda>hostname. map (\<lambda>(matchIdx, predicates).
       \<lparr>as_Name = ActionSetNameForPath sha256hex (''ext|'' @ routeNamespace @ ''/'' @ routeName @ ''|'' @ listenerName @
            ''|rule-'' @ itoa ruleIdx) matchIdx hostname,
        as_RouteRuleConditions = \<lparr>rrc_Hostnames = Some [hostname], rrc_Predicates = predicates\<rparr>,
        as_Actions = [], as_SourceRoute = []\<rparr>)
       (enumerate_matches rulePreds)) hostnames)) (enumerate_matches matchPredicates))"

definition BuildSkeletonActionSetsForRoute ::
  "(string \<Rightarrow> string) \<Rightarrow> (TopoListener \<Rightarrow> string) \<Rightarrow> TopoListener \<Rightarrow> targetable \<Rightarrow> ActionSet list go_result" where
  "BuildSkeletonActionSetsForRoute sha256hex listenerGetName listener route = (case route of
     THTTPRoute (Some r) \<Rightarrow> Return
       (skeletonSets sha256hex (route_Namespace (tr_Route r)) (route_Name (tr_Route r)) (listenerGetName listener)
         (HostnamesFromListenerAndHTTPRoute (tl_Listener listener) (tr_Route r))
         (map (\<lambda>matches. map PredicatesFromHTTPRouteMatch (if length matches = 0 then [defaultHTTPMatch] else matches)) (tr_Rules r)))
   | TGRPCRoute (Some r) \<Rightarrow> Return
       (skeletonSets sha256hex (route_Namespace (tr_Route r)) (route_Name (tr_Route r)) (listenerGetName listener)
         (HostnamesFromListenerAndHTTPRoute (tl_Listener listener) (tr_Route r))
         (map (\<lambda>matches. map PredicatesFromGRPCRouteMatch (if length matches = 0 then [defaultGRPCMatch] else matches)) (tr_Rules r)))
   | THTTPRoute None \<Rightarrow> Panic ''nil pointer dereference''
   | TGRPCRoute None \<Rightarrow> Panic ''nil pointer dereference''
   | _ \<Rightarrow> Return [])"

definition countActionsByService :: "Action list \<Rightarrow> (string, int) gomap" where
  "countActionsByService actions = foldl (\<lambda>counts a.
     let key = (case a of GrpcAction b v s l m rs \<Rightarrow> s | _ \<Rightarrow> ActionType a)
     in gm_set key (Deref (map_of counts key) 0 + 1) counts) [] actions"

section \<open>Failure modes and services\<close>

lemma parseFailureModeValue_cases:
  "parseFailureModeValue env name d = (if Getenv env name \<in> {FailureModeAllow, FailureModeDeny} then Getenv env name else d)"
  by (auto simp: parseFailureModeValue_def Let_def)

text \<open>
  The auth service fails closed: requests pass when it cannot be reached only if the
  environment says \<open>allow\<close> in so many words; unset or misspelt values deny.
\<close>

theorem auth_fails_closed:
  "AuthServiceFailureMode env \<in> {FailureModeAllow, FailureModeDeny} \<and>
   (AuthServiceFailureMode env = FailureModeAllow \<longleftrightarrow> Getenv env ''AUTH_SERVICE_FAILURE_MODE'' = FailureModeAllow)"
  by (simp add: AuthServiceFailureMode_def parseFailureModeValue_cases)

lemma NewServiceBuilder_names:
  "map fst (NewServiceBuilder env) = [AuthServiceName, RateLimitServiceName, RateLimitCheckServiceName,
     RateLimitReportServiceName, RateLimitReserveServiceName, RateLimitCommitServiceName]"
  by (simp add: NewServiceBuilder_def)

text \<open>Services that an action calls.\<close>

fun calledService :: "Action \<Rightarrow> string option" where
  "calledService (GrpcAction b v s l m rs) = Some s"
| "calledService _ = None"

lemma calledService_With [simp]:
  "calledService (WithSources ss a) = calledService a" "calledService (WithGuard g a) = calledService a"
  "calledService (WithExecution e a) = calledService a" "calledService (WithOnReply rs a) = calledService a"
  by (cases a; simp add: WithSources_def WithGuard_def WithExecution_def)+

lemma calledService_Build:
  "calledService (Build s) = (if sp_ServiceName s \<in> set (map fst (NewServiceBuilder env)) then Some (sp_ServiceName s) else None)"
  by (simp add: build_defs Let_def NewServiceBuilder_names NewGrpcAction_def)
    (simp add: NewFailAction_def WithSources_def)

lemma calledService_BuildActions:
  assumes "a \<in> set (BuildActions specs)" "calledService a = Some service"
  shows "service \<in> set (map fst (NewServiceBuilder env))"
proof -
  have store: "calledService (directionStore d flds) = None" for d flds
    by (simp add: directionStore_def Let_def NewStoreAction_def WithGuard_def WithSources_def)
  from assms(1) consider s where "a = Build s" | d flds where "a = directionStore d flds"
    by (fastforce simp: BuildActions_def Let_def split: if_splits)
  then show ?thesis
    using assms(2) store calledService_Build [of _ env] by cases (auto split: if_splits)
qed

section \<open>Observability\<close>

lemma logLevelStep_rank:
  "LogLevel_rank (logLevelStep l s) = Max ({LogLevel_rank l} \<union> (if ll_Debug s \<noteq> None then {3} else {}) \<union>
     (if ll_Info s \<noteq> None then {2} else {}) \<union> (if ll_Warn s \<noteq> None then {1} else {}))"
  by (cases l) (auto simp: logLevelStep_def Let_def)

lemma foldl_logLevel:
  "k \<le> LogLevel_rank (foldl logLevelStep l specs) \<longleftrightarrow> k \<le> LogLevel_rank l \<or>
    (\<exists>s\<in>set specs. k \<le> 3 \<and> ll_Debug s \<noteq> None \<or> k \<le> 2 \<and> ll_Info s \<noteq> None \<or> k \<le> 1 \<and> ll_Warn s \<noteq> None)"
proof (induction specs arbitrary: l)
  case (Cons s specs)
  have "k \<le> LogLevel_rank (logLevelStep l s) \<longleftrightarrow> k \<le> LogLevel_rank l \<or>
      (k \<le> 3 \<and> ll_Debug s \<noteq> None \<or> k \<le> 2 \<and> ll_Info s \<noteq> None \<or> k \<le> 1 \<and> ll_Warn s \<noteq> None)"
    by (auto simp: logLevelStep_rank)
  with Cons show ?case by auto
qed simp

lemma LogLevel_rank_inj: "LogLevel_rank a = LogLevel_rank b \<longleftrightarrow> a = b"
  by (cases a; cases b) auto

text \<open>
  The log level sent to the data plane is the most verbose one that any entry sets, and
  \<open>ERROR\<close> when none does.
\<close>

theorem observability_level:
  assumes "ob_DataPlane ob = Some dp"
  defines "levels \<equiv> set (dp_DefaultLevels dp)"
  shows "map_option obs_DefaultLevel (fst (BuildObservabilityConfig env sb (Some ob))) = Some (Some (
    if \<exists>l\<in>levels. ll_Debug l \<noteq> None then ''DEBUG'' else if \<exists>l\<in>levels. ll_Info l \<noteq> None then ''INFO''
    else if \<exists>l\<in>levels. ll_Warn l \<noteq> None then ''WARN'' else ''ERROR''))"
proof -
  define l where "l = foldl logLevelStep LogLevelError (dp_DefaultLevels dp)"
  have "LogLevel_String l = (if 3 \<le> LogLevel_rank l then ''DEBUG'' else if 2 \<le> LogLevel_rank l then ''INFO''
      else if 1 \<le> LogLevel_rank l then ''WARN'' else ''ERROR'')"
    by (cases l) auto
  also have "\<dots> = (if \<exists>l\<in>levels. ll_Debug l \<noteq> None then ''DEBUG'' else if \<exists>l\<in>levels. ll_Info l \<noteq> None then ''INFO''
      else if \<exists>l\<in>levels. ll_Warn l \<noteq> None then ''WARN'' else ''ERROR'')"
    unfolding l_def levels_def foldl_logLevel by auto
  finally show ?thesis
    using assms(1) by (simp add: BuildObservabilityConfig_def Let_def l_def [symmetric])
qed

text \<open>Whether observability is enabled makes no difference to the data plane configuration.\<close>

lemma observability_ignores_enable:
  "BuildObservabilityConfig env sb (Some (ob\<lparr>ob_Enable := e\<rparr>)) = BuildObservabilityConfig env sb (Some ob)"
  by (cases "ob_DataPlane ob") (simp_all add: BuildObservabilityConfig_def)

definition ex_env :: environment where
  "ex_env = \<lparr>Getenv = (\<lambda>_. []), GetString = (\<lambda>_ d. d)\<rparr>"

definition ex_observability :: ObservabilitySpec where
  "ex_observability = \<lparr>ob_Enable = True, ob_DataPlane = Some \<lparr>dp_DefaultLevels =
       [\<lparr>ll_Debug = None, ll_Info = None, ll_Warn = Some ''true'', ll_Error = None\<rparr>,
        \<lparr>ll_Debug = None, ll_Info = Some ''true'', ll_Warn = None, ll_Error = None\<rparr>],
       dp_HTTPHeaderIdentifier = None\<rparr>, ob_Tracing = Some ''grpc://collector''\<rparr>"

theorem observability_level_witness:
  "map_option obs_DefaultLevel (fst (BuildObservabilityConfig ex_env [] (Some ex_observability))) = Some (Some ''INFO'')"
  using observability_level [of ex_observability "the (ob_DataPlane ex_observability)" ex_env "[]"]
  by (simp add: ex_observability_def)

text \<open>
  A configuration is closed: every service that one of its actions calls, and the service
  that tracing refers to, is defined in it.
\<close>

theorem config_services_closed:
  assumes "BuildObservabilityConfig env (NewServiceBuilder env) spec = (observability, sb)"
    and "\<forall>s\<in>set sets. \<exists>specs. as_Actions s = BuildActions specs"
  defines "config \<equiv> BuildConfigForActionSet env (Some sets) observability (Some sb)"
  shows "gm_wf (Deref (cfg_Services config) []) \<and>
    (\<forall>s\<in>set (Deref (cfg_ActionSets config) []). \<forall>a\<in>set (as_Actions s). \<forall>service.
       calledService a = Some service \<longrightarrow> map_of (Deref (cfg_Services config) []) service \<noteq> None) \<and>
    (\<forall>ob t. cfg_Observability config = Some ob \<longrightarrow> obs_Tracing ob = Some t \<longrightarrow>
       map_of (Deref (cfg_Services config) []) (tr_Service t) \<noteq> None)"
proof -
  have wf: "gm_wf (NewServiceBuilder env)" by (simp add: NewServiceBuilder_names)
  have sb: "sb = NewServiceBuilder env \<or> sb = ServiceBuilder_WithTracing env (NewServiceBuilder env)"
    using assms(1) by (auto simp: BuildObservabilityConfig_def Let_def split: option.splits if_splits)
  have "gm_wf sb" using sb wf by (auto simp: ServiceBuilder_WithTracing_def)
  moreover have "map_of sb service \<noteq> None" if "service \<in> set (map fst (NewServiceBuilder env))" for service
  proof -
    have "map_of (NewServiceBuilder env) service \<noteq> None" using that by (simp add: map_of_eq_None_fst)
    with sb show ?thesis by (auto simp: ServiceBuilder_WithTracing_def)
  qed
  moreover have "map_of sb (tr_Service t) \<noteq> None" if "observability = Some ob" "obs_Tracing ob = Some t" for ob t
    using that assms(1)
    by (auto simp: BuildObservabilityConfig_def Let_def ServiceBuilder_WithTracing_def split: option.splits if_splits)
  moreover have "service \<in> set (map fst (NewServiceBuilder env))"
    if "s \<in> set sets" "a \<in> set (as_Actions s)" "calledService a = Some service" for s a service
    using that assms(2) calledService_BuildActions by metis
  ultimately show ?thesis
    unfolding config_def BuildConfigForActionSet_def Let_def ServiceBuilder_Build_def by simp
qed

theorem config_services_closed_witness:
  "\<exists>observability sb. BuildObservabilityConfig ex_env (NewServiceBuilder ex_env) (Some ex_observability) = (observability, sb) \<and>
     gm_wf (Deref (cfg_Services (BuildConfigForActionSet ex_env (Some []) observability (Some sb))) [])"
proof -
  obtain observability sb where b: "BuildObservabilityConfig ex_env (NewServiceBuilder ex_env) (Some ex_observability) = (observability, sb)"
    by fastforce
  from config_services_closed [OF b, of "[]"] b show ?thesis by auto
qed

section \<open>Action sets of a path\<close>

lemma ConvertGRPC_path_ok: "path_ok (ConvertGRPCRouteMatchToHTTP m)"
  by (auto simp: path_ok_def ConvertGRPCRouteMatchToHTTP_def grpcMethodPath_def mkPath_def Let_def
      split: option.splits if_splits)

lemma defaultHTTPMatch_path_ok: "path_ok defaultHTTPMatch"
  by (simp add: path_ok_def defaultHTTPMatch_def mkPath_def)

lemma map_snd_enumerate [simp]: "map snd (enumerate_matches ms) = ms"
  by (simp add: enumerate_matches_def)

lemma map_fst_enumerate [simp]: "map fst (enumerate_matches ms) = [0..<length ms]"
  by (simp add: enumerate_matches_def)

lemma enumerate_mem: "(j, m) \<in> set (enumerate_matches ms) \<longleftrightarrow> j < length ms \<and> m = ms ! j"
  by (auto simp: enumerate_matches_def set_zip intro!: exI [of _ j])

lemma split_paired_Bex: "(\<exists>p\<in>A. P p) \<longleftrightarrow> (\<exists>a b. (a, b) \<in> A \<and> P (a, b))"
  by auto

lemma actionSetSource_inj:
  "actionSetSource pathID j h = actionSetSource pathID j' h' \<longleftrightarrow> j = j' \<and> h = h'"
proof
  assume "actionSetSource pathID j h = actionSetSource pathID j' h'"
  then have eq: "itoa (j + 1) @ CHR ''|'' # h = itoa (j' + 1) @ CHR ''|'' # h'"
    by (simp add: actionSetSource_def)
  have no_bar: "CHR ''|'' \<notin> set (itoa n)" for n using itoa_digits [of "CHR ''|''" n] by auto
  have "takeWhile (\<lambda>c. c \<noteq> CHR ''|'') (itoa (j + 1) @ CHR ''|'' # h) =
      takeWhile (\<lambda>c. c \<noteq> CHR ''|'') (itoa (j' + 1) @ CHR ''|'' # h')" using eq by simp
  then have "itoa (j + 1) = itoa (j' + 1)"
    using no_bar by (subst (asm) (1 2) takeWhile_append2) auto
  with eq itoa_inj [of "j + 1" "j' + 1"] show "j = j' \<and> h = h'" by simp
qed simp

text \<open>The configs for every hostname and every match of a rule, and the names of their action sets.\<close>

definition rule_configs where
  "rule_configs mk hostnames ms = concat (map (\<lambda>hostname. map (\<lambda>(j, m). mk hostname j m) (enumerate_matches ms)) hostnames)"

lemma rule_configs_mem:
  "c \<in> set (rule_configs mk hostnames ms) \<longleftrightarrow> (\<exists>h\<in>set hostnames. \<exists>j<length ms. c = mk h j (ms ! j))"
proof -
  have "c \<in> (\<lambda>(j, m). mk h j m) ` set (enumerate_matches ms) \<longleftrightarrow> (\<exists>j<length ms. c = mk h j (ms ! j))" for h
    by (auto simp: image_iff enumerate_mem split_paired_Bex)
  then show ?thesis by (simp add: rule_configs_def)
qed

lemma length_rule_configs: "length (rule_configs mk hostnames ms) = length hostnames * length ms"
  by (induction hostnames) (simp_all add: rule_configs_def enumerate_matches_def)

lemma rule_configs_distinct:
  assumes "distinct hostnames" "\<And>h j m h' j' m'. f (mk h j m) = f (mk h' j' m') \<Longrightarrow> h = h' \<and> j = j'"
  shows "distinct (map f (rule_configs mk hostnames ms))"
  using assms(1)
proof (induction hostnames)
  case (Cons h hostnames)
  have "rule_configs mk (h # hostnames) ms = map (\<lambda>(j, m). mk h j m) (enumerate_matches ms) @ rule_configs mk hostnames ms"
    by (simp add: rule_configs_def)
  moreover have "distinct (map f (map (\<lambda>(j, m). mk h j m) (enumerate_matches ms)))"
    using assms(2) by (fastforce simp: distinct_conv_nth enumerate_matches_def)
  moreover have "f (mk h j m) \<notin> f ` set (rule_configs mk hostnames ms)" for j m
    using assms(2) Cons.prems by (fastforce simp: rule_configs_mem)
  ultimately show ?case using Cons by (auto simp: enumerate_mem split_paired_Bex)
qed (simp add: rule_configs_def)

lemma Build_http:
  assumes "chain gc gw l r rr"
  shows "BuildActionSetsForPath sha httpNames grpcNames pathID (http_path gc gw l r rr) actions =
    Inr (rule_configs (\<lambda>h j m. matchConfig sha pathID actions ''HTTPRoute'' r (httpRuleListIndex httpNames r (trr_Name rr))
        h j m (PredicatesFromHTTPRouteMatch m))
      (HostnamesFromListenerAndHTTPRoute (tl_Listener l) (tr_Route r))
      (if trr_Matches rr = [] then [defaultHTTPMatch] else trr_Matches rr))"
proof -
  have "ParseTopologyPath (http_path gc gw l r rr) = Inr (http_parsed gc gw l r rr)"
    using assms ParseTopologyPath_ok by blast
  then show ?thesis by (simp add: BuildActionSetsForPath_def http_parsed_def rule_configs_def)
qed

lemma Build_grpc:
  assumes "chain gc gw l r rr"
  shows "BuildActionSetsForPath sha httpNames grpcNames pathID (grpc_path gc gw l r rr) actions =
    Inr (rule_configs (\<lambda>h j m. matchConfig sha pathID actions ''GRPCRoute'' r (grpcRuleListIndex grpcNames r (trr_Name rr))
        h j (ConvertGRPCRouteMatchToHTTP m) (PredicatesFromGRPCRouteMatch m))
      (HostnamesFromListenerAndHTTPRoute (tl_Listener l) (tr_Route r))
      (if trr_Matches rr = [] then [defaultGRPCMatch] else trr_Matches rr))"
proof -
  have "ParseTopologyPath (grpc_path gc gw l r rr) = Inr (grpc_parsed gc gw l r rr)"
    using assms ParseTopologyPath_ok by blast
  then show ?thesis by (simp add: BuildActionSetsForPath_def grpc_parsed_def rule_configs_def)
qed

lemma matchConfig_name:
  "as_Name (rm_Config (matchConfig sha pathID actions kind r idx h j m ps)) = sha (actionSetSource pathID j h)"
  by (simp add: matchConfig_def Let_def ActionSetNameForPath_def)

text \<open>What holds of the configs made for the hostnames and matches of a rule.\<close>

lemma rule_configs_facts:
  fixes pathID kind :: string and actions :: "Action list" and idx :: nat and preds :: "'m \<Rightarrow> string list"
    and toHTTP :: "'m \<Rightarrow> HTTPRouteMatch" and ms :: "'m list"
  assumes "chain gc gw l r rr" "ms \<noteq> []" "\<And>m. m \<in> set ms \<Longrightarrow> path_ok (toHTTP m)"
    and "inj sha" "distinct (route_Hostnames (tr_Route r))"
  defines "cfgs \<equiv> rule_configs (\<lambda>h j m. matchConfig sha pathID actions kind r idx h j (toHTTP m) (preds m))
      (HostnamesFromListenerAndHTTPRoute (tl_Listener l) (tr_Route r)) ms"
  shows "cfgs \<noteq> []" "list_all (path_ok \<circ> rm_HTTPRouteMatch) cfgs" "distinct (map (as_Name \<circ> rm_Config) cfgs)"
    "list_all (\<lambda>c. as_Actions (rm_Config c) = actions \<and>
       rrc_Hostnames (as_RouteRuleConditions (rm_Config c)) = Some [rm_Hostname c] \<and>
       covers (rm_Hostname c) \<subseteq> covers (Deref (listener_Hostname (tl_Listener l)) ''*'')) cfgs"
proof -
  define hs where "hs = HostnamesFromListenerAndHTTPRoute (tl_Listener l) (tr_Route r)"
  have hs: "hs \<noteq> []" using chain_hostnames [OF assms(1)] by (simp add: hs_def)
  have dist: "distinct hs"
    using assms(5) by (auto simp: hs_def HostnamesFromListenerAndHTTPRoute_def Let_def)
  have cover: "covers h \<subseteq> covers (Deref (listener_Hostname (tl_Listener l)) ''*'')" if "h \<in> set hs" for h
    using that by (auto simp: hs_def HostnamesFromListenerAndHTTPRoute_def Let_def SubsetOf_covers Deref_def
        split: if_splits option.splits)
  have len: "length cfgs = length hs * length ms" by (simp add: cfgs_def hs_def length_rule_configs)
  with hs assms(2) show "cfgs \<noteq> []" by (metis length_0_conv mult_is_0)
  show "list_all (path_ok \<circ> rm_HTTPRouteMatch) cfgs"
    using assms(3) by (auto simp: cfgs_def list_all_iff rule_configs_mem matchConfig_def Let_def)
  show "distinct (map (as_Name \<circ> rm_Config) cfgs)"
    unfolding cfgs_def hs_def [symmetric]
    by (rule rule_configs_distinct [OF dist])
      (simp add: matchConfig_name inj_eq [OF assms(4)] actionSetSource_inj)
  show "list_all (\<lambda>c. as_Actions (rm_Config c) = actions \<and>
       rrc_Hostnames (as_RouteRuleConditions (rm_Config c)) = Some [rm_Hostname c] \<and>
       covers (rm_Hostname c) \<subseteq> covers (Deref (listener_Hostname (tl_Listener l)) ''*'')) cfgs"
    unfolding cfgs_def hs_def [symmetric] list_all_iff
    by (intro ballI, unfold rule_configs_mem, elim bexE exE conjE)
      (simp add: matchConfig_def Let_def cover)
qed

text \<open>
  Every valid HTTP path gets at least one action set, one for each combination of a hostname
  of the route on the listener and a match of the rule (or the match for every request, when the
  rule has none).  All carry the given actions, each is confined to its own hostname, which the
  listener covers, and, unless SHA-256 collides, no two have the same name.  The sort of the
  gateway's configs applies to them.
\<close>

theorem action_sets_http:
  assumes "chain gc gw l r rr" "inj sha256hex" "distinct (route_Hostnames (tr_Route r))"
    and "list_all path_ok (trr_Matches rr)"
  shows "\<exists>cfgs. BuildActionSetsForPath sha256hex httpNames grpcNames pathID (http_path gc gw l r rr) actions = Inr cfgs \<and>
    cfgs \<noteq> [] \<and> length cfgs = length (HostnamesFromListenerAndHTTPRoute (tl_Listener l) (tr_Route r)) * max 1 (length (trr_Matches rr)) \<and>
    distinct (map (as_Name \<circ> rm_Config) cfgs) \<and> list_all (path_ok \<circ> rm_HTTPRouteMatch) cfgs \<and>
    list_all (\<lambda>c. as_Actions (rm_Config c) = actions \<and>
       rrc_Hostnames (as_RouteRuleConditions (rm_Config c)) = Some [rm_Hostname c] \<and>
       covers (rm_Hostname c) \<subseteq> covers (Deref (listener_Hostname (tl_Listener l)) ''*'')) cfgs"
proof -
  define ms where "ms = (if trr_Matches rr = [] then [defaultHTTPMatch] else trr_Matches rr)"
  have ms: "ms \<noteq> []" "length ms = max 1 (length (trr_Matches rr))" "\<And>m. m \<in> set ms \<Longrightarrow> path_ok m"
    using assms(4) defaultHTTPMatch_path_ok by (auto simp: ms_def list_all_iff max_def Suc_le_eq split: if_splits)
  note facts = rule_configs_facts [where toHTTP = "\<lambda>m. m" and preds = PredicatesFromHTTPRouteMatch and kind = "''HTTPRoute''"
      and idx = "httpRuleListIndex httpNames r (trr_Name rr)" and pathID = pathID and actions = actions,
      OF assms(1) ms(1) ms(3) assms(2,3)]
  show ?thesis
    unfolding Build_http [OF assms(1)] ms_def [symmetric]
    using facts ms(2) by (simp add: length_rule_configs)
qed

definition ex_parent_ref :: ParentReference where
  "ex_parent_ref = \<lparr>parent_Group = None, parent_Kind = None, parent_Namespace = None, parent_Name = ''gw'',
     parent_SectionName = None, parent_Port = None\<rparr>"

definition ex_gateway :: Gateway where
  "ex_gateway = \<lparr>gateway_Group = GroupName, gateway_Kind = GatewayKind, gateway_Namespace = ''ns'', gateway_Name = ''gw'',
     gateway_ClassName = ''istio'', gateway_ListenerStatus = []\<rparr>"

definition ex_listener :: TopoListener where
  "ex_listener = \<lparr>tl_Listener = \<lparr>listener_Name = ''l'', listener_Hostname = Some ''*.example.com'', listener_Port = 80\<rparr>,
     tl_Gateway = Some ex_gateway\<rparr>"

definition ex_route :: "'m TopoRoute" where
  "ex_route = \<lparr>tr_Route = \<lparr>route_Namespace = ''ns'', route_Name = ''r'', route_Hostnames = [''a.example.com'', ''b.example.com''],
     route_ParentRefs = [ex_parent_ref], route_Parents = []\<rparr>, tr_CreationTimestamp = 0, tr_Rules = [[]]\<rparr>"

definition ex_rule :: "'m TopoRouteRule" where
  "ex_rule = \<lparr>trr_Name = ''rule-1'', trr_Matches = [], trr_Route = Some ex_route\<rparr>"

lemmas ex_path_defs = ex_parent_ref_def ex_gateway_def ex_listener_def ex_route_def ex_rule_def

lemma ex_chain: "chain \<lparr>gc_Name = ''istio''\<rparr> ex_gateway ex_listener ex_route ex_rule"
  by (simp add: chain_def ex_path_defs parentRefMatchesListener_def SubsetOf_def IsWildCarded_def HasSuffix_def)

theorem action_sets_http_witness:
  "\<exists>cfgs. BuildActionSetsForPath (\<lambda>s. s) (\<lambda>_. []) (\<lambda>_. []) ''id''
      (http_path \<lparr>gc_Name = ''istio''\<rparr> ex_gateway ex_listener ex_route ex_rule) [] = Inr cfgs \<and> length cfgs = 2"
proof -
  have "distinct (route_Hostnames (tr_Route (ex_route :: HTTPRouteMatch TopoRoute)))"
    and "list_all path_ok (trr_Matches ex_rule)" and "inj (\<lambda>s :: string. s)"
    by (simp_all add: ex_path_defs)
  from action_sets_http [OF ex_chain this(3,1,2)]
  show ?thesis
    by (fastforce simp: ex_path_defs HostnamesFromListenerAndHTTPRoute_def SubsetOf_def IsWildCarded_def HasSuffix_def)
qed

text \<open>
  The same for gRPC paths, whose matches always convert to HTTP matches that the sort can
  compare.
\<close>

theorem action_sets_grpc:
  assumes "chain gc gw l r rr" "inj sha256hex" "distinct (route_Hostnames (tr_Route r))"
  shows "\<exists>cfgs. BuildActionSetsForPath sha256hex httpNames grpcNames pathID (grpc_path gc gw l r rr) actions = Inr cfgs \<and>
    cfgs \<noteq> [] \<and> length cfgs = length (HostnamesFromListenerAndHTTPRoute (tl_Listener l) (tr_Route r)) * max 1 (length (trr_Matches rr)) \<and>
    distinct (map (as_Name \<circ> rm_Config) cfgs) \<and> list_all (path_ok \<circ> rm_HTTPRouteMatch) cfgs \<and>
    list_all (\<lambda>c. as_Actions (rm_Config c) = actions \<and>
       rrc_Hostnames (as_RouteRuleConditions (rm_Config c)) = Some [rm_Hostname c] \<and>
       covers (rm_Hostname c) \<subseteq> covers (Deref (listener_Hostname (tl_Listener l)) ''*'')) cfgs"
proof -
  define ms where "ms = (if trr_Matches rr = [] then [defaultGRPCMatch] else trr_Matches rr)"
  have ms: "ms \<noteq> []" "length ms = max 1 (length (trr_Matches rr))"
    by (auto simp: ms_def max_def Suc_le_eq)
  note facts = rule_configs_facts [where toHTTP = ConvertGRPCRouteMatchToHTTP and preds = PredicatesFromGRPCRouteMatch
      and kind = "''GRPCRoute''" and idx = "grpcRuleListIndex grpcNames r (trr_Name rr)" and pathID = pathID
      and actions = actions, OF assms(1) ms(1) ConvertGRPC_path_ok assms(2,3)]
  show ?thesis
    unfolding Build_grpc [OF assms(1)] ms_def [symmetric]
    using facts ms(2) by (simp add: length_rule_configs)
qed

theorem action_sets_grpc_witness:
  "\<exists>cfgs. BuildActionSetsForPath (\<lambda>s. s) (\<lambda>_. []) (\<lambda>_. []) ''id''
      (grpc_path \<lparr>gc_Name = ''istio''\<rparr> ex_gateway ex_listener ex_route ex_rule) [] = Inr cfgs \<and> length cfgs = 2"
proof -
  have "distinct (route_Hostnames (tr_Route (ex_route :: GRPCRouteMatch TopoRoute)))" and "inj (\<lambda>s :: string. s)"
    by (simp_all add: ex_path_defs)
  from action_sets_grpc [OF ex_chain this(2,1)]
  show ?thesis
    by (fastforce simp: ex_path_defs HostnamesFromListenerAndHTTPRoute_def SubsetOf_def IsWildCarded_def HasSuffix_def)
qed

lemma action_sets_invalid:
  "ParseTopologyPath path = Inl err \<Longrightarrow>
    BuildActionSetsForPath sha256hex httpNames grpcNames pathID path actions = Inl err"
  by (simp add: BuildActionSetsForPath_def)

text \<open>Of query parameters with the same name only the first match becomes a predicate.\<close>

fun first_by_name :: "string list \<Rightarrow> HTTPQueryParamMatch list \<Rightarrow> HTTPQueryParamMatch list" where
  "first_by_name seen [] = []"
| "first_by_name seen (q # qs) = (if query_Name q \<in> set seen then first_by_name seen qs
     else q # first_by_name (query_Name q # seen) qs)"

lemma queryPredicates_first: "queryPredicates seen qs = map predicateFromQueryParam (first_by_name seen qs)"
  by (induction seen qs rule: queryPredicates.induct) auto

lemma first_by_name_distinct:
  "distinct (map query_Name (first_by_name seen qs)) \<and> set (map query_Name (first_by_name seen qs)) \<inter> set seen = {}"
  by (induction seen qs rule: first_by_name.induct) auto

lemma countActions_fold:
  "Deref (map_of (foldl (\<lambda>counts a. gm_set (f a) (Deref (map_of counts (f a)) 0 + 1) counts) m as) k) 0 =
     Deref (map_of m k) 0 + int (length (filter (\<lambda>a. f a = k) as))"
  by (induction as arbitrary: m) auto

lemma countActionsByService_count:
  "Deref (map_of (countActionsByService as) k) 0 =
     int (length (filter (\<lambda>a. (case a of GrpcAction b v s l m rs \<Rightarrow> s | _ \<Rightarrow> ActionType a) = k) as))"
  unfolding countActionsByService_def Let_def countActions_fold by simp

end
