(* ===== verification/Error_Retry.thy ===== *)
theory Error_Retry
  imports Go_Prelude
begin

text \<open>
  Retrying after errors that do not stop a reconciliation
  (\<open>internal/controller/reconciliation_errors.go\<close>).

  A reconciliation collects its errors in a registry, keyed by resource and operation.  A
  tracker that outlives the reconciliations counts how often each key has failed in a row,
  forgets the keys that did not fail again and those that failed too often, and asks for a new
  reconciliation after the smallest backoff of the rest.

  The state is the tracker's map; \<open>UpdateFromRegistry\<close> and \<open>Handler_Reconcile\<close> are its
  transitions.  \<open>tracker_wf\<close> is the invariant, \<open>update_spec\<close> the abstract transition on
  maps from keys to counts.  Durations are in nanoseconds; the arithmetic of the source in
  \<open>float64\<close> is exact on the values that occur (a small multiple of a power of two below
  \<open>2^53\<close> after scaling), so that it is written on integers.
\<close>

section \<open>Data\<close>

abbreviation Second :: int where "Second \<equiv> 1000000000"

definition initialRetryDelay :: int where "initialRetryDelay = 2 * Second"
definition maxRetryDelay :: int where "maxRetryDelay = 60 * Second"
definition maxRetryAttempts :: int where "maxRetryAttempts = 5"

text \<open>\<open>re_ResourceKind\<close> is the text of the group and kind, \<open>re_Err\<close> that of the error.\<close>

record ReconciliationError =
  re_Source :: string
  re_Operation :: string
  re_Namespace :: string
  re_Name :: string
  re_ResourceKind :: string
  re_Err :: string
  re_FirstSeen :: int
  re_LastSeen :: int
  re_RetryCount :: int

definition ReconciliationError_Key :: "ReconciliationError \<Rightarrow> string" where
  "ReconciliationError_Key e =
     re_ResourceKind e @ ''/'' @ re_Namespace e @ ''/'' @ re_Name e @ ''/'' @ re_Operation e"

definition NextRetryDelay :: "ReconciliationError \<Rightarrow> int" where
  "NextRetryDelay e =
     (let retryCount = re_RetryCount e;
          retryCount = (if retryCount < 0 then 0 else retryCount);
          retryCount = (if retryCount > 30 then 30 else retryCount);
          delay = initialRetryDelay * 2 ^ nat retryCount
      in if delay > maxRetryDelay then maxRetryDelay else delay)"

definition ShouldRetry :: "ReconciliationError \<Rightarrow> bool" where
  "ShouldRetry e \<longleftrightarrow> re_RetryCount e < maxRetryAttempts"

type_synonym error_map = "(string, ReconciliationError) gomap"

definition NewErrorRegistry :: error_map where "NewErrorRegistry = []"

definition Registry_Record ::
  "int \<Rightarrow> string \<Rightarrow> string \<Rightarrow> string \<times> string \<Rightarrow> string \<Rightarrow> string \<Rightarrow> error_map \<Rightarrow> error_map" where
  "Registry_Record now source operation resource kind err r =
     (let rec = \<lparr>re_Source = source, re_Operation = operation, re_Namespace = fst resource, re_Name = snd resource,
            re_ResourceKind = kind, re_Err = err, re_FirstSeen = now, re_LastSeen = now, re_RetryCount = 0\<rparr>
      in gm_set (ReconciliationError_Key rec) rec r)"

definition Registry_GetErrors :: "error_map \<Rightarrow> ReconciliationError list" where
  "Registry_GetErrors r = map snd r"

definition Registry_HasErrors :: "error_map \<Rightarrow> bool" where
  "Registry_HasErrors r \<longleftrightarrow> length r > 0"

text \<open>\<open>LoadOrStore\<close> on the workflow state: the registry found there, or a new one that is stored.\<close>

definition GetOrCreateErrorRegistry :: "error_map option \<Rightarrow> error_map \<times> error_map option" where
  "GetOrCreateErrorRegistry stored =
     (case stored of Some reg \<Rightarrow> (reg, Some reg) | None \<Rightarrow> (NewErrorRegistry, Some NewErrorRegistry))"

section \<open>The tracker\<close>

text \<open>
  The body of the loop over the errors of a registry, on the tracker's errors and the set of
  current keys; \<open>now\<close> is the clock while the entry is processed.
\<close>

definition trackError ::
  "int \<Rightarrow> error_map \<times> string list \<Rightarrow> ReconciliationError \<Rightarrow> error_map \<times> string list" where
  "trackError now st newErr =
     (let errors = fst st;
          key = ReconciliationError_Key newErr;
          currentKeys = key # snd st
      in case map_of errors key of
           Some existing \<Rightarrow>
             (let existing = existing\<lparr>re_RetryCount := re_RetryCount existing + 1, re_LastSeen := now, re_Err := re_Err newErr\<rparr>
              in if \<not> ShouldRetry existing
                 then (gm_delete key errors, filter (\<lambda>k. k \<noteq> key) currentKeys)
                 else (gm_set key existing errors, currentKeys))
         | None \<Rightarrow>
             (gm_set key (newErr\<lparr>re_FirstSeen := now, re_LastSeen := now, re_RetryCount := 0\<rparr>) errors, currentKeys))"

definition UpdateFromRegistry :: "int \<Rightarrow> error_map \<Rightarrow> error_map \<Rightarrow> error_map" where
  "UpdateFromRegistry now registry t =
     (let (errors, currentKeys) = foldl (trackError now) (t, []) (Registry_GetErrors registry)
      in filter (\<lambda>(key, err). key \<in> set currentKeys) errors)"

definition ShouldRequeue :: "error_map \<Rightarrow> int" where
  "ShouldRequeue t =
     (if length t = 0 then 0
      else foldl (\<lambda>minDelay (key, err). let delay = NextRetryDelay err in
             if minDelay = 0 \<or> delay < minDelay then delay else minDelay) 0 t)"

definition GetErrorCount :: "error_map \<Rightarrow> nat" where "GetErrorCount t = length t"

definition Tracker_Clear :: "error_map \<Rightarrow> error_map" where "Tracker_Clear t = []"

text \<open>
  The postcondition of the workflow: the new tracker and the delays handed to
  \<open>scheduleRetry\<close> (at most one; none when the callback is nil).
\<close>

definition Handler_Reconcile ::
  "bool \<Rightarrow> int \<Rightarrow> error_map option \<Rightarrow> error_map \<Rightarrow> error_map \<times> int list" where
  "Handler_Reconcile hasScheduler now stored t =
     (let registry = fst (GetOrCreateErrorRegistry stored) in
      if \<not> Registry_HasErrors registry then (UpdateFromRegistry now registry t, [])
      else let t = UpdateFromRegistry now registry t;
               requeueAfter = ShouldRequeue t
           in if requeueAfter > 0 then (t, if hasScheduler then [requeueAfter] else []) else (t, []))"

section \<open>Backoff\<close>

lemma NextRetryDelay_small:
  assumes "0 \<le> re_RetryCount e" "re_RetryCount e \<le> 4"
  shows "NextRetryDelay e = initialRetryDelay * 2 ^ nat (re_RetryCount e)"
proof -
  have "nat (re_RetryCount e) \<in> {0, 1, 2, 3, 4}" using assms by auto
  then show ?thesis
    using assms by (auto simp: NextRetryDelay_def Let_def initialRetryDelay_def maxRetryDelay_def)
qed

lemma NextRetryDelay_bounds: "initialRetryDelay \<le> NextRetryDelay e" "NextRetryDelay e \<le> maxRetryDelay"
proof -
  have "(1::int) \<le> 2 ^ n" for n by simp
  then show "initialRetryDelay \<le> NextRetryDelay e" "NextRetryDelay e \<le> maxRetryDelay"
    by (simp_all add: NextRetryDelay_def Let_def initialRetryDelay_def maxRetryDelay_def)
qed

lemma NextRetryDelay_pos: "0 < NextRetryDelay e"
  using NextRetryDelay_bounds(1) [of e] by (simp add: initialRetryDelay_def)

section \<open>The invariant and the abstract transition\<close>

definition tracker_wf :: "error_map \<Rightarrow> bool" where
  "tracker_wf t \<longleftrightarrow> gm_wf t \<and>
     list_all (\<lambda>(k, e). k = ReconciliationError_Key e \<and> 0 \<le> re_RetryCount e \<and> ShouldRetry e) t"

definition registry_wf :: "error_map \<Rightarrow> bool" where
  "registry_wf r \<longleftrightarrow> gm_wf r \<and> list_all (\<lambda>(k, e). k = ReconciliationError_Key e) r"

text \<open>
  A key that fails again counts up until the limit takes it out, a new key starts at zero, a key
  that does not fail is forgotten.
\<close>

definition update_spec :: "(string \<Rightarrow> bool) \<Rightarrow> (string \<rightharpoonup> int) \<Rightarrow> (string \<rightharpoonup> int)" where
  "update_spec failing cnt k =
     (if failing k then (case cnt k of None \<Rightarrow> Some 0
        | Some c \<Rightarrow> if c + 1 < maxRetryAttempts then Some (c + 1) else None)
      else None)"

definition counts :: "error_map \<Rightarrow> string \<Rightarrow> int option" where
  "counts t k = map_option re_RetryCount (map_of t k)"

lemma tracker_wf_Nil [simp]: "tracker_wf []"
  by (simp add: tracker_wf_def)

lemma registry_record_wf: "registry_wf r \<Longrightarrow> registry_wf (Registry_Record now source operation resource kind err r)"
  by (simp add: registry_wf_def Registry_Record_def Let_def list_all_gm_set)

lemma Key_simps [simp]:
  "ReconciliationError_Key (e\<lparr>re_RetryCount := c\<rparr>) = ReconciliationError_Key e"
  "ReconciliationError_Key (e\<lparr>re_LastSeen := c\<rparr>) = ReconciliationError_Key e"
  "ReconciliationError_Key (e\<lparr>re_FirstSeen := c\<rparr>) = ReconciliationError_Key e"
  "ReconciliationError_Key (e\<lparr>re_Err := s\<rparr>) = ReconciliationError_Key e"
  by (simp_all add: ReconciliationError_Key_def)

text \<open>What the loop does to one key, and that it leaves the others alone.\<close>

lemma trackError_counts:
  "counts (fst (trackError now st e)) k =
     (if k = ReconciliationError_Key e then update_spec (\<lambda>_. True) (counts (fst st)) k else counts (fst st) k)"
  by (auto simp: trackError_def Let_def counts_def update_spec_def ShouldRetry_def split: option.splits)

lemma trackError_keys:
  "k \<in> set (snd (trackError now st e)) \<longleftrightarrow>
     (if k = ReconciliationError_Key e then counts (fst (trackError now st e)) k \<noteq> None else k \<in> set (snd st))"
  by (auto simp: trackError_def Let_def counts_def ShouldRetry_def split: option.splits)

lemma tracker_wf_gm_delete: "tracker_wf t \<Longrightarrow> tracker_wf (gm_delete k t)"
  by (auto simp: tracker_wf_def list_all_iff set_gm_delete)

lemma tracker_wf_filter: "tracker_wf t \<Longrightarrow> tracker_wf (filter P t)"
  by (auto simp: tracker_wf_def list_all_iff)

lemma tracker_wf_lookup: "tracker_wf t \<Longrightarrow> map_of t k = Some e \<Longrightarrow>
    k = ReconciliationError_Key e \<and> 0 \<le> re_RetryCount e \<and> ShouldRetry e"
  by (auto simp: tracker_wf_def list_all_iff dest!: map_of_SomeD)

lemma tracker_wf_gm_set:
  "tracker_wf t \<Longrightarrow> 0 \<le> re_RetryCount e \<Longrightarrow> ShouldRetry e \<Longrightarrow> tracker_wf (gm_set (ReconciliationError_Key e) e t)"
  by (simp add: tracker_wf_def list_all_gm_set)

lemma trackError_wf:
  assumes "tracker_wf (fst st)"
  shows "tracker_wf (fst (trackError now st e))"
proof (cases "map_of (fst st) (ReconciliationError_Key e)")
  case None
  then show ?thesis
    using tracker_wf_gm_set [OF assms, of "e\<lparr>re_FirstSeen := now, re_LastSeen := now, re_RetryCount := 0\<rparr>"]
    by (simp add: trackError_def Let_def ShouldRetry_def maxRetryAttempts_def)
next
  case (Some ex)
  let ?ex = "ex\<lparr>re_RetryCount := re_RetryCount ex + 1, re_LastSeen := now, re_Err := re_Err e\<rparr>"
  have "ReconciliationError_Key e = ReconciliationError_Key ex" "0 \<le> re_RetryCount ex"
    using tracker_wf_lookup [OF assms Some] by auto
  with Some tracker_wf_gm_set [OF assms, of ?ex] tracker_wf_gm_delete [OF assms] show ?thesis
    by (simp add: trackError_def Let_def)
qed

lemma foldl_trackError_wf: "tracker_wf (fst st) \<Longrightarrow> tracker_wf (fst (foldl (trackError now) st es))"
  by (induction es arbitrary: st) (simp_all add: trackError_wf)

lemma update_keeps_wf: "tracker_wf t \<Longrightarrow> tracker_wf (UpdateFromRegistry now registry t)"
  using foldl_trackError_wf [of "(t, [])" now "Registry_GetErrors registry"]
  by (auto simp: UpdateFromRegistry_def intro: tracker_wf_filter split: prod.splits)

lemma foldl_trackError:
  assumes "distinct (map ReconciliationError_Key es)"
  shows "counts (fst (foldl (trackError now) st es)) k =
      (if k \<in> ReconciliationError_Key ` set es then update_spec (\<lambda>_. True) (counts (fst st)) k else counts (fst st) k)"
    and "k \<in> set (snd (foldl (trackError now) st es)) \<longleftrightarrow>
      (if k \<in> ReconciliationError_Key ` set es
       then counts (fst (foldl (trackError now) st es)) k \<noteq> None else k \<in> set (snd st))"
  using assms
proof (induction es arbitrary: st)
  case (Cons e es)
  {
    case 1
    then show ?case using Cons.IH(1) [of "trackError now st e"]
      by (auto simp: trackError_counts update_spec_def)
  next
    case 2
    then show ?case using Cons.IH [of "trackError now st e"]
      by (auto simp: trackError_keys)
  }
qed simp_all

lemma update_counts:
  assumes "tracker_wf t" "registry_wf registry"
  shows "counts (UpdateFromRegistry now registry t) = update_spec (\<lambda>k. map_of registry k \<noteq> None) (counts t)"
proof
  fix k
  let ?es = "Registry_GetErrors registry"
  have keys: "map ReconciliationError_Key ?es = map fst registry"
    using assms(2) by (auto simp: registry_wf_def Registry_GetErrors_def list_all_iff)
  then have d: "distinct (map ReconciliationError_Key ?es)" and mem: "k \<in> ReconciliationError_Key ` set ?es \<longleftrightarrow> map_of registry k \<noteq> None"
    using assms(2) by (simp add: registry_wf_def) (metis keys image_set map_of_eq_None_fst)
  obtain errors currentKeys where st: "foldl (trackError now) (t, []) ?es = (errors, currentKeys)"
    by fastforce
  have wf: "gm_wf errors"
    using foldl_trackError_wf [of "(t, [])" now ?es] assms(1) st by (simp add: tracker_wf_def)
  have "counts (UpdateFromRegistry now registry t) k = (if k \<in> set currentKeys then counts errors k else None)"
    using map_of_filter_wf [OF wf] by (simp add: UpdateFromRegistry_def st counts_def split: option.splits)
  then show "counts (UpdateFromRegistry now registry t) k = update_spec (\<lambda>k. map_of registry k \<noteq> None) (counts t) k"
    using foldl_trackError [OF d, where st = "(t, [])" and now = now and k = k] st mem
    by (auto simp: update_spec_def)
qed

section \<open>Runs of the tracker\<close>

inductive retry_step :: "error_map \<Rightarrow> error_map \<Rightarrow> bool" where
  reconcile: "registry_wf r \<Longrightarrow> retry_step t (fst (Handler_Reconcile hasScheduler now (Some r) t))"
| reconcile_clean: "retry_step t (fst (Handler_Reconcile hasScheduler now None t))"
| clear: "retry_step t (Tracker_Clear t)"

lemma Handler_tracker:
  "fst (Handler_Reconcile hasScheduler now stored t) =
     UpdateFromRegistry now (fst (GetOrCreateErrorRegistry stored)) t"
  by (simp add: Handler_Reconcile_def Let_def)

lemma Handler_schedule:
  "snd (Handler_Reconcile hasScheduler now (Some r) t) =
     (if r \<noteq> [] \<and> ShouldRequeue (UpdateFromRegistry now r t) > 0 \<and> hasScheduler
      then [ShouldRequeue (UpdateFromRegistry now r t)] else [])"
  by (simp add: Handler_Reconcile_def Let_def GetOrCreateErrorRegistry_def Registry_HasErrors_def)

interpretation retries: transition_system "[]" retry_step tracker_wf
proof unfold_locales
  fix s t
  show "retry_step s t \<Longrightarrow> tracker_wf s \<Longrightarrow> tracker_wf t"
    by (induction rule: retry_step.induct)
      (simp_all add: Handler_tracker update_keeps_wf Tracker_Clear_def)
qed simp

text \<open>The requeue delay is the smallest delay of a tracked error.\<close>

lemma requeue_fold:
  "0 < m \<Longrightarrow> foldl (\<lambda>minDelay (key, err). let delay = NextRetryDelay err in
      if minDelay = 0 \<or> delay < minDelay then delay else minDelay) m t =
    foldl min m (map (\<lambda>(k, e). NextRetryDelay e) t)"
proof (induction t arbitrary: m)
  case (Cons a t)
  obtain k e where a: "a = (k, e)" by fastforce
  have "(if m = 0 \<or> NextRetryDelay e < m then NextRetryDelay e else m) = min m (NextRetryDelay e)"
    and "0 < min m (NextRetryDelay e)"
    using Cons.prems NextRetryDelay_pos [of e] by auto
  with Cons.IH [of "min m (NextRetryDelay e)"] show ?case
    by (simp only: a foldl.simps list.map prod.case Let_def)
qed simp

lemma foldl_min_Min: "foldl min m xs = Min (insert m (set xs))" for m :: int
proof (induction xs arbitrary: m)
  case (Cons x xs)
  then show ?case by (cases "xs = []") (simp_all add: min.assoc min.left_commute)
qed simp

lemma ShouldRequeue_Min:
  assumes "t \<noteq> []"
  shows "ShouldRequeue t = Min ((\<lambda>(k, e). NextRetryDelay e) ` set t)"
proof -
  obtain k e t' where t: "t = (k, e) # t'" using assms by (cases t) auto
  have "ShouldRequeue t = foldl min (NextRetryDelay e) (map (\<lambda>(k, e). NextRetryDelay e) t')"
    using requeue_fold [of "NextRetryDelay e" t'] NextRetryDelay_pos by (simp add: ShouldRequeue_def t)
  then show ?thesis by (simp add: foldl_min_Min t)
qed

lemma ShouldRequeue_Nil [simp]: "ShouldRequeue [] = 0"
  by (simp add: ShouldRequeue_def)

lemma ShouldRequeue_pos_iff: "0 < ShouldRequeue t \<longleftrightarrow> t \<noteq> []"
  using NextRetryDelay_pos by (cases "t = []") (auto simp: ShouldRequeue_Min)

text \<open>A key as a phase of the cycle: not tracked, or failed one to five times in a row.\<close>

definition phase :: "int option \<Rightarrow> nat" where
  "phase c = (case c of None \<Rightarrow> 0 | Some n \<Rightarrow> nat (n + 1))"

lemma counts_range: "tracker_wf t \<Longrightarrow> counts t k = Some c \<Longrightarrow> 0 \<le> c \<and> c \<le> 4"
  by (auto simp: counts_def ShouldRetry_def maxRetryAttempts_def dest: tracker_wf_lookup)

lemma phase_update:
  assumes "tracker_wf t" "registry_wf r"
  shows "phase (counts (UpdateFromRegistry now r t) k) =
    (if map_of r k \<noteq> None then (phase (counts t k) + 1) mod 6 else 0)"
proof (cases "counts t k")
  case None
  then show ?thesis by (simp add: update_counts [OF assms] update_spec_def phase_def)
next
  case (Some c)
  then have "c \<in> {0, 1, 2, 3, 4}" using counts_range [OF assms(1)] by fastforce
  with Some show ?thesis
    by (auto simp: update_counts [OF assms] update_spec_def phase_def maxRetryAttempts_def)
qed

text \<open>The tracker after the same errors have come back \<open>n\<close> times.\<close>

primrec after :: "(nat \<Rightarrow> int) \<Rightarrow> error_map \<Rightarrow> nat \<Rightarrow> error_map \<Rightarrow> error_map" where
  "after clock r 0 t = t"
| "after clock r (Suc n) t = fst (Handler_Reconcile True (clock n) (Some r) (after clock r n t))"

lemma after_wf: "registry_wf r \<Longrightarrow> tracker_wf t \<Longrightarrow> tracker_wf (after clock r n t)"
  by (induction n) (simp_all add: Handler_tracker update_keeps_wf)

lemma after_phase:
  assumes "registry_wf r" "tracker_wf t" "map_of r k \<noteq> None"
  shows "phase (counts (after clock r n t) k) = (if n = 0 then phase (counts t k) else (phase (counts t k) + n) mod 6)"
proof (induction n)
  case (Suc n)
  have "phase (counts (after clock r (Suc n) t) k) = (phase (counts (after clock r n t) k) + 1) mod 6"
    using phase_update [OF after_wf [OF assms(1,2)] assms(1)] assms(3)
    by (simp add: Handler_tracker GetOrCreateErrorRegistry_def)
  with Suc.IH show ?case by (simp add: mod_Suc_eq)
qed simp

lemma phase_0_iff: "tracker_wf t \<Longrightarrow> phase (counts t k) = 0 \<longleftrightarrow> counts t k = None"
  by (auto simp: phase_def split: option.splits dest: counts_range)

lemma counts_member: "(k, e) \<in> set t \<Longrightarrow> counts t k \<noteq> None"
  using map_of_eq_None_fst [of t k] by (force simp: counts_def)

lemma tracked_are_failing:
  assumes "registry_wf r" "tracker_wf t" "(k, e) \<in> set (after clock r (Suc n) t)"
  shows "map_of r k \<noteq> None"
proof -
  have wf: "tracker_wf (after clock r (Suc n) t)" by (rule after_wf [OF assms(1,2)])
  then have "counts (after clock r (Suc n) t) k = Some (re_RetryCount e)"
    using assms(3) by (simp add: counts_def tracker_wf_def)
  moreover have "counts (after clock r (Suc n) t) k = update_spec (\<lambda>k. map_of r k \<noteq> None) (counts (after clock r n t)) k"
    using update_counts [OF after_wf [OF assms(1,2)] assms(1)] by (simp add: Handler_tracker GetOrCreateErrorRegistry_def)
  ultimately show ?thesis by (auto simp: update_spec_def split: if_splits)
qed

text \<open>
  C40.  The errors that the tracker keeps in any reachable state have backoffs of 2, 4, 8, 16 or 32
  seconds, each under its own key; the requeue delay is zero exactly when no error is tracked,
  and otherwise it lies between 2 and 32 seconds, so that the cap of one minute is never used.
\<close>

theorem retry_delays:
  assumes "retry_step\<^sup>*\<^sup>* [] t"
  shows "gm_wf t \<and>
    list_all (\<lambda>(k, e). k = ReconciliationError_Key e \<and>
      NextRetryDelay e \<in> {2 * Second, 4 * Second, 8 * Second, 16 * Second, 32 * Second}) t \<and>
    (if t = [] then ShouldRequeue t = 0 else 2 * Second \<le> ShouldRequeue t \<and> ShouldRequeue t \<le> 32 * Second)"
proof -
  have wf: "tracker_wf t" using retries.inv_reachable [OF assms] .
  have delay: "NextRetryDelay e \<in> {2 * Second, 4 * Second, 8 * Second, 16 * Second, 32 * Second}"
    if "(k, e) \<in> set t" for k e
  proof -
    have r: "0 \<le> re_RetryCount e" "re_RetryCount e \<le> 4"
      using wf that by (auto simp: tracker_wf_def list_all_iff ShouldRetry_def maxRetryAttempts_def)
    then have "re_RetryCount e \<in> {0, 1, 2, 3, 4}" by auto
    then show ?thesis using NextRetryDelay_small [OF r] by (auto simp: initialRetryDelay_def)
  qed
  have "2 * Second \<le> ShouldRequeue t \<and> ShouldRequeue t \<le> 32 * Second" if "t \<noteq> []"
  proof -
    have "ShouldRequeue t \<in> (\<lambda>(k, e). NextRetryDelay e) ` set t"
      using ShouldRequeue_Min [OF that] that by (metis Min_in finite_imageI finite_set image_is_empty set_empty)
    then show ?thesis using delay by fastforce
  qed
  with wf delay show ?thesis by (auto simp: tracker_wf_def list_all_iff)
qed

definition ex_error :: "string \<Rightarrow> ReconciliationError" where
  "ex_error name = \<lparr>re_Source = ''AuthPolicyStatusUpdater'', re_Operation = ''update'', re_Namespace = ''ns'', re_Name = name,
     re_ResourceKind = ''AuthPolicy.kuadrant.io'', re_Err = ''conflict'', re_FirstSeen = 0, re_LastSeen = 0, re_RetryCount = 0\<rparr>"

definition ex_registry :: "string list \<Rightarrow> error_map" where
  "ex_registry names = map (\<lambda>n. (ReconciliationError_Key (ex_error n), ex_error n)) names"

lemma ex_registry_wf: "registry_wf (ex_registry [''a''])" "registry_wf (ex_registry [''a'', ''b''])"
  by code_simp+

theorem retry_delays_witness:
  "list_all (\<lambda>(k, e). NextRetryDelay e = 2 * Second)
     (fst (Handler_Reconcile True 7 (Some (ex_registry [''a''])) [])) \<and>
   gm_wf (fst (Handler_Reconcile True 7 (Some (ex_registry [''a''])) []))"
proof -
  have "retry_step\<^sup>*\<^sup>* [] (fst (Handler_Reconcile True 7 (Some (ex_registry [''a''])) []))"
    by (rule r_into_rtranclp) (rule retry_step.reconcile [OF ex_registry_wf(1)])
  from retry_delays [OF this] show ?thesis
    by (simp add: list_all_iff) code_simp
qed

text \<open>
  C38.  One pass of the tracker over the errors of a reconciliation is the abstract transition: a
  key that fails again counts one more and is dropped when the count reaches the limit, a new
  key starts at zero, and a key that did not fail is forgotten.
\<close>

theorem UpdateFromRegistry_refines:
  assumes "tracker_wf t" "registry_wf registry"
  shows "counts (UpdateFromRegistry now registry t) = update_spec (\<lambda>k. map_of registry k \<noteq> None) (counts t) \<and>
    tracker_wf (UpdateFromRegistry now registry t)"
  using update_counts [OF assms] update_keeps_wf [OF assms(1)] by simp

theorem UpdateFromRegistry_refines_witness:
  "counts (UpdateFromRegistry 9 (ex_registry [''a'']) []) =
     update_spec (\<lambda>k. map_of (ex_registry [''a'']) k \<noteq> None) (counts []) \<and>
   tracker_wf (UpdateFromRegistry 9 (ex_registry [''a'']) [])"
  by (rule UpdateFromRegistry_refines) (simp_all add: ex_registry_wf)

text \<open>
  C39.  Errors that appear together and never go away are retried after 2, 4, 8, 16 and 32 seconds;
  the sixth reconciliation in a row gives them up and schedules nothing, so that the retries
  come to an end.  (When something else triggers a reconciliation later, the cycle starts anew.)
\<close>

theorem retries_give_up:
  assumes "registry_wf r" "r \<noteq> []"
  shows "snd (Handler_Reconcile True (clock n) (Some r) (after clock r n [])) =
    (if n mod 6 = 5 then [] else [2 * Second * 2 ^ (n mod 6)])"
proof -
  let ?t = "after clock r (Suc n) []"
  have wf0: "tracker_wf []" by simp
  have wf: "tracker_wf ?t" by (rule after_wf [OF assms(1) wf0])
  have ph: "phase (counts ?t k) = Suc n mod 6" if "map_of r k \<noteq> None" for k
    using after_phase [OF assms(1) wf0 that, of clock "Suc n"] by (simp add: counts_def phase_def)
  have sched: "snd (Handler_Reconcile True (clock n) (Some r) (after clock r n [])) =
      (if ?t \<noteq> [] then [ShouldRequeue ?t] else [])"
    using assms(2) by (simp add: Handler_schedule Handler_tracker GetOrCreateErrorRegistry_def ShouldRequeue_pos_iff)
  have fail: "map_of r k \<noteq> None" if "(k, e) \<in> set ?t" for k e
    using tracked_are_failing [OF assms(1) wf0 that] .
  show ?thesis
  proof (cases "n mod 6 = 5")
    case True
    then have "Suc n mod 6 = 0" by presburger
    have "?t = []"
    proof (rule ccontr)
      assume "?t \<noteq> []"
      then obtain k e where ke: "(k, e) \<in> set ?t" by (cases ?t) auto
      then have "counts ?t k \<noteq> None" by (rule counts_member)
      with ph [OF fail [OF ke]] phase_0_iff [OF wf, of k] \<open>Suc n mod 6 = 0\<close> show False by simp
    qed
    with True sched show ?thesis by simp
  next
    case False
    then have suc: "Suc n mod 6 = Suc (n mod 6)" "n mod 6 \<le> 4" by presburger+
    obtain k0 e0 where "(k0, e0) \<in> set r" using assms(2) by (cases r) auto
    then have k0: "map_of r k0 \<noteq> None" using counts_member [of k0 e0 r] by (simp add: counts_def)
    then have "counts ?t k0 \<noteq> None" using ph [OF k0] phase_0_iff [OF wf, of k0] suc by simp
    then have ne: "?t \<noteq> []" by (auto simp: counts_def)
    have delay: "NextRetryDelay e = 2 * Second * 2 ^ (n mod 6)" if "(k, e) \<in> set ?t" for k e
    proof -
      have c: "counts ?t k = Some (re_RetryCount e)"
        using wf that by (simp add: counts_def tracker_wf_def)
      have "0 \<le> re_RetryCount e \<and> re_RetryCount e \<le> 4" using counts_range [OF wf c] .
      moreover from this ph [OF fail [OF that]] c suc have "nat (re_RetryCount e) = n mod 6"
        by (simp add: phase_def)
      ultimately show ?thesis using NextRetryDelay_small [of e] by (simp add: initialRetryDelay_def)
    qed
    have "(\<lambda>(k, e). NextRetryDelay e) ` set ?t = {2 * Second * 2 ^ (n mod 6)}"
      using ne delay by (cases ?t) (auto simp: image_iff)
    with ne False sched show ?thesis by (simp add: ShouldRequeue_Min)
  qed
qed

theorem retries_give_up_witness:
  "snd (Handler_Reconcile True 5 (Some (ex_registry [''a''])) (after int (ex_registry [''a'']) 5 [])) = []"
proof -
  have "ex_registry [''a''] \<noteq> []" by (simp add: ex_registry_def)
  from retries_give_up [OF ex_registry_wf(1) this, of int 5] show ?thesis by simp
qed

text \<open>
  Giving up does not work for errors that did not start together: when \<open>a\<close> has failed once
  before \<open>b\<close> joins and both keep failing, the retry of one finds the other again as a new
  error, and every reconciliation schedules another one.
\<close>

lemma out_of_phase_never_stops:
  "snd (Handler_Reconcile True (clock n) (Some (ex_registry [''a'', ''b'']))
     (after clock (ex_registry [''a'', ''b'']) n (after clock (ex_registry [''a'']) 1 []))) \<noteq> []"
proof -
  let ?r = "ex_registry [''a'', ''b'']" and ?t1 = "after clock (ex_registry [''a'']) 1 []"
  let ?ka = "ReconciliationError_Key (ex_error ''a'')" and ?kb = "ReconciliationError_Key (ex_error ''b'')"
  let ?t = "after clock ?r (Suc n) ?t1"
  have wf1: "tracker_wf ?t1" by (rule after_wf [OF ex_registry_wf(1)]) simp
  have p1: "phase (counts ?t1 k) = (if map_of (ex_registry [''a'']) k \<noteq> None then 1 else 0)" for k
    using phase_update [of "[]" "ex_registry [''a'']" "clock 0" k] ex_registry_wf(1)
    by (simp add: Handler_tracker GetOrCreateErrorRegistry_def tracker_wf_def counts_def phase_def)
  have apart: "\<not> ((1 + Suc n) mod 6 = 0 \<and> Suc n mod 6 = 0)" by presburger
  have key: "?ka \<noteq> ?kb" by (simp add: ReconciliationError_Key_def ex_error_def)
  have "map_of ?r ?ka \<noteq> None" "map_of ?r ?kb \<noteq> None" by (simp_all add: ex_registry_def)
  note ph = this [THEN after_phase [OF ex_registry_wf(2) wf1, of _ clock "Suc n"]]
  have "phase (counts ?t ?ka) = (1 + Suc n) mod 6" "phase (counts ?t ?kb) = Suc n mod 6"
    using ph p1 [of ?ka] p1 [of ?kb] key by (simp_all add: ex_registry_def)
  then have "counts ?t ?ka \<noteq> None \<or> counts ?t ?kb \<noteq> None"
    using phase_0_iff [OF after_wf [OF ex_registry_wf(2) wf1], of clock "Suc n"] apart by metis
  then have "?t \<noteq> []" by (auto simp: counts_def)
  then show ?thesis
    by (simp add: Handler_schedule Handler_tracker GetOrCreateErrorRegistry_def ShouldRequeue_pos_iff)
      (simp add: ex_registry_def)
qed

end
