(* ===== verification/Rate_Limit_Workflow.thy ===== *)
theory Rate_Limit_Workflow
  imports Policy_Acceptance Wasm_Config Rate_Limit_Index Error_Retry
begin

text \<open>
  From effective policies to the data plane: the action specifications of the wasm configuration
  (\<open>internal/controller/ratelimit_workflow_helpers.go\<close>, \<open>auth_workflow_helpers.go\<close>), their
  merging (\<open>mergeAndVerifySpecs\<close> of \<open>data_plane_policies_workflow.go\<close>), and the limits
  written into the Limitador resource (\<open>limitador_limits_reconciler.go\<close>).

  The two sides meet in the limit identifier: the gateway sends it as a descriptor entry, and the
  limit of Limitador has a condition on that entry.  The theory shows that they agree.

  Parameters: \<open>hash8\<close> is the hexadecimal text of the first four bytes of the SHA-256 digest,
  \<open>sha\<close> that of all of them, \<open>nn\<close> the text of a \<open>NamespacedName\<close>, \<open>transform\<close> the
  CEL transformer of counters, \<open>backendRequest\<close> the timeout that a route rule sets.  Names of
  limits are ASCII: on other characters Go decides by the Unicode class of the rune.
\<close>

section \<open>Panics in loops\<close>

fun gtraverse :: "('a \<Rightarrow> 'b go_result) \<Rightarrow> 'a list \<Rightarrow> 'b list go_result" where
  "gtraverse f [] = Return []"
| "gtraverse f (x # xs) = gbind (f x) (\<lambda>y. gbind (gtraverse f xs) (\<lambda>ys. Return (y # ys)))"

lemma gtraverse_Return: "(\<And>x. x \<in> set xs \<Longrightarrow> f x = Return (g x)) \<Longrightarrow> gtraverse f xs = Return (map g xs)"
  by (induction xs) auto

section \<open>Names\<close>

definition RateLimitClusterName :: "string \<Rightarrow> string" where
  "RateLimitClusterName gatewayName = ''kuadrant-ratelimiting-'' @ gatewayName"

definition AuthClusterName :: "string \<Rightarrow> string" where
  "AuthClusterName gatewayName = ''kuadrant-auth-'' @ gatewayName"

definition AuthConfigNameForPath :: "(string \<Rightarrow> string) \<Rightarrow> string \<Rightarrow> string" where
  "AuthConfigNameForPath sha pathID = sha pathID"

fun route_nsname :: "targetable \<Rightarrow> string \<times> string" where
  "route_nsname (THTTPRoute (Some r)) = (route_Namespace (tr_Route r), route_Name (tr_Route r))"
| "route_nsname (TGRPCRoute (Some r)) = (route_Namespace (tr_Route r), route_Name (tr_Route r))"
| "route_nsname _ = ([], [])"

definition LimitsNamespaceFromRoute :: "(string \<Rightarrow> string \<Rightarrow> string) \<Rightarrow> targetable \<Rightarrow> string" where
  "LimitsNamespaceFromRoute nn route = (case route_nsname route of (ns, name) \<Rightarrow> nn ns name)"

definition is_identifier_char :: "char \<Rightarrow> bool" where
  "is_identifier_char c \<longleftrightarrow>
     (let n = (of_char c :: nat) in (65 \<le> n \<and> n \<le> 90) \<or> (97 \<le> n \<and> n \<le> 122) \<or> (48 \<le> n \<and> n \<le> 57) \<or> c = CHR ''_'')"

definition sanitize :: "string \<Rightarrow> string" where
  "sanitize name = map (\<lambda>c. if is_identifier_char c then c else CHR ''_'') name"

definition LimitNameToLimitadorIdentifier ::
  "(string \<Rightarrow> string) \<Rightarrow> (string \<Rightarrow> string \<Rightarrow> string) \<Rightarrow> string \<times> string \<Rightarrow> string \<Rightarrow> string" where
  "LimitNameToLimitadorIdentifier hash8 nn rlpKey uniqueLimitName =
     ''limit.'' @ sanitize uniqueLimitName @ ''__'' @ hash8 (nn (fst rlpKey) (snd rlpKey) @ ''/'' @ uniqueLimitName)"

definition TokenLimitNameToLimitadorIdentifier ::
  "(string \<Rightarrow> string) \<Rightarrow> (string \<Rightarrow> string \<Rightarrow> string) \<Rightarrow> string \<times> string \<Rightarrow> string \<Rightarrow> string" where
  "TokenLimitNameToLimitadorIdentifier hash8 nn trlpKey uniqueLimitName =
     ''tokenlimit.'' @ sanitize uniqueLimitName @ ''__'' @ hash8 (nn (fst trlpKey) (snd trlpKey) @ ''/'' @ uniqueLimitName)"

section \<open>Action specifications of rate limits\<close>

definition no_spec :: ActionSpec where
  "no_spec = \<lparr>sp_ServiceName = [], sp_Scope = [], sp_Predicates = [], sp_ConditionalData = [], sp_Sources = [],
     sp_Bindings = [], sp_Execution = [], sp_Reservation = None\<rparr>"

definition wasmDataFromLimit :: "string \<Rightarrow> Limit \<Rightarrow> DataType list" where
  "wasmDataFromLimit limitIdentifier limit =
     DataExpression limitIdentifier ''1'' #
     map (\<lambda>counter. DataExpression (counter_Expression counter) (counter_Expression counter)) (limit_Counters limit)"

definition wasmActionSpecFromLimit ::
  "Limit \<Rightarrow> string \<Rightarrow> string \<Rightarrow> string \<Rightarrow> WhenPredicates \<Rightarrow> ActionSpec" where
  "wasmActionSpecFromLimit limit limitIdentifier scope sourcePolicyLocator topLevelPredicates =
     no_spec\<lparr>sp_ServiceName := RateLimitServiceName, sp_Scope := scope, sp_Sources := [sourcePolicyLocator],
       sp_ConditionalData := [\<lparr>cd_Predicates = WhenPredicates_Into (WhenPredicates_Extend topLevelPredicates (limit_When limit)),
         cd_Data = wasmDataFromLimit limitIdentifier limit\<rparr>]\<rparr>"

text \<open>
  \<open>rule_source\<close>, \<open>rule_when\<close> and \<open>specFunc\<close> read a mergeable rule: its source, its value as
  top-level predicates and the specification of its value as a limit; a failed assertion panics.
\<close>

definition findSource ::
  "locator_fun \<Rightarrow> 's policy_object list \<Rightarrow> string \<Rightarrow> 's policy_object option" where
  "findSource locator policiesInPath source =
     List.find (\<lambda>p. policy_locator locator (pol p) = source) policiesInPath"

definition buildWasmActionSpecsForAnyRateLimit ::
  "(string \<Rightarrow> string \<Rightarrow> string) \<Rightarrow> locator_fun \<Rightarrow> 's topo_view \<Rightarrow> ('r \<Rightarrow> string) \<Rightarrow> ('r \<Rightarrow> WhenPredicates option) \<Rightarrow>
   targetable list \<Rightarrow> (string, 'r) gomap \<Rightarrow> string \<Rightarrow> ('s policy_object \<Rightarrow> bool) \<Rightarrow> (string \<times> string \<Rightarrow> string \<Rightarrow> string) \<Rightarrow>
   ('r \<Rightarrow> string \<Rightarrow> string \<Rightarrow> string \<Rightarrow> WhenPredicates \<Rightarrow> ActionSpec go_result) \<Rightarrow> ActionSpec list go_result" where
  "buildWasmActionSpecsForAnyRateLimit nn locator topo rule_source rule_when path rules topLevelPredicatesKey policyPredicate
     identifierFunc specFunc =
     (let policiesInPath = pathPolicies topo policyPredicate path
      in case ParseTopologyPath path of Inl err \<Rightarrow> Return []
       | Inr parsed \<Rightarrow>
         (case GetRoute parsed of None \<Rightarrow> Panic ''nil pointer dereference''
          | Some route \<Rightarrow>
            (let limitsNamespace = LimitsNamespaceFromRoute nn route;
                 rulesEntries = go_sort (\<lambda>a b. string_less (fst a) (fst b)) rules;
                 topLevelRules = filter (\<lambda>r. fst r = topLevelPredicatesKey) rulesEntries;
                 limitRules = filter (\<lambda>r. fst r \<noteq> topLevelPredicatesKey) rulesEntries
             in gbind (if length topLevelRules > 0
                  then if length topLevelRules > 1
                    then Panic ''rate limit policy with multiple top level 'when' predicate lists''
                    else (case rule_when (snd (hd topLevelRules)) of None \<Rightarrow> bad_conversion | Some w \<Rightarrow> Return w)
                  else Return [])
                (\<lambda>topLevelWhenPredicates.
                  gbind (gtraverse (\<lambda>(uniquePolicyRuleKey, policyRule).
                    case findSource locator policiesInPath (rule_source policyRule) of None \<Rightarrow> Return None
                    | Some source \<Rightarrow>
                      gbind (specFunc policyRule (identifierFunc (policy_nsname (pol source)) uniquePolicyRuleKey)
                          limitsNamespace (policy_locator locator (pol source)) topLevelWhenPredicates)
                        (\<lambda>spec. Return (Some spec))) limitRules)
                    (\<lambda>specs. Return (List.map_filter (\<lambda>s. s) specs))))))"

fun rlp_rule_when :: "rlp_rule \<Rightarrow> WhenPredicates option" where
  "rlp_rule_when (RuleWhen w) = Some (mwp_Predicates w)"
| "rlp_rule_when (RuleLimit l) = None"

fun rlp_specFunc :: "rlp_rule \<Rightarrow> string \<Rightarrow> string \<Rightarrow> string \<Rightarrow> WhenPredicates \<Rightarrow> ActionSpec go_result" where
  "rlp_specFunc (RuleLimit limit) limitIdentifier scope sourcePolicyLocator predicates =
     Return (wasmActionSpecFromLimit limit limitIdentifier scope sourcePolicyLocator predicates)"
| "rlp_specFunc (RuleWhen w) limitIdentifier scope sourcePolicyLocator predicates = bad_conversion"

definition buildWasmActionSpecsForRateLimit ::
  "(string \<Rightarrow> string) \<Rightarrow> (string \<Rightarrow> string \<Rightarrow> string) \<Rightarrow> locator_fun \<Rightarrow> 's topo_view \<Rightarrow> RateLimitPolicy EffectivePolicy \<Rightarrow>
   ('s policy_object \<Rightarrow> bool) \<Rightarrow> ActionSpec list go_result" where
  "buildWasmActionSpecsForRateLimit hash8 nn locator topo effectivePolicy policyPredicate =
     buildWasmActionSpecsForAnyRateLimit nn locator topo rlp_GetSource rlp_rule_when (ep_Path effectivePolicy)
       (RateLimitPolicy_Rules locator (ep_Spec effectivePolicy)) RulesKeyTopLevelPredicates policyPredicate
       (LimitNameToLimitadorIdentifier hash8 nn) rlp_specFunc"

section \<open>Action specifications of token rate limits\<close>

datatype TokenRateLimitingMode = ModeReservation | ModeOptimistic

text \<open>\<open>strconv.Quote\<close> on ASCII text, the verb \<open>%q\<close>.\<close>

definition hex_digit :: "nat \<Rightarrow> char" where
  "hex_digit n = (if n < 10 then char_of (48 + n) else char_of (87 + n))"

definition quote_rune :: "char \<Rightarrow> string" where
  "quote_rune c =
     (let n = (of_char c :: nat) in
      if c = quote_char \<or> c = backslash then [backslash, c]
      else if n = 7 then [backslash, CHR ''a''] else if n = 8 then [backslash, CHR ''b'']
      else if n = 12 then [backslash, CHR ''f''] else if n = 10 then [backslash, CHR ''n'']
      else if n = 13 then [backslash, CHR ''r''] else if n = 9 then [backslash, CHR ''t'']
      else if n = 11 then [backslash, CHR ''v'']
      else if n < 32 \<or> n = 127 then [backslash, CHR ''x'', hex_digit (n div 16), hex_digit (n mod 16)]
      else [c])"

definition fmt_q :: "string \<Rightarrow> string" where
  "fmt_q s = quote_char # concat (map quote_rune s) @ [quote_char]"

definition ResponseBodyJSONTotalTokensCEL :: "string list \<Rightarrow> string" where
  "ResponseBodyJSONTotalTokensCEL totalTokensPointers =
     ''responseBodyJSON(['' @ Join (map fmt_q totalTokensPointers) '', '' @ ''], '' @ fmt_q ''number'' @ '')''"

definition defaultReservationAmount :: string where "defaultReservationAmount = ''0''"

fun IntOrString_String :: "IntOrString \<Rightarrow> string" where
  "IntOrString_String (IntVal i) = itoa_int i"
| "IntOrString_String (StrVal s) = s"

definition tokenCheckReportSpecs ::
  "string \<Rightarrow> string \<Rightarrow> string list \<Rightarrow> DataType list \<Rightarrow> string list \<Rightarrow> ActionSpec list" where
  "tokenCheckReportSpecs scope sourcePolicyLocator predicates commonData totalTokensPointers =
     (let requestPhaseData = commonData @ [DataExpression ''ratelimit.hits_addend'' ''0''];
          responsePhaseData = commonData @
            [DataExpression ''ratelimit.hits_addend'' (ResponseBodyJSONTotalTokensCEL totalTokensPointers)]
      in [no_spec\<lparr>sp_ServiceName := RateLimitCheckServiceName, sp_Scope := scope, sp_Sources := [sourcePolicyLocator],
            sp_ConditionalData := [\<lparr>cd_Predicates = predicates, cd_Data = requestPhaseData\<rparr>]\<rparr>,
          no_spec\<lparr>sp_ServiceName := RateLimitReportServiceName, sp_Scope := scope, sp_Sources := [sourcePolicyLocator],
            sp_ConditionalData := [\<lparr>cd_Predicates = predicates, cd_Data = responsePhaseData\<rparr>]\<rparr>])"

definition tokenReservationSpecs ::
  "TokenLimit \<Rightarrow> string \<Rightarrow> string \<Rightarrow> string \<Rightarrow> string list \<Rightarrow> DataType list \<Rightarrow> string \<Rightarrow> string list \<Rightarrow> ActionSpec list" where
  "tokenReservationSpecs tokenLimit limitIdentifier scope sourcePolicyLocator predicates commonData defaultTTL totalTokensPointers =
     (let amount = defaultReservationAmount;
          ttl = (if defaultTTL \<noteq> [] then ''duration('' @ [quote_char] @ defaultTTL @ [quote_char] @ '')'' else []);
          amount = (case tl_Reservation tokenLimit of None \<Rightarrow> amount
            | Some r \<Rightarrow> (case rsv_Amount r of None \<Rightarrow> amount | Some a \<Rightarrow> IntOrString_String a));
          ttl = (case tl_Reservation tokenLimit of None \<Rightarrow> ttl
            | Some r \<Rightarrow> (case rsv_TTL r of None \<Rightarrow> ttl | Some t \<Rightarrow> t))
      in [no_spec\<lparr>sp_ServiceName := RateLimitReserveServiceName, sp_Scope := scope, sp_Sources := [sourcePolicyLocator],
            sp_ConditionalData := [\<lparr>cd_Predicates = predicates, cd_Data = commonData\<rparr>],
            sp_Reservation := Some \<lparr>resv_ID = limitIdentifier, resv_Amount = amount, resv_TTL = ttl, resv_ActualAmount = []\<rparr>\<rparr>,
          no_spec\<lparr>sp_ServiceName := RateLimitCommitServiceName, sp_Scope := scope, sp_Sources := [sourcePolicyLocator],
            sp_ConditionalData := [\<lparr>cd_Predicates = predicates, cd_Data = commonData\<rparr>],
            sp_Reservation := Some \<lparr>resv_ID = limitIdentifier, resv_Amount = [], resv_TTL = [],
              resv_ActualAmount = ResponseBodyJSONTotalTokensCEL totalTokensPointers\<rparr>\<rparr>])"

definition wasmActionSpecsFromTokenLimit ::
  "TokenLimit \<Rightarrow> string \<Rightarrow> string \<Rightarrow> string \<Rightarrow> WhenPredicates \<Rightarrow> TokenRateLimitingMode \<Rightarrow> string \<Rightarrow> string list \<Rightarrow> ActionSpec list" where
  "wasmActionSpecsFromTokenLimit tokenLimit limitIdentifier scope sourcePolicyLocator topLevelPredicates mode defaultTTL totalTokensPointers =
     (let predicates = map predicate_of topLevelPredicates @ map predicate_of (tl_When tokenLimit);
          commonData = DataExpression limitIdentifier ''1'' #
            map (\<lambda>counter. DataExpression (counter_Expression counter) (counter_Expression counter)) (tl_Counters tokenLimit)
      in case mode of
           ModeReservation \<Rightarrow> tokenReservationSpecs tokenLimit limitIdentifier scope sourcePolicyLocator predicates commonData
             defaultTTL totalTokensPointers
         | ModeOptimistic \<Rightarrow> tokenCheckReportSpecs scope sourcePolicyLocator predicates commonData totalTokensPointers)"

definition reservationTTLFromRoute ::
  "(HTTPRouteMatch TopoRouteRule \<Rightarrow> string option) \<Rightarrow> ParsedTopologyPath \<Rightarrow> string" where
  "reservationTTLFromRoute backendRequest parsed =
     (case ptp_HTTPRouteRule parsed of None \<Rightarrow> []
      | Some rule \<Rightarrow> (case backendRequest rule of Some t \<Rightarrow> t | None \<Rightarrow> []))"

text \<open>The loop over the special rules: the predicates and the data extraction found so far.\<close>

definition tokenSpecialRule ::
  "WhenPredicates option \<times> DataExtraction option \<Rightarrow> string \<times> trlp_rule \<Rightarrow>
   (WhenPredicates option \<times> DataExtraction option) go_result" where
  "tokenSpecialRule st r =
     (if fst r = RulesKeyTopLevelPredicates
      then if fst st \<noteq> None then Panic ''token rate limit policy with multiple top level 'when' predicate lists''
        else (case snd r of TokenWhenRule w \<Rightarrow> Return (Some (mwp_Predicates w), snd st) | _ \<Rightarrow> bad_conversion)
      else if fst r = RulesKeyDataExtraction
      then if snd st \<noteq> None then Panic ''token rate limit policy with multiple top level 'dataExtraction' rules''
        else (case snd r of DataExtractionRule d \<Rightarrow> Return (fst st, Some d) | _ \<Rightarrow> bad_conversion)
      else Return st)"

definition buildWasmActionSpecsForTokenRateLimit ::
  "(string \<Rightarrow> string) \<Rightarrow> (string \<Rightarrow> string \<Rightarrow> string) \<Rightarrow> (HTTPRouteMatch TopoRouteRule \<Rightarrow> string option) \<Rightarrow> locator_fun \<Rightarrow>
   's topo_view \<Rightarrow> TokenRateLimitPolicy EffectivePolicy \<Rightarrow> ('s policy_object \<Rightarrow> bool) \<Rightarrow> TokenRateLimitingMode \<Rightarrow>
   ActionSpec list go_result" where
  "buildWasmActionSpecsForTokenRateLimit hash8 nn backendRequest locator topo effectivePolicy policyPredicate mode =
     (let path = ep_Path effectivePolicy;
          rules = TokenRateLimitPolicy_Rules locator (ep_Spec effectivePolicy);
          policiesInPath = pathPolicies topo policyPredicate path
      in case ParseTopologyPath path of Inl err \<Rightarrow> Return []
       | Inr parsed \<Rightarrow>
         (case GetRoute parsed of None \<Rightarrow> Panic ''nil pointer dereference''
          | Some route \<Rightarrow>
            (let limitsNamespace = LimitsNamespaceFromRoute nn route;
                 reservationDefaultTTL = reservationTTLFromRoute backendRequest parsed;
                 rulesEntries = go_sort (\<lambda>a b. string_less (fst a) (fst b)) rules;
                 special = (\<lambda>r. fst r = RulesKeyTopLevelPredicates \<or> fst r = RulesKeyDataExtraction);
                 specialRules = filter special rulesEntries;
                 limitRules = filter (\<lambda>r. \<not> special r) rulesEntries
             in gbind (gfold tokenSpecialRule (None, None) specialRules) (\<lambda>(topLevel, dataExtraction).
                (let topLevelWhenPredicates = (case topLevel of None \<Rightarrow> [] | Some w \<Rightarrow> w);
                     totalTokensPointers = ResponseTotalTokensPointers dataExtraction
                 in gbind (gtraverse (\<lambda>(uniquePolicyRuleKey, policyRule).
                      case findSource locator policiesInPath (trlp_GetSource policyRule) of None \<Rightarrow> Return []
                      | Some source \<Rightarrow>
                        (let limitIdentifier = TokenLimitNameToLimitadorIdentifier hash8 nn (policy_nsname (pol source)) uniquePolicyRuleKey
                         in case policyRule of
                              TokenLimitRule limitSpec \<Rightarrow>
                                Return (wasmActionSpecsFromTokenLimit limitSpec limitIdentifier limitsNamespace
                                  (policy_locator locator (pol source)) topLevelWhenPredicates mode reservationDefaultTTL totalTokensPointers)
                            | _ \<Rightarrow> bad_conversion)) limitRules)
                    (\<lambda>specs. Return (concat specs)))))))"

section \<open>Action specifications of auth\<close>

definition buildWasmActionSpecsForAuth ::
  "(string \<Rightarrow> string) \<Rightarrow> string \<Rightarrow> 's AuthPolicy EffectivePolicy \<Rightarrow> ActionSpec list" where
  "buildWasmActionSpecsForAuth sha pathID effectivePolicy =
     [no_spec\<lparr>sp_ServiceName := AuthServiceName, sp_Scope := AuthConfigNameForPath sha pathID,
        sp_Predicates := WhenPredicates_Into (mwp_Predicates (ap_When (AuthPolicy_Proper (ap_Spec (ep_Spec effectivePolicy))))),
        sp_Sources := ep_SourcePolicies effectivePolicy\<rparr>]"

section \<open>Limits for Limitador\<close>

datatype any_rule = RateRule rlp_rule | TokenRule trlp_rule

fun any_rule_source :: "any_rule \<Rightarrow> string" where
  "any_rule_source (RateRule r) = rlp_GetSource r"
| "any_rule_source (TokenRule r) = trlp_GetSource r"

definition limitCondition :: "string \<Rightarrow> string" where
  "limitCondition limitIdentifier =
     ''descriptors[0]['' @ [quote_char] @ limitIdentifier @ [quote_char] @ ''] == '' @ [quote_char] @ ''1'' @ [quote_char]"

definition limitadorLimit :: "string \<Rightarrow> string \<Rightarrow> string \<Rightarrow> string list \<Rightarrow> Rate \<Rightarrow> RateLimit" where
  "limitadorLimit limitKey limitsNamespace limitIdentifier variables rate =
     (let (maxValue, seconds) = Rate_ToSeconds rate
      in \<lparr>lim_Conditions = Some [limitCondition limitIdentifier], lim_MaxValue = maxValue, lim_Namespace = limitsNamespace,
          lim_Seconds = seconds, lim_Variables = Some variables, lim_Name = limitKey\<rparr>)"

definition isRateLimitingPolicyAcceptedAndNotDeletedFunc ::
  "find_cond \<Rightarrow> locator_fun \<Rightarrow> 's workflow_state \<Rightarrow> 's policy_object \<Rightarrow> bool" where
  "isRateLimitingPolicyAcceptedAndNotDeletedFunc findCond locator st policy \<longleftrightarrow>
     isRateLimitPolicyAcceptedAndNotDeletedFunc findCond locator st policy \<or>
     isTokenRateLimitPolicyAcceptedAndNotDeletedFunc findCond locator st policy"

text \<open>
  One limit rule; \<open>None\<close> stands for the two logged errors that skip it: the origin is not in the
  path, or the rule is not a limit.
\<close>

definition limitEntry ::
  "(string \<Rightarrow> string) \<Rightarrow> (string \<Rightarrow> string \<Rightarrow> string) \<Rightarrow> (string \<Rightarrow> string option) \<Rightarrow> locator_fun \<Rightarrow> 's policy_object list \<Rightarrow>
   string \<Rightarrow> string \<times> any_rule \<Rightarrow> (string \<times> LimitadorRateLimits) option" where
  "limitEntry hash8 nn transform locator policies limitsNamespace entry =
     (case findSource locator policies (any_rule_source (snd entry)) of None \<Rightarrow> None
      | Some policy \<Rightarrow>
        (let limitKey = fst entry in
         case snd entry of
           RateRule (RuleLimit limit) \<Rightarrow>
             (let limitIdentifier = LimitNameToLimitadorIdentifier hash8 nn (policy_nsname (pol policy)) limitKey
              in Some (limitsNamespace @ ''/'' @ limitIdentifier,
                   map (limitadorLimit limitKey limitsNamespace limitIdentifier (Limit_CountersAsStringList transform limit))
                     (limit_Rates limit)))
         | TokenRule (TokenLimitRule limit) \<Rightarrow>
             (let limitIdentifier = TokenLimitNameToLimitadorIdentifier hash8 nn (policy_nsname (pol policy)) limitKey
              in Some (limitsNamespace @ ''/'' @ limitIdentifier,
                   map (limitadorLimit limitKey limitsNamespace limitIdentifier (TokenLimit_CountersAsStringList transform limit))
                     (tl_Rates limit)))
         | _ \<Rightarrow> None))"

definition processPolicyRules ::
  "(string \<Rightarrow> LimitadorRateLimits \<Rightarrow> 'om \<Rightarrow> 'om) \<Rightarrow> (string \<Rightarrow> string) \<Rightarrow> (string \<Rightarrow> string \<Rightarrow> string) \<Rightarrow> (string \<Rightarrow> string option) \<Rightarrow>
   find_cond \<Rightarrow> locator_fun \<Rightarrow> 's topo_view \<Rightarrow> 's workflow_state \<Rightarrow> targetable list \<Rightarrow> (string, any_rule) gomap \<Rightarrow> 'om \<Rightarrow> 'om" where
  "processPolicyRules om_set hash8 nn transform findCond locator topo st path rules rateLimitIndex =
     (case ParseTopologyPath path of Inl err \<Rightarrow> rateLimitIndex
      | Inr parsed \<Rightarrow>
        (let limitsNamespace = (case GetRoute parsed of Some route \<Rightarrow> LimitsNamespaceFromRoute nn route | None \<Rightarrow> []);
             limitRules = filter (\<lambda>r. fst r \<noteq> RulesKeyTopLevelPredicates) rules;
             policies = pathPolicies topo (isRateLimitingPolicyAcceptedAndNotDeletedFunc findCond locator st) path
         in foldl (\<lambda>index limitRule. case limitEntry hash8 nn transform locator policies limitsNamespace limitRule of
              None \<Rightarrow> index | Some (key, rateLimits) \<Rightarrow> Index_Set om_set index key rateLimits) rateLimitIndex limitRules))"

definition rlp_any_rules :: "locator_fun \<Rightarrow> RateLimitPolicy \<Rightarrow> (string, any_rule) gomap" where
  "rlp_any_rules locator p = map (\<lambda>(k, r). (k, RateRule r)) (RateLimitPolicy_Rules locator p)"

definition trlp_any_rules :: "locator_fun \<Rightarrow> TokenRateLimitPolicy \<Rightarrow> (string, any_rule) gomap" where
  "trlp_any_rules locator p = map (\<lambda>(k, r). (k, TokenRule r)) (TokenRateLimitPolicy_Rules locator p)"

text \<open>\<open>processEffectivePolicies\<close>, with the sources it returns; the maps are walked in list order.\<close>

definition processEffectivePolicies ::
  "(string \<Rightarrow> LimitadorRateLimits \<Rightarrow> 'om \<Rightarrow> 'om) \<Rightarrow> (string \<Rightarrow> string) \<Rightarrow> (string \<Rightarrow> string \<Rightarrow> string) \<Rightarrow> (string \<Rightarrow> string option) \<Rightarrow>
   find_cond \<Rightarrow> locator_fun \<Rightarrow> 's topo_view \<Rightarrow> 's workflow_state \<Rightarrow> 'om \<Rightarrow> string list \<times> 'om" where
  "processEffectivePolicies om_set hash8 nn transform findCond locator topo st index =
     (let rlps = (case st_EffectiveRateLimitPolicies st of None \<Rightarrow> [] | Some m \<Rightarrow> map snd m);
          trlps = (case st_EffectiveTokenRateLimitPolicies st of None \<Rightarrow> [] | Some m \<Rightarrow> map snd m);
          process = processPolicyRules om_set hash8 nn transform findCond locator topo st;
          index = foldl (\<lambda>i ep. process (ep_Path ep) (rlp_any_rules locator (ep_Spec ep)) i) index rlps;
          index = foldl (\<lambda>i ep. process (ep_Path ep) (trlp_any_rules locator (ep_Spec ep)) i) index trlps
      in (concat (map ep_SourcePolicies rlps) @ concat (map ep_SourcePolicies trlps), index))"

definition buildLimitadorLimits ::
  "'om \<Rightarrow> (string \<Rightarrow> LimitadorRateLimits \<Rightarrow> 'om \<Rightarrow> 'om) \<Rightarrow> ('om \<Rightarrow> (string \<times> LimitadorRateLimits) list) \<Rightarrow> (string \<Rightarrow> string) \<Rightarrow>
   (string \<Rightarrow> string \<Rightarrow> string) \<Rightarrow> (string \<Rightarrow> string option) \<Rightarrow> find_cond \<Rightarrow> locator_fun \<Rightarrow> 's topo_view \<Rightarrow> 's workflow_state \<Rightarrow>
   LimitadorRateLimits \<times> string list" where
  "buildLimitadorLimits om_new om_set om_entries hash8 nn transform findCond locator topo st =
     (let (sources, index) = processEffectivePolicies om_set hash8 nn transform findCond locator topo st om_new
      in (ToRateLimits om_entries index, sources))"

text \<open>
  The reconciler.  \<open>limitador\<close> is the resource of the topology, if any; \<open>inject\<close> is what the
  tracing propagator adds to the annotations, \<open>update\<close> the API server's answer to the update,
  an error or none.  The result is the resource that is sent, whether
  \<open>StateLimitadorLimitsModified\<close> is set, and the error registry of the workflow.
\<close>

record Limitador =
  ltd_Namespace :: string
  ltd_Name :: string
  ltd_Annotations :: "(string, string) gomap"
  ltd_Limits :: LimitadorRateLimits

definition LimitadorLimitsReconciler_Reconcile ::
  "((string, string) gomap \<Rightarrow> (string, string) gomap) \<Rightarrow> (Limitador \<Rightarrow> string option) \<Rightarrow> int \<Rightarrow> LimitadorRateLimits \<Rightarrow>
   Limitador option \<Rightarrow> error_map option \<Rightarrow> Limitador option \<times> bool \<times> error_map option" where
  "LimitadorLimitsReconciler_Reconcile inject update now desiredLimits limitador stored =
     (case limitador of None \<Rightarrow> (None, False, stored)
      | Some limitador \<Rightarrow>
        (case LimitadorRateLimits_EqualTo (ltd_Limits limitador) desiredLimits of (equal, _, desiredLimits) \<Rightarrow>
           if equal then (None, False, stored)
           else
             (let annotations = gm_delete ''tracestate'' (gm_delete ''traceparent'' (ltd_Annotations limitador));
                  obj = limitador\<lparr>ltd_Annotations := inject annotations, ltd_Limits := desiredLimits\<rparr>
              in case update obj of None \<Rightarrow> (Some obj, True, stored)
                 | Some err \<Rightarrow>
                   (Some obj, True, Some (Registry_Record now ''LimitadorLimitsReconciler'' ''update''
                      (ltd_Namespace limitador, ltd_Name limitador) ''Limitador.limitador.kuadrant.io'' err
                      (fst (GetOrCreateErrorRegistry stored)))))))"

section \<open>Validation, then effective policies\<close>

text \<open>
  The precondition of the data plane workflow and the precondition of its task: the validators,
  then the reconcilers of effective policies.  The workflow engine starts the tasks of a group
  together; they write different keys of the state, so that the order does not matter
  (\<open>validators_commute\<close>).
\<close>

definition dataPlanePoliciesValidation ::
  "(string \<Rightarrow> string \<Rightarrow> string) \<Rightarrow> locator_fun \<Rightarrow> validator \<Rightarrow> validator \<Rightarrow> 's topo_view \<Rightarrow> 's workflow_state \<Rightarrow> 's workflow_state" where
  "dataPlanePoliciesValidation notFound locator authValidator limitValidator topo st =
     TokenRateLimitPolicyValidator_Validate notFound locator limitValidator topo
       (RateLimitPolicyValidator_Validate notFound locator limitValidator topo
         (AuthPolicyValidator_Validate notFound locator authValidator topo st))"

definition effectivePolicies_compute ::
  "find_cond \<Rightarrow> (string \<Rightarrow> string \<Rightarrow> string) \<Rightarrow> locator_fun \<Rightarrow> 's topo_view \<Rightarrow> 's workflow_state \<Rightarrow> 's workflow_state go_result" where
  "effectivePolicies_compute findCond nn locator topo st =
     gbind (EffectiveAuthPolicyReconciler_Reconcile findCond nn locator topo st)
       (\<lambda>st. gbind (EffectiveRateLimitPolicyReconciler_Reconcile findCond nn locator topo st)
         (\<lambda>st. EffectiveTokenRateLimitPolicyReconciler_Reconcile findCond nn locator topo st))"

lemma validators_commute:
  "AuthPolicyValidator_Validate notFound locator r topo (RateLimitPolicyValidator_Validate notFound locator r' topo st) =
     RateLimitPolicyValidator_Validate notFound locator r' topo (AuthPolicyValidator_Validate notFound locator r topo st)"
  "AuthPolicyValidator_Validate notFound locator r topo (TokenRateLimitPolicyValidator_Validate notFound locator r' topo st) =
     TokenRateLimitPolicyValidator_Validate notFound locator r' topo (AuthPolicyValidator_Validate notFound locator r topo st)"
  "RateLimitPolicyValidator_Validate notFound locator r topo (TokenRateLimitPolicyValidator_Validate notFound locator r' topo st) =
     TokenRateLimitPolicyValidator_Validate notFound locator r' topo (RateLimitPolicyValidator_Validate notFound locator r topo st)"
  by (simp_all add: AuthPolicyValidator_Validate_def RateLimitPolicyValidator_Validate_def
      TokenRateLimitPolicyValidator_Validate_def Let_def)

section \<open>Every rule has its source in the path\<close>

definition trlp_unsourced :: "TokenRateLimitPolicy \<Rightarrow> bool" where
  "trlp_unsourced p \<longleftrightarrow> (let pr = TokenRateLimitPolicy_Proper (trlp_Spec p) in
     mwp_Source (trlp_When pr) = [] \<and> list_all (\<lambda>(k, l). tl_Source l = []) (trlp_Limits pr) \<and>
     (case trlp_DataExtraction pr of None \<Rightarrow> True | Some d \<Rightarrow> de_Source d = []))"

lemma trlp_unsourced_rules:
  assumes "trlp_wf locator p" "trlp_unsourced p" "map_of (TokenRateLimitPolicy_Rules locator p) k = Some r"
  shows "trlp_GetSource r = TokenRateLimitPolicy_GetLocator locator p"
proof -
  have "trlp_lookup (trlp_new locator p) (TokenRateLimitPolicy_Proper (trlp_Spec p)) k = Some r"
    using assms(1,3) trlp_rules_lookup [of p locator k] by (simp add: trlp_wf_def)
  moreover have "trlp_GetSource (trlp_new locator p x) = TokenRateLimitPolicy_GetLocator locator p" if "trlp_GetSource x = []" for x
    using that by (simp add: NewMergeableRule_def)
  ultimately show ?thesis
    using assms(2) by (auto simp: trlp_lookup_def trlp_unsourced_def Let_def list_all_iff dest!: map_of_SomeD split: if_splits)
qed

fun policy_unsourced :: "'s machinery_policy \<Rightarrow> bool" where
  "policy_unsourced (RateLimitPolicyObj p) = rlp_unsourced p"
| "policy_unsourced (TokenRateLimitPolicyObj p) = trlp_unsourced p"
| "policy_unsourced _ = True"

text \<open>
  What the API server and the topology promise of the policies: they are well-formed, their
  internal sources are not set, names have no slash, and a locator identifies an object.
\<close>

definition policies_delivered :: "locator_fun \<Rightarrow> 's topo_view \<Rightarrow> bool" where
  "policies_delivered locator topo \<longleftrightarrow>
     (\<forall>t. list_all (\<lambda>q. policy_ok locator (pol q) \<and> policy_unsourced (pol q) \<and>
        CHR ''/'' \<notin> set (fst (policy_nsname (pol q))) \<and> CHR ''/'' \<notin> set (snd (policy_nsname (pol q)))) (tv_PoliciesOf topo t)) \<and>
     (\<forall>t t' p q. p \<in> set (tv_PoliciesOf topo t) \<longrightarrow> q \<in> set (tv_PoliciesOf topo t') \<longrightarrow>
        policy_locator locator (pol p) = policy_locator locator (pol q) \<longrightarrow> pol p = pol q)"

lemma policies_delivered_ok:
  assumes "policies_delivered locator topo" "q \<in> set (tv_PoliciesOf topo t)"
  shows "policy_ok locator (pol q)" "policy_unsourced (pol q)"
    "CHR ''/'' \<notin> set (fst (policy_nsname (pol q)))" "CHR ''/'' \<notin> set (snd (policy_nsname (pol q)))"
  using assms by (auto simp: policies_delivered_def list_all_iff)

lemma policies_delivered_unique:
  assumes "policies_delivered locator topo" "p \<in> set (tv_PoliciesOf topo t)" "q \<in> set (tv_PoliciesOf topo t')"
    and "policy_locator locator (pol p) = policy_locator locator (pol q)"
  shows "pol p = pol q"
  using assms unfolding policies_delivered_def by blast

text \<open>The policy a rule of an effective policy comes from, and the one that the code finds for it.\<close>

lemma rlp_rule_origin:
  assumes "policies_delivered locator topo"
    and "effective_for (rlp_ops locator) rlp_substantive (\<lambda>p. asRateLimitPolicy (pol p)) topo predicate path ep"
    and "\<And>t q. q \<in> set (tv_PoliciesOf topo t) \<Longrightarrow> predicate q \<Longrightarrow> asRateLimitPolicy (pol q) \<noteq> None"
    and "map_of (RateLimitPolicy_Rules locator (ep_Spec ep)) k = Some r"
  shows "\<exists>q p. q \<in> set (pathPolicies topo predicate path) \<and> pol q = RateLimitPolicyObj p \<and>
    map_of (RateLimitPolicy_Rules locator p) k = Some r \<and> rlp_GetSource r = policy_locator locator (pol q)"
proof -
  from assms(2,4) have "effective_rules (rlp_ops locator) rlp_substantive
      (map (\<lambda>q. the (asRateLimitPolicy (pol q))) (pathPolicies topo predicate path)) k = Some r"
    by (simp add: effective_for_def Let_def)
  from effective_rules_provenance [OF this] obtain q where q: "q \<in> set (pathPolicies topo predicate path)"
    "map_of (RateLimitPolicy_Rules locator (the (asRateLimitPolicy (pol q)))) k = Some r" by auto
  from set_pathPolicies [OF q(1)] obtain t where t: "predicate q" "q \<in> set (tv_PoliciesOf topo t)" by blast
  with assms(3) obtain p where p: "pol q = RateLimitPolicyObj p" by (cases "pol q") fastforce+
  with q policies_delivered_ok [OF assms(1) t(2)] rlp_unsourced_rules [of locator p k r] show ?thesis by auto
qed

lemma trlp_rule_origin:
  assumes "policies_delivered locator topo"
    and "effective_for (trlp_ops locator) trlp_substantive (\<lambda>p. asTokenRateLimitPolicy (pol p)) topo predicate path ep"
    and "\<And>t q. q \<in> set (tv_PoliciesOf topo t) \<Longrightarrow> predicate q \<Longrightarrow> asTokenRateLimitPolicy (pol q) \<noteq> None"
    and "map_of (TokenRateLimitPolicy_Rules locator (ep_Spec ep)) k = Some r"
  shows "\<exists>q p. q \<in> set (pathPolicies topo predicate path) \<and> pol q = TokenRateLimitPolicyObj p \<and>
    map_of (TokenRateLimitPolicy_Rules locator p) k = Some r \<and> trlp_GetSource r = policy_locator locator (pol q)"
proof -
  from assms(2,4) have "effective_rules (trlp_ops locator) trlp_substantive
      (map (\<lambda>q. the (asTokenRateLimitPolicy (pol q))) (pathPolicies topo predicate path)) k = Some r"
    by (simp add: effective_for_def Let_def)
  from effective_rules_provenance [OF this] obtain q where q: "q \<in> set (pathPolicies topo predicate path)"
    "map_of (TokenRateLimitPolicy_Rules locator (the (asTokenRateLimitPolicy (pol q)))) k = Some r" by auto
  from set_pathPolicies [OF q(1)] obtain t where t: "predicate q" "q \<in> set (tv_PoliciesOf topo t)" by blast
  with assms(3) obtain p where p: "pol q = TokenRateLimitPolicyObj p" by (cases "pol q") fastforce+
  with q policies_delivered_ok [OF assms(1) t(2)] trlp_unsourced_rules [of locator p k r] show ?thesis by auto
qed

lemma findSource_found:
  assumes "policies_delivered locator topo" "q \<in> set (pathPolicies topo predicate path)"
    and "\<And>p. predicate p \<Longrightarrow> predicate' p"
  shows "\<exists>s. findSource locator (pathPolicies topo predicate' path) (policy_locator locator (pol q)) = Some s \<and> pol s = pol q"
proof -
  have q': "q \<in> set (pathPolicies topo predicate' path)"
    using assms(2,3) by (auto simp: pathPolicies_def PoliciesInPath_def)
  then have "findSource locator (pathPolicies topo predicate' path) (policy_locator locator (pol q)) \<noteq> None"
    by (auto simp: findSource_def find_None_iff)
  then obtain s where s: "findSource locator (pathPolicies topo predicate' path) (policy_locator locator (pol q)) = Some s" by blast
  then have "s \<in> set (pathPolicies topo predicate' path)" "policy_locator locator (pol s) = policy_locator locator (pol q)"
    by (auto simp: findSource_def find_Some_iff)
  with s policies_delivered_unique [OF assms(1)] set_pathPolicies q' show ?thesis by metis
qed

section \<open>What is written into the index\<close>

definition path_writes ::
  "(string \<Rightarrow> string) \<Rightarrow> (string \<Rightarrow> string \<Rightarrow> string) \<Rightarrow> (string \<Rightarrow> string option) \<Rightarrow> find_cond \<Rightarrow> locator_fun \<Rightarrow> 's topo_view \<Rightarrow>
   's workflow_state \<Rightarrow> targetable list \<Rightarrow> (string, any_rule) gomap \<Rightarrow> (string \<times> LimitadorRateLimits) list" where
  "path_writes hash8 nn transform findCond locator topo st path rules =
     (case ParseTopologyPath path of Inl err \<Rightarrow> []
      | Inr parsed \<Rightarrow> List.map_filter
          (limitEntry hash8 nn transform locator
            (pathPolicies topo (isRateLimitingPolicyAcceptedAndNotDeletedFunc findCond locator st) path)
            (case GetRoute parsed of Some route \<Rightarrow> LimitsNamespaceFromRoute nn route | None \<Rightarrow> []))
          (filter (\<lambda>r. fst r \<noteq> RulesKeyTopLevelPredicates) rules))"

lemma foldl_map_filter:
  "foldl (\<lambda>m x. case f x of None \<Rightarrow> m | Some (k, v) \<Rightarrow> Index_Set om_set m k v) index xs =
     foldl (\<lambda>m (k, v). Index_Set om_set m k v) index (List.map_filter f xs)"
  by (induction xs arbitrary: index) (auto simp: List.map_filter_simps split: option.splits)

lemma processPolicyRules_eq:
  "processPolicyRules om_set hash8 nn transform findCond locator topo st path rules index =
     foldl (\<lambda>m (k, v). Index_Set om_set m k v) index (path_writes hash8 nn transform findCond locator topo st path rules)"
  by (simp add: processPolicyRules_def path_writes_def Let_def foldl_map_filter split: sum.splits)

definition all_writes ::
  "(string \<Rightarrow> string) \<Rightarrow> (string \<Rightarrow> string \<Rightarrow> string) \<Rightarrow> (string \<Rightarrow> string option) \<Rightarrow> find_cond \<Rightarrow> locator_fun \<Rightarrow> 's topo_view \<Rightarrow>
   's workflow_state \<Rightarrow> (string \<times> LimitadorRateLimits) list" where
  "all_writes hash8 nn transform findCond locator topo st =
     concat (map (\<lambda>ep. path_writes hash8 nn transform findCond locator topo st (ep_Path ep) (rlp_any_rules locator (ep_Spec ep)))
       (case st_EffectiveRateLimitPolicies st of None \<Rightarrow> [] | Some m \<Rightarrow> map snd m)) @
     concat (map (\<lambda>ep. path_writes hash8 nn transform findCond locator topo st (ep_Path ep) (trlp_any_rules locator (ep_Spec ep)))
       (case st_EffectiveTokenRateLimitPolicies st of None \<Rightarrow> [] | Some m \<Rightarrow> map snd m))"

lemma foldl_concat_map: "foldl (\<lambda>i x. foldl f i (g x)) i xs = foldl f i (concat (map g xs))"
  by (induction xs arbitrary: i) auto

lemma processEffectivePolicies_index:
  "snd (processEffectivePolicies om_set hash8 nn transform findCond locator topo st index) =
     foldl (\<lambda>m (k, v). Index_Set om_set m k v) index (all_writes hash8 nn transform findCond locator topo st)"
  by (simp add: processEffectivePolicies_def Let_def all_writes_def processPolicyRules_eq foldl_concat_map)

text \<open>When equal keys get equal values, every write that is not empty is found in the index.\<close>

lemma consistent_writes:
  assumes "om_laws om_new om_set om_entries" "(k, v) \<in> set ws"
    and "\<And>v'. (k, v') \<in> set ws \<Longrightarrow> v' = v"
  shows "map_of (om_entries (foldl (\<lambda>m (k, v). Index_Set om_set m k v) om_new ws)) k = (if v = [] then None else Some v)"
proof -
  let ?ws = "rev (filter (\<lambda>(k, v). v \<noteq> []) ws)"
  have "map_of (om_entries (foldl (\<lambda>m (k, v). Index_Set om_set m k v) om_new ws)) = map_of ?ws"
    by (simp add: Index_entries [OF assms(1)] map_of_foldl_gm_set)
  moreover have "map_of ?ws k = (if v = [] then None else Some v)"
  proof (cases "map_of ?ws k")
    case None
    then show ?thesis using assms(2) by (auto simp: map_of_eq_None_iff image_iff)
  next
    case (Some v')
    then have "(k, v') \<in> set ws" "v' \<noteq> []" by (auto dest: map_of_SomeD)
    with Some assms(3) show ?thesis by auto
  qed
  ultimately show ?thesis by simp
qed

section \<open>Identifiers\<close>

text \<open>What is known of the parameters: the format of a namespaced name, and a hash of eight hexadecimal
  digits that does not collide on the limits of the topology.\<close>

definition nn_format :: "(string \<Rightarrow> string \<Rightarrow> string) \<Rightarrow> bool" where
  "nn_format nn \<longleftrightarrow> (\<forall>ns n. nn ns n = ns @ ''/'' @ n)"

fun policy_rule_keys :: "locator_fun \<Rightarrow> 's machinery_policy \<Rightarrow> string set" where
  "policy_rule_keys locator (RateLimitPolicyObj p) = fst ` set (RateLimitPolicy_Rules locator p)"
| "policy_rule_keys locator (TokenRateLimitPolicyObj p) = fst ` set (TokenRateLimitPolicy_Rules locator p)"
| "policy_rule_keys locator _ = {}"

definition limit_names :: "(string \<Rightarrow> string \<Rightarrow> string) \<Rightarrow> locator_fun \<Rightarrow> 's topo_view \<Rightarrow> string set" where
  "limit_names nn locator topo = {nn (fst (policy_nsname (pol q))) (snd (policy_nsname (pol q))) @ ''/'' @ k | q k.
     (\<exists>t. q \<in> set (tv_PoliciesOf topo t)) \<and> k \<in> policy_rule_keys locator (pol q)}"

definition hash_ok :: "(string \<Rightarrow> string) \<Rightarrow> string set \<Rightarrow> bool" where
  "hash_ok hash8 names \<longleftrightarrow> (\<forall>s. length (hash8 s) = 8 \<and> CHR ''/'' \<notin> set (hash8 s)) \<and> inj_on hash8 names"

lemma first_slash:
  assumes "CHR ''/'' \<notin> set a" "CHR ''/'' \<notin> set b" "a @ CHR ''/'' # x = b @ CHR ''/'' # y"
  shows "a = b \<and> x = y"
proof -
  have "[a, x] = [b, y]" using SplitN2_hash [OF assms(1), of x] SplitN2_hash [OF assms(2), of y] unfolding assms(3) by (rule trans [OF sym])
  then show ?thesis by simp
qed

lemma last_slash:
  assumes "CHR ''/'' \<notin> set x" "CHR ''/'' \<notin> set y" "a @ CHR ''/'' # x = b @ CHR ''/'' # y"
  shows "a = b \<and> x = y"
proof -
  have "rev x @ CHR ''/'' # rev a = rev y @ CHR ''/'' # rev b" using arg_cong [OF assms(3), of rev] by simp
  with first_slash [of "rev x" "rev y" "rev a" "rev b"] assms(1,2) show ?thesis by simp
qed

lemma sanitize_chars: "c \<in> set (sanitize name) \<Longrightarrow> is_identifier_char c"
  by (auto simp: sanitize_def is_identifier_char_def)

lemma sanitize_no_slash [simp]: "CHR ''/'' \<notin> set (sanitize name)"
  using sanitize_chars [of "CHR ''/''" name] by (auto simp: is_identifier_char_def)

lemma same_suffix:
  "length u = length v \<Longrightarrow> p @ u = q @ v \<Longrightarrow> p = q \<and> u = v"
  by simp

text \<open>The two identifiers, with the prefix as an argument.\<close>

definition limit_id ::
  "(string \<Rightarrow> string) \<Rightarrow> (string \<Rightarrow> string \<Rightarrow> string) \<Rightarrow> string \<Rightarrow> string \<times> string \<Rightarrow> string \<Rightarrow> string" where
  "limit_id hash8 nn prefix key name =
     prefix @ sanitize name @ ''__'' @ hash8 (nn (fst key) (snd key) @ ''/'' @ name)"

lemma limit_id_eqs:
  "LimitNameToLimitadorIdentifier hash8 nn = limit_id hash8 nn ''limit.''"
  "TokenLimitNameToLimitadorIdentifier hash8 nn = limit_id hash8 nn ''tokenlimit.''"
  by (simp_all add: fun_eq_iff LimitNameToLimitadorIdentifier_def TokenLimitNameToLimitadorIdentifier_def limit_id_def)

text \<open>Where a write comes from: the rule of the source policy, for the namespace \<open>L\<close> of the route.\<close>

fun source_entry ::
  "(string \<Rightarrow> string) \<Rightarrow> (string \<Rightarrow> string \<Rightarrow> string) \<Rightarrow> (string \<Rightarrow> string option) \<Rightarrow> locator_fun \<Rightarrow> string \<Rightarrow>
   's machinery_policy \<Rightarrow> string \<Rightarrow> (string \<times> LimitadorRateLimits) option" where
  "source_entry hash8 nn transform locator L (RateLimitPolicyObj p) k =
     (case map_of (RateLimitPolicy_Rules locator p) k of
        Some (RuleLimit limit) \<Rightarrow>
          (let i = LimitNameToLimitadorIdentifier hash8 nn (rlp_Namespace p, rlp_Name p) k
           in Some (L @ ''/'' @ i, map (limitadorLimit k L i (Limit_CountersAsStringList transform limit)) (limit_Rates limit)))
      | _ \<Rightarrow> None)"
| "source_entry hash8 nn transform locator L (TokenRateLimitPolicyObj p) k =
     (case map_of (TokenRateLimitPolicy_Rules locator p) k of
        Some (TokenLimitRule limit) \<Rightarrow>
          (let i = TokenLimitNameToLimitadorIdentifier hash8 nn (trlp_Namespace p, trlp_Name p) k
           in Some (L @ ''/'' @ i, map (limitadorLimit k L i (TokenLimit_CountersAsStringList transform limit)) (tl_Rates limit)))
      | _ \<Rightarrow> None)"
| "source_entry hash8 nn transform locator L _ k = None"

fun id_prefix :: "'s machinery_policy \<Rightarrow> string" where
  "id_prefix (RateLimitPolicyObj p) = ''limit.''"
| "id_prefix _ = ''tokenlimit.''"

lemma source_entry_key:
  assumes "source_entry hash8 nn transform locator L q k = Some (key, v)"
  shows "key = L @ ''/'' @ limit_id hash8 nn (id_prefix q) (policy_nsname q) k"
    and "k \<in> policy_rule_keys locator q" "policy_kind q \<in> {''RateLimitPolicy'', ''TokenRateLimitPolicy''}"
proof -
  have "key = L @ ''/'' @ limit_id hash8 nn (id_prefix q) (policy_nsname q) k \<and> k \<in> policy_rule_keys locator q \<and>
      policy_kind q \<in> {''RateLimitPolicy'', ''TokenRateLimitPolicy''}"
  proof (cases q)
    case (RateLimitPolicyObj p)
    then obtain l where "map_of (RateLimitPolicy_Rules locator p) k = Some (RuleLimit l)"
      using assms by (auto split: option.splits rlp_rule.splits)
    with assms RateLimitPolicyObj show ?thesis
      by (simp add: Let_def limit_id_eqs rev_image_eqI [OF map_of_SomeD])
  next
    case (TokenRateLimitPolicyObj p)
    then obtain l where "map_of (TokenRateLimitPolicy_Rules locator p) k = Some (TokenLimitRule l)"
      using assms by (auto split: option.splits trlp_rule.splits)
    with assms TokenRateLimitPolicyObj show ?thesis
      by (simp add: Let_def limit_id_eqs rev_image_eqI [OF map_of_SomeD])
  qed (use assms in simp_all)
  then show "key = L @ ''/'' @ limit_id hash8 nn (id_prefix q) (policy_nsname q) k"
    "k \<in> policy_rule_keys locator q" "policy_kind q \<in> {''RateLimitPolicy'', ''TokenRateLimitPolicy''}" by simp_all
qed

lemma limit_id_no_slash:
  "hash_ok hash8 names \<Longrightarrow> CHR ''/'' \<notin> set prefix \<Longrightarrow> CHR ''/'' \<notin> set (limit_id hash8 nn prefix key name)"
  by (auto simp: limit_id_def hash_ok_def)

lemma id_prefix_no_slash: "CHR ''/'' \<notin> set (id_prefix q)"
  by (cases q) auto

lemma limit_id_hash:
  assumes "hash_ok hash8 names" "limit_id hash8 nn prefix key name = limit_id hash8 nn prefix' key' name'"
  shows "hash8 (nn (fst key) (snd key) @ ''/'' @ name) = hash8 (nn (fst key') (snd key') @ ''/'' @ name')"
  using assms(1) same_suffix [of "hash8 (nn (fst key) (snd key) @ ''/'' @ name)" "hash8 (nn (fst key') (snd key') @ ''/'' @ name')"
      "prefix @ sanitize name @ ''__''" "prefix' @ sanitize name' @ ''__''"] assms(2)
  unfolding limit_id_def hash_ok_def by simp

lemma locator_of_nsname:
  "policy_locator locator p = locator (policy_kind p) (fst (policy_nsname p)) (snd (policy_nsname p))"
  by (cases p) (simp_all add: AuthPolicy_GetLocator_def RateLimitPolicy_GetLocator_def TokenRateLimitPolicy_GetLocator_def)

lemma limit_id_prefix:
  assumes "limit_id hash8 nn (id_prefix p) key name = limit_id hash8 nn (id_prefix q) key' name'"
    and "policy_kind p \<in> {''RateLimitPolicy'', ''TokenRateLimitPolicy''}" "policy_kind q \<in> {''RateLimitPolicy'', ''TokenRateLimitPolicy''}"
    and "policy_ok locator p" "policy_ok locator q"
  shows "policy_kind p = policy_kind q"
  using arg_cong [OF assms(1), of hd] assms(2-) by (cases p; cases q) (simp_all add: limit_id_def)

lemma source_entry_unique:
  assumes "policies_delivered locator topo" "nn_format nn" "hash_ok hash8 (limit_names nn locator topo)"
    and q: "q \<in> set (tv_PoliciesOf topo t)" "q' \<in> set (tv_PoliciesOf topo t')"
    and e: "source_entry hash8 nn transform locator L (pol q) k = Some (key, v)"
      "source_entry hash8 nn transform locator L' (pol q') k' = Some (key, v')"
  shows "v = v'"
proof -
  let ?n = "\<lambda>q k. nn (fst (policy_nsname (pol q))) (snd (policy_nsname (pol q))) @ ''/'' @ k"
  have "L @ CHR ''/'' # limit_id hash8 nn (id_prefix (pol q)) (policy_nsname (pol q)) k =
      L' @ CHR ''/'' # limit_id hash8 nn (id_prefix (pol q')) (policy_nsname (pol q')) k'"
    using source_entry_key(1) [OF e(1)] source_entry_key(1) [OF e(2)] by simp
  from last_slash [OF limit_id_no_slash [OF assms(3) id_prefix_no_slash] limit_id_no_slash [OF assms(3) id_prefix_no_slash] this]
  have L: "L = L'" and i: "limit_id hash8 nn (id_prefix (pol q)) (policy_nsname (pol q)) k =
      limit_id hash8 nn (id_prefix (pol q')) (policy_nsname (pol q')) k'" by simp_all
  have "?n q k \<in> limit_names nn locator topo" "?n q' k' \<in> limit_names nn locator topo"
    unfolding limit_names_def using q source_entry_key(2) [OF e(1)] source_entry_key(2) [OF e(2)] by blast+
  with limit_id_hash [OF assms(3) i] assms(3) have "?n q k = ?n q' k'"
    unfolding hash_ok_def inj_on_def by blast
  then have "fst (policy_nsname (pol q)) @ CHR ''/'' # snd (policy_nsname (pol q)) @ CHR ''/'' # k =
      fst (policy_nsname (pol q')) @ CHR ''/'' # snd (policy_nsname (pol q')) @ CHR ''/'' # k'"
    using assms(2) by (simp add: nn_format_def)
  from first_slash [OF policies_delivered_ok(3) [OF assms(1) q(1)] policies_delivered_ok(3) [OF assms(1) q(2)] this]
    first_slash [OF policies_delivered_ok(4) [OF assms(1) q(1)] policies_delivered_ok(4) [OF assms(1) q(2)]]
  have "policy_nsname (pol q) = policy_nsname (pol q')" and k: "k = k'" by (auto simp: prod_eq_iff)
  moreover have "policy_kind (pol q) = policy_kind (pol q')"
    using limit_id_prefix [OF i source_entry_key(3) [OF e(1)] source_entry_key(3) [OF e(2)]
        policies_delivered_ok(1) [OF assms(1) q(1)] policies_delivered_ok(1) [OF assms(1) q(2)]] .
  ultimately have "pol q = pol q'"
    using policies_delivered_unique [OF assms(1) q] by (simp add: locator_of_nsname)
  with e L k show ?thesis by simp
qed

section \<open>Where the writes come from\<close>

definition rate_limiting :: "find_cond \<Rightarrow> locator_fun \<Rightarrow> 's topo_view \<Rightarrow> 's workflow_state \<Rightarrow> targetable list \<Rightarrow> 's policy_object list" where
  "rate_limiting findCond locator topo st path =
     pathPolicies topo (isRateLimitingPolicyAcceptedAndNotDeletedFunc findCond locator st) path"

text \<open>
  What the effective policies of a state have to be; \<open>rlp_only\<close> says that an accepted rate limit
  policy is one, which validation ensures.
\<close>

definition rlp_only :: "find_cond \<Rightarrow> locator_fun \<Rightarrow> 's topo_view \<Rightarrow> 's workflow_state \<Rightarrow> bool" where
  "rlp_only findCond locator topo st \<longleftrightarrow> (\<forall>t. list_all (\<lambda>q. isRateLimitPolicyAcceptedAndNotDeletedFunc findCond locator st q \<longrightarrow>
     asRateLimitPolicy (pol q) \<noteq> None) (tv_PoliciesOf topo t))"

definition rlp_effective_for where
  "rlp_effective_for findCond locator topo st ep \<longleftrightarrow>
     effective_for (rlp_ops locator) rlp_substantive (\<lambda>p. asRateLimitPolicy (pol p)) topo
       (isRateLimitPolicyAcceptedAndNotDeletedFunc findCond locator st) (ep_Path ep) ep"

definition trlp_effective_for where
  "trlp_effective_for findCond locator topo st ep \<longleftrightarrow>
     effective_for (trlp_ops locator) trlp_substantive (\<lambda>p. asTokenRateLimitPolicy (pol p)) topo
       (isTokenRateLimitPolicyAcceptedAndNotDeletedFunc findCond locator st) (ep_Path ep) ep"

lemma rlp_rule_entry:
  assumes "policies_delivered locator topo" "rlp_only findCond locator topo st" "rlp_effective_for findCond locator topo st ep"
    and r: "map_of (RateLimitPolicy_Rules locator (ep_Spec ep)) k = Some r"
  shows "\<exists>q t. q \<in> set (tv_PoliciesOf topo t) \<and>
    (\<exists>s. findSource locator (pathPolicies topo (isRateLimitPolicyAcceptedAndNotDeletedFunc findCond locator st) (ep_Path ep))
        (rlp_GetSource r) = Some s \<and> pol s = pol q) \<and>
    rlp_GetSource r = policy_locator locator (pol q) \<and> rlp_entry_ok k r \<and>
    (\<exists>p. pol q = RateLimitPolicyObj p \<and> map_of (RateLimitPolicy_Rules locator p) k = Some r) \<and>
    limitEntry hash8 nn transform locator (rate_limiting findCond locator topo st (ep_Path ep)) L (k, RateRule r) =
      source_entry hash8 nn transform locator L (pol q) k"
proof -
  let ?acc = "isRateLimitPolicyAcceptedAndNotDeletedFunc findCond locator st"
  have only: "asRateLimitPolicy (pol q) \<noteq> None" if "q \<in> set (tv_PoliciesOf topo t)" "?acc q" for t q
    using assms(2) that by (auto simp: rlp_only_def list_all_iff)
  have "\<exists>q p. q \<in> set (pathPolicies topo ?acc (ep_Path ep)) \<and> pol q = RateLimitPolicyObj p \<and>
      map_of (RateLimitPolicy_Rules locator p) k = Some r \<and> rlp_GetSource r = policy_locator locator (pol q)"
    by (rule rlp_rule_origin [OF assms(1) assms(3) [unfolded rlp_effective_for_def] _ r]) (fact only)
  then obtain q p where q: "q \<in> set (pathPolicies topo ?acc (ep_Path ep))" "pol q = RateLimitPolicyObj p"
    "map_of (RateLimitPolicy_Rules locator p) k = Some r" "rlp_GetSource r = policy_locator locator (pol q)" by blast
  obtain t where t: "q \<in> set (tv_PoliciesOf topo t)" using set_pathPolicies [OF q(1)] by blast
  have narrow: "\<exists>s. findSource locator (pathPolicies topo ?acc (ep_Path ep)) (rlp_GetSource r) = Some s \<and> pol s = pol q"
    unfolding q(4) by (rule findSource_found [OF assms(1) q(1)])
  obtain s where s: "findSource locator (rate_limiting findCond locator topo st (ep_Path ep)) (rlp_GetSource r) = Some s" "pol s = pol q"
    unfolding rate_limiting_def q(4)
    using findSource_found [OF assms(1) q(1), of "isRateLimitingPolicyAcceptedAndNotDeletedFunc findCond locator st"]
    by (auto simp: isRateLimitingPolicyAcceptedAndNotDeletedFunc_def)
  have "limitEntry hash8 nn transform locator (rate_limiting findCond locator topo st (ep_Path ep)) L (k, RateRule r) =
      source_entry hash8 nn transform locator L (pol q) k"
    using s q(2,3) by (cases r) (simp_all add: limitEntry_def Let_def)
  moreover have "rlp_entry_ok k r"
    using policies_delivered_ok(1) [OF assms(1) t] q(2) rlp_rules_ok [OF _ map_of_SomeD [OF q(3)]] by simp
  ultimately show ?thesis using t narrow q(2,3,4) by blast
qed

lemma trlp_rule_entry:
  assumes "policies_delivered locator topo" "trlp_effective_for findCond locator topo st ep"
    and r: "map_of (TokenRateLimitPolicy_Rules locator (ep_Spec ep)) k = Some r"
  shows "\<exists>q t. q \<in> set (tv_PoliciesOf topo t) \<and>
    (\<exists>s. findSource locator (pathPolicies topo (isTokenRateLimitPolicyAcceptedAndNotDeletedFunc findCond locator st) (ep_Path ep))
        (trlp_GetSource r) = Some s \<and> pol s = pol q) \<and>
    trlp_GetSource r = policy_locator locator (pol q) \<and> trlp_entry_ok k r \<and>
    (\<exists>p. pol q = TokenRateLimitPolicyObj p \<and> map_of (TokenRateLimitPolicy_Rules locator p) k = Some r) \<and>
    limitEntry hash8 nn transform locator (rate_limiting findCond locator topo st (ep_Path ep)) L (k, TokenRule r) =
      source_entry hash8 nn transform locator L (pol q) k"
proof -
  let ?acc = "isTokenRateLimitPolicyAcceptedAndNotDeletedFunc findCond locator st"
  have only: "asTokenRateLimitPolicy (pol q) \<noteq> None" if "q \<in> set (tv_PoliciesOf topo t)" "?acc q" for t q
    using accepted_trlp [OF policies_delivered_ok(1) [OF assms(1) that(1)] that(2)] by auto
  have "\<exists>q p. q \<in> set (pathPolicies topo ?acc (ep_Path ep)) \<and> pol q = TokenRateLimitPolicyObj p \<and>
      map_of (TokenRateLimitPolicy_Rules locator p) k = Some r \<and> trlp_GetSource r = policy_locator locator (pol q)"
    by (rule trlp_rule_origin [OF assms(1) assms(2) [unfolded trlp_effective_for_def] _ r]) (fact only)
  then obtain q p where q: "q \<in> set (pathPolicies topo ?acc (ep_Path ep))" "pol q = TokenRateLimitPolicyObj p"
    "map_of (TokenRateLimitPolicy_Rules locator p) k = Some r" "trlp_GetSource r = policy_locator locator (pol q)" by blast
  obtain t where t: "q \<in> set (tv_PoliciesOf topo t)" using set_pathPolicies [OF q(1)] by blast
  have narrow: "\<exists>s. findSource locator (pathPolicies topo ?acc (ep_Path ep)) (trlp_GetSource r) = Some s \<and> pol s = pol q"
    unfolding q(4) by (rule findSource_found [OF assms(1) q(1)])
  obtain s where s: "findSource locator (rate_limiting findCond locator topo st (ep_Path ep)) (trlp_GetSource r) = Some s" "pol s = pol q"
    unfolding rate_limiting_def q(4)
    using findSource_found [OF assms(1) q(1), of "isRateLimitingPolicyAcceptedAndNotDeletedFunc findCond locator st"]
    by (auto simp: isRateLimitingPolicyAcceptedAndNotDeletedFunc_def)
  have "limitEntry hash8 nn transform locator (rate_limiting findCond locator topo st (ep_Path ep)) L (k, TokenRule r) =
      source_entry hash8 nn transform locator L (pol q) k"
    using s q(2,3) by (cases r) (simp_all add: limitEntry_def Let_def)
  moreover have "trlp_entry_ok k r"
    using policies_delivered_ok(1) [OF assms(1) t] q(2) trlp_rules_ok [OF _ map_of_SomeD [OF q(3)]] by simp
  ultimately show ?thesis using t narrow q(2,3,4) by blast
qed

lemma gm_wf_RateLimitPolicy_Rules: "gm_wf (RateLimitPolicy_Rules locator p)"
  unfolding RateLimitPolicy_Rules_def Let_def by (rule gm_wf_foldl_gm_map) simp

text \<open>The state holds the effective policies of its validation.\<close>

definition effective_state :: "find_cond \<Rightarrow> locator_fun \<Rightarrow> 's topo_view \<Rightarrow> 's workflow_state \<Rightarrow> bool" where
  "effective_state findCond locator topo st \<longleftrightarrow> rlp_only findCond locator topo st \<and>
     (\<forall>m. st_EffectiveRateLimitPolicies st = Some m \<longrightarrow> list_all (rlp_effective_for findCond locator topo st) (map snd m)) \<and>
     (\<forall>m. st_EffectiveTokenRateLimitPolicies st = Some m \<longrightarrow> list_all (trlp_effective_for findCond locator topo st) (map snd m))"

lemma set_path_writes:
  "w \<in> set (path_writes hash8 nn transform findCond locator topo st path rules) \<longleftrightarrow>
     (\<exists>parsed e. ParseTopologyPath path = Inr parsed \<and> e \<in> set rules \<and> fst e \<noteq> RulesKeyTopLevelPredicates \<and>
        limitEntry hash8 nn transform locator (rate_limiting findCond locator topo st path)
          (case GetRoute parsed of Some route \<Rightarrow> LimitsNamespaceFromRoute nn route | None \<Rightarrow> []) e = Some w)"
proof (cases "ParseTopologyPath path")
  case (Inr parsed)
  then show ?thesis
    by (simp add: path_writes_def rate_limiting_def set_map_filter del: split_paired_Ex)
qed (simp add: path_writes_def)

lemma all_writes_origin:
  assumes "policies_delivered locator topo" "effective_state findCond locator topo st"
    and "(key, v) \<in> set (all_writes hash8 nn transform findCond locator topo st)"
  shows "\<exists>q t L k. q \<in> set (tv_PoliciesOf topo t) \<and> source_entry hash8 nn transform locator L (pol q) k = Some (key, v)"
proof -
  let ?rate = "\<exists>m ep. st_EffectiveRateLimitPolicies st = Some m \<and> ep \<in> snd ` set m \<and>
      (key, v) \<in> set (path_writes hash8 nn transform findCond locator topo st (ep_Path ep) (rlp_any_rules locator (ep_Spec ep)))"
  let ?token = "\<exists>m ep. st_EffectiveTokenRateLimitPolicies st = Some m \<and> ep \<in> snd ` set m \<and>
      (key, v) \<in> set (path_writes hash8 nn transform findCond locator topo st (ep_Path ep) (trlp_any_rules locator (ep_Spec ep)))"
  from assms(3) have "?rate \<or> ?token" by (force simp: all_writes_def split: option.splits)
  then show ?thesis
  proof (elim disjE exE conjE)
    fix m ep
    assume m: "st_EffectiveRateLimitPolicies st = Some m" "ep \<in> snd ` set m"
      and w: "(key, v) \<in> set (path_writes hash8 nn transform findCond locator topo st (ep_Path ep) (rlp_any_rules locator (ep_Spec ep)))"
    have ep: "rlp_effective_for findCond locator topo st ep"
      using assms(2) m by (auto simp: effective_state_def list_all_iff)
    from w obtain L k r where e: "(k, r) \<in> set (RateLimitPolicy_Rules locator (ep_Spec ep))"
      "limitEntry hash8 nn transform locator (rate_limiting findCond locator topo st (ep_Path ep)) L (k, RateRule r) = Some (key, v)"
      unfolding set_path_writes by (auto simp: rlp_any_rules_def)
    with rlp_rule_entry [OF assms(1) _ ep, of k r hash8 nn transform L] assms(2) gm_wf_RateLimitPolicy_Rules show ?thesis
      unfolding effective_state_def by (metis map_of_eq_Some_iff)
  next
    fix m ep
    assume m: "st_EffectiveTokenRateLimitPolicies st = Some m" "ep \<in> snd ` set m"
      and w: "(key, v) \<in> set (path_writes hash8 nn transform findCond locator topo st (ep_Path ep) (trlp_any_rules locator (ep_Spec ep)))"
    have ep: "trlp_effective_for findCond locator topo st ep"
      using assms(2) m by (auto simp: effective_state_def list_all_iff)
    from w obtain L k r where e: "(k, r) \<in> set (TokenRateLimitPolicy_Rules locator (ep_Spec ep))"
      "limitEntry hash8 nn transform locator (rate_limiting findCond locator topo st (ep_Path ep)) L (k, TokenRule r) = Some (key, v)"
      unfolding set_path_writes by (auto simp: trlp_any_rules_def)
    with trlp_rule_entry [OF assms(1) ep, of k r hash8 nn transform L] trlp_rules_distinct show ?thesis
      by (metis map_of_eq_Some_iff)
  qed
qed

text \<open>Every entry that a source's rule gives and that is written at all is found as written.\<close>

lemma written_entry:
  assumes "om_laws om_new om_set om_entries" "nn_format nn" "hash_ok hash8 (limit_names nn locator topo)"
    and "policies_delivered locator topo" "effective_state findCond locator topo st"
    and w: "(key, v) \<in> set (all_writes hash8 nn transform findCond locator topo st)"
  shows "map_of (om_entries (snd (processEffectivePolicies om_set hash8 nn transform findCond locator topo st om_new))) key =
    (if v = [] then None else Some v)"
  unfolding processEffectivePolicies_index
proof (rule consistent_writes [OF assms(1) w])
  fix v'
  assume "(key, v') \<in> set (all_writes hash8 nn transform findCond locator topo st)"
  from all_writes_origin [OF assms(4,5) this] all_writes_origin [OF assms(4,5) w]
    source_entry_unique [OF assms(4,2,3)] show "v' = v" by metis
qed

section \<open>What the gateway asks is what Limitador counts\<close>

definition rate_limit_enforced ::
  "(string \<Rightarrow> string option) \<Rightarrow> (string \<times> LimitadorRateLimits) list \<Rightarrow> string \<Rightarrow> string \<times> rlp_rule \<Rightarrow> ActionSpec \<Rightarrow> bool" where
  "rate_limit_enforced transform entries L rule spec \<longleftrightarrow> (case snd rule of RuleWhen w \<Rightarrow> False
     | RuleLimit l \<Rightarrow> sp_Scope spec = L \<and> sp_Sources spec = [limit_Source l] \<and>
         (\<exists>i cd rest. sp_ConditionalData spec = [cd] \<and> cd_Data cd = DataExpression i ''1'' # rest \<and>
            map_of entries (L @ ''/'' @ i) = (if limit_Rates l = [] then None
              else Some (map (limitadorLimit (fst rule) L i (Limit_CountersAsStringList transform l)) (limit_Rates l)))))"

lemma gtraverse_Some:
  assumes "\<And>x. x \<in> set xs \<Longrightarrow> \<exists>y. f x = Return (g y) \<and> P x y"
  shows "\<exists>ys. gtraverse f xs = Return (map g ys) \<and> list_all2 P xs ys"
  using assms
proof (induction xs)
  case (Cons x xs)
  then obtain y ys where "f x = Return (g y)" "P x y" "gtraverse f xs = Return (map g ys)" "list_all2 P xs ys" by fastforce
  then show ?case by (intro exI [of _ "y # ys"]) simp
qed simp

lemma map_filter_Some: "List.map_filter (\<lambda>s. s) (map Some ys) = ys"
  by (induction ys) (auto simp: List.map_filter_simps)

lemma filter_key_distinct:
  assumes "distinct (map fst xs)"
  shows "filter (\<lambda>r. fst r = k) xs = (case map_of xs k of None \<Rightarrow> [] | Some v \<Rightarrow> [(k, v)])"
  using assms
proof (induction xs)
  case (Cons x xs)
  have "fst x \<notin> fst ` set xs \<Longrightarrow> map_of xs (fst x) = None" by (simp add: map_of_eq_None_fst)
  with Cons show ?case by (cases x) (auto split: option.splits)
qed simp

lemma map_of_go_sort:
  assumes "distinct (map fst xs)"
  shows "distinct (map fst (go_sort lt xs))" "map_of (go_sort lt xs) = map_of xs"
proof -
  have "mset (map fst (go_sort lt xs)) = mset (map fst xs)" by simp
  then show "distinct (map fst (go_sort lt xs))" using assms by (metis mset_eq_imp_distinct_iff)
  then show "map_of (go_sort lt xs) = map_of xs"
    using assms by (intro map_of_inject_set [THEN iffD2]) simp_all
qed

lemma GetRoute_parsed: "ParseTopologyPath path = Inr parsed \<Longrightarrow> \<exists>route. GetRoute parsed = Some route"
  by (auto simp: ParseTopologyPath_ok http_parsed_def grpc_parsed_def GetRoute_def)

definition limit_rules :: "string list \<Rightarrow> (string, 'r) gomap \<Rightarrow> (string, 'r) gomap" where
  "limit_rules reserved rules =
     filter (\<lambda>r. fst r \<notin> set reserved) (go_sort (\<lambda>a b. string_less (fst a) (fst b)) rules)"

lemma build_rate_specs:
  assumes rules: "rules = RateLimitPolicy_Rules locator e"
    and parsed: "ParseTopologyPath path = Inr parsed" "GetRoute parsed = Some route"
    and ok: "\<And>k r. map_of rules k = Some r \<Longrightarrow> rlp_entry_ok k r"
    and spec: "\<And>k l top. map_of rules k = Some (RuleLimit l) \<Longrightarrow>
      (\<exists>s. findSource locator (pathPolicies topo predicate path) (limit_Source l) = Some s \<and>
        P (k, RuleLimit l) (wasmActionSpecFromLimit l (identifier (policy_nsname (pol s)) k)
          (LimitsNamespaceFromRoute nn route) (policy_locator locator (pol s)) top))"
  shows "\<exists>specs. buildWasmActionSpecsForAnyRateLimit nn locator topo rlp_GetSource rlp_rule_when path rules
      RulesKeyTopLevelPredicates predicate identifier rlp_specFunc = Return specs \<and>
    list_all2 P (limit_rules [RulesKeyTopLevelPredicates] rules) specs"
proof -
  define entries where "entries = go_sort (\<lambda>a b. string_less (fst a) (fst b)) rules"
  have wf: "distinct (map fst entries)" "map_of entries = map_of rules"
    using map_of_go_sort [of rules] gm_wf_RateLimitPolicy_Rules [of locator e] by (simp_all add: entries_def rules)
  define top where "top = (case map_of rules RulesKeyTopLevelPredicates of
      Some (RuleWhen w) \<Rightarrow> mwp_Predicates w | _ \<Rightarrow> [])"
  have whens: "filter (\<lambda>r. fst r = RulesKeyTopLevelPredicates) entries =
      (case map_of rules RulesKeyTopLevelPredicates of None \<Rightarrow> [] | Some v \<Rightarrow> [(RulesKeyTopLevelPredicates, v)])"
    using filter_key_distinct [OF wf(1)] wf(2) by simp
  have top: "(if length (filter (\<lambda>r. fst r = RulesKeyTopLevelPredicates) entries) > 0
      then if length (filter (\<lambda>r. fst r = RulesKeyTopLevelPredicates) entries) > 1
        then Panic ''rate limit policy with multiple top level 'when' predicate lists''
        else (case rlp_rule_when (snd (hd (filter (\<lambda>r. fst r = RulesKeyTopLevelPredicates) entries))) of
          None \<Rightarrow> bad_conversion | Some w \<Rightarrow> Return w)
      else Return []) = Return top"
    unfolding whens top_def using ok [of RulesKeyTopLevelPredicates]
    by (auto split: option.splits rlp_rule.splits)
  define body where "body = (\<lambda>(k, r). case findSource locator (pathPolicies topo predicate path) (rlp_GetSource r) of None \<Rightarrow> Return None
        | Some source \<Rightarrow> gbind (rlp_specFunc r (identifier (policy_nsname (pol source)) k) (LimitsNamespaceFromRoute nn route)
            (policy_locator locator (pol source)) top) (\<lambda>spec. Return (Some spec)))"
  have step: "\<exists>y. body x = Return (Some y) \<and> P x y" if "x \<in> set (limit_rules [RulesKeyTopLevelPredicates] rules)" for x
  proof -
    obtain k r where x: "x = (k, r)" by fastforce
    then have "k \<noteq> RulesKeyTopLevelPredicates" "(k, r) \<in> set rules" using that by (auto simp: limit_rules_def)
    then have r: "map_of rules k = Some r" using gm_wf_RateLimitPolicy_Rules rules by simp
    with ok [OF r] \<open>k \<noteq> RulesKeyTopLevelPredicates\<close> obtain l where l: "r = RuleLimit l" by (cases r) auto
    with spec [of k l top] r x show ?thesis by (auto simp: body_def)
  qed
  obtain specs where specs: "gtraverse body (limit_rules [RulesKeyTopLevelPredicates] rules) = Return (map Some specs)"
    "list_all2 P (limit_rules [RulesKeyTopLevelPredicates] rules) specs"
    using gtraverse_Some [of _ body Some P, OF step] by blast
  show ?thesis
    unfolding buildWasmActionSpecsForAnyRateLimit_def Let_def parsed sum.case option.case
      entries_def [symmetric] top gbind.simps body_def [symmetric]
    using specs by (intro exI [of _ specs]) (simp add: limit_rules_def entries_def map_filter_Some)
qed

lemma rate_limits_enforced:
  assumes "om_laws om_new om_set om_entries" "nn_format nn" "hash_ok hash8 (limit_names nn locator topo)"
    and pd: "policies_delivered locator topo" and es: "effective_state findCond locator topo st"
    and ep: "st_EffectiveRateLimitPolicies st = Some m" "ep \<in> snd ` set m"
    and parsed: "ParseTopologyPath (ep_Path ep) = Inr parsed" "GetRoute parsed = Some route"
    and index: "index = snd (processEffectivePolicies om_set hash8 nn transform findCond locator topo st om_new)"
  shows "\<exists>specs. buildWasmActionSpecsForRateLimit hash8 nn locator topo ep
      (isRateLimitPolicyAcceptedAndNotDeletedFunc findCond locator st) = Return specs \<and>
    list_all2 (rate_limit_enforced transform (om_entries index) (LimitsNamespaceFromRoute nn route))
      (limit_rules [RulesKeyTopLevelPredicates] (RateLimitPolicy_Rules locator (ep_Spec ep))) specs"
  unfolding buildWasmActionSpecsForRateLimit_def
proof (rule build_rate_specs [OF refl parsed])
  have only: "rlp_only findCond locator topo st" and eff: "rlp_effective_for findCond locator topo st ep"
    using es ep by (auto simp: effective_state_def list_all_iff)
  note entry = rlp_rule_entry [OF pd only eff]
  show "rlp_entry_ok k r" if "map_of (RateLimitPolicy_Rules locator (ep_Spec ep)) k = Some r" for k r
    using entry [OF that] by blast
  let ?L = "LimitsNamespaceFromRoute nn route"
  fix k l top
  assume r: "map_of (RateLimitPolicy_Rules locator (ep_Spec ep)) k = Some (RuleLimit l)"
  from entry [OF r, of hash8 nn transform ?L] obtain q t s p where q: "q \<in> set (tv_PoliciesOf topo t)"
    and s: "findSource locator (pathPolicies topo (isRateLimitPolicyAcceptedAndNotDeletedFunc findCond locator st) (ep_Path ep))
        (limit_Source l) = Some s" "pol s = pol q"
    and src: "limit_Source l = policy_locator locator (pol q)"
    and p: "pol q = RateLimitPolicyObj p" "map_of (RateLimitPolicy_Rules locator p) k = Some (RuleLimit l)"
    and ok: "rlp_entry_ok k (RuleLimit l)"
    and e: "limitEntry hash8 nn transform locator (rate_limiting findCond locator topo st (ep_Path ep)) ?L (k, RateRule (RuleLimit l)) =
      source_entry hash8 nn transform locator ?L (pol q) k"
    unfolding rlp_GetSource.simps by (elim exE conjE) (rule that)
  let ?i = "LimitNameToLimitadorIdentifier hash8 nn (policy_nsname (pol q)) k"
  let ?v = "map (limitadorLimit k ?L ?i (Limit_CountersAsStringList transform l)) (limit_Rates l)"
  have "(?L @ ''/'' @ ?i, ?v) \<in> set (path_writes hash8 nn transform findCond locator topo st (ep_Path ep) (rlp_any_rules locator (ep_Spec ep)))"
    unfolding set_path_writes using e p parsed ok map_of_SomeD [OF r]
    by (intro exI [of _ parsed] exI [of _ "(k, RateRule (RuleLimit l))"]) (force simp: rlp_any_rules_def Let_def)
  then have "(?L @ ''/'' @ ?i, ?v) \<in> set (all_writes hash8 nn transform findCond locator topo st)"
    using ep by (force simp: all_writes_def)
  from written_entry [OF assms(1-5) this] index
  have "map_of (om_entries index) (?L @ ''/'' @ ?i) = (if limit_Rates l = [] then None else Some ?v)" by simp
  then show "\<exists>s. findSource locator (pathPolicies topo (isRateLimitPolicyAcceptedAndNotDeletedFunc findCond locator st) (ep_Path ep)) (limit_Source l) = Some s \<and>
      rate_limit_enforced transform (om_entries index) ?L (k, RuleLimit l)
        (wasmActionSpecFromLimit l (LimitNameToLimitadorIdentifier hash8 nn (policy_nsname (pol s)) k) ?L (policy_locator locator (pol s)) top)"
    using s src by (simp add: rate_limit_enforced_def wasmActionSpecFromLimit_def no_spec_def wasmDataFromLimit_def)
qed

section \<open>Token limits\<close>

definition rules_top_level :: "(string, trlp_rule) gomap \<Rightarrow> WhenPredicates option" where
  "rules_top_level rules = (case map_of rules RulesKeyTopLevelPredicates of Some (TokenWhenRule w) \<Rightarrow> Some (mwp_Predicates w) | _ \<Rightarrow> None)"

definition rules_data_extraction :: "(string, trlp_rule) gomap \<Rightarrow> DataExtraction option" where
  "rules_data_extraction rules = (case map_of rules RulesKeyDataExtraction of Some (DataExtractionRule d) \<Rightarrow> Some d | _ \<Rightarrow> None)"

lemma tokenSpecialRule_cases:
  "fst st = None \<Longrightarrow> tokenSpecialRule st (RulesKeyTopLevelPredicates, TokenWhenRule w) = Return (Some (mwp_Predicates w), snd st)"
  "snd st = None \<Longrightarrow> tokenSpecialRule st (RulesKeyDataExtraction, DataExtractionRule d) = Return (fst st, Some d)"
  "k \<noteq> RulesKeyTopLevelPredicates \<Longrightarrow> k \<noteq> RulesKeyDataExtraction \<Longrightarrow> tokenSpecialRule st (k, r) = Return st"
  by (simp_all add: tokenSpecialRule_def)

lemma gfold_tokenSpecialRule:
  assumes "distinct (map fst xs)" "list_all (\<lambda>(k, r). trlp_entry_ok k r) xs"
    and "fst st \<noteq> None \<Longrightarrow> RulesKeyTopLevelPredicates \<notin> fst ` set xs"
    and "snd st \<noteq> None \<Longrightarrow> RulesKeyDataExtraction \<notin> fst ` set xs"
  shows "gfold tokenSpecialRule st xs =
    Return (case rules_top_level xs of None \<Rightarrow> fst st | w \<Rightarrow> w, case rules_data_extraction xs of None \<Rightarrow> snd st | d \<Rightarrow> d)"
  using assms
proof (induction xs arbitrary: st)
  case Nil
  then show ?case by (simp add: rules_top_level_def rules_data_extraction_def)
next
  case (Cons x xs)
  obtain k r where x: "x = (k, r)" by fastforce
  have fresh: "map_of xs k = None" using Cons.prems(1) x by (simp add: map_of_eq_None_fst)
  have ok: "trlp_entry_ok k r" using Cons.prems(2) x by simp
  show ?case
  proof (cases r)
    case (TokenWhenRule w)
    then have k: "k = RulesKeyTopLevelPredicates" using ok by simp
    have "gfold tokenSpecialRule (Some (mwp_Predicates w), snd st) xs = Return (case rules_top_level xs of None \<Rightarrow> Some (mwp_Predicates w) | w \<Rightarrow> w,
        case rules_data_extraction xs of None \<Rightarrow> snd st | d \<Rightarrow> d)"
      using Cons.IH [of "(Some (mwp_Predicates w), snd st)"] Cons.prems x k by (auto split: option.splits)
    moreover have "fst st = None" using Cons.prems(3) x k by (cases "fst st") auto
    ultimately show ?thesis using x k TokenWhenRule fresh
      by (simp add: tokenSpecialRule_cases rules_top_level_def rules_data_extraction_def)
  next
    case (DataExtractionRule d)
    then have k: "k = RulesKeyDataExtraction" using ok by simp
    have "gfold tokenSpecialRule (fst st, Some d) xs = Return (case rules_top_level xs of None \<Rightarrow> fst st | w \<Rightarrow> w,
        case rules_data_extraction xs of None \<Rightarrow> Some d | d \<Rightarrow> d)"
      using Cons.IH [of "(fst st, Some d)"] Cons.prems x k by (auto split: option.splits)
    moreover have "snd st = None" using Cons.prems(4) x k by (cases "snd st") auto
    ultimately show ?thesis using x k DataExtractionRule fresh
      by (simp add: tokenSpecialRule_cases rules_top_level_def rules_data_extraction_def)
  next
    case (TokenLimitRule l)
    then have k: "k \<noteq> RulesKeyTopLevelPredicates" "k \<noteq> RulesKeyDataExtraction" using ok by simp_all
    have "gfold tokenSpecialRule st xs = Return (case rules_top_level xs of None \<Rightarrow> fst st | w \<Rightarrow> w,
        case rules_data_extraction xs of None \<Rightarrow> snd st | d \<Rightarrow> d)"
      using Cons.prems x by (intro Cons.IH) auto
    then show ?thesis using x k by (simp add: tokenSpecialRule_cases rules_top_level_def rules_data_extraction_def)
  qed
qed

lemma map_of_filter_keys: "P k \<Longrightarrow> map_of (filter (\<lambda>r. P (fst r)) xs) k = map_of xs k"
  by (induction xs) auto

definition token_limit_enforced ::
  "(string \<Rightarrow> string option) \<Rightarrow> (string \<times> LimitadorRateLimits) list \<Rightarrow> string \<Rightarrow> TokenRateLimitingMode \<Rightarrow> string list \<Rightarrow>
   string \<times> trlp_rule \<Rightarrow> ActionSpec list \<Rightarrow> bool" where
  "token_limit_enforced transform entries L mode pointers rule specs \<longleftrightarrow> (case snd rule of
       TokenLimitRule l \<Rightarrow> (\<exists>i request response rest cd cd'. specs = [request, response] \<and>
         map_of entries (L @ ''/'' @ i) = (if tl_Rates l = [] then None
           else Some (map (limitadorLimit (fst rule) L i (TokenLimit_CountersAsStringList transform l)) (tl_Rates l))) \<and>
         map sp_Scope specs = [L, L] \<and> map sp_Sources specs = [[tl_Source l], [tl_Source l]] \<and>
         sp_ConditionalData request = [cd] \<and> sp_ConditionalData response = [cd'] \<and> cd_Predicates cd = cd_Predicates cd' \<and>
         (case mode of
            ModeReservation \<Rightarrow> map sp_ServiceName specs = [RateLimitReserveServiceName, RateLimitCommitServiceName] \<and>
              cd_Data cd = DataExpression i ''1'' # rest \<and> cd_Data cd' = DataExpression i ''1'' # rest \<and>
              map_option resv_ID (sp_Reservation request) = Some i \<and>
              map_option (\<lambda>r. (resv_ID r, resv_ActualAmount r)) (sp_Reservation response) = Some (i, ResponseBodyJSONTotalTokensCEL pointers)
          | ModeOptimistic \<Rightarrow> map sp_ServiceName specs = [RateLimitCheckServiceName, RateLimitReportServiceName] \<and>
              cd_Data cd = DataExpression i ''1'' # rest @ [DataExpression ''ratelimit.hits_addend'' ''0''] \<and>
              cd_Data cd' = DataExpression i ''1'' # rest @ [DataExpression ''ratelimit.hits_addend'' (ResponseBodyJSONTotalTokensCEL pointers)]))
     | _ \<Rightarrow> False)"

lemma build_token_specs:
  assumes rules: "rules = TokenRateLimitPolicy_Rules locator (ep_Spec ep)"
    and parsed: "ParseTopologyPath (ep_Path ep) = Inr parsed" "GetRoute parsed = Some route"
    and ok: "\<And>k r. map_of rules k = Some r \<Longrightarrow> trlp_entry_ok k r"
    and spec: "\<And>k l top. map_of rules k = Some (TokenLimitRule l) \<Longrightarrow>
      (\<exists>s. findSource locator (pathPolicies topo predicate (ep_Path ep)) (tl_Source l) = Some s \<and>
        P (k, TokenLimitRule l) (wasmActionSpecsFromTokenLimit l (TokenLimitNameToLimitadorIdentifier hash8 nn (policy_nsname (pol s)) k)
          (LimitsNamespaceFromRoute nn route) (policy_locator locator (pol s)) top mode (reservationTTLFromRoute backendRequest parsed)
          (ResponseTotalTokensPointers (rules_data_extraction rules))))"
  shows "\<exists>groups. buildWasmActionSpecsForTokenRateLimit hash8 nn backendRequest locator topo ep predicate mode = Return (concat groups) \<and>
    list_all2 P (limit_rules [RulesKeyTopLevelPredicates, RulesKeyDataExtraction] rules) groups"
proof -
  define entries where "entries = go_sort (\<lambda>a b. string_less (fst a) (fst b)) rules"
  have wf: "distinct (map fst entries)" "map_of entries = map_of rules"
    using map_of_go_sort [of rules] trlp_rules_distinct [of locator "ep_Spec ep"] by (simp_all add: entries_def rules)
  have entry_ok: "trlp_entry_ok k r" if "(k, r) \<in> set entries" for k r
    using ok that wf by (metis map_of_eq_Some_iff)
  define special where "special = (\<lambda>r :: string \<times> trlp_rule. fst r = RulesKeyTopLevelPredicates \<or> fst r = RulesKeyDataExtraction)"
  define top where "top = (case rules_top_level rules of None \<Rightarrow> [] | Some w \<Rightarrow> w)"
  define pointers where "pointers = ResponseTotalTokensPointers (rules_data_extraction rules)"
  have reserved: "map_of (filter special entries) RulesKeyTopLevelPredicates = map_of rules RulesKeyTopLevelPredicates"
    "map_of (filter special entries) RulesKeyDataExtraction = map_of rules RulesKeyDataExtraction"
    unfolding special_def
    by (subst map_of_filter_keys [of "\<lambda>k. k = RulesKeyTopLevelPredicates \<or> k = RulesKeyDataExtraction"]; simp add: wf(2))+
  have "gfold tokenSpecialRule (None, None) (filter special entries) =
      Return (rules_top_level (filter special entries), rules_data_extraction (filter special entries))"
    using entry_ok wf(1) by (subst gfold_tokenSpecialRule) (auto simp: list_all_iff distinct_map_filter split: option.splits)
  then have fold: "gfold tokenSpecialRule (None, None) (filter special entries) = Return (rules_top_level rules, rules_data_extraction rules)"
    using reserved by (simp add: rules_top_level_def rules_data_extraction_def)
  define body where "body = (\<lambda>(k, r). case findSource locator (pathPolicies topo predicate (ep_Path ep)) (trlp_GetSource r) of None \<Rightarrow> Return []
      | Some source \<Rightarrow> (case r of TokenLimitRule l \<Rightarrow> Return (wasmActionSpecsFromTokenLimit l
              (TokenLimitNameToLimitadorIdentifier hash8 nn (policy_nsname (pol source)) k) (LimitsNamespaceFromRoute nn route)
              (policy_locator locator (pol source)) top mode (reservationTTLFromRoute backendRequest parsed) pointers)
            | _ \<Rightarrow> bad_conversion))"
  have step: "\<exists>y. body x = Return y \<and> P x y" if "x \<in> set (limit_rules [RulesKeyTopLevelPredicates, RulesKeyDataExtraction] rules)" for x
  proof -
    obtain k r where x: "x = (k, r)" by fastforce
    then have k: "k \<noteq> RulesKeyTopLevelPredicates" "k \<noteq> RulesKeyDataExtraction" "(k, r) \<in> set rules"
      using that by (auto simp: limit_rules_def)
    then have r: "map_of rules k = Some r" using trlp_rules_distinct rules by simp
    with ok [OF r] k obtain l where l: "r = TokenLimitRule l" by (cases r) auto
    with spec [of k l top] r x show ?thesis by (auto simp: body_def pointers_def)
  qed
  obtain groups where groups: "gtraverse body (limit_rules [RulesKeyTopLevelPredicates, RulesKeyDataExtraction] rules) = Return groups"
    "list_all2 P (limit_rules [RulesKeyTopLevelPredicates, RulesKeyDataExtraction] rules) groups"
    using gtraverse_Some [of _ body "\<lambda>y. y" P, OF step] by auto
  have "filter (\<lambda>r. \<not> special r) entries = limit_rules [RulesKeyTopLevelPredicates, RulesKeyDataExtraction] rules"
    by (simp add: limit_rules_def entries_def special_def)
  then show ?thesis
    unfolding buildWasmActionSpecsForTokenRateLimit_def Let_def parsed sum.case option.case rules [symmetric]
      entries_def [symmetric] special_def [symmetric] fold gbind.simps prod.case top_def [symmetric] pointers_def [symmetric] body_def [symmetric]
    using groups by (intro exI [of _ groups]) simp
qed

lemma token_specs_shape:
  "token_limit_enforced transform entries L mode pointers (k, TokenLimitRule l)
     (wasmActionSpecsFromTokenLimit l i L (tl_Source l) topLevel mode ttl pointers)"
  if "map_of entries (L @ ''/'' @ i) = (if tl_Rates l = [] then None
      else Some (map (limitadorLimit k L i (TokenLimit_CountersAsStringList transform l)) (tl_Rates l)))"
  using that
  by (cases mode) (auto simp: token_limit_enforced_def wasmActionSpecsFromTokenLimit_def tokenReservationSpecs_def
      tokenCheckReportSpecs_def Let_def no_spec_def)

lemma token_limits_enforced:
  assumes "om_laws om_new om_set om_entries" "nn_format nn" "hash_ok hash8 (limit_names nn locator topo)"
    and pd: "policies_delivered locator topo" and es: "effective_state findCond locator topo st"
    and ep: "st_EffectiveTokenRateLimitPolicies st = Some m" "ep \<in> snd ` set m"
    and parsed: "ParseTopologyPath (ep_Path ep) = Inr parsed" "GetRoute parsed = Some route"
    and index: "index = snd (processEffectivePolicies om_set hash8 nn transform findCond locator topo st om_new)"
    and rules: "rules = TokenRateLimitPolicy_Rules locator (ep_Spec ep)"
  shows "\<exists>groups. buildWasmActionSpecsForTokenRateLimit hash8 nn backendRequest locator topo ep
      (isTokenRateLimitPolicyAcceptedAndNotDeletedFunc findCond locator st) mode = Return (concat groups) \<and>
    list_all2 (token_limit_enforced transform (om_entries index) (LimitsNamespaceFromRoute nn route) mode
        (ResponseTotalTokensPointers (rules_data_extraction rules)))
      (limit_rules [RulesKeyTopLevelPredicates, RulesKeyDataExtraction] rules) groups"
proof (rule build_token_specs [OF rules parsed])
  have eff: "trlp_effective_for findCond locator topo st ep"
    using es ep by (auto simp: effective_state_def list_all_iff)
  note entry = trlp_rule_entry [OF pd eff, folded rules]
  show "trlp_entry_ok k r" if "map_of rules k = Some r" for k r
    using entry [OF that] by blast
  let ?L = "LimitsNamespaceFromRoute nn route"
  fix k l top
  assume r: "map_of rules k = Some (TokenLimitRule l)"
  from entry [OF r, of hash8 nn transform ?L] obtain q t s p where q: "q \<in> set (tv_PoliciesOf topo t)"
    and s: "findSource locator (pathPolicies topo (isTokenRateLimitPolicyAcceptedAndNotDeletedFunc findCond locator st) (ep_Path ep))
        (tl_Source l) = Some s" "pol s = pol q"
    and src: "tl_Source l = policy_locator locator (pol q)"
    and p: "pol q = TokenRateLimitPolicyObj p" "map_of (TokenRateLimitPolicy_Rules locator p) k = Some (TokenLimitRule l)"
    and ok: "trlp_entry_ok k (TokenLimitRule l)"
    and e: "limitEntry hash8 nn transform locator (rate_limiting findCond locator topo st (ep_Path ep)) ?L (k, TokenRule (TokenLimitRule l)) =
      source_entry hash8 nn transform locator ?L (pol q) k"
    unfolding trlp_GetSource.simps by (elim exE conjE) (rule that)
  let ?i = "TokenLimitNameToLimitadorIdentifier hash8 nn (policy_nsname (pol q)) k"
  let ?v = "map (limitadorLimit k ?L ?i (TokenLimit_CountersAsStringList transform l)) (tl_Rates l)"
  have "(?L @ ''/'' @ ?i, ?v) \<in> set (path_writes hash8 nn transform findCond locator topo st (ep_Path ep) (trlp_any_rules locator (ep_Spec ep)))"
    unfolding set_path_writes using e p parsed ok map_of_SomeD [OF r] rules
    by (intro exI [of _ parsed] exI [of _ "(k, TokenRule (TokenLimitRule l))"]) (force simp: trlp_any_rules_def Let_def)
  then have "(?L @ ''/'' @ ?i, ?v) \<in> set (all_writes hash8 nn transform findCond locator topo st)"
    using ep by (force simp: all_writes_def)
  from written_entry [OF assms(1-5) this] index
  have "map_of (om_entries index) (?L @ ''/'' @ ?i) = (if tl_Rates l = [] then None else Some ?v)" by simp
  then show "\<exists>s. findSource locator (pathPolicies topo (isTokenRateLimitPolicyAcceptedAndNotDeletedFunc findCond locator st) (ep_Path ep)) (tl_Source l) = Some s \<and>
      token_limit_enforced transform (om_entries index) ?L mode (ResponseTotalTokensPointers (rules_data_extraction rules)) (k, TokenLimitRule l)
        (wasmActionSpecsFromTokenLimit l (TokenLimitNameToLimitadorIdentifier hash8 nn (policy_nsname (pol s)) k) ?L
          (policy_locator locator (pol s)) top mode (reservationTTLFromRoute backendRequest parsed)
          (ResponseTotalTokensPointers (rules_data_extraction rules)))"
    using s src token_specs_shape [of "om_entries index" ?L ?i l k transform mode] by (metis (no_types, lifting))
qed

section \<open>After validation and the computation of effective policies\<close>

lemma rlp_accepted_valid:
  "st_RateLimitPolicyValid st = st_RateLimitPolicyValid st' \<Longrightarrow>
    isRateLimitPolicyAcceptedAndNotDeletedFunc findCond locator st = isRateLimitPolicyAcceptedAndNotDeletedFunc findCond locator st'"
  by (simp add: fun_eq_iff isRateLimitPolicyAcceptedAndNotDeletedFunc_def isRateLimitPolicyAcceptedFunc_def rateLimitPolicyAcceptedStatusFunc_def)

lemma trlp_accepted_valid:
  "st_TokenRateLimitPolicyValid st = st_TokenRateLimitPolicyValid st' \<Longrightarrow>
    isTokenRateLimitPolicyAcceptedAndNotDeletedFunc findCond locator st = isTokenRateLimitPolicyAcceptedAndNotDeletedFunc findCond locator st'"
  by (simp add: fun_eq_iff isTokenRateLimitPolicyAcceptedAndNotDeletedFunc_def isTokenRateLimitPolicyAcceptedFunc_def
      tokenRateLimitPolicyAcceptedStatusFunc_def split: option.split)

text \<open>A state that holds the results of a validator is one that the validator leaves unchanged.\<close>

lemma validated_fixpoint:
  fixes st :: "'s workflow_state"
  assumes "st = dataPlanePoliciesValidation notFound locator ra rl topo st0"
  shows "AuthPolicyValidator_Validate notFound locator ra topo st = st"
    "RateLimitPolicyValidator_Validate notFound locator rl topo (st\<lparr>st_EffectiveAuthPolicies := x\<rparr>) = st\<lparr>st_EffectiveAuthPolicies := x\<rparr>"
  unfolding assms by (cases st0; simp add: dataPlanePoliciesValidation_def AuthPolicyValidator_Validate_def
      RateLimitPolicyValidator_Validate_def TokenRateLimitPolicyValidator_Validate_def Let_def)+

lemma effective_after_validation:
  assumes "kinds_separate locator" "policies_delivered locator topo" "tv_HasKuadrant topo"
    and st: "st = dataPlanePoliciesValidation notFound locator ra rl topo st0"
  shows "\<exists>st' m m'. effectivePolicies_compute findCond nn locator topo st = Return st' \<and> effective_state findCond locator topo st' \<and>
    st_EffectiveRateLimitPolicies st' = Some m \<and> st_EffectiveTokenRateLimitPolicies st' = Some m' \<and>
    effective_map (rlp_ops locator) rlp_substantive (\<lambda>p. asRateLimitPolicy (pol p)) nn topo
      (isRateLimitPolicyAcceptedAndNotDeletedFunc findCond locator st)
      (allPaths topo (filter isHTTPRouteRule (tv_Targetables topo) @ filter isGRPCRouteRule (tv_Targetables topo))) m \<and>
    effective_map (trlp_ops locator) trlp_substantive (\<lambda>p. asTokenRateLimitPolicy (pol p)) nn topo
      (isTokenRateLimitPolicyAcceptedAndNotDeletedFunc findCond locator st)
      (allPaths topo (filter isHTTPRouteRule (tv_Targetables topo))) m'"
proof -
  have pol_ok: "list_all (\<lambda>q. policy_ok locator (pol q)) (tv_PoliciesOf topo t)" for t
    using assms(2) by (simp add: policies_delivered_def list_all_iff)
  obtain a where a: "CalculateEffectiveAuthPolicies findCond nn locator topo st = Return a"
    using effective_auth [OF assms(1) pol_ok sym [OF validated_fixpoint(1) [OF st]]] by blast
  define st1 where "st1 = st\<lparr>st_EffectiveAuthPolicies := Some a\<rparr>"
  have fix1: "st1 = RateLimitPolicyValidator_Validate notFound locator rl topo st1"
    unfolding st1_def by (rule sym) (rule validated_fixpoint(2) [OF st])
  obtain m where m: "calculateEffectiveRateLimitPolicies findCond nn locator topo st1 = Return m"
    "effective_map (rlp_ops locator) rlp_substantive (\<lambda>p. asRateLimitPolicy (pol p)) nn topo
      (isRateLimitPolicyAcceptedAndNotDeletedFunc findCond locator st1)
      (allPaths topo (filter isHTTPRouteRule (tv_Targetables topo) @ filter isGRPCRouteRule (tv_Targetables topo))) m"
    using effective_rlp [OF assms(1) pol_ok fix1] by blast
  define st2 where "st2 = st1\<lparr>st_EffectiveRateLimitPolicies := Some m\<rparr>"
  obtain m' where m': "calculateEffectiveTokenRateLimitPolicies findCond nn locator topo st2 = Return m'"
    "effective_map (trlp_ops locator) trlp_substantive (\<lambda>p. asTokenRateLimitPolicy (pol p)) nn topo
      (isTokenRateLimitPolicyAcceptedAndNotDeletedFunc findCond locator st2) (allPaths topo (filter isHTTPRouteRule (tv_Targetables topo))) m'"
    using effective_trlp [OF pol_ok] by blast
  define st3 where "st3 = st2\<lparr>st_EffectiveTokenRateLimitPolicies := Some m'\<rparr>"
  have acc: "isRateLimitPolicyAcceptedAndNotDeletedFunc findCond locator st3 = isRateLimitPolicyAcceptedAndNotDeletedFunc findCond locator st1"
    "isTokenRateLimitPolicyAcceptedAndNotDeletedFunc findCond locator st3 = isTokenRateLimitPolicyAcceptedAndNotDeletedFunc findCond locator st2"
    by (rule rlp_accepted_valid trlp_accepted_valid, simp add: st3_def st2_def)+
  have "rlp_only findCond locator topo st3"
    unfolding rlp_only_def acc list_all_iff
  proof (intro allI ballI impI)
    fix t q assume q: "q \<in> set (tv_PoliciesOf topo t)" "isRateLimitPolicyAcceptedAndNotDeletedFunc findCond locator st1 q"
    from accepted_rlp [OF assms(1) policies_delivered_ok(1) [OF assms(2) q(1)]] q(2) fix1
    show "asRateLimitPolicy (pol q) \<noteq> None" by (metis option.distinct(1))
  qed
  moreover have "rlp_effective_for findCond locator topo st3 ep" if "ep \<in> snd ` set m" for ep
  proof -
    from that obtain k where "map_of m k = Some ep" using m(2) by (auto simp: effective_map_def)
    with m(2) show ?thesis unfolding rlp_effective_for_def acc effective_map_def by blast
  qed
  moreover have "trlp_effective_for findCond locator topo st3 ep" if "ep \<in> snd ` set m'" for ep
  proof -
    from that obtain k where "map_of m' k = Some ep" using m'(2) by (auto simp: effective_map_def)
    with m'(2) show ?thesis unfolding trlp_effective_for_def acc effective_map_def by blast
  qed
  ultimately have "effective_state findCond locator topo st3"
    by (auto simp: effective_state_def list_all_iff st3_def st2_def)
  moreover have "effectivePolicies_compute findCond nn locator topo st = Return st3"
    using a m(1) m'(1) assms(3)
    by (simp add: effectivePolicies_compute_def EffectiveAuthPolicyReconciler_Reconcile_def EffectiveRateLimitPolicyReconciler_Reconcile_def
        EffectiveTokenRateLimitPolicyReconciler_Reconcile_def st1_def st2_def st3_def)
  moreover have "isRateLimitPolicyAcceptedAndNotDeletedFunc findCond locator st1 = isRateLimitPolicyAcceptedAndNotDeletedFunc findCond locator st"
    "isTokenRateLimitPolicyAcceptedAndNotDeletedFunc findCond locator st2 = isTokenRateLimitPolicyAcceptedAndNotDeletedFunc findCond locator st"
    by (rule rlp_accepted_valid trlp_accepted_valid, simp add: st1_def st2_def)+
  ultimately show ?thesis
    using m(2) m'(2) by (intro exI [of _ st3] exI [of _ m] exI [of _ m']) (simp add: st3_def st2_def)
qed

text \<open>
  C3.  After validation and the computation of effective policies, the gateway and Limitador agree
  on rate limits.  For every effective rate limit policy on a path that parses, building the
  action specifications does not panic and gives one for each limit rule (none is skipped for want
  of a source).  Its scope is the namespace of the route, its source the policy that the rule came
  from, and the identifier that it sends with value 1 is one under which Limitador's index holds
  exactly the limits of the rule, conditioned on that identifier; what other policies and paths
  write under the same key is the same.
\<close>

theorem rate_limits_agree:
  assumes "om_laws om_new om_set om_entries" "nn_format nn" "hash_ok hash8 (limit_names nn locator topo)"
    and "kinds_separate locator" "policies_delivered locator topo" "tv_HasKuadrant topo"
  shows "\<exists>st'. effectivePolicies_compute findCond nn locator topo
      (dataPlanePoliciesValidation notFound locator ra rl topo st) = Return st' \<and>
    (\<forall>m ep parsed route. st_EffectiveRateLimitPolicies st' = Some m \<longrightarrow> ep \<in> snd ` set m \<longrightarrow>
      ParseTopologyPath (ep_Path ep) = Inr parsed \<longrightarrow> GetRoute parsed = Some route \<longrightarrow>
      (\<exists>specs. buildWasmActionSpecsForRateLimit hash8 nn locator topo ep
          (isRateLimitPolicyAcceptedAndNotDeletedFunc findCond locator st') = Return specs \<and>
        list_all2 (rate_limit_enforced transform
            (om_entries (snd (processEffectivePolicies om_set hash8 nn transform findCond locator topo st' om_new)))
            (LimitsNamespaceFromRoute nn route))
          (limit_rules [RulesKeyTopLevelPredicates] (RateLimitPolicy_Rules locator (ep_Spec ep))) specs))"
  using effective_after_validation [OF assms(4-6) refl] rate_limits_enforced [OF assms(1-3,5) _ _ _ _ _ refl] by meson

text \<open>
  C4.  The same holds of token limits, in both modes.  A token limit gives two specifications with
  the same predicates and the same identifier: a reservation and the commit of the tokens that the
  response reports under the same reservation id, or a check that counts nothing and a report of
  these tokens; and Limitador's index holds the limits of the rule under that identifier.
\<close>

theorem token_limits_agree:
  assumes "om_laws om_new om_set om_entries" "nn_format nn" "hash_ok hash8 (limit_names nn locator topo)"
    and "kinds_separate locator" "policies_delivered locator topo" "tv_HasKuadrant topo"
  shows "\<exists>st'. effectivePolicies_compute findCond nn locator topo
      (dataPlanePoliciesValidation notFound locator ra rl topo st) = Return st' \<and>
    (\<forall>m ep parsed route. st_EffectiveTokenRateLimitPolicies st' = Some m \<longrightarrow> ep \<in> snd ` set m \<longrightarrow>
      ParseTopologyPath (ep_Path ep) = Inr parsed \<longrightarrow> GetRoute parsed = Some route \<longrightarrow>
      (\<exists>groups. buildWasmActionSpecsForTokenRateLimit hash8 nn backendRequest locator topo ep
          (isTokenRateLimitPolicyAcceptedAndNotDeletedFunc findCond locator st') mode = Return (concat groups) \<and>
        list_all2 (token_limit_enforced transform
            (om_entries (snd (processEffectivePolicies om_set hash8 nn transform findCond locator topo st' om_new)))
            (LimitsNamespaceFromRoute nn route) mode
            (ResponseTotalTokensPointers (rules_data_extraction (TokenRateLimitPolicy_Rules locator (ep_Spec ep)))))
          (limit_rules [RulesKeyTopLevelPredicates, RulesKeyDataExtraction] (TokenRateLimitPolicy_Rules locator (ep_Spec ep))) groups))"
  using effective_after_validation [OF assms(4-6) refl] token_limits_enforced [OF assms(1-3,5) _ _ _ _ _ refl refl] by meson

section \<open>An instance\<close>

definition ex_limit_path :: "targetable list" where
  "ex_limit_path = http_path \<lparr>gc_Name = ''istio''\<rparr> ex_gateway ex_listener ex_route ex_rule"

fun ex_limit_policies :: "targetable \<Rightarrow> string policy_object list" where
  "ex_limit_policies (THTTPRouteRule x) = [ex_obj (RateLimitPolicyObj ex_route_rlp), ex_obj (TokenRateLimitPolicyObj ex_route_trlp)]"
| "ex_limit_policies _ = []"

definition ex_limit_topo :: "string topo_view" where
  "ex_limit_topo = ex_topo\<lparr>tv_Policies := [ex_obj (RateLimitPolicyObj ex_route_rlp), ex_obj (TokenRateLimitPolicyObj ex_route_trlp)],
     tv_PoliciesOf := ex_limit_policies, tv_Targetables := [THTTPRouteRule (Some ex_rule)], tv_Paths := (\<lambda>_ _. [ex_limit_path])\<rparr>"

definition ex_hash8 :: "string \<Rightarrow> string" where
  "ex_hash8 s = replicate 8 (if s = [] \<or> last s = CHR ''/'' then CHR ''0'' else last s)"

lemma ex_trlp_unsourced: "trlp_unsourced ex_route_trlp"
  by (simp add: trlp_unsourced_def TokenRateLimitPolicy_Proper_def ex_trlp_defs)

lemma ex_limit_policies_delivered: "policies_delivered ex_locator ex_limit_topo"
proof -
  have *: "tv_PoliciesOf ex_limit_topo = ex_limit_policies" by (simp add: ex_limit_topo_def)
  have "list_all (\<lambda>q. policy_ok ex_locator (pol q) \<and> policy_unsourced (pol q) \<and>
        CHR ''/'' \<notin> set (fst (policy_nsname (pol q))) \<and> CHR ''/'' \<notin> set (snd (policy_nsname (pol q)))) (ex_limit_policies t)" for t
    by (cases t) (simp_all add: ex_obj_def ex_rlp_wf ex_trlp_wf ex_rlp_unsourced ex_trlp_unsourced, simp add: ex_route_rlp_def ex_trlp_defs)
  moreover have "pol p = pol q" if "p \<in> set (ex_limit_policies t)" "q \<in> set (ex_limit_policies t')"
    "policy_locator ex_locator (pol p) = policy_locator ex_locator (pol q)" for p q t t'
    using that by (cases t; cases t') (auto simp: ex_obj_def RateLimitPolicy_GetLocator_def TokenRateLimitPolicy_GetLocator_def ex_locator_def)
  ultimately show ?thesis unfolding policies_delivered_def * by blast
qed

lemma ex_limit_names: "limit_names ex_nn ex_locator ex_limit_topo \<subseteq> {''ns/route-rlp/a'', ''ns/route-rlp/b'', ''ns/route-tokens/all''}"
proof -
  have keys: "policy_rule_keys ex_locator (RateLimitPolicyObj ex_route_rlp) = {''a'', ''b''}"
    "policy_rule_keys ex_locator (TokenRateLimitPolicyObj ex_route_trlp) = {''all''}"
    by (simp_all add: RateLimitPolicy_Rules_def RateLimitPolicy_Proper_def ex_route_rlp_def ex_proper_def
        TokenRateLimitPolicy_Rules_def TokenRateLimitPolicy_Proper_def ex_trlp_defs Let_def)
  have "s \<in> {''ns/route-rlp/a'', ''ns/route-rlp/b'', ''ns/route-tokens/all''}"
    if "s = ex_nn (fst (policy_nsname (pol q))) (snd (policy_nsname (pol q))) @ ''/'' @ k" "q \<in> set (ex_limit_policies t)"
      "k \<in> policy_rule_keys ex_locator (pol q)" for s q k t
  proof -
    have "pol q = RateLimitPolicyObj ex_route_rlp \<or> pol q = TokenRateLimitPolicyObj ex_route_trlp"
      using that(2) by (cases t) (auto simp: ex_obj_def)
    moreover have "policy_nsname (RateLimitPolicyObj ex_route_rlp) = (''ns'', ''route-rlp'')"
      "policy_nsname (TokenRateLimitPolicyObj ex_route_trlp) = (''ns'', ''route-tokens'')"
      by (simp_all add: ex_route_rlp_def ex_trlp_defs)
    ultimately show ?thesis using that(1,3) by (elim disjE) (force simp: keys ex_nn_def simp del: policy_rule_keys.simps)+
  qed
  then show ?thesis unfolding limit_names_def ex_limit_topo_def by auto
qed

lemma ex_hash_ok: "hash_ok ex_hash8 (limit_names ex_nn ex_locator ex_limit_topo)"
proof -
  have "inj_on ex_hash8 {''ns/route-rlp/a'', ''ns/route-rlp/b'', ''ns/route-tokens/all''}"
    by (simp add: inj_on_def ex_hash8_def numeral_eq_Suc)
  from inj_on_subset [OF this ex_limit_names] show ?thesis by (simp add: hash_ok_def) (auto simp: ex_hash8_def)
qed

lemma ex_limit_route:
  "ParseTopologyPath ex_limit_path = Inr (http_parsed \<lparr>gc_Name = ''istio''\<rparr> ex_gateway ex_listener ex_route ex_rule)"
  "GetRoute (http_parsed \<lparr>gc_Name = ''istio''\<rparr> ex_gateway ex_listener ex_route ex_rule) = Some (THTTPRoute (Some ex_route))"
  using ex_chain by (auto simp: ParseTopologyPath_ok ex_limit_path_def http_parsed_def GetRoute_def)

abbreviation ex_validated :: "string workflow_state" where
  "ex_validated \<equiv> dataPlanePoliciesValidation (\<lambda>_ _. []) ex_locator ex_installed ex_installed ex_limit_topo ex_state"

lemma ex_limit_accepted:
  "pathPolicies ex_limit_topo (isRateLimitPolicyAcceptedAndNotDeletedFunc ex_find ex_locator ex_validated) ex_limit_path \<noteq> []"
  "pathPolicies ex_limit_topo (isTokenRateLimitPolicyAcceptedAndNotDeletedFunc ex_find ex_locator ex_validated) ex_limit_path \<noteq> []"
  by code_simp+

lemma ex_limit_paths:
  "allPaths ex_limit_topo (filter isHTTPRouteRule (tv_Targetables ex_limit_topo) @ filter isGRPCRouteRule (tv_Targetables ex_limit_topo)) = [ex_limit_path]"
  "allPaths ex_limit_topo (filter isHTTPRouteRule (tv_Targetables ex_limit_topo)) = [ex_limit_path]"
  by (simp_all add: allPaths_def ex_limit_topo_def ex_topo_def)

lemma ex_nn_format: "nn_format ex_nn"
  by (simp add: nn_format_def ex_nn_def)

lemma ex_om_laws: "om_laws [] gm_set (\<lambda>m. m)"
  by (simp add: om_laws_def)

lemma ex_has_kuadrant: "tv_HasKuadrant ex_limit_topo"
  by (simp add: ex_limit_topo_def ex_topo_def)

lemma ex_limit_effective:
  "\<exists>st' m m' ep ep'. effectivePolicies_compute ex_find ex_nn ex_locator ex_limit_topo ex_validated = Return st' \<and>
     st_EffectiveRateLimitPolicies st' = Some m \<and> ep \<in> snd ` set m \<and> ep_Path ep = ex_limit_path \<and>
     st_EffectiveTokenRateLimitPolicies st' = Some m' \<and> ep' \<in> snd ` set m' \<and> ep_Path ep' = ex_limit_path"
proof -
  have entry: "\<exists>ep. ep \<in> snd ` set m \<and> ep_Path ep = ex_limit_path"
    if "effective_map ops sub asT ex_nn ex_limit_topo predicate [ex_limit_path] m" "pathPolicies ex_limit_topo predicate ex_limit_path \<noteq> []"
    for ops sub asT predicate m
  proof -
    from that obtain ep where ep: "map_of m (pathIDOf ex_nn ex_limit_topo ex_limit_path) = Some ep"
      by (auto simp: effective_map_def)
    with that(1) have "ep_Path ep \<in> {ex_limit_path}" unfolding effective_map_def by force
    with map_of_SomeD [OF ep] show ?thesis by force
  qed
  from effective_after_validation [OF ex_kinds_separate ex_limit_policies_delivered ex_has_kuadrant refl,
      of ex_find ex_nn "\<lambda>_ _. []" ex_installed ex_installed ex_state]
  show ?thesis unfolding ex_limit_paths using entry ex_limit_accepted by meson
qed

theorem rate_limits_agree_witness:
  "\<exists>st' m ep specs. effectivePolicies_compute ex_find ex_nn ex_locator ex_limit_topo ex_validated = Return st' \<and>
     st_EffectiveRateLimitPolicies st' = Some m \<and> ep \<in> snd ` set m \<and>
     buildWasmActionSpecsForRateLimit ex_hash8 ex_nn ex_locator ex_limit_topo ep
       (isRateLimitPolicyAcceptedAndNotDeletedFunc ex_find ex_locator st') = Return specs \<and>
     list_all2 (rate_limit_enforced (\<lambda>_. None)
         (snd (processEffectivePolicies gm_set ex_hash8 ex_nn (\<lambda>_. None) ex_find ex_locator ex_limit_topo st' []))
         (LimitsNamespaceFromRoute ex_nn (THTTPRoute (Some ex_route))))
       (limit_rules [RulesKeyTopLevelPredicates] (RateLimitPolicy_Rules ex_locator (ep_Spec ep))) specs"
  using rate_limits_agree [OF ex_om_laws ex_nn_format ex_hash_ok ex_kinds_separate ex_limit_policies_delivered ex_has_kuadrant,
      of ex_find "\<lambda>_ _. []" ex_installed ex_installed ex_state "\<lambda>_. None"] ex_limit_effective ex_limit_route
  by (metis (no_types, lifting) go_result.inject(2))

theorem token_limits_agree_witness:
  "\<exists>st' m ep groups. effectivePolicies_compute ex_find ex_nn ex_locator ex_limit_topo ex_validated = Return st' \<and>
     st_EffectiveTokenRateLimitPolicies st' = Some m \<and> ep \<in> snd ` set m \<and>
     buildWasmActionSpecsForTokenRateLimit ex_hash8 ex_nn (\<lambda>_. None) ex_locator ex_limit_topo ep
       (isTokenRateLimitPolicyAcceptedAndNotDeletedFunc ex_find ex_locator st') ModeReservation = Return (concat groups) \<and>
     list_all2 (token_limit_enforced (\<lambda>_. None)
         (snd (processEffectivePolicies gm_set ex_hash8 ex_nn (\<lambda>_. None) ex_find ex_locator ex_limit_topo st' []))
         (LimitsNamespaceFromRoute ex_nn (THTTPRoute (Some ex_route))) ModeReservation
         (ResponseTotalTokensPointers (rules_data_extraction (TokenRateLimitPolicy_Rules ex_locator (ep_Spec ep)))))
       (limit_rules [RulesKeyTopLevelPredicates, RulesKeyDataExtraction] (TokenRateLimitPolicy_Rules ex_locator (ep_Spec ep))) groups"
  using token_limits_agree [OF ex_om_laws ex_nn_format ex_hash_ok ex_kinds_separate ex_limit_policies_delivered ex_has_kuadrant,
      of ex_find "\<lambda>_ _. []" ex_installed ex_installed ex_state "\<lambda>_. None" ModeReservation "\<lambda>_. None"] ex_limit_effective ex_limit_route
  by (metis (no_types, lifting) go_result.inject(2))

section \<open>Writing the limits\<close>

definition limits_meaning where "limits_meaning ls = image_mset limit_meaning (mset ls)"

lemma EqualTo_meaning: "fst (LimitadorRateLimits_EqualTo l other) \<longleftrightarrow> limits_meaning l = limits_meaning other"
  unfolding EqualTo_normalized limits_meaning_def mset_map by (rule image_mset_kernel) (rule normalizeCopy_eq_iff)

lemma limit_meaning_sortedInPlace [simp]: "limit_meaning (sortedInPlace r) = limit_meaning r"
  by (cases "lim_Conditions r"; cases "lim_Variables r")
    (auto simp: limit_meaning_def sortedInPlace_def GetEmptySliceIfNil_def sort_strings_def)

lemma EqualTo_keeps_meaning: "limits_meaning (snd (snd (LimitadorRateLimits_EqualTo l other))) = limits_meaning other"
  by (simp add: LimitadorRateLimits_EqualTo_def Let_def limits_meaning_def mset_map [symmetric] comp_def del: mset_map)

text \<open>
  The Limitador resource is updated exactly when its limits do not mean what the effective
  policies ask for; the update carries limits with the desired meaning and keeps the name and the
  namespace, and a resource so updated is not updated again.  An update that fails is recorded in the
  error registry, for a retry, under the key of the resource.
\<close>

theorem limits_written_once:
  "case LimitadorLimitsReconciler_Reconcile inject update now desired limitador stored of (written, modified, stored') \<Rightarrow>
     (written \<noteq> None \<longleftrightarrow> (case limitador of None \<Rightarrow> False | Some l \<Rightarrow> limits_meaning (ltd_Limits l) \<noteq> limits_meaning desired)) \<and>
     (modified \<longleftrightarrow> written \<noteq> None) \<and>
     (case written of None \<Rightarrow> stored' = stored
      | Some obj \<Rightarrow> limits_meaning (ltd_Limits obj) = limits_meaning desired \<and>
          (ltd_Namespace obj, ltd_Name obj) = (ltd_Namespace (the limitador), ltd_Name (the limitador)) \<and>
          LimitadorLimitsReconciler_Reconcile inject update now desired (Some obj) stored' = (None, False, stored') \<and>
          (case update obj of None \<Rightarrow> stored' = stored
           | Some err \<Rightarrow> (\<exists>rec. map_of (the stored') (''Limitador.limitador.kuadrant.io/'' @ ltd_Namespace obj @ ''/'' @ ltd_Name obj @ ''/update'') = Some rec \<and>
               re_Err rec = err)))"
proof (cases limitador)
  case None
  then show ?thesis by (simp add: LimitadorLimitsReconciler_Reconcile_def)
next
  case (Some l)
  obtain eq x d where e: "LimitadorRateLimits_EqualTo (ltd_Limits l) desired = (eq, x, d)" by (cases "LimitadorRateLimits_EqualTo (ltd_Limits l) desired") auto
  have eq: "eq \<longleftrightarrow> limits_meaning (ltd_Limits l) = limits_meaning desired" using EqualTo_meaning [of "ltd_Limits l" desired] e by simp
  have d: "limits_meaning d = limits_meaning desired" using EqualTo_keeps_meaning [of "ltd_Limits l" desired] e by simp
  have again: "LimitadorLimitsReconciler_Reconcile inject update now desired (Some (o'\<lparr>ltd_Limits := d\<rparr>)) s = (None, False, s)" for o' s
    using EqualTo_meaning [of d desired] d
    by (cases "LimitadorRateLimits_EqualTo d desired") (simp add: LimitadorLimitsReconciler_Reconcile_def)
  show ?thesis
  proof (cases eq)
    case True
    with e Some eq show ?thesis by (simp add: LimitadorLimitsReconciler_Reconcile_def)
  next
    case False
    define obj where "obj = l\<lparr>ltd_Annotations := inject (gm_delete ''tracestate'' (gm_delete ''traceparent'' (ltd_Annotations l))), ltd_Limits := d\<rparr>"
    have again': "LimitadorLimitsReconciler_Reconcile inject update now desired (Some obj) s = (None, False, s)" for s
      using again [of "l\<lparr>ltd_Annotations := inject (gm_delete ''tracestate'' (gm_delete ''traceparent'' (ltd_Annotations l)))\<rparr>"]
      by (simp add: obj_def)
    have r: "LimitadorLimitsReconciler_Reconcile inject update now desired limitador stored =
        (Some obj, True, case update obj of None \<Rightarrow> stored
           | Some err \<Rightarrow> Some (Registry_Record now ''LimitadorLimitsReconciler'' ''update''
               (ltd_Namespace l, ltd_Name l) ''Limitador.limitador.kuadrant.io'' err (fst (GetOrCreateErrorRegistry stored))))"
      using e Some False by (simp add: LimitadorLimitsReconciler_Reconcile_def obj_def Let_def split: option.split)
    have fields: "ltd_Limits obj = d" "ltd_Namespace obj = ltd_Namespace l" "ltd_Name obj = ltd_Name l"
      by (simp_all add: obj_def)
    show ?thesis
      unfolding r using False eq d Some again' fields
      by (simp add: Registry_Record_def ReconciliationError_Key_def Let_def split: option.split)
  qed
qed

end
