(* ===== verification/CEL_Validation.thy ===== *)
theory CEL_Validation
  imports Wasm_Action_Spec Policy_Conditions
begin

text \<open>
  CEL support of the operator (\<open>internal/cel\<close>): the issues found while validating action
  specifications, the builder of validation environments, the validation of an action
  specification, and the rewriting of counter expressions for Limitador
  (\<open>TransformCounterVariable\<close>).

  The library cel-go is a set of parameters: \<open>newEnv\<close> makes an environment from its options,
  \<open>check\<close> parses and type-checks an expression in an environment and gives its output type,
  \<open>parse\<close> gives the syntax tree of an expression with the offset ranges of its nodes.
\<close>

section \<open>Issues\<close>

abbreviation AuthPolicyKind :: string where "AuthPolicyKind \<equiv> ''AuthPolicy''"
abbreviation RateLimitPolicyKind :: string where "RateLimitPolicyKind \<equiv> ''RateLimitPolicy''"
abbreviation TokenRateLimitPolicyKind :: string where "TokenRateLimitPolicyKind \<equiv> ''TokenRateLimitPolicy''"

definition policyKindFromWasmServiceName :: "string \<Rightarrow> string" where
  "policyKindFromWasmServiceName serviceName =
     (if serviceName = AuthServiceName then AuthPolicyKind
      else if serviceName = RateLimitServiceName then RateLimitPolicyKind
      else if serviceName = RateLimitCheckServiceName \<or> serviceName = RateLimitReserveServiceName then TokenRateLimitPolicyKind
      else if serviceName = RateLimitReportServiceName \<or> serviceName = RateLimitCommitServiceName then TokenRateLimitPolicyKind
      else RateLimitPolicyKind)"

record Issue =
  issue_policyKind :: string
  issue_pathID :: string
  issue_err :: go_error

definition NewIssue :: "ActionSpec \<Rightarrow> string \<Rightarrow> go_error \<Rightarrow> Issue" where
  "NewIssue spec pathID err =
     \<lparr>issue_policyKind = policyKindFromWasmServiceName (sp_ServiceName spec), issue_pathID = pathID, issue_err = err\<rparr>"

type_synonym IssueCollection = "Issue list"

definition NewIssueCollection :: IssueCollection where "NewIssueCollection = []"

definition IssueCollection_IsEmpty :: "IssueCollection \<Rightarrow> bool" where
  "IssueCollection_IsEmpty c \<longleftrightarrow> length c = 0"

definition IssueCollection_Add :: "Issue \<Rightarrow> IssueCollection \<Rightarrow> IssueCollection" where
  "IssueCollection_Add issue c = c @ [issue]"

text \<open>\<open>lo.GroupBy\<close>: the groups keep the order of their elements.\<close>

definition lo_GroupBy :: "('a \<Rightarrow> 'k) \<Rightarrow> 'a list \<Rightarrow> ('k, 'a list) gomap" where
  "lo_GroupBy key xs = foldl (\<lambda>m x. gm_set (key x) (Deref (map_of m (key x)) [] @ [x]) m) [] xs"

definition IssueCollection_GetByPolicyKind :: "IssueCollection \<Rightarrow> string \<Rightarrow> (string, Issue list) gomap option" where
  "IssueCollection_GetByPolicyKind c policyKind =
     (let filteredIssues = filter (\<lambda>issue. issue_policyKind issue = policyKind) c
      in if length filteredIssues = 0 then None else Some (lo_GroupBy issue_pathID filteredIssues))"

lemma lo_GroupBy_lookup:
  "map_of (lo_GroupBy key xs) k = (let ys = filter (\<lambda>x. key x = k) xs in if ys = [] then None else Some ys)"
proof (induction xs rule: rev_induct)
  case (snoc x xs)
  have "lo_GroupBy key (xs @ [x]) = gm_set (key x) (Deref (map_of (lo_GroupBy key xs) (key x)) [] @ [x]) (lo_GroupBy key xs)"
    by (simp add: lo_GroupBy_def)
  with snoc show ?case by (cases "k = key x") (simp_all add: Let_def Deref_def)
qed (simp add: lo_GroupBy_def)

text \<open>The issues of a path for a kind are those added for them, in the order they were added.\<close>

lemma GetByPolicyKind_issues:
  "(case IssueCollection_GetByPolicyKind c kind of None \<Rightarrow> [] | Some m \<Rightarrow> Deref (map_of m pathID) []) =
     filter (\<lambda>i. issue_policyKind i = kind \<and> issue_pathID i = pathID) c"
  by (auto simp: IssueCollection_GetByPolicyKind_def Let_def lo_GroupBy_lookup Deref_def conj_commute
      filter_empty_conv intro: filter_False [symmetric] split: option.splits)

section \<open>Validation environments\<close>

record 't policyBinding =
  pb_policy :: string
  pb_name :: string
  pb_type :: 't

record ('t, 'f) ValidatorBuilder =
  vb_baseBindings :: "(string, 't) gomap"
  vb_baseFunctions :: "(string, 'f list) gomap"
  vb_policies :: "'t policyBinding list"

definition NewValidatorBuilder :: "('t, 'f) ValidatorBuilder" where
  "NewValidatorBuilder = \<lparr>vb_baseBindings = [], vb_baseFunctions = [], vb_policies = []\<rparr>"

definition AddBinding :: "string \<Rightarrow> 't \<Rightarrow> ('t, 'f) ValidatorBuilder \<Rightarrow> ('t, 'f) ValidatorBuilder" where
  "AddBinding name t b = b\<lparr>vb_baseBindings := gm_set name t (vb_baseBindings b)\<rparr>"

definition AddFunction :: "string \<Rightarrow> 'f list \<Rightarrow> ('t, 'f) ValidatorBuilder \<Rightarrow> ('t, 'f) ValidatorBuilder" where
  "AddFunction name funcOpts b = b\<lparr>vb_baseFunctions := gm_set name funcOpts (vb_baseFunctions b)\<rparr>"

fun insertAfter :: "('a \<Rightarrow> bool) \<Rightarrow> 'a \<Rightarrow> 'a list \<Rightarrow> 'a list option" where
  "insertAfter P x [] = None"
| "insertAfter P x (y # ys) = (if P y then Some (y # x # ys) else map_option ((#) y) (insertAfter P x ys))"

definition AddPolicyBindingAfter ::
  "string option \<Rightarrow> string \<Rightarrow> string \<Rightarrow> 't \<Rightarrow> ('t, 'f) ValidatorBuilder \<Rightarrow> string + ('t, 'f) ValidatorBuilder" where
  "AddPolicyBindingAfter after policy name t b =
     (let p = \<lparr>pb_policy = policy, pb_name = name, pb_type = t\<rparr>
      in case after of None \<Rightarrow> Inr (b\<lparr>vb_policies := p # vb_policies b\<rparr>)
         | Some a \<Rightarrow> (case insertAfter (\<lambda>pb. pb_policy pb = a) p (vb_policies b) of
             None \<Rightarrow> Inl (''policy '' @ a @ '' not found'')
           | Some ps \<Rightarrow> Inr (b\<lparr>vb_policies := ps\<rparr>)))"

definition PushPolicyBinding :: "string \<Rightarrow> string \<Rightarrow> 't \<Rightarrow> ('t, 'f) ValidatorBuilder \<Rightarrow> ('t, 'f) ValidatorBuilder" where
  "PushPolicyBinding policy name t b =
     b\<lparr>vb_policies := vb_policies b @ [\<lparr>pb_policy = policy, pb_name = name, pb_type = t\<rparr>]\<rparr>"

text \<open>The options of an environment: the string extension, variables, functions and types.\<close>

datatype ('t, 'f) env_option = ExtStrings | VariableOpt string 't | FunctionOpt string "'f list" | TypesOpt 't

text \<open>The inner loop over the policies, up to the first binding of the same policy.\<close>

fun policyOptions :: "string \<Rightarrow> 't policyBinding list \<Rightarrow> ('t, 'f) env_option list" where
  "policyOptions policy [] = []"
| "policyOptions policy (p # ps) =
     TypesOpt (pb_type p) # VariableOpt (pb_name p) (pb_type p) # (if pb_policy p = policy then [] else policyOptions policy ps)"

definition envOptions :: "('t, 'f) ValidatorBuilder \<Rightarrow> string \<Rightarrow> ('t, 'f) env_option list" where
  "envOptions b policy =
     ExtStrings # map (\<lambda>(name, t). VariableOpt name t) (vb_baseBindings b) @
     map (\<lambda>(name, opts). FunctionOpt name opts) (vb_baseFunctions b) @ policyOptions policy (vb_policies b)"

fun buildEnvs ::
  "(('t, 'f) env_option list \<Rightarrow> string + 'e) \<Rightarrow> ('t, 'f) ValidatorBuilder \<Rightarrow> (string, 'e) gomap \<Rightarrow> 't policyBinding list \<Rightarrow>
   string + (string, 'e) gomap" where
  "buildEnvs newEnv b envs [] = Inr envs"
| "buildEnvs newEnv b envs (policy # ps) =
     (case newEnv (envOptions b (pb_policy policy)) of Inl err \<Rightarrow> Inl err
      | Inr env \<Rightarrow> buildEnvs newEnv b (gm_set (pb_policy policy) env envs) ps)"

definition ValidatorBuilder_Build ::
  "(('t, 'f) env_option list \<Rightarrow> string + 'e) \<Rightarrow> ('t, 'f) ValidatorBuilder \<Rightarrow> string + (string, 'e) gomap" where
  "ValidatorBuilder_Build newEnv b = buildEnvs newEnv b [] (vb_policies b)"

definition Validator_Validate ::
  "('e \<Rightarrow> string \<Rightarrow> go_error + 't) \<Rightarrow> (string, 'e) gomap \<Rightarrow> string \<Rightarrow> string \<Rightarrow> go_error + 't" where
  "Validator_Validate check envs policy expr =
     (case map_of envs policy of None \<Rightarrow> Inl (ForeignError (''no policy matching `'' @ policy @ ''`'') False)
      | Some env \<Rightarrow> check env expr)"

text \<open>The overloads of the root functions: identifier, argument types and result type.\<close>

datatype cel_type = AnyType | StringType | ListOfString | DurationType | OtherType string

definition NewRootValidatorBuilder :: "(cel_type, string \<times> cel_type list \<times> cel_type) ValidatorBuilder" where
  "NewRootValidatorBuilder =
     (let b = AddBinding ''connection'' AnyType (AddBinding ''destination'' AnyType (AddBinding ''source'' AnyType
            (AddBinding ''request'' AnyType NewValidatorBuilder)));
          b = AddFunction ''requestBodyJSON''
            [(''request_body_json_string'', [StringType], AnyType), (''request_body_json_list'', [ListOfString], AnyType),
             (''request_body_json_list_with_type_hint'', [ListOfString, StringType], AnyType)] b
      in AddFunction ''responseBodyJSON''
           [(''response_body_json_string'', [StringType], AnyType), (''response_body_json_list'', [ListOfString], AnyType),
            (''response_body_json_list_with_type_hint'', [ListOfString, StringType], AnyType)] b)"

section \<open>Validating an action specification\<close>

text \<open>The first error of a loop over expressions, if any.\<close>

fun firstError :: "('a \<Rightarrow> go_error + 't) \<Rightarrow> 'a list \<Rightarrow> go_error option" where
  "firstError f [] = None"
| "firstError f (x # xs) = (case f x of Inl err \<Rightarrow> Some err | Inr _ \<Rightarrow> firstError f xs)"

definition ValidateWasmActionSpec ::
  "('e \<Rightarrow> string \<Rightarrow> go_error + cel_type) \<Rightarrow> (cel_type \<Rightarrow> string) \<Rightarrow> ActionSpec \<Rightarrow> (string, 'e) gomap \<Rightarrow> go_error option" where
  "ValidateWasmActionSpec check typeText spec validator =
     (let pol = policyKindFromWasmServiceName (sp_ServiceName spec);
          validate = Validator_Validate check validator pol
      in case firstError validate (sp_Predicates spec) of Some err \<Rightarrow> Some err
       | None \<Rightarrow>
      (case firstError validate (concat (map cd_Predicates (sp_ConditionalData spec))) of Some err \<Rightarrow> Some err
       | None \<Rightarrow>
      (case (if ReservationAmountCEL spec \<noteq> [] then firstError validate [ReservationAmountCEL spec] else None) of Some err \<Rightarrow> Some err
       | None \<Rightarrow>
         if ReservationTTLCEL spec \<noteq> []
         then (case validate (ReservationTTLCEL spec) of Inl err \<Rightarrow> Some err
           | Inr t \<Rightarrow> if t \<noteq> DurationType
               then Some (ForeignError (''reservation ttl expression must evaluate to duration, got '' @ typeText t) False)
               else None)
         else None)))"

section \<open>Counter expressions for Limitador\<close>

text \<open>The syntax tree; every node carries its id.  Structs and comprehensions are \<open>COther\<close>.\<close>

datatype cel_expr =
    CIdent int string
  | CCall int "cel_expr option" string "cel_expr list"
  | CSelect int cel_expr
  | CList int "cel_expr list"
  | CMap int "(cel_expr \<times> cel_expr) list"
  | COther int

definition knownAttributes :: "string list" where
  "knownAttributes = [''request'', ''source'', ''destination'', ''connection'', ''metadata'', ''filter_state'', ''auth'', ''ratelimit'']"

definition comprehensionNames :: "string list" where
  "comprehensionNames = [''all'', ''exists'', ''exists_one'', ''map'', ''filter'']"

text \<open>The variable that a call declares, when it looks like a comprehension over a call.\<close>

fun declared :: "string \<Rightarrow> cel_expr list \<Rightarrow> string option" where
  "declared name (CIdent i v # CCall j t n as # rest) = (if name \<in> set comprehensionNames then Some v else None)"
| "declared name args = None"

definition declares :: "string \<Rightarrow> cel_expr list \<Rightarrow> bool" where
  "declares name args \<longleftrightarrow> declared name args \<noteq> None"

text \<open>
  The loop over the stack, whose top is the head of the list.  \<open>offsets\<close> gives the offset range
  of a node; a node without one ends the loop with an error.
\<close>

function collectRanges ::
  "(int \<Rightarrow> (nat \<times> nat) option) \<Rightarrow> cel_expr list \<Rightarrow> string list \<Rightarrow> (nat \<times> nat) list \<Rightarrow> string + (nat \<times> nat) list" where
  "collectRanges offsets [] decls toReplace = Inr toReplace"
| "collectRanges offsets (CIdent i name # stack) decls toReplace =
     (if name \<in> set knownAttributes \<and> name \<notin> set decls
      then (case offsets i of Some offset \<Rightarrow> collectRanges offsets stack decls (toReplace @ [offset])
        | None \<Rightarrow> Inl (''could not find offset range for '' @ itoa_int i))
      else collectRanges offsets stack decls toReplace)"
| "collectRanges offsets (CCall i target name args # stack) decls toReplace =
     (case declared name args of
        Some v \<Rightarrow> collectRanges offsets (rev (tl args) @ (case target of None \<Rightarrow> [] | Some t \<Rightarrow> [t]) @ stack) (v # decls) toReplace
      | None \<Rightarrow> collectRanges offsets (rev args @ (case target of None \<Rightarrow> [] | Some t \<Rightarrow> [t]) @ stack) decls toReplace)"
| "collectRanges offsets (CSelect i operand # stack) decls toReplace = collectRanges offsets (operand # stack) decls toReplace"
| "collectRanges offsets (CList i elements # stack) decls toReplace = collectRanges offsets (rev elements @ stack) decls toReplace"
| "collectRanges offsets (CMap i entries # stack) decls toReplace =
     collectRanges offsets (rev (concat (map (\<lambda>(k, v). [k, v]) entries)) @ stack) decls toReplace"
| "collectRanges offsets (COther i # stack) decls toReplace = collectRanges offsets stack decls toReplace"
  by pat_completeness auto

lemma size_stack:
  "size_list size (xs @ ys) = size_list size xs + size_list size ys" "size_list size (rev xs) = size_list size xs"
  by (simp_all add: size_list_conv_sum_list rev_map [symmetric] sum_list_rev)

lemma size_entries:
  "size_list size (concat (map (\<lambda>(k, v). [k, v]) (entries :: (cel_expr \<times> cel_expr) list))) = size_list (size_prod size size) entries"
  by (induction entries) auto

lemma size_tl: "size_list size (tl (args :: cel_expr list)) \<le> size_list size args"
  by (cases args) auto

termination collectRanges
proof (relation "measure (\<lambda>(offsets, stack, decls, toReplace). size_list size stack)", goal_cases)
  case (5 offsets i target name args stack decls toReplace v)
  then show ?case using size_tl [of args] by (cases target) (auto simp: size_stack)
qed (auto simp: size_stack size_entries split: option.splits)

text \<open>\<open>strings.TrimSpace\<close> on ASCII text.\<close>

definition TrimSpace :: "string \<Rightarrow> string" where
  "TrimSpace s = Trim s (map char_of [9::nat, 10, 11, 12, 13, 32])"

definition slice :: "string \<Rightarrow> nat \<Rightarrow> nat \<Rightarrow> string" where
  "slice s a b = take (b - a) (drop a s)"

definition descriptorsPrefix :: string where "descriptorsPrefix = ''descriptors[0].''"

text \<open>One step of the loop that copies the expression; slicing out of range panics.\<close>

definition spliceRange :: "string \<Rightarrow> string \<times> nat \<Rightarrow> nat \<times> nat \<Rightarrow> (string \<times> nat) go_result" where
  "spliceRange expression st offset =
     (case st of (exp, cur) \<Rightarrow>
      if \<not> (fst offset \<le> snd offset \<and> snd offset \<le> length expression) then Panic ''slice bounds out of range''
      else Return (exp @ (if fst offset > cur then slice expression cur (fst offset) else []) @
             descriptorsPrefix @ slice expression (fst offset) (snd offset), snd offset))"

definition TransformCounterVariable ::
  "(string \<Rightarrow> string + cel_expr \<times> (int \<Rightarrow> (nat \<times> nat) option)) \<Rightarrow> string \<Rightarrow> bool \<Rightarrow> (string + string) go_result" where
  "TransformCounterVariable parse expression celAstTransform =
     (if \<not> celAstTransform
      then Return (Inr (''descriptors[0]['' @ [quote_char] @ TrimSpace expression @ [quote_char] @ '']''))
      else case parse expression of Inl err \<Rightarrow> Return (Inl err)
       | Inr (p, offsets) \<Rightarrow>
         (case collectRanges offsets [p] [] [] of Inl err \<Rightarrow> Return (Inl err)
          | Inr toReplace \<Rightarrow>
            if length toReplace = 0 then Return (Inr expression)
            else gbind (gfold (spliceRange expression) ([], 0) (go_sort (\<lambda>i j. fst i < fst j) toReplace))
              (\<lambda>(exp, cur). Return (Inr (if cur < length expression then exp @ drop cur expression else exp)))))"

section \<open>What the rewriting does\<close>

text \<open>The reference: every character is kept, and the prefix stands before the given positions.\<close>

definition insertBefore :: "nat set \<Rightarrow> string \<Rightarrow> string" where
  "insertBefore S expression =
     concat (map (\<lambda>i. (if i \<in> S then descriptorsPrefix else []) @ [expression ! i]) [0..<length expression])"

definition chars :: "nat set \<Rightarrow> string \<Rightarrow> nat \<Rightarrow> nat \<Rightarrow> string" where
  "chars S expression a b = concat (map (\<lambda>i. (if i \<in> S then descriptorsPrefix else []) @ [expression ! i]) [a..<b])"

lemma chars_split: "a \<le> b \<Longrightarrow> b \<le> c \<Longrightarrow> chars S e a c = chars S e a b @ chars S e b c"
  using upt_add_eq_append [of a b "c - b"] by (simp add: chars_def)

lemma chars_plain:
  assumes "b \<le> length e" "\<And>i. a \<le> i \<Longrightarrow> i < b \<Longrightarrow> i \<notin> S"
  shows "chars S e a b = slice e a b"
proof -
  have "map (\<lambda>i. (if i \<in> S then descriptorsPrefix else []) @ [e ! i]) [a..<b] = map (\<lambda>i. [e ! i]) [a..<b]"
    using assms(2) by (intro map_cong) auto
  moreover have "concat (map (\<lambda>i. [e ! i]) xs) = map ((!) e) xs" for xs by (induction xs) auto
  moreover have "map ((!) e) [a..<b] = slice e a b"
    using assms(1) by (intro nth_equalityI) (auto simp: slice_def)
  ultimately show ?thesis unfolding chars_def by metis
qed

lemma chars_start: "a < b \<Longrightarrow> a \<in> S \<Longrightarrow> chars S e a b = descriptorsPrefix @ [e ! a] @ chars S e (Suc a) b"
  by (simp add: chars_def upt_conv_Cons)

lemma chars_empty [simp]: "chars S e 0 0 = []"
  by (simp add: chars_def)

lemma slice_empty [simp]: "slice e a a = []"
  by (simp add: slice_def)

definition ranges_ok :: "string \<Rightarrow> (nat \<times> nat) list \<Rightarrow> bool" where
  "ranges_ok e rs \<longleftrightarrow> sorted_wrt (\<lambda>a b. snd a \<le> fst b) rs \<and> list_all (\<lambda>(a, b). a < b \<and> b \<le> length e) rs"

lemma gfold_spliceRange:
  assumes "ranges_ok e rs" "list_all (\<lambda>r. cur \<le> fst r) rs"
    and "S \<inter> {cur..} = fst ` set rs" "cur \<le> length e"
  shows "\<exists>cur'. gfold (spliceRange e) (chars S e 0 cur, cur) rs = Return (chars S e 0 cur', cur') \<and>
    cur' \<le> length e \<and> S \<inter> {cur'..} = {}"
  using assms
proof (induction rs arbitrary: cur)
  case Nil
  then show ?case by auto
next
  case (Cons r rs)
  obtain a b where r: "r = (a, b)" by fastforce
  have ab: "cur \<le> a" "a < b" "b \<le> length e" using Cons.prems(1,2) by (auto simp: r ranges_ok_def)
  have later: "b \<le> fst r'" if "r' \<in> set rs" for r' using Cons.prems(1) that by (auto simp: r ranges_ok_def)
  have S: "i \<in> S \<longleftrightarrow> i = a" if "cur \<le> i" "i < b" for i
  proof -
    have "i \<in> S \<longleftrightarrow> i \<in> fst ` set (r # rs)" using Cons.prems(3) that(1) by auto
    also have "\<dots> \<longleftrightarrow> i = a" using later that(2) by (fastforce simp: r)
    finally show ?thesis .
  qed
  have "a \<in> S" using S [of a] ab by simp
  have "chars S e 0 b = chars S e 0 cur @ chars S e cur a @ chars S e a b"
    using ab chars_split [of 0 cur b] chars_split [of cur a b] by simp
  also have "chars S e cur a = slice e cur a" using ab S by (intro chars_plain) auto
  also have "chars S e a b = descriptorsPrefix @ [e ! a] @ chars S e (Suc a) b"
    using ab \<open>a \<in> S\<close> by (simp add: chars_start)
  also have "chars S e (Suc a) b = slice e (Suc a) b" using ab S by (intro chars_plain) auto
  also have "[e ! a] @ slice e (Suc a) b = slice e a b"
    using ab by (simp add: slice_def) (metis Cons_nth_drop_Suc Suc_diff_Suc less_le_trans take_Suc_Cons)
  finally have "chars S e 0 b = chars S e 0 cur @ slice e cur a @ descriptorsPrefix @ slice e a b" by simp
  then have step: "spliceRange e (chars S e 0 cur, cur) r = Return (chars S e 0 b, b)"
    using ab by (cases "cur = a") (simp_all add: spliceRange_def r)
  have "S \<inter> {b..} = fst ` set rs"
  proof -
    have "S \<inter> {b..} = (S \<inter> {cur..}) \<inter> {b..}" using ab by auto
    also have "\<dots> = fst ` set rs" using Cons.prems(3) later ab by (auto simp: r)
    finally show ?thesis .
  qed
  moreover have "ranges_ok e rs" "list_all (\<lambda>r. b \<le> fst r) rs"
    using Cons.prems(1) later by (auto simp: ranges_ok_def list_all_iff)
  ultimately show ?case using Cons.IH [of b] ab step by simp
qed

lemma insertBefore_chars: "insertBefore S e = chars S e 0 (length e)"
  by (simp add: insertBefore_def chars_def)

lemma splice_insertBefore:
  assumes "ranges_ok e rs"
  shows "gbind (gfold (spliceRange e) ([], 0) rs) (\<lambda>(exp, cur). Return (if cur < length e then exp @ drop cur e else exp)) =
    Return (insertBefore (fst ` set rs) e)"
proof -
  obtain cur where cur: "gfold (spliceRange e) (chars (fst ` set rs) e 0 0, 0) rs = Return (chars (fst ` set rs) e 0 cur, cur)"
    "cur \<le> length e" "fst ` set rs \<inter> {cur..} = {}"
  proof -
    have "list_all (\<lambda>r. 0 \<le> fst r) rs" "fst ` set rs \<inter> {0..} = fst ` set rs" by (auto simp: list_all_iff)
    from gfold_spliceRange [OF assms this] that show ?thesis by blast
  qed
  have "chars (fst ` set rs) e cur (length e) = slice e cur (length e)"
    using cur(3) by (intro chars_plain) auto
  then have "chars (fst ` set rs) e 0 (length e) = chars (fst ` set rs) e 0 cur @ drop cur e"
    using cur(2) chars_split [of 0 cur "length e" "fst ` set rs" e] by (simp add: slice_def)
  then have "(if cur < length e then chars (fst ` set rs) e 0 cur @ drop cur e else chars (fst ` set rs) e 0 cur) =
      insertBefore (fst ` set rs) e"
    using cur(2) unfolding insertBefore_chars by (cases "cur = length e") simp_all
  with cur(1) show ?thesis by simp
qed

section \<open>Which identifiers are rewritten\<close>

primrec idents :: "cel_expr \<Rightarrow> (int \<times> string) list" where
  "idents (CIdent i name) = [(i, name)]"
| "idents (CCall i target name args) = (case map_option idents target of None \<Rightarrow> [] | Some xs \<Rightarrow> xs) @ concat (map idents args)"
| "idents (CSelect i operand) = idents operand"
| "idents (CList i elements) = concat (map idents elements)"
| "idents (CMap i entries) = concat (map (\<lambda>(a, b). a @ b) (map (map_prod idents idents) entries))"
| "idents (COther i) = []"

text \<open>Expressions in which no call looks like a comprehension that declares a variable.\<close>

primrec plain :: "cel_expr \<Rightarrow> bool" where
  "plain (CIdent i name) = True"
| "plain (CCall i target name args) \<longleftrightarrow> \<not> declares name args \<and>
     (case map_option plain target of None \<Rightarrow> True | Some b \<Rightarrow> b) \<and> list_all (\<lambda>b. b) (map plain args)"
| "plain (CSelect i operand) = plain operand"
| "plain (CList i elements) = list_all (\<lambda>b. b) (map plain elements)"
| "plain (CMap i entries) = list_all (\<lambda>(a, b). a \<and> b) (map (map_prod plain plain) entries)"
| "plain (COther i) = True"

definition known_idents :: "cel_expr list \<Rightarrow> int list" where
  "known_idents stack = map fst (filter (\<lambda>(i, name). name \<in> set knownAttributes) (concat (map idents stack)))"

lemma known_idents_append: "known_idents (xs @ ys) = known_idents xs @ known_idents ys"
  by (simp add: known_idents_def)

lemma mset_concat_rev: "mset (concat (rev xs)) = mset (concat xs)"
  by (induction xs) (auto simp: union_commute)

lemma mset_known_rev: "mset (known_idents (rev xs)) = mset (known_idents xs)"
proof -
  have "mset (concat (map idents (rev xs))) = mset (concat (map idents xs))"
    using mset_concat_rev [of "map idents xs"] by (simp add: rev_map)
  then show ?thesis unfolding known_idents_def mset_map mset_filter by simp
qed

lemma mset_known_cons:
  "mset (known_idents (CIdent i name # stack)) =
     (if name \<in> set knownAttributes then {#i#} else {#}) + mset (known_idents stack)"
  "mset (known_idents (CCall i target name args # stack)) =
     mset (known_idents (rev args @ (case target of None \<Rightarrow> [] | Some t \<Rightarrow> [t]) @ stack))"
  "mset (known_idents (CSelect i operand # stack)) = mset (known_idents (operand # stack))"
  "mset (known_idents (CList i elements # stack)) = mset (known_idents (rev elements @ stack))"
  "mset (known_idents (CMap i entries # stack)) =
     mset (known_idents (rev (concat (map (\<lambda>(k, v). [k, v]) entries)) @ stack))"
  "mset (known_idents (COther i # stack)) = mset (known_idents stack)"
proof -
  have "concat (map (\<lambda>(a, b). a @ b) (map (map_prod idents idents) entries)) =
      concat (map idents (concat (map (\<lambda>(k, v). [k, v]) entries)))"
    by (induction entries) auto
  then have "mset (known_idents [CMap i entries]) = mset (known_idents (concat (map (\<lambda>(k, v). [k, v]) entries)))"
    by (simp add: known_idents_def)
  then show "mset (known_idents (CMap i entries # stack)) =
     mset (known_idents (rev (concat (map (\<lambda>(k, v). [k, v]) entries)) @ stack))"
    using known_idents_append [of "[CMap i entries]" stack] by (simp add: known_idents_append mset_known_rev)
  show "mset (known_idents (CCall i target name args # stack)) =
     mset (known_idents (rev args @ (case target of None \<Rightarrow> [] | Some t \<Rightarrow> [t]) @ stack))"
    unfolding known_idents_append mset_append mset_known_rev
    by (cases target) (simp_all add: known_idents_def)
  show "mset (known_idents (CList i elements # stack)) = mset (known_idents (rev elements @ stack))"
    unfolding known_idents_append mset_append mset_known_rev by (simp add: known_idents_def)
qed (simp_all add: known_idents_def)

lemma plain_entries:
  "list_all plain (concat (map (\<lambda>(k, v). [k, v]) entries)) = list_all (\<lambda>(a, b). a \<and> b) (map (map_prod plain plain) entries)"
  by (induction entries) auto

lemma list_all_rev: "list_all P (rev xs) = list_all P xs"
  by (simp add: list_all_iff)

lemma collectRanges_plain:
  assumes "list_all plain stack" "\<And>i. i \<in> set (known_idents stack) \<Longrightarrow> offsets i \<noteq> None"
  shows "\<exists>rs. collectRanges offsets stack [] acc = Inr (acc @ rs) \<and>
    mset rs = image_mset (\<lambda>i. the (offsets i)) (mset (known_idents stack))"
  using assms
proof (induction offsets stack "[] :: string list" acc rule: collectRanges.induct)
  case (2 offsets i name stack acc)
  show ?case
  proof (cases "name \<in> set knownAttributes")
    case True
    with 2(4) obtain r where r: "offsets i = Some r" by (fastforce simp: known_idents_def)
    have "offsets j \<noteq> None" if "j \<in> set (known_idents stack)" for j
      using 2(4) that by (auto simp: known_idents_def)
    with 2(1) [OF _ r] True 2(3) obtain rs where "collectRanges offsets stack [] (acc @ [r]) = Inr ((acc @ [r]) @ rs)"
      "mset rs = image_mset (\<lambda>i. the (offsets i)) (mset (known_idents stack))" by auto
    with True r show ?thesis by (intro exI [of _ "r # rs"]) (simp add: mset_known_cons)
  next
    case False
    have "offsets j \<noteq> None" if "j \<in> set (known_idents stack)" for j
      using 2(4) that by (auto simp: known_idents_def)
    with 2(2) 2(3) False show ?thesis by (simp add: mset_known_cons)
  qed
next
  case (3 offsets i target name args stack acc)
  have none: "declared name args = None" using 3(2) by (simp add: declares_def)
  have "list_all plain (rev args @ (case target of None \<Rightarrow> [] | Some t \<Rightarrow> [t]) @ stack)"
    using 3(2) by (cases target) (auto simp: list_all_iff)
  moreover have "set (known_idents (rev args @ (case target of None \<Rightarrow> [] | Some t \<Rightarrow> [t]) @ stack)) =
      set (known_idents (CCall i target name args # stack))"
    using mset_known_cons(2) [of i target name args stack] by (metis set_mset_mset)
  ultimately show ?case using 3(1) [OF none] 3(3) none mset_known_cons(2) [of i target name args stack] by simp
next
  case (4 offsets i operand stack acc)
  then show ?case using mset_known_cons(3) [of i operand stack] by (simp add: known_idents_def)
next
  case (5 offsets i elements stack acc)
  have "set (known_idents (rev elements @ stack)) = set (known_idents (CList i elements # stack))"
    using mset_known_cons(4) [of i elements stack] by (metis set_mset_mset)
  moreover have "list_all plain (rev elements @ stack)" using 5(2) by (auto simp: list_all_iff)
  ultimately show ?case using 5 mset_known_cons(4) [of i elements stack] by simp
next
  case (6 offsets i entries stack acc)
  have "set (known_idents (rev (concat (map (\<lambda>(k, v). [k, v]) entries)) @ stack)) = set (known_idents (CMap i entries # stack))"
    using mset_known_cons(5) [of i entries stack] by (metis set_mset_mset)
  moreover have "list_all plain (rev (concat (map (\<lambda>(k, v). [k, v]) entries)) @ stack)"
    using 6(2) plain_entries [of entries] by (simp add: list_all_rev)
  ultimately show ?case using 6 mset_known_cons(5) [of i entries stack] by simp
next
  case (7 offsets i stack acc)
  then show ?case by (simp add: mset_known_cons) (simp add: known_idents_def)
qed (simp add: known_idents_def)

interpretation range_starts: go_weak_order "\<lambda>i j :: nat \<times> nat. fst i < fst j"
  by unfold_locales auto

lemma ranges_ok_starts:
  assumes "ranges_ok e rs" "x \<in> set rs" "y \<in> set rs" "\<not> fst x < fst y" "\<not> fst y < fst x"
  shows "x = y"
proof -
  have "sorted_wrt (\<lambda>a b. fst a < fst b) rs"
    using assms(1) by (auto simp: ranges_ok_def list_all_iff elim!: sorted_wrt_mono_rel [rotated])
  then have "sorted_wrt (<) (map fst rs)" by (simp add: sorted_wrt_map)
  then have "inj_on fst (set rs)" by (simp add: strict_sorted_iff distinct_map)
  with assms(2-) show ?thesis by (auto dest: inj_onD)
qed

lemma insertBefore_none [simp]: "insertBefore {} e = e"
proof -
  have "insertBefore {} e = slice e 0 (length e)" unfolding insertBefore_chars by (rule chars_plain) auto
  then show ?thesis by (simp add: slice_def)
qed

text \<open>
  Rewriting a counter expression keeps every character and puts \<open>descriptors[0].\<close> before
  each identifier that is a well-known attribute, and nowhere else.  The hypotheses are what the
  parser gives for an expression in which no call declares a variable: an offset range for each
  identifier, inside the text and disjoint from the others.
\<close>

theorem TransformCounterVariable_prefixes:
  assumes "parse expression = Inr (p, offsets)" "plain p"
    and "list_all (\<lambda>i. offsets i \<noteq> None) (known_idents [p])"
    and "ranges_ok expression (go_sort (\<lambda>i j. fst i < fst j) (map (\<lambda>i. the (offsets i)) (known_idents [p])))"
  shows "TransformCounterVariable parse expression True =
    Return (Inr (insertBefore ((\<lambda>i. fst (the (offsets i))) ` set (known_idents [p])) expression))"
proof -
  let ?ranges = "map (\<lambda>i. the (offsets i)) (known_idents [p])"
  have "\<exists>rs. collectRanges offsets [p] [] [] = Inr ([] @ rs) \<and>
      mset rs = image_mset (\<lambda>i. the (offsets i)) (mset (known_idents [p]))"
    by (rule collectRanges_plain) (use assms(2,3) in \<open>auto simp: list_all_iff\<close>)
  then obtain rs where rs: "collectRanges offsets [p] [] [] = Inr rs" "mset rs = mset ?ranges" by auto
  have "\<forall>x\<in>set rs. \<forall>y\<in>set rs. \<not> fst x < fst y \<longrightarrow> \<not> fst y < fst x \<longrightarrow> x = y"
    using ranges_ok_starts [OF assms(4)] mset_eq_setD [OF rs(2)] by simp
  from range_starts.go_sort_eq_iff_on [OF this, of ?ranges] rs(2)
  have sorted: "go_sort (\<lambda>i j. fst i < fst j) rs = go_sort (\<lambda>i j. fst i < fst j) ?ranges" by simp
  have "fst ` set (go_sort (\<lambda>i j. fst i < fst j) ?ranges) = (\<lambda>i. fst (the (offsets i))) ` set (known_idents [p])"
    by (simp add: image_image)
  with splice_insertBefore [OF assms(4)] have "gbind (gfold (spliceRange expression) ([], 0) (go_sort (\<lambda>i j. fst i < fst j) ?ranges))
      (\<lambda>(exp, cur). Return (if cur < length expression then exp @ drop cur expression else exp)) =
    Return (insertBefore ((\<lambda>i. fst (the (offsets i))) ` set (known_idents [p])) expression)" by simp
  then have splice: "gbind (gfold (spliceRange expression) ([], 0) (go_sort (\<lambda>i j. fst i < fst j) ?ranges))
      (\<lambda>(exp, cur). Return (Inr (if cur < length expression then exp @ drop cur expression else exp))) =
    Return (Inr (insertBefore ((\<lambda>i. fst (the (offsets i))) ` set (known_idents [p])) expression))"
    by (cases "gfold (spliceRange expression) ([], 0) (go_sort (\<lambda>i j. fst i < fst j) ?ranges)") auto
  show ?thesis
  proof (cases "rs = []")
    case True
    then have "known_idents [p] = []" using rs(2) by simp
    with True rs(1) assms(1) show ?thesis by (simp add: TransformCounterVariable_def)
  next
    case False
    with rs(1) assms(1) splice sorted show ?thesis by (simp add: TransformCounterVariable_def)
  qed
qed

text \<open>\<open>auth.id == source\<close>\<close>

definition ex_cel_tree :: cel_expr where
  "ex_cel_tree = CCall 1 None ''_==_'' [CSelect 2 (CIdent 3 ''auth''), CIdent 4 ''source'']"

definition ex_cel_offsets :: "int \<Rightarrow> (nat \<times> nat) option" where
  "ex_cel_offsets i = map_of [(3, (0, 4)), (4, (11, 17))] i"

theorem TransformCounterVariable_prefixes_witness:
  "TransformCounterVariable (\<lambda>_. Inr (ex_cel_tree, ex_cel_offsets)) ''auth.id == source'' True =
     Return (Inr ''descriptors[0].auth.id == descriptors[0].source'')"
proof -
  have ids: "known_idents [ex_cel_tree] = [3, 4]" by code_simp
  moreover have "plain ex_cel_tree" by code_simp
  moreover have "ranges_ok ''auth.id == source'' (go_sort (\<lambda>i j. fst i < fst j) (map (\<lambda>i. the (ex_cel_offsets i)) [3, 4]))" by code_simp
  moreover have "insertBefore {0, 11} ''auth.id == source'' = ''descriptors[0].auth.id == descriptors[0].source''" by code_simp
  ultimately show ?thesis
    using TransformCounterVariable_prefixes [of "\<lambda>_. Inr (ex_cel_tree, ex_cel_offsets)" "''auth.id == source''" ex_cel_tree ex_cel_offsets]
    by (simp add: ex_cel_offsets_def)
qed

text \<open>
  A variable that a call declares is taken as declared for everything that the loop visits later,
  also outside the call: in \<open>request.method == xs.all(request, f(request))\<close> the first
  \<open>request\<close> is the attribute and is not rewritten, while with the operands swapped it is.
\<close>

definition ex_all :: cel_expr where
  "ex_all = CCall 10 (Some (CIdent 11 ''xs'')) ''all'' [CIdent 12 ''request'', CCall 13 None ''f'' [CIdent 14 ''request'']]"

lemma declared_variable_leaks:
  "collectRanges (\<lambda>i. Some (nat i, nat i + 7)) [CCall 1 None ''_==_'' [CSelect 2 (CIdent 3 ''request''), ex_all]] [] [] = Inr []"
  "collectRanges (\<lambda>i. Some (nat i, nat i + 7)) [CCall 1 None ''_==_'' [ex_all, CSelect 2 (CIdent 3 ''request'')]] [] [] = Inr [(3, 10)]"
  by (simp_all add: ex_all_def comprehensionNames_def knownAttributes_def)

section \<open>Scopes of validation\<close>

text \<open>
  A policy is validated in the environment made of the base bindings and of the bindings of
  the policies up to and including its own first one: what later policies bind is not visible, and
  a kind that was not bound has no environment.
\<close>

theorem validation_scope:
  assumes "ValidatorBuilder_Build newEnv b = Inr envs"
  shows "map_of envs policy = (if policy \<in> pb_policy ` set (vb_policies b)
      then (case newEnv (envOptions b policy) of Inr env \<Rightarrow> Some env | Inl err \<Rightarrow> None) else None) \<and>
    policyOptions policy (vb_policies b) = concat (map (\<lambda>p. [TypesOpt (pb_type p), VariableOpt (pb_name p) (pb_type p)])
      (takeWhile (\<lambda>p. pb_policy p \<noteq> policy) (vb_policies b) @
       take 1 (dropWhile (\<lambda>p. pb_policy p \<noteq> policy) (vb_policies b))))"
proof -
  have envs: "map_of envs' policy = (if policy \<in> pb_policy ` set ps
      then (case newEnv (envOptions b policy) of Inr env \<Rightarrow> Some env | Inl err \<Rightarrow> None) else map_of envs0 policy)"
    if "buildEnvs newEnv b envs0 ps = Inr envs'" for ps envs0 envs'
    using that by (induction ps arbitrary: envs0) (auto split: sum.splits)
  have "policyOptions policy ps = concat (map (\<lambda>p. [TypesOpt (pb_type p), VariableOpt (pb_name p) (pb_type p)])
      (takeWhile (\<lambda>p. pb_policy p \<noteq> policy) ps @ take 1 (dropWhile (\<lambda>p. pb_policy p \<noteq> policy) ps)))" for ps
    by (induction ps) auto
  with envs [of "[]" "vb_policies b" envs] assms show ?thesis by (simp add: ValidatorBuilder_Build_def)
qed

theorem validation_scope_witness:
  "policyOptions ''AuthPolicy'' (vb_policies (PushPolicyBinding ''RateLimitPolicy'' ''ratelimit'' AnyType
      (PushPolicyBinding ''AuthPolicy'' ''auth'' AnyType NewRootValidatorBuilder))) =
     [TypesOpt AnyType, VariableOpt ''auth'' (AnyType :: cel_type) :: (cel_type, string) env_option]"
proof -
  define b where "b = PushPolicyBinding ''RateLimitPolicy'' ''ratelimit'' AnyType
      (PushPolicyBinding ''AuthPolicy'' ''auth'' AnyType NewRootValidatorBuilder)"
  have ps: "vb_policies b = [\<lparr>pb_policy = ''AuthPolicy'', pb_name = ''auth'', pb_type = AnyType\<rparr>,
      \<lparr>pb_policy = ''RateLimitPolicy'', pb_name = ''ratelimit'', pb_type = AnyType\<rparr>]"
    by (simp add: b_def PushPolicyBinding_def NewRootValidatorBuilder_def AddFunction_def AddBinding_def NewValidatorBuilder_def Let_def)
  obtain envs where "ValidatorBuilder_Build (\<lambda>_. Inr ()) b = Inr envs"
    by (simp add: ValidatorBuilder_Build_def ps)
  from validation_scope [OF this, of "''AuthPolicy''"] show ?thesis
    unfolding b_def [symmetric] by (simp add: ps)
qed

end
