(* ===== verification/Data_Plane_Workflow.thy ===== *)
theory Data_Plane_Workflow
  imports Rate_Limit_Workflow CEL_Validation
begin

text \<open>
  Helpers of \<open>internal/controller/data_plane_policies_workflow.go\<close> that the gateway
  integrations and the status updaters share: the names of gateway controllers, the components of
  a gateway that are still to be synced, and the merging of action specifications
  (\<open>mergeAndVerifySpecs\<close>) with its check that no data key gets two values.

  The reference for the merge is \<open>spec_runs\<close>, which cuts a list of specifications into the
  longest runs of neighbours for one scope of one mergeable service.
\<close>

section \<open>Gateway controllers\<close>

definition defaultIstioGatewayControllerName :: string where
  "defaultIstioGatewayControllerName = ''istio.io/gateway-controller''"

definition defaultEnvoyGatewayGatewayControllerName :: string where
  "defaultEnvoyGatewayGatewayControllerName = ''gateway.envoyproxy.io/gatewayclass-controller''"

definition getGatewayControllerNames :: "environment \<Rightarrow> string \<Rightarrow> string \<Rightarrow> string list" where
  "getGatewayControllerNames env envName defaultGatewayControllerName =
     (let envValue = GetString env envName defaultGatewayControllerName;
          gatewayControllers = map TrimSpace (Split envValue CHR '','')
      in if envValue = defaultGatewayControllerName then gatewayControllers
         else gatewayControllers @ [defaultGatewayControllerName])"

definition istioGatewayControllerNames :: "environment \<Rightarrow> string list" where
  "istioGatewayControllerNames env =
     getGatewayControllerNames env ''ISTIO_GATEWAY_CONTROLLER_NAMES'' defaultIstioGatewayControllerName"

definition envoyGatewayGatewayControllerNames :: "environment \<Rightarrow> string list" where
  "envoyGatewayGatewayControllerNames env =
     getGatewayControllerNames env ''ENVOY_GATEWAY_GATEWAY_CONTROLLER_NAMES'' defaultEnvoyGatewayGatewayControllerName"

definition defaultGatewayControllerName :: "environment \<Rightarrow> string \<Rightarrow> string" where
  "defaultGatewayControllerName env controllerName =
     (if controllerName \<in> set (istioGatewayControllerNames env) then defaultIstioGatewayControllerName
      else if controllerName \<in> set (envoyGatewayGatewayControllerNames env) then defaultEnvoyGatewayGatewayControllerName
      else ''Unknown'')"

lemma Split_no_sep: "c \<notin> set s \<Longrightarrow> Split s c = [s]"
  by (induction s c rule: Split.induct) auto

text \<open>Whatever the environment says, the default name of each provider is among its names.\<close>

lemma default_controller_known:
  "defaultIstioGatewayControllerName \<in> set (istioGatewayControllerNames env)"
  "defaultEnvoyGatewayGatewayControllerName \<in> set (envoyGatewayGatewayControllerNames env)"
proof -
  have "TrimSpace defaultIstioGatewayControllerName = defaultIstioGatewayControllerName"
    "TrimSpace defaultEnvoyGatewayGatewayControllerName = defaultEnvoyGatewayGatewayControllerName"
    "Split defaultIstioGatewayControllerName CHR '','' = [defaultIstioGatewayControllerName]"
    "Split defaultEnvoyGatewayGatewayControllerName CHR '','' = [defaultEnvoyGatewayGatewayControllerName]"
    by code_simp+
  then show "defaultIstioGatewayControllerName \<in> set (istioGatewayControllerNames env)"
    "defaultEnvoyGatewayGatewayControllerName \<in> set (envoyGatewayGatewayControllerNames env)"
    by (simp_all add: istioGatewayControllerNames_def envoyGatewayGatewayControllerNames_def getGatewayControllerNames_def Let_def)
qed

lemma defaultGatewayControllerName_idem:
  "defaultGatewayControllerName env defaultIstioGatewayControllerName = defaultIstioGatewayControllerName"
  by (simp add: defaultGatewayControllerName_def default_controller_known)

section \<open>Components to sync\<close>

text \<open>
  \<open>children\<close> are the objects below the gateway in the topology, \<open>groupKind\<close> and
  \<open>nameOf\<close> read them; \<open>modified\<close> is the value of the state key, nil when it was not stored.
\<close>

record gateway_ref =
  gw_Namespace :: string
  gw_Name :: string
  gw_Locator :: string

definition componentToSync :: "gateway_ref \<Rightarrow> string \<Rightarrow> string list option \<Rightarrow> 'o option \<Rightarrow> ('o \<Rightarrow> bool) \<Rightarrow> string list" where
  "componentToSync gateway componentKind modified found requiredCondition =
     (if (case modified of Some ls \<Rightarrow> gw_Locator gateway \<in> set ls | None \<Rightarrow> False) \<or>
         (case found of None \<Rightarrow> True | Some obj \<Rightarrow> \<not> requiredCondition obj)
      then [componentKind @ '' ('' @ gw_Namespace gateway @ ''/'' @ gw_Name gateway @ '')''] else [])"

definition gatewayComponentsToSync ::
  "('o \<Rightarrow> string \<times> string) \<Rightarrow> gateway_ref \<Rightarrow> string \<times> string \<Rightarrow> string list option \<Rightarrow> 'o list \<Rightarrow> ('o \<Rightarrow> bool) \<Rightarrow> string list" where
  "gatewayComponentsToSync groupKind gateway componentGroupKind modified children requiredCondition =
     componentToSync gateway (snd componentGroupKind) modified
       (List.find (\<lambda>child. groupKind child = componentGroupKind) children) requiredCondition"

definition gatewayComponentsToSyncWithName ::
  "('o \<Rightarrow> string \<times> string) \<Rightarrow> ('o \<Rightarrow> string) \<Rightarrow> gateway_ref \<Rightarrow> string \<times> string \<Rightarrow> string \<Rightarrow> string list option \<Rightarrow> 'o list \<Rightarrow>
   ('o \<Rightarrow> bool) \<Rightarrow> string list" where
  "gatewayComponentsToSyncWithName groupKind nameOf gateway componentGroupKind componentName modified children requiredCondition =
     componentToSync gateway (snd componentGroupKind) modified
       (List.find (\<lambda>child. groupKind child = componentGroupKind \<and> nameOf child = componentName) children) requiredCondition"

section \<open>Merging specifications\<close>

definition predicatesKey :: "ConditionalData \<Rightarrow> string" where
  "predicatesKey cd = Join (cd_Predicates cd) ''|''"

definition sameTarget :: "ActionSpec \<Rightarrow> ActionSpec \<Rightarrow> bool" where
  "sameTarget a b \<longleftrightarrow> sp_Scope a = sp_Scope b \<and> sp_ServiceName a = sp_ServiceName b \<and> IsMergeableService (sp_ServiceName a)"

definition mergeInto :: "ActionSpec \<Rightarrow> ActionSpec \<Rightarrow> ActionSpec" where
  "mergeInto lastSpec current =
     lastSpec\<lparr>sp_ConditionalData := go_sort (\<lambda>a b. string_less (predicatesKey a) (predicatesKey b))
         (sp_ConditionalData lastSpec @ sp_ConditionalData current),
       sp_Sources := sort_strings (lo_Uniq (sp_Sources lastSpec @ sp_Sources current))\<rparr>"

definition mergeStep :: "ActionSpec list \<Rightarrow> ActionSpec \<Rightarrow> ActionSpec list" where
  "mergeStep result current =
     (if sameTarget (last result) current then butlast result @ [mergeInto (last result) current] else result @ [current])"

text \<open>The key and value of a datum; both stay empty for a value of another type.\<close>

fun data_entry :: "DataType \<Rightarrow> string \<times> string" where
  "data_entry (DataStatic v k) = (k, v)"
| "data_entry (DataExpression k v) = (k, v)"
| "data_entry DataOther = ([], [])"

fun verifyEntries :: "(string, string) gomap \<Rightarrow> (string \<times> string) list \<Rightarrow> string option" where
  "verifyEntries keyValueMap [] = None"
| "verifyEntries keyValueMap ((key, val) # rest) =
     (case map_of keyValueMap key of
        Some existingValue \<Rightarrow>
          if existingValue \<noteq> val then Some (''duplicate key '' @ [single_quote] @ key @ [single_quote] @ '' with different values found in action spec'')
          else verifyEntries keyValueMap rest
      | None \<Rightarrow> verifyEntries (gm_set key val keyValueMap) rest)"

definition spec_entries :: "ActionSpec \<Rightarrow> (string \<times> string) list" where
  "spec_entries spec = map data_entry (concat (map cd_Data (sp_ConditionalData spec)))"

fun verifySpecs :: "ActionSpec list \<Rightarrow> string option" where
  "verifySpecs [] = None"
| "verifySpecs (spec # specs) = (case verifyEntries [] (spec_entries spec) of Some err \<Rightarrow> Some err | None \<Rightarrow> verifySpecs specs)"

definition mergeAndVerifySpecs :: "ActionSpec list \<Rightarrow> string + ActionSpec list" where
  "mergeAndVerifySpecs specs =
     (if length specs = 0 then Inr []
      else let result = foldl mergeStep [hd specs] (tl specs)
           in case verifySpecs result of Some err \<Rightarrow> Inl err | None \<Rightarrow> Inr result)"

section \<open>Runs\<close>

fun spec_runs :: "ActionSpec list \<Rightarrow> ActionSpec list list" where
  "spec_runs [] = []"
| "spec_runs (s # ss) =
     (case spec_runs ss of [] \<Rightarrow> [[s]]
      | r # rs \<Rightarrow> if sameTarget s (hd r) then (s # r) # rs else [s] # r # rs)"

lemma spec_runs_Nil_iff [simp]: "spec_runs ss = [] \<longleftrightarrow> ss = []"
  by (cases ss) (auto split: list.splits)

lemma spec_runs_nonempty: "r \<in> set (spec_runs ss) \<Longrightarrow> r \<noteq> []"
  by (induction ss arbitrary: r) (auto split: list.splits if_splits)

lemma concat_spec_runs: "concat (spec_runs ss) = ss"
  by (induction ss) (auto split: list.splits)

lemma spec_runs_snoc:
  "ss \<noteq> [] \<Longrightarrow> spec_runs (ss @ [s]) =
     (if sameTarget (last ss) s then butlast (spec_runs ss) @ [last (spec_runs ss) @ [s]] else spec_runs ss @ [[s]])"
proof (induction ss)
  case (Cons a ss)
  show ?case
  proof (cases "ss = []")
    case False
    then obtain r rs where r: "spec_runs ss = r # rs" by (metis neq_Nil_conv spec_runs_Nil_iff)
    have "r \<noteq> []" using spec_runs_nonempty [of r ss] r by simp
    with Cons.IH [OF False] False r show ?thesis by (cases rs) auto
  qed simp
qed simp

text \<open>A specification that stands for a run.\<close>

definition run_merged :: "ActionSpec list \<Rightarrow> ActionSpec \<Rightarrow> bool" where
  "run_merged r s \<longleftrightarrow> r \<noteq> [] \<and> list_all (\<lambda>x. sp_Scope x = sp_Scope s \<and> sp_ServiceName x = sp_ServiceName s) r \<and>
     mset (sp_ConditionalData s) = mset (concat (map sp_ConditionalData r)) \<and>
     set (sp_Sources s) = \<Union> (set ` sp_Sources ` set r) \<and>
     (if length r = 1 then s = hd r
      else sorted (map predicatesKey (sp_ConditionalData s)) \<and> sorted (sp_Sources s) \<and> distinct (sp_Sources s))"

interpretation predicates: go_weak_order "\<lambda>a b. string_less (predicatesKey a) (predicatesKey b)"
  by unfold_locales (auto simp: string_less_def)

lemma run_merged_single: "run_merged [s] s"
  by (simp add: run_merged_def)

lemma run_merged_snoc:
  assumes "run_merged r s" "sameTarget s x"
  shows "run_merged (r @ [x]) (mergeInto s x)"
proof -
  have "sorted (map predicatesKey (sp_ConditionalData (mergeInto s x)))"
    using predicates.go_sort_sorted [of "sp_ConditionalData s @ sp_ConditionalData x"]
    by (simp add: mergeInto_def sorted_wrt_map string_less_def not_less)
  moreover have "distinct (sp_Sources (mergeInto s x))" "sorted (sp_Sources (mergeInto s x))"
    by (simp_all add: mergeInto_def sort_strings_def [symmetric] sorted_sort_strings) (simp add: sort_strings_def)
  ultimately show ?thesis
    using assms by (auto simp: run_merged_def sameTarget_def mergeInto_def list_all_iff)
qed

lemma foldl_mergeStep_runs:
  assumes "ss \<noteq> []"
  shows "list_all2 run_merged (spec_runs ss) (foldl mergeStep [hd ss] (tl ss))"
  using assms
proof (induction ss rule: rev_nonempty_induct)
  case (single x)
  then show ?case by (simp add: run_merged_single)
next
  case (snoc x xs)
  let ?res = "foldl mergeStep [hd xs] (tl xs)"
  have IH: "list_all2 run_merged (spec_runs xs) ?res" using snoc by simp
  then have ne: "?res \<noteq> []" using snoc(1) by (metis list_all2_Nil2 spec_runs_Nil_iff)
  have split: "spec_runs xs = butlast (spec_runs xs) @ [last (spec_runs xs)]" "?res = butlast ?res @ [last ?res]"
    using snoc(1) ne by simp_all
  have "length (butlast (spec_runs xs)) = length (butlast ?res)" using list_all2_lengthD [OF IH] by simp
  moreover have "list_all2 run_merged (butlast (spec_runs xs) @ [last (spec_runs xs)]) (butlast ?res @ [last ?res])"
    using IH split by simp
  ultimately have parts: "list_all2 run_merged (butlast (spec_runs xs)) (butlast ?res)" "run_merged (last (spec_runs xs)) (last ?res)"
    by (simp_all add: list_all2_append)
  have ne': "last (spec_runs xs) \<noteq> []" using parts(2) by (simp add: run_merged_def)
  have "concat (butlast (spec_runs xs) @ [last (spec_runs xs)]) = xs"
    using concat_spec_runs [of xs] split(1) by simp
  then have "last (concat (butlast (spec_runs xs)) @ last (spec_runs xs)) = last xs" by simp
  then have "last xs = last (last (spec_runs xs))" using ne' by simp
  then have same: "sameTarget (last xs) x \<longleftrightarrow> sameTarget (last ?res) x"
    using parts(2) ne' by (auto simp: run_merged_def sameTarget_def list_all_iff)
  have step: "foldl mergeStep [hd (xs @ [x])] (tl (xs @ [x])) = mergeStep ?res x" using snoc(1) by simp
  show ?case
  proof (cases "sameTarget (last xs) x")
    case True
    then show ?thesis
      unfolding step spec_runs_snoc [OF snoc(1)] mergeStep_def [of ?res] using parts same run_merged_snoc
      by (simp add: list_all2_appendI)
  next
    case False
    then show ?thesis
      unfolding step spec_runs_snoc [OF snoc(1)] mergeStep_def [of ?res] using IH same
      by (simp add: list_all2_appendI run_merged_single)
  qed
qed

section \<open>One value per key\<close>

definition one_value_per_key :: "(string \<times> string) list \<Rightarrow> bool" where
  "one_value_per_key es \<longleftrightarrow> list_all (\<lambda>e. list_all (\<lambda>f. fst f = fst e \<longrightarrow> snd f = snd e) es) es"

lemma one_value_Cons:
  "one_value_per_key (e # es) \<longleftrightarrow> one_value_per_key es \<and> list_all (\<lambda>f. fst f = fst e \<longrightarrow> snd f = snd e) es"
  by (auto simp: one_value_per_key_def list_all_iff)

lemma verifyEntries_iff:
  "verifyEntries m es = None \<longleftrightarrow> list_all (\<lambda>e. map_of m (fst e) \<in> {None, Some (snd e)}) es \<and> one_value_per_key es"
proof (induction es arbitrary: m)
  case Nil
  then show ?case by (simp add: one_value_per_key_def)
next
  case (Cons e rest)
  obtain k v where e: "e = (k, v)" by fastforce
  consider "map_of m k = None" | "map_of m k = Some v" | w where "map_of m k = Some w" "w \<noteq> v" by (cases "map_of m k") auto
  then show ?case
  proof cases
    case 1
    then have "list_all (\<lambda>e. map_of (gm_set k v m) (fst e) \<in> {None, Some (snd e)}) rest \<longleftrightarrow>
        list_all (\<lambda>e. map_of m (fst e) \<in> {None, Some (snd e)}) rest \<and> list_all (\<lambda>f. fst f = k \<longrightarrow> snd f = v) rest"
      by (auto simp: list_all_iff)
    with 1 Cons.IH [of "gm_set k v m"] e show ?thesis by (auto simp: one_value_Cons)
  next
    case 2
    then have "list_all (\<lambda>f. fst f = k \<longrightarrow> snd f = v) rest" if "list_all (\<lambda>e. map_of m (fst e) \<in> {None, Some (snd e)}) rest"
      using that by (auto simp: list_all_iff)
    with 2 Cons.IH [of m] e show ?thesis by (auto simp: one_value_Cons)
  next
    case 3
    with e show ?thesis by simp
  qed
qed

lemma verifySpecs_iff: "verifySpecs ss = None \<longleftrightarrow> list_all (\<lambda>s. one_value_per_key (spec_entries s)) ss"
proof (induction ss)
  case (Cons s ss)
  have "verifyEntries [] (spec_entries s) = None \<longleftrightarrow> one_value_per_key (spec_entries s)"
    by (simp add: verifyEntries_iff list_all_iff)
  with Cons show ?case by (cases "verifyEntries [] (spec_entries s)") auto
qed simp

lemma one_value_set: "set xs = set ys \<Longrightarrow> one_value_per_key xs = one_value_per_key ys"
  by (simp add: one_value_per_key_def list_all_iff)

lemma set_spec_entries: "set (spec_entries s) = (\<Union>cd\<in>set (sp_ConditionalData s). data_entry ` set (cd_Data cd))"
  by (force simp: spec_entries_def)

lemma run_merged_entries:
  assumes "run_merged r s"
  shows "set (spec_entries s) = set (concat (map spec_entries r))"
proof -
  have "set (sp_ConditionalData s) = (\<Union>a\<in>set r. set (sp_ConditionalData a))"
    using assms mset_eq_setD [of "sp_ConditionalData s" "concat (map sp_ConditionalData r)"] by (simp add: run_merged_def)
  then show ?thesis by (simp add: set_spec_entries)
qed

lemma list_all2_right: "list_all2 P xs ys \<Longrightarrow> y \<in> set ys \<Longrightarrow> \<exists>x \<in> set xs. P x y"
  by (induction rule: list_all2_induct) auto

lemma mergeAndVerify_cases:
  "case mergeAndVerifySpecs specs of
     Inr result \<Rightarrow> list_all2 run_merged (spec_runs specs) result \<and> list_all (\<lambda>s. one_value_per_key (spec_entries s)) result
   | Inl err \<Rightarrow> list_ex (\<lambda>r. \<not> one_value_per_key (concat (map spec_entries r))) (spec_runs specs)"
proof (cases "specs = []")
  case False
  let ?res = "foldl mergeStep [hd specs] (tl specs)"
  note runs = foldl_mergeStep_runs [OF False]
  show ?thesis
  proof (cases "verifySpecs ?res")
    case None
    with False runs verifySpecs_iff [of ?res] show ?thesis by (simp add: mergeAndVerifySpecs_def Let_def)
  next
    case (Some err)
    then obtain s where s: "s \<in> set ?res" "\<not> one_value_per_key (spec_entries s)"
      using verifySpecs_iff [of ?res] by (auto simp: list_all_iff)
    obtain r where "r \<in> set (spec_runs specs)" "run_merged r s"
      using list_all2_right [OF runs s(1)] by blast
    with s one_value_set [OF run_merged_entries] False Some show ?thesis
      by (auto simp: mergeAndVerifySpecs_def Let_def list_ex_iff)
  qed
qed (simp add: mergeAndVerifySpecs_def)

text \<open>
  Merging specifications either fails or gives one specification per run of neighbours for
  the same scope of the same mergeable service: with all their conditional data in the order of
  the predicates, and with their sources sorted and without repetition; a run of one is left as it
  is.  It fails exactly when a data key has two values within a run.
\<close>

theorem mergeAndVerifySpecs_runs:
  "case mergeAndVerifySpecs specs of
     Inr result \<Rightarrow> list_all2 run_merged (spec_runs specs) result \<and>
       list_all (\<lambda>r. one_value_per_key (concat (map spec_entries r))) (spec_runs specs)
   | Inl err \<Rightarrow> list_ex (\<lambda>r. \<not> one_value_per_key (concat (map spec_entries r))) (spec_runs specs)"
proof -
  have "list_all (\<lambda>r. one_value_per_key (concat (map spec_entries r))) rs"
    if "list_all2 run_merged rs ss" "list_all (\<lambda>s. one_value_per_key (spec_entries s)) ss" for rs ss
    using that by (induction rule: list_all2_induct) (auto simp: one_value_set [OF run_merged_entries])
  then show ?thesis using mergeAndVerify_cases [of specs] by (auto split: sum.splits)
qed

section \<open>Merging the specifications of an effective policy\<close>

text \<open>
  A counter is sent under its own expression.  Unless a counter's expression is the identifier of
  a limit, the specifications of rate limits never conflict.
\<close>

definition rate_limit_spec :: "ActionSpec \<Rightarrow> bool" where
  "rate_limit_spec s \<longleftrightarrow> (\<exists>l i scope src top. s = wasmActionSpecFromLimit l i scope src top \<and> HasPrefix i ''limit.'' \<and>
     list_all (\<lambda>c. \<not> HasPrefix (counter_Expression c) ''limit.'') (limit_Counters l))"

lemma rate_limit_spec_entries:
  "rate_limit_spec s \<Longrightarrow> e \<in> set (spec_entries s) \<Longrightarrow> snd e = (if HasPrefix (fst e) ''limit.'' then ''1'' else fst e)"
  by (auto simp: rate_limit_spec_def set_spec_entries wasmActionSpecFromLimit_def wasmDataFromLimit_def no_spec_def list_all_iff)

lemma rate_limit_specs_merge:
  assumes "list_all rate_limit_spec specs"
  shows "\<exists>result. mergeAndVerifySpecs specs = Inr result"
proof (cases "mergeAndVerifySpecs specs")
  case (Inl err)
  with mergeAndVerify_cases [of specs] obtain r where r: "r \<in> set (spec_runs specs)" "\<not> one_value_per_key (concat (map spec_entries r))"
    by (auto simp: list_ex_iff)
  have "set r \<subseteq> set specs" using r(1) concat_spec_runs [of specs] by (metis UN_upper set_concat)
  have "snd e = (if HasPrefix (fst e) ''limit.'' then ''1'' else fst e)" if "e \<in> set (concat (map spec_entries r))" for e
  proof -
    from that obtain s where s: "s \<in> set r" "e \<in> set (spec_entries s)" by auto
    with \<open>set r \<subseteq> set specs\<close> assms have "rate_limit_spec s" by (auto simp: list_all_iff)
    then show ?thesis by (rule rate_limit_spec_entries) (fact s(2))
  qed
  then have "one_value_per_key (concat (map spec_entries r))" unfolding one_value_per_key_def list_all_iff by auto
  with r(2) show ?thesis by contradiction
qed simp

end
