(* ===== verification/Policy_Enforcement.thy ===== *)
theory Policy_Enforcement
  imports Data_Plane_Workflow
begin

text \<open>
  The status of the data plane policies: whether a policy is enforced
  (\<open>enforcedCondition\<close> of \<open>internal/controller/auth_policy_status_updater.go\<close>,
  \<open>ratelimit_policy_status_updater.go\<close> and \<open>tokenratelimitpolicy_status_updater.go\<close>) and the
  loops that write the status (\<open>UpdateStatus\<close>).

  \<open>enforcement_view\<close> is what is read of the topology besides \<open>topo_view\<close>,
  \<open>enforcement_state\<close> the keys of the workflow state that other tasks store.  Parameters:
  \<open>isTrue\<close>, \<open>setCond\<close> and \<open>removeCond\<close> are \<open>meta.IsStatusConditionTrue\<close>,
  \<open>meta.SetStatusCondition\<close> and \<open>meta.RemoveStatusCondition\<close>.  Maps are walked in the order of
  their lists, where Go's order is unspecified.
\<close>

section \<open>What is read of the topology and of the state\<close>

record topo_object =
  to_GroupKind :: "string \<times> string"
  to_Namespace :: string
  to_Name :: string
  to_Conditions :: "Condition list"
  to_Ancestors :: "PolicyAncestorStatus list"
  to_ReservationsEnabled :: bool

record Kuadrant =
  kd_Name :: string
  kd_Deleted :: bool
  kd_Mode :: string

record enforcement_view =
  ev_Roots :: "Kuadrant list"
  ev_OlderKuadrant :: "Kuadrant \<Rightarrow> Kuadrant \<Rightarrow> bool"
  ev_KuadrantChildren :: "Kuadrant \<Rightarrow> topo_object list"
  ev_GatewayChildren :: "Gateway \<Rightarrow> topo_object list"
  ev_RuleChildren :: "targetable \<Rightarrow> topo_object list"
  ev_GatewayLocator :: "Gateway \<Rightarrow> string"
  ev_ControllerName :: "GatewayClass \<Rightarrow> string"
  ev_Deleting :: "targetable \<Rightarrow> bool"

record enforcement_state =
  es_Kuadrant :: "Kuadrant option"
  es_ModifiedAuthConfigs :: "string list option"
  es_IstioAuthClustersModified :: "string list option"
  es_EnvoyGatewayAuthClustersModified :: "string list option"
  es_IstioRateLimitClustersModified :: "string list option"
  es_EnvoyGatewayRateLimitClustersModified :: "string list option"
  es_IstioExtensionsModified :: "string list option"
  es_EnvoyGatewayExtensionsModified :: "string list option"
  es_LimitadorLimitsModified :: "bool option"
  es_CELValidationErrors :: "IssueCollection option"

type_synonym is_true = "Condition list \<Rightarrow> string \<Rightarrow> bool"

text \<open>The oldest Kuadrant resource that is not being deleted, cached in the state.\<close>

definition GetKuadrantFromTopology :: "enforcement_view \<Rightarrow> enforcement_state \<Rightarrow> Kuadrant option" where
  "GetKuadrantFromTopology ev es =
     (case es_Kuadrant es of Some k \<Rightarrow> Some k
      | None \<Rightarrow>
        (let kuadrants = filter (\<lambda>k. \<not> kd_Deleted k) (ev_Roots ev)
         in if length kuadrants = 0 then None else Some (hd (go_sort (ev_OlderKuadrant ev) kuadrants))))"

definition GetTokenRateLimitingMode :: "Kuadrant option \<Rightarrow> string" where
  "GetTokenRateLimitingMode k =
     (case k of None \<Rightarrow> ''Reservation'' | Some k \<Rightarrow> if kd_Mode k = [] then ''Reservation'' else kd_Mode k)"

definition LimitadorGroupKind :: "string \<times> string" where "LimitadorGroupKind = (''limitador.kuadrant.io'', ''Limitador'')"
definition AuthorinoGroupKind :: "string \<times> string" where "AuthorinoGroupKind = (''operator.authorino.kuadrant.io'', ''Authorino'')"
definition AuthConfigGroupKind :: "string \<times> string" where "AuthConfigGroupKind = (''authorino.kuadrant.io'', ''AuthConfig'')"
definition EnvoyFilterGroupKind :: "string \<times> string" where "EnvoyFilterGroupKind = (''networking.istio.io'', ''EnvoyFilter'')"
definition EnvoyPatchPolicyGroupKind :: "string \<times> string" where
  "EnvoyPatchPolicyGroupKind = (''gateway.envoyproxy.io'', ''EnvoyPatchPolicy'')"
definition EnvoyExtensionPolicyGroupKind :: "string \<times> string" where
  "EnvoyExtensionPolicyGroupKind = (''gateway.envoyproxy.io'', ''EnvoyExtensionPolicy'')"

definition GetLimitadorFromTopology :: "enforcement_view \<Rightarrow> enforcement_state \<Rightarrow> topo_object option" where
  "GetLimitadorFromTopology ev es =
     (case GetKuadrantFromTopology ev es of None \<Rightarrow> None
      | Some k \<Rightarrow> List.find (\<lambda>child. to_GroupKind child = LimitadorGroupKind) (ev_KuadrantChildren ev k))"

definition GetAuthorinoFromTopology :: "enforcement_view \<Rightarrow> enforcement_state \<Rightarrow> topo_object option" where
  "GetAuthorinoFromTopology ev es =
     (case GetKuadrantFromTopology ev es of None \<Rightarrow> None
      | Some k \<Rightarrow> List.find (\<lambda>child. to_GroupKind child = AuthorinoGroupKind) (ev_KuadrantChildren ev k))"

section \<open>Rules in the effective policies\<close>

text \<open>
  The maps that \<open>enforcedCondition\<close> fills: the overriding policies of each rule key, and the
  gateways (with their class) and route rules that the policy affects.
\<close>

record affected =
  aff_Gateways :: "(string, Gateway \<times> GatewayClass) gomap"
  aff_HTTPRules :: "(string, targetable) gomap"
  aff_GRPCRules :: "(string, targetable) gomap"

record tracking =
  trk_Overriding :: "(string, string list) gomap"
  trk_Affected :: affected
  trk_CelErrors :: "go_error list"

definition no_tracking :: tracking where
  "no_tracking = \<lparr>trk_Overriding = [], trk_Affected = \<lparr>aff_Gateways = [], aff_HTTPRules = [], aff_GRPCRules = []\<rparr>, trk_CelErrors = []\<rparr>"

definition trackRule ::
  "('r \<Rightarrow> string) \<Rightarrow> (string, 'r) gomap \<Rightarrow> string list \<Rightarrow> string \<Rightarrow> (affected \<Rightarrow> affected) \<Rightarrow> tracking \<Rightarrow> string \<Rightarrow> tracking" where
  "trackRule getSource effectivePolicyRules sourcePolicies policyLocator setAffected t policyRuleKey =
     (let overriding = Deref (map_of (trk_Overriding t) policyRuleKey) []
      in case map_of effectivePolicyRules policyRuleKey of
           Some effectivePolicyRule \<Rightarrow>
             if getSource effectivePolicyRule \<noteq> policyLocator
             then t\<lparr>trk_Overriding := gm_set policyRuleKey (overriding @ [getSource effectivePolicyRule]) (trk_Overriding t)\<rparr>
             else t\<lparr>trk_Affected := setAffected (trk_Affected t)\<rparr>
         | None \<Rightarrow> t\<lparr>trk_Overriding := gm_set policyRuleKey (overriding @ sourcePolicies) (trk_Overriding t)\<rparr>)"

text \<open>The issues recorded for a path, appended to the errors found so far.\<close>

definition addCelErrors :: "enforcement_state \<Rightarrow> string \<Rightarrow> string \<Rightarrow> tracking \<Rightarrow> tracking" where
  "addCelErrors es policyKind pathID t =
     (case es_CELValidationErrors es of None \<Rightarrow> t
      | Some collection \<Rightarrow>
        (case IssueCollection_GetByPolicyKind collection policyKind of None \<Rightarrow> t
         | Some byPathID \<Rightarrow>
           (case map_of byPathID pathID of None \<Rightarrow> t
            | Some issues \<Rightarrow> t\<lparr>trk_CelErrors := trk_CelErrors t @ map issue_err issues\<rparr>)))"

text \<open>
  The checks on a parsed path: nothing on it is being deleted, the listener is programmed and the
  route accepted.  A parsed path has all its objects.
\<close>

definition pathReady :: "is_true \<Rightarrow> enforcement_view \<Rightarrow> ParsedTopologyPath \<Rightarrow> bool" where
  "pathReady isTrue ev parsed =
     (case (ptp_GatewayClass parsed, ptp_Gateway parsed, ptp_Listener parsed) of
        (Some gc, Some gw, Some listener) \<Rightarrow>
          \<not> ev_Deleting ev (TGatewayClass (Some gc)) \<and> \<not> ev_Deleting ev (TGateway (Some gw)) \<and>
          IsListenerReady isTrue (tl_Listener listener) gw \<and>
          (case ptp_RouteType parsed of
             RouteTypeHTTP \<Rightarrow> (case ptp_HTTPRoute parsed of Some r \<Rightarrow>
                 \<not> ev_Deleting ev (THTTPRoute (Some r)) \<and> IsHTTPRouteReady isTrue (tr_Route r) gw (ev_ControllerName ev gc) | None \<Rightarrow> False)
           | RouteTypeGRPC \<Rightarrow> (case ptp_GRPCRoute parsed of Some r \<Rightarrow>
                 \<not> ev_Deleting ev (TGRPCRoute (Some r)) \<and>
                 IsGRPCRouteReady isTrue (tr_Route r) gw (tl_Listener listener) (ev_ControllerName ev gc) | None \<Rightarrow> False)
           | RouteTypeUnknown \<Rightarrow> True)
      | _ \<Rightarrow> False)"

definition markGateway :: "enforcement_view \<Rightarrow> Gateway \<Rightarrow> GatewayClass \<Rightarrow> affected \<Rightarrow> affected" where
  "markGateway ev gw gc a = a\<lparr>aff_Gateways := gm_set (ev_GatewayLocator ev gw) (gw, gc) (aff_Gateways a)\<rparr>"

definition markParsed :: "enforcement_view \<Rightarrow> ParsedTopologyPath \<Rightarrow> affected \<Rightarrow> affected" where
  "markParsed ev parsed a =
     (case (ptp_Gateway parsed, ptp_GatewayClass parsed) of (Some gw, Some gc) \<Rightarrow> markGateway ev gw gc a | _ \<Rightarrow> a)"

definition setAffectedHTTPObjects :: "enforcement_view \<Rightarrow> string \<Rightarrow> ParsedTopologyPath \<Rightarrow> affected \<Rightarrow> affected" where
  "setAffectedHTTPObjects ev pathID parsed a =
     (case ptp_HTTPRouteRule parsed of Some rule \<Rightarrow>
        (markParsed ev parsed a)\<lparr>aff_HTTPRules := gm_set pathID (THTTPRouteRule (Some rule)) (aff_HTTPRules a)\<rparr>
      | None \<Rightarrow> markParsed ev parsed a)"

definition setAffectedGRPCObjects :: "enforcement_view \<Rightarrow> string \<Rightarrow> ParsedTopologyPath \<Rightarrow> affected \<Rightarrow> affected" where
  "setAffectedGRPCObjects ev pathID parsed a =
     (case ptp_GRPCRouteRule parsed of Some rule \<Rightarrow>
        (markParsed ev parsed a)\<lparr>aff_GRPCRules := gm_set pathID (TGRPCRouteRule (Some rule)) (aff_GRPCRules a)\<rparr>
      | None \<Rightarrow> markParsed ev parsed a)"

definition inPath :: "locator_fun \<Rightarrow> 's topo_view \<Rightarrow> string \<Rightarrow> targetable list \<Rightarrow> bool" where
  "inPath locator topo policyLocator path \<longleftrightarrow>
     length (pathPolicies topo (\<lambda>p. policy_locator locator (pol p) = policyLocator) path) \<noteq> 0"

definition trackAuthPath ::
  "is_true \<Rightarrow> (string \<Rightarrow> string \<Rightarrow> string) \<Rightarrow> locator_fun \<Rightarrow> 's topo_view \<Rightarrow> enforcement_view \<Rightarrow> enforcement_state \<Rightarrow> string list \<Rightarrow> string \<Rightarrow>
   tracking \<Rightarrow> string \<times> 's AuthPolicy EffectivePolicy \<Rightarrow> tracking" where
  "trackAuthPath isTrue nn locator topo ev es policyRuleKeys policyLocator t entry =
     (case entry of (pathID, effectivePolicy) \<Rightarrow>
      if \<not> inPath locator topo policyLocator (ep_Path effectivePolicy) then t
      else let t = addCelErrors es AuthPolicyKind (pathIDOf nn topo (ep_Path effectivePolicy)) t
        in case ParseTopologyPath (ep_Path effectivePolicy) of Inl err \<Rightarrow> t
         | Inr parsed \<Rightarrow>
           if \<not> pathReady isTrue ev parsed then t
           else let effectivePolicyRules = AuthPolicy_Rules locator (ep_Spec effectivePolicy);
                    setAffected = (if ptp_RouteType parsed = RouteTypeHTTP then setAffectedHTTPObjects ev pathID parsed
                      else setAffectedGRPCObjects ev pathID parsed)
                in if length effectivePolicyRules > 0
                   then foldl (trackRule auth_GetSource effectivePolicyRules (ep_SourcePolicies effectivePolicy) policyLocator setAffected)
                          t policyRuleKeys
                   else t\<lparr>trk_Affected := setAffected (trk_Affected t)\<rparr>)"

definition trackRateLimitPath ::
  "is_true \<Rightarrow> (string \<Rightarrow> string \<Rightarrow> string) \<Rightarrow> locator_fun \<Rightarrow> 's topo_view \<Rightarrow> enforcement_view \<Rightarrow> enforcement_state \<Rightarrow> string list \<Rightarrow> string \<Rightarrow>
   tracking \<Rightarrow> RateLimitPolicy EffectivePolicy \<Rightarrow> tracking" where
  "trackRateLimitPath isTrue nn locator topo ev es policyRuleKeys policyLocator t effectivePolicy =
     (if \<not> inPath locator topo policyLocator (ep_Path effectivePolicy) then t
      else let t = addCelErrors es RateLimitPolicyKind (pathIDOf nn topo (ep_Path effectivePolicy)) t
        in case ParseTopologyPath (ep_Path effectivePolicy) of Inl err \<Rightarrow> t
         | Inr parsed \<Rightarrow>
           if \<not> pathReady isTrue ev parsed then t
           else foldl (trackRule rlp_GetSource (RateLimitPolicy_Rules locator (ep_Spec effectivePolicy)) (ep_SourcePolicies effectivePolicy)
                  policyLocator (markParsed ev parsed)) t policyRuleKeys)"

text \<open>
  The variant for token rate limit policies ignores the error of \<open>ObjectsInRequestPath\<close>: on a
  path that is not valid it dereferences a nil object, unless the listener it finds is not ready.
\<close>

definition trackTokenRateLimitPath ::
  "is_true \<Rightarrow> (string \<Rightarrow> string \<Rightarrow> string) \<Rightarrow> locator_fun \<Rightarrow> 's topo_view \<Rightarrow> enforcement_view \<Rightarrow> enforcement_state \<Rightarrow> string list \<Rightarrow> string \<Rightarrow>
   tracking \<Rightarrow> TokenRateLimitPolicy EffectivePolicy \<Rightarrow> tracking go_result" where
  "trackTokenRateLimitPath isTrue nn locator topo ev es policyRuleKeys policyLocator t effectivePolicy =
     (if \<not> inPath locator topo policyLocator (ep_Path effectivePolicy) then Return t
      else let t = addCelErrors es TokenRateLimitPolicyKind (pathIDOf nn topo (ep_Path effectivePolicy)) t;
               ob = ObjectsInRequestPath (ep_Path effectivePolicy)
        in case (po_Listener ob, po_Gateway ob) of
             (Some listener, Some gateway) \<Rightarrow>
               if \<not> IsListenerReady isTrue (tl_Listener listener) gateway then Return t
               else (case (po_Route ob, po_GatewayClass ob) of
                 (Some httpRoute, Some gatewayClass) \<Rightarrow>
                   if \<not> IsHTTPRouteReady isTrue (tr_Route httpRoute) gateway (ev_ControllerName ev gatewayClass) then Return t
                   else Return (foldl (trackRule trlp_GetSource (TokenRateLimitPolicy_Rules locator (ep_Spec effectivePolicy))
                     (ep_SourcePolicies effectivePolicy) policyLocator (markGateway ev gateway gatewayClass)) t policyRuleKeys)
               | _ \<Rightarrow> Panic ''nil pointer dereference'')
           | _ \<Rightarrow> Panic ''nil pointer dereference'')"

section \<open>Components of the gateways\<close>

definition gatewayAncestor :: "Gateway \<Rightarrow> ParentReference" where
  "gatewayAncestor gw = \<lparr>parent_Group = None, parent_Kind = None, parent_Namespace = Some (gateway_Namespace gw),
     parent_Name = gateway_Name gw, parent_SectionName = None, parent_Port = None\<rparr>"

definition gatewayConfigToSync ::
  "is_true \<Rightarrow> environment \<Rightarrow> enforcement_view \<Rightarrow> (string \<Rightarrow> string) \<Rightarrow> string list option \<Rightarrow> string list option \<Rightarrow> string list option \<Rightarrow>
   string list option \<Rightarrow> Gateway \<times> GatewayClass \<Rightarrow> string list" where
  "gatewayConfigToSync isTrue env ev clusterName istioClusters istioExtensions envoyGatewayClusters envoyGatewayExtensions g =
     (let gw = fst g;
          controllerName = ev_ControllerName ev (snd g);
          gateway = \<lparr>gw_Namespace = gateway_Namespace gw, gw_Name = gateway_Name gw, gw_Locator = ev_GatewayLocator ev gw\<rparr>;
          children = ev_GatewayChildren ev gw;
          ancestorTrue = (\<lambda>condition obj. isTrue (PolicyStatusConditionsFromAncestor (to_Ancestors obj) controllerName
            (gatewayAncestor gw) (to_Namespace obj)) condition)
      in if defaultGatewayControllerName env controllerName = defaultIstioGatewayControllerName
         then gatewayComponentsToSyncWithName to_GroupKind to_Name gateway EnvoyFilterGroupKind (clusterName (gateway_Name gw))
                istioClusters children (\<lambda>_. True) @
              gatewayComponentsToSyncWithName to_GroupKind to_Name gateway EnvoyFilterGroupKind (ExtensionName (gateway_Name gw))
                istioExtensions children (\<lambda>_. True)
         else if defaultGatewayControllerName env controllerName = defaultEnvoyGatewayGatewayControllerName
         then gatewayComponentsToSync to_GroupKind gateway EnvoyPatchPolicyGroupKind envoyGatewayClusters children (ancestorTrue ''Programmed'') @
              gatewayComponentsToSync to_GroupKind gateway EnvoyExtensionPolicyGroupKind envoyGatewayExtensions children (ancestorTrue ''Accepted'')
         else [''Gateway ('' @ gateway_Namespace gw @ ''/'' @ gateway_Name gw @ '')''])"

definition authConfigReadyStatus :: "find_cond \<Rightarrow> topo_object \<Rightarrow> bool" where
  "authConfigReadyStatus findCond authConfig =
     (case findCond (to_Conditions authConfig) ''Ready'' of None \<Rightarrow> False | Some condition \<Rightarrow> cond_Status condition = ''True'')"

definition authConfigReadyStatusFunc :: "find_cond \<Rightarrow> enforcement_state \<Rightarrow> topo_object \<Rightarrow> bool" where
  "authConfigReadyStatusFunc findCond es authConfig =
     (case es_ModifiedAuthConfigs es of None \<Rightarrow> authConfigReadyStatus findCond authConfig
      | Some modified \<Rightarrow> if to_Name authConfig \<in> set modified then False else authConfigReadyStatus findCond authConfig)"

definition authConfigsToSync ::
  "find_cond \<Rightarrow> (string \<Rightarrow> string) \<Rightarrow> enforcement_view \<Rightarrow> enforcement_state \<Rightarrow> (string, targetable) gomap \<Rightarrow> string list" where
  "authConfigsToSync findCond sha ev es rules =
     concat (map (\<lambda>(pathID, rule).
       let authConfigName = AuthConfigNameForPath sha pathID
       in case List.find (\<lambda>o'. to_GroupKind o' = AuthConfigGroupKind \<and> to_Name o' = authConfigName) (ev_RuleChildren ev rule) of
            Some authConfig \<Rightarrow> if authConfigReadyStatusFunc findCond es authConfig then [] else [''AuthConfig ('' @ authConfigName @ '')'']
          | None \<Rightarrow> [''AuthConfig ('' @ authConfigName @ '')'']) rules)"

section \<open>The enforced condition\<close>

definition overridingPoliciesKeys :: "(string, string list) gomap \<Rightarrow> (string \<times> string) list" where
  "overridingPoliciesKeys overriding = List.map_filter (\<lambda>policyLocator.
     case NamespacedNameFromLocator policyLocator of Inr policyKey \<Rightarrow> Some policyKey | Inl err \<Rightarrow> None)
     (lo_Uniq (concat (map snd overriding)))"

text \<open>The answers when no gateway is affected, and the last part of the function.\<close>

definition notAffected :: "string \<Rightarrow> tracking \<Rightarrow> policy_error" where
  "notAffected policyKind t =
     (if length (trk_Overriding t) = 0 then ErrNoRoutes policyKind
      else ErrOverridden policyKind (overridingPoliciesKeys (trk_Overriding t)))"

definition lastChecks :: "(string \<Rightarrow> string \<Rightarrow> string) \<Rightarrow> string \<Rightarrow> tracking \<Rightarrow> string list \<Rightarrow> Condition" where
  "lastChecks nn policyKind t componentsToSync =
     (if length (trk_CelErrors t) > 0 then EnforcedCondition nn policyKind (Some (ErrCelValidation (trk_CelErrors t))) False
      else if length componentsToSync > 0 then EnforcedCondition nn policyKind (Some (ErrOutOfSync policyKind componentsToSync)) False
      else EnforcedCondition nn policyKind None (length (trk_Overriding t) = 0))"

definition AuthPolicyStatusUpdater_enforcedCondition ::
  "is_true \<Rightarrow> find_cond \<Rightarrow> environment \<Rightarrow> (string \<Rightarrow> string) \<Rightarrow> (string \<Rightarrow> string \<Rightarrow> string) \<Rightarrow> locator_fun \<Rightarrow> 's topo_view \<Rightarrow>
   enforcement_view \<Rightarrow> enforcement_state \<Rightarrow> 's workflow_state \<Rightarrow> 's AuthPolicy \<Rightarrow> Condition" where
  "AuthPolicyStatusUpdater_enforcedCondition isTrue findCond env sha nn locator topo ev es st policy =
     (case GetKuadrantFromTopology ev es of
        None \<Rightarrow> EnforcedCondition nn AuthPolicyKind (Some (ErrSystemResource ''kuadrant'')) False
      | Some kObj \<Rightarrow>
     (case st_EffectiveAuthPolicies st of
        None \<Rightarrow> EnforcedCondition nn AuthPolicyKind (Some (ErrUnknown AuthPolicyKind
          (ForeignError ''missing auth effective policies stored in the reconciliation state'' False))) False
      | Some effectivePolicies \<Rightarrow>
        (let t = foldl (trackAuthPath isTrue nn locator topo ev es (map fst (AuthPolicy_Rules locator policy))
               (AuthPolicy_GetLocator locator policy)) no_tracking effectivePolicies
         in if length (aff_Gateways (trk_Affected t)) = 0 then EnforcedCondition nn AuthPolicyKind (Some (notAffected AuthPolicyKind t)) False
            else case GetAuthorinoFromTopology ev es of
              None \<Rightarrow> EnforcedCondition nn AuthPolicyKind (Some (ErrSystemResource ''authornio'')) False
            | Some authorino \<Rightarrow>
              lastChecks nn AuthPolicyKind t
                ((if \<not> isTrue (to_Conditions authorino) ''Ready'' then [''Authorino''] else []) @
                 authConfigsToSync findCond sha ev es (aff_HTTPRules (trk_Affected t)) @
                 authConfigsToSync findCond sha ev es (aff_GRPCRules (trk_Affected t)) @
                 concat (map (\<lambda>(l, g). gatewayConfigToSync isTrue env ev AuthClusterName (es_IstioAuthClustersModified es)
                   (es_IstioExtensionsModified es) (es_EnvoyGatewayAuthClustersModified es) (es_EnvoyGatewayExtensionsModified es) g)
                   (aff_Gateways (trk_Affected t)))))))"

text \<open>Limitador's part, shared by the two kinds of rate limits: an error or the components to sync.\<close>

definition limitadorToSync ::
  "is_true \<Rightarrow> enforcement_view \<Rightarrow> enforcement_state \<Rightarrow> (topo_object \<Rightarrow> policy_error option) \<Rightarrow> policy_error + string list" where
  "limitadorToSync isTrue ev es extraCheck =
     (if es_LimitadorLimitsModified es = Some True then Inr [''Limitador'']
      else case GetLimitadorFromTopology ev es of None \<Rightarrow> Inl (ErrSystemResource ''limitador'')
       | Some limitador \<Rightarrow>
         (case extraCheck limitador of Some err \<Rightarrow> Inl err
          | None \<Rightarrow> Inr (if \<not> isTrue (to_Conditions limitador) ''Ready'' then [''Limitador''] else [])))"

definition rateLimitGatewaysToSync :: "is_true \<Rightarrow> environment \<Rightarrow> enforcement_view \<Rightarrow> enforcement_state \<Rightarrow> affected \<Rightarrow> string list" where
  "rateLimitGatewaysToSync isTrue env ev es a =
     concat (map (\<lambda>(l, g). gatewayConfigToSync isTrue env ev RateLimitClusterName (es_IstioRateLimitClustersModified es)
       (es_IstioExtensionsModified es) (es_EnvoyGatewayRateLimitClustersModified es) (es_EnvoyGatewayExtensionsModified es) g)
       (aff_Gateways a))"

definition RateLimitPolicyStatusUpdater_enforcedCondition ::
  "is_true \<Rightarrow> environment \<Rightarrow> (string \<Rightarrow> string \<Rightarrow> string) \<Rightarrow> locator_fun \<Rightarrow> 's topo_view \<Rightarrow>
   enforcement_view \<Rightarrow> enforcement_state \<Rightarrow> 's workflow_state \<Rightarrow> RateLimitPolicy \<Rightarrow> Condition" where
  "RateLimitPolicyStatusUpdater_enforcedCondition isTrue env nn locator topo ev es st policy =
     (case GetKuadrantFromTopology ev es of
        None \<Rightarrow> EnforcedCondition nn RateLimitPolicyKind (Some (ErrSystemResource ''kuadrant'')) False
      | Some kObj \<Rightarrow>
     (case st_EffectiveRateLimitPolicies st of
        None \<Rightarrow> EnforcedCondition nn RateLimitPolicyKind (Some (ErrUnknown RateLimitPolicyKind
          (ForeignError ''missing rate limit effective policies stored in the reconciliation state'' False))) False
      | Some effectivePolicies \<Rightarrow>
        (let t = foldl (trackRateLimitPath isTrue nn locator topo ev es (map fst (RateLimitPolicy_Rules locator policy))
               (RateLimitPolicy_GetLocator locator policy)) no_tracking (map snd effectivePolicies)
         in if length (aff_Gateways (trk_Affected t)) = 0
            then EnforcedCondition nn RateLimitPolicyKind (Some (notAffected RateLimitPolicyKind t)) False
            else case limitadorToSync isTrue ev es (\<lambda>_. None) of
              Inl err \<Rightarrow> EnforcedCondition nn RateLimitPolicyKind (Some err) False
            | Inr components \<Rightarrow>
              lastChecks nn RateLimitPolicyKind t (components @ rateLimitGatewaysToSync isTrue env ev es (trk_Affected t)))))"

definition TokenRateLimitPolicyStatusUpdater_enforcedCondition ::
  "is_true \<Rightarrow> environment \<Rightarrow> (string \<Rightarrow> string \<Rightarrow> string) \<Rightarrow> locator_fun \<Rightarrow> 's topo_view \<Rightarrow>
   enforcement_view \<Rightarrow> enforcement_state \<Rightarrow> 's workflow_state \<Rightarrow> TokenRateLimitPolicy \<Rightarrow> Condition go_result" where
  "TokenRateLimitPolicyStatusUpdater_enforcedCondition isTrue env nn locator topo ev es st policy =
     (case GetKuadrantFromTopology ev es of
        None \<Rightarrow> Return (EnforcedCondition nn TokenRateLimitPolicyKind (Some (ErrSystemResource ''kuadrant'')) False)
      | Some kObj \<Rightarrow>
     (case st_EffectiveTokenRateLimitPolicies st of
        None \<Rightarrow> Return (EnforcedCondition nn TokenRateLimitPolicyKind (Some (ErrUnknown TokenRateLimitPolicyKind
          (ForeignError ''missing effective token rate limit policies state'' False))) False)
      | Some effectivePolicies \<Rightarrow>
        gbind (gfold (trackTokenRateLimitPath isTrue nn locator topo ev es (map fst (TokenRateLimitPolicy_Rules locator policy))
            (TokenRateLimitPolicy_GetLocator locator policy)) no_tracking (map snd effectivePolicies))
          (\<lambda>t. Return (
            if length (aff_Gateways (trk_Affected t)) = 0
            then EnforcedCondition nn TokenRateLimitPolicyKind (Some (notAffected TokenRateLimitPolicyKind t)) False
            else case limitadorToSync isTrue ev es (\<lambda>limitador.
                if GetTokenRateLimitingMode (Some kObj) = ''Reservation'' \<and> \<not> to_ReservationsEnabled limitador
                then Some (ErrReservationsDisabled TokenRateLimitPolicyKind) else None) of
              Inl err \<Rightarrow> EnforcedCondition nn TokenRateLimitPolicyKind (Some err) False
            | Inr components \<Rightarrow>
              lastChecks nn TokenRateLimitPolicyKind t (components @ rateLimitGatewaysToSync isTrue env ev es (trk_Affected t))))))"

section \<open>Writing the status\<close>

record policy_status =
  ps_Conditions :: "Condition list"
  ps_ObservedGeneration :: int

text \<open>
  \<open>equality.Semantic.DeepEqual\<close> takes interface values; values of different types are not
  equal.  The loops pass a pointer to the new status and the old status itself.
\<close>

datatype 'a status_value = StatusPtr 'a | StatusVal 'a

fun Semantic_DeepEqual :: "'a status_value \<Rightarrow> 'a status_value \<Rightarrow> bool" where
  "Semantic_DeepEqual (StatusPtr a) (StatusPtr b) \<longleftrightarrow> a = b"
| "Semantic_DeepEqual (StatusVal a) (StatusVal b) \<longleftrightarrow> a = b"
| "Semantic_DeepEqual _ _ \<longleftrightarrow> False"

type_synonym set_cond = "Condition list \<Rightarrow> Condition \<Rightarrow> Condition list"
type_synonym remove_cond = "Condition list \<Rightarrow> string \<Rightarrow> Condition list"

definition newPolicyStatus ::
  "set_cond \<Rightarrow> remove_cond \<Rightarrow> Condition \<Rightarrow> bool \<Rightarrow> Condition \<Rightarrow> 's policy_object \<Rightarrow> policy_status" where
  "newPolicyStatus setCond removeCond acceptedCond accepted enforcedCond policy =
     (let conditions = setCond (pol_Conditions policy) acceptedCond
      in \<lparr>ps_Conditions = (if \<not> accepted then removeCond conditions PolicyConditionEnforced else setCond conditions enforcedCond),
          ps_ObservedGeneration = pol_ObservedGeneration policy\<rparr>)"

text \<open>The status to write, or \<open>None\<close> when the update is skipped as unchanged.\<close>

definition statusToWrite :: "'s policy_object \<Rightarrow> policy_status \<Rightarrow> policy_status option" where
  "statusToWrite policy newStatus =
     (let equalStatus = Semantic_DeepEqual (StatusPtr newStatus)
            (StatusVal \<lparr>ps_Conditions = pol_Conditions policy, ps_ObservedGeneration = pol_ObservedGeneration policy\<rparr>)
      in if equalStatus \<and> pol_Generation policy = pol_ObservedGeneration policy then None
         else Some (newStatus\<lparr>ps_ObservedGeneration := pol_Generation policy\<rparr>))"

text \<open>
  What follows a decision to write: the update, and the record of its error for a retry unless the
  object is gone.  \<open>update\<close> is the API server's answer.
\<close>

type_synonym status_writes = "(string \<times> policy_status) list"

definition writeStatus ::
  "(string \<Rightarrow> policy_status \<Rightarrow> string option) \<Rightarrow> (string \<Rightarrow> error_map \<Rightarrow> error_map) \<Rightarrow> string \<Rightarrow> policy_status option \<Rightarrow>
   status_writes \<times> error_map \<Rightarrow> status_writes \<times> error_map" where
  "writeStatus update recordError policyLocator toWrite acc =
     (case toWrite of None \<Rightarrow> acc
      | Some status \<Rightarrow>
        (fst acc @ [(policyLocator, status)],
         case update policyLocator status of None \<Rightarrow> snd acc
         | Some err \<Rightarrow> if Contains err ''StorageError: invalid object'' then snd acc else recordError err (snd acc)))"

definition AuthPolicyStatusUpdater_UpdateStatus ::
  "set_cond \<Rightarrow> remove_cond \<Rightarrow> is_true \<Rightarrow> find_cond \<Rightarrow> environment \<Rightarrow> (string \<Rightarrow> string) \<Rightarrow> (string \<Rightarrow> string \<Rightarrow> string) \<Rightarrow> locator_fun \<Rightarrow>
   int \<Rightarrow> (string \<Rightarrow> policy_status \<Rightarrow> string option) \<Rightarrow> 's topo_view \<Rightarrow> enforcement_view \<Rightarrow> enforcement_state \<Rightarrow> 's workflow_state \<Rightarrow>
   error_map option \<Rightarrow> status_writes \<times> error_map" where
  "AuthPolicyStatusUpdater_UpdateStatus setCond removeCond isTrue findCond env sha nn locator now update topo ev es st stored =
     foldl (\<lambda>acc policy. case asAuthPolicy (pol policy) of None \<Rightarrow> acc
       | Some p \<Rightarrow>
         if pol_Deleted policy then acc
         else let (accepted, err) = authPolicyAcceptedStatusFunc findCond locator st policy;
                  newStatus = newPolicyStatus setCond removeCond (AcceptedCondition nn AuthPolicyKind err) accepted
                    (AuthPolicyStatusUpdater_enforcedCondition isTrue findCond env sha nn locator topo ev es st p) policy
              in writeStatus update (Registry_Record now ''AuthPolicyStatusUpdater'' ''update'' (ap_Namespace p, ap_Name p) ''AuthPolicy.kuadrant.io'')
                   (policy_locator locator (pol policy)) (statusToWrite policy newStatus) acc)
       ([], fst (GetOrCreateErrorRegistry stored)) (tv_Policies topo)"

definition RateLimitPolicyStatusUpdater_UpdateStatus ::
  "set_cond \<Rightarrow> remove_cond \<Rightarrow> is_true \<Rightarrow> find_cond \<Rightarrow> environment \<Rightarrow> (string \<Rightarrow> string \<Rightarrow> string) \<Rightarrow> locator_fun \<Rightarrow>
   int \<Rightarrow> (string \<Rightarrow> policy_status \<Rightarrow> string option) \<Rightarrow> 's topo_view \<Rightarrow> enforcement_view \<Rightarrow> enforcement_state \<Rightarrow> 's workflow_state \<Rightarrow>
   error_map option \<Rightarrow> status_writes \<times> error_map" where
  "RateLimitPolicyStatusUpdater_UpdateStatus setCond removeCond isTrue findCond env nn locator now update topo ev es st stored =
     foldl (\<lambda>acc policy. case asRateLimitPolicy (pol policy) of None \<Rightarrow> acc
       | Some p \<Rightarrow>
         if pol_Deleted policy then acc
         else let (accepted, err) = rateLimitPolicyAcceptedStatusFunc findCond locator st policy;
                  newStatus = newPolicyStatus setCond removeCond (AcceptedCondition nn RateLimitPolicyKind err) accepted
                    (RateLimitPolicyStatusUpdater_enforcedCondition isTrue env nn locator topo ev es st p) policy
              in writeStatus update (Registry_Record now ''RateLimitPolicyStatusUpdater'' ''update'' (rlp_Namespace p, rlp_Name p) ''RateLimitPolicy.kuadrant.io'')
                   (policy_locator locator (pol policy)) (statusToWrite policy newStatus) acc)
       ([], fst (GetOrCreateErrorRegistry stored)) (tv_Policies topo)"

text \<open>
  The loop for token rate limit policies logs a failed update and records nothing.  The enforced
  condition is computed only for an accepted policy.
\<close>

definition TokenRateLimitPolicyStatusUpdater_UpdateStatus ::
  "set_cond \<Rightarrow> remove_cond \<Rightarrow> is_true \<Rightarrow> find_cond \<Rightarrow> environment \<Rightarrow> (string \<Rightarrow> string \<Rightarrow> string) \<Rightarrow> locator_fun \<Rightarrow>
   'z topo_view \<Rightarrow> enforcement_view \<Rightarrow> enforcement_state \<Rightarrow> 'z workflow_state \<Rightarrow> status_writes go_result" where
  "TokenRateLimitPolicyStatusUpdater_UpdateStatus setCond removeCond isTrue findCond env nn locator topo ev es st =
     gfold (\<lambda>writes policy. case asTokenRateLimitPolicy (pol policy) of None \<Rightarrow> Return writes
       | Some p \<Rightarrow>
         if pol_Deleted policy then Return writes
         else let (accepted, err) = tokenRateLimitPolicyAcceptedStatusFunc findCond locator st policy
              in gbind (if accepted then TokenRateLimitPolicyStatusUpdater_enforcedCondition isTrue env nn locator topo ev es st p
                   else Return (EnforcedCondition nn TokenRateLimitPolicyKind None False))
                 (\<lambda>enforcedCond.
                   Return (case statusToWrite policy (newPolicyStatus setCond removeCond (AcceptedCondition nn TokenRateLimitPolicyKind err)
                       accepted enforcedCond policy) of None \<Rightarrow> writes
                     | Some status \<Rightarrow> writes @ [(policy_locator locator (pol policy), status)])))
       [] (tv_Policies topo)"

section \<open>What is tracked\<close>

lemma gm_set_ne_Nil [simp]: "gm_set k v m = [] \<longleftrightarrow> False"
  by simp

definition overrides_rule :: "('r \<Rightarrow> string) \<Rightarrow> (string, 'r) gomap \<Rightarrow> string \<Rightarrow> string \<Rightarrow> bool" where
  "overrides_rule getSource rules policyLocator k \<longleftrightarrow>
     (case map_of rules k of None \<Rightarrow> True | Some r \<Rightarrow> getSource r \<noteq> policyLocator)"

lemma trackRule_step:
  assumes "\<And>a. aff_Gateways (mark a) = gm_set l g (aff_Gateways a)"
  shows "trk_Overriding (trackRule getSource rules sources loc mark t k) = [] \<longleftrightarrow>
      trk_Overriding t = [] \<and> \<not> overrides_rule getSource rules loc k"
    and "aff_Gateways (trk_Affected (trackRule getSource rules sources loc mark t k)) =
      (if overrides_rule getSource rules loc k then aff_Gateways (trk_Affected t) else gm_set l g (aff_Gateways (trk_Affected t)))"
    and "trk_CelErrors (trackRule getSource rules sources loc mark t k) = trk_CelErrors t"
  by (cases "map_of rules k"; simp add: trackRule_def Let_def overrides_rule_def assms)+

lemma gm_set_twice [simp]: "gm_set k v (gm_set k v m) = gm_set k v m"
  by (induction m) auto

lemma foldl_trackRule:
  assumes "\<And>a. aff_Gateways (mark a) = gm_set l g (aff_Gateways a)"
  shows "trk_Overriding (foldl (trackRule getSource rules sources loc mark) t keys) = [] \<longleftrightarrow>
      trk_Overriding t = [] \<and> list_all (\<lambda>k. \<not> overrides_rule getSource rules loc k) keys"
    and "aff_Gateways (trk_Affected (foldl (trackRule getSource rules sources loc mark) t keys)) =
      (if list_ex (\<lambda>k. \<not> overrides_rule getSource rules loc k) keys then gm_set l g (aff_Gateways (trk_Affected t))
       else aff_Gateways (trk_Affected t))"
    and "trk_CelErrors (foldl (trackRule getSource rules sources loc mark) t keys) = trk_CelErrors t"
proof (induction keys arbitrary: t)
  case (Cons k keys)
  note step = trackRule_step [OF assms, where getSource = getSource and rules = rules and sources = sources and loc = loc and k = k]
  { case 1 show ?case unfolding foldl_Cons Cons.IH(1) step by auto }
  { case 2 show ?case unfolding foldl_Cons Cons.IH(2) step by auto }
  { case 3 show ?case unfolding foldl_Cons Cons.IH(3) step by auto }
qed simp_all

definition celIssues :: "enforcement_state \<Rightarrow> string \<Rightarrow> string \<Rightarrow> go_error list" where
  "celIssues es policyKind pathID = (case es_CELValidationErrors es of None \<Rightarrow> []
     | Some collection \<Rightarrow> map issue_err (filter (\<lambda>i. issue_policyKind i = policyKind \<and> issue_pathID i = pathID) collection))"

lemma addCelErrors_eq: "addCelErrors es kind pathID t = t\<lparr>trk_CelErrors := trk_CelErrors t @ celIssues es kind pathID\<rparr>"
proof (cases "es_CELValidationErrors es")
  case (Some c)
  have "celIssues es kind pathID = map issue_err (case IssueCollection_GetByPolicyKind c kind of None \<Rightarrow> [] | Some m \<Rightarrow> Deref (map_of m pathID) [])"
    using Some by (simp add: celIssues_def GetByPolicyKind_issues)
  with Some show ?thesis by (simp add: addCelErrors_def Deref_def split: option.splits)
qed (simp add: addCelErrors_def celIssues_def)

text \<open>The gateway of a path on which the policy can be enforced, with its class.\<close>

definition liveGateway ::
  "is_true \<Rightarrow> locator_fun \<Rightarrow> 's topo_view \<Rightarrow> enforcement_view \<Rightarrow> string \<Rightarrow> targetable list \<Rightarrow> (Gateway \<times> GatewayClass) option" where
  "liveGateway isTrue locator topo ev policyLocator path =
     (if inPath locator topo policyLocator path then
        (case ParseTopologyPath path of Inl err \<Rightarrow> None
         | Inr parsed \<Rightarrow> if pathReady isTrue ev parsed
             then (case (ptp_Gateway parsed, ptp_GatewayClass parsed) of (Some gw, Some gc) \<Rightarrow> Some (gw, gc) | _ \<Rightarrow> None) else None)
      else None)"

lemma parsed_gateway: "ParseTopologyPath path = Inr parsed \<Longrightarrow> \<exists>gw gc. ptp_Gateway parsed = Some gw \<and> ptp_GatewayClass parsed = Some gc"
  by (auto simp: ParseTopologyPath_ok http_parsed_def grpc_parsed_def)

text \<open>The gateways of the paths on which a rule of the policy is in the effective policy.\<close>

definition enforcedOn ::
  "is_true \<Rightarrow> locator_fun \<Rightarrow> 's topo_view \<Rightarrow> enforcement_view \<Rightarrow> RateLimitPolicy \<Rightarrow> RateLimitPolicy EffectivePolicy \<Rightarrow> (Gateway \<times> GatewayClass) option" where
  "enforcedOn isTrue locator topo ev policy ep =
     (case liveGateway isTrue locator topo ev (RateLimitPolicy_GetLocator locator policy) (ep_Path ep) of None \<Rightarrow> None
      | Some g \<Rightarrow>
        if list_ex (\<lambda>k. \<not> overrides_rule rlp_GetSource (RateLimitPolicy_Rules locator (ep_Spec ep)) (RateLimitPolicy_GetLocator locator policy) k)
          (map fst (RateLimitPolicy_Rules locator policy)) then Some g else None)"

definition fullyOn ::
  "is_true \<Rightarrow> locator_fun \<Rightarrow> 's topo_view \<Rightarrow> enforcement_view \<Rightarrow> RateLimitPolicy \<Rightarrow> RateLimitPolicy EffectivePolicy \<Rightarrow> bool" where
  "fullyOn isTrue locator topo ev policy ep \<longleftrightarrow>
     liveGateway isTrue locator topo ev (RateLimitPolicy_GetLocator locator policy) (ep_Path ep) = None \<or>
     list_all (\<lambda>k. \<not> overrides_rule rlp_GetSource (RateLimitPolicy_Rules locator (ep_Spec ep)) (RateLimitPolicy_GetLocator locator policy) k)
       (map fst (RateLimitPolicy_Rules locator policy))"

definition issuesOn ::
  "(string \<Rightarrow> string \<Rightarrow> string) \<Rightarrow> locator_fun \<Rightarrow> 's topo_view \<Rightarrow> enforcement_state \<Rightarrow> RateLimitPolicy \<Rightarrow> RateLimitPolicy EffectivePolicy \<Rightarrow> go_error list" where
  "issuesOn nn locator topo es policy ep =
     (if inPath locator topo (RateLimitPolicy_GetLocator locator policy) (ep_Path ep)
      then celIssues es RateLimitPolicyKind (pathIDOf nn topo (ep_Path ep)) else [])"

lemma trackRateLimitPath_step:
  fixes policy :: RateLimitPolicy
  assumes step_def: "step = trackRateLimitPath isTrue nn locator topo ev es (map fst (RateLimitPolicy_Rules locator policy)) (RateLimitPolicy_GetLocator locator policy)"
  shows "trk_Overriding (step t ep) = [] \<longleftrightarrow> trk_Overriding t = [] \<and> fullyOn isTrue locator topo ev policy ep"
    and "aff_Gateways (trk_Affected (step t ep)) = (case enforcedOn isTrue locator topo ev policy ep of None \<Rightarrow> aff_Gateways (trk_Affected t)
      | Some g \<Rightarrow> gm_set (ev_GatewayLocator ev (fst g)) g (aff_Gateways (trk_Affected t)))"
    and "trk_CelErrors (step t ep) = trk_CelErrors t @ issuesOn nn locator topo es policy ep"
proof -
  let ?loc = "RateLimitPolicy_GetLocator locator policy"
  let ?live = "liveGateway isTrue locator topo ev ?loc (ep_Path ep)"
  have "(trk_Overriding (step t ep) = [] \<longleftrightarrow> trk_Overriding t = [] \<and> fullyOn isTrue locator topo ev policy ep) \<and>
    aff_Gateways (trk_Affected (step t ep)) = (case enforcedOn isTrue locator topo ev policy ep of None \<Rightarrow> aff_Gateways (trk_Affected t)
      | Some g \<Rightarrow> gm_set (ev_GatewayLocator ev (fst g)) g (aff_Gateways (trk_Affected t))) \<and>
    trk_CelErrors (step t ep) = trk_CelErrors t @ issuesOn nn locator topo es policy ep"
  proof (cases ?live)
    case None
    then have "step t ep = (if inPath locator topo ?loc (ep_Path ep) then addCelErrors es RateLimitPolicyKind (pathIDOf nn topo (ep_Path ep)) t else t)"
      using parsed_gateway [of "ep_Path ep"]
      by (auto simp: step_def trackRateLimitPath_def liveGateway_def Let_def split: if_splits sum.splits option.splits)
    with None show ?thesis by (simp add: fullyOn_def enforcedOn_def issuesOn_def addCelErrors_eq)
  next
    case (Some g)
    then obtain parsed where p: "inPath locator topo ?loc (ep_Path ep)" "ParseTopologyPath (ep_Path ep) = Inr parsed"
      "pathReady isTrue ev parsed" "ptp_Gateway parsed = Some (fst g)" "ptp_GatewayClass parsed = Some (snd g)"
      by (auto simp: liveGateway_def split: if_splits sum.splits option.splits)
    have mark: "aff_Gateways (markParsed ev parsed a) = gm_set (ev_GatewayLocator ev (fst g)) g (aff_Gateways a)" for a
      using p(4,5) by (simp add: markParsed_def markGateway_def)
    have "step t ep = foldl (trackRule rlp_GetSource (RateLimitPolicy_Rules locator (ep_Spec ep)) (ep_SourcePolicies ep) ?loc (markParsed ev parsed))
        (addCelErrors es RateLimitPolicyKind (pathIDOf nn topo (ep_Path ep)) t) (map fst (RateLimitPolicy_Rules locator policy))"
      using p by (simp add: step_def trackRateLimitPath_def Let_def)
    with foldl_trackRule [OF mark, where getSource = rlp_GetSource and rules = "RateLimitPolicy_Rules locator (ep_Spec ep)"
        and sources = "ep_SourcePolicies ep" and loc = ?loc and keys = "map fst (RateLimitPolicy_Rules locator policy)"
        and t = "addCelErrors es RateLimitPolicyKind (pathIDOf nn topo (ep_Path ep)) t"]
    show ?thesis using Some p(1) by (simp add: fullyOn_def enforcedOn_def issuesOn_def addCelErrors_eq)
  qed
  then show "trk_Overriding (step t ep) = [] \<longleftrightarrow> trk_Overriding t = [] \<and> fullyOn isTrue locator topo ev policy ep"
    and "aff_Gateways (trk_Affected (step t ep)) = (case enforcedOn isTrue locator topo ev policy ep of None \<Rightarrow> aff_Gateways (trk_Affected t)
      | Some g \<Rightarrow> gm_set (ev_GatewayLocator ev (fst g)) g (aff_Gateways (trk_Affected t)))"
    and "trk_CelErrors (step t ep) = trk_CelErrors t @ issuesOn nn locator topo es policy ep" by blast+
qed

lemma foldl_trackRateLimitPath:
  fixes policy :: RateLimitPolicy
  assumes t: "t = foldl (trackRateLimitPath isTrue nn locator topo ev es (map fst (RateLimitPolicy_Rules locator policy))
      (RateLimitPolicy_GetLocator locator policy)) t0 eps"
  shows "trk_Overriding t = [] \<longleftrightarrow> trk_Overriding t0 = [] \<and> list_all (fullyOn isTrue locator topo ev policy) eps"
    and "aff_Gateways (trk_Affected t) = foldl (\<lambda>m (l, g). gm_set l g m) (aff_Gateways (trk_Affected t0))
      (map (\<lambda>g. (ev_GatewayLocator ev (fst g), g)) (List.map_filter (enforcedOn isTrue locator topo ev policy) eps))"
    and "trk_CelErrors t = trk_CelErrors t0 @ concat (map (issuesOn nn locator topo es policy) eps)"
  unfolding t
proof (induction eps arbitrary: t0)
  case (Cons ep eps)
  { case 1 show ?case unfolding foldl_Cons Cons.IH(1) trackRateLimitPath_step [OF refl] by auto }
  { case 2 show ?case unfolding foldl_Cons Cons.IH(2) trackRateLimitPath_step [OF refl] by (simp add: List.map_filter_simps split: option.split) }
  { case 3 show ?case unfolding foldl_Cons Cons.IH(3) trackRateLimitPath_step [OF refl] by simp }
qed (simp_all add: List.map_filter_simps)

section \<open>When a rate limit policy is enforced\<close>

definition gateways_identified :: "enforcement_view \<Rightarrow> (Gateway \<times> GatewayClass) list \<Rightarrow> bool" where
  "gateways_identified ev gs \<longleftrightarrow>
     list_all (\<lambda>g. list_all (\<lambda>h. ev_GatewayLocator ev (fst g) = ev_GatewayLocator ev (fst h) \<longrightarrow> g = h) gs) gs"

lemma set_foldl_gm_set:
  assumes "\<And>g h. g \<in> set gs \<Longrightarrow> h \<in> set gs \<Longrightarrow> loc g = loc h \<Longrightarrow> g = h"
  shows "snd ` set (foldl (\<lambda>m (l, g). gm_set l g m) [] (map (\<lambda>g. (loc g, g)) gs)) = set gs"
proof -
  let ?m = "foldl (\<lambda>m (l, g). gm_set l g m) [] (map (\<lambda>g. (loc g, g)) gs)"
  have wf: "gm_wf ?m" by (rule gm_wf_foldl_gm_set) simp
  have lookup: "map_of ?m = map_of (rev (map (\<lambda>g. (loc g, g)) gs))" by (simp add: map_of_foldl_gm_set)
  have "g \<in> set gs" if "(l, g) \<in> set ?m" for l g
  proof -
    have "map_of ?m l = Some g" using map_of_is_SomeI [OF _ that] wf by simp
    then have "map_of (rev (map (\<lambda>g. (loc g, g)) gs)) l = Some g" unfolding lookup .
    then show ?thesis by (auto dest: map_of_SomeD)
  qed
  moreover have "(loc g, g) \<in> set ?m" if "g \<in> set gs" for g
  proof -
    obtain h where h: "map_of (rev (map (\<lambda>g. (loc g, g)) gs)) (loc g) = Some h"
      using \<open>g \<in> set gs\<close> by (cases "map_of (rev (map (\<lambda>g. (loc g, g)) gs)) (loc g)") (force simp: map_of_eq_None_iff image_image)+
    from map_of_SomeD [OF h] have "h \<in> set gs" "loc h = loc g" by auto
    with assms \<open>g \<in> set gs\<close> have "h = g" by blast
    with h lookup have "map_of ?m (loc g) = Some g" by simp
    then show ?thesis by (rule map_of_SomeD)
  qed
  ultimately show ?thesis by force
qed

lemma limitadorToSync_ok:
  "limitadorToSync isTrue ev es (\<lambda>_. None) = Inr [] \<longleftrightarrow> es_LimitadorLimitsModified es \<noteq> Some True \<and>
     (\<exists>l. GetLimitadorFromTopology ev es = Some l \<and> isTrue (to_Conditions l) ''Ready'')"
  by (auto simp: limitadorToSync_def split: option.splits)

lemma lastChecks_status:
  "cond_Status (lastChecks nn kind t components) = (if trk_CelErrors t = [] \<and> components = [] then ''True'' else ''False'')"
  by (simp add: lastChecks_def)

definition rateLimitConfigInSync :: "is_true \<Rightarrow> environment \<Rightarrow> enforcement_view \<Rightarrow> enforcement_state \<Rightarrow> Gateway \<times> GatewayClass \<Rightarrow> bool" where
  "rateLimitConfigInSync isTrue env ev es g \<longleftrightarrow>
     gatewayConfigToSync isTrue env ev RateLimitClusterName (es_IstioRateLimitClustersModified es)
       (es_IstioExtensionsModified es) (es_EnvoyGatewayRateLimitClustersModified es) (es_EnvoyGatewayExtensionsModified es) g = []"

text \<open>
  C8.  A rate limit policy is reported as enforced exactly when there is a Kuadrant resource, the
  effective policies have been computed, some rule of the policy is in the effective policy of a
  ready path, Limitador exists, is ready and had no limits written in this reconciliation, the
  configuration of every gateway of such a path is in sync, and no CEL issue was found on a path of
  the policy.  It is reported as fully enforced exactly when, besides, no rule of the policy is
  overridden on a ready path.
\<close>

theorem rlp_enforced_iff:
  assumes "list_all (\<lambda>eps. gateways_identified ev (List.map_filter (enforcedOn isTrue locator topo ev policy) (map snd eps)))
      (case st_EffectiveRateLimitPolicies st of None \<Rightarrow> [] | Some eps \<Rightarrow> [eps])"
  shows "RateLimitPolicyStatusUpdater_enforcedCondition isTrue env nn locator topo ev es st policy = EnforcedCondition nn RateLimitPolicyKind None fully \<longleftrightarrow>
    GetKuadrantFromTopology ev es \<noteq> None \<and>
    (case st_EffectiveRateLimitPolicies st of None \<Rightarrow> False
     | Some eps \<Rightarrow> List.map_filter (enforcedOn isTrue locator topo ev policy) (map snd eps) \<noteq> [] \<and>
         list_all (rateLimitConfigInSync isTrue env ev es) (List.map_filter (enforcedOn isTrue locator topo ev policy) (map snd eps)) \<and>
         list_all (\<lambda>ep. issuesOn nn locator topo es policy ep = []) (map snd eps) \<and>
         (fully \<longleftrightarrow> list_all (fullyOn isTrue locator topo ev policy) (map snd eps))) \<and>
    es_LimitadorLimitsModified es \<noteq> Some True \<and>
    (\<exists>l. GetLimitadorFromTopology ev es = Some l \<and> isTrue (to_Conditions l) ''Ready'')"
proof -
  have false: "EnforcedCondition nn RateLimitPolicyKind (Some e) b \<noteq> EnforcedCondition nn RateLimitPolicyKind None fully" for e b
  proof
    assume "EnforcedCondition nn RateLimitPolicyKind (Some e) b = EnforcedCondition nn RateLimitPolicyKind None fully"
    then have "cond_Status (EnforcedCondition nn RateLimitPolicyKind (Some e) b) = cond_Status (EnforcedCondition nn RateLimitPolicyKind None fully)"
      by (rule arg_cong)
    then show False by simp
  qed
  have full: "EnforcedCondition nn RateLimitPolicyKind None b = EnforcedCondition nn RateLimitPolicyKind None fully \<longleftrightarrow> b = fully" for b
    by (simp add: EnforcedCondition_def)
  show ?thesis
  proof (cases "GetKuadrantFromTopology ev es = None \<or> st_EffectiveRateLimitPolicies st = None")
    case True
    then show ?thesis
      by (auto simp: RateLimitPolicyStatusUpdater_enforcedCondition_def false split: option.splits)
  next
    case False
    then obtain kObj eps where k: "GetKuadrantFromTopology ev es = Some kObj" "st_EffectiveRateLimitPolicies st = Some eps" by auto
    define gs where "gs = List.map_filter (enforcedOn isTrue locator topo ev policy) (map snd eps)"
    define t where "t = foldl (trackRateLimitPath isTrue nn locator topo ev es (map fst (RateLimitPolicy_Rules locator policy))
        (RateLimitPolicy_GetLocator locator policy)) no_tracking (map snd eps)"
    note tr = foldl_trackRateLimitPath [OF t_def]
    have aff: "snd ` set (aff_Gateways (trk_Affected t)) = set gs"
      unfolding tr(2) gs_def [symmetric] using assms k(2) set_foldl_gm_set [of gs "\<lambda>g. ev_GatewayLocator ev (fst g)"]
      by (auto simp: no_tracking_def gateways_identified_def list_all_iff gs_def [symmetric])
    have none: "aff_Gateways (trk_Affected t) = [] \<longleftrightarrow> gs = []" using aff by auto
    have sync: "rateLimitGatewaysToSync isTrue env ev es (trk_Affected t) = [] \<longleftrightarrow> list_all (rateLimitConfigInSync isTrue env ev es) gs"
      unfolding list_all_iff aff [symmetric] by (auto simp: rateLimitGatewaysToSync_def rateLimitConfigInSync_def)
    have cel: "trk_CelErrors t = [] \<longleftrightarrow> list_all (\<lambda>ep. issuesOn nn locator topo es policy ep = []) (map snd eps)"
      unfolding tr(3) by (simp add: no_tracking_def list_all_iff)
    have fully: "trk_Overriding t = [] \<longleftrightarrow> list_all (fullyOn isTrue locator topo ev policy) (map snd eps)"
      unfolding tr(1) by (simp add: no_tracking_def)
    have cond: "RateLimitPolicyStatusUpdater_enforcedCondition isTrue env nn locator topo ev es st policy =
        (if gs = [] then EnforcedCondition nn RateLimitPolicyKind (Some (notAffected RateLimitPolicyKind t)) False
         else case limitadorToSync isTrue ev es (\<lambda>_. None) of Inl err \<Rightarrow> EnforcedCondition nn RateLimitPolicyKind (Some err) False
         | Inr components \<Rightarrow> lastChecks nn RateLimitPolicyKind t (components @ rateLimitGatewaysToSync isTrue env ev es (trk_Affected t)))"
      using k none by (simp add: RateLimitPolicyStatusUpdater_enforcedCondition_def t_def [symmetric])
    show ?thesis
    proof (cases "limitadorToSync isTrue ev es (\<lambda>_. None)")
      case (Inl err)
      then show ?thesis using limitadorToSync_ok [of isTrue ev es] unfolding cond by (auto simp: false)
    next
      case (Inr components)
      have "lastChecks nn RateLimitPolicyKind t (components @ rateLimitGatewaysToSync isTrue env ev es (trk_Affected t)) =
          EnforcedCondition nn RateLimitPolicyKind None fully \<longleftrightarrow>
        trk_CelErrors t = [] \<and> components = [] \<and> rateLimitGatewaysToSync isTrue env ev es (trk_Affected t) = [] \<and> (trk_Overriding t = [] \<longleftrightarrow> fully)"
        by (cases "trk_CelErrors t = []"; cases "components = []"; cases "rateLimitGatewaysToSync isTrue env ev es (trk_Affected t) = []")
          (simp_all add: lastChecks_def false full)
      with Inr limitadorToSync_ok [of isTrue ev es] k sync cel fully show ?thesis
        unfolding cond by (auto simp: false gs_def [symmetric])
    qed
  qed
qed

section \<open>An enforced policy\<close>

definition ex_ready_gateway :: Gateway where "ex_ready_gateway = ex_gateway\<lparr>gateway_ListenerStatus := [(''l'', [])]\<rparr>"

definition ex_ready_route :: "HTTPRouteMatch TopoRoute" where
  "ex_ready_route = \<lparr>tr_Route = \<lparr>route_Namespace = ''ns'', route_Name = ''r'', route_Hostnames = [''a.example.com''],
     route_ParentRefs = [ex_parent_ref], route_Parents = [\<lparr>rps_ParentRef = ex_parent_ref,
       rps_ControllerName = defaultIstioGatewayControllerName, rps_Conditions = []\<rparr>]\<rparr>, tr_CreationTimestamp = 0, tr_Rules = [[]]\<rparr>"

definition ex_ready_path :: "targetable list" where
  "ex_ready_path = [TGatewayClass (Some ex_gc), TGateway (Some ex_ready_gateway),
     TListener (Some \<lparr>tl_Listener = tl_Listener ex_listener, tl_Gateway = Some ex_ready_gateway\<rparr>), THTTPRoute (Some ex_ready_route),
     THTTPRouteRule (Some \<lparr>trr_Name = ''rule-1'', trr_Matches = [], trr_Route = Some ex_ready_route\<rparr>)]"

definition ex_child :: "string \<times> string \<Rightarrow> string \<Rightarrow> topo_object" where
  "ex_child kind name = \<lparr>to_GroupKind = kind, to_Namespace = ''ns'', to_Name = name, to_Conditions = [], to_Ancestors = [], to_ReservationsEnabled = True\<rparr>"

definition ex_view :: enforcement_view where
  "ex_view = \<lparr>ev_Roots = [\<lparr>kd_Name = ''kuadrant'', kd_Deleted = False, kd_Mode = []\<rparr>], ev_OlderKuadrant = (\<lambda>_ _. False),
     ev_KuadrantChildren = (\<lambda>_. [ex_child LimitadorGroupKind ''limitador'']),
     ev_GatewayChildren = (\<lambda>_. [ex_child EnvoyFilterGroupKind ''kuadrant-ratelimiting-gw'', ex_child EnvoyFilterGroupKind ''kuadrant-gw'']),
     ev_RuleChildren = (\<lambda>_. []), ev_GatewayLocator = gateway_Name, ev_ControllerName = (\<lambda>_. defaultIstioGatewayControllerName),
     ev_Deleting = (\<lambda>_. False)\<rparr>"

definition ex_nothing_modified :: enforcement_state where
  "ex_nothing_modified = \<lparr>es_Kuadrant = None, es_ModifiedAuthConfigs = None, es_IstioAuthClustersModified = None,
     es_EnvoyGatewayAuthClustersModified = None, es_IstioRateLimitClustersModified = None, es_EnvoyGatewayRateLimitClustersModified = None,
     es_IstioExtensionsModified = None, es_EnvoyGatewayExtensionsModified = None, es_LimitadorLimitsModified = None,
     es_CELValidationErrors = None\<rparr>"

definition ex_default_env :: environment where "ex_default_env = \<lparr>Getenv = (\<lambda>_. []), GetString = (\<lambda>_ d. d)\<rparr>"

definition ex_effective :: "RateLimitPolicy EffectivePolicy" where
  "ex_effective = \<lparr>ep_Path = ex_ready_path, ep_Spec = ex_route_rlp, ep_SourcePolicies = [RateLimitPolicy_GetLocator ex_locator ex_route_rlp]\<rparr>"

definition ex_effective_state :: "string workflow_state" where
  "ex_effective_state = ex_state\<lparr>st_EffectiveRateLimitPolicies := Some [(''id'', ex_effective)]\<rparr>"

theorem rlp_enforced_iff_witness:
  "RateLimitPolicyStatusUpdater_enforcedCondition (\<lambda>_ _. True) ex_default_env ex_nn ex_locator ex_limit_topo ex_view ex_nothing_modified
     ex_effective_state ex_route_rlp = EnforcedCondition ex_nn RateLimitPolicyKind None True"
proof -
  have st: "st_EffectiveRateLimitPolicies ex_effective_state = Some [(''id'', ex_effective)]" by (simp add: ex_effective_state_def)
  have on: "enforcedOn (\<lambda>_ _. True) ex_locator ex_limit_topo ex_view ex_route_rlp ex_effective = Some (ex_ready_gateway, ex_gc)"
    by code_simp
  have full: "fullyOn (\<lambda>_ _. True) ex_locator ex_limit_topo ex_view ex_route_rlp ex_effective" by code_simp
  have sync: "rateLimitConfigInSync (\<lambda>_ _. True) ex_default_env ex_view ex_nothing_modified (ex_ready_gateway, ex_gc)" by code_simp
  have issues: "issuesOn ex_nn ex_locator ex_limit_topo ex_nothing_modified ex_route_rlp ex_effective = []"
    by (simp add: issuesOn_def celIssues_def ex_nothing_modified_def)
  have kuadrant: "GetKuadrantFromTopology ex_view ex_nothing_modified \<noteq> None" "GetLimitadorFromTopology ex_view ex_nothing_modified \<noteq> None"
    by code_simp+
  have limits: "es_LimitadorLimitsModified ex_nothing_modified = None" by (simp add: ex_nothing_modified_def)
  have id: "list_all (\<lambda>eps. gateways_identified ex_view (List.map_filter (enforcedOn (\<lambda>_ _. True) ex_locator ex_limit_topo ex_view ex_route_rlp) (map snd eps)))
      (case st_EffectiveRateLimitPolicies ex_effective_state of None \<Rightarrow> [] | Some eps \<Rightarrow> [eps])"
    by (simp add: st on gateways_identified_def List.map_filter_simps)
  show ?thesis
    unfolding rlp_enforced_iff [OF id] using st on full sync issues kuadrant limits
    by (simp add: List.map_filter_simps)
qed

section \<open>Statuses\<close>

text \<open>
  What the library promises of its condition helpers: setting a condition replaces or adds the one
  of its type, removing a type removes it, and both leave the other types alone.
\<close>

definition cond_laws :: "set_cond \<Rightarrow> remove_cond \<Rightarrow> find_cond \<Rightarrow> bool" where
  "cond_laws setCond removeCond findCond \<longleftrightarrow>
     (\<forall>cs c ty. findCond (setCond cs c) ty = (if ty = cond_Type c then Some c else findCond cs ty)) \<and>
     (\<forall>cs ty ty'. findCond (removeCond cs ty) ty' = (if ty' = ty then None else findCond cs ty'))"

lemma status_conditions:
  assumes "cond_laws setCond removeCond findCond" "cond_Type enforcedCond = PolicyConditionEnforced"
  shows "findCond (ps_Conditions (newPolicyStatus setCond removeCond (AcceptedCondition nn kind err) accepted enforcedCond policy)) ty =
    (if ty = PolicyConditionAccepted then Some (AcceptedCondition nn kind err)
     else if ty = PolicyConditionEnforced then if accepted then Some enforcedCond else None
     else findCond (pol_Conditions policy) ty)"
  using assms by (simp add: cond_laws_def newPolicyStatus_def Let_def)

text \<open>
  The comparison of the new status with the old one is between a pointer and a value: it never
  holds, and a status is written in every reconciliation, changed or not.
\<close>

lemma status_always_written: "statusToWrite policy newStatus = Some (newStatus\<lparr>ps_ObservedGeneration := pol_Generation policy\<rparr>)"
  by (simp add: statusToWrite_def)

lemma foldl_writes:
  assumes "\<And>acc p. p \<in> set ps \<Longrightarrow> fst (f acc p) = (if Q p then fst acc @ [g p] else fst acc)"
  shows "fst (foldl f acc ps) = fst acc @ map g (filter Q ps)"
  using assms by (induction ps arbitrary: acc) auto

lemma rlp_updates:
  "fst (RateLimitPolicyStatusUpdater_UpdateStatus setCond removeCond isTrue findCond env nn locator now update topo ev es st stored) =
     map (\<lambda>policy. (policy_locator locator (pol policy),
       (newPolicyStatus setCond removeCond (AcceptedCondition nn RateLimitPolicyKind (snd (rateLimitPolicyAcceptedStatusFunc findCond locator st policy)))
         (fst (rateLimitPolicyAcceptedStatusFunc findCond locator st policy))
         (RateLimitPolicyStatusUpdater_enforcedCondition isTrue env nn locator topo ev es st (the (asRateLimitPolicy (pol policy)))) policy)
           \<lparr>ps_ObservedGeneration := pol_Generation policy\<rparr>))
       (filter (\<lambda>policy. asRateLimitPolicy (pol policy) \<noteq> None \<and> \<not> pol_Deleted policy) (tv_Policies topo))"
  unfolding RateLimitPolicyStatusUpdater_UpdateStatus_def
  by (subst foldl_writes) (auto simp: writeStatus_def status_always_written Let_def case_prod_beta split: option.splits)

lemma rlp_validated_status:
  assumes "distinct (map (\<lambda>p. policy_locator locator (pol p)) (tv_Policies topo))" "p \<in> set (tv_Policies topo)"
    and "asRateLimitPolicy (pol p) = Some a" "st' = RateLimitPolicyValidator_Validate notFound locator r topo st"
  shows "fst (rateLimitPolicyAcceptedStatusFunc findCond locator st' p) \<longleftrightarrow> snd (rateLimitPolicyAcceptedStatusFunc findCond locator st' p) = None"
  using results_of_lookup [OF assms(1,2)] assms(3)
  by (simp add: assms(4) rateLimitPolicyAcceptedStatusFunc_def Validate_results)

text \<open>
  After validation, the status of every rate limit policy of the topology that is not being
  deleted is written, once, with the generation of the policy.  It says that the policy is accepted
  exactly when the operators it needs are installed and its target exists; and it has an enforced
  condition exactly when the policy is accepted.
\<close>

theorem rlp_status_reports_validation:
  assumes "cond_laws setCond removeCond findCond" "distinct (map (\<lambda>p. policy_locator locator (pol p)) (tv_Policies topo))"
  shows "list_all2 (\<lambda>policy (policyLocator, status). policyLocator = policy_locator locator (pol policy) \<and>
      ps_ObservedGeneration status = pol_Generation policy \<and>
      (let ok = (val_isGatewayAPIInstalled r \<and> val_isGatewayProviderInstalled r \<and> val_isOperatorInstalled r \<and> tv_Targets topo policy \<noteq> [])
       in map_option cond_Status (findCond (ps_Conditions status) PolicyConditionAccepted) = Some (if ok then ''True'' else ''False'') \<and>
          (findCond (ps_Conditions status) PolicyConditionEnforced \<noteq> None \<longleftrightarrow> ok)))
    (filter (\<lambda>policy. asRateLimitPolicy (pol policy) \<noteq> None \<and> \<not> pol_Deleted policy) (tv_Policies topo))
    (fst (RateLimitPolicyStatusUpdater_UpdateStatus setCond removeCond isTrue findCond env nn locator now update topo ev es
      (RateLimitPolicyValidator_Validate notFound locator r topo st) stored))"
proof -
  let ?st = "RateLimitPolicyValidator_Validate notFound locator r topo st"
  let ?e = "\<lambda>p. RateLimitPolicyStatusUpdater_enforcedCondition isTrue env nn locator topo ev es ?st p"
  have enf: "cond_Type (?e p) = PolicyConditionEnforced" for p
    by (auto simp: RateLimitPolicyStatusUpdater_enforcedCondition_def Let_def lastChecks_def split: option.splits sum.splits)
  have ok: "fst (rateLimitPolicyAcceptedStatusFunc findCond locator ?st p) =
      (val_isGatewayAPIInstalled r \<and> val_isGatewayProviderInstalled r \<and> val_isOperatorInstalled r \<and> tv_Targets topo p \<noteq> []) \<and>
      (snd (rateLimitPolicyAcceptedStatusFunc findCond locator ?st p) = None \<longleftrightarrow> fst (rateLimitPolicyAcceptedStatusFunc findCond locator ?st p))"
    if p: "p \<in> set (tv_Policies topo)" "asRateLimitPolicy (pol p) \<noteq> None" for p
  proof -
    obtain a where a: "asRateLimitPolicy (pol p) = Some a" using p(2) by blast
    show ?thesis
      using validation_rlp [OF assms(2) p(1) a, of findCond notFound r st] rlp_validated_status [OF assms(2) p(1) a refl, of findCond notFound r st]
      by (simp add: isRateLimitPolicyAcceptedFunc_def)
  qed
  show ?thesis
    unfolding rlp_updates list.rel_map
  proof (rule list.rel_refl_strong, goal_cases)
    case (1 policy)
    then have p: "policy \<in> set (tv_Policies topo)" "asRateLimitPolicy (pol policy) \<noteq> None" by auto
    note s = status_conditions [OF assms(1) enf, where nn = nn and kind = RateLimitPolicyKind and policy = policy]
    show ?case using ok [OF p] by (simp add: s Let_def)
  qed
qed

text \<open>\<open>meta.SetStatusCondition\<close> and \<open>meta.RemoveStatusCondition\<close> on conditions without times.\<close>

definition ex_setCond :: set_cond where
  "ex_setCond cs c = (if list_ex (\<lambda>d. cond_Type d = cond_Type c) cs
     then map (\<lambda>d. if cond_Type d = cond_Type c then c else d) cs else cs @ [c])"

definition ex_removeCond :: remove_cond where
  "ex_removeCond cs ty = filter (\<lambda>d. cond_Type d \<noteq> ty) cs"

lemma find_replaced_other:
  "ty \<noteq> cond_Type c \<Longrightarrow> find (\<lambda>d. cond_Type d = ty) (map (\<lambda>d. if cond_Type d = cond_Type c then c else d) cs) = find (\<lambda>d. cond_Type d = ty) cs"
  by (induction cs) auto

lemma find_replaced_same:
  "list_ex (\<lambda>d. cond_Type d = cond_Type c) cs \<Longrightarrow>
     find (\<lambda>d. cond_Type d = cond_Type c) (map (\<lambda>d. if cond_Type d = cond_Type c then c else d) cs) = Some c"
  by (induction cs) auto

lemma find_appended: "find P (cs @ [c]) = (case find P cs of Some d \<Rightarrow> Some d | None \<Rightarrow> if P c then Some c else None)"
  by (induction cs) auto

lemma ex_cond_laws: "cond_laws ex_setCond ex_removeCond ex_find"
proof -
  have "ex_find (ex_setCond cs c) ty = (if ty = cond_Type c then Some c else ex_find cs ty)" for cs c ty
  proof (cases "list_ex (\<lambda>d. cond_Type d = cond_Type c) cs")
    case True
    then show ?thesis by (simp add: ex_find_def ex_setCond_def find_replaced_same find_replaced_other)
  next
    case False
    then have "find (\<lambda>d. cond_Type d = cond_Type c) cs = None" by (auto simp: find_None_iff list_ex_iff)
    with False show ?thesis by (auto simp: ex_find_def ex_setCond_def find_appended split: option.splits)
  qed
  moreover have "ex_find (ex_removeCond cs ty) ty' = (if ty' = ty then None else ex_find cs ty')" for cs ty ty'
    by (induction cs) (auto simp: ex_find_def ex_removeCond_def)
  ultimately show ?thesis by (simp add: cond_laws_def)
qed

theorem rlp_status_reports_validation_witness:
  "map fst (fst (RateLimitPolicyStatusUpdater_UpdateStatus ex_setCond ex_removeCond (\<lambda>_ _. True) ex_find ex_default_env ex_nn ex_locator 0 (\<lambda>_ _. None)
      ex_limit_topo ex_view ex_nothing_modified (RateLimitPolicyValidator_Validate (\<lambda>_ _. []) ex_locator ex_installed ex_limit_topo ex_state) None)) =
     [''RateLimitPolicy:ns/route-rlp'']"
proof -
  have policies: "filter (\<lambda>policy. asRateLimitPolicy (pol policy) \<noteq> None \<and> \<not> pol_Deleted policy) (tv_Policies ex_limit_topo) =
      [ex_obj (RateLimitPolicyObj ex_route_rlp)]"
    by (simp add: ex_limit_topo_def ex_obj_def)
  have "distinct (map (\<lambda>p. policy_locator ex_locator (pol p)) (tv_Policies ex_limit_topo))" by code_simp
  from rlp_status_reports_validation [OF ex_cond_laws this, of ex_installed "\<lambda>_ _. True" ex_default_env ex_nn 0 "\<lambda>_ _. None" ex_view
      ex_nothing_modified "\<lambda>_ _. []" ex_state None]
  show ?thesis
    unfolding policies
    by (clarsimp simp only: list_all2_Cons1 list_all2_Nil split_paired_all prod.case list.map fst_conv)
      (simp add: ex_obj_def RateLimitPolicy_GetLocator_def ex_locator_def ex_route_rlp_def)
qed

section \<open>Oddities of the statuses\<close>

text \<open>
  When the validator did not run, the error is the stored message, and the new message wraps it
  again: it grows by the same prefix in each such reconciliation, and the reason becomes
  \<open>Unknown\<close>.
\<close>

lemma stored_message_wrapped_again:
  assumes "st_RateLimitPolicyValid st = None" "asRateLimitPolicy (pol policy) \<noteq> None"
    and "findCond (pol_Conditions policy) PolicyConditionAccepted = Some c" "cond_Status c \<noteq> ''True''"
  shows "cond_Message (AcceptedCondition nn RateLimitPolicyKind (snd (rateLimitPolicyAcceptedStatusFunc findCond locator st policy))) =
      ''RateLimitPolicy has encountered some issues: '' @ cond_Message c"
    and "cond_Reason (AcceptedCondition nn RateLimitPolicyKind (snd (rateLimitPolicyAcceptedStatusFunc findCond locator st policy))) = ''Unknown''"
  using assms by (auto simp: rateLimitPolicyAcceptedStatusFunc_def rateLimitPolicyAcceptedStatus_def acceptedFromCondition_def AcceptedCondition_def Let_def)

text \<open>A policy without a stored condition is then reported as accepted, and not treated as accepted.\<close>

lemma accepted_without_validation:
  assumes "st_RateLimitPolicyValid st = None" "asRateLimitPolicy (pol policy) \<noteq> None"
    and "findCond (pol_Conditions policy) PolicyConditionAccepted = None"
  shows "rateLimitPolicyAcceptedStatusFunc findCond locator st policy = (False, None)"
    and "cond_Status (AcceptedCondition nn RateLimitPolicyKind (snd (rateLimitPolicyAcceptedStatusFunc findCond locator st policy))) = ''True''"
  using assms by (auto simp: rateLimitPolicyAcceptedStatusFunc_def rateLimitPolicyAcceptedStatus_def acceptedFromCondition_def)

text \<open>
  A token rate limit policy with an effective policy on a path that is not valid: the status
  updater panics where the other two skip the path.
\<close>

lemma invalid_path_panics:
  assumes "inPath locator topo policyLocator (ep_Path ep)" "po_Listener (ObjectsInRequestPath (ep_Path ep)) = None"
  shows "trackTokenRateLimitPath isTrue nn locator topo ev es keys policyLocator t ep = Panic ''nil pointer dereference''"
  using assms by (simp add: trackTokenRateLimitPath_def Let_def)

lemma invalid_path_example: "po_Listener (ObjectsInRequestPath [TGatewayClass (Some ex_gc), ex_http_rule]) = None"
  by (simp add: ObjectsInRequestPath_def ObjectsInHTTPRequestPath_def objectsInRequestPath_def ex_http_rule_def)

text \<open>
  For Envoy Gateway the patch policy is found by its kind alone: the one of the rate limit cluster,
  programmed, stands in for a missing one of the auth cluster.
\<close>

lemma patch_policy_by_kind_only:
  "gatewayComponentsToSync to_GroupKind gateway EnvoyPatchPolicyGroupKind None
     [ex_child EnvoyPatchPolicyGroupKind ''kuadrant-ratelimiting-gw''] (\<lambda>_. True) = []"
  by (simp add: gatewayComponentsToSync_def componentToSync_def ex_child_def)

end
