(* ===== verification/Gateway_Policies.thy ===== *)
theory Gateway_Policies
  imports Policy_Enforcement
begin

text \<open>
  What DNS policies and TLS policies share: both attach to a gateway or to one of its listeners,
  are not merged but compete for their target, and are validated in the same way
  (\<open>internal/controller/dnspolicies_validator.go\<close>, \<open>tlspolicies_validator.go\<close>).

  Gateways, listeners and certificate references are library types; of each the model has the
  fields that are read.  The topology, of the policy-machinery library, is the record
  \<open>gateway_topology\<close>: the policies of the kind in question, the children of policies and
  gateways among the targetables, and the policies attached to listeners and gateways.
\<close>

section \<open>Gateways and listeners\<close>

record GatewayStatusAddress =
  addr_Type :: "string option"
  addr_Value :: string

record SecretObjectReference =
  sor_Group :: "string option"
  sor_Kind :: "string option"
  sor_Namespace :: "string option"
  sor_Name :: string

record ListenerTLSConfig =
  ltls_Mode :: "string option"
  ltls_CertificateRefs :: "SecretObjectReference list"

text \<open>\<open>ng_AttachedRoutes\<close>: name and number of attached routes of each listener status.\<close>

record net_gateway =
  ng_Namespace :: string
  ng_Name :: string
  ng_Addresses :: "GatewayStatusAddress list"
  ng_AttachedRoutes :: "(string \<times> int) list"

record net_listener =
  nl_Gateway :: net_gateway
  nl_Name :: string
  nl_Hostname :: "string option"
  nl_TLS :: "ListenerTLSConfig option"

datatype net_target = ListenerTarget net_listener | GatewayTarget net_gateway | OtherTarget

section \<open>Policies\<close>

text \<open>The metadata, target and status that the two kinds have in common.\<close>

record gateway_policy =
  gp_Namespace :: string
  gp_Name :: string
  gp_CreationTimestamp :: int
  gp_Deleted :: bool
  gp_Generation :: int
  gp_ObservedGeneration :: int
  gp_Conditions :: "Condition list"
  gp_TargetRef :: LocalPolicyTargetReference

record 'p gateway_topology =
  gt_Policies :: "'p list"
  gt_Targets :: "'p \<Rightarrow> net_target list"
  gt_GatewayChildren :: "net_gateway \<Rightarrow> net_target list"
  gt_ListenerPolicies :: "net_listener \<Rightarrow> 'p list"
  gt_GatewayPolicies :: "net_gateway \<Rightarrow> 'p list"

definition GetTargetRefs :: "'a gateway_policy_scheme \<Rightarrow> (LocalPolicyTargetReference \<times> string) list" where
  "GetTargetRefs p = [(gp_TargetRef p, gp_Namespace p)]"

text \<open>The labels by which the watchers find the resources of the operator again.\<close>

definition CommonLabels :: "(string, string) gomap" where
  "CommonLabels = [(''app'', ''kuadrant''), (''app.kubernetes.io/component'', ''kuadrant''),
     (''app.kubernetes.io/managed-by'', ''kuadrant-operator''), (''app.kubernetes.io/instance'', ''kuadrant''),
     (''app.kubernetes.io/name'', ''kuadrant''), (''app.kubernetes.io/part-of'', ''kuadrant'')]"

section \<open>Validation\<close>

record gateway_policy_validator =
  gpv_isGatewayAPIInstalled :: bool
  gpv_isOperatorInstalled :: bool

definition gp_isMissingDependency :: "string \<Rightarrow> gateway_policy_validator \<Rightarrow> go_error option" where
  "gp_isMissingDependency operator r =
     (let missing = (if \<not> gpv_isGatewayAPIInstalled r then [''Gateway API''] else []);
          missing = (if \<not> gpv_isOperatorInstalled r then missing @ [operator] else missing)
      in if missing \<noteq> [] then Some (PolicyError (ErrDependencyNotInstalled missing)) else None)"

text \<open>\<open>notFound\<close> is the text of \<open>apierrors.NewNotFound\<close>.\<close>

definition isTargetRefsFound ::
  "(string \<Rightarrow> string \<Rightarrow> string) \<Rightarrow> string \<Rightarrow> 'a gateway_policy_scheme gateway_topology \<Rightarrow> 'a gateway_policy_scheme \<Rightarrow> go_error option" where
  "isTargetRefsFound notFound kind topo p =
     (if length (GetTargetRefs p) \<noteq> length (gt_Targets topo p)
      then Some (PolicyError (ErrTargetNotFound kind (gp_TargetRef p)
        (ForeignError (notFound ''gateways.gateway.networking.k8s.io'' (gp_Name p)) True)))
      else None)"

definition conflictsWith :: "'a gateway_policy_scheme \<Rightarrow> 'a gateway_policy_scheme \<Rightarrow> bool" where
  "conflictsWith p policy \<longleftrightarrow> p \<noteq> policy \<and> \<not> gp_Deleted policy \<and>
     gp_CreationTimestamp policy < gp_CreationTimestamp p \<and> GetTargetRefs policy = GetTargetRefs p"

definition isConflict ::
  "(string \<Rightarrow> string \<Rightarrow> string) \<Rightarrow> string \<Rightarrow> 'a gateway_policy_scheme list \<Rightarrow> 'a gateway_policy_scheme \<Rightarrow> go_error option" where
  "isConflict nn kind policies p =
     (case List.find (conflictsWith p) policies of None \<Rightarrow> None
      | Some conflictingP \<Rightarrow> Some (PolicyError (ErrConflict kind (nn (gp_Namespace conflictingP) (gp_Name conflictingP))
          (ForeignError ''conflicting policy'' False))))"

text \<open>The chain of checks in the loop of a validator; the last check is that of the kind.\<close>

definition gp_validatePolicy ::
  "(string \<Rightarrow> string \<Rightarrow> string) \<Rightarrow> (string \<Rightarrow> string \<Rightarrow> string) \<Rightarrow> string \<Rightarrow> go_error option \<Rightarrow> ('a gateway_policy_scheme \<Rightarrow> go_error option) \<Rightarrow>
   'a gateway_policy_scheme gateway_topology \<Rightarrow> 'a gateway_policy_scheme \<Rightarrow> go_error option" where
  "gp_validatePolicy notFound nn kind missingDep lastCheck topo p =
     (case missingDep of Some err \<Rightarrow> Some err
      | None \<Rightarrow> (case isTargetRefsFound notFound kind topo p of Some err \<Rightarrow> Some err
      | None \<Rightarrow> (case isConflict nn kind (gt_Policies topo) p of Some err \<Rightarrow> Some err
      | None \<Rightarrow> lastCheck p)))"

definition gp_locator :: "locator_fun \<Rightarrow> string \<Rightarrow> 'a gateway_policy_scheme \<Rightarrow> string" where
  "gp_locator locator kind p = locator kind (gp_Namespace p) (gp_Name p)"

definition gp_results :: "('p \<Rightarrow> string) \<Rightarrow> ('p \<Rightarrow> go_error option) \<Rightarrow> 'p list \<Rightarrow> valid_map" where
  "gp_results loc validate policies = foldl (\<lambda>m p. gm_set (loc p) (validate p) m) [] policies"

section \<open>Lemmas on validation\<close>

lemma gp_isMissingDependency_None [simp]:
  "gp_isMissingDependency operator r = None \<longleftrightarrow> gpv_isGatewayAPIInstalled r \<and> gpv_isOperatorInstalled r"
  by (simp add: gp_isMissingDependency_def Let_def)

lemma isTargetRefsFound_None [simp]: "isTargetRefsFound notFound kind topo p = None \<longleftrightarrow> length (gt_Targets topo p) = 1"
  by (auto simp: isTargetRefsFound_def GetTargetRefs_def)

lemma isConflict_None [simp]: "isConflict nn kind policies p = None \<longleftrightarrow> \<not> (\<exists>q \<in> set policies. conflictsWith p q)"
  by (auto simp: isConflict_def find_None_iff find_Some_iff split: option.splits)

lemma GetTargetRefs_eq [simp]: "GetTargetRefs p = GetTargetRefs q \<longleftrightarrow> gp_TargetRef p = gp_TargetRef q \<and> gp_Namespace p = gp_Namespace q"
  by (simp add: GetTargetRefs_def)

lemma gp_validatePolicy_None:
  "gp_validatePolicy notFound nn kind missingDep lastCheck topo p = None \<longleftrightarrow>
     missingDep = None \<and> length (gt_Targets topo p) = 1 \<and> \<not> (\<exists>q \<in> set (gt_Policies topo). conflictsWith p q) \<and> lastCheck p = None"
proof -
  have chain: "(case a of Some e \<Rightarrow> Some e | None \<Rightarrow> b) = None \<longleftrightarrow> a = None \<and> b = None" for a b :: "go_error option"
    by (cases a) auto
  show ?thesis unfolding gp_validatePolicy_def chain isTargetRefsFound_None isConflict_None by blast
qed

lemma gp_results_snoc: "gp_results loc validate (ps @ [p]) = gm_set (loc p) (validate p) (gp_results loc validate ps)"
  by (simp add: gp_results_def)

text \<open>Policies have different locators, so every policy finds its own result.\<close>

lemma gp_results_lookup:
  assumes "distinct (map loc policies)" "p \<in> set policies"
  shows "map_of (gp_results loc validate policies) (loc p) = Some (validate p)"
  using assms
proof (induction policies rule: rev_induct)
  case (snoc q ps)
  then have "p = q \<or> (p \<in> set ps \<and> loc p \<noteq> loc q)" by (force simp: image_iff)
  with snoc show ?case by (auto simp: gp_results_snoc)
qed simp

section \<open>The oldest policy of a target wins\<close>

text \<open>
  The contract of a validator with a check for conflicts: an accepted policy is at least as old as
  every live policy of the same target.
\<close>

locale oldest_policy_wins =
  fixes policies :: "'p list" and live :: "'p \<Rightarrow> bool" and created :: "'p \<Rightarrow> int" and target :: "'p \<Rightarrow> 't" and accepted :: "'p \<Rightarrow> bool"
  assumes accepted_no_older:
    "p \<in> set policies \<Longrightarrow> accepted p \<Longrightarrow> q \<in> set policies \<Longrightarrow> live q \<Longrightarrow> target q = target p \<Longrightarrow> created p \<le> created q"
begin

lemma accepted_same_age:
  assumes "p \<in> set policies" "q \<in> set policies" "accepted p" "accepted q" "live p" "live q" "target p = target q"
  shows "created p = created q"
  using accepted_no_older [of p q] accepted_no_older [of q p] assms by simp

text \<open>Where creation times differ, a target has at most one accepted live policy.\<close>

lemma accepted_unique:
  assumes "inj_on created (set policies)" "p \<in> set policies" "q \<in> set policies" "accepted p" "accepted q" "live p" "live q"
    and "target p = target q"
  shows "p = q"
  using inj_onD [OF assms(1) accepted_same_age [OF assms(2-8)] assms(2,3)] .

end

text \<open>The shared chain of checks keeps the contract, whatever the last check is.\<close>

interpretation gp: oldest_policy_wins "gt_Policies topo" "\<lambda>p. \<not> gp_Deleted p" gp_CreationTimestamp GetTargetRefs
    "\<lambda>p. gp_validatePolicy notFound nn kind missingDep lastCheck topo p = None"
  for notFound nn kind missingDep lastCheck topo
  by unfold_locales (force simp: gp_validatePolicy_None conflictsWith_def)

end
