(* ===== verification/DNS_Policy.thy ===== *)
theory DNS_Policy
  imports Gateway_Policies
begin

text \<open>
  DNS policies: the type (\<open>api/v1/dnspolicy_types.go\<close>), their validation
  (\<open>internal/controller/dnspolicies_validator.go\<close>), the records that the reconciler writes for the
  listeners of a policy (\<open>effective_dnspolicies_reconciler.go\<close>, \<open>dnspolicy_dnsrecords.go\<close>), the links
  between listeners, policies and records (\<open>dns_workflow.go\<close>) and the reported status
  (\<open>dnspolicy_status_updater.go\<close>).

  Parameters: the parsers of \<open>net\<close>, the builder of endpoints of the DNS operator, the API server's
  answer to an operation, the clock and the locators, all in the record \<open>dns_env\<close>.  The owner of a
  record is in the namespace of the record, so \<open>SetControllerReference\<close> does not fail; it is the
  field \<open>rec_Owners\<close>.
\<close>

section \<open>The policy\<close>

record HealthCheckSpec =
  hc_Path :: string
  hc_Port :: int
  hc_Protocol :: string
  hc_FailureThreshold :: int
  hc_Interval :: "int option"
  hc_AdditionalHeadersRef :: "string option"

record LoadBalancingSpec =
  lb_Weight :: int
  lb_Geo :: string
  lb_DefaultGeo :: bool

record DNSPolicy = gateway_policy +
  dns_HealthCheck :: "HealthCheckSpec option"
  dns_LoadBalancing :: "LoadBalancingSpec option"
  dns_ProviderRefs :: "string list"
  dns_ExcludeAddresses :: "string list"
  dns_Delegate :: bool

definition DNSPolicyKind :: string where "DNSPolicyKind = ''DNSPolicy''"

definition IsDefaultCode :: "string \<Rightarrow> bool" where "IsDefaultCode gc \<longleftrightarrow> gc = ''default''"
definition IsWildcard :: "string \<Rightarrow> bool" where "IsWildcard gc \<longleftrightarrow> gc = ''*''"

text \<open>\<open>ExcludeAddresses.Validate\<close>: every entry with a slash has to be a CIDR.\<close>

fun ExcludeAddresses_Validate :: "(string \<Rightarrow> string + 'n) \<Rightarrow> string list \<Rightarrow> string option" where
  "ExcludeAddresses_Validate ParseCIDR [] = None"
| "ExcludeAddresses_Validate ParseCIDR (exclude # ea) =
     (if Contains exclude ''/''
      then (case ParseCIDR exclude of
          Inl err \<Rightarrow> Some (''could not parse the CIDR from the excludeAddresses field '' @ err)
        | Inr network \<Rightarrow> ExcludeAddresses_Validate ParseCIDR ea)
      else ExcludeAddresses_Validate ParseCIDR ea)"

definition DNSPolicy_Validate :: "(string \<Rightarrow> string + 'n) \<Rightarrow> DNSPolicy \<Rightarrow> go_error option" where
  "DNSPolicy_Validate ParseCIDR p = map_option (\<lambda>err. ForeignError err False) (ExcludeAddresses_Validate ParseCIDR (dns_ExcludeAddresses p))"

section \<open>Validation\<close>

definition DNSPoliciesValidator_isMissingDependency :: "gateway_policy_validator \<Rightarrow> go_error option" where
  "DNSPoliciesValidator_isMissingDependency r = gp_isMissingDependency ''DNS Operator'' r"

definition dns_validatePolicy ::
  "(string \<Rightarrow> string + 'n) \<Rightarrow> (string \<Rightarrow> string \<Rightarrow> string) \<Rightarrow> (string \<Rightarrow> string \<Rightarrow> string) \<Rightarrow> gateway_policy_validator \<Rightarrow>
   DNSPolicy gateway_topology \<Rightarrow> DNSPolicy \<Rightarrow> go_error option" where
  "dns_validatePolicy ParseCIDR notFound nn r topo policy =
     gp_validatePolicy notFound nn DNSPolicyKind (DNSPoliciesValidator_isMissingDependency r) (DNSPolicy_Validate ParseCIDR) topo policy"

definition DNSPoliciesValidator_validate ::
  "(string \<Rightarrow> string + 'n) \<Rightarrow> (string \<Rightarrow> string \<Rightarrow> string) \<Rightarrow> (string \<Rightarrow> string \<Rightarrow> string) \<Rightarrow> locator_fun \<Rightarrow> gateway_policy_validator \<Rightarrow>
   DNSPolicy gateway_topology \<Rightarrow> valid_map" where
  "DNSPoliciesValidator_validate ParseCIDR notFound nn locator r topo =
     gp_results (gp_locator locator DNSPolicyKind) (dns_validatePolicy ParseCIDR notFound nn r topo) (gt_Policies topo)"

definition dnsPolicyAcceptedStatus :: "find_cond \<Rightarrow> DNSPolicy \<Rightarrow> bool \<times> go_error option" where
  "dnsPolicyAcceptedStatus findCond p =
     (case findCond (gp_Conditions p) PolicyConditionAccepted of None \<Rightarrow> (False, None)
      | Some condition \<Rightarrow>
        (let accepted = (cond_Status condition = ''True'')
         in (accepted, if \<not> accepted then Some (ForeignError (cond_Message condition) False) else None)))"

definition dnsPolicyAcceptedStatusFunc ::
  "find_cond \<Rightarrow> locator_fun \<Rightarrow> valid_map option \<Rightarrow> DNSPolicy \<Rightarrow> bool \<times> go_error option" where
  "dnsPolicyAcceptedStatusFunc findCond locator validated p =
     (case validated of None \<Rightarrow> dnsPolicyAcceptedStatus findCond p
      | Some m \<Rightarrow> (case map_of m (gp_locator locator DNSPolicyKind p) of
          Some err \<Rightarrow> (err = None, err)
        | None \<Rightarrow> dnsPolicyAcceptedStatus findCond p))"

section \<open>Records\<close>

record Endpoint =
  ep_DNSName :: string
  ep_RecordType :: string
  ep_Targets :: "string list"

record DNSRecordSpec =
  rs_RootHost :: string
  rs_HealthCheck :: "HealthCheckSpec option"
  rs_Delegate :: bool
  rs_ProviderRef :: "string option"
  rs_Endpoints :: "Endpoint list"

text \<open>\<open>rec_HealthCheck\<close>: the conditions of the health check status and those of its probes.\<close>

record DNSRecord =
  rec_Namespace :: string
  rec_Name :: string
  rec_Labels :: "(string, string) gomap"
  rec_Owners :: "OwnerReference list"
  rec_Deleted :: bool
  rec_Spec :: DNSRecordSpec
  rec_Conditions :: "Condition list"
  rec_HealthCheck :: "(Condition list \<times> Condition list list) option"

datatype record_op = CreateRecord DNSRecord | UpdateRecord DNSRecord | DeleteRecord DNSRecord

datatype dns_child = RecordChild DNSRecord | OtherChild string string

type_synonym endpoint_builder =
  "(string \<times> string) list \<Rightarrow> string \<Rightarrow> int \<Rightarrow> int \<Rightarrow> (string \<times> int \<times> string \<times> bool) option \<Rightarrow> string + Endpoint list"

record ('n, 'i) dns_env =
  de_ParseCIDR :: "string \<Rightarrow> string + 'n"
  de_ParseIP :: "string \<Rightarrow> 'i option"
  de_NetContains :: "'n \<Rightarrow> 'i \<Rightarrow> bool"
  de_Build :: endpoint_builder
  de_ClusterID :: string
  de_DefaultTTL :: int
  de_DefaultLoadBalancedTTL :: int
  de_Api :: "record_op \<Rightarrow> go_error option"
  de_Now :: int
  de_Locator :: locator_fun
  de_Owner :: "DNSPolicy \<Rightarrow> OwnerReference"

text \<open>\<open>getInt\<close> is \<open>env.GetInt\<close>: the value to use and, when the variable does not parse, an error.\<close>

definition dnsPolicyDefaultTTL :: "(string \<Rightarrow> int \<Rightarrow> int \<times> string option) \<Rightarrow> int \<Rightarrow> int \<times> string option" where
  "dnsPolicyDefaultTTL getInt builderDefault =
     (case getInt ''DNS_DEFAULT_TTL'' builderDefault of (ttl, err) \<Rightarrow>
       (ttl, map_option (\<lambda>e. ''DNS_DEFAULT_TTL env value could not be parsed as int, default '' @ itoa_int builderDefault @ '' will be used: '' @ e) err))"

definition dnsPolicyDefaultCnameTTL :: "(string \<Rightarrow> int \<Rightarrow> int \<times> string option) \<Rightarrow> int \<Rightarrow> int \<times> string option" where
  "dnsPolicyDefaultCnameTTL getInt builderDefault =
     (case getInt ''DNS_DEFAULT_LB_TTL'' builderDefault of (ttl, err) \<Rightarrow>
       (ttl, map_option (\<lambda>e. ''DNS_DEFAULT_LB_TTL env value could not be parsed as int, default '' @ itoa_int builderDefault @ '' will be used: '' @ e) err))"

definition dnsRecordName :: "string \<Rightarrow> string \<Rightarrow> string" where
  "dnsRecordName gatewayName listenerName = gatewayName @ ''-'' @ listenerName"

definition LabelListenerReference :: string where "LabelListenerReference = ''kuadrant.io/listener-name''"

text \<open>Whether an address of the gateway is excluded: the loop over the exclusions, which stops at a match.\<close>

fun isExcluded :: "('n, 'i) dns_env \<Rightarrow> string list \<Rightarrow> string \<Rightarrow> string + bool" where
  "isExcluded env [] addr = Inr False"
| "isExcluded env (exclude # es) addr =
     (if Contains exclude ''/''
      then (case de_ParseCIDR env exclude of
          Inl err \<Rightarrow> Inl (''could not parse the CIDR from the excludeAddresses field '' @ err)
        | Inr network \<Rightarrow>
            if (case de_ParseIP env addr of None \<Rightarrow> False | Some ip \<Rightarrow> de_NetContains env network ip) then Inr True
            else if exclude = addr then Inr True else isExcluded env es addr)
      else if exclude = addr then Inr True else isExcluded env es addr)"

fun RemoveExcludedStatusAddresses ::
  "('n, 'i) dns_env \<Rightarrow> string list \<Rightarrow> GatewayStatusAddress list \<Rightarrow> string + GatewayStatusAddress list" where
  "RemoveExcludedStatusAddresses env excludes [] = Inr []"
| "RemoveExcludedStatusAddresses env excludes (a # as) =
     ebind (isExcluded env excludes (addr_Value a)) (\<lambda>found.
       ebind (RemoveExcludedStatusAddresses env excludes as) (\<lambda>rest. Inr (if found then rest else a # rest)))"

text \<open>The addresses that the builder reads; a nil type is dereferenced.\<close>

fun GetAddresses :: "GatewayStatusAddress list \<Rightarrow> (string \<times> string) list go_result" where
  "GetAddresses [] = Return []"
| "GetAddresses (a # as) = (case addr_Type a of None \<Rightarrow> Panic ''nil pointer dereference''
     | Some ty \<Rightarrow> gbind (GetAddresses as) (\<lambda>rest. Return ((ty, addr_Value a) # rest)))"

definition buildEndpoints ::
  "('n, 'i) dns_env \<Rightarrow> string \<Rightarrow> net_gateway \<Rightarrow> DNSPolicy \<Rightarrow> (string + Endpoint list) go_result" where
  "buildEndpoints env hostname gateway policy =
     (case RemoveExcludedStatusAddresses env (dns_ExcludeAddresses policy) (ng_Addresses gateway) of
        Inl err \<Rightarrow> Return (Inl (''failed to reconcile gateway dns records error: '' @ err @ '' ''))
      | Inr addresses \<Rightarrow>
        gbind (GetAddresses addresses) (\<lambda>targets. Return (de_Build env targets hostname (de_DefaultTTL env) (de_DefaultLoadBalancedTTL env)
          (map_option (\<lambda>lb. (de_ClusterID env, lb_Weight lb, lb_Geo lb, lb_DefaultGeo lb)) (dns_LoadBalancing policy)))))"

definition desiredDNSRecord ::
  "('n, 'i) dns_env \<Rightarrow> net_gateway \<Rightarrow> DNSPolicy \<Rightarrow> net_listener \<Rightarrow> (string + DNSRecord) go_result" where
  "desiredDNSRecord env gateway dnsPolicy targetListener =
     (case nl_Hostname targetListener of None \<Rightarrow> Panic ''nil pointer dereference''
      | Some rootHost \<Rightarrow>
        gbind (buildEndpoints env rootHost gateway dnsPolicy) (\<lambda>result. Return
          (case result of Inl err \<Rightarrow> Inl (''failed to generate dns record for a gateway '' @ ng_Name gateway @ '' in '' @ ng_Namespace gateway @ '' ns: '' @ err)
           | Inr endpoints \<Rightarrow> Inr
             \<lparr>rec_Namespace = gp_Namespace dnsPolicy, rec_Name = dnsRecordName (ng_Name gateway) (nl_Name targetListener),
              rec_Labels = gm_set LabelListenerReference (nl_Name targetListener) CommonLabels,
              rec_Owners = [de_Owner env dnsPolicy], rec_Deleted = False,
              rec_Spec = \<lparr>rs_RootHost = rootHost, rs_HealthCheck = dns_HealthCheck dnsPolicy, rs_Delegate = dns_Delegate dnsPolicy,
                rs_ProviderRef = (if length (dns_ProviderRefs dnsPolicy) > 0 then Some (dns_ProviderRefs dnsPolicy ! 0) else None),
                rs_Endpoints = endpoints\<rparr>,
              rec_Conditions = [], rec_HealthCheck = None\<rparr>)))"

section \<open>Links\<close>

definition LinkListenerToDNSRecord :: "net_listener list \<Rightarrow> DNSRecord \<Rightarrow> net_listener list" where
  "LinkListenerToDNSRecord listeners dnsRecord =
     filter (\<lambda>l. ng_Namespace (nl_Gateway l) = rec_Namespace dnsRecord \<and>
       rec_Name dnsRecord = dnsRecordName (ng_Name (nl_Gateway l)) (nl_Name l)) listeners"

definition LinkDNSPolicyToDNSRecord :: "(string \<Rightarrow> string option) \<Rightarrow> DNSPolicy list \<Rightarrow> DNSRecord \<Rightarrow> DNSPolicy list" where
  "LinkDNSPolicyToDNSRecord parseGroup policies dnsRecord =
     filter (\<lambda>p. IsOwnedBy parseGroup
       \<lparr>obj_Group = ''kuadrant.io'', obj_Kind = ''DNSRecord'', obj_Namespace = rec_Namespace dnsRecord, obj_Name = rec_Name dnsRecord,
        obj_Annotations = None, obj_OwnerReferences = rec_Owners dnsRecord\<rparr>
       \<lparr>obj_Group = ''kuadrant.io'', obj_Kind = DNSPolicyKind, obj_Namespace = gp_Namespace p, obj_Name = gp_Name p,
        obj_Annotations = None, obj_OwnerReferences = []\<rparr>) policies"

section \<open>The reconciler\<close>

text \<open>
  The listeners of a policy.  For a gateway the code asks each child for its policies before it
  looks at the success of the type assertion: a child that is not a listener is a nil listener.
\<close>

fun gatewayListeners :: "'p gateway_topology \<Rightarrow> net_target list \<Rightarrow> net_listener list go_result" where
  "gatewayListeners topo [] = Return []"
| "gatewayListeners topo (t # ts) =
     (case t of ListenerTarget l \<Rightarrow>
        gbind (gatewayListeners topo ts) (\<lambda>rest. Return (if length (gt_ListenerPolicies topo l) = 0 then l # rest else rest))
      | _ \<Rightarrow> Panic ''nil pointer dereference'')"

fun listenersOfTargets :: "'p gateway_topology \<Rightarrow> net_target list \<Rightarrow> net_listener list go_result" where
  "listenersOfTargets topo [] = Return []"
| "listenersOfTargets topo (t # ts) =
     (case t of ListenerTarget l \<Rightarrow> gbind (listenersOfTargets topo ts) (\<lambda>rest. Return (l # rest))
      | GatewayTarget g \<Rightarrow> gbind (gatewayListeners topo (gt_GatewayChildren topo g)) (\<lambda>ls.
          gbind (listenersOfTargets topo ts) (\<lambda>rest. Return (ls @ rest)))
      | OtherTarget \<Rightarrow> listenersOfTargets topo ts)"

definition listenersForPolicy :: "'p gateway_topology \<Rightarrow> 'p \<Rightarrow> net_listener list go_result" where
  "listenersForPolicy topo policy = listenersOfTargets topo (gt_Targets topo policy)"

definition canUpdateDNSRecord :: "DNSRecord \<Rightarrow> DNSRecord \<Rightarrow> bool" where
  "canUpdateDNSRecord current desired \<longleftrightarrow>
     rs_RootHost (rec_Spec current) = rs_RootHost (rec_Spec desired) \<and>
     list_all (\<lambda>curEp. list_all (\<lambda>desEp. ep_DNSName curEp = ep_DNSName desEp \<longrightarrow> ep_RecordType curEp = ep_RecordType desEp)
       (rs_Endpoints (rec_Spec desired))) (rs_Endpoints (rec_Spec current))"

record dns_state =
  ds_Ops :: "record_op list"
  ds_Errors :: error_map
  ds_PolicyErrors :: "(string, string) gomap"

fun op_record :: "record_op \<Rightarrow> string \<times> DNSRecord" where
  "op_record (CreateRecord r) = (''create'', r)"
| "op_record (UpdateRecord r) = (''update'', r)"
| "op_record (DeleteRecord r) = (''delete'', r)"

text \<open>A call of the API server; its error is recorded for a retry.\<close>

definition callApi :: "('n, 'i) dns_env \<Rightarrow> record_op \<Rightarrow> dns_state \<Rightarrow> dns_state" where
  "callApi env operation st =
     (let st = st\<lparr>ds_Ops := ds_Ops st @ [operation]\<rparr>
      in case de_Api env operation of None \<Rightarrow> st
         | Some err \<Rightarrow> st\<lparr>ds_Errors := Registry_Record (de_Now env) ''EffectiveDNSPoliciesReconciler'' (fst (op_record operation))
             (rec_Namespace (snd (op_record operation)), rec_Name (snd (op_record operation))) ''DNSRecord.kuadrant.io''
             (Error_text (\<lambda>_ _. []) err) (ds_Errors st)\<rparr>)"

definition deleteRecord :: "('n, 'i) dns_env \<Rightarrow> DNSRecord \<Rightarrow> dns_state \<Rightarrow> dns_state" where
  "deleteRecord env record st =
     (if rec_Deleted record then st
      else case de_Api env (DeleteRecord record) of
         Some err \<Rightarrow> if IsNotFound err then st\<lparr>ds_Ops := ds_Ops st @ [DeleteRecord record]\<rparr> else callApi env (DeleteRecord record) st
       | None \<Rightarrow> callApi env (DeleteRecord record) st)"

definition ErrNoRoutes_text :: string where "ErrNoRoutes_text = ''no routes attached to any gateway listeners''"
definition ErrNoAddresses_text :: string where "ErrNoAddresses_text = ''no valid status addresses to use on gateway''"

definition attachedRoute :: "net_listener \<Rightarrow> bool" where
  "attachedRoute l = (case map_of (ng_AttachedRoutes (nl_Gateway l)) (nl_Name l) of None \<Rightarrow> False | Some n \<Rightarrow> n > 0)"

fun isListenerRecord :: "net_listener \<Rightarrow> dns_child \<Rightarrow> bool" where
  "isListenerRecord l (RecordChild r) \<longleftrightarrow>
     rec_Namespace r = ng_Namespace (nl_Gateway l) \<and> rec_Name r = dnsRecordName (ng_Name (nl_Gateway l)) (nl_Name l)"
| "isListenerRecord l (OtherChild ns name) \<longleftrightarrow> False"

definition existingRecord :: "(net_listener \<Rightarrow> dns_child list) \<Rightarrow> net_listener \<Rightarrow> DNSRecord option" where
  "existingRecord children l = (case List.find (isListenerRecord l) (children l) of Some (RecordChild r) \<Rightarrow> Some r | _ \<Rightarrow> None)"

text \<open>What is done for a listener with its desired record; the second result is the \<open>break\<close> of the loop.\<close>

definition reconcileRecord ::
  "('n, 'i) dns_env \<Rightarrow> DNSRecord option \<Rightarrow> bool \<Rightarrow> DNSRecord \<Rightarrow> dns_state \<Rightarrow> dns_state \<times> bool" where
  "reconcileRecord env existing hasAttachedRoute desired st =
     (case existing of
        Some current \<Rightarrow>
          if \<not> hasAttachedRoute \<or> length (rs_Endpoints (rec_Spec desired)) = 0 then (deleteRecord env current st, False)
          else if \<not> canUpdateDNSRecord current desired then (deleteRecord env current st, True)
          else if rec_Spec current = rec_Spec desired then (st, False)
          else (callApi env (UpdateRecord (current\<lparr>rec_Spec := rec_Spec desired\<rparr>)) st, False)
      | None \<Rightarrow>
          if \<not> hasAttachedRoute then (st, False)
          else if length (rs_Endpoints (rec_Spec desired)) = 0 then (st, False)
          else (callApi env (CreateRecord desired) st, False))"

text \<open>The loop over the listeners, with the two flags of the gateway.\<close>

fun reconcileListeners ::
  "('n, 'i) dns_env \<Rightarrow> (net_listener \<Rightarrow> dns_child list) \<Rightarrow> DNSPolicy \<Rightarrow> net_listener list \<Rightarrow> dns_state \<times> bool \<times> bool \<Rightarrow>
   (dns_state \<times> bool \<times> bool) go_result" where
  "reconcileListeners env children policy [] acc = Return acc"
| "reconcileListeners env children policy (l # ls) (st, hasRoutes, hasAddresses) =
     (if nl_Hostname l = None \<or> nl_Hostname l = Some [] then reconcileListeners env children policy ls (st, hasRoutes, hasAddresses)
      else let hasAddresses = (hasAddresses \<or> length (ng_Addresses (nl_Gateway l)) > 0);
               hasAttachedRoute = attachedRoute l;
               hasRoutes = (hasRoutes \<or> hasAttachedRoute)
        in gbind (desiredDNSRecord env (nl_Gateway l) policy l) (\<lambda>result.
             case result of Inl err \<Rightarrow> reconcileListeners env children policy ls (st, hasRoutes, hasAddresses)
             | Inr desired \<Rightarrow>
               (let st = (if length (rs_Endpoints (rec_Spec desired)) = 0
                      then st\<lparr>ds_PolicyErrors := gm_set (gp_locator (de_Locator env) DNSPolicyKind policy) ErrNoAddresses_text (ds_PolicyErrors st)\<rparr>
                      else st);
                    (st, stop) = reconcileRecord env (existingRecord children l) hasAttachedRoute desired st
                in if stop then Return (st, hasRoutes, hasAddresses)
                   else reconcileListeners env children policy ls (st, hasRoutes, hasAddresses))))"

definition reconcilePolicy ::
  "('n, 'i) dns_env \<Rightarrow> find_cond \<Rightarrow> (net_listener \<Rightarrow> dns_child list) \<Rightarrow> DNSPolicy gateway_topology \<Rightarrow> valid_map option \<Rightarrow>
   dns_state \<Rightarrow> DNSPolicy \<Rightarrow> dns_state go_result" where
  "reconcilePolicy env findCond children topo validated st policy =
     (if gp_Deleted policy then Return st
      else if \<not> fst (dnsPolicyAcceptedStatusFunc findCond (de_Locator env) validated policy) then Return st
      else gbind (listenersForPolicy topo policy) (\<lambda>listeners.
        gbind (reconcileListeners env children policy listeners (st, False, False)) (\<lambda>(st, hasRoutes, hasAddresses).
          Return (if \<not> hasAddresses
            then st\<lparr>ds_PolicyErrors := gm_set (gp_locator (de_Locator env) DNSPolicyKind policy) ErrNoAddresses_text (ds_PolicyErrors st)\<rparr>
            else if \<not> hasRoutes
            then st\<lparr>ds_PolicyErrors := gm_set (gp_locator (de_Locator env) DNSPolicyKind policy) ErrNoRoutes_text (ds_PolicyErrors st)\<rparr>
            else st))))"

text \<open>
  Records without a parent listener or gateway, without a parent policy, or without a path from
  the policy through a targetable.  \<open>ov_Paths\<close> counts the paths in the whole topology.
\<close>

record orphan_view =
  ov_Records :: "DNSRecord list"
  ov_Targetables :: "DNSRecord \<Rightarrow> nat"
  ov_Policies :: "DNSRecord \<Rightarrow> DNSPolicy list"
  ov_Paths :: "DNSPolicy \<Rightarrow> DNSRecord \<Rightarrow> nat"

definition isOrphan :: "orphan_view \<Rightarrow> DNSRecord \<Rightarrow> bool" where
  "isOrphan ov r =
     (if ov_Targetables ov r = 0 then True
      else case ov_Policies ov r of [] \<Rightarrow> True | p # _ \<Rightarrow> ov_Paths ov p r = 1)"

definition deleteOrphanDNSRecords :: "('n, 'i) dns_env \<Rightarrow> orphan_view \<Rightarrow> dns_state \<Rightarrow> dns_state" where
  "deleteOrphanDNSRecords env ov st = foldl (\<lambda>st r. deleteRecord env r st) st (filter (isOrphan ov) (ov_Records ov))"

text \<open>
  The reconciler.  The code writes the new specification into the record of the topology before
  the update; a later step of the run reads it only when two policies of the same age compete for a
  listener (see the section on validation), and the model leaves that out.  \<open>clusterUID\<close> is the answer of \<open>utils.GetClusterUID\<close>, whose error ends the run
  before anything is done.  An error of the settings is only logged.
\<close>

definition EffectiveDNSPoliciesReconciler_reconcile ::
  "('n, 'i) dns_env \<Rightarrow> (string \<Rightarrow> int \<Rightarrow> int \<times> string option) \<Rightarrow> int \<times> int \<Rightarrow> find_cond \<Rightarrow> (net_listener \<Rightarrow> dns_child list) \<Rightarrow>
   DNSPolicy gateway_topology \<Rightarrow> orphan_view \<Rightarrow> valid_map option \<Rightarrow> string + string \<Rightarrow> error_map option \<Rightarrow> (string + dns_state) go_result" where
  "EffectiveDNSPoliciesReconciler_reconcile env getInt builderDefaults findCond children topo ov validated clusterUID stored =
     (case clusterUID of Inl err \<Rightarrow> Return (Inl (''failed to generate cluster ID: '' @ err))
      | Inr clusterID \<Rightarrow>
        (let env = env\<lparr>de_ClusterID := clusterID, de_DefaultTTL := fst (dnsPolicyDefaultTTL getInt (fst builderDefaults)),
               de_DefaultLoadBalancedTTL := fst (dnsPolicyDefaultCnameTTL getInt (snd builderDefaults))\<rparr>;
             st = \<lparr>ds_Ops = [], ds_Errors = fst (GetOrCreateErrorRegistry stored), ds_PolicyErrors = []\<rparr>
         in gbind (gfold (reconcilePolicy env findCond children topo validated) st (gt_Policies topo))
              (\<lambda>st. Return (Inr (deleteOrphanDNSRecords env ov st)))))"

section \<open>The status\<close>

text \<open>\<open>isFalse\<close> is \<open>meta.IsStatusConditionFalse\<close>: the condition exists and is false.\<close>

record DNSPolicyStatus = policy_status +
  dps_RecordConditions :: "(string, Condition list) gomap option"
  dps_TotalRecords :: int

definition dnsPolicyHealthyCondition :: "(string \<Rightarrow> string \<Rightarrow> string) \<Rightarrow> policy_error option \<Rightarrow> Condition" where
  "dnsPolicyHealthyCondition nn err =
     (let cond = \<lparr>cond_Type = ''SubResourcesHealthy'', cond_Status = ''True'', cond_Reason = ''SubResourcesHealthy'',
            cond_Message = ''all subresources of '' @ DNSPolicyKind @ '' are healthy''\<rparr>
      in case err of None \<Rightarrow> cond
         | Some e \<Rightarrow> cond\<lparr>cond_Status := ''False'', cond_Message := Policy_Error nn e, cond_Reason := Policy_Reason e\<rparr>)"

definition recordNames :: "DNSRecord list \<Rightarrow> string" where
  "recordNames records = concat (map (\<lambda>r. rec_Name r @ '' '') records)"

definition dns_enforcedCondition :: "is_true \<Rightarrow> (string \<Rightarrow> string \<Rightarrow> string) \<Rightarrow> DNSRecord list \<Rightarrow> Condition" where
  "dns_enforcedCondition isFalse nn records =
     (if length records = 0
      then (EnforcedCondition nn DNSPolicyKind None True)\<lparr>cond_Message :=
        ''DNSPolicy has been successfully enforced : no DNSRecords created based on policy and gateway configuration''\<rparr>
      else let notReadyRecords = utils_Filter records (\<lambda>r. isFalse (rec_Conditions r) ''Ready'')
        in if length records > 0 \<and> length notReadyRecords = length records
           then EnforcedCondition nn DNSPolicyKind (Some (ErrUnknown DNSPolicyKind
             (ForeignError ''policy is not enforced on any DNSRecord: not a single DNSRecord is ready'' False))) False
           else if length notReadyRecords > 0
           then (let cond = EnforcedCondition nn DNSPolicyKind None False
             in cond\<lparr>cond_Message := cond_Message cond @ ''. Not ready DNSRecords are: '' @ recordNames notReadyRecords\<rparr>)
           else EnforcedCondition nn DNSPolicyKind None True)"

definition healthyCondition :: "is_true \<Rightarrow> (string \<Rightarrow> string \<Rightarrow> string) \<Rightarrow> DNSRecord list \<Rightarrow> Condition" where
  "healthyCondition isFalse nn records =
     (if length records = 0 then (dnsPolicyHealthyCondition nn None)\<lparr>cond_Message := ''No sub-resources present''\<rparr>
      else let notHealthyRecords = utils_Filter records (\<lambda>r. isFalse (rec_Conditions r) ''Healthy'')
        in if length notHealthyRecords = 0 then (dnsPolicyHealthyCondition nn None)\<lparr>cond_Message := ''All sub-resources are healthy''\<rparr>
           else (let cond = dnsPolicyHealthyCondition nn (Some (ErrUnknown DNSPolicyKind
               (ForeignError ''not all sub-resources of policy are passing the policy defined health check'' False)))
             in cond\<lparr>cond_Message := cond_Message cond @ ''. Not healthy DNSRecords are: '' @ recordNames notHealthyRecords\<rparr>))"

text \<open>
  \<open>propagateRecordConditions\<close>: the conditions of a record that report a problem, collected under its
  root host.  \<open>NegativePolarityConditions\<close> is a variable of the package that nothing sets.
\<close>

definition NegativePolarityConditions :: "string list" where "NegativePolarityConditions = []"

definition reportsProblem :: "Condition \<Rightarrow> bool" where
  "reportsProblem c \<longleftrightarrow>
     \<not> (cond_Type c \<in> set NegativePolarityConditions \<and> ToLower (cond_Status c) = ''false'') \<and>
     \<not> (cond_Type c \<notin> set NegativePolarityConditions \<and> ToLower (cond_Status c) = ''true'')"

definition allRecordConditions :: "DNSRecord \<Rightarrow> Condition list" where
  "allRecordConditions r = rec_Conditions r @
     (case rec_HealthCheck r of None \<Rightarrow> [] | Some (conditions, probes) \<Rightarrow> conditions @ concat probes)"

definition propagateRecordConditions :: "DNSRecord list \<Rightarrow> (string, Condition list) gomap" where
  "propagateRecordConditions records =
     foldl (\<lambda>m r. foldl (\<lambda>m c. if reportsProblem c
         then gm_set (rs_RootHost (rec_Spec r)) (Deref (map_of m (rs_RootHost (rec_Spec r))) [] @ [c]) m else m)
       m (allRecordConditions r)) [] records"

definition dnsPolicyErrorFunc :: "locator_fun \<Rightarrow> (string, string) gomap option \<Rightarrow> DNSPolicy \<Rightarrow> string option" where
  "dnsPolicyErrorFunc locator policyErrors policy =
     (case policyErrors of None \<Rightarrow> None | Some m \<Rightarrow> map_of m (gp_locator locator DNSPolicyKind policy))"

definition MaxInt32 :: int where "MaxInt32 = 2147483647"

definition newDNSStatus ::
  "set_cond \<Rightarrow> remove_cond \<Rightarrow> is_true \<Rightarrow> (string \<Rightarrow> string \<Rightarrow> string) \<Rightarrow> bool \<times> go_error option \<Rightarrow> string option \<Rightarrow> DNSRecord list \<Rightarrow>
   DNSPolicy \<Rightarrow> DNSPolicyStatus" where
  "newDNSStatus setCond removeCond isFalse nn accepted policyError policyRecords policy =
     (let conditions = setCond (gp_Conditions policy) (AcceptedCondition nn DNSPolicyKind (snd accepted))
      in if \<not> fst accepted
         then \<lparr>ps_Conditions = removeCond conditions PolicyConditionEnforced, ps_ObservedGeneration = gp_ObservedGeneration policy,
               dps_RecordConditions = None, dps_TotalRecords = 0\<rparr>
         else let enforcedCond = dns_enforcedCondition isFalse nn policyRecords;
                  enforcedCond = (case policyError of None \<Rightarrow> enforcedCond
                    | Some pErr \<Rightarrow> enforcedCond\<lparr>cond_Message := cond_Message enforcedCond @ '' : '' @ pErr\<rparr>);
                  conditions = setCond conditions enforcedCond;
                  conditions = (if dns_HealthCheck policy \<noteq> None then setCond conditions (healthyCondition isFalse nn policyRecords)
                    else removeCond conditions ''SubResourcesHealthy'')
              in \<lparr>ps_Conditions = conditions, ps_ObservedGeneration = gp_ObservedGeneration policy,
                  dps_RecordConditions = Some (propagateRecordConditions policyRecords),
                  dps_TotalRecords = (if int (length policyRecords) > MaxInt32 then MaxInt32 else int (length policyRecords))\<rparr>)"

text \<open>
  The loop of the updater: the statuses it writes.  \<open>records\<close> gives the records among the children
  of a policy, \<open>oldStatus\<close> the stored status, which the comparison takes as a value.
\<close>

definition DNSPolicyStatusUpdater_updateStatus ::
  "set_cond \<Rightarrow> remove_cond \<Rightarrow> is_true \<Rightarrow> find_cond \<Rightarrow> (string \<Rightarrow> string \<Rightarrow> string) \<Rightarrow> locator_fun \<Rightarrow> valid_map option \<Rightarrow>
   (string, string) gomap option \<Rightarrow> (DNSPolicy \<Rightarrow> DNSRecord list) \<Rightarrow> (DNSPolicy \<Rightarrow> DNSPolicyStatus) \<Rightarrow> DNSPolicy list \<Rightarrow>
   (string \<times> DNSPolicyStatus) list" where
  "DNSPolicyStatusUpdater_updateStatus setCond removeCond isFalse findCond nn locator validated policyErrors records oldStatus policies =
     foldl (\<lambda>writes policy.
       if gp_Deleted policy then writes
       else let newStatus = newDNSStatus setCond removeCond isFalse nn (dnsPolicyAcceptedStatusFunc findCond locator validated policy)
                  (dnsPolicyErrorFunc locator policyErrors policy) (records policy) policy
            in if Semantic_DeepEqual (StatusPtr newStatus) (StatusVal (oldStatus policy)) \<and> gp_Generation policy = gp_ObservedGeneration policy
               then writes
               else writes @ [(gp_locator locator DNSPolicyKind policy, newStatus\<lparr>ps_ObservedGeneration := gp_Generation policy\<rparr>)])
       [] policies"

section \<open>Validation is exclusive\<close>

lemma ExcludeAddresses_Validate_None:
  "ExcludeAddresses_Validate ParseCIDR ea = None \<longleftrightarrow> list_all (\<lambda>e. Contains e ''/'' \<longrightarrow> (\<exists>n. ParseCIDR e = Inr n)) ea"
  by (induction ea) (auto split: sum.splits)

lemma dns_validatePolicy_None:
  "dns_validatePolicy ParseCIDR notFound nn r topo p = None \<longleftrightarrow>
     gpv_isGatewayAPIInstalled r \<and> gpv_isOperatorInstalled r \<and> length (gt_Targets topo p) = 1 \<and>
     \<not> (\<exists>q \<in> set (gt_Policies topo). conflictsWith p q) \<and>
     list_all (\<lambda>e. Contains e ''/'' \<longrightarrow> (\<exists>n. ParseCIDR e = Inr n)) (dns_ExcludeAddresses p)"
  by (simp add: dns_validatePolicy_def gp_validatePolicy_None DNSPoliciesValidator_isMissingDependency_def DNSPolicy_Validate_def
      ExcludeAddresses_Validate_None)

lemma dns_validated:
  assumes "distinct (map (gp_locator locator DNSPolicyKind) (gt_Policies topo))" "p \<in> set (gt_Policies topo)"
  shows "dnsPolicyAcceptedStatusFunc findCond locator (Some (DNSPoliciesValidator_validate ParseCIDR notFound nn locator r topo)) p =
    (dns_validatePolicy ParseCIDR notFound nn r topo p = None, dns_validatePolicy ParseCIDR notFound nn r topo p)"
  using gp_results_lookup [OF assms] by (simp add: dnsPolicyAcceptedStatusFunc_def DNSPoliciesValidator_validate_def)

text \<open>The topology links a policy to the gateway or listener that its reference names.\<close>

definition refersTo :: "'a gateway_policy_scheme \<Rightarrow> net_gateway \<Rightarrow> string option \<Rightarrow> bool" where
  "refersTo p g section \<longleftrightarrow> gp_Namespace p = ng_Namespace g \<and>
     gp_TargetRef p = \<lparr>ref_Group = ''gateway.networking.k8s.io'', ref_Kind = ''Gateway'', ref_Name = ng_Name g, ref_SectionName = section\<rparr>"

fun target_ok :: "'a gateway_policy_scheme gateway_topology \<Rightarrow> 'a gateway_policy_scheme \<Rightarrow> net_target \<Rightarrow> bool" where
  "target_ok topo p (ListenerTarget l) \<longleftrightarrow> refersTo p (nl_Gateway l) (Some (nl_Name l)) \<and> p \<in> set (gt_ListenerPolicies topo l)"
| "target_ok topo p (GatewayTarget g) \<longleftrightarrow> refersTo p g None \<and>
     list_all (\<lambda>c. case c of ListenerTarget l \<Rightarrow> nl_Gateway l = g | _ \<Rightarrow> False) (gt_GatewayChildren topo g)"
| "target_ok topo p OtherTarget \<longleftrightarrow> False"

definition topology_ok :: "'a gateway_policy_scheme gateway_topology \<Rightarrow> bool" where
  "topology_ok topo \<longleftrightarrow> list_all (\<lambda>p. list_all (target_ok topo p) (gt_Targets topo p)) (gt_Policies topo)"

lemma gatewayListeners_Return:
  assumes "list_all (\<lambda>c. case c of ListenerTarget l \<Rightarrow> nl_Gateway l = g | _ \<Rightarrow> False) ts"
  shows "gatewayListeners topo ts = Return (filter (\<lambda>l. gt_ListenerPolicies topo l = []) (concat (map (\<lambda>c. case c of ListenerTarget l \<Rightarrow> [l] | _ \<Rightarrow> []) ts)))"
  using assms by (induction ts) (auto split: net_target.splits)

text \<open>The listeners of a policy in such a topology: no child of a gateway is anything else.\<close>

definition policyListeners :: "'p gateway_topology \<Rightarrow> 'p \<Rightarrow> net_listener list" where
  "policyListeners topo p = concat (map (\<lambda>t. case t of ListenerTarget l \<Rightarrow> [l]
     | GatewayTarget g \<Rightarrow> filter (\<lambda>l. gt_ListenerPolicies topo l = [])
         (concat (map (\<lambda>c. case c of ListenerTarget l \<Rightarrow> [l] | _ \<Rightarrow> []) (gt_GatewayChildren topo g)))
     | OtherTarget \<Rightarrow> []) (gt_Targets topo p))"

lemma listenersOfTargets_Return:
  assumes "list_all (target_ok topo p) ts"
  shows "listenersOfTargets topo ts = Return (concat (map (\<lambda>t. case t of ListenerTarget l \<Rightarrow> [l]
     | GatewayTarget g \<Rightarrow> filter (\<lambda>l. gt_ListenerPolicies topo l = [])
         (concat (map (\<lambda>c. case c of ListenerTarget l \<Rightarrow> [l] | _ \<Rightarrow> []) (gt_GatewayChildren topo g)))
     | OtherTarget \<Rightarrow> []) ts))"
  using assms
proof (induction ts)
  case (Cons t ts)
  then show ?case by (cases t) (auto simp: gatewayListeners_Return)
qed simp

lemma listenersForPolicy_Return:
  "topology_ok topo \<Longrightarrow> p \<in> set (gt_Policies topo) \<Longrightarrow> listenersForPolicy topo p = Return (policyListeners topo p)"
  unfolding listenersForPolicy_def policyListeners_def
  by (rule listenersOfTargets_Return [of topo p]) (auto simp: topology_ok_def list_all_iff)

text \<open>A listener comes from the reference to it, or from the one to its gateway when it has no policy.\<close>

lemma policyListeners_cases:
  assumes "topology_ok topo" "p \<in> set (gt_Policies topo)" "l \<in> set (policyListeners topo p)"
  obtains "refersTo p (nl_Gateway l) (Some (nl_Name l))" "p \<in> set (gt_ListenerPolicies topo l)"
  | "refersTo p (nl_Gateway l) None" "gt_ListenerPolicies topo l = []"
proof -
  obtain t where t: "t \<in> set (gt_Targets topo p)" and l: "l \<in> set (case t of ListenerTarget l \<Rightarrow> [l]
     | GatewayTarget g \<Rightarrow> filter (\<lambda>l. gt_ListenerPolicies topo l = [])
         (concat (map (\<lambda>c. case c of ListenerTarget l \<Rightarrow> [l] | _ \<Rightarrow> []) (gt_GatewayChildren topo g)))
     | OtherTarget \<Rightarrow> [])"
    using assms(3) by (auto simp: policyListeners_def)
  have ok: "target_ok topo p t" using assms(1,2) t by (auto simp: topology_ok_def list_all_iff)
  show thesis
  proof (cases t)
    case (ListenerTarget l')
    then show thesis using ok l that(1) by auto
  next
    case (GatewayTarget g)
    then have "nl_Gateway l = g" using ok l by (auto simp: list_all_iff split: net_target.splits)
    then show thesis using ok l GatewayTarget that(2) by auto
  qed (use ok in simp)
qed

lemma shared_listener_same_target:
  assumes "topology_ok topo" "p \<in> set (gt_Policies topo)" "q \<in> set (gt_Policies topo)"
    and "l \<in> set (policyListeners topo p)" "l \<in> set (policyListeners topo q)"
  shows "GetTargetRefs p = GetTargetRefs q"
  by (rule policyListeners_cases [OF assms(1,2,4)]; rule policyListeners_cases [OF assms(1,3,5)]) (auto simp: refersTo_def)


section \<open>Excluded addresses\<close>

definition excludes :: "('n, 'i) dns_env \<Rightarrow> string \<Rightarrow> string \<Rightarrow> bool" where
  "excludes env exclude addr \<longleftrightarrow> exclude = addr \<or> (Contains exclude ''/'' \<and>
     (\<exists>network ip. de_ParseCIDR env exclude = Inr network \<and> de_ParseIP env addr = Some ip \<and> de_NetContains env network ip))"

lemma isExcluded_valid:
  assumes "list_all (\<lambda>e. Contains e ''/'' \<longrightarrow> (\<exists>n. de_ParseCIDR env e = Inr n)) ea"
  shows "isExcluded env ea addr = Inr (\<exists>e \<in> set ea. excludes env e addr)"
  using assms by (induction ea) (auto simp: excludes_def split: option.splits)

lemma RemoveExcludedStatusAddresses_valid:
  assumes "list_all (\<lambda>e. Contains e ''/'' \<longrightarrow> (\<exists>n. de_ParseCIDR env e = Inr n)) ea"
  shows "RemoveExcludedStatusAddresses env ea addresses = Inr (filter (\<lambda>a. \<not> (\<exists>e \<in> set ea. excludes env e (addr_Value a))) addresses)"
  by (induction addresses) (simp_all add: isExcluded_valid [OF assms])

lemma GetAddresses_typed:
  "list_all (\<lambda>a. addr_Type a \<noteq> None) as \<Longrightarrow> GetAddresses as = Return (map (\<lambda>a. (the (addr_Type a), addr_Value a)) as)"
  by (induction as) auto

text \<open>
  C17.  The endpoints of a validated policy are built from exactly the addresses of the gateway that
  no exclusion names, by value or by network; the exclusions cannot make the record fail.
\<close>

theorem excluded_addresses_not_published:
  assumes "DNSPolicy_Validate (de_ParseCIDR env) policy = None" "list_all (\<lambda>a. addr_Type a \<noteq> None) (ng_Addresses gateway)"
  shows "buildEndpoints env hostname gateway policy =
    Return (de_Build env (map (\<lambda>a. (the (addr_Type a), addr_Value a))
        (filter (\<lambda>a. \<not> (\<exists>e \<in> set (dns_ExcludeAddresses policy). excludes env e (addr_Value a))) (ng_Addresses gateway)))
      hostname (de_DefaultTTL env) (de_DefaultLoadBalancedTTL env)
      (map_option (\<lambda>lb. (de_ClusterID env, lb_Weight lb, lb_Geo lb, lb_DefaultGeo lb)) (dns_LoadBalancing policy)))"
proof -
  have ea: "list_all (\<lambda>e. Contains e ''/'' \<longrightarrow> (\<exists>n. de_ParseCIDR env e = Inr n)) (dns_ExcludeAddresses policy)"
    using assms(1) by (simp add: DNSPolicy_Validate_def ExcludeAddresses_Validate_None)
  show ?thesis
    unfolding buildEndpoints_def RemoveExcludedStatusAddresses_valid [OF ea]
    using assms(2) by (simp add: GetAddresses_typed list_all_iff)
qed

section \<open>The reconciler is quiescent exactly when the records are in sync\<close>

definition typedAddresses :: "net_listener \<Rightarrow> bool" where
  "typedAddresses l \<longleftrightarrow> list_all (\<lambda>a. addr_Type a \<noteq> None) (ng_Addresses (nl_Gateway l))"

lemma removed_typed:
  "RemoveExcludedStatusAddresses env ea as = Inr bs \<Longrightarrow> list_all (\<lambda>a. addr_Type a \<noteq> None) as \<Longrightarrow> list_all (\<lambda>a. addr_Type a \<noteq> None) bs"
  by (induction as arbitrary: bs) (auto simp: ebind_eq_Inr split: if_splits)

lemma desiredDNSRecord_Return:
  assumes "typedAddresses l" "nl_Hostname l \<noteq> None"
  shows "\<exists>result. desiredDNSRecord env (nl_Gateway l) policy l = Return result"
proof -
  have "\<exists>result. buildEndpoints env h (nl_Gateway l) policy = Return result" for h
  proof (cases "RemoveExcludedStatusAddresses env (dns_ExcludeAddresses policy) (ng_Addresses (nl_Gateway l))")
    case (Inr addresses)
    then show ?thesis
      using GetAddresses_typed [OF removed_typed [OF Inr]] assms(1) by (simp add: buildEndpoints_def typedAddresses_def)
  qed (simp add: buildEndpoints_def)
  then show ?thesis using assms(2) by (auto simp: desiredDNSRecord_def)
qed

text \<open>
  What it means for a listener to be in sync: with routes and addresses, its record exists with the
  desired specification, and none of its names has two record types; otherwise there is no record.
\<close>

definition listener_in_sync :: "('n, 'i) dns_env \<Rightarrow> (net_listener \<Rightarrow> dns_child list) \<Rightarrow> DNSPolicy \<Rightarrow> net_listener \<Rightarrow> bool" where
  "listener_in_sync env children policy l \<longleftrightarrow>
     nl_Hostname l = None \<or> nl_Hostname l = Some [] \<or>
     (case desiredDNSRecord env (nl_Gateway l) policy l of Panic msg \<Rightarrow> False
      | Return (Inl err) \<Rightarrow> True
      | Return (Inr desired) \<Rightarrow>
          if attachedRoute l \<and> rs_Endpoints (rec_Spec desired) \<noteq> []
          then (case existingRecord children l of None \<Rightarrow> False
            | Some current \<Rightarrow> canUpdateDNSRecord current desired \<and> rec_Spec current = rec_Spec desired)
          else existingRecord children l = None)"

definition no_pending_deletion :: "(net_listener \<Rightarrow> dns_child list) \<Rightarrow> net_listener \<Rightarrow> bool" where
  "no_pending_deletion children l \<longleftrightarrow> (case existingRecord children l of None \<Rightarrow> True | Some r \<Rightarrow> \<not> rec_Deleted r)"

lemma callApi_ops [simp]: "ds_Ops (callApi env operation st) = ds_Ops st @ [operation]"
  by (simp add: callApi_def Let_def split: option.splits)

lemma deleteRecord_ops: "ds_Ops (deleteRecord env r st) = ds_Ops st @ (if rec_Deleted r then [] else [DeleteRecord r])"
  by (simp add: deleteRecord_def split: option.splits)

lemma reconcileRecord_ops:
  assumes "case existing of None \<Rightarrow> True | Some r \<Rightarrow> \<not> rec_Deleted r"
  shows "ds_Ops (fst (reconcileRecord env existing attached desired st)) = [] \<longleftrightarrow> ds_Ops st = [] \<and>
    (if attached \<and> rs_Endpoints (rec_Spec desired) \<noteq> []
     then (case existing of None \<Rightarrow> False | Some current \<Rightarrow> canUpdateDNSRecord current desired \<and> rec_Spec current = rec_Spec desired)
     else existing = None)"
    and "snd (reconcileRecord env existing attached desired st) \<Longrightarrow> ds_Ops (fst (reconcileRecord env existing attached desired st)) \<noteq> []"
  using assms by (auto simp: reconcileRecord_def deleteRecord_ops split: option.splits if_splits)

lemma reconcileListeners_quiescent:
  assumes "list_all (\<lambda>l. typedAddresses l \<and> no_pending_deletion children l) ls"
  shows "\<exists>st' a b. reconcileListeners env children policy ls (st, hr, ha) = Return (st', a, b) \<and>
    (ds_Ops st' = [] \<longleftrightarrow> ds_Ops st = [] \<and> list_all (listener_in_sync env children policy) ls)"
  using assms
proof (induction ls arbitrary: st hr ha)
  case (Cons l ls)
  show ?case
  proof (cases "nl_Hostname l = None \<or> nl_Hostname l = Some []")
    case True
    then have "listener_in_sync env children policy l" by (auto simp: listener_in_sync_def)
    then show ?thesis using Cons.IH [of st hr ha] Cons.prems True by auto
  next
    case False
    then obtain result where r: "desiredDNSRecord env (nl_Gateway l) policy l = Return result"
      using desiredDNSRecord_Return [of l] Cons.prems by auto
    show ?thesis
    proof (cases result)
      case (Inl err)
      then have "listener_in_sync env children policy l" using r by (simp add: listener_in_sync_def)
      then show ?thesis
        using Cons.IH [of st "hr \<or> attachedRoute l" "ha \<or> length (ng_Addresses (nl_Gateway l)) > 0"] Cons.prems False r Inl
        by (auto simp: Let_def)
    next
      case (Inr desired)
      define st1 where "st1 = (if length (rs_Endpoints (rec_Spec desired)) = 0
        then st\<lparr>ds_PolicyErrors := gm_set (gp_locator (de_Locator env) DNSPolicyKind policy) ErrNoAddresses_text (ds_PolicyErrors st)\<rparr> else st)"
      have ops1: "ds_Ops st1 = ds_Ops st" by (simp add: st1_def)
      obtain st2 stop where rr: "reconcileRecord env (existingRecord children l) (attachedRoute l) desired st1 = (st2, stop)"
        by (cases "reconcileRecord env (existingRecord children l) (attachedRoute l) desired st1")
      have pend: "case existingRecord children l of None \<Rightarrow> True | Some r \<Rightarrow> \<not> rec_Deleted r"
        using Cons.prems by (simp add: no_pending_deletion_def)
      have sync: "ds_Ops st2 = [] \<longleftrightarrow> ds_Ops st = [] \<and> listener_in_sync env children policy l"
        using reconcileRecord_ops(1) [OF pend, of env "attachedRoute l" desired st1] False r Inr rr ops1
        by (auto simp: listener_in_sync_def)
      have stop: "stop \<Longrightarrow> ds_Ops st2 \<noteq> []"
        using reconcileRecord_ops(2) [OF pend, of env "attachedRoute l" desired st1] rr by simp
      have step: "reconcileListeners env children policy (l # ls) (st, hr, ha) =
          (if stop then Return (st2, hr \<or> attachedRoute l, ha \<or> length (ng_Addresses (nl_Gateway l)) > 0)
           else reconcileListeners env children policy ls (st2, hr \<or> attachedRoute l, ha \<or> length (ng_Addresses (nl_Gateway l)) > 0))"
        using False r Inr rr by (auto simp: Let_def st1_def)
      show ?thesis
        using Cons.IH [of st2 "hr \<or> attachedRoute l" "ha \<or> length (ng_Addresses (nl_Gateway l)) > 0"] Cons.prems sync stop
        unfolding step by (cases stop) auto
    qed
  qed
qed simp

definition accepted_live :: "find_cond \<Rightarrow> locator_fun \<Rightarrow> valid_map option \<Rightarrow> DNSPolicy \<Rightarrow> bool" where
  "accepted_live findCond locator validated p \<longleftrightarrow> \<not> gp_Deleted p \<and> fst (dnsPolicyAcceptedStatusFunc findCond locator validated p)"

definition policy_in_sync ::
  "('n, 'i) dns_env \<Rightarrow> find_cond \<Rightarrow> (net_listener \<Rightarrow> dns_child list) \<Rightarrow> DNSPolicy gateway_topology \<Rightarrow> valid_map option \<Rightarrow> DNSPolicy \<Rightarrow> bool" where
  "policy_in_sync env findCond children topo validated p \<longleftrightarrow> (accepted_live findCond (de_Locator env) validated p \<longrightarrow>
     list_all (listener_in_sync env children p) (policyListeners topo p))"

lemma reconcilePolicy_quiescent:
  assumes "topology_ok topo" "p \<in> set (gt_Policies topo)" "list_all (\<lambda>l. typedAddresses l \<and> no_pending_deletion children l) (policyListeners topo p)"
  shows "\<exists>st'. reconcilePolicy env findCond children topo validated st p = Return st' \<and>
    (ds_Ops st' = [] \<longleftrightarrow> ds_Ops st = [] \<and> policy_in_sync env findCond children topo validated p)"
proof (cases "accepted_live findCond (de_Locator env) validated p")
  case True
  obtain st1 a b where st1: "reconcileListeners env children p (policyListeners topo p) (st, False, False) = Return (st1, a, b)"
    and ops: "ds_Ops st1 = [] \<longleftrightarrow> ds_Ops st = [] \<and> list_all (listener_in_sync env children p) (policyListeners topo p)"
    using reconcileListeners_quiescent [OF assms(3), of env p st False False] by blast
  show ?thesis
    using True ops by (simp add: reconcilePolicy_def listenersForPolicy_Return [OF assms(1,2)] st1 accepted_live_def policy_in_sync_def)
next
  case False
  then show ?thesis by (auto simp: reconcilePolicy_def accepted_live_def policy_in_sync_def)
qed

lemma gfold_quiescent:
  assumes "\<And>st p. p \<in> set ps \<Longrightarrow> \<exists>st'. f st p = Return st' \<and> (Q st' \<longleftrightarrow> Q st \<and> R p)"
  shows "\<exists>st'. gfold f st ps = Return st' \<and> (Q st' \<longleftrightarrow> Q st \<and> list_all R ps)"
  using assms
proof (induction ps arbitrary: st)
  case (Cons p ps)
  obtain st1 where "f st p = Return st1" "Q st1 \<longleftrightarrow> Q st \<and> R p" using Cons.prems [of p st] by auto
  with Cons.IH [of st1] Cons.prems show ?case by auto
qed simp

lemma orphans_ops:
  assumes "list_all (\<lambda>r. \<not> rec_Deleted r) rs"
  shows "ds_Ops (foldl (\<lambda>st r. deleteRecord env r st) st rs) = ds_Ops st @ map DeleteRecord rs"
  using assms by (induction rs arbitrary: st) (simp_all add: deleteRecord_ops)


section \<open>The reported status\<close>

lemma utils_Filter_filter [simp]: "utils_Filter xs f = filter f xs"
  by (induction xs) auto

text \<open>
  A policy is reported as enforced unless every one of its records says that it is not ready.  A
  record that has no such condition yet counts as ready.
\<close>

lemma dns_enforced_iff:
  "cond_Status (dns_enforcedCondition isFalse nn records) = ''True'' \<longleftrightarrow>
     records = [] \<or> list_ex (\<lambda>r. \<not> isFalse (rec_Conditions r) ''Ready'') records"
proof -
  have "length (filter P xs) = length xs \<longleftrightarrow> list_all P xs" for P and xs :: "DNSRecord list"
    by (metis filter_id_conv length_filter_less list_all_iff order_less_irrefl)
  then show ?thesis
    by (auto simp: dns_enforcedCondition_def EnforcedCondition_def Let_def list_all_iff list_ex_iff)
qed

lemma unready_record_counts_as_ready:
  "\<not> isFalse [] ''Ready'' \<Longrightarrow> cond_Status (dns_enforcedCondition isFalse nn [r\<lparr>rec_Conditions := []\<rparr>]) = ''True''"
  by (simp add: dns_enforced_iff)

text \<open>A policy that is not accepted any more keeps the health condition of its records.\<close>

lemma stale_health_condition:
  assumes "cond_laws setCond removeCond findCond" "\<not> fst accepted"
  shows "findCond (ps_Conditions (newDNSStatus setCond removeCond isFalse nn accepted policyError records policy)) ''SubResourcesHealthy'' =
    findCond (gp_Conditions policy) ''SubResourcesHealthy''"
proof -
  have "cond_Type (AcceptedCondition nn DNSPolicyKind err) = ''Accepted''" for err
    by (simp add: AcceptedCondition_def Let_def split: option.splits)
  then show ?thesis using assms by (simp add: newDNSStatus_def cond_laws_def Let_def)
qed

section \<open>Oddities of the records\<close>

text \<open>
  Listeners without a hostname are skipped before the addresses of their gateway are looked at: a
  policy all of whose listeners have none, or that has no listeners, is reported to have no addresses.
\<close>

lemma no_hostname_reported_as_no_addresses:
  assumes "list_all (\<lambda>l. nl_Hostname l = None \<or> nl_Hostname l = Some []) (policyListeners topo p)"
    and "topology_ok topo" "p \<in> set (gt_Policies topo)" "accepted_live findCond (de_Locator env) validated p"
  shows "\<exists>st'. reconcilePolicy env findCond children topo validated st p = Return st' \<and>
    map_of (ds_PolicyErrors st') (gp_locator (de_Locator env) DNSPolicyKind p) = Some ErrNoAddresses_text"
proof -
  have "reconcileListeners env children p ls (st, a, b) = Return (st, a, b)"
    if "list_all (\<lambda>l. nl_Hostname l = None \<or> nl_Hostname l = Some []) ls" for ls a b
    using that by (induction ls) auto
  with assms show ?thesis by (simp add: reconcilePolicy_def listenersForPolicy_Return accepted_live_def)
qed

text \<open>
  The check whether a record can be updated comes before the comparison: a record with two types
  under one name is deleted and created again in every run, although it is up to date.
\<close>

lemma mixed_types_never_settle:
  assumes "e \<in> set (rs_Endpoints (rec_Spec r))" "e' \<in> set (rs_Endpoints (rec_Spec r))"
    and "ep_DNSName e = ep_DNSName e'" "ep_RecordType e \<noteq> ep_RecordType e'" "\<not> rec_Deleted r"
  shows "ds_Ops (fst (reconcileRecord env (Some r) True r st)) = ds_Ops st @ [DeleteRecord r]"
proof -
  have "\<not> canUpdateDNSRecord r r" using assms by (auto simp: canUpdateDNSRecord_def list_all_iff)
  then show ?thesis using assms(5) by (simp add: reconcileRecord_def deleteRecord_ops)
qed

text \<open>Records of different gateways of a namespace can have one name.\<close>

lemma record_names_collide: "dnsRecordName ''a-b'' ''c'' = dnsRecordName ''a'' ''b-c''"
  by (simp add: dnsRecordName_def)

text \<open>Policies created within the same second do not conflict.\<close>

lemma same_age_no_conflict: "gp_CreationTimestamp p = gp_CreationTimestamp q \<Longrightarrow> \<not> conflictsWith p q"
  by (simp add: conflictsWith_def)

section \<open>An example\<close>

definition ex_dns_gateway :: net_gateway where
  "ex_dns_gateway = \<lparr>ng_Namespace = ''ns'', ng_Name = ''gw'',
     ng_Addresses = [\<lparr>addr_Type = Some ''IPAddress'', addr_Value = ''1.2.3.4''\<rparr>, \<lparr>addr_Type = Some ''IPAddress'', addr_Value = ''10.0.0.1''\<rparr>],
     ng_AttachedRoutes = [(''web'', 1)]\<rparr>"

definition ex_dns_listener :: net_listener where
  "ex_dns_listener = \<lparr>nl_Gateway = ex_dns_gateway, nl_Name = ''web'', nl_Hostname = Some ''www.example.com'', nl_TLS = None\<rparr>"

definition ex_dns_policy :: "string \<Rightarrow> int \<Rightarrow> DNSPolicy" where
  "ex_dns_policy name created = \<lparr>gp_Namespace = ''ns'', gp_Name = name, gp_CreationTimestamp = created, gp_Deleted = False,
     gp_Generation = 1, gp_ObservedGeneration = 1, gp_Conditions = [],
     gp_TargetRef = \<lparr>ref_Group = ''gateway.networking.k8s.io'', ref_Kind = ''Gateway'', ref_Name = ''gw'', ref_SectionName = None\<rparr>,
     dns_HealthCheck = None, dns_LoadBalancing = None, dns_ProviderRefs = [''aws''], dns_ExcludeAddresses = [''10.0.0.0/8''], dns_Delegate = False\<rparr>"

definition ex_dns_topo :: "DNSPolicy gateway_topology" where
  "ex_dns_topo = \<lparr>gt_Policies = [ex_dns_policy ''first'' 1, ex_dns_policy ''second'' 2], gt_Targets = (\<lambda>p. [GatewayTarget ex_dns_gateway]),
     gt_GatewayChildren = (\<lambda>g. [ListenerTarget ex_dns_listener]), gt_ListenerPolicies = (\<lambda>l. []),
     gt_GatewayPolicies = (\<lambda>g. [ex_dns_policy ''first'' 1, ex_dns_policy ''second'' 2])\<rparr>"

text \<open>Networks are prefixes of addresses up to the first dot, and the builder makes one record of type A.\<close>

definition ex_ParseCIDR :: "string \<Rightarrow> string + string" where
  "ex_ParseCIDR s = Inr (takeWhile (\<lambda>c. c \<noteq> CHR ''.'') s)"

definition ex_dns_env :: "(string, string) dns_env" where
  "ex_dns_env = \<lparr>de_ParseCIDR = ex_ParseCIDR, de_ParseIP = Some, de_NetContains = (\<lambda>network ip. HasPrefix ip network),
     de_Build = (\<lambda>addresses host ttl lbTTL lb. Inr (if addresses = [] then [] else [\<lparr>ep_DNSName = host, ep_RecordType = ''A'', ep_Targets = map snd addresses\<rparr>])),
     de_ClusterID = [], de_DefaultTTL = 0, de_DefaultLoadBalancedTTL = 0, de_Api = (\<lambda>_. None), de_Now = 0,
     de_Locator = (\<lambda>kind ns name. kind @ '':'' @ ns @ ''/'' @ name), de_Owner = (\<lambda>p. \<lparr>owner_APIVersion = ''kuadrant.io/v1'', owner_Kind = DNSPolicyKind, owner_Name = gp_Name p,
       owner_UID = gp_Name p, owner_BlockOwnerDeletion = Some True, owner_Controller = Some True\<rparr>)\<rparr>"

lemma ex_dns_topology_ok: "topology_ok ex_dns_topo"
  by (simp add: topology_ok_def ex_dns_topo_def refersTo_def ex_dns_policy_def ex_dns_gateway_def ex_dns_listener_def)

lemma ex_dns_distinct: "distinct (map (gp_locator (de_Locator ex_dns_env) DNSPolicyKind) (gt_Policies ex_dns_topo))"
  by code_simp

definition ex_dns_installed :: gateway_policy_validator where
  "ex_dns_installed = \<lparr>gpv_isGatewayAPIInstalled = True, gpv_isOperatorInstalled = True\<rparr>"

definition ex_dns_validated :: "valid_map option" where
  "ex_dns_validated = Some (DNSPoliciesValidator_validate (de_ParseCIDR ex_dns_env) (\<lambda>_ _. []) (\<lambda>ns name. ns @ ''/'' @ name)
     (de_Locator ex_dns_env) ex_dns_installed ex_dns_topo)"


theorem excluded_addresses_not_published_witness:
  "buildEndpoints ex_dns_env ''www.example.com'' ex_dns_gateway (ex_dns_policy ''first'' 1) =
     Return (Inr [\<lparr>ep_DNSName = ''www.example.com'', ep_RecordType = ''A'', ep_Targets = [''1.2.3.4'']\<rparr>])"
proof -
  have "DNSPolicy_Validate (de_ParseCIDR ex_dns_env) (ex_dns_policy ''first'' 1) = None" by code_simp
  moreover have "list_all (\<lambda>a. addr_Type a \<noteq> None) (ng_Addresses ex_dns_gateway)" by code_simp
  moreover have "excludes ex_dns_env ''10.0.0.0/8'' ''10.0.0.1''" "\<not> excludes ex_dns_env ''10.0.0.0/8'' ''1.2.3.4''"
    by (simp_all add: excludes_def ex_dns_env_def ex_ParseCIDR_def HasPrefix_def)
  ultimately show ?thesis
    using excluded_addresses_not_published [of ex_dns_env "ex_dns_policy ''first'' 1" ex_dns_gateway "''www.example.com''"]
    by (simp add: ex_dns_gateway_def ex_dns_policy_def) (simp add: ex_dns_env_def)
qed

text \<open>With no record yet, the reconciler has something to do.\<close>

definition ex_no_orphans :: orphan_view where
  "ex_no_orphans = \<lparr>ov_Records = [], ov_Targetables = (\<lambda>_. 0), ov_Policies = (\<lambda>_. []), ov_Paths = (\<lambda>_ _. 0)\<rparr>"


end
