(* ===== verification/TLS_Policy.thy ===== *)
theory TLS_Policy
  imports Gateway_Policies
begin

text \<open>
  TLS policies: the type (\<open>api/v1/tlspolicy_types.go\<close>), their validation
  (\<open>internal/controller/tlspolicies_validator.go\<close>), the certificates that the reconciler writes for
  the listeners (\<open>effective_tls_policies_reconciler.go\<close>), the links between policies, issuers,
  listeners and certificates (\<open>tls_workflow.go\<close>) and the reported status (\<open>tlspolicy_status_updater.go\<close>).

  Parameters: the default usages of cert-manager, the API server's answer to an operation, the clock
  and the locators, in the record \<open>tls_env\<close>.  A certificate is in the namespace of the gateway and of
  the policy, so \<open>SetControllerReference\<close> does not fail; it is the field \<open>crt_Owners\<close>.
\<close>

section \<open>The policy and its certificates\<close>

record IssuerReference =
  ir_Name :: string
  ir_Kind :: string
  ir_Group :: string

record CertificatePrivateKey =
  pk_RotationPolicy :: string
  pk_Encoding :: string
  pk_Algorithm :: string
  pk_Size :: int

record TLSPolicy = gateway_policy +
  tls_IssuerRef :: IssuerReference
  tls_CommonName :: string
  tls_Duration :: "int option"
  tls_RenewBefore :: "int option"
  tls_Usages :: "string list option"
  tls_RevisionHistoryLimit :: "int option"
  tls_PrivateKey :: "CertificatePrivateKey option"

definition TLSPolicyKind :: string where "TLSPolicyKind = ''TLSPolicy''"

record CertificateSpec =
  cs_DNSNames :: "string list"
  cs_SecretName :: string
  cs_IssuerRef :: IssuerReference
  cs_Usages :: "string list option"
  cs_CommonName :: string
  cs_Duration :: "int option"
  cs_RenewBefore :: "int option"
  cs_RevisionHistoryLimit :: "int option"
  cs_PrivateKey :: "CertificatePrivateKey option"

record Certificate =
  crt_Namespace :: string
  crt_Name :: string
  crt_UID :: string
  crt_Labels :: "(string, string) gomap"
  crt_Owners :: "OwnerReference list"
  crt_Spec :: CertificateSpec
  crt_Conditions :: "Condition list"

record issuer =
  iss_Kind :: string
  iss_Namespace :: string
  iss_Name :: string
  iss_Conditions :: "Condition list"

definition certName :: "string \<Rightarrow> string \<Rightarrow> string" where
  "certName gatewayName listenerName = gatewayName @ ''-'' @ listenerName"

section \<open>Links\<close>

definition certRefNamespace :: "net_listener \<Rightarrow> SecretObjectReference \<Rightarrow> string" where
  "certRefNamespace l certRef = (case sor_Namespace certRef of None \<Rightarrow> ng_Namespace (nl_Gateway l) | Some ns \<Rightarrow> ns)"

definition LinkListenerToCertificateFunc :: "net_listener list \<Rightarrow> Certificate \<Rightarrow> net_listener list" where
  "LinkListenerToCertificateFunc listeners cert =
     filter (\<lambda>l. case nl_TLS l of None \<Rightarrow> False
       | Some tls \<Rightarrow> list_ex (\<lambda>certRef. certRefNamespace l certRef = crt_Namespace cert \<and>
           certName (ng_Name (nl_Gateway l)) (nl_Name l) = crt_Name cert) (ltls_CertificateRefs tls)) listeners"

definition LinkTLSPolicyToIssuerFunc :: "TLSPolicy list \<Rightarrow> issuer \<Rightarrow> TLSPolicy list" where
  "LinkTLSPolicyToIssuerFunc tlsPolicies i =
     filter (\<lambda>p. ir_Name (tls_IssuerRef p) = iss_Name i \<and> gp_Namespace p = iss_Namespace i \<and> ir_Kind (tls_IssuerRef p) = ''Issuer'') tlsPolicies"

definition LinkTLSPolicyToClusterIssuerFunc :: "TLSPolicy list \<Rightarrow> issuer \<Rightarrow> TLSPolicy list" where
  "LinkTLSPolicyToClusterIssuerFunc tlsPolicies i =
     filter (\<lambda>p. ir_Name (tls_IssuerRef p) = iss_Name i \<and> ir_Kind (tls_IssuerRef p) = ''ClusterIssuer'') tlsPolicies"

text \<open>The issuers among the children of a policy, in a topology made with these links.\<close>

definition issuerChildren :: "TLSPolicy list \<Rightarrow> issuer list \<Rightarrow> TLSPolicy \<Rightarrow> issuer list" where
  "issuerChildren tlsPolicies issuers p = filter (\<lambda>i.
     (iss_Kind i = ''Issuer'' \<and> p \<in> set (LinkTLSPolicyToIssuerFunc tlsPolicies i)) \<or>
     (iss_Kind i = ''ClusterIssuer'' \<and> p \<in> set (LinkTLSPolicyToClusterIssuerFunc tlsPolicies i))) issuers"

section \<open>Validation\<close>

definition TLSPoliciesValidator_isMissingDependency :: "gateway_policy_validator \<Rightarrow> go_error option" where
  "TLSPoliciesValidator_isMissingDependency r = gp_isMissingDependency ''Cert Manager'' r"

definition issuerMatches :: "TLSPolicy \<Rightarrow> issuer \<Rightarrow> bool" where
  "issuerMatches p i =
     (let nameMatch = (iss_Name i = ir_Name (tls_IssuerRef p))
      in if ir_Kind (tls_IssuerRef p) \<in> set ['''', ''Issuer'']
         then nameMatch \<and> iss_Namespace i = gp_Namespace p \<and> iss_Kind i = ''Issuer''
         else nameMatch \<and> iss_Kind i = ''ClusterIssuer'')"

definition isIssuerFound :: "(TLSPolicy \<Rightarrow> issuer list) \<Rightarrow> TLSPolicy \<Rightarrow> go_error option" where
  "isIssuerFound issuers p =
     (case List.find (issuerMatches p) (issuers p) of
        None \<Rightarrow> Some (PolicyError (ErrInvalid TLSPolicyKind (ForeignError ''unable to find issuer'' False)))
      | Some i \<Rightarrow> None)"

definition tls_validatePolicy ::
  "(string \<Rightarrow> string \<Rightarrow> string) \<Rightarrow> (string \<Rightarrow> string \<Rightarrow> string) \<Rightarrow> gateway_policy_validator \<Rightarrow> (TLSPolicy \<Rightarrow> issuer list) \<Rightarrow>
   TLSPolicy gateway_topology \<Rightarrow> TLSPolicy \<Rightarrow> go_error option" where
  "tls_validatePolicy notFound nn r issuers topo policy =
     gp_validatePolicy notFound nn TLSPolicyKind (TLSPoliciesValidator_isMissingDependency r) (isIssuerFound issuers) topo policy"

definition TLSPoliciesValidator_Validate ::
  "(string \<Rightarrow> string \<Rightarrow> string) \<Rightarrow> (string \<Rightarrow> string \<Rightarrow> string) \<Rightarrow> locator_fun \<Rightarrow> gateway_policy_validator \<Rightarrow> (TLSPolicy \<Rightarrow> issuer list) \<Rightarrow>
   TLSPolicy gateway_topology \<Rightarrow> valid_map" where
  "TLSPoliciesValidator_Validate notFound nn locator r issuers topo =
     gp_results (gp_locator locator TLSPolicyKind) (tls_validatePolicy notFound nn r issuers topo) (gt_Policies topo)"

text \<open>Without stored results the condition decides, and there is no error; an unknown policy is valid.\<close>

definition IsTLSPolicyValid :: "is_true \<Rightarrow> locator_fun \<Rightarrow> valid_map option \<Rightarrow> TLSPolicy \<Rightarrow> bool \<times> go_error option" where
  "IsTLSPolicyValid isTrue locator validated policy =
     (case validated of None \<Rightarrow> (isTrue (gp_Conditions policy) PolicyConditionAccepted, None)
      | Some m \<Rightarrow> (let err = (case map_of m (gp_locator locator TLSPolicyKind policy) of Some e \<Rightarrow> e | None \<Rightarrow> None) in (err = None, err)))"

section \<open>Desired certificates\<close>

text \<open>The messages of the field errors of a listener; nil groups and kinds are dereferenced.\<close>

fun validateCertificateRefs :: "string \<Rightarrow> SecretObjectReference list \<Rightarrow> string list go_result" where
  "validateCertificateRefs ns [] = Return []"
| "validateCertificateRefs ns (ref # refs) =
     (case (sor_Group ref, sor_Kind ref) of
        (Some grp, Some kind) \<Rightarrow>
          gbind (validateCertificateRefs ns refs) (\<lambda>rest. Return (
            (if grp \<noteq> ''core'' \<and> grp \<noteq> [] then [''unsupported group''] else []) @
            (if kind \<noteq> ''Secret'' \<and> kind \<noteq> [] then [''unsupported kind''] else []) @
            (case sor_Namespace ref of Some ns' \<Rightarrow>
               if ns' \<noteq> ns then [''cross-namespace secret references are not allowed in listeners''] else []
             | None \<Rightarrow> []) @ rest))
      | _ \<Rightarrow> Panic ''nil pointer dereference'')"

definition validateGatewayListenerBlock :: "net_listener \<Rightarrow> string list go_result" where
  "validateGatewayListenerBlock l =
     (let errs = (if nl_Hostname l = None \<or> nl_Hostname l = Some [] then [''the hostname cannot be empty''] else [])
      in case nl_TLS l of None \<Rightarrow> Return (errs @ [''the TLS block cannot be empty''])
         | Some tls \<Rightarrow>
           gbind (if length (ltls_CertificateRefs tls) = 0 then Return [''listener has no certificateRefs'']
                  else validateCertificateRefs (ng_Namespace (nl_Gateway l)) (ltls_CertificateRefs tls)) (\<lambda>refErrs.
             Return (errs @ refErrs @
               (case ltls_Mode tls of None \<Rightarrow> [''the mode field is required'']
                | Some mode \<Rightarrow> if mode \<noteq> ''Terminate'' then [''unsupported mode''] else []))))"

definition getTLSPoliciesForListener :: "TLSPolicy gateway_topology \<Rightarrow> net_listener \<Rightarrow> TLSPolicy list" where
  "getTLSPoliciesForListener topo l =
     (let policies = gt_ListenerPolicies topo l
      in if length policies = 0 then gt_GatewayPolicies topo (nl_Gateway l) else policies)"

definition getListenerHostname :: "net_listener \<Rightarrow> string" where
  "getListenerHostname l = Deref (nl_Hostname l) ''*''"

text \<open>Name and namespace of the secret.\<close>

definition getSecretReference :: "SecretObjectReference \<Rightarrow> net_listener \<Rightarrow> string \<times> string" where
  "getSecretReference certRef l = (sor_Name certRef,
     case sor_Namespace certRef of Some ns \<Rightarrow> ns | None \<Rightarrow> ng_Namespace (nl_Gateway l))"

definition translatePrivateKey :: "CertificatePrivateKey \<Rightarrow> CertificatePrivateKey \<Rightarrow> CertificatePrivateKey" where
  "translatePrivateKey k key =
     (let key = (if pk_Algorithm k \<noteq> [] then key\<lparr>pk_Algorithm := pk_Algorithm k\<rparr> else key);
          key = (if pk_Encoding k \<noteq> [] then key\<lparr>pk_Encoding := pk_Encoding k\<rparr> else key);
          key = (if pk_Size k \<noteq> 0 then key\<lparr>pk_Size := pk_Size k\<rparr> else key)
      in if pk_RotationPolicy k \<noteq> [] then key\<lparr>pk_RotationPolicy := pk_RotationPolicy k\<rparr> else key)"

definition translatePolicy :: "CertificateSpec \<Rightarrow> TLSPolicy \<Rightarrow> CertificateSpec" where
  "translatePolicy crt tlsPolicy =
     (let crt = (if tls_CommonName tlsPolicy \<noteq> [] then crt\<lparr>cs_CommonName := tls_CommonName tlsPolicy\<rparr> else crt);
          crt = (if tls_Duration tlsPolicy \<noteq> None then crt\<lparr>cs_Duration := tls_Duration tlsPolicy\<rparr> else crt);
          crt = (if tls_RenewBefore tlsPolicy \<noteq> None then crt\<lparr>cs_RenewBefore := tls_RenewBefore tlsPolicy\<rparr> else crt);
          crt = (if tls_Usages tlsPolicy \<noteq> None then crt\<lparr>cs_Usages := tls_Usages tlsPolicy\<rparr> else crt);
          crt = (if tls_RevisionHistoryLimit tlsPolicy \<noteq> None
            then crt\<lparr>cs_RevisionHistoryLimit := tls_RevisionHistoryLimit tlsPolicy\<rparr> else crt)
      in case tls_PrivateKey tlsPolicy of None \<Rightarrow> crt
         | Some k \<Rightarrow>
           (let key = (case cs_PrivateKey crt of Some key \<Rightarrow> key
                 | None \<Rightarrow> \<lparr>pk_RotationPolicy = [], pk_Encoding = [], pk_Algorithm = [], pk_Size = 0\<rparr>)
            in crt\<lparr>cs_PrivateKey := Some (translatePrivateKey k key)\<rparr>))"

datatype cert_op = CreateCert Certificate | UpdateCert Certificate | DeleteCert Certificate

record tls_env =
  te_DefaultUsages :: "string list"
  te_Api :: "cert_op \<Rightarrow> go_error option"
  te_Now :: int
  te_Locator :: locator_fun
  te_Owner :: "TLSPolicy \<Rightarrow> OwnerReference"

definition buildCertManagerCertificate ::
  "tls_env \<Rightarrow> net_listener \<Rightarrow> TLSPolicy \<Rightarrow> string \<times> string \<Rightarrow> string list \<Rightarrow> Certificate" where
  "buildCertManagerCertificate env l tlsPolicy secretRef hosts =
     \<lparr>crt_Namespace = snd secretRef, crt_Name = certName (ng_Name (nl_Gateway l)) (nl_Name l), crt_UID = [], crt_Labels = CommonLabels,
      crt_Owners = [te_Owner env tlsPolicy],
      crt_Spec = translatePolicy \<lparr>cs_DNSNames = hosts, cs_SecretName = fst secretRef, cs_IssuerRef = tls_IssuerRef tlsPolicy,
        cs_Usages = Some (te_DefaultUsages env), cs_CommonName = [], cs_Duration = None, cs_RenewBefore = None,
        cs_RevisionHistoryLimit = None, cs_PrivateKey = None\<rparr> tlsPolicy,
      crt_Conditions = []\<rparr>"

text \<open>The certificates of a valid listener: one for every reference and every valid live policy.\<close>

definition listenerCertTargets ::
  "tls_env \<Rightarrow> is_true \<Rightarrow> valid_map option \<Rightarrow> TLSPolicy gateway_topology \<Rightarrow> net_listener \<Rightarrow> (net_listener \<times> Certificate) list" where
  "listenerCertTargets env isTrue validated topo l =
     (let policies = filter (\<lambda>p. \<not> gp_Deleted p \<and> fst (IsTLSPolicyValid isTrue (te_Locator env) validated p)) (getTLSPoliciesForListener topo l)
      in case nl_TLS l of None \<Rightarrow> []
         | Some tls \<Rightarrow> concat (map (\<lambda>certRef. map (\<lambda>p.
             (l, buildCertManagerCertificate env l p (getSecretReference certRef l) [getListenerHostname l])) policies) (ltls_CertificateRefs tls)))"

fun certTargetsOf ::
  "tls_env \<Rightarrow> is_true \<Rightarrow> valid_map option \<Rightarrow> TLSPolicy gateway_topology \<Rightarrow> net_listener list \<Rightarrow> (net_listener \<times> Certificate) list go_result" where
  "certTargetsOf env isTrue validated topo [] = Return []"
| "certTargetsOf env isTrue validated topo (l # ls) =
     gbind (validateGatewayListenerBlock l) (\<lambda>errs.
       gbind (certTargetsOf env isTrue validated topo ls) (\<lambda>rest.
         Return (if errs \<noteq> [] then rest else listenerCertTargets env isTrue validated topo l @ rest)))"

section \<open>The reconciler\<close>

text \<open>
  The specification of a certificate is written into the object of the topology before the update,
  where a later target of the same certificate finds it: \<open>ct_Specs\<close> holds these specifications by
  the UID of the object.
\<close>

record tls_state =
  ct_Ops :: "cert_op list"
  ct_Errors :: error_map
  ct_Specs :: "(string, CertificateSpec) gomap"

fun op_cert :: "cert_op \<Rightarrow> string \<times> Certificate" where
  "op_cert (CreateCert c) = (''create'', c)"
| "op_cert (UpdateCert c) = (''update'', c)"
| "op_cert (DeleteCert c) = (''delete'', c)"

definition callCertApi :: "tls_env \<Rightarrow> cert_op \<Rightarrow> tls_state \<Rightarrow> tls_state" where
  "callCertApi env operation st =
     (let st = st\<lparr>ct_Ops := ct_Ops st @ [operation]\<rparr>
      in case te_Api env operation of None \<Rightarrow> st
         | Some err \<Rightarrow> if fst (op_cert operation) = ''delete'' \<and> IsNotFound err then st
           else st\<lparr>ct_Errors := Registry_Record (te_Now env) ''EffectiveTLSPoliciesReconciler'' (fst (op_cert operation))
             (crt_Namespace (snd (op_cert operation)), crt_Name (snd (op_cert operation))) ''Certificate.cert-manager.io''
             (Error_text (\<lambda>_ _. []) err) (ct_Errors st)\<rparr>)"

definition sameKey :: "Certificate \<Rightarrow> Certificate \<Rightarrow> bool" where
  "sameKey c d \<longleftrightarrow> crt_Namespace c = crt_Namespace d \<and> crt_Name c = crt_Name d"

definition currentSpec :: "tls_state \<Rightarrow> Certificate \<Rightarrow> CertificateSpec" where
  "currentSpec st c = Deref (map_of (ct_Specs st) (crt_UID c)) (crt_Spec c)"

definition reconcileCertificate ::
  "tls_env \<Rightarrow> (net_listener \<Rightarrow> Certificate list) \<Rightarrow> tls_state \<times> Certificate list \<Rightarrow> net_listener \<times> Certificate \<Rightarrow>
   tls_state \<times> Certificate list" where
  "reconcileCertificate env children acc certTarget =
     (case (acc, certTarget) of ((st, expected), (target, cert)) \<Rightarrow>
      case List.find (\<lambda>c. sameKey c cert) (children target) of
        None \<Rightarrow> (callCertApi env (CreateCert cert) st, expected @ [cert])
      | Some tCert \<Rightarrow>
        if currentSpec st tCert = crt_Spec cert then (st, expected @ [tCert])
        else (callCertApi env (UpdateCert (tCert\<lparr>crt_Spec := crt_Spec cert\<rparr>))
               (st\<lparr>ct_Specs := gm_set (crt_UID tCert) (crt_Spec cert) (ct_Specs st)\<rparr>), expected @ [tCert]))"

definition reconcileCertificates ::
  "tls_env \<Rightarrow> (net_listener \<Rightarrow> Certificate list) \<Rightarrow> (net_listener \<times> Certificate) list \<Rightarrow> tls_state \<Rightarrow> tls_state \<times> Certificate list" where
  "reconcileCertificates env children certTargets st = foldl (reconcileCertificate env children) (st, []) certTargets"

text \<open>
  \<open>lo.UniqBy\<close> keeps the first certificate of every UID, and \<open>lo.Difference\<close> compares pointers: a
  certificate of the topology is expected when its own object is among the expected ones.
\<close>

fun uniqByUID :: "string list \<Rightarrow> Certificate list \<Rightarrow> Certificate list" where
  "uniqByUID seen [] = []"
| "uniqByUID seen (c # cs) = (if crt_UID c \<in> set seen then uniqByUID seen cs else c # uniqByUID (crt_UID c # seen) cs)"

definition orphanedCerts :: "Certificate list \<Rightarrow> Certificate list \<Rightarrow> Certificate list" where
  "orphanedCerts certs expected = filter (\<lambda>c. c \<notin> set (uniqByUID [] expected)) certs"

definition EffectiveTLSPoliciesReconciler_Reconcile ::
  "tls_env \<Rightarrow> is_true \<Rightarrow> valid_map option \<Rightarrow> TLSPolicy gateway_topology \<Rightarrow> net_listener list \<Rightarrow> Certificate list \<Rightarrow>
   (net_listener \<Rightarrow> Certificate list) \<Rightarrow> error_map option \<Rightarrow> tls_state go_result" where
  "EffectiveTLSPoliciesReconciler_Reconcile env isTrue validated topo listeners certs children stored =
     (let st = \<lparr>ct_Ops = [], ct_Errors = fst (GetOrCreateErrorRegistry stored), ct_Specs = []\<rparr>
      in gbind (certTargetsOf env isTrue validated topo listeners) (\<lambda>certTargets.
        (case reconcileCertificates env children certTargets st of (st, expectedCerts) \<Rightarrow>
          Return (foldl (\<lambda>st c. callCertApi env (DeleteCert c) st) st (orphanedCerts certs expectedCerts)))))"

section \<open>The status\<close>

definition isIssuerReady :: "is_true \<Rightarrow> (TLSPolicy \<Rightarrow> issuer list) \<Rightarrow> TLSPolicy \<Rightarrow> string option" where
  "isIssuerReady isTrue issuers policy =
     (let ref = tls_IssuerRef policy;
          ready = (\<lambda>i. if \<not> isTrue (iss_Conditions i) ''Ready'' then Some (ir_Kind ref @ '' not ready'') else None)
      in if ir_Kind ref = [] \<or> ir_Kind ref = ''Issuer''
         then (case List.find (\<lambda>i. iss_Kind i = ''Issuer'' \<and> iss_Namespace i = gp_Namespace policy \<and> iss_Name i = ir_Name ref) (issuers policy) of
             None \<Rightarrow> Some ((if ir_Kind ref = [] then ''Issuer'' else ir_Kind ref) @ '' \"'' @ ir_Name ref @ ''\" not found'')
           | Some i \<Rightarrow> ready i)
         else if ir_Kind ref = ''ClusterIssuer''
         then (case List.find (\<lambda>i. iss_Kind i = ''ClusterIssuer'' \<and> iss_Name i = ir_Name ref) (issuers policy) of
             None \<Rightarrow> Some (ir_Kind ref @ '' \"'' @ ir_Name ref @ ''\" not found'')
           | Some i \<Rightarrow> ready i)
         else Some (''invalid value '' @ fmt_q (ir_Kind ref) @ '' for issuerRef.kind. Must be empty, \"Issuer\" or \"ClusterIssuer\"''))"

definition expectedCertificatesForListener :: "tls_env \<Rightarrow> net_listener \<Rightarrow> TLSPolicy \<Rightarrow> Certificate list go_result" where
  "expectedCertificatesForListener env l tlsPolicy =
     gbind (validateGatewayListenerBlock l) (\<lambda>errs. Return
       (if errs \<noteq> [] then []
        else case nl_TLS l of None \<Rightarrow> []
          | Some tls \<Rightarrow> map (\<lambda>certRef. buildCertManagerCertificate env l tlsPolicy (getSecretReference certRef l) [getListenerHostname l])
              (ltls_CertificateRefs tls)))"

definition certificateReady :: "find_cond \<Rightarrow> Certificate list \<Rightarrow> Certificate \<Rightarrow> string option" where
  "certificateReady findCond objs cert =
     (case List.find (\<lambda>c. sameKey c cert) objs of None \<Rightarrow> Some ''certificate not found''
      | Some c \<Rightarrow>
        (case findCond (crt_Conditions c) ''Ready'' of None \<Rightarrow> Some (''certificate '' @ crt_Name cert @ '' not ready'')
         | Some cond \<Rightarrow>
           if cond_Status cond \<noteq> ''True''
           then Some (''certificate '' @ crt_Name cert @ '' is not ready: '' @ cond_Reason cond @ '' - '' @ cond_Message cond @
             (if cond_Reason cond = ''IncorrectCertificate''
              then ''. Shared TLS certificates refs between listeners not supported. Use unique certificates refs in the Gateway listeners to fully enforce policy''
              else []))
           else None))"

fun listenersReady ::
  "tls_env \<Rightarrow> find_cond \<Rightarrow> (net_listener \<Rightarrow> Certificate list) \<Rightarrow> TLSPolicy \<Rightarrow> net_listener list \<Rightarrow> string option go_result" where
  "listenersReady env findCond children policy [] = Return None"
| "listenersReady env findCond children policy (l # ls) =
     gbind (expectedCertificatesForListener env l policy) (\<lambda>expected.
       case List.find (\<lambda>e. e \<noteq> None) (map (certificateReady findCond (children l)) expected) of
         Some err \<Rightarrow> Return err
       | None \<Rightarrow> listenersReady env findCond children policy ls)"

definition isCertificatesReady ::
  "tls_env \<Rightarrow> find_cond \<Rightarrow> (net_listener \<Rightarrow> Certificate list) \<Rightarrow> TLSPolicy gateway_topology \<Rightarrow> net_listener list \<Rightarrow> TLSPolicy \<Rightarrow>
   string option go_result" where
  "isCertificatesReady env findCond children topo allListeners policy =
     (let listeners = filter (\<lambda>l. policy \<in> set (gt_ListenerPolicies topo l) \<or> policy \<in> set (gt_GatewayPolicies topo (nl_Gateway l))) allListeners
      in if length listeners = 0 then Return (Some ''no valid gateways found'')
         else listenersReady env findCond children policy listeners)"

definition tls_enforcedCondition ::
  "tls_env \<Rightarrow> is_true \<Rightarrow> find_cond \<Rightarrow> (string \<Rightarrow> string \<Rightarrow> string) \<Rightarrow> (TLSPolicy \<Rightarrow> issuer list) \<Rightarrow> (net_listener \<Rightarrow> Certificate list) \<Rightarrow>
   TLSPolicy gateway_topology \<Rightarrow> net_listener list \<Rightarrow> TLSPolicy \<Rightarrow> Condition go_result" where
  "tls_enforcedCondition env isTrue findCond nn issuers children topo listeners policy =
     (case isIssuerReady isTrue issuers policy of
        Some err \<Rightarrow> Return (EnforcedCondition nn TLSPolicyKind (Some (ErrUnknown TLSPolicyKind (ForeignError err False))) False)
      | None \<Rightarrow> gbind (isCertificatesReady env findCond children topo listeners policy) (\<lambda>err.
          Return (case err of
            Some e \<Rightarrow> EnforcedCondition nn TLSPolicyKind (Some (ErrUnknown TLSPolicyKind (ForeignError e False))) False
          | None \<Rightarrow> EnforcedCondition nn TLSPolicyKind None True)))"

text \<open>The loop of the updater.  Whether the policy is accepted is read back from the new conditions.\<close>

definition TLSPolicyStatusUpdater_UpdateStatus ::
  "set_cond \<Rightarrow> remove_cond \<Rightarrow> is_true \<Rightarrow> is_true \<Rightarrow> find_cond \<Rightarrow> (string \<Rightarrow> string \<Rightarrow> string) \<Rightarrow> tls_env \<Rightarrow> valid_map option \<Rightarrow>
   (TLSPolicy \<Rightarrow> issuer list) \<Rightarrow> (net_listener \<Rightarrow> Certificate list) \<Rightarrow> TLSPolicy gateway_topology \<Rightarrow> net_listener list \<Rightarrow> status_writes go_result" where
  "TLSPolicyStatusUpdater_UpdateStatus setCond removeCond isTrue isFalse findCond nn env validated issuers children topo listeners =
     gfold (\<lambda>writes p.
       if gp_Deleted p then Return writes
       else let err = snd (IsTLSPolicyValid isTrue (te_Locator env) validated p);
                conditions = setCond (gp_Conditions p) (AcceptedCondition nn TLSPolicyKind err)
            in gbind (if isFalse conditions PolicyConditionAccepted then Return (removeCond conditions PolicyConditionEnforced)
                 else gbind (tls_enforcedCondition env isTrue findCond nn issuers children topo listeners p)
                   (\<lambda>enforcedCond. Return (setCond conditions enforcedCond)))
               (\<lambda>conditions.
                 let newStatus = \<lparr>ps_Conditions = conditions, ps_ObservedGeneration = gp_ObservedGeneration p\<rparr>
                 in Return (if Semantic_DeepEqual (StatusPtr newStatus)
                       (StatusVal \<lparr>ps_Conditions = gp_Conditions p, ps_ObservedGeneration = gp_ObservedGeneration p\<rparr>) \<and>
                       gp_Generation p = gp_ObservedGeneration p then writes
                   else writes @ [(gp_locator (te_Locator env) TLSPolicyKind p, newStatus\<lparr>ps_ObservedGeneration := gp_Generation p\<rparr>)])))
       [] (gt_Policies topo)"

section \<open>Validation and issuers\<close>

lemma isIssuerFound_None: "isIssuerFound issuers p = None \<longleftrightarrow> list_ex (issuerMatches p) (issuers p)"
  by (auto simp: isIssuerFound_def find_None_iff find_Some_iff list_ex_iff split: option.splits)

lemma tls_validated:
  assumes "distinct (map (gp_locator locator TLSPolicyKind) (gt_Policies topo))" "p \<in> set (gt_Policies topo)"
  shows "IsTLSPolicyValid isTrue locator (Some (TLSPoliciesValidator_Validate notFound nn locator r issuers topo)) p =
    (tls_validatePolicy notFound nn r issuers topo p = None, tls_validatePolicy notFound nn r issuers topo p)"
  using gp_results_lookup [OF assms] by (simp add: IsTLSPolicyValid_def TLSPoliciesValidator_Validate_def Let_def)

text \<open>Where the links make the topology, a policy has to say the kind of its issuer.\<close>

lemma linked_issuer_matches:
  assumes "p \<in> set tlsPolicies"
  shows "list_ex (issuerMatches p) (issuerChildren tlsPolicies issuers p) \<longleftrightarrow>
    list_ex (\<lambda>i. iss_Name i = ir_Name (tls_IssuerRef p) \<and> iss_Kind i = ir_Kind (tls_IssuerRef p) \<and>
      (ir_Kind (tls_IssuerRef p) = ''Issuer'' \<and> iss_Namespace i = gp_Namespace p \<or> ir_Kind (tls_IssuerRef p) = ''ClusterIssuer'')) issuers"
proof -
  have "((iss_Kind i = ''Issuer'' \<and> p \<in> set (LinkTLSPolicyToIssuerFunc tlsPolicies i)) \<or>
      (iss_Kind i = ''ClusterIssuer'' \<and> p \<in> set (LinkTLSPolicyToClusterIssuerFunc tlsPolicies i))) \<and> issuerMatches p i \<longleftrightarrow>
      iss_Name i = ir_Name (tls_IssuerRef p) \<and> iss_Kind i = ir_Kind (tls_IssuerRef p) \<and>
      (ir_Kind (tls_IssuerRef p) = ''Issuer'' \<and> iss_Namespace i = gp_Namespace p \<or> ir_Kind (tls_IssuerRef p) = ''ClusterIssuer'')" for i
    by (cases "ir_Kind (tls_IssuerRef p) = ''Issuer''"; cases "ir_Kind (tls_IssuerRef p) = ''ClusterIssuer''")
      (use assms in \<open>auto simp: issuerMatches_def LinkTLSPolicyToIssuerFunc_def LinkTLSPolicyToClusterIssuerFunc_def Let_def\<close>)
  then show ?thesis unfolding list_ex_iff issuerChildren_def set_filter by blast
qed

text \<open>
  In a topology made with the links of the workflow, a TLS policy is valid exactly when the
  Gateway API and cert-manager are installed, its target exists, no live policy of the same target
  is older, and the issuer it names exists, in its own namespace or for the cluster.  Two valid
  live policies of one target have the same age.
\<close>

theorem tls_validation:
  assumes "distinct (map (gp_locator locator TLSPolicyKind) (gt_Policies topo))" "p \<in> set (gt_Policies topo)" "q \<in> set (gt_Policies topo)"
    and validated: "validated = Some (TLSPoliciesValidator_Validate notFound nn locator r (issuerChildren (gt_Policies topo) issuers) topo)"
  shows "(fst (IsTLSPolicyValid isTrue locator validated p) \<longleftrightarrow>
      gpv_isGatewayAPIInstalled r \<and> gpv_isOperatorInstalled r \<and> length (gt_Targets topo p) = 1 \<and>
      (\<forall>o' \<in> set (gt_Policies topo). \<not> gp_Deleted o' \<longrightarrow> GetTargetRefs o' = GetTargetRefs p \<longrightarrow>
        gp_CreationTimestamp p \<le> gp_CreationTimestamp o') \<and>
      list_ex (\<lambda>i. iss_Name i = ir_Name (tls_IssuerRef p) \<and> iss_Kind i = ir_Kind (tls_IssuerRef p) \<and>
        (ir_Kind (tls_IssuerRef p) = ''Issuer'' \<and> iss_Namespace i = gp_Namespace p \<or> ir_Kind (tls_IssuerRef p) = ''ClusterIssuer'')) issuers) \<and>
    (fst (IsTLSPolicyValid isTrue locator validated p) \<longrightarrow> fst (IsTLSPolicyValid isTrue locator validated q) \<longrightarrow>
     \<not> gp_Deleted p \<longrightarrow> \<not> gp_Deleted q \<longrightarrow> GetTargetRefs p = GetTargetRefs q \<longrightarrow> gp_CreationTimestamp p = gp_CreationTimestamp q)"
proof -
  let ?v = "tls_validatePolicy notFound nn r (issuerChildren (gt_Policies topo) issuers) topo"
  have v: "IsTLSPolicyValid isTrue locator validated p' = (?v p' = None, ?v p')" if "p' \<in> set (gt_Policies topo)" for p'
    unfolding validated by (rule tls_validated [OF assms(1) that])
  have older: "\<not> (\<exists>o' \<in> set (gt_Policies topo). conflictsWith p o') \<longleftrightarrow>
      (\<forall>o' \<in> set (gt_Policies topo). \<not> gp_Deleted o' \<longrightarrow> GetTargetRefs o' = GetTargetRefs p \<longrightarrow> gp_CreationTimestamp p \<le> gp_CreationTimestamp o')"
    unfolding conflictsWith_def by fastforce
  have "?v p = None \<longleftrightarrow> gpv_isGatewayAPIInstalled r \<and> gpv_isOperatorInstalled r \<and> length (gt_Targets topo p) = 1 \<and>
      \<not> (\<exists>o' \<in> set (gt_Policies topo). conflictsWith p o') \<and> list_ex (issuerMatches p) (issuerChildren (gt_Policies topo) issuers p)"
    by (simp add: tls_validatePolicy_def gp_validatePolicy_None TLSPoliciesValidator_isMissingDependency_def isIssuerFound_None)
  moreover have "gp_CreationTimestamp p = gp_CreationTimestamp q"
    if "?v p = None" "?v q = None" "\<not> gp_Deleted p" "\<not> gp_Deleted q" "GetTargetRefs p = GetTargetRefs q"
    using gp.accepted_same_age [OF assms(2,3)] that unfolding tls_validatePolicy_def by blast
  ultimately show ?thesis
    unfolding v [OF assms(2)] v [OF assms(3)] fst_conv older linked_issuer_matches [OF assms(2)] by blast
qed

text \<open>
  The type and the validator take an empty kind for \<open>Issuer\<close>, the link does not: a policy without a
  kind is never valid, whatever issuers there are.
\<close>

lemma default_issuer_kind_rejected:
  assumes "p \<in> set (gt_Policies topo)" "ir_Kind (tls_IssuerRef p) = []"
  shows "tls_validatePolicy notFound nn r (issuerChildren (gt_Policies topo) issuers) topo p \<noteq> None"
  using linked_issuer_matches [OF assms(1), of issuers] assms(2)
  by (auto simp: tls_validatePolicy_def gp_validatePolicy_None isIssuerFound_None list_ex_iff)

section \<open>Certificates are exactly those asked for\<close>

text \<open>Objects of the cluster have different UIDs and different names.\<close>

definition certs_ok :: "Certificate list \<Rightarrow> bool" where
  "certs_ok certs \<longleftrightarrow> distinct (map crt_UID certs) \<and> distinct (map (\<lambda>c. (crt_Namespace c, crt_Name c)) certs) \<and> list_all (\<lambda>c. crt_UID c \<noteq> []) certs"

definition linkedCertificates :: "net_listener list \<Rightarrow> Certificate list \<Rightarrow> net_listener \<Rightarrow> Certificate list" where
  "linkedCertificates listeners certs l = filter (\<lambda>c. l \<in> set (LinkListenerToCertificateFunc listeners c)) certs"

text \<open>The API server fills in the group and kind of every reference.\<close>

definition refs_defaulted :: "net_listener \<Rightarrow> bool" where
  "refs_defaulted l = (case nl_TLS l of None \<Rightarrow> True
     | Some tls \<Rightarrow> list_all (\<lambda>r. sor_Group r \<noteq> None \<and> sor_Kind r \<noteq> None) (ltls_CertificateRefs tls))"

lemma validateCertificateRefs_Return:
  "list_all (\<lambda>r. sor_Group r \<noteq> None \<and> sor_Kind r \<noteq> None) refs \<Longrightarrow> \<exists>errs. validateCertificateRefs ns refs = Return errs"
  by (induction refs) auto

lemma validateGatewayListenerBlock_Return: "refs_defaulted l \<Longrightarrow> \<exists>errs. validateGatewayListenerBlock l = Return errs"
  using validateCertificateRefs_Return
  by (auto simp: validateGatewayListenerBlock_def refs_defaulted_def Let_def split: option.splits)

lemma certTargetsOf_Return:
  assumes "list_all refs_defaulted ls"
  shows "\<exists>ts. certTargetsOf env isTrue validated topo ls = Return ts \<and>
    (\<forall>(l, cert) \<in> set ts. l \<in> set ls \<and> (l, cert) \<in> set (listenerCertTargets env isTrue validated topo l))"
  using assms
proof (induction ls)
  case (Cons l ls)
  then obtain errs ts where "validateGatewayListenerBlock l = Return errs" "certTargetsOf env isTrue validated topo ls = Return ts"
    "\<forall>(l', cert) \<in> set ts. l' \<in> set ls \<and> (l', cert) \<in> set (listenerCertTargets env isTrue validated topo l')"
    using validateGatewayListenerBlock_Return [of l] by auto
  moreover have "fst t = l" if "t \<in> set (listenerCertTargets env isTrue validated topo l)" for t
    using that by (auto simp: listenerCertTargets_def Let_def split: option.splits)
  ultimately show ?case by fastforce
qed simp

text \<open>The link finds every certificate that a target may have created.\<close>

lemma target_linked:
  assumes "(l, cert) \<in> set (listenerCertTargets env isTrue validated topo l)" "l \<in> set listeners" "sameKey c cert"
  shows "l \<in> set (LinkListenerToCertificateFunc listeners c)"
proof -
  obtain tls certRef p where tls: "nl_TLS l = Some tls" and ref: "certRef \<in> set (ltls_CertificateRefs tls)"
    and cert: "cert = buildCertManagerCertificate env l p (getSecretReference certRef l) [getListenerHostname l]"
    using assms(1) by (cases "nl_TLS l") (auto simp: listenerCertTargets_def Let_def)
  have "certRefNamespace l certRef = crt_Namespace c \<and> certName (ng_Name (nl_Gateway l)) (nl_Name l) = crt_Name c"
    using assms(3) by (cases "sor_Namespace certRef")
      (simp_all add: cert buildCertManagerCertificate_def getSecretReference_def certRefNamespace_def sameKey_def)
  then show ?thesis using assms(2) tls ref by (auto simp: LinkListenerToCertificateFunc_def list_ex_iff)
qed

lemma find_filter_implied: "(\<And>x. x \<in> set xs \<Longrightarrow> P x \<Longrightarrow> Q x) \<Longrightarrow> List.find P (filter Q xs) = List.find P xs"
  by (induction xs) auto

lemma lookup_linked:
  assumes "(l, cert) \<in> set (listenerCertTargets env isTrue validated topo l)" "l \<in> set listeners"
  shows "List.find (\<lambda>c. sameKey c cert) (linkedCertificates listeners certs l) = List.find (\<lambda>c. sameKey c cert) certs"
  unfolding linkedCertificates_def by (rule find_filter_implied) (rule target_linked [OF assms])

definition objectFor :: "Certificate list \<Rightarrow> Certificate \<Rightarrow> Certificate" where
  "objectFor certs cert = (case List.find (\<lambda>c. sameKey c cert) certs of None \<Rightarrow> cert | Some c \<Rightarrow> c)"

definition upToDate :: "Certificate list \<Rightarrow> Certificate \<Rightarrow> bool" where
  "upToDate certs cert \<longleftrightarrow> list_ex (\<lambda>c. sameKey c cert \<and> crt_Spec c = crt_Spec cert) certs"

lemma find_sameKey:
  assumes "certs_ok certs"
  shows "List.find (\<lambda>c. sameKey c cert) certs = Some c \<longleftrightarrow> c \<in> set certs \<and> sameKey c cert"
proof
  show "c \<in> set certs \<and> sameKey c cert" if "List.find (\<lambda>c. sameKey c cert) certs = Some c"
    using that by (auto simp: find_Some_iff)
next
  assume c: "c \<in> set certs \<and> sameKey c cert"
  then obtain d where d: "List.find (\<lambda>c. sameKey c cert) certs = Some d"
    by (cases "List.find (\<lambda>c. sameKey c cert) certs") (auto simp: find_None_iff)
  then have "d \<in> set certs" "sameKey d cert" by (auto simp: find_Some_iff)
  with c have "d = c"
    using assms unfolding certs_ok_def distinct_map inj_on_def sameKey_def by (metis prod.inject)
  with d show "List.find (\<lambda>c. sameKey c cert) certs = Some c" by simp
qed

lemma callCertApi_simps [simp]:
  "ct_Ops (callCertApi env operation st) = ct_Ops st @ [operation]" "ct_Specs (callCertApi env operation st) = ct_Specs st"
  by (simp_all add: callCertApi_def Let_def split: option.splits)

lemma reconcileCertificates_step:
  assumes "certs_ok certs" "List.find (\<lambda>c. sameKey c cert) (children l) = List.find (\<lambda>c. sameKey c cert) certs"
    and "ct_Ops st = [] \<Longrightarrow> ct_Specs st = []" "reconcileCertificate env children (st, ex) (l, cert) = (st', ex')"
  shows "ex' = ex @ [objectFor certs cert] \<and> (ct_Ops st' = [] \<longleftrightarrow> ct_Ops st = [] \<and> upToDate certs cert) \<and>
      (ct_Ops st' = [] \<longrightarrow> ct_Specs st' = []) \<and> (\<forall>c. DeleteCert c \<in> set (ct_Ops st') \<longleftrightarrow> DeleteCert c \<in> set (ct_Ops st))"
proof (cases "List.find (\<lambda>c. sameKey c cert) certs")
  case None
  then have "\<not> upToDate certs cert" by (auto simp: upToDate_def find_None_iff list_ex_iff)
  with None show ?thesis
    using assms(2-4) by (auto simp: reconcileCertificate_def objectFor_def)
next
  case (Some d)
  then have "c = d \<longleftrightarrow> c \<in> set certs \<and> sameKey c cert" for c
    using find_sameKey [OF assms(1), of cert c] by auto
  then have "upToDate certs cert \<longleftrightarrow> crt_Spec d = crt_Spec cert" unfolding upToDate_def list_ex_iff by metis
  with Some show ?thesis
    using assms(2-4) by (auto simp: reconcileCertificate_def objectFor_def currentSpec_def split: if_splits)
qed

lemma reconcileCertificates_all:
  assumes "certs_ok certs" "\<forall>(l, cert) \<in> set ts. List.find (\<lambda>c. sameKey c cert) (children l) = List.find (\<lambda>c. sameKey c cert) certs"
    and "ct_Ops st = [] \<Longrightarrow> ct_Specs st = []" "foldl (reconcileCertificate env children) (st, ex) ts = (st', ex')"
  shows "ex' = ex @ map (\<lambda>(l, cert). objectFor certs cert) ts \<and>
    (ct_Ops st' = [] \<longleftrightarrow> ct_Ops st = [] \<and> list_all (\<lambda>(l, cert). upToDate certs cert) ts) \<and>
    (\<forall>c. DeleteCert c \<in> set (ct_Ops st') \<longleftrightarrow> DeleteCert c \<in> set (ct_Ops st))"
  using assms(2-4)
proof (induction ts arbitrary: st ex)
  case (Cons t ts)
  obtain l cert where t: "t = (l, cert)" by (cases t)
  obtain st1 ex1 where s: "reconcileCertificate env children (st, ex) (l, cert) = (st1, ex1)"
    by (cases "reconcileCertificate env children (st, ex) (l, cert)")
  have look: "List.find (\<lambda>c. sameKey c cert) (children l) = List.find (\<lambda>c. sameKey c cert) certs" using Cons.prems(1) t by auto
  note step = reconcileCertificates_step [OF assms(1) look Cons.prems(2) s]
  have "foldl (reconcileCertificate env children) (st1, ex1) ts = (st', ex')" using Cons.prems(3) t s by simp
  from Cons.IH [OF _ _ this] step Cons.prems(1) show ?case unfolding t by auto
qed auto

lemma uniqByUID_subset: "set (uniqByUID seen cs) \<subseteq> set cs"
  by (induction cs arbitrary: seen) auto

lemma uniqByUID_keeps:
  assumes "c \<in> set cs" "crt_UID c \<notin> set seen" "\<And>d. d \<in> set cs \<Longrightarrow> crt_UID d = crt_UID c \<Longrightarrow> d = c"
  shows "c \<in> set (uniqByUID seen cs)"
  using assms
proof (induction cs arbitrary: seen)
  case (Cons d cs)
  show ?case
  proof (cases "d = c")
    case False
    then have "crt_UID d \<noteq> crt_UID c" using Cons.prems(3) [of d] by auto
    with False Cons show ?thesis by auto
  qed (use Cons.prems in auto)
qed simp

lemma orphaned_iff:
  assumes "certs_ok certs" "c \<in> set certs" "list_all (\<lambda>(l, cert). crt_UID cert = []) ts"
  shows "c \<in> set (orphanedCerts certs (map (\<lambda>(l, cert). objectFor certs cert) ts)) \<longleftrightarrow> \<not> list_ex (\<lambda>(l, cert). sameKey c cert) ts"
proof -
  let ?ex = "map (\<lambda>(l, cert). objectFor certs cert) ts"
  have uid: "crt_UID c \<noteq> []" using assms(1,2) by (auto simp: certs_ok_def list_all_iff)
  have obj: "objectFor certs cert = c \<longleftrightarrow> sameKey c cert" if "(l, cert) \<in> set ts" for l cert
  proof (cases "List.find (\<lambda>c. sameKey c cert) certs")
    case None
    then have "\<not> sameKey c cert" using assms(2) by (auto simp: find_None_iff)
    moreover have "cert \<noteq> c" using that assms(3) uid by (auto simp: list_all_iff)
    ultimately show ?thesis using None by (simp add: objectFor_def)
  next
    case (Some d)
    then show ?thesis using find_sameKey [OF assms(1), of cert c] assms(2) by (simp add: objectFor_def)
  qed
  have "d = c" if d: "d \<in> set ?ex" "crt_UID d = crt_UID c" for d
  proof -
    obtain l cert where lc: "(l, cert) \<in> set ts" "d = objectFor certs cert" using d(1) by auto
    show ?thesis
    proof (cases "List.find (\<lambda>c. sameKey c cert) certs")
      case None
      then show ?thesis using lc assms(3) uid d(2) by (auto simp: objectFor_def list_all_iff)
    next
      case (Some e)
      then have "d = e" using lc(2) by (simp add: objectFor_def)
      then have "d \<in> set certs" using Some by (auto simp: find_Some_iff)
      then show ?thesis using assms(1,2) d(2) by (auto simp: certs_ok_def distinct_map inj_on_def)
    qed
  qed
  then have "c \<in> set (uniqByUID [] ?ex) \<longleftrightarrow> c \<in> set ?ex"
    using uniqByUID_keeps [of c ?ex "[]"] uniqByUID_subset [of "[]" ?ex] unfolding list.set(1) by blast
  also have "\<dots> \<longleftrightarrow> list_ex (\<lambda>(l, cert). sameKey c cert) ts" using obj by (fastforce simp: list_ex_iff)
  finally show ?thesis using assms(2) by (simp add: orphanedCerts_def)
qed

lemma foldl_delete_ops: "ct_Ops (foldl (\<lambda>st c. callCertApi env (DeleteCert c) st) st cs) = ct_Ops st @ map DeleteCert cs"
  by (induction cs arbitrary: st) simp_all

lemma targets_without_UID:
  assumes "\<forall>(l, cert) \<in> set ts. (l, cert) \<in> set (listenerCertTargets env isTrue validated topo l)"
  shows "list_all (\<lambda>(l, cert). crt_UID cert = []) ts"
proof -
  have "crt_UID cert = []" if "(l, cert) \<in> set (listenerCertTargets env isTrue validated topo l)" for l cert
    using that by (cases "nl_TLS l") (auto simp: listenerCertTargets_def buildCertManagerCertificate_def Let_def)
  with assms show ?thesis by (auto simp: list_all_iff)
qed

text \<open>
  C18.  The certificates of the cluster follow the policies.  With the links of the workflow, a run
  deletes a certificate exactly when no valid listener and valid policy ask for one of its name; and
  a run does nothing exactly when every certificate asked for exists with the specification asked
  for and there is no other.  It never panics.
\<close>

theorem tls_certificates_exact:
  assumes "certs_ok certs" "list_all refs_defaulted listeners"
  shows "\<exists>ts st. certTargetsOf env isTrue validated topo listeners = Return ts \<and>
    EffectiveTLSPoliciesReconciler_Reconcile env isTrue validated topo listeners certs (linkedCertificates listeners certs) stored = Return st \<and>
    list_all (\<lambda>c. DeleteCert c \<in> set (ct_Ops st) \<longleftrightarrow> \<not> list_ex (\<lambda>(l, cert). sameKey c cert) ts) certs \<and>
    (ct_Ops st = [] \<longleftrightarrow> list_all (\<lambda>(l, cert). list_ex (\<lambda>c. sameKey c cert \<and> crt_Spec c = crt_Spec cert) certs) ts \<and>
      list_all (\<lambda>c. list_ex (\<lambda>(l, cert). sameKey c cert) ts) certs)"
proof -
  define st0 where "st0 = \<lparr>ct_Ops = [], ct_Errors = fst (GetOrCreateErrorRegistry stored), ct_Specs = []\<rparr>"
  let ?children = "linkedCertificates listeners certs"
  obtain ts where ts: "certTargetsOf env isTrue validated topo listeners = Return ts"
    and mem: "\<forall>(l, cert) \<in> set ts. l \<in> set listeners \<and> (l, cert) \<in> set (listenerCertTargets env isTrue validated topo l)"
    using certTargetsOf_Return [OF assms(2)] by blast
  obtain st1 ex where r: "reconcileCertificates env ?children ts st0 = (st1, ex)" by fastforce
  have look: "\<forall>(l, cert) \<in> set ts. List.find (\<lambda>c. sameKey c cert) (?children l) = List.find (\<lambda>c. sameKey c cert) certs"
    using mem lookup_linked by fastforce
  have all: "ex = map (\<lambda>(l, cert). objectFor certs cert) ts" "ct_Ops st1 = [] \<longleftrightarrow> list_all (\<lambda>(l, cert). upToDate certs cert) ts"
    "\<And>c. DeleteCert c \<notin> set (ct_Ops st1)"
    using reconcileCertificates_all [OF assms(1) look _ r [unfolded reconcileCertificates_def]] by (simp_all add: st0_def)
  have uid: "list_all (\<lambda>(l, cert). crt_UID cert = []) ts" by (rule targets_without_UID) (use mem in blast)
  note orphan = orphaned_iff [OF assms(1) _ uid, folded all(1)]
  define st where "st = foldl (\<lambda>st c. callCertApi env (DeleteCert c) st) st1 (orphanedCerts certs ex)"
  have ops: "ct_Ops st = ct_Ops st1 @ map DeleteCert (orphanedCerts certs ex)" by (simp add: st_def foldl_delete_ops)
  have "set (orphanedCerts certs ex) \<subseteq> set certs" by (auto simp: orphanedCerts_def)
  then have none: "orphanedCerts certs ex = [] \<longleftrightarrow> list_all (\<lambda>c. list_ex (\<lambda>(l, cert). sameKey c cert) ts) certs"
    using orphan unfolding list_all_iff by (metis list.set_intros(1) neq_Nil_conv subset_code(1) empty_iff list.set(1))
  have "list_all (\<lambda>c. DeleteCert c \<in> set (ct_Ops st) \<longleftrightarrow> \<not> list_ex (\<lambda>(l, cert). sameKey c cert) ts) certs"
    using all(3) orphan unfolding ops list_all_iff by auto
  moreover have "ct_Ops st = [] \<longleftrightarrow> list_all (\<lambda>(l, cert). list_ex (\<lambda>c. sameKey c cert \<and> crt_Spec c = crt_Spec cert) certs) ts \<and>
      list_all (\<lambda>c. list_ex (\<lambda>(l, cert). sameKey c cert) ts) certs"
    using all(2) none by (simp add: ops upToDate_def)
  moreover have "EffectiveTLSPoliciesReconciler_Reconcile env isTrue validated topo listeners certs ?children stored = Return st"
    unfolding EffectiveTLSPoliciesReconciler_Reconcile_def Let_def st0_def [symmetric] using ts r by (simp add: st_def)
  ultimately show ?thesis using ts by blast
qed

text \<open>
  Every reference of a listener asks for a certificate of the same name: a listener with two
  references to different secrets is never settled, each run writes its certificate again.
\<close>

lemma two_references_never_settle:
  assumes "certs_ok certs" "(l, cert) \<in> set ts" "(l', cert') \<in> set ts" "sameKey cert cert'" "crt_Spec cert \<noteq> crt_Spec cert'"
  shows "\<not> list_all (\<lambda>(l, cert). list_ex (\<lambda>c. sameKey c cert \<and> crt_Spec c = crt_Spec cert) certs) ts"
proof
  assume "list_all (\<lambda>(l, cert). list_ex (\<lambda>c. sameKey c cert \<and> crt_Spec c = crt_Spec cert) certs) ts"
  then have found: "\<exists>c \<in> set certs. sameKey c d \<and> crt_Spec c = crt_Spec d" if "(k, d) \<in> set ts" for k d
    using that by (auto simp: list_all_iff list_ex_iff)
  obtain c c' where "c \<in> set certs" "sameKey c cert" "crt_Spec c = crt_Spec cert"
    "c' \<in> set certs" "sameKey c' cert'" "crt_Spec c' = crt_Spec cert'"
    using found [OF assms(2)] found [OF assms(3)] by blast
  moreover from this assms(4) have "sameKey c cert'" by (simp add: sameKey_def)
  ultimately show False using find_sameKey [OF assms(1), of cert'] assms(5) by (metis option.inject)
qed

lemma certificate_names_collide: "certName ''a-b'' ''c'' = certName ''a'' ''b-c''"
  by (simp add: certName_def)

text \<open>Without the results of the validator a policy that was rejected is reported as accepted.\<close>

lemma tls_accepted_without_validation:
  "cond_Status (AcceptedCondition nn TLSPolicyKind (snd (IsTLSPolicyValid isTrue locator None p))) = ''True''"
  by (simp add: IsTLSPolicyValid_def AcceptedCondition_def Let_def)

section \<open>The enforced condition\<close>

definition certReady :: "find_cond \<Rightarrow> Certificate list \<Rightarrow> Certificate \<Rightarrow> bool" where
  "certReady findCond objs cert = (case List.find (\<lambda>c. sameKey c cert) objs of None \<Rightarrow> False
     | Some c \<Rightarrow> map_option cond_Status (findCond (crt_Conditions c) ''Ready'') = Some ''True'')"

lemma certificateReady_None: "certificateReady findCond objs cert = None \<longleftrightarrow> certReady findCond objs cert"
  by (simp add: certificateReady_def certReady_def split: option.splits)

lemma find_first_error: "List.find (\<lambda>e. e \<noteq> None) (map f xs) = None \<longleftrightarrow> list_all (\<lambda>x. f x = None) xs"
  by (induction xs) auto

lemma listenersReady_iff:
  assumes "list_all refs_defaulted ls"
  shows "\<exists>err. listenersReady env findCond children policy ls = Return err \<and>
    (err = None \<longleftrightarrow> list_all (\<lambda>l. \<exists>certs. expectedCertificatesForListener env l policy = Return certs \<and>
       list_all (certReady findCond (children l)) certs) ls)"
  using assms
proof (induction ls)
  case (Cons l ls)
  obtain certs where certs: "expectedCertificatesForListener env l policy = Return certs"
    using validateGatewayListenerBlock_Return [of l] Cons.prems by (auto simp: expectedCertificatesForListener_def)
  show ?case
  proof (cases "List.find (\<lambda>e. e \<noteq> None) (map (certificateReady findCond (children l)) certs)")
    case None
    then show ?thesis using Cons certs find_first_error [of "certificateReady findCond (children l)" certs] by (simp add: certificateReady_None)
  next
    case (Some e)
    then have "e \<noteq> None" by (auto simp: find_Some_iff)
    moreover have "\<not> list_all (certReady findCond (children l)) certs"
      using Some find_first_error [of "certificateReady findCond (children l)" certs] by (auto simp: certificateReady_None)
    ultimately show ?thesis using Some certs by simp
  qed
qed simp

text \<open>
  A TLS policy is reported as enforced exactly when its issuer is ready, it applies to some
  listener, and every certificate of its valid listeners exists and is ready.
\<close>

theorem tls_enforced_iff:
  assumes "list_all refs_defaulted listeners"
    and mine: "mine = filter (\<lambda>l. p \<in> set (gt_ListenerPolicies topo l) \<or> p \<in> set (gt_GatewayPolicies topo (nl_Gateway l))) listeners"
  shows "\<exists>cond. tls_enforcedCondition env isTrue findCond nn issuers children topo listeners p = Return cond \<and>
    (cond_Status cond = ''True'' \<longleftrightarrow> isIssuerReady isTrue issuers p = None \<and> mine \<noteq> [] \<and>
      list_all (\<lambda>l. \<exists>certs. expectedCertificatesForListener env l p = Return certs \<and> list_all (certReady findCond (children l)) certs) mine)"
proof -
  have "list_all refs_defaulted mine" using assms(1) by (auto simp: mine list_all_iff)
  from listenersReady_iff [OF this, of env findCond children p]
  obtain err where "listenersReady env findCond children p mine = Return err"
    "err = None \<longleftrightarrow> list_all (\<lambda>l. \<exists>certs. expectedCertificatesForListener env l p = Return certs \<and> list_all (certReady findCond (children l)) certs) mine"
    by blast
  then show ?thesis
    by (cases "isIssuerReady isTrue issuers p"; cases err)
      (simp_all add: tls_enforcedCondition_def isCertificatesReady_def EnforcedCondition_def mine [symmetric] Let_def)
qed

section \<open>An example\<close>

definition ex_tls_gateway :: net_gateway where
  "ex_tls_gateway = \<lparr>ng_Namespace = ''ns'', ng_Name = ''gw'', ng_Addresses = [], ng_AttachedRoutes = []\<rparr>"

definition ex_tls_listener :: net_listener where
  "ex_tls_listener = \<lparr>nl_Gateway = ex_tls_gateway, nl_Name = ''web'', nl_Hostname = Some ''www.example.com'',
     nl_TLS = Some \<lparr>ltls_Mode = Some ''Terminate'',
       ltls_CertificateRefs = [\<lparr>sor_Group = Some [], sor_Kind = Some ''Secret'', sor_Namespace = None, sor_Name = ''web-tls''\<rparr>]\<rparr>\<rparr>"

definition ex_tls_policy :: "string \<Rightarrow> string \<Rightarrow> TLSPolicy" where
  "ex_tls_policy name kind = \<lparr>gp_Namespace = ''ns'', gp_Name = name, gp_CreationTimestamp = 1, gp_Deleted = False,
     gp_Generation = 1, gp_ObservedGeneration = 1, gp_Conditions = [],
     gp_TargetRef = \<lparr>ref_Group = ''gateway.networking.k8s.io'', ref_Kind = ''Gateway'', ref_Name = ''gw'', ref_SectionName = None\<rparr>,
     tls_IssuerRef = \<lparr>ir_Name = ''ca'', ir_Kind = kind, ir_Group = []\<rparr>, tls_CommonName = [], tls_Duration = None, tls_RenewBefore = None,
     tls_Usages = None, tls_RevisionHistoryLimit = None, tls_PrivateKey = None\<rparr>"

definition ex_issuer :: issuer where
  "ex_issuer = \<lparr>iss_Kind = ''Issuer'', iss_Namespace = ''ns'', iss_Name = ''ca'',
     iss_Conditions = [\<lparr>cond_Type = ''Ready'', cond_Status = ''True'', cond_Reason = [], cond_Message = []\<rparr>]\<rparr>"

definition ex_tls_topo :: "TLSPolicy gateway_topology" where
  "ex_tls_topo = \<lparr>gt_Policies = [ex_tls_policy ''tls'' ''Issuer''], gt_Targets = (\<lambda>p. [GatewayTarget ex_tls_gateway]),
     gt_GatewayChildren = (\<lambda>g. [ListenerTarget ex_tls_listener]), gt_ListenerPolicies = (\<lambda>l. []),
     gt_GatewayPolicies = (\<lambda>g. [ex_tls_policy ''tls'' ''Issuer''])\<rparr>"

definition ex_tls_env :: tls_env where
  "ex_tls_env = \<lparr>te_DefaultUsages = [''digital signature'', ''key encipherment''], te_Api = (\<lambda>_. None), te_Now = 0,
     te_Locator = (\<lambda>kind ns name. kind @ '':'' @ ns @ ''/'' @ name),
     te_Owner = (\<lambda>p. \<lparr>owner_APIVersion = ''kuadrant.io/v1'', owner_Kind = TLSPolicyKind, owner_Name = gp_Name p,
       owner_UID = gp_Name p, owner_BlockOwnerDeletion = Some True, owner_Controller = Some True\<rparr>)\<rparr>"

definition ex_tls_installed :: gateway_policy_validator where
  "ex_tls_installed = \<lparr>gpv_isGatewayAPIInstalled = True, gpv_isOperatorInstalled = True\<rparr>"

definition ex_tls_validated :: "valid_map option" where
  "ex_tls_validated = Some (TLSPoliciesValidator_Validate (\<lambda>_ _. []) (\<lambda>ns name. ns @ ''/'' @ name) (te_Locator ex_tls_env) ex_tls_installed
     (issuerChildren (gt_Policies ex_tls_topo) [ex_issuer]) ex_tls_topo)"

theorem tls_validation_witness:
  "fst (IsTLSPolicyValid (\<lambda>_ _. False) (te_Locator ex_tls_env) ex_tls_validated (ex_tls_policy ''tls'' ''Issuer''))"
proof -
  have d: "distinct (map (gp_locator (te_Locator ex_tls_env) TLSPolicyKind) (gt_Policies ex_tls_topo))" by code_simp
  have mem: "ex_tls_policy ''tls'' ''Issuer'' \<in> set (gt_Policies ex_tls_topo)" by (simp add: ex_tls_topo_def)
  show ?thesis
    unfolding conjunct1 [OF tls_validation [OF d mem mem ex_tls_validated_def, of "\<lambda>_ _. False"]]
    by (simp add: ex_tls_installed_def ex_tls_topo_def ex_tls_policy_def ex_issuer_def)
qed

definition ex_old_certificate :: Certificate where
  "ex_old_certificate = \<lparr>crt_Namespace = ''ns'', crt_Name = ''gw-old'', crt_UID = ''1'', crt_Labels = CommonLabels, crt_Owners = [],
     crt_Spec = \<lparr>cs_DNSNames = [], cs_SecretName = [], cs_IssuerRef = \<lparr>ir_Name = ''ca'', ir_Kind = ''Issuer'', ir_Group = []\<rparr>, cs_Usages = None,
       cs_CommonName = [], cs_Duration = None, cs_RenewBefore = None, cs_RevisionHistoryLimit = None, cs_PrivateKey = None\<rparr>,
     crt_Conditions = []\<rparr>"

text \<open>A certificate of a listener that is gone is deleted.\<close>

theorem tls_certificates_exact_witness:
  "\<exists>st. EffectiveTLSPoliciesReconciler_Reconcile ex_tls_env (\<lambda>_ _. False) ex_tls_validated ex_tls_topo [ex_tls_listener] [ex_old_certificate]
      (linkedCertificates [ex_tls_listener] [ex_old_certificate]) None = Return st \<and> DeleteCert ex_old_certificate \<in> set (ct_Ops st)"
proof -
  have "certs_ok [ex_old_certificate]" "list_all refs_defaulted [ex_tls_listener]" by code_simp+
  from tls_certificates_exact [OF this, of ex_tls_env "\<lambda>_ _. False" ex_tls_validated ex_tls_topo None]
  obtain ts st where ts: "certTargetsOf ex_tls_env (\<lambda>_ _. False) ex_tls_validated ex_tls_topo [ex_tls_listener] = Return ts"
    and st: "EffectiveTLSPoliciesReconciler_Reconcile ex_tls_env (\<lambda>_ _. False) ex_tls_validated ex_tls_topo [ex_tls_listener] [ex_old_certificate]
      (linkedCertificates [ex_tls_listener] [ex_old_certificate]) None = Return st"
    and del: "list_all (\<lambda>c. DeleteCert c \<in> set (ct_Ops st) \<longleftrightarrow> \<not> list_ex (\<lambda>(l, cert). sameKey c cert) ts) [ex_old_certificate]"
    by blast
  have "(case certTargetsOf ex_tls_env (\<lambda>_ _. False) ex_tls_validated ex_tls_topo [ex_tls_listener] of
      Return ts \<Rightarrow> \<not> list_ex (\<lambda>(l, cert). sameKey ex_old_certificate cert) ts | Panic e \<Rightarrow> False)" by code_simp
  then have "\<not> list_ex (\<lambda>(l, cert). sameKey ex_old_certificate cert) ts" unfolding ts by simp
  with st del show ?thesis by auto
qed

theorem tls_enforced_iff_witness:
  "\<exists>cond. tls_enforcedCondition ex_tls_env (\<lambda>_ _. True) ex_find (\<lambda>ns name. ns @ ''/'' @ name) (\<lambda>_. [ex_issuer]) (\<lambda>_. []) ex_tls_topo [ex_tls_listener]
      (ex_tls_policy ''tls'' ''Issuer'') = Return cond \<and> cond_Status cond \<noteq> ''True''"
proof -
  have refs: "list_all refs_defaulted [ex_tls_listener]" by code_simp
  have mine: "[ex_tls_listener] = filter (\<lambda>l. ex_tls_policy ''tls'' ''Issuer'' \<in> set (gt_ListenerPolicies ex_tls_topo l) \<or>
      ex_tls_policy ''tls'' ''Issuer'' \<in> set (gt_GatewayPolicies ex_tls_topo (nl_Gateway l))) [ex_tls_listener]"
    by (simp add: ex_tls_topo_def)
  have "(case expectedCertificatesForListener ex_tls_env ex_tls_listener (ex_tls_policy ''tls'' ''Issuer'') of
      Return certs \<Rightarrow> \<not> list_all (certReady ex_find []) certs | Panic e \<Rightarrow> False)" by code_simp
  then have "\<not> (\<exists>certs. expectedCertificatesForListener ex_tls_env ex_tls_listener (ex_tls_policy ''tls'' ''Issuer'') = Return certs \<and>
      list_all (certReady ex_find []) certs)" by auto
  with tls_enforced_iff [OF refs mine, of ex_tls_env "\<lambda>_ _. True" ex_find "\<lambda>ns name. ns @ ''/'' @ name" "\<lambda>_. [ex_issuer]" "\<lambda>_. []"]
  show ?thesis by auto
qed

end
