(* ===== verification/Policy_Discovery.thy ===== *)
theory Policy_Discovery
  imports DNS_Policy TLS_Policy
begin

text \<open>
  Which policies affect an object: the conditions that the operator writes into the statuses of
  routes and gateways (\<open>internal/controller/route_policy_discoverability_reconciler.go\<close>,
  \<open>gateway_policy_discoverability_reconciler.go\<close>, \<open>IsPolicyAccepted\<close> of \<open>common.go\<close>).

  The statuses are shared with other controllers: a route has one entry per gateway and
  controller, a gateway and its listeners have conditions of all controllers.  The parameters
  \<open>ca_Find\<close>, \<open>ca_Set\<close> and \<open>ca_Remove\<close> are \<open>meta.FindStatusCondition\<close>, \<open>meta.SetStatusCondition\<close> and
  \<open>meta.RemoveStatusCondition\<close>; the targetables and their order come from the topology of the
  policy-machinery library.
\<close>

section \<open>Statuses\<close>

text \<open>Conditions with the generation they were observed at and the time of their last transition.\<close>

record ObservedCondition = Condition +
  oc_ObservedGeneration :: int
  oc_LastTransitionTime :: int

record parent_status =
  pst_ParentRef :: ParentReference
  pst_ControllerName :: string
  pst_Conditions :: "ObservedCondition list"

text \<open>Of a gateway's status the model has what the reconciler reads and writes; \<open>'r\<close> is the rest.\<close>

record 'r listener_status =
  lst_Name :: string
  lst_Conditions :: "ObservedCondition list"
  lst_Rest :: 'r

record 'r gateway_status =
  gst_Conditions :: "ObservedCondition list"
  gst_Listeners :: "'r listener_status list"
  gst_Rest :: 'r

record condition_api =
  ca_Find :: "ObservedCondition list \<Rightarrow> string \<Rightarrow> ObservedCondition option"
  ca_Set :: "ObservedCondition list \<Rightarrow> ObservedCondition \<Rightarrow> ObservedCondition list"
  ca_Remove :: "ObservedCondition list \<Rightarrow> string \<Rightarrow> ObservedCondition list"

section \<open>Accepted policies\<close>

datatype 's any_policy =
    DataPlanePolicy "'s policy_object"
  | TLSPolicyObj TLSPolicy
  | DNSPolicyObj DNSPolicy

fun any_kind :: "'s any_policy \<Rightarrow> string" where
  "any_kind (DataPlanePolicy p) = policy_kind (pol p)"
| "any_kind (TLSPolicyObj p) = TLSPolicyKind"
| "any_kind (DNSPolicyObj p) = DNSPolicyKind"

fun any_nsname :: "'s any_policy \<Rightarrow> string \<times> string" where
  "any_nsname (DataPlanePolicy p) = policy_nsname (pol p)"
| "any_nsname (TLSPolicyObj p) = (gp_Namespace p, gp_Name p)"
| "any_nsname (DNSPolicyObj p) = (gp_Namespace p, gp_Name p)"

text \<open>The results of the validators, as stored in the state.\<close>

record 's discovery_state =
  ds_Workflow :: "'s workflow_state"
  ds_TLSPolicyValid :: "valid_map option"
  ds_DNSPolicyValid :: "valid_map option"

record 's discovery_env =
  dv_Targetables :: "targetable list"
  dv_Children :: "targetable \<Rightarrow> targetable list"
  dv_Parents :: "targetable \<Rightarrow> targetable list"
  dv_Locator :: "targetable \<Rightarrow> string"
  dv_Policies :: "targetable \<Rightarrow> 's any_policy list"
  dv_CreatedBefore :: "'s any_policy \<Rightarrow> 's any_policy \<Rightarrow> bool"
  dv_Generation :: "targetable \<Rightarrow> int"
  dv_FindCond :: find_cond
  dv_IsTrue :: is_true
  dv_PolicyLocator :: locator_fun
  dv_NN :: "string \<Rightarrow> string \<Rightarrow> string"
  dv_Conditions :: condition_api

definition common_IsPolicyAccepted :: "'s discovery_env \<Rightarrow> 's discovery_state \<Rightarrow> 's any_policy \<Rightarrow> bool" where
  "common_IsPolicyAccepted de s p =
     (case p of
        DataPlanePolicy q \<Rightarrow>
          (case pol q of
             AuthPolicyObj _ \<Rightarrow> isAuthPolicyAcceptedFunc (dv_FindCond de) (dv_PolicyLocator de) (ds_Workflow s) q
           | RateLimitPolicyObj _ \<Rightarrow> isRateLimitPolicyAcceptedFunc (dv_FindCond de) (dv_PolicyLocator de) (ds_Workflow s) q
           | TokenRateLimitPolicyObj _ \<Rightarrow> isTokenRateLimitPolicyAcceptedFunc (dv_FindCond de) (dv_PolicyLocator de) (ds_Workflow s) q
           | OtherPolicyObj _ _ _ \<Rightarrow> False)
      | TLSPolicyObj q \<Rightarrow> fst (IsTLSPolicyValid (dv_IsTrue de) (dv_PolicyLocator de) (ds_TLSPolicyValid s) q)
      | DNSPolicyObj q \<Rightarrow> fst (dnsPolicyAcceptedStatusFunc (dv_FindCond de) (dv_PolicyLocator de) (ds_DNSPolicyValid s) q))"

definition policyGroupKinds :: "string list" where
  "policyGroupKinds = [AuthPolicyKind, RateLimitPolicyKind, TokenRateLimitPolicyKind, TLSPolicyKind, DNSPolicyKind]"

definition extractAcceptedPolicies :: "'s discovery_env \<Rightarrow> 's discovery_state \<Rightarrow> string \<Rightarrow> targetable list \<Rightarrow> 's any_policy list" where
  "extractAcceptedPolicies de s kind targets =
     PoliciesInPath (dv_Policies de) (\<lambda>_. True) (dv_CreatedBefore de) targets (\<lambda>p. any_kind p = kind \<and> common_IsPolicyAccepted de s p)"

text \<open>The condition as it is built, without generation and time.\<close>

definition affectedCondition :: "'s discovery_env \<Rightarrow> string \<Rightarrow> 's any_policy list \<Rightarrow> ObservedCondition" where
  "affectedCondition de kind policies =
     Condition.extend (PolicyAffectedCondition (dv_NN de) kind (map any_nsname policies)) \<lparr>oc_ObservedGeneration = 0, oc_LastTransitionTime = 0\<rparr>"

section \<open>Routes\<close>

definition ControllerName :: string where "ControllerName = ''kuadrant.io/policy-controller''"

definition FindRouteParentStatusFunc :: "string \<Rightarrow> string \<times> string \<Rightarrow> string \<Rightarrow> parent_status \<Rightarrow> bool" where
  "FindRouteParentStatusFunc routeNamespace gatewayKey controllerName p \<longleftrightarrow>
     parent_Kind (pst_ParentRef p) = Some ''Gateway'' \<and> pst_ControllerName p = controllerName \<and>
     (parent_Namespace (pst_ParentRef p) = None \<and> routeNamespace = fst gatewayKey \<or> parent_Namespace (pst_ParentRef p) = Some (fst gatewayKey)) \<and>
     parent_Name (pst_ParentRef p) = snd gatewayKey"

definition discoverable :: "targetable \<Rightarrow> bool" where
  "discoverable t = (case t of THTTPRoute _ \<Rightarrow> True | TGRPCRoute _ \<Rightarrow> True | _ \<Rightarrow> False)"

definition extractDiscoverableRoutes :: "'s discovery_env \<Rightarrow> targetable list" where
  "extractDiscoverableRoutes de = filter discoverable (dv_Targetables de)"

fun uniqByTarget :: "(targetable \<Rightarrow> string) \<Rightarrow> string list \<Rightarrow> targetable list \<Rightarrow> targetable list" where
  "uniqByTarget locator seen [] = []"
| "uniqByTarget locator seen (t # ts) =
     (if locator t \<in> set seen then uniqByTarget locator seen ts else t # uniqByTarget locator (locator t # seen) ts)"

definition getRoutePath :: "'s discovery_env \<Rightarrow> targetable \<Rightarrow> targetable list" where
  "getRoutePath de route =
     uniqByTarget (dv_Locator de) [] (route # concat (map (\<lambda>listener. listener # dv_Parents de listener) (dv_Parents de route)))"

definition gatewayKeyOf :: "Gateway \<Rightarrow> string \<times> string" where "gatewayKeyOf gw = (gateway_Namespace gw, gateway_Name gw)"

definition pathGatewayKeys :: "targetable list \<Rightarrow> (string \<times> string) list" where
  "pathGatewayKeys path = List.map_filter (\<lambda>item. case item of TGateway (Some gw) \<Rightarrow> Some (gatewayKeyOf gw) | _ \<Rightarrow> None) path"

text \<open>The bodies of the loops over the gateways.\<close>

definition removePolicyCondition ::
  "condition_api \<Rightarrow> string \<Rightarrow> string \<Rightarrow> parent_status list \<Rightarrow> string \<times> string \<Rightarrow> parent_status list" where
  "removePolicyCondition ca conditionType routeNamespace parents gw =
     (let i = utils_Index parents (FindRouteParentStatusFunc routeNamespace gw ControllerName)
      in if i < 0 then parents
         else (let p = parents ! nat i
               in case ca_Find ca (pst_Conditions p) conditionType of None \<Rightarrow> parents
                  | Some _ \<Rightarrow>
                    (let conditions = ca_Remove ca (pst_Conditions p) conditionType
                     in if length conditions = 0 then take (nat i) parents @ drop (Suc (nat i)) parents
                        else parents[nat i := p\<lparr>pst_Conditions := conditions\<rparr>])))"

definition removePolicyConditions ::
  "condition_api \<Rightarrow> parent_status list \<Rightarrow> (string \<times> string) list \<Rightarrow> string \<Rightarrow> string \<Rightarrow> parent_status list" where
  "removePolicyConditions ca parents gateways policyKind routeNamespace =
     foldl (removePolicyCondition ca (PolicyAffectedConditionType policyKind) routeNamespace) parents gateways"

definition ensureRouteParentStatus :: "parent_status list \<Rightarrow> string \<Rightarrow> string \<times> string \<Rightarrow> parent_status list \<times> nat" where
  "ensureRouteParentStatus parents routeNamespace gw =
     (let i = utils_Index parents (FindRouteParentStatusFunc routeNamespace gw ControllerName)
      in if i < 0 then
           (parents @ [\<lparr>pst_ParentRef = \<lparr>parent_Group = None, parent_Kind = Some ''Gateway'', parent_Namespace = Some (fst gw),
              parent_Name = snd gw, parent_SectionName = None, parent_Port = None\<rparr>, pst_ControllerName = ControllerName, pst_Conditions = []\<rparr>],
            length parents)
         else (parents, nat i))"

definition conditionUpToDate :: "ObservedCondition \<Rightarrow> ObservedCondition \<Rightarrow> int \<Rightarrow> bool" where
  "conditionUpToDate current condition generation \<longleftrightarrow>
     cond_Status current = cond_Status condition \<and> cond_Reason current = cond_Reason condition \<and>
     cond_Message current = cond_Message condition \<and> oc_ObservedGeneration current = generation"

definition addPolicyCondition ::
  "condition_api \<Rightarrow> ObservedCondition \<Rightarrow> int \<Rightarrow> string \<Rightarrow> parent_status list \<Rightarrow> string \<times> string \<Rightarrow> parent_status list" where
  "addPolicyCondition ca condition generation routeNamespace parents gw =
     (let (parents, i) = ensureRouteParentStatus parents routeNamespace gw;
          p = parents ! i;
          update = parents[i := p\<lparr>pst_Conditions := ca_Set ca (pst_Conditions p) (condition\<lparr>oc_ObservedGeneration := generation\<rparr>)\<rparr>]
      in case ca_Find ca (pst_Conditions p) (cond_Type condition) of None \<Rightarrow> update
         | Some currentCondition \<Rightarrow> if conditionUpToDate currentCondition condition generation then parents else update)"

definition addPolicyConditions ::
  "'s discovery_env \<Rightarrow> parent_status list \<Rightarrow> (string \<times> string) list \<Rightarrow> 's any_policy list \<Rightarrow> string \<Rightarrow> int \<Rightarrow> string \<Rightarrow> parent_status list" where
  "addPolicyConditions de parents gateways policies policyKind generation routeNamespace =
     foldl (addPolicyCondition (dv_Conditions de) (affectedCondition de policyKind policies) generation routeNamespace) parents gateways"

text \<open>The loop over the kinds for one route.\<close>

definition reconcileRouteKind ::
  "'s discovery_env \<Rightarrow> 's discovery_state \<Rightarrow> targetable list \<Rightarrow> int \<Rightarrow> string \<Rightarrow> parent_status list \<Rightarrow> string \<Rightarrow> parent_status list" where
  "reconcileRouteKind de s path generation routeNamespace parents policyKind =
     (let gateways = pathGatewayKeys path;
          policies = extractAcceptedPolicies de s policyKind path
      in if length policies = 0 then removePolicyConditions (dv_Conditions de) parents gateways policyKind routeNamespace
         else addPolicyConditions de parents gateways policies policyKind generation routeNamespace)"

definition reconcileRoute ::
  "'s discovery_env \<Rightarrow> 's discovery_state \<Rightarrow> targetable \<Rightarrow> string \<Rightarrow> parent_status list \<Rightarrow> parent_status list" where
  "reconcileRoute de s route routeNamespace parents =
     foldl (reconcileRouteKind de s (getRoutePath de route) (dv_Generation de route) routeNamespace) parents policyGroupKinds"

fun routeNamespaceOf :: "targetable \<Rightarrow> string" where
  "routeNamespaceOf (THTTPRoute (Some r)) = route_Namespace (tr_Route r)"
| "routeNamespaceOf (TGRPCRoute (Some r)) = route_Namespace (tr_Route r)"
| "routeNamespaceOf _ = []"

text \<open>The statuses that are written; a failing call is only logged.\<close>

definition RoutePolicyDiscoverabilityReconciler_reconcile ::
  "'s discovery_env \<Rightarrow> 's discovery_state \<Rightarrow> (targetable \<Rightarrow> parent_status list) \<Rightarrow> (targetable \<times> parent_status list) list" where
  "RoutePolicyDiscoverabilityReconciler_reconcile de s parents =
     filter (\<lambda>(route, new). new \<noteq> parents route)
       (map (\<lambda>route. (route, reconcileRoute de s route (routeNamespaceOf route) (parents route))) (extractDiscoverableRoutes de))"

section \<open>Gateways\<close>

definition findListenerStatus :: "'r listener_status list \<Rightarrow> string \<Rightarrow> ('r listener_status \<times> nat) option" where
  "findListenerStatus listeners name =
     (case utils_Index listeners (\<lambda>status. lst_Name status = name) of i \<Rightarrow> if i < 0 then None else Some (listeners ! nat i, nat i))"

definition updateListenerList :: "'r listener_status list \<Rightarrow> 'r listener_status \<Rightarrow> 'r listener_status list" where
  "updateListenerList listeners updatedStatus =
     (case findListenerStatus listeners (lst_Name updatedStatus) of Some (_, index) \<Rightarrow> listeners[index := updatedStatus]
      | None \<Rightarrow> listeners @ [updatedStatus])"

definition addOrUpdateCondition :: "condition_api \<Rightarrow> ObservedCondition list \<Rightarrow> ObservedCondition \<Rightarrow> int \<Rightarrow> ObservedCondition list" where
  "addOrUpdateCondition ca conditions condition generation =
     (if ca_Find ca conditions (cond_Type condition) = Some condition then conditions
      else ca_Set ca conditions (condition\<lparr>oc_ObservedGeneration := generation\<rparr>))"

definition removeConditionIfExists :: "condition_api \<Rightarrow> ObservedCondition list \<Rightarrow> string \<Rightarrow> ObservedCondition list" where
  "removeConditionIfExists ca conditions conditionType = ca_Remove ca conditions conditionType"

text \<open>The condition of one kind on the targets: both reconcilers of statuses use it.\<close>

definition conditionsForKind ::
  "'s discovery_env \<Rightarrow> 's discovery_state \<Rightarrow> int \<Rightarrow> targetable list \<Rightarrow> ObservedCondition list \<Rightarrow> string \<Rightarrow> ObservedCondition list" where
  "conditionsForKind de s generation targets conditions kind =
     (let policies = extractAcceptedPolicies de s kind targets
      in if length policies = 0 then removeConditionIfExists (dv_Conditions de) conditions (PolicyAffectedConditionType kind)
         else addOrUpdateCondition (dv_Conditions de) conditions (affectedCondition de kind policies) generation)"

definition updateListenerStatus ::
  "'s discovery_env \<Rightarrow> 's discovery_state \<Rightarrow> 'r \<Rightarrow> Gateway \<Rightarrow> 'r gateway_status \<Rightarrow> TopoListener \<Rightarrow> 'r listener_status" where
  "updateListenerStatus de s noRest gw gwStatus listener =
     (let name = listener_Name (tl_Listener listener);
          status = (case findListenerStatus (gst_Listeners gwStatus) name of Some (status, _) \<Rightarrow> status
            | None \<Rightarrow> \<lparr>lst_Name = name, lst_Conditions = [], lst_Rest = noRest\<rparr>)
      in status\<lparr>lst_Conditions := foldl (conditionsForKind de s (dv_Generation de (TGateway (Some gw))) [TGateway (Some gw), TListener (Some listener)])
           (lst_Conditions status) policyGroupKinds\<rparr>)"

text \<open>A child of a gateway that is not a listener makes the reconciler panic.\<close>

fun updateListeners ::
  "'s discovery_env \<Rightarrow> 's discovery_state \<Rightarrow> 'r \<Rightarrow> Gateway \<Rightarrow> 'r gateway_status \<Rightarrow> 'r gateway_status \<Rightarrow> targetable list \<Rightarrow> 'r gateway_status go_result" where
  "updateListeners de s noRest gw old status [] = Return status"
| "updateListeners de s noRest gw old status (TListener (Some listener) # items) =
     updateListeners de s noRest gw old
       (status\<lparr>gst_Listeners := updateListenerList (gst_Listeners status) (updateListenerStatus de s noRest gw old listener)\<rparr>) items"
| "updateListeners de s noRest gw old status (item # items) = Panic ''nil pointer dereference''"

definition buildGatewayStatus ::
  "'s discovery_env \<Rightarrow> 's discovery_state \<Rightarrow> 'r \<Rightarrow> Gateway \<Rightarrow> 'r gateway_status \<Rightarrow> 'r gateway_status go_result" where
  "buildGatewayStatus de s noRest gw old =
     gbind (updateListeners de s noRest gw old old (dv_Children de (TGateway (Some gw)))) (\<lambda>status.
       Return (status\<lparr>gst_Conditions := foldl (conditionsForKind de s (dv_Generation de (TGateway (Some gw))) [TGateway (Some gw)])
         (gst_Conditions status) policyGroupKinds\<rparr>))"

text \<open>
  The comparison is between a pointer and a value, which are never equal: every gateway is
  written in every reconciliation.
\<close>

fun writeGateways ::
  "'s discovery_env \<Rightarrow> 's discovery_state \<Rightarrow> 'r \<Rightarrow> (Gateway \<Rightarrow> 'r gateway_status) \<Rightarrow> Gateway list \<Rightarrow> (Gateway \<times> 'r gateway_status) list go_result" where
  "writeGateways de s noRest statuses [] = Return []"
| "writeGateways de s noRest statuses (gw # gws) =
     gbind (buildGatewayStatus de s noRest gw (statuses gw)) (\<lambda>status.
       gbind (writeGateways de s noRest statuses gws) (\<lambda>written. Return ((gw, status) # written)))"

definition GatewayPolicyDiscoverabilityReconciler_reconcile ::
  "'s discovery_env \<Rightarrow> 's discovery_state \<Rightarrow> 'r \<Rightarrow> (Gateway \<Rightarrow> 'r gateway_status) \<Rightarrow> (Gateway \<times> 'r gateway_status) list go_result" where
  "GatewayPolicyDiscoverabilityReconciler_reconcile de s noRest statuses =
     writeGateways de s noRest statuses (List.map_filter (\<lambda>item. case item of TGateway (Some gw) \<Rightarrow> Some gw | _ \<Rightarrow> None) (dv_Targetables de))"

section \<open>What the route reconciler writes\<close>

text \<open>The documented behaviour of the helpers for conditions; the time of a transition is left open.\<close>

definition condition_laws :: "condition_api \<Rightarrow> bool" where
  "condition_laws ca \<longleftrightarrow>
     (\<forall>ty. ca_Find ca [] ty = None) \<and>
     (\<forall>cs c ty. ty \<noteq> cond_Type c \<longrightarrow> ca_Find ca (ca_Set ca cs c) ty = ca_Find ca cs ty) \<and>
     (\<forall>cs c. \<exists>d. ca_Find ca (ca_Set ca cs c) (cond_Type c) = Some d \<and> d\<lparr>oc_LastTransitionTime := 0\<rparr> = c\<lparr>oc_LastTransitionTime := 0\<rparr>) \<and>
     (\<forall>cs ty ty'. ca_Find ca (ca_Remove ca cs ty) ty' = (if ty' = ty then None else ca_Find ca cs ty'))"

text \<open>The operator's condition of a type in the entry of a gateway.\<close>

definition affected :: "condition_api \<Rightarrow> string \<Rightarrow> parent_status list \<Rightarrow> string \<times> string \<Rightarrow> string \<Rightarrow> ObservedCondition option" where
  "affected ca ns parents gw ty =
     (case List.find (FindRouteParentStatusFunc ns gw ControllerName) parents of None \<Rightarrow> None | Some p \<Rightarrow> ca_Find ca (pst_Conditions p) ty)"

definition own_unique :: "string \<Rightarrow> parent_status list \<Rightarrow> bool" where
  "own_unique ns parents \<longleftrightarrow> (\<forall>gw. length (filter (FindRouteParentStatusFunc ns gw ControllerName) parents) \<le> 1)"

definition foreign :: "parent_status list \<Rightarrow> parent_status list" where
  "foreign parents = filter (\<lambda>p. pst_ControllerName p \<noteq> ControllerName) parents"

lemma match_conditions [simp]: "FindRouteParentStatusFunc ns gw cn (p\<lparr>pst_Conditions := cs\<rparr>) = FindRouteParentStatusFunc ns gw cn p"
  by (simp add: FindRouteParentStatusFunc_def)

lemma match_key: "FindRouteParentStatusFunc ns gw cn p \<Longrightarrow> FindRouteParentStatusFunc ns gw' cn p \<Longrightarrow> gw = gw'"
  by (auto simp: FindRouteParentStatusFunc_def prod_eq_iff)

lemma match_own: "FindRouteParentStatusFunc ns gw cn p \<Longrightarrow> pst_ControllerName p = cn"
  by (simp add: FindRouteParentStatusFunc_def)

lemma find_append_case: "List.find P (xs @ ys) = (case List.find P xs of None \<Rightarrow> List.find P ys | Some x \<Rightarrow> Some x)"
  by (induction xs) auto

lemma Index_from_split:
  "(utils_Index_from n xs P = -1 \<and> (\<forall>x\<in>set xs. \<not> P x)) \<or>
   (\<exists>pre x post. xs = pre @ x # post \<and> (\<forall>y\<in>set pre. \<not> P y) \<and> P x \<and> utils_Index_from n xs P = int (n + length pre))"
proof (induction xs arbitrary: n)
  case (Cons a xs)
  show ?case
  proof (cases "P a")
    case True
    then show ?thesis by (intro disjI2 exI [of _ "[]"] exI [of _ a] exI [of _ xs]) simp
  next
    case False
    from Cons.IH [of "Suc n"] show ?thesis
    proof (elim disjE exE conjE)
      fix pre x post
      assume "xs = pre @ x # post" "\<forall>y\<in>set pre. \<not> P y" "P x" "utils_Index_from (Suc n) xs P = int (Suc n + length pre)"
      with False show ?thesis by (intro disjI2 exI [of _ "a # pre"] exI [of _ x] exI [of _ post]) simp
    qed (use False in simp)
  qed
qed simp

lemma Index_split:
  obtains (absent) "utils_Index xs P = -1" "\<forall>x\<in>set xs. \<not> P x"
  | (found) pre x post where "xs = pre @ x # post" "\<forall>y\<in>set pre. \<not> P y" "P x" "utils_Index xs P = int (length pre)"
  using Index_from_split [of 0 xs P] by (auto simp: utils_Index_def)

lemma find_None_set: "\<forall>x\<in>set xs. \<not> P x \<Longrightarrow> List.find P xs = None"
  by (simp add: find_None_iff)

lemma affected_found:
  assumes "\<forall>y\<in>set pre. \<not> FindRouteParentStatusFunc ns gw ControllerName y" "FindRouteParentStatusFunc ns gw ControllerName p"
  shows "affected ca ns (pre @ p # post) gw ty = ca_Find ca (pst_Conditions p) ty"
  using assms by (simp add: affected_def find_append_case find_None_set)

lemma affected_absent: "\<forall>y\<in>set xs. \<not> FindRouteParentStatusFunc ns gw ControllerName y \<Longrightarrow> affected ca ns xs gw ty = None"
  by (simp add: affected_def find_None_set)

lemma affected_replaced:
  assumes "\<forall>y\<in>set pre. \<not> FindRouteParentStatusFunc ns gw ControllerName y" "FindRouteParentStatusFunc ns gw ControllerName p"
  shows "affected ca ns (pre @ p\<lparr>pst_Conditions := cs\<rparr> # post) key ty = (if key = gw then ca_Find ca cs ty else affected ca ns (pre @ p # post) key ty)"
proof (cases "key = gw")
  case True
  then show ?thesis using assms affected_found [of pre ns gw "p\<lparr>pst_Conditions := cs\<rparr>" ca post ty] by simp
next
  case False
  then have "\<not> FindRouteParentStatusFunc ns key ControllerName p" using match_key [OF assms(2)] by blast
  with False show ?thesis by (simp add: affected_def find_append_case split: option.split)
qed

lemma affected_deleted:
  assumes "\<forall>y\<in>set (pre @ post). \<not> FindRouteParentStatusFunc ns gw ControllerName y" "FindRouteParentStatusFunc ns gw ControllerName p"
  shows "affected ca ns (pre @ post) key ty = (if key = gw then None else affected ca ns (pre @ p # post) key ty)"
proof (cases "key = gw")
  case True
  then show ?thesis using affected_absent [OF assms(1)] by simp
next
  case False
  then have "\<not> FindRouteParentStatusFunc ns key ControllerName p" using match_key [OF assms(2)] by blast
  with False show ?thesis by (simp add: affected_def find_append_case split: option.split)
qed

lemma own_unique_rest:
  assumes "own_unique ns (pre @ p # post)" "FindRouteParentStatusFunc ns gw ControllerName p"
  shows "\<forall>y\<in>set (pre @ post). \<not> FindRouteParentStatusFunc ns gw ControllerName y"
proof -
  have "length (filter (FindRouteParentStatusFunc ns gw ControllerName) (pre @ p # post)) \<le> 1" using assms(1) unfolding own_unique_def by blast
  with assms(2) have "filter (FindRouteParentStatusFunc ns gw ControllerName) (pre @ post) = []" by simp
  then show ?thesis by (auto simp: filter_empty_conv)
qed

lemma own_unique_changes:
  "own_unique ns (pre @ p\<lparr>pst_Conditions := cs\<rparr> # post) = own_unique ns (pre @ p # post)"
  "own_unique ns (pre @ p # post) \<Longrightarrow> own_unique ns (pre @ post)"
proof -
  show "own_unique ns (pre @ p\<lparr>pst_Conditions := cs\<rparr> # post) = own_unique ns (pre @ p # post)" by (simp add: own_unique_def)
  assume u: "own_unique ns (pre @ p # post)"
  have "length (filter P (pre @ post)) \<le> length (filter P (pre @ p # post))" for P :: "parent_status \<Rightarrow> bool" by simp
  with u show "own_unique ns (pre @ post)" unfolding own_unique_def by (meson le_trans)
qed

lemma own_unique_append:
  assumes "own_unique ns xs" "\<forall>y\<in>set xs. \<not> FindRouteParentStatusFunc ns gw ControllerName y" "FindRouteParentStatusFunc ns gw ControllerName p"
  shows "own_unique ns (xs @ [p])"
  unfolding own_unique_def
proof
  fix gw'
  show "length (filter (FindRouteParentStatusFunc ns gw' ControllerName) (xs @ [p])) \<le> 1"
  proof (cases "gw' = gw")
    case True
    then have "filter (FindRouteParentStatusFunc ns gw' ControllerName) xs = []" using assms(2) by (simp add: filter_empty_conv)
    then show ?thesis by simp
  next
    case False
    then have "\<not> FindRouteParentStatusFunc ns gw' ControllerName p" using match_key [OF assms(3)] by blast
    with assms(1) [unfolded own_unique_def, rule_format, of gw'] show ?thesis by simp
  qed
qed

lemma foreign_changes:
  "pst_ControllerName p = ControllerName \<Longrightarrow> foreign (pre @ p\<lparr>pst_Conditions := cs\<rparr> # post) = foreign (pre @ p # post)"
  "pst_ControllerName p = ControllerName \<Longrightarrow> foreign (pre @ post) = foreign (pre @ p # post)"
  by (simp_all add: foreign_def)

text \<open>One step of the loops: what it changes, and when it changes nothing.\<close>

lemma remove_step:
  assumes laws: "condition_laws ca" and unique: "own_unique ns xs" and ys: "ys = removePolicyCondition ca ty ns xs gw"
  shows "own_unique ns ys" "foreign ys = foreign xs"
    "affected ca ns ys key ty' = (if key = gw \<and> ty' = ty then None else affected ca ns xs key ty')"
proof -
  have "own_unique ns ys \<and> foreign ys = foreign xs \<and> affected ca ns ys key ty' = (if key = gw \<and> ty' = ty then None else affected ca ns xs key ty')"
  proof (cases rule: Index_split [of xs "FindRouteParentStatusFunc ns gw ControllerName"])
    case absent
    then have "ys = xs" by (simp add: ys removePolicyCondition_def)
    with unique affected_absent [OF absent(2)] show ?thesis by simp
  next
    case (found pre p post)
    note rest = own_unique_rest [OF unique [unfolded found(1)] found(3)]
    have nth: "xs ! length pre = p" "take (length pre) xs @ drop (Suc (length pre)) xs = pre @ post" "xs[length pre := q] = pre @ q # post" for q
      by (simp_all add: found(1) list_update_append)
    have now: "affected ca ns xs gw t = ca_Find ca (pst_Conditions p) t" for t using affected_found [OF found(2,3)] found(1) by simp
    have removed: "ca_Find ca (ca_Remove ca (pst_Conditions p) ty) t = (if t = ty then None else ca_Find ca (pst_Conditions p) t)"
      "ca_Find ca [] t = None" for t using laws by (simp_all add: condition_laws_def)
    note u = unique [unfolded found(1)]
    consider "ca_Find ca (pst_Conditions p) ty = None" "ys = xs"
      | "ca_Remove ca (pst_Conditions p) ty = []" "ys = pre @ post"
      | "ys = pre @ p\<lparr>pst_Conditions := ca_Remove ca (pst_Conditions p) ty\<rparr> # post"
      by (cases "ca_Find ca (pst_Conditions p) ty"; cases "ca_Remove ca (pst_Conditions p) ty = []")
        (simp_all add: ys removePolicyCondition_def found(4) nth Let_def)
    then show ?thesis
    proof cases
      case 1
      with now unique show ?thesis by simp
    next
      case 2
      from 2(1) removed have "t \<noteq> ty \<Longrightarrow> ca_Find ca (pst_Conditions p) t = None" for t by metis
      with 2(2) own_unique_changes(2) [OF u] foreign_changes(2) [OF match_own [OF found(3)]] affected_deleted [OF rest found(3)] now
      show ?thesis by (simp add: found(1))
    next
      case 3
      from u foreign_changes(1) [OF match_own [OF found(3)]] affected_replaced [OF found(2,3)] now removed(1)
      show ?thesis unfolding 3 own_unique_changes(1) by (simp add: found(1))
    qed
  qed
  then show "own_unique ns ys" "foreign ys = foreign xs"
    "affected ca ns ys key ty' = (if key = gw \<and> ty' = ty then None else affected ca ns xs key ty')" by blast+
qed

lemma remove_step_quiet: "affected ca ns xs gw ty = None \<Longrightarrow> removePolicyCondition ca ty ns xs gw = xs"
proof (cases rule: Index_split [of xs "FindRouteParentStatusFunc ns gw ControllerName"])
  case (found pre p post)
  assume "affected ca ns xs gw ty = None"
  then have "ca_Find ca (pst_Conditions p) ty = None" using affected_found [OF found(2,3)] by (simp add: found(1))
  moreover have "xs ! length pre = p" by (simp add: found(1))
  ultimately show ?thesis by (simp add: removePolicyCondition_def found(4))
qed (simp add: removePolicyCondition_def)

lemma ensure_cases:
  assumes "own_unique ns xs"
  obtains pre p post where "ensureRouteParentStatus xs ns gw = (pre @ p # post, length pre)" "own_unique ns (pre @ p # post)"
    "\<forall>y\<in>set pre. \<not> FindRouteParentStatusFunc ns gw ControllerName y" "FindRouteParentStatusFunc ns gw ControllerName p"
    "foreign (pre @ p # post) = foreign xs" "\<And>key ty. condition_laws ca \<Longrightarrow> affected ca ns (pre @ p # post) key ty = affected ca ns xs key ty"
    "affected ca ns xs gw ty = Some c \<Longrightarrow> pre @ p # post = xs"
proof (cases rule: Index_split [of xs "FindRouteParentStatusFunc ns gw ControllerName"])
  case absent
  let ?p = "\<lparr>pst_ParentRef = \<lparr>parent_Group = None, parent_Kind = Some ''Gateway'', parent_Namespace = Some (fst gw),
              parent_Name = snd gw, parent_SectionName = None, parent_Port = None\<rparr>, pst_ControllerName = ControllerName, pst_Conditions = []\<rparr>"
  have m: "FindRouteParentStatusFunc ns gw ControllerName ?p" by (simp add: FindRouteParentStatusFunc_def)
  have "affected ca ns (xs @ [?p]) key ty = affected ca ns xs key ty" if "condition_laws ca" for key ty
  proof (cases "key = gw")
    case True
    then show ?thesis using affected_found [OF absent(2) m, of ca "[]"] affected_absent [OF absent(2)] that by (simp add: condition_laws_def)
  next
    case False
    then have "\<not> FindRouteParentStatusFunc ns key ControllerName ?p" using match_key [OF m] by blast
    then show ?thesis by (simp add: affected_def find_append_case split: option.split)
  qed
  then show ?thesis
    using absent m own_unique_append [OF assms absent(2) m] affected_absent [OF absent(2)]
    by (intro that [of xs ?p "[]"]) (simp_all add: ensureRouteParentStatus_def foreign_def)
next
  case (found pre p post)
  then show ?thesis using assms by (intro that [of pre p post]) (simp_all add: ensureRouteParentStatus_def)
qed

lemma add_step:
  assumes laws: "condition_laws ca" and unique: "own_unique ns xs" and ys: "ys = addPolicyCondition ca condition generation ns xs gw"
  shows "own_unique ns ys" "foreign ys = foreign xs"
    "key \<noteq> gw \<or> ty' \<noteq> cond_Type condition \<Longrightarrow> affected ca ns ys key ty' = affected ca ns xs key ty'"
    "\<exists>c. affected ca ns ys gw (cond_Type condition) = Some c \<and> conditionUpToDate c condition generation"
proof -
  obtain pre p post where e: "ensureRouteParentStatus xs ns gw = (pre @ p # post, length pre)" and u: "own_unique ns (pre @ p # post)"
    and pre: "\<forall>y\<in>set pre. \<not> FindRouteParentStatusFunc ns gw ControllerName y" and p: "FindRouteParentStatusFunc ns gw ControllerName p"
    and f: "foreign (pre @ p # post) = foreign xs" and a: "\<And>key ty. affected ca ns (pre @ p # post) key ty = affected ca ns xs key ty"
    using ensure_cases [OF unique, of gw ca] laws by metis
  let ?c = "condition\<lparr>oc_ObservedGeneration := generation\<rparr>"
  let ?zs = "pre @ p\<lparr>pst_Conditions := ca_Set ca (pst_Conditions p) ?c\<rparr> # post"
  have here: "affected ca ns (pre @ p # post) gw t = ca_Find ca (pst_Conditions p) t" for t by (rule affected_found [OF pre p])
  have set_other: "t \<noteq> cond_Type condition \<Longrightarrow> ca_Find ca (ca_Set ca cs ?c) t = ca_Find ca cs t" for t cs
    using laws by (simp add: condition_laws_def)
  have "\<exists>d. ca_Find ca (ca_Set ca (pst_Conditions p) ?c) (cond_Type ?c) = Some d \<and> d\<lparr>oc_LastTransitionTime := 0\<rparr> = ?c\<lparr>oc_LastTransitionTime := 0\<rparr>"
    using laws unfolding condition_laws_def by blast
  then obtain d where d: "ca_Find ca (ca_Set ca (pst_Conditions p) ?c) (cond_Type condition) = Some d" "d\<lparr>oc_LastTransitionTime := 0\<rparr> = ?c\<lparr>oc_LastTransitionTime := 0\<rparr>"
    by auto
  consider c where "ca_Find ca (pst_Conditions p) (cond_Type condition) = Some c" "conditionUpToDate c condition generation" "ys = pre @ p # post" | "ys = ?zs"
    by (cases "ca_Find ca (pst_Conditions p) (cond_Type condition)") (force simp: ys addPolicyCondition_def e list_update_append)+
  then have "own_unique ns ys \<and> foreign ys = foreign xs \<and>
    (key \<noteq> gw \<or> ty' \<noteq> cond_Type condition \<longrightarrow> affected ca ns ys key ty' = affected ca ns xs key ty') \<and>
    (\<exists>c. affected ca ns ys gw (cond_Type condition) = Some c \<and> conditionUpToDate c condition generation)"
  proof cases
    case 1
    with u f a here show ?thesis by auto
  next
    case 2
    have "conditionUpToDate d condition generation"
      using d(2) unfolding conditionUpToDate_def by (cases d; cases condition) simp
    with d(1) u f a here set_other affected_replaced [OF pre p] foreign_changes(1) [OF match_own [OF p]]
    show ?thesis unfolding 2 own_unique_changes(1) by auto
  qed
  then show "own_unique ns ys" "foreign ys = foreign xs"
    "key \<noteq> gw \<or> ty' \<noteq> cond_Type condition \<Longrightarrow> affected ca ns ys key ty' = affected ca ns xs key ty'"
    "\<exists>c. affected ca ns ys gw (cond_Type condition) = Some c \<and> conditionUpToDate c condition generation" by blast+
qed

lemma add_step_quiet:
  assumes "own_unique ns xs" "affected ca ns xs gw (cond_Type condition) = Some c" "conditionUpToDate c condition generation"
  shows "addPolicyCondition ca condition generation ns xs gw = xs"
proof -
  obtain pre p post where e: "ensureRouteParentStatus xs ns gw = (pre @ p # post, length pre)"
    and pre: "\<forall>y\<in>set pre. \<not> FindRouteParentStatusFunc ns gw ControllerName y" and p: "FindRouteParentStatusFunc ns gw ControllerName p"
    and xs: "pre @ p # post = xs"
    using ensure_cases [OF assms(1), of gw ca] assms(2) by metis
  have "ca_Find ca (pst_Conditions p) (cond_Type condition) = Some c"
    using assms(2) affected_found [OF pre p, of ca post] by (simp add: xs)
  moreover have "xs ! length pre = p" by (simp flip: xs)
  ultimately show ?thesis using assms(3) by (simp add: addPolicyCondition_def e xs)
qed

text \<open>The loops over the gateways and over the kinds.\<close>

lemma remove_loop:
  assumes "condition_laws ca" "own_unique ns xs"
  shows "own_unique ns (foldl (removePolicyCondition ca ty ns) xs gws) \<and> foreign (foldl (removePolicyCondition ca ty ns) xs gws) = foreign xs \<and>
    (\<forall>key ty'. affected ca ns (foldl (removePolicyCondition ca ty ns) xs gws) key ty' =
      (if key \<in> set gws \<and> ty' = ty then None else affected ca ns xs key ty'))"
  using assms(2)
proof (induction gws arbitrary: xs)
  case (Cons gw gws)
  note step = remove_step [OF assms(1) Cons.prems refl, where ty = ty and gw = gw]
  from Cons.IH [OF step(1)] step(2,3) show ?case by auto
qed simp

lemma add_loop:
  assumes "condition_laws ca" "own_unique ns xs" "ty = cond_Type condition"
  shows "own_unique ns (foldl (addPolicyCondition ca condition generation ns) xs gws) \<and>
    foreign (foldl (addPolicyCondition ca condition generation ns) xs gws) = foreign xs \<and>
    (\<forall>key ty'. key \<notin> set gws \<or> ty' \<noteq> ty \<longrightarrow>
      affected ca ns (foldl (addPolicyCondition ca condition generation ns) xs gws) key ty' = affected ca ns xs key ty') \<and>
    (\<forall>key\<in>set gws. \<exists>c. affected ca ns (foldl (addPolicyCondition ca condition generation ns) xs gws) key ty = Some c \<and>
      conditionUpToDate c condition generation)"
  using assms(2)
proof (induction gws rule: rev_induct)
  case (snoc gw gws)
  let ?ys = "foldl (addPolicyCondition ca condition generation ns) xs gws"
  from snoc have ih: "own_unique ns ?ys" "foreign ?ys = foreign xs"
    "\<And>key ty'. key \<notin> set gws \<or> ty' \<noteq> ty \<Longrightarrow> affected ca ns ?ys key ty' = affected ca ns xs key ty'"
    "\<And>key. key \<in> set gws \<Longrightarrow> \<exists>c. affected ca ns ?ys key ty = Some c \<and> conditionUpToDate c condition generation" by auto
  note step = add_step [OF assms(1) ih(1) refl, where condition = condition and generation = generation and gw = gw]
  have "\<exists>c. affected ca ns (addPolicyCondition ca condition generation ns ?ys gw) key ty = Some c \<and> conditionUpToDate c condition generation"
    if "key \<in> set (gws @ [gw])" for key
    using that step(3,4) ih(4) assms(3) by (cases "key = gw") auto
  moreover have "affected ca ns (addPolicyCondition ca condition generation ns ?ys gw) key ty' = affected ca ns xs key ty'"
    if "key \<notin> set (gws @ [gw]) \<or> ty' \<noteq> ty" for key ty'
    using that step(3) [of key ty'] ih(3) [of key ty'] assms(3) by auto
  ultimately show ?case using step(1,2) ih(2) by simp
qed simp

text \<open>What the entries of the gateways on the path say about the policies of a kind.\<close>

definition reported ::
  "'s discovery_env \<Rightarrow> 's discovery_state \<Rightarrow> targetable list \<Rightarrow> int \<Rightarrow> string \<Rightarrow> parent_status list \<Rightarrow> string \<Rightarrow> bool" where
  "reported de s path generation ns parents kind =
     list_all (\<lambda>gw. let policies = extractAcceptedPolicies de s kind path
       in case affected (dv_Conditions de) ns parents gw (PolicyAffectedConditionType kind) of
            None \<Rightarrow> policies = []
          | Some c \<Rightarrow> policies \<noteq> [] \<and> conditionUpToDate c (affectedCondition de kind policies) generation) (pathGatewayKeys path)"

lemma affectedCondition_type [simp]: "cond_Type (affectedCondition de kind policies) = PolicyAffectedConditionType kind"
  by (simp add: affectedCondition_def PolicyAffectedCondition_def Condition.extend_def)

lemma PolicyAffectedConditionType_inj [simp]: "PolicyAffectedConditionType a = PolicyAffectedConditionType b \<longleftrightarrow> a = b"
  by (simp add: PolicyAffectedConditionType_def)

lemma kind_step:
  assumes laws: "condition_laws (dv_Conditions de)" and unique: "own_unique ns xs" and ys: "ys = reconcileRouteKind de s path generation ns xs kind"
  shows "own_unique ns ys" "foreign ys = foreign xs" "reported de s path generation ns ys kind"
    "ty \<noteq> PolicyAffectedConditionType kind \<Longrightarrow> affected (dv_Conditions de) ns ys gw ty = affected (dv_Conditions de) ns xs gw ty"
proof -
  let ?policies = "extractAcceptedPolicies de s kind path" and ?gws = "pathGatewayKeys path"
  have "own_unique ns ys \<and> foreign ys = foreign xs \<and> reported de s path generation ns ys kind \<and>
    (ty \<noteq> PolicyAffectedConditionType kind \<longrightarrow> affected (dv_Conditions de) ns ys gw ty = affected (dv_Conditions de) ns xs gw ty)"
  proof (cases "?policies = []")
    case True
    then have "ys = foldl (removePolicyCondition (dv_Conditions de) (PolicyAffectedConditionType kind) ns) xs ?gws"
      by (simp add: ys reconcileRouteKind_def removePolicyConditions_def)
    moreover note loop = remove_loop [OF laws unique, of "PolicyAffectedConditionType kind" ?gws]
    from loop have a: "affected (dv_Conditions de) ns (foldl (removePolicyCondition (dv_Conditions de) (PolicyAffectedConditionType kind) ns) xs ?gws) key t =
        (if key \<in> set ?gws \<and> t = PolicyAffectedConditionType kind then None else affected (dv_Conditions de) ns xs key t)" for key t by blast
    ultimately show ?thesis using True loop by (simp add: reported_def list_all_iff a)
  next
    case False
    then have ys_eq: "ys = foldl (addPolicyCondition (dv_Conditions de) (affectedCondition de kind ?policies) generation ns) xs ?gws"
      by (simp add: ys reconcileRouteKind_def addPolicyConditions_def)
    note loop = add_loop [OF laws unique refl, of "affectedCondition de kind ?policies" generation ?gws]
    let ?zs = "foldl (addPolicyCondition (dv_Conditions de) (affectedCondition de kind ?policies) generation ns) xs ?gws"
    from loop have "ty \<noteq> PolicyAffectedConditionType kind \<Longrightarrow> affected (dv_Conditions de) ns ?zs gw ty = affected (dv_Conditions de) ns xs gw ty"
      unfolding affectedCondition_type by blast
    moreover have "reported de s path generation ns ?zs kind"
      using loop False unfolding reported_def list_all_iff Let_def by fastforce
    ultimately show ?thesis unfolding ys_eq using loop by blast
  qed
  then show "own_unique ns ys" "foreign ys = foreign xs" "reported de s path generation ns ys kind"
    "ty \<noteq> PolicyAffectedConditionType kind \<Longrightarrow> affected (dv_Conditions de) ns ys gw ty = affected (dv_Conditions de) ns xs gw ty" by blast+
qed

lemma kind_step_quiet:
  assumes "own_unique ns xs" "reported de s path generation ns xs kind"
  shows "reconcileRouteKind de s path generation ns xs kind = xs"
proof -
  let ?policies = "extractAcceptedPolicies de s kind path"
  have quiet: "foldl f xs gws = xs" if "\<And>gw. gw \<in> set gws \<Longrightarrow> f xs gw = xs" for f :: "parent_status list \<Rightarrow> string \<times> string \<Rightarrow> parent_status list" and gws
    using that by (induction gws) auto
  show ?thesis
  proof (cases "?policies = []")
    case True
    then have "removePolicyCondition (dv_Conditions de) (PolicyAffectedConditionType kind) ns xs gw = xs" if "gw \<in> set (pathGatewayKeys path)" for gw
      using assms(2) that by (intro remove_step_quiet) (auto simp: reported_def list_all_iff split: option.splits)
    with True show ?thesis by (simp add: reconcileRouteKind_def removePolicyConditions_def quiet)
  next
    case False
    have "addPolicyCondition (dv_Conditions de) (affectedCondition de kind ?policies) generation ns xs gw = xs" if "gw \<in> set (pathGatewayKeys path)" for gw
    proof -
      from assms(2) that False obtain c where "affected (dv_Conditions de) ns xs gw (cond_Type (affectedCondition de kind ?policies)) = Some c"
        "conditionUpToDate c (affectedCondition de kind ?policies) generation"
        by (auto simp: reported_def list_all_iff Let_def split: option.splits)
      with add_step_quiet [OF assms(1)] show ?thesis by blast
    qed
    with False show ?thesis by (simp add: reconcileRouteKind_def addPolicyConditions_def quiet)
  qed
qed

lemma reported_cong:
  assumes "\<And>gw. affected (dv_Conditions de) ns xs gw (PolicyAffectedConditionType kind) = affected (dv_Conditions de) ns ys gw (PolicyAffectedConditionType kind)"
  shows "reported de s path generation ns xs kind = reported de s path generation ns ys kind"
  by (simp add: reported_def assms)

lemma kinds_loop:
  assumes laws: "condition_laws (dv_Conditions de)" and "own_unique ns xs" "distinct kinds"
  shows "own_unique ns (foldl (reconcileRouteKind de s path generation ns) xs kinds) \<and>
    foreign (foldl (reconcileRouteKind de s path generation ns) xs kinds) = foreign xs \<and>
    list_all (reported de s path generation ns (foldl (reconcileRouteKind de s path generation ns) xs kinds)) kinds \<and>
    (\<forall>gw ty. ty \<notin> set (map PolicyAffectedConditionType kinds) \<longrightarrow>
      affected (dv_Conditions de) ns (foldl (reconcileRouteKind de s path generation ns) xs kinds) gw ty = affected (dv_Conditions de) ns xs gw ty)"
  using assms(2,3)
proof (induction kinds rule: rev_induct)
  case (snoc kind kinds)
  let ?ys = "foldl (reconcileRouteKind de s path generation ns) xs kinds"
  from snoc have ih: "own_unique ns ?ys" "foreign ?ys = foreign xs" "list_all (reported de s path generation ns ?ys) kinds" "kind \<notin> set kinds"
    "\<And>gw ty. ty \<notin> set (map PolicyAffectedConditionType kinds) \<Longrightarrow> affected (dv_Conditions de) ns ?ys gw ty = affected (dv_Conditions de) ns xs gw ty"
    by auto
  let ?zs = "reconcileRouteKind de s path generation ns ?ys kind"
  note step = kind_step [OF laws ih(1) refl, where s = s and path = path and generation = generation and kind = kind]
  have "reported de s path generation ns ?zs k" if "k \<in> set kinds" for k
  proof -
    have "k \<noteq> kind" using that ih(4) by blast
    then have "reported de s path generation ns ?zs k = reported de s path generation ns ?ys k" by (intro reported_cong step(4)) simp
    with ih(3) that show ?thesis by (simp add: list_all_iff)
  qed
  then have "list_all (reported de s path generation ns ?zs) (kinds @ [kind])" using step(3) by (simp add: list_all_iff)
  with step(1,2,4) ih(2,5) show ?case by simp
qed simp

lemma policyGroupKinds_distinct: "distinct policyGroupKinds" by code_simp

text \<open>
  C12.  The statuses of routes report the policies that affect them.  When the operator has at most
  one entry per gateway in the status of a route, then after a reconciliation the entry of each
  gateway above the route has a condition for exactly the kinds of which some policy on the
  route, its listeners or gateways is accepted; it lists these policies and has the generation of
  the route.  Conditions of other types and the entries of other controllers are as before, there
  is still one entry per gateway, and the next reconciliation changes nothing.
\<close>

theorem route_discovery_exact:
  assumes "condition_laws (dv_Conditions de)" "own_unique ns parents" and new: "new = reconcileRoute de s route ns parents"
  shows "list_all (reported de s (getRoutePath de route) (dv_Generation de route) ns new) policyGroupKinds \<and>
    foreign new = foreign parents \<and> own_unique ns new \<and>
    (\<forall>gw ty. ty \<notin> set (map PolicyAffectedConditionType policyGroupKinds) \<longrightarrow>
      affected (dv_Conditions de) ns new gw ty = affected (dv_Conditions de) ns parents gw ty) \<and>
    reconcileRoute de s route ns new = new"
proof -
  note loop = kinds_loop [OF assms(1,2) policyGroupKinds_distinct, of s "getRoutePath de route" "dv_Generation de route", folded reconcileRoute_def, folded new]
  then have "own_unique ns new" "list_all (reported de s (getRoutePath de route) (dv_Generation de route) ns new) policyGroupKinds" by blast+
  then have "foldl (reconcileRouteKind de s (getRoutePath de route) (dv_Generation de route) ns) new kinds = new"
    if "set kinds \<subseteq> set policyGroupKinds" for kinds
    using that by (induction kinds) (auto simp: kind_step_quiet list_all_iff)
  then have "reconcileRoute de s route ns new = new" by (simp add: reconcileRoute_def)
  with loop show ?thesis by blast
qed

section \<open>What the gateway reconciler writes\<close>

text \<open>What conditions say about the policies of a kind on the targets.\<close>

definition shown :: "'s discovery_env \<Rightarrow> 's discovery_state \<Rightarrow> targetable list \<Rightarrow> ObservedCondition list \<Rightarrow> string \<Rightarrow> bool" where
  "shown de s targets conditions kind =
     (let policies = extractAcceptedPolicies de s kind targets
      in case ca_Find (dv_Conditions de) conditions (PolicyAffectedConditionType kind) of None \<Rightarrow> policies = []
         | Some c \<Rightarrow> policies \<noteq> [] \<and> cond_Status c = ''True'' \<and> cond_Message c = cond_Message (affectedCondition de kind policies))"

lemma conditionsForKind_find:
  assumes laws: "condition_laws (dv_Conditions de)" and ds: "ds = conditionsForKind de s generation targets cs kind"
  shows "shown de s targets ds kind"
    "ty \<noteq> PolicyAffectedConditionType kind \<Longrightarrow> ca_Find (dv_Conditions de) ds ty = ca_Find (dv_Conditions de) cs ty"
proof -
  let ?policies = "extractAcceptedPolicies de s kind targets"
  let ?c = "(affectedCondition de kind ?policies)\<lparr>oc_ObservedGeneration := generation\<rparr>"
  have status: "cond_Status (affectedCondition de kind ?policies) = ''True''"
    by (simp add: affectedCondition_def PolicyAffectedCondition_def Condition.extend_def)
  have "\<exists>d. ca_Find (dv_Conditions de) (ca_Set (dv_Conditions de) cs ?c) (cond_Type ?c) = Some d \<and> d\<lparr>oc_LastTransitionTime := 0\<rparr> = ?c\<lparr>oc_LastTransitionTime := 0\<rparr>"
    using laws unfolding condition_laws_def by blast
  then obtain d where d: "ca_Find (dv_Conditions de) (ca_Set (dv_Conditions de) cs ?c) (PolicyAffectedConditionType kind) = Some d"
    "d\<lparr>oc_LastTransitionTime := 0\<rparr> = ?c\<lparr>oc_LastTransitionTime := 0\<rparr>" by auto
  from d(2) have fields: "cond_Status d = ''True''" "cond_Message d = cond_Message (affectedCondition de kind ?policies)"
    using status by (cases d; cases "affectedCondition de kind ?policies"; simp)+
  consider "?policies = []" "ds = ca_Remove (dv_Conditions de) cs (PolicyAffectedConditionType kind)"
    | "?policies \<noteq> []" "ca_Find (dv_Conditions de) cs (PolicyAffectedConditionType kind) = Some (affectedCondition de kind ?policies)" "ds = cs"
    | "?policies \<noteq> []" "ds = ca_Set (dv_Conditions de) cs ?c"
    by (cases "?policies = []"; cases "ca_Find (dv_Conditions de) cs (PolicyAffectedConditionType kind) = Some (affectedCondition de kind ?policies)")
      (simp_all add: ds conditionsForKind_def removeConditionIfExists_def addOrUpdateCondition_def)
  then have "shown de s targets ds kind \<and>
    (ty \<noteq> PolicyAffectedConditionType kind \<longrightarrow> ca_Find (dv_Conditions de) ds ty = ca_Find (dv_Conditions de) cs ty)"
    using laws d(1) fields status by cases (auto simp: shown_def condition_laws_def Let_def)
  then show "shown de s targets ds kind"
    "ty \<noteq> PolicyAffectedConditionType kind \<Longrightarrow> ca_Find (dv_Conditions de) ds ty = ca_Find (dv_Conditions de) cs ty" by blast+
qed

lemma conditions_loop:
  assumes laws: "condition_laws (dv_Conditions de)" and "distinct kinds"
  shows "list_all (shown de s targets (foldl (conditionsForKind de s generation targets) cs kinds)) kinds \<and>
    (\<forall>ty. ty \<notin> set (map PolicyAffectedConditionType kinds) \<longrightarrow>
      ca_Find (dv_Conditions de) (foldl (conditionsForKind de s generation targets) cs kinds) ty = ca_Find (dv_Conditions de) cs ty)"
  using assms(2)
proof (induction kinds rule: rev_induct)
  case (snoc kind kinds)
  let ?ds = "foldl (conditionsForKind de s generation targets) cs kinds"
  note step = conditionsForKind_find [OF laws refl, where s = s and generation = generation and targets = targets and cs = ?ds and kind = kind]
  from snoc have ih: "list_all (shown de s targets ?ds) kinds" "kind \<notin> set kinds" by auto
  have "shown de s targets (conditionsForKind de s generation targets ?ds kind) k" if "k \<in> set kinds" for k
  proof -
    have "k \<noteq> kind" using that ih(2) by blast
    then have "shown de s targets (conditionsForKind de s generation targets ?ds kind) k = shown de s targets ?ds k"
      by (simp add: shown_def step(2))
    with ih(1) that show ?thesis by (simp add: list_all_iff)
  qed
  with step snoc show ?case by (simp add: list_all_iff)
qed simp

lemma findListenerStatus_find: "map_option fst (findListenerStatus listeners name) = List.find (\<lambda>status. lst_Name status = name) listeners"
  by (cases rule: Index_split [of listeners "\<lambda>status. lst_Name status = name"])
    (simp_all add: findListenerStatus_def find_append_case find_None_set)

lemma updateListenerList_find:
  "List.find (\<lambda>status. lst_Name status = name) (updateListenerList listeners u) =
     (if name = lst_Name u then Some u else List.find (\<lambda>status. lst_Name status = name) listeners)"
  by (cases rule: Index_split [of listeners "\<lambda>status. lst_Name status = lst_Name u"])
    (auto simp: updateListenerList_def findListenerStatus_def find_append_case find_None_set list_update_append split: option.split)

lemma updateListenerStatus_name [simp]: "lst_Name (updateListenerStatus de s noRest gw old l) = listener_Name (tl_Listener l)"
proof -
  have "lst_Name (fst r) = n" if "findListenerStatus xs n = Some r" for xs n and r :: "'r listener_status \<times> nat"
  proof -
    have "List.find (\<lambda>status. lst_Name status = n) xs = Some (fst r)" using findListenerStatus_find [of xs n] that by simp
    then show ?thesis by (auto simp: find_Some_iff)
  qed
  then show ?thesis by (fastforce simp: updateListenerStatus_def Let_def split: option.split)
qed

lemma listeners_loop:
  assumes "distinct (map (\<lambda>l. listener_Name (tl_Listener l)) ls)"
  shows "\<exists>status'. updateListeners de s noRest gw old status (map (\<lambda>l. TListener (Some l)) ls) = Return status' \<and>
    gst_Conditions status' = gst_Conditions status \<and> gst_Rest status' = gst_Rest status \<and>
    (\<forall>name. List.find (\<lambda>st. lst_Name st = name) (gst_Listeners status') =
      (case List.find (\<lambda>l. listener_Name (tl_Listener l) = name) ls of Some l \<Rightarrow> Some (updateListenerStatus de s noRest gw old l)
       | None \<Rightarrow> List.find (\<lambda>st. lst_Name st = name) (gst_Listeners status)))"
  using assms
proof (induction ls arbitrary: status)
  case (Cons l ls)
  let ?st = "status\<lparr>gst_Listeners := updateListenerList (gst_Listeners status) (updateListenerStatus de s noRest gw old l)\<rparr>"
  have "List.find (\<lambda>l'. listener_Name (tl_Listener l') = listener_Name (tl_Listener l)) ls = None"
    using Cons.prems by (auto simp: find_None_iff image_iff)
  with Cons.IH [of ?st] Cons.prems show ?case by (auto simp: updateListenerList_find split: option.split)
qed simp

text \<open>
  The statuses of a gateway and of its listeners show the accepted policies in the same way: those of
  the gateway at the gateway, those of the gateway and of the listener at the listener.  Other
  conditions and the statuses of listeners that are no longer in the topology are as before.
\<close>

theorem gateway_discovery_exact:
  assumes laws: "condition_laws (dv_Conditions de)" and children: "dv_Children de (TGateway (Some gw)) = map (\<lambda>l. TListener (Some l)) ls"
    and names: "distinct (map (\<lambda>l. listener_Name (tl_Listener l)) ls)"
  shows "\<exists>status. buildGatewayStatus de s noRest gw old = Return status \<and> gst_Rest status = gst_Rest old \<and>
    list_all (shown de s [TGateway (Some gw)] (gst_Conditions status)) policyGroupKinds \<and>
    list_all (\<lambda>l. case List.find (\<lambda>st. lst_Name st = listener_Name (tl_Listener l)) (gst_Listeners status) of None \<Rightarrow> False
      | Some st \<Rightarrow> list_all (shown de s [TGateway (Some gw), TListener (Some l)] (lst_Conditions st)) policyGroupKinds) ls \<and>
    (\<forall>ty. ty \<notin> set (map PolicyAffectedConditionType policyGroupKinds) \<longrightarrow>
      ca_Find (dv_Conditions de) (gst_Conditions status) ty = ca_Find (dv_Conditions de) (gst_Conditions old) ty) \<and>
    (\<forall>name. name \<notin> set (map (\<lambda>l. listener_Name (tl_Listener l)) ls) \<longrightarrow>
      List.find (\<lambda>st. lst_Name st = name) (gst_Listeners status) = List.find (\<lambda>st. lst_Name st = name) (gst_Listeners old))"
proof -
  obtain status where loop: "updateListeners de s noRest gw old old (map (\<lambda>l. TListener (Some l)) ls) = Return status"
    and same: "gst_Conditions status = gst_Conditions old" "gst_Rest status = gst_Rest old"
    and found: "\<And>name. List.find (\<lambda>st. lst_Name st = name) (gst_Listeners status) =
      (case List.find (\<lambda>l. listener_Name (tl_Listener l) = name) ls of Some l \<Rightarrow> Some (updateListenerStatus de s noRest gw old l)
       | None \<Rightarrow> List.find (\<lambda>st. lst_Name st = name) (gst_Listeners old))"
    using listeners_loop [OF names, of de s noRest gw old old] by blast
  have first: "List.find (\<lambda>l'. listener_Name (tl_Listener l') = listener_Name (tl_Listener l)) ls = Some l" if "l \<in> set ls" for l
    using that names by (induction ls) auto
  have "list_all (shown de s [TGateway (Some gw), TListener (Some l)] (lst_Conditions (updateListenerStatus de s noRest gw old l))) policyGroupKinds" for l
    using conditions_loop [OF laws policyGroupKinds_distinct] by (simp add: updateListenerStatus_def Let_def)
  then have "list_all (\<lambda>l. case List.find (\<lambda>st. lst_Name st = listener_Name (tl_Listener l)) (gst_Listeners status) of None \<Rightarrow> False
      | Some st \<Rightarrow> list_all (shown de s [TGateway (Some gw), TListener (Some l)] (lst_Conditions st)) policyGroupKinds) ls"
    by (simp add: list_all_iff found first)
  moreover have "List.find (\<lambda>st. lst_Name st = name) (gst_Listeners status) = List.find (\<lambda>st. lst_Name st = name) (gst_Listeners old)"
    if "name \<notin> set (map (\<lambda>l. listener_Name (tl_Listener l)) ls)" for name
  proof -
    from that have "List.find (\<lambda>l. listener_Name (tl_Listener l) = name) ls = None" by (auto simp: find_None_iff)
    then show ?thesis by (simp add: found)
  qed
  ultimately show ?thesis
    using conditions_loop [OF laws policyGroupKinds_distinct, of s "[TGateway (Some gw)]" "dv_Generation de (TGateway (Some gw))" "gst_Conditions old"]
    by (simp add: buildGatewayStatus_def children loop same)
qed

section \<open>A route with two gateways\<close>

definition ex_condition_api :: condition_api where
  "ex_condition_api = \<lparr>ca_Find = (\<lambda>cs ty. List.find (\<lambda>c. cond_Type c = ty) cs),
     ca_Set = (\<lambda>cs c. if list_ex (\<lambda>d. cond_Type d = cond_Type c) cs then map (\<lambda>d. if cond_Type d = cond_Type c
       then c\<lparr>oc_LastTransitionTime := if cond_Status d = cond_Status c then oc_LastTransitionTime d else oc_LastTransitionTime c\<rparr> else d) cs else cs @ [c]),
     ca_Remove = (\<lambda>cs ty. filter (\<lambda>c. cond_Type c \<noteq> ty) cs)\<rparr>"

lemma ex_condition_laws: "condition_laws ex_condition_api"
proof -
  let ?set = "\<lambda>cs c. map (\<lambda>d. if cond_Type d = cond_Type c
       then c\<lparr>oc_LastTransitionTime := if cond_Status d = cond_Status c then oc_LastTransitionTime d else oc_LastTransitionTime c\<rparr> else d) cs"
  have "ca_Find ex_condition_api (ca_Set ex_condition_api cs c) ty = ca_Find ex_condition_api cs ty" if "ty \<noteq> cond_Type c" for cs c ty
  proof -
    have "List.find (\<lambda>d. cond_Type d = ty) (?set cs c) = List.find (\<lambda>d. cond_Type d = ty) cs" using that by (induction cs) auto
    then show ?thesis using that by (auto simp: ex_condition_api_def find_append_case split: option.split)
  qed
  moreover have "\<exists>d. ca_Find ex_condition_api (ca_Set ex_condition_api cs c) (cond_Type c) = Some d \<and> d\<lparr>oc_LastTransitionTime := 0\<rparr> = c\<lparr>oc_LastTransitionTime := 0\<rparr>" for cs c
  proof (cases "list_ex (\<lambda>d. cond_Type d = cond_Type c) cs")
    case True
    then have "\<exists>d. List.find (\<lambda>d. cond_Type d = cond_Type c) (?set cs c) = Some d \<and> d\<lparr>oc_LastTransitionTime := 0\<rparr> = c\<lparr>oc_LastTransitionTime := 0\<rparr>"
      by (induction cs) auto
    with True show ?thesis by (auto simp: ex_condition_api_def)
  next
    case False
    then have "List.find (\<lambda>d. cond_Type d = cond_Type c) cs = None" by (auto simp: find_None_iff list_ex_iff)
    with False show ?thesis by (simp add: ex_condition_api_def find_append_case)
  qed
  moreover have "ca_Find ex_condition_api (ca_Remove ex_condition_api cs ty) ty' = (if ty' = ty then None else ca_Find ex_condition_api cs ty')" for cs ty ty'
    by (induction cs) (auto simp: ex_condition_api_def)
  ultimately show ?thesis unfolding condition_laws_def by (simp add: ex_condition_api_def)
qed

definition ex_named_gateway :: "string \<Rightarrow> Gateway" where "ex_named_gateway name = ex_gateway\<lparr>gateway_Namespace := ''ns'', gateway_Name := name\<rparr>"

definition ex_named_listener :: "string \<Rightarrow> targetable" where
  "ex_named_listener name = TListener (Some \<lparr>tl_Listener = tl_Listener ex_listener, tl_Gateway = Some (ex_named_gateway name)\<rparr>)"

fun ex_above :: "targetable \<Rightarrow> targetable list" where
  "ex_above (TListener (Some l)) = [TGateway (tl_Gateway l)]"
| "ex_above (THTTPRoute _) = [ex_named_listener ''a'', ex_named_listener ''b'']"
| "ex_above _ = []"

fun ex_target_locator :: "targetable \<Rightarrow> string" where
  "ex_target_locator (TListener (Some l)) = ''listener of '' @ (case tl_Gateway l of None \<Rightarrow> [] | Some g \<Rightarrow> gateway_Name g)"
| "ex_target_locator (TGateway (Some g)) = ''gateway '' @ gateway_Name g"
| "ex_target_locator _ = ''route''"

fun ex_attached :: "targetable \<Rightarrow> string any_policy list" where
  "ex_attached (TGateway (Some g)) = (if gateway_Name g = ''a'' then [DataPlanePolicy (ex_obj (RateLimitPolicyObj ex_route_rlp))] else [])"
| "ex_attached _ = []"

text \<open>The policy is attached to the gateway \<open>a\<close>, the route to \<open>a\<close> and \<open>b\<close>.\<close>

definition ex_discovery_env :: "string discovery_env" where
  "ex_discovery_env = \<lparr>dv_Targetables = [THTTPRoute (Some ex_ready_route)], dv_Children = (\<lambda>_. []), dv_Parents = ex_above, dv_Locator = ex_target_locator,
     dv_Policies = ex_attached, dv_CreatedBefore = (\<lambda>_ _. False), dv_Generation = (\<lambda>_. 7), dv_FindCond = ex_find, dv_IsTrue = (\<lambda>_ _. False),
     dv_PolicyLocator = ex_locator, dv_NN = ex_nn, dv_Conditions = ex_condition_api\<rparr>"

definition ex_discovery_state :: "string discovery_state" where
  "ex_discovery_state = \<lparr>ds_Workflow = ex_state\<lparr>st_RateLimitPolicyValid := Some [(RateLimitPolicy_GetLocator ex_locator ex_route_rlp, None)]\<rparr>,
     ds_TLSPolicyValid = None, ds_DNSPolicyValid = None\<rparr>"

theorem route_discovery_exact_witness:
  "let new = reconcileRoute ex_discovery_env ex_discovery_state (THTTPRoute (Some ex_ready_route)) ''ns'' []
   in list_all (reported ex_discovery_env ex_discovery_state (getRoutePath ex_discovery_env (THTTPRoute (Some ex_ready_route))) 7 ''ns'' new) policyGroupKinds \<and>
      reconcileRoute ex_discovery_env ex_discovery_state (THTTPRoute (Some ex_ready_route)) ''ns'' new = new"
proof -
  have "condition_laws (dv_Conditions ex_discovery_env)" "dv_Generation ex_discovery_env = (\<lambda>_. 7)"
    by (simp_all add: ex_discovery_env_def ex_condition_laws)
  with route_discovery_exact [of ex_discovery_env "''ns''" "[]", OF _ _ refl, of ex_discovery_state "THTTPRoute (Some ex_ready_route)"]
  show ?thesis by (simp add: own_unique_def Let_def)
qed

text \<open>
  The policies of all gateways of a route are taken together, so the entry of a gateway reports
  policies that are attached to another one only.
\<close>

lemma foreign_gateway_reported:
  "affected ex_condition_api ''ns'' (reconcileRoute ex_discovery_env ex_discovery_state (THTTPRoute (Some ex_ready_route)) ''ns'' [])
     (''ns'', ''b'') (PolicyAffectedConditionType RateLimitPolicyKind) \<noteq> None \<and>
   extractAcceptedPolicies ex_discovery_env ex_discovery_state RateLimitPolicyKind
     [THTTPRoute (Some ex_ready_route), ex_named_listener ''b'', TGateway (Some (ex_named_gateway ''b''))] = []"
  by code_simp

text \<open>A status of a gateway is written even if it is as it should be.\<close>

lemma gateways_always_written:
  assumes "writeGateways de s noRest statuses gws = Return written"
  shows "map fst written = gws"
  using assms by (induction gws arbitrary: written) (auto simp: gbind_eq_Return)

end
