(* ===== verification/Managed_Objects.thy ===== *)
theory Managed_Objects
  imports Policy_Enforcement
begin

text \<open>
  Objects that the operator keeps in the cluster for the gateways: the part that the cluster and
  extension reconcilers of Istio and Envoy Gateway repeat
  (\<open>internal/controller/istio_auth_cluster_reconciler.go\<close> and its five siblings).

  For every gateway a desired object is built and looked up by name, namespace and labels among the
  children of the gateway; it is created, updated when it differs, or left alone.  Objects with the
  labels of the reconciler that nobody asked for are deleted.  The reconcilers differ in what they
  build and in how they compare and update; these are the fields of \<open>object_kind\<close> and the
  argument \<open>build\<close>.

  What a kind of object has to promise is the locale \<open>managed_kind\<close>.  Inside it a run is shown
  to converge: on the cluster that results from its calls (\<open>applyOps\<close>) another run does nothing,
  and the objects with the labels of the reconciler are the desired ones.
\<close>

section \<open>Objects and label selectors\<close>

record 's managed_object = ObjectMeta +
  mo_Labels :: "(string, string) gomap"
  mo_Spec :: 's

definition mo_GroupKind :: "('s, 'z) managed_object_scheme \<Rightarrow> string \<times> string" where
  "mo_GroupKind o' = (obj_Group o', obj_Kind o')"

definition mo_NamespacedName :: "('s, 'z) managed_object_scheme \<Rightarrow> string \<times> string" where
  "mo_NamespacedName o' = (obj_Namespace o', obj_Name o')"

definition mo_Key :: "('s, 'z) managed_object_scheme \<Rightarrow> (string \<times> string) \<times> string \<times> string" where
  "mo_Key o' = (mo_GroupKind o', mo_NamespacedName o')"

text \<open>\<open>labels.Set(ls).AsSelector().Matches(s)\<close>: every label of \<open>ls\<close> is in \<open>s\<close> with its value.\<close>

definition selectorMatches :: "(string, string) gomap \<Rightarrow> (string, string) gomap \<Rightarrow> bool" where
  "selectorMatches ls s = list_all (\<lambda>(k, v). map_of s k = Some v) ls"

definition KuadrantManagedObjectLabels :: "(string, string) gomap" where
  "KuadrantManagedObjectLabels = [(''kuadrant.io/managed'', ''true'')]"

definition AuthObjectLabels :: "(string, string) gomap" where
  "AuthObjectLabels = gm_set ''kuadrant.io/auth'' ''true'' KuadrantManagedObjectLabels"

definition RateLimitObjectLabels :: "(string, string) gomap" where
  "RateLimitObjectLabels = gm_set ''kuadrant.io/ratelimit'' ''true'' KuadrantManagedObjectLabels"

definition TokenRateLimitObjectLabels :: "(string, string) gomap" where
  "TokenRateLimitObjectLabels = gm_set ''kuadrant.io/tokenratelimit'' ''true'' KuadrantManagedObjectLabels"

definition TracingObjectLabels :: "(string, string) gomap" where
  "TracingObjectLabels = gm_set ''kuadrant.io/tracing'' ''true'' KuadrantManagedObjectLabels"

definition UpstreamObjectLabels :: "(string, string) gomap" where
  "UpstreamObjectLabels = gm_set ''kuadrant.io/upstream'' ''true'' KuadrantManagedObjectLabels"

section \<open>Calls of the API server\<close>

datatype 's object_op =
    CreateObject "'s managed_object" | UpdateObject "'s managed_object" | DeleteObject "'s managed_object"

text \<open>
  \<open>oe_Api\<close> is the answer of the API server, \<open>oe_Destruct\<close> whether \<open>controller.Destruct\<close> can
  convert an object, \<open>oe_Now\<close> the clock.
\<close>

record 's object_env =
  oe_Api :: "'s object_op \<Rightarrow> go_error option"
  oe_Destruct :: "'s managed_object \<Rightarrow> bool"
  oe_Now :: int

record 's object_state =
  os_Ops :: "'s object_op list"
  os_Errors :: error_map

fun op_object :: "'s object_op \<Rightarrow> string \<times> 's managed_object" where
  "op_object (CreateObject o') = (''create'', o')"
| "op_object (UpdateObject o') = (''update'', o')"
| "op_object (DeleteObject o') = (''delete'', o')"

definition groupKindString :: "string \<times> string \<Rightarrow> string" where
  "groupKindString gk = (if fst gk = [] then snd gk else snd gk @ ''.'' @ fst gk)"

text \<open>A call; its error is recorded for a retry, except that a missing object needs no deletion.\<close>

definition callObjectApi :: "'s object_env \<Rightarrow> string \<Rightarrow> 's object_op \<Rightarrow> 's object_state \<Rightarrow> 's object_state" where
  "callObjectApi env reconciler operation st =
     (let st = st\<lparr>os_Ops := os_Ops st @ [operation]\<rparr>;
          (name, object) = op_object operation
      in case oe_Api env operation of None \<Rightarrow> st
         | Some err \<Rightarrow>
           if name = ''delete'' \<and> IsNotFound err then st
           else st\<lparr>os_Errors := Registry_Record (oe_Now env) reconciler name (mo_NamespacedName object)
             (groupKindString (mo_GroupKind object)) (Error_text (\<lambda>_ _. []) err) (os_Errors st)\<rparr>)"

section \<open>The reconciliation\<close>

record 's object_kind =
  ok_Reconciler :: string
  ok_GroupKind :: "string \<times> string"
  ok_Equal :: "'s managed_object \<Rightarrow> 's managed_object \<Rightarrow> bool go_result"
  ok_Update :: "'s managed_object \<Rightarrow> 's managed_object \<Rightarrow> 's managed_object"

definition findObject :: "'s object_kind \<Rightarrow> 's managed_object \<Rightarrow> 's managed_object list \<Rightarrow> 's managed_object option" where
  "findObject k desired children =
     List.find (\<lambda>child. mo_GroupKind child = ok_GroupKind k \<and> obj_Name child = obj_Name desired \<and>
       obj_Namespace child = obj_Namespace desired \<and> selectorMatches (mo_Labels child) (mo_Labels desired)) children"

text \<open>Create or update; the second result tells whether the object had to be created.\<close>

definition reconcileObject ::
  "'s object_env \<Rightarrow> 's object_kind \<Rightarrow> 's managed_object list \<Rightarrow> 's managed_object \<Rightarrow> 's object_state \<Rightarrow>
   ('s object_state \<times> bool) go_result" where
  "reconcileObject env k children desired st =
     (case findObject k desired children of
        None \<Rightarrow> Return (if oe_Destruct env desired then callObjectApi env (ok_Reconciler k) (CreateObject desired) st else st, True)
      | Some existing \<Rightarrow>
        gbind (ok_Equal k existing desired) (\<lambda>equal.
          if equal then Return (st, False)
          else (let existing = ok_Update k existing desired
                in Return (if oe_Destruct env existing then callObjectApi env (ok_Reconciler k) (UpdateObject existing) st else st, False))))"

text \<open>The loop over the gateways: the state, the keys of the desired objects, the modified gateways.\<close>

fun reconcileGateways ::
  "'s object_env \<Rightarrow> 's object_kind \<Rightarrow> ('g \<Rightarrow> string + 's managed_object) \<Rightarrow> ('g \<Rightarrow> 's managed_object list) \<Rightarrow> ('g \<Rightarrow> string) \<Rightarrow> 'g list \<Rightarrow>
   's object_state \<times> (string \<times> string) list \<times> string list \<Rightarrow> ('s object_state \<times> (string \<times> string) list \<times> string list) go_result" where
  "reconcileGateways env k build children locator [] acc = Return acc"
| "reconcileGateways env k build children locator (gateway # gateways) (st, desiredKeys, modifiedGateways) =
     (case build gateway of Inl err \<Rightarrow> reconcileGateways env k build children locator gateways (st, desiredKeys, modifiedGateways)
      | Inr desired \<Rightarrow>
        gbind (reconcileObject env k (children gateway) desired st) (\<lambda>(st, created).
          reconcileGateways env k build children locator gateways
            (st, desiredKeys @ [mo_NamespacedName desired],
             if created then modifiedGateways @ [locator gateway] else modifiedGateways)))"

definition staleObjects ::
  "string \<times> string \<Rightarrow> (string, string) gomap \<Rightarrow> (string \<times> string) list \<Rightarrow> 's managed_object list \<Rightarrow> 's managed_object list" where
  "staleObjects gk ls desiredKeys items =
     filter (\<lambda>o'. mo_GroupKind o' = gk \<and> selectorMatches (mo_Labels o') ls \<and> mo_NamespacedName o' \<notin> set desiredKeys) items"

definition deleteStale :: "'s object_env \<Rightarrow> string \<Rightarrow> 's managed_object list \<Rightarrow> 's object_state \<Rightarrow> 's object_state" where
  "deleteStale env reconciler stale st = foldl (\<lambda>st o'. callObjectApi env reconciler (DeleteObject o') st) st stale"

definition reconcileManaged ::
  "'s object_env \<Rightarrow> 's object_kind \<Rightarrow> ('g \<Rightarrow> string + 's managed_object) \<Rightarrow> ('g \<Rightarrow> 's managed_object list) \<Rightarrow> ('g \<Rightarrow> string) \<Rightarrow>
   (string, string) gomap \<Rightarrow> 'g list \<Rightarrow> 's managed_object list \<Rightarrow> 's object_state \<Rightarrow> ('s object_state \<times> string list) go_result" where
  "reconcileManaged env k build children locator ls gateways items st =
     gbind (reconcileGateways env k build children locator gateways (st, [], [])) (\<lambda>(st, desiredKeys, modifiedGateways).
       Return (deleteStale env (ok_Reconciler k) (staleObjects (ok_GroupKind k) ls desiredKeys items) st, modifiedGateways))"

section \<open>The calls of a run\<close>

lemma os_Ops_callObjectApi [simp]: "os_Ops (callObjectApi env r operation st) = os_Ops st @ [operation]"
  by (auto simp: callObjectApi_def Let_def split: prod.splits option.splits)

lemma os_Ops_deleteStale [simp]: "os_Ops (deleteStale env r stale st) = os_Ops st @ map DeleteObject stale"
  unfolding deleteStale_def by (induction stale arbitrary: st) simp_all

text \<open>What a run calls for one desired object, and for one gateway.\<close>

definition objectOps :: "'s object_kind \<Rightarrow> 's managed_object list \<Rightarrow> 's managed_object \<Rightarrow> 's object_op list" where
  "objectOps k children desired =
     (case findObject k desired children of None \<Rightarrow> [CreateObject desired]
      | Some existing \<Rightarrow> if ok_Equal k existing desired = Return True then [] else [UpdateObject (ok_Update k existing desired)])"

definition gatewayOps ::
  "'s object_kind \<Rightarrow> ('g \<Rightarrow> string + 's managed_object) \<Rightarrow> ('g \<Rightarrow> 's managed_object list) \<Rightarrow> 'g \<Rightarrow> 's object_op list" where
  "gatewayOps k build children g = (case build g of Inl err \<Rightarrow> [] | Inr desired \<Rightarrow> objectOps k (children g) desired)"

definition builtKeys :: "('g \<Rightarrow> string + 's managed_object) \<Rightarrow> 'g list \<Rightarrow> (string \<times> string) list" where
  "builtKeys build gateways = concat (map (\<lambda>g. case build g of Inl err \<Rightarrow> [] | Inr desired \<Rightarrow> [mo_NamespacedName desired]) gateways)"

lemma builtKeys_iff: "kk \<in> set (builtKeys build gws) \<longleftrightarrow> (\<exists>g\<in>set gws. \<exists>d. build g = Inr d \<and> kk = mo_NamespacedName d)"
  by (auto simp: builtKeys_def split: sum.splits) (metis list.set_intros(1) sum.case(2))+

text \<open>A run does not panic when no comparison does.\<close>

definition comparable :: "'s object_kind \<Rightarrow> ('g \<Rightarrow> string + 's managed_object) \<Rightarrow> ('g \<Rightarrow> 's managed_object list) \<Rightarrow> 'g list \<Rightarrow> bool" where
  "comparable k build children gws \<longleftrightarrow>
     (\<forall>g\<in>set gws. \<forall>d. build g = Inr d \<longrightarrow> (\<forall>e. findObject k d (children g) = Some e \<longrightarrow> (\<exists>b. ok_Equal k e d = Return b)))"

lemma reconcileGateways_loop:
  assumes "\<forall>o'. oe_Destruct env o'" "comparable k build children gws"
  shows "\<exists>st' m'. reconcileGateways env k build children locator gws (st, ks, m) = Return (st', ks @ builtKeys build gws, m') \<and>
    os_Ops st' = os_Ops st @ concat (map (gatewayOps k build children) gws)"
  using assms(2)
proof (induction gws arbitrary: st ks m)
  case Nil
  then show ?case by (simp add: builtKeys_def)
next
  case (Cons g gws)
  from Cons.prems have rest: "comparable k build children gws" by (simp add: comparable_def)
  note IH = Cons.IH [OF rest]
  show ?case
  proof (cases "build g")
    case (Inl err)
    with IH [of st ks m] show ?thesis by (simp add: builtKeys_def gatewayOps_def)
  next
    case (Inr d)
    have "\<exists>st1 created. reconcileObject env k (children g) d st = Return (st1, created) \<and> os_Ops st1 = os_Ops st @ objectOps k (children g) d"
    proof (cases "findObject k d (children g)")
      case (Some e)
      with Cons.prems Inr obtain b where "ok_Equal k e d = Return b" by (auto simp: comparable_def)
      with Some assms(1) show ?thesis by (auto simp: reconcileObject_def objectOps_def Let_def)
    qed (use assms(1) in \<open>auto simp: reconcileObject_def objectOps_def\<close>)
    then obtain st1 created where "reconcileObject env k (children g) d st = Return (st1, created)"
      "os_Ops st1 = os_Ops st @ objectOps k (children g) d" by blast
    with Inr IH [of st1 "ks @ [mo_NamespacedName d]" "if created then m @ [locator g] else m"] show ?thesis
      by (auto simp: builtKeys_def gatewayOps_def)
  qed
qed

lemma reconcileManaged_ops:
  assumes "\<forall>o'. oe_Destruct env o'" "comparable k build children gws"
  obtains st' modified where "reconcileManaged env k build children locator ls gws items st = Return (st', modified)"
    "os_Ops st' = os_Ops st @ concat (map (gatewayOps k build children) gws) @
      map DeleteObject (staleObjects (ok_GroupKind k) ls (builtKeys build gws) items)"
  using reconcileGateways_loop [OF assms, of locator st "[]" "[]"]
  by (auto simp: reconcileManaged_def)

section \<open>The cluster after a run\<close>

text \<open>The API server as an abstract store: objects are identified by kind, namespace and name.\<close>

fun applyOp :: "'s object_op \<Rightarrow> 's managed_object list \<Rightarrow> 's managed_object list" where
  "applyOp (CreateObject o') items = items @ [o']"
| "applyOp (UpdateObject o') items = map (\<lambda>x. if mo_Key x = mo_Key o' then o' else x) items"
| "applyOp (DeleteObject o') items = filter (\<lambda>x. mo_Key x \<noteq> mo_Key o') items"

definition applyOps :: "'s object_op list \<Rightarrow> 's managed_object list \<Rightarrow> 's managed_object list" where
  "applyOps operations items = foldl (\<lambda>items operation. applyOp operation items) items operations"

definition opKey :: "'s object_op \<Rightarrow> (string \<times> string) \<times> string \<times> string" where
  "opKey operation = mo_Key (snd (op_object operation))"

lemma opKey_simps [simp]:
  "opKey (CreateObject o') = mo_Key o'" "opKey (UpdateObject o') = mo_Key o'" "opKey (DeleteObject o') = mo_Key o'"
  by (simp_all add: opKey_def)

text \<open>What a sequence of calls on different objects leaves of the store.\<close>

lemma applyOps_iff:
  assumes "distinct (map opKey operations)"
    and "\<forall>operation\<in>set operations. case operation of CreateObject d \<Rightarrow> mo_Key d \<notin> mo_Key ` set items
      | UpdateObject d \<Rightarrow> mo_Key d \<in> mo_Key ` set items | DeleteObject d \<Rightarrow> True"
  shows "x \<in> set (applyOps operations items) \<longleftrightarrow>
    x \<in> set items \<and> mo_Key x \<notin> opKey ` set operations \<or> CreateObject x \<in> set operations \<or> UpdateObject x \<in> set operations"
  using assms
proof (induction operations arbitrary: items)
  case Nil
  then show ?case by (simp add: applyOps_def)
next
  case (Cons operation operations)
  let ?items = "applyOp operation items"
  have keys: "kk \<in> mo_Key ` set ?items \<longleftrightarrow> kk \<in> mo_Key ` set items" if "kk \<noteq> opKey operation" for kk
    using that Cons.prems(2) by (cases operation) (auto simp: image_iff)
  have new: "opKey o' \<noteq> opKey operation" if "o' \<in> set operations" for o'
    using Cons.prems(1) that by (metis distinct.simps(2) image_eqI list.set_map list.simps(9))
  have "\<forall>o'\<in>set operations. case o' of CreateObject d \<Rightarrow> mo_Key d \<notin> mo_Key ` set ?items
      | UpdateObject d \<Rightarrow> mo_Key d \<in> mo_Key ` set ?items | DeleteObject d \<Rightarrow> True"
  proof
    fix o' assume o': "o' \<in> set operations"
    with Cons.prems(2) have "case o' of CreateObject d \<Rightarrow> mo_Key d \<notin> mo_Key ` set items
      | UpdateObject d \<Rightarrow> mo_Key d \<in> mo_Key ` set items | DeleteObject d \<Rightarrow> True" by simp
    then show "case o' of CreateObject d \<Rightarrow> mo_Key d \<notin> mo_Key ` set ?items
      | UpdateObject d \<Rightarrow> mo_Key d \<in> mo_Key ` set ?items | DeleteObject d \<Rightarrow> True"
      using keys new [OF o'] by (cases o') simp_all
  qed
  with Cons.IH [of ?items] Cons.prems(1) have IH: "x \<in> set (applyOps operations ?items) \<longleftrightarrow>
      x \<in> set ?items \<and> mo_Key x \<notin> opKey ` set operations \<or> CreateObject x \<in> set operations \<or> UpdateObject x \<in> set operations"
    by simp
  have step: "applyOps (operation # operations) items = applyOps operations ?items" by (simp add: applyOps_def)
  have notin: "opKey operation \<notin> opKey ` set operations" using Cons.prems(1) by simp
  show ?case unfolding step IH
    using notin Cons.prems(2) by (cases operation) (auto simp: image_iff)
qed

lemma applyOps_keys_unique:
  assumes "distinct (map opKey operations)" "inj_on mo_Key (set items)"
    and "\<forall>operation\<in>set operations. case operation of CreateObject d \<Rightarrow> mo_Key d \<notin> mo_Key ` set items
      | UpdateObject d \<Rightarrow> mo_Key d \<in> mo_Key ` set items | DeleteObject d \<Rightarrow> True"
  shows "inj_on mo_Key (set (applyOps operations items))"
proof (rule inj_onI)
  fix x y
  assume x: "x \<in> set (applyOps operations items)" and y: "y \<in> set (applyOps operations items)" and xy: "mo_Key x = mo_Key y"
  have inj: "a = b" if "a \<in> set operations" "b \<in> set operations" "opKey a = opKey b" for a b
    using assms(1) that by (simp add: distinct_map inj_on_def)
  have key: "mo_Key z \<in> opKey ` set operations" if "CreateObject z \<in> set operations \<or> UpdateObject z \<in> set operations" for z
    using that by (metis image_eqI opKey_simps(1,2))
  from x y xy show "x = y"
    unfolding applyOps_iff [OF assms(1,3)] using inj [of "CreateObject x" "CreateObject y"] inj [of "CreateObject x" "UpdateObject y"]
      inj [of "UpdateObject x" "CreateObject y"] inj [of "UpdateObject x" "UpdateObject y"] key [of x] key [of y] inj_onD [OF assms(2)]
    by auto
qed

section \<open>Kinds of managed objects\<close>

text \<open>The children of a gateway in the topology: the objects that are linked to it.\<close>

definition childrenOf :: "('g \<Rightarrow> 's managed_object \<Rightarrow> bool) \<Rightarrow> 's managed_object list \<Rightarrow> 'g \<Rightarrow> 's managed_object list" where
  "childrenOf link items g = filter (link g) items"

text \<open>
  The cluster before a run: gateways get objects of different names; objects are unique, and an
  object with the name of a desired one is in its place, linked and labelled.
\<close>

definition names_differ :: "('g \<Rightarrow> string + 's managed_object) \<Rightarrow> 'g list \<Rightarrow> bool" where
  "names_differ build gws \<longleftrightarrow> distinct gws \<and>
     (\<forall>g\<in>set gws. \<forall>g'\<in>set gws. \<forall>d d'. build g = Inr d \<longrightarrow> build g' = Inr d' \<longrightarrow> mo_NamespacedName d = mo_NamespacedName d' \<longrightarrow> g = g')"

definition objects_in_place ::
  "('g \<Rightarrow> string + 's managed_object) \<Rightarrow> ('g \<Rightarrow> 's managed_object \<Rightarrow> bool) \<Rightarrow> (string, string) gomap \<Rightarrow> 'g list \<Rightarrow> 's managed_object list \<Rightarrow> bool" where
  "objects_in_place build link ls gws items \<longleftrightarrow> distinct items \<and> inj_on mo_Key (set items) \<and>
     (\<forall>g\<in>set gws. \<forall>d. \<forall>o'\<in>set items. build g = Inr d \<longrightarrow> mo_Key o' = mo_Key d \<longrightarrow> link g o' \<and> selectorMatches (mo_Labels o') ls)"

text \<open>
  What a reconciler promises of the objects it builds: they carry its kind and labels, the topology
  links them to the gateway they are built for and they equal themselves (if the gateway is \<open>valid\<close>), and an update makes an object equal to the desired
  one without changing its name, and keeps its labels or takes the desired ones.  Comparing a well-formed object with a desired one does
  not panic.
\<close>

locale managed_kind =
  fixes k :: "'s object_kind"
    and build :: "'g \<Rightarrow> string + 's managed_object"
    and link :: "'g \<Rightarrow> 's managed_object \<Rightarrow> bool"
    and ls :: "(string, string) gomap"
    and valid :: "'g \<Rightarrow> bool"
    and wf :: "'s managed_object \<Rightarrow> bool"
  assumes build_meta: "build g = Inr d \<Longrightarrow> mo_GroupKind d = ok_GroupKind k \<and> mo_Labels d = ls"
    and ls_self: "selectorMatches ls ls"
    and build_link: "valid g \<Longrightarrow> build g = Inr d \<Longrightarrow> link g d"
    and equal_refl: "valid g \<Longrightarrow> build g = Inr d \<Longrightarrow> ok_Equal k d d = Return True"
    and update_equal: "valid g \<Longrightarrow> build g = Inr d \<Longrightarrow> ok_Equal k (ok_Update k e d) d = Return True"
    and update_link: "valid g \<Longrightarrow> build g = Inr d \<Longrightarrow> mo_Key e = mo_Key d \<Longrightarrow> link g (ok_Update k e d)"
    and update_meta: "mo_Key (ok_Update k e d) = mo_Key e \<and> mo_Labels (ok_Update k e d) \<in> {mo_Labels e, mo_Labels d}"
    and wf_comparable: "build g = Inr d \<Longrightarrow> wf e \<Longrightarrow> \<exists>b. ok_Equal k e d = Return b"
begin

abbreviation children :: "'s managed_object list \<Rightarrow> 'g \<Rightarrow> 's managed_object list" where
  "children \<equiv> childrenOf link"

abbreviation cluster_ok :: "'g list \<Rightarrow> 's managed_object list \<Rightarrow> bool" where
  "cluster_ok gws items \<equiv> (\<forall>g\<in>set gws. valid g) \<and> names_differ build gws \<and> objects_in_place build link ls gws items"

lemmas cluster_ok_def = names_differ_def objects_in_place_def

abbreviation run_ops :: "'g list \<Rightarrow> 's managed_object list \<Rightarrow> 's object_op list" where
  "run_ops gws items \<equiv> concat (map (gatewayOps k build (children items)) gws) @
     map DeleteObject (staleObjects (ok_GroupKind k) ls (builtKeys build gws) items)"

lemma key_built: "build g = Inr d \<Longrightarrow> mo_Key o' = mo_Key d \<longleftrightarrow> mo_GroupKind o' = ok_GroupKind k \<and> mo_NamespacedName o' = mo_NamespacedName d"
  using build_meta [of g d] by (simp add: mo_Key_def)

lemma findObject_Some:
  assumes "build g = Inr d" "findObject k d (children items g) = Some e"
  shows "e \<in> set items \<and> link g e \<and> mo_Key e = mo_Key d \<and> selectorMatches (mo_Labels e) ls"
proof -
  from assms(2) have "e \<in> set (filter (link g) items)"
    unfolding findObject_def childrenOf_def find_Some_iff by (metis nth_mem)
  moreover from assms(2) have "mo_Key e = mo_Key d \<and> selectorMatches (mo_Labels e) ls"
    using build_meta [OF assms(1)] by (auto simp: findObject_def find_Some_iff mo_Key_def mo_NamespacedName_def)
  ultimately show ?thesis by simp
qed

lemma findObject_None:
  assumes "build g = Inr d" "findObject k d (children items g) = None" "o' \<in> set items" "link g o'" "selectorMatches (mo_Labels o') ls"
  shows "mo_Key o' \<noteq> mo_Key d"
  using assms build_meta [OF assms(1)] by (auto simp: findObject_def childrenOf_def find_None_iff mo_Key_def mo_NamespacedName_def)

lemma gatewayOps_cases:
  assumes "operation \<in> set (gatewayOps k build (children items) g)"
  obtains d where "build g = Inr d" "gatewayOps k build (children items) g = [operation]" "opKey operation = mo_Key d"
    "operation = CreateObject d \<and> findObject k d (children items g) = None \<or>
     (\<exists>e. findObject k d (children items g) = Some e \<and> operation = UpdateObject (ok_Update k e d))"
proof -
  from assms obtain d where d: "build g = Inr d" and op: "operation \<in> set (objectOps k (children items g) d)"
    by (cases "build g") (auto simp: gatewayOps_def)
  from op have single: "objectOps k (children items g) d = [operation]"
    by (auto simp: objectOps_def split: option.splits if_splits)
  have "opKey operation = mo_Key d"
    using op findObject_Some [OF d] by (auto simp: objectOps_def update_meta split: option.splits if_splits)
  moreover have "operation = CreateObject d \<and> findObject k d (children items g) = None \<or>
     (\<exists>e. findObject k d (children items g) = Some e \<and> operation = UpdateObject (ok_Update k e d))"
    using op by (auto simp: objectOps_def split: option.splits if_splits)
  ultimately show ?thesis using that [OF d] single d by (simp add: gatewayOps_def)
qed

lemma gateway_keys_distinct:
  assumes "distinct gws"
    and "\<forall>g\<in>set gws. \<forall>g'\<in>set gws. \<forall>d d'. build g = Inr d \<longrightarrow> build g' = Inr d' \<longrightarrow> mo_NamespacedName d = mo_NamespacedName d' \<longrightarrow> g = g'"
  shows "distinct (map opKey (concat (map (gatewayOps k build (children items)) gws)))"
  using assms
proof (induction gws)
  case (Cons g gws)
  have one: "distinct (map opKey (gatewayOps k build (children items) g))"
  proof (cases "gatewayOps k build (children items) g")
    case (Cons a rest)
    then have "a \<in> set (gatewayOps k build (children items) g)" by simp
    then show ?thesis by (rule gatewayOps_cases) simp
  qed simp
  have "False" if "operation \<in> set (gatewayOps k build (children items) g)" "g' \<in> set gws"
      "operation' \<in> set (gatewayOps k build (children items) g')" "opKey operation = opKey operation'" for operation operation' g'
  proof -
    from that(1) obtain d where d: "build g = Inr d" "opKey operation = mo_Key d" by (rule gatewayOps_cases)
    from that(3) obtain d' where d': "build g' = Inr d'" "opKey operation' = mo_Key d'" by (rule gatewayOps_cases)
    have "mo_NamespacedName d = mo_NamespacedName d'" using that(4) d d' by (simp add: mo_Key_def)
    with Cons.prems d(1) d'(1) that(2) show False by auto
  qed
  with one Cons show ?case by fastforce
qed simp

end

context managed_kind begin

lemma run_ops_ok:
  assumes "cluster_ok gws items"
  shows "distinct (map opKey (run_ops gws items))"
    and "\<forall>operation\<in>set (run_ops gws items). case operation of CreateObject d \<Rightarrow> mo_Key d \<notin> mo_Key ` set items
      | UpdateObject d \<Rightarrow> mo_Key d \<in> mo_Key ` set items | DeleteObject d \<Rightarrow> True"
proof -
  let ?stale = "staleObjects (ok_GroupKind k) ls (builtKeys build gws) items"
  let ?gw = "concat (map (gatewayOps k build (children items)) gws)"
  have inj: "inj_on mo_Key (set items)" and d: "distinct items" using assms by (auto simp: cluster_ok_def)
  have "distinct (map opKey (map DeleteObject ?stale))"
    using d inj by (auto simp: distinct_map staleObjects_def inj_on_def)
  moreover have "distinct (map opKey ?gw)"
    using assms gateway_keys_distinct [of gws items] by (auto simp: cluster_ok_def)
  moreover have "opKey operation \<notin> mo_Key ` set ?stale" if "operation \<in> set ?gw" for operation
  proof -
    from that obtain g where g: "g \<in> set gws" "operation \<in> set (gatewayOps k build (children items) g)" by auto
    from g(2) obtain b where b: "build g = Inr b" "opKey operation = mo_Key b" by (rule gatewayOps_cases)
    have "mo_NamespacedName b \<in> set (builtKeys build gws)" using g(1) b(1) by (auto simp: builtKeys_iff)
    then show ?thesis using b(2) by (auto simp: staleObjects_def mo_Key_def)
  qed
  then have "set (map opKey ?gw) \<inter> mo_Key ` set ?stale = {}" unfolding set_map by blast
  then have "set (map opKey ?gw) \<inter> set (map opKey (map DeleteObject ?stale)) = {}" by (simp add: image_image)
  ultimately show "distinct (map opKey (run_ops gws items))" by (simp only: map_append distinct_append simp_thms)
  show "\<forall>operation\<in>set (run_ops gws items). case operation of CreateObject d \<Rightarrow> mo_Key d \<notin> mo_Key ` set items
      | UpdateObject d \<Rightarrow> mo_Key d \<in> mo_Key ` set items | DeleteObject d \<Rightarrow> True"
  proof
    fix operation assume "operation \<in> set (run_ops gws items)"
    then consider g where "g \<in> set gws" "operation \<in> set (gatewayOps k build (children items) g)" | o' where "operation = DeleteObject o'"
      by auto
    then show "case operation of CreateObject d \<Rightarrow> mo_Key d \<notin> mo_Key ` set items
      | UpdateObject d \<Rightarrow> mo_Key d \<in> mo_Key ` set items | DeleteObject d \<Rightarrow> True"
    proof cases
      case 1
      from 1(2) obtain b where b: "build g = Inr b" and c: "operation = CreateObject b \<and> findObject k b (children items g) = None \<or>
          (\<exists>e. findObject k b (children items g) = Some e \<and> operation = UpdateObject (ok_Update k e b))" by (rule gatewayOps_cases)
      have "mo_Key o' \<noteq> mo_Key b" if "findObject k b (children items g) = None" "o' \<in> set items" for o'
        using findObject_None [OF b that] assms 1(1) b that(2) by (auto simp: cluster_ok_def)
      then show ?thesis using c findObject_Some [OF b] by (fastforce simp: update_meta)
    qed simp
  qed
qed

text \<open>After a run, every desired object is in the cluster with the contents asked for, and nothing else has the labels.\<close>

lemma after_run:
  assumes ok: "cluster_ok gws items" and items2: "items2 = applyOps (run_ops gws items) items"
  shows "inj_on mo_Key (set items2)"
    and "g \<in> set gws \<Longrightarrow> build g = Inr d \<Longrightarrow> \<exists>o'\<in>set items2. mo_Key o' = mo_Key d \<and> link g o' \<and> selectorMatches (mo_Labels o') ls \<and> ok_Equal k o' d = Return True"
    and "o' \<in> set items2 \<Longrightarrow> mo_GroupKind o' = ok_GroupKind k \<Longrightarrow> selectorMatches (mo_Labels o') ls \<Longrightarrow>
      \<exists>g\<in>set gws. \<exists>d. build g = Inr d \<and> mo_Key o' = mo_Key d \<and> ok_Equal k o' d = Return True"
proof -
  note ops = run_ops_ok [OF ok]
  have inj: "inj_on mo_Key (set items)" using ok by (simp add: cluster_ok_def)
  show unique: "inj_on mo_Key (set items2)" unfolding items2 by (rule applyOps_keys_unique [OF ops(1) inj ops(2)])
  have mem: "x \<in> set items2 \<longleftrightarrow> x \<in> set items \<and> mo_Key x \<notin> opKey ` set (run_ops gws items) \<or>
      CreateObject x \<in> set (run_ops gws items) \<or> UpdateObject x \<in> set (run_ops gws items)" for x
    unfolding items2 by (rule applyOps_iff [OF ops])
  have present: "\<exists>o'\<in>set items2. mo_Key o' = mo_Key d \<and> link g o' \<and> selectorMatches (mo_Labels o') ls \<and> ok_Equal k o' d = Return True"
    if g: "g \<in> set gws" and d: "build g = Inr d" for g d
  proof (cases "findObject k d (children items g)")
    case None
    have valid: "valid g" using ok g by blast
    from None have "CreateObject d \<in> set (run_ops gws items)" using g d by (auto simp: gatewayOps_def objectOps_def intro!: bexI [of _ g])
    then have "d \<in> set items2" unfolding mem by blast
    moreover have "selectorMatches (mo_Labels d) ls" using build_meta [OF d] ls_self by simp
    ultimately show ?thesis using build_link [OF valid d] equal_refl [OF valid d] by blast
  next
    case (Some e)
    note e = findObject_Some [OF d Some]
    show ?thesis
    proof (cases "ok_Equal k e d = Return True")
      case True
      have "mo_Key e \<notin> opKey ` set (run_ops gws items)"
      proof
        assume "mo_Key e \<in> opKey ` set (run_ops gws items)"
        then consider g' operation where "g' \<in> set gws" "operation \<in> set (gatewayOps k build (children items) g')" "mo_Key e = opKey operation"
          | o' where "o' \<in> set (staleObjects (ok_GroupKind k) ls (builtKeys build gws) items)" "mo_Key e = mo_Key o'"
          by auto
        then show False
        proof cases
          case 1
          from 1(2) obtain d' where d': "build g' = Inr d'" "opKey operation = mo_Key d'" by (rule gatewayOps_cases)
          have "mo_NamespacedName d = mo_NamespacedName d'" using e 1(3) d'(2) by (simp add: mo_Key_def)
          with ok g d 1(1) d'(1) have "g' = g" unfolding cluster_ok_def by blast
          with 1(2) d Some True show False by (simp add: gatewayOps_def objectOps_def)
        next
          case 2
          have "mo_NamespacedName d \<in> set (builtKeys build gws)" using g d by (auto simp: builtKeys_iff)
          with 2 e show False by (auto simp: staleObjects_def mo_Key_def)
        qed
      qed
      with e have "e \<in> set items2" unfolding mem by blast
      with e True show ?thesis by blast
    next
      case False
      have valid: "valid g" using ok g by blast
      from False have "UpdateObject (ok_Update k e d) \<in> set (run_ops gws items)"
        using g d Some by (auto simp: gatewayOps_def objectOps_def intro!: bexI [of _ g])
      then have "ok_Update k e d \<in> set items2" unfolding mem by blast
      moreover have "mo_Key (ok_Update k e d) = mo_Key d \<and> link g (ok_Update k e d) \<and> selectorMatches (mo_Labels (ok_Update k e d)) ls"
        using update_meta [of e d] update_link [OF valid d, of e] build_meta [OF d] ls_self e by auto
      ultimately show ?thesis using update_equal [OF valid d, of e] by blast
    qed
  qed
  then show "g \<in> set gws \<Longrightarrow> build g = Inr d \<Longrightarrow> \<exists>o'\<in>set items2. mo_Key o' = mo_Key d \<and> link g o' \<and> selectorMatches (mo_Labels o') ls \<and> ok_Equal k o' d = Return True"
    by blast
  assume o': "o' \<in> set items2" and kind: "mo_GroupKind o' = ok_GroupKind k" and labels: "selectorMatches (mo_Labels o') ls"
  have "\<exists>g\<in>set gws. \<exists>d. build g = Inr d \<and> mo_Key o' = mo_Key d"
  proof -
    have change: "\<exists>g\<in>set gws. operation \<in> set (gatewayOps k build (children items) g)"
      if "operation \<in> set (run_ops gws items)" "\<forall>x. operation \<noteq> DeleteObject x" for operation
      using that by auto
    from o' consider "o' \<in> set items" "mo_Key o' \<notin> opKey ` set (run_ops gws items)"
      | "CreateObject o' \<in> set (run_ops gws items)" | "UpdateObject o' \<in> set (run_ops gws items)"
      by (simp only: mem) blast
    then consider "o' \<in> set items" "mo_Key o' \<notin> opKey ` set (run_ops gws items)"
      | operation g where "g \<in> set gws" "operation \<in> set (gatewayOps k build (children items) g)" "opKey operation = mo_Key o'"
      by cases (use change [of "CreateObject o'"] change [of "UpdateObject o'"] in \<open>auto simp del: set_append set_concat\<close>)
    then show ?thesis
    proof cases
      case 1
      have "DeleteObject o' \<notin> set (run_ops gws items)" using 1(2) by (metis image_eqI opKey_simps(3))
      then have "o' \<notin> set (staleObjects (ok_GroupKind k) ls (builtKeys build gws) items)" by auto
      with 1(1) kind labels have "mo_NamespacedName o' \<in> set (builtKeys build gws)" by (simp add: staleObjects_def)
      then show ?thesis using kind key_built unfolding builtKeys_iff by blast
    next
      case 2
      from 2(2) obtain d where "build g = Inr d" "opKey operation = mo_Key d" by (rule gatewayOps_cases)
      with 2 show ?thesis by metis
    qed
  qed
  then obtain g d where gd: "g \<in> set gws" "build g = Inr d" "mo_Key o' = mo_Key d" by blast
  obtain o'' where "o'' \<in> set items2" "mo_Key o'' = mo_Key d" "ok_Equal k o'' d = Return True" using present [OF gd(1,2)] by blast
  with unique o' gd show "\<exists>g\<in>set gws. \<exists>d. build g = Inr d \<and> mo_Key o' = mo_Key d \<and> ok_Equal k o' d = Return True"
    by (metis inj_onD)
qed

text \<open>Another run on the resulting cluster calls nothing.\<close>

lemma run_converges:
  assumes ok: "cluster_ok gws items" and items2: "items2 = applyOps (run_ops gws items) items"
  shows "run_ops gws items2 = []"
proof -
  note a = after_run [OF ok items2]
  have "gatewayOps k build (children items2) g = []" if g: "g \<in> set gws" for g
  proof (cases "build g")
    case (Inr d)
    obtain o' where o': "o' \<in> set items2" "mo_Key o' = mo_Key d" "link g o'" "selectorMatches (mo_Labels o') ls" "ok_Equal k o' d = Return True"
      using a(2) [OF g Inr] by blast
    obtain e where e: "findObject k d (children items2 g) = Some e"
      using findObject_None [OF Inr _ o'(1,3,4)] o'(2) by (cases "findObject k d (children items2 g)") auto
    from findObject_Some [OF Inr e] o' a(1) have "e = o'" by (metis inj_onD)
    with e o'(5) Inr show ?thesis by (simp add: gatewayOps_def objectOps_def)
  qed (simp add: gatewayOps_def)
  moreover have "staleObjects (ok_GroupKind k) ls (builtKeys build gws) items2 = []"
  proof -
    have "mo_NamespacedName o' \<in> set (builtKeys build gws)"
      if "o' \<in> set items2" "mo_GroupKind o' = ok_GroupKind k" "selectorMatches (mo_Labels o') ls" for o'
      using a(3) [OF that] by (auto simp: builtKeys_iff mo_Key_def)
    then show ?thesis by (auto simp: staleObjects_def filter_empty_conv)
  qed
  ultimately show ?thesis by (auto simp: concat_eq_Nil_conv)
qed

end

context managed_kind begin

lemma comparable_children:
  assumes "list_all (\<lambda>o'. mo_GroupKind o' = ok_GroupKind k \<longrightarrow> wf o') items"
  shows "comparable k build (children items) gws"
proof -
  have "\<exists>b. ok_Equal k e d = Return b" if d: "build g = Inr d" and e: "findObject k d (children items g) = Some e" for g d e
  proof -
    from findObject_Some [OF d e] key_built [OF d] have "e \<in> set items" "mo_GroupKind e = ok_GroupKind k" by auto
    with assms have "wf e" by (auto simp: list_all_iff)
    then show ?thesis by (rule wf_comparable [OF d])
  qed
  then show ?thesis by (auto simp: comparable_def)
qed

lemma comparable_after:
  assumes "cluster_ok gws items" "items2 = applyOps (run_ops gws items) items"
  shows "comparable k build (children items2) gws"
proof -
  have "ok_Equal k e d = Return True"
    if g: "g \<in> set gws" and d: "build g = Inr d" and e: "findObject k d (children items2 g) = Some e" for g d e
    using after_run(1) [OF assms] after_run(2) [OF assms g d] findObject_Some [OF d e] by (metis inj_onD)
  then show ?thesis by (auto simp: comparable_def)
qed

text \<open>The two results about runs: what is in the cluster after one, and that the next one does nothing.\<close>

lemma reconcile_converges:
  assumes destruct: "\<forall>o'. oe_Destruct env o'" and ok: "cluster_ok gws items"
    and wf: "list_all (\<lambda>o'. mo_GroupKind o' = ok_GroupKind k \<longrightarrow> wf o') items" and start: "os_Ops st = []"
  shows "\<exists>st' modified items2. reconcileManaged env k build (children items) locator ls gws items st = Return (st', modified) \<and>
    items2 = applyOps (os_Ops st') items \<and>
    (\<forall>g\<in>set gws. \<forall>d. build g = Inr d \<longrightarrow> (\<exists>o'\<in>set items2. mo_Key o' = mo_Key d \<and> ok_Equal k o' d = Return True)) \<and>
    (\<forall>o'\<in>set items2. mo_GroupKind o' = ok_GroupKind k \<longrightarrow> selectorMatches (mo_Labels o') ls \<longrightarrow>
      (\<exists>g\<in>set gws. \<exists>d. build g = Inr d \<and> mo_Key o' = mo_Key d \<and> ok_Equal k o' d = Return True)) \<and>
    (\<exists>st2 modified2. reconcileManaged env k build (children items2) locator ls gws items2 st = Return (st2, modified2) \<and> os_Ops st2 = [])"
proof -
  obtain st' modified where r: "reconcileManaged env k build (children items) locator ls gws items st = Return (st', modified)"
    and "os_Ops st' = os_Ops st @ run_ops gws items"
    by (rule reconcileManaged_ops [OF destruct comparable_children [OF wf]])
  with start have ops: "os_Ops st' = run_ops gws items" by simp
  let ?items2 = "applyOps (run_ops gws items) items"
  obtain st2 modified2 where r2: "reconcileManaged env k build (children ?items2) locator ls gws ?items2 st = Return (st2, modified2)"
    and "os_Ops st2 = os_Ops st @ run_ops gws ?items2"
    by (rule reconcileManaged_ops [OF destruct comparable_after [OF ok refl]])
  with start run_converges [OF ok refl] have ops2: "os_Ops st2 = []" by (simp only: append_Nil)
  have present: "\<exists>o'\<in>set ?items2. mo_Key o' = mo_Key d \<and> ok_Equal k o' d = Return True" if "g \<in> set gws" "build g = Inr d" for g d
    using after_run(2) [OF ok refl that] by blast
  have only: "\<exists>g\<in>set gws. \<exists>d. build g = Inr d \<and> mo_Key o' = mo_Key d \<and> ok_Equal k o' d = Return True"
    if "o' \<in> set ?items2" "mo_GroupKind o' = ok_GroupKind k" "selectorMatches (mo_Labels o') ls" for o'
    by (rule after_run(3) [OF ok refl that])
  show ?thesis
  proof (intro exI conjI)
    show "reconcileManaged env k build (children items) locator ls gws items st = Return (st', modified)" by (rule r)
    show "?items2 = applyOps (os_Ops st') items" by (simp only: ops)
    show "reconcileManaged env k build (children ?items2) locator ls gws ?items2 st = Return (st2, modified2)" by (rule r2)
  qed (use present only ops2 in blast)+
qed

end

end
