(* ===== verification/Extension_Protocol.thy ===== *)
theory Extension_Protocol
  imports Go_Prelude
begin

text \<open>
  The messages extensions exchange with the operator (\<open>pkg/extension/grpc/v1\<close>), the part of a
  protobuf descriptor set that the operator reads, and the checks it makes on them: response
  types and field paths (\<open>internal/extension/proto_utils.go\<close>) and the field accesses of a CEL
  expression (\<open>cel_utils.go\<close>).

  A message is a record of its fields, a pointer to a message an \<open>option\<close>, a oneof a datatype.
  An enumeration has a constructor for the numbers it does not name.  \<open>descriptorpb\<close> and the
  syntax trees of \<open>cel-go\<close> are data of third-party packages: only the fields the code reads are
  here, and the parser itself is a parameter.
\<close>

section \<open>Messages\<close>

record Metadata =
  md_Group :: string
  md_Kind :: string
  md_Name :: string
  md_Namespace :: string

record pbTargetRef =
  pt_Group :: string
  pt_Kind :: string
  pt_Name :: string
  pt_Namespace :: string
  pt_SectionName :: string

record pbPolicy =
  pol_Metadata :: "Metadata option"
  pol_TargetRefs :: "pbTargetRef option list"

datatype Phase = PHASE_UNSPECIFIED | PHASE_REQUEST | PHASE_RESPONSE | PHASE_other int

datatype Domain = DOMAIN_UNSPECIFIED | DOMAIN_AUTH | DOMAIN_REQUEST | DOMAIN_other int

record pbGrpcAction =
  ga_Method :: string
  ga_Var :: string

record pbDenyAction =
  da_WithStatus :: int
  da_WithHeaders :: string
  da_WithBody :: string

record pbAddHeadersAction =
  ah_HeadersToAdd :: string

record pbFailAction =
  fa_LogMessage :: string

record pbStoreAction =
  sa_Path :: string
  sa_Value :: string
  sa_ExportToHost :: bool

text \<open>The oneof of an entry; the message inside a wrapper may be missing.\<close>

datatype pbAction =
    ActionEntry_Grpc "pbGrpcAction option"
  | ActionEntry_Deny "pbDenyAction option"
  | ActionEntry_AddHeaders "pbAddHeadersAction option"
  | ActionEntry_Fail "pbFailAction option"
  | ActionEntry_Store "pbStoreAction option"

record ActionEntry =
  ae_Phase :: Phase
  ae_Predicate :: string
  ae_Action :: "pbAction option"

definition GetGrpc :: "ActionEntry \<Rightarrow> pbGrpcAction option" where
  "GetGrpc e = (case ae_Action e of Some (ActionEntry_Grpc a) \<Rightarrow> a | _ \<Rightarrow> None)"

definition GetDeny :: "ActionEntry \<Rightarrow> pbDenyAction option" where
  "GetDeny e = (case ae_Action e of Some (ActionEntry_Deny a) \<Rightarrow> a | _ \<Rightarrow> None)"

definition GetAddHeaders :: "ActionEntry \<Rightarrow> pbAddHeadersAction option" where
  "GetAddHeaders e = (case ae_Action e of Some (ActionEntry_AddHeaders a) \<Rightarrow> a | _ \<Rightarrow> None)"

definition GetStore :: "ActionEntry \<Rightarrow> pbStoreAction option" where
  "GetStore e = (case ae_Action e of Some (ActionEntry_Store a) \<Rightarrow> a | _ \<Rightarrow> None)"

section \<open>Descriptors\<close>

record FieldDescriptorProto =
  fd_Name :: string
  fd_IsMessage :: bool
  fd_TypeName :: string

datatype DescriptorProto =
  DescriptorProto (msg_Name: string) (msg_Field: "FieldDescriptorProto list") (msg_NestedType: "DescriptorProto list")

record MethodDescriptorProto =
  meth_Name :: string
  meth_OutputType :: string

record ServiceDescriptorProto =
  svc_Name :: string
  svc_Method :: "MethodDescriptorProto list"

record FileDescriptorProto =
  file_Package :: string
  file_Service :: "ServiceDescriptorProto list"
  file_MessageType :: "DescriptorProto list"

type_synonym FileDescriptorSet = "FileDescriptorProto list"

definition qualify :: "string \<Rightarrow> string \<Rightarrow> string" where
  "qualify pkg name = (if pkg \<noteq> [] then pkg @ ''.'' @ name else name)"

fun firstSome :: "('a \<Rightarrow> 'b option) \<Rightarrow> 'a list \<Rightarrow> 'b option" where
  "firstSome f [] = None"
| "firstSome f (x # xs) = (case f x of Some y \<Rightarrow> Some y | None \<Rightarrow> firstSome f xs)"

lemma firstSome_cong [fundef_cong]:
  "xs = ys \<Longrightarrow> (\<And>x. x \<in> set ys \<Longrightarrow> f x = g x) \<Longrightarrow> firstSome f xs = firstSome g ys"
  by (induction xs arbitrary: ys) (auto split: option.splits)

lemma firstSome_None: "firstSome f xs = None \<longleftrightarrow> (\<forall>x\<in>set xs. f x = None)"
  by (induction xs) (auto split: option.splits)

lemma firstSome_Some: "firstSome f xs = Some y \<Longrightarrow> \<exists>x\<in>set xs. f x = Some y"
  by (induction xs) (auto split: option.splits)

definition findResponseMessageType :: "FileDescriptorSet \<Rightarrow> string \<Rightarrow> string \<Rightarrow> string" where
  "findResponseMessageType fds serviceName methodName =
     Deref (firstSome (\<lambda>file. firstSome (\<lambda>svc.
       if qualify (file_Package file) (svc_Name svc) \<noteq> serviceName then None
       else firstSome (\<lambda>method. if meth_Name method = methodName then Some (meth_OutputType method) else None)
              (svc_Method svc)) (file_Service file)) fds) []"

fun searchMessage :: "DescriptorProto \<Rightarrow> string \<Rightarrow> string \<Rightarrow> DescriptorProto option" where
  "searchMessage (DescriptorProto name flds nested) fqn target =
     (if fqn = target then Some (DescriptorProto name flds nested)
      else firstSome (\<lambda>n. searchMessage n (fqn @ ''.'' @ msg_Name n) target) nested)"

definition findMessageDescriptor :: "FileDescriptorSet \<Rightarrow> string \<Rightarrow> DescriptorProto option" where
  "findMessageDescriptor fds messageType =
     firstSome (\<lambda>file. firstSome (\<lambda>msg.
       searchMessage msg (qualify (file_Package file) (msg_Name msg)) (TrimPrefix messageType ''.''))
         (file_MessageType file)) fds"

datatype field_error =
    MessageTypeNotFound string
  | FieldNotFound string string
  | NotAMessage string string
  | FieldTypeNotFound string string

definition findField :: "string \<Rightarrow> DescriptorProto \<Rightarrow> FieldDescriptorProto option" where
  "findField fieldName msg = List.find (\<lambda>f. fd_Name f = fieldName) (msg_Field msg)"

text \<open>The loop over the path; \<open>i < len(fieldPath)-1\<close> holds when more names follow.\<close>

fun walkFields :: "FileDescriptorSet \<Rightarrow> DescriptorProto \<Rightarrow> string list \<Rightarrow> field_error option" where
  "walkFields fds currentMsg [] = None"
| "walkFields fds currentMsg (fieldName # rest) =
     (case findField fieldName currentMsg of
        None \<Rightarrow> Some (FieldNotFound fieldName (msg_Name currentMsg))
      | Some found \<Rightarrow>
          if rest = [] then None
          else if \<not> fd_IsMessage found then Some (NotAMessage fieldName (msg_Name currentMsg))
          else (case findMessageDescriptor fds (fd_TypeName found) of
                  None \<Rightarrow> Some (FieldTypeNotFound (fd_TypeName found) fieldName)
                | Some nextMsg \<Rightarrow> walkFields fds nextMsg rest))"

definition validateFieldAccess :: "FileDescriptorSet \<Rightarrow> string \<Rightarrow> string list \<Rightarrow> field_error option" where
  "validateFieldAccess fds messageType fieldPath =
     (if length fieldPath = 0 then None
      else case findMessageDescriptor fds messageType of
        None \<Rightarrow> Some (MessageTypeNotFound messageType)
      | Some msg \<Rightarrow> walkFields fds msg fieldPath)"

section \<open>Field accesses of a CEL expression\<close>

text \<open>
  The kinds of syntax trees that the code tells apart; literals, message literals and
  comprehensions, which it does not enter, are \<open>OtherExpr\<close>.
\<close>

datatype celExpr =
    IdentExpr string
  | SelectExpr celExpr string
  | CallExpr "celExpr option" "celExpr list"
  | ListExpr "celExpr list"
  | MapExpr "(celExpr \<times> celExpr) list"
  | OtherExpr

fun selectLoop :: "celExpr \<Rightarrow> string list \<Rightarrow> string \<times> string list" where
  "selectLoop (SelectExpr operand fieldName) flds = selectLoop operand (fieldName # flds)"
| "selectLoop (IdentExpr v) flds = (v, flds)"
| "selectLoop e flds = ([], [])"

definition resolveSelectChain :: "celExpr \<Rightarrow> string \<times> string list" where
  "resolveSelectChain expr = selectLoop expr []"

type_synonym accesses = "(string, string list list) gomap"

definition addAccess :: "string \<Rightarrow> string list \<Rightarrow> accesses \<Rightarrow> accesses" where
  "addAccess v flds result = gm_set v (Deref (map_of result v) [] @ [flds]) result"

fun collectFieldAccesses :: "(string, string) gomap \<Rightarrow> celExpr \<Rightarrow> accesses \<Rightarrow> accesses" where
  "collectFieldAccesses knownVars (SelectExpr operand fieldName) result =
     (let (varName, flds) = resolveSelectChain (SelectExpr operand fieldName) in
      if varName \<noteq> [] \<and> map_of knownVars varName \<noteq> None then addAccess varName flds result
      else collectFieldAccesses knownVars operand result)"
| "collectFieldAccesses knownVars (CallExpr target args) result =
     fold (collectFieldAccesses knownVars) args
       (case target of Some t \<Rightarrow> collectFieldAccesses knownVars t result | None \<Rightarrow> result)"
| "collectFieldAccesses knownVars (ListExpr elems) result = fold (collectFieldAccesses knownVars) elems result"
| "collectFieldAccesses knownVars (MapExpr entries) result =
     fold (\<lambda>(k, v) result. collectFieldAccesses knownVars v (collectFieldAccesses knownVars k result)) entries result"
| "collectFieldAccesses knownVars (IdentExpr v) result = result"
| "collectFieldAccesses knownVars OtherExpr result = result"

definition extractVarFieldAccesses ::
  "(string \<Rightarrow> string + celExpr) \<Rightarrow> string \<Rightarrow> (string, string) gomap \<Rightarrow> string + accesses" where
  "extractVarFieldAccesses parse expr knownVars =
     ebind (parse expr) (\<lambda>parsed. Inr (collectFieldAccesses knownVars parsed []))"


section \<open>What the checks mean\<close>

text \<open>
  A message declared by a file has its package and its name as fully qualified name; a message
  declared inside another one appends its name.
\<close>

inductive declared :: "FileDescriptorSet \<Rightarrow> string \<Rightarrow> DescriptorProto \<Rightarrow> bool" for fds where
  top: "fl \<in> set fds \<Longrightarrow> msg \<in> set (file_MessageType fl) \<Longrightarrow>
    declared fds (qualify (file_Package fl) (msg_Name msg)) msg"
| nested: "declared fds fqn msg \<Longrightarrow> n \<in> set (msg_NestedType msg) \<Longrightarrow>
    declared fds (fqn @ ''.'' @ msg_Name n) n"

inductive typed_path :: "FileDescriptorSet \<Rightarrow> DescriptorProto \<Rightarrow> string list \<Rightarrow> bool" for fds where
  last_field: "findField f msg = Some d \<Longrightarrow> typed_path fds msg [f]"
| sub_field: "findField f msg = Some d \<Longrightarrow> fd_IsMessage d \<Longrightarrow>
    findMessageDescriptor fds (fd_TypeName d) = Some next \<Longrightarrow> typed_path fds next rest \<Longrightarrow>
    typed_path fds msg (f # rest)"

inductive_cases typed_path_NilE: "typed_path fds msg []"

inductive_cases typed_path_ConsE: "typed_path fds msg (f # rest)"

lemma typed_path_not_Nil: "typed_path fds msg p \<Longrightarrow> p \<noteq> []"
  by (induction rule: typed_path.induct) auto

lemma searchMessage_declared:
  "searchMessage msg fqn target = Some m \<Longrightarrow> declared fds fqn msg \<Longrightarrow> declared fds target m"
proof (induction msg fqn target rule: searchMessage.induct)
  case (1 name flds nested fqn target)
  show ?case
  proof (cases "fqn = target")
    case True
    with 1 show ?thesis by simp
  next
    case False
    then obtain n where n: "n \<in> set nested" "searchMessage n (fqn @ ''.'' @ msg_Name n) target = Some m"
      using "1.prems"(1) by (auto dest: firstSome_Some)
    then have "declared fds (fqn @ ''.'' @ msg_Name n) n"
      using declared.nested [OF "1.prems"(2)] by simp
    with "1.IH" [OF False n(1)] n(2) show ?thesis by simp
  qed
qed

lemma findMessageDescriptor_declared:
  "findMessageDescriptor fds ty = Some m \<Longrightarrow> declared fds (TrimPrefix ty ''.'') m"
  unfolding findMessageDescriptor_def
  by (fastforce dest!: firstSome_Some intro: searchMessage_declared declared.top)

text \<open>A search that finds nothing has visited every message nested in the one it started from.\<close>

lemma searchMessage_None_nested:
  "searchMessage msg fqn target = None \<Longrightarrow> n \<in> set (msg_NestedType msg) \<Longrightarrow>
    searchMessage n (fqn @ ''.'' @ msg_Name n) target = None"
  by (cases msg) (auto simp: firstSome_None split: if_splits)

lemma searchMessage_None_fqn: "searchMessage msg fqn target = None \<Longrightarrow> fqn \<noteq> target"
  by (cases msg) auto

lemma findMessageDescriptor_None:
  assumes "findMessageDescriptor fds ty = None"
  shows "\<not> declared fds (TrimPrefix ty ''.'') m"
proof -
  have "searchMessage m fqn (TrimPrefix ty ''.'') = None" if "declared fds fqn m" for fqn m
    using that
  proof (induction rule: declared.induct)
    case (top fl msg)
    then show ?case using assms by (auto simp: findMessageDescriptor_def firstSome_None)
  next
    case (nested fqn msg n)
    then show ?case by (blast intro: searchMessage_None_nested)
  qed
  then show ?thesis using searchMessage_None_fqn by blast
qed

lemma walkFields_typed: "p \<noteq> [] \<Longrightarrow> walkFields fds msg p = None \<longleftrightarrow> typed_path fds msg p"
proof (induction fds msg p rule: walkFields.induct)
  case (2 fds msg f rest)
  show ?case
  proof (cases "rest = []")
    case True
    then show ?thesis
      by (auto split: option.splits intro: typed_path.last_field elim: typed_path_ConsE dest: typed_path_not_Nil)
  next
    case False
    then show ?thesis using "2.IH"
      by (auto split: option.splits intro: typed_path.sub_field elim: typed_path_ConsE)
  qed
qed simp

text \<open>
  C34.  A path of fields on the response of an upstream is accepted exactly when it is empty or
  well typed: the response type is declared in the descriptors, every name on the path is a
  field of the message reached so far, and every field but the last has a declared message
  type.  The search for a message type is complete: it fails only if no file declares the type.
\<close>

theorem validateFieldAccess_typed:
  "(validateFieldAccess fds ty p = None \<longleftrightarrow>
      p = [] \<or> (\<exists>msg. findMessageDescriptor fds ty = Some msg \<and> typed_path fds msg p)) \<and>
   (findMessageDescriptor fds ty \<noteq> None \<longleftrightarrow> (\<exists>m. declared fds (TrimPrefix ty ''.'') m)) \<and>
   (findMessageDescriptor fds ty = Some m \<longrightarrow> declared fds (TrimPrefix ty ''.'') m)"
proof -
  have "validateFieldAccess fds ty p = None \<longleftrightarrow>
      p = [] \<or> (\<exists>msg. findMessageDescriptor fds ty = Some msg \<and> typed_path fds msg p)"
    by (cases "p = []") (auto simp: validateFieldAccess_def walkFields_typed split: option.splits)
  moreover have "findMessageDescriptor fds ty \<noteq> None \<longleftrightarrow> (\<exists>m. declared fds (TrimPrefix ty ''.'') m)"
    using findMessageDescriptor_declared findMessageDescriptor_None by (metis option.exhaust)
  ultimately show ?thesis using findMessageDescriptor_declared by blast
qed

definition ex_fds :: FileDescriptorSet where
  "ex_fds = [\<lparr>file_Package = ''acme'', file_Service = [\<lparr>svc_Name = ''Threat'', svc_Method =
       [\<lparr>meth_Name = ''Check'', meth_OutputType = ''.acme.Reply''\<rparr>]\<rparr>],
     file_MessageType = [DescriptorProto ''Reply'' [\<lparr>fd_Name = ''inner'', fd_IsMessage = True, fd_TypeName = ''.acme.Reply.Inner''\<rparr>]
       [DescriptorProto ''Inner'' [\<lparr>fd_Name = ''score'', fd_IsMessage = False, fd_TypeName = []\<rparr>] []]]\<rparr>]"

lemma ex_fds_inner:
  "findMessageDescriptor ex_fds ''.acme.Reply.Inner'' =
     Some (DescriptorProto ''Inner'' [\<lparr>fd_Name = ''score'', fd_IsMessage = False, fd_TypeName = []\<rparr>] [])"
  by code_simp

theorem validateFieldAccess_typed_witness:
  "validateFieldAccess ex_fds (findResponseMessageType ex_fds ''acme.Threat'' ''Check'') [''inner'', ''score''] = None \<and>
   declared ex_fds (TrimPrefix ''.acme.Reply.Inner'' ''.'')
     (DescriptorProto ''Inner'' [\<lparr>fd_Name = ''score'', fd_IsMessage = False, fd_TypeName = []\<rparr>] [])"
proof -
  have "validateFieldAccess ex_fds (findResponseMessageType ex_fds ''acme.Threat'' ''Check'') [''inner'', ''score''] = None"
    by code_simp
  with validateFieldAccess_typed [of ex_fds "''.acme.Reply.Inner''"] ex_fds_inner show ?thesis by blast
qed

text \<open>What is collected belongs to known variables, and no path is empty.\<close>

definition accesses_ok :: "(string, string) gomap \<Rightarrow> accesses \<Rightarrow> bool" where
  "accesses_ok knownVars result \<longleftrightarrow>
     list_all (\<lambda>(v, chains). map_of knownVars v \<noteq> None \<and> list_all (\<lambda>c. c \<noteq> []) chains) result"

lemma selectLoop_not_Nil: "selectLoop e flds = (v, c) \<Longrightarrow> v \<noteq> [] \<Longrightarrow> flds \<noteq> [] \<Longrightarrow> c \<noteq> []"
  by (induction e flds rule: selectLoop.induct) auto

lemma addAccess_ok:
  assumes "accesses_ok knownVars result" "map_of knownVars v \<noteq> None" "c \<noteq> []"
  shows "accesses_ok knownVars (addAccess v c result)"
proof -
  have "list_all (\<lambda>c. c \<noteq> []) (Deref (map_of result v) [])"
    using assms(1) by (cases "map_of result v") (auto simp: accesses_ok_def list_all_iff dest!: map_of_SomeD)
  with assms show ?thesis by (auto simp: accesses_ok_def addAccess_def intro!: list_all_gm_set)
qed

lemma fold_keeps: "(\<And>x r. x \<in> set xs \<Longrightarrow> P r \<Longrightarrow> P (f x r)) \<Longrightarrow> P r \<Longrightarrow> P (fold f xs r)"
  by (induction xs arbitrary: r) auto

lemma collectFieldAccesses_ok:
  "accesses_ok knownVars result \<Longrightarrow> accesses_ok knownVars (collectFieldAccesses knownVars e result)"
proof (induction knownVars e result rule: collectFieldAccesses.induct)
  case (1 knownVars operand fieldName result)
  obtain v c where vc: "resolveSelectChain (SelectExpr operand fieldName) = (v, c)" by fastforce
  then have "v \<noteq> [] \<Longrightarrow> c \<noteq> []" by (auto simp: resolveSelectChain_def dest: selectLoop_not_Nil)
  with 1 vc show ?case by (auto intro: addAccess_ok)
next
  case (2 knownVars target args result)
  show ?case unfolding collectFieldAccesses.simps
    by (rule fold_keeps [of _ "accesses_ok knownVars"]) (use 2 in \<open>auto split: option.splits\<close>)
next
  case (3 knownVars elems result)
  show ?case unfolding collectFieldAccesses.simps
    by (rule fold_keeps [of _ "accesses_ok knownVars"]) (use 3 in auto)
next
  case (4 knownVars entries result)
  show ?case unfolding collectFieldAccesses.simps
    by (rule fold_keeps [of _ "accesses_ok knownVars"]) (use 4 in auto)
qed auto

end
