(* ===== verification/Extension_Store.thy ===== *)
theory Extension_Store
  imports Extension_Protocol
begin

text \<open>
  What extensions have registered: \<open>RegisteredDataStore\<close> of \<open>internal/extension/registry.go\<close> and
  the cache of service descriptors of \<open>proto_cache.go\<close>.

  The store has one table per kind of data, each a map of Go with the key and entry types of the
  source.  Compiled CEL programs (\<open>'ast\<close>) and their values (\<open>'val\<close>) are only stored and handed
  back.  Every method holds its mutex throughout, so it is one step; \<open>ClearPolicyData\<close> holds all
  four.  Indices and counters are natural numbers.
\<close>

section \<open>Data\<close>

record ResourceID =
  rid_Kind :: string
  rid_Namespace :: string
  rid_Name :: string

record 'ast DataProviderEntry =
  dp_Policy :: ResourceID
  dp_Binding :: string
  dp_Expression :: string
  dp_CAst :: "'ast option"

record ('ast, 'val) Subscription =
  sub_CAst :: 'ast
  sub_Input :: "(string, pbPolicy) gomap"
  sub_Val :: 'val
  sub_PolicyKind :: string

record DataProviderKey =
  dk_Policy :: ResourceID
  dk_TargetRefLocator :: string
  dk_Domain :: Domain
  dk_Binding :: string

record SubscriptionKey =
  sk_Policy :: ResourceID
  sk_Expression :: string

record RegisteredUpstreamKey =
  uk_Policy :: ResourceID
  uk_Name :: string
  uk_URL :: string
  uk_Service :: string
  uk_Method :: string

record TargetRef =
  tr_Group :: string
  tr_Kind :: string
  tr_Name :: string
  tr_Namespace :: string

record RegisteredUpstreamEntry =
  ue_ClusterName :: string
  ue_Host :: string
  ue_Port :: int
  ue_TargetRef :: TargetRef
  ue_Service :: string
  ue_Method :: string
  ue_FailureMode :: string
  ue_Timeout :: string
  ue_MessageTemplate :: string

datatype PipelinePhase = PipelinePhaseRequest | PipelinePhaseResponse

definition phaseFromProto :: "Phase \<Rightarrow> PipelinePhase option" where
  "phaseFromProto p = (case p of PHASE_REQUEST \<Rightarrow> Some PipelinePhaseRequest
     | PHASE_RESPONSE \<Rightarrow> Some PipelinePhaseResponse | _ \<Rightarrow> None)"

record PipelineActionEntry =
  pa_Index :: nat
  pa_Entry :: "ActionEntry option"

type_synonym pipelineKey = "ResourceID \<times> PipelinePhase"

record ProtoCacheKey =
  pc_ClusterName :: string
  pc_Service :: string

type_synonym ProtoCache = "(ProtoCacheKey, FileDescriptorSet) gomap"

record ('ast, 'val) RegisteredDataStore =
  st_dataProviders :: "(DataProviderKey, 'ast DataProviderEntry) gomap"
  st_subscriptions :: "(SubscriptionKey, ('ast, 'val) Subscription) gomap"
  st_registeredUpstreams :: "(RegisteredUpstreamKey, RegisteredUpstreamEntry) gomap"
  st_protoCache :: ProtoCache
  st_pipelineActions :: "(pipelineKey, PipelineActionEntry list) gomap"
  st_pipelineCounters :: "(pipelineKey, nat) gomap"
  st_pipelineTargetRefs :: "(ResourceID, TargetRef list) gomap"

text \<open>A reference to a policy target, as \<open>machinery.PolicyTargetReference\<close> gives it.\<close>

record PolicyTargetReference =
  ptr_Group :: string
  ptr_Kind :: string
  ptr_Name :: string
  ptr_Namespace :: string

definition targetRefOf :: "PolicyTargetReference \<Rightarrow> TargetRef" where
  "targetRefOf r = \<lparr>tr_Group = ptr_Group r, tr_Kind = ptr_Kind r, tr_Name = ptr_Name r, tr_Namespace = ptr_Namespace r\<rparr>"

definition NewRegisteredDataStore :: "('ast, 'val) RegisteredDataStore" where
  "NewRegisteredDataStore = \<lparr>st_dataProviders = [], st_subscriptions = [], st_registeredUpstreams = [],
     st_protoCache = [], st_pipelineActions = [], st_pipelineCounters = [], st_pipelineTargetRefs = []\<rparr>"

section \<open>The descriptor cache\<close>

definition ProtoCache_Set :: "ProtoCacheKey \<Rightarrow> FileDescriptorSet \<Rightarrow> ProtoCache \<Rightarrow> ProtoCache" where
  "ProtoCache_Set key fds pc = gm_set key fds pc"

definition ProtoCache_Get :: "ProtoCacheKey \<Rightarrow> ProtoCache \<Rightarrow> FileDescriptorSet option" where
  "ProtoCache_Get key pc = map_of pc key"

definition ProtoCache_Delete :: "ProtoCacheKey \<Rightarrow> ProtoCache \<Rightarrow> ProtoCache \<times> bool" where
  "ProtoCache_Delete key pc = (if map_of pc key \<noteq> None then (gm_delete key pc, True) else (pc, False))"

section \<open>Data providers\<close>

definition providerKey :: "ResourceID \<Rightarrow> string \<Rightarrow> Domain \<Rightarrow> string \<Rightarrow> DataProviderKey" where
  "providerKey policy targetRefLocator domain binding = \<lparr>dk_Policy = policy,
     dk_TargetRefLocator = targetRefLocator, dk_Domain = domain, dk_Binding = binding\<rparr>"

definition Store_Set ::
  "ResourceID \<Rightarrow> string \<Rightarrow> Domain \<Rightarrow> string \<Rightarrow> 'ast DataProviderEntry \<Rightarrow>
    ('ast, 'val) RegisteredDataStore \<Rightarrow> ('ast, 'val) RegisteredDataStore" where
  "Store_Set policy targetRefLocator domain binding entry r =
     r\<lparr>st_dataProviders := gm_set (providerKey policy targetRefLocator domain binding) entry (st_dataProviders r)\<rparr>"

definition GetAllForTargetRef ::
  "string \<Rightarrow> Domain \<Rightarrow> ('ast, 'val) RegisteredDataStore \<Rightarrow> 'ast DataProviderEntry list" where
  "GetAllForTargetRef targetRefLocator domain r =
     map snd (filter (\<lambda>(key, entry). dk_TargetRefLocator key = targetRefLocator \<and> dk_Domain key = domain)
       (st_dataProviders r))"

definition Store_Get ::
  "ResourceID \<Rightarrow> string \<Rightarrow> Domain \<Rightarrow> string \<Rightarrow> ('ast, 'val) RegisteredDataStore \<Rightarrow> 'ast DataProviderEntry option" where
  "Store_Get policy targetRefLocator domain binding r =
     map_of (st_dataProviders r) (providerKey policy targetRefLocator domain binding)"

definition Store_Exists ::
  "ResourceID \<Rightarrow> string \<Rightarrow> Domain \<Rightarrow> string \<Rightarrow> ('ast, 'val) RegisteredDataStore \<Rightarrow> bool" where
  "Store_Exists policy targetRefLocator domain binding r \<longleftrightarrow>
     map_of (st_dataProviders r) (providerKey policy targetRefLocator domain binding) \<noteq> None"

definition Store_Delete ::
  "ResourceID \<Rightarrow> string \<Rightarrow> Domain \<Rightarrow> string \<Rightarrow> ('ast, 'val) RegisteredDataStore \<Rightarrow>
    ('ast, 'val) RegisteredDataStore \<times> bool" where
  "Store_Delete policy targetRefLocator domain binding r =
     (let key = providerKey policy targetRefLocator domain binding in
      if map_of (st_dataProviders r) key \<noteq> None
      then (r\<lparr>st_dataProviders := gm_delete key (st_dataProviders r)\<rparr>, True) else (r, False))"

section \<open>Subscriptions\<close>

definition subKey :: "ResourceID \<Rightarrow> string \<Rightarrow> SubscriptionKey" where
  "subKey policy expression = \<lparr>sk_Policy = policy, sk_Expression = expression\<rparr>"

definition SetSubscription ::
  "ResourceID \<Rightarrow> string \<Rightarrow> ('ast, 'val) Subscription \<Rightarrow>
    ('ast, 'val) RegisteredDataStore \<Rightarrow> ('ast, 'val) RegisteredDataStore" where
  "SetSubscription policy expression subscription r =
     r\<lparr>st_subscriptions := gm_set (subKey policy expression) subscription (st_subscriptions r)\<rparr>"

definition GetSubscriptionsForPolicyKind ::
  "string \<Rightarrow> ('ast, 'val) RegisteredDataStore \<Rightarrow> (SubscriptionKey, ('ast, 'val) Subscription) gomap" where
  "GetSubscriptionsForPolicyKind policyKind r =
     filter (\<lambda>(key, sub). sub_PolicyKind sub = policyKind) (st_subscriptions r)"

definition GetSubscription ::
  "ResourceID \<Rightarrow> string \<Rightarrow> ('ast, 'val) RegisteredDataStore \<Rightarrow> ('ast, 'val) Subscription option" where
  "GetSubscription policy expression r = map_of (st_subscriptions r) (subKey policy expression)"

definition GetAllSubscriptions ::
  "('ast, 'val) RegisteredDataStore \<Rightarrow> (SubscriptionKey, ('ast, 'val) Subscription) gomap" where
  "GetAllSubscriptions r = st_subscriptions r"

definition UpdateSubscriptionValue ::
  "ResourceID \<Rightarrow> string \<Rightarrow> 'val \<Rightarrow> ('ast, 'val) RegisteredDataStore \<Rightarrow> ('ast, 'val) RegisteredDataStore \<times> bool" where
  "UpdateSubscriptionValue policy expression newVal r =
     (case map_of (st_subscriptions r) (subKey policy expression) of
        Some sub \<Rightarrow> (r\<lparr>st_subscriptions := gm_set (subKey policy expression) (sub\<lparr>sub_Val := newVal\<rparr>) (st_subscriptions r)\<rparr>, True)
      | None \<Rightarrow> (r, False))"

definition DeleteSubscription ::
  "ResourceID \<Rightarrow> string \<Rightarrow> ('ast, 'val) RegisteredDataStore \<Rightarrow> ('ast, 'val) RegisteredDataStore \<times> bool" where
  "DeleteSubscription policy expression r =
     (if map_of (st_subscriptions r) (subKey policy expression) \<noteq> None
      then (r\<lparr>st_subscriptions := gm_delete (subKey policy expression) (st_subscriptions r)\<rparr>, True)
      else (r, False))"

definition GetPolicySubscriptions :: "ResourceID \<Rightarrow> ('ast, 'val) RegisteredDataStore \<Rightarrow> SubscriptionKey list" where
  "GetPolicySubscriptions policy r = filter (\<lambda>key. sk_Policy key = policy) (map fst (st_subscriptions r))"

section \<open>Upstreams\<close>

definition cacheKeyOf :: "RegisteredUpstreamEntry \<Rightarrow> ProtoCacheKey" where
  "cacheKeyOf entry = \<lparr>pc_ClusterName = ue_ClusterName entry, pc_Service = ue_Service entry\<rparr>"

definition SetUpstream ::
  "RegisteredUpstreamKey \<Rightarrow> RegisteredUpstreamEntry \<Rightarrow> FileDescriptorSet \<Rightarrow>
    ('ast, 'val) RegisteredDataStore \<Rightarrow> ('ast, 'val) RegisteredDataStore" where
  "SetUpstream key entry fds r =
     r\<lparr>st_registeredUpstreams := gm_set key entry (st_registeredUpstreams r),
       st_protoCache := ProtoCache_Set (cacheKeyOf entry) fds (st_protoCache r)\<rparr>"

definition IsUpstreamNameTaken :: "RegisteredUpstreamKey \<Rightarrow> ('ast, 'val) RegisteredDataStore \<Rightarrow> bool" where
  "IsUpstreamNameTaken key r =
     list_ex (\<lambda>(k, entry). uk_Policy k = uk_Policy key \<and> uk_Name k = uk_Name key \<and> k \<noteq> key) (st_registeredUpstreams r)"

definition SetUpstreamIfNameAvailable ::
  "RegisteredUpstreamKey \<Rightarrow> RegisteredUpstreamEntry \<Rightarrow> FileDescriptorSet \<Rightarrow>
    ('ast, 'val) RegisteredDataStore \<Rightarrow> ('ast, 'val) RegisteredDataStore \<times> bool" where
  "SetUpstreamIfNameAvailable key entry fds r =
     (if list_ex (\<lambda>(k, entry). uk_Policy k = uk_Policy key \<and> uk_Name k = uk_Name key \<and> k \<noteq> key) (st_registeredUpstreams r)
      then (r, False)
      else (r\<lparr>st_registeredUpstreams := gm_set key entry (st_registeredUpstreams r),
              st_protoCache := ProtoCache_Set (cacheKeyOf entry) fds (st_protoCache r)\<rparr>, True))"

definition GetUpstream ::
  "RegisteredUpstreamKey \<Rightarrow> ('ast, 'val) RegisteredDataStore \<Rightarrow> RegisteredUpstreamEntry option" where
  "GetUpstream key r = map_of (st_registeredUpstreams r) key"

definition GetAllUpstreams ::
  "('ast, 'val) RegisteredDataStore \<Rightarrow> (RegisteredUpstreamKey, RegisteredUpstreamEntry) gomap" where
  "GetAllUpstreams r = st_registeredUpstreams r"

definition GetUpstreamsByTargetRef ::
  "TargetRef \<Rightarrow> ('ast, 'val) RegisteredDataStore \<Rightarrow> RegisteredUpstreamEntry list" where
  "GetUpstreamsByTargetRef targetRef r =
     filter (\<lambda>entry. ue_TargetRef entry = targetRef) (map snd (st_registeredUpstreams r))"

definition GetRelevantUpstreamKeys ::
  "PolicyTargetReference list \<Rightarrow> ('ast, 'val) RegisteredDataStore \<Rightarrow>
    (RegisteredUpstreamKey, RegisteredUpstreamEntry) gomap" where
  "GetRelevantUpstreamKeys targetRefs r =
     foldl (\<lambda>result targetRef. foldl (\<lambda>result (key, entry).
         if ue_TargetRef entry = targetRefOf targetRef then gm_set key entry result else result)
       result (st_registeredUpstreams r)) [] targetRefs"

definition GetRelevantUpstreams ::
  "PolicyTargetReference list \<Rightarrow> ('ast, 'val) RegisteredDataStore \<Rightarrow> RegisteredUpstreamEntry list" where
  "GetRelevantUpstreams targetRefs r =
     concat (map (\<lambda>targetRef. GetUpstreamsByTargetRef (targetRefOf targetRef) r) targetRefs)"

definition DeleteUpstream ::
  "RegisteredUpstreamKey \<Rightarrow> ('ast, 'val) RegisteredDataStore \<Rightarrow> ('ast, 'val) RegisteredDataStore \<times> bool" where
  "DeleteUpstream key r =
     (if map_of (st_registeredUpstreams r) key \<noteq> None
      then (r\<lparr>st_registeredUpstreams := gm_delete key (st_registeredUpstreams r)\<rparr>, True) else (r, False))"

definition HasUpstreamName :: "ResourceID \<Rightarrow> string \<Rightarrow> ('ast, 'val) RegisteredDataStore \<Rightarrow> bool" where
  "HasUpstreamName policy name r =
     list_ex (\<lambda>(k, entry). uk_Policy k = policy \<and> uk_Name k = name) (st_registeredUpstreams r)"

definition GetUpstreamByName ::
  "ResourceID \<Rightarrow> string \<Rightarrow> ('ast, 'val) RegisteredDataStore \<Rightarrow> (RegisteredUpstreamKey \<times> RegisteredUpstreamEntry) option" where
  "GetUpstreamByName policy name r =
     List.find (\<lambda>(k, entry). uk_Policy k = policy \<and> uk_Name k = name) (st_registeredUpstreams r)"

definition GetUpstreamsForPolicy ::
  "ResourceID \<Rightarrow> ('ast, 'val) RegisteredDataStore \<Rightarrow> RegisteredUpstreamEntry list" where
  "GetUpstreamsForPolicy policy r =
     map snd (filter (\<lambda>(key, entry). uk_Policy key = policy) (st_registeredUpstreams r))"

definition GetProtoDescriptor ::
  "ProtoCacheKey \<Rightarrow> ('ast, 'val) RegisteredDataStore \<Rightarrow> FileDescriptorSet option" where
  "GetProtoDescriptor cacheKey r = ProtoCache_Get cacheKey (st_protoCache r)"

section \<open>Pipelines\<close>

definition actionsAt :: "pipelineKey \<Rightarrow> ('ast, 'val) RegisteredDataStore \<Rightarrow> PipelineActionEntry list" where
  "actionsAt key r = Deref (map_of (st_pipelineActions r) key) []"

definition counterAt :: "pipelineKey \<Rightarrow> ('ast, 'val) RegisteredDataStore \<Rightarrow> nat" where
  "counterAt key r = Deref (map_of (st_pipelineCounters r) key) 0"

text \<open>\<open>proto.Clone\<close> gives an equal message; the loop appends one clone after the other.\<close>

fun appendLoop ::
  "pipelineKey \<Rightarrow> nat \<Rightarrow> PipelineActionEntry list \<Rightarrow> ('ast, 'val) RegisteredDataStore \<Rightarrow> ('ast, 'val) RegisteredDataStore" where
  "appendLoop key i [] r = r"
| "appendLoop key i (action # actions) r =
     appendLoop key (Suc i) actions
       (r\<lparr>st_pipelineActions := gm_set key (actionsAt key r @ [action\<lparr>pa_Index := i\<rparr>]) (st_pipelineActions r)\<rparr>)"

definition AppendPipelineActions ::
  "ResourceID \<Rightarrow> PipelinePhase \<Rightarrow> PipelineActionEntry list \<Rightarrow>
    ('ast, 'val) RegisteredDataStore \<Rightarrow> ('ast, 'val) RegisteredDataStore \<times> nat" where
  "AppendPipelineActions policy phase actions r =
     (let key = (policy, phase);
          startIndex = counterAt key r;
          r = appendLoop key startIndex actions r;
          r = r\<lparr>st_pipelineCounters := gm_set key (startIndex + length actions) (st_pipelineCounters r)\<rparr>
      in (r, startIndex))"

definition GetPipelineActions ::
  "ResourceID \<Rightarrow> PipelinePhase \<Rightarrow> ('ast, 'val) RegisteredDataStore \<Rightarrow> PipelineActionEntry list" where
  "GetPipelineActions policy phase r = actionsAt (policy, phase) r"

definition ClearPipelinePhase ::
  "ResourceID \<Rightarrow> PipelinePhase \<Rightarrow> ('ast, 'val) RegisteredDataStore \<Rightarrow> ('ast, 'val) RegisteredDataStore" where
  "ClearPipelinePhase policy phase r =
     r\<lparr>st_pipelineActions := gm_delete (policy, phase) (st_pipelineActions r),
       st_pipelineCounters := gm_delete (policy, phase) (st_pipelineCounters r)\<rparr>"

datatype entry_error = NilEntry nat | InvalidPhase nat Phase

fun checkEntries :: "nat \<Rightarrow> PipelineActionEntry list \<Rightarrow> entry_error option" where
  "checkEntries i [] = None"
| "checkEntries i (entry # entries) =
     (case pa_Entry entry of
        None \<Rightarrow> Some (NilEntry i)
      | Some e \<Rightarrow> if phaseFromProto (ae_Phase e) = None then Some (InvalidPhase i (ae_Phase e))
                  else checkEntries (Suc i) entries)"

definition entryPhase :: "PipelineActionEntry \<Rightarrow> PipelinePhase option" where
  "entryPhase entry = (case pa_Entry entry of None \<Rightarrow> None | Some e \<Rightarrow> phaseFromProto (ae_Phase e))"

definition groupEntries :: "PipelineActionEntry list \<Rightarrow> (PipelinePhase, PipelineActionEntry list) gomap" where
  "groupEntries entries = foldl (\<lambda>grouped entry.
     case entryPhase entry of None \<Rightarrow> grouped
     | Some phase \<Rightarrow> gm_set phase (Deref (map_of grouped phase) [] @ [entry]) grouped) [] entries"

definition reindex :: "PipelineActionEntry list \<Rightarrow> PipelineActionEntry list" where
  "reindex entries = map (\<lambda>(i, entry). entry\<lparr>pa_Index := i\<rparr>) (zip [0..<length entries] entries)"

abbreviation bothPhases :: "PipelinePhase list" where
  "bothPhases \<equiv> [PipelinePhaseRequest, PipelinePhaseResponse]"

definition ReplacePipelineActions ::
  "ResourceID \<Rightarrow> PipelineActionEntry list \<Rightarrow>
    ('ast, 'val) RegisteredDataStore \<Rightarrow> ('ast, 'val) RegisteredDataStore \<times> entry_error option" where
  "ReplacePipelineActions policy entries r =
     (case checkEntries 0 entries of
        Some err \<Rightarrow> (r, Some err)
      | None \<Rightarrow>
          let r = foldl (\<lambda>r phase. ClearPipelinePhase policy phase r) r bothPhases;
              r = foldl (\<lambda>r (phase, phaseEntries).
                r\<lparr>st_pipelineActions := gm_set (policy, phase) (reindex phaseEntries) (st_pipelineActions r),
                  st_pipelineCounters := gm_set (policy, phase) (length phaseEntries) (st_pipelineCounters r)\<rparr>)
                r (groupEntries entries)
          in (r, None))"

definition ClearPipelineActions ::
  "ResourceID \<Rightarrow> ('ast, 'val) RegisteredDataStore \<Rightarrow> ('ast, 'val) RegisteredDataStore \<times> nat" where
  "ClearPipelineActions policy r =
     (let (r, cleared) = foldl (\<lambda>(r, cleared) phase.
            (ClearPipelinePhase policy phase r, cleared + length (actionsAt (policy, phase) r))) (r, 0) bothPhases
      in (r\<lparr>st_pipelineTargetRefs := gm_delete policy (st_pipelineTargetRefs r)\<rparr>, cleared))"

definition SetPipelineTargetRefs ::
  "ResourceID \<Rightarrow> TargetRef list \<Rightarrow> ('ast, 'val) RegisteredDataStore \<Rightarrow> ('ast, 'val) RegisteredDataStore" where
  "SetPipelineTargetRefs policy refs r =
     (if length refs = 0 then r\<lparr>st_pipelineTargetRefs := gm_delete policy (st_pipelineTargetRefs r)\<rparr>
      else r\<lparr>st_pipelineTargetRefs := gm_set policy refs (st_pipelineTargetRefs r)\<rparr>)"

definition GetPipelineTargetRefs :: "ResourceID \<Rightarrow> ('ast, 'val) RegisteredDataStore \<Rightarrow> TargetRef list" where
  "GetPipelineTargetRefs policy r = Deref (map_of (st_pipelineTargetRefs r) policy) []"

text \<open>A set of policies (\<open>map[ResourceID]bool\<close>), listed.\<close>

definition GetPoliciesWithPipelineActions :: "('ast, 'val) RegisteredDataStore \<Rightarrow> ResourceID list" where
  "GetPoliciesWithPipelineActions r =
     foldl (\<lambda>seen ((policy, phase), actions). if length actions > 0 then List.insert policy seen else seen)
       [] (st_pipelineActions r)"

definition pipelineTargetRefsMatch :: "TargetRef list \<Rightarrow> PolicyTargetReference list \<Rightarrow> bool" where
  "pipelineTargetRefsMatch storedRefs targetRefs =
     list_ex (\<lambda>stored. list_ex (\<lambda>tr. tr_Kind stored = ptr_Kind tr \<and> tr_Name stored = ptr_Name tr \<and>
       tr_Namespace stored = ptr_Namespace tr) targetRefs) storedRefs"

definition GetPoliciesWithPipelineActionsForTargetRefs ::
  "PolicyTargetReference list \<Rightarrow> ('ast, 'val) RegisteredDataStore \<Rightarrow> ResourceID list" where
  "GetPoliciesWithPipelineActionsForTargetRefs targetRefs r =
     foldl (\<lambda>seen ((policy, phase), actions).
       if length actions = 0 \<or> policy \<in> set seen then seen
       else if pipelineTargetRefsMatch (GetPipelineTargetRefs policy r) targetRefs then List.insert policy seen
       else seen) [] (st_pipelineActions r)"

section \<open>Clearing policies\<close>

record PruneCounts =
  cnt_Mutators :: nat
  cnt_Subscriptions :: nat
  cnt_Upstreams :: nat
  cnt_PipelineActions :: nat

definition noCounts :: PruneCounts where
  "noCounts = \<lparr>cnt_Mutators = 0, cnt_Subscriptions = 0, cnt_Upstreams = 0, cnt_PipelineActions = 0\<rparr>"

text \<open>
  One round of the loop of \<open>ClearPolicyData\<close>: the entries whose key names the policy leave every
  table, and its upstreams are remembered for the check of the cache.
\<close>

definition clearOne ::
  "ResourceID \<Rightarrow> ('ast, 'val) RegisteredDataStore \<times> PruneCounts \<times> RegisteredUpstreamEntry list \<Rightarrow>
    ('ast, 'val) RegisteredDataStore \<times> PruneCounts \<times> RegisteredUpstreamEntry list" where
  "clearOne policy = (\<lambda>(r, counts, upstreamsToCheck).
     let mine = filter (\<lambda>(key, entry). dk_Policy key = policy) (st_dataProviders r);
         counts = counts\<lparr>cnt_Mutators := cnt_Mutators counts + length mine\<rparr>;
         r = r\<lparr>st_dataProviders := filter (\<lambda>(key, entry). dk_Policy key \<noteq> policy) (st_dataProviders r)\<rparr>;
         subs = filter (\<lambda>(key, sub). sk_Policy key = policy) (st_subscriptions r);
         counts = counts\<lparr>cnt_Subscriptions := cnt_Subscriptions counts + length subs\<rparr>;
         r = r\<lparr>st_subscriptions := filter (\<lambda>(key, sub). sk_Policy key \<noteq> policy) (st_subscriptions r)\<rparr>;
         ups = filter (\<lambda>(key, entry). uk_Policy key = policy) (st_registeredUpstreams r);
         upstreamsToCheck = upstreamsToCheck @ map snd ups;
         counts = counts\<lparr>cnt_Upstreams := cnt_Upstreams counts + length ups\<rparr>;
         r = r\<lparr>st_registeredUpstreams := filter (\<lambda>(key, entry). uk_Policy key \<noteq> policy) (st_registeredUpstreams r)\<rparr>;
         (r, cleared) = ClearPipelineActions policy r;
         counts = counts\<lparr>cnt_PipelineActions := cnt_PipelineActions counts + cleared\<rparr>
     in (r, counts, upstreamsToCheck))"

definition dropUnreferenced ::
  "('ast, 'val) RegisteredDataStore \<Rightarrow> RegisteredUpstreamEntry \<Rightarrow> ('ast, 'val) RegisteredDataStore" where
  "dropUnreferenced r upstream =
     (let cacheKey = cacheKeyOf upstream;
          stillReferenced = list_ex (\<lambda>(key, entry). ue_ClusterName entry = pc_ClusterName cacheKey \<and>
            ue_Service entry = pc_Service cacheKey) (st_registeredUpstreams r)
      in if \<not> stillReferenced then r\<lparr>st_protoCache := fst (ProtoCache_Delete cacheKey (st_protoCache r))\<rparr> else r)"

definition ClearPolicyData ::
  "ResourceID list \<Rightarrow> ('ast, 'val) RegisteredDataStore \<Rightarrow> ('ast, 'val) RegisteredDataStore \<times> PruneCounts" where
  "ClearPolicyData policies r =
     (if length policies = 0 then (r, noCounts)
      else let (r, counts, upstreamsToCheck) = foldl (\<lambda>acc policy. clearOne policy acc) (r, noCounts, []) policies
           in (foldl dropUnreferenced r upstreamsToCheck, counts))"

definition PolicyIDsForKind :: "string \<Rightarrow> ('ast, 'val) RegisteredDataStore \<Rightarrow> ResourceID list" where
  "PolicyIDsForKind kind r =
     foldl (\<lambda>seen policy. if rid_Kind policy = kind then List.insert policy seen else seen) []
       (map (dk_Policy \<circ> fst) (st_dataProviders r) @ map (sk_Policy \<circ> fst) (st_subscriptions r) @
        map (uk_Policy \<circ> fst) (st_registeredUpstreams r) @ map (fst \<circ> fst) (st_pipelineActions r) @
        map fst (st_pipelineTargetRefs r))"

definition PruneToOwned ::
  "string \<Rightarrow> ResourceID list \<Rightarrow> ('ast, 'val) RegisteredDataStore \<Rightarrow>
    ('ast, 'val) RegisteredDataStore \<times> ResourceID list \<times> PruneCounts" where
  "PruneToOwned kind owned r =
     (let stale = filter (\<lambda>policy. policy \<notin> set owned) (PolicyIDsForKind kind r);
          (r, counts) = ClearPolicyData stale r
      in (r, stale, counts))"


section \<open>Abstract view: erasing policies\<close>

text \<open>
  The specification of \<open>ClearPolicyData\<close>: every table without the entries of the policies.
\<close>

definition erase :: "ResourceID set \<Rightarrow> ('ast, 'val) RegisteredDataStore \<Rightarrow> ('ast, 'val) RegisteredDataStore" where
  "erase ps r = r\<lparr>
     st_dataProviders := filter (\<lambda>(key, entry). dk_Policy key \<notin> ps) (st_dataProviders r),
     st_subscriptions := filter (\<lambda>(key, sub). sk_Policy key \<notin> ps) (st_subscriptions r),
     st_registeredUpstreams := filter (\<lambda>(key, entry). uk_Policy key \<notin> ps) (st_registeredUpstreams r),
     st_pipelineActions := filter (\<lambda>(key, actions). fst key \<notin> ps) (st_pipelineActions r),
     st_pipelineCounters := filter (\<lambda>(key, n). fst key \<notin> ps) (st_pipelineCounters r),
     st_pipelineTargetRefs := filter (\<lambda>(policy, refs). policy \<notin> ps) (st_pipelineTargetRefs r)\<rparr>"

lemma erase_simps [simp]:
  "st_dataProviders (erase ps r) = filter (\<lambda>(key, entry). dk_Policy key \<notin> ps) (st_dataProviders r)"
  "st_subscriptions (erase ps r) = filter (\<lambda>(key, sub). sk_Policy key \<notin> ps) (st_subscriptions r)"
  "st_registeredUpstreams (erase ps r) = filter (\<lambda>(key, entry). uk_Policy key \<notin> ps) (st_registeredUpstreams r)"
  "st_pipelineActions (erase ps r) = filter (\<lambda>(key, actions). fst key \<notin> ps) (st_pipelineActions r)"
  "st_pipelineCounters (erase ps r) = filter (\<lambda>(key, n). fst key \<notin> ps) (st_pipelineCounters r)"
  "st_pipelineTargetRefs (erase ps r) = filter (\<lambda>(policy, refs). policy \<notin> ps) (st_pipelineTargetRefs r)"
  "st_protoCache (erase ps r) = st_protoCache r"
  by (simp_all add: erase_def)

lemma erase_erase: "erase ps (erase qs r) = erase (qs \<union> ps) r"
  unfolding erase_def by (simp add: case_prod_unfold)

lemma erase_empty [simp]: "erase {} r = r"
  by (simp add: erase_def case_prod_unfold)

lemma gm_delete_phases:
  "gm_delete (policy, PipelinePhaseResponse) (gm_delete (policy, PipelinePhaseRequest) m) =
     filter (\<lambda>(key, v). fst key \<notin> {policy}) m"
  unfolding gm_delete_def by (induction m) (auto, (metis PipelinePhase.exhaust)+)

lemma ClearPipelineActions_erase:
  "fst (ClearPipelineActions policy r) = r\<lparr>
     st_pipelineActions := filter (\<lambda>(key, actions). fst key \<notin> {policy}) (st_pipelineActions r),
     st_pipelineCounters := filter (\<lambda>(key, n). fst key \<notin> {policy}) (st_pipelineCounters r),
     st_pipelineTargetRefs := filter (\<lambda>(p, refs). p \<notin> {policy}) (st_pipelineTargetRefs r)\<rparr>"
  by (simp add: ClearPipelineActions_def ClearPipelinePhase_def gm_delete_phases [simplified])
     (simp add: gm_delete_def)

lemma clearOne_erase:
  "fst (clearOne policy (r, counts, ups)) = erase {policy} r \<and>
   snd (snd (clearOne policy (r, counts, ups))) =
     ups @ map snd (filter (\<lambda>(key, entry). uk_Policy key = policy) (st_registeredUpstreams r))"
  by (simp add: clearOne_def Let_def case_prod_unfold ClearPipelineActions_erase erase_def)

lemma foldl_clearOne:
  "fst (foldl (\<lambda>acc policy. clearOne policy acc) (r, counts, ups) ps) = erase (set ps) r \<and>
   set (snd (snd (foldl (\<lambda>acc policy. clearOne policy acc) (r, counts, ups) ps))) =
     set ups \<union> {entry. \<exists>key. (key, entry) \<in> set (st_registeredUpstreams r) \<and> uk_Policy key \<in> set ps}"
proof (induction ps arbitrary: r counts ups)
  case (Cons p ps)
  obtain r' counts' ups' where c: "clearOne p (r, counts, ups) = (r', counts', ups')"
    by (metis prod_cases3)
  then have r': "r' = erase {p} r" and
    ups': "set ups' = set ups \<union> {entry. \<exists>key. (key, entry) \<in> set (st_registeredUpstreams r) \<and> uk_Policy key = p}"
    using clearOne_erase [of p r counts ups] by force+
  show ?case using Cons.IH [of r' counts' ups'] by (auto simp: c r' ups' erase_erase)
qed simp

definition referenced :: "ProtoCacheKey \<Rightarrow> ('ast, 'val) RegisteredDataStore \<Rightarrow> bool" where
  "referenced k r \<longleftrightarrow> (\<exists>e\<in>set (st_registeredUpstreams r). cacheKeyOf (snd e) = k)"

lemma referenced_cache: "referenced k (r\<lparr>st_protoCache := c\<rparr>) = referenced k r"
  by (simp add: referenced_def)

definition usedBy :: "ResourceID set \<Rightarrow> ProtoCacheKey \<Rightarrow> ('ast, 'val) RegisteredDataStore \<Rightarrow> bool" where
  "usedBy ps k r \<longleftrightarrow> (\<exists>e\<in>set (st_registeredUpstreams r). uk_Policy (fst e) \<in> ps \<and> cacheKeyOf (snd e) = k)"

lemma dropUnreferenced_eq:
  "dropUnreferenced r u = (if referenced (cacheKeyOf u) r then r
     else r\<lparr>st_protoCache := fst (ProtoCache_Delete (cacheKeyOf u) (st_protoCache r))\<rparr>)"
  unfolding dropUnreferenced_def Let_def referenced_def cacheKeyOf_def list_ex_iff by auto

lemma foldl_dropUnreferenced:
  "foldl dropUnreferenced r us = r\<lparr>st_protoCache := st_protoCache (foldl dropUnreferenced r us)\<rparr> \<and>
   map_of (st_protoCache (foldl dropUnreferenced r us)) k =
     (if k \<in> cacheKeyOf ` set us \<and> \<not> referenced k r then None else map_of (st_protoCache r) k) \<and>
   (gm_wf (st_protoCache r) \<longrightarrow> gm_wf (st_protoCache (foldl dropUnreferenced r us)))"
proof (induction us arbitrary: r)
  case (Cons u us)
  let ?r = "dropUnreferenced r u"
  have r: "?r = r\<lparr>st_protoCache := st_protoCache ?r\<rparr>" and ref: "referenced k ?r = referenced k r"
    and m: "map_of (st_protoCache ?r) k = (if k = cacheKeyOf u \<and> \<not> referenced k r then None else map_of (st_protoCache r) k)"
    and wf: "gm_wf (st_protoCache r) \<longrightarrow> gm_wf (st_protoCache ?r)"
    by (auto simp: dropUnreferenced_eq referenced_def ProtoCache_Delete_def)
  then have "foldl dropUnreferenced r (u # us) = r\<lparr>st_protoCache := st_protoCache (foldl dropUnreferenced r (u # us))\<rparr>"
    using Cons.IH [of ?r] by (metis (no_types, lifting) RegisteredDataStore.update_convs(4) RegisteredDataStore.surjective foldl_Cons)
  with Cons.IH [of ?r] ref m wf show ?case by auto
qed simp


text \<open>What the counters count: the entries that left each table.\<close>

definition actionTotal :: "('ast, 'val) RegisteredDataStore \<Rightarrow> nat" where
  "actionTotal r = sum_list (map (\<lambda>(key, actions). length actions) (st_pipelineActions r))"

lemma gm_delete_total:
  "gm_wf m \<Longrightarrow> length (Deref (map_of m k) []) + sum_list (map (\<lambda>(key, xs). length xs) (gm_delete k m)) =
    sum_list (map (\<lambda>(key, xs). length xs) m)"
proof (induction m)
  case (Cons e m)
  obtain k' xs where e: "e = (k', xs)" by fastforce
  show ?case
  proof (cases "k' = k")
    case True
    with Cons.prems e have "gm_delete k m = m" by (force simp: gm_delete_def filter_id_conv)
    with True e show ?thesis by (simp add: gm_delete_def)
  next
    case False
    with Cons e show ?thesis by (simp add: gm_delete_def)
  qed
qed (simp add: gm_delete_def)

lemma ClearPipelineActions_total:
  assumes "gm_wf (st_pipelineActions r)"
  shows "snd (ClearPipelineActions policy r) + actionTotal (fst (ClearPipelineActions policy r)) = actionTotal r"
proof -
  let ?m = "st_pipelineActions r" and ?q = "(policy, PipelinePhaseRequest)" and ?s = "(policy, PipelinePhaseResponse)"
  have "length (Deref (map_of (gm_delete ?q ?m) ?s) []) + sum_list (map (\<lambda>(key, xs). length xs) (gm_delete ?s (gm_delete ?q ?m))) =
    sum_list (map (\<lambda>(key, xs). length xs) (gm_delete ?q ?m))"
    using assms by (intro gm_delete_total) simp
  moreover have "length (Deref (map_of ?m ?q) []) + sum_list (map (\<lambda>(key, xs). length xs) (gm_delete ?q ?m)) =
    sum_list (map (\<lambda>(key, xs). length xs) ?m)"
    using assms by (rule gm_delete_total)
  ultimately show ?thesis
    by (simp add: ClearPipelineActions_def ClearPipelinePhase_def actionTotal_def actionsAt_def)
qed

lemma length_filter_split: "length (filter (\<lambda>(k, v). f k = p) m) + length (filter (\<lambda>(k, v). f k \<noteq> p) m) = length m"
  using sum_length_filter_compl [of "\<lambda>(k, v). f k = p" m] by (simp add: case_prod_unfold)

lemma clearOne_counts:
  assumes "gm_wf (st_pipelineActions r)" and "clearOne p (r, counts, ups) = (r', counts', ups')"
  shows "cnt_Mutators counts' + length (st_dataProviders r') = cnt_Mutators counts + length (st_dataProviders r) \<and>
    cnt_Subscriptions counts' + length (st_subscriptions r') = cnt_Subscriptions counts + length (st_subscriptions r) \<and>
    cnt_Upstreams counts' + length (st_registeredUpstreams r') = cnt_Upstreams counts + length (st_registeredUpstreams r) \<and>
    cnt_PipelineActions counts' + actionTotal r' = cnt_PipelineActions counts + actionTotal r"
proof -
  let ?r = "r\<lparr>st_dataProviders := filter (\<lambda>(key, entry). dk_Policy key \<noteq> p) (st_dataProviders r),
     st_subscriptions := filter (\<lambda>(key, sub). sk_Policy key \<noteq> p) (st_subscriptions r),
     st_registeredUpstreams := filter (\<lambda>(key, entry). uk_Policy key \<noteq> p) (st_registeredUpstreams r)\<rparr>"
  have "snd (ClearPipelineActions p ?r) + actionTotal (fst (ClearPipelineActions p ?r)) = actionTotal ?r"
    using assms(1) by (intro ClearPipelineActions_total) simp
  moreover have "actionTotal ?r = actionTotal r" by (simp add: actionTotal_def)
  ultimately show ?thesis
    using assms(2) length_filter_split [of dk_Policy p "st_dataProviders r"]
      length_filter_split [of sk_Policy p "st_subscriptions r"]
      length_filter_split [of uk_Policy p "st_registeredUpstreams r"]
    by (auto simp: clearOne_def Let_def case_prod_unfold ClearPipelineActions_erase)
qed

lemma foldl_clearOne_counts:
  assumes "gm_wf (st_pipelineActions r)"
    and "foldl (\<lambda>acc policy. clearOne policy acc) (r, counts, ups) ps = (r', counts', ups')"
  shows "cnt_Mutators counts' + length (st_dataProviders r') = cnt_Mutators counts + length (st_dataProviders r) \<and>
    cnt_Subscriptions counts' + length (st_subscriptions r') = cnt_Subscriptions counts + length (st_subscriptions r) \<and>
    cnt_Upstreams counts' + length (st_registeredUpstreams r') = cnt_Upstreams counts + length (st_registeredUpstreams r) \<and>
    cnt_PipelineActions counts' + actionTotal r' = cnt_PipelineActions counts + actionTotal r"
  using assms
proof (induction ps arbitrary: r counts ups)
  case (Cons p ps)
  obtain r1 counts1 ups1 where c: "clearOne p (r, counts, ups) = (r1, counts1, ups1)"
    by (metis prod_cases3)
  have "r1 = erase {p} r" using clearOne_erase [of p r counts ups] c by simp
  then have "gm_wf (st_pipelineActions r1)" using Cons.prems(1) by simp
  from Cons.IH [OF this, of counts1 ups1] Cons.prems(2) c clearOne_counts [OF Cons.prems(1) c] show ?case by simp
qed simp

section \<open>The invariant\<close>

text \<open>
  Keys are unique; a pipeline's counter is the number of its actions, which are numbered in
  order; a policy has no empty list of targets; a policy has one upstream per name; and the
  descriptors of every registered upstream are in the cache.
\<close>

definition store_wf :: "('ast, 'val) RegisteredDataStore \<Rightarrow> bool" where
  "store_wf r \<longleftrightarrow> gm_wf (st_dataProviders r) \<and> gm_wf (st_subscriptions r) \<and> gm_wf (st_registeredUpstreams r) \<and>
     gm_wf (st_protoCache r) \<and> gm_wf (st_pipelineActions r) \<and> gm_wf (st_pipelineCounters r) \<and>
     gm_wf (st_pipelineTargetRefs r)"

definition pipelines_numbered :: "('ast, 'val) RegisteredDataStore \<Rightarrow> bool" where
  "pipelines_numbered r \<longleftrightarrow> (\<forall>key. counterAt key r = length (actionsAt key r) \<and>
     map pa_Index (actionsAt key r) = [0..<length (actionsAt key r)])"

definition targets_nonempty :: "('ast, 'val) RegisteredDataStore \<Rightarrow> bool" where
  "targets_nonempty r \<longleftrightarrow> list_all (\<lambda>(policy, refs). refs \<noteq> []) (st_pipelineTargetRefs r)"

definition names_unique :: "('ast, 'val) RegisteredDataStore \<Rightarrow> bool" where
  "names_unique r \<longleftrightarrow> (\<forall>e\<in>set (st_registeredUpstreams r). \<forall>f\<in>set (st_registeredUpstreams r).
     uk_Policy (fst e) = uk_Policy (fst f) \<and> uk_Name (fst e) = uk_Name (fst f) \<longrightarrow> fst e = fst f)"

definition descriptors_cached :: "('ast, 'val) RegisteredDataStore \<Rightarrow> bool" where
  "descriptors_cached r \<longleftrightarrow>
     list_all (\<lambda>(key, entry). map_of (st_protoCache r) (cacheKeyOf entry) \<noteq> None) (st_registeredUpstreams r)"

definition store_inv :: "('ast, 'val) RegisteredDataStore \<Rightarrow> bool" where
  "store_inv r \<longleftrightarrow> store_wf r \<and> pipelines_numbered r \<and> targets_nonempty r \<and> names_unique r \<and> descriptors_cached r"

lemmas store_inv_defs = store_inv_def store_wf_def pipelines_numbered_def targets_nonempty_def
  names_unique_def descriptors_cached_def actionsAt_def counterAt_def

lemma ClearPolicyData_erase:
  "fst (ClearPolicyData ps r) = (erase (set ps) r)\<lparr>st_protoCache := st_protoCache (fst (ClearPolicyData ps r))\<rparr>"
proof (cases "ps = []")
  case False
  obtain r' counts ups where c: "foldl (\<lambda>acc policy. clearOne policy acc) (r, noCounts, []) ps = (r', counts, ups)"
    by (metis prod_cases3)
  then have "r' = erase (set ps) r" using foldl_clearOne [of r noCounts "[]" ps] by simp
  with c False foldl_dropUnreferenced [of r' ups] show ?thesis by (simp add: ClearPolicyData_def)
qed (simp add: ClearPolicyData_def)

lemma ClearPolicyData_cache:
  "map_of (st_protoCache (fst (ClearPolicyData ps r))) k =
     (if usedBy (set ps) k r \<and> \<not> referenced k (erase (set ps) r) then None else map_of (st_protoCache r) k) \<and>
   (gm_wf (st_protoCache r) \<longrightarrow> gm_wf (st_protoCache (fst (ClearPolicyData ps r))))"
proof (cases "ps = []")
  case False
  obtain r' counts ups where c: "foldl (\<lambda>acc policy. clearOne policy acc) (r, noCounts, []) ps = (r', counts, ups)"
    by (metis prod_cases3)
  then have r': "r' = erase (set ps) r" and
    ups: "set ups = {entry. \<exists>key. (key, entry) \<in> set (st_registeredUpstreams r) \<and> uk_Policy key \<in> set ps}"
    using foldl_clearOne [of r noCounts "[]" ps] by simp_all
  have "k \<in> cacheKeyOf ` set ups \<longleftrightarrow> usedBy (set ps) k r"
    by (force simp: ups usedBy_def)
  with c False foldl_dropUnreferenced [of r' ups k] r' show ?thesis by (simp add: ClearPolicyData_def)
qed (simp add: ClearPolicyData_def usedBy_def)


lemma ClearPolicyData_counts:
  assumes "gm_wf (st_pipelineActions r)" and "ClearPolicyData ps r = (r', counts)"
  shows "cnt_Mutators counts + length (st_dataProviders r') = length (st_dataProviders r) \<and>
    cnt_Subscriptions counts + length (st_subscriptions r') = length (st_subscriptions r) \<and>
    cnt_Upstreams counts + length (st_registeredUpstreams r') = length (st_registeredUpstreams r) \<and>
    cnt_PipelineActions counts + actionTotal r' = actionTotal r"
proof (cases "ps = []")
  case False
  obtain r1 ups where c: "foldl (\<lambda>acc policy. clearOne policy acc) (r, noCounts, []) ps = (r1, counts, ups)"
    and r': "r' = foldl dropUnreferenced r1 ups"
    using assms(2) False by (auto simp: ClearPolicyData_def split: prod.splits)
  have "r' = r1\<lparr>st_protoCache := st_protoCache r'\<rparr>" using foldl_dropUnreferenced [of r1 ups] r' by simp
  then have "st_dataProviders r' = st_dataProviders r1" "st_subscriptions r' = st_subscriptions r1"
    "st_registeredUpstreams r' = st_registeredUpstreams r1" "actionTotal r' = actionTotal r1"
    by (metis RegisteredDataStore.ext_inject RegisteredDataStore.surjective RegisteredDataStore.update_convs(4) actionTotal_def)+
  with foldl_clearOne_counts [OF assms(1) c] show ?thesis by (simp add: noCounts_def)
qed (use assms in \<open>auto simp: ClearPolicyData_def noCounts_def\<close>)

section \<open>Pipelines, operation by operation\<close>

lemma appendLoop_frame [simp]:
  "st_dataProviders (appendLoop key i actions r) = st_dataProviders r"
  "st_subscriptions (appendLoop key i actions r) = st_subscriptions r"
  "st_registeredUpstreams (appendLoop key i actions r) = st_registeredUpstreams r"
  "st_protoCache (appendLoop key i actions r) = st_protoCache r"
  "st_pipelineCounters (appendLoop key i actions r) = st_pipelineCounters r"
  "st_pipelineTargetRefs (appendLoop key i actions r) = st_pipelineTargetRefs r"
  by (induction key i actions r rule: appendLoop.induct) auto

lemma actionsAt_gm_set [simp]:
  "actionsAt k (r\<lparr>st_pipelineActions := gm_set key v (st_pipelineActions r)\<rparr>) = (if k = key then v else actionsAt k r)"
  by (simp add: actionsAt_def)

lemma appendLoop_at:
  "gm_wf (st_pipelineActions r) \<Longrightarrow> gm_wf (st_pipelineActions (appendLoop key i actions r)) \<and>
   actionsAt k (appendLoop key i actions r) = (if k = key
     then actionsAt key r @ map (\<lambda>(j, action). action\<lparr>pa_Index := j\<rparr>) (zip [i..<i + length actions] actions)
     else actionsAt k r)"
proof (induction key i actions r rule: appendLoop.induct)
  case (2 key i action actions r)
  then have "gm_wf (st_pipelineActions (r\<lparr>st_pipelineActions := gm_set key (actionsAt key r @ [action\<lparr>pa_Index := i\<rparr>]) (st_pipelineActions r)\<rparr>))"
    by simp
  from "2.IH" [OF this] show ?case by (simp add: upt_conv_Cons del: upt_Suc)
qed simp

lemma map_index_zip: "n = length xs \<Longrightarrow> map pa_Index (map (\<lambda>(j, a). a\<lparr>pa_Index := j\<rparr>) (zip [i..<i + n] xs)) = [i..<i + n]"
  by (simp add: case_prod_unfold comp_def map_fst_zip [unfolded comp_def])

lemma reindex_index: "map pa_Index (reindex es) = [0..<length es]"
  using map_index_zip [of "length es" es 0] by (simp add: reindex_def)

lemma length_reindex [simp]: "length (reindex es) = length es"
  by (simp add: reindex_def)

lemma map_entry_reindex [simp]: "map pa_Entry (reindex es) = map pa_Entry es"
proof -
  have "map (pa_Entry \<circ> (\<lambda>(j, a). a\<lparr>pa_Index := j\<rparr>)) (zip [i..<i + length es] es) = map pa_Entry es" for i
    by (induction es arbitrary: i) (auto simp: upt_conv_Cons simp del: upt_Suc, metis add_Suc)
  from this [of 0] show ?thesis by (simp add: reindex_def)
qed

lemma groupEntries_snoc:
  "groupEntries (es @ [e]) = (case entryPhase e of None \<Rightarrow> groupEntries es
     | Some phase \<Rightarrow> gm_set phase (Deref (map_of (groupEntries es) phase) [] @ [e]) (groupEntries es))"
  by (cases "entryPhase e") (simp_all add: groupEntries_def)

lemma groupEntries_spec:
  "gm_wf (groupEntries es) \<and> map_of (groupEntries es) phase =
     (let mine = filter (\<lambda>e. entryPhase e = Some phase) es in if mine = [] then None else Some mine)"
proof (induction es rule: rev_induct)
  case Nil
  then show ?case by (simp add: groupEntries_def)
next
  case (snoc e es)
  then show ?case
    by (cases "entryPhase e") (auto simp: groupEntries_snoc Let_def)
qed

lemma foldl_store_phases:
  "foldl (\<lambda>r (phase, es). r\<lparr>st_pipelineActions := gm_set (policy, phase) (f es) (st_pipelineActions r),
       st_pipelineCounters := gm_set (policy, phase) (g es) (st_pipelineCounters r)\<rparr>) r m =
   r\<lparr>st_pipelineActions := foldl (\<lambda>t (phase, es). gm_set (policy, phase) (f es) t) (st_pipelineActions r) m,
     st_pipelineCounters := foldl (\<lambda>t (phase, es). gm_set (policy, phase) (g es) t) (st_pipelineCounters r) m\<rparr>"
  by (induction m arbitrary: r) auto

lemma foldl_phases:
  "gm_wf m \<Longrightarrow> map_of (foldl (\<lambda>t (phase, es). gm_set (policy, phase) (f es) t) t0 m) (p, ph) =
     (case (if p = policy then map_of m ph else None) of Some es \<Rightarrow> Some (f es) | None \<Rightarrow> map_of t0 (p, ph))"
proof (induction m arbitrary: t0)
  case (Cons e m)
  obtain ph' es where e: "e = (ph', es)" by fastforce
  have "ph' = ph \<Longrightarrow> map_of m ph = None" using Cons.prems e by (simp add: map_of_eq_None_iff)
  with Cons e show ?case by (auto split: option.splits)
qed simp

lemma foldl_phases_wf: "gm_wf t0 \<Longrightarrow> gm_wf (foldl (\<lambda>t (phase, es). gm_set (policy, phase) (f es) t) t0 m)"
  by (induction m arbitrary: t0) auto

definition phaseEntries :: "PipelinePhase \<Rightarrow> PipelineActionEntry list \<Rightarrow> PipelineActionEntry list" where
  "phaseEntries phase entries = reindex (filter (\<lambda>e. entryPhase e = Some phase) entries)"

lemma ReplacePipelineActions_frame:
  "fst (ReplacePipelineActions policy entries r) = r\<lparr>
     st_pipelineActions := st_pipelineActions (fst (ReplacePipelineActions policy entries r)),
     st_pipelineCounters := st_pipelineCounters (fst (ReplacePipelineActions policy entries r))\<rparr>"
  by (simp add: ReplacePipelineActions_def ClearPipelinePhase_def foldl_store_phases split: option.splits)

lemma ReplacePipelineActions_at:
  assumes "checkEntries 0 entries = None"
  shows "actionsAt (p, ph) (fst (ReplacePipelineActions policy entries r)) =
      (if p = policy then phaseEntries ph entries else actionsAt (p, ph) r)"
    and "counterAt (p, ph) (fst (ReplacePipelineActions policy entries r)) =
      (if p = policy then length (phaseEntries ph entries) else counterAt (p, ph) r)"
proof -
  have g: "gm_wf (groupEntries entries)" "map_of (groupEntries entries) ph =
     (let mine = filter (\<lambda>e. entryPhase e = Some ph) entries in if mine = [] then None else Some mine)"
    using groupEntries_spec by blast+
  have cleared: "p = policy \<Longrightarrow> map_of (gm_delete (policy, PipelinePhaseResponse) (gm_delete (policy, PipelinePhaseRequest) m)) (p, ph) = None"
    "p \<noteq> policy \<Longrightarrow> map_of (gm_delete (policy, PipelinePhaseResponse) (gm_delete (policy, PipelinePhaseRequest) m)) (p, ph) = map_of m (p, ph)" for m :: "(pipelineKey, 'x) gomap"
    by (cases ph; simp)+
  show "actionsAt (p, ph) (fst (ReplacePipelineActions policy entries r)) =
      (if p = policy then phaseEntries ph entries else actionsAt (p, ph) r)"
    using assms g by (cases ph) (auto simp: ReplacePipelineActions_def ClearPipelinePhase_def foldl_store_phases actionsAt_def
      foldl_phases cleared phaseEntries_def reindex_def Let_def)
  show "counterAt (p, ph) (fst (ReplacePipelineActions policy entries r)) =
      (if p = policy then length (phaseEntries ph entries) else counterAt (p, ph) r)"
    using assms g by (cases ph) (auto simp: ReplacePipelineActions_def ClearPipelinePhase_def foldl_store_phases counterAt_def
      foldl_phases cleared phaseEntries_def Let_def)
qed

lemma ReplacePipelineActions_wf:
  "gm_wf (st_pipelineActions r) \<Longrightarrow> gm_wf (st_pipelineActions (fst (ReplacePipelineActions policy entries r)))"
  "gm_wf (st_pipelineCounters r) \<Longrightarrow> gm_wf (st_pipelineCounters (fst (ReplacePipelineActions policy entries r)))"
  by (auto simp: ReplacePipelineActions_def ClearPipelinePhase_def foldl_store_phases foldl_phases_wf split: option.splits)


section \<open>Steps\<close>

text \<open>
  The operations that change the store.  \<open>SetUpstream\<close> is left out: nothing in the operator calls
  it, and it does not check the name (see \<open>SetUpstream_breaks_names\<close>).
\<close>

inductive store_step :: "('ast, 'val) RegisteredDataStore \<Rightarrow> ('ast, 'val) RegisteredDataStore \<Rightarrow> bool" where
  set_data: "store_step r (Store_Set policy locator domain binding entry r)"
| delete_data: "store_step r (fst (Store_Delete policy locator domain binding r))"
| set_subscription: "store_step r (SetSubscription policy expression sub r)"
| update_subscription: "store_step r (fst (UpdateSubscriptionValue policy expression v r))"
| delete_subscription: "store_step r (fst (DeleteSubscription policy expression r))"
| set_upstream: "store_step r (fst (SetUpstreamIfNameAvailable key upstream fds r))"
| delete_upstream: "store_step r (fst (DeleteUpstream key r))"
| append_actions: "store_step r (fst (AppendPipelineActions policy phase actions r))"
| clear_phase: "store_step r (ClearPipelinePhase policy phase r)"
| replace_actions: "store_step r (fst (ReplacePipelineActions policy entries r))"
| clear_actions: "store_step r (fst (ClearPipelineActions policy r))"
| set_targets: "store_step r (SetPipelineTargetRefs policy refs r)"
| clear_policies: "store_step r (fst (ClearPolicyData policies r))"
| prune: "store_step r (fst (PruneToOwned kind owned r))"

text \<open>Operations that leave the upstreams, the cache or the pipelines alone keep what is said of them.\<close>

lemma upstreams_frame:
  assumes "st_registeredUpstreams r' = st_registeredUpstreams r" and "st_protoCache r' = st_protoCache r"
  shows "names_unique r' = names_unique r" and "descriptors_cached r' = descriptors_cached r"
  using assms by (simp_all add: names_unique_def descriptors_cached_def)

lemma pipelines_frame:
  assumes "st_pipelineActions r' = st_pipelineActions r" and "st_pipelineCounters r' = st_pipelineCounters r"
  shows "pipelines_numbered r' = pipelines_numbered r"
  using assms by (simp add: pipelines_numbered_def actionsAt_def counterAt_def)

lemma targets_frame:
  "st_pipelineTargetRefs r' = st_pipelineTargetRefs r \<Longrightarrow> targets_nonempty r' = targets_nonempty r"
  by (simp add: targets_nonempty_def)

lemmas store_frames = upstreams_frame pipelines_frame targets_frame

lemma store_inv_tables:
  assumes "store_inv r" and "st_registeredUpstreams r' = st_registeredUpstreams r" and "st_protoCache r' = st_protoCache r"
    and "st_pipelineActions r' = st_pipelineActions r" and "st_pipelineCounters r' = st_pipelineCounters r"
    and "st_pipelineTargetRefs r' = st_pipelineTargetRefs r" and "gm_wf (st_dataProviders r')" and "gm_wf (st_subscriptions r')"
  shows "store_inv r'"
  using assms store_frames [of r' r] by (simp add: store_inv_def store_wf_def)

lemma names_unique_keys:
  "names_unique r \<longleftrightarrow> (\<forall>k\<in>fst ` set (st_registeredUpstreams r). \<forall>l\<in>fst ` set (st_registeredUpstreams r).
     uk_Policy k = uk_Policy l \<and> uk_Name k = uk_Name l \<longrightarrow> k = l)"
  by (simp add: names_unique_def)

lemma store_inv_set_upstream:
  assumes "store_inv r"
  shows "store_inv (fst (SetUpstreamIfNameAvailable key entry fds r))"
proof (cases "IsUpstreamNameTaken key r")
  case True
  with assms show ?thesis by (simp add: SetUpstreamIfNameAvailable_def IsUpstreamNameTaken_def)
next
  case False
  let ?r = "r\<lparr>st_registeredUpstreams := gm_set key entry (st_registeredUpstreams r),
     st_protoCache := ProtoCache_Set (cacheKeyOf entry) fds (st_protoCache r)\<rparr>"
  have free: "\<forall>e\<in>set (st_registeredUpstreams r). uk_Policy (fst e) = uk_Policy key \<and> uk_Name (fst e) = uk_Name key \<longrightarrow> fst e = key"
    using False by (auto simp: IsUpstreamNameTaken_def list_ex_iff)
  have wf: "store_wf ?r" using assms by (simp add: store_inv_def store_wf_def ProtoCache_Set_def)
  moreover have "names_unique ?r"
    using assms free unfolding store_inv_def names_unique_keys
    by (auto simp: fst_set_gm_set)
  moreover have "list_all (\<lambda>(key, entry). map_of (st_protoCache ?r) (cacheKeyOf entry) \<noteq> None) (st_registeredUpstreams r)"
    using assms by (auto simp: store_inv_def descriptors_cached_def list_all_iff ProtoCache_Set_def)
  then have "list_all (\<lambda>(key, entry). map_of (st_protoCache ?r) (cacheKeyOf entry) \<noteq> None)
      (gm_set key entry (st_registeredUpstreams r))"
    by (rule list_all_gm_set) (simp add: ProtoCache_Set_def)
  then have "descriptors_cached ?r" by (simp add: descriptors_cached_def)
  ultimately have "store_inv ?r"
    using assms pipelines_frame [of ?r r] targets_frame [of ?r r] by (simp add: store_inv_def)
  with False show ?thesis by (simp add: SetUpstreamIfNameAvailable_def IsUpstreamNameTaken_def)
qed

lemma store_inv_delete_upstream: "store_inv r \<Longrightarrow> store_inv (fst (DeleteUpstream key r))"
  using pipelines_frame [of "fst (DeleteUpstream key r)" r] targets_frame [of "fst (DeleteUpstream key r)" r]
  by (auto simp: DeleteUpstream_def store_inv_def store_wf_def names_unique_def descriptors_cached_def
      set_gm_delete list_all_iff)

lemma store_inv_append: "store_inv r \<Longrightarrow> store_inv (fst (AppendPipelineActions policy phase actions r))"
proof -
  assume inv: "store_inv r"
  let ?k = "(policy, phase)" and ?r = "fst (AppendPipelineActions policy phase actions r)"
  have wf: "gm_wf (st_pipelineActions r)" using inv by (simp add: store_inv_def store_wf_def)
  have n: "counterAt k r = length (actionsAt k r)" "map pa_Index (actionsAt k r) = [0..<length (actionsAt k r)]" for k
    using inv unfolding store_inv_def pipelines_numbered_def by blast+
  have at: "actionsAt k ?r = (if k = ?k then actionsAt ?k r @
      map (\<lambda>(j, a). a\<lparr>pa_Index := j\<rparr>) (zip [counterAt ?k r..<counterAt ?k r + length actions] actions) else actionsAt k r)" for k
    using appendLoop_at [OF wf, of ?k "counterAt ?k r" actions k]
    by (simp add: AppendPipelineActions_def Let_def actionsAt_def)
  have "counterAt k ?r = (if k = ?k then counterAt ?k r + length actions else counterAt k r)" for k
    by (simp add: AppendPipelineActions_def Let_def counterAt_def)
  then have "counterAt k ?r = length (actionsAt k ?r)" for k using n(1) by (simp add: at)
  moreover have "map pa_Index (actionsAt k ?r) = [0..<length (actionsAt k ?r)]" for k
    using n map_index_zip [of "length actions" actions "counterAt ?k r"] by (simp add: at upt_add_eq_append [symmetric])
  ultimately have "pipelines_numbered ?r" by (simp add: pipelines_numbered_def)
  moreover have "store_wf ?r" using inv appendLoop_at [OF wf, of ?k "counterAt ?k r" actions]
    by (simp add: store_inv_def store_wf_def AppendPipelineActions_def Let_def)
  ultimately show ?thesis using inv upstreams_frame [of ?r r] targets_frame [of ?r r]
    by (simp add: store_inv_def AppendPipelineActions_def Let_def)
qed

lemma store_inv_clear_phase: "store_inv r \<Longrightarrow> store_inv (ClearPipelinePhase policy phase r)"
  using upstreams_frame [of "ClearPipelinePhase policy phase r" r] targets_frame [of "ClearPipelinePhase policy phase r" r]
  by (auto simp: ClearPipelinePhase_def store_inv_def store_wf_def pipelines_numbered_def actionsAt_def counterAt_def)

lemma store_inv_replace: "store_inv r \<Longrightarrow> store_inv (fst (ReplacePipelineActions policy entries r))"
proof (cases "checkEntries 0 entries")
  case None
  assume inv: "store_inv r"
  let ?r = "fst (ReplacePipelineActions policy entries r)"
  have fields: "st_dataProviders ?r = st_dataProviders r" "st_subscriptions ?r = st_subscriptions r"
    "st_registeredUpstreams ?r = st_registeredUpstreams r" "st_protoCache ?r = st_protoCache r"
    "st_pipelineTargetRefs ?r = st_pipelineTargetRefs r"
    by (subst ReplacePipelineActions_frame, simp)+
  have "counterAt k r = length (actionsAt k r)" "map pa_Index (actionsAt k r) = [0..<length (actionsAt k r)]" for k
    using inv unfolding store_inv_def pipelines_numbered_def by blast+
  then have "pipelines_numbered ?r"
    by (auto simp: pipelines_numbered_def ReplacePipelineActions_at [OF None] phaseEntries_def reindex_index)
  with inv fields store_frames [of ?r r] ReplacePipelineActions_wf [of r] show ?thesis
    by (simp add: store_inv_def store_wf_def)
qed (simp add: ReplacePipelineActions_def)

lemma filter_at: "gm_wf m \<Longrightarrow> Deref (map_of (filter (\<lambda>(k, v). P k) m) k) d = (if P k then Deref (map_of m k) d else d)"
  by (simp add: map_of_filter_wf split: option.splits)

lemma store_inv_erase:
  assumes "store_inv r" and "gm_wf c" and "\<And>e. e \<in> set (st_registeredUpstreams (erase ps r)) \<Longrightarrow> map_of c (cacheKeyOf (snd e)) \<noteq> None"
  shows "store_inv ((erase ps r)\<lparr>st_protoCache := c\<rparr>)"
  using assms
  by (auto simp: store_inv_def store_wf_def pipelines_numbered_def actionsAt_def counterAt_def filter_at
      targets_nonempty_def names_unique_def descriptors_cached_def list_all_iff)

lemma store_inv_clear_policies: "store_inv r \<Longrightarrow> store_inv (fst (ClearPolicyData ps r))"
proof -
  assume inv: "store_inv r"
  let ?c = "st_protoCache (fst (ClearPolicyData ps r))"
  have "map_of ?c (cacheKeyOf (snd e)) \<noteq> None" if e: "e \<in> set (st_registeredUpstreams (erase (set ps) r))" for e
  proof -
    have "referenced (cacheKeyOf (snd e)) (erase (set ps) r)" unfolding referenced_def using e by blast
    then have "map_of ?c (cacheKeyOf (snd e)) = map_of (st_protoCache r) (cacheKeyOf (snd e))"
      using ClearPolicyData_cache by metis
    then show ?thesis using inv e by (auto simp: store_inv_def descriptors_cached_def list_all_iff)
  qed
  moreover have "gm_wf ?c" using inv ClearPolicyData_cache by (auto simp: store_inv_def store_wf_def)
  ultimately show ?thesis
    using store_inv_erase [OF inv, of ?c "set ps"] ClearPolicyData_erase [of ps r] by simp
qed


lemma store_inv_step: "store_step r r' \<Longrightarrow> store_inv r \<Longrightarrow> store_inv r'"
proof (induction rule: store_step.induct)
  case (set_data r policy locator domain binding entry)
  then show ?case by (rule store_inv_tables) (use set_data in \<open>simp_all add: Store_Set_def store_inv_def store_wf_def\<close>)
next
  case (delete_data r policy locator domain binding)
  then show ?case by (rule store_inv_tables) (use delete_data in \<open>simp_all add: Store_Delete_def Let_def store_inv_def store_wf_def\<close>)
next
  case (set_subscription r policy expression sub)
  then show ?case by (rule store_inv_tables) (use set_subscription in \<open>simp_all add: SetSubscription_def store_inv_def store_wf_def\<close>)
next
  case (update_subscription r policy expression v)
  then show ?case
    by (rule store_inv_tables)
       (use update_subscription in \<open>simp_all add: UpdateSubscriptionValue_def store_inv_def store_wf_def split: option.splits\<close>)
next
  case (delete_subscription r policy expression)
  then show ?case by (rule store_inv_tables) (use delete_subscription in \<open>simp_all add: DeleteSubscription_def store_inv_def store_wf_def\<close>)
next
  case (clear_actions r policy)
  then show ?case
    by (auto simp: ClearPipelineActions_erase store_inv_def store_wf_def pipelines_numbered_def actionsAt_def
        counterAt_def filter_at targets_nonempty_def names_unique_def descriptors_cached_def list_all_iff)
next
  case (set_targets r policy refs)
  then show ?case
    by (auto simp: SetPipelineTargetRefs_def store_inv_def store_wf_def pipelines_numbered_def actionsAt_def counterAt_def
        targets_nonempty_def names_unique_def descriptors_cached_def gm_delete_def list_all_iff
        dest: subsetD [OF set_gm_set_subset])
next
  case (prune r kind owned)
  then show ?case by (simp add: PruneToOwned_def Let_def case_prod_unfold store_inv_clear_policies)
qed (simp_all add: store_inv_set_upstream store_inv_delete_upstream store_inv_append store_inv_clear_phase
    store_inv_replace store_inv_clear_policies)

lemma store_inv_new: "store_inv NewRegisteredDataStore"
  by (simp add: store_inv_defs NewRegisteredDataStore_def)

interpretation store: transition_system NewRegisteredDataStore store_step store_inv
  by unfold_locales (auto intro: store_inv_new store_inv_step)


section \<open>Properties\<close>

lemma GetUpstreamByName_iff:
  assumes "store_inv r"
  shows "GetUpstreamByName policy name r = Some (k, e) \<longleftrightarrow>
    uk_Policy k = policy \<and> uk_Name k = name \<and> GetUpstream k r = Some e"
proof -
  have wf: "gm_wf (st_registeredUpstreams r)" using assms by (simp add: store_inv_def store_wf_def)
  have uniq: "\<And>k e k' e'. (k, e) \<in> set (st_registeredUpstreams r) \<Longrightarrow> (k', e') \<in> set (st_registeredUpstreams r) \<Longrightarrow>
      uk_Policy k = uk_Policy k' \<Longrightarrow> uk_Name k = uk_Name k' \<Longrightarrow> k = k' \<and> e = e'"
    using assms wf unfolding store_inv_def names_unique_def by (metis eq_key_imp_eq_value fst_conv)
  have found: "\<And>k' e'. GetUpstreamByName policy name r = Some (k', e') \<Longrightarrow>
      (k', e') \<in> set (st_registeredUpstreams r) \<and> uk_Policy k' = policy \<and> uk_Name k' = name"
    unfolding GetUpstreamByName_def find_Some_iff by (auto, metis nth_mem)
  show ?thesis
  proof
    assume "GetUpstreamByName policy name r = Some (k, e)"
    with found [of k e] wf show "uk_Policy k = policy \<and> uk_Name k = name \<and> GetUpstream k r = Some e"
      by (simp add: GetUpstream_def)
  next
    assume k: "uk_Policy k = policy \<and> uk_Name k = name \<and> GetUpstream k r = Some e"
    then have mem: "(k, e) \<in> set (st_registeredUpstreams r)" by (auto simp: GetUpstream_def dest: map_of_SomeD)
    with k obtain x where x: "GetUpstreamByName policy name r = Some x"
      unfolding GetUpstreamByName_def by (cases "List.find (\<lambda>(k, entry). uk_Policy k = policy \<and> uk_Name k = name) (st_registeredUpstreams r)")
        (auto simp: find_None_iff)
    obtain k' e' where x': "x = (k', e')" by fastforce
    with x found [of k' e'] uniq [OF mem, of k' e'] k show "GetUpstreamByName policy name r = Some (k, e)" by auto
  qed
qed

text \<open>
  C30.  In every state the store can reach, a pipeline is numbered from zero without gaps and
  the next index is its length; an upstream is found under its name by exactly the key that was
  registered for the policy and the name; and the service descriptors of every registered
  upstream can be served.
\<close>

theorem store_consistent:
  assumes "store_step\<^sup>*\<^sup>* NewRegisteredDataStore r"
  shows "map pa_Index (GetPipelineActions policy phase r) = [0..<length (GetPipelineActions policy phase r)] \<and>
    snd (AppendPipelineActions policy phase actions r) = length (GetPipelineActions policy phase r) \<and>
    (GetUpstreamByName policy name r = Some (k, e) \<longleftrightarrow> uk_Policy k = policy \<and> uk_Name k = name \<and> GetUpstream k r = Some e) \<and>
    (GetUpstream k r = Some e \<longrightarrow> GetProtoDescriptor (cacheKeyOf e) r \<noteq> None)"
proof -
  have inv: "store_inv r" using assms by (rule store.inv_reachable)
  then have "GetUpstream k r = Some e \<longrightarrow> GetProtoDescriptor (cacheKeyOf e) r \<noteq> None"
    by (auto simp: store_inv_def descriptors_cached_def list_all_iff GetUpstream_def GetProtoDescriptor_def
        ProtoCache_Get_def dest!: map_of_SomeD)
  moreover have "counterAt (policy, phase) r = length (actionsAt (policy, phase) r)"
    "map pa_Index (actionsAt (policy, phase) r) = [0..<length (actionsAt (policy, phase) r)]"
    using inv unfolding store_inv_def pipelines_numbered_def by blast+
  ultimately show ?thesis using GetUpstreamByName_iff [OF inv]
    by (simp add: GetPipelineActions_def AppendPipelineActions_def Let_def)
qed

definition ex_policy :: ResourceID where
  "ex_policy = \<lparr>rid_Kind = ''ThreatPolicy'', rid_Namespace = ''ns'', rid_Name = ''p''\<rparr>"

definition ex_upstream_key :: RegisteredUpstreamKey where
  "ex_upstream_key = \<lparr>uk_Policy = ex_policy, uk_Name = ''check'', uk_URL = ''grpc://threat:80'', uk_Service = ''acme.Threat'', uk_Method = ''Check''\<rparr>"

definition ex_target :: TargetRef where
  "ex_target = \<lparr>tr_Group = ''gateway.networking.k8s.io'', tr_Kind = ''HTTPRoute'', tr_Name = ''toys'', tr_Namespace = ''ns''\<rparr>"

definition ex_upstream :: RegisteredUpstreamEntry where
  "ex_upstream = \<lparr>ue_ClusterName = ''ext-threat-80'', ue_Host = ''threat'', ue_Port = 80, ue_TargetRef = ex_target,
     ue_Service = ''acme.Threat'', ue_Method = ''Check'', ue_FailureMode = ''deny'', ue_Timeout = ''100ms'', ue_MessageTemplate = ''{}''\<rparr>"

definition ex_store :: "(nat, nat) RegisteredDataStore" where
  "ex_store = fst (SetUpstreamIfNameAvailable ex_upstream_key ex_upstream ex_fds NewRegisteredDataStore)"

lemma ex_store_reachable: "store_step\<^sup>*\<^sup>* NewRegisteredDataStore ex_store"
  unfolding ex_store_def by (rule r_into_rtranclp) (rule store_step.set_upstream)

lemma ex_store_lookup: "GetUpstream ex_upstream_key ex_store = Some ex_upstream"
  by code_simp

theorem store_consistent_witness:
  "GetUpstreamByName ex_policy ''check'' ex_store = Some (ex_upstream_key, ex_upstream) \<and>
   GetProtoDescriptor (cacheKeyOf ex_upstream) ex_store \<noteq> None"
proof -
  have "uk_Policy ex_upstream_key = ex_policy" "uk_Name ex_upstream_key = ''check''" by (simp_all add: ex_upstream_key_def)
  with store_consistent [OF ex_store_reachable, of ex_policy PipelinePhaseRequest "[]" "''check''" ex_upstream_key ex_upstream]
    ex_store_lookup show ?thesis by simp
qed

lemma map_of_policies:
  "gm_wf m \<Longrightarrow> map_of (filter (\<lambda>(k, v). P k) m) k = (if P k then map_of m k else None)"
  by (simp add: map_of_filter_wf split: option.splits)

lemma ClearPolicyData_lookups:
  assumes "store_step\<^sup>*\<^sup>* NewRegisteredDataStore r" and "ClearPolicyData ps r = (r', counts)"
  shows "Store_Get p locator domain binding r' = (if p \<in> set ps then None else Store_Get p locator domain binding r)"
    and "GetSubscription p expression r' = (if p \<in> set ps then None else GetSubscription p expression r)"
    and "GetUpstream k r' = (if uk_Policy k \<in> set ps then None else GetUpstream k r)"
    and "GetPipelineActions p phase r' = (if p \<in> set ps then [] else GetPipelineActions p phase r)"
    and "GetPipelineTargetRefs p r' = (if p \<in> set ps then [] else GetPipelineTargetRefs p r)"
proof -
  have wf: "store_wf r" using store.inv_reachable [OF assms(1)] by (simp add: store_inv_def)
  have r': "r' = (erase (set ps) r)\<lparr>st_protoCache := st_protoCache r'\<rparr>"
    using ClearPolicyData_erase [of ps r] assms(2) by simp
  show "Store_Get p locator domain binding r' = (if p \<in> set ps then None else Store_Get p locator domain binding r)"
    "GetSubscription p expression r' = (if p \<in> set ps then None else GetSubscription p expression r)"
    "GetUpstream k r' = (if uk_Policy k \<in> set ps then None else GetUpstream k r)"
    "GetPipelineActions p phase r' = (if p \<in> set ps then [] else GetPipelineActions p phase r)"
    "GetPipelineTargetRefs p r' = (if p \<in> set ps then [] else GetPipelineTargetRefs p r)"
    using wf by (subst r', simp add: store_wf_def Store_Get_def providerKey_def GetSubscription_def subKey_def GetUpstream_def
      GetPipelineActions_def actionsAt_def GetPipelineTargetRefs_def map_of_policies)+
qed

text \<open>
  C31.  Clearing policies removes everything they registered and nothing else: each lookup for a
  cleared policy fails, each lookup for another one is unchanged.  A cached descriptor goes
  exactly when a cleared upstream used it and no remaining one does.  The counts returned are
  the numbers of entries that left each table.
\<close>

theorem ClearPolicyData_isolates:
  assumes "store_step\<^sup>*\<^sup>* NewRegisteredDataStore r" and "ClearPolicyData ps r = (r', counts)"
  shows "Store_Get p locator domain binding r' = (if p \<in> set ps then None else Store_Get p locator domain binding r) \<and>
    GetSubscription p expression r' = (if p \<in> set ps then None else GetSubscription p expression r) \<and>
    GetUpstream k r' = (if uk_Policy k \<in> set ps then None else GetUpstream k r) \<and>
    GetPipelineActions p phase r' = (if p \<in> set ps then [] else GetPipelineActions p phase r) \<and>
    GetPipelineTargetRefs p r' = (if p \<in> set ps then [] else GetPipelineTargetRefs p r) \<and>
    GetProtoDescriptor c r' = (if usedBy (set ps) c r \<and> \<not> referenced c r' then None else GetProtoDescriptor c r) \<and>
    cnt_Mutators counts + length (st_dataProviders r') = length (st_dataProviders r) \<and>
    cnt_Subscriptions counts + length (st_subscriptions r') = length (st_subscriptions r) \<and>
    cnt_Upstreams counts + length (st_registeredUpstreams r') = length (st_registeredUpstreams r) \<and>
    cnt_PipelineActions counts + actionTotal r' = actionTotal r"
proof -
  have wf: "store_wf r" using store.inv_reachable [OF assms(1)] by (simp add: store_inv_def)
  have "referenced c (erase (set ps) r) = referenced c r'"
    using ClearPolicyData_erase [of ps r] assms(2) by (metis fst_conv referenced_cache)
  then have "GetProtoDescriptor c r' = (if usedBy (set ps) c r \<and> \<not> referenced c r' then None else GetProtoDescriptor c r)"
    using ClearPolicyData_cache [of ps r c] assms(2) by (simp add: GetProtoDescriptor_def ProtoCache_Get_def)
  then show ?thesis using ClearPolicyData_lookups [OF assms] ClearPolicyData_counts [OF _ assms(2)] wf
    by (simp add: store_wf_def)
qed

theorem ClearPolicyData_isolates_witness:
  "GetUpstream ex_upstream_key (fst (ClearPolicyData [ex_policy] ex_store)) = None \<and>
   GetProtoDescriptor (cacheKeyOf ex_upstream) (fst (ClearPolicyData [ex_policy] ex_store)) = None \<and>
   cnt_Upstreams (snd (ClearPolicyData [ex_policy] ex_store)) = 1"
proof -
  have e: "uk_Policy ex_upstream_key = ex_policy" "usedBy {ex_policy} (cacheKeyOf ex_upstream) ex_store"
    "\<not> referenced (cacheKeyOf ex_upstream) (fst (ClearPolicyData [ex_policy] ex_store))"
    "length (st_registeredUpstreams ex_store) = 1" "length (st_registeredUpstreams (fst (ClearPolicyData [ex_policy] ex_store))) = 0"
    unfolding usedBy_def referenced_def by code_simp+
  then show ?thesis
    using ClearPolicyData_isolates [OF ex_store_reachable prod.collapse [symmetric], where ps = "[ex_policy]" and p = ex_policy
      and k = ex_upstream_key and c = "cacheKeyOf ex_upstream"] by simp
qed

definition policiesOf :: "('ast, 'val) RegisteredDataStore \<Rightarrow> ResourceID set" where
  "policiesOf r = (dk_Policy \<circ> fst) ` set (st_dataProviders r) \<union> (sk_Policy \<circ> fst) ` set (st_subscriptions r) \<union>
     (uk_Policy \<circ> fst) ` set (st_registeredUpstreams r) \<union> (fst \<circ> fst) ` set (st_pipelineActions r) \<union>
     fst ` set (st_pipelineTargetRefs r)"

lemma foldl_collect:
  "set (foldl (\<lambda>seen p. if P p then List.insert p seen else seen) seen ps) = set seen \<union> {p \<in> set ps. P p}"
  "distinct seen \<Longrightarrow> distinct (foldl (\<lambda>seen p. if P p then List.insert p seen else seen) seen ps)"
  by (induction ps arbitrary: seen) auto

lemma PolicyIDsForKind_set:
  "set (PolicyIDsForKind kind r) = {p \<in> policiesOf r. rid_Kind p = kind}" "distinct (PolicyIDsForKind kind r)"
  unfolding PolicyIDsForKind_def policiesOf_def foldl_collect(1)
  by (auto intro: foldl_collect(2) simp del: foldl_append)

lemma image_policies:
  "(f \<circ> fst) ` set (filter (\<lambda>(k, v). f k \<notin> ps) m) = (f \<circ> fst) ` set m - ps"
  "fst ` set (filter (\<lambda>(k, v). k \<notin> qs) n) = fst ` set n - qs"
  by force+

lemma policiesOf_erase: "policiesOf (erase ps r) = policiesOf r - ps"
  unfolding policiesOf_def erase_simps image_policies by blast

lemma policiesOf_cache [simp]: "policiesOf (r\<lparr>st_protoCache := c\<rparr>) = policiesOf r"
  by (simp add: policiesOf_def)

text \<open>
  After pruning, the policies of the kind are exactly the registered ones that the
  extension owns; what owned policies and policies of other kinds registered is untouched; each
  policy is reported once; and pruning again finds nothing to do.
\<close>

theorem PruneToOwned_exact:
  assumes "store_step\<^sup>*\<^sup>* NewRegisteredDataStore r" and "PruneToOwned kind owned r = (r', stale, counts)"
  shows "set (PolicyIDsForKind kind r') = set (PolicyIDsForKind kind r) \<inter> set owned \<and>
    distinct stale \<and> set stale = set (PolicyIDsForKind kind r) - set owned \<and>
    (rid_Kind p \<noteq> kind \<or> p \<in> set owned \<longrightarrow>
      Store_Get p locator domain binding r' = Store_Get p locator domain binding r \<and>
      GetSubscription p expression r' = GetSubscription p expression r \<and>
      (uk_Policy k = p \<longrightarrow> GetUpstream k r' = GetUpstream k r) \<and>
      GetPipelineActions p phase r' = GetPipelineActions p phase r \<and>
      GetPipelineTargetRefs p r' = GetPipelineTargetRefs p r) \<and>
    PruneToOwned kind owned r' = (r', [], noCounts)"
proof -
  have stale: "stale = filter (\<lambda>policy. policy \<notin> set owned) (PolicyIDsForKind kind r)"
    and c: "ClearPolicyData stale r = (r', counts)"
    using assms(2) by (auto simp: PruneToOwned_def Let_def split: prod.splits)
  have r': "policiesOf r' = policiesOf r - set stale"
    using ClearPolicyData_erase [of stale r] c by (metis fst_conv policiesOf_cache policiesOf_erase)
  have ids: "set (PolicyIDsForKind kind r') = set (PolicyIDsForKind kind r) \<inter> set owned"
    by (auto simp: PolicyIDsForKind_set r' stale)
  then have again: "PruneToOwned kind owned r' = (r', [], noCounts)"
    by (auto simp: PruneToOwned_def Let_def ClearPolicyData_def filter_empty_conv split: prod.splits)
  have "rid_Kind p \<noteq> kind \<or> p \<in> set owned \<Longrightarrow> p \<notin> set stale" by (auto simp: stale PolicyIDsForKind_set)
  with ids again ClearPolicyData_lookups [OF assms(1) c] show ?thesis
    by (auto simp: stale PolicyIDsForKind_set(2))
qed

definition ex_prune_store :: "(nat, nat) RegisteredDataStore" where
  "ex_prune_store = SetPipelineTargetRefs (ex_policy\<lparr>rid_Kind := ''PlanPolicy''\<rparr>) [ex_target] ex_store"

lemma ex_prune_store_reachable: "store_step\<^sup>*\<^sup>* NewRegisteredDataStore ex_prune_store"
  unfolding ex_prune_store_def using ex_store_reachable store_step.set_targets by (rule rtranclp.rtrancl_into_rtrancl)

theorem PruneToOwned_exact_witness:
  "PolicyIDsForKind ''ThreatPolicy'' (fst (PruneToOwned ''ThreatPolicy'' [] ex_prune_store)) = [] \<and>
   fst (snd (PruneToOwned ''ThreatPolicy'' [] ex_prune_store)) = [ex_policy] \<and>
   GetPipelineTargetRefs (ex_policy\<lparr>rid_Kind := ''PlanPolicy''\<rparr>) (fst (PruneToOwned ''ThreatPolicy'' [] ex_prune_store)) =
     GetPipelineTargetRefs (ex_policy\<lparr>rid_Kind := ''PlanPolicy''\<rparr>) ex_prune_store"
proof -
  obtain r' stale counts where p: "PruneToOwned ''ThreatPolicy'' [] ex_prune_store = (r', stale, counts)"
    by (metis prod_cases3)
  have "fst (snd (PruneToOwned ''ThreatPolicy'' [] ex_prune_store)) = [ex_policy]" by code_simp
  then have "stale = [ex_policy]" by (simp add: p)
  moreover have "rid_Kind (ex_policy\<lparr>rid_Kind := ''PlanPolicy''\<rparr>) \<noteq> ''ThreatPolicy''" by simp
  ultimately show ?thesis
    using PruneToOwned_exact [OF ex_prune_store_reachable p, where p = "ex_policy\<lparr>rid_Kind := ''PlanPolicy''\<rparr>"] p by simp
qed

text \<open>\<open>SetUpstream\<close> does not check the name: a policy can get two upstreams of one name.\<close>

lemma SetUpstream_breaks_names:
  "\<not> names_unique (SetUpstream (ex_upstream_key\<lparr>uk_URL := ''grpc://other:80''\<rparr>) ex_upstream ex_fds ex_store)"
  unfolding names_unique_def by code_simp

end
