(* ===== verification/Extension_Pipeline.thy ===== *)
theory Extension_Pipeline
  imports Extension_Store Wasm_Config
begin

text \<open>
  From the pipeline of an extension to actions of the data plane: \<open>translatePipelineToActions\<close> and
  its helpers in \<open>internal/extension/registry.go\<close>.

  The translation puts every action that mentions the variable of a gRPC call under that call's
  replies, and every other action on the top level.  The pattern of a variable is
  \<open>\b\<close>, the name taken literally, \<open>\b\<close>; \<open>matchVar\<close> is what \<open>regexp\<close> does with it, on bytes,
  as \<open>\b\<close> is an ASCII word boundary.
\<close>

section \<open>Helpers\<close>

definition predicateOrTrue :: "string \<Rightarrow> string" where
  "predicateOrTrue predicate = (if predicate = [] then ''true'' else predicate)"

definition nonEmpty :: "string \<Rightarrow> string list" where
  "nonEmpty s = (if s \<noteq> [] then [s] else [])"

definition celExpressionsFromEntry :: "ActionEntry \<Rightarrow> string list" where
  "celExpressionsFromEntry entry =
     nonEmpty (ae_Predicate entry) @
     (case GetDeny entry of Some deny \<Rightarrow> nonEmpty (da_WithHeaders deny) @ nonEmpty (da_WithBody deny) | None \<Rightarrow> []) @
     (case GetAddHeaders entry of Some addHeaders \<Rightarrow> nonEmpty (ah_HeadersToAdd addHeaders) | None \<Rightarrow> []) @
     (case GetStore entry of Some store \<Rightarrow> nonEmpty (sa_Value store) | None \<Rightarrow> [])"

definition isWordByte :: "char \<Rightarrow> bool" where
  "isWordByte c \<longleftrightarrow> (let n = of_char c :: nat in (48 \<le> n \<and> n \<le> 57) \<or> (65 \<le> n \<and> n \<le> 90) \<or> (97 \<le> n \<and> n \<le> 122) \<or> n = 95)"

definition wordBoundary :: "string \<Rightarrow> nat \<Rightarrow> bool" where
  "wordBoundary s i \<longleftrightarrow> (i > 0 \<and> isWordByte (s ! (i - 1))) \<noteq> (i < length s \<and> isWordByte (s ! i))"

definition matchVar :: "string \<Rightarrow> string \<Rightarrow> bool" where
  "matchVar v s = list_ex (\<lambda>i. HasPrefix (drop i s) v \<and> wordBoundary s i \<and> wordBoundary s (i + length v))
     [0..<Suc (length s)]"

definition entryMatchesVar :: "ActionEntry \<Rightarrow> string \<Rightarrow> bool" where
  "entryMatchesVar entry v = list_ex (matchVar v) (celExpressionsFromEntry entry)"

definition buildDenyResponseExpr :: "int \<Rightarrow> string \<Rightarrow> string \<Rightarrow> string" where
  "buildDenyResponseExpr status headers body =
     (let parts = (if status \<noteq> 0 then [''status: '' @ itoa_int status @ ''u''] else []) @
            (if headers \<noteq> [] then [''headers: '' @ headers] else []) @
            (if body \<noteq> [] then [''body: '' @ body] else []) in
      if length parts = 0 then ''DenyResponse{}''
      else ''DenyResponse{'' @ Join parts '', '' @ ''}'')"

text \<open>\<open>NilDereference\<close> stands for the panic on an entry, or on the message of an entry, that is nil.\<close>

datatype translate_error =
    HeadersInvalidPhase nat Phase
  | UnknownActionType nat
  | NilDereference

definition entryToAction :: "nat \<Rightarrow> ActionEntry \<Rightarrow> string list \<Rightarrow> translate_error + Action" where
  "entryToAction index entry sources =
     (let predicate = predicateOrTrue (ae_Predicate entry) in
      case ae_Action entry of
        Some (ActionEntry_Deny a) \<Rightarrow> (case a of None \<Rightarrow> Inl NilDereference
          | Some deny \<Rightarrow> Inr (WithSources sources (NewDenyAction predicate
              (buildDenyResponseExpr (da_WithStatus deny) (da_WithHeaders deny) (da_WithBody deny)))))
      | Some (ActionEntry_AddHeaders a) \<Rightarrow>
          let target = (case ae_Phase entry of PHASE_REQUEST \<Rightarrow> Some HeaderTargetRequest
                | PHASE_RESPONSE \<Rightarrow> Some HeaderTargetResponse | _ \<Rightarrow> None) in
          (case target of None \<Rightarrow> Inl (HeadersInvalidPhase index (ae_Phase entry))
           | Some t \<Rightarrow> (case a of None \<Rightarrow> Inl NilDereference
              | Some addHeaders \<Rightarrow> Inr (WithSources sources (NewHeadersAction predicate t (ah_HeadersToAdd addHeaders)))))
      | Some (ActionEntry_Fail a) \<Rightarrow> (case a of None \<Rightarrow> Inl NilDereference
          | Some fail \<Rightarrow> Inr (WithSources sources (NewFailAction predicate (fa_LogMessage fail))))
      | Some (ActionEntry_Store a) \<Rightarrow> (case a of None \<Rightarrow> Inl NilDereference
          | Some store \<Rightarrow> Inr (WithSources sources (WithExportToHost (sa_ExportToHost store)
              (NewStoreAction predicate (sa_Path store) (sa_Value store)))))
      | _ \<Rightarrow> Inl (UnknownActionType index))"

definition grpcToAction ::
  "ActionEntry \<Rightarrow> pbGrpcAction \<Rightarrow> (string, string) gomap \<Rightarrow> (string, RegisteredUpstreamEntry) gomap \<Rightarrow> string list \<Rightarrow> Action" where
  "grpcToAction entry grpc methods upstreamByMethod sources =
     (let mb = (case map_of upstreamByMethod (ga_Method grpc) of Some upstream \<Rightarrow> ue_MessageTemplate upstream | None \<Rightarrow> []) in
      WithSources sources (NewGrpcAction (predicateOrTrue (ae_Predicate entry)) (ga_Var grpc)
        (Deref (map_of methods (ga_Method grpc)) []) mb []))"

section \<open>The translation\<close>

record varProducer =
  vp_method :: string
  vp_var :: string

definition entryGrpc :: "PipelineActionEntry \<Rightarrow> pbGrpcAction option" where
  "entryGrpc e = (case pa_Entry e of Some entry \<Rightarrow> GetGrpc entry | None \<Rightarrow> None)"

definition collectProducers :: "PipelineActionEntry list \<Rightarrow> varProducer list" where
  "collectProducers entries = List.map_filter (\<lambda>e. case entryGrpc e of
     Some grpc \<Rightarrow> if ga_Var grpc \<noteq> [] then Some \<lparr>vp_method = ga_Method grpc, vp_var = ga_Var grpc\<rparr> else None
   | None \<Rightarrow> None) entries"

definition producerFor :: "varProducer list \<Rightarrow> ActionEntry \<Rightarrow> varProducer option" where
  "producerFor producers entry = List.find (\<lambda>p. entryMatchesVar entry (vp_var p)) producers"

fun classifyAndConvert ::
  "varProducer list \<Rightarrow> string list \<Rightarrow> PipelineActionEntry list \<Rightarrow> (string, Action list) gomap \<Rightarrow>
    translate_error + (string, Action list) gomap" where
  "classifyAndConvert producers sources [] grpcOnReply = Inr grpcOnReply"
| "classifyAndConvert producers sources (e # es) grpcOnReply =
     (if entryGrpc e \<noteq> None then classifyAndConvert producers sources es grpcOnReply
      else case pa_Entry e of None \<Rightarrow> Inl NilDereference
      | Some entry \<Rightarrow> ebind (entryToAction (pa_Index e) entry sources) (\<lambda>ta.
          classifyAndConvert producers sources es
            (case producerFor producers entry of
               Some p \<Rightarrow> gm_set (vp_method p) (Deref (map_of grpcOnReply (vp_method p)) [] @ [ta]) grpcOnReply
             | None \<Rightarrow> grpcOnReply)))"

definition emitEntry ::
  "varProducer list \<Rightarrow> (string, string) gomap \<Rightarrow> (string, RegisteredUpstreamEntry) gomap \<Rightarrow> string list \<Rightarrow>
    (string, Action list) gomap \<Rightarrow> PipelineActionEntry \<Rightarrow> string list \<Rightarrow> translate_error + string list \<times> Action list" where
  "emitEntry producers methods upstreamByMethod sources grpcOnReply e emittedGRPC =
     (case pa_Entry e of None \<Rightarrow> Inl NilDereference
      | Some entry \<Rightarrow> (case GetGrpc entry of
          Some grpc \<Rightarrow>
            if ga_Method grpc \<in> set emittedGRPC then Inr (emittedGRPC, [])
            else Inr (ga_Method grpc # emittedGRPC,
              [WithOnReply (Deref (map_of grpcOnReply (ga_Method grpc)) [])
                 (grpcToAction entry grpc methods upstreamByMethod sources)])
        | None \<Rightarrow>
            if producerFor producers entry = None
            then ebind (entryToAction (pa_Index e) entry sources) (\<lambda>ta. Inr (emittedGRPC, [ta]))
            else Inr (emittedGRPC, [])))"

fun emit ::
  "varProducer list \<Rightarrow> (string, string) gomap \<Rightarrow> (string, RegisteredUpstreamEntry) gomap \<Rightarrow> string list \<Rightarrow>
    (string, Action list) gomap \<Rightarrow> PipelineActionEntry list \<Rightarrow> string list \<Rightarrow> translate_error + string list \<times> Action list" where
  "emit producers methods upstreamByMethod sources grpcOnReply [] emittedGRPC = Inr (emittedGRPC, [])"
| "emit producers methods upstreamByMethod sources grpcOnReply (e # es) emittedGRPC =
     ebind (emitEntry producers methods upstreamByMethod sources grpcOnReply e emittedGRPC) (\<lambda>(emittedGRPC, out).
       ebind (emit producers methods upstreamByMethod sources grpcOnReply es emittedGRPC) (\<lambda>(emittedGRPC, result).
         Inr (emittedGRPC, out @ result)))"

definition translatePipelineToActions ::
  "PipelineActionEntry list \<Rightarrow> PipelineActionEntry list \<Rightarrow> (string, string) gomap \<Rightarrow>
    (string, RegisteredUpstreamEntry) gomap \<Rightarrow> string list \<Rightarrow> translate_error + Action list" where
  "translatePipelineToActions requestEntries responseEntries methods upstreamByMethod sources =
     (let producers = collectProducers requestEntries @ collectProducers responseEntries in
      ebind (classifyAndConvert producers sources requestEntries []) (\<lambda>grpcOnReply.
      ebind (classifyAndConvert producers sources responseEntries grpcOnReply) (\<lambda>grpcOnReply.
      ebind (emit producers methods upstreamByMethod sources grpcOnReply requestEntries []) (\<lambda>(emittedGRPC, result).
      ebind (emit producers methods upstreamByMethod sources grpcOnReply responseEntries emittedGRPC) (\<lambda>(emittedGRPC, more).
        Inr (result @ more))))))"


section \<open>Entries that passed validation\<close>

fun actionPresent :: "pbAction \<Rightarrow> bool" where
  "actionPresent (ActionEntry_Grpc a) \<longleftrightarrow> a \<noteq> None"
| "actionPresent (ActionEntry_Deny a) \<longleftrightarrow> a \<noteq> None"
| "actionPresent (ActionEntry_AddHeaders a) \<longleftrightarrow> a \<noteq> None"
| "actionPresent (ActionEntry_Fail a) \<longleftrightarrow> a \<noteq> None"
| "actionPresent (ActionEntry_Store a) \<longleftrightarrow> a \<noteq> None"

definition valid_entry :: "PipelineActionEntry \<Rightarrow> bool" where
  "valid_entry e = (case pa_Entry e of None \<Rightarrow> False
     | Some entry \<Rightarrow> phaseFromProto (ae_Phase entry) \<noteq> None \<and>
         (case ae_Action entry of None \<Rightarrow> False | Some a \<Rightarrow> actionPresent a))"

text \<open>The action an entry other than a call becomes, and the calls of a pipeline.\<close>

definition entryAction :: "string list \<Rightarrow> PipelineActionEntry \<Rightarrow> Action" where
  "entryAction sources e = projr (entryToAction (pa_Index e) (the (pa_Entry e)) sources)"

definition producerMethod :: "varProducer list \<Rightarrow> PipelineActionEntry \<Rightarrow> string option" where
  "producerMethod producers e = map_option vp_method (producerFor producers (the (pa_Entry e)))"

definition grpcMethods :: "PipelineActionEntry list \<Rightarrow> string set" where
  "grpcMethods es = {ga_Method g |e g. e \<in> set es \<and> entryGrpc e = Some g}"

definition leaves :: "Action \<Rightarrow> Action list" where
  "leaves a = (case a of GrpcAction b v s l m rs \<Rightarrow> rs | _ \<Rightarrow> [a])"

definition is_call :: "Action \<Rightarrow> bool" where
  "is_call a \<longleftrightarrow> ActionType a = ''grpc''"

lemma entryToAction_valid:
  assumes "valid_entry e" and "entryGrpc e = None"
  obtains entry a where "pa_Entry e = Some entry" "GetGrpc entry = None"
    "entryToAction (pa_Index e) entry sources = Inr a" "entryAction sources e = a" "leaves a = [a]" "\<not> is_call a"
proof -
  obtain entry act where entry: "pa_Entry e = Some entry" "ae_Action entry = Some act" "actionPresent act"
      "phaseFromProto (ae_Phase entry) \<noteq> None"
    using assms(1) by (auto simp: valid_entry_def split: option.splits)
  with assms(2) obtain a where a: "entryToAction (pa_Index e) entry sources = Inr a" "leaves a = [a]" "\<not> is_call a"
    by (cases act)
       (auto simp: entryToAction_def Let_def entryGrpc_def GetGrpc_def phaseFromProto_def leaves_def is_call_def
          NewDenyAction_def NewHeadersAction_def NewFailAction_def NewStoreAction_def WithSources_def split: Phase.splits)
  show ?thesis using entry(1) a assms(2) by (intro that [of entry a]) (auto simp: entryAction_def entryGrpc_def)
qed

lemma classifyAndConvert_valid:
  assumes "list_all valid_entry es"
  shows "\<exists>m'. classifyAndConvert producers sources es m = Inr m' \<and>
    (\<forall>k. Deref (map_of m' k) [] = Deref (map_of m k) [] @
      map (entryAction sources) (filter (\<lambda>e. entryGrpc e = None \<and> producerMethod producers e = Some k) es))"
  using assms
proof (induction es arbitrary: m)
  case (Cons e es)
  show ?case
  proof (cases "entryGrpc e")
    case None
    with Cons.prems obtain entry a where e: "pa_Entry e = Some entry" "entryToAction (pa_Index e) entry sources = Inr a"
        "entryAction sources e = a"
      by (auto elim: entryToAction_valid [where sources = sources])
    let ?m = "case producerFor producers entry of
               Some p \<Rightarrow> gm_set (vp_method p) (Deref (map_of m (vp_method p)) [] @ [a]) m | None \<Rightarrow> m"
    have m: "Deref (map_of ?m k) [] = Deref (map_of m k) [] @ (if producerMethod producers e = Some k then [a] else [])" for k
      by (cases "producerFor producers entry") (auto simp: producerMethod_def e(1))
    obtain m' where m': "classifyAndConvert producers sources es ?m = Inr m'"
      "\<forall>k. Deref (map_of m' k) [] = Deref (map_of ?m k) [] @
        map (entryAction sources) (filter (\<lambda>e. entryGrpc e = None \<and> producerMethod producers e = Some k) es)"
      using Cons.IH [of ?m] Cons.prems by auto
    show ?thesis
      by (rule exI [of _ m']) (use m' None e m in auto)
  next
    case (Some g)
    with Cons.IH [of m] Cons.prems show ?thesis by simp
  qed
qed simp

text \<open>What the loop that emits actions has produced for a list of entries.\<close>

definition plainEntries :: "varProducer list \<Rightarrow> PipelineActionEntry list \<Rightarrow> PipelineActionEntry list" where
  "plainEntries producers es = filter (\<lambda>e. entryGrpc e = None \<and> producerMethod producers e = None) es"

definition emits ::
  "varProducer list \<Rightarrow> string list \<Rightarrow> (string, Action list) gomap \<Rightarrow> PipelineActionEntry list \<Rightarrow>
    string list \<Rightarrow> string list \<Rightarrow> Action list \<Rightarrow> bool" where
  "emits producers sources onReply es emitted emitted' out \<longleftrightarrow>
     set emitted' = set emitted \<union> grpcMethods es \<and>
     filter (\<lambda>a. \<not> is_call a) out = map (entryAction sources) (plainEntries producers es) \<and>
     length (filter is_call out) = card (grpcMethods es - set emitted) \<and>
     mset (concat (map leaves out)) = mset (map (entryAction sources) (plainEntries producers es)) +
       (\<Sum>k\<in>grpcMethods es - set emitted. mset (Deref (map_of onReply k) []))"

lemma finite_grpcMethods: "finite (grpcMethods es)"
proof -
  have "grpcMethods es \<subseteq> (\<lambda>e. ga_Method (the (entryGrpc e))) ` set es" by (force simp: grpcMethods_def)
  then show ?thesis by (rule finite_subset) simp
qed

lemma grpcMethods_Cons:
  "grpcMethods (e # es) = (case entryGrpc e of None \<Rightarrow> grpcMethods es | Some g \<Rightarrow> insert (ga_Method g) (grpcMethods es))"
  by (auto simp: grpcMethods_def split: option.splits)

lemma emits_plain:
  assumes "entryGrpc e = None" "valid_entry e" "emits producers sources onReply es emitted emitted' out"
  shows "emits producers sources onReply (e # es) emitted emitted'
    ((if producerMethod producers e = None then [entryAction sources e] else []) @ out)"
proof -
  have "leaves (entryAction sources e) = [entryAction sources e]" "\<not> is_call (entryAction sources e)"
    using assms(1,2) by (auto elim: entryToAction_valid [where sources = sources])
  with assms show ?thesis by (auto simp: emits_def plainEntries_def grpcMethods_Cons)
qed

lemma emits_repeated:
  assumes "entryGrpc e = Some g" "ga_Method g \<in> set emitted" "emits producers sources onReply es emitted emitted' out"
  shows "emits producers sources onReply (e # es) emitted emitted' out"
proof -
  have "grpcMethods (e # es) - set emitted = grpcMethods es - set emitted" using assms by (auto simp: grpcMethods_Cons)
  with assms show ?thesis by (auto simp: emits_def plainEntries_def grpcMethods_Cons)
qed

lemma emits_call:
  assumes "entryGrpc e = Some g" "ga_Method g \<notin> set emitted"
    and "emits producers sources onReply es (ga_Method g # emitted) emitted' out"
    and "leaves a = Deref (map_of onReply (ga_Method g)) []" "is_call a"
  shows "emits producers sources onReply (e # es) emitted emitted' (a # out)"
proof -
  let ?rest = "grpcMethods es - set (ga_Method g # emitted)"
  have "grpcMethods (e # es) - set emitted = insert (ga_Method g) ?rest" using assms(1,2) by (auto simp: grpcMethods_Cons)
  moreover have "finite ?rest" "ga_Method g \<notin> ?rest" using finite_grpcMethods by auto
  moreover have "set emitted' = set emitted \<union> grpcMethods (e # es)"
    using assms(1,3) by (auto simp: emits_def grpcMethods_Cons)
  ultimately show ?thesis using assms(1,3-5) by (simp add: emits_def plainEntries_def)
qed

lemma emit_valid:
  assumes "list_all valid_entry es"
  shows "\<exists>emitted' out. emit producers methods ups sources onReply es emitted = Inr (emitted', out) \<and>
    emits producers sources onReply es emitted emitted' out"
  using assms
proof (induction es arbitrary: emitted)
  case Nil
  then show ?case by (simp add: emits_def plainEntries_def grpcMethods_def)
next
  case (Cons e es)
  show ?case
  proof (cases "entryGrpc e")
    case None
    with Cons.prems obtain entry a where e: "pa_Entry e = Some entry" "GetGrpc entry = None"
        "entryToAction (pa_Index e) entry sources = Inr a" "entryAction sources e = a"
      by (auto elim: entryToAction_valid [where sources = sources])
    obtain emitted' out where "emit producers methods ups sources onReply es emitted = Inr (emitted', out)"
      "emits producers sources onReply es emitted emitted' out"
      using Cons.IH [of emitted] Cons.prems by auto
    with e emits_plain [OF None, of producers sources onReply es emitted emitted' out] Cons.prems show ?thesis
      by (cases "producerFor producers entry") (auto simp: emitEntry_def producerMethod_def)
  next
    case (Some g)
    then obtain entry where e: "pa_Entry e = Some entry" "GetGrpc entry = Some g"
      by (auto simp: entryGrpc_def split: option.splits)
    let ?a = "WithOnReply (Deref (map_of onReply (ga_Method g)) []) (grpcToAction entry g methods ups sources)"
    have a: "leaves ?a = Deref (map_of onReply (ga_Method g)) []" "is_call ?a"
      by (simp_all add: leaves_def is_call_def grpcToAction_def Let_def NewGrpcAction_def WithSources_def)
    show ?thesis
    proof (cases "ga_Method g \<in> set emitted")
      case True
      then show ?thesis using Cons e emits_repeated [OF Some True] by (fastforce simp: emitEntry_def)
    next
      case False
      obtain emitted' out where "emit producers methods ups sources onReply es (ga_Method g # emitted) = Inr (emitted', out)"
        "emits producers sources onReply es (ga_Method g # emitted) emitted' out"
        using Cons by fastforce
      then show ?thesis using False e emits_call [OF Some False _ a] by (auto simp: emitEntry_def)
    qed
  qed
qed

text \<open>Two runs of the loop, one after the other, are one run over both lists.\<close>

lemma emit_append:
  "emit producers methods ups sources onReply (es @ fs) emitted =
     ebind (emit producers methods ups sources onReply es emitted) (\<lambda>(emitted', out).
     ebind (emit producers methods ups sources onReply fs emitted') (\<lambda>(emitted'', out'). Inr (emitted'', out @ out')))"
proof (induction es arbitrary: emitted)
  case Nil
  show ?case by (auto simp: ebind_case split: prod.splits sum.splits)
next
  case (Cons e es)
  then show ?case by (auto simp: ebind_case split: prod.splits sum.splits)
qed

lemma classifyAndConvert_append:
  "classifyAndConvert producers sources (es @ fs) m =
     ebind (classifyAndConvert producers sources es m) (classifyAndConvert producers sources fs)"
proof (induction es arbitrary: m)
  case (Cons e es)
  show ?case
  proof (cases "pa_Entry e")
    case (Some entry)
    then show ?thesis using Cons by (cases "entryToAction (pa_Index e) entry sources") (auto split: option.splits)
  qed (use Cons in auto)
qed simp

lemma translate_eq:
  "translatePipelineToActions req resp methods ups sources =
     (let producers = collectProducers (req @ resp) in
      ebind (classifyAndConvert producers sources (req @ resp) []) (\<lambda>onReply.
      ebind (emit producers methods ups sources onReply (req @ resp) []) (\<lambda>(emitted, result). Inr result)))"
proof -
  have p: "collectProducers req @ collectProducers resp = collectProducers (req @ resp)"
    by (simp add: collectProducers_def List.map_filter_def)
  show ?thesis
    unfolding translatePipelineToActions_def Let_def p classifyAndConvert_append emit_append
    by (auto simp: ebind_case split: prod.splits sum.splits)
qed

text \<open>The variable that an action waits for is set by a call of the same pipeline.\<close>

lemma producerMethod_in: "producerMethod (collectProducers es) e = Some m \<Longrightarrow> m \<in> grpcMethods es"
  unfolding producerMethod_def producerFor_def collectProducers_def grpcMethods_def
  by (fastforce dest!: find_SomeD simp: set_map_filter split: option.split_asm if_split_asm)

lemma mset_split_methods:
  assumes "finite M" and "\<And>e. e \<in> set es \<Longrightarrow> P e = None \<or> the (P e) \<in> M"
  shows "mset (filter (\<lambda>e. P e = None) es) + (\<Sum>k\<in>M. mset (filter (\<lambda>e. P e = Some k) es)) = mset es"
  using assms
proof (induction es)
  case (Cons e es)
  then have IH: "mset (filter (\<lambda>e. P e = None) es) + (\<Sum>k\<in>M. mset (filter (\<lambda>e. P e = Some k) es)) = mset es" by simp
  show ?case
  proof (cases "P e")
    case (Some m)
    then have m: "m \<in> M" using Cons.prems(2) [of e] by simp
    have "(\<Sum>k\<in>M. mset (filter (\<lambda>e. P e = Some k) (e # es))) =
      (\<Sum>k\<in>M. (if k = m then {#e#} else {#}) + mset (filter (\<lambda>e. P e = Some k) es))"
      using Some by (intro sum.cong) auto
    also have "\<dots> = {#e#} + (\<Sum>k\<in>M. mset (filter (\<lambda>e. P e = Some k) es))"
      using m Cons.prems(1) by (simp add: sum.distrib)
    finally show ?thesis using IH Some by simp
  qed (use IH in simp)
qed simp


lemma image_mset_Sum: "image_mset f (\<Sum>k\<in>M. g k) = (\<Sum>k\<in>M. image_mset f (g k))"
  by (induction M rule: infinite_finite_induct) auto



definition ex_entry :: "string \<Rightarrow> pbAction \<Rightarrow> PipelineActionEntry" where
  "ex_entry predicate a = \<lparr>pa_Index = 0, pa_Entry = Some \<lparr>ae_Phase = PHASE_REQUEST, ae_Predicate = predicate, ae_Action = Some a\<rparr>\<rparr>"

definition ex_pipeline :: "PipelineActionEntry list" where
  "ex_pipeline =
     [ex_entry [] (ActionEntry_Grpc (Some \<lparr>ga_Method = ''check'', ga_Var = ''threat''\<rparr>)),
      ex_entry ''threat.score > 5'' (ActionEntry_Deny (Some \<lparr>da_WithStatus = 403, da_WithHeaders = [], da_WithBody = []\<rparr>)),
      ex_entry [] (ActionEntry_Fail (Some \<lparr>fa_LogMessage = ''no threats''\<rparr>))]"


text \<open>
  A second call of a method is dropped together with its variable, and what waits for that
  variable ends up under the first call.
\<close>

definition ex_two_calls :: "PipelineActionEntry list" where
  "ex_two_calls =
     [ex_entry [] (ActionEntry_Grpc (Some \<lparr>ga_Method = ''check'', ga_Var = ''first''\<rparr>)),
      ex_entry ''first.ok'' (ActionEntry_Grpc (Some \<lparr>ga_Method = ''check'', ga_Var = ''second''\<rparr>)),
      ex_entry ''second.bad'' (ActionEntry_Deny (Some \<lparr>da_WithStatus = 403, da_WithHeaders = [], da_WithBody = []\<rparr>))]"

lemma second_call_dropped:
  "(case translatePipelineToActions ex_two_calls [] [(''check'', ''ext-1'')] [] [''p''] of Inl e \<Rightarrow> False
    | Inr acts \<Rightarrow> map grpc_Var acts = [''first''] \<and>
        map (\<lambda>a. map (ab_Predicate \<circ> Action_Base) (grpc_OnReply a)) acts = [[''second.bad'']])"
  by code_simp

end
