(* ===== verification/Extension_Registry.thy ===== *)
theory Extension_Registry
  imports Extension_Pipeline Merge_Strategies
begin

text \<open>
  How registered data reaches the configuration of the data plane: \<open>RegisteredDataMutator\<close> and
  \<open>MutatorRegistry\<close> of \<open>internal/extension/registry.go\<close>.

  A mutator points to the store of an extension service, so the registry holds references into
  \<open>stores\<close>; a mutator of another type is a function.  The topology of the policy-machinery
  library is the function \<open>children\<close> from an object to its children; the locator of a target
  reference, the name of a listener and the SHA-256 functions are parameters too.  Of an
  \<open>AuthConfig\<close> of Authorino only the part that is written is modelled, the rest is the extension
  of the record.
\<close>

section \<open>Data\<close>

record 's ResponseSpec =
  rs_Unauthenticated :: "'s option"
  rs_Unauthorized :: "'s option"
  rs_Headers :: "(string, 's) gomap option"
  rs_DynamicMetadata :: "(string, 's) gomap option"

definition emptyResponse :: "'s ResponseSpec" where
  "emptyResponse = \<lparr>rs_Unauthenticated = None, rs_Unauthorized = None, rs_Headers = None, rs_DynamicMetadata = None\<rparr>"

record 's AuthConfig =
  ac_Response :: "'s ResponseSpec option"

definition KuadrantDataNamespace :: string where
  "KuadrantDataNamespace = ''kuadrant''"

datatype mutate_error =
    TranslateError string translate_error
  | MutatorError string
  | PathError string
  | MutatePanic string

definition policyTargetRef :: "string \<Rightarrow> string \<Rightarrow> string \<Rightarrow> PolicyTargetReference" where
  "policyTargetRef kind name namespace = \<lparr>ptr_Group = ''gateway.networking.k8s.io'', ptr_Kind = kind,
     ptr_Name = name, ptr_Namespace = namespace\<rparr>"

section \<open>Auth configurations\<close>

definition mutateAuthConfig ::
  "((string, string) gomap \<Rightarrow> 's) \<Rightarrow> (PolicyTargetReference \<Rightarrow> string) \<Rightarrow> ('ast, 'val) RegisteredDataStore \<Rightarrow>
    ('s, 'b) AuthConfig_scheme \<Rightarrow> PolicyTargetReference list \<Rightarrow> ('s, 'b) AuthConfig_scheme" where
  "mutateAuthConfig json getLocator store authConfig targetRefs =
     (let allProviderEntries = concat (map (\<lambda>targetRef. GetAllForTargetRef (getLocator targetRef) DOMAIN_AUTH store) targetRefs) in
      if length allProviderEntries = 0 then authConfig
      else
        let dynamicMetadata = (case ac_Response authConfig of None \<Rightarrow> []
              | Some response \<Rightarrow> Deref (rs_DynamicMetadata response) []);
            properties = foldl (\<lambda>properties entry. gm_set (dp_Binding entry) (dp_Expression entry) properties) [] allProviderEntries;
            response = (case ac_Response authConfig of None \<Rightarrow> emptyResponse | Some response \<Rightarrow> response)
        in authConfig\<lparr>ac_Response := Some (response\<lparr>rs_DynamicMetadata :=
             Some (gm_set KuadrantDataNamespace (json properties) dynamicMetadata)\<rparr>)\<rparr>)"

section \<open>Wasm configurations\<close>

definition HashUpstreamServiceConfig :: "(string \<Rightarrow> string) \<Rightarrow> Service \<Rightarrow> string" where
  "HashUpstreamServiceConfig sha256hex8 svc =
     sha256hex8 (svc_Type svc @ ''|'' @ svc_Endpoint svc @ ''|'' @ svc_FailureMode svc @ ''|'' @
       Deref (svc_Timeout svc) [] @ ''|'' @ Deref (svc_GrpcService svc) [] @ ''|'' @ Deref (svc_GrpcMethod svc) [])"

definition upstreamService :: "RegisteredUpstreamEntry \<Rightarrow> Service" where
  "upstreamService entry = \<lparr>svc_Endpoint = ue_ClusterName entry, svc_Type = ''dynamic'', svc_FailureMode = ue_FailureMode entry,
     svc_Timeout = Some (ue_Timeout entry), svc_GrpcService = Some (ue_Service entry), svc_GrpcMethod = Some (ue_Method entry)\<rparr>"

definition wasmServiceKey :: "(string \<Rightarrow> string) \<Rightarrow> RegisteredUpstreamEntry \<Rightarrow> string" where
  "wasmServiceKey sha256hex8 entry = ''ext-'' @ HashUpstreamServiceConfig sha256hex8 (upstreamService entry)"

text \<open>An assignment to a map inside a map, \<open>m[p][n] = v\<close>, that makes the inner map when it is missing.\<close>

definition set_in :: "'p \<Rightarrow> 'n \<Rightarrow> 'v \<Rightarrow> ('p, ('n, 'v) gomap) gomap \<Rightarrow> ('p, ('n, 'v) gomap) gomap" where
  "set_in p n v m = gm_set p (gm_set n v (Deref (map_of m p) [])) m"

definition ResourceID_less :: "ResourceID \<Rightarrow> ResourceID \<Rightarrow> bool" where
  "ResourceID_less a b =
     (if rid_Kind a \<noteq> rid_Kind b then rid_Kind a < rid_Kind b
      else if rid_Namespace a \<noteq> rid_Namespace b then rid_Namespace a < rid_Namespace b
      else rid_Name a < rid_Name b)"

definition isRouteKind :: "string \<Rightarrow> bool" where
  "isRouteKind kind \<longleftrightarrow> kind = ''HTTPRoute'' \<or> kind = ''GRPCRoute''"

definition routeLocatorOf :: "TargetRef \<Rightarrow> string" where
  "routeLocatorOf tr = tr_Kind tr @ ''/'' @ tr_Namespace tr @ ''/'' @ tr_Name tr"

definition policyLocatorOf :: "ResourceID \<Rightarrow> string" where
  "policyLocatorOf p = rid_Kind p @ ''/'' @ rid_Namespace p @ ''/'' @ rid_Name p"

definition methodServiceKeysOf ::
  "(string \<Rightarrow> string) \<Rightarrow> (RegisteredUpstreamKey, RegisteredUpstreamEntry) gomap \<Rightarrow> (ResourceID, (string, string) gomap) gomap" where
  "methodServiceKeysOf sha256hex8 relevant =
     foldl (\<lambda>m (key, entry). set_in (uk_Policy key) (uk_Name key) (wasmServiceKey sha256hex8 entry) m) [] relevant"

definition upstreamByMethodOf ::
  "(RegisteredUpstreamKey, RegisteredUpstreamEntry) gomap \<Rightarrow> (ResourceID, (string, RegisteredUpstreamEntry) gomap) gomap" where
  "upstreamByMethodOf relevant = foldl (\<lambda>m (key, entry). set_in (uk_Policy key) (uk_Name key) entry m) [] relevant"

text \<open>The route locators of the upstreams of each policy, before those of its pipeline are added.\<close>

definition upstreamRouteLocators ::
  "(RegisteredUpstreamKey, RegisteredUpstreamEntry) gomap \<Rightarrow> (ResourceID, string list) gomap" where
  "upstreamRouteLocators relevant = foldl (\<lambda>m (key, entry).
     if isRouteKind (tr_Kind (ue_TargetRef entry))
     then gm_set (uk_Policy key) (Deref (map_of m (uk_Policy key)) [] @ [routeLocatorOf (ue_TargetRef entry)]) m
     else m) [] relevant"

definition policyRouteLocatorsOf ::
  "(RegisteredUpstreamKey, RegisteredUpstreamEntry) gomap \<Rightarrow> ('ast, 'val) RegisteredDataStore \<Rightarrow> ResourceID \<Rightarrow> string list" where
  "policyRouteLocatorsOf relevant store policyID =
     lo_Uniq (Deref (map_of (upstreamRouteLocators relevant) policyID) [] @
       map routeLocatorOf (filter (\<lambda>tr. isRouteKind (tr_Kind tr)) (GetPipelineTargetRefs policyID store)))"

definition appendActions :: "string list \<Rightarrow> Action list \<Rightarrow> ActionSet \<Rightarrow> ActionSet" where
  "appendActions routeLocators actions as =
     (if length routeLocators > 0 \<and> as_SourceRoute as \<noteq> [] \<and> as_SourceRoute as \<notin> set routeLocators then as
      else as\<lparr>as_Actions := as_Actions as @ actions\<rparr>)"

text \<open>One round of the loop over the policies, on the action sets.\<close>

definition mutatePolicy ::
  "(RegisteredUpstreamKey, RegisteredUpstreamEntry) gomap \<Rightarrow> (ResourceID, (string, string) gomap) gomap \<Rightarrow>
    (ResourceID, (string, RegisteredUpstreamEntry) gomap) gomap \<Rightarrow> ('ast, 'val) RegisteredDataStore \<Rightarrow>
    ResourceID \<Rightarrow> ActionSet list \<Rightarrow> mutate_error + ActionSet list" where
  "mutatePolicy relevant methodServiceKeys upstreamByMethod store policyID actionSets =
     (let policyLocator = policyLocatorOf policyID in
      case translatePipelineToActions (GetPipelineActions policyID PipelinePhaseRequest store)
             (GetPipelineActions policyID PipelinePhaseResponse store)
             (Deref (map_of methodServiceKeys policyID) []) (Deref (map_of upstreamByMethod policyID) []) [policyLocator] of
        Inl err \<Rightarrow> Inl (TranslateError policyLocator err)
      | Inr pipelineActions \<Rightarrow>
          if length pipelineActions = 0 then Inr actionSets
          else Inr (map (appendActions (policyRouteLocatorsOf relevant store policyID) pipelineActions) actionSets))"

fun efold :: "('x \<Rightarrow> 's \<Rightarrow> 'e + 's) \<Rightarrow> 'x list \<Rightarrow> 's \<Rightarrow> 'e + 's" where
  "efold f [] s = Inr s"
| "efold f (x # xs) s = ebind (f x s) (efold f xs)"

definition pipelinePolicies ::
  "(string \<Rightarrow> string) \<Rightarrow> PolicyTargetReference list \<Rightarrow> ('ast, 'val) RegisteredDataStore \<Rightarrow> ResourceID list" where
  "pipelinePolicies sha256hex8 targetRefs store =
     go_sort ResourceID_less (lo_Uniq (map fst (methodServiceKeysOf sha256hex8 (GetRelevantUpstreamKeys targetRefs store)) @
       GetPoliciesWithPipelineActionsForTargetRefs targetRefs store))"

definition mutateWasmConfig ::
  "(string \<Rightarrow> string) \<Rightarrow> ('ast, 'val) RegisteredDataStore \<Rightarrow> Config \<Rightarrow> PolicyTargetReference list \<Rightarrow> mutate_error + Config" where
  "mutateWasmConfig sha256hex8 store wasmConfig targetRefs =
     (let relevant = GetRelevantUpstreamKeys targetRefs store;
          services = foldl (\<lambda>services (key, entry). gm_set (wasmServiceKey sha256hex8 entry) (upstreamService entry) services)
            (Deref (cfg_Services wasmConfig) []) relevant;
          methodServiceKeys = methodServiceKeysOf sha256hex8 relevant;
          upstreamByMethod = upstreamByMethodOf relevant
      in ebind (efold (mutatePolicy relevant methodServiceKeys upstreamByMethod store)
             (pipelinePolicies sha256hex8 targetRefs store) (Deref (cfg_ActionSets wasmConfig) []))
           (\<lambda>actionSets. Inr (wasmConfig\<lparr>cfg_Services := Some services,
              cfg_ActionSets := (case cfg_ActionSets wasmConfig of None \<Rightarrow> None | Some _ \<Rightarrow> Some actionSets)\<rparr>)))"

section \<open>The registry\<close>

datatype 'm mutator = RegisteredDataMutator nat | OtherMutator 'm

record ('a, 'w) MutatorRegistry =
  mr_authConfigMutators :: "'a mutator list"
  mr_wasmConfigMutators :: "'w mutator list"

definition GlobalMutatorRegistry :: "('a, 'w) MutatorRegistry" where
  "GlobalMutatorRegistry = \<lparr>mr_authConfigMutators = [], mr_wasmConfigMutators = []\<rparr>"

definition RegisterAuthConfigMutator :: "'a mutator \<Rightarrow> ('a, 'w) MutatorRegistry \<Rightarrow> ('a, 'w) MutatorRegistry" where
  "RegisterAuthConfigMutator m r = r\<lparr>mr_authConfigMutators := mr_authConfigMutators r @ [m]\<rparr>"

definition RegisterWasmConfigMutator :: "'w mutator \<Rightarrow> ('a, 'w) MutatorRegistry \<Rightarrow> ('a, 'w) MutatorRegistry" where
  "RegisterWasmConfigMutator m r = r\<lparr>mr_wasmConfigMutators := mr_wasmConfigMutators r @ [m]\<rparr>"

text \<open>The stores behind the wasm mutators that are data mutators.\<close>

definition dataStores :: "(nat \<Rightarrow> ('ast, 'val) RegisteredDataStore) \<Rightarrow> 'm mutator list \<Rightarrow> ('ast, 'val) RegisteredDataStore list" where
  "dataStores stores ms = List.map_filter (\<lambda>m. case m of RegisteredDataMutator i \<Rightarrow> Some (stores i) | OtherMutator f \<Rightarrow> None) ms"

definition applyMutatorsWithTargetRefs ::
  "((string, string) gomap \<Rightarrow> 's) \<Rightarrow> (PolicyTargetReference \<Rightarrow> string) \<Rightarrow> (nat \<Rightarrow> ('ast, 'val) RegisteredDataStore) \<Rightarrow>
    (('s, 'b) AuthConfig_scheme \<Rightarrow> PolicyTargetReference list \<Rightarrow> string + ('s, 'b) AuthConfig_scheme) mutator list \<Rightarrow>
    PolicyTargetReference list \<Rightarrow> ('s, 'b) AuthConfig_scheme \<Rightarrow> mutate_error + ('s, 'b) AuthConfig_scheme" where
  "applyMutatorsWithTargetRefs json getLocator stores mutators targetRefs authConfig =
     efold (\<lambda>m c. case m of RegisteredDataMutator i \<Rightarrow> Inr (mutateAuthConfig json getLocator (stores i) c targetRefs)
       | OtherMutator f \<Rightarrow> (case f c targetRefs of Inl e \<Rightarrow> Inl (MutatorError e) | Inr c' \<Rightarrow> Inr c')) mutators authConfig"

definition authTargetRefs :: "ParsedTopologyPath \<Rightarrow> mutate_error + PolicyTargetReference list" where
  "authTargetRefs parsed =
     (case ptp_RouteType parsed of
        RouteTypeUnknown \<Rightarrow> Inl (PathError ''unsupported route type: Unknown'')
      | rt \<Rightarrow> (case ptp_Gateway parsed of None \<Rightarrow> Inl (MutatePanic ''nil pointer dereference'')
          | Some gateway \<Rightarrow> Inr [policyTargetRef ''Gateway'' (gateway_Name gateway) (gateway_Namespace gateway),
              policyTargetRef (if rt = RouteTypeHTTP then ''HTTPRoute'' else ''GRPCRoute'') (GetRouteName parsed) (GetRouteNamespace parsed)]))"

definition ApplyAuthConfigMutators ::
  "((string, string) gomap \<Rightarrow> 's) \<Rightarrow> (PolicyTargetReference \<Rightarrow> string) \<Rightarrow> (nat \<Rightarrow> ('ast, 'val) RegisteredDataStore) \<Rightarrow>
    (('s, 'b) AuthConfig_scheme \<Rightarrow> PolicyTargetReference list \<Rightarrow> string + ('s, 'b) AuthConfig_scheme) mutator list \<Rightarrow>
    targetable list \<Rightarrow> ('s, 'b) AuthConfig_scheme \<Rightarrow> mutate_error + ('s, 'b) AuthConfig_scheme" where
  "ApplyAuthConfigMutators json getLocator stores mutators path authConfig =
     (case ParseTopologyPath path of Inl err \<Rightarrow> Inl (PathError err)
      | Inr parsed \<Rightarrow> ebind (authTargetRefs parsed) (\<lambda>targetRefs.
          applyMutatorsWithTargetRefs json getLocator stores mutators targetRefs authConfig))"

text \<open>
  A route of the topology as kind, namespace and name; other objects are skipped.  A topology
  holds no nil pointers.
\<close>

definition routeOf :: "targetable \<Rightarrow> (string \<times> string \<times> string) option" where
  "routeOf t = (case t of
     THTTPRoute (Some r) \<Rightarrow> Some (''HTTPRoute'', route_Namespace (tr_Route r), route_Name (tr_Route r))
   | TGRPCRoute (Some r) \<Rightarrow> Some (''GRPCRoute'', route_Namespace (tr_Route r), route_Name (tr_Route r))
   | _ \<Rightarrow> None)"

definition routeKey :: "string \<times> string \<times> string \<Rightarrow> string" where
  "routeKey = (\<lambda>(kind, namespace, name). kind @ ''/'' @ namespace @ ''/'' @ name)"

fun uniqueRoutes :: "string list \<Rightarrow> targetable list \<Rightarrow> (string \<times> string \<times> string) list" where
  "uniqueRoutes seen [] = []"
| "uniqueRoutes seen (t # ts) = (case routeOf t of None \<Rightarrow> uniqueRoutes seen ts
     | Some r \<Rightarrow> if routeKey r \<in> set seen then uniqueRoutes seen ts
                 else r # uniqueRoutes (routeKey r # seen) ts)"

definition grandchildren :: "(targetable \<Rightarrow> targetable list) \<Rightarrow> Gateway \<Rightarrow> targetable list" where
  "grandchildren children gateway = concat (map children (children (TGateway (Some gateway))))"

definition collectRouteTargetRefs :: "Gateway \<Rightarrow> (targetable \<Rightarrow> targetable list) \<Rightarrow> PolicyTargetReference list" where
  "collectRouteTargetRefs gateway children =
     map (\<lambda>(kind, namespace, name). policyTargetRef kind name namespace) (uniqueRoutes [] (grandchildren children gateway))"

definition addSkeletons :: "string \<Rightarrow> ActionSet list \<Rightarrow> string list \<times> ActionSet list \<Rightarrow> string list \<times> ActionSet list" where
  "addSkeletons routeLocator sets acc =
     foldl (\<lambda>(seen, actionSets) as. if as_Name as \<in> set seen then (seen, actionSets)
       else (as_Name as # seen, actionSets @ [as\<lparr>as_SourceRoute := routeLocator\<rparr>])) acc sets"

definition routeSkeletons ::
  "(string \<Rightarrow> string) \<Rightarrow> (TopoListener \<Rightarrow> string) \<Rightarrow> TopoListener \<Rightarrow> string list \<times> ActionSet list \<Rightarrow> targetable \<Rightarrow>
    (string list \<times> ActionSet list) go_result" where
  "routeSkeletons sha256hex listenerGetName listener acc route =
     gbind (BuildSkeletonActionSetsForRoute sha256hex listenerGetName listener route) (\<lambda>sets.
       Return (addSkeletons (case routeOf route of None \<Rightarrow> [] | Some r \<Rightarrow> routeKey r) sets acc))"

definition buildActionSetsFromTopology ::
  "(string \<Rightarrow> string) \<Rightarrow> (TopoListener \<Rightarrow> string) \<Rightarrow> Gateway \<Rightarrow> (targetable \<Rightarrow> targetable list) \<Rightarrow> ActionSet list go_result" where
  "buildActionSetsFromTopology sha256hex listenerGetName gateway children =
     gbind (gfold (\<lambda>acc child. case child of
         TListener (Some listener) \<Rightarrow> gfold (routeSkeletons sha256hex listenerGetName listener) acc (children child)
       | TListener None \<Rightarrow> Panic ''nil pointer dereference''
       | _ \<Rightarrow> Return acc) ([], []) (children (TGateway (Some gateway)))) (\<lambda>(seen, actionSets). Return actionSets)"

definition hasRelevantPipelineActions :: "('ast, 'val) RegisteredDataStore list \<Rightarrow> PolicyTargetReference list \<Rightarrow> bool" where
  "hasRelevantPipelineActions dss targetRefs =
     list_ex (\<lambda>store.
       let policyIDs = lo_Uniq (map (uk_Policy \<circ> fst) (GetRelevantUpstreamKeys targetRefs store));
           policyIDs = lo_Uniq (policyIDs @ GetPoliciesWithPipelineActionsForTargetRefs targetRefs store)
       in list_ex (\<lambda>policyID. list_ex (\<lambda>phase. length (GetPipelineActions policyID phase store) > 0) bothPhases) policyIDs)
     dss"

definition routesNeedingSkeletons :: "('ast, 'val) RegisteredDataStore list \<Rightarrow> PolicyTargetReference list \<Rightarrow> string list" where
  "routesNeedingSkeletons dss targetRefs =
     concat (map (\<lambda>store. concat (map (\<lambda>policyID.
       map routeLocatorOf (filter (\<lambda>tr. isRouteKind (tr_Kind tr)) (GetPipelineTargetRefs policyID store)))
       (GetPoliciesWithPipelineActionsForTargetRefs targetRefs store))) dss)"

text \<open>The skeletons that are added to a configuration that has action sets already.\<close>

definition missingSkeletons :: "string list \<Rightarrow> ActionSet list \<Rightarrow> ActionSet list \<Rightarrow> ActionSet list" where
  "missingSkeletons neededRoutes actionSets skeletons =
     (if length neededRoutes > 0
      then let existingRoutes = filter (\<lambda>r. r \<noteq> []) (map as_SourceRoute actionSets)
           in filter (\<lambda>sk. as_SourceRoute sk \<in> set neededRoutes \<and> as_SourceRoute sk \<notin> set existingRoutes) skeletons
      else [])"

definition gatewayTargetRefs :: "Gateway \<Rightarrow> (targetable \<Rightarrow> targetable list) option \<Rightarrow> PolicyTargetReference list" where
  "gatewayTargetRefs gateway topology =
     policyTargetRef ''Gateway'' (gateway_Name gateway) (gateway_Namespace gateway) #
       (case topology of None \<Rightarrow> [] | Some children \<Rightarrow> collectRouteTargetRefs gateway children)"

definition withSkeletons ::
  "(string \<Rightarrow> string) \<Rightarrow> (TopoListener \<Rightarrow> string) \<Rightarrow> ('ast, 'val) RegisteredDataStore list \<Rightarrow> PolicyTargetReference list \<Rightarrow>
    Gateway \<Rightarrow> (targetable \<Rightarrow> targetable list) option \<Rightarrow> Config \<Rightarrow> mutate_error + Config" where
  "withSkeletons sha256hex listenerGetName dss targetRefs gateway topology wasmConfig =
     (case topology of None \<Rightarrow> Inr wasmConfig
      | Some children \<Rightarrow>
          if \<not> hasRelevantPipelineActions dss targetRefs then Inr wasmConfig
          else (case buildActionSetsFromTopology sha256hex listenerGetName gateway children of
            Panic m \<Rightarrow> Inl (MutatePanic m)
          | Return skeletons \<Rightarrow>
              let actionSets = Deref (cfg_ActionSets wasmConfig) [] in
              if length actionSets = 0
              then Inr (wasmConfig\<lparr>cfg_ActionSets := (if skeletons = [] then None else Some skeletons)\<rparr>)
              else Inr (wasmConfig\<lparr>cfg_ActionSets :=
                Some (actionSets @ missingSkeletons (routesNeedingSkeletons dss targetRefs) actionSets skeletons)\<rparr>)))"

definition ApplyWasmConfigMutators ::
  "(string \<Rightarrow> string) \<Rightarrow> (string \<Rightarrow> string) \<Rightarrow> (TopoListener \<Rightarrow> string) \<Rightarrow> (nat \<Rightarrow> ('ast, 'val) RegisteredDataStore) \<Rightarrow>
    (Config \<Rightarrow> PolicyTargetReference list \<Rightarrow> string + Config) mutator list \<Rightarrow>
    Gateway \<Rightarrow> (targetable \<Rightarrow> targetable list) option \<Rightarrow> Config \<Rightarrow> mutate_error + Config" where
  "ApplyWasmConfigMutators sha256hex sha256hex8 listenerGetName stores mutators gateway topology wasmConfig =
     (let targetRefs = gatewayTargetRefs gateway topology in
      ebind (withSkeletons sha256hex listenerGetName (dataStores stores mutators) targetRefs gateway topology wasmConfig) (\<lambda>wasmConfig.
      ebind (efold (\<lambda>m c. case m of RegisteredDataMutator i \<Rightarrow> mutateWasmConfig sha256hex8 (stores i) c targetRefs
          | OtherMutator f \<Rightarrow> (case f c targetRefs of Inl e \<Rightarrow> Inl (MutatorError e) | Inr c' \<Rightarrow> Inr c')) mutators wasmConfig) (\<lambda>wasmConfig.
      Inr (wasmConfig\<lparr>cfg_ActionSets := map_option (filter (\<lambda>as. length (as_Actions as) > 0)) (cfg_ActionSets wasmConfig)\<rparr>))))"

definition HasPipelineForTarget ::
  "(nat \<Rightarrow> ('ast, 'val) RegisteredDataStore) \<Rightarrow> 'm mutator list \<Rightarrow> Gateway \<Rightarrow> (targetable \<Rightarrow> targetable list) option \<Rightarrow> bool" where
  "HasPipelineForTarget stores mutators gateway topology =
     hasRelevantPipelineActions (dataStores stores mutators) (gatewayTargetRefs gateway topology)"

definition GetRegisteredUpstreamsByTargetRef ::
  "(nat \<Rightarrow> ('ast, 'val) RegisteredDataStore) \<Rightarrow> 'm mutator list \<Rightarrow> TargetRef \<Rightarrow> RegisteredUpstreamEntry list" where
  "GetRegisteredUpstreamsByTargetRef stores mutators targetRef =
     concat (map (GetUpstreamsByTargetRef targetRef) (dataStores stores mutators))"

definition CollectRouteUpstreams ::
  "(nat \<Rightarrow> ('ast, 'val) RegisteredDataStore) \<Rightarrow> 'm mutator list \<Rightarrow> (targetable \<Rightarrow> targetable list) \<Rightarrow> Gateway \<Rightarrow>
    RegisteredUpstreamEntry list" where
  "CollectRouteUpstreams stores mutators children gateway =
     concat (map (\<lambda>(kind, namespace, name). GetRegisteredUpstreamsByTargetRef stores mutators
       \<lparr>tr_Group = ''gateway.networking.k8s.io'', tr_Kind = kind, tr_Name = name, tr_Namespace = namespace\<rparr>)
       (uniqueRoutes [] (grandchildren children gateway)))"

definition addRequestBinding :: "string list \<times> DataBinding list \<Rightarrow> 'ast DataProviderEntry \<Rightarrow> string list \<times> DataBinding list" where
  "addRequestBinding = (\<lambda>(seen, bindings) entry.
     if dp_Binding entry \<in> set seen then (seen, bindings)
     else let (domain, field) = DomainAndFieldName (dp_Binding entry) in
       (dp_Binding entry # seen,
        bindings @ [\<lparr>db_Domain = domain, db_Field = field, db_Expression = dp_Expression entry\<rparr>]))"

definition GetRequestBindings ::
  "(nat \<Rightarrow> ('ast, 'val) RegisteredDataStore) \<Rightarrow> 'm mutator list \<Rightarrow> string list \<Rightarrow> DataBinding list" where
  "GetRequestBindings stores mutators targetRefLocators =
     snd (foldl addRequestBinding ([], []) (concat (map (\<lambda>store. concat (map (\<lambda>locator.
       GetAllForTargetRef locator DOMAIN_REQUEST store) targetRefLocators)) (dataStores stores mutators))))"


section \<open>The order of map iteration does not matter\<close>

text \<open>
  Two stores with the same tables as maps stand for two orders in which Go may iterate.
\<close>

definition same_tables :: "('ast, 'val) RegisteredDataStore \<Rightarrow> ('ast, 'val) RegisteredDataStore \<Rightarrow> bool" where
  "same_tables r r2 \<longleftrightarrow> map_of (st_dataProviders r) = map_of (st_dataProviders r2) \<and>
     map_of (st_subscriptions r) = map_of (st_subscriptions r2) \<and>
     map_of (st_registeredUpstreams r) = map_of (st_registeredUpstreams r2) \<and>
     map_of (st_protoCache r) = map_of (st_protoCache r2) \<and>
     map_of (st_pipelineActions r) = map_of (st_pipelineActions r2) \<and>
     map_of (st_pipelineCounters r) = map_of (st_pipelineCounters r2) \<and>
     map_of (st_pipelineTargetRefs r) = map_of (st_pipelineTargetRefs r2)"

interpretation policies: go_total_order ResourceID_less
  by unfold_locales (auto simp: ResourceID_less_def split: if_splits)

lemma foldl_select:
  "gm_wf m \<Longrightarrow> gm_wf res \<Longrightarrow>
    gm_wf (foldl (\<lambda>res (key, entry). if P entry then gm_set key entry res else res) res m) \<and>
    map_of (foldl (\<lambda>res (key, entry). if P entry then gm_set key entry res else res) res m) k =
      (case map_of m k of Some e \<Rightarrow> if P e then Some e else map_of res k | None \<Rightarrow> map_of res k)"
proof (induction m arbitrary: res)
  case (Cons x m)
  obtain k' e where x: "x = (k', e)" by fastforce
  then have "map_of m k' = None" using Cons.prems(1) by (simp add: map_of_eq_None_iff)
  with Cons.IH [of "if P e then gm_set k' e res else res"] Cons.prems x show ?case by (auto split: option.splits)
qed simp

lemma relevant_spec:
  assumes "gm_wf (st_registeredUpstreams r)"
  shows "gm_wf (GetRelevantUpstreamKeys refs r) \<and> map_of (GetRelevantUpstreamKeys refs r) k =
    (case map_of (st_registeredUpstreams r) k of Some e \<Rightarrow> if ue_TargetRef e \<in> targetRefOf ` set refs then Some e else None
     | None \<Rightarrow> None)"
proof (induction refs rule: rev_induct)
  case Nil
  then show ?case by (simp add: GetRelevantUpstreamKeys_def split: option.splits)
next
  case (snoc ref refs)
  let ?f = "\<lambda>res ref. foldl (\<lambda>res (key, entry). if ue_TargetRef entry = targetRefOf ref then gm_set key entry res else res) res (st_registeredUpstreams r)"
  have "GetRelevantUpstreamKeys (refs @ [ref]) r = ?f (GetRelevantUpstreamKeys refs r) ref"
    by (simp add: GetRelevantUpstreamKeys_def)
  with snoc foldl_select [OF assms, of "GetRelevantUpstreamKeys refs r" "\<lambda>entry. ue_TargetRef entry = targetRefOf ref" k] show ?case
    by (auto split: option.splits)
qed

lemma relevant_set:
  assumes "gm_wf (st_registeredUpstreams r)"
  shows "set (GetRelevantUpstreamKeys refs r) = {e \<in> set (st_registeredUpstreams r). ue_TargetRef (snd e) \<in> targetRefOf ` set refs}"
proof -
  have "(k, e) \<in> set (GetRelevantUpstreamKeys refs r) \<longleftrightarrow> (k, e) \<in> set (st_registeredUpstreams r) \<and> ue_TargetRef e \<in> targetRefOf ` set refs" for k e
  proof -
    have "(k, e) \<in> set (GetRelevantUpstreamKeys refs r) \<longleftrightarrow> map_of (GetRelevantUpstreamKeys refs r) k = Some e"
      using relevant_spec [OF assms, of refs] by (intro map_of_eq_Some_iff [symmetric]) blast
    also have "\<dots> \<longleftrightarrow> map_of (st_registeredUpstreams r) k = Some e \<and> ue_TargetRef e \<in> targetRefOf ` set refs"
      using relevant_spec [OF assms, of refs k] by (cases "map_of (st_registeredUpstreams r) k") auto
    finally show ?thesis using map_of_eq_Some_iff [OF assms] by blast
  qed
  then show ?thesis by auto
qed

text \<open>Looking up in a map of maps.\<close>

definition lookup2 :: "('p, ('n, 'v) gomap) gomap \<Rightarrow> 'p \<Rightarrow> 'n \<Rightarrow> 'v option" where
  "lookup2 m p n = map_of (Deref (map_of m p) []) n"

lemma lookup2_set_in [simp]: "lookup2 (set_in p n v m) p' n' = (if p = p' \<and> n = n' then Some v else lookup2 m p' n')"
  by (simp add: lookup2_def set_in_def)

lemma lookup2_Nil [simp]: "lookup2 [] p n = None"
  by (simp add: lookup2_def)

lemma fst_set_in: "fst ` set (set_in p n v m) = insert p (fst ` set m)"
  by (simp add: set_in_def fst_set_gm_set)

lemma lookup2_foldl:
  "lookup2 (foldl (\<lambda>m (k, e). set_in (p k) (n k) (f e) m) [] xs) P N = map_of (rev (map (\<lambda>(k, e). ((p k, n k), f e)) xs)) (P, N)"
  by (induction xs rule: rev_induct) auto

lemma keys_foldl_set_in:
  "fst ` set (foldl (\<lambda>m (k, e). set_in (p k) (n k) (f e) m) [] xs) = (p \<circ> fst) ` set xs"
  by (induction xs rule: rev_induct) (simp_all add: fst_set_in case_prod_unfold)

lemma lookup2_names:
  assumes "store_inv r" and "set xs \<subseteq> set (st_registeredUpstreams r)" and "gm_wf xs"
  shows "lookup2 (foldl (\<lambda>m (k, e). set_in (uk_Policy k) (uk_Name k) (f e) m) [] xs) P N = Some v \<longleftrightarrow>
    (\<exists>k e. (k, e) \<in> set xs \<and> uk_Policy k = P \<and> uk_Name k = N \<and> f e = v)"
proof -
  have "\<And>e f. e \<in> set xs \<Longrightarrow> f \<in> set xs \<Longrightarrow> uk_Policy (fst e) = uk_Policy (fst f) \<Longrightarrow>
      uk_Name (fst e) = uk_Name (fst f) \<Longrightarrow> fst e = fst f"
    using assms(1,2) unfolding store_inv_def names_unique_def by blast
  then have "inj_on (\<lambda>k. (uk_Policy k, uk_Name k)) (fst ` set xs)" unfolding inj_on_def by fastforce
  then have "distinct (map (\<lambda>k. (uk_Policy k, uk_Name k)) (map fst xs))"
    using assms(3) by (simp add: distinct_map del: map_map)
  then have "distinct (map fst (rev (map (\<lambda>(k, e). ((uk_Policy k, uk_Name k), f e)) xs)))"
    by (simp add: comp_def case_prod_unfold flip: rev_map)
  then show ?thesis unfolding lookup2_foldl by (subst map_of_eq_Some_iff) auto
qed

lemma option_eqI: "(\<And>v. a = Some v \<longleftrightarrow> b = Some v) \<Longrightarrow> a = b"
  by (metis not_None_eq)

lemma lookup2_same:
  assumes "store_inv r" "store_inv r2" "set xs \<subseteq> set (st_registeredUpstreams r)" "gm_wf xs" "gm_wf ys" "set xs = set ys"
    and "set ys \<subseteq> set (st_registeredUpstreams r2)"
  shows "map_of (Deref (map_of (foldl (\<lambda>m (k, e). set_in (uk_Policy k) (uk_Name k) (f e) m) [] xs) P) []) =
    map_of (Deref (map_of (foldl (\<lambda>m (k, e). set_in (uk_Policy k) (uk_Name k) (f e) m) [] ys) P) [])"
proof
  fix N
  show "map_of (Deref (map_of (foldl (\<lambda>m (k, e). set_in (uk_Policy k) (uk_Name k) (f e) m) [] xs) P) []) N =
    map_of (Deref (map_of (foldl (\<lambda>m (k, e). set_in (uk_Policy k) (uk_Name k) (f e) m) [] ys) P) []) N"
    using lookup2_names [OF assms(1,3,4), of f P N] lookup2_names [OF assms(2,7,5), of f P N] assms(6)
    unfolding lookup2_def by (intro option_eqI) simp
qed

text \<open>The translation reads its two maps only by looking up.\<close>

lemma emit_maps:
  assumes "map_of methods = map_of methods'" and "map_of ups = map_of ups'"
  shows "emit producers methods ups sources onReply es emitted = emit producers methods' ups' sources onReply es emitted"
proof -
  have "grpcToAction entry grpc methods ups sources = grpcToAction entry grpc methods' ups' sources" for entry grpc
    using assms by (simp add: grpcToAction_def)
  then have "emitEntry producers methods ups sources onReply e em = emitEntry producers methods' ups' sources onReply e em" for e em
    by (auto simp: emitEntry_def split: option.splits)
  then show ?thesis by (induction es arbitrary: emitted) (simp_all add: ebind_case)
qed

lemma translate_maps:
  "map_of methods = map_of methods' \<Longrightarrow> map_of ups = map_of ups' \<Longrightarrow>
    translatePipelineToActions req resp methods ups sources = translatePipelineToActions req resp methods' ups' sources"
  unfolding translate_eq using emit_maps [of methods methods' ups ups'] by presburger

lemma upstreamRouteLocators_set:
  "set (Deref (map_of (upstreamRouteLocators xs) p) []) =
    {routeLocatorOf (ue_TargetRef e) |k e. (k, e) \<in> set xs \<and> uk_Policy k = p \<and> isRouteKind (tr_Kind (ue_TargetRef e))}"
proof (induction xs rule: rev_induct)
  case Nil
  then show ?case by (simp add: upstreamRouteLocators_def)
next
  case (snoc x xs)
  obtain k e where x: "x = (k, e)" by fastforce
  have "upstreamRouteLocators (xs @ [x]) = (if isRouteKind (tr_Kind (ue_TargetRef e))
      then gm_set (uk_Policy k) (Deref (map_of (upstreamRouteLocators xs) (uk_Policy k)) [] @ [routeLocatorOf (ue_TargetRef e)])
             (upstreamRouteLocators xs) else upstreamRouteLocators xs)"
    by (simp add: upstreamRouteLocators_def x)
  with snoc x show ?case by (auto, blast)
qed

lemma appendActions_set: "set ls = set ls' \<Longrightarrow> appendActions ls = appendActions ls'"
  by (cases ls; cases ls') (auto simp: appendActions_def fun_eq_iff)

lemma pipelineTargets_set:
  assumes "gm_wf (st_pipelineActions r)"
  shows "set (GetPoliciesWithPipelineActionsForTargetRefs refs r) =
    {p. \<exists>phase. actionsAt (p, phase) r \<noteq> [] \<and> pipelineTargetRefsMatch (GetPipelineTargetRefs p r) refs}"
proof -
  let ?step = "\<lambda>seen ((policy, phase), actions).
       if length actions = 0 \<or> policy \<in> set seen then seen
       else if pipelineTargetRefsMatch (GetPipelineTargetRefs policy r) refs then List.insert policy seen else seen"
  have "set (foldl ?step seen m) = set seen \<union> {p. \<exists>phase acts. ((p, phase), acts) \<in> set m \<and> acts \<noteq> [] \<and>
      pipelineTargetRefsMatch (GetPipelineTargetRefs p r) refs}" for seen and m :: "(pipelineKey, PipelineActionEntry list) gomap"
  proof (induction m arbitrary: seen)
    case (Cons x m)
    obtain p phase acts where x: "x = ((p, phase), acts)" by (metis prod.collapse)
    show ?case unfolding foldl_Cons Cons.IH x by (cases "acts = []") auto
  qed simp
  then have "set (GetPoliciesWithPipelineActionsForTargetRefs refs r) = {p. \<exists>phase acts. ((p, phase), acts) \<in> set (st_pipelineActions r) \<and> acts \<noteq> [] \<and>
      pipelineTargetRefsMatch (GetPipelineTargetRefs p r) refs}"
    unfolding GetPoliciesWithPipelineActionsForTargetRefs_def by simp
  moreover have "actionsAt key r \<noteq> [] \<longleftrightarrow> (\<exists>acts. (key, acts) \<in> set (st_pipelineActions r) \<and> acts \<noteq> [])" for key
  proof (cases "map_of (st_pipelineActions r) key")
    case None
    then have "key \<notin> fst ` set (st_pipelineActions r)" by (metis map_of_eq_None_fst)
    then have "\<And>acts. (key, acts) \<notin> set (st_pipelineActions r)" by (metis fst_conv imageI)
    with None show ?thesis by (simp add: actionsAt_def)
  next
    case (Some v)
    then have "\<And>acts. (key, acts) \<in> set (st_pipelineActions r) \<longleftrightarrow> acts = v"
      using map_of_eq_Some_iff [OF assms] by (metis option.inject)
    with Some show ?thesis by (simp add: actionsAt_def)
  qed
  ultimately show ?thesis by auto
qed


text \<open>No two registered upstreams share a service key unless they are the same service.\<close>

definition collision_free :: "(string \<Rightarrow> string) \<Rightarrow> ('ast, 'val) RegisteredDataStore \<Rightarrow> bool" where
  "collision_free sha256hex8 r \<longleftrightarrow> (\<forall>e\<in>set (st_registeredUpstreams r). \<forall>f\<in>set (st_registeredUpstreams r).
     wasmServiceKey sha256hex8 (snd e) = wasmServiceKey sha256hex8 (snd f) \<longrightarrow> upstreamService (snd e) = upstreamService (snd f))"

lemma foldl_services:
  assumes "\<And>e f. e \<in> set xs \<Longrightarrow> f \<in> set xs \<Longrightarrow> h (snd e) = h (snd f) \<Longrightarrow> s (snd e) = s (snd f)"
  shows "map_of (foldl (\<lambda>m (k, e). gm_set (h e) (s e) m) m0 xs) n = Some v \<longleftrightarrow>
    (\<exists>e\<in>set xs. h (snd e) = n \<and> s (snd e) = v) \<or> ((\<forall>e\<in>set xs. h (snd e) \<noteq> n) \<and> map_of m0 n = Some v)"
  using assms
proof (induction xs rule: rev_induct)
  case (snoc x xs)
  obtain k e where x: "x = (k, e)" by fastforce
  have IH: "map_of (foldl (\<lambda>m (k, e). gm_set (h e) (s e) m) m0 xs) n = Some v \<longleftrightarrow>
    (\<exists>e\<in>set xs. h (snd e) = n \<and> s (snd e) = v) \<or> ((\<forall>e\<in>set xs. h (snd e) \<noteq> n) \<and> map_of m0 n = Some v)"
    by (rule snoc.IH) (use snoc.prems in auto)
  show ?case
  proof (cases "h e = n")
    case True
    then have "\<And>f. f \<in> set xs \<Longrightarrow> h (snd f) = n \<Longrightarrow> s (snd f) = s e" using snoc.prems [of _ x] x by simp
    with True x show ?thesis by auto
  next
    case False
    with x IH show ?thesis by simp
  qed
qed simp

lemma same_tables_set:
  assumes "store_inv r" "store_inv r2" "same_tables r r2"
  shows "set (st_registeredUpstreams r) = set (st_registeredUpstreams r2)"
  using assms map_of_inject_set unfolding same_tables_def store_inv_def store_wf_def by blast

lemma relevant_same:
  assumes "store_inv r" "store_inv r2" "same_tables r r2"
  shows "set (GetRelevantUpstreamKeys refs r) = set (GetRelevantUpstreamKeys refs r2)"
    and "gm_wf (GetRelevantUpstreamKeys refs r)" and "gm_wf (GetRelevantUpstreamKeys refs r2)"
    and "set (GetRelevantUpstreamKeys refs r) \<subseteq> set (st_registeredUpstreams r)"
    and "set (GetRelevantUpstreamKeys refs r2) \<subseteq> set (st_registeredUpstreams r2)"
proof -
  have wf: "gm_wf (st_registeredUpstreams r)" "gm_wf (st_registeredUpstreams r2)"
    using assms(1,2) by (simp_all add: store_inv_def store_wf_def)
  show "set (GetRelevantUpstreamKeys refs r) = set (GetRelevantUpstreamKeys refs r2)"
    using same_tables_set [OF assms] by (simp add: relevant_set [OF wf(1)] relevant_set [OF wf(2)])
  show "gm_wf (GetRelevantUpstreamKeys refs r)" "gm_wf (GetRelevantUpstreamKeys refs r2)"
    using relevant_spec wf by blast+
  show "set (GetRelevantUpstreamKeys refs r) \<subseteq> set (st_registeredUpstreams r)"
    "set (GetRelevantUpstreamKeys refs r2) \<subseteq> set (st_registeredUpstreams r2)"
    by (auto simp: relevant_set [OF wf(1)] relevant_set [OF wf(2)])
qed

lemma lookups_same:
  assumes "same_tables r r2"
  shows "GetPipelineActions p phase r = GetPipelineActions p phase r2"
    and "GetPipelineTargetRefs p r = GetPipelineTargetRefs p r2" and "actionsAt k r = actionsAt k r2"
  using assms by (simp_all add: same_tables_def GetPipelineActions_def actionsAt_def GetPipelineTargetRefs_def)

lemma pipelinePolicies_same:
  assumes "store_inv r" "store_inv r2" "same_tables r r2"
  shows "pipelinePolicies sha refs r = pipelinePolicies sha refs r2"
proof -
  have wf: "gm_wf (st_pipelineActions r)" "gm_wf (st_pipelineActions r2)"
    using assms(1,2) by (simp_all add: store_inv_def store_wf_def)
  have "set (map fst (methodServiceKeysOf sha (GetRelevantUpstreamKeys refs r)) @ GetPoliciesWithPipelineActionsForTargetRefs refs r) =
    set (map fst (methodServiceKeysOf sha (GetRelevantUpstreamKeys refs r2)) @ GetPoliciesWithPipelineActionsForTargetRefs refs r2)"
    unfolding set_append set_map pipelineTargets_set [OF wf(1)] pipelineTargets_set [OF wf(2)] lookups_same [OF assms(3)]
    by (simp add: methodServiceKeysOf_def keys_foldl_set_in relevant_same(1) [OF assms])
  then show ?thesis unfolding pipelinePolicies_def
    by (intro policies.go_sort_cong) (simp only: set_eq_iff_mset_eq_distinct [symmetric] distinct_lo_Uniq set_lo_Uniq)
qed

lemma mutatePolicy_same:
  assumes "store_inv r" "store_inv r2" "same_tables r r2"
    and xs: "xs = GetRelevantUpstreamKeys refs r" and ys: "ys = GetRelevantUpstreamKeys refs r2"
  shows "mutatePolicy xs (methodServiceKeysOf sha xs) (upstreamByMethodOf xs) r p =
    mutatePolicy ys (methodServiceKeysOf sha ys) (upstreamByMethodOf ys) r2 p"
proof -
  note rel = relevant_same [OF assms(1-3), of refs, folded xs ys]
  have m: "map_of (Deref (map_of (methodServiceKeysOf sha xs) p) []) = map_of (Deref (map_of (methodServiceKeysOf sha ys) p) [])"
    unfolding methodServiceKeysOf_def by (rule lookup2_same [OF assms(1,2) rel(4,2,3,1,5)])
  have u: "map_of (Deref (map_of (upstreamByMethodOf xs) p) []) = map_of (Deref (map_of (upstreamByMethodOf ys) p) [])"
    unfolding upstreamByMethodOf_def by (rule lookup2_same [OF assms(1,2) rel(4,2,3,1,5)])
  have "set (policyRouteLocatorsOf xs r p) = set (policyRouteLocatorsOf ys r2 p)"
    by (simp add: policyRouteLocatorsOf_def upstreamRouteLocators_set lookups_same(2) [OF assms(3)] rel(1))
  then have "appendActions (policyRouteLocatorsOf xs r p) = appendActions (policyRouteLocatorsOf ys r2 p)"
    by (rule appendActions_set)
  then show ?thesis
    by (intro ext) (simp only: mutatePolicy_def translate_maps [OF m u] lookups_same(1) [OF assms(3)])
qed

text \<open>
  C33.  The configuration an extension contributes does not depend on the order in which Go
  iterates over its maps: stores with the same tables give the same errors, the same action sets
  in the same order, and the same services.  Hash values of different services are assumed not
  to collide.
\<close>

theorem mutateWasmConfig_deterministic:
  assumes "store_step\<^sup>*\<^sup>* NewRegisteredDataStore r" and "store_inv r2" and "same_tables r r2"
    and "collision_free sha256hex8 r"
  shows "case mutateWasmConfig sha256hex8 r cfg refs of
      Inl err \<Rightarrow> mutateWasmConfig sha256hex8 r2 cfg refs = Inl err
    | Inr c \<Rightarrow> (\<exists>c2. mutateWasmConfig sha256hex8 r2 cfg refs = Inr c2 \<and>
        map_of (Deref (cfg_Services c) []) = map_of (Deref (cfg_Services c2) []) \<and>
        c2 = c\<lparr>cfg_Services := cfg_Services c2\<rparr>)"
proof -
  have inv: "store_inv r" using assms(1) by (rule store.inv_reachable)
  let ?xs = "GetRelevantUpstreamKeys refs r" and ?ys = "GetRelevantUpstreamKeys refs r2"
  let ?services = "\<lambda>zs. foldl (\<lambda>services (key, entry). gm_set (wasmServiceKey sha256hex8 entry) (upstreamService entry) services)
    (Deref (cfg_Services cfg) []) zs"
  note rel = relevant_same [OF inv assms(2,3), of refs]
  have cf: "wasmServiceKey sha256hex8 (snd e) = wasmServiceKey sha256hex8 (snd f) \<Longrightarrow> upstreamService (snd e) = upstreamService (snd f)"
    if "e \<in> set ?xs" "f \<in> set ?xs" for e f
    using assms(4) subsetD [OF rel(4) that(1)] subsetD [OF rel(4) that(2)] unfolding collision_free_def by blast
  let ?spec = "\<lambda>n v. (\<exists>e\<in>set ?xs. wasmServiceKey sha256hex8 (snd e) = n \<and> upstreamService (snd e) = v) \<or>
    ((\<forall>e\<in>set ?xs. wasmServiceKey sha256hex8 (snd e) \<noteq> n) \<and> map_of (Deref (cfg_Services cfg) []) n = Some v)"
  have "map_of (?services ?xs) n = Some v \<longleftrightarrow> ?spec n v" for n v
    by (rule foldl_services) (fact cf)
  moreover have "map_of (?services ?ys) n = Some v \<longleftrightarrow> ?spec n v" for n v
    unfolding rel(1) by (rule foldl_services) (fact cf [unfolded rel(1)])
  ultimately have "map_of (?services ?xs) n = map_of (?services ?ys) n" for n
    by (intro option_eqI) (simp only:)
  then have "map_of (?services ?xs) = map_of (?services ?ys)" by (rule ext)
  moreover have "mutatePolicy ?xs (methodServiceKeysOf sha256hex8 ?xs) (upstreamByMethodOf ?xs) r =
    mutatePolicy ?ys (methodServiceKeysOf sha256hex8 ?ys) (upstreamByMethodOf ?ys) r2"
    by (rule ext) (rule mutatePolicy_same [OF inv assms(2,3) refl refl])
  ultimately show ?thesis
    by (auto simp: mutateWasmConfig_def Let_def pipelinePolicies_same [OF inv assms(2,3)] ebind_case split: sum.splits)
qed

definition ex_second_key :: RegisteredUpstreamKey where
  "ex_second_key = ex_upstream_key\<lparr>uk_Name := ''report'', uk_Method := ''Report''\<rparr>"

definition ex_second :: RegisteredUpstreamEntry where
  "ex_second = ex_upstream\<lparr>ue_Method := ''Report''\<rparr>"

text \<open>The same two upstreams, registered in both orders, so that iteration meets them in both orders.\<close>

definition ex_forward :: "(nat, nat) RegisteredDataStore" where
  "ex_forward = fst (SetUpstreamIfNameAvailable ex_second_key ex_second ex_fds
     (fst (SetUpstreamIfNameAvailable ex_upstream_key ex_upstream ex_fds NewRegisteredDataStore)))"

definition ex_backward :: "(nat, nat) RegisteredDataStore" where
  "ex_backward = fst (SetUpstreamIfNameAvailable ex_upstream_key ex_upstream ex_fds
     (fst (SetUpstreamIfNameAvailable ex_second_key ex_second ex_fds NewRegisteredDataStore)))"

lemma ex_orders_reachable:
  "store_step\<^sup>*\<^sup>* NewRegisteredDataStore ex_forward" "store_step\<^sup>*\<^sup>* NewRegisteredDataStore ex_backward"
  unfolding ex_forward_def ex_backward_def
  by (rule rtranclp.rtrancl_into_rtrancl [OF r_into_rtranclp], rule store_step.set_upstream, rule store_step.set_upstream)+

lemma ex_orders_tables:
  "st_registeredUpstreams ex_forward = rev (st_registeredUpstreams ex_backward)"
  "st_dataProviders ex_forward = st_dataProviders ex_backward" "st_subscriptions ex_forward = st_subscriptions ex_backward"
  "st_protoCache ex_forward = st_protoCache ex_backward" "st_pipelineActions ex_forward = st_pipelineActions ex_backward"
  "st_pipelineCounters ex_forward = st_pipelineCounters ex_backward"
  "st_pipelineTargetRefs ex_forward = st_pipelineTargetRefs ex_backward"
  by code_simp+

definition ex_plain_config :: Config where
  "ex_plain_config = \<lparr>cfg_Services = None, cfg_ActionSets = Some [], cfg_Observability = None, cfg_DescriptorService = []\<rparr>"

theorem mutateWasmConfig_deterministic_witness:
  "\<exists>c c2. mutateWasmConfig id ex_forward ex_plain_config [policyTargetRef ''HTTPRoute'' ''toys'' ''ns''] = Inr c \<and>
     mutateWasmConfig id ex_backward ex_plain_config [policyTargetRef ''HTTPRoute'' ''toys'' ''ns''] = Inr c2 \<and>
     map_of (Deref (cfg_Services c) []) = map_of (Deref (cfg_Services c2) [])"
proof -
  have inv: "store_inv ex_backward" using ex_orders_reachable(2) by (rule store.inv_reachable)
  then have "gm_wf (st_registeredUpstreams ex_backward)" by (simp add: store_inv_def store_wf_def)
  then have "same_tables ex_forward ex_backward"
    unfolding same_tables_def ex_orders_tables using map_of_inject_set [of "rev (st_registeredUpstreams ex_backward)" "st_registeredUpstreams ex_backward"]
    by (simp add: rev_map [symmetric])
  moreover have "collision_free id ex_forward" unfolding collision_free_def by code_simp
  moreover have "\<not> isl (mutateWasmConfig id ex_forward ex_plain_config [policyTargetRef ''HTTPRoute'' ''toys'' ''ns''])" by code_simp
  ultimately show ?thesis
    using mutateWasmConfig_deterministic [OF ex_orders_reachable(1) inv, of id ex_plain_config
      "[policyTargetRef ''HTTPRoute'' ''toys'' ''ns'']"] by (auto split: sum.splits)
qed

section \<open>Extensions only add\<close>

text \<open>An action set with actions appended, and a configuration in which only that happened.\<close>

definition extends :: "ActionSet \<Rightarrow> ActionSet \<Rightarrow> bool" where
  "extends a b \<longleftrightarrow> b = a\<lparr>as_Actions := as_Actions b\<rparr> \<and> take (length (as_Actions a)) (as_Actions b) = as_Actions a"

definition actionSets :: "Config \<Rightarrow> ActionSet list" where
  "actionSets c = Deref (cfg_ActionSets c) []"

definition config_extends :: "Config \<Rightarrow> Config \<Rightarrow> bool" where
  "config_extends c d \<longleftrightarrow> list_all2 extends (actionSets c) (actionSets d) \<and>
     cfg_Observability d = cfg_Observability c \<and> cfg_DescriptorService d = cfg_DescriptorService c \<and>
     (\<forall>n. \<not> HasPrefix n ''ext-'' \<longrightarrow> map_of (Deref (cfg_Services d) []) n = map_of (Deref (cfg_Services c) []) n)"

lemma extends_refl [simp]: "extends a a"
  by (simp add: extends_def)

lemma extends_iff: "extends a b \<longleftrightarrow> (\<exists>X. b = a\<lparr>as_Actions := as_Actions a @ X\<rparr>)"
proof
  assume "extends a b"
  then have "b = a\<lparr>as_Actions := as_Actions a @ drop (length (as_Actions a)) (as_Actions b)\<rparr>"
    unfolding extends_def by (metis append_take_drop_id)
  then show "\<exists>X. b = a\<lparr>as_Actions := as_Actions a @ X\<rparr>" ..
qed (auto simp: extends_def)

lemma extends_trans: "extends a b \<Longrightarrow> extends b c \<Longrightarrow> extends a c"
  unfolding extends_iff by auto

lemma all_extends_refl [simp]: "list_all2 extends xs xs"
  by (simp add: list_all2_refl)

lemma all_extends_trans: "list_all2 extends xs ys \<Longrightarrow> list_all2 extends ys zs \<Longrightarrow> list_all2 extends xs zs"
  by (rule list_all2_trans) (rule extends_trans)

lemma config_extends_refl [simp]: "config_extends c c"
  by (simp add: config_extends_def)

lemma config_extends_trans: "config_extends a b \<Longrightarrow> config_extends b c \<Longrightarrow> config_extends a c"
  unfolding config_extends_def by (auto intro: all_extends_trans)

lemma efold_rel:
  assumes "efold f xs s = Inr s'" and "\<And>x s s'. x \<in> set xs \<Longrightarrow> f x s = Inr s' \<Longrightarrow> R s s'"
    and "\<And>s. R s s" and "\<And>s t u. R s t \<Longrightarrow> R t u \<Longrightarrow> R s u"
  shows "R s s'"
  using assms(1,2)
proof (induction xs arbitrary: s)
  case Nil
  then show ?case using assms(3) by simp
next
  case (Cons x xs)
  then obtain t where "f x s = Inr t" "efold f xs t = Inr s'" by (auto simp: ebind_case split: sum.splits)
  then have "R s t" "R t s'" using Cons.IH [of t] Cons.prems(2) by (force, force)
  then show ?case by (rule assms(4))
qed

lemma appendActions_extends: "extends as (appendActions locators actions as)"
  by (cases as) (simp add: extends_def appendActions_def)

lemma mutatePolicy_extends: "mutatePolicy relevant keys ups store p sets = Inr sets' \<Longrightarrow> list_all2 extends sets sets'"
  by (auto simp: mutatePolicy_def Let_def list_all2_conv_all_nth appendActions_extends split: sum.splits if_splits)

lemma foldl_services_frame:
  "\<not> HasPrefix n ''ext-'' \<Longrightarrow>
    map_of (foldl (\<lambda>services (key, entry). gm_set (wasmServiceKey sha entry) (upstreamService entry) services) m xs) n = map_of m n"
  by (induction xs arbitrary: m) (auto simp: wasmServiceKey_def HasPrefix_def)

lemma mutateWasmConfig_extends:
  assumes "mutateWasmConfig sha8 store c refs = Inr d"
  shows "config_extends c d"
proof -
  obtain sets where sets: "efold (mutatePolicy (GetRelevantUpstreamKeys refs store) (methodServiceKeysOf sha8 (GetRelevantUpstreamKeys refs store))
        (upstreamByMethodOf (GetRelevantUpstreamKeys refs store)) store) (pipelinePolicies sha8 refs store) (actionSets c) = Inr sets"
    and d: "cfg_ActionSets d = (case cfg_ActionSets c of None \<Rightarrow> None | Some _ \<Rightarrow> Some sets)"
      "cfg_Observability d = cfg_Observability c" "cfg_DescriptorService d = cfg_DescriptorService c"
      "cfg_Services d = Some (foldl (\<lambda>services (key, entry). gm_set (wasmServiceKey sha8 entry) (upstreamService entry) services)
         (Deref (cfg_Services c) []) (GetRelevantUpstreamKeys refs store))"
    using assms by (auto simp: mutateWasmConfig_def Let_def ebind_case actionSets_def split: sum.splits)
  have "list_all2 extends (actionSets c) sets"
    using sets by (rule efold_rel) (auto intro: mutatePolicy_extends all_extends_trans)
  with d show ?thesis
    by (auto simp: config_extends_def actionSets_def foldl_services_frame split: option.splits)
qed

lemma gfold_inv:
  "gfold f s xs = Return s' \<Longrightarrow> I s \<Longrightarrow> (\<And>x s s'. I s \<Longrightarrow> f s x = Return s' \<Longrightarrow> I s') \<Longrightarrow> I s'"
  by (induction xs arbitrary: s) auto

text \<open>What the skeletons of a gateway keep: no actions yet, and no name twice.\<close>

definition skeletons_ok :: "string list \<times> ActionSet list \<Rightarrow> bool" where
  "skeletons_ok = (\<lambda>(seen, sks). list_all (\<lambda>as. as_Actions as = []) sks \<and> distinct (map as_Name sks) \<and> set seen = as_Name ` set sks)"

lemma addSkeletons_ok:
  "list_all (\<lambda>as. as_Actions as = []) sets \<Longrightarrow> skeletons_ok acc \<Longrightarrow> skeletons_ok (addSkeletons locator sets acc)"
proof (induction sets arbitrary: acc)
  case (Cons as sets)
  have "skeletons_ok (addSkeletons locator [as] acc)"
    using Cons.prems by (auto simp: addSkeletons_def skeletons_ok_def split: prod.splits)
  with Cons.IH Cons.prems(1) show ?case by (simp add: addSkeletons_def)
qed (simp add: addSkeletons_def)

lemma skeletonSets_empty: "list_all (\<lambda>as. as_Actions as = []) (skeletonSets sha256hex ns name listener hostnames preds)"
  by (auto simp: skeletonSets_def list_all_iff)

lemma BuildSkeleton_empty:
  "BuildSkeletonActionSetsForRoute sha256hex listenerName listener route = Return sets \<Longrightarrow> list_all (\<lambda>as. as_Actions as = []) sets"
  by (auto simp: BuildSkeletonActionSetsForRoute_def skeletonSets_empty split: targetable.splits option.splits)

lemma routeSkeletons_ok:
  "skeletons_ok acc \<Longrightarrow> routeSkeletons sha256hex listenerName listener acc route = Return acc' \<Longrightarrow> skeletons_ok acc'"
  by (auto simp: routeSkeletons_def intro!: addSkeletons_ok dest: BuildSkeleton_empty)

lemma buildActionSetsFromTopology_ok:
  assumes "buildActionSetsFromTopology sha256hex listenerName gateway children = Return sks"
  shows "list_all (\<lambda>as. as_Actions as = []) sks \<and> distinct (map as_Name sks)"
proof -
  let ?f = "\<lambda>acc child. case child of
         TListener (Some listener) \<Rightarrow> gfold (routeSkeletons sha256hex listenerName listener) acc (children child)
       | TListener None \<Rightarrow> Panic ''nil pointer dereference''
       | _ \<Rightarrow> Return acc"
  obtain seen where g: "gfold ?f ([], []) (children (TGateway (Some gateway))) = Return (seen, sks)"
    using assms by (auto simp: buildActionSetsFromTopology_def)
  have "skeletons_ok acc'" if "skeletons_ok acc" "?f acc child = Return acc'" for acc acc' child
    using that gfold_inv [of "routeSkeletons sha256hex listenerName _" acc "children child" acc' skeletons_ok]
    by (auto simp: routeSkeletons_ok split: targetable.splits option.splits)
  then have "skeletons_ok (seen, sks)" using gfold_inv [OF g, of skeletons_ok] by (simp add: skeletons_ok_def)
  then show ?thesis by (simp add: skeletons_ok_def)
qed

lemma withSkeletons_adds:
  assumes "withSkeletons sha256hex listenerName dss refs gateway topology c = Inr d"
  shows "\<exists>added. actionSets d = actionSets c @ added \<and> list_all (\<lambda>as. as_Actions as = []) added \<and> d = c\<lparr>cfg_ActionSets := cfg_ActionSets d\<rparr>"
proof (cases "d = c")
  case True
  then show ?thesis by (intro exI [of _ "[]"]) simp
next
  case False
  obtain children sks where sks: "buildActionSetsFromTopology sha256hex listenerName gateway children = Return sks"
    and d: "d = c\<lparr>cfg_ActionSets := if length (actionSets c) = 0 then if sks = [] then None else Some sks
       else Some (actionSets c @ missingSkeletons (routesNeedingSkeletons dss refs) (actionSets c) sks)\<rparr>"
    using assms False by (auto simp: withSkeletons_def Let_def actionSets_def split: option.splits if_splits go_result.splits)
  have "list_all (\<lambda>as. as_Actions as = []) sks" "list_all (\<lambda>as. as_Actions as = []) (missingSkeletons (routesNeedingSkeletons dss refs) (actionSets c) sks)"
    using buildActionSetsFromTopology_ok [OF sks] by (simp_all add: missingSkeletons_def list_all_iff Let_def)
  with d show ?thesis by (cases "length (actionSets c) = 0") (auto simp: actionSets_def)
qed

definition isDataMutator :: "'m mutator \<Rightarrow> bool" where
  "isDataMutator m = (case m of RegisteredDataMutator i \<Rightarrow> True | OtherMutator f \<Rightarrow> False)"

lemma mutators_extend:
  assumes "ApplyWasmConfigMutators sha256hex sha256hex8 listenerName stores mutators gateway topology c = Inr d"
    and "list_all isDataMutator mutators"
  shows "\<exists>added sets. list_all (\<lambda>as. as_Actions as = []) added \<and> list_all2 extends (actionSets c @ added) sets \<and>
    actionSets d = filter (\<lambda>as. as_Actions as \<noteq> []) sets \<and>
    cfg_Observability d = cfg_Observability c \<and> cfg_DescriptorService d = cfg_DescriptorService c \<and>
    (\<not> HasPrefix name ''ext-'' \<longrightarrow> map_of (Deref (cfg_Services d) []) name = map_of (Deref (cfg_Services c) []) name)"
proof -
  let ?refs = "gatewayTargetRefs gateway topology"
  obtain c1 c2 where c1: "withSkeletons sha256hex listenerName (dataStores stores mutators) ?refs gateway topology c = Inr c1"
    and c2: "efold (\<lambda>m c. case m of RegisteredDataMutator i \<Rightarrow> mutateWasmConfig sha256hex8 (stores i) c ?refs
          | OtherMutator f \<Rightarrow> (case f c ?refs of Inl e \<Rightarrow> Inl (MutatorError e) | Inr c' \<Rightarrow> Inr c')) mutators c1 = Inr c2"
    and d: "d = c2\<lparr>cfg_ActionSets := map_option (filter (\<lambda>as. length (as_Actions as) > 0)) (cfg_ActionSets c2)\<rparr>"
    using assms(1) by (auto simp: ApplyWasmConfigMutators_def Let_def ebind_case split: sum.splits)
  obtain added where added: "actionSets c1 = actionSets c @ added" "list_all (\<lambda>as. as_Actions as = []) added"
      "c1 = c\<lparr>cfg_ActionSets := cfg_ActionSets c1\<rparr>"
    using withSkeletons_adds [OF c1] by blast
  have frame: "cfg_Services c1 = cfg_Services c" "cfg_Observability c1 = cfg_Observability c" "cfg_DescriptorService c1 = cfg_DescriptorService c"
    by (subst added(3), simp)+
  have "config_extends c1 c2"
    using c2 by (rule efold_rel) (use assms(2) in \<open>auto simp: list_all_iff isDataMutator_def intro: mutateWasmConfig_extends
      config_extends_trans split: mutator.splits\<close>)
  then have ext: "list_all2 extends (actionSets c @ added) (actionSets c2)" "cfg_Observability c2 = cfg_Observability c"
      "cfg_DescriptorService c2 = cfg_DescriptorService c"
      "\<not> HasPrefix name ''ext-'' \<longrightarrow> map_of (Deref (cfg_Services c2) []) name = map_of (Deref (cfg_Services c) []) name"
    by (simp_all add: config_extends_def added(1) frame)
  have "actionSets d = filter (\<lambda>as. as_Actions as \<noteq> []) (actionSets c2)"
    by (cases "cfg_ActionSets c2") (simp_all add: d actionSets_def)
  with ext added(2) d show ?thesis by (intro exI [of _ added] exI [of _ "actionSets c2"]) simp
qed

text \<open>
  Applying the data mutators to the configuration of a gateway only adds: the action sets
  are those that were there, then skeletons without actions, each with actions of the extensions
  appended at its end and its name, hostnames and predicates unchanged; those left without any
  action, and only those, are dropped; observability and the services that are not named
  \<open>ext-\<close> stay.
\<close>

theorem ApplyWasmConfigMutators_extends:
  assumes "ApplyWasmConfigMutators sha256hex sha256hex8 listenerName stores mutators gateway topology c = Inr d"
    and "list_all isDataMutator mutators"
  shows "\<exists>added sets. list_all (\<lambda>as. as_Actions as = []) added \<and> list_all2 extends (actionSets c @ added) sets \<and>
    actionSets d = filter (\<lambda>as. as_Actions as \<noteq> []) sets \<and>
    cfg_Observability d = cfg_Observability c \<and> cfg_DescriptorService d = cfg_DescriptorService c \<and>
    (\<not> HasPrefix name ''ext-'' \<longrightarrow> map_of (Deref (cfg_Services d) []) name = map_of (Deref (cfg_Services c) []) name)"
  using mutators_extend [OF assms] .

definition ex_ext_gateway :: Gateway where
  "ex_ext_gateway = \<lparr>gateway_Group = ''gateway.networking.k8s.io'', gateway_Kind = ''Gateway'', gateway_Namespace = ''ns'',
     gateway_Name = ''gw'', gateway_ClassName = ''istio'', gateway_ListenerStatus = []\<rparr>"

definition ex_pipeline_store :: "(nat, nat) RegisteredDataStore" where
  "ex_pipeline_store = SetPipelineTargetRefs ex_policy [targetRefOf (policyTargetRef ''Gateway'' ''gw'' ''ns'')]
     (fst (AppendPipelineActions ex_policy PipelinePhaseRequest
       [ex_entry [] (ActionEntry_Fail (Some \<lparr>fa_LogMessage = ''closed''\<rparr>))] NewRegisteredDataStore))"

definition ex_action_set :: ActionSet where
  "ex_action_set = \<lparr>as_Name = ''set'', as_RouteRuleConditions = \<lparr>rrc_Hostnames = Some [''*''], rrc_Predicates = []\<rparr>,
     as_Actions = [], as_SourceRoute = []\<rparr>"

theorem ApplyWasmConfigMutators_extends_witness:
  "\<exists>d sets. ApplyWasmConfigMutators id id (\<lambda>l. []) (\<lambda>i. ex_pipeline_store) [RegisteredDataMutator 0] ex_ext_gateway None
      (ex_plain_config\<lparr>cfg_ActionSets := Some [ex_action_set]\<rparr>) = Inr d \<and>
    list_all2 extends [ex_action_set] (take 1 sets) \<and> actionSets d = filter (\<lambda>as. as_Actions as \<noteq> []) sets \<and> length (actionSets d) = 1"
proof -
  let ?r = "ApplyWasmConfigMutators id id (\<lambda>l. []) (\<lambda>i. ex_pipeline_store) [RegisteredDataMutator 0] ex_ext_gateway None
      (ex_plain_config\<lparr>cfg_ActionSets := Some [ex_action_set]\<rparr>)"
  have len: "case ?r of Inl e \<Rightarrow> False | Inr d \<Rightarrow> length (actionSets d) = 1" by code_simp
  then obtain d where d: "?r = Inr d" "length (actionSets d) = 1" by (auto split: sum.splits)
  have "list_all isDataMutator [RegisteredDataMutator 0 :: (Config \<Rightarrow> PolicyTargetReference list \<Rightarrow> string + Config) mutator]"
    by (simp add: isDataMutator_def)
  from ApplyWasmConfigMutators_extends [OF d(1) this, of "[]"] obtain added sets where
    "list_all2 extends ([ex_action_set] @ added) sets" "actionSets d = filter (\<lambda>as. as_Actions as \<noteq> []) sets"
    by (auto simp: actionSets_def)
  with d show ?thesis by (intro exI [of _ d] exI [of _ sets]) (cases sets; simp)
qed

section \<open>Where the order does matter\<close>

text \<open>
  When two policies bind the same name for one target, the value that reaches the configuration
  is the one that the iteration over the map meets last (for authentication) or first (for
  requests): stores with the same tables give different results.
\<close>

definition ex_user_binding :: "string \<Rightarrow> nat DataProviderEntry" where
  "ex_user_binding expression = \<lparr>dp_Policy = ex_policy, dp_Binding = ''user'', dp_Expression = expression, dp_CAst = None\<rparr>"

definition ex_bind :: "Domain \<Rightarrow> string \<Rightarrow> string \<Rightarrow> (nat, nat) RegisteredDataStore \<Rightarrow> (nat, nat) RegisteredDataStore" where
  "ex_bind domain policy expression r = Store_Set (ex_policy\<lparr>rid_Name := policy\<rparr>) ''route'' domain ''user'' (ex_user_binding expression) r"

lemma auth_binding_order:
  "set (st_dataProviders (ex_bind DOMAIN_AUTH ''b'' ''2'' (ex_bind DOMAIN_AUTH ''a'' ''1'' NewRegisteredDataStore))) =
     set (st_dataProviders (ex_bind DOMAIN_AUTH ''a'' ''1'' (ex_bind DOMAIN_AUTH ''b'' ''2'' NewRegisteredDataStore))) \<and>
   mutateAuthConfig (\<lambda>properties. properties) (\<lambda>ref. ''route'') (ex_bind DOMAIN_AUTH ''b'' ''2'' (ex_bind DOMAIN_AUTH ''a'' ''1'' NewRegisteredDataStore))
       \<lparr>ac_Response = None\<rparr> [policyTargetRef ''HTTPRoute'' ''toys'' ''ns''] \<noteq>
     mutateAuthConfig (\<lambda>properties. properties) (\<lambda>ref. ''route'') (ex_bind DOMAIN_AUTH ''a'' ''1'' (ex_bind DOMAIN_AUTH ''b'' ''2'' NewRegisteredDataStore))
       \<lparr>ac_Response = None\<rparr> [policyTargetRef ''HTTPRoute'' ''toys'' ''ns'']"
  by code_simp

lemma request_binding_order:
  "GetRequestBindings (\<lambda>i. ex_bind DOMAIN_REQUEST ''b'' ''2'' (ex_bind DOMAIN_REQUEST ''a'' ''1'' NewRegisteredDataStore))
       [RegisteredDataMutator 0 :: nat mutator] [''route''] \<noteq>
     GetRequestBindings (\<lambda>i. ex_bind DOMAIN_REQUEST ''a'' ''1'' (ex_bind DOMAIN_REQUEST ''b'' ''2'' NewRegisteredDataStore))
       [RegisteredDataMutator 0 :: nat mutator] [''route'']"
  by code_simp

end
