(* ===== verification/Extension_Sessions.thy ===== *)
theory Extension_Sessions
  imports Go_Prelude
begin

text \<open>
  Sessions of extensions (\<open>internal/extension/session.go\<close>), the interceptor that checks them
  (\<open>interceptor.go\<close>) and the compatibility of protocol versions
  (\<open>pkg/extension/protocol/protocol.go\<close>).

  The store is a record with the fields of \<open>SessionStore\<close>; a set (\<open>map[string]struct{}\<close>) is a
  list of its members, and a session pointer is held by value, since only the table refers to
  it.  Times and durations are integers of nanoseconds.  Every operation that reads the clock
  takes its value as an argument: the store is locked, so the clock stands still in between.
  Every exported method holds the lock from start to end, which makes it one step of the
  transition relation \<open>session_step\<close>; the timer armed by \<open>BeginWarmup\<close> is a step of its own.
\<close>

section \<open>Data\<close>

record session =
  sess_identity :: string
  sess_token :: string
  sess_policyKind :: string
  sess_lastSeen :: int

record SessionStore =
  ss_credentials :: "(string, string) gomap"
  ss_sessions :: "(string, session) gomap"
  ss_sessionTTL :: int
  ss_builtinNames :: "string list"
  ss_warmupComplete :: bool

datatype session_error =
    ErrAlreadyConnected
  | ErrPolicyKindRequired
  | ErrPolicyKindTaken string string
  | ErrSessionToken string

definition second :: int where
  "second = 1000000000"

definition defaultSessionTTL :: int where
  "defaultSessionTTL = 45 * second"

definition NewSessionStore :: SessionStore where
  "NewSessionStore = \<lparr>ss_credentials = [], ss_sessions = [], ss_sessionTTL = defaultSessionTTL,
     ss_builtinNames = [], ss_warmupComplete = True\<rparr>"

section \<open>Operations\<close>

definition SetSessionTTL :: "int \<Rightarrow> SessionStore \<Rightarrow> SessionStore" where
  "SetSessionTTL ttl s = (if ttl \<le> 0 then s else s\<lparr>ss_sessionTTL := ttl\<rparr>)"

definition isStaleLocked :: "int \<Rightarrow> SessionStore \<Rightarrow> session \<Rightarrow> bool" where
  "isStaleLocked now s sess \<longleftrightarrow> now - sess_lastSeen sess > ss_sessionTTL s"

fun findSession :: "(session \<Rightarrow> bool) \<Rightarrow> (string, session) gomap \<Rightarrow> session option" where
  "findSession P [] = None"
| "findSession P ((token, sess) # m) = (if P sess then Some sess else findSession P m)"

definition sessionByIdentityLocked :: "string \<Rightarrow> SessionStore \<Rightarrow> session option" where
  "sessionByIdentityLocked identity s = findSession (\<lambda>sess. sess_identity sess = identity) (ss_sessions s)"

definition sessionByPolicyKindLocked :: "string \<Rightarrow> SessionStore \<Rightarrow> session option" where
  "sessionByPolicyKindLocked policyKind s = findSession (\<lambda>sess. sess_policyKind sess = policyKind) (ss_sessions s)"

definition allBuiltinsRegisteredLocked :: "SessionStore \<Rightarrow> bool" where
  "allBuiltinsRegisteredLocked s = list_all (\<lambda>name. sessionByIdentityLocked name s \<noteq> None) (ss_builtinNames s)"

text \<open>The second component tells whether the timer is armed.\<close>

definition BeginWarmup :: "string list \<Rightarrow> SessionStore \<Rightarrow> SessionStore \<times> bool" where
  "BeginWarmup builtinNames s =
     (let s = s\<lparr>ss_builtinNames := foldl (\<lambda>names name. List.insert name names) (ss_builtinNames s) builtinNames\<rparr>;
          s = s\<lparr>ss_warmupComplete := allBuiltinsRegisteredLocked s\<rparr>
      in (s, \<not> ss_warmupComplete s))"

definition warmupElapsed :: "SessionStore \<Rightarrow> SessionStore" where
  "warmupElapsed s = s\<lparr>ss_warmupComplete := True\<rparr>"

definition isWarmupComplete :: "SessionStore \<Rightarrow> bool" where
  "isWarmupComplete s = ss_warmupComplete s"

definition deleteSession :: "string \<Rightarrow> SessionStore \<Rightarrow> SessionStore" where
  "deleteSession token s = s\<lparr>ss_sessions := gm_delete token (ss_sessions s)\<rparr>"

definition revokeIdentityLocked :: "string \<Rightarrow> SessionStore \<Rightarrow> SessionStore \<times> bool" where
  "revokeIdentityLocked identity s =
     (case sessionByIdentityLocked identity s of
        None \<Rightarrow> (s, False)
      | Some sess \<Rightarrow> (deleteSession (sess_token sess) s, True))"

definition RevokeByName :: "string \<Rightarrow> SessionStore \<Rightarrow> SessionStore \<times> bool" where
  "RevokeByName identity s = revokeIdentityLocked identity s"

definition setCredentialLocked :: "string \<Rightarrow> string \<Rightarrow> SessionStore \<Rightarrow> SessionStore" where
  "setCredentialLocked name credential s =
     (case map_of (ss_credentials s) name of
        Some existing \<Rightarrow>
          if existing = credential then s
          else let s = fst (revokeIdentityLocked name s)
               in s\<lparr>ss_credentials := gm_set name credential (ss_credentials s)\<rparr>
      | None \<Rightarrow> s\<lparr>ss_credentials := gm_set name credential (ss_credentials s)\<rparr>)"

definition SetCredential :: "string \<Rightarrow> string \<Rightarrow> SessionStore \<Rightarrow> SessionStore" where
  "SetCredential name credential s = setCredentialLocked name credential s"

definition matchBuiltin :: "string \<Rightarrow> SessionStore \<Rightarrow> string \<times> bool" where
  "matchBuiltin token s =
     foldl (\<lambda>(name, found) (candidate, credential).
        if token = credential then (candidate, True) else (name, found)) ([], False) (ss_credentials s)"

text \<open>
  \<open>CreateSession\<close> in three parts: the checks on the identity, those on the policy kind, and the
  new entry.  \<open>gen\<close> is what \<open>generateSessionToken\<close> returns: a token made of random bytes, or
  the error of the random source.  A stale session of the identity is removed even when the kind
  turns out to be taken.
\<close>

definition addSession ::
  "int \<Rightarrow> string + string \<Rightarrow> string \<Rightarrow> string \<Rightarrow> SessionStore \<Rightarrow> (session_error + string) \<times> SessionStore" where
  "addSession now gen identity policyKind s =
     (case gen of
        Inl err \<Rightarrow> (Inl (ErrSessionToken err), s)
      | Inr token \<Rightarrow>
          let s = s\<lparr>ss_sessions := gm_set token \<lparr>sess_identity = identity, sess_token = token,
                     sess_policyKind = policyKind, sess_lastSeen = now\<rparr> (ss_sessions s)\<rparr>;
              s = (if \<not> ss_warmupComplete s \<and> allBuiltinsRegisteredLocked s
                   then s\<lparr>ss_warmupComplete := True\<rparr> else s)
          in (Inr token, s))"

definition claimKind ::
  "int \<Rightarrow> string + string \<Rightarrow> string \<Rightarrow> string \<Rightarrow> SessionStore \<Rightarrow> (session_error + string) \<times> SessionStore" where
  "claimKind now gen identity policyKind s =
     (case sessionByPolicyKindLocked policyKind s of
        Some owner \<Rightarrow>
          if \<not> isStaleLocked now s owner then (Inl (ErrPolicyKindTaken policyKind (sess_identity owner)), s)
          else addSession now gen identity policyKind (deleteSession (sess_token owner) s)
      | None \<Rightarrow> addSession now gen identity policyKind s)"

definition CreateSession ::
  "int \<Rightarrow> string + string \<Rightarrow> string \<Rightarrow> string \<Rightarrow> SessionStore \<Rightarrow> (session_error + string) \<times> SessionStore" where
  "CreateSession now gen identity policyKind s =
     (if policyKind = [] then (Inl ErrPolicyKindRequired, s)
      else case sessionByIdentityLocked identity s of
        Some existing \<Rightarrow>
          if \<not> isStaleLocked now s existing then (Inl ErrAlreadyConnected, s)
          else claimKind now gen identity policyKind (deleteSession (sess_token existing) s)
      | None \<Rightarrow> claimKind now gen identity policyKind s)"

definition Touch :: "int \<Rightarrow> string \<Rightarrow> SessionStore \<Rightarrow> SessionStore" where
  "Touch now token s =
     (case map_of (ss_sessions s) token of
        Some sess \<Rightarrow> s\<lparr>ss_sessions := gm_set token (sess\<lparr>sess_lastSeen := now\<rparr>) (ss_sessions s)\<rparr>
      | None \<Rightarrow> s)"

definition ReapStale :: "int \<Rightarrow> SessionStore \<Rightarrow> SessionStore \<times> string list" where
  "ReapStale now s =
     (s\<lparr>ss_sessions := filter (\<lambda>(token, sess). \<not> isStaleLocked now s sess) (ss_sessions s)\<rparr>,
      map (\<lambda>(token, sess). sess_identity sess) (filter (\<lambda>(token, sess). isStaleLocked now s sess) (ss_sessions s)))"

definition ValidateSession :: "string \<Rightarrow> SessionStore \<Rightarrow> string \<times> bool" where
  "ValidateSession token s =
     (case map_of (ss_sessions s) token of Some sess \<Rightarrow> (sess_identity sess, True) | None \<Rightarrow> ([], False))"

section \<open>The interceptor\<close>

text \<open>
  \<open>md\<close> is what the request carries under \<open>SessionMetadataKey\<close>: \<^const>\<open>None\<close> when there is no
  metadata at all.  A handler is a function of the identity it finds in its context.
\<close>

definition authenticate :: "int \<Rightarrow> string list option \<Rightarrow> SessionStore \<Rightarrow> (string + string) \<times> SessionStore" where
  "authenticate now md s =
     (case md of
        None \<Rightarrow> (Inl ''missing metadata'', s)
      | Some tokens \<Rightarrow>
          if length tokens = 0 then (Inl ''missing session token'', s)
          else let (identity, valid) = ValidateSession (hd tokens) s in
            if \<not> valid then (Inl ''invalid session token'', s)
            else (Inr identity, Touch now (hd tokens) s))"

definition Handshake_FullMethodName :: string where
  "Handshake_FullMethodName = ''/kuadrant.v1.ExtensionService/Handshake''"

text \<open>
  The state a handler changes beyond the sessions is \<open>'w\<close>; it runs with no identity only for the
  handshake.
\<close>

definition UnaryInterceptor ::
  "int \<Rightarrow> string \<Rightarrow> string list option \<Rightarrow> (string option \<Rightarrow> SessionStore \<Rightarrow> 'w \<Rightarrow> (string + 'r) \<times> SessionStore \<times> 'w) \<Rightarrow>
    SessionStore \<Rightarrow> 'w \<Rightarrow> (string + 'r) \<times> SessionStore \<times> 'w" where
  "UnaryInterceptor now fullMethod md handler s w =
     (if fullMethod = Handshake_FullMethodName then handler None s w
      else case authenticate now md s of
        (Inl err, s) \<Rightarrow> (Inl err, s, w)
      | (Inr identity, s) \<Rightarrow> handler (Some identity) s w)"

definition StreamInterceptor ::
  "int \<Rightarrow> string list option \<Rightarrow> (string option \<Rightarrow> SessionStore \<Rightarrow> 'w \<Rightarrow> string option \<times> SessionStore \<times> 'w) \<Rightarrow>
    SessionStore \<Rightarrow> 'w \<Rightarrow> string option \<times> SessionStore \<times> 'w" where
  "StreamInterceptor now md handler s w =
     (case authenticate now md s of
        (Inl err, s) \<Rightarrow> (Some err, s, w)
      | (Inr identity, s) \<Rightarrow> handler (Some identity) s w)"

section \<open>Protocol versions\<close>

datatype version_error = InvalidVersion string string | IncompatibleVersions string string

text \<open>
  \<open>parse\<close> stands for \<open>semver.StrictNewVersion\<close>: the major and minor number of a version, or the
  error it reports.
\<close>

definition protocol_Version :: string where
  "protocol_Version = ''0.1.0''"

definition Compatible :: "(string \<Rightarrow> string + nat \<times> nat) \<Rightarrow> string \<Rightarrow> string \<Rightarrow> version_error option" where
  "Compatible parse a b =
     (case parse a of Inl err \<Rightarrow> Some (InvalidVersion a err)
      | Inr left \<Rightarrow> (case parse b of Inl err \<Rightarrow> Some (InvalidVersion b err)
        | Inr right \<Rightarrow>
            if fst left \<noteq> fst right \<or> (fst left = 0 \<and> snd left \<noteq> snd right)
            then Some (IncompatibleVersions a b) else None))"

section \<open>Steps\<close>

text \<open>
  The system around a store: the clock, and the number of warm-up timers that are armed.
\<close>

record session_system =
  sys_store :: SessionStore
  sys_clock :: int
  sys_timers :: nat

definition session_start :: "session_system" where
  "session_start = \<lparr>sys_store = NewSessionStore, sys_clock = 0, sys_timers = 0\<rparr>"

inductive session_step :: "session_system \<Rightarrow> session_system \<Rightarrow> bool" where
  tick: "0 \<le> d \<Longrightarrow> session_step y (y\<lparr>sys_clock := sys_clock y + d\<rparr>)"
| set_ttl: "session_step y (y\<lparr>sys_store := SetSessionTTL ttl (sys_store y)\<rparr>)"
| begin_warmup: "BeginWarmup names (sys_store y) = (s, armed) \<Longrightarrow>
    session_step y (y\<lparr>sys_store := s, sys_timers := sys_timers y + (if armed then 1 else 0)\<rparr>)"
| timer: "sys_timers y > 0 \<Longrightarrow>
    session_step y (y\<lparr>sys_store := warmupElapsed (sys_store y), sys_timers := sys_timers y - 1\<rparr>)"
| set_credential: "session_step y (y\<lparr>sys_store := SetCredential name credential (sys_store y)\<rparr>)"
| create: "CreateSession (sys_clock y) gen identity policyKind (sys_store y) = (r, s) \<Longrightarrow>
    session_step y (y\<lparr>sys_store := s\<rparr>)"
| touch: "session_step y (y\<lparr>sys_store := Touch (sys_clock y) token (sys_store y)\<rparr>)"
| reap: "session_step y (y\<lparr>sys_store := fst (ReapStale (sys_clock y) (sys_store y))\<rparr>)"
| revoke: "session_step y (y\<lparr>sys_store := fst (RevokeByName identity (sys_store y))\<rparr>)"

inductive_cases session_stepE: "session_step y z"

section \<open>The invariant\<close>

definition sessions_ok :: "(string, session) gomap \<Rightarrow> bool" where
  "sessions_ok m \<longleftrightarrow> gm_wf m \<and>
     (\<forall>e\<in>set m. sess_token (snd e) = fst e \<and> sess_policyKind (snd e) \<noteq> []) \<and>
     (\<forall>e\<in>set m. \<forall>f\<in>set m. sess_identity (snd e) = sess_identity (snd f) \<or>
        sess_policyKind (snd e) = sess_policyKind (snd f) \<longrightarrow> e = f)"

definition session_inv :: "session_system \<Rightarrow> bool" where
  "session_inv y \<longleftrightarrow> sessions_ok (ss_sessions (sys_store y)) \<and> gm_wf (ss_credentials (sys_store y)) \<and>
     0 < ss_sessionTTL (sys_store y) \<and>
     (\<forall>e\<in>set (ss_sessions (sys_store y)). sess_lastSeen (snd e) \<le> sys_clock y) \<and>
     (\<not> ss_warmupComplete (sys_store y) \<longrightarrow> sys_timers y > 0)"

lemma findSession_None: "findSession P m = None \<longleftrightarrow> (\<forall>e\<in>set m. \<not> P (snd e))"
  by (induction P m rule: findSession.induct) auto

lemma findSession_Some: "findSession P m = Some sess \<Longrightarrow> \<exists>t. (t, sess) \<in> set m \<and> P sess"
  by (induction P m rule: findSession.induct) (auto split: if_splits)

lemma sessions_ok_subset:
  "sessions_ok m \<Longrightarrow> set m' \<subseteq> set m \<Longrightarrow> gm_wf m' \<Longrightarrow> sessions_ok m'"
  unfolding sessions_ok_def by blast

lemma sessions_ok_delete [simp]: "sessions_ok m \<Longrightarrow> sessions_ok (gm_delete t m)"
  by (rule sessions_ok_subset) (auto simp: set_gm_delete sessions_ok_def)

lemma sessions_ok_filter [simp]: "sessions_ok m \<Longrightarrow> sessions_ok (filter P m)"
  by (rule sessions_ok_subset) (auto simp: sessions_ok_def)

text \<open>The one session that has the identity, or that owns the kind.\<close>

lemma sessions_ok_find_iff:
  assumes "sessions_ok m" and "\<And>e f. e \<in> set m \<Longrightarrow> f \<in> set m \<Longrightarrow> P (snd e) \<Longrightarrow> P (snd f) \<Longrightarrow> e = f"
  shows "findSession P m = Some sess \<longleftrightarrow> (sess_token sess, sess) \<in> set m \<and> P sess"
proof
  assume "findSession P m = Some sess"
  then obtain t where "(t, sess) \<in> set m" "P sess" using findSession_Some by blast
  with assms(1) show "(sess_token sess, sess) \<in> set m \<and> P sess" by (auto simp: sessions_ok_def)
next
  assume sess: "(sess_token sess, sess) \<in> set m \<and> P sess"
  then obtain x where x: "findSession P m = Some x"
    using findSession_None [of P m] by (cases "findSession P m") force+
  then obtain t where "(t, x) \<in> set m" "P x" using findSession_Some by blast
  with sess assms(2) [of "(t, x)" "(sess_token sess, sess)"] have "x = sess" by simp
  with x show "findSession P m = Some sess" by simp
qed

lemma sessionByIdentity_iff:
  "sessions_ok (ss_sessions s) \<Longrightarrow> sessionByIdentityLocked identity s = Some sess \<longleftrightarrow>
    (sess_token sess, sess) \<in> set (ss_sessions s) \<and> sess_identity sess = identity"
  unfolding sessionByIdentityLocked_def
  by (rule sessions_ok_find_iff) (auto simp: sessions_ok_def)

lemma sessionByPolicyKind_iff:
  "sessions_ok (ss_sessions s) \<Longrightarrow> sessionByPolicyKindLocked policyKind s = Some sess \<longleftrightarrow>
    (sess_token sess, sess) \<in> set (ss_sessions s) \<and> sess_policyKind sess = policyKind"
  unfolding sessionByPolicyKindLocked_def
  by (rule sessions_ok_find_iff) (auto simp: sessions_ok_def)


section \<open>Creating a session\<close>

text \<open>The sessions that stand in the way of a new one.\<close>

definition conflicts :: "string \<Rightarrow> string \<Rightarrow> session \<Rightarrow> bool" where
  "conflicts identity policyKind sess \<longleftrightarrow> sess_identity sess = identity \<or> sess_policyKind sess = policyKind"

definition newSession :: "int \<Rightarrow> string \<Rightarrow> string \<Rightarrow> string \<Rightarrow> session" where
  "newSession now token identity policyKind =
     \<lparr>sess_identity = identity, sess_token = token, sess_policyKind = policyKind, sess_lastSeen = now\<rparr>"

lemma deleteSession_simps [simp]:
  "ss_sessions (deleteSession t s) = gm_delete t (ss_sessions s)"
  "ss_credentials (deleteSession t s) = ss_credentials s"
  "ss_sessionTTL (deleteSession t s) = ss_sessionTTL s"
  "ss_builtinNames (deleteSession t s) = ss_builtinNames s"
  "ss_warmupComplete (deleteSession t s) = ss_warmupComplete s"
  "isStaleLocked now (deleteSession t s) = isStaleLocked now s"
  by (auto simp: deleteSession_def isStaleLocked_def fun_eq_iff)

lemma addSession_Inr:
  "addSession now (Inr token) identity policyKind s = (r, s') \<Longrightarrow>
    r = Inr token \<and> ss_sessions s' = gm_set token (newSession now token identity policyKind) (ss_sessions s)"
  by (auto simp: addSession_def Let_def newSession_def split: if_splits)

lemma addSession_frame:
  "addSession now gen identity policyKind s = (r, s') \<Longrightarrow>
    ss_credentials s' = ss_credentials s \<and> ss_sessionTTL s' = ss_sessionTTL s \<and>
    ss_builtinNames s' = ss_builtinNames s \<and> (ss_warmupComplete s \<longrightarrow> ss_warmupComplete s')"
  by (auto simp: addSession_def Let_def split: sum.splits if_splits)

lemma claimKind_frame:
  "claimKind now gen identity policyKind s = (r, s') \<Longrightarrow>
    ss_credentials s' = ss_credentials s \<and> ss_sessionTTL s' = ss_sessionTTL s \<and>
    ss_builtinNames s' = ss_builtinNames s \<and> (ss_warmupComplete s \<longrightarrow> ss_warmupComplete s')"
  by (auto simp: claimKind_def dest!: addSession_frame split: option.splits if_splits)

lemma CreateSession_frame:
  "CreateSession now gen identity policyKind s = (r, s') \<Longrightarrow>
    ss_credentials s' = ss_credentials s \<and> ss_sessionTTL s' = ss_sessionTTL s \<and>
    ss_builtinNames s' = ss_builtinNames s \<and> (ss_warmupComplete s \<longrightarrow> ss_warmupComplete s')"
  by (auto simp: CreateSession_def dest!: claimKind_frame split: option.splits if_splits)

lemma delete_unique:
  assumes "sessions_ok m" and "(sess_token sess, sess) \<in> set m"
  shows "set (gm_delete (sess_token sess) m) = set m - {(sess_token sess, sess)}"
proof -
  have "fst e = sess_token sess \<longleftrightarrow> e = (sess_token sess, sess)" if "e \<in> set m" for e
  proof
    assume "fst e = sess_token sess"
    moreover have "gm_wf m" using assms(1) by (simp add: sessions_ok_def)
    ultimately show "e = (sess_token sess, sess)"
      using that assms(2) by (metis eq_key_imp_eq_value prod.collapse)
  qed simp
  then show ?thesis by (auto simp: set_gm_delete)
qed

text \<open>What is left after the stale sessions in the way are removed, or the reason why not.\<close>

lemma claimKind_cases:
  assumes "sessions_ok (ss_sessions s)" and "claimKind now gen identity policyKind s = (r, s')"
  obtains (taken) owner where "(sess_token owner, owner) \<in> set (ss_sessions s)"
      "sess_policyKind owner = policyKind" "\<not> isStaleLocked now s owner"
      "r = Inl (ErrPolicyKindTaken policyKind (sess_identity owner))" "s' = s"
  | (free) s1 where "addSession now gen identity policyKind s1 = (r, s')" "sessions_ok (ss_sessions s1)"
      "\<forall>e\<in>set (ss_sessions s). sess_policyKind (snd e) = policyKind \<longrightarrow> isStaleLocked now s (snd e)"
      "set (ss_sessions s1) = {e \<in> set (ss_sessions s). sess_policyKind (snd e) \<noteq> policyKind}"
proof (cases "sessionByPolicyKindLocked policyKind s")
  case None
  then have "\<forall>e\<in>set (ss_sessions s). sess_policyKind (snd e) \<noteq> policyKind"
    by (simp add: sessionByPolicyKindLocked_def findSession_None)
  with None assms show ?thesis by (intro free [of s]) (auto simp: claimKind_def)
next
  case (Some owner)
  then have owner: "(sess_token owner, owner) \<in> set (ss_sessions s)" "sess_policyKind owner = policyKind"
    using assms(1) by (auto simp: sessionByPolicyKind_iff)
  then have uniq: "\<And>e. e \<in> set (ss_sessions s) \<Longrightarrow> sess_policyKind (snd e) = policyKind \<longleftrightarrow> e = (sess_token owner, owner)"
    using assms(1) by (fastforce simp: sessions_ok_def)
  show ?thesis
  proof (cases "isStaleLocked now s owner")
    case True
    with Some assms owner uniq show ?thesis
      by (intro free [of "deleteSession (sess_token owner) s"]) (auto simp: claimKind_def delete_unique)
  next
    case False
    with Some assms owner show ?thesis by (intro taken [of owner]) (auto simp: claimKind_def)
  qed
qed

lemma CreateSession_cases:
  assumes "sessions_ok (ss_sessions s)" and "CreateSession now gen identity policyKind s = (r, s')"
  obtains (no_kind) "policyKind = []" "r = Inl ErrPolicyKindRequired" "s' = s"
  | (connected) existing where "(sess_token existing, existing) \<in> set (ss_sessions s)"
      "sess_identity existing = identity" "\<not> isStaleLocked now s existing"
      "r = Inl ErrAlreadyConnected" "s' = s"
  | (free) s1 where "claimKind now gen identity policyKind s1 = (r, s')" "sessions_ok (ss_sessions s1)"
      "policyKind \<noteq> []" "isStaleLocked now s1 = isStaleLocked now s"
      "\<forall>e\<in>set (ss_sessions s). sess_identity (snd e) = identity \<longrightarrow> isStaleLocked now s (snd e)"
      "set (ss_sessions s1) = {e \<in> set (ss_sessions s). sess_identity (snd e) \<noteq> identity}"
proof (cases "policyKind = []")
  case True
  with assms no_kind show ?thesis by (auto simp: CreateSession_def)
next
  case kind: False
  show ?thesis
  proof (cases "sessionByIdentityLocked identity s")
    case None
    then have "\<forall>e\<in>set (ss_sessions s). sess_identity (snd e) \<noteq> identity"
      by (simp add: sessionByIdentityLocked_def findSession_None)
    with None kind assms show ?thesis by (intro free [of s]) (auto simp: CreateSession_def)
  next
    case (Some existing)
    then have ex: "(sess_token existing, existing) \<in> set (ss_sessions s)" "sess_identity existing = identity"
      using assms(1) by (auto simp: sessionByIdentity_iff)
    then have uniq: "\<And>e. e \<in> set (ss_sessions s) \<Longrightarrow> sess_identity (snd e) = identity \<longleftrightarrow> e = (sess_token existing, existing)"
      using assms(1) by (fastforce simp: sessions_ok_def)
    show ?thesis
    proof (cases "isStaleLocked now s existing")
      case True
      with Some kind assms ex uniq show ?thesis
        by (intro free [of "deleteSession (sess_token existing) s"]) (auto simp: CreateSession_def delete_unique)
    next
      case False
      with Some kind assms ex show ?thesis by (intro connected [of existing]) (auto simp: CreateSession_def)
    qed
  qed
qed

text \<open>A call that succeeds, and one that does not.\<close>

lemma CreateSession_Inr:
  assumes "sessions_ok (ss_sessions s)" and "CreateSession now gen identity policyKind s = (Inr token, s')"
  shows "gen = Inr token \<and> policyKind \<noteq> [] \<and> sessions_ok (ss_sessions s') \<and>
    (\<forall>e\<in>set (ss_sessions s). conflicts identity policyKind (snd e) \<longrightarrow> isStaleLocked now s (snd e)) \<and>
    set (ss_sessions s') = insert (token, newSession now token identity policyKind)
      {e \<in> set (ss_sessions s). fst e \<noteq> token \<and> \<not> conflicts identity policyKind (snd e)}"
  using assms
proof (cases rule: CreateSession_cases)
  case (free s1)
  from free(2,1) show ?thesis
  proof (cases rule: claimKind_cases)
    case inner: (free s2)
    then obtain t where gen: "gen = Inr t" by (cases gen) (auto simp: addSession_def)
    with inner(1) addSession_Inr [of now t identity policyKind s2 "Inr token" s'] have
      new: "t = token" "ss_sessions s' = gm_set token (newSession now token identity policyKind) (ss_sessions s2)"
      by auto
    have wf: "gm_wf (ss_sessions s2)" using inner(2) by (simp add: sessions_ok_def)
    have set': "set (ss_sessions s') = insert (token, newSession now token identity policyKind)
      {e \<in> set (ss_sessions s). fst e \<noteq> token \<and> \<not> conflicts identity policyKind (snd e)}"
      using new(2) set_gm_set [OF wf] free(6) inner(4) by (auto simp: conflicts_def)
    moreover have "gm_wf (ss_sessions s')" using wf new(2) by simp
    then have "sessions_ok (ss_sessions s')"
      using assms(1) set' \<open>policyKind \<noteq> []\<close> by (auto simp: sessions_ok_def newSession_def conflicts_def)
    moreover have "\<forall>e\<in>set (ss_sessions s). conflicts identity policyKind (snd e) \<longrightarrow> isStaleLocked now s (snd e)"
      using free(4-6) inner(3) by (auto simp: conflicts_def)
    ultimately show ?thesis using gen new(1) \<open>policyKind \<noteq> []\<close> by blast
  qed auto
qed auto


lemma live_conflict:
  "(sess_token sess, sess) \<in> set m \<Longrightarrow> conflicts identity policyKind sess \<Longrightarrow> \<not> P sess \<Longrightarrow>
    \<exists>e\<in>set m. conflicts identity policyKind (snd e) \<and> \<not> P (snd e)"
  by (rule bexI [of _ "(sess_token sess, sess)"]) auto

lemma CreateSession_Inl:
  assumes "sessions_ok (ss_sessions s)" and "CreateSession now gen identity policyKind s = (Inl err, s')"
  shows "sessions_ok (ss_sessions s') \<and> set (ss_sessions s') \<subseteq> set (ss_sessions s) \<and>
    (\<forall>e\<in>set (ss_sessions s). \<not> isStaleLocked now s (snd e) \<longrightarrow> e \<in> set (ss_sessions s')) \<and>
    (policyKind = [] \<or> (\<exists>e\<in>set (ss_sessions s). conflicts identity policyKind (snd e) \<and> \<not> isStaleLocked now s (snd e)) \<or>
     (\<exists>m. gen = Inl m))"
  using assms
proof (cases rule: CreateSession_cases)
  case (free s1)
  from free(2,1) show ?thesis
  proof (cases rule: claimKind_cases)
    case (taken owner)
    then have "\<exists>e\<in>set (ss_sessions s). conflicts identity policyKind (snd e) \<and> \<not> isStaleLocked now s (snd e)"
      using free by (intro live_conflict [of owner]) (auto simp: conflicts_def)
    with taken(5) free show ?thesis by auto
  next
    case inner: (free s2)
    then obtain m where "gen = Inl m" "s' = s2" by (cases gen) (auto simp: addSession_def Let_def)
    then show ?thesis using inner free by auto
  qed
next
  case (connected existing)
  then have "\<exists>e\<in>set (ss_sessions s). conflicts identity policyKind (snd e) \<and> \<not> isStaleLocked now s (snd e)"
    by (intro live_conflict [of existing]) (auto simp: conflicts_def)
  with connected(5) assms(1) show ?thesis by auto
qed (use assms in auto)

lemma CreateSession_succeeds:
  assumes "sessions_ok (ss_sessions s)" and "policyKind \<noteq> []"
    and "\<forall>e\<in>set (ss_sessions s). conflicts identity policyKind (snd e) \<longrightarrow> isStaleLocked now s (snd e)"
  shows "\<exists>s'. CreateSession now (Inr token) identity policyKind s = (Inr token, s')"
proof (cases "CreateSession now (Inr token) identity policyKind s")
  case (Pair r s')
  show ?thesis
  proof (cases r)
    case (Inl err)
    with Pair assms CreateSession_Inl [of s now "Inr token" identity policyKind err s'] show ?thesis by auto
  next
    case (Inr t)
    with Pair assms(1) CreateSession_Inr [of s now "Inr token" identity policyKind t s'] show ?thesis by auto
  qed
qed

section \<open>Every step keeps the invariant\<close>

lemma Touch_sessions:
  "map_of (ss_sessions (Touch now token s)) =
     (case map_of (ss_sessions s) token of None \<Rightarrow> map_of (ss_sessions s)
      | Some sess \<Rightarrow> (map_of (ss_sessions s))(token \<mapsto> sess\<lparr>sess_lastSeen := now\<rparr>))"
  by (auto simp: Touch_def split: option.splits)

lemma set_Touch:
  assumes "sessions_ok (ss_sessions s)"
  shows "set (ss_sessions (Touch now token s)) =
    (\<lambda>(t, sess). (t, if t = token then sess\<lparr>sess_lastSeen := now\<rparr> else sess)) ` set (ss_sessions s)"
proof (cases "map_of (ss_sessions s) token")
  case None
  then have "\<forall>e\<in>set (ss_sessions s). fst e \<noteq> token" by (auto simp: map_of_eq_None_iff)
  with None show ?thesis by (force simp: Touch_def)
next
  case (Some sess)
  have wf: "gm_wf (ss_sessions s)" using assms by (simp add: sessions_ok_def)
  then have "\<And>x. (token, x) \<in> set (ss_sessions s) \<longleftrightarrow> x = sess"
    using Some by (metis map_of_eq_Some_iff option.inject)
  with Some show ?thesis by (force simp: Touch_def set_gm_set [OF wf])
qed

lemma sessions_ok_Touch:
  assumes "sessions_ok (ss_sessions s)"
  shows "sessions_ok (ss_sessions (Touch now token s))"
proof -
  have "gm_wf (ss_sessions (Touch now token s))"
    using assms by (auto simp: Touch_def sessions_ok_def split: option.splits)
  then show ?thesis
    using assms unfolding sessions_ok_def set_Touch [OF assms] by (fastforce split: if_splits)
qed

lemma revoke_subset:
  "set (ss_sessions (fst (revokeIdentityLocked identity s))) \<subseteq> set (ss_sessions s)"
  by (auto simp: revokeIdentityLocked_def set_gm_delete split: option.splits)

lemma sessions_ok_revoke:
  "sessions_ok (ss_sessions s) \<Longrightarrow> sessions_ok (ss_sessions (fst (revokeIdentityLocked identity s)))"
  by (auto simp: revokeIdentityLocked_def split: option.splits)

lemma revoke_frame [simp]:
  "ss_credentials (fst (revokeIdentityLocked identity s)) = ss_credentials s"
  "ss_sessionTTL (fst (revokeIdentityLocked identity s)) = ss_sessionTTL s"
  "ss_warmupComplete (fst (revokeIdentityLocked identity s)) = ss_warmupComplete s"
  by (auto simp: revokeIdentityLocked_def split: option.splits)

lemma SetCredential_sessions:
  "set (ss_sessions (SetCredential name credential s)) \<subseteq> set (ss_sessions s) \<and>
   (sessions_ok (ss_sessions s) \<longrightarrow> sessions_ok (ss_sessions (SetCredential name credential s)))"
  using revoke_subset [of name s]
  by (auto simp: SetCredential_def setCredentialLocked_def Let_def sessions_ok_revoke split: option.splits if_splits)

lemma SetCredential_frame:
  "ss_sessionTTL (SetCredential name credential s) = ss_sessionTTL s"
  "ss_warmupComplete (SetCredential name credential s) = ss_warmupComplete s"
  "gm_wf (ss_credentials s) \<Longrightarrow> gm_wf (ss_credentials (SetCredential name credential s))"
  by (auto simp: SetCredential_def setCredentialLocked_def Let_def split: option.splits)

lemma session_inv_create:
  assumes "session_inv y" and "CreateSession (sys_clock y) gen identity policyKind (sys_store y) = (r, s)"
  shows "session_inv (y\<lparr>sys_store := s\<rparr>)"
proof -
  have ok: "sessions_ok (ss_sessions (sys_store y))" using assms(1) by (simp add: session_inv_def)
  have "sessions_ok (ss_sessions s) \<and> (\<forall>e\<in>set (ss_sessions s). sess_lastSeen (snd e) \<le> sys_clock y)"
  proof (cases r)
    case (Inl err)
    with CreateSession_Inl [OF ok assms(2) [unfolded Inl]] assms(1) show ?thesis by (auto simp: session_inv_def)
  next
    case (Inr token)
    with CreateSession_Inr [OF ok assms(2) [unfolded Inr]] assms(1) show ?thesis
      by (auto simp: session_inv_def newSession_def)
  qed
  with CreateSession_frame [OF assms(2)] assms(1) show ?thesis by (auto simp: session_inv_def)
qed

lemma session_inv_step: "session_step y z \<Longrightarrow> session_inv y \<Longrightarrow> session_inv z"
proof (induction rule: session_step.induct)
  case (set_credential y name credential)
  then show ?case using SetCredential_sessions [of name credential "sys_store y"]
    by (auto simp: session_inv_def SetCredential_frame)
next
  case (create y gen identity policyKind r s)
  then show ?case by (auto intro: session_inv_create)
next
  case (touch y token)
  then have "sessions_ok (ss_sessions (sys_store y))" by (simp add: session_inv_def)
  with touch show ?case
    by (auto simp: session_inv_def sessions_ok_Touch set_Touch)
       (auto simp: Touch_def split: option.splits)
next
  case (revoke y identity)
  then show ?case using revoke_subset [of identity "sys_store y"]
    by (auto simp: session_inv_def RevokeByName_def sessions_ok_revoke)
qed (auto simp: session_inv_def SetSessionTTL_def BeginWarmup_def warmupElapsed_def ReapStale_def Let_def
   intro: add_increasing2)

interpretation sessions: transition_system session_start session_step session_inv
proof
  show "session_inv session_start"
    by (simp add: session_inv_def session_start_def NewSessionStore_def sessions_ok_def defaultSessionTTL_def second_def)
qed (rule session_inv_step)


section \<open>Properties\<close>

lemma session_unique_by_token:
  assumes "sessions_ok m" and "map_of m t = Some x" and "map_of m u = Some y"
    and "sess_identity x = sess_identity y \<or> sess_policyKind x = sess_policyKind y"
  shows "t = u"
proof -
  have "(t, x) \<in> set m" "(u, y) \<in> set m" using assms(2,3) by (auto dest: map_of_SomeD)
  with assms(1,4) have "(t, x) = (u, y)" unfolding sessions_ok_def by fastforce
  then show ?thesis by simp
qed

lemma CreateSession_Inr_iff:
  assumes "sessions_ok (ss_sessions s)"
  shows "fst (CreateSession now gen identity policyKind s) = Inr token \<longleftrightarrow>
    gen = Inr token \<and> policyKind \<noteq> [] \<and>
    list_all (\<lambda>(t, sess). \<not> conflicts identity policyKind sess \<or> isStaleLocked now s sess) (ss_sessions s)"
    (is "?l \<longleftrightarrow> ?r")
proof
  assume ?l
  then obtain s' where "CreateSession now gen identity policyKind s = (Inr token, s')" by (metis prod.collapse)
  from CreateSession_Inr [OF assms this] show ?r by (auto simp: list_all_iff)
next
  assume r: ?r
  then have "\<forall>e\<in>set (ss_sessions s). conflicts identity policyKind (snd e) \<longrightarrow> isStaleLocked now s (snd e)"
    by (auto simp: list_all_iff)
  with r obtain s' where "CreateSession now gen identity policyKind s = (Inr token, s')"
    using CreateSession_succeeds [OF assms, of policyKind identity now token] by auto
  then show ?l by simp
qed

lemma CreateSession_keeps_live:
  assumes "sessions_ok (ss_sessions s)" and "map_of (ss_sessions s) t = Some sess"
    and "\<not> isStaleLocked now s sess" and "gen \<noteq> Inr t"
  shows "map_of (ss_sessions (snd (CreateSession now gen identity policyKind s))) t = Some sess"
proof -
  obtain r s' where c: "CreateSession now gen identity policyKind s = (r, s')" by fastforce
  have e: "(t, sess) \<in> set (ss_sessions s)" using assms(2) by (rule map_of_SomeD)
  have "(t, sess) \<in> set (ss_sessions s') \<and> sessions_ok (ss_sessions s')"
  proof (cases r)
    case (Inl err)
    from CreateSession_Inl [OF assms(1) c [unfolded Inl]] e assms(3) show ?thesis by auto
  next
    case (Inr token)
    from CreateSession_Inr [OF assms(1) c [unfolded Inr]] e assms(3,4) show ?thesis by auto
  qed
  then show ?thesis using c by (auto simp: sessions_ok_def)
qed

text \<open>
  C28.  In every reachable state an extension holds at most one session and a policy kind has
  at most one owner, each session is filed under its own token and has a kind, no session was
  seen in the future, and a warm-up that is still pending has a timer that will end it.
\<close>

theorem sessions_exclusive:
  assumes "session_step\<^sup>*\<^sup>* session_start y"
    and "map_of (ss_sessions (sys_store y)) t = Some a" and "map_of (ss_sessions (sys_store y)) u = Some b"
  shows "(sess_identity a = sess_identity b \<longrightarrow> t = u) \<and> (sess_policyKind a = sess_policyKind b \<longrightarrow> t = u) \<and>
    sess_token a = t \<and> sess_policyKind a \<noteq> [] \<and> sess_lastSeen a \<le> sys_clock y \<and>
    (isWarmupComplete (sys_store y) \<or> sys_timers y > 0)"
proof -
  have inv: "session_inv y" using assms(1) by (rule sessions.inv_reachable)
  then have ok: "sessions_ok (ss_sessions (sys_store y))" by (simp add: session_inv_def)
  have "(t, a) \<in> set (ss_sessions (sys_store y))" using assms(2) by (auto dest: map_of_SomeD)
  then have "sess_token a = t \<and> sess_policyKind a \<noteq> [] \<and> sess_lastSeen a \<le> sys_clock y"
    using inv by (fastforce simp: session_inv_def sessions_ok_def)
  moreover have "isWarmupComplete (sys_store y) \<or> sys_timers y > 0"
    using inv by (auto simp: session_inv_def isWarmupComplete_def)
  ultimately show ?thesis using session_unique_by_token [OF ok assms(2,3)] by blast
qed

definition ex_sessions :: session_system where
  "ex_sessions = session_start\<lparr>sys_store := snd (CreateSession 0 (Inr ''t1'') ''oidc'' ''OIDCPolicy'' NewSessionStore)\<rparr>"

lemma ex_sessions_reachable: "session_step\<^sup>*\<^sup>* session_start ex_sessions"
proof -
  have "session_step session_start ex_sessions"
    unfolding ex_sessions_def
    by (rule session_step.create [where gen = "Inr ''t1''" and identity = "''oidc''" and policyKind = "''OIDCPolicy''"])
       (simp add: session_start_def prod_eq_iff)
  then show ?thesis by blast
qed

lemma ex_sessions_eval: "map_of (ss_sessions (sys_store ex_sessions)) ''t1'' = Some (newSession 0 ''t1'' ''oidc'' ''OIDCPolicy'')"
  by code_simp

theorem sessions_exclusive_witness:
  "sess_token (newSession 0 ''t1'' ''oidc'' ''OIDCPolicy'') = ''t1'' \<and>
   (isWarmupComplete (sys_store ex_sessions) \<or> sys_timers ex_sessions > 0)"
  using sessions_exclusive [OF ex_sessions_reachable ex_sessions_eval ex_sessions_eval] by simp

text \<open>
  A session is created exactly when a policy kind is given, the random source works, and
  no live session has the identity or owns the kind.  Whatever the outcome, a live session under
  another token is untouched: an extension that keeps its session alive is never displaced.
\<close>

theorem CreateSession_never_hijacks:
  assumes "session_step\<^sup>*\<^sup>* session_start y"
  shows "(fst (CreateSession (sys_clock y) gen identity policyKind (sys_store y)) = Inr token \<longleftrightarrow>
      gen = Inr token \<and> policyKind \<noteq> [] \<and>
      list_all (\<lambda>(t, sess). \<not> conflicts identity policyKind sess \<or> isStaleLocked (sys_clock y) (sys_store y) sess)
        (ss_sessions (sys_store y))) \<and>
    (map_of (ss_sessions (sys_store y)) t = Some sess \<longrightarrow> \<not> isStaleLocked (sys_clock y) (sys_store y) sess \<longrightarrow>
      gen \<noteq> Inr t \<longrightarrow>
      map_of (ss_sessions (snd (CreateSession (sys_clock y) gen identity policyKind (sys_store y)))) t = Some sess)"
proof -
  have ok: "sessions_ok (ss_sessions (sys_store y))"
    using sessions.inv_reachable [OF assms] by (simp add: session_inv_def)
  show ?thesis
    by (intro conjI impI CreateSession_Inr_iff [OF ok] CreateSession_keeps_live [OF ok])
qed

theorem CreateSession_never_hijacks_witness:
  "fst (CreateSession (sys_clock ex_sessions) (Inr ''t2'') ''plan'' ''PlanPolicy'' (sys_store ex_sessions)) = Inr ''t2'' \<and>
   map_of (ss_sessions (snd (CreateSession (sys_clock ex_sessions) (Inr ''t2'') ''plan'' ''PlanPolicy'' (sys_store ex_sessions)))) ''t1''
     = Some (newSession 0 ''t1'' ''oidc'' ''OIDCPolicy'')"
proof -
  have e: "list_all (\<lambda>(t, sess). \<not> conflicts ''plan'' ''PlanPolicy'' sess \<or> isStaleLocked (sys_clock ex_sessions) (sys_store ex_sessions) sess)
    (ss_sessions (sys_store ex_sessions))"
    "\<not> isStaleLocked (sys_clock ex_sessions) (sys_store ex_sessions) (newSession 0 ''t1'' ''oidc'' ''OIDCPolicy'')"
    by code_simp+
  show ?thesis
    using CreateSession_never_hijacks [OF ex_sessions_reachable, of "Inr ''t2''" "''plan''" "''PlanPolicy''" "''t2''" "''t1''"
      "newSession 0 ''t1'' ''oidc'' ''OIDCPolicy''"] e ex_sessions_eval by simp
qed

text \<open>
  C29.  Sessions are never stuck: once the time to live has passed with no call, reaping leaves
  no session, any extension can take over any kind, and its new token is accepted by the
  interceptor.
\<close>

theorem sessions_not_stuck:
  assumes "session_step\<^sup>*\<^sup>* session_start y" and "policyKind \<noteq> []"
    and "later > sys_clock y + ss_sessionTTL (sys_store y)"
  shows "ss_sessions (fst (ReapStale later (sys_store y))) = [] \<and>
    fst (CreateSession later (Inr token) identity policyKind (sys_store y)) = Inr token \<and>
    (fst (authenticate later (Some [token]) (snd (CreateSession later (Inr token) identity policyKind (sys_store y)))) =
      Inr identity)"
proof -
  have inv: "session_inv y" using assms(1) by (rule sessions.inv_reachable)
  then have ok: "sessions_ok (ss_sessions (sys_store y))" by (simp add: session_inv_def)
  have stale: "\<forall>e\<in>set (ss_sessions (sys_store y)). isStaleLocked later (sys_store y) (snd e)"
    using inv assms(3) by (fastforce simp: session_inv_def isStaleLocked_def)
  then obtain s' where s': "CreateSession later (Inr token) identity policyKind (sys_store y) = (Inr token, s')"
    using CreateSession_succeeds [OF ok assms(2)] by blast
  then have "(token, newSession later token identity policyKind) \<in> set (ss_sessions s')" "sessions_ok (ss_sessions s')"
    using CreateSession_Inr [OF ok s'] by auto
  then have "ValidateSession token s' = (identity, True)"
    by (auto simp: ValidateSession_def sessions_ok_def newSession_def)
  with s' stale show ?thesis
    by (auto simp: ReapStale_def authenticate_def filter_empty_conv)
qed

theorem sessions_not_stuck_witness:
  "ss_sessions (fst (ReapStale (46 * second) (sys_store ex_sessions))) = [] \<and>
   fst (CreateSession (46 * second) (Inr ''t2'') ''plan'' ''OIDCPolicy'' (sys_store ex_sessions)) = Inr ''t2''"
proof -
  have "46 * second > sys_clock ex_sessions + ss_sessionTTL (sys_store ex_sessions)" by code_simp
  from sessions_not_stuck [OF ex_sessions_reachable _ this, of "''OIDCPolicy''" "''t2''" "''plan''"] show ?thesis by simp
qed

end
