(* ===== verification/Extension_Manager.thy ===== *)
theory Extension_Manager
  imports Extension_Sessions "HOL-Library.Word"
begin

text \<open>
  The manager around the extension service (\<open>internal/extension/manager.go\<close>): how it reads its
  settings, finds the built-in extensions, starts and stops them and asks for a reconciliation;
  and the authenticator of standalone extensions (\<open>authenticator.go\<close>).

  The environment, the directory listing, \<open>time.ParseDuration\<close> and the Kubernetes API are
  parameters.  Listening sockets, goroutines and log lines are not modelled.
\<close>

unbundle bit_operations_syntax

section \<open>Settings\<close>

definition defaultExtensionServicePort :: int where
  "defaultExtensionServicePort = 50052"

definition defaultWarmupTimeout :: int where
  "defaultWarmupTimeout = 30 * second"

definition minReaperInterval :: int where
  "minReaperInterval = 1 * second"

text \<open>A positive duration from the environment, or the default.\<close>

definition positiveDuration :: "(string \<Rightarrow> string + int) \<Rightarrow> int \<Rightarrow> string \<Rightarrow> int" where
  "positiveDuration ParseDuration default_value value_string =
     (if value_string = [] then default_value
      else case ParseDuration value_string of
        Inl err \<Rightarrow> default_value
      | Inr d \<Rightarrow> if d \<le> 0 then default_value else d)"

definition warmupTimeout :: "(string \<Rightarrow> string + int) \<Rightarrow> string \<Rightarrow> int" where
  "warmupTimeout ParseDuration EXTENSIONS_WARMUP_TIMEOUT =
     positiveDuration ParseDuration defaultWarmupTimeout EXTENSIONS_WARMUP_TIMEOUT"

definition sessionTTL :: "(string \<Rightarrow> string + int) \<Rightarrow> string \<Rightarrow> int" where
  "sessionTTL ParseDuration EXTENSIONS_SESSION_TTL =
     positiveDuration ParseDuration defaultSessionTTL EXTENSIONS_SESSION_TTL"

text \<open>Go divides towards zero; a negative time to live is below the minimum either way.\<close>

definition reaperInterval :: "int \<Rightarrow> int" where
  "reaperInterval ttl = (let interval = ttl div 3 in
     if interval < minReaperInterval then minReaperInterval else interval)"

text \<open>\<open>env.GetInt\<close> gives a number or an error.\<close>

definition extensionPort :: "string + int \<Rightarrow> int" where
  "extensionPort EXTENSIONS_SERVICE_PORT =
     (let port = (case EXTENSIONS_SERVICE_PORT of Inl err \<Rightarrow> defaultExtensionServicePort | Inr port \<Rightarrow> port) in
      if port < 1 \<or> port > 65535 then defaultExtensionServicePort else port)"

section \<open>Discovery\<close>

record DirEntry =
  de_Name :: string
  de_IsDir :: bool

record FileInfo =
  fi_IsDir :: bool
  fi_Mode :: "32 word"

text \<open>
  \<open>readDir\<close> is the listing of the extensions directory, \<^const>\<open>None\<close> when it is missing or cannot
  be read; \<open>stat\<close> tells what is at \<open><dir>/<name>/<name>\<close>.
\<close>

definition discoverExtensions :: "DirEntry list option \<Rightarrow> (string \<Rightarrow> FileInfo option) \<Rightarrow> string list" where
  "discoverExtensions readDir stat = (case readDir of None \<Rightarrow> []
     | Some entries \<Rightarrow> map de_Name (filter (\<lambda>entry. de_IsDir entry \<and>
         (case stat (de_Name entry) of None \<Rightarrow> False
          | Some info \<Rightarrow> \<not> fi_IsDir info \<and> fi_Mode info AND 73 \<noteq> 0)) entries))"

section \<open>The manager\<close>

text \<open>
  What the manager keeps: the built-in extensions that could be set up, and the sessions.
  \<open>rand\<close> gives the credential of an extension, hexadecimal digits of random bytes, or the error of
  the random source; \<open>oop\<close> is what \<open>NewOOPExtension\<close> reports for a name.
\<close>

record Manager =
  mgr_extensions :: "string list"
  mgr_sessionStore :: SessionStore
  mgr_extensionPort :: int

datatype manager_error =
    ErrNoExtensionsFound
  | CredentialFailed string string
  | ExtensionErrors "(string \<times> string) list"

definition newExtension ::
  "(string \<Rightarrow> string option) \<Rightarrow> string \<Rightarrow> string \<Rightarrow> string list \<times> SessionStore \<times> (string \<times> string) list \<Rightarrow>
    string list \<times> SessionStore \<times> (string \<times> string) list" where
  "newExtension oop name credential = (\<lambda>(extensions, store, errs).
     let store = SetCredential name credential store in
     case oop name of None \<Rightarrow> (extensions @ [name], store, errs)
     | Some e \<Rightarrow> (extensions, store, errs @ [(name, e)]))"

fun newExtensions ::
  "(string \<Rightarrow> string + string) \<Rightarrow> (string \<Rightarrow> string option) \<Rightarrow> string list \<Rightarrow>
    string list \<times> SessionStore \<times> (string \<times> string) list \<Rightarrow>
    manager_error + string list \<times> SessionStore \<times> (string \<times> string) list" where
  "newExtensions rand oop [] acc = Inr acc"
| "newExtensions rand oop (name # names) acc =
     (case rand name of Inl e \<Rightarrow> Inl (CredentialFailed name e)
      | Inr credential \<Rightarrow> newExtensions rand oop names (newExtension oop name credential acc))"

text \<open>The manager is returned together with the errors of single extensions.\<close>

definition NewManager ::
  "DirEntry list option \<Rightarrow> (string \<Rightarrow> FileInfo option) \<Rightarrow> string + int \<Rightarrow> (string \<Rightarrow> string + string) \<Rightarrow>
    (string \<Rightarrow> string option) \<Rightarrow> Manager option \<times> manager_error option" where
  "NewManager readDir stat port rand oop =
     (let names = discoverExtensions readDir stat in
      if length names = 0 then (None, Some ErrNoExtensionsFound)
      else case newExtensions rand oop names ([], NewSessionStore, []) of
        Inl e \<Rightarrow> (None, Some e)
      | Inr (extensions, store, errs) \<Rightarrow>
          (Some \<lparr>mgr_extensions = extensions, mgr_sessionStore = store, mgr_extensionPort = extensionPort port\<rparr>,
           if errs = [] then None else Some (ExtensionErrors errs)))"

text \<open>The parts of \<open>Start\<close> and \<open>Stop\<close> that change the sessions; the timer is armed when warm-up is pending.\<close>

definition beginWarmup :: "Manager \<Rightarrow> Manager \<times> bool" where
  "beginWarmup m = (let (store, armed) = BeginWarmup (mgr_extensions m) (mgr_sessionStore m)
     in (m\<lparr>mgr_sessionStore := store\<rparr>, armed))"

definition startReaper :: "(string \<Rightarrow> string + int) \<Rightarrow> string \<Rightarrow> Manager \<Rightarrow> Manager \<times> int" where
  "startReaper ParseDuration EXTENSIONS_SESSION_TTL m =
     (let ttl = sessionTTL ParseDuration EXTENSIONS_SESSION_TTL
      in (m\<lparr>mgr_sessionStore := SetSessionTTL ttl (mgr_sessionStore m)\<rparr>, reaperInterval ttl))"

definition Manager_Stop :: "(string \<Rightarrow> string option) \<Rightarrow> Manager \<Rightarrow> Manager \<times> (string \<times> string) list" where
  "Manager_Stop stop m =
     (m\<lparr>mgr_sessionStore := foldl (\<lambda>store name. fst (RevokeByName name store)) (mgr_sessionStore m) (mgr_extensions m)\<rparr>,
      List.map_filter (\<lambda>name. map_option (Pair name) (stop name)) (mgr_extensions m))"

section \<open>Reconciliation\<close>

definition TriggerTimeAnnotation :: string where
  "TriggerTimeAnnotation = ''extensions.kuadrant.io/trigger-time''"

definition TriggerReasonAnnotation :: string where
  "TriggerReasonAnnotation = ''extensions.kuadrant.io/trigger-reason''"

text \<open>What is read of a Kuadrant resource.\<close>

record KuadrantItem =
  ki_Namespace :: string
  ki_Name :: string
  ki_Deleted :: bool
  ki_Annotations :: "(string, string) gomap option"

datatype trigger_error = ListFailed string | NoKuadrant | NoneUpdated

definition annotate :: "string \<Rightarrow> string \<Rightarrow> KuadrantItem \<Rightarrow> KuadrantItem" where
  "annotate now reason k = k\<lparr>ki_Annotations := Some (gm_set TriggerReasonAnnotation reason
     (gm_set TriggerTimeAnnotation now (Deref (ki_Annotations k) [])))\<rparr>"

text \<open>\<open>update\<close> is what the API server answers; the result is the resource that was updated.\<close>

fun triggerLoop :: "string \<Rightarrow> (KuadrantItem \<Rightarrow> string option) \<Rightarrow> string \<Rightarrow> KuadrantItem list \<Rightarrow> trigger_error + KuadrantItem" where
  "triggerLoop now update reason [] = Inl NoneUpdated"
| "triggerLoop now update reason (k # ks) =
     (if ki_Deleted k then triggerLoop now update reason ks
      else case update (annotate now reason k) of
        Some err \<Rightarrow> triggerLoop now update reason ks
      | None \<Rightarrow> Inr (annotate now reason k))"

definition TriggerReconciliation ::
  "string \<Rightarrow> string + KuadrantItem list \<Rightarrow> (KuadrantItem \<Rightarrow> string option) \<Rightarrow> string \<Rightarrow> trigger_error + KuadrantItem" where
  "TriggerReconciliation now listed update reason =
     (case listed of Inl err \<Rightarrow> Inl (ListFailed err)
      | Inr items \<Rightarrow> if length items = 0 then Inl NoKuadrant else triggerLoop now update reason items)"

text \<open>\<open>utils.go\<close>: whether the annotations of a trigger differ; maps are compared by content.\<close>

definition AnnotationsChanged :: "(string, string) gomap \<Rightarrow> (string, string) gomap \<Rightarrow> bool" where
  "AnnotationsChanged oldAnnotations newAnnotations =
     list_ex (\<lambda>key. map_of oldAnnotations key \<noteq> map_of newAnnotations key) [TriggerTimeAnnotation, TriggerReasonAnnotation]"

section \<open>Standalone extensions\<close>

definition extensionTokenAudience :: string where "extensionTokenAudience = ''kuadrant-extensions''"
definition registrationAPIGroup :: string where "registrationAPIGroup = ''extensions.kuadrant.io''"
definition registrationResource :: string where "registrationResource = ''policyregistrations''"
definition registrationVerb :: string where "registrationVerb = ''register''"

record UserInfo =
  user_Username :: string
  user_UID :: string
  user_Groups :: "string list"
  user_Extra :: "(string, string list) gomap option"

record TokenReviewSpec =
  trs_Token :: string
  trs_Audiences :: "string list"

record TokenReviewStatus =
  trt_Error :: string
  trt_Authenticated :: bool
  trt_Audiences :: "string list"
  trt_User :: UserInfo

record SubjectAccessReviewSpec =
  sar_User :: string
  sar_UID :: string
  sar_Groups :: "string list"
  sar_Extra :: "(string, string list) gomap option"
  sar_Group :: string
  sar_Resource :: string
  sar_Verb :: string
  sar_Name :: string

datatype auth_error =
    TokenReviewFailed string
  | TokenReviewError string
  | NotAuthenticated
  | WrongAudience "string list"
  | AccessReviewFailed string
  | NotAuthorized string string

definition audienceGranted :: "string list \<Rightarrow> bool" where
  "audienceGranted granted = list_ex (\<lambda>audience. audience = extensionTokenAudience) granted"

definition convertExtra :: "(string, string list) gomap option \<Rightarrow> (string, string list) gomap option" where
  "convertExtra extra = (case extra of None \<Rightarrow> None
     | Some m \<Rightarrow> Some (foldl (\<lambda>converted (k, v). gm_set k v converted) [] m))"

definition reviewToken ::
  "(TokenReviewSpec \<Rightarrow> string + TokenReviewStatus) \<Rightarrow> string \<Rightarrow> auth_error + UserInfo" where
  "reviewToken TokenReviews token =
     (case TokenReviews \<lparr>trs_Token = token, trs_Audiences = [extensionTokenAudience]\<rparr> of
        Inl err \<Rightarrow> Inl (TokenReviewFailed err)
      | Inr status \<Rightarrow>
          if trt_Error status \<noteq> [] then Inl (TokenReviewError (trt_Error status))
          else if \<not> trt_Authenticated status then Inl NotAuthenticated
          else if \<not> audienceGranted (trt_Audiences status) then Inl (WrongAudience (trt_Audiences status))
          else Inr (trt_User status))"

definition accessReviewOf :: "UserInfo \<Rightarrow> string \<Rightarrow> SubjectAccessReviewSpec" where
  "accessReviewOf user policyKind = \<lparr>sar_User = user_Username user, sar_UID = user_UID user, sar_Groups = user_Groups user,
     sar_Extra = convertExtra (user_Extra user), sar_Group = registrationAPIGroup, sar_Resource = registrationResource,
     sar_Verb = registrationVerb, sar_Name = policyKind\<rparr>"

definition authorize ::
  "(SubjectAccessReviewSpec \<Rightarrow> string + bool) \<Rightarrow> UserInfo \<Rightarrow> string \<Rightarrow> auth_error + bool" where
  "authorize SubjectAccessReviews user policyKind =
     (case SubjectAccessReviews (accessReviewOf user policyKind) of
        Inl err \<Rightarrow> Inl (AccessReviewFailed err) | Inr allowed \<Rightarrow> Inr allowed)"

text \<open>In \<open>manager.go\<close>; the review functions are the two clients of the Kubernetes API.\<close>

definition authenticateStandalone ::
  "(TokenReviewSpec \<Rightarrow> string + TokenReviewStatus) \<Rightarrow> (SubjectAccessReviewSpec \<Rightarrow> string + bool) \<Rightarrow>
    string \<Rightarrow> string \<Rightarrow> auth_error + string" where
  "authenticateStandalone TokenReviews SubjectAccessReviews token policyKind =
     ebind (reviewToken TokenReviews token) (\<lambda>user.
     ebind (authorize SubjectAccessReviews user policyKind) (\<lambda>allowed.
       if \<not> allowed then Inl (NotAuthorized (user_Username user) policyKind) else Inr (user_Username user)))"

section \<open>Properties\<close>

text \<open>
  Whatever the environment says, the settings of the manager are usable: the port is a TCP
  port, the warm-up ends and sessions can expire; sessions are swept at least every second third
  of their life when that is a second or more, and never more often than once a second.
\<close>

theorem settings_bounds:
  "1 \<le> extensionPort port \<and> extensionPort port \<le> 65535 \<and>
   0 < warmupTimeout ParseDuration warmup \<and> 0 < sessionTTL ParseDuration ttl \<and>
   minReaperInterval \<le> reaperInterval d \<and>
   (3 * minReaperInterval \<le> d \<longrightarrow> 3 * reaperInterval d \<le> d \<and> d < 3 * reaperInterval d + 3) \<and>
   (d < 3 * minReaperInterval \<longrightarrow> reaperInterval d = minReaperInterval)"
  by (auto simp: extensionPort_def warmupTimeout_def sessionTTL_def positiveDuration_def reaperInterval_def Let_def
      defaultExtensionServicePort_def defaultWarmupTimeout_def defaultSessionTTL_def second_def minReaperInterval_def
      split: sum.splits)

theorem settings_bounds_witness:
  "reaperInterval (45 * second) = 15 * second \<and> extensionPort (Inr 70000) = 50052 \<and> extensionPort (Inr 8080) = 8080 \<and>
   3 * reaperInterval (45 * second) \<le> 45 * second"
proof -
  have "3 * minReaperInterval \<le> 45 * second" by code_simp
  with settings_bounds [of "Inr 70000" "\<lambda>s. Inl []" "[]" "[]" "45 * second"]
  have "3 * reaperInterval (45 * second) \<le> 45 * second" by blast
  moreover have "reaperInterval (45 * second) = 15 * second" "extensionPort (Inr 70000) = 50052" "extensionPort (Inr 8080) = 8080"
    by code_simp+
  ultimately show ?thesis by blast
qed

text \<open>The reconciliation is asked of the first resource that is not being deleted and that the server accepts.\<close>

lemma triggerLoop_find:
  "triggerLoop now update reason items =
    (case List.find (\<lambda>k. \<not> ki_Deleted k \<and> update (annotate now reason k) = None) items of
       None \<Rightarrow> Inl NoneUpdated | Some k \<Rightarrow> Inr (annotate now reason k))"
  by (induction items) (auto split: option.splits)

lemma annotate_changes:
  "AnnotationsChanged (Deref (ki_Annotations k) []) (Deref (ki_Annotations (annotate now reason k)) []) \<longleftrightarrow>
    map_of (Deref (ki_Annotations k) []) TriggerTimeAnnotation \<noteq> Some now \<or>
    map_of (Deref (ki_Annotations k) []) TriggerReasonAnnotation \<noteq> Some reason"
  by (simp add: AnnotationsChanged_def annotate_def TriggerTimeAnnotation_def TriggerReasonAnnotation_def)

lemma TriggerReconciliation_Inr_iff:
  "(\<exists>k. TriggerReconciliation now (Inr items) update reason = Inr k) \<longleftrightarrow>
    (\<exists>k\<in>set items. \<not> ki_Deleted k \<and> update (annotate now reason k) = None)"
  unfolding TriggerReconciliation_def
  by (auto simp: triggerLoop_find find_None_iff split: option.splits dest: find_SomeD)

text \<open>Who a standalone extension is: an authenticated user with the right audience who may register the kind.\<close>

lemma authenticateStandalone_Inr_iff:
  "authenticateStandalone TokenReviews SubjectAccessReviews token policyKind = Inr identity \<longleftrightarrow>
    (\<exists>status. TokenReviews \<lparr>trs_Token = token, trs_Audiences = [extensionTokenAudience]\<rparr> = Inr status \<and>
      trt_Error status = [] \<and> trt_Authenticated status \<and> extensionTokenAudience \<in> set (trt_Audiences status) \<and>
      SubjectAccessReviews (accessReviewOf (trt_User status) policyKind) = Inr True \<and>
      identity = user_Username (trt_User status))"
  by (auto simp: authenticateStandalone_def reviewToken_def authorize_def audienceGranted_def list_ex_iff
      split: sum.splits if_splits)

lemma convertExtra_id: "case extra of None \<Rightarrow> True | Some m \<Rightarrow> gm_wf m \<Longrightarrow> convertExtra extra = extra"
  by (auto simp: convertExtra_def split: option.splits) (use foldl_gm_set [of _ "[]" "\<lambda>k v. v"] in simp)

end
