(* ===== verification/Extension_Service.thy ===== *)
theory Extension_Service
  imports Extension_Registry Extension_Manager
begin

text \<open>
  The handlers of the extension service (\<open>extensionService\<close> in \<open>internal/extension/manager.go\<close>).

  The state is the registered data, the sessions and the reasons the change notifier was called
  with; a handler returns its answer or error together with the new state, and a panic is the
  error \<open>ServicePanic\<close>.  The notifier may be missing (\<open>None\<close>) or report an error.  \<open>url.Parse\<close>,
  \<open>semver\<close>, the CEL parsers, the CEL environment, the Kubernetes API, the reflection client and
  the random source are parameters.  Error messages and the reasons given
  to the notifier are constructors with the values they print.
\<close>

section \<open>Strings\<close>

text \<open>How many bytes the first rune of a string takes, 1 for a byte that starts no valid rune.\<close>

definition inRange :: "nat \<Rightarrow> nat \<Rightarrow> nat \<Rightarrow> bool" where
  "inRange lo hi b \<longleftrightarrow> lo \<le> b \<and> b \<le> hi"

definition runeWidth :: "string \<Rightarrow> nat" where
  "runeWidth s = (case map of_char (take 4 s) :: nat list of
     b0 # b1 # rest \<Rightarrow>
       if inRange 194 223 b0 \<and> inRange 128 191 b1 then 2
       else if inRange 224 239 b0 \<and> inRange (if b0 = 224 then 160 else 128) (if b0 = 237 then 159 else 191) b1 \<and>
         rest \<noteq> [] \<and> inRange 128 191 (hd rest) then 3
       else if inRange 240 244 b0 \<and> inRange (if b0 = 240 then 144 else 128) (if b0 = 244 then 143 else 191) b1 \<and>
         length rest = 2 \<and> inRange 128 191 (rest ! 0) \<and> inRange 128 191 (rest ! 1) then 4
       else 1
   | _ \<Rightarrow> 1)"

lemma runeWidth_pos [simp]: "0 < runeWidth s"
  by (simp add: runeWidth_def split: list.splits)

definition clusterNameChar :: "char \<Rightarrow> bool" where
  "clusterNameChar c \<longleftrightarrow> (let n = of_char c :: nat in inRange 97 122 n \<or> inRange 65 90 n \<or> inRange 48 57 n \<or> n = 45)"

text \<open>\<open>invalidClusterNameChars.ReplaceAllString(host, "-")\<close>, rune by rune.\<close>

function replaceInvalid :: "string \<Rightarrow> string" where
  "replaceInvalid s = (if s = [] then []
     else (if clusterNameChar (hd s) then hd s else CHR ''-'') # replaceInvalid (drop (runeWidth s) s))"
  by pat_completeness auto
termination
  by (relation "measure length") auto

declare replaceInvalid.simps [simp del]

definition generateClusterName :: "string \<Rightarrow> int \<Rightarrow> string" where
  "generateClusterName host port = ''ext-'' @ replaceInvalid host @ (if port \<noteq> 0 then ''-'' @ itoa_int port else [])"

text \<open>The bytes of a white-space rune at the start of a string, and \<open>strings.TrimSpace(s) == ""\<close>.\<close>

definition spaceWidth :: "string \<Rightarrow> nat" where
  "spaceWidth s = (let b = map of_char (take 3 s) :: nat list in
     if b \<noteq> [] \<and> (inRange 9 13 (hd b) \<or> hd b = 32) then 1
     else if take 2 b = [194, 133] \<or> take 2 b = [194, 160] then 2
     else if b = [225, 154, 128] \<or> b = [227, 128, 128] \<or> b = [226, 129, 159] \<or>
       (take 2 b = [226, 128] \<and> length b = 3 \<and> (inRange 128 138 (b ! 2) \<or> inRange 168 169 (b ! 2) \<or> b ! 2 = 175)) then 3
     else 0)"

function isBlank :: "string \<Rightarrow> bool" where
  "isBlank s = (if s = [] then True else if spaceWidth s = 0 then False else isBlank (drop (spaceWidth s) s))"
  by pat_completeness auto
termination
  by (relation "measure length") auto

declare isBlank.simps [simp del]

definition maxInt :: int where
  "maxInt = 9223372036854775807"

text \<open>\<open>strconv.Atoi\<close> on the port of a URL, which \<open>url.Parse\<close> leaves as digits.\<close>

definition Atoi :: "string \<Rightarrow> int option" where
  "Atoi s = (if s = [] \<or> \<not> list_all (\<lambda>c. inRange 48 57 (of_char c)) s then None
     else let n = foldl (\<lambda>n c. 10 * n + int (of_char c - 48)) 0 s in if n > maxInt then None else Some n)"

definition varNameMatches :: "string \<Rightarrow> bool" where
  "varNameMatches v \<longleftrightarrow> v \<noteq> [] \<and> list_all isWordByte v \<and> \<not> inRange 48 57 (of_char (hd v))"

text \<open>The conversion \<open>int32(n)\<close> keeps the low 32 bits as a signed number.\<close>

definition int32 :: "nat \<Rightarrow> int" where
  "int32 n = sint (word_of_nat n :: 32 word)"

section \<open>State and errors\<close>

text \<open>The reasons for a reconciliation, with the values their texts print.\<close>

datatype reason =
    PrunedStale string PruneCounts
  | MutatorRegistered ResourceID
  | DataCleared ResourceID PruneCounts
  | ActionMethodRegistered string ResourceID string
  | PipelineCommitted ResourceID nat

record ('ast, 'val) extensionService =
  es_registeredData :: "('ast, 'val) RegisteredDataStore"
  es_sessionStore :: SessionStore
  es_notices :: "reason list"

type_synonym notifier = "(reason \<Rightarrow> string option) option"

datatype action_error =
    EntryNil
  | InvalidCEL string string
  | PhaseMissing
  | ActionMissing
  | GrpcMethodMissing
  | MethodNotRegistered string
  | InvalidVarName string
  | StatusOutOfRange int
  | LogMessageMissing
  | HeadersMissing
  | PathMissing
  | ValueMissing
  | AccessParseError string
  | VarAccessError string field_error

datatype service_error =
    RequestNil
  | PolicyNil
  | MetadataNil
  | PolicyIncomplete
  | DomainMissing
  | TargetRefsMissing
  | NameMissing
  | UrlMissing
  | ServiceMissing
  | MethodMissing
  | InvalidUrl string string
  | WrongScheme string
  | HostMissing string
  | InvalidPort string
  | NameTaken string ResourceID
  | FetchFailed string string string
  | FirstTargetRefNil
  | TargetRefNil ResourceID
  | PipelineWithoutTargets ResourceID
  | ActionError nat action_error
  | ReplaceFailed entry_error
  | CommittedNotNotified string
  | NoSessionIdentity
  | ServiceRefNil
  | ClusterNameMissing
  | ServiceNameMissing
  | DescriptorsNotFound ProtoCacheKey
  | MarshalFailed ProtoCacheKey string
  | NoDag
  | CelError string
  | ServicePanic

text \<open>A call of the notifier when there is one; the result is the error it reports.\<close>

definition changeNotifier :: "notifier \<Rightarrow> reason \<Rightarrow> ('ast, 'val) extensionService \<Rightarrow> string option \<times> ('ast, 'val) extensionService" where
  "changeNotifier notifier reason s = (case notifier of None \<Rightarrow> (None, s)
     | Some notify \<Rightarrow> (notify reason, s\<lparr>es_notices := es_notices s @ [reason]\<rparr>))"

definition newExtensionService :: "('ast, 'val) extensionService" where
  "newExtensionService = \<lparr>es_registeredData = NewRegisteredDataStore, es_sessionStore = NewSessionStore, es_notices = []\<rparr>"

definition validatePolicyRequest :: "pbPolicy option \<Rightarrow> service_error + ResourceID" where
  "validatePolicyRequest policy =
     (case policy of None \<Rightarrow> Inl PolicyNil
      | Some p \<Rightarrow> (case pol_Metadata p of None \<Rightarrow> Inl MetadataNil
        | Some md \<Rightarrow>
            if md_Kind md = [] \<or> md_Namespace md = [] \<or> md_Name md = [] then Inl PolicyIncomplete
            else Inr \<lparr>rid_Kind = md_Kind md, rid_Namespace = md_Namespace md, rid_Name = md_Name md\<rparr>))"

definition createLocatorFromProtobuf :: "pbTargetRef \<Rightarrow> string" where
  "createLocatorFromProtobuf ref =
     (let groupKind = (if pt_Group ref \<noteq> [] then pt_Kind ref @ ''.'' @ pt_Group ref else pt_Kind ref);
          name = (if pt_Namespace ref \<noteq> [] then pt_Namespace ref @ ''/'' @ pt_Name ref else pt_Name ref)
      in ToLower groupKind @ '':'' @ name)"

definition targetRefFromProtobuf :: "pbTargetRef \<Rightarrow> TargetRef" where
  "targetRefFromProtobuf ref = \<lparr>tr_Group = pt_Group ref, tr_Kind = pt_Kind ref, tr_Name = pt_Name ref, tr_Namespace = pt_Namespace ref\<rparr>"

section \<open>Handshake\<close>

datatype HandshakeRejection = REJECTION_UNSPECIFIED | REJECTION_INCOMPATIBLE_VERSION | REJECTION_INVALID_REQUEST
  | REJECTION_UNAVAILABLE | REJECTION_UNAUTHORIZED

datatype handshake_reason = VersionReason version_error | Reason string

record HandshakeRequest =
  hq_Version :: string
  hq_PolicyKind :: string
  hq_Token :: string
  hq_OwnedPolicies :: "Metadata option list"

record HandshakeResponse =
  hr_Accepted :: bool
  hr_Reason :: handshake_reason
  hr_SessionToken :: string
  hr_Version :: string
  hr_Rejection :: HandshakeRejection

definition handshakeRejected :: "handshake_reason \<Rightarrow> HandshakeRejection \<Rightarrow> HandshakeResponse" where
  "handshakeRejected reason rejection = \<lparr>hr_Accepted = False, hr_Reason = reason, hr_SessionToken = [],
     hr_Version = protocol_Version, hr_Rejection = rejection\<rparr>"

datatype owned_error = OwnedNil nat | OwnedKindMismatch nat Metadata string | OwnedNameEmpty nat Metadata

definition ownedResourceID :: "string \<Rightarrow> nat \<times> Metadata option \<Rightarrow> owned_error + ResourceID" where
  "ownedResourceID policyKind = (\<lambda>(i, entry). case entry of None \<Rightarrow> Inl (OwnedNil i)
     | Some md \<Rightarrow>
         if md_Kind md \<noteq> [] \<and> md_Kind md \<noteq> policyKind then Inl (OwnedKindMismatch i md policyKind)
         else if md_Name md = [] then Inl (OwnedNameEmpty i md)
         else Inr \<lparr>rid_Kind = policyKind, rid_Namespace = md_Namespace md, rid_Name = md_Name md\<rparr>)"

definition ownedResourceIDs :: "string \<Rightarrow> Metadata option list \<Rightarrow> owned_error + ResourceID list" where
  "ownedResourceIDs policyKind owned = etraverse (ownedResourceID policyKind) (zip [0..<length owned] owned)"

definition dataChanged :: "PruneCounts \<Rightarrow> bool" where
  "dataChanged counts \<longleftrightarrow> cnt_Mutators counts > 0 \<or> cnt_Upstreams counts > 0 \<or> cnt_PipelineActions counts > 0"

definition pruneStalePolicies ::
  "notifier \<Rightarrow> string \<Rightarrow> ResourceID list \<Rightarrow> ('ast, 'val) extensionService \<Rightarrow> ('ast, 'val) extensionService" where
  "pruneStalePolicies notifier policyKind owned s =
     (let (data, pruned, counts) = PruneToOwned policyKind owned (es_registeredData s);
          s = s\<lparr>es_registeredData := data\<rparr>
      in if length pruned = 0 then s
         else if dataChanged counts
         then snd (changeNotifier notifier (PrunedStale policyKind counts) s)
         else s)"

text \<open>Who is asking: a built-in extension by its credential, or after the warm-up a Kubernetes identity.\<close>

definition handshakeIdentity ::
  "(TokenReviewSpec \<Rightarrow> string + TokenReviewStatus) \<Rightarrow> (SubjectAccessReviewSpec \<Rightarrow> string + bool) \<Rightarrow>
    string \<Rightarrow> string \<Rightarrow> SessionStore \<Rightarrow> HandshakeResponse + string" where
  "handshakeIdentity TokenReviews SubjectAccessReviews token policyKind store =
     (let (identity, isBuiltin) = matchBuiltin token store in
      if isBuiltin then Inr identity
      else if \<not> isWarmupComplete store then Inl (handshakeRejected (Reason ''warmup in progress'') REJECTION_UNAVAILABLE)
      else case authenticateStandalone TokenReviews SubjectAccessReviews token policyKind of
        Inl err \<Rightarrow> Inl (handshakeRejected (Reason ''handshake failed'') REJECTION_UNAUTHORIZED)
      | Inr identity \<Rightarrow> Inr identity)"

definition Handshake ::
  "(string \<Rightarrow> string + nat \<times> nat) \<Rightarrow> (TokenReviewSpec \<Rightarrow> string + TokenReviewStatus) \<Rightarrow>
    (SubjectAccessReviewSpec \<Rightarrow> string + bool) \<Rightarrow> notifier \<Rightarrow> int \<Rightarrow> string + string \<Rightarrow> HandshakeRequest \<Rightarrow>
    ('ast, 'val) extensionService \<Rightarrow> HandshakeResponse \<times> ('ast, 'val) extensionService" where
  "Handshake parseVersion TokenReviews SubjectAccessReviews notifier now gen request s =
     (case Compatible parseVersion (hq_Version request) protocol_Version of
        Some err \<Rightarrow> (handshakeRejected (VersionReason err) REJECTION_INCOMPATIBLE_VERSION, s)
      | None \<Rightarrow>
          if hq_PolicyKind request = [] then (handshakeRejected (Reason ''policy_kind is required'') REJECTION_INVALID_REQUEST, s)
          else case ownedResourceIDs (hq_PolicyKind request) (hq_OwnedPolicies request) of
            Inl err \<Rightarrow> (handshakeRejected (Reason ''invalid owned_policies'') REJECTION_INVALID_REQUEST, s)
          | Inr ownedIDs \<Rightarrow>
              (case handshakeIdentity TokenReviews SubjectAccessReviews (hq_Token request) (hq_PolicyKind request) (es_sessionStore s) of
                 Inl rejected \<Rightarrow> (rejected, s)
               | Inr identity \<Rightarrow>
                   let (created, store) = CreateSession now gen identity (hq_PolicyKind request) (es_sessionStore s);
                       s = s\<lparr>es_sessionStore := store\<rparr>
                   in case created of
                        Inl err \<Rightarrow> (handshakeRejected (Reason ''handshake failed'') REJECTION_UNAVAILABLE, s)
                      | Inr token \<Rightarrow>
                          (\<lparr>hr_Accepted = True, hr_Reason = Reason [], hr_SessionToken = token, hr_Version = protocol_Version,
                             hr_Rejection = REJECTION_UNSPECIFIED\<rparr>,
                           pruneStalePolicies notifier (hq_PolicyKind request) ownedIDs s)))"

text \<open>The identity is the one the interceptor put into the context.\<close>

definition ReleaseSession :: "string option \<Rightarrow> ('ast, 'val) extensionService \<Rightarrow> (service_error + unit) \<times> ('ast, 'val) extensionService" where
  "ReleaseSession identity s = (case identity of None \<Rightarrow> (Inl NoSessionIdentity, s)
     | Some identity \<Rightarrow> (Inr (), s\<lparr>es_sessionStore := fst (RevokeByName identity (es_sessionStore s))\<rparr>))"

section \<open>Registered data\<close>

text \<open>The loop over the target references; a nil reference panics after the ones before it were stored.\<close>

fun setLocators ::
  "ResourceID \<Rightarrow> Domain \<Rightarrow> string \<Rightarrow> 'ast DataProviderEntry \<Rightarrow> pbTargetRef option list \<Rightarrow>
    ('ast, 'val) RegisteredDataStore \<Rightarrow> bool \<times> ('ast, 'val) RegisteredDataStore" where
  "setLocators policyID domain binding entry [] r = (True, r)"
| "setLocators policyID domain binding entry (ref # refs) r =
     (case ref of None \<Rightarrow> (False, r)
      | Some ref \<Rightarrow> setLocators policyID domain binding entry refs
          (Store_Set policyID (createLocatorFromProtobuf ref) domain binding entry r))"

record RegisterMutatorRequest =
  rm_Policy :: "pbPolicy option"
  rm_Domain :: Domain
  rm_Binding :: string
  rm_Expression :: string

definition RegisterMutator ::
  "notifier \<Rightarrow> RegisterMutatorRequest option \<Rightarrow> ('ast, 'val) extensionService \<Rightarrow>
    (service_error + unit) \<times> ('ast, 'val) extensionService" where
  "RegisterMutator notifier request s =
     (case request of None \<Rightarrow> (Inl RequestNil, s)
      | Some q \<Rightarrow> (case validatePolicyRequest (rm_Policy q) of
          Inl err \<Rightarrow> (Inl err, s)
        | Inr policyID \<Rightarrow>
            let refs = (case rm_Policy q of Some p \<Rightarrow> pol_TargetRefs p | None \<Rightarrow> []) in
            if rm_Domain q = DOMAIN_UNSPECIFIED then (Inl DomainMissing, s)
            else if length refs = 0 then (Inl TargetRefsMissing, s)
            else
              let entry = \<lparr>dp_Policy = policyID, dp_Binding = rm_Binding q, dp_Expression = rm_Expression q, dp_CAst = None\<rparr>;
                  (finished, data) = setLocators policyID (rm_Domain q) (rm_Binding q) entry refs (es_registeredData s);
                  s = s\<lparr>es_registeredData := data\<rparr>
              in if \<not> finished then (Inl ServicePanic, s)
                 else (Inr (), snd (changeNotifier notifier (MutatorRegistered policyID) s))))"

record ClearPolicyResponse =
  cr_ClearedMutators :: int
  cr_ClearedSubscriptions :: int

text \<open>A request is its policy, which may be nil.\<close>

definition ClearPolicy ::
  "notifier \<Rightarrow> pbPolicy option option \<Rightarrow> ('ast, 'val) extensionService \<Rightarrow>
    (service_error + ClearPolicyResponse) \<times> ('ast, 'val) extensionService" where
  "ClearPolicy notifier request s =
     (case request of None \<Rightarrow> (Inl RequestNil, s)
      | Some policy \<Rightarrow> (case validatePolicyRequest policy of
          Inl err \<Rightarrow> (Inl err, s)
        | Inr policyID \<Rightarrow>
            let (data, counts) = ClearPolicyData [policyID] (es_registeredData s);
                s = s\<lparr>es_registeredData := data\<rparr>;
                s = (if dataChanged counts
                     then snd (changeNotifier notifier (DataCleared policyID counts) s)
                     else s)
            in (Inr \<lparr>cr_ClearedMutators = int32 (cnt_Mutators counts), cr_ClearedSubscriptions = int32 (cnt_Subscriptions counts)\<rparr>, s)))"

record parsedURL =
  url_Scheme :: string
  url_Host :: string
  url_Hostname :: string
  url_Port :: string

record RegisterActionMethodRequest =
  ra_Policy :: "pbPolicy option"
  ra_Name :: string
  ra_Url :: string
  ra_Service :: string
  ra_Method :: string
  ra_MessageTemplate :: string

definition urlPort :: "string \<Rightarrow> string \<Rightarrow> service_error + int" where
  "urlPort url portStr = (if portStr = [] then Inr 0
     else case Atoi portStr of None \<Rightarrow> Inl (InvalidPort url) | Some port \<Rightarrow> Inr port)"

definition parseActionURL :: "(string \<Rightarrow> string + parsedURL) \<Rightarrow> string \<Rightarrow> service_error + parsedURL \<times> int" where
  "parseActionURL url_Parse url =
     (case url_Parse url of Inl err \<Rightarrow> Inl (InvalidUrl url err)
      | Inr parsed \<Rightarrow>
          if url_Scheme parsed \<noteq> ''grpc'' then Inl (WrongScheme (url_Scheme parsed))
          else if url_Hostname parsed = [] then Inl (HostMissing url)
          else ebind (urlPort url (url_Port parsed)) (\<lambda>port. Inr (parsed, port)))"

definition checkActionMethod :: "RegisterActionMethodRequest \<Rightarrow> service_error + ResourceID \<times> pbTargetRef option" where
  "checkActionMethod q =
     ebind (validatePolicyRequest (ra_Policy q)) (\<lambda>policyID.
       if isBlank (ra_Name q) then Inl NameMissing
       else if ra_Url q = [] then Inl UrlMissing
       else if ra_Service q = [] then Inl ServiceMissing
       else if ra_Method q = [] then Inl MethodMissing
       else case ra_Policy q of None \<Rightarrow> Inl PolicyNil
       | Some p \<Rightarrow> (case pol_TargetRefs p of [] \<Rightarrow> Inl TargetRefsMissing | ref # refs \<Rightarrow> Inr (policyID, ref)))"

definition actionMethodKey :: "ResourceID \<Rightarrow> RegisterActionMethodRequest \<Rightarrow> RegisteredUpstreamKey" where
  "actionMethodKey policyID q = \<lparr>uk_Policy = policyID, uk_Name = ra_Name q, uk_URL = ra_Url q, uk_Service = ra_Service q, uk_Method = ra_Method q\<rparr>"

definition actionMethodEntry :: "parsedURL \<Rightarrow> int \<Rightarrow> pbTargetRef \<Rightarrow> RegisterActionMethodRequest \<Rightarrow> RegisteredUpstreamEntry" where
  "actionMethodEntry parsed port ref q = \<lparr>ue_ClusterName = generateClusterName (url_Hostname parsed) port,
     ue_Host = url_Hostname parsed, ue_Port = port, ue_TargetRef = targetRefFromProtobuf ref, ue_Service = ra_Service q,
     ue_Method = ra_Method q, ue_FailureMode = ''deny'', ue_Timeout = ''100ms'', ue_MessageTemplate = ra_MessageTemplate q\<rparr>"

text \<open>
  Up to the reflection call, and from there on.  The store is not locked during the call:
  \<open>meanwhile\<close> is what other handlers do to the state in that time.
\<close>

definition prepareActionMethod ::
  "(string \<Rightarrow> string + parsedURL) \<Rightarrow> (string \<Rightarrow> string \<Rightarrow> string \<Rightarrow> string + FileDescriptorSet) \<Rightarrow>
    RegisterActionMethodRequest \<Rightarrow> ('ast, 'val) RegisteredDataStore \<Rightarrow>
    service_error + RegisteredUpstreamKey \<times> RegisteredUpstreamEntry \<times> FileDescriptorSet" where
  "prepareActionMethod url_Parse fetch q r =
     ebind (checkActionMethod q) (\<lambda>(policyID, firstRef).
     ebind (parseActionURL url_Parse (ra_Url q)) (\<lambda>(parsed, port).
       if IsUpstreamNameTaken (actionMethodKey policyID q) r then Inl (NameTaken (ra_Name q) policyID)
       else case fetch (url_Host parsed) (ra_Service q) (ra_Method q) of
         Inl err \<Rightarrow> Inl (FetchFailed (ra_Service q) (ra_Method q) err)
       | Inr fds \<Rightarrow> (case firstRef of None \<Rightarrow> Inl FirstTargetRefNil
           | Some ref \<Rightarrow> Inr (actionMethodKey policyID q, actionMethodEntry parsed port ref q, fds))))"

definition commitActionMethod ::
  "notifier \<Rightarrow> RegisterActionMethodRequest \<Rightarrow> RegisteredUpstreamKey \<Rightarrow> RegisteredUpstreamEntry \<Rightarrow> FileDescriptorSet \<Rightarrow>
    ('ast, 'val) extensionService \<Rightarrow> (service_error + unit) \<times> ('ast, 'val) extensionService" where
  "commitActionMethod notifier q key entry fds s =
     (let (data, stored) = SetUpstreamIfNameAvailable key entry fds (es_registeredData s);
          s = s\<lparr>es_registeredData := data\<rparr>
      in if \<not> stored then (Inl (NameTaken (ra_Name q) (uk_Policy key)), s)
         else (Inr (), snd (changeNotifier notifier
           (ActionMethodRegistered (ra_Name q) (uk_Policy key) (ra_Url q)) s)))"

definition RegisterActionMethod ::
  "(string \<Rightarrow> string + parsedURL) \<Rightarrow> (string \<Rightarrow> string \<Rightarrow> string \<Rightarrow> string + FileDescriptorSet) \<Rightarrow> notifier \<Rightarrow>
    (('ast, 'val) extensionService \<Rightarrow> ('ast, 'val) extensionService) \<Rightarrow>
    RegisterActionMethodRequest option \<Rightarrow> ('ast, 'val) extensionService \<Rightarrow>
    (service_error + unit) \<times> ('ast, 'val) extensionService" where
  "RegisterActionMethod url_Parse fetch notifier meanwhile request s =
     (case request of None \<Rightarrow> (Inl RequestNil, s)
      | Some q \<Rightarrow> (case prepareActionMethod url_Parse fetch q (es_registeredData s) of
          Inl err \<Rightarrow> (Inl err, s)
        | Inr (key, entry, fds) \<Rightarrow> commitActionMethod notifier q key entry fds (meanwhile s)))"

section \<open>Pipelines\<close>

text \<open>
  \<open>parseCEL\<close> is the parser of \<open>celSyntaxEnv\<close>, of which only the error is used; \<open>parse\<close> is the one of
  \<open>cel_utils.go\<close>.
\<close>

definition validateCELExpression :: "(string \<Rightarrow> string option) \<Rightarrow> string \<Rightarrow> action_error + unit" where
  "validateCELExpression parseCEL expr = (case parseCEL expr of Some err \<Rightarrow> Inl (InvalidCEL expr err) | None \<Rightarrow> Inr ())"

definition validateOptionalCEL :: "(string \<Rightarrow> string option) \<Rightarrow> string \<Rightarrow> action_error + unit" where
  "validateOptionalCEL parseCEL expr = (if expr \<noteq> [] then validateCELExpression parseCEL expr else Inr ())"

definition validateHTTPStatusCode :: "int \<Rightarrow> action_error + unit" where
  "validateHTTPStatusCode code = (if code < 100 \<or> code > 599 then Inl (StatusOutOfRange code) else Inr ())"

definition validateGRPCEntry ::
  "('ast, 'val) RegisteredDataStore \<Rightarrow> ResourceID \<Rightarrow> pbGrpcAction \<Rightarrow> (string, string) gomap \<Rightarrow> action_error + (string, string) gomap" where
  "validateGRPCEntry r policyID grpc varToMethod =
     (if ga_Method grpc = [] then Inl GrpcMethodMissing
      else if \<not> HasUpstreamName policyID (ga_Method grpc) r then Inl (MethodNotRegistered (ga_Method grpc))
      else if ga_Var grpc \<noteq> [] \<and> \<not> varNameMatches (ga_Var grpc) then Inl (InvalidVarName (ga_Var grpc))
      else Inr (if ga_Var grpc \<noteq> [] then gm_set (ga_Var grpc) (ga_Method grpc) varToMethod else varToMethod))"

definition validateDenyEntry :: "(string \<Rightarrow> string option) \<Rightarrow> pbDenyAction \<Rightarrow> action_error + unit" where
  "validateDenyEntry parseCEL deny =
     ebind (if da_WithStatus deny \<noteq> 0 then validateHTTPStatusCode (da_WithStatus deny) else Inr ()) (\<lambda>_.
     ebind (validateOptionalCEL parseCEL (da_WithHeaders deny)) (\<lambda>_. validateOptionalCEL parseCEL (da_WithBody deny)))"

definition validateFailEntry :: "pbFailAction \<Rightarrow> action_error + unit" where
  "validateFailEntry fail = (if isBlank (fa_LogMessage fail) then Inl LogMessageMissing else Inr ())"

definition validateAddHeadersEntry :: "(string \<Rightarrow> string option) \<Rightarrow> pbAddHeadersAction \<Rightarrow> action_error + unit" where
  "validateAddHeadersEntry parseCEL addHeaders =
     (if ah_HeadersToAdd addHeaders = [] then Inl HeadersMissing else validateCELExpression parseCEL (ah_HeadersToAdd addHeaders))"

definition validateStoreEntry :: "(string \<Rightarrow> string option) \<Rightarrow> pbStoreAction \<Rightarrow> action_error + unit" where
  "validateStoreEntry parseCEL store =
     (if sa_Path store = [] then Inl PathMissing
      else if sa_Value store = [] then Inl ValueMissing
      else validateCELExpression parseCEL (sa_Value store))"

text \<open>The type switch: the variables known after the entry, or its error.\<close>

definition validateAction ::
  "(string \<Rightarrow> string option) \<Rightarrow> ('ast, 'val) RegisteredDataStore \<Rightarrow> ResourceID \<Rightarrow> pbAction option \<Rightarrow> (string, string) gomap \<Rightarrow>
    action_error + (string, string) gomap" where
  "validateAction parseCEL r policyID action varToMethod =
     (case action of
        Some (ActionEntry_Grpc (Some grpc)) \<Rightarrow> validateGRPCEntry r policyID grpc varToMethod
      | Some (ActionEntry_Deny (Some deny)) \<Rightarrow> ebind (validateDenyEntry parseCEL deny) (\<lambda>_. Inr varToMethod)
      | Some (ActionEntry_AddHeaders (Some addHeaders)) \<Rightarrow> ebind (validateAddHeadersEntry parseCEL addHeaders) (\<lambda>_. Inr varToMethod)
      | Some (ActionEntry_Fail (Some fail)) \<Rightarrow> ebind (validateFailEntry fail) (\<lambda>_. Inr varToMethod)
      | Some (ActionEntry_Store (Some store)) \<Rightarrow> ebind (validateStoreEntry parseCEL store) (\<lambda>_. Inr varToMethod)
      | _ \<Rightarrow> Inl ActionMissing)"

definition validateEntry ::
  "(string \<Rightarrow> string option) \<Rightarrow> ('ast, 'val) RegisteredDataStore \<Rightarrow> ResourceID \<Rightarrow> ActionEntry option \<Rightarrow> (string, string) gomap \<Rightarrow>
    action_error + ActionEntry \<times> (string, string) gomap" where
  "validateEntry parseCEL r policyID action varToMethod =
     (case action of None \<Rightarrow> Inl EntryNil
      | Some action \<Rightarrow>
          ebind (validateOptionalCEL parseCEL (ae_Predicate action)) (\<lambda>_.
            if phaseFromProto (ae_Phase action) = None then Inl PhaseMissing
            else ebind (validateAction parseCEL r policyID (ae_Action action) varToMethod) (\<lambda>varToMethod. Inr (action, varToMethod))))"

definition atAction :: "nat \<Rightarrow> action_error + 'a \<Rightarrow> service_error + 'a" where
  "atAction i result = (case result of Inl err \<Rightarrow> Inl (ActionError i err) | Inr x \<Rightarrow> Inr x)"

fun validateEntries ::
  "(string \<Rightarrow> string option) \<Rightarrow> ('ast, 'val) RegisteredDataStore \<Rightarrow> ResourceID \<Rightarrow> nat \<Rightarrow> ActionEntry option list \<Rightarrow>
    (string, string) gomap \<Rightarrow> service_error + ActionEntry list \<times> (string, string) gomap" where
  "validateEntries parseCEL r policyID i [] varToMethod = Inr ([], varToMethod)"
| "validateEntries parseCEL r policyID i (action # actions) varToMethod =
     ebind (atAction i (validateEntry parseCEL r policyID action varToMethod)) (\<lambda>(entry, varToMethod).
     ebind (validateEntries parseCEL r policyID (Suc i) actions varToMethod) (\<lambda>(entries, varToMethod).
       Inr (entry # entries, varToMethod)))"

text \<open>The checks of the field accesses through one variable, of one expression and of one entry.\<close>

definition validateVarAccess ::
  "('ast, 'val) RegisteredDataStore \<Rightarrow> ResourceID \<Rightarrow> (string, string) gomap \<Rightarrow> string \<times> string list list \<Rightarrow> action_error + unit" where
  "validateVarAccess r policyID varToMethod = (\<lambda>(varName, chains).
     case GetUpstreamByName policyID (Deref (map_of varToMethod varName) []) r of
       None \<Rightarrow> Inr ()
     | Some (key, upstreamEntry) \<Rightarrow>
         (case GetProtoDescriptor (cacheKeyOf upstreamEntry) r of
            None \<Rightarrow> Inr ()
          | Some fds \<Rightarrow>
              let responseType = findResponseMessageType fds (ue_Service upstreamEntry) (ue_Method upstreamEntry) in
              if responseType = [] then Inr ()
              else efold (\<lambda>chain _. case validateFieldAccess fds responseType chain of
                  Some err \<Rightarrow> Inl (VarAccessError varName err) | None \<Rightarrow> Inr ()) chains ()))"

definition validateExprVars ::
  "(string \<Rightarrow> string + celExpr) \<Rightarrow> ('ast, 'val) RegisteredDataStore \<Rightarrow> ResourceID \<Rightarrow> (string, string) gomap \<Rightarrow> string \<Rightarrow> action_error + unit" where
  "validateExprVars parse r policyID varToMethod expr =
     (case extractVarFieldAccesses parse expr varToMethod of
        Inl err \<Rightarrow> Inl (AccessParseError err)
      | Inr fieldAccesses \<Rightarrow> efold (\<lambda>access _. validateVarAccess r policyID varToMethod access) fieldAccesses ())"

definition validateCrossActionVars ::
  "(string \<Rightarrow> string + celExpr) \<Rightarrow> ('ast, 'val) RegisteredDataStore \<Rightarrow> ResourceID \<Rightarrow> ActionEntry list \<Rightarrow> (string, string) gomap \<Rightarrow>
    service_error + unit" where
  "validateCrossActionVars parse r policyID actions varToMethod =
     efold (\<lambda>(i, action) _. atAction i (efold (\<lambda>expr _. validateExprVars parse r policyID varToMethod expr)
       (celExpressionsFromEntry action) ())) (zip [0..<length actions] actions) ()"

definition validateActions ::
  "(string \<Rightarrow> string option) \<Rightarrow> (string \<Rightarrow> string + celExpr) \<Rightarrow> ('ast, 'val) RegisteredDataStore \<Rightarrow> ResourceID \<Rightarrow>
    ActionEntry option list \<Rightarrow> service_error + PipelineActionEntry list" where
  "validateActions parseCEL parse r policyID actions =
     ebind (validateEntries parseCEL r policyID 0 actions []) (\<lambda>(entries, varToMethod).
     ebind (if length varToMethod > 0 then validateCrossActionVars parse r policyID entries varToMethod else Inr ()) (\<lambda>_.
       Inr (map (\<lambda>action. \<lparr>pa_Index = 0, pa_Entry = Some action\<rparr>) entries)))"

record PipelineCommitRequest =
  pq_Policy :: "pbPolicy option"
  pq_Actions :: "ActionEntry option list"

definition pipelineTargetRefs :: "ResourceID \<Rightarrow> pbPolicy option \<Rightarrow> service_error + TargetRef list" where
  "pipelineTargetRefs policyID policy =
     (let refs = (case policy of None \<Rightarrow> [] | Some p \<Rightarrow> pol_TargetRefs p) in
      if length refs = 0 then Inl (PipelineWithoutTargets policyID)
      else etraverse (\<lambda>ref. case ref of None \<Rightarrow> Inl (TargetRefNil policyID) | Some ref \<Rightarrow> Inr (targetRefFromProtobuf ref)) refs)"

definition PipelineCommit ::
  "(string \<Rightarrow> string option) \<Rightarrow> (string \<Rightarrow> string + celExpr) \<Rightarrow> notifier \<Rightarrow> PipelineCommitRequest option \<Rightarrow>
    ('ast, 'val) extensionService \<Rightarrow> (service_error + unit) \<times> ('ast, 'val) extensionService" where
  "PipelineCommit parseCEL parse notifier request s =
     (case request of None \<Rightarrow> (Inl RequestNil, s)
      | Some q \<Rightarrow>
          (case ebind (validatePolicyRequest (pq_Policy q)) (\<lambda>policyID.
                 ebind (validateActions parseCEL parse (es_registeredData s) policyID (pq_Actions q)) (\<lambda>entries.
                 ebind (pipelineTargetRefs policyID (pq_Policy q)) (\<lambda>targetRefs. Inr (policyID, entries, targetRefs)))) of
             Inl err \<Rightarrow> (Inl err, s)
           | Inr (policyID, entries, targetRefs) \<Rightarrow>
               (case ReplacePipelineActions policyID entries (es_registeredData s) of
                  (data, Some err) \<Rightarrow> (Inl (ReplaceFailed err), s\<lparr>es_registeredData := data\<rparr>)
                | (data, None) \<Rightarrow>
                    let s = s\<lparr>es_registeredData := SetPipelineTargetRefs policyID targetRefs data\<rparr>;
                        (failed, s) = changeNotifier notifier (PipelineCommitted policyID (length entries)) s
                    in (case failed of Some err \<Rightarrow> Inl (CommittedNotNotified err) | None \<Rightarrow> Inr (), s))))"

section \<open>Descriptors, subscriptions and resolution\<close>

record ServiceRef =
  sref_ClusterName :: string
  sref_Service :: string

record ServiceDescriptor =
  sd_ClusterName :: string
  sd_Service :: string
  sd_FileDescriptorSet :: string

definition serviceDescriptor ::
  "(FileDescriptorSet \<Rightarrow> string + string) \<Rightarrow> ('ast, 'val) RegisteredDataStore \<Rightarrow> ServiceRef option \<Rightarrow> service_error + ServiceDescriptor" where
  "serviceDescriptor marshal r serviceRef =
     (case serviceRef of None \<Rightarrow> Inl ServiceRefNil
      | Some ref \<Rightarrow>
          if sref_ClusterName ref = [] then Inl ClusterNameMissing
          else if sref_Service ref = [] then Inl ServiceNameMissing
          else
            let cacheKey = \<lparr>pc_ClusterName = sref_ClusterName ref, pc_Service = sref_Service ref\<rparr> in
            case GetProtoDescriptor cacheKey r of
              None \<Rightarrow> Inl (DescriptorsNotFound cacheKey)
            | Some fds \<Rightarrow> (case marshal fds of Inl err \<Rightarrow> Inl (MarshalFailed cacheKey err)
                | Inr bytes \<Rightarrow> Inr \<lparr>sd_ClusterName = sref_ClusterName ref, sd_Service = sref_Service ref, sd_FileDescriptorSet = bytes\<rparr>))"

definition GetServiceDescriptors ::
  "(FileDescriptorSet \<Rightarrow> string + string) \<Rightarrow> ServiceRef option list option \<Rightarrow> ('ast, 'val) extensionService \<Rightarrow>
    service_error + ServiceDescriptor list" where
  "GetServiceDescriptors marshal request s =
     (case request of None \<Rightarrow> Inl RequestNil
      | Some services \<Rightarrow> etraverse (serviceDescriptor marshal (es_registeredData s)) services)"

text \<open>
  One update of the graph seen by a subscriber: \<open>eval\<close> makes the program and runs it against the
  graph, \<open>equalVal\<close> is \<open>celtypes.Equal\<close>, \<open>send\<close> the stream.  The events are those handed to the
  stream, the last of them possibly with an error.
\<close>

fun notifyChanges ::
  "('ast \<Rightarrow> (string, pbPolicy) gomap \<Rightarrow> string + 'val) \<Rightarrow> ('val \<Rightarrow> 'val \<Rightarrow> bool) \<Rightarrow> (Metadata option \<Rightarrow> string option) \<Rightarrow>
    (SubscriptionKey \<times> ('ast, 'val) Subscription) list \<Rightarrow> ('ast, 'val) RegisteredDataStore \<Rightarrow>
    service_error option \<times> Metadata option list \<times> ('ast, 'val) RegisteredDataStore" where
  "notifyChanges eval equalVal send [] r = (None, [], r)"
| "notifyChanges eval equalVal send ((key, sub) # subs) r =
     (case eval (sub_CAst sub) (sub_Input sub) of
        Inl err \<Rightarrow> notifyChanges eval equalVal send subs r
      | Inr newVal \<Rightarrow>
          if equalVal newVal (sub_Val sub) then notifyChanges eval equalVal send subs r
          else
            let r = fst (UpdateSubscriptionValue (sk_Policy key) (sk_Expression key) newVal r) in
            case map_of (sub_Input sub) ''self'' of
              None \<Rightarrow> (Some ServicePanic, [], r)
            | Some policy \<Rightarrow>
                (case send (pol_Metadata policy) of
                   Some err \<Rightarrow> (Some (CelError err), [pol_Metadata policy], r)
                 | None \<Rightarrow> (let (err, events, r) = notifyChanges eval equalVal send subs r in (err, pol_Metadata policy # events, r))))"

definition subscribeUpdate ::
  "('ast \<Rightarrow> (string, pbPolicy) gomap \<Rightarrow> string + 'val) \<Rightarrow> ('val \<Rightarrow> 'val \<Rightarrow> bool) \<Rightarrow> (Metadata option \<Rightarrow> string option) \<Rightarrow>
    string \<Rightarrow> ('ast, 'val) extensionService \<Rightarrow> service_error option \<times> Metadata option list \<times> ('ast, 'val) extensionService" where
  "subscribeUpdate eval equalVal send policyKind s =
     (let (err, events, data) = notifyChanges eval equalVal send
            (GetSubscriptionsForPolicyKind policyKind (es_registeredData s)) (es_registeredData s)
      in (err, events, s\<lparr>es_registeredData := data\<rparr>))"

record ResolveRequest =
  rq_Policy :: "pbPolicy option"
  rq_Expression :: string
  rq_Subscribe :: bool

text \<open>
  \<open>compile\<close> stands for the environment, the parser, the checker and the program made of an
  expression; \<^const>\<open>None\<close> when there is no graph in time.  \<open>eval\<close> returns a value and an error.
  A nil policy is an input without \<open>self\<close>.
\<close>

definition Resolve ::
  "(string \<Rightarrow> string + 'ast) option \<Rightarrow> ('ast \<Rightarrow> (string, pbPolicy) gomap \<Rightarrow> 'val \<times> string option) \<Rightarrow> ('val \<Rightarrow> string + 'out) \<Rightarrow>
    ResolveRequest \<Rightarrow> ('ast, 'val) extensionService \<Rightarrow> (service_error + 'out) \<times> ('ast, 'val) extensionService" where
  "Resolve compile eval RefValueToValue request s =
     (case compile of None \<Rightarrow> (Inl NoDag, s)
      | Some compile \<Rightarrow> (case compile (rq_Expression request) of Inl err \<Rightarrow> (Inl (CelError err), s)
        | Inr cAst \<Rightarrow>
            let input = (case rq_Policy request of None \<Rightarrow> [] | Some policy \<Rightarrow> [(''self'', policy)]);
                (val, err) = eval cAst input;
                answer = (case err of Some e \<Rightarrow> Inl (CelError e)
                  | None \<Rightarrow> (case RefValueToValue val of Inl e \<Rightarrow> Inl (CelError e) | Inr out \<Rightarrow> Inr out))
            in if \<not> rq_Subscribe request then (answer, s)
               else (case rq_Policy request of None \<Rightarrow> (Inl ServicePanic, s)
                 | Some policy \<Rightarrow> (case pol_Metadata policy of None \<Rightarrow> (Inl ServicePanic, s)
                   | Some md \<Rightarrow> (answer, s\<lparr>es_registeredData := SetSubscription
                       \<lparr>rid_Kind = md_Kind md, rid_Namespace = md_Namespace md, rid_Name = md_Name md\<rparr> (rq_Expression request)
                       \<lparr>sub_CAst = cAst, sub_Input = input, sub_Val = val, sub_PolicyKind = md_Kind md\<rparr> (es_registeredData s)\<rparr>)))))"

section \<open>Steps\<close>

text \<open>
  The system: the service, the clock and the armed warm-up timers.  A step is a handler run to
  its end, what the manager does to the sessions, or time that passes.  \<open>Append\<close>, \<open>SetUpstream\<close>
  and the like are called by tests only.
\<close>

record ('ast, 'val) service_system =
  sv_service :: "('ast, 'val) extensionService"
  sv_clock :: int
  sv_timers :: nat

definition service_start :: "('ast, 'val) service_system" where
  "service_start = \<lparr>sv_service = newExtensionService, sv_clock = 0, sv_timers = 0\<rparr>"

definition sessions_of :: "('ast, 'val) service_system \<Rightarrow> session_system" where
  "sessions_of y = \<lparr>sys_store = es_sessionStore (sv_service y), sys_clock = sv_clock y, sys_timers = sv_timers y\<rparr>"

definition with_sessions :: "session_system \<Rightarrow> ('ast, 'val) service_system \<Rightarrow> ('ast, 'val) service_system" where
  "with_sessions z y = y\<lparr>sv_service := (sv_service y)\<lparr>es_sessionStore := sys_store z\<rparr>, sv_clock := sys_clock z, sv_timers := sys_timers z\<rparr>"

inductive service_step :: "('ast, 'val) service_system \<Rightarrow> ('ast, 'val) service_system \<Rightarrow> bool" where
  sessions: "session_step (sessions_of y) z \<Longrightarrow> service_step y (with_sessions z y)"
| handshake: "Handshake parseVersion trs sars notifier (sv_clock y) gen request (sv_service y) = (response, s) \<Longrightarrow>
    service_step y (y\<lparr>sv_service := s\<rparr>)"
| release: "ReleaseSession identity (sv_service y) = (result, s) \<Longrightarrow> service_step y (y\<lparr>sv_service := s\<rparr>)"
| register_mutator: "RegisterMutator notifier mrequest (sv_service y) = (result, s) \<Longrightarrow> service_step y (y\<lparr>sv_service := s\<rparr>)"
| clear_policy: "ClearPolicy notifier crequest (sv_service y) = (cresult, s) \<Longrightarrow> service_step y (y\<lparr>sv_service := s\<rparr>)"
| register_method: "prepareActionMethod url_Parse fetch q (earlier :: ('ast, 'val) RegisteredDataStore) = Inr (key, entry, fds) \<Longrightarrow>
    commitActionMethod notifier q key entry fds (sv_service y) = (result, s) \<Longrightarrow> service_step y (y\<lparr>sv_service := s\<rparr>)"
| pipeline_commit: "PipelineCommit parseCEL parse notifier prequest (sv_service y) = (result, s) \<Longrightarrow>
    service_step y (y\<lparr>sv_service := s\<rparr>)"
| subscribe: "subscribeUpdate eval equalVal send policyKind (sv_service y) = (err, events, s) \<Longrightarrow>
    service_step y (y\<lparr>sv_service := s\<rparr>)"
| resolve: "Resolve compile reval toValue rrequest (sv_service y) = (rresult :: service_error + string, s) \<Longrightarrow> service_step y (y\<lparr>sv_service := s\<rparr>)"

end
