(* ===== verification/Gateway_Clusters.thy ===== *)
theory Gateway_Clusters
  imports Managed_Objects Extension_Service
begin

text \<open>
  Clusters of the auth, rate limit and tracing services in the proxies: the six reconcilers
  \<open>internal/controller/{istio,envoy_gateway}_{auth,ratelimit,tracing}_cluster_reconciler.go\<close>, the
  patches they write (\<open>cluster_patch_helpers.go\<close>, \<open>tracing_workflow_helpers.go\<close>) and the resources
  of the two providers (\<open>internal/istio/utils.go\<close>, \<open>internal/envoygateway/utils.go\<close>).

  Each provider's kind of object is an interpretation of \<open>managed_kind\<close>, so each reconciler converges.
  Parameters: \<open>proto.Equal\<close> on values, the JSON decoder of Istio's patches and of raw JSON, \<open>url.Parse\<close>,
  and the topology.
\<close>

section \<open>Cluster patches\<close>

definition sdsSecret :: "string \<Rightarrow> json" where
  "sdsSecret name = JObj [(''name'', JStr name), (''sds_config'', JObj [(''api_config_source'', JObj [(''api_type'', JStr ''GRPC''),
     (''grpc_services'', JArr [JObj [(''envoy_grpc'', JObj [(''cluster_name'', JStr ''sds-grpc'')])]])])])]"

definition buildMTLSTransportSocket :: json where
  "buildMTLSTransportSocket = JObj [(''name'', JStr ''envoy.transport_sockets.tls''),
     (''typed_config'', JObj [
       (''@type'', JStr ''type.googleapis.com/envoy.extensions.transport_sockets.tls.v3.UpstreamTlsContext''),
       (''common_tls_context'', JObj [
         (''tls_certificate_sds_secret_configs'', JArr [sdsSecret ''default'']),
         (''validation_context_sds_secret_config'', sdsSecret ''ROOTCA'')])])]"

definition buildClusterPatch :: "string \<Rightarrow> string \<Rightarrow> int \<Rightarrow> bool \<Rightarrow> (string, json) gomap" where
  "buildClusterPatch clusterName host port mTLS =
     (let base = [(''name'', JStr clusterName), (''type'', JStr ''STRICT_DNS''), (''connect_timeout'', JStr ''1s''),
            (''lb_policy'', JStr ''ROUND_ROBIN''),
            (''load_assignment'', JObj [(''cluster_name'', JStr clusterName), (''endpoints'', JArr [JObj [(''lb_endpoints'', JArr [JObj [
              (''endpoint'', JObj [(''address'', JObj [(''socket_address'', JObj [(''address'', JStr host), (''port_value'', JNum port)])])])]])]])])];
          base = gm_set ''http2_protocol_options'' (JObj []) base
      in if mTLS then gm_set ''transport_socket'' buildMTLSTransportSocket base else base)"

definition grpcOutlierDetection :: json where
  "grpcOutlierDetection = JObj [(''enforcing_consecutive_gateway_failure'', JNum 100), (''max_ejection_percent'', JNum 100)]"

definition KuadrantAuthClusterName :: string where "KuadrantAuthClusterName = ''kuadrant-auth-service''"
definition KuadrantRateLimitClusterName :: string where "KuadrantRateLimitClusterName = ''kuadrant-ratelimit-service''"
definition KuadrantTracingClusterName :: string where "KuadrantTracingClusterName = ''kuadrant-tracing-service''"

definition authClusterPatch :: "string \<Rightarrow> int \<Rightarrow> bool \<Rightarrow> (string, json) gomap" where
  "authClusterPatch host port mTLS =
     gm_set ''outlier_detection'' grpcOutlierDetection (buildClusterPatch KuadrantAuthClusterName host port mTLS)"

definition rateLimitClusterPatch :: "string \<Rightarrow> int \<Rightarrow> bool \<Rightarrow> (string, json) gomap" where
  "rateLimitClusterPatch host port mTLS =
     gm_set ''outlier_detection'' grpcOutlierDetection (buildClusterPatch KuadrantRateLimitClusterName host port mTLS)"

definition tracingClusterPatch :: "string \<Rightarrow> int \<Rightarrow> bool \<Rightarrow> (string, json) gomap" where
  "tracingClusterPatch host port mTLS = buildClusterPatch KuadrantTracingClusterName host port mTLS"

definition TracingClusterName :: "string \<Rightarrow> string" where "TracingClusterName gatewayName = ''kuadrant-tracing-'' @ gatewayName"
definition UpstreamClusterName :: "string \<Rightarrow> string" where "UpstreamClusterName gatewayName = ''kuadrant-upstream-'' @ gatewayName"

text \<open>\<open>parse\<close> is \<open>url.Parse\<close>: the host name, the port and the scheme of a URL.\<close>

definition parseTracingEndpoint :: "(string \<Rightarrow> string + parsedURL) \<Rightarrow> string \<Rightarrow> string + (string \<times> int)" where
  "parseTracingEndpoint parse endpoint =
     (case parse endpoint of Inl err \<Rightarrow> Inl (''invalid URL: '' @ err)
      | Inr url \<Rightarrow>
        (let host = url_Hostname url; portStr = url_Port url
         in if host = [] then Inl ''no host found in URL''
            else if portStr \<noteq> [] then
              (case Atoi portStr of None \<Rightarrow> Inl ''invalid port'' | Some port \<Rightarrow> Inr (host, port))
            else Inr (host, if url_Scheme url = ''https'' then 443 else if url_Scheme url = ''http'' then 80 else 4317)))"

section \<open>The Kuadrant resource, Authorino and Limitador\<close>

record MTLS =
  mtls_Enable :: bool
  mtls_Authorino :: "bool option"
  mtls_Limitador :: "bool option"

definition IsLimitadorEnabled :: "MTLS option \<Rightarrow> bool" where
  "IsLimitadorEnabled m = (case m of None \<Rightarrow> False | Some m \<Rightarrow> mtls_Enable m \<and> Deref (mtls_Limitador m) (mtls_Enable m))"

definition IsAuthorinoEnabled :: "MTLS option \<Rightarrow> bool" where
  "IsAuthorinoEnabled m = (case m of None \<Rightarrow> False | Some m \<Rightarrow> mtls_Enable m \<and> Deref (mtls_Authorino m) (mtls_Enable m))"

text \<open>What the reconcilers read of the specification of the Kuadrant resource.\<close>

record kuadrant_spec =
  kds_MTLS :: "MTLS option"
  kds_Observability :: ObservabilitySpec
  kds_TracingInsecure :: bool

record authorino_spec =
  az_Name :: string
  az_Namespace :: string
  az_GRPCPort :: "int option"
  az_Port :: "int option"

definition authorinoServiceInfoFromAuthorino :: "authorino_spec \<Rightarrow> string \<times> int" where
  "authorinoServiceInfoFromAuthorino authorino =
     (az_Name authorino @ ''-authorino-authorization.'' @ az_Namespace authorino @ ''.svc.cluster.local'',
      case az_GRPCPort authorino of Some p \<Rightarrow> p
      | None \<Rightarrow> (case az_Port authorino of Some p \<Rightarrow> p | None \<Rightarrow> 50051))"

section \<open>Resources of Istio\<close>

datatype apply_to = EnvoyFilter_CLUSTER | EnvoyFilter_HTTP_FILTER | EnvoyFilter_other int

text \<open>The oneof of a match; of a listener match only its value matters.\<close>

datatype object_types =
    NoObject
  | ClusterMatch string int string
  | ListenerMatch json
  | OtherMatch json

record config_match =
  cm_Context :: string
  cm_Objects :: object_types

record EnvoyFilter_Patch =
  efp_Operation :: string
  efp_FilterClass :: string
  efp_Value :: json

record config_patch =
  cp_ApplyTo :: apply_to
  cp_Match :: "config_match option"
  cp_Patch :: "EnvoyFilter_Patch option"

record EnvoyFilterSpec =
  ef_WorkloadSelector :: "(string, string) gomap option"
  ef_ConfigPatches :: "config_patch option list"
  ef_Priority :: int
  ef_TargetRefs :: "(string \<times> string \<times> string) list"

type_synonym EnvoyFilter = "EnvoyFilterSpec managed_object"

text \<open>The getters of the protobuf messages, which accept nil receivers.\<close>

definition GetCluster :: "config_match option \<Rightarrow> (string \<times> int \<times> string) option" where
  "GetCluster m = (case m of Some m \<Rightarrow> (case cm_Objects m of ClusterMatch a b c \<Rightarrow> Some (a, b, c) | _ \<Rightarrow> None) | None \<Rightarrow> None)"

definition GetListener :: "config_match option \<Rightarrow> json option" where
  "GetListener m = (case m of Some m \<Rightarrow> (case cm_Objects m of ListenerMatch j \<Rightarrow> Some j | _ \<Rightarrow> None) | None \<Rightarrow> None)"

text \<open>
  \<open>unmarshalPatch\<close> is \<open>EnvoyFilter_Patch.UnmarshalJSON\<close> on the encoded value.
\<close>

definition BuildEnvoyFilterClusterPatch ::
  "(json \<Rightarrow> string + EnvoyFilter_Patch) \<Rightarrow> string \<Rightarrow> int \<Rightarrow> bool \<Rightarrow> (string \<Rightarrow> int \<Rightarrow> bool \<Rightarrow> (string, json) gomap) \<Rightarrow>
   string + config_patch option list" where
  "BuildEnvoyFilterClusterPatch unmarshalPatch host port mtls clusterPatchBuilder =
     ebind (unmarshalPatch (JObj [(''operation'', JStr ''ADD''), (''value'', JObj (clusterPatchBuilder host port mtls))])) (\<lambda>patch.
       Inr [Some \<lparr>cp_ApplyTo = EnvoyFilter_CLUSTER,
         cp_Match = Some \<lparr>cm_Context = ''ANY'', cm_Objects = ClusterMatch host 0 []\<rparr>, cp_Patch = Some patch\<rparr>])"

text \<open>
  The configuration of the wasm filter; \<open>pluginConfig\<close> is what \<open>MarshalJSON\<close> gives for the
  configuration of the plugin, if there is one.
\<close>

definition buildWasmFilterConfig :: "string \<Rightarrow> string \<Rightarrow> string \<Rightarrow> string \<Rightarrow> (string + string) option \<Rightarrow> string + json" where
  "buildWasmFilterConfig wasmURL imagePullSecret imageSHA clusterName pluginConfig =
     (let remote = [(''http_uri'', JObj [(''uri'', JStr wasmURL), (''timeout'', JStr ''10s''), (''cluster'', JStr clusterName)]),
            (''sha256'', JStr imageSHA)];
          remote = (if imagePullSecret \<noteq> [] then gm_set ''image_pull_secret'' (JStr imagePullSecret) remote else remote);
          config = [(''name'', JStr ''kuadrant-wasm-shim''), (''root_id'', JStr ''kuadrant_wasm_shim''),
            (''vm_config'', JObj [(''runtime'', JStr ''envoy.wasm.runtime.v8''), (''code'', JObj [(''remote'', JObj remote)]),
              (''allow_precompiled'', JBool True)]),
            (''failure_policy'', JStr ''FAIL_RELOAD'')]
      in case pluginConfig of None \<Rightarrow> Inr (JObj [(''config'', JObj config)])
         | Some (Inl err) \<Rightarrow> Inl (''failed to marshal plugin config: '' @ err)
         | Some (Inr configJSON) \<Rightarrow> Inr (JObj [(''config'', JObj (gm_set ''configuration''
             (JObj [(''@type'', JStr ''type.googleapis.com/google.protobuf.StringValue''), (''value'', JStr configJSON)]) config))]))"

definition routerListenerMatch :: json where
  "routerListenerMatch = JObj [(''filterChain'', JObj [(''filter'', JObj [(''name'', JStr ''envoy.filters.network.http_connection_manager''),
     (''subFilter'', JObj [(''name'', JStr ''envoy.filters.http.router'')])])])]"

definition BuildEnvoyFilterWasmPatch ::
  "(json \<Rightarrow> string + EnvoyFilter_Patch) \<Rightarrow> string \<Rightarrow> string \<Rightarrow> string \<Rightarrow> string \<Rightarrow> (string + string) option \<Rightarrow>
   string + config_patch option list" where
  "BuildEnvoyFilterWasmPatch unmarshalPatch wasmURL imagePullSecret imageSHA clusterName pluginConfig =
     ebind (buildWasmFilterConfig wasmURL imagePullSecret imageSHA clusterName pluginConfig) (\<lambda>wasmFilterConfig.
      let patchValue = JObj [(''name'', JStr ''envoy.filters.http.wasm''),
            (''typed_config'', JObj [(''@type'', JStr ''type.googleapis.com/udpa.type.v1.TypedStruct''),
              (''type_url'', JStr ''type.googleapis.com/envoy.extensions.filters.http.wasm.v3.Wasm''), (''value'', wasmFilterConfig)])]
      in ebind (unmarshalPatch (JObj [(''operation'', JStr ''INSERT_BEFORE''), (''value'', patchValue)])) (\<lambda>patch.
        Inr [Some \<lparr>cp_ApplyTo = EnvoyFilter_HTTP_FILTER,
          cp_Match = Some \<lparr>cm_Context = ''GATEWAY'', cm_Objects = ListenerMatch routerListenerMatch\<rparr>, cp_Patch = Some patch\<rparr>]))"

text \<open>\<open>lo.EveryBy\<close> and \<open>lo.SomeBy\<close> with a body that may panic.\<close>

fun everyBy :: "('a \<Rightarrow> bool go_result) \<Rightarrow> 'a list \<Rightarrow> bool go_result" where
  "everyBy f [] = Return True"
| "everyBy f (x # xs) = gbind (f x) (\<lambda>b. if b then everyBy f xs else Return False)"

fun someBy :: "('a \<Rightarrow> bool go_result) \<Rightarrow> 'a list \<Rightarrow> bool go_result" where
  "someBy f [] = Return False"
| "someBy f (x # xs) = gbind (f x) (\<lambda>b. if b then Return True else someBy f xs)"

text \<open>The comparison of two patches; \<open>eqM\<close> and \<open>eqV\<close> are \<open>proto.Equal\<close> on matches and on values.\<close>

definition equalMatches :: "(config_match option \<Rightarrow> config_match option \<Rightarrow> bool) \<Rightarrow> config_patch \<Rightarrow> config_patch \<Rightarrow> bool" where
  "equalMatches eqM a b =
     (case cp_ApplyTo a of
        EnvoyFilter_HTTP_FILTER \<Rightarrow>
          if (GetListener (cp_Match a) = None) \<noteq> (GetListener (cp_Match b) = None) then False
          else if GetListener (cp_Match a) \<noteq> None then eqM (cp_Match a) (cp_Match b) else True
      | EnvoyFilter_CLUSTER \<Rightarrow>
          (case (GetCluster (cp_Match a), GetCluster (cp_Match b)) of (Some ca, Some cb) \<Rightarrow> ca = cb | _ \<Rightarrow> False)
      | EnvoyFilter_other n \<Rightarrow> eqM (cp_Match a) (cp_Match b))"

definition equalConfigPatches ::
  "(config_match option \<Rightarrow> config_match option \<Rightarrow> bool) \<Rightarrow> (json \<Rightarrow> json \<Rightarrow> bool) \<Rightarrow> config_patch option \<Rightarrow> config_patch option \<Rightarrow> bool go_result" where
  "equalConfigPatches eqM eqV a b =
     (case (a, b) of
        (None, None) \<Rightarrow> Return True
      | (Some a, Some b) \<Rightarrow>
          if cp_ApplyTo a \<noteq> cp_ApplyTo b then Return False
          else if \<not> equalMatches eqM a b then Return False
          else (case (cp_Patch a, cp_Patch b) of
              (Some pa, Some pb) \<Rightarrow>
                if efp_Operation pa \<noteq> efp_Operation pb \<or> efp_FilterClass pa \<noteq> efp_FilterClass pb then Return False
                else Return (eqV (efp_Value pa) (efp_Value pb))
            | _ \<Rightarrow> Panic ''nil pointer dereference'')
      | _ \<Rightarrow> Return False)"

definition GetLabels :: "(string, string) gomap option \<Rightarrow> (string, string) gomap" where
  "GetLabels ws = Deref ws []"

definition maps_Equal :: "(string, string) gomap \<Rightarrow> (string, string) gomap \<Rightarrow> bool" where
  "maps_Equal a b \<longleftrightarrow> length a = length b \<and> list_all (\<lambda>(k, v). map_of b k = Some v) a"

definition EqualEnvoyFilters ::
  "(config_match option \<Rightarrow> config_match option \<Rightarrow> bool) \<Rightarrow> (json \<Rightarrow> json \<Rightarrow> bool) \<Rightarrow> EnvoyFilter \<Rightarrow> EnvoyFilter \<Rightarrow> bool go_result" where
  "EqualEnvoyFilters eqM eqV a b =
     (let sa = mo_Spec a; sb = mo_Spec b
      in if ef_Priority sa \<noteq> ef_Priority sb \<or> \<not> maps_Equal (GetLabels (ef_WorkloadSelector sa)) (GetLabels (ef_WorkloadSelector sb)) then Return False
         else if length (ef_ConfigPatches sa) \<noteq> length (ef_ConfigPatches sb) then Return False
         else everyBy (\<lambda>pa. someBy (equalConfigPatches eqM eqV pa) (ef_ConfigPatches sb)) (ef_ConfigPatches sa))"

definition GatewayNameLabel :: string where "GatewayNameLabel = ''gateway.networking.k8s.io/gateway-name''"

text \<open>The first target reference to a gateway, with the defaults of group and kind.\<close>

definition refGroupKind :: "string \<Rightarrow> string \<Rightarrow> string \<times> string" where
  "refGroupKind grp kind = (if grp = [] then ''gateway.networking.k8s.io'' else grp, if kind = [] then ''Gateway'' else kind)"

fun targetRefGateway :: "(string \<times> string \<times> string) list \<Rightarrow> string" where
  "targetRefGateway [] = []"
| "targetRefGateway ((grp, kind, name) # refs) =
     (if refGroupKind grp kind = (''gateway.networking.k8s.io'', ''Gateway'') then name else targetRefGateway refs)"

definition LinkGatewayToEnvoyFilter :: "Gateway \<Rightarrow> EnvoyFilter \<Rightarrow> bool" where
  "LinkGatewayToEnvoyFilter gateway envoyFilter =
     (let gatewayName = Deref (map_of (GetLabels (ef_WorkloadSelector (mo_Spec envoyFilter))) GatewayNameLabel) [];
          gatewayName = (if gatewayName = [] then targetRefGateway (ef_TargetRefs (mo_Spec envoyFilter)) else gatewayName)
      in gateway_Name gateway = gatewayName \<and> gateway_Namespace gateway = obj_Namespace envoyFilter)"

section \<open>Resources of Envoy Gateway\<close>

record JSONPatchOperation =
  jo_Op :: string
  jo_Path :: "string option"
  jo_Value :: "string option"

record EnvoyJSONPatchConfig =
  jp_Type :: string
  jp_Name :: string
  jp_Operation :: JSONPatchOperation

record EnvoyPatchPolicySpec =
  epp_TargetRef :: "string \<times> string \<times> string"
  epp_Type :: string
  epp_Priority :: int
  epp_JSONPatches :: "EnvoyJSONPatchConfig list"

type_synonym EnvoyPatchPolicy = "EnvoyPatchPolicySpec managed_object"

text \<open>\<open>rawJSON\<close> is the encoded value as \<open>apiextensionsv1.JSON\<close> stores it, or an error.\<close>

definition BuildEnvoyPatchPolicyClusterPatch ::
  "(json \<Rightarrow> string + string) \<Rightarrow> string \<Rightarrow> string \<Rightarrow> int \<Rightarrow> bool \<Rightarrow> (string \<Rightarrow> int \<Rightarrow> bool \<Rightarrow> (string, json) gomap) \<Rightarrow>
   string + EnvoyJSONPatchConfig list" where
  "BuildEnvoyPatchPolicyClusterPatch rawJSON name host port mtls clusterPatchBuilder =
     ebind (rawJSON (JObj (clusterPatchBuilder host port mtls))) (\<lambda>patch.
       Inr [\<lparr>jp_Type = ''type.googleapis.com/envoy.config.cluster.v3.Cluster'', jp_Name = name,
         jp_Operation = \<lparr>jo_Op = ''add'', jo_Path = Some [], jo_Value = Some patch\<rparr>\<rparr>])"

definition EqualEnvoyPatchPolicies :: "EnvoyPatchPolicy \<Rightarrow> EnvoyPatchPolicy \<Rightarrow> bool" where
  "EqualEnvoyPatchPolicies a b =
     (let sa = mo_Spec a; sb = mo_Spec b
      in if epp_Type sa \<noteq> epp_Type sb \<or> epp_Priority sa \<noteq> epp_Priority sb \<or> epp_TargetRef sa \<noteq> epp_TargetRef sb then False
         else if length (epp_JSONPatches sa) \<noteq> length (epp_JSONPatches sb) then False
         else list_all (\<lambda>pa. list_ex (\<lambda>pb. jp_Type pa = jp_Type pb \<and> jp_Name pa = jp_Name pb \<and> jp_Operation pa = jp_Operation pb)
           (epp_JSONPatches sb)) (epp_JSONPatches sa))"

definition LinkGatewayToEnvoyPatchPolicy :: "Gateway \<Rightarrow> EnvoyPatchPolicy \<Rightarrow> bool" where
  "LinkGatewayToEnvoyPatchPolicy gateway envoyPatchPolicy =
     (let (grp, kind, name) = epp_TargetRef (mo_Spec envoyPatchPolicy)
      in if refGroupKind grp kind \<noteq> (''gateway.networking.k8s.io'', ''Gateway'') \<or> name = [] then False
         else gateway_Name gateway = name \<and> gateway_Namespace gateway = obj_Namespace envoyPatchPolicy)"

section \<open>Gateways to serve\<close>

text \<open>
  What the reconcilers read of the topology and of the outside: \<open>ct_Gateways\<close> are the gateways of
  the topology, \<open>ct_Parents\<close> the gateway class above one, \<open>ct_Pipeline\<close> is
  \<open>extension.HasPipelineForTarget\<close>.
\<close>

record cluster_topology =
  ct_View :: enforcement_view
  ct_AuthorinoOf :: "topo_object \<Rightarrow> authorino_spec"
  ct_LimitadorService :: "topo_object \<Rightarrow> (string \<times> int) option"
  ct_KuadrantSpec :: "Kuadrant \<Rightarrow> kuadrant_spec"
  ct_Gateways :: "Gateway list"
  ct_Parents :: "Gateway \<Rightarrow> GatewayClass option"
  ct_Pipeline :: "Gateway \<Rightarrow> bool"
  ct_Locator :: "targetable \<Rightarrow> string"
  ct_Owner :: "Gateway \<Rightarrow> OwnerReference"
  ct_ParseURL :: "string \<Rightarrow> string + parsedURL"
  ct_Environment :: environment

definition gatewayLocator :: "cluster_topology \<Rightarrow> Gateway \<Rightarrow> string" where
  "gatewayLocator ct gateway = ct_Locator ct (TGateway (Some gateway))"

text \<open>The gateway of a path whose class belongs to one of the controllers.\<close>

definition pathGateway :: "cluster_topology \<Rightarrow> string list \<Rightarrow> targetable list \<Rightarrow> Gateway option" where
  "pathGateway ct controllerNames path =
     (case ParseTopologyPath path of Inl err \<Rightarrow> None
      | Inr parsed \<Rightarrow>
        (case (ptp_Gateway parsed, ptp_GatewayClass parsed) of
           (Some gateway, Some gatewayClass) \<Rightarrow>
             if ev_ControllerName (ct_View ct) gatewayClass \<in> set controllerNames then Some gateway else None
         | _ \<Rightarrow> None))"

text \<open>A parsed path always has both objects, so the last case never occurs.\<close>

lemma ParseTopologyPath_gateway:
  "ParseTopologyPath path = Inr parsed \<Longrightarrow> \<exists>gw gc. ptp_Gateway parsed = Some gw \<and> ptp_GatewayClass parsed = Some gc"
  by (auto simp: ParseTopologyPath_ok http_parsed_def grpc_parsed_def)

fun uniqByLocator :: "cluster_topology \<Rightarrow> string list \<Rightarrow> Gateway list \<Rightarrow> Gateway list" where
  "uniqByLocator ct seen [] = []"
| "uniqByLocator ct seen (g # gs) =
     (if gatewayLocator ct g \<in> set seen then uniqByLocator ct seen gs else g # uniqByLocator ct (gatewayLocator ct g # seen) gs)"

definition pathGateways :: "cluster_topology \<Rightarrow> string list \<Rightarrow> (string, 'p EffectivePolicy) gomap option \<Rightarrow> Gateway list" where
  "pathGateways ct controllerNames effectivePolicies =
     (case effectivePolicies of None \<Rightarrow> [] | Some m \<Rightarrow> List.map_filter (\<lambda>(pathID, ep). pathGateway ct controllerNames (ep_Path ep)) m)"

definition pathsContain :: "cluster_topology \<Rightarrow> string \<Rightarrow> (string, 'p EffectivePolicy) gomap option \<Rightarrow> bool" where
  "pathsContain ct locator effectivePolicies =
     (case effectivePolicies of None \<Rightarrow> False
      | Some m \<Rightarrow> list_ex (\<lambda>(pathID, ep). list_ex (\<lambda>targetable. ct_Locator ct targetable = locator) (ep_Path ep)) m)"

definition targetIsInEffectivePolicyPath :: "cluster_topology \<Rightarrow> 's workflow_state \<Rightarrow> Gateway \<Rightarrow> bool" where
  "targetIsInEffectivePolicyPath ct ws gateway \<longleftrightarrow>
     pathsContain ct (gatewayLocator ct gateway) (st_EffectiveAuthPolicies ws) \<or>
     pathsContain ct (gatewayLocator ct gateway) (st_EffectiveRateLimitPolicies ws) \<or>
     pathsContain ct (gatewayLocator ct gateway) (st_EffectiveTokenRateLimitPolicies ws) \<or>
     ct_Pipeline ct gateway"

definition authGateways :: "cluster_topology \<Rightarrow> string list \<Rightarrow> (string, 'p EffectivePolicy) gomap \<Rightarrow> Gateway list" where
  "authGateways ct controllerNames effectivePolicies = uniqByLocator ct [] (pathGateways ct controllerNames (Some effectivePolicies))"

definition rateLimitGateways :: "cluster_topology \<Rightarrow> string list \<Rightarrow> 's workflow_state \<Rightarrow> Gateway list" where
  "rateLimitGateways ct controllerNames ws =
     uniqByLocator ct [] (pathGateways ct controllerNames (st_EffectiveRateLimitPolicies ws) @
       pathGateways ct controllerNames (st_EffectiveTokenRateLimitPolicies ws))"

definition tracingEndpoint :: "kuadrant_spec \<Rightarrow> string" where
  "tracingEndpoint spec = Deref (ob_Tracing (kds_Observability spec)) []"

definition tracingGateways :: "cluster_topology \<Rightarrow> string list \<Rightarrow> kuadrant_spec \<Rightarrow> 's workflow_state \<Rightarrow> Gateway list" where
  "tracingGateways ct controllerNames spec ws =
     (if ob_Tracing (kds_Observability spec) \<noteq> None \<and> tracingEndpoint spec \<noteq> []
      then filter (\<lambda>gateway. case ct_Parents ct gateway of None \<Rightarrow> False
        | Some gatewayClass \<Rightarrow> ev_ControllerName (ct_View ct) gatewayClass \<in> set controllerNames \<and> targetIsInEffectivePolicyPath ct ws gateway)
        (ct_Gateways ct)
      else [])"

section \<open>Istio's reconcilers\<close>

definition istioEnvoyFilter :: "cluster_topology \<Rightarrow> string \<Rightarrow> (string, string) gomap \<Rightarrow> Gateway \<Rightarrow> config_patch option list \<Rightarrow> EnvoyFilter" where
  "istioEnvoyFilter ct name ls gateway configPatches =
     \<lparr>obj_Group = fst EnvoyFilterGroupKind, obj_Kind = snd EnvoyFilterGroupKind, obj_Namespace = gateway_Namespace gateway, obj_Name = name,
      obj_Annotations = None, obj_OwnerReferences = [ct_Owner ct gateway], mo_Labels = ls,
      mo_Spec = \<lparr>ef_WorkloadSelector = Some [(GatewayNameLabel, gateway_Name gateway)], ef_ConfigPatches = configPatches,
        ef_Priority = 0, ef_TargetRefs = []\<rparr>\<rparr>"

definition IstioAuth_buildDesiredEnvoyFilter ::
  "cluster_topology \<Rightarrow> (json \<Rightarrow> string + EnvoyFilter_Patch) \<Rightarrow> authorino_spec \<Rightarrow> bool \<Rightarrow> Gateway \<Rightarrow> string + EnvoyFilter" where
  "IstioAuth_buildDesiredEnvoyFilter ct unmarshalPatch authorino mtls gateway =
     (let (host, port) = authorinoServiceInfoFromAuthorino authorino
      in ebind (BuildEnvoyFilterClusterPatch unmarshalPatch host port mtls authClusterPatch) (\<lambda>configPatches.
        Inr (istioEnvoyFilter ct (AuthClusterName (gateway_Name gateway)) AuthObjectLabels gateway configPatches)))"

definition IstioRateLimit_buildDesiredEnvoyFilter ::
  "cluster_topology \<Rightarrow> (json \<Rightarrow> string + EnvoyFilter_Patch) \<Rightarrow> (string \<times> int) option \<Rightarrow> bool \<Rightarrow> Gateway \<Rightarrow> string + EnvoyFilter" where
  "IstioRateLimit_buildDesiredEnvoyFilter ct unmarshalPatch limitadorService mtls gateway =
     (case limitadorService of None \<Rightarrow> Inl ''missing limitador service info in the limitador object''
      | Some (host, port) \<Rightarrow>
        ebind (BuildEnvoyFilterClusterPatch unmarshalPatch host port mtls rateLimitClusterPatch) (\<lambda>configPatches.
          Inr (istioEnvoyFilter ct (RateLimitClusterName (gateway_Name gateway)) RateLimitObjectLabels gateway configPatches)))"

definition IstioTracing_buildDesiredEnvoyFilter ::
  "cluster_topology \<Rightarrow> (json \<Rightarrow> string + EnvoyFilter_Patch) \<Rightarrow> kuadrant_spec \<Rightarrow> Gateway \<Rightarrow> string + EnvoyFilter" where
  "IstioTracing_buildDesiredEnvoyFilter ct unmarshalPatch spec gateway =
     (case parseTracingEndpoint (ct_ParseURL ct) (tracingEndpoint spec) of
        Inl err \<Rightarrow> Inl (''failed to parse tracing endpoint: '' @ err)
      | Inr (host, port) \<Rightarrow>
        ebind (BuildEnvoyFilterClusterPatch unmarshalPatch host port (\<not> kds_TracingInsecure spec) tracingClusterPatch) (\<lambda>configPatches.
          Inr (istioEnvoyFilter ct (TracingClusterName (gateway_Name gateway)) TracingObjectLabels gateway configPatches)))"

text \<open>The update writes the whole specification, without target references.\<close>

definition updateEnvoyFilter :: "EnvoyFilter \<Rightarrow> EnvoyFilter \<Rightarrow> EnvoyFilter" where
  "updateEnvoyFilter existing desired =
     existing\<lparr>mo_Spec := \<lparr>ef_WorkloadSelector = ef_WorkloadSelector (mo_Spec desired), ef_ConfigPatches = ef_ConfigPatches (mo_Spec desired),
       ef_Priority = ef_Priority (mo_Spec desired), ef_TargetRefs = []\<rparr>\<rparr>"

record istio_env =
  ie_Objects :: "EnvoyFilterSpec object_env"
  ie_Unmarshal :: "json \<Rightarrow> string + EnvoyFilter_Patch"
  ie_EqM :: "config_match option \<Rightarrow> config_match option \<Rightarrow> bool"
  ie_EqV :: "json \<Rightarrow> json \<Rightarrow> bool"

definition envoyFilterKind :: "istio_env \<Rightarrow> string \<Rightarrow> EnvoyFilterSpec object_kind" where
  "envoyFilterKind ie reconciler = \<lparr>ok_Reconciler = reconciler, ok_GroupKind = EnvoyFilterGroupKind,
     ok_Equal = EqualEnvoyFilters (ie_EqM ie) (ie_EqV ie), ok_Update = updateEnvoyFilter\<rparr>"

text \<open>
  The result of a reconciler: its calls and errors, and the modified gateways it stores in the
  workflow state, nothing when it returns early.
\<close>

definition reconcileIstioClusters ::
  "istio_env \<Rightarrow> cluster_topology \<Rightarrow> string \<Rightarrow> (Gateway \<Rightarrow> string + EnvoyFilter) \<Rightarrow> (string, string) gomap \<Rightarrow> Gateway list \<Rightarrow>
   (Gateway \<Rightarrow> EnvoyFilter list) \<Rightarrow> EnvoyFilter list \<Rightarrow> EnvoyFilterSpec object_state \<Rightarrow>
   (EnvoyFilterSpec object_state \<times> string list option) go_result" where
  "reconcileIstioClusters ie ct reconciler build ls gateways children items st =
     gbind (reconcileManaged (ie_Objects ie) (envoyFilterKind ie reconciler) build children (gatewayLocator ct) ls gateways items st)
       (\<lambda>(st, modifiedGateways). Return (st, Some modifiedGateways))"

definition IstioAuthClusterReconciler_Reconcile ::
  "istio_env \<Rightarrow> cluster_topology \<Rightarrow> enforcement_state \<Rightarrow> 's workflow_state \<Rightarrow> (Gateway \<Rightarrow> EnvoyFilter list) \<Rightarrow> EnvoyFilter list \<Rightarrow>
   error_map option \<Rightarrow> (EnvoyFilterSpec object_state \<times> string list option) go_result" where
  "IstioAuthClusterReconciler_Reconcile ie ct es ws children items registry =
     (let st = \<lparr>os_Ops = [], os_Errors = fst (GetOrCreateErrorRegistry registry)\<rparr>
      in case GetKuadrantFromTopology (ct_View ct) es of None \<Rightarrow> Return (st, None)
       | Some kuadrant \<Rightarrow>
         (case List.find (\<lambda>child. to_GroupKind child = AuthorinoGroupKind) (ev_KuadrantChildren (ct_View ct) kuadrant) of
            None \<Rightarrow> Return (st, None)
          | Some authorino \<Rightarrow>
            (case st_EffectiveAuthPolicies ws of None \<Rightarrow> Return (st, None)
             | Some effectivePolicies \<Rightarrow>
               reconcileIstioClusters ie ct ''IstioAuthClusterReconciler''
                 (IstioAuth_buildDesiredEnvoyFilter ct (ie_Unmarshal ie) (ct_AuthorinoOf ct authorino)
                   (IsAuthorinoEnabled (kds_MTLS (ct_KuadrantSpec ct kuadrant))))
                 AuthObjectLabels (authGateways ct (istioGatewayControllerNames (ct_Environment ct)) effectivePolicies) children items st)))"

definition IstioRateLimitClusterReconciler_Reconcile ::
  "istio_env \<Rightarrow> cluster_topology \<Rightarrow> enforcement_state \<Rightarrow> 's workflow_state \<Rightarrow> (Gateway \<Rightarrow> EnvoyFilter list) \<Rightarrow> EnvoyFilter list \<Rightarrow>
   error_map option \<Rightarrow> (EnvoyFilterSpec object_state \<times> string list option) go_result" where
  "IstioRateLimitClusterReconciler_Reconcile ie ct es ws children items registry =
     (let st = \<lparr>os_Ops = [], os_Errors = fst (GetOrCreateErrorRegistry registry)\<rparr>
      in case GetKuadrantFromTopology (ct_View ct) es of None \<Rightarrow> Return (st, None)
       | Some kuadrant \<Rightarrow>
         (case GetLimitadorFromTopology (ct_View ct) es of None \<Rightarrow> Return (st, None)
          | Some limitador \<Rightarrow>
            reconcileIstioClusters ie ct ''IstioRateLimitClusterReconciler''
              (IstioRateLimit_buildDesiredEnvoyFilter ct (ie_Unmarshal ie) (ct_LimitadorService ct limitador)
                (IsLimitadorEnabled (kds_MTLS (ct_KuadrantSpec ct kuadrant))))
              RateLimitObjectLabels (rateLimitGateways ct (istioGatewayControllerNames (ct_Environment ct)) ws) children items st))"

definition IstioTracingClusterReconciler_Reconcile ::
  "istio_env \<Rightarrow> cluster_topology \<Rightarrow> enforcement_state \<Rightarrow> 's workflow_state \<Rightarrow> (Gateway \<Rightarrow> EnvoyFilter list) \<Rightarrow> EnvoyFilter list \<Rightarrow>
   error_map option \<Rightarrow> (EnvoyFilterSpec object_state \<times> string list option) go_result" where
  "IstioTracingClusterReconciler_Reconcile ie ct es ws children items registry =
     (let st = \<lparr>os_Ops = [], os_Errors = fst (GetOrCreateErrorRegistry registry)\<rparr>
      in case GetKuadrantFromTopology (ct_View ct) es of None \<Rightarrow> Return (st, None)
       | Some kuadrant \<Rightarrow>
         (let spec = ct_KuadrantSpec ct kuadrant
          in reconcileIstioClusters ie ct ''IstioTracingClusterReconciler'' (IstioTracing_buildDesiredEnvoyFilter ct (ie_Unmarshal ie) spec)
               TracingObjectLabels (tracingGateways ct (istioGatewayControllerNames (ct_Environment ct)) spec ws) children items st))"

section \<open>Envoy Gateway's reconcilers\<close>

definition envoyPatchPolicy :: "cluster_topology \<Rightarrow> string \<Rightarrow> (string, string) gomap \<Rightarrow> Gateway \<Rightarrow> EnvoyJSONPatchConfig list \<Rightarrow> EnvoyPatchPolicy" where
  "envoyPatchPolicy ct name ls gateway jsonPatches =
     \<lparr>obj_Group = fst EnvoyPatchPolicyGroupKind, obj_Kind = snd EnvoyPatchPolicyGroupKind, obj_Namespace = gateway_Namespace gateway,
      obj_Name = name, obj_Annotations = None, obj_OwnerReferences = [ct_Owner ct gateway], mo_Labels = ls,
      mo_Spec = \<lparr>epp_TargetRef = (''gateway.networking.k8s.io'', ''Gateway'', gateway_Name gateway), epp_Type = ''JSONPatch'',
        epp_Priority = 0, epp_JSONPatches = jsonPatches\<rparr>\<rparr>"

definition EnvoyGatewayAuth_buildDesiredEnvoyPatchPolicy ::
  "cluster_topology \<Rightarrow> (json \<Rightarrow> string + string) \<Rightarrow> authorino_spec \<Rightarrow> Gateway \<Rightarrow> string + EnvoyPatchPolicy" where
  "EnvoyGatewayAuth_buildDesiredEnvoyPatchPolicy ct rawJSON authorino gateway =
     (let (host, port) = authorinoServiceInfoFromAuthorino authorino
      in ebind (BuildEnvoyPatchPolicyClusterPatch rawJSON KuadrantAuthClusterName host port False authClusterPatch) (\<lambda>jsonPatches.
        Inr (envoyPatchPolicy ct (AuthClusterName (gateway_Name gateway)) AuthObjectLabels gateway jsonPatches)))"

definition EnvoyGatewayRateLimit_buildDesiredEnvoyPatchPolicy ::
  "cluster_topology \<Rightarrow> (json \<Rightarrow> string + string) \<Rightarrow> string \<times> int \<Rightarrow> Gateway \<Rightarrow> string + EnvoyPatchPolicy" where
  "EnvoyGatewayRateLimit_buildDesiredEnvoyPatchPolicy ct rawJSON limitadorService gateway =
     ebind (BuildEnvoyPatchPolicyClusterPatch rawJSON KuadrantRateLimitClusterName (fst limitadorService) (snd limitadorService) False
         rateLimitClusterPatch) (\<lambda>jsonPatches.
       Inr (envoyPatchPolicy ct (RateLimitClusterName (gateway_Name gateway)) RateLimitObjectLabels gateway jsonPatches))"

definition EnvoyGatewayTracing_buildDesiredEnvoyPatchPolicy ::
  "cluster_topology \<Rightarrow> (json \<Rightarrow> string + string) \<Rightarrow> kuadrant_spec \<Rightarrow> Gateway \<Rightarrow> string + EnvoyPatchPolicy" where
  "EnvoyGatewayTracing_buildDesiredEnvoyPatchPolicy ct rawJSON spec gateway =
     (case parseTracingEndpoint (ct_ParseURL ct) (tracingEndpoint spec) of
        Inl err \<Rightarrow> Inl (''failed to parse tracing endpoint: '' @ err)
      | Inr (host, port) \<Rightarrow>
        ebind (BuildEnvoyPatchPolicyClusterPatch rawJSON TracingServiceName host port (\<not> kds_TracingInsecure spec) tracingClusterPatch) (\<lambda>jsonPatches.
          Inr (envoyPatchPolicy ct (TracingClusterName (gateway_Name gateway)) TracingObjectLabels gateway jsonPatches)))"

definition updateEnvoyPatchPolicy :: "EnvoyPatchPolicy \<Rightarrow> EnvoyPatchPolicy \<Rightarrow> EnvoyPatchPolicy" where
  "updateEnvoyPatchPolicy existing desired =
     existing\<lparr>mo_Spec := \<lparr>epp_TargetRef = epp_TargetRef (mo_Spec desired), epp_Type = epp_Type (mo_Spec desired),
       epp_Priority = epp_Priority (mo_Spec desired), epp_JSONPatches = epp_JSONPatches (mo_Spec desired)\<rparr>\<rparr>"

record envoy_gateway_env =
  ee_Objects :: "EnvoyPatchPolicySpec object_env"
  ee_RawJSON :: "json \<Rightarrow> string + string"

definition envoyPatchPolicyKind :: "string \<Rightarrow> EnvoyPatchPolicySpec object_kind" where
  "envoyPatchPolicyKind reconciler = \<lparr>ok_Reconciler = reconciler, ok_GroupKind = EnvoyPatchPolicyGroupKind,
     ok_Equal = (\<lambda>a b. Return (EqualEnvoyPatchPolicies a b)), ok_Update = updateEnvoyPatchPolicy\<rparr>"

definition reconcileEnvoyGatewayClusters ::
  "envoy_gateway_env \<Rightarrow> cluster_topology \<Rightarrow> string \<Rightarrow> (Gateway \<Rightarrow> string + EnvoyPatchPolicy) \<Rightarrow> (string, string) gomap \<Rightarrow> Gateway list \<Rightarrow>
   (Gateway \<Rightarrow> EnvoyPatchPolicy list) \<Rightarrow> EnvoyPatchPolicy list \<Rightarrow> EnvoyPatchPolicySpec object_state \<Rightarrow>
   (EnvoyPatchPolicySpec object_state \<times> string list option) go_result" where
  "reconcileEnvoyGatewayClusters ee ct reconciler build ls gateways children items st =
     gbind (reconcileManaged (ee_Objects ee) (envoyPatchPolicyKind reconciler) build children (gatewayLocator ct) ls gateways items st)
       (\<lambda>(st, modifiedGateways). Return (st, Some modifiedGateways))"

definition EnvoyGatewayAuthClusterReconciler_Reconcile ::
  "envoy_gateway_env \<Rightarrow> cluster_topology \<Rightarrow> enforcement_state \<Rightarrow> 's workflow_state \<Rightarrow> (Gateway \<Rightarrow> EnvoyPatchPolicy list) \<Rightarrow>
   EnvoyPatchPolicy list \<Rightarrow> error_map option \<Rightarrow> (EnvoyPatchPolicySpec object_state \<times> string list option) go_result" where
  "EnvoyGatewayAuthClusterReconciler_Reconcile ee ct es ws children items registry =
     (let st = \<lparr>os_Ops = [], os_Errors = fst (GetOrCreateErrorRegistry registry)\<rparr>
      in case GetKuadrantFromTopology (ct_View ct) es of None \<Rightarrow> Return (st, None)
       | Some kuadrant \<Rightarrow>
         (case List.find (\<lambda>child. to_GroupKind child = AuthorinoGroupKind) (ev_KuadrantChildren (ct_View ct) kuadrant) of
            None \<Rightarrow> Return (st, None)
          | Some authorino \<Rightarrow>
            (case st_EffectiveAuthPolicies ws of None \<Rightarrow> Return (st, None)
             | Some effectivePolicies \<Rightarrow>
               reconcileEnvoyGatewayClusters ee ct ''EnvoyGatewayAuthClusterReconciler''
                 (EnvoyGatewayAuth_buildDesiredEnvoyPatchPolicy ct (ee_RawJSON ee) (ct_AuthorinoOf ct authorino))
                 AuthObjectLabels (authGateways ct (envoyGatewayGatewayControllerNames (ct_Environment ct)) effectivePolicies) children items st)))"

text \<open>The service of Limitador is dereferenced for every gateway without a check.\<close>

definition EnvoyGatewayRateLimitClusterReconciler_Reconcile ::
  "envoy_gateway_env \<Rightarrow> cluster_topology \<Rightarrow> enforcement_state \<Rightarrow> 's workflow_state \<Rightarrow> (Gateway \<Rightarrow> EnvoyPatchPolicy list) \<Rightarrow>
   EnvoyPatchPolicy list \<Rightarrow> error_map option \<Rightarrow> (EnvoyPatchPolicySpec object_state \<times> string list option) go_result" where
  "EnvoyGatewayRateLimitClusterReconciler_Reconcile ee ct es ws children items registry =
     (let st = \<lparr>os_Ops = [], os_Errors = fst (GetOrCreateErrorRegistry registry)\<rparr>
      in case GetKuadrantFromTopology (ct_View ct) es of None \<Rightarrow> Return (st, None)
       | Some kuadrant \<Rightarrow>
         (case List.find (\<lambda>child. to_GroupKind child = LimitadorGroupKind) (ev_KuadrantChildren (ct_View ct) kuadrant) of
            None \<Rightarrow> Return (st, None)
          | Some limitador \<Rightarrow>
            (let gateways = rateLimitGateways ct (envoyGatewayGatewayControllerNames (ct_Environment ct)) ws
             in if ct_LimitadorService ct limitador = None \<and> gateways \<noteq> [] then Panic ''nil pointer dereference''
                else reconcileEnvoyGatewayClusters ee ct ''EnvoyGatewayRateLimitClusterReconciler''
                  (EnvoyGatewayRateLimit_buildDesiredEnvoyPatchPolicy ct (ee_RawJSON ee) (Deref (ct_LimitadorService ct limitador) ([], 0)))
                  RateLimitObjectLabels gateways children items st)))"

definition EnvoyGatewayTracingClusterReconciler_Reconcile ::
  "envoy_gateway_env \<Rightarrow> cluster_topology \<Rightarrow> enforcement_state \<Rightarrow> 's workflow_state \<Rightarrow> (Gateway \<Rightarrow> EnvoyPatchPolicy list) \<Rightarrow>
   EnvoyPatchPolicy list \<Rightarrow> error_map option \<Rightarrow> (EnvoyPatchPolicySpec object_state \<times> string list option) go_result" where
  "EnvoyGatewayTracingClusterReconciler_Reconcile ee ct es ws children items registry =
     (let st = \<lparr>os_Ops = [], os_Errors = fst (GetOrCreateErrorRegistry registry)\<rparr>
      in case GetKuadrantFromTopology (ct_View ct) es of None \<Rightarrow> Return (st, None)
       | Some kuadrant \<Rightarrow>
         (let spec = ct_KuadrantSpec ct kuadrant
          in reconcileEnvoyGatewayClusters ee ct ''EnvoyGatewayTracingClusterReconciler''
               (EnvoyGatewayTracing_buildDesiredEnvoyPatchPolicy ct (ee_RawJSON ee) spec)
               TracingObjectLabels (tracingGateways ct (envoyGatewayGatewayControllerNames (ct_Environment ct)) spec ws) children items st))"

section \<open>The two kinds of objects are managed\<close>

lemma selectorMatches_labels [simp]:
  "selectorMatches AuthObjectLabels AuthObjectLabels" "selectorMatches RateLimitObjectLabels RateLimitObjectLabels"
  "selectorMatches TracingObjectLabels TracingObjectLabels" "selectorMatches UpstreamObjectLabels UpstreamObjectLabels"
  by code_simp+

lemma maps_Equal_refl: "gm_wf m \<Longrightarrow> maps_Equal m m"
  by (auto simp: maps_Equal_def list_all_iff)

lemma everyBy_True: "everyBy f xs = Return True \<longleftrightarrow> list_all (\<lambda>x. f x = Return True) xs"
  by (induction xs) (auto split: if_splits)

lemma everyBy_total: "\<forall>x\<in>set xs. \<exists>b. f x = Return b \<Longrightarrow> \<exists>b. everyBy f xs = Return b"
proof (induction xs)
  case (Cons x xs)
  then obtain b where "f x = Return b" by fastforce
  with Cons show ?case by (cases b) simp_all
qed (auto intro: exI)

lemma someBy_total: "\<forall>x\<in>set xs. \<exists>b. f x = Return b \<Longrightarrow> \<exists>b. someBy f xs = Return b"
proof (induction xs)
  case (Cons x xs)
  then obtain b where "f x = Return b" by fastforce
  with Cons show ?case by (cases b) simp_all
qed (auto intro: exI)

lemma someBy_True:
  assumes "\<forall>x\<in>set xs. \<exists>b. f x = Return b" "x \<in> set xs" "f x = Return True"
  shows "someBy f xs = Return True"
  using assms
proof (induction xs)
  case (Cons y ys)
  from Cons.prems(1) obtain b where b: "f y = Return b" by fastforce
  show ?case
  proof (cases b)
    case False
    with b Cons.prems(2,3) have "x \<in> set ys" by auto
    with Cons.IH Cons.prems(1,3) b False show ?thesis by simp
  qed (use b in simp)
qed simp

text \<open>A patch with its contents; only those can be compared.\<close>

definition patch_present :: "config_patch option \<Rightarrow> bool" where
  "patch_present p = (case p of None \<Rightarrow> True | Some p \<Rightarrow> cp_Patch p \<noteq> None)"

definition patches_present :: "EnvoyFilter \<Rightarrow> bool" where
  "patches_present envoyFilter = list_all patch_present (ef_ConfigPatches (mo_Spec envoyFilter))"

lemma equalConfigPatches_total:
  "patch_present a \<Longrightarrow> patch_present b \<Longrightarrow> \<exists>r. equalConfigPatches eqM eqV a b = Return r"
  by (auto simp: equalConfigPatches_def patch_present_def split: option.splits)

text \<open>What all builders of Istio's clusters build: a filter for the gateway with patches of clusters.\<close>

definition cluster_patch :: "config_patch option \<Rightarrow> bool" where
  "cluster_patch p = (case p of None \<Rightarrow> False
     | Some p \<Rightarrow> cp_ApplyTo p = EnvoyFilter_CLUSTER \<and> GetCluster (cp_Match p) \<noteq> None \<and> cp_Patch p \<noteq> None)"

definition istio_clusters :: "cluster_topology \<Rightarrow> (string, string) gomap \<Rightarrow> (string \<Rightarrow> string) \<Rightarrow> (Gateway \<Rightarrow> string + EnvoyFilter) \<Rightarrow> bool" where
  "istio_clusters ct ls name build \<longleftrightarrow>
     (\<forall>g d. build g = Inr d \<longrightarrow> (\<exists>ps. d = istioEnvoyFilter ct (name (gateway_Name g)) ls g ps \<and> list_all cluster_patch ps))"

lemma BuildEnvoyFilterClusterPatch_shape:
  "BuildEnvoyFilterClusterPatch u host port mtls f = Inr ps \<Longrightarrow> list_all cluster_patch ps"
  by (auto simp: BuildEnvoyFilterClusterPatch_def cluster_patch_def GetCluster_def)

lemma cluster_patch_present: "cluster_patch p \<Longrightarrow> patch_present p"
  by (simp add: cluster_patch_def patch_present_def split: option.splits)

lemma istio_builders:
  "istio_clusters ct AuthObjectLabels AuthClusterName (IstioAuth_buildDesiredEnvoyFilter ct u authorino mtls)"
  "istio_clusters ct RateLimitObjectLabels RateLimitClusterName (IstioRateLimit_buildDesiredEnvoyFilter ct u service mtls)"
  "istio_clusters ct TracingObjectLabels TracingClusterName (IstioTracing_buildDesiredEnvoyFilter ct u spec)"
  unfolding istio_clusters_def IstioAuth_buildDesiredEnvoyFilter_def IstioRateLimit_buildDesiredEnvoyFilter_def
    IstioTracing_buildDesiredEnvoyFilter_def Let_def
  by (auto dest!: BuildEnvoyFilterClusterPatch_shape split: option.splits prod.splits sum.splits)

lemma istio_filter_simps [simp]:
  "mo_GroupKind (istioEnvoyFilter ct name ls g ps) = EnvoyFilterGroupKind" "mo_Labels (istioEnvoyFilter ct name ls g ps) = ls"
  "mo_NamespacedName (istioEnvoyFilter ct name ls g ps) = (gateway_Namespace g, name)"
  "ef_ConfigPatches (mo_Spec (istioEnvoyFilter ct name ls g ps)) = ps"
  by (simp_all add: istioEnvoyFilter_def mo_GroupKind_def mo_NamespacedName_def)

lemma link_istio_filter:
  "obj_Namespace e = gateway_Namespace g \<Longrightarrow> mo_Spec e = mo_Spec (istioEnvoyFilter ct name ls g ps) \<Longrightarrow> LinkGatewayToEnvoyFilter g e"
  by (simp add: LinkGatewayToEnvoyFilter_def istioEnvoyFilter_def GetLabels_def)

lemma update_istio_filter:
  "mo_Spec (updateEnvoyFilter e (istioEnvoyFilter ct name ls g ps)) = mo_Spec (istioEnvoyFilter ct name ls g ps)"
  "obj_Namespace (updateEnvoyFilter e d) = obj_Namespace e" "mo_Labels (updateEnvoyFilter e d) = mo_Labels e"
  "mo_Key (updateEnvoyFilter e d) = mo_Key e"
  by (simp_all add: updateEnvoyFilter_def istioEnvoyFilter_def mo_Key_def mo_GroupKind_def mo_NamespacedName_def)

lemma equalConfigPatches_refl:
  "reflp eqV \<Longrightarrow> cluster_patch p \<Longrightarrow> equalConfigPatches eqM eqV p p = Return True"
  by (auto dest: reflpD simp: cluster_patch_def equalConfigPatches_def equalMatches_def split: option.splits)

lemma EqualEnvoyFilters_same:
  assumes "mo_Spec e = mo_Spec d" and d: "d = istioEnvoyFilter ct name ls g ps" and V: "reflp eqV" and ps: "list_all cluster_patch ps"
  shows "EqualEnvoyFilters eqM eqV e d = Return True"
proof -
  have "someBy (equalConfigPatches eqM eqV p) ps = Return True" if p: "p \<in> set ps" for p
  proof -
    have "\<forall>q\<in>set ps. \<exists>b. equalConfigPatches eqM eqV p q = Return b"
      using ps p equalConfigPatches_total cluster_patch_present unfolding list_all_iff by metis
    moreover have "equalConfigPatches eqM eqV p p = Return True"
      using ps p by (intro equalConfigPatches_refl [OF V]) (simp add: list_all_iff)
    ultimately show ?thesis using p by (intro someBy_True)
  qed
  then have "everyBy (\<lambda>p. someBy (equalConfigPatches eqM eqV p) ps) ps = Return True"
    unfolding everyBy_True list_all_iff by blast
  then show ?thesis
    using assms(1) unfolding d by (simp add: EqualEnvoyFilters_def maps_Equal_refl istioEnvoyFilter_def GetLabels_def)
qed

lemma EqualEnvoyFilters_total:
  assumes "patches_present a" "patches_present b"
  shows "\<exists>r. EqualEnvoyFilters eqM eqV a b = Return r"
proof -
  have "\<exists>r. someBy (equalConfigPatches eqM eqV pa) (ef_ConfigPatches (mo_Spec b)) = Return r"
    if "pa \<in> set (ef_ConfigPatches (mo_Spec a))" for pa
  proof (rule someBy_total)
    show "\<forall>pb\<in>set (ef_ConfigPatches (mo_Spec b)). \<exists>r. equalConfigPatches eqM eqV pa pb = Return r"
      using assms that equalConfigPatches_total unfolding patches_present_def list_all_iff by metis
  qed
  then have "\<exists>r. everyBy (\<lambda>pa. someBy (equalConfigPatches eqM eqV pa) (ef_ConfigPatches (mo_Spec b))) (ef_ConfigPatches (mo_Spec a)) = Return r"
    by (intro everyBy_total) blast
  then show ?thesis by (auto simp: EqualEnvoyFilters_def Let_def)
qed

lemma istio_managed:
  assumes build: "istio_clusters ct ls name build" and ls: "selectorMatches ls ls" and V: "reflp (ie_EqV ie)"
  shows "managed_kind (envoyFilterKind ie r) build LinkGatewayToEnvoyFilter ls (\<lambda>_. True) patches_present"
proof
  fix g d e
  {
    assume "build g = Inr d"
    with build obtain ps where d: "d = istioEnvoyFilter ct (name (gateway_Name g)) ls g ps" and ps: "list_all cluster_patch ps"
      unfolding istio_clusters_def by blast
    have present: "patches_present d"
      using ps cluster_patch_present unfolding d patches_present_def istio_filter_simps list_all_iff by blast
    show "mo_GroupKind d = ok_GroupKind (envoyFilterKind ie r) \<and> mo_Labels d = ls" by (simp add: d envoyFilterKind_def)
    show "LinkGatewayToEnvoyFilter g d"
      unfolding d by (rule link_istio_filter [OF _ refl]) (simp add: istioEnvoyFilter_def)
    show "ok_Equal (envoyFilterKind ie r) d d = Return True"
      unfolding envoyFilterKind_def object_kind.simps by (rule EqualEnvoyFilters_same [OF refl d V ps])
    show "ok_Equal (envoyFilterKind ie r) (ok_Update (envoyFilterKind ie r) e d) d = Return True"
      unfolding envoyFilterKind_def object_kind.simps
      by (rule EqualEnvoyFilters_same [OF _ d V ps]) (simp add: d update_istio_filter)
    show "\<exists>b. ok_Equal (envoyFilterKind ie r) e d = Return b" if "patches_present e"
      unfolding envoyFilterKind_def object_kind.simps by (rule EqualEnvoyFilters_total [OF that present])
    show "LinkGatewayToEnvoyFilter g (ok_Update (envoyFilterKind ie r) e d)" if "mo_Key e = mo_Key d"
      unfolding d envoyFilterKind_def object_kind.simps
    proof (rule link_istio_filter [OF _ update_istio_filter(1)])
      show "obj_Namespace (updateEnvoyFilter e (istioEnvoyFilter ct (name (gateway_Name g)) ls g ps)) = gateway_Namespace g"
        using that by (simp add: d update_istio_filter mo_Key_def mo_NamespacedName_def istioEnvoyFilter_def)
    qed
  }
  show "mo_Key (ok_Update (envoyFilterKind ie r) e d) = mo_Key e \<and> mo_Labels (ok_Update (envoyFilterKind ie r) e d) \<in> {mo_Labels e, mo_Labels d}"
    by (simp add: envoyFilterKind_def update_istio_filter)
qed (rule ls)

text \<open>The objects of Envoy Gateway, whatever the reconciler.\<close>

definition envoy_gateway_clusters ::
  "cluster_topology \<Rightarrow> (string, string) gomap \<Rightarrow> (string \<Rightarrow> string) \<Rightarrow> (Gateway \<Rightarrow> string + EnvoyPatchPolicy) \<Rightarrow> bool" where
  "envoy_gateway_clusters ct ls name build \<longleftrightarrow>
     (\<forall>g d. build g = Inr d \<longrightarrow> (\<exists>ps. d = envoyPatchPolicy ct (name (gateway_Name g)) ls g ps))"

lemma patch_policy_simps [simp]:
  "mo_GroupKind (envoyPatchPolicy ct name ls g ps) = EnvoyPatchPolicyGroupKind" "mo_Labels (envoyPatchPolicy ct name ls g ps) = ls"
  "mo_NamespacedName (envoyPatchPolicy ct name ls g ps) = (gateway_Namespace g, name)"
  by (simp_all add: envoyPatchPolicy_def mo_GroupKind_def mo_NamespacedName_def)

lemma EqualEnvoyPatchPolicies_same: "mo_Spec e = mo_Spec d \<Longrightarrow> EqualEnvoyPatchPolicies e d"
  by (auto simp: EqualEnvoyPatchPolicies_def list_all_iff list_ex_iff Let_def)

lemma link_patch_policy:
  "gateway_Name g \<noteq> [] \<Longrightarrow> obj_Namespace e = gateway_Namespace g \<Longrightarrow> mo_Spec e = mo_Spec (envoyPatchPolicy ct name ls g ps) \<Longrightarrow>
   LinkGatewayToEnvoyPatchPolicy g e"
  by (simp add: LinkGatewayToEnvoyPatchPolicy_def envoyPatchPolicy_def refGroupKind_def)

lemma update_patch_policy:
  "mo_Spec (updateEnvoyPatchPolicy e d) = mo_Spec d" "obj_Namespace (updateEnvoyPatchPolicy e d) = obj_Namespace e"
  "mo_Labels (updateEnvoyPatchPolicy e d) = mo_Labels e" "mo_Key (updateEnvoyPatchPolicy e d) = mo_Key e"
  by (simp_all add: updateEnvoyPatchPolicy_def mo_Key_def mo_GroupKind_def mo_NamespacedName_def)

lemma envoy_gateway_managed:
  assumes build: "envoy_gateway_clusters ct ls name build" and ls: "selectorMatches ls ls"
  shows "managed_kind (envoyPatchPolicyKind r) build LinkGatewayToEnvoyPatchPolicy ls (\<lambda>g. gateway_Name g \<noteq> []) (\<lambda>_. True)"
proof
  fix g d e
  {
    assume "build g = Inr d"
    with build obtain ps where d: "d = envoyPatchPolicy ct (name (gateway_Name g)) ls g ps"
      unfolding envoy_gateway_clusters_def by blast
    show "mo_GroupKind d = ok_GroupKind (envoyPatchPolicyKind r) \<and> mo_Labels d = ls" by (simp add: d envoyPatchPolicyKind_def)
    show "LinkGatewayToEnvoyPatchPolicy g d" if g: "gateway_Name g \<noteq> []"
      unfolding d by (rule link_patch_policy [OF g _ refl]) (simp add: envoyPatchPolicy_def)
    show "ok_Equal (envoyPatchPolicyKind r) d d = Return True"
      by (simp add: envoyPatchPolicyKind_def EqualEnvoyPatchPolicies_same)
    show "ok_Equal (envoyPatchPolicyKind r) (ok_Update (envoyPatchPolicyKind r) e d) d = Return True"
      by (simp add: envoyPatchPolicyKind_def EqualEnvoyPatchPolicies_same update_patch_policy)
    show "\<exists>b. ok_Equal (envoyPatchPolicyKind r) e d = Return b" if True by (simp add: envoyPatchPolicyKind_def)
    show "LinkGatewayToEnvoyPatchPolicy g (ok_Update (envoyPatchPolicyKind r) e d)" if g: "gateway_Name g \<noteq> []" and "mo_Key e = mo_Key d"
      unfolding envoyPatchPolicyKind_def object_kind.simps
    proof (rule link_patch_policy [OF g])
      show "obj_Namespace (updateEnvoyPatchPolicy e d) = gateway_Namespace g"
        using that(2) by (simp add: d update_patch_policy mo_Key_def mo_NamespacedName_def envoyPatchPolicy_def)
      show "mo_Spec (updateEnvoyPatchPolicy e d) = mo_Spec (envoyPatchPolicy ct (name (gateway_Name g)) ls g ps)"
        by (simp add: d update_patch_policy)
    qed
  }
  show "mo_Key (ok_Update (envoyPatchPolicyKind r) e d) = mo_Key e \<and> mo_Labels (ok_Update (envoyPatchPolicyKind r) e d) \<in> {mo_Labels e, mo_Labels d}"
    by (simp add: envoyPatchPolicyKind_def update_patch_policy)
qed (rule ls)

lemma envoy_gateway_builders:
  "envoy_gateway_clusters ct AuthObjectLabels AuthClusterName (EnvoyGatewayAuth_buildDesiredEnvoyPatchPolicy ct raw authorino)"
  "envoy_gateway_clusters ct RateLimitObjectLabels RateLimitClusterName (EnvoyGatewayRateLimit_buildDesiredEnvoyPatchPolicy ct raw service)"
  "envoy_gateway_clusters ct TracingObjectLabels TracingClusterName (EnvoyGatewayTracing_buildDesiredEnvoyPatchPolicy ct raw spec)"
  unfolding envoy_gateway_clusters_def EnvoyGatewayAuth_buildDesiredEnvoyPatchPolicy_def EnvoyGatewayRateLimit_buildDesiredEnvoyPatchPolicy_def
    EnvoyGatewayTracing_buildDesiredEnvoyPatchPolicy_def Let_def
  by (auto split: prod.splits sum.splits)

text \<open>The reconcilers of Envoy Gateway are instances of the interface without further assumptions.\<close>

interpretation eg_auth: managed_kind "envoyPatchPolicyKind r" "EnvoyGatewayAuth_buildDesiredEnvoyPatchPolicy ct raw authorino"
  LinkGatewayToEnvoyPatchPolicy AuthObjectLabels "\<lambda>g. gateway_Name g \<noteq> []" "\<lambda>_. True" for r ct raw authorino
  by (rule envoy_gateway_managed [OF envoy_gateway_builders(1)]) simp

interpretation eg_ratelimit: managed_kind "envoyPatchPolicyKind r" "EnvoyGatewayRateLimit_buildDesiredEnvoyPatchPolicy ct raw service"
  LinkGatewayToEnvoyPatchPolicy RateLimitObjectLabels "\<lambda>g. gateway_Name g \<noteq> []" "\<lambda>_. True" for r ct raw service
  by (rule envoy_gateway_managed [OF envoy_gateway_builders(2)]) simp

interpretation eg_tracing: managed_kind "envoyPatchPolicyKind r" "EnvoyGatewayTracing_buildDesiredEnvoyPatchPolicy ct raw spec"
  LinkGatewayToEnvoyPatchPolicy TracingObjectLabels "\<lambda>g. gateway_Name g \<noteq> []" "\<lambda>_. True" for r ct raw spec
  by (rule envoy_gateway_managed [OF envoy_gateway_builders(3)]) simp

section \<open>Gateways get objects of their own\<close>

text \<open>The locator of the policy-machinery library depends on kind, namespace and name only.\<close>

definition locator_of_name :: "cluster_topology \<Rightarrow> bool" where
  "locator_of_name ct \<longleftrightarrow> (\<forall>g g'. gateway_Namespace g = gateway_Namespace g' \<longrightarrow> gateway_Name g = gateway_Name g' \<longrightarrow>
     gatewayLocator ct g = gatewayLocator ct g')"

lemma uniqByLocator_new: "g \<in> set (uniqByLocator ct seen gs) \<Longrightarrow> gatewayLocator ct g \<notin> set seen"
proof (induction gs arbitrary: seen)
  case (Cons a gs)
  show ?case
  proof (cases "gatewayLocator ct a \<in> set seen")
    case False
    with Cons.prems consider "g = a" | "g \<in> set (uniqByLocator ct (gatewayLocator ct a # seen) gs)" by auto
    then show ?thesis using False Cons.IH [of "gatewayLocator ct a # seen"] by cases auto
  qed (use Cons in simp)
qed simp

lemma uniqByLocator_distinct: "distinct (uniqByLocator ct seen gs)" "inj_on (gatewayLocator ct) (set (uniqByLocator ct seen gs))"
  by (induction gs arbitrary: seen) (auto dest: uniqByLocator_new simp: inj_on_def)

lemma names_differ_unique:
  assumes "\<forall>g d. build g = Inr d \<longrightarrow> mo_NamespacedName d = (gateway_Namespace g, name (gateway_Name g))" "inj name" "locator_of_name ct"
  shows "names_differ build (uniqByLocator ct seen gs)"
  unfolding names_differ_def
proof (intro conjI ballI allI impI)
  fix g g' d d'
  assume g: "g \<in> set (uniqByLocator ct seen gs)" "g' \<in> set (uniqByLocator ct seen gs)" "build g = Inr d" "build g' = Inr d'"
    and "mo_NamespacedName d = mo_NamespacedName d'"
  with assms(1,2) have "gateway_Namespace g = gateway_Namespace g'" "gateway_Name g = gateway_Name g'"
    by (auto dest: injD)
  with assms(3) have "gatewayLocator ct g = gatewayLocator ct g'" unfolding locator_of_name_def by blast
  with uniqByLocator_distinct(2) g(1,2) show "g = g'" by (metis inj_onD)
qed (rule uniqByLocator_distinct)

lemma cluster_names_inj: "inj AuthClusterName" "inj RateLimitClusterName" "inj TracingClusterName"
  by (auto simp: inj_def AuthClusterName_def RateLimitClusterName_def TracingClusterName_def)

section \<open>The reconcilers converge\<close>

text \<open>
  The outcome of a run that does its job: on the cluster that results from its calls every gateway
  has its object with the desired contents, no other object has the labels, and a second run calls
  nothing.
\<close>

definition converges ::
  "('s managed_object \<Rightarrow> 's managed_object \<Rightarrow> bool go_result) \<Rightarrow> string \<times> string \<Rightarrow> ('g \<Rightarrow> string + 's managed_object) \<Rightarrow> (string, string) gomap \<Rightarrow>
   'g list \<Rightarrow> ('s managed_object list \<Rightarrow> ('s object_state \<times> string list option) go_result) \<Rightarrow> 's managed_object list \<Rightarrow> bool" where
  "converges equal gk build ls gws run items \<longleftrightarrow>
     (\<exists>st modified items2. run items = Return (st, Some modified) \<and> items2 = applyOps (os_Ops st) items \<and>
       (\<forall>g\<in>set gws. \<forall>d. build g = Inr d \<longrightarrow> (\<exists>o'\<in>set items2. mo_Key o' = mo_Key d \<and> equal o' d = Return True)) \<and>
       (\<forall>o'\<in>set items2. mo_GroupKind o' = gk \<longrightarrow> selectorMatches (mo_Labels o') ls \<longrightarrow>
         (\<exists>g\<in>set gws. \<exists>d. build g = Inr d \<and> mo_Key o' = mo_Key d \<and> equal o' d = Return True)) \<and>
       (\<exists>st2 modified2. run items2 = Return (st2, Some modified2) \<and> os_Ops st2 = []))"

lemma converges_wrapped:
  assumes "\<exists>st' modified items2. reconcileManaged env k build (childrenOf link items) loc ls gws items st = Return (st', modified) \<and>
      items2 = applyOps (os_Ops st') items \<and>
      (\<forall>g\<in>set gws. \<forall>d. build g = Inr d \<longrightarrow> (\<exists>o'\<in>set items2. mo_Key o' = mo_Key d \<and> ok_Equal k o' d = Return True)) \<and>
      (\<forall>o'\<in>set items2. mo_GroupKind o' = ok_GroupKind k \<longrightarrow> selectorMatches (mo_Labels o') ls \<longrightarrow>
        (\<exists>g\<in>set gws. \<exists>d. build g = Inr d \<and> mo_Key o' = mo_Key d \<and> ok_Equal k o' d = Return True)) \<and>
      (\<exists>st2 modified2. reconcileManaged env k build (childrenOf link items2) loc ls gws items2 st = Return (st2, modified2) \<and> os_Ops st2 = [])"
    and run: "\<And>items. run items = gbind (reconcileManaged env k build (childrenOf link items) loc ls gws items st) (\<lambda>(st, m). Return (st, Some m))"
  shows "converges (ok_Equal k) (ok_GroupKind k) build ls gws run items"
proof -
  from assms(1) obtain st' modified items2 st2 modified2
    where r: "reconcileManaged env k build (childrenOf link items) loc ls gws items st = Return (st', modified)"
      and i: "items2 = applyOps (os_Ops st') items"
      and a: "\<forall>g\<in>set gws. \<forall>d. build g = Inr d \<longrightarrow> (\<exists>o'\<in>set items2. mo_Key o' = mo_Key d \<and> ok_Equal k o' d = Return True)"
      and b: "\<forall>o'\<in>set items2. mo_GroupKind o' = ok_GroupKind k \<longrightarrow> selectorMatches (mo_Labels o') ls \<longrightarrow>
        (\<exists>g\<in>set gws. \<exists>d. build g = Inr d \<and> mo_Key o' = mo_Key d \<and> ok_Equal k o' d = Return True)"
      and r2: "reconcileManaged env k build (childrenOf link items2) loc ls gws items2 st = Return (st2, modified2)" "os_Ops st2 = []"
    by (elim exE conjE)
  have "run items = Return (st', Some modified)" "run items2 = Return (st2, Some modified2)" by (simp_all add: run r r2)
  with i a b r2(2) show ?thesis unfolding converges_def by blast
qed

lemma istio_converges:
  assumes build: "istio_clusters ct ls name build" and ls: "selectorMatches ls ls" and V: "reflp (ie_EqV ie)"
    and destruct: "\<forall>o'. oe_Destruct (ie_Objects ie) o'" and gws: "names_differ build gws"
    and place: "objects_in_place build LinkGatewayToEnvoyFilter ls gws items"
    and present: "list_all (\<lambda>o'. mo_GroupKind o' = EnvoyFilterGroupKind \<longrightarrow> patches_present o') items" and start: "os_Ops st = []"
  shows "converges (EqualEnvoyFilters (ie_EqM ie) (ie_EqV ie)) EnvoyFilterGroupKind build ls gws
    (\<lambda>items. reconcileIstioClusters ie ct r build ls gws (childrenOf LinkGatewayToEnvoyFilter items) items st) items"
proof -
  let ?k = "envoyFilterKind ie r"
  have k: "ok_Equal ?k = EqualEnvoyFilters (ie_EqM ie) (ie_EqV ie)" "ok_GroupKind ?k = EnvoyFilterGroupKind" by (simp_all add: envoyFilterKind_def)
  note m = istio_managed [OF build ls V, of r]
  note c = managed_kind.reconcile_converges [OF m destruct _ _ start, of gws items "gatewayLocator ct"]
  have "converges (ok_Equal ?k) (ok_GroupKind ?k) build ls gws
    (\<lambda>items. reconcileIstioClusters ie ct r build ls gws (childrenOf LinkGatewayToEnvoyFilter items) items st) items"
    by (rule converges_wrapped [OF c]) (use gws place present in \<open>simp_all add: k reconcileIstioClusters_def\<close>)
  then show ?thesis by (simp add: k)
qed

lemma envoy_gateway_converges:
  assumes build: "envoy_gateway_clusters ct ls name build" and ls: "selectorMatches ls ls"
    and destruct: "\<forall>o'. oe_Destruct (ee_Objects ee) o'" and gws: "names_differ build gws" "\<forall>g\<in>set gws. gateway_Name g \<noteq> []"
    and place: "objects_in_place build LinkGatewayToEnvoyPatchPolicy ls gws items" and start: "os_Ops st = []"
  shows "converges (\<lambda>a b. Return (EqualEnvoyPatchPolicies a b)) EnvoyPatchPolicyGroupKind build ls gws
    (\<lambda>items. reconcileEnvoyGatewayClusters ee ct r build ls gws (childrenOf LinkGatewayToEnvoyPatchPolicy items) items st) items"
proof -
  let ?k = "envoyPatchPolicyKind r"
  have k: "ok_Equal ?k = (\<lambda>a b. Return (EqualEnvoyPatchPolicies a b))" "ok_GroupKind ?k = EnvoyPatchPolicyGroupKind"
    by (simp_all add: envoyPatchPolicyKind_def)
  note m = envoy_gateway_managed [OF build ls, of r]
  note c = managed_kind.reconcile_converges [OF m destruct _ _ start, of gws items "gatewayLocator ct"]
  have "converges (ok_Equal ?k) (ok_GroupKind ?k) build ls gws
    (\<lambda>items. reconcileEnvoyGatewayClusters ee ct r build ls gws (childrenOf LinkGatewayToEnvoyPatchPolicy items) items st) items"
    by (rule converges_wrapped [OF c]) (use gws place in \<open>simp_all add: k reconcileEnvoyGatewayClusters_def list_all_iff\<close>)
  then show ?thesis by (simp add: k)
qed


text \<open>
  The rate limit clusters of Envoy Gateway converge in the same way, provided that Limitador
  reports its service; without it the reconciler panics as soon as there is a gateway to serve.
\<close>

theorem envoy_gateway_ratelimit_clusters_converge:
  assumes "GetKuadrantFromTopology (ct_View ct) es = Some kuadrant"
    and "List.find (\<lambda>child. to_GroupKind child = LimitadorGroupKind) (ev_KuadrantChildren (ct_View ct) kuadrant) = Some limitador"
    and gws: "gws = rateLimitGateways ct (envoyGatewayGatewayControllerNames (ct_Environment ct)) ws"
    and build: "build = EnvoyGatewayRateLimit_buildDesiredEnvoyPatchPolicy ct (ee_RawJSON ee) (Deref (ct_LimitadorService ct limitador) ([], 0))"
    and "\<forall>o'. oe_Destruct (ee_Objects ee) o'" "locator_of_name ct" "\<forall>g\<in>set gws. gateway_Name g \<noteq> []"
    and "objects_in_place build LinkGatewayToEnvoyPatchPolicy RateLimitObjectLabels gws items"
  shows "if ct_LimitadorService ct limitador = None \<and> gws \<noteq> []
    then EnvoyGatewayRateLimitClusterReconciler_Reconcile ee ct es ws (childrenOf LinkGatewayToEnvoyPatchPolicy items) items registry =
      Panic ''nil pointer dereference''
    else converges (\<lambda>a b. Return (EqualEnvoyPatchPolicies a b)) EnvoyPatchPolicyGroupKind build RateLimitObjectLabels gws
      (\<lambda>items. EnvoyGatewayRateLimitClusterReconciler_Reconcile ee ct es ws (childrenOf LinkGatewayToEnvoyPatchPolicy items) items registry) items"
proof -
  have shape: "envoy_gateway_clusters ct RateLimitObjectLabels RateLimitClusterName build" unfolding build by (rule envoy_gateway_builders)
  then have "\<forall>g d. build g = Inr d \<longrightarrow> mo_NamespacedName d = (gateway_Namespace g, RateLimitClusterName (gateway_Name g))"
    unfolding envoy_gateway_clusters_def by (metis patch_policy_simps(3))
  then have differ: "names_differ build gws"
    unfolding gws rateLimitGateways_def by (rule names_differ_unique [OF _ cluster_names_inj(2) assms(6)])
  let ?st = "\<lparr>os_Ops = [], os_Errors = fst (GetOrCreateErrorRegistry registry)\<rparr>"
  have run: "EnvoyGatewayRateLimitClusterReconciler_Reconcile ee ct es ws children items registry =
      (if ct_LimitadorService ct limitador = None \<and> gws \<noteq> [] then Panic ''nil pointer dereference''
       else reconcileEnvoyGatewayClusters ee ct ''EnvoyGatewayRateLimitClusterReconciler'' build RateLimitObjectLabels gws children items ?st)"
    for children items
    using assms(1,2) by (simp add: EnvoyGatewayRateLimitClusterReconciler_Reconcile_def gws build Let_def)
  have conv: "converges (\<lambda>a b. Return (EqualEnvoyPatchPolicies a b)) EnvoyPatchPolicyGroupKind build RateLimitObjectLabels gws
    (\<lambda>items. reconcileEnvoyGatewayClusters ee ct ''EnvoyGatewayRateLimitClusterReconciler'' build RateLimitObjectLabels gws
      (childrenOf LinkGatewayToEnvoyPatchPolicy items) items ?st) items"
    by (rule envoy_gateway_converges [OF shape selectorMatches_labels(2) assms(5) differ assms(7,8)]) simp
  show ?thesis
  proof (cases "ct_LimitadorService ct limitador = None \<and> gws \<noteq> []")
    case False
    then show ?thesis unfolding run using conv by (simp only: if_False)
  qed (simp add: run)
qed

section \<open>Examples and further observations\<close>

definition ex_cluster_topology :: "(string \<times> int) option \<Rightarrow> string \<Rightarrow> cluster_topology" where
  "ex_cluster_topology service controller = \<lparr>ct_View = ex_view\<lparr>ev_KuadrantChildren := (\<lambda>_. [ex_child AuthorinoGroupKind ''authorino'',
       ex_child LimitadorGroupKind ''limitador'']), ev_ControllerName := (\<lambda>_. controller)\<rparr>,
     ct_AuthorinoOf = (\<lambda>_. \<lparr>az_Name = ''authorino'', az_Namespace = ''ns'', az_GRPCPort = None, az_Port = None\<rparr>),
     ct_LimitadorService = (\<lambda>_. service),
     ct_KuadrantSpec = (\<lambda>_. \<lparr>kds_MTLS = None, kds_Observability = ex_observability, kds_TracingInsecure = True\<rparr>),
     ct_Gateways = [ex_ready_gateway], ct_Parents = (\<lambda>_. Some ex_gc), ct_Pipeline = (\<lambda>_. False),
     ct_Locator = (\<lambda>t. case asGateway t of Some (Some g) \<Rightarrow> gateway_Namespace g @ ''/'' @ gateway_Name g | _ \<Rightarrow> []),
     ct_Owner = (\<lambda>g. \<lparr>owner_APIVersion = ''v1'', owner_Kind = ''Gateway'', owner_Name = gateway_Name g, owner_UID = [],
       owner_BlockOwnerDeletion = Some True, owner_Controller = Some True\<rparr>),
     ct_ParseURL = Inl, ct_Environment = ex_default_env\<rparr>"

definition ex_istio_env :: istio_env where
  "ex_istio_env = \<lparr>ie_Objects = \<lparr>oe_Api = (\<lambda>_. None), oe_Destruct = (\<lambda>_. True), oe_Now = 0\<rparr>,
     ie_Unmarshal = (\<lambda>v. Inr \<lparr>efp_Operation = ''ADD'', efp_FilterClass = [], efp_Value = v\<rparr>), ie_EqM = (=), ie_EqV = (=)\<rparr>"

definition ex_auth_state :: "string workflow_state" where
  "ex_auth_state = ex_state\<lparr>st_EffectiveAuthPolicies := Some [(''id'', \<lparr>ep_Path = ex_ready_path, ep_Spec = ex_gateway_ap, ep_SourcePolicies = []\<rparr>)]\<rparr>"

text \<open>A filter that is left over from a gateway that is gone.\<close>

definition ex_stale_filter :: EnvoyFilter where
  "ex_stale_filter = istioEnvoyFilter (ex_cluster_topology None defaultIstioGatewayControllerName) ''kuadrant-auth-gone'' AuthObjectLabels ex_ready_gateway []"

lemma ex_locator_of_name: "locator_of_name (ex_cluster_topology service controller)"
  by (simp add: locator_of_name_def gatewayLocator_def ex_cluster_topology_def)


definition ex_envoy_gateway_env :: envoy_gateway_env where
  "ex_envoy_gateway_env = \<lparr>ee_Objects = \<lparr>oe_Api = (\<lambda>_. None), oe_Destruct = (\<lambda>_. True), oe_Now = 0\<rparr>, ee_RawJSON = (\<lambda>_. Inr ''{}'')\<rparr>"

theorem envoy_gateway_ratelimit_clusters_converge_witness:
  "converges (\<lambda>a b. Return (EqualEnvoyPatchPolicies a b)) EnvoyPatchPolicyGroupKind
     (EnvoyGatewayRateLimit_buildDesiredEnvoyPatchPolicy (ex_cluster_topology (Some (''limitador'', 8081)) defaultEnvoyGatewayGatewayControllerName)
       (ee_RawJSON ex_envoy_gateway_env) (''limitador'', 8081))
     RateLimitObjectLabels [ex_ready_gateway]
     (\<lambda>items. EnvoyGatewayRateLimitClusterReconciler_Reconcile ex_envoy_gateway_env
       (ex_cluster_topology (Some (''limitador'', 8081)) defaultEnvoyGatewayGatewayControllerName) ex_nothing_modified ex_effective_state
       (childrenOf LinkGatewayToEnvoyPatchPolicy items) items None) []"
proof -
  let ?ct = "ex_cluster_topology (Some (''limitador'', 8081)) defaultEnvoyGatewayGatewayControllerName"
  let ?build = "EnvoyGatewayRateLimit_buildDesiredEnvoyPatchPolicy ?ct (ee_RawJSON ex_envoy_gateway_env) (''limitador'', 8081)"
  have gws: "[ex_ready_gateway] = rateLimitGateways ?ct (envoyGatewayGatewayControllerNames (ct_Environment ?ct)) ex_effective_state"
    by code_simp
  have kuadrant: "GetKuadrantFromTopology (ct_View ?ct) ex_nothing_modified = Some \<lparr>kd_Name = ''kuadrant'', kd_Deleted = False, kd_Mode = []\<rparr>"
    by code_simp
  have limitador: "List.find (\<lambda>child. to_GroupKind child = LimitadorGroupKind)
      (ev_KuadrantChildren (ct_View ?ct) \<lparr>kd_Name = ''kuadrant'', kd_Deleted = False, kd_Mode = []\<rparr>) = Some (ex_child LimitadorGroupKind ''limitador'')"
    by code_simp
  have place: "objects_in_place ?build LinkGatewayToEnvoyPatchPolicy RateLimitObjectLabels [ex_ready_gateway] []"
    by (simp add: objects_in_place_def)
  have service: "ct_LimitadorService ?ct (ex_child LimitadorGroupKind ''limitador'') = Some (''limitador'', 8081)"
    by (simp add: ex_cluster_topology_def)
  have build: "?build = EnvoyGatewayRateLimit_buildDesiredEnvoyPatchPolicy ?ct (ee_RawJSON ex_envoy_gateway_env)
      (Deref (ct_LimitadorService ?ct (ex_child LimitadorGroupKind ''limitador'')) ([], 0))"
    unfolding service by simp
  have name: "\<forall>g\<in>set [ex_ready_gateway]. gateway_Name g \<noteq> []" by code_simp
  have destruct: "\<forall>o'. oe_Destruct (ee_Objects ex_envoy_gateway_env) o'" by (simp add: ex_envoy_gateway_env_def)
  show ?thesis
    using envoy_gateway_ratelimit_clusters_converge [OF kuadrant limitador gws build destruct ex_locator_of_name name place, of None] service
    by simp
qed

text \<open>A filter in the cluster with an entry that has no patch makes the comparison panic.\<close>

lemma filter_without_patch_panics:
  "EqualEnvoyFilters (=) (=)
     (istioEnvoyFilter ct name ls g [Some \<lparr>cp_ApplyTo = EnvoyFilter_CLUSTER,
        cp_Match = Some \<lparr>cm_Context = ''ANY'', cm_Objects = ClusterMatch host 0 []\<rparr>, cp_Patch = None\<rparr>])
     (istioEnvoyFilter ct name ls g [Some \<lparr>cp_ApplyTo = EnvoyFilter_CLUSTER,
        cp_Match = Some \<lparr>cm_Context = ''ANY'', cm_Objects = ClusterMatch host 0 []\<rparr>, cp_Patch = Some patch\<rparr>]) =
   Panic ''nil pointer dereference''"
  by (simp add: EqualEnvoyFilters_def istioEnvoyFilter_def maps_Equal_def GetLabels_def equalConfigPatches_def equalMatches_def GetCluster_def)

text \<open>The comparison is not an equality: a filter that has one patch twice passes for one with two patches.\<close>

lemma missing_patch_unnoticed:
  assumes "p = Some \<lparr>cp_ApplyTo = EnvoyFilter_CLUSTER, cp_Match = Some \<lparr>cm_Context = ''ANY'', cm_Objects = ClusterMatch host 0 []\<rparr>, cp_Patch = Some patch\<rparr>"
  shows "EqualEnvoyFilters (=) (=) (istioEnvoyFilter ct name ls g [p, p]) (istioEnvoyFilter ct name ls g [p, q]) = Return True"
  using assms
  by (simp add: EqualEnvoyFilters_def istioEnvoyFilter_def maps_Equal_def GetLabels_def equalConfigPatches_def equalMatches_def GetCluster_def)

text \<open>A label that somebody adds to an object hides it from its reconciler, which then tries to create it again.\<close>

lemma extra_label_hides_object:
  assumes "map_of (mo_Labels d) l = None" "mo_Labels e = mo_Labels d @ [(l, v)]"
  shows "findObject k d [e] = None"
  using assms by (simp add: findObject_def selectorMatches_def)

end
