(* ===== verification/Wasm_Extensions.thy ===== *)
theory Wasm_Extensions
  imports Gateway_Clusters
begin

text \<open>
  The wasm filters of the gateways: from the effective policies of all paths to one configuration
  per gateway, and from there to the resources of Istio and Envoy Gateway
  (\<open>internal/controller/istio_extension_reconciler.go\<close>,
  \<open>internal/controller/envoy_gateway_extension_reconciler.go\<close>).

  \<open>buildWasmConfigs\<close> of the two reconcilers does the same for different gateway controllers and is
  modelled once.  It composes what the other theories model: the specifications of the policies,
  their merging and validation, the actions, the action sets of a path and the configuration of a
  gateway.  The clusters of registered upstreams are managed objects, so their runs converge.
\<close>

section \<open>The environment\<close>

text \<open>
  What the reconcilers are given from outside; most of it are the parameters of the modelled parts.
  The mutators are the registered data mutators, the only ones the program registers.
  \<open>we_Failed\<close> is the configuration that a failing mutator leaves behind, \<open>we_GetInt\<close> is
  \<open>env.GetInt\<close>, \<open>we_Now\<close> the clock of the error registry.
\<close>

record ('s, 'ast, 'val, 'e) wasm_env =
  we_Clusters :: cluster_topology
  we_Topo :: "'s topo_view"
  we_Children :: "targetable \<Rightarrow> targetable list"
  we_FindCond :: find_cond
  we_Locator :: locator_fun
  we_NN :: "string \<Rightarrow> string \<Rightarrow> string"
  we_Hash8 :: "string \<Rightarrow> string"
  we_Sha :: "string \<Rightarrow> string"
  we_Sha8 :: "string \<Rightarrow> string"
  we_BackendRequest :: "HTTPRouteMatch TopoRouteRule \<Rightarrow> string option"
  we_HTTPRuleNames :: "HTTPRouteMatch TopoRoute \<Rightarrow> string list"
  we_GRPCRuleNames :: "GRPCRouteMatch TopoRoute \<Rightarrow> string list"
  we_ListenerName :: "TopoListener \<Rightarrow> string"
  we_Stores :: "nat \<Rightarrow> ('ast, 'val) RegisteredDataStore"
  we_Mutators :: "nat list"
  we_Failed :: "Config \<Rightarrow> Config"
  we_NewEnv :: "(cel_type, string \<times> cel_type list \<times> cel_type) env_option list \<Rightarrow> string + 'e"
  we_Check :: "'e \<Rightarrow> string \<Rightarrow> go_error + cel_type"
  we_TypeText :: "cel_type \<Rightarrow> string"
  we_GetInt :: "string \<Rightarrow> int \<Rightarrow> string + int"

definition wasmMutators :: "('s, 'ast, 'val, 'e) wasm_env \<Rightarrow> (Config \<Rightarrow> PolicyTargetReference list \<Rightarrow> string + Config) mutator list" where
  "wasmMutators we = map RegisteredDataMutator (we_Mutators we)"

definition getIntOr :: "('s, 'ast, 'val, 'e) wasm_env \<Rightarrow> string \<Rightarrow> int \<Rightarrow> int" where
  "getIntOr we name d = (case we_GetInt we name d of Inl err \<Rightarrow> d | Inr v \<Rightarrow> v)"

section \<open>The specifications of a path\<close>

definition specsHaveAuthAccess :: "ActionSpec list \<Rightarrow> bool" where
  "specsHaveAuthAccess specs = list_ex HasAuthAccess specs"

text \<open>Rate limits that read auth data come after auth, the others before it.\<close>

definition placeSpecs :: "bool \<Rightarrow> ActionSpec list \<Rightarrow> ActionSpec list \<Rightarrow> ActionSpec list" where
  "placeSpecs hasAuth rlSpecs specs =
     (if specsHaveAuthAccess rlSpecs then specs @ rlSpecs
      else (if hasAuth then map (\<lambda>s. s\<lparr>sp_Execution := ExecutionSequential\<rparr>) rlSpecs else rlSpecs) @ specs)"

definition tokenMode :: "string \<Rightarrow> TokenRateLimitingMode" where
  "tokenMode mode = (if mode = ''Reservation'' then ModeReservation else ModeOptimistic)"

definition policySpecs ::
  "('s, 'ast, 'val, 'e) wasm_env \<Rightarrow> 's workflow_state \<Rightarrow> string \<Rightarrow> string \<Rightarrow> ActionSpec list go_result" where
  "policySpecs we ws mode pathID =
     (let auth = map_of (Deref (st_EffectiveAuthPolicies ws) []) pathID;
          hasAuth = (auth \<noteq> None);
          specs = (case auth of None \<Rightarrow> [] | Some ep \<Rightarrow> buildWasmActionSpecsForAuth (we_Sha we) pathID ep)
      in gbind (case map_of (Deref (st_EffectiveRateLimitPolicies ws) []) pathID of None \<Rightarrow> Return specs
           | Some ep \<Rightarrow> gbind (buildWasmActionSpecsForRateLimit (we_Hash8 we) (we_NN we) (we_Locator we) (we_Topo we) ep
               (isRateLimitPolicyAcceptedAndNotDeletedFunc (we_FindCond we) (we_Locator we) ws))
               (\<lambda>rlSpecs. Return (placeSpecs hasAuth rlSpecs specs))) (\<lambda>specs.
         case map_of (Deref (st_EffectiveTokenRateLimitPolicies ws) []) pathID of None \<Rightarrow> Return specs
         | Some ep \<Rightarrow> gbind (buildWasmActionSpecsForTokenRateLimit (we_Hash8 we) (we_NN we) (we_BackendRequest we) (we_Locator we) (we_Topo we) ep
             (isTokenRateLimitPolicyAcceptedAndNotDeletedFunc (we_FindCond we) (we_Locator we) ws) (tokenMode mode))
             (\<lambda>trlSpecs. Return (placeSpecs hasAuth trlSpecs specs))))"

text \<open>The validator has the bindings of the policies of the path, in the order of their evaluation.\<close>

definition pathValidator :: "'s workflow_state \<Rightarrow> string \<Rightarrow> (cel_type, string \<times> cel_type list \<times> cel_type) ValidatorBuilder" where
  "pathValidator ws pathID =
     (let push = (\<lambda>present kind name b. if present then PushPolicyBinding kind name AnyType b else b)
      in push (map_of (Deref (st_EffectiveTokenRateLimitPolicies ws) []) pathID \<noteq> None) TokenRateLimitPolicyKind ''ratelimit''
          (push (map_of (Deref (st_EffectiveRateLimitPolicies ws) []) pathID \<noteq> None) RateLimitPolicyKind ''ratelimit''
            (push (map_of (Deref (st_EffectiveAuthPolicies ws) []) pathID \<noteq> None) AuthPolicyKind ''auth'' NewRootValidatorBuilder)))"

definition routeLocator :: "('s, 'ast, 'val, 'e) wasm_env \<Rightarrow> ParsedTopologyPath \<Rightarrow> string" where
  "routeLocator we parsed =
     (case ptp_RouteType parsed of
        RouteTypeHTTP \<Rightarrow> ct_Locator (we_Clusters we) (THTTPRoute (ptp_HTTPRoute parsed))
      | RouteTypeGRPC \<Rightarrow> ct_Locator (we_Clusters we) (TGRPCRoute (ptp_GRPCRoute parsed))
      | RouteTypeUnknown \<Rightarrow> [])"

text \<open>Valid specifications become actions, the others issues.\<close>

definition splitSpecs ::
  "('s, 'ast, 'val, 'e) wasm_env \<Rightarrow> (string, 'e) gomap \<Rightarrow> string \<Rightarrow> ActionSpec list \<Rightarrow> ActionSpec list \<times> Issue list" where
  "splitSpecs we validator pathID specs =
     (filter (\<lambda>spec. ValidateWasmActionSpec (we_Check we) (we_TypeText we) spec validator = None) specs,
      concat (map (\<lambda>spec. case ValidateWasmActionSpec (we_Check we) (we_TypeText we) spec validator of
        None \<Rightarrow> [] | Some err \<Rightarrow> [NewIssue spec pathID err]) specs))"

text \<open>
  The body of the loop over the paths for a path of one of the controllers: an error that ends
  the reconciliation, or the action sets of the path and its issues.
\<close>

definition pathSets ::
  "('s, 'ast, 'val, 'e) wasm_env \<Rightarrow> 's workflow_state \<Rightarrow> string \<Rightarrow> string \<Rightarrow> targetable list \<Rightarrow> ParsedTopologyPath \<Rightarrow> Gateway \<Rightarrow>
   (string + ActionSet HTTPRouteMatchConfig list \<times> Issue list) go_result" where
  "pathSets we ws mode pathID path parsed gateway =
     gbind (policySpecs we ws mode pathID) (\<lambda>specs.
       let specs = AttachBindings specs (GetRequestBindings (we_Stores we) (wasmMutators we)
             [gatewayLocator (we_Clusters we) gateway, routeLocator we parsed])
       in Return (case mergeAndVerifySpecs specs of
            Inl err \<Rightarrow> Inl (''failed to merge/verify action specs for path '' @ pathID @ '': '' @ err)
          | Inr specs \<Rightarrow>
            if length specs = 0 then Inr ([], [])
            else (case ValidatorBuilder_Build (we_NewEnv we) (pathValidator ws pathID) of
              Inl err \<Rightarrow> Inl (''failed to build validator for path '' @ pathID @ '': '' @ err)
            | Inr validator \<Rightarrow>
              (let (validSpecs, issues) = splitSpecs we validator pathID specs;
                   builtActions = BuildActions validSpecs
               in if length builtActions = 0 then Inr ([], issues)
                  else (case BuildActionSetsForPath (we_Sha we) (we_HTTPRuleNames we) (we_GRPCRuleNames we) pathID path builtActions of
                    Inl err \<Rightarrow> Inr ([], issues)
                  | Inr sets \<Rightarrow> Inr (sets, issues))))))"

section \<open>The configurations of the gateways\<close>

definition policyPaths :: "(string, 'p EffectivePolicy) gomap option \<Rightarrow> (string \<times> targetable list) list" where
  "policyPaths effectivePolicies = map (\<lambda>(pathID, ep). (pathID, ep_Path ep)) (Deref effectivePolicies [])"

fun uniqByKey :: "string list \<Rightarrow> (string \<times> 'v) list \<Rightarrow> (string \<times> 'v) list" where
  "uniqByKey seen [] = []"
| "uniqByKey seen (e # es) = (if fst e \<in> set seen then uniqByKey seen es else e # uniqByKey (fst e # seen) es)"

definition wasmPaths :: "'s workflow_state \<Rightarrow> (string \<times> targetable list) list" where
  "wasmPaths ws = uniqByKey [] (policyPaths (st_EffectiveAuthPolicies ws) @ policyPaths (st_EffectiveRateLimitPolicies ws) @
     policyPaths (st_EffectiveTokenRateLimitPolicies ws))"

text \<open>The loop over the paths; other gateways and invalid paths are skipped.\<close>

fun buildPaths ::
  "('s, 'ast, 'val, 'e) wasm_env \<Rightarrow> string list \<Rightarrow> 's workflow_state \<Rightarrow> string \<Rightarrow> (string \<times> targetable list) list \<Rightarrow>
   ActionSet GroupedHTTPRouteMatchConfigs \<times> IssueCollection \<Rightarrow> (string + ActionSet GroupedHTTPRouteMatchConfigs \<times> IssueCollection) go_result" where
  "buildPaths we names ws mode [] acc = Return (Inr acc)"
| "buildPaths we names ws mode ((pathID, path) # paths) (sets, issues) =
     (case ParseTopologyPath path of Inl err \<Rightarrow> buildPaths we names ws mode paths (sets, issues)
      | Inr parsed \<Rightarrow>
        (case pathGateway (we_Clusters we) names path of None \<Rightarrow> buildPaths we names ws mode paths (sets, issues)
         | Some gateway \<Rightarrow>
           gbind (pathSets we ws mode pathID path parsed gateway) (\<lambda>r. case r of Inl err \<Rightarrow> Return (Inl err)
             | Inr (newSets, pathIssues) \<Rightarrow>
               buildPaths we names ws mode paths
                 (Grouped_Add sets (gatewayLocator (we_Clusters we) gateway) newSets, foldl (\<lambda>is i. IssueCollection_Add i is) issues pathIssues))))"

datatype wasm_error = MissingEffectiveAuthPolicies | BuildError string

text \<open>
  The configurations by gateway, with the observability settings and the services for
  gateways that only extensions use, and the issues to store, if any.
\<close>

definition buildWasmConfigs ::
  "('s, 'ast, 'val, 'e) wasm_env \<Rightarrow> string list \<Rightarrow> enforcement_state \<Rightarrow> 's workflow_state \<Rightarrow>
   ((wasm_error + (string, Config) gomap \<times> IssueCollection option) \<times> Observability option \<times> ServiceBuilder) go_result" where
  "buildWasmConfigs we names es ws =
     (let ct = we_Clusters we;
          environ = ct_Environment ct;
          kObj = GetKuadrantFromTopology (ct_View ct) es;
          (observability, serviceBuilder) = (case kObj of None \<Rightarrow> (None, NewServiceBuilder environ)
            | Some k \<Rightarrow> BuildObservabilityConfig environ (NewServiceBuilder environ) (Some (kds_Observability (ct_KuadrantSpec ct k))))
      in case st_EffectiveAuthPolicies ws of None \<Rightarrow> Return (Inl MissingEffectiveAuthPolicies, observability, serviceBuilder)
         | Some _ \<Rightarrow>
           gbind (buildPaths we names ws (GetTokenRateLimitingMode kObj) (wasmPaths ws) ([], NewIssueCollection)) (\<lambda>r.
             case r of Inl err \<Rightarrow> Return (Inl (BuildError err), None, serviceBuilder)
             | Inr (sets, issues) \<Rightarrow>
               Return (Inr (gm_map_values (\<lambda>configs _. BuildConfigForActionSet environ (Some (map rm_Config
                     (go_sort SortableHTTPRouteMatchConfigs_Less configs))) observability (Some serviceBuilder)) sets,
                   if IssueCollection_IsEmpty issues then None else Some issues), observability, serviceBuilder)))"

text \<open>The configuration of one gateway after the mutators of extensions.\<close>

definition emptyConfig :: Config where
  "emptyConfig = \<lparr>cfg_Services = None, cfg_ActionSets = None, cfg_Observability = None, cfg_DescriptorService = []\<rparr>"

definition assignServices :: "(string, Service) gomap option \<Rightarrow> (string, Service) gomap \<Rightarrow> (string, Service) gomap" where
  "assignServices base new = foldl (\<lambda>m (k, v). gm_set k v m) (Deref base []) new"

definition gatewayConfig ::
  "('s, 'ast, 'val, 'e) wasm_env \<Rightarrow> (string, Config) gomap \<Rightarrow> Observability option \<Rightarrow> ServiceBuilder \<Rightarrow> Gateway \<Rightarrow> Config" where
  "gatewayConfig we wasmConfigs observability serviceBuilder gateway =
     (let wasmConfig = Deref (map_of wasmConfigs (gatewayLocator (we_Clusters we) gateway)) emptyConfig;
          hadActionSets = length (Deref (cfg_ActionSets wasmConfig) []) > 0;
          wasmConfig = (case ApplyWasmConfigMutators (we_Sha we) (we_Sha8 we) (we_ListenerName we) (we_Stores we) (wasmMutators we) gateway
              (Some (we_Children we)) wasmConfig of Inl err \<Rightarrow> we_Failed we wasmConfig | Inr mutated \<Rightarrow> mutated)
      in if length (Deref (cfg_ActionSets wasmConfig) []) > 0 \<and> \<not> hadActionSets \<and> observability \<noteq> None
         then wasmConfig\<lparr>cfg_Observability := observability, cfg_Services := Some (assignServices (cfg_Services wasmConfig) (ServiceBuilder_Build serviceBuilder))\<rparr>
         else wasmConfig)"

section \<open>The wasm filter of Istio\<close>

definition WasmServerClusterName :: string where "WasmServerClusterName = ''kuadrant-operator-wasm''"

definition defaultWasmServerPort :: int where "defaultWasmServerPort = 8082"

definition operatorNamespace :: "('s, 'ast, 'val, 'e) wasm_env \<Rightarrow> string" where
  "operatorNamespace we = GetString (ct_Environment (we_Clusters we)) ''OPERATOR_NAMESPACE'' ''kuadrant-system''"

definition wasmServerHost :: "('s, 'ast, 'val, 'e) wasm_env \<Rightarrow> string" where
  "wasmServerHost we = ''kuadrant-operator-wasm.'' @ operatorNamespace we @ ''.svc.cluster.local''"

definition wasmServerPort :: "('s, 'ast, 'val, 'e) wasm_env \<Rightarrow> int" where
  "wasmServerPort we = getIntOr we ''WASM_SERVER_PORT'' defaultWasmServerPort"

definition wasmURL :: "('s, 'ast, 'val, 'e) wasm_env \<Rightarrow> string" where
  "wasmURL we = ''http://'' @ wasmServerHost we @ '':'' @ itoa_int (wasmServerPort we) @ ''/plugin.wasm''"

definition WasmObjectLabels :: "(string, string) gomap" where
  "WasmObjectLabels = [(''kuadrant.io/managed'', ''true''), (''kuadrant.io/wasm'', ''true'')]"

text \<open>
  What Istio's reconciler needs besides: \<open>xe_Struct\<close> turns the JSON form of a configuration into
  a protobuf struct (or fails) and gives what \<open>MarshalJSON\<close> makes of it; \<open>xe_ImageSHA\<close> is the
  checksum of the wasm module.
\<close>

record istio_extension_env =
  xe_Istio :: istio_env
  xe_Struct :: "json \<Rightarrow> string + (string + string)"
  xe_ImageSHA :: string

definition patchesOrNone :: "string + config_patch option list \<Rightarrow> config_patch option list" where
  "patchesOrNone r = (case r of Inl err \<Rightarrow> [] | Inr ps \<Rightarrow> ps)"

definition buildIstioEnvoyFilterForGateway ::
  "istio_extension_env \<Rightarrow> ('s, 'ast, 'val, 'e) wasm_env \<Rightarrow> Config \<Rightarrow> Gateway \<Rightarrow> EnvoyFilter" where
  "buildIstioEnvoyFilterForGateway xe we wasmConfig gateway =
     (let unmarshal = ie_Unmarshal (xe_Istio xe);
          configPatches = (if length (Deref (cfg_ActionSets wasmConfig) []) > 0
            then (case xe_Struct xe (Config_ToJSON wasmConfig) of Inl err \<Rightarrow> []
              | Inr pluginConfig \<Rightarrow> patchesOrNone (BuildEnvoyFilterWasmPatch unmarshal (wasmURL we) [] (xe_ImageSHA xe) WasmServerClusterName (Some pluginConfig))) @
              patchesOrNone (BuildEnvoyFilterClusterPatch unmarshal (wasmServerHost we) (wasmServerPort we) False
                (\<lambda>h p _. buildClusterPatch WasmServerClusterName h p False))
            else []);
          envoyFilter = istioEnvoyFilter (we_Clusters we) (ExtensionName (gateway_Name gateway)) WasmObjectLabels gateway configPatches
      in if length (Deref (cfg_ActionSets wasmConfig) []) = 0 then TagObjectToDelete envoyFilter else envoyFilter)"

section \<open>The extension policy of Envoy Gateway\<close>

text \<open>A reference to a secret: its fields but the name are pointers.\<close>

record PullSecretReference =
  psr_Group :: "string option"
  psr_Kind :: "string option"
  psr_Namespace :: "string option"
  psr_Name :: string

record eg_Wasm =
  wm_Name :: "string option"
  wm_RootID :: "string option"
  wm_CodeType :: string
  wm_Image :: "(string \<times> PullSecretReference option) option"
  wm_Config :: "json option"
  wm_FailOpen :: "bool option"

record EnvoyExtensionPolicySpec =
  eep_TargetRefs :: "TargetRefWithSectionName list"
  eep_Wasm :: "eg_Wasm list"

type_synonym EnvoyExtensionPolicy = "EnvoyExtensionPolicySpec managed_object"

definition RegistryPullSecretName :: string where "RegistryPullSecretName = ''wasm-plugin-pull-secret''"

definition WASMFilterImageURL :: "environment \<Rightarrow> string" where
  "WASMFilterImageURL environ = GetString environ ''RELATED_IMAGE_WASMSHIM'' ''quay.io/kuadrant/wasm-shim:latest''"

definition ProtectedRegistry :: "environment \<Rightarrow> string" where
  "ProtectedRegistry environ = GetString environ ''PROTECTED_REGISTRY'' ''registry.redhat.io''"

definition buildEnvoyExtensionPolicyForGateway :: "cluster_topology \<Rightarrow> Config \<Rightarrow> string \<Rightarrow> string \<Rightarrow> Gateway \<Rightarrow> EnvoyExtensionPolicy" where
  "buildEnvoyExtensionPolicyForGateway ct wasmConfig protectedRegistry imageURL gateway =
     (let noSets = (length (Deref (cfg_ActionSets wasmConfig) []) = 0);
          pullSecret = (if protectedRegistry \<noteq> [] \<and> Contains imageURL protectedRegistry then Some \<lparr>psr_Group = None, psr_Kind = None, psr_Namespace = None, psr_Name = RegistryPullSecretName\<rparr> else None);
          envoyPolicy = \<lparr>obj_Group = fst EnvoyExtensionPolicyGroupKind, obj_Kind = snd EnvoyExtensionPolicyGroupKind,
            obj_Namespace = gateway_Namespace gateway, obj_Name = ExtensionName (gateway_Name gateway), obj_Annotations = None,
            obj_OwnerReferences = [ct_Owner ct gateway], mo_Labels = KuadrantManagedObjectLabels,
            mo_Spec = \<lparr>eep_TargetRefs = [\<lparr>tref_Group = ''gateway.networking.k8s.io'', tref_Kind = ''Gateway'', tref_Name = gateway_Name gateway,
                tref_SectionName = None\<rparr>],
              eep_Wasm = [\<lparr>wm_Name = Some ''kuadrant-wasm-shim'', wm_RootID = Some ''kuadrant_wasm_shim'', wm_CodeType = ''Image'',
                wm_Image = Some (imageURL, pullSecret), wm_Config = (if noSets then None else Some (Config_ToJSON wasmConfig)),
                wm_FailOpen = Some False\<rparr>]\<rparr>\<rparr>
      in if noSets then TagObjectToDelete envoyPolicy else envoyPolicy)"

text \<open>
  References are compared with \<open>!=\<close>, which compares pointers: pointers of different objects are
  equal only if they are nil.
\<close>

definition emptySecret :: PullSecretReference where
  "emptySecret = \<lparr>psr_Group = None, psr_Kind = None, psr_Namespace = None, psr_Name = []\<rparr>"

definition sameSecret :: "PullSecretReference option \<Rightarrow> PullSecretReference option \<Rightarrow> bool" where
  "sameSecret a b =
     (let a = Deref a emptySecret; b = Deref b emptySecret; nilPointers = (\<lambda>r. psr_Group r = None \<and> psr_Kind r = None \<and> psr_Namespace r = None)
      in nilPointers a \<and> nilPointers b \<and> psr_Name a = psr_Name b)"

definition equalWasm :: "eg_Wasm \<Rightarrow> eg_Wasm \<Rightarrow> bool go_result" where
  "equalWasm a b =
     (if Deref (wm_Name a) [] \<noteq> Deref (wm_Name b) [] \<or> Deref (wm_RootID a) [] \<noteq> Deref (wm_RootID b) [] \<or>
         Deref (wm_FailOpen a) False \<noteq> Deref (wm_FailOpen b) False \<or> wm_CodeType a \<noteq> wm_CodeType b then Return False
      else (case (wm_Image a, wm_Image b) of
        (Some (aURL, aSecret), Some (bURL, bSecret)) \<Rightarrow>
          if aURL \<noteq> bURL \<or> \<not> sameSecret aSecret bSecret then Return False
          else Return (case (ConfigFromJSON (wm_Config a), ConfigFromJSON (wm_Config b)) of
            (Inr aConfig, Inr bConfig) \<Rightarrow> Config_EqualTo aConfig (Some bConfig) | _ \<Rightarrow> False)
      | _ \<Rightarrow> Panic ''nil pointer dereference''))"

definition equalEnvoyExtensionPolicies :: "EnvoyExtensionPolicy \<Rightarrow> EnvoyExtensionPolicy \<Rightarrow> bool go_result" where
  "equalEnvoyExtensionPolicies a b =
     (if \<not> EqualLocalPolicyTargetReferencesWithSectionName (eep_TargetRefs (mo_Spec a)) (eep_TargetRefs (mo_Spec b)) then Return False
      else if length (eep_Wasm (mo_Spec a)) \<noteq> length (eep_Wasm (mo_Spec b)) then Return False
      else everyBy (\<lambda>aWasm. someBy (equalWasm aWasm) (eep_Wasm (mo_Spec b))) (eep_Wasm (mo_Spec a)))"

definition updateEnvoyExtensionPolicy :: "EnvoyExtensionPolicy \<Rightarrow> EnvoyExtensionPolicy \<Rightarrow> EnvoyExtensionPolicy" where
  "updateEnvoyExtensionPolicy existing desired =
     existing\<lparr>mo_Spec := (mo_Spec existing)\<lparr>eep_TargetRefs := eep_TargetRefs (mo_Spec desired), eep_Wasm := eep_Wasm (mo_Spec desired)\<rparr>\<rparr>"

definition LinkGatewayToEnvoyExtensionPolicy :: "Gateway \<Rightarrow> EnvoyExtensionPolicy \<Rightarrow> bool" where
  "LinkGatewayToEnvoyExtensionPolicy gateway envoyExtensionPolicy \<longleftrightarrow>
     gateway_Namespace gateway = obj_Namespace envoyExtensionPolicy \<and>
     list_ex (\<lambda>targetRef. tref_Name targetRef \<noteq> [] \<and>
       refGroupKind (tref_Group targetRef) (tref_Kind targetRef) = (''gateway.networking.k8s.io'', ''Gateway'') \<and>
       tref_Name targetRef = gateway_Name gateway) (eep_TargetRefs (mo_Spec envoyExtensionPolicy))"

section \<open>Clusters of registered upstreams\<close>

fun firstByCluster :: "string list \<Rightarrow> RegisteredUpstreamEntry list \<Rightarrow> RegisteredUpstreamEntry list" where
  "firstByCluster seen [] = []"
| "firstByCluster seen (entry # entries) =
     (if ue_ClusterName entry \<in> set seen then firstByCluster seen entries
      else entry # firstByCluster (ue_ClusterName entry # seen) entries)"

text \<open>The patches of the upstreams and of the descriptor service, \<open>patch\<close> builds those of one cluster.\<close>

definition upstreamPatches ::
  "('s, 'ast, 'val, 'e) wasm_env \<Rightarrow> (string \<Rightarrow> string \<Rightarrow> int \<Rightarrow> string + 'p list) \<Rightarrow> RegisteredUpstreamEntry list \<Rightarrow> string + 'p list" where
  "upstreamPatches we patch upstreams =
     ebind (etraverse (\<lambda>entry. case patch (ue_ClusterName entry) (ue_Host entry) (ue_Port entry) of
         Inl err \<Rightarrow> Inl (''failed to build cluster patch for '' @ fmt_q (ue_ClusterName entry) @ '': '' @ err) | Inr ps \<Rightarrow> Inr ps)
       (firstByCluster [] upstreams)) (\<lambda>patches.
     case patch ''kuadrant-operator-grpc'' (''kuadrant-operator-grpc.'' @ operatorNamespace we @ ''.svc.cluster.local'')
         (getIntOr we ''EXTENSIONS_DESCRIPTOR_SERVICE_PORT'' 50051) of
       Inl err \<Rightarrow> Inl (''failed to build cluster patch for descriptor service: '' @ err)
     | Inr descriptorPatches \<Rightarrow> Inr (concat patches @ descriptorPatches))"

definition buildUpstreamEnvoyFilter ::
  "istio_env \<Rightarrow> ('s, 'ast, 'val, 'e) wasm_env \<Rightarrow> Gateway \<Rightarrow> RegisteredUpstreamEntry list \<Rightarrow> string + EnvoyFilter" where
  "buildUpstreamEnvoyFilter ie we gateway upstreams =
     ebind (upstreamPatches we (\<lambda>cluster host port. BuildEnvoyFilterClusterPatch (ie_Unmarshal ie) host port False
         (\<lambda>h p _. buildClusterPatch cluster h p False)) upstreams) (\<lambda>allPatches.
       Inr (istioEnvoyFilter (we_Clusters we) (UpstreamClusterName (gateway_Name gateway)) UpstreamObjectLabels gateway allPatches))"

definition buildUpstreamEnvoyPatchPolicy ::
  "(json \<Rightarrow> string + string) \<Rightarrow> ('s, 'ast, 'val, 'e) wasm_env \<Rightarrow> Gateway \<Rightarrow> RegisteredUpstreamEntry list \<Rightarrow> string + EnvoyPatchPolicy" where
  "buildUpstreamEnvoyPatchPolicy raw we gateway upstreams =
     ebind (upstreamPatches we (\<lambda>cluster host port. BuildEnvoyPatchPolicyClusterPatch raw cluster host port False
         (\<lambda>h p _. buildClusterPatch cluster h p False)) upstreams) (\<lambda>allPatches.
       Inr (envoyPatchPolicy (we_Clusters we) (UpstreamClusterName (gateway_Name gateway)) UpstreamObjectLabels gateway allPatches))"

definition gatewayUpstreams :: "('s, 'ast, 'val, 'e) wasm_env \<Rightarrow> Gateway \<Rightarrow> RegisteredUpstreamEntry list" where
  "gatewayUpstreams we gateway =
     GetRegisteredUpstreamsByTargetRef (we_Stores we) (wasmMutators we) \<lparr>tr_Group = ''gateway.networking.k8s.io'', tr_Kind = ''Gateway'',
       tr_Name = gateway_Name gateway, tr_Namespace = gateway_Namespace gateway\<rparr> @
     CollectRouteUpstreams (we_Stores we) (wasmMutators we) (we_Children we) gateway"

text \<open>The desired object of a gateway; gateways of other controllers or without upstreams are skipped.\<close>

definition upstreamObject ::
  "('s, 'ast, 'val, 'e) wasm_env \<Rightarrow> string list \<Rightarrow> (Gateway \<Rightarrow> RegisteredUpstreamEntry list \<Rightarrow> string + 'o) \<Rightarrow> Gateway \<Rightarrow> string + 'o" where
  "upstreamObject we names build gateway =
     (case ct_Parents (we_Clusters we) gateway of
        Some gatewayClass \<Rightarrow> if ev_ControllerName (ct_View (we_Clusters we)) gatewayClass \<notin> set names then Inl ''not a gateway of the controller''
          else if length (gatewayUpstreams we gateway) = 0 then Inl ''no upstreams'' else build gateway (gatewayUpstreams we gateway)
      | None \<Rightarrow> if length (gatewayUpstreams we gateway) = 0 then Inl ''no upstreams'' else build gateway (gatewayUpstreams we gateway))"

text \<open>The updates write a specification without a priority.\<close>

definition updateUpstreamEnvoyFilter :: "EnvoyFilter \<Rightarrow> EnvoyFilter \<Rightarrow> EnvoyFilter" where
  "updateUpstreamEnvoyFilter existing desired =
     existing\<lparr>mo_Spec := \<lparr>ef_WorkloadSelector = ef_WorkloadSelector (mo_Spec desired), ef_ConfigPatches = ef_ConfigPatches (mo_Spec desired),
       ef_Priority = 0, ef_TargetRefs = []\<rparr>\<rparr>"

definition updateUpstreamEnvoyPatchPolicy :: "EnvoyPatchPolicy \<Rightarrow> EnvoyPatchPolicy \<Rightarrow> EnvoyPatchPolicy" where
  "updateUpstreamEnvoyPatchPolicy existing desired =
     existing\<lparr>mo_Spec := \<lparr>epp_TargetRef = epp_TargetRef (mo_Spec desired), epp_Type = epp_Type (mo_Spec desired),
       epp_Priority = 0, epp_JSONPatches = epp_JSONPatches (mo_Spec desired)\<rparr>\<rparr>"

definition Istio_reconcileUpstreamClusters ::
  "istio_env \<Rightarrow> ('s, 'ast, 'val, 'e) wasm_env \<Rightarrow> (Gateway \<Rightarrow> EnvoyFilter list) \<Rightarrow> EnvoyFilter list \<Rightarrow> EnvoyFilterSpec object_state \<Rightarrow>
   EnvoyFilterSpec object_state go_result" where
  "Istio_reconcileUpstreamClusters ie we children items st =
     gbind (reconcileManaged (ie_Objects ie) ((envoyFilterKind ie ''IstioExtensionReconciler'')\<lparr>ok_Update := updateUpstreamEnvoyFilter\<rparr>)
       (upstreamObject we (istioGatewayControllerNames (ct_Environment (we_Clusters we))) (buildUpstreamEnvoyFilter ie we))
       children (gatewayLocator (we_Clusters we)) UpstreamObjectLabels (ct_Gateways (we_Clusters we)) items st) (\<lambda>(st, _). Return st)"

definition EnvoyGateway_reconcileUpstreamClusters ::
  "envoy_gateway_env \<Rightarrow> ('s, 'ast, 'val, 'e) wasm_env \<Rightarrow> (Gateway \<Rightarrow> EnvoyPatchPolicy list) \<Rightarrow> EnvoyPatchPolicy list \<Rightarrow>
   EnvoyPatchPolicySpec object_state \<Rightarrow> EnvoyPatchPolicySpec object_state go_result" where
  "EnvoyGateway_reconcileUpstreamClusters ee we children items st =
     gbind (reconcileManaged (ee_Objects ee) ((envoyPatchPolicyKind ''EnvoyGatewayExtensionReconciler'')\<lparr>ok_Update := updateUpstreamEnvoyPatchPolicy\<rparr>)
       (upstreamObject we (envoyGatewayGatewayControllerNames (ct_Environment (we_Clusters we))) (buildUpstreamEnvoyPatchPolicy (ee_RawJSON ee) we))
       children (gatewayLocator (we_Clusters we)) UpstreamObjectLabels (ct_Gateways (we_Clusters we)) items st) (\<lambda>(st, _). Return st)"

section \<open>The reconcilers\<close>

text \<open>
  The wasm filter of one gateway: created when there are action sets, deleted when there are none
  left, otherwise updated when it differs.  \<open>cleanup\<close> are calls whose errors are only logged.
\<close>

definition reconcileExtension ::
  "'s object_env \<Rightarrow> 's object_kind \<Rightarrow> 's object_op list \<Rightarrow> 's managed_object list \<Rightarrow> 's managed_object \<Rightarrow> 's object_state \<Rightarrow>
   ('s object_state \<times> bool) go_result" where
  "reconcileExtension env k cleanup children desired st =
     (case findObject k desired children of
        None \<Rightarrow>
          if IsObjectTaggedToDelete desired then Return (st, False)
          else Return (if oe_Destruct env desired then callObjectApi env (ok_Reconciler k) (CreateObject desired) st else st, True)
      | Some existing \<Rightarrow>
        (let st = st\<lparr>os_Ops := os_Ops st @ cleanup\<rparr>
         in if IsObjectTaggedToDelete desired \<and> \<not> IsObjectTaggedToDelete existing
            then Return (callObjectApi env (ok_Reconciler k) (DeleteObject existing) st, False)
            else gbind (ok_Equal k existing desired) (\<lambda>equal.
              if equal then Return (st, False)
              else (let existing = ok_Update k existing desired
                    in Return (if oe_Destruct env existing then callObjectApi env (ok_Reconciler k) (UpdateObject existing) st else st, False)))))"

fun reconcileExtensions ::
  "'s object_env \<Rightarrow> 's object_kind \<Rightarrow> (Gateway \<Rightarrow> 's object_op list) \<Rightarrow> (Gateway \<Rightarrow> 's managed_object) \<Rightarrow> (Gateway \<Rightarrow> 's managed_object list) \<Rightarrow>
   (Gateway \<Rightarrow> string) \<Rightarrow> Gateway list \<Rightarrow> 's object_state \<times> string list \<Rightarrow> ('s object_state \<times> string list) go_result" where
  "reconcileExtensions env k cleanup build children locator [] acc = Return acc"
| "reconcileExtensions env k cleanup build children locator (gateway # gateways) (st, modifiedGateways) =
     gbind (reconcileExtension env k (cleanup gateway) (children gateway) (build gateway) st) (\<lambda>(st, created).
       reconcileExtensions env k cleanup build children locator gateways
         (st, if created then modifiedGateways @ [locator gateway] else modifiedGateways))"

text \<open>The resource of an earlier version that is removed for every gateway with a filter.\<close>

definition oldWasmPlugin :: "Gateway \<Rightarrow> EnvoyFilter" where
  "oldWasmPlugin gateway = \<lparr>obj_Group = ''extensions.istio.io'', obj_Kind = ''WasmPlugin'', obj_Namespace = gateway_Namespace gateway,
     obj_Name = ExtensionName (gateway_Name gateway), obj_Annotations = None, obj_OwnerReferences = [], mo_Labels = [],
     mo_Spec = \<lparr>ef_WorkloadSelector = None, ef_ConfigPatches = [], ef_Priority = 0, ef_TargetRefs = []\<rparr>\<rparr>"

text \<open>
  The results of a reconciliation besides the calls: the issues and the modified gateways that are
  stored in the state, if any, and the error it returns.
\<close>

record extension_result =
  xr_Issues :: "IssueCollection option"
  xr_Modified :: "string list option"
  xr_Error :: "string option"

definition configsOrNone :: "wasm_error + (string, Config) gomap \<times> IssueCollection option \<Rightarrow> (string, Config) gomap" where
  "configsOrNone r = (case r of Inl err \<Rightarrow> [] | Inr (configs, issues) \<Rightarrow> configs)"

definition issuesOf :: "wasm_error + (string, Config) gomap \<times> IssueCollection option \<Rightarrow> IssueCollection option" where
  "issuesOf r = (case r of Inl err \<Rightarrow> None | Inr (configs, issues) \<Rightarrow> issues)"

definition IstioExtensionReconciler_Reconcile ::
  "istio_extension_env \<Rightarrow> ('s, 'ast, 'val, 'e) wasm_env \<Rightarrow> enforcement_state \<Rightarrow> 's workflow_state \<Rightarrow> (Gateway \<Rightarrow> EnvoyFilter list) \<Rightarrow>
   EnvoyFilter list \<Rightarrow> error_map option \<Rightarrow> (EnvoyFilterSpec object_state \<times> extension_result) go_result" where
  "IstioExtensionReconciler_Reconcile xe we es ws children items registry =
     (let ie = xe_Istio xe; ct = we_Clusters we
      in gbind (Istio_reconcileUpstreamClusters ie we children items \<lparr>os_Ops = [], os_Errors = fst (GetOrCreateErrorRegistry registry)\<rparr>) (\<lambda>st.
         gbind (buildWasmConfigs we (istioGatewayControllerNames (ct_Environment ct)) es ws) (\<lambda>(r, observability, serviceBuilder).
           case r of Inl (BuildError err) \<Rightarrow> Return (st, \<lparr>xr_Issues = None, xr_Modified = None, xr_Error = Some err\<rparr>)
           | _ \<Rightarrow>
             gbind (reconcileExtensions (ie_Objects ie) (envoyFilterKind ie ''IstioExtensionReconciler'')
               (\<lambda>gateway. [DeleteObject (oldWasmPlugin gateway)])
               (\<lambda>gateway. buildIstioEnvoyFilterForGateway xe we (gatewayConfig we (configsOrNone r) observability serviceBuilder gateway) gateway)
               children (gatewayLocator ct) (ct_Gateways ct) (st, [])) (\<lambda>(st, modifiedGateways).
               Return (st, \<lparr>xr_Issues = issuesOf r, xr_Modified = Some modifiedGateways, xr_Error = None\<rparr>)))))"

definition envoyExtensionPolicyKind :: "string \<Rightarrow> EnvoyExtensionPolicySpec object_kind" where
  "envoyExtensionPolicyKind reconciler = \<lparr>ok_Reconciler = reconciler, ok_GroupKind = EnvoyExtensionPolicyGroupKind,
     ok_Equal = equalEnvoyExtensionPolicies, ok_Update = updateEnvoyExtensionPolicy\<rparr>"

definition EnvoyGatewayExtensionReconciler_Reconcile ::
  "envoy_gateway_env \<Rightarrow> EnvoyExtensionPolicySpec object_env \<Rightarrow> ('s, 'ast, 'val, 'e) wasm_env \<Rightarrow> enforcement_state \<Rightarrow> 's workflow_state \<Rightarrow>
   (Gateway \<Rightarrow> EnvoyPatchPolicy list) \<Rightarrow> EnvoyPatchPolicy list \<Rightarrow> (Gateway \<Rightarrow> EnvoyExtensionPolicy list) \<Rightarrow> error_map option \<Rightarrow>
   (EnvoyPatchPolicySpec object_state \<times> EnvoyExtensionPolicySpec object_state \<times> extension_result) go_result" where
  "EnvoyGatewayExtensionReconciler_Reconcile ee xenv we es ws patchChildren patchItems children registry =
     (let ct = we_Clusters we; environ = ct_Environment ct
      in gbind (EnvoyGateway_reconcileUpstreamClusters ee we patchChildren patchItems
             \<lparr>os_Ops = [], os_Errors = fst (GetOrCreateErrorRegistry registry)\<rparr>) (\<lambda>upstreamSt.
         let st = \<lparr>os_Ops = [], os_Errors = os_Errors upstreamSt\<rparr>
         in gbind (buildWasmConfigs we (envoyGatewayGatewayControllerNames environ) es ws) (\<lambda>(r, observability, serviceBuilder).
           case r of Inl (BuildError err) \<Rightarrow> Return (upstreamSt, st, \<lparr>xr_Issues = None, xr_Modified = None, xr_Error = Some err\<rparr>)
           | _ \<Rightarrow>
             gbind (reconcileExtensions xenv (envoyExtensionPolicyKind ''EnvoyGatewayExtensionReconciler'') (\<lambda>_. [])
               (\<lambda>gateway. buildEnvoyExtensionPolicyForGateway ct (gatewayConfig we (configsOrNone r) observability serviceBuilder gateway)
                 (ProtectedRegistry environ) (WASMFilterImageURL environ) gateway)
               children (gatewayLocator ct) (ct_Gateways ct) (st, [])) (\<lambda>(st, modifiedGateways).
               Return (upstreamSt, st, \<lparr>xr_Issues = issuesOf r, xr_Modified = Some modifiedGateways, xr_Error = None\<rparr>)))))"

section \<open>A gateway gets the action sets of its own paths\<close>

text \<open>The paths that a reconciler serves, and the action sets that each gives.\<close>

definition servedPath :: "('s, 'ast, 'val, 'e) wasm_env \<Rightarrow> string list \<Rightarrow> targetable list \<Rightarrow> (ParsedTopologyPath \<times> Gateway) option" where
  "servedPath we names path =
     (case ParseTopologyPath path of Inl err \<Rightarrow> None
      | Inr parsed \<Rightarrow> map_option (Pair parsed) (pathGateway (we_Clusters we) names path))"

definition path_builds :: "('s, 'ast, 'val, 'e) wasm_env \<Rightarrow> string list \<Rightarrow> 's workflow_state \<Rightarrow> string \<Rightarrow> string \<times> targetable list \<Rightarrow> bool" where
  "path_builds we names ws mode e =
     (case servedPath we names (snd e) of None \<Rightarrow> True
      | Some (parsed, g) \<Rightarrow> (case pathSets we ws mode (fst e) (snd e) parsed g of Return (Inr r) \<Rightarrow> True | _ \<Rightarrow> False))"

lemma path_builds_served:
  assumes "path_builds we names ws mode e" "servedPath we names (snd e) = Some (parsed, g)"
  shows "\<exists>sets issues. pathSets we ws mode (fst e) (snd e) parsed g = Return (Inr (sets, issues))"
  using assms by (auto simp: path_builds_def split: go_result.splits sum.splits)

definition setsOf :: "(string + 'a list \<times> 'b) go_result \<Rightarrow> 'a list" where
  "setsOf r = (case r of Return (Inr (sets, issues)) \<Rightarrow> sets | _ \<Rightarrow> [])"

definition gatewaySets ::
  "('s, 'ast, 'val, 'e) wasm_env \<Rightarrow> string list \<Rightarrow> 's workflow_state \<Rightarrow> string \<Rightarrow> string \<Rightarrow> (string \<times> targetable list) list \<Rightarrow>
   ActionSet HTTPRouteMatchConfig list" where
  "gatewaySets we names ws mode loc paths =
     concat (map (\<lambda>e. case servedPath we names (snd e) of None \<Rightarrow> []
       | Some (parsed, g) \<Rightarrow> if gatewayLocator (we_Clusters we) g = loc then setsOf (pathSets we ws mode (fst e) (snd e) parsed g) else []) paths)"

lemma buildPaths_exact:
  assumes "list_all (path_builds we names ws mode) paths"
  shows "\<exists>sets' issues'. buildPaths we names ws mode paths (sets, issues) = Return (Inr (sets', issues')) \<and>
    (\<forall>loc. map_of sets' loc =
      (if gatewaySets we names ws mode loc paths = [] then map_of sets loc
       else Some (Deref (map_of sets loc) [] @ gatewaySets we names ws mode loc paths)))"
  using assms
proof (induction paths arbitrary: sets issues)
  case Nil
  then show ?case by (simp add: gatewaySets_def)
next
  case (Cons e paths)
  obtain pathID path where e: "e = (pathID, path)" by fastforce
  from Cons.prems have rest: "list_all (path_builds we names ws mode) paths" by simp
  note IH = Cons.IH [OF rest]
  show ?case
  proof (cases "servedPath we names path")
    case None
    then have "buildPaths we names ws mode (e # paths) (sets, issues) = buildPaths we names ws mode paths (sets, issues)"
      by (auto simp: e servedPath_def split: sum.splits option.splits)
    moreover have "gatewaySets we names ws mode loc (e # paths) = gatewaySets we names ws mode loc paths" for loc
      by (simp add: gatewaySets_def e None)
    ultimately show ?thesis using IH [of sets issues] by (simp only:)
  next
    case (Some pg)
    obtain parsed g where pg: "pg = (parsed, g)" by fastforce
    let ?loc = "gatewayLocator (we_Clusters we) g"
    from Cons.prems Some pg obtain new newIssues where new: "pathSets we ws mode pathID path parsed g = Return (Inr (new, newIssues))"
      using path_builds_served [of we names ws mode e parsed g] by (auto simp: e)
    obtain issues1 where step: "buildPaths we names ws mode (e # paths) (sets, issues) =
        buildPaths we names ws mode paths (Grouped_Add sets ?loc new, issues1)"
      using Some new by (auto simp: e pg servedPath_def split: sum.splits option.splits)
    have first: "gatewaySets we names ws mode loc (e # paths) =
        (if ?loc = loc then new else []) @ gatewaySets we names ws mode loc paths" for loc
      by (simp add: gatewaySets_def e Some pg new setsOf_def)
    from IH [of "Grouped_Add sets ?loc new" issues1] obtain sets' issues' where
      r: "buildPaths we names ws mode paths (Grouped_Add sets ?loc new, issues1) = Return (Inr (sets', issues'))"
      and m: "\<And>loc. map_of sets' loc = (if gatewaySets we names ws mode loc paths = [] then map_of (Grouped_Add sets ?loc new) loc
        else Some (Deref (map_of (Grouped_Add sets ?loc new) loc) [] @ gatewaySets we names ws mode loc paths))"
      by blast
    have "map_of sets' loc = (if gatewaySets we names ws mode loc (e # paths) = [] then map_of sets loc
        else Some (Deref (map_of sets loc) [] @ gatewaySets we names ws mode loc (e # paths)))" for loc
      unfolding m first Grouped_Add_lookup by (auto simp: Deref_def)
    with step r show ?thesis by auto
  qed
qed


section \<open>Nothing reads auth data before auth\<close>

lemma placeSpecs_auth:
  assumes "specs = pre @ a # post" "list_all (\<lambda>s. \<not> HasAuthAccess s \<and> sp_Execution s = ExecutionSequential) pre"
  shows "\<exists>pre' post'. placeSpecs True new specs = pre' @ a # post' \<and>
    list_all (\<lambda>s. \<not> HasAuthAccess s \<and> sp_Execution s = ExecutionSequential) pre'"
proof (cases "specsHaveAuthAccess new")
  case True
  with assms(1) have "placeSpecs True new specs = pre @ a # (post @ new)" by (simp add: placeSpecs_def)
  with assms(2) show ?thesis by blast
next
  case False
  let ?new = "map (\<lambda>s. s\<lparr>sp_Execution := ExecutionSequential\<rparr>) new"
  have "placeSpecs True new specs = (?new @ pre) @ a # post" using False assms(1) by (simp add: placeSpecs_def)
  moreover from False have "list_all (\<lambda>s. \<not> HasAuthAccess s) new" by (simp add: specsHaveAuthAccess_def list_all_iff list_ex_iff)
  then have "list_all (\<lambda>s. \<not> HasAuthAccess s \<and> sp_Execution s = ExecutionSequential) ?new"
    by (auto simp: list_all_iff HasAuthAccess_def)
  with assms(2) have "list_all (\<lambda>s. \<not> HasAuthAccess s \<and> sp_Execution s = ExecutionSequential) (?new @ pre)" by simp
  ultimately show ?thesis by blast
qed


section \<open>Extensions do not weaken policies\<close>

lemma BuildActionSetsForPath_actions:
  assumes "BuildActionSetsForPath sha httpNames grpcNames pathID path actions = Inr sets" "c \<in> set sets"
  shows "as_Actions (rm_Config c) = actions"
proof -
  have m: "as_Actions (rm_Config (matchConfig sha pathID actions kind route i h j m ps)) = actions" for kind i h j m ps and route :: "'m TopoRoute"
    by (simp add: matchConfig_def)
  from assms obtain parsed where "ParseTopologyPath path = Inr parsed"
    by (auto simp: BuildActionSetsForPath_def ebind_case split: sum.splits)
  then show ?thesis
    using assms by (cases "ptp_RouteType parsed") (auto simp: BuildActionSetsForPath_def Let_def m split: option.splits)
qed

lemma pathSets_actions:
  assumes "pathSets we ws mode pathID path parsed g = Return (Inr (sets, issues))" "c \<in> set sets"
  shows "as_Actions (rm_Config c) \<noteq> []"
proof -
  obtain specs where specs: "policySpecs we ws mode pathID = Return specs"
    using assms(1) by (cases "policySpecs we ws mode pathID") (simp_all add: pathSets_def)
  let ?bound = "AttachBindings specs (GetRequestBindings (we_Stores we) (wasmMutators we) [gatewayLocator (we_Clusters we) g, routeLocator we parsed])"
  obtain merged where merged: "mergeAndVerifySpecs ?bound = Inr merged"
    using assms(1) by (cases "mergeAndVerifySpecs ?bound") (simp_all add: pathSets_def specs)
  have "merged \<noteq> []" using assms by (auto simp: pathSets_def specs merged)
  then obtain validator where validator: "ValidatorBuilder_Build (we_NewEnv we) (pathValidator ws pathID) = Inr validator"
    using assms(1) by (cases "ValidatorBuilder_Build (we_NewEnv we) (pathValidator ws pathID)") (simp_all add: pathSets_def specs merged)
  obtain valid iss where split: "splitSpecs we validator pathID merged = (valid, iss)" by fastforce
  note unfolded = pathSets_def specs merged validator split
  have actions: "BuildActions valid \<noteq> []" using assms \<open>merged \<noteq> []\<close> by (auto simp: unfolded)
  let ?sets = "BuildActionSetsForPath (we_Sha we) (we_HTTPRuleNames we) (we_GRPCRuleNames we) pathID path (BuildActions valid)"
  have "?sets = Inr sets"
    using assms \<open>merged \<noteq> []\<close> actions by (cases ?sets) (auto simp: unfolded)
  from BuildActionSetsForPath_actions [OF this assms(2)] actions show ?thesis by simp
qed

lemma gatewaySets_actions:
  assumes "list_all (path_builds we names ws mode) paths" "c \<in> set (gatewaySets we names ws mode loc paths)"
  shows "as_Actions (rm_Config c) \<noteq> []"
proof -
  from assms(2) obtain e where e: "e \<in> set paths" and ce: "c \<in> set (case servedPath we names (snd e) of None \<Rightarrow> []
      | Some (parsed, g) \<Rightarrow> if gatewayLocator (we_Clusters we) g = loc then setsOf (pathSets we ws mode (fst e) (snd e) parsed g) else [])"
    by (auto simp: gatewaySets_def)
  then obtain pg where "servedPath we names (snd e) = Some pg" by (cases "servedPath we names (snd e)") simp_all
  moreover obtain parsed g where "pg = (parsed, g)" by fastforce
  ultimately have served: "servedPath we names (snd e) = Some (parsed, g)"
    and c: "c \<in> set (setsOf (pathSets we ws mode (fst e) (snd e) parsed g))"
    using ce by (auto split: if_splits)
  from assms(1) e have "path_builds we names ws mode e" by (simp add: list_all_iff)
  then obtain sets issues where "pathSets we ws mode (fst e) (snd e) parsed g = Return (Inr (sets, issues))"
    using path_builds_served [OF _ served] by blast
  with c pathSets_actions show ?thesis by (fastforce simp: setsOf_def)
qed

lemma extends_nonempty: "extends a b \<Longrightarrow> as_Actions a \<noteq> [] \<Longrightarrow> as_Actions b \<noteq> []"
  by (auto simp: extends_def)

lemma mutators_keep_sets:
  assumes applied: "ApplyWasmConfigMutators sha sha8 ln stores mutators g topo c = Inr d" "list_all isDataMutator mutators"
    and own: "list_all (\<lambda>as. as_Actions as \<noteq> []) (actionSets c)"
  shows "\<exists>kept rest. actionSets d = kept @ rest \<and> list_all2 extends (actionSets c) kept"
proof -
  obtain added sets where sets: "list_all2 extends (actionSets c @ added) sets" "actionSets d = filter (\<lambda>as. as_Actions as \<noteq> []) sets"
    using mutators_extend [OF applied] by blast
  then obtain kept rest where k: "sets = kept @ rest" "list_all2 extends (actionSets c) kept" "list_all2 extends added rest"
    by (auto simp: list_all2_append1)
  have "list_all (\<lambda>as. as_Actions as \<noteq> []) kept"
    using k(2) own by (induction rule: list_all2_induct) (auto dest: extends_nonempty)
  then have "filter (\<lambda>as. as_Actions as \<noteq> []) kept = kept" by (simp add: filter_id_conv list_all_iff)
  with sets(2) k show ?thesis by auto
qed

lemma wasmMutators_data: "list_all isDataMutator (wasmMutators we)"
  by (simp add: wasmMutators_def list_all_iff isDataMutator_def)

lemma tagged_no_sets:
  "IsObjectTaggedToDelete (buildIstioEnvoyFilterForGateway xe we c g) \<longleftrightarrow> actionSets c = []"
  "IsObjectTaggedToDelete (buildEnvoyExtensionPolicyForGateway ct c registry imageURL g) \<longleftrightarrow> actionSets c = []"
  by (simp_all add: buildIstioEnvoyFilterForGateway_def buildEnvoyExtensionPolicyForGateway_def Let_def actionSets_def
      IsObjectTaggedToDelete_Tag, simp_all add: IsObjectTaggedToDelete_def istioEnvoyFilter_def)

text \<open>
  C7.  Extensions never weaken policies.  Suppose the configurations are computed and the
  mutators of extensions do not fail.  Then the final configuration of a gateway starts
  with the action sets of the policies on its own paths, in their order, with the
  same names, hosts and conditions, each beginning with all the actions of the policies; and as
  long as there is one such action set, the desired filter is not marked for deletion,
  for Istio and for Envoy Gateway.
\<close>

theorem policies_survive_extensions:
  assumes builds: "list_all (path_builds we names ws (GetTokenRateLimitingMode (GetKuadrantFromTopology (ct_View (we_Clusters we)) es))) (wasmPaths ws)"
    and configs: "buildWasmConfigs we names es ws = Return (Inr (configs, issues), observability, serviceBuilder)"
    and mutated: "ApplyWasmConfigMutators (we_Sha we) (we_Sha8 we) (we_ListenerName we) (we_Stores we) (wasmMutators we) g (Some (we_Children we))
      (Deref (map_of configs (gatewayLocator (we_Clusters we) g)) emptyConfig) = Inr d"
    and own: "own = map rm_Config (go_sort SortableHTTPRouteMatchConfigs_Less (gatewaySets we names ws
      (GetTokenRateLimitingMode (GetKuadrantFromTopology (ct_View (we_Clusters we)) es)) (gatewayLocator (we_Clusters we) g) (wasmPaths ws)))"
    and c: "c = gatewayConfig we configs observability serviceBuilder g"
  shows "(\<exists>kept rest. actionSets c = kept @ rest \<and> list_all2 extends own kept) \<and>
    (own \<noteq> [] \<longrightarrow> \<not> IsObjectTaggedToDelete (buildIstioEnvoyFilterForGateway xe we c g) \<and>
      \<not> IsObjectTaggedToDelete (buildEnvoyExtensionPolicyForGateway (we_Clusters we) c registry imageURL g))"
proof -
  let ?mode = "GetTokenRateLimitingMode (GetKuadrantFromTopology (ct_View (we_Clusters we)) es)"
  let ?loc = "gatewayLocator (we_Clusters we) g"
  let ?sets = "gatewaySets we names ws ?mode ?loc (wasmPaths ws)"
  let ?base = "Deref (map_of configs ?loc) emptyConfig"
  from configs obtain auth where auth: "st_EffectiveAuthPolicies ws = Some auth"
    by (auto simp: buildWasmConfigs_def Let_def split: option.splits prod.splits)
  obtain sets is' where b: "buildPaths we names ws ?mode (wasmPaths ws) ([], NewIssueCollection) = Return (Inr (sets, is'))"
    and m: "map_of sets ?loc = (if ?sets = [] then None else Some ?sets)"
    using buildPaths_exact [OF builds, of "[]" NewIssueCollection] by (auto simp: Deref_def)
  have "configs = gm_map_values (\<lambda>configs _. BuildConfigForActionSet (ct_Environment (we_Clusters we)) (Some (map rm_Config
      (go_sort SortableHTTPRouteMatchConfigs_Less configs))) observability (Some serviceBuilder)) sets"
    using configs by (auto simp: buildWasmConfigs_def Let_def auth b split: prod.splits)
  then have base: "actionSets ?base = own"
    by (auto simp: m own Deref_def actionSets_def emptyConfig_def BuildConfigForActionSet_def)
  have "list_all (\<lambda>as. as_Actions as \<noteq> []) own"
    using gatewaySets_actions [OF builds] by (auto simp: own list_all_iff)
  then obtain kept rest where kept: "actionSets d = kept @ rest" "list_all2 extends own kept"
    using mutators_keep_sets [OF mutated wasmMutators_data] base by auto
  have "actionSets c = actionSets d" using mutated by (simp add: c gatewayConfig_def Let_def actionSets_def)
  with kept show ?thesis unfolding tagged_no_sets by auto
qed

section \<open>The clusters of upstreams converge\<close>

lemma reconcileManaged_update_cong:
  assumes "\<And>g d e. build g = Inr d \<Longrightarrow> u e d = ok_Update k e d"
  shows "reconcileManaged env (k\<lparr>ok_Update := u\<rparr>) build children loc ls gws items st =
    reconcileManaged env k build children loc ls gws items st"
proof -
  have find: "findObject (k\<lparr>ok_Update := u\<rparr>) = findObject k" by (simp add: fun_eq_iff findObject_def)
  have obj: "reconcileObject env (k\<lparr>ok_Update := u\<rparr>) cs d st = reconcileObject env k cs d st" if "build g = Inr d" for g cs d st
    using assms [OF that] by (simp add: reconcileObject_def find Let_def cong: if_cong split: option.split)
  have "reconcileGateways env (k\<lparr>ok_Update := u\<rparr>) build children loc gws acc = reconcileGateways env k build children loc gws acc" for gws acc
  proof (induction gws arbitrary: acc)
    case (Cons g gws)
    obtain st ks ms where acc: "acc = (st, ks, ms)" by (metis prod_cases3)
    show ?case by (cases "build g") (simp_all add: acc Cons.IH obj)
  qed simp
  then show ?thesis by (simp add: reconcileManaged_def)
qed

lemma etraverse_cluster_patches:
  "etraverse f xs = Inr pss \<Longrightarrow> (\<And>x ps. f x = Inr ps \<Longrightarrow> list_all P ps) \<Longrightarrow> list_all P (concat pss)"
  by (induction xs arbitrary: pss) (auto simp: ebind_eq_Inr)

lemma upstream_patches_all:
  assumes "upstreamPatches we patch upstreams = Inr ps" "\<And>c h p ps. patch c h p = Inr ps \<Longrightarrow> list_all P ps"
  shows "list_all P ps"
proof -
  let ?t = "etraverse (\<lambda>entry. case patch (ue_ClusterName entry) (ue_Host entry) (ue_Port entry) of
         Inl err \<Rightarrow> Inl (''failed to build cluster patch for '' @ fmt_q (ue_ClusterName entry) @ '': '' @ err) | Inr ps \<Rightarrow> Inr ps)
       (firstByCluster [] upstreams)"
  let ?d = "patch ''kuadrant-operator-grpc'' (''kuadrant-operator-grpc.'' @ operatorNamespace we @ ''.svc.cluster.local'')
         (getIntOr we ''EXTENSIONS_DESCRIPTOR_SERVICE_PORT'' 50051)"
  obtain pss where t: "?t = Inr pss" using assms(1) by (cases ?t) (simp_all add: upstreamPatches_def ebind_case)
  obtain ds where d: "?d = Inr ds" using assms(1) t by (cases ?d) (simp_all add: upstreamPatches_def ebind_case)
  have ps: "ps = concat pss @ ds" using assms(1) t d by (simp add: upstreamPatches_def ebind_case)
  have "list_all P (concat pss)"
    by (rule etraverse_cluster_patches [OF t]) (auto split: sum.splits dest: assms(2))
  with assms(2) [OF d] ps show ?thesis by simp
qed

lemma upstream_istio_clusters:
  "istio_clusters (we_Clusters we) UpstreamObjectLabels UpstreamClusterName (upstreamObject we names (buildUpstreamEnvoyFilter ie we))"
  unfolding istio_clusters_def
proof (intro allI impI)
  fix g d
  assume "upstreamObject we names (buildUpstreamEnvoyFilter ie we) g = Inr d"
  then have "buildUpstreamEnvoyFilter ie we g (gatewayUpstreams we g) = Inr d"
    by (auto simp: upstreamObject_def split: option.splits if_splits)
  then obtain ps where ps: "upstreamPatches we (\<lambda>cluster host port. BuildEnvoyFilterClusterPatch (ie_Unmarshal ie) host port False
      (\<lambda>h p _. buildClusterPatch cluster h p False)) (gatewayUpstreams we g) = Inr ps"
    and d: "d = istioEnvoyFilter (we_Clusters we) (UpstreamClusterName (gateway_Name g)) UpstreamObjectLabels g ps"
    by (auto simp: buildUpstreamEnvoyFilter_def ebind_eq_Inr)
  have "list_all cluster_patch ps" by (rule upstream_patches_all [OF ps]) (rule BuildEnvoyFilterClusterPatch_shape)
  with d show "\<exists>ps. d = istioEnvoyFilter (we_Clusters we) (UpstreamClusterName (gateway_Name g)) UpstreamObjectLabels g ps \<and> list_all cluster_patch ps"
    by blast
qed

lemma upstream_names_differ:
  assumes "istio_clusters ct ls UpstreamClusterName build" "distinct (map (\<lambda>g. (gateway_Namespace g, gateway_Name g)) gws)"
  shows "names_differ build gws"
proof -
  have name: "mo_NamespacedName d = (gateway_Namespace g, UpstreamClusterName (gateway_Name g))" if "build g = Inr d" for g d
    using assms(1) that unfolding istio_clusters_def by (metis istio_filter_simps(3))
  have "distinct gws" using assms(2) by (simp add: distinct_map)
  moreover have "g = g'" if "g \<in> set gws" "g' \<in> set gws" "gateway_Namespace g = gateway_Namespace g'" "gateway_Name g = gateway_Name g'" for g g'
    using assms(2) that by (auto simp: distinct_map inj_on_def)
  ultimately show ?thesis unfolding names_differ_def using name by (auto simp: UpstreamClusterName_def)
qed

text \<open>
  The clusters of upstreams that extensions registered converge for Istio: after a run every Istio
  gateway with upstreams has its filter with a cluster for each of them and for the descriptor
  service, no other filter with the labels is left, and the next run does nothing.
\<close>

theorem upstream_clusters_converge:
  assumes build: "build = upstreamObject we (istioGatewayControllerNames (ct_Environment (we_Clusters we))) (buildUpstreamEnvoyFilter ie we)"
    and gateways: "distinct (map (\<lambda>g. (gateway_Namespace g, gateway_Name g)) (ct_Gateways (we_Clusters we)))"
    and equality: "reflp (ie_EqV ie)" and destruct: "\<forall>o'. oe_Destruct (ie_Objects ie) o'"
    and place: "objects_in_place build LinkGatewayToEnvoyFilter UpstreamObjectLabels (ct_Gateways (we_Clusters we)) items"
    and present: "list_all (\<lambda>o'. mo_GroupKind o' = EnvoyFilterGroupKind \<longrightarrow> patches_present o') items" and start: "os_Ops st = []"
  shows "converges (EqualEnvoyFilters (ie_EqM ie) (ie_EqV ie)) EnvoyFilterGroupKind build UpstreamObjectLabels (ct_Gateways (we_Clusters we))
    (\<lambda>items. gbind (Istio_reconcileUpstreamClusters ie we (childrenOf LinkGatewayToEnvoyFilter items) items st) (\<lambda>st. Return (st, Some []))) items"
proof -
  let ?r = "''IstioExtensionReconciler''"
  have clusters: "istio_clusters (we_Clusters we) UpstreamObjectLabels UpstreamClusterName build" unfolding build by (rule upstream_istio_clusters)
  have ls: "selectorMatches UpstreamObjectLabels UpstreamObjectLabels" by code_simp
  have "updateUpstreamEnvoyFilter e d = ok_Update (envoyFilterKind ie ?r) e d" if "build g = Inr d" for g d e
  proof -
    from clusters that have "ef_Priority (mo_Spec d) = 0" unfolding istio_clusters_def by (force simp: istioEnvoyFilter_def)
    then show ?thesis by (simp add: envoyFilterKind_def updateUpstreamEnvoyFilter_def updateEnvoyFilter_def)
  qed
  then have "reconcileManaged (ie_Objects ie) ((envoyFilterKind ie ?r)\<lparr>ok_Update := updateUpstreamEnvoyFilter\<rparr>) build children loc ls gws items st =
      reconcileManaged (ie_Objects ie) (envoyFilterKind ie ?r) build children loc ls gws items st" for children loc ls gws items
    by (rule reconcileManaged_update_cong)
  then have run: "gbind (Istio_reconcileUpstreamClusters ie we (childrenOf LinkGatewayToEnvoyFilter items) items st) (\<lambda>st. Return (st, Some [])) =
      gbind (reconcileIstioClusters ie (we_Clusters we) ?r build UpstreamObjectLabels (ct_Gateways (we_Clusters we))
        (childrenOf LinkGatewayToEnvoyFilter items) items st) (\<lambda>(st, m). Return (st, Some []))" for items
    by (simp add: Istio_reconcileUpstreamClusters_def reconcileIstioClusters_def build gbind_assoc case_prod_beta)
  from istio_converges [OF clusters ls equality destruct upstream_names_differ [OF clusters gateways] place present start, of ?r]
  show ?thesis unfolding converges_def run by (force simp: gbind_eq_Return)
qed

section \<open>An instance\<close>

text \<open>One Istio gateway with a route; an extension has registered an upstream for the gateway.\<close>

definition ex_wasm_store :: "(nat, nat) RegisteredDataStore" where
  "ex_wasm_store = fst (SetUpstreamIfNameAvailable ex_upstream_key (ex_upstream\<lparr>ue_TargetRef := \<lparr>tr_Group = ''gateway.networking.k8s.io'', tr_Kind = ''Gateway'',
     tr_Name = gateway_Name ex_ready_gateway, tr_Namespace = gateway_Namespace ex_ready_gateway\<rparr>\<rparr>) ex_fds NewRegisteredDataStore)"

definition ex_wasm_env :: "(string, nat, nat, unit) wasm_env" where
  "ex_wasm_env = \<lparr>we_Clusters = ex_cluster_topology None defaultIstioGatewayControllerName, we_Topo = ex_limit_topo, we_Children = (\<lambda>_. []),
     we_FindCond = (\<lambda>_ _. None), we_Locator = ex_locator, we_NN = ex_nn, we_Hash8 = ex_hash8, we_Sha = id, we_Sha8 = id,
     we_BackendRequest = (\<lambda>_. None), we_HTTPRuleNames = (\<lambda>_. [''rule-1'']), we_GRPCRuleNames = (\<lambda>_. []), we_ListenerName = (\<lambda>_. ''l''),
     we_Stores = (\<lambda>_. ex_wasm_store), we_Mutators = [0], we_Failed = id, we_NewEnv = (\<lambda>_. Inr ()), we_Check = (\<lambda>_ _. Inr AnyType),
     we_TypeText = (\<lambda>_. []), we_GetInt = (\<lambda>_ d. Inr d)\<rparr>"

definition ex_wasm_state :: "string workflow_state" where
  "ex_wasm_state = ex_auth_state\<lparr>st_EffectiveRateLimitPolicies := Some [(''id'', ex_effective)],
     st_RateLimitPolicyValid := Some [(RateLimitPolicy_GetLocator ex_locator ex_route_rlp, None)]\<rparr>"

abbreviation ex_wasm_names :: "string list" where "ex_wasm_names \<equiv> [defaultIstioGatewayControllerName]"

abbreviation ex_wasm_mode :: string where
  "ex_wasm_mode \<equiv> GetTokenRateLimitingMode (GetKuadrantFromTopology (ct_View (we_Clusters ex_wasm_env)) ex_nothing_modified)"

abbreviation ex_wasm_sets :: "ActionSet HTTPRouteMatchConfig list" where
  "ex_wasm_sets \<equiv> gatewaySets ex_wasm_env ex_wasm_names ex_wasm_state ex_wasm_mode (gatewayLocator (we_Clusters ex_wasm_env) ex_ready_gateway) (wasmPaths ex_wasm_state)"

lemma ex_wasm_specs: "(case policySpecs ex_wasm_env ex_wasm_state [] ''id'' of Return specs \<Rightarrow> length specs = 3 | _ \<Rightarrow> False)" by code_simp

lemma ex_wasm_sets_one: "length ex_wasm_sets = 1" by code_simp

lemma ex_wasm_builds: "list_all (path_builds ex_wasm_env ex_wasm_names ex_wasm_state ex_wasm_mode) (wasmPaths ex_wasm_state)" by code_simp

lemma ex_wasm_run:
  "case buildWasmConfigs ex_wasm_env ex_wasm_names ex_nothing_modified ex_wasm_state of
     Return (Inr (configs, issues), observability, serviceBuilder) \<Rightarrow>
      (case ApplyWasmConfigMutators (we_Sha ex_wasm_env) (we_Sha8 ex_wasm_env) (we_ListenerName ex_wasm_env) (we_Stores ex_wasm_env) (wasmMutators ex_wasm_env)
         ex_ready_gateway (Some (we_Children ex_wasm_env)) (Deref (map_of configs (gatewayLocator (we_Clusters ex_wasm_env) ex_ready_gateway)) emptyConfig) of
         Inr d \<Rightarrow> True | Inl err \<Rightarrow> False) | _ \<Rightarrow> False"
  by code_simp



theorem policies_survive_extensions_witness:
  "\<exists>configs issues observability serviceBuilder.
    buildWasmConfigs ex_wasm_env ex_wasm_names ex_nothing_modified ex_wasm_state = Return (Inr (configs, issues), observability, serviceBuilder) \<and>
    \<not> IsObjectTaggedToDelete (buildEnvoyExtensionPolicyForGateway (we_Clusters ex_wasm_env)
      (gatewayConfig ex_wasm_env configs observability serviceBuilder ex_ready_gateway) [] [] ex_ready_gateway)"
proof -
  let ?mutated = "\<lambda>configs. ApplyWasmConfigMutators (we_Sha ex_wasm_env) (we_Sha8 ex_wasm_env) (we_ListenerName ex_wasm_env) (we_Stores ex_wasm_env) (wasmMutators ex_wasm_env)
         ex_ready_gateway (Some (we_Children ex_wasm_env)) (Deref (map_of configs (gatewayLocator (we_Clusters ex_wasm_env) ex_ready_gateway)) emptyConfig)"
  obtain r observability serviceBuilder where
    r: "buildWasmConfigs ex_wasm_env ex_wasm_names ex_nothing_modified ex_wasm_state = Return (r, observability, serviceBuilder)"
    using ex_wasm_run by (cases "buildWasmConfigs ex_wasm_env ex_wasm_names ex_nothing_modified ex_wasm_state") auto
  obtain configs issues where ci: "r = Inr (configs, issues)" using ex_wasm_run unfolding r by (cases r) auto
  obtain d where d: "?mutated configs = Inr d" using ex_wasm_run unfolding r ci by (cases "?mutated configs") simp_all
  note run = r [unfolded ci]
  have "ex_wasm_sets \<noteq> []" using ex_wasm_sets_one by auto
  then have "map rm_Config (go_sort SortableHTTPRouteMatchConfigs_Less ex_wasm_sets) \<noteq> []"
    by (metis go_sort_eq_Nil map_is_Nil_conv)
  with run policies_survive_extensions [OF ex_wasm_builds run d refl refl] show ?thesis by blast
qed

theorem upstream_clusters_converge_witness:
  "converges (EqualEnvoyFilters (=) (=)) EnvoyFilterGroupKind
     (upstreamObject ex_wasm_env (istioGatewayControllerNames ex_default_env) (buildUpstreamEnvoyFilter ex_istio_env ex_wasm_env))
     UpstreamObjectLabels [ex_ready_gateway]
     (\<lambda>items. gbind (Istio_reconcileUpstreamClusters ex_istio_env ex_wasm_env (childrenOf LinkGatewayToEnvoyFilter items) items
       \<lparr>os_Ops = [], os_Errors = []\<rparr>) (\<lambda>st. Return (st, Some []))) []"
proof -
  have env: "ct_Environment (we_Clusters ex_wasm_env) = ex_default_env" "ct_Gateways (we_Clusters ex_wasm_env) = [ex_ready_gateway]"
    by (simp_all add: ex_wasm_env_def ex_cluster_topology_def)
  show ?thesis
    using upstream_clusters_converge [OF refl, of ex_wasm_env ex_istio_env "[]" "\<lparr>os_Ops = [], os_Errors = []\<rparr>"]
    by (simp add: env objects_in_place_def ex_istio_env_def reflp_def)
qed

section \<open>Further observations\<close>

text \<open>
  Only accesses with a dot count as reading auth data: a rate limit whose condition indexes
  \<open>auth\<close> is placed before auth.
\<close>

lemma indexed_auth_access_missed:
  assumes "sp_ConditionalData s = [\<lparr>cd_Predicates = [''auth[\"identity\"].sub == 1''], cd_Data = []\<rparr>]"
  shows "placeSpecs True [s] [a] = [s\<lparr>sp_Execution := ExecutionSequential\<rparr>, a]"
proof -
  have "\<not> Contains ''auth[\"identity\"].sub == 1'' ''auth.''" by code_simp
  with assms show ?thesis by (simp add: placeSpecs_def specsHaveAuthAccess_def HasAuthAccess_def)
qed

text \<open>
  The reference to the pull secret is compared by its pointers.  The API server sets the kind of a
  stored reference, so with a protected registry the stored policy never equals the desired one and is
  written again in every reconciliation.
\<close>

lemma protected_registry_never_settles:
  assumes "registry \<noteq> []" "Contains imageURL registry" "desired = buildEnvoyExtensionPolicyForGateway ct c registry imageURL g"
    and "eep_TargetRefs (mo_Spec existing) = eep_TargetRefs (mo_Spec desired)"
    and "eep_Wasm (mo_Spec existing) = map (\<lambda>w. w\<lparr>wm_Image := map_option (\<lambda>(url, secret).
      (url, map_option (\<lambda>r. r\<lparr>psr_Kind := Some ''Secret''\<rparr>) secret)) (wm_Image w)\<rparr>) (eep_Wasm (mo_Spec desired))"
  shows "equalEnvoyExtensionPolicies existing desired = Return False"
proof -
  obtain w url r where w: "eep_Wasm (mo_Spec desired) = [w]" "wm_Image w = Some (url, Some r)"
    using assms(1,2) by (cases "Deref (cfg_ActionSets c) [] = []")
      (auto simp: assms(3) buildEnvoyExtensionPolicyForGateway_def Let_def TagObjectToDelete_def)
  then show ?thesis
    by (simp add: equalEnvoyExtensionPolicies_def assms(4,5) equalWasm_def sameSecret_def Deref_def Let_def)
qed

text \<open>A path whose specifications cannot be merged ends the reconciliation for all gateways.\<close>

lemma failing_path_stops_all:
  assumes "servedPath we names path = Some (parsed, g)" "pathSets we ws mode pathID path parsed g = Return (Inl err)"
  shows "buildPaths we names ws mode ((pathID, path) # paths) acc = Return (Inl err)"
  using assms by (cases acc) (auto simp: servedPath_def split: sum.splits option.splits)

end
