(* ===== verification/Resource_Reconciler.thy ===== *)
theory Resource_Reconciler
  imports Managed_Objects
begin

text \<open>
  Create or update of one object (\<open>internal/reconcilers/base_reconciler.go\<close>), used by the extensions
  and by the reconcilers of components.  The client is a record of functions.  A mutator
  changes the existing object into the desired one and says whether it did; what mutators promise
  is the locale \<open>resource_mutator\<close>, in which reconciliation is shown to settle.
\<close>

section \<open>The client\<close>

datatype api_error = NotFoundError | ConflictError string | OtherApiError string

definition api_error_text :: "api_error \<Rightarrow> string" where
  "api_error_text e = (case e of NotFoundError \<Rightarrow> ''not found'' | ConflictError m \<Rightarrow> m | OtherApiError m \<Rightarrow> m)"

datatype 'o resource_call = CreateCall 'o | UpdateCall 'o | DeleteCall 'o

text \<open>
  A dry run returns the object as the server would store it.
  \<open>cl_Tagged\<close> is the mark for deletion, \<open>cl_Deleting\<close> the deletion timestamp,
  \<open>cl_WithVersion\<close> copies the resource version of its second argument.
\<close>

record 'o resource_client =
  cl_Get :: "'o \<Rightarrow> api_error + 'o"
  cl_DryRun :: "'o \<Rightarrow> api_error + 'o"
  cl_Call :: "'o resource_call \<Rightarrow> api_error option"
  cl_Tagged :: "'o \<Rightarrow> bool"
  cl_Deleting :: "'o \<Rightarrow> bool"
  cl_WithVersion :: "'o \<Rightarrow> 'o \<Rightarrow> 'o"

section \<open>Reconciliation\<close>

definition CreateOnlyMutator :: "'o \<Rightarrow> 'o \<Rightarrow> 'o \<times> bool" where
  "CreateOnlyMutator existing desired = (existing, False)"

definition resourceCall :: "'o resource_client \<Rightarrow> 'o resource_call \<Rightarrow> 'o option \<Rightarrow> (api_error + 'o option) \<times> 'o resource_call list" where
  "resourceCall cl call result = (case cl_Call cl call of Some err \<Rightarrow> (Inl err, [call]) | None \<Rightarrow> (Inr result, [call]))"

definition CreateResource :: "'o resource_client \<Rightarrow> 'o \<Rightarrow> (api_error + 'o option) \<times> 'o resource_call list" where
  "CreateResource cl obj = resourceCall cl (CreateCall obj) None"

definition UpdateResource :: "'o resource_client \<Rightarrow> 'o \<Rightarrow> (api_error + 'o option) \<times> 'o resource_call list" where
  "UpdateResource cl obj = resourceCall cl (UpdateCall obj) (Some obj)"

definition DeleteResource :: "'o resource_client \<Rightarrow> 'o \<Rightarrow> (api_error + 'o option) \<times> 'o resource_call list" where
  "DeleteResource cl obj = (if cl_Deleting cl obj then (Inr None, []) else resourceCall cl (DeleteCall obj) None)"

text \<open>The object that is returned is nil unless it existed before and is kept.\<close>

definition ReconcileResource ::
  "'o resource_client \<Rightarrow> ('o \<Rightarrow> 'o \<Rightarrow> 'o \<times> bool) \<Rightarrow> 'o \<Rightarrow> (api_error + 'o option) \<times> 'o resource_call list" where
  "ReconcileResource cl mutateFn desired =
     (case cl_Get cl desired of
        Inl err \<Rightarrow>
          if err \<noteq> NotFoundError then (Inl err, [])
          else if \<not> cl_Tagged cl desired then CreateResource cl desired else (Inr None, [])
      | Inr obj \<Rightarrow>
          if cl_Tagged cl desired then DeleteResource cl desired
          else (case cl_DryRun cl (cl_WithVersion cl desired obj) of
            Inl err \<Rightarrow> (Inl err, [])
          | Inr desired \<Rightarrow> (let (obj, update) = mutateFn obj desired in if update then UpdateResource cl obj else (Inr (Some obj), []))))"

section \<open>What mutators promise\<close>

text \<open>\<open>agrees e d\<close>: the existing object has what the mutator takes from the desired one.\<close>

locale resource_mutator =
  fixes mutateFn :: "'o \<Rightarrow> 'o \<Rightarrow> 'o \<times> bool" and agrees :: "'o \<Rightarrow> 'o \<Rightarrow> bool"
  assumes reaches: "agrees (fst (mutateFn e d)) d"
    and quiet: "agrees e d \<Longrightarrow> mutateFn e d = (e, False)"
    and reports: "\<not> agrees e d \<Longrightarrow> snd (mutateFn e d)"
begin

lemma mutated: "snd (mutateFn e d) \<longleftrightarrow> \<not> agrees e d"
  using quiet reports by (cases "agrees e d") auto

text \<open>
  An object that exists and is kept is brought to the desired state, with a call only if it was not in it,
  and with what was written the next reconciliation makes no call.
\<close>

lemma settles:
  assumes got: "cl_Get cl desired = Inr obj" and live: "\<not> cl_Tagged cl desired" and works: "\<And>c. cl_Call cl c = None"
    and stored: "\<And>o'. cl_DryRun cl (cl_WithVersion cl desired o') = Inr (fill o')" "\<And>e o'. agrees e (fill o') = agrees e desired"
  shows "\<exists>obj'. ReconcileResource cl mutateFn desired = (Inr (Some obj'), if agrees obj desired then [] else [UpdateCall obj']) \<and> agrees obj' desired \<and>
    ReconcileResource (cl\<lparr>cl_Get := \<lambda>_. Inr obj'\<rparr>) mutateFn desired = (Inr (Some obj'), [])"
proof -
  let ?obj' = "fst (mutateFn obj (fill obj))"
  have "agrees ?obj' desired" using reaches [of obj "fill obj"] stored(2) by blast
  moreover from this have "mutateFn ?obj' (fill ?obj') = (?obj', False)" using quiet stored(2) by blast
  moreover have "ReconcileResource cl mutateFn desired = (Inr (Some ?obj'), if agrees obj desired then [] else [UpdateCall ?obj'])"
    using got live works stored(1) mutated [of obj "fill obj"] stored(2) [of obj obj]
    by (simp add: ReconcileResource_def UpdateResource_def resourceCall_def case_prod_beta)
  ultimately show ?thesis using live stored(1) by (intro exI [of _ ?obj']) (simp add: ReconcileResource_def)
qed

end

text \<open>The mutator for objects that are only created.\<close>

interpretation create_only: resource_mutator CreateOnlyMutator "\<lambda>_ _. True"
  by unfold_locales (simp_all add: CreateOnlyMutator_def)

text \<open>With it, after a successful reconciliation the object exists exactly if it is not marked for deletion.\<close>

lemma create_only_calls:
  assumes "\<And>c. cl_Call cl c = None" "cl_Get cl desired = Inl NotFoundError \<or> (\<exists>obj. cl_Get cl desired = Inr obj)" "\<And>o'. \<exists>d. cl_DryRun cl o' = Inr d"
    "\<not> cl_Deleting cl desired"
  shows "snd (ReconcileResource cl CreateOnlyMutator desired) =
    (case (cl_Get cl desired, cl_Tagged cl desired) of (Inl _, False) \<Rightarrow> [CreateCall desired] | (Inr _, True) \<Rightarrow> [DeleteCall desired] | _ \<Rightarrow> [])"
proof (cases "cl_Get cl desired")
  case (Inr obj)
  obtain d where "cl_DryRun cl (cl_WithVersion cl desired obj) = Inr d" using assms(3) by blast
  then show ?thesis using assms(1,4) Inr
    by (cases "cl_Tagged cl desired") (simp_all add: ReconcileResource_def DeleteResource_def resourceCall_def CreateOnlyMutator_def)
qed (use assms in \<open>auto simp: ReconcileResource_def CreateResource_def resourceCall_def\<close>)

end
