(* ===== verification/Plan_Policy.thy ===== *)
theory Plan_Policy
  imports Wasm_Extensions Resource_Reconciler
begin

text \<open>
  The plan policy, one of the extensions that come with the operator: rate limits by the plan of
  an identity (\<open>cmd/extensions/plan-policy\<close>), with the conditions of
  \<open>pkg/extension/controller/utils.go\<close>.

  A plan policy becomes a rate limit policy with a limit per plan and an expression that selects
  the plan, which is bound as data of the auth domain.  The API client, the owner reference and the
  service of the operator are parameters.
\<close>

section \<open>Plans\<close>

record plan_limits =
  pl_Daily :: "int option"
  pl_Weekly :: "int option"
  pl_Monthly :: "int option"
  pl_Yearly :: "int option"
  pl_Custom :: "Rate list"

record Plan =
  plan_Tier :: string
  plan_Limits :: plan_limits
  plan_Predicate :: string

record PlanPolicy =
  pp_Namespace :: string
  pp_Name :: string
  pp_TargetRef :: LocalPolicyTargetReference
  pp_Plans :: "Plan list"
  pp_Deleted :: bool
  pp_Generation :: int
  pp_ObservedGeneration :: int
  pp_Conditions :: "Condition list"

definition addRate :: "int option \<Rightarrow> string \<Rightarrow> Rate list" where
  "addRate limit window = (case limit of None \<Rightarrow> [] | Some n \<Rightarrow> [\<lparr>rate_Limit = n, rate_Window = window\<rparr>])"

definition Limits_ToRates :: "plan_limits \<Rightarrow> Rate list" where
  "Limits_ToRates l =
     addRate (pl_Daily l) ''24h'' @ addRate (pl_Weekly l) ''168h'' @ addRate (pl_Monthly l) ''730h'' @ addRate (pl_Yearly l) ''8760h'' @ pl_Custom l"

definition planPredicate :: "string \<Rightarrow> string" where
  "planPredicate tier = ''auth.kuadrant.plan == '' @ [quote_char] @ tier @ [quote_char]"

definition planLimit :: "Plan \<Rightarrow> Limit" where
  "planLimit plan = \<lparr>limit_When = NewWhenPredicates [planPredicate (plan_Tier plan)], limit_Counters = [],
     limit_Rates = Limits_ToRates (plan_Limits plan), limit_Source = []\<rparr>"

definition PlanPolicy_ToRateLimits :: "PlanPolicy \<Rightarrow> (string, Limit) gomap" where
  "PlanPolicy_ToRateLimits p = utils_Associate (pp_Plans p) (\<lambda>plan. (plan_Tier plan, planLimit plan))"

definition tierEntry :: "Plan \<Rightarrow> string" where
  "tierEntry plan = [quote_char] @ plan_Tier plan @ [quote_char]"

definition tierPredicate :: "Plan \<Rightarrow> string" where
  "tierPredicate plan = ''    '' @ [quote_char] @ plan_Tier plan @ [quote_char] @ '': '' @ ReplaceAll (plan_Predicate plan) newline [] @ '',''"

definition BuildCelExpression :: "PlanPolicy \<Rightarrow> string" where
  "BuildCelExpression p =
     ''['' @ Join (map tierEntry (pp_Plans p)) '', '' @ '']'' @ newline @
     ''  .filter(i, i in'' @ newline @ ''    [{'' @ newline @ Join (map tierPredicate (pp_Plans p)) newline @ newline @
     ''    }].map(m, m.filter(key, m[key]))[0])[0]''"

text \<open>\<open>PlanPolicyStatus.Equals\<close>.\<close>

definition PlanPolicyStatus_Equals :: "(Condition list \<Rightarrow> string) \<Rightarrow> int \<times> Condition list \<Rightarrow> int \<times> Condition list \<Rightarrow> bool" where
  "PlanPolicyStatus_Equals marshal s other \<longleftrightarrow>
     fst s = fst other \<and> ConditionMarshal marshal (snd s) = ConditionMarshal marshal (snd other)"

section \<open>The reconciler\<close>

record rlp_object =
  ro_Policy :: RateLimitPolicy
  ro_Conditions :: "Condition list"
  ro_Meta :: string

definition emptyProper :: "(string, Limit) gomap \<Rightarrow> RateLimitPolicySpecProper" where
  "emptyProper limits = \<lparr>rlp_When = \<lparr>mwp_Predicates = [], mwp_Source = []\<rparr>, rlp_Limits = limits\<rparr>"

definition buildDesiredRateLimitPolicy :: "PlanPolicy \<Rightarrow> rlp_object" where
  "buildDesiredRateLimitPolicy planPolicy =
     \<lparr>ro_Policy = \<lparr>rlp_Namespace = pp_Namespace planPolicy, rlp_Name = pp_Name planPolicy,
        rlp_Spec = \<lparr>rlp_TargetRef = pp_TargetRef planPolicy, rlp_Defaults = None, rlp_Overrides = None,
          rlp_Bare = emptyProper (PlanPolicy_ToRateLimits planPolicy)\<rparr>\<rparr>,
      ro_Conditions = [], ro_Meta = []\<rparr>"

text \<open>\<open>reflect.DeepEqual\<close> does not depend on the order of the map of limits.\<close>

definition deepEqualLimits :: "(string, Limit) gomap \<Rightarrow> (string, Limit) gomap \<Rightarrow> bool" where
  "deepEqualLimits m m' \<longleftrightarrow> list_all (\<lambda>k. map_of m k = map_of m' k) (map fst m @ map fst m')"

definition deepEqualProper :: "RateLimitPolicySpecProper \<Rightarrow> RateLimitPolicySpecProper \<Rightarrow> bool" where
  "deepEqualProper a b \<longleftrightarrow> rlp_When a = rlp_When b \<and> deepEqualLimits (rlp_Limits a) (rlp_Limits b)"

definition rlpSpecMutator :: "rlp_object \<Rightarrow> rlp_object \<Rightarrow> rlp_object \<times> bool" where
  "rlpSpecMutator existing desired =
     (let d = rlp_Spec (ro_Policy desired); e = rlp_Spec (ro_Policy existing);
          e1 = (if rlp_TargetRef d \<noteq> rlp_TargetRef e then e\<lparr>rlp_TargetRef := rlp_TargetRef d\<rparr> else e);
          e2 = (if \<not> deepEqualProper (rlp_Bare d) (rlp_Bare e1) then e1\<lparr>rlp_Bare := rlp_Bare d\<rparr> else e1)
      in (existing\<lparr>ro_Policy := (ro_Policy existing)\<lparr>rlp_Spec := e2\<rparr>\<rparr>, rlp_TargetRef d \<noteq> rlp_TargetRef e \<or> \<not> deepEqualProper (rlp_Bare d) (rlp_Bare e1)))"

definition isRateLimitPolicyEnforced :: "rlp_object \<Rightarrow> string option" where
  "isRateLimitPolicyEnforced rlPolicy =
     (case List.find (\<lambda>c. cond_Type c = PolicyConditionEnforced) (ro_Conditions rlPolicy) of
        None \<Rightarrow> Some (''RateLimitPolicy '' @ rlp_Name (ro_Policy rlPolicy) @ '' is not enforced'')
      | Some cond \<Rightarrow> if cond_Status cond = ''False'' then Some (''RateLimitPolicy '' @ rlp_Name (ro_Policy rlPolicy) @ '' is not enforced'') else None)"

text \<open>\<open>EnforcedCondition\<close> of the extension package: with an error its text is the message.\<close>

definition ext_EnforcedCondition :: "string \<Rightarrow> go_error option \<Rightarrow> (go_error \<Rightarrow> string) \<Rightarrow> bool \<Rightarrow> Condition" where
  "ext_EnforcedCondition kind err text fully =
     (let cond = \<lparr>cond_Type = PolicyConditionEnforced, cond_Status = ''True'', cond_Reason = ''Enforced'',
            cond_Message = kind @ (if \<not> fully then '' has been partially enforced'' else '' has been successfully enforced'')\<rparr>
      in case err of None \<Rightarrow> cond
         | Some e \<Rightarrow> cond\<lparr>cond_Status := ''False'', cond_Message := text e,
             cond_Reason := Policy_Reason (case asPolicyError e of Some p \<Rightarrow> p | None \<Rightarrow> ErrUnknown kind e)\<rparr>)"

text \<open>
  What the reconciler is given: \<open>pe_Kind\<close> is the kind that the object of the policy carries,
  \<open>pe_SetOwner\<close> sets the owner reference, \<open>pe_AddDataTo\<close> is the call of the operator's service.
\<close>

record plan_env =
  pe_Client :: "rlp_object resource_client"
  pe_SetOwner :: "rlp_object \<Rightarrow> string + rlp_object"
  pe_AddDataTo :: "string \<Rightarrow> string option"
  pe_UpdateStatus :: "int \<times> Condition list \<Rightarrow> api_error option"
  pe_Kind :: string
  pe_NN :: "string \<Rightarrow> string \<Rightarrow> string"
  pe_SetCond :: set_cond
  pe_RemoveCond :: remove_cond
  pe_Marshal :: "Condition list \<Rightarrow> string"

datatype plan_call = ResourceCall "rlp_object resource_call" | AddDataCall string | StatusCall "int \<times> Condition list"

definition calculateErrorStatus :: "plan_env \<Rightarrow> PlanPolicy \<Rightarrow> string \<Rightarrow> int \<times> Condition list" where
  "calculateErrorStatus pe p specErr =
     (pp_Generation p, pe_RemoveCond pe (pe_SetCond pe (pp_Conditions p) (AcceptedCondition (pe_NN pe) (pe_Kind pe) (Some (ForeignError specErr False)))) PolicyConditionEnforced)"

definition calculateEnforcedStatus :: "plan_env \<Rightarrow> PlanPolicy \<Rightarrow> go_error option \<Rightarrow> int \<times> Condition list" where
  "calculateEnforcedStatus pe p enforcedErr =
     (pp_Generation p, pe_SetCond pe (pe_SetCond pe (pp_Conditions p) (AcceptedCondition (pe_NN pe) (pe_Kind pe) None))
       (ext_EnforcedCondition (pe_Kind pe) enforcedErr (\<lambda>e. case e of ForeignError m _ \<Rightarrow> m | PolicyError q \<Rightarrow> Policy_Error (pe_NN pe) q) True))"

text \<open>
  The new status, the error and the calls.  The object that the client returns is converted to a
  rate limit policy by a type assertion, which panics on nil.
\<close>

definition plan_reconcileSpec :: "plan_env \<Rightarrow> PlanPolicy \<Rightarrow> ((int \<times> Condition list) \<times> string option \<times> plan_call list) go_result" where
  "plan_reconcileSpec pe p =
     (case pe_SetOwner pe (buildDesiredRateLimitPolicy p) of
        Inl err \<Rightarrow> Return (calculateErrorStatus pe p err, Some err, [])
      | Inr desired \<Rightarrow>
        (let (r, calls) = ReconcileResource (pe_Client pe) rlpSpecMutator desired;
             calls = map ResourceCall calls
         in case r of
              Inl err \<Rightarrow> Return (calculateErrorStatus pe p (api_error_text err), Some (api_error_text err), calls)
            | Inr rateLimitPolicy \<Rightarrow>
              (let expression = BuildCelExpression p; calls = calls @ [AddDataCall expression]
               in case pe_AddDataTo pe expression of
                    Some err \<Rightarrow> Return (calculateErrorStatus pe p err, Some err, calls)
                  | None \<Rightarrow>
                    (case rateLimitPolicy of None \<Rightarrow> Panic ''interface conversion: interface is nil''
                     | Some rlp \<Rightarrow>
                       (case isRateLimitPolicyEnforced rlp of
                          Some err \<Rightarrow> Return (calculateErrorStatus pe p err, Some err, calls)
                        | None \<Rightarrow> Return (calculateEnforcedStatus pe p None, None, calls))))))"

record reconcile_result =
  res_Requeue :: bool
  res_RequeueAfter :: int

definition no_result :: reconcile_result where "no_result = \<lparr>res_Requeue = False, res_RequeueAfter = 0\<rparr>"

definition plan_reconcileStatus :: "plan_env \<Rightarrow> PlanPolicy \<Rightarrow> int \<times> Condition list \<Rightarrow> reconcile_result \<times> string option \<times> plan_call list" where
  "plan_reconcileStatus pe p newStatus =
     (if PlanPolicyStatus_Equals (pe_Marshal pe) (pp_ObservedGeneration p, pp_Conditions p) newStatus \<and> pp_Generation p = pp_ObservedGeneration p
      then (no_result, None, [])
      else (case pe_UpdateStatus pe newStatus of
          None \<Rightarrow> (no_result, None, [StatusCall newStatus])
        | Some err \<Rightarrow>
          (case err of ConflictError _ \<Rightarrow> (no_result\<lparr>res_Requeue := True\<rparr>, None, [StatusCall newStatus])
           | _ \<Rightarrow> (no_result, Some (''failed to update status: '' @ api_error_text err), [StatusCall newStatus]))))"

text \<open>The policy as the client reads it; \<open>NotFoundError\<close> is only logged.\<close>

definition PlanPolicyReconciler_Reconcile ::
  "plan_env \<Rightarrow> api_error + PlanPolicy \<Rightarrow> (reconcile_result \<times> string option \<times> plan_call list) go_result" where
  "PlanPolicyReconciler_Reconcile pe got =
     (case got of
        Inl err \<Rightarrow> Return (no_result, if err = NotFoundError then None else Some (api_error_text err), [])
      | Inr p \<Rightarrow>
        if pp_Deleted p then Return (no_result, None, [])
        else gbind (plan_reconcileSpec pe p) (\<lambda>(newStatus, specErr, calls).
          let (statusResult, statusErr, statusCalls) = plan_reconcileStatus pe p newStatus; calls = calls @ statusCalls
          in Return (if specErr \<noteq> None then (no_result, specErr, calls)
                     else if statusErr \<noteq> None then (no_result, statusErr, calls)
                     else if res_RequeueAfter statusResult > 0 then (statusResult, None, calls)
                     else (no_result, None, calls))))"

section \<open>The limits of the plans\<close>

text \<open>The windows in the units of Limitador: a day, a week, a twelfth of a year and a year in seconds.\<close>

lemma plan_windows:
  "Duration_Seconds ''24h'' = 86400" "Duration_Seconds ''168h'' = 604800" "Duration_Seconds ''730h'' = 2628000" "Duration_Seconds ''8760h'' = 31536000"
  by (simp_all add: Duration_Seconds_def parse_duration_ms.simps parse_unit_def HasPrefix_iff)

text \<open>
  Every tier has the limit of its last plan, which applies to the identities of that tier only and has
  one rate for every given bound, with its window in seconds.
\<close>

theorem plan_limits_exact:
  "map_option (\<lambda>l. (WhenPredicates_Into (limit_When l), map Rate_ToSeconds (limit_Rates l))) (map_of (PlanPolicy_ToRateLimits p) tier) =
     (case List.find (\<lambda>plan. plan_Tier plan = tier) (rev (pp_Plans p)) of None \<Rightarrow> None
      | Some plan \<Rightarrow>
        (let rate = (\<lambda>bound window. case bound of None \<Rightarrow> [] | Some n \<Rightarrow> [(max 0 n, window)]); l = plan_Limits plan
         in Some ([planPredicate tier], rate (pl_Daily l) 86400 @ rate (pl_Weekly l) 604800 @ rate (pl_Monthly l) 2628000 @ rate (pl_Yearly l) 31536000 @
           map Rate_ToSeconds (pl_Custom l))))"
proof -
  have "map_of (map (\<lambda>plan. (plan_Tier plan, planLimit plan)) plans) tier = map_option planLimit (List.find (\<lambda>plan. plan_Tier plan = tier) plans)" for plans
    by (induction plans) auto
  then have l: "map_of (PlanPolicy_ToRateLimits p) tier = map_option planLimit (List.find (\<lambda>plan. plan_Tier plan = tier) (rev (pp_Plans p)))"
    by (simp add: PlanPolicy_ToRateLimits_def utils_Associate_lookup rev_map)
  show ?thesis
  proof (cases "List.find (\<lambda>plan. plan_Tier plan = tier) (rev (pp_Plans p))")
    case (Some plan)
    then have "plan_Tier plan = tier" by (auto simp: find_Some_iff)
    then show ?thesis
      unfolding l Some by (simp add: planLimit_def NewWhenPredicates_def WhenPredicates_Into_def NewPredicate_def Limits_ToRates_def addRate_def
          Rate_ToSeconds_def plan_windows Let_def max_def split: option.split)
  qed (simp add: l)
qed

section \<open>Plans are counted after authentication\<close>

lemma gtraverse_mem: "gtraverse f xs = Return ys \<Longrightarrow> x \<in> set xs \<Longrightarrow> \<exists>y\<in>set ys. f x = Return y"
  by (induction xs arbitrary: ys) (auto simp: gbind_eq_Return)

lemma planPredicate_auth: "Contains (planPredicate tier) ''auth.''"
  unfolding Contains_iff planPredicate_def
  by (intro exI [of _ "[]"] exI [of _ "''kuadrant.plan == '' @ [quote_char] @ tier @ [quote_char]"]) simp

lemma plan_spec_auth:
  assumes "limit_When l = NewWhenPredicates [planPredicate tier]"
  shows "HasAuthAccess (wasmActionSpecFromLimit l i scope source tops)"
  using assms planPredicate_auth [of tier]
  by (simp add: HasAuthAccess_def wasmActionSpecFromLimit_def WhenPredicates_Into_def WhenPredicates_Extend_def NewWhenPredicates_def NewPredicate_def)

lemma plan_specs_auth:
  assumes specs: "buildWasmActionSpecsForRateLimit hash8 nn locator topo ep predicate = Return specs"
    and parsed: "ParseTopologyPath (ep_Path ep) = Inr parsed"
    and rule: "(k, RuleLimit l) \<in> set (RateLimitPolicy_Rules locator (ep_Spec ep))" "k \<noteq> RulesKeyTopLevelPredicates"
    and plan: "limit_When l = NewWhenPredicates [planPredicate tier]"
    and source: "findSource locator (pathPolicies topo predicate (ep_Path ep)) (limit_Source l) \<noteq> None"
  shows "specsHaveAuthAccess specs"
proof -
  obtain route where route: "GetRoute parsed = Some route" using GetRoute_parsed [OF parsed] by blast
  obtain s where s: "findSource locator (pathPolicies topo predicate (ep_Path ep)) (limit_Source l) = Some s" using source by blast
  let ?entries = "go_sort (\<lambda>a b. string_less (fst a) (fst b)) (RateLimitPolicy_Rules locator (ep_Spec ep))"
  let ?body = "\<lambda>tops (uniquePolicyRuleKey, policyRule).
                    case findSource locator (pathPolicies topo predicate (ep_Path ep)) (rlp_GetSource policyRule) of None \<Rightarrow> Return None
                    | Some source \<Rightarrow>
                      gbind (rlp_specFunc policyRule (LimitNameToLimitadorIdentifier hash8 nn (policy_nsname (pol source)) uniquePolicyRuleKey)
                          (LimitsNamespaceFromRoute nn route) (policy_locator locator (pol source)) tops) (\<lambda>spec. Return (Some spec))"
  obtain tops rs where t: "gtraverse (?body tops) (filter (\<lambda>r. fst r \<noteq> RulesKeyTopLevelPredicates) ?entries) = Return rs"
    and specs_eq: "specs = List.map_filter (\<lambda>s. s) rs"
    using specs unfolding buildWasmActionSpecsForRateLimit_def buildWasmActionSpecsForAnyRateLimit_def Let_def parsed sum.case route option.case gbind_eq_Return
    by blast
  have "(k, RuleLimit l) \<in> set (filter (\<lambda>r. fst r \<noteq> RulesKeyTopLevelPredicates) ?entries)" using rule by simp
  from gtraverse_mem [OF t this] obtain y where y: "y \<in> set rs" "?body tops (k, RuleLimit l) = Return y" by blast
  from y(2) s have "y = Some (wasmActionSpecFromLimit l (LimitNameToLimitadorIdentifier hash8 nn (policy_nsname (pol s)) k)
      (LimitsNamespaceFromRoute nn route) (policy_locator locator (pol s)) tops)" by simp
  with y(1) specs_eq have "\<exists>spec\<in>set specs. HasAuthAccess spec"
    using plan_spec_auth [OF plan] by (force simp: List.map_filter_def)
  then show ?thesis by (simp add: specsHaveAuthAccess_def list_ex_iff)
qed

lemma placeSpecs_keeps:
  assumes "specs = pre @ a # post" "list_all (\<lambda>s. \<not> HasAuthAccess s) pre"
  shows "\<exists>pre' post'. placeSpecs True new specs = pre' @ a # post @ post' \<and> list_all (\<lambda>s. \<not> HasAuthAccess s) pre'"
proof (cases "specsHaveAuthAccess new")
  case True
  with assms have "placeSpecs True new specs = pre @ a # post @ new" by (simp add: placeSpecs_def)
  with assms(2) show ?thesis by blast
next
  case False
  let ?new = "map (\<lambda>s. s\<lparr>sp_Execution := ExecutionSequential\<rparr>) new"
  have "placeSpecs True new specs = (?new @ pre) @ a # post @ []" using False assms(1) by (simp add: placeSpecs_def)
  moreover have "list_all (\<lambda>s. \<not> HasAuthAccess s) (?new @ pre)"
    using False assms(2) by (auto simp: specsHaveAuthAccess_def list_all_iff list_ex_iff HasAuthAccess_def)
  ultimately show ?thesis by blast
qed

text \<open>
  C13.  The limits of plans are counted after authentication.  On a path with an effective auth
  policy, suppose that the limit of a plan is among the rules of the effective rate limit policy.
  Then all its rate limits are placed directly after auth, whatever token limits apply, so
  that the plan is known when they are evaluated.
\<close>

theorem plan_limits_follow_auth:
  assumes auth: "st_EffectiveAuthPolicies ws = Some auths" "map_of auths pathID = Some aep"
    and rate: "st_EffectiveRateLimitPolicies ws = Some rates" "map_of rates pathID = Some ep"
    and parsed: "ParseTopologyPath (ep_Path ep) = Inr parsed"
    and plan: "map_of (PlanPolicy_ToRateLimits p) tier = Some limit" "(k, RuleLimit (limit\<lparr>limit_Source := source\<rparr>)) \<in> set (RateLimitPolicy_Rules (we_Locator we) (ep_Spec ep))"
      "k \<noteq> RulesKeyTopLevelPredicates"
    and found: "findSource (we_Locator we) (pathPolicies (we_Topo we) (isRateLimitPolicyAcceptedAndNotDeletedFunc (we_FindCond we) (we_Locator we) ws) (ep_Path ep)) source \<noteq> None"
    and specs: "policySpecs we ws mode pathID = Return specs"
  shows "\<exists>pre a rlSpecs post. specs = pre @ a # rlSpecs @ post \<and> [a] = buildWasmActionSpecsForAuth (we_Sha we) pathID aep \<and>
    buildWasmActionSpecsForRateLimit (we_Hash8 we) (we_NN we) (we_Locator we) (we_Topo we) ep
      (isRateLimitPolicyAcceptedAndNotDeletedFunc (we_FindCond we) (we_Locator we) ws) = Return rlSpecs \<and>
    list_all (\<lambda>s. \<not> HasAuthAccess s) pre"
proof -
  obtain a where a: "buildWasmActionSpecsForAuth (we_Sha we) pathID aep = [a]" by (simp add: buildWasmActionSpecsForAuth_def)
  let ?build = "buildWasmActionSpecsForRateLimit (we_Hash8 we) (we_NN we) (we_Locator we) (we_Topo we) ep
      (isRateLimitPolicyAcceptedAndNotDeletedFunc (we_FindCond we) (we_Locator we) ws)"
  obtain rlSpecs where rl: "?build = Return rlSpecs"
    using specs by (cases ?build) (simp_all add: policySpecs_def auth rate Deref_def Let_def)
  obtain q where "limit = planLimit q"
    using plan(1) by (auto simp: PlanPolicy_ToRateLimits_def utils_Associate_lookup dest!: map_of_SomeD)
  then have "\<exists>tier'. limit_When limit = NewWhenPredicates [planPredicate tier']" by (auto simp: planLimit_def)
  then obtain tier' where "limit_When (limit\<lparr>limit_Source := source\<rparr>) = NewWhenPredicates [planPredicate tier']" by auto
  then have access: "specsHaveAuthAccess rlSpecs" using plan_specs_auth [OF rl parsed plan(2,3)] found by simp
  define ok where "ok specs \<longleftrightarrow> (\<exists>pre post. specs = pre @ a # rlSpecs @ post \<and> list_all (\<lambda>s. \<not> HasAuthAccess s) pre)" for specs
  have start: "ok (placeSpecs True rlSpecs [a])" unfolding ok_def using access by (intro exI [of _ "[]"]) (simp add: placeSpecs_def)
  have place: "ok specs \<Longrightarrow> ok (placeSpecs True new specs)" for new specs
    unfolding ok_def using placeSpecs_keeps by (metis append.assoc)
  have "ok specs"
    using specs start place by (auto simp: policySpecs_def auth rate a rl Let_def Deref_def gbind_eq_Return split: option.splits)
  with a rl show ?thesis unfolding ok_def by auto
qed

definition ex_plan_policy :: PlanPolicy where
  "ex_plan_policy = \<lparr>pp_Namespace = ''ns'', pp_Name = ''plans'', pp_TargetRef = ex_ref,
     pp_Plans = [\<lparr>plan_Tier = ''gold'', plan_Limits = \<lparr>pl_Daily = Some 100, pl_Weekly = None, pl_Monthly = None, pl_Yearly = None, pl_Custom = []\<rparr>,
       plan_Predicate = ''true''\<rparr>],
     pp_Deleted = False, pp_Generation = 1, pp_ObservedGeneration = 0, pp_Conditions = []\<rparr>"

definition ex_plan_rlp :: RateLimitPolicy where "ex_plan_rlp = ro_Policy (buildDesiredRateLimitPolicy ex_plan_policy)"

definition ex_plan_locator :: string where "ex_plan_locator = RateLimitPolicy_GetLocator ex_locator ex_plan_rlp"

definition ex_plan_attached :: "targetable \<Rightarrow> string policy_object list" where
  "ex_plan_attached t = (case t of THTTPRouteRule _ \<Rightarrow> [ex_obj (RateLimitPolicyObj ex_plan_rlp)] | _ \<Rightarrow> [])"

definition ex_plan_wasm :: "(string, nat, nat, unit) wasm_env" where
  "ex_plan_wasm = ex_wasm_env\<lparr>we_Topo := ex_limit_topo\<lparr>tv_PoliciesOf := ex_plan_attached\<rparr>\<rparr>"

definition ex_plan_effective :: "RateLimitPolicy EffectivePolicy" where
  "ex_plan_effective = \<lparr>ep_Path = ex_ready_path, ep_Spec = ex_plan_rlp, ep_SourcePolicies = [ex_plan_locator]\<rparr>"

definition ex_plan_state :: "string workflow_state" where
  "ex_plan_state = ex_auth_state\<lparr>st_EffectiveRateLimitPolicies := Some [(''id'', ex_plan_effective)],
     st_RateLimitPolicyValid := Some [(ex_plan_locator, None)]\<rparr>"

theorem plan_limits_follow_auth_witness:
  "\<exists>specs pre a rlSpecs post. policySpecs ex_plan_wasm ex_plan_state [] ''id'' = Return specs \<and> specs = pre @ a # rlSpecs @ post \<and>
    buildWasmActionSpecsForRateLimit ex_hash8 ex_nn ex_locator (we_Topo ex_plan_wasm) ex_plan_effective
      (isRateLimitPolicyAcceptedAndNotDeletedFunc (\<lambda>_ _. None) ex_locator ex_plan_state) = Return rlSpecs"
proof -
  let ?limit = "planLimit (hd (pp_Plans ex_plan_policy))"
  have env: "we_Locator ex_plan_wasm = ex_locator" "we_Hash8 ex_plan_wasm = ex_hash8" "we_NN ex_plan_wasm = ex_nn" "we_FindCond ex_plan_wasm = (\<lambda>_ _. None)"
    by (simp_all add: ex_plan_wasm_def ex_wasm_env_def)
  have auth: "st_EffectiveAuthPolicies ex_plan_state = Some [(''id'', \<lparr>ep_Path = ex_ready_path, ep_Spec = ex_gateway_ap, ep_SourcePolicies = []\<rparr>)]"
    by (simp add: ex_plan_state_def ex_auth_state_def)
  have rate: "st_EffectiveRateLimitPolicies ex_plan_state = Some [(''id'', ex_plan_effective)]" by (simp add: ex_plan_state_def)
  have "case policySpecs ex_plan_wasm ex_plan_state [] ''id'' of Return specs \<Rightarrow> True | _ \<Rightarrow> False" by code_simp
  then obtain specs where specs: "policySpecs ex_plan_wasm ex_plan_state [] ''id'' = Return specs" by (auto split: go_result.splits)
  have "case ParseTopologyPath (ep_Path ex_plan_effective) of Inr parsed \<Rightarrow> True | Inl err \<Rightarrow> False" by code_simp
  then obtain parsed where parsed: "ParseTopologyPath (ep_Path ex_plan_effective) = Inr parsed" by (auto split: sum.splits)
  have limit: "map_of (PlanPolicy_ToRateLimits ex_plan_policy) ''gold'' = Some ?limit" by (simp add: PlanPolicy_ToRateLimits_def utils_Associate_def ex_plan_policy_def)
  have rule: "(''gold'', RuleLimit (?limit\<lparr>limit_Source := ex_plan_locator\<rparr>)) \<in> set (RateLimitPolicy_Rules ex_locator (ep_Spec ex_plan_effective))" by code_simp
  have found: "findSource ex_locator (pathPolicies (we_Topo ex_plan_wasm) (isRateLimitPolicyAcceptedAndNotDeletedFunc (\<lambda>_ _. None) ex_locator ex_plan_state)
      (ep_Path ex_plan_effective)) ex_plan_locator \<noteq> None" by code_simp
  have "''gold'' \<noteq> RulesKeyTopLevelPredicates" by code_simp
  with plan_limits_follow_auth [where we = ex_plan_wasm and k = "''gold''" and source = ex_plan_locator and mode = "[]" and specs = specs and pathID = "''id''",
      OF auth _ rate _ parsed limit, unfolded env] rule found specs
  show ?thesis by auto
qed

section \<open>The rate limit policy of a plan policy\<close>

text \<open>
  The mutator takes the target and the limits; so an existing rate limit policy is brought to those of the
  plan policy and stays there (\<open>plan_mutator.settles\<close>).
\<close>

definition planAgrees :: "rlp_object \<Rightarrow> rlp_object \<Rightarrow> bool" where
  "planAgrees existing desired \<longleftrightarrow>
     rlp_TargetRef (rlp_Spec (ro_Policy existing)) = rlp_TargetRef (rlp_Spec (ro_Policy desired)) \<and>
     deepEqualProper (rlp_Bare (rlp_Spec (ro_Policy desired))) (rlp_Bare (rlp_Spec (ro_Policy existing)))"

lemma deepEqualLimits_iff: "deepEqualLimits m m' \<longleftrightarrow> map_of m = map_of m'"
proof
  assume "deepEqualLimits m m'"
  then have keys: "map_of m k = map_of m' k" if "k \<in> fst ` set m \<union> fst ` set m'" for k
    using that by (auto simp: deepEqualLimits_def list_all_iff)
  show "map_of m = map_of m'"
  proof
    fix k
    show "map_of m k = map_of m' k"
      by (cases "k \<in> fst ` set m \<union> fst ` set m'") (auto simp: keys map_of_eq_None_iff [THEN iffD2])
  qed
qed (simp add: deepEqualLimits_def list_all_iff)

lemma deepEqualProper_refl [simp]: "deepEqualProper a a"
  by (simp add: deepEqualProper_def deepEqualLimits_iff)

interpretation plan_mutator: resource_mutator rlpSpecMutator planAgrees
  by unfold_locales (auto simp: rlpSpecMutator_def planAgrees_def Let_def)

theorem plan_object_settles:
  assumes "cl_Get cl (buildDesiredRateLimitPolicy p) = Inr obj" "\<not> cl_Tagged cl (buildDesiredRateLimitPolicy p)" "\<And>c. cl_Call cl c = None"
    and "\<And>o'. cl_DryRun cl (cl_WithVersion cl (buildDesiredRateLimitPolicy p) o') = Inr (fill o')"
      "\<And>e o'. planAgrees e (fill o') = planAgrees e (buildDesiredRateLimitPolicy p)"
  shows "\<exists>obj' calls. ReconcileResource cl rlpSpecMutator (buildDesiredRateLimitPolicy p) = (Inr (Some obj'), calls) \<and>
    map_of (rlp_Limits (rlp_Bare (rlp_Spec (ro_Policy obj')))) = map_of (PlanPolicy_ToRateLimits p) \<and>
    ReconcileResource (cl\<lparr>cl_Get := \<lambda>_. Inr obj'\<rparr>) rlpSpecMutator (buildDesiredRateLimitPolicy p) = (Inr (Some obj'), [])"
proof -
  obtain obj' where r: "ReconcileResource cl rlpSpecMutator (buildDesiredRateLimitPolicy p) =
      (Inr (Some obj'), if planAgrees obj (buildDesiredRateLimitPolicy p) then [] else [UpdateCall obj'])"
    and a: "planAgrees obj' (buildDesiredRateLimitPolicy p)"
    and n: "ReconcileResource (cl\<lparr>cl_Get := \<lambda>_. Inr obj'\<rparr>) rlpSpecMutator (buildDesiredRateLimitPolicy p) = (Inr (Some obj'), [])"
    using plan_mutator.settles [OF assms] by blast
  from a have "map_of (rlp_Limits (rlp_Bare (rlp_Spec (ro_Policy obj')))) = map_of (PlanPolicy_ToRateLimits p)"
    by (simp add: planAgrees_def buildDesiredRateLimitPolicy_def emptyProper_def deepEqualProper_def deepEqualLimits_iff)
  with r n show ?thesis by blast
qed

text \<open>
  The first reconciliation of a plan policy creates the rate limit policy and panics: what the client
  returns for a created object is nil.
\<close>

lemma plan_creation_panics:
  assumes "pe_SetOwner pe (buildDesiredRateLimitPolicy p) = Inr desired" "cl_Get (pe_Client pe) desired = Inl NotFoundError"
    "\<not> cl_Tagged (pe_Client pe) desired" "cl_Call (pe_Client pe) (CreateCall desired) = None" "pe_AddDataTo pe (BuildCelExpression p) = None" "\<not> pp_Deleted p"
  shows "PlanPolicyReconciler_Reconcile pe (Inr p) = Panic ''interface conversion: interface is nil''"
  using assms by (simp add: PlanPolicyReconciler_Reconcile_def plan_reconcileSpec_def ReconcileResource_def CreateResource_def resourceCall_def)

text \<open>A conflict when the status is written asks for a requeue, but the caller only looks at the delay.\<close>

lemma plan_conflict_not_requeued:
  assumes "plan_reconcileSpec pe p = Return (newStatus, None, calls)" "pe_UpdateStatus pe newStatus = Some (ConflictError m)"
    "pp_Generation p \<noteq> pp_ObservedGeneration p" "\<not> pp_Deleted p"
  shows "fst (plan_reconcileStatus pe p newStatus) = \<lparr>res_Requeue = True, res_RequeueAfter = 0\<rparr> \<and>
    PlanPolicyReconciler_Reconcile pe (Inr p) = Return (no_result, None, calls @ [StatusCall newStatus])"
  using assms by (simp add: PlanPolicyReconciler_Reconcile_def plan_reconcileStatus_def no_result_def)

text \<open>A plan policy whose rate limit policy is not yet enforced is reported as not accepted.\<close>

lemma plan_unenforced_not_accepted:
  assumes laws: "cond_laws (pe_SetCond pe) (pe_RemoveCond pe) findCond"
  shows "map_option cond_Status (findCond (snd (calculateErrorStatus pe p err)) PolicyConditionAccepted) = Some ''False''"
proof -
  have "PolicyConditionAccepted \<noteq> PolicyConditionEnforced" by code_simp
  then show ?thesis using laws by (simp add: calculateErrorStatus_def cond_laws_def AcceptedCondition_def Let_def)
qed

end
