(* ===== verification/Kuadrant_Status.thy ===== *)
theory Kuadrant_Status
  imports Gateway_Clusters
begin

text \<open>
  The status of the Kuadrant resource: whether the operator is ready, and whether the components are
  reached by mTLS (\<open>internal/controller/kuadrant_status_updater.go\<close>, \<open>KuadrantStatus.Equals\<close> of
  \<open>api/v1beta1/kuadrant_types.go\<close>, \<open>FindAuthorinoStatusCondition\<close> of \<open>internal/authorino/conditions.go\<close>).
  Metrics and logs are left out; \<open>setCond\<close>, \<open>findCond\<close> and \<open>marshal\<close> are helpers of libraries.
\<close>

record status_updater =
  su_GatewayAPI :: bool
  su_GatewayProvider :: bool
  su_Limitador :: bool
  su_Authorino :: bool

record KuadrantStatus =
  kst_ObservedGeneration :: int
  kst_Conditions :: "Condition list"
  kst_MtlsAuthorino :: "bool option"
  kst_MtlsLimitador :: "bool option"

definition KuadrantStatus_Equals :: "(Condition list \<Rightarrow> string) \<Rightarrow> KuadrantStatus \<Rightarrow> KuadrantStatus \<Rightarrow> bool" where
  "KuadrantStatus_Equals marshal r other \<longleftrightarrow>
     kst_ObservedGeneration r = kst_ObservedGeneration other \<and> kst_MtlsAuthorino r = kst_MtlsAuthorino other \<and>
     kst_MtlsLimitador r = kst_MtlsLimitador other \<and> ConditionMarshal marshal (kst_Conditions r) = ConditionMarshal marshal (kst_Conditions other)"

definition mtlsAuthorino :: "kuadrant_spec \<Rightarrow> 's workflow_state \<Rightarrow> bool option" where
  "mtlsAuthorino spec ws =
     (case st_EffectiveAuthPolicies ws of None \<Rightarrow> Some False
      | Some m \<Rightarrow> Some (IsAuthorinoEnabled (kds_MTLS spec) \<and> length m > 0))"

definition mtlsLimitador :: "kuadrant_spec \<Rightarrow> 's workflow_state \<Rightarrow> bool option" where
  "mtlsLimitador spec ws =
     (case st_EffectiveRateLimitPolicies ws of None \<Rightarrow> Some False
      | Some m \<Rightarrow> Some (IsLimitadorEnabled (kds_MTLS spec) \<and> length m > 0))"

definition Updater_isMissingDependency :: "status_updater \<Rightarrow> policy_error option" where
  "Updater_isMissingDependency r =
     (let missing = (if \<not> su_GatewayAPI r then [''Gateway API''] else []) @
            (if \<not> su_GatewayProvider r then [''Gateway API provider (istio / envoy gateway)''] else []) @
            (if \<not> su_Authorino r then [''Authorino Operator''] else []) @
            (if \<not> su_Limitador r then [''Limitador Operator''] else [])
      in if missing \<noteq> [] then Some (ErrDependencyNotInstalled missing) else None)"

definition FindAuthorinoStatusCondition :: "Condition list \<Rightarrow> string \<Rightarrow> Condition option" where
  "FindAuthorinoStatusCondition conditions conditionType = List.find (\<lambda>c. cond_Type c = conditionType) conditions"

text \<open>What keeps a component from being ready.\<close>

definition notReady :: "Condition option \<Rightarrow> string option" where
  "notReady cond =
     (case cond of None \<Rightarrow> Some ''Ready condition not found''
      | Some c \<Rightarrow> if cond_Status c \<noteq> ''True'' then Some (cond_Message c) else None)"

definition checkLimitadorReady :: "find_cond \<Rightarrow> enforcement_view \<Rightarrow> enforcement_state \<Rightarrow> string option" where
  "checkLimitadorReady findCond ev es =
     (case GetLimitadorFromTopology ev es of None \<Rightarrow> Some ''limitador resource not in topology''
      | Some limitadorObj \<Rightarrow> notReady (findCond (to_Conditions limitadorObj) ''Ready''))"

definition checkAuthorinoAvailable :: "enforcement_view \<Rightarrow> enforcement_state \<Rightarrow> string option" where
  "checkAuthorinoAvailable ev es =
     (case GetAuthorinoFromTopology ev es of None \<Rightarrow> Some ''authorino resource not in topology''
      | Some authorinoObj \<Rightarrow> notReady (FindAuthorinoStatusCondition (to_Conditions authorinoObj) ''Ready''))"

definition readyCondition :: "(string \<Rightarrow> string \<Rightarrow> string) \<Rightarrow> status_updater \<Rightarrow> find_cond \<Rightarrow> enforcement_view \<Rightarrow> enforcement_state \<Rightarrow> Condition" where
  "readyCondition nn r findCond ev es =
     (let cond = \<lparr>cond_Type = ''Ready'', cond_Status = ''True'', cond_Reason = ''Ready'', cond_Message = ''Kuadrant is ready''\<rparr>
      in case Updater_isMissingDependency r of
           Some err \<Rightarrow> cond\<lparr>cond_Status := ''False'', cond_Reason := Policy_Reason err, cond_Message := Policy_Error nn err\<rparr>
         | None \<Rightarrow>
           (case checkLimitadorReady findCond ev es of
              Some reason \<Rightarrow> cond\<lparr>cond_Status := ''False'', cond_Reason := ''LimitadorNotReady'', cond_Message := reason\<rparr>
            | None \<Rightarrow>
              (case checkAuthorinoAvailable ev es of
                 Some reason \<Rightarrow> cond\<lparr>cond_Status := ''False'', cond_Reason := ''AuthorinoNotReady'', cond_Message := reason\<rparr>
               | None \<Rightarrow> cond)))"

definition calculateStatus ::
  "(string \<Rightarrow> string \<Rightarrow> string) \<Rightarrow> set_cond \<Rightarrow> find_cond \<Rightarrow> status_updater \<Rightarrow> enforcement_view \<Rightarrow> enforcement_state \<Rightarrow> 's workflow_state \<Rightarrow>
   kuadrant_spec \<Rightarrow> KuadrantStatus \<Rightarrow> KuadrantStatus" where
  "calculateStatus nn setCond findCond r ev es ws spec old =
     \<lparr>kst_ObservedGeneration = kst_ObservedGeneration old, kst_Conditions = setCond (kst_Conditions old) (readyCondition nn r findCond ev es),
      kst_MtlsAuthorino = mtlsAuthorino spec ws, kst_MtlsLimitador = mtlsLimitador spec ws\<rparr>"

text \<open>
  The status that is written, if any; errors of the call are ignored.  \<open>status\<close> and \<open>generation\<close> are
  those of the Kuadrant resource.
\<close>

definition KuadrantStatusUpdater_Reconcile ::
  "(Condition list \<Rightarrow> string) \<Rightarrow> (string \<Rightarrow> string \<Rightarrow> string) \<Rightarrow> set_cond \<Rightarrow> find_cond \<Rightarrow> status_updater \<Rightarrow> enforcement_view \<Rightarrow> enforcement_state \<Rightarrow>
   's workflow_state \<Rightarrow> (Kuadrant \<Rightarrow> kuadrant_spec) \<Rightarrow> (Kuadrant \<Rightarrow> int) \<Rightarrow> (Kuadrant \<Rightarrow> KuadrantStatus) \<Rightarrow> (Kuadrant \<times> KuadrantStatus) option" where
  "KuadrantStatusUpdater_Reconcile marshal nn setCond findCond r ev es ws spec generation status =
     (case GetKuadrantFromTopology ev es of None \<Rightarrow> None
      | Some kObj \<Rightarrow>
        (let newStatus = calculateStatus nn setCond findCond r ev es ws (spec kObj) (status kObj)
         in if KuadrantStatus_Equals marshal (status kObj) newStatus \<and> generation kObj = kst_ObservedGeneration (status kObj) then None
            else Some (kObj, newStatus\<lparr>kst_ObservedGeneration := generation kObj\<rparr>)))"

section \<open>Ready means ready\<close>

text \<open>
  The operator is reported as ready exactly when all dependencies are installed and both Limitador and
  Authorino are in the topology with a true condition \<open>Ready\<close>.
\<close>

theorem kuadrant_ready_iff:
  "cond_Status (readyCondition nn r findCond ev es) = ''True'' \<longleftrightarrow>
     su_GatewayAPI r \<and> su_GatewayProvider r \<and> su_Limitador r \<and> su_Authorino r \<and>
     (\<exists>l c. GetLimitadorFromTopology ev es = Some l \<and> findCond (to_Conditions l) ''Ready'' = Some c \<and> cond_Status c = ''True'') \<and>
     (\<exists>a c. GetAuthorinoFromTopology ev es = Some a \<and> FindAuthorinoStatusCondition (to_Conditions a) ''Ready'' = Some c \<and> cond_Status c = ''True'')"
proof -
  have deps: "Updater_isMissingDependency r = None \<longleftrightarrow> su_GatewayAPI r \<and> su_GatewayProvider r \<and> su_Limitador r \<and> su_Authorino r"
    by (auto simp: Updater_isMissingDependency_def Let_def)
  have limitador: "checkLimitadorReady findCond ev es = None \<longleftrightarrow>
      (\<exists>l c. GetLimitadorFromTopology ev es = Some l \<and> findCond (to_Conditions l) ''Ready'' = Some c \<and> cond_Status c = ''True'')"
    by (auto simp: checkLimitadorReady_def notReady_def split: option.splits)
  have authorino: "checkAuthorinoAvailable ev es = None \<longleftrightarrow>
      (\<exists>a c. GetAuthorinoFromTopology ev es = Some a \<and> FindAuthorinoStatusCondition (to_Conditions a) ''Ready'' = Some c \<and> cond_Status c = ''True'')"
    by (auto simp: checkAuthorinoAvailable_def notReady_def split: option.splits)
  have "cond_Status (readyCondition nn r findCond ev es) = ''True'' \<longleftrightarrow>
      Updater_isMissingDependency r = None \<and> checkLimitadorReady findCond ev es = None \<and> checkAuthorinoAvailable ev es = None"
    by (simp add: readyCondition_def Let_def split: option.split)
  then show ?thesis unfolding deps limitador authorino by blast
qed

text \<open>
  The status of the resource settles: when what was written is read back, the next reconciliation
  writes nothing, as long as \<open>setCond\<close> leaves a condition alone that is already there.
\<close>

theorem kuadrant_status_settles:
  assumes written: "KuadrantStatusUpdater_Reconcile marshal nn setCond findCond r ev es ws spec generation status = Some (k, s)"
    and idem: "\<And>cs c. setCond (setCond cs c) c = setCond cs c"
  shows "kst_ObservedGeneration s = generation k \<and>
    KuadrantStatusUpdater_Reconcile marshal nn setCond findCond r ev es ws spec generation (status(k := s)) = None"
proof -
  obtain kObj where k: "GetKuadrantFromTopology ev es = Some kObj" using written by (auto simp: KuadrantStatusUpdater_Reconcile_def split: option.splits)
  have s: "kObj = k" "s = (calculateStatus nn setCond findCond r ev es ws (spec k) (status k))\<lparr>kst_ObservedGeneration := generation k\<rparr>"
    using written by (auto simp: KuadrantStatusUpdater_Reconcile_def k Let_def split: if_splits)
  then have "calculateStatus nn setCond findCond r ev es ws (spec k) s = s" by (simp add: calculateStatus_def idem)
  then show ?thesis using k s by (simp add: KuadrantStatusUpdater_Reconcile_def KuadrantStatus_Equals_def)
qed

text \<open>Token rate limits use Limitador too, but the status does not look at them.\<close>

lemma mtls_ignores_token_limits:
  assumes "st_EffectiveRateLimitPolicies ws = None \<or> st_EffectiveRateLimitPolicies ws = Some []"
  shows "mtlsLimitador spec (ws\<lparr>st_EffectiveTokenRateLimitPolicies := m\<rparr>) = Some False"
  using assms by (auto simp: mtlsLimitador_def)

end
