(* ===== verification/Component_Mtls.thy ===== *)
theory Component_Mtls
  imports Kuadrant_Status Resource_Reconciler
begin

text \<open>
  mTLS between the gateways of Istio and the components: the sidecar label on the deployments of
  Authorino and Limitador (\<open>authorino_istio_integration_reconciler.go\<close>,
  \<open>limitador_istio_integration_reconciler.go\<close>) and the peer authentication
  (\<open>istio_peerauthentication_reconciler.go\<close>).  The clusters of the gateways decide on their own whether to
  speak mTLS (theory \<open>Gateway_Clusters\<close>), so the two sides have to agree.
\<close>

section \<open>Sidecars\<close>

text \<open>Of a deployment: its key, the labels of its pods, and the rest.\<close>

record 'r deployment =
  dp_Namespace :: string
  dp_Name :: string
  dp_Labels :: "(string, string) gomap option"
  dp_Rest :: 'r

definition FormatBool :: "bool \<Rightarrow> string" where "FormatBool b = (if b then ''true'' else ''false'')"

definition sidecarLabels :: "bool \<Rightarrow> (string, string) gomap" where
  "sidecarLabels allowMTLS = [(''sidecar.istio.io/inject'', FormatBool allowMTLS), (''kuadrant.io/managed'', ''true'')]"

text \<open>The deployment that the client reads is updated when the labels change.\<close>

definition labelDeployment ::
  "string \<Rightarrow> api_error + 'r deployment \<Rightarrow> ('r deployment \<Rightarrow> api_error option) \<Rightarrow> bool \<Rightarrow> string option \<times> 'r deployment list" where
  "labelDeployment component got update allowMTLS =
     (case got of
        Inl err \<Rightarrow> (if err = NotFoundError then None else Some (''could not get '' @ component @ '' deployment '' @ api_error_text err), [])
      | Inr deployment \<Rightarrow>
        (let (labels, updated) = MergeMapStringString (Some (dp_Labels deployment)) (sidecarLabels allowMTLS);
             deployment = deployment\<lparr>dp_Labels := Deref labels None\<rparr>
         in if updated then (map_option api_error_text (update deployment), [deployment]) else (None, [])))"

text \<open>
  What the reconcilers read: the deployments below Limitador in the topology, the
  deployments of the cluster by their keys and the namespace of the Kuadrant resource.
\<close>

record 'r mtls_env =
  me_Deployments :: "topo_object \<Rightarrow> 'r deployment list"
  me_Get :: "string \<times> string \<Rightarrow> api_error + 'r deployment"
  me_Update :: "'r deployment \<Rightarrow> api_error option"
  me_Namespace :: "Kuadrant \<Rightarrow> string"

definition LimitadorIstioIntegrationReconciler_Run ::
  "'r mtls_env \<Rightarrow> cluster_topology \<Rightarrow> enforcement_state \<Rightarrow> 's workflow_state \<Rightarrow> string option \<times> 'r deployment list" where
  "LimitadorIstioIntegrationReconciler_Run me ct es ws =
     (case GetKuadrantFromTopology (ct_View ct) es of None \<Rightarrow> (None, [])
      | Some kObj \<Rightarrow>
        (case st_EffectiveRateLimitPolicies ws of None \<Rightarrow> (Some ''missing rate limit effective policies stored in the reconciliation state'', [])
         | Some effectiveRateLimitPolicies \<Rightarrow>
           (case filter (\<lambda>o'. to_GroupKind o' = LimitadorGroupKind) (ev_KuadrantChildren (ct_View ct) kObj) of [] \<Rightarrow> (None, [])
            | limitador # _ \<Rightarrow>
              (case me_Deployments me limitador of [] \<Rightarrow> (None, [])
               | deployment # _ \<Rightarrow>
                 labelDeployment ''limitador'' (me_Get me (dp_Namespace deployment, dp_Name deployment)) (me_Update me)
                   (IsLimitadorEnabled (kds_MTLS (ct_KuadrantSpec ct kObj)) \<and> length effectiveRateLimitPolicies > 0)))))"

text \<open>Effective auth policies that were not stored are computed.\<close>

definition AuthorinoIstioIntegrationReconciler_Run ::
  "'r mtls_env \<Rightarrow> cluster_topology \<Rightarrow> find_cond \<Rightarrow> (string \<Rightarrow> string \<Rightarrow> string) \<Rightarrow> locator_fun \<Rightarrow> 's topo_view \<Rightarrow> enforcement_state \<Rightarrow> 's workflow_state \<Rightarrow>
   (string option \<times> 'r deployment list) go_result" where
  "AuthorinoIstioIntegrationReconciler_Run me ct findCond nn locator topo es ws =
     (case GetKuadrantFromTopology (ct_View ct) es of None \<Rightarrow> Return (None, [])
      | Some kObj \<Rightarrow>
        gbind (case st_EffectiveAuthPolicies ws of Some m \<Rightarrow> Return m | None \<Rightarrow> CalculateEffectiveAuthPolicies findCond nn locator topo ws) (\<lambda>effectiveAuthPolicies.
          Return (labelDeployment ''authorino'' (me_Get me (me_Namespace me kObj, ''authorino'')) (me_Update me)
            (IsAuthorinoEnabled (kds_MTLS (ct_KuadrantSpec ct kObj)) \<and> length effectiveAuthPolicies > 0))))"

section \<open>Peer authentication\<close>

record peer_authentication =
  pa_Namespace :: string
  pa_Name :: string
  pa_Labels :: "(string, string) gomap"
  pa_Mode :: string
  pa_Selector :: "(string, string) gomap"
  pa_Tagged :: bool

definition desiredPeerAuthentication :: "string \<Rightarrow> bool \<Rightarrow> peer_authentication" where
  "desiredPeerAuthentication namespace allowMTLS =
     \<lparr>pa_Namespace = namespace, pa_Name = ''default'', pa_Labels = KuadrantManagedObjectLabels, pa_Mode = ''STRICT'',
      pa_Selector = KuadrantManagedObjectLabels, pa_Tagged = \<not> allowMTLS\<rparr>"

definition PeerAuthenticationReconciler_Run ::
  "peer_authentication resource_client \<Rightarrow> (peer_authentication \<Rightarrow> string + peer_authentication) \<Rightarrow> (Kuadrant \<Rightarrow> string) \<Rightarrow> cluster_topology \<Rightarrow>
   enforcement_state \<Rightarrow> 's workflow_state \<Rightarrow> string option \<times> peer_authentication resource_call list" where
  "PeerAuthenticationReconciler_Run cl setOwner namespace ct es ws =
     (case GetKuadrantFromTopology (ct_View ct) es of None \<Rightarrow> (None, [])
      | Some kObj \<Rightarrow>
        (case (st_EffectiveAuthPolicies ws, st_EffectiveRateLimitPolicies ws) of
           (None, _) \<Rightarrow> (Some ''missing auth effective policies stored in the reconciliation state'', [])
         | (_, None) \<Rightarrow> (Some ''missing rate limit effective policies stored in the reconciliation state'', [])
         | (Some auths, Some rates) \<Rightarrow>
           (let mtls = kds_MTLS (ct_KuadrantSpec ct kObj);
                allowMTLS = (IsLimitadorEnabled mtls \<and> length rates > 0 \<or> IsAuthorinoEnabled mtls \<and> length auths > 0)
            in case setOwner (desiredPeerAuthentication (namespace kObj) allowMTLS) of Inl err \<Rightarrow> (Some err, [])
               | Inr peerAuth \<Rightarrow>
                 (let (r, calls) = ReconcileResource cl CreateOnlyMutator peerAuth
                  in (case r of Inl err \<Rightarrow> Some (api_error_text err) | Inr _ \<Rightarrow> None, calls)))))"

section \<open>Both sides agree\<close>

text \<open>What a run leaves at the deployment: the label is the decision, other labels are kept.\<close>

lemma labelDeployment_labels:
  assumes "\<And>d. update d = None"
  shows "\<exists>d'. labelDeployment component (Inr d) update allowMTLS = (None, if map_of (Deref (dp_Labels d') []) = map_of (Deref (dp_Labels d) []) then [] else [d']) \<and>
    map_of (Deref (dp_Labels d') []) = map_of (Deref (dp_Labels d) []) ++ map_of (sidecarLabels allowMTLS)"
proof -
  have "gm_wf (sidecarLabels allowMTLS)" by (simp add: sidecarLabels_def)
  from MergeMapStringString_spec [OF this, of "dp_Labels d"] obtain m modified where
    m: "MergeMapStringString (Some (dp_Labels d)) (sidecarLabels allowMTLS) = (Some (Some m), modified)"
    "map_of m = map_of (Deref (dp_Labels d) []) ++ map_of (sidecarLabels allowMTLS)" "modified \<longleftrightarrow> map_of m \<noteq> map_of (Deref (dp_Labels d) [])"
    by blast
  then show ?thesis using assms by (intro exI [of _ "d\<lparr>dp_Labels := Some m\<rparr>"]) (simp add: labelDeployment_def Deref_def)
qed

lemma pathGateways_empty: "pathGateways ct names (Some []) = []"
  by (simp add: pathGateways_def Deref_def List.map_filter_def)

lemma authGateways_policies: "authGateways ct names effective \<noteq> [] \<Longrightarrow> length effective > 0"
  by (cases effective) (simp_all add: authGateways_def pathGateways_empty)


text \<open>
  For Limitador they need not: clusters are also built for token limits, which the label does not count.
  With token limits only the gateways speak mTLS to a Limitador without sidecar.
\<close>

lemma limitador_mtls_token_limits:
  assumes "GetKuadrantFromTopology (ct_View ct) es = Some kObj" "st_EffectiveRateLimitPolicies ws = Some []"
    "filter (\<lambda>o'. to_GroupKind o' = LimitadorGroupKind) (ev_KuadrantChildren (ct_View ct) kObj) = limitador # rest" "me_Deployments me limitador = dp # dps"
    "me_Get me (dp_Namespace dp, dp_Name dp) = Inr d" "\<And>d. me_Update me d = None" "map_of (Deref (dp_Labels d) []) ''sidecar.istio.io/inject'' = None"
  shows "(\<exists>d'. LimitadorIstioIntegrationReconciler_Run me ct es ws = (None, [d']) \<and>
      map_of (Deref (dp_Labels d') []) ''sidecar.istio.io/inject'' = Some ''false'') \<and>
    rateLimitGateways ct names ws = uniqByLocator ct [] (pathGateways ct names (st_EffectiveTokenRateLimitPolicies ws))"
proof -
  obtain d' where d': "labelDeployment ''limitador'' (Inr d) (me_Update me) False = (None, if map_of (Deref (dp_Labels d') []) = map_of (Deref (dp_Labels d) []) then [] else [d'])"
    and labels: "map_of (Deref (dp_Labels d') []) = map_of (Deref (dp_Labels d) []) ++ map_of (sidecarLabels False)"
    using labelDeployment_labels [of "me_Update me", OF assms(6)] by blast
  from labels have inject: "map_of (Deref (dp_Labels d') []) ''sidecar.istio.io/inject'' = Some ''false''" by (simp add: sidecarLabels_def FormatBool_def)
  with assms(7) have "map_of (Deref (dp_Labels d') []) \<noteq> map_of (Deref (dp_Labels d) [])" by auto
  with d' inject show ?thesis
    using assms(1-5) by (simp add: LimitadorIstioIntegrationReconciler_Run_def rateLimitGateways_def pathGateways_empty)
qed

definition ex_mtls_env :: "unit mtls_env" where
  "ex_mtls_env = \<lparr>me_Deployments = (\<lambda>_. []), me_Get = (\<lambda>(ns, name). Inr \<lparr>dp_Namespace = ns, dp_Name = name, dp_Labels = Some [(''app'', ''authorino'')], dp_Rest = ()\<rparr>),
     me_Update = (\<lambda>_. None), me_Namespace = (\<lambda>_. ''ns'')\<rparr>"


end
