(* ===== verification/Auth_Configs.thy ===== *)
theory Auth_Configs
  imports Managed_Objects Extension_Registry
begin

text \<open>
  The AuthConfig resources of Authorino: one for every path with an effective auth policy
  (\<open>internal/controller/authconfigs_reconciler.go\<close>, \<open>internal/authorino/utils.go\<close>).

  The specifications of Authorino (authentication, metadata and so on) are values of one type
  \<open>'s\<close>, as in \<open>Auth_Policy\<close>.  A nil map and an empty one are the same, as they are on the wire.
  The laws of \<open>managed_kind\<close> hold of this reconciler too, so its runs converge in the same sense as
  those of the gateway clusters.
\<close>

section \<open>Data\<close>

definition AuthConfigHTTPRouteRuleAnnotation :: string where
  "AuthConfigHTTPRouteRuleAnnotation = groupKindString (''gateway.networking.k8s.io'', ''HTTPRouteRule'')"

definition AuthConfigGRPCRouteRuleAnnotation :: string where
  "AuthConfigGRPCRouteRuleAnnotation = groupKindString (''gateway.networking.k8s.io'', ''GRPCRouteRule'')"

record 's AuthConfigSpec = "'s AuthConfig" +
  ac_Hosts :: "string list"
  ac_NamedPatterns :: "(string, 's) gomap"
  ac_Authentication :: "(string, 's) gomap"
  ac_Metadata :: "(string, 's) gomap"
  ac_Authorization :: "(string, 's) gomap"
  ac_Callbacks :: "(string, 's) gomap"

type_synonym 's AuthConfigObject = "'s AuthConfigSpec managed_object"

definition AnnotationOf :: "('s, 'z) managed_object_scheme \<Rightarrow> string \<Rightarrow> string" where
  "AnnotationOf o' k = Deref (map_of (Deref (obj_Annotations o') []) k) []"

text \<open>The links of the topology from a route rule, given by its locator, to an AuthConfig.\<close>

definition LinkHTTPRouteRuleToAuthConfig :: "string \<Rightarrow> 's AuthConfigObject \<Rightarrow> bool" where
  "LinkHTTPRouteRuleToAuthConfig locator authConfig \<longleftrightarrow>
     obj_Annotations authConfig \<noteq> None \<and> AnnotationOf authConfig AuthConfigHTTPRouteRuleAnnotation = locator"

definition LinkGRPCRouteRuleToAuthConfig :: "string \<Rightarrow> 's AuthConfigObject \<Rightarrow> bool" where
  "LinkGRPCRouteRuleToAuthConfig locator authConfig \<longleftrightarrow>
     obj_Annotations authConfig \<noteq> None \<and> AnnotationOf authConfig AuthConfigGRPCRouteRuleAnnotation = locator"

section \<open>Owners\<close>

definition KuadrantGroupKind :: "string \<times> string" where "KuadrantGroupKind = (''kuadrant.io'', ''Kuadrant'')"

text \<open>\<open>uid\<close> is the UID of the resource.\<close>

definition BuildOwnerReference :: "(Kuadrant \<Rightarrow> string) \<Rightarrow> Kuadrant option \<Rightarrow> OwnerReference list" where
  "BuildOwnerReference uid k =
     (case k of None \<Rightarrow> []
      | Some k \<Rightarrow> [\<lparr>owner_APIVersion = ''kuadrant.io/v1beta1'', owner_Kind = snd KuadrantGroupKind, owner_Name = kd_Name k,
          owner_UID = uid k, owner_BlockOwnerDeletion = Some True, owner_Controller = Some True\<rparr>])"

definition isKuadrantOwnerReference :: "(string \<Rightarrow> string option) \<Rightarrow> OwnerReference \<Rightarrow> bool" where
  "isKuadrantOwnerReference parseGroup ref =
     (case parseGroup (owner_APIVersion ref) of None \<Rightarrow> False
      | Some grp \<Rightarrow> grp = fst KuadrantGroupKind \<and> owner_Kind ref = snd KuadrantGroupKind)"

definition kuadrantOwnerReferences :: "(string \<Rightarrow> string option) \<Rightarrow> OwnerReference list \<Rightarrow> OwnerReference list" where
  "kuadrantOwnerReferences parseGroup refs = filter (isKuadrantOwnerReference parseGroup) refs"

definition equalKuadrantOwnerReferences :: "(string \<Rightarrow> string option) \<Rightarrow> OwnerReference list \<Rightarrow> OwnerReference list \<Rightarrow> bool" where
  "equalKuadrantOwnerReferences parseGroup existing desired =
     (let existingOurs = kuadrantOwnerReferences parseGroup existing;
          desiredOurs = kuadrantOwnerReferences parseGroup desired
      in if length existingOurs \<noteq> length desiredOurs then False
         else list_all (\<lambda>d. list_ex (\<lambda>e. e = d) existingOurs) desiredOurs)"

definition upsertKuadrantOwnerReference ::
  "(string \<Rightarrow> string option) \<Rightarrow> OwnerReference list \<Rightarrow> OwnerReference list \<Rightarrow> OwnerReference list" where
  "upsertKuadrantOwnerReference parseGroup existing desired =
     (let preserved = filter (\<lambda>ref. \<not> isKuadrantOwnerReference parseGroup ref) existing
      in case List.find (isKuadrantOwnerReference parseGroup) desired of
           Some ref \<Rightarrow> preserved @ [ref]
         | None \<Rightarrow> preserved)"

section \<open>The desired AuthConfig\<close>

definition authConfigAnnotationKeyForRouteType :: "RouteType \<Rightarrow> string" where
  "authConfigAnnotationKeyForRouteType routeType =
     (case routeType of RouteTypeHTTP \<Rightarrow> AuthConfigHTTPRouteRuleAnnotation
      | RouteTypeGRPC \<Rightarrow> AuthConfigGRPCRouteRuleAnnotation
      | RouteTypeUnknown \<Rightarrow> [])"

definition authorinoSpecsFromConfigs :: "('u \<Rightarrow> 't) \<Rightarrow> (string, 'u) gomap \<Rightarrow> (string, 't) gomap option" where
  "authorinoSpecsFromConfigs extractAuthorinoSpec configs =
     (let specs = map (\<lambda>(name, config). (name, extractAuthorinoSpec config)) configs
      in if length specs = 0 then None else Some specs)"

definition specsOf :: "(string, 's MergeableAuthRule) gomap \<Rightarrow> (string, 's) gomap" where
  "specsOf m = gm_map_values (\<lambda>v _. mar_Spec v) m"

definition desiredResponse :: "'s MergeableResponseSpec \<Rightarrow> 's ResponseSpec" where
  "desiredResponse response =
     \<lparr>rs_Unauthenticated = map_option mar_Spec (resp_Unauthenticated response),
      rs_Unauthorized = map_option mar_Spec (resp_Unauthorized response),
      rs_Headers = authorinoSpecsFromConfigs mar_Spec (succ_Headers (resp_Success response)),
      rs_DynamicMetadata = authorinoSpecsFromConfigs mar_Spec (succ_DynamicMetadata (resp_Success response))\<rparr>"

text \<open>
  What the reconciler is given from outside: \<open>ae_Inject\<close> is the text map propagator of
  OpenTelemetry in the span of the AuthConfig of a name, \<open>ae_Json\<close> the constructor of a response with JSON
  properties, \<open>ae_Stores\<close> and \<open>ae_Mutators\<close> the registered data mutators (the only mutators
  of AuthConfigs the program registers), \<open>ae_Locator\<close> the locators of the topology.
\<close>

record ('s, 'ast, 'val) auth_env =
  ae_Objects :: "'s AuthConfigSpec object_env"
  ae_Inject :: "string \<Rightarrow> (string, string) gomap \<Rightarrow> (string, string) gomap"
  ae_Json :: "(string, string) gomap \<Rightarrow> 's"
  ae_RefLocator :: "PolicyTargetReference \<Rightarrow> string"
  ae_Stores :: "nat \<Rightarrow> ('ast, 'val) RegisteredDataStore"
  ae_Mutators :: "nat list"
  ae_Locator :: "targetable \<Rightarrow> string"
  ae_Sha :: "string \<Rightarrow> string"
  ae_ParseGroup :: "string \<Rightarrow> string option"
  ae_UID :: "Kuadrant \<Rightarrow> string"

definition authMutators :: "('s, 'ast, 'val) auth_env \<Rightarrow>
    ('s AuthConfigSpec \<Rightarrow> PolicyTargetReference list \<Rightarrow> string + 's AuthConfigSpec) mutator list" where
  "authMutators ae = map RegisteredDataMutator (ae_Mutators ae)"

text \<open>The specification before the mutators, which are only called when there is an auth scheme.\<close>

definition policySpec :: "'s AuthPolicySpecProper \<Rightarrow> string \<Rightarrow> 's AuthConfigSpec" where
  "policySpec spec name =
     (let authConfig = \<lparr>ac_Response = None, ac_Hosts = [name], ac_NamedPatterns = specsOf (ap_NamedPatterns spec),
            ac_Authentication = [], ac_Metadata = [], ac_Authorization = [], ac_Callbacks = []\<rparr>
      in case ap_AuthScheme spec of None \<Rightarrow> authConfig
         | Some authScheme \<Rightarrow>
           authConfig\<lparr>ac_Authentication := specsOf (auth_Authentication authScheme),
             ac_Metadata := specsOf (auth_Metadata authScheme),
             ac_Authorization := specsOf (auth_Authorization authScheme),
             ac_Response := map_option desiredResponse (auth_Response authScheme),
             ac_Callbacks := specsOf (auth_Callbacks authScheme)\<rparr>)"

definition desiredSpec :: "('s, 'ast, 'val) auth_env \<Rightarrow> 's AuthPolicy EffectivePolicy \<Rightarrow> string \<Rightarrow> 's AuthConfigSpec" where
  "desiredSpec ae effectivePolicy name =
     (let spec = AuthPolicy_Proper (ap_Spec (ep_Spec effectivePolicy));
          authConfig = policySpec spec name
      in if ap_AuthScheme spec = None then authConfig
         else case ApplyAuthConfigMutators (ae_Json ae) (ae_RefLocator ae) (ae_Stores ae) (authMutators ae)
                     (ep_Path effectivePolicy) authConfig of
                Inl err \<Rightarrow> authConfig
              | Inr mutated \<Rightarrow> mutated)"

definition buildDesiredAuthConfig ::
  "('s, 'ast, 'val) auth_env \<Rightarrow> 's AuthPolicy EffectivePolicy \<Rightarrow> string \<Rightarrow> string \<Rightarrow> OwnerReference list \<Rightarrow> string \<Rightarrow> string \<Rightarrow>
   's AuthConfigObject" where
  "buildDesiredAuthConfig ae effectivePolicy name namespace kuadrantCROwnerReference annotationKey routeRuleLocator =
     \<lparr>obj_Group = fst AuthConfigGroupKind, obj_Kind = snd AuthConfigGroupKind, obj_Namespace = namespace, obj_Name = name,
      obj_Annotations = Some (ae_Inject ae name [(annotationKey, routeRuleLocator)]),
      obj_OwnerReferences = kuadrantCROwnerReference, mo_Labels = AuthObjectLabels,
      mo_Spec = desiredSpec ae effectivePolicy name\<rparr>"

section \<open>Comparison and update\<close>

text \<open>
  \<open>reflect.DeepEqual\<close> on specifications: maps are compared as maps.
\<close>

definition deepEqualMaps :: "(string, 'v) gomap \<Rightarrow> (string, 'v) gomap \<Rightarrow> bool" where
  "deepEqualMaps m m' \<longleftrightarrow> length m = length m' \<and> list_all (\<lambda>(k, v). map_of m' k = Some v) m"

definition deepEqualResponses :: "'s ResponseSpec option \<Rightarrow> 's ResponseSpec option \<Rightarrow> bool" where
  "deepEqualResponses a b =
     (case (a, b) of (None, None) \<Rightarrow> True
      | (Some a, Some b) \<Rightarrow> rs_Unauthenticated a = rs_Unauthenticated b \<and> rs_Unauthorized a = rs_Unauthorized b \<and>
          deepEqualMaps (Deref (rs_Headers a) []) (Deref (rs_Headers b) []) \<and>
          deepEqualMaps (Deref (rs_DynamicMetadata a) []) (Deref (rs_DynamicMetadata b) [])
      | _ \<Rightarrow> False)"

definition deepEqualSpecs :: "'s AuthConfigSpec \<Rightarrow> 's AuthConfigSpec \<Rightarrow> bool" where
  "deepEqualSpecs a b \<longleftrightarrow> ac_Hosts a = ac_Hosts b \<and> deepEqualMaps (ac_NamedPatterns a) (ac_NamedPatterns b) \<and>
     deepEqualMaps (ac_Authentication a) (ac_Authentication b) \<and> deepEqualMaps (ac_Metadata a) (ac_Metadata b) \<and>
     deepEqualMaps (ac_Authorization a) (ac_Authorization b) \<and> deepEqualMaps (ac_Callbacks a) (ac_Callbacks b) \<and>
     deepEqualResponses (ac_Response a) (ac_Response b)"

definition equalAuthConfigs :: "(string \<Rightarrow> string option) \<Rightarrow> 's AuthConfigObject \<Rightarrow> 's AuthConfigObject \<Rightarrow> bool" where
  "equalAuthConfigs parseGroup existing desired =
     (if obj_Annotations existing = None \<or> obj_Annotations desired = None then False
      else if AnnotationOf existing AuthConfigHTTPRouteRuleAnnotation \<noteq> AnnotationOf desired AuthConfigHTTPRouteRuleAnnotation then False
      else if AnnotationOf existing AuthConfigGRPCRouteRuleAnnotation \<noteq> AnnotationOf desired AuthConfigGRPCRouteRuleAnnotation then False
      else if length (mo_Labels existing) \<noteq> length (mo_Labels desired) \<or> \<not> selectorMatches (mo_Labels existing) (mo_Labels desired) then False
      else if \<not> equalKuadrantOwnerReferences parseGroup (obj_OwnerReferences existing) (obj_OwnerReferences desired) then False
      else deepEqualSpecs (mo_Spec existing) (mo_Spec desired))"

definition updateAnnotation :: "(string, string) gomap \<Rightarrow> (string, string) gomap \<Rightarrow> string \<Rightarrow> (string, string) gomap" where
  "updateAnnotation desired existing key =
     (case map_of desired key of Some value \<Rightarrow> gm_set key value existing | None \<Rightarrow> gm_delete key existing)"

definition applyAuthConfigUpdate ::
  "('s, 'ast, 'val) auth_env \<Rightarrow> 's AuthConfigObject \<Rightarrow> 's AuthConfigObject \<Rightarrow> 's AuthConfigObject" where
  "applyAuthConfigUpdate ae existing desired =
     (let annotations = Deref (obj_Annotations existing) [];
          annotations = foldl (updateAnnotation (Deref (obj_Annotations desired) [])) annotations
            [AuthConfigHTTPRouteRuleAnnotation, AuthConfigGRPCRouteRuleAnnotation];
          annotations = gm_delete ''tracestate'' (gm_delete ''traceparent'' annotations)
      in existing\<lparr>mo_Spec := mo_Spec desired, mo_Labels := mo_Labels desired,
           obj_OwnerReferences := upsertKuadrantOwnerReference (ae_ParseGroup ae) (obj_OwnerReferences existing) (obj_OwnerReferences desired),
           obj_Annotations := Some (ae_Inject ae (obj_Name desired) annotations)\<rparr>)"

section \<open>The reconciler\<close>

definition AuthConfigsReconcilerName :: string where "AuthConfigsReconcilerName = ''AuthConfigsReconciler''"

text \<open>The reconciliation of one path: the name of its AuthConfig (empty for an invalid path) and whether it was modified.\<close>

definition reconcileAuthConfigForPath ::
  "('s, 'ast, 'val) auth_env \<Rightarrow> (targetable option \<Rightarrow> 's AuthConfigObject list) \<Rightarrow> string \<Rightarrow> OwnerReference list \<Rightarrow>
   string \<times> 's AuthPolicy EffectivePolicy \<Rightarrow> 's AuthConfigSpec object_state \<Rightarrow> 's AuthConfigSpec object_state \<times> string \<times> bool" where
  "reconcileAuthConfigForPath ae children authConfigsNamespace kuadrantCROwnerReference item st =
     (case item of (pathID, effectivePolicy) \<Rightarrow>
     (case ParseTopologyPath (ep_Path effectivePolicy) of Inl err \<Rightarrow> (st, [], False)
      | Inr parsed \<Rightarrow>
        (let env = ae_Objects ae;
             routeRule = GetRouteRule parsed;
             routeRuleLocator = GetRouteRuleLocator (ae_Locator ae) parsed;
             annotationKey = authConfigAnnotationKeyForRouteType (ptp_RouteType parsed);
             authConfigName = AuthConfigNameForPath (ae_Sha ae) pathID;
             desired = buildDesiredAuthConfig ae effectivePolicy authConfigName authConfigsNamespace kuadrantCROwnerReference
               annotationKey routeRuleLocator
         in if annotationKey = [] then (st, [], False)
            else case List.find (\<lambda>child. mo_GroupKind child = AuthConfigGroupKind \<and> obj_Name child = authConfigName \<and>
                   selectorMatches (mo_Labels child) (mo_Labels desired)) (children routeRule) of
              None \<Rightarrow>
                if \<not> oe_Destruct env desired then (st, authConfigName, False)
                else (callObjectApi env AuthConfigsReconcilerName (CreateObject desired) st, authConfigName, True)
            | Some existing \<Rightarrow>
                if equalAuthConfigs (ae_ParseGroup ae) existing desired then (st, authConfigName, False)
                else if IsObjectTaggedToDelete desired \<and> \<not> IsObjectTaggedToDelete existing
                then (callObjectApi env AuthConfigsReconcilerName (DeleteObject existing) st, authConfigName, True)
                else (let existing = applyAuthConfigUpdate ae existing desired
                      in if \<not> oe_Destruct env existing then (st, authConfigName, False)
                         else (callObjectApi env AuthConfigsReconcilerName (UpdateObject existing) st, authConfigName, True)))))"

text \<open>The loop over the paths: the state, the keys of the desired objects, the modified AuthConfigs.\<close>

fun reconcileAuthConfigs ::
  "('s, 'ast, 'val) auth_env \<Rightarrow> (targetable option \<Rightarrow> 's AuthConfigObject list) \<Rightarrow> string \<Rightarrow> OwnerReference list \<Rightarrow>
   (string, 's AuthPolicy EffectivePolicy) gomap \<Rightarrow> 's AuthConfigSpec object_state \<times> (string \<times> string) list \<times> string list \<Rightarrow>
   's AuthConfigSpec object_state \<times> (string \<times> string) list \<times> string list" where
  "reconcileAuthConfigs ae children ns owners [] acc = acc"
| "reconcileAuthConfigs ae children ns owners (item # items) (st, desiredAuthConfigs, modifiedAuthConfigs) =
     (case reconcileAuthConfigForPath ae children ns owners item st of
        (st, authConfigName, modified) \<Rightarrow>
          if authConfigName = [] then reconcileAuthConfigs ae children ns owners items (st, desiredAuthConfigs, modifiedAuthConfigs)
          else reconcileAuthConfigs ae children ns owners items
            (st, desiredAuthConfigs @ [(ns, authConfigName)], if modified then modifiedAuthConfigs @ [authConfigName] else modifiedAuthConfigs))"

text \<open>The second result is what is stored as the modified AuthConfigs, if anything.\<close>

definition AuthConfigsReconciler_Reconcile ::
  "('s, 'ast, 'val) auth_env \<Rightarrow> enforcement_view \<Rightarrow> enforcement_state \<Rightarrow> (string, 's AuthPolicy EffectivePolicy) gomap option \<Rightarrow>
   (targetable option \<Rightarrow> 's AuthConfigObject list) \<Rightarrow> 's AuthConfigObject list \<Rightarrow> 's AuthConfigSpec object_state \<Rightarrow>
   's AuthConfigSpec object_state \<times> string list option" where
  "AuthConfigsReconciler_Reconcile ae ev es effectivePolicies children items st =
     (case GetAuthorinoFromTopology ev es of None \<Rightarrow> (st, None)
      | Some authorino \<Rightarrow>
        (let authConfigsNamespace = to_Namespace authorino
         in case GetKuadrantFromTopology ev es of None \<Rightarrow> (st, None)
            | Some kuadrantCR \<Rightarrow>
              (case effectivePolicies of None \<Rightarrow> (st, None)
               | Some effectivePoliciesMap \<Rightarrow>
                 (let (st, desiredAuthConfigs, modifiedAuthConfigs) =
                        reconcileAuthConfigs ae children authConfigsNamespace (BuildOwnerReference (ae_UID ae) (Some kuadrantCR)) effectivePoliciesMap (st, [], []);
                      staleAuthConfigs = staleObjects AuthConfigGroupKind AuthObjectLabels desiredAuthConfigs items
                  in (deleteStale (ae_Objects ae) AuthConfigsReconcilerName staleAuthConfigs st,
                      if length modifiedAuthConfigs > 0 then Some modifiedAuthConfigs else None)))))"

section \<open>Owner references\<close>

lemma upsert_ours:
  "kuadrantOwnerReferences pg (upsertKuadrantOwnerReference pg existing desired) = take 1 (kuadrantOwnerReferences pg desired)"
proof -
  have none: "filter (isKuadrantOwnerReference pg) (filter (\<lambda>ref. \<not> isKuadrantOwnerReference pg ref) existing) = []"
    by (simp add: filter_empty_conv)
  have first: "(case List.find P xs of None \<Rightarrow> [] | Some x \<Rightarrow> [x]) = take 1 (filter P xs)" for P and xs :: "OwnerReference list"
    by (induction xs) auto
  have "kuadrantOwnerReferences pg (upsertKuadrantOwnerReference pg existing desired) =
      (case List.find (isKuadrantOwnerReference pg) desired of None \<Rightarrow> [] | Some x \<Rightarrow> [x])"
  proof (cases "List.find (isKuadrantOwnerReference pg) desired")
    case (Some x)
    then have "isKuadrantOwnerReference pg x" by (auto simp: find_Some_iff)
    with Some none show ?thesis by (simp add: kuadrantOwnerReferences_def upsertKuadrantOwnerReference_def Let_def)
  qed (use none in \<open>simp add: kuadrantOwnerReferences_def upsertKuadrantOwnerReference_def\<close>)
  with first show ?thesis by (simp only: kuadrantOwnerReferences_def)
qed

lemma upsert_third_party:
  "filter (\<lambda>ref. \<not> isKuadrantOwnerReference pg ref) (upsertKuadrantOwnerReference pg existing desired) =
     filter (\<lambda>ref. \<not> isKuadrantOwnerReference pg ref) existing"
  by (auto simp: upsertKuadrantOwnerReference_def Let_def find_Some_iff split: option.split)

text \<open>With a single desired reference of Kuadrant an update makes the references equal.\<close>

lemma upsert_equal:
  assumes "length (kuadrantOwnerReferences pg desired) \<le> 1"
  shows "equalKuadrantOwnerReferences pg (upsertKuadrantOwnerReference pg existing desired) desired"
  using assms by (simp add: equalKuadrantOwnerReferences_def upsert_ours Let_def list_all_iff list_ex_iff)

lemma owners_refl: "equalKuadrantOwnerReferences pg refs refs"
  by (simp add: equalKuadrantOwnerReferences_def list_all_iff list_ex_iff)

lemma BuildOwnerReference_single: "length (kuadrantOwnerReferences pg (BuildOwnerReference uid k)) \<le> 1"
  by (cases k) (simp_all add: kuadrantOwnerReferences_def BuildOwnerReference_def)

section \<open>Annotations\<close>

text \<open>The propagators the program installs (trace context and baggage) only write their own fields.\<close>

definition trace_fields :: "string list" where
  "trace_fields = [''traceparent'', ''tracestate'', ''baggage'']"

definition injects_trace_fields :: "('s, 'ast, 'val) auth_env \<Rightarrow> bool" where
  "injects_trace_fields ae \<longleftrightarrow> (\<forall>name m k. k \<notin> set trace_fields \<longrightarrow> map_of (ae_Inject ae name m) k = map_of m k)"

lemma annotation_keys:
  "AuthConfigHTTPRouteRuleAnnotation \<notin> set trace_fields" "AuthConfigGRPCRouteRuleAnnotation \<notin> set trace_fields"
  "DeleteTagAnnotation \<notin> set trace_fields"
  "AuthConfigHTTPRouteRuleAnnotation \<noteq> AuthConfigGRPCRouteRuleAnnotation"
  "DeleteTagAnnotation \<noteq> AuthConfigHTTPRouteRuleAnnotation" "DeleteTagAnnotation \<noteq> AuthConfigGRPCRouteRuleAnnotation"
  "AuthConfigHTTPRouteRuleAnnotation \<noteq> []" "AuthConfigGRPCRouteRuleAnnotation \<noteq> []"
  by code_simp+

lemma update_annotations:
  assumes "injects_trace_fields ae"
  shows "AnnotationOf (applyAuthConfigUpdate ae existing desired) AuthConfigHTTPRouteRuleAnnotation =
      AnnotationOf desired AuthConfigHTTPRouteRuleAnnotation"
    and "AnnotationOf (applyAuthConfigUpdate ae existing desired) AuthConfigGRPCRouteRuleAnnotation =
      AnnotationOf desired AuthConfigGRPCRouteRuleAnnotation"
    and "k \<notin> set trace_fields \<Longrightarrow> k \<noteq> AuthConfigHTTPRouteRuleAnnotation \<Longrightarrow> k \<noteq> AuthConfigGRPCRouteRuleAnnotation \<Longrightarrow>
      AnnotationOf (applyAuthConfigUpdate ae existing desired) k = AnnotationOf existing k"
proof -
  let ?old = "Deref (obj_Annotations existing) []" and ?new = "Deref (obj_Annotations desired) []"
  let ?m = "gm_delete ''tracestate'' (gm_delete ''traceparent'' (updateAnnotation ?new (updateAnnotation ?new ?old
    AuthConfigHTTPRouteRuleAnnotation) AuthConfigGRPCRouteRuleAnnotation))"
  have upd: "map_of (updateAnnotation d e key) k = (if k = key then map_of d key else map_of e k)" for d e key k
    by (auto simp: updateAnnotation_def split: option.split)
  have fin: "AnnotationOf (applyAuthConfigUpdate ae existing desired) k = Deref (map_of ?m k) []" if "k \<notin> set trace_fields" for k
    using assms that by (simp add: AnnotationOf_def applyAuthConfigUpdate_def injects_trace_fields_def Let_def)
  have m: "map_of ?m k = (if k = AuthConfigGRPCRouteRuleAnnotation then map_of ?new k
      else if k = AuthConfigHTTPRouteRuleAnnotation then map_of ?new k else map_of ?old k)" if "k \<notin> set trace_fields" for k
    using that by (auto simp: upd trace_fields_def)
  show "AnnotationOf (applyAuthConfigUpdate ae existing desired) AuthConfigHTTPRouteRuleAnnotation =
      AnnotationOf desired AuthConfigHTTPRouteRuleAnnotation"
    using fin [OF annotation_keys(1)] m [OF annotation_keys(1)] by (simp only: if_cancel refl if_True AnnotationOf_def)
  show "AnnotationOf (applyAuthConfigUpdate ae existing desired) AuthConfigGRPCRouteRuleAnnotation =
      AnnotationOf desired AuthConfigGRPCRouteRuleAnnotation"
    using fin [OF annotation_keys(2)] m [OF annotation_keys(2)] by (simp only: if_True refl AnnotationOf_def)
  show "AnnotationOf (applyAuthConfigUpdate ae existing desired) k = AnnotationOf existing k"
    if "k \<notin> set trace_fields" "k \<noteq> AuthConfigHTTPRouteRuleAnnotation" "k \<noteq> AuthConfigGRPCRouteRuleAnnotation"
    using fin [OF that(1)] m [OF that(1)] that(2,3) by (simp only: if_False AnnotationOf_def)
qed

section \<open>Specifications\<close>

definition spec_wf :: "'s AuthConfigSpec \<Rightarrow> bool" where
  "spec_wf a \<longleftrightarrow> gm_wf (ac_NamedPatterns a) \<and> gm_wf (ac_Authentication a) \<and> gm_wf (ac_Metadata a) \<and> gm_wf (ac_Authorization a) \<and>
     gm_wf (ac_Callbacks a) \<and>
     (case ac_Response a of None \<Rightarrow> True | Some r \<Rightarrow> gm_wf (Deref (rs_Headers r) []) \<and> gm_wf (Deref (rs_DynamicMetadata r) []))"

lemma deepEqualMaps_refl: "gm_wf m \<Longrightarrow> deepEqualMaps m m"
  by (auto simp: deepEqualMaps_def list_all_iff)

lemma deepEqualSpecs_refl: "spec_wf a \<Longrightarrow> deepEqualSpecs a a"
  by (auto simp: deepEqualSpecs_def deepEqualResponses_def spec_wf_def deepEqualMaps_refl split: option.splits)

lemma equal_after_update:
  assumes "injects_trace_fields ae" "obj_Annotations desired \<noteq> None" "spec_wf (mo_Spec desired)" "gm_wf (mo_Labels desired)"
    "length (kuadrantOwnerReferences (ae_ParseGroup ae) (obj_OwnerReferences desired)) \<le> 1"
  shows "equalAuthConfigs (ae_ParseGroup ae) (applyAuthConfigUpdate ae existing desired) desired"
proof -
  have "obj_Annotations (applyAuthConfigUpdate ae existing desired) \<noteq> None"
    "mo_Labels (applyAuthConfigUpdate ae existing desired) = mo_Labels desired"
    "mo_Spec (applyAuthConfigUpdate ae existing desired) = mo_Spec desired"
    "obj_OwnerReferences (applyAuthConfigUpdate ae existing desired) =
      upsertKuadrantOwnerReference (ae_ParseGroup ae) (obj_OwnerReferences existing) (obj_OwnerReferences desired)"
    by (simp_all add: applyAuthConfigUpdate_def Let_def)
  moreover have "selectorMatches (mo_Labels desired) (mo_Labels desired)"
    using assms(4) by (auto simp: selectorMatches_def list_all_iff)
  ultimately show ?thesis
    using assms(2) update_annotations [OF assms(1)] upsert_equal [OF assms(5)] deepEqualSpecs_refl [OF assms(3)]
    by (simp add: equalAuthConfigs_def)
qed

lemma equal_refl_config:
  assumes "obj_Annotations d \<noteq> None" "spec_wf (mo_Spec d)" "gm_wf (mo_Labels d)"
  shows "equalAuthConfigs pg d d"
  using assms by (auto simp: equalAuthConfigs_def selectorMatches_def list_all_iff owners_refl deepEqualSpecs_refl)

text \<open>The desired specification is well-formed, whatever the mutators add.\<close>

lemma gm_wf_specsOf: "gm_wf m \<Longrightarrow> gm_wf (specsOf m)"
  by (simp add: specsOf_def gm_map_values_def comp_def case_prod_beta)

lemma gm_wf_fromConfigs: "gm_wf m \<Longrightarrow> gm_wf (Deref (authorinoSpecsFromConfigs f m) [])"
  by (simp add: authorinoSpecsFromConfigs_def comp_def case_prod_beta Deref_def)

lemma mutate_wf:
  assumes "spec_wf a"
  shows "spec_wf (mutateAuthConfig json loc store a refs)"
  using assms by (auto simp: mutateAuthConfig_def spec_wf_def Let_def emptyResponse_def Deref_def split: option.splits)

lemma data_mutators_total:
  "\<exists>a'. applyMutatorsWithTargetRefs json loc stores (map RegisteredDataMutator is) refs a = Inr a' \<and>
     (\<forall>P. P a \<longrightarrow> (\<forall>b i. P b \<longrightarrow> P (mutateAuthConfig json loc (stores i) b refs)) \<longrightarrow> P a')"
proof (induction "is" arbitrary: a)
  case Nil
  then show ?case by (simp add: applyMutatorsWithTargetRefs_def)
next
  case (Cons i "is")
  let ?b = "mutateAuthConfig json loc (stores i) a refs"
  from Cons.IH [of ?b] obtain a' where a': "applyMutatorsWithTargetRefs json loc stores (map RegisteredDataMutator is) refs ?b = Inr a'"
    and P: "\<And>P. P ?b \<Longrightarrow> (\<forall>b i. P b \<longrightarrow> P (mutateAuthConfig json loc (stores i) b refs)) \<Longrightarrow> P a'" by blast
  have "applyMutatorsWithTargetRefs json loc stores (map RegisteredDataMutator (i # is)) refs a = Inr a'"
    using a' by (simp add: applyMutatorsWithTargetRefs_def)
  with P show ?case by (intro exI [of _ a']) blast
qed

lemma mutated_desired:
  assumes "P a" "\<And>b i refs. P b \<Longrightarrow> P (mutateAuthConfig (ae_Json ae) (ae_RefLocator ae) (ae_Stores ae i) b refs)"
  shows "P (case ApplyAuthConfigMutators (ae_Json ae) (ae_RefLocator ae) (ae_Stores ae) (authMutators ae) path a of Inl err \<Rightarrow> a | Inr m \<Rightarrow> m)"
proof -
  have "P (case applyMutatorsWithTargetRefs (ae_Json ae) (ae_RefLocator ae) (ae_Stores ae) (authMutators ae) refs a of Inl err \<Rightarrow> a | Inr m \<Rightarrow> m)" for refs
    using data_mutators_total [of "ae_Json ae" "ae_RefLocator ae" "ae_Stores ae" "ae_Mutators ae" refs a] assms
    by (metis (mono_tags) authMutators_def sum.case(2))
  note applied = this
  show ?thesis
  proof (cases "ParseTopologyPath path")
    case (Inr parsed)
    then show ?thesis
      using applied assms(1) by (cases "authTargetRefs parsed") (simp_all add: ApplyAuthConfigMutators_def ebind_case)
  qed (simp add: ApplyAuthConfigMutators_def assms(1))
qed

lemma desired_induct:
  assumes "P (policySpec (AuthPolicy_Proper (ap_Spec (ep_Spec ep))) name)"
    and "\<And>b i refs. P b \<Longrightarrow> P (mutateAuthConfig (ae_Json ae) (ae_RefLocator ae) (ae_Stores ae i) b refs)"
  shows "P (desiredSpec ae ep name)"
  using assms(1) mutated_desired [of P, OF assms] by (simp add: desiredSpec_def Let_def)

lemma desired_wf:
  assumes "proper_wf (AuthPolicy_Proper (ap_Spec (ep_Spec ep)))"
  shows "spec_wf (desiredSpec ae ep name)"
proof (rule desired_induct [of spec_wf, OF _ mutate_wf])
  show "spec_wf (policySpec (AuthPolicy_Proper (ap_Spec (ep_Spec ep))) name)"
    using assms by (auto simp: policySpec_def spec_wf_def proper_wf_def scheme_wf_def response_wf_def gm_wf_specsOf gm_wf_fromConfigs
        desiredResponse_def split: option.splits)
qed

section \<open>The AuthConfigs as managed objects\<close>

text \<open>The desired AuthConfig of a path, the links of the topology, and the kind of object.\<close>

type_synonym 's auth_path = "string \<times> 's AuthPolicy EffectivePolicy"

definition pathAuthConfig :: "('s, 'ast, 'val) auth_env \<Rightarrow> string \<Rightarrow> OwnerReference list \<Rightarrow> 's auth_path \<Rightarrow> string + 's AuthConfigObject" where
  "pathAuthConfig ae ns owners item =
     (case ParseTopologyPath (ep_Path (snd item)) of Inl err \<Rightarrow> Inl err
      | Inr parsed \<Rightarrow> Inr (buildDesiredAuthConfig ae (snd item) (AuthConfigNameForPath (ae_Sha ae) (fst item)) ns owners
          (authConfigAnnotationKeyForRouteType (ptp_RouteType parsed)) (GetRouteRuleLocator (ae_Locator ae) parsed)))"

definition ruleLink :: "('s, 'ast, 'val) auth_env \<Rightarrow> targetable option \<Rightarrow> 's AuthConfigObject \<Rightarrow> bool" where
  "ruleLink ae rule authConfig =
     (case rule of Some (THTTPRouteRule r) \<Rightarrow> LinkHTTPRouteRuleToAuthConfig (ae_Locator ae (THTTPRouteRule r)) authConfig
      | Some (TGRPCRouteRule r) \<Rightarrow> LinkGRPCRouteRuleToAuthConfig (ae_Locator ae (TGRPCRouteRule r)) authConfig
      | _ \<Rightarrow> False)"

definition pathLink :: "('s, 'ast, 'val) auth_env \<Rightarrow> 's auth_path \<Rightarrow> 's AuthConfigObject \<Rightarrow> bool" where
  "pathLink ae item authConfig =
     (case ParseTopologyPath (ep_Path (snd item)) of Inl err \<Rightarrow> False | Inr parsed \<Rightarrow> ruleLink ae (GetRouteRule parsed) authConfig)"

definition authConfigKind :: "('s, 'ast, 'val) auth_env \<Rightarrow> 's AuthConfigSpec object_kind" where
  "authConfigKind ae = \<lparr>ok_Reconciler = AuthConfigsReconcilerName, ok_GroupKind = AuthConfigGroupKind,
     ok_Equal = (\<lambda>existing desired. Return (equalAuthConfigs (ae_ParseGroup ae) existing desired)),
     ok_Update = applyAuthConfigUpdate ae\<rparr>"

definition policy_wf :: "'s auth_path \<Rightarrow> bool" where
  "policy_wf item = proper_wf (AuthPolicy_Proper (ap_Spec (ep_Spec (snd item))))"

lemma path_rule_cases:
  assumes "ParseTopologyPath path = Inr parsed"
  obtains (HTTP) r where "ptp_RouteType parsed = RouteTypeHTTP" "GetRouteRule parsed = Some (THTTPRouteRule (Some r))"
  | (GRPC) r where "ptp_RouteType parsed = RouteTypeGRPC" "GetRouteRule parsed = Some (TGRPCRouteRule (Some r))"
  using assms unfolding ParseTopologyPath_ok by (auto simp: http_parsed_def grpc_parsed_def GetRouteRule_def)

lemma linked_when:
  assumes parsed: "ParseTopologyPath path = Inr parsed" and some: "obj_Annotations o' \<noteq> None"
    and backref: "AnnotationOf o' (authConfigAnnotationKeyForRouteType (ptp_RouteType parsed)) = GetRouteRuleLocator (ae_Locator ae) parsed"
  shows "ruleLink ae (GetRouteRule parsed) o'"
  using parsed
proof (cases rule: path_rule_cases)
  case (HTTP r)
  with some backref show ?thesis
    by (simp add: ruleLink_def LinkHTTPRouteRuleToAuthConfig_def authConfigAnnotationKeyForRouteType_def GetRouteRuleLocator_def)
next
  case (GRPC r)
  with some backref show ?thesis
    by (simp add: ruleLink_def LinkGRPCRouteRuleToAuthConfig_def authConfigAnnotationKeyForRouteType_def GetRouteRuleLocator_def)
qed

lemma route_annotation_key:
  assumes "ParseTopologyPath path = Inr parsed"
  shows "authConfigAnnotationKeyForRouteType (ptp_RouteType parsed) \<in> {AuthConfigHTTPRouteRuleAnnotation, AuthConfigGRPCRouteRuleAnnotation}"
  using assms by (cases rule: path_rule_cases) (simp_all add: authConfigAnnotationKeyForRouteType_def)

lemma desired_simps [simp]:
  "obj_Annotations (buildDesiredAuthConfig ae ep name ns owners key loc) = Some (ae_Inject ae name [(key, loc)])"
  "obj_OwnerReferences (buildDesiredAuthConfig ae ep name ns owners key loc) = owners"
  "mo_Labels (buildDesiredAuthConfig ae ep name ns owners key loc) = AuthObjectLabels"
  "mo_Spec (buildDesiredAuthConfig ae ep name ns owners key loc) = desiredSpec ae ep name"
  "mo_GroupKind (buildDesiredAuthConfig ae ep name ns owners key loc) = AuthConfigGroupKind"
  "mo_NamespacedName (buildDesiredAuthConfig ae ep name ns owners key loc) = (ns, name)"
  "obj_Name (buildDesiredAuthConfig ae ep name ns owners key loc) = name"
  "obj_Namespace (buildDesiredAuthConfig ae ep name ns owners key loc) = ns"
  by (simp_all add: buildDesiredAuthConfig_def mo_GroupKind_def mo_NamespacedName_def)

lemma update_key_labels:
  "mo_Key (applyAuthConfigUpdate ae e d) = mo_Key e" "mo_Labels (applyAuthConfigUpdate ae e d) = mo_Labels d"
  "obj_Annotations (applyAuthConfigUpdate ae e d) \<noteq> None"
  by (simp_all add: applyAuthConfigUpdate_def Let_def mo_Key_def mo_GroupKind_def mo_NamespacedName_def)

lemma desired_annotation:
  assumes "injects_trace_fields ae" "key \<in> {AuthConfigHTTPRouteRuleAnnotation, AuthConfigGRPCRouteRuleAnnotation}"
  shows "AnnotationOf (buildDesiredAuthConfig ae ep name ns owners key loc) key = loc"
    and "\<not> IsObjectTaggedToDelete (buildDesiredAuthConfig ae ep name ns owners key loc)"
proof -
  from assms(2) annotation_keys have "key \<notin> set trace_fields" "key \<noteq> DeleteTagAnnotation" by auto
  with assms(1) annotation_keys(3) show "AnnotationOf (buildDesiredAuthConfig ae ep name ns owners key loc) key = loc"
    "\<not> IsObjectTaggedToDelete (buildDesiredAuthConfig ae ep name ns owners key loc)"
    by (auto simp: AnnotationOf_def injects_trace_fields_def IsObjectTaggedToDelete_def)
qed

lemma auth_managed:
  assumes inject: "injects_trace_fields ae" and owners: "length (kuadrantOwnerReferences (ae_ParseGroup ae) owners) \<le> 1"
  shows "managed_kind (authConfigKind ae) (pathAuthConfig ae ns owners) (pathLink ae) AuthObjectLabels policy_wf (\<lambda>_. True)"
proof
  fix g d e
  show self: "selectorMatches AuthObjectLabels AuthObjectLabels" by code_simp
  have labels: "gm_wf AuthObjectLabels" by code_simp
  {
    assume "pathAuthConfig ae ns owners g = Inr d"
    then obtain parsed where parsed: "ParseTopologyPath (ep_Path (snd g)) = Inr parsed"
      and d: "d = buildDesiredAuthConfig ae (snd g) (AuthConfigNameForPath (ae_Sha ae) (fst g)) ns owners
          (authConfigAnnotationKeyForRouteType (ptp_RouteType parsed)) (GetRouteRuleLocator (ae_Locator ae) parsed)"
      by (auto simp: pathAuthConfig_def split: sum.splits)
    note backref = desired_annotation [OF inject route_annotation_key [OF parsed]]
    show "mo_GroupKind d = ok_GroupKind (authConfigKind ae) \<and> mo_Labels d = AuthObjectLabels" by (simp add: d authConfigKind_def)
    show "pathLink ae g d"
      using linked_when [OF parsed, of d ae] backref by (simp add: pathLink_def parsed d)
    have upd: "AnnotationOf (applyAuthConfigUpdate ae e d) (authConfigAnnotationKeyForRouteType (ptp_RouteType parsed)) =
        GetRouteRuleLocator (ae_Locator ae) parsed"
      using route_annotation_key [OF parsed] update_annotations(1,2) [OF inject, of e d] backref(1) unfolding d by auto
    show "pathLink ae g (ok_Update (authConfigKind ae) e d)"
      using linked_when [OF parsed update_key_labels(3) upd] by (simp add: pathLink_def parsed authConfigKind_def)
    show "\<exists>b. ok_Equal (authConfigKind ae) e d = Return b" by (simp add: authConfigKind_def)
    assume "policy_wf g"
    then have wf: "spec_wf (mo_Spec d)" unfolding d policy_wf_def desired_simps by (rule desired_wf)
    show "ok_Equal (authConfigKind ae) d d = Return True"
      using equal_refl_config [of d] wf labels by (simp add: d authConfigKind_def)
    show "ok_Equal (authConfigKind ae) (ok_Update (authConfigKind ae) e d) d = Return True"
      using equal_after_update [OF inject, of d e] wf labels owners by (simp add: d authConfigKind_def)
  }
  show "mo_Key (ok_Update (authConfigKind ae) e d) = mo_Key e \<and> mo_Labels (ok_Update (authConfigKind ae) e d) \<in> {mo_Labels e, mo_Labels d}"
    by (simp add: authConfigKind_def update_key_labels)
qed

section \<open>Runs of the reconciler\<close>

text \<open>The AuthConfigs below a route rule in the topology of a cluster.\<close>

definition ruleChildren :: "('s, 'ast, 'val) auth_env \<Rightarrow> 's AuthConfigObject list \<Rightarrow> targetable option \<Rightarrow> 's AuthConfigObject list" where
  "ruleChildren ae items rule = filter (ruleLink ae rule) items"

text \<open>No AuthConfig of another namespace has the name of a desired one: the lookup compares names only.\<close>

definition one_namespace :: "('s, 'ast, 'val) auth_env \<Rightarrow> string \<Rightarrow> 's auth_path list \<Rightarrow> 's AuthConfigObject list \<Rightarrow> bool" where
  "one_namespace ae ns paths items \<longleftrightarrow>
     list_all (\<lambda>o'. mo_GroupKind o' = AuthConfigGroupKind \<longrightarrow>
       obj_Name o' \<in> (\<lambda>item. AuthConfigNameForPath (ae_Sha ae) (fst item)) ` set paths \<longrightarrow> obj_Namespace o' = ns) items"

lemma path_ops:
  assumes inject: "injects_trace_fields ae" and destruct: "\<forall>o'. oe_Destruct (ae_Objects ae) o'"
    and ns: "one_namespace ae ns paths items" and item: "item \<in> set paths" and sha: "ae_Sha ae (fst item) \<noteq> []"
  shows "\<exists>st' name modified. reconcileAuthConfigForPath ae (ruleChildren ae items) ns owners item st = (st', name, modified) \<and>
    os_Ops st' = os_Ops st @ gatewayOps (authConfigKind ae) (pathAuthConfig ae ns owners) (childrenOf (pathLink ae) items) item \<and>
    (case pathAuthConfig ae ns owners item of Inl err \<Rightarrow> name = [] | Inr d \<Rightarrow> name \<noteq> [] \<and> mo_NamespacedName d = (ns, name))"
proof (cases "ParseTopologyPath (ep_Path (snd item))")
  case (Inl err)
  then show ?thesis
    by (simp add: reconcileAuthConfigForPath_def pathAuthConfig_def gatewayOps_def case_prod_beta ex_bool_eq)
next
  case (Inr parsed)
  let ?key = "authConfigAnnotationKeyForRouteType (ptp_RouteType parsed)" and ?name = "AuthConfigNameForPath (ae_Sha ae) (fst item)"
  let ?d = "buildDesiredAuthConfig ae (snd item) ?name ns owners ?key (GetRouteRuleLocator (ae_Locator ae) parsed)"
  let ?k = "authConfigKind ae"
  have d: "pathAuthConfig ae ns owners item = Inr ?d" by (simp add: pathAuthConfig_def Inr)
  have key: "?key \<noteq> []" using route_annotation_key [OF Inr] annotation_keys(7,8) by auto
  have name: "?name \<noteq> []" using sha by (simp add: AuthConfigNameForPath_def)
  have tag: "\<not> IsObjectTaggedToDelete ?d" by (rule desired_annotation(2) [OF inject route_annotation_key [OF Inr]])
  have children: "childrenOf (pathLink ae) items item = ruleChildren ae items (GetRouteRule parsed)"
    by (simp add: childrenOf_def pathLink_def ruleChildren_def Inr cong: filter_cong)
  have found: "List.find (\<lambda>child. mo_GroupKind child = AuthConfigGroupKind \<and> obj_Name child = ?name \<and>
      selectorMatches (mo_Labels child) AuthObjectLabels) (ruleChildren ae items (GetRouteRule parsed)) =
    findObject ?k ?d (childrenOf (pathLink ae) items item)"
    unfolding findObject_def children
  proof (rule find_cong [OF refl])
    fix x assume "x \<in> set (ruleChildren ae items (GetRouteRule parsed))"
    then have "x \<in> set items" by (simp add: ruleChildren_def)
    with ns item have "mo_GroupKind x = AuthConfigGroupKind \<Longrightarrow> obj_Name x = ?name \<Longrightarrow> obj_Namespace x = ns"
      by (auto simp: one_namespace_def list_all_iff)
    then show "(mo_GroupKind x = AuthConfigGroupKind \<and> obj_Name x = ?name \<and> selectorMatches (mo_Labels x) AuthObjectLabels) =
      (mo_GroupKind x = ok_GroupKind ?k \<and> obj_Name x = obj_Name ?d \<and> obj_Namespace x = obj_Namespace ?d \<and> selectorMatches (mo_Labels x) (mo_Labels ?d))"
      by (auto simp: authConfigKind_def)
  qed
  have step: "reconcileAuthConfigForPath ae (ruleChildren ae items) ns owners item st =
    (case findObject ?k ?d (childrenOf (pathLink ae) items item) of
       None \<Rightarrow> (callObjectApi (ae_Objects ae) AuthConfigsReconcilerName (CreateObject ?d) st, ?name, True)
     | Some existing \<Rightarrow> if equalAuthConfigs (ae_ParseGroup ae) existing ?d then (st, ?name, False)
         else (callObjectApi (ae_Objects ae) AuthConfigsReconcilerName (UpdateObject (applyAuthConfigUpdate ae existing ?d)) st, ?name, True))"
    unfolding found [symmetric]
    by (simp add: reconcileAuthConfigForPath_def Inr key tag destruct Let_def case_prod_beta split: option.split)
  show ?thesis
    unfolding step d
    by (cases "findObject ?k ?d (childrenOf (pathLink ae) items item)")
      (use name in \<open>simp_all add: gatewayOps_def d objectOps_def\<close>, simp_all add: authConfigKind_def ex_bool_eq)
qed

lemma paths_ops:
  assumes inject: "injects_trace_fields ae" and destruct: "\<forall>o'. oe_Destruct (ae_Objects ae) o'"
    and ns: "one_namespace ae ns all items" and sha: "\<forall>x. ae_Sha ae x \<noteq> []"
  shows "set paths \<subseteq> set all \<Longrightarrow>
    \<exists>st' modified. reconcileAuthConfigs ae (ruleChildren ae items) ns owners paths (st, keys, m) =
      (st', keys @ builtKeys (pathAuthConfig ae ns owners) paths, modified) \<and>
    os_Ops st' = os_Ops st @ concat (map (gatewayOps (authConfigKind ae) (pathAuthConfig ae ns owners) (childrenOf (pathLink ae) items)) paths)"
proof (induction paths arbitrary: st keys m)
  case Nil
  then show ?case by (simp add: builtKeys_def)
next
  case (Cons item paths)
  then have "item \<in> set all" "set paths \<subseteq> set all" by auto
  note IH = Cons.IH [OF this(2)]
  obtain st1 name modified where step: "reconcileAuthConfigForPath ae (ruleChildren ae items) ns owners item st = (st1, name, modified)"
      "os_Ops st1 = os_Ops st @ gatewayOps (authConfigKind ae) (pathAuthConfig ae ns owners) (childrenOf (pathLink ae) items) item"
    and keys: "case pathAuthConfig ae ns owners item of Inl err \<Rightarrow> name = [] | Inr d \<Rightarrow> name \<noteq> [] \<and> mo_NamespacedName d = (ns, name)"
    using path_ops [OF inject destruct ns \<open>item \<in> set all\<close>] sha by blast
  show ?case
  proof (cases "pathAuthConfig ae ns owners item")
    case (Inl err)
    with keys step IH [of st1 keys m] show ?thesis by (auto simp: builtKeys_def)
  next
    case (Inr d)
    with keys step IH [of st1 "keys @ [(ns, name)]" "if modified then m @ [name] else m"] show ?thesis by (auto simp: builtKeys_def)
  qed
qed

lemma run_ops_auth:
  assumes "GetAuthorinoFromTopology ev es = Some authorino" "GetKuadrantFromTopology ev es = Some kuadrant"
    and "injects_trace_fields ae" "\<forall>o'. oe_Destruct (ae_Objects ae) o'" "\<forall>x. ae_Sha ae x \<noteq> []"
    and "one_namespace ae (to_Namespace authorino) paths items"
    and build: "build = pathAuthConfig ae (to_Namespace authorino) (BuildOwnerReference (ae_UID ae) (Some kuadrant))"
  shows "\<exists>st' modified. AuthConfigsReconciler_Reconcile ae ev es (Some paths) (ruleChildren ae items) items st = (st', modified) \<and>
    os_Ops st' = os_Ops st @ concat (map (gatewayOps (authConfigKind ae) build (childrenOf (pathLink ae) items)) paths) @
      map DeleteObject (staleObjects AuthConfigGroupKind AuthObjectLabels (builtKeys build paths) items)"
proof -
  from paths_ops [OF assms(3,4,6,5) subset_refl, of "BuildOwnerReference (ae_UID ae) (Some kuadrant)" st "[]" "[]"]
  obtain st' m where "reconcileAuthConfigs ae (ruleChildren ae items) (to_Namespace authorino) (BuildOwnerReference (ae_UID ae) (Some kuadrant)) paths (st, [], []) =
      (st', builtKeys build paths, m)"
    "os_Ops st' = os_Ops st @ concat (map (gatewayOps (authConfigKind ae) build (childrenOf (pathLink ae) items)) paths)"
    by (auto simp: build)
  with assms(1,2) show ?thesis by (simp add: AuthConfigsReconciler_Reconcile_def)
qed

lemma applyOps_keys:
  "x \<in> set (applyOps operations items) \<Longrightarrow>
     mo_Key x \<in> mo_Key ` set items \<or> (\<exists>d. CreateObject d \<in> set operations \<and> mo_Key x = mo_Key d)"
proof (induction operations arbitrary: items)
  case Nil
  then show ?case by (simp add: applyOps_def)
next
  case (Cons operation operations)
  have "applyOps (operation # operations) items = applyOps operations (applyOp operation items)" by (simp add: applyOps_def)
  with Cons have "mo_Key x \<in> mo_Key ` set (applyOp operation items) \<or> (\<exists>d. CreateObject d \<in> set operations \<and> mo_Key x = mo_Key d)" by simp
  moreover have "kk \<in> mo_Key ` set (applyOp operation items) \<Longrightarrow> kk \<in> mo_Key ` set items \<or> (\<exists>d. operation = CreateObject d \<and> kk = mo_Key d)" for kk
    by (cases operation) (auto simp: image_iff split: if_splits, metis)
  ultimately show ?case by (metis list.set_intros)
qed

lemma one_namespace_kept:
  assumes "one_namespace ae ns paths items" and "\<And>d. CreateObject d \<in> set operations \<Longrightarrow> obj_Namespace d = ns"
  shows "one_namespace ae ns paths (applyOps operations items)"
proof -
  have "obj_Namespace x = ns" if x: "x \<in> set (applyOps operations items)" "mo_GroupKind x = AuthConfigGroupKind"
      "obj_Name x \<in> (\<lambda>item. AuthConfigNameForPath (ae_Sha ae) (fst item)) ` set paths" for x
    using applyOps_keys [OF x(1)]
  proof
    assume "mo_Key x \<in> mo_Key ` set items"
    then obtain y where y: "y \<in> set items" "mo_Key x = mo_Key y" by auto
    then have same: "obj_Namespace x = obj_Namespace y" "obj_Name x = obj_Name y" "mo_GroupKind x = mo_GroupKind y"
      by (simp_all add: mo_Key_def mo_NamespacedName_def)
    show ?thesis using assms(1) x(2,3) y(1) unfolding same one_namespace_def list_all_iff by blast
  next
    assume "\<exists>d. CreateObject d \<in> set operations \<and> mo_Key x = mo_Key d"
    then obtain d where "CreateObject d \<in> set operations" "mo_Key x = mo_Key d" by blast
    with assms(2) [of d] show ?thesis by (simp add: mo_Key_def mo_NamespacedName_def)
  qed
  then show ?thesis by (auto simp: one_namespace_def list_all_iff)
qed

lemma auth_names_differ:
  assumes "gm_wf paths" "inj_on (ae_Sha ae) (set (map fst paths))"
  shows "names_differ (pathAuthConfig ae ns owners) paths"
proof -
  have name: "mo_NamespacedName d = (ns, ae_Sha ae (fst g))" if "pathAuthConfig ae ns owners g = Inr d" for g d
    using that by (auto simp: pathAuthConfig_def AuthConfigNameForPath_def split: sum.splits)
  have "g = g'" if "g \<in> set paths" "g' \<in> set paths" "ae_Sha ae (fst g) = ae_Sha ae (fst g')" for g g'
    using that inj_onD [OF assms(2), of "fst g" "fst g'"] assms(1) by (metis distinct_map image_eqI inj_onD list.set_map)
  then show ?thesis using assms(1) name by (auto simp: names_differ_def distinct_map)
qed

text \<open>
  C11.  The AuthConfigs converge.  When there are a Kuadrant resource, an Authorino and effective auth
  policies, and the calls of a run are carried out, then the AuthConfig of every path is equal to the
  desired one, every AuthConfig with the labels of the reconciler is the one of some path, and the
  next run calls nothing.  This needs that the calls find the cluster as the topology shows it
  (names are unique, an AuthConfig with the name of a desired one is linked and labelled and in the
  namespace of Authorino), that the hashes of the paths differ, and that tracing writes its own
  annotations only.
\<close>

theorem auth_configs_converge:
  assumes authorino: "GetAuthorinoFromTopology ev es = Some authorino" and kuadrant: "GetKuadrantFromTopology ev es = Some kuadrant"
    and build: "build = pathAuthConfig ae (to_Namespace authorino) (BuildOwnerReference (ae_UID ae) (Some kuadrant))"
    and inject: "injects_trace_fields ae" and destruct: "\<forall>o'. oe_Destruct (ae_Objects ae) o'"
    and sha: "\<forall>x. ae_Sha ae x \<noteq> []" "inj_on (ae_Sha ae) (set (map fst paths))"
    and paths: "gm_wf paths" "list_all policy_wf paths"
    and place: "objects_in_place build (pathLink ae) AuthObjectLabels paths items"
    and ns: "one_namespace ae (to_Namespace authorino) paths items" and start: "os_Ops st = []"
  shows "\<exists>st' modified items2.
    AuthConfigsReconciler_Reconcile ae ev es (Some paths) (ruleChildren ae items) items st = (st', modified) \<and>
    items2 = applyOps (os_Ops st') items \<and>
    (\<forall>item\<in>set paths. \<forall>d. build item = Inr d \<longrightarrow> (\<exists>o'\<in>set items2. mo_Key o' = mo_Key d \<and> equalAuthConfigs (ae_ParseGroup ae) o' d)) \<and>
    (\<forall>o'\<in>set items2. mo_GroupKind o' = AuthConfigGroupKind \<longrightarrow> selectorMatches (mo_Labels o') AuthObjectLabels \<longrightarrow>
      (\<exists>item\<in>set paths. \<exists>d. build item = Inr d \<and> mo_Key o' = mo_Key d \<and> equalAuthConfigs (ae_ParseGroup ae) o' d)) \<and>
    (\<exists>st2 modified2. AuthConfigsReconciler_Reconcile ae ev es (Some paths) (ruleChildren ae items2) items2 st = (st2, modified2) \<and> os_Ops st2 = [])"
proof -
  let ?k = "authConfigKind ae"
  have k: "ok_GroupKind ?k = AuthConfigGroupKind" "\<And>a b. ok_Equal ?k a b = Return (equalAuthConfigs (ae_ParseGroup ae) a b)"
    by (simp_all add: authConfigKind_def)
  have m: "managed_kind ?k build (pathLink ae) AuthObjectLabels policy_wf (\<lambda>_. True)"
    unfolding build by (rule auth_managed [OF inject BuildOwnerReference_single])
  have names: "names_differ build paths" unfolding build by (rule auth_names_differ [OF paths(1) sha(2)])
  have ok: "(\<forall>g\<in>set paths. policy_wf g) \<and> names_differ build paths \<and> objects_in_place build (pathLink ae) AuthObjectLabels paths items"
    using names place paths(2) by (simp only: list_all_iff simp_thms)
  let ?ops = "\<lambda>items. concat (map (gatewayOps ?k build (childrenOf (pathLink ae) items)) paths) @
    map DeleteObject (staleObjects (ok_GroupKind ?k) AuthObjectLabels (builtKeys build paths) items)"
  let ?items2 = "applyOps (?ops items) items"
  note run = run_ops_auth [OF authorino kuadrant inject destruct sha(1) _ build]
  obtain st' modified where r: "AuthConfigsReconciler_Reconcile ae ev es (Some paths) (ruleChildren ae items) items st = (st', modified)"
    and ops: "os_Ops st' = ?ops items"
    using run [OF ns, of st] by (auto simp: start k)
  have "obj_Namespace d = to_Namespace authorino" if "CreateObject d \<in> set (?ops items)" for d
  proof -
    from that obtain g where "CreateObject d \<in> set (gatewayOps ?k build (childrenOf (pathLink ae) items) g)" by auto
    then have "build g = Inr d" by (rule managed_kind.gatewayOps_cases [OF m]) auto
    then show ?thesis by (auto simp: build pathAuthConfig_def split: sum.splits)
  qed
  then have ns2: "one_namespace ae (to_Namespace authorino) paths ?items2" by (rule one_namespace_kept [OF ns])
  have quiet: "?ops ?items2 = []" by (rule managed_kind.run_converges [OF m ok refl])
  obtain st2 modified2 where r2: "AuthConfigsReconciler_Reconcile ae ev es (Some paths) (ruleChildren ae ?items2) ?items2 st = (st2, modified2)"
    and ops2: "os_Ops st2 = []"
    using run [OF ns2, of st] quiet by (auto simp: start k)
  note after = managed_kind.after_run [OF m ok refl, unfolded k go_result.inject simp_thms]
  have present: "\<exists>o'\<in>set ?items2. mo_Key o' = mo_Key d \<and> equalAuthConfigs (ae_ParseGroup ae) o' d" if "item \<in> set paths" "build item = Inr d" for item d
    using after(2) [OF that] unfolding k by blast
  have only: "\<exists>item\<in>set paths. \<exists>d. build item = Inr d \<and> mo_Key o' = mo_Key d \<and> equalAuthConfigs (ae_ParseGroup ae) o' d"
    if "o' \<in> set ?items2" "mo_GroupKind o' = AuthConfigGroupKind" "selectorMatches (mo_Labels o') AuthObjectLabels" for o'
    using after(3) [of o'] that unfolding k by blast
  show ?thesis
  proof (intro exI conjI)
    show "AuthConfigsReconciler_Reconcile ae ev es (Some paths) (ruleChildren ae items) items st = (st', modified)" by (rule r)
    show "?items2 = applyOps (os_Ops st') items" by (simp only: ops)
    show "AuthConfigsReconciler_Reconcile ae ev es (Some paths) (ruleChildren ae ?items2) ?items2 st = (st2, modified2)" by (rule r2)
  qed (use present only ops2 in blast)+
qed

section \<open>What an AuthConfig says\<close>

text \<open>The contents of a specification by the keys of rules, and the contents of a rule.\<close>

definition authConfig_says :: "'s AuthConfigSpec \<Rightarrow> string \<Rightarrow> 's option" where
  "authConfig_says a k =
     (case cut_key k of None \<Rightarrow> None
      | Some (g, i) \<Rightarrow>
        if g = ''patterns'' then map_of (ac_NamedPatterns a) i
        else if g = ''authentication'' then map_of (ac_Authentication a) i
        else if g = ''metadata'' then map_of (ac_Metadata a) i
        else if g = ''authorization'' then map_of (ac_Authorization a) i
        else if g = ''callbacks'' then map_of (ac_Callbacks a) i
        else (case ac_Response a of None \<Rightarrow> None
          | Some r \<Rightarrow>
            if g = ''response.unauthenticated'' then (if i = [] then rs_Unauthenticated r else None)
            else if g = ''response.unauthorized'' then (if i = [] then rs_Unauthorized r else None)
            else if g = ''response.success.headers'' then map_of (Deref (rs_Headers r) []) i
            else if g = ''response.success.metadata'' then map_of (Deref (rs_DynamicMetadata r) []) i
            else None))"

fun rule_spec :: "'s auth_rule \<Rightarrow> 's option" where
  "rule_spec (WhenPredicatesRule w) = None"
| "rule_spec (PatternExpressionsRule r) = Some (mar_Spec r)"
| "rule_spec (AuthenticationRule r) = Some (mar_Spec r)"
| "rule_spec (MetadataRule r) = Some (mar_Spec r)"
| "rule_spec (AuthorizationRule r) = Some (mar_Spec r)"
| "rule_spec (DenyWithRule r) = Some (mar_Spec r)"
| "rule_spec (HeaderSuccessRule r) = Some (mar_Spec r)"
| "rule_spec (SuccessRule r) = Some (mar_Spec r)"
| "rule_spec (CallbackRule r) = Some (mar_Spec r)"

lemma rule_spec_new: "rule_spec (NewMergeableRule auth_GetSource auth_WithSource rule source) = rule_spec rule"
  by (cases rule) (simp_all add: NewMergeableRule_def)

lemma map_of_specsOf: "map_of (specsOf m) k = map_option mar_Spec (map_of m k)"
  by (simp add: specsOf_def)

lemma map_of_fromConfigs: "map_of (Deref (authorinoSpecsFromConfigs mar_Spec m) []) k = map_option mar_Spec (map_of m k)"
proof -
  have "map_of (map (\<lambda>(name, config). (name, mar_Spec config)) m) k = map_option mar_Spec (map_of m k)"
    by (induction m) auto
  then show ?thesis by (auto simp: authorinoSpecsFromConfigs_def Let_def Deref_def)
qed

lemma bind_map_rule: "(\<And>x. rule_spec (f x) = Some (mar_Spec x)) \<Longrightarrow> Option.bind (map_option f v) rule_spec = map_option mar_Spec v"
  by (cases v) simp_all

lemma policySpec_says:
  assumes new: "\<And>r. rule_spec (new r) = rule_spec r"
  shows "authConfig_says (policySpec pr name) k = Option.bind (auth_lookup new pr k) rule_spec"
proof (cases "cut_key k")
  case (Some gi)
  obtain g i where gi: "gi = (g, i)" by fastforce
  show ?thesis
  proof (cases "ap_AuthScheme pr")
    case None
    then show ?thesis
      by (simp add: authConfig_says_def auth_lookup_def Some gi policySpec_def map_of_specsOf bind_map_rule new)
  next
    case (Some s)
    note scheme = this
    show ?thesis
    proof (cases "auth_Response s")
      case None
      with scheme show ?thesis
        by (simp add: authConfig_says_def auth_lookup_def \<open>cut_key k = Some gi\<close> gi policySpec_def map_of_specsOf bind_map_rule new)
    next
      case (Some r)
      with scheme show ?thesis
        by (simp add: authConfig_says_def auth_lookup_def \<open>cut_key k = Some gi\<close> gi policySpec_def map_of_specsOf map_of_fromConfigs
            desiredResponse_def bind_map_rule new)
    qed
  qed
qed (simp add: authConfig_says_def auth_lookup_def)

definition kuadrantDataKey :: string where
  "kuadrantDataKey = ''response.success.metadata#'' @ KuadrantDataNamespace"

lemma mutate_says:
  assumes "k \<noteq> kuadrantDataKey"
  shows "authConfig_says (mutateAuthConfig json loc store a refs) k = authConfig_says a k"
proof -
  have "cut_key k \<noteq> Some (''response.success.metadata'', KuadrantDataNamespace)"
    using assms key_eq_iff [of "''response.success.metadata''" k KuadrantDataNamespace] by (simp add: kuadrantDataKey_def)
  then show ?thesis
    by (cases "ac_Response a") (auto simp: authConfig_says_def mutateAuthConfig_def Let_def emptyResponse_def Deref_def split: option.split)
qed

lemma desired_says:
  assumes "k \<noteq> kuadrantDataKey" "\<And>r. rule_spec (new r) = rule_spec r"
  shows "authConfig_says (desiredSpec ae ep name) k = Option.bind (auth_lookup new (AuthPolicy_Proper (ap_Spec (ep_Spec ep))) k) rule_spec"
  by (rule desired_induct [of "\<lambda>a. authConfig_says a k = Option.bind (auth_lookup new (AuthPolicy_Proper (ap_Spec (ep_Spec ep))) k) rule_spec"])
    (simp_all add: policySpec_says [of new, OF assms(2)] assms(1) mutate_says)

text \<open>
  C10.  Authorino enforces the merge.  For well-formed auth policies of a path the effective policy
  exists, and the AuthConfig built for it says under every key exactly what the abstract
  specification of the merge selects: the winning rule of every pattern, authentication, metadata,
  authorization, response and callback, and nothing else.  The only other entry is the dynamic metadata of the name
  reserved for extensions; top-level predicates go to the gateway instead.
\<close>

theorem auth_config_enforces_merge:
  assumes "policies \<noteq> []" "list_all (ap_wf locator) policies"
  shows "\<exists>e. EffectivePolicyForPath (ap_ops locator) Some policies = Return (Some (Some e)) \<and>
    (\<forall>k. k \<noteq> kuadrantDataKey \<longrightarrow>
      authConfig_says (mo_Spec (buildDesiredAuthConfig ae \<lparr>ep_Path = path, ep_Spec = e, ep_SourcePolicies = sources\<rparr> name ns owners key loc)) k =
        Option.bind (effective_rules (ap_ops locator) auth_substantive policies k) rule_spec)"
proof -
  obtain e where e: "EffectivePolicyForPath (ap_ops locator) Some policies = Return (Some (Some e))"
    "map_of (AuthPolicy_Rules locator e) = effective_rules (ap_ops locator) auth_substantive policies" "ap_wf locator e"
    using ap.EffectivePolicyForPath_refines [of policies locator] assms by (auto simp: list_all_iff)
  have rules: "map_of (AuthPolicy_Rules locator e) k = auth_lookup (auth_new locator e) (AuthPolicy_Proper (ap_Spec e)) k" for k
    using e(3) by (simp add: rules_lookup ap_wf_def)
  show ?thesis
    using e(1) by (auto simp: desired_says [of _ "auth_new locator e"] rule_spec_new rules [symmetric] e(2))
qed

section \<open>Examples\<close>

text \<open>
  A cluster with one effective policy: its AuthConfig is out of date and has an owner of a third
  party, and an AuthConfig of another path of the rule is left over.
\<close>

definition ex_auth_view :: enforcement_view where
  "ex_auth_view = ex_view\<lparr>ev_KuadrantChildren := (\<lambda>_. [ex_child AuthorinoGroupKind ''authorino''])\<rparr>"

definition ex_auth_env :: "(string, nat, nat) auth_env" where
  "ex_auth_env = \<lparr>ae_Objects = \<lparr>oe_Api = (\<lambda>_. None), oe_Destruct = (\<lambda>_. True), oe_Now = 0\<rparr>,
     ae_Inject = (\<lambda>name m. gm_set ''traceparent'' name m), ae_Json = (\<lambda>properties. ''json''), ae_RefLocator = (\<lambda>_. ''route''),
     ae_Stores = (\<lambda>_. ex_bind DOMAIN_AUTH ''a'' ''1'' NewRegisteredDataStore), ae_Mutators = [0],
     ae_Locator = (\<lambda>t. ''rule''), ae_Sha = (\<lambda>x. CHR ''h'' # x),
     ae_ParseGroup = (\<lambda>v. if v = ''kuadrant.io/v1beta1'' then Some ''kuadrant.io'' else Some []), ae_UID = (\<lambda>_. ''1'')\<rparr>"

definition ex_auth_path :: "string auth_path" where
  "ex_auth_path = (''id'', \<lparr>ep_Path = ex_ready_path, ep_Spec = ex_route_ap, ep_SourcePolicies = []\<rparr>)"

definition ex_auth_owner :: OwnerReference where
  "ex_auth_owner = \<lparr>owner_APIVersion = ''v1'', owner_Kind = ''ConfigMap'', owner_Name = ''c'', owner_UID = ''2'',
     owner_BlockOwnerDeletion = None, owner_Controller = None\<rparr>"

definition ex_old_config :: "string \<Rightarrow> string AuthConfigObject" where
  "ex_old_config name = \<lparr>obj_Group = fst AuthConfigGroupKind, obj_Kind = snd AuthConfigGroupKind, obj_Namespace = ''ns'', obj_Name = name,
     obj_Annotations = Some [(AuthConfigHTTPRouteRuleAnnotation, ''rule''), (''note'', ''kept'')],
     obj_OwnerReferences = [ex_auth_owner], mo_Labels = AuthObjectLabels,
     mo_Spec = policySpec \<lparr>ap_NamedPatterns = [], ap_When = \<lparr>mwp_Predicates = [], mwp_Source = []\<rparr>, ap_AuthScheme = None\<rparr> name\<rparr>"

lemma ex_auth_env_injects: "injects_trace_fields ex_auth_env"
  by (auto simp: injects_trace_fields_def ex_auth_env_def trace_fields_def)

theorem auth_configs_converge_witness:
  "\<exists>st' modified items2.
    AuthConfigsReconciler_Reconcile ex_auth_env ex_auth_view ex_nothing_modified (Some [ex_auth_path])
      (ruleChildren ex_auth_env [ex_old_config ''hid'', ex_old_config ''gone'']) [ex_old_config ''hid'', ex_old_config ''gone'']
      \<lparr>os_Ops = [], os_Errors = []\<rparr> = (st', modified) \<and>
    items2 = applyOps (os_Ops st') [ex_old_config ''hid'', ex_old_config ''gone''] \<and> length items2 = 1 \<and>
    (\<forall>o'\<in>set items2. mo_GroupKind o' = AuthConfigGroupKind \<longrightarrow> selectorMatches (mo_Labels o') AuthObjectLabels \<longrightarrow>
      (\<exists>item\<in>set [ex_auth_path]. \<exists>d. pathAuthConfig ex_auth_env ''ns'' (BuildOwnerReference (ae_UID ex_auth_env)
        (Some \<lparr>kd_Name = ''kuadrant'', kd_Deleted = False, kd_Mode = []\<rparr>)) item = Inr d \<and> mo_Key o' = mo_Key d \<and>
        equalAuthConfigs (ae_ParseGroup ex_auth_env) o' d))"
proof -
  let ?items = "[ex_old_config ''hid'', ex_old_config ''gone'']" and ?st = "\<lparr>os_Ops = [], os_Errors = []\<rparr> :: string AuthConfigSpec object_state"
  have authorino: "GetAuthorinoFromTopology ex_auth_view ex_nothing_modified = Some (ex_child AuthorinoGroupKind ''authorino'')" by code_simp
  have ns: "to_Namespace (ex_child AuthorinoGroupKind ''authorino'') = ''ns''" by (simp add: ex_child_def)
  have kuadrant: "GetKuadrantFromTopology ex_auth_view ex_nothing_modified = Some \<lparr>kd_Name = ''kuadrant'', kd_Deleted = False, kd_Mode = []\<rparr>"
    by code_simp
  have wf: "list_all policy_wf [ex_auth_path]"
    by (simp add: policy_wf_def ex_auth_path_def ex_ap_defs AuthPolicy_Proper_def proper_wf_def scheme_wf_def response_wf_def)
  have link: "list_all (\<lambda>o'. pathLink ex_auth_env ex_auth_path o' \<and> selectorMatches (mo_Labels o') AuthObjectLabels) ?items" by code_simp
  have items: "distinct (map mo_Key ?items)" by code_simp
  have place: "objects_in_place build (pathLink ex_auth_env) AuthObjectLabels [ex_auth_path] ?items" for build
    using link items by (auto simp: objects_in_place_def)
  have one: "one_namespace ex_auth_env (to_Namespace (ex_child AuthorinoGroupKind ''authorino'')) [ex_auth_path] ?items"
    by (simp add: one_namespace_def ex_old_config_def ns)
  have count: "length (applyOps (os_Ops (fst (AuthConfigsReconciler_Reconcile ex_auth_env ex_auth_view ex_nothing_modified (Some [ex_auth_path])
      (ruleChildren ex_auth_env ?items) ?items ?st))) ?items) = 1" by code_simp
  from auth_configs_converge [OF authorino kuadrant refl ex_auth_env_injects _ _ _ _ wf place one, of ?st]
  obtain st' modified items2 where r: "AuthConfigsReconciler_Reconcile ex_auth_env ex_auth_view ex_nothing_modified (Some [ex_auth_path])
      (ruleChildren ex_auth_env ?items) ?items ?st = (st', modified)" "items2 = applyOps (os_Ops st') ?items"
    and only: "\<forall>o'\<in>set items2. mo_GroupKind o' = AuthConfigGroupKind \<longrightarrow> selectorMatches (mo_Labels o') AuthObjectLabels \<longrightarrow>
      (\<exists>item\<in>set [ex_auth_path]. \<exists>d. pathAuthConfig ex_auth_env ''ns'' (BuildOwnerReference (ae_UID ex_auth_env)
        (Some \<lparr>kd_Name = ''kuadrant'', kd_Deleted = False, kd_Mode = []\<rparr>)) item = Inr d \<and> mo_Key o' = mo_Key d \<and>
        equalAuthConfigs (ae_ParseGroup ex_auth_env) o' d)"
    unfolding ns by (auto simp: ex_auth_env_def inj_on_def)
  from r count have "length items2 = 1" by simp
  with r only show ?thesis by blast
qed

theorem auth_config_enforces_merge_witness:
  "\<exists>e. EffectivePolicyForPath (ap_ops ex_locator) Some [ex_gateway_ap, ex_route_ap] = Return (Some (Some e)) \<and>
    (\<forall>k. k \<noteq> kuadrantDataKey \<longrightarrow>
      authConfig_says (mo_Spec (buildDesiredAuthConfig ex_auth_env \<lparr>ep_Path = ex_ready_path, ep_Spec = e, ep_SourcePolicies = []\<rparr>
          ''hid'' ''ns'' [] AuthConfigHTTPRouteRuleAnnotation ''rule'')) k =
        Option.bind (effective_rules (ap_ops ex_locator) auth_substantive [ex_gateway_ap, ex_route_ap] k) rule_spec)"
  by (rule auth_config_enforces_merge) (simp_all add: ex_ap_wf)

text \<open>
  An update keeps what others wrote: the owners of third parties in their order and every annotation
  that is neither a back reference nor a trace field.
\<close>

lemma update_keeps_foreign:
  assumes "injects_trace_fields ae"
  shows "filter (\<lambda>ref. \<not> isKuadrantOwnerReference (ae_ParseGroup ae) ref) (obj_OwnerReferences (applyAuthConfigUpdate ae existing desired)) =
      filter (\<lambda>ref. \<not> isKuadrantOwnerReference (ae_ParseGroup ae) ref) (obj_OwnerReferences existing)"
    and "k \<notin> set trace_fields \<Longrightarrow> k \<noteq> AuthConfigHTTPRouteRuleAnnotation \<Longrightarrow> k \<noteq> AuthConfigGRPCRouteRuleAnnotation \<Longrightarrow>
      AnnotationOf (applyAuthConfigUpdate ae existing desired) k = AnnotationOf existing k"
  using update_annotations(3) [OF assms] upsert_third_party by (simp_all add: applyAuthConfigUpdate_def Let_def)

text \<open>
  Data that extensions bind for authentication reaches the AuthConfig only if the effective policy
  has an auth scheme, and there it replaces metadata that the policy has under the reserved name.
\<close>

definition ex_scheme_path :: "string AuthSchemeSpec option \<Rightarrow> string AuthPolicy EffectivePolicy" where
  "ex_scheme_path scheme = \<lparr>ep_Path = ex_ready_path, ep_Spec = ex_route_ap\<lparr>ap_Spec := (ap_Spec ex_route_ap)\<lparr>ap_Defaults := None, ap_Overrides := None,
     ap_Bare := \<lparr>ap_NamedPatterns = [], ap_When = \<lparr>mwp_Predicates = [], mwp_Source = []\<rparr>, ap_AuthScheme = scheme\<rparr>\<rparr>\<rparr>, ep_SourcePolicies = []\<rparr>"

definition ex_reserved_scheme :: "string AuthSchemeSpec" where
  "ex_reserved_scheme = \<lparr>auth_Authentication = [], auth_Metadata = [], auth_Authorization = [],
     auth_Response = Some \<lparr>resp_Unauthenticated = None, resp_Unauthorized = None, resp_Success = \<lparr>succ_Headers = [],
       succ_DynamicMetadata = [(KuadrantDataNamespace, \<lparr>mar_Spec = ''mine'', mar_Source = []\<rparr>)]\<rparr>\<rparr>, auth_Callbacks = []\<rparr>"

lemma no_scheme_no_bindings:
  "authConfig_says (desiredSpec ex_auth_env (ex_scheme_path None) ''hid'') kuadrantDataKey = None \<and>
   authConfig_says (desiredSpec ex_auth_env (ex_scheme_path (Some (ex_reserved_scheme\<lparr>auth_Response := None\<rparr>))) ''hid'') kuadrantDataKey = Some ''json''"
  by code_simp

lemma reserved_metadata_replaced:
  "authConfig_says (desiredSpec (ex_auth_env\<lparr>ae_Mutators := []\<rparr>) (ex_scheme_path (Some ex_reserved_scheme)) ''hid'') kuadrantDataKey = Some ''mine'' \<and>
   authConfig_says (desiredSpec ex_auth_env (ex_scheme_path (Some ex_reserved_scheme)) ''hid'') kuadrantDataKey = Some ''json''"
  by code_simp

end
