(* ===== verification/Extension_Service_Safety.thy ===== *)
theory Extension_Service_Safety
  imports Extension_Service
begin

text \<open>
  What the handlers of the extension service guarantee together: every handler is a sequence of
  steps of the data store and of the session store, so their invariants hold for the service; a
  pipeline that was committed can always be translated; a commit and a handshake happen as a
  whole or not at all; names of action methods stay unique even when registrations race.
\<close>

section \<open>Frames\<close>

lemma changeNotifier_frame [simp]:
  "es_registeredData (snd (changeNotifier notifier reason s)) = es_registeredData s"
  "es_sessionStore (snd (changeNotifier notifier reason s)) = es_sessionStore s"
  by (simp_all add: changeNotifier_def split: option.splits)

lemma changeNotifier_fst: "changeNotifier notifier reason s = (failed, s') \<Longrightarrow>
    es_registeredData s' = es_registeredData s \<and> es_sessionStore s' = es_sessionStore s"
  by (auto simp: changeNotifier_def split: option.splits)

lemma pruneStalePolicies_frame:
  "es_registeredData (pruneStalePolicies notifier policyKind owned s) = fst (PruneToOwned policyKind owned (es_registeredData s))"
  "es_sessionStore (pruneStalePolicies notifier policyKind owned s) = es_sessionStore s"
  by (simp_all add: pruneStalePolicies_def Let_def split: prod.splits)

section \<open>Steps of the parts\<close>

lemma setLocators_steps: "store_step\<^sup>*\<^sup>* r (snd (setLocators policyID domain binding entry refs r))"
proof (induction refs arbitrary: r)
  case (Cons ref refs)
  then show ?case
    by (cases ref) (auto intro: converse_rtranclp_into_rtranclp store_step.set_data)
qed simp

text \<open>An update of the graph only updates values of subscriptions.\<close>

lemma notifyChanges_rel:
  assumes "notifyChanges eval equalVal send subs r = (err, events, r')"
    and upd: "\<And>p e v r. R r (fst (UpdateSubscriptionValue p e v r))"
    and R_refl: "\<And>r. R r r" and R_trans: "\<And>r s t. R r s \<Longrightarrow> R s t \<Longrightarrow> R r t"
  shows "R r r'"
  using assms(1)
proof (induction eval equalVal send subs r arbitrary: err events r' rule: notifyChanges.induct)
  case (2 eval equalVal send key sub subs r)
  show ?case
  proof (cases "eval (sub_CAst sub) (sub_Input sub)")
    case (Inl e)
    with 2 show ?thesis by simp
  next
    case (Inr newVal)
    let ?r = "fst (UpdateSubscriptionValue (sk_Policy key) (sk_Expression key) newVal r)"
    have step: "R r ?r" by (rule upd)
    show ?thesis
    proof (cases "equalVal newVal (sub_Val sub) \<or> map_of (sub_Input sub) ''self'' = None \<or>
        (\<exists>p e. map_of (sub_Input sub) ''self'' = Some p \<and> send (pol_Metadata p) = Some e)")
      case True
      with 2 Inr step show ?thesis by (auto simp: Let_def R_refl split: if_splits)
    next
      case False
      then obtain policy where policy: "\<not> equalVal newVal (sub_Val sub)" "map_of (sub_Input sub) ''self'' = Some policy"
          "send (pol_Metadata policy) = None" by auto
      obtain err2 events2 r2 where rest: "notifyChanges eval equalVal send subs ?r = (err2, events2, r2)" by (metis prod_cases3)
      have "R ?r r2" using "2.IH"(3) [OF Inr policy(1) refl policy(2,3) rest] .
      moreover have "r' = r2" using "2.prems" Inr policy rest by (simp add: Let_def)
      ultimately show ?thesis using R_trans [OF step] by simp
    qed
  qed
qed (simp add: R_refl)

lemma notifyChanges_steps:
  "notifyChanges eval equalVal send subs r = (err, events, r') \<Longrightarrow> store_step\<^sup>*\<^sup>* r r'"
  by (erule notifyChanges_rel) (auto intro: store_step.update_subscription rtranclp_trans)

lemma notifyChanges_frame:
  "notifyChanges eval equalVal send subs r = (err, events, r') \<Longrightarrow> st_pipelineActions r' = st_pipelineActions r"
  by (erule notifyChanges_rel) (auto simp: UpdateSubscriptionValue_def split: option.splits)

lemma PipelineCommit_steps:
  "PipelineCommit parseCEL parse notifier request s = (result, s') \<Longrightarrow>
    store_step\<^sup>*\<^sup>* (es_registeredData s) (es_registeredData s') \<and> es_sessionStore s' = es_sessionStore s"
proof -
  assume a: "PipelineCommit parseCEL parse notifier request s = (result, s')"
  have one: "store_step\<^sup>*\<^sup>* r (fst (ReplacePipelineActions p entries r))" for p entries and r :: "('a, 'b) RegisteredDataStore"
    by (rule r_into_rtranclp) (rule store_step.replace_actions)
  then have two: "store_step\<^sup>*\<^sup>* r (SetPipelineTargetRefs p refs (fst (ReplacePipelineActions p entries r)))"
    for p entries refs and r :: "('a, 'b) RegisteredDataStore"
    by (rule rtranclp.rtrancl_into_rtrancl) (rule store_step.set_targets)
  have "es_registeredData s' = es_registeredData s \<or>
      (\<exists>p entries. es_registeredData s' = fst (ReplacePipelineActions p entries (es_registeredData s))) \<or>
      (\<exists>p entries refs. es_registeredData s' = SetPipelineTargetRefs p refs (fst (ReplacePipelineActions p entries (es_registeredData s))))"
    and "es_sessionStore s' = es_sessionStore s"
    using a by (auto simp: PipelineCommit_def Let_def dest!: changeNotifier_fst split: option.splits sum.splits prod.splits)
      (metis fst_conv)+
  with one two show ?thesis by (metis rtranclp.rtrancl_refl)
qed

text \<open>The session step of a handshake, and what it does to the data.\<close>

lemma Handshake_parts:
  assumes "Handshake parseVersion trs sars notifier now gen request s = (response, s')"
  obtains (rejected) "\<not> hr_Accepted response" "s' = s"
  | (refused) identity e store where "\<not> hr_Accepted response"
      "CreateSession now gen identity (hq_PolicyKind request) (es_sessionStore s) = (Inl e, store)" "s' = s\<lparr>es_sessionStore := store\<rparr>"
  | (accepted) identity owned token store where "hr_Accepted response" "hr_SessionToken response = token"
      "Compatible parseVersion (hq_Version request) protocol_Version = None" "hq_PolicyKind request \<noteq> []"
      "ownedResourceIDs (hq_PolicyKind request) (hq_OwnedPolicies request) = Inr owned"
      "handshakeIdentity trs sars (hq_Token request) (hq_PolicyKind request) (es_sessionStore s) = Inr identity"
      "CreateSession now gen identity (hq_PolicyKind request) (es_sessionStore s) = (Inr token, store)"
      "s' = pruneStalePolicies notifier (hq_PolicyKind request) owned (s\<lparr>es_sessionStore := store\<rparr>)"
proof (cases "Compatible parseVersion (hq_Version request) protocol_Version \<noteq> None \<or> hq_PolicyKind request = [] \<or>
    isl (ownedResourceIDs (hq_PolicyKind request) (hq_OwnedPolicies request)) \<or>
    isl (handshakeIdentity trs sars (hq_Token request) (hq_PolicyKind request) (es_sessionStore s))")
  case True
  have "\<not> hr_Accepted r" if "handshakeIdentity trs sars (hq_Token request) (hq_PolicyKind request) (es_sessionStore s) = Inl r" for r
    using that by (auto simp: handshakeIdentity_def handshakeRejected_def Let_def split: prod.splits if_splits sum.splits)
  with True assms show ?thesis
    by (intro rejected) (auto simp: Handshake_def handshakeRejected_def isl_def split: option.splits sum.splits if_splits)
next
  case False
  then obtain owned identity where ids: "Compatible parseVersion (hq_Version request) protocol_Version = None" "hq_PolicyKind request \<noteq> []"
      "ownedResourceIDs (hq_PolicyKind request) (hq_OwnedPolicies request) = Inr owned"
      "handshakeIdentity trs sars (hq_Token request) (hq_PolicyKind request) (es_sessionStore s) = Inr identity"
    by (auto simp: isl_def) (metis sum.exhaust)
  obtain created store where c: "CreateSession now gen identity (hq_PolicyKind request) (es_sessionStore s) = (created, store)" by fastforce
  show ?thesis
  proof (cases created)
    case (Inl e)
    with assms ids c show ?thesis by (intro refused [OF _ c [unfolded Inl]]) (auto simp: Handshake_def handshakeRejected_def)
  next
    case (Inr token)
    with assms ids c show ?thesis by (intro accepted [OF _ _ ids c [unfolded Inr]]) (auto simp: Handshake_def)
  qed
qed

lemma Handshake_steps:
  assumes "Handshake parseVersion trs sars notifier (sv_clock y) gen request (sv_service y) = (response, s)"
  shows "store_step\<^sup>*\<^sup>* (es_registeredData (sv_service y)) (es_registeredData s)"
    and "session_step\<^sup>*\<^sup>* (sessions_of y) (sessions_of (y\<lparr>sv_service := s\<rparr>))"
proof -
  have create: "session_step\<^sup>*\<^sup>* (sessions_of y) (sessions_of (y\<lparr>sv_service := s2\<rparr>))"
    if "CreateSession (sv_clock y) gen identity kind (es_sessionStore (sv_service y)) = (r, es_sessionStore s2)" for identity kind r s2
    using session_step.create [of "sessions_of y" gen identity kind r "es_sessionStore s2"] that by (simp add: sessions_of_def)
  from assms have "store_step\<^sup>*\<^sup>* (es_registeredData (sv_service y)) (es_registeredData s) \<and>
    session_step\<^sup>*\<^sup>* (sessions_of y) (sessions_of (y\<lparr>sv_service := s\<rparr>))"
  proof (cases rule: Handshake_parts)
    case rejected
    then show ?thesis by simp
  next
    case (refused identity e store)
    then show ?thesis using create [of identity _ "Inl e" s] by simp
  next
    case (accepted identity owned token store)
    then have "es_registeredData s = fst (PruneToOwned (hq_PolicyKind request) owned (es_registeredData (sv_service y)))"
      by (simp add: pruneStalePolicies_frame)
    then have "store_step\<^sup>*\<^sup>* (es_registeredData (sv_service y)) (es_registeredData s)"
      using store_step.prune r_into_rtranclp by metis
    with accepted create [of identity _ "Inr token" s] show ?thesis by (simp add: pruneStalePolicies_frame)
  qed
  then show "store_step\<^sup>*\<^sup>* (es_registeredData (sv_service y)) (es_registeredData s)"
    "session_step\<^sup>*\<^sup>* (sessions_of y) (sessions_of (y\<lparr>sv_service := s\<rparr>))" by blast+
qed

lemma RegisterMutator_steps:
  "RegisterMutator notifier request s = (result, s') \<Longrightarrow>
    store_step\<^sup>*\<^sup>* (es_registeredData s) (es_registeredData s') \<and> es_sessionStore s' = es_sessionStore s"
  using setLocators_steps [of "es_registeredData s"]
  by (auto simp: RegisterMutator_def Let_def split: option.splits sum.splits if_splits prod.splits) (metis snd_conv)+

lemma ClearPolicy_data:
  "ClearPolicy notifier request s = (result, s') \<Longrightarrow>
    (es_registeredData s' = es_registeredData s \<or> (\<exists>p. es_registeredData s' = fst (ClearPolicyData [p] (es_registeredData s)))) \<and>
    es_sessionStore s' = es_sessionStore s"
  by (auto simp: ClearPolicy_def Let_def split: option.splits sum.splits if_splits prod.splits) (metis fst_conv)+

lemma commitActionMethod_data:
  "commitActionMethod notifier q key entry fds s = (result, s') \<Longrightarrow>
    es_registeredData s' = fst (SetUpstreamIfNameAvailable key entry fds (es_registeredData s)) \<and>
    es_sessionStore s' = es_sessionStore s"
  by (auto simp: commitActionMethod_def Let_def split: if_splits prod.splits)

lemma Resolve_data:
  "Resolve compile eval toValue request s = (result, s') \<Longrightarrow>
    (es_registeredData s' = es_registeredData s \<or> (\<exists>p e sub. es_registeredData s' = SetSubscription p e sub (es_registeredData s))) \<and>
    es_sessionStore s' = es_sessionStore s"
  by (auto simp: Resolve_def Let_def split: option.splits sum.splits if_splits prod.splits) blast+

lemma sessions_of_data: "es_sessionStore s = es_sessionStore (sv_service y) \<Longrightarrow> sessions_of (y\<lparr>sv_service := s\<rparr>) = sessions_of y"
  by (simp add: sessions_of_def)

text \<open>The service refines its two parts: a step of it is a run of each.\<close>

lemma service_step_parts:
  assumes "service_step y z"
  shows "store_step\<^sup>*\<^sup>* (es_registeredData (sv_service y)) (es_registeredData (sv_service z)) \<and>
    session_step\<^sup>*\<^sup>* (sessions_of y) (sessions_of z)"
  using assms
proof (cases rule: service_step.cases)
  case (sessions z')
  then have "sessions_of z = z'" by (simp add: sessions_of_def with_sessions_def)
  with sessions show ?thesis by (auto simp: with_sessions_def)
next
  case (handshake parseVersion trs sars notifier gen request response s)
  with Handshake_steps [OF handshake(2)] show ?thesis by simp
next
  case (release identity result s)
  then have "es_registeredData s = es_registeredData (sv_service y)" and
    "session_step\<^sup>*\<^sup>* (sessions_of y) (sessions_of (y\<lparr>sv_service := s\<rparr>))"
    using session_step.revoke [of "sessions_of y"]
    by (auto simp: ReleaseSession_def sessions_of_def split: option.splits)
  with release show ?thesis by simp
next
  case (register_mutator notifier mrequest result s)
  with RegisterMutator_steps [OF register_mutator(2)] show ?thesis by (simp add: sessions_of_data)
next
  case (clear_policy notifier crequest cresult s)
  moreover have "store_step\<^sup>*\<^sup>* r (fst (ClearPolicyData ps r))" for ps and r :: "('a, 'b) RegisteredDataStore"
    by (rule r_into_rtranclp) (rule store_step.clear_policies)
  ultimately show ?thesis using ClearPolicy_data [OF clear_policy(2)] by (auto simp: sessions_of_data)
next
  case (register_method url_Parse fetch q earlier key entry fds notifier result s)
  with commitActionMethod_data [OF register_method(3)] show ?thesis
    by (auto simp: sessions_of_data intro!: r_into_rtranclp store_step.set_upstream)
next
  case (pipeline_commit parseCEL parse notifier prequest result s)
  with PipelineCommit_steps [OF pipeline_commit(2)] show ?thesis by (simp add: sessions_of_data)
next
  case (subscribe eval equalVal send policyKind err events s)
  then show ?thesis
    by (auto simp: subscribeUpdate_def Let_def sessions_of_data dest: notifyChanges_steps split: prod.splits)
next
  case (resolve compile reval toValue rrequest rresult s)
  moreover have "store_step\<^sup>*\<^sup>* r (SetSubscription p e sub r)" for p e sub and r :: "('a, 'b) RegisteredDataStore"
    by (rule r_into_rtranclp) (rule store_step.set_subscription)
  ultimately show ?thesis using Resolve_data [OF resolve(2)] by (auto simp: sessions_of_data)
qed

section \<open>Committed pipelines\<close>

text \<open>What an entry that passed validation satisfies.\<close>

definition entry_checked :: "('ast, 'val) RegisteredDataStore \<Rightarrow> ResourceID \<Rightarrow> ActionEntry \<Rightarrow> bool" where
  "entry_checked r policyID e \<longleftrightarrow> valid_entry \<lparr>pa_Index = 0, pa_Entry = Some e\<rparr> \<and>
     (case GetDeny e of None \<Rightarrow> True | Some deny \<Rightarrow> da_WithStatus deny = 0 \<or> (100 \<le> da_WithStatus deny \<and> da_WithStatus deny \<le> 599)) \<and>
     (case GetGrpc e of None \<Rightarrow> True | Some grpc \<Rightarrow> HasUpstreamName policyID (ga_Method grpc) r \<and>
        (ga_Var grpc = [] \<or> varNameMatches (ga_Var grpc)))"

lemma validateAction_ok:
  "validateAction parseCEL r policyID (ae_Action e) m = Inr m' \<Longrightarrow> phaseFromProto (ae_Phase e) \<noteq> None \<Longrightarrow> entry_checked r policyID e"
  by (auto simp: validateAction_def entry_checked_def valid_entry_def GetDeny_def GetGrpc_def validateDenyEntry_def
      validateHTTPStatusCode_def validateGRPCEntry_def split: option.splits pbAction.splits if_splits)

lemma validateEntries_ok:
  "validateEntries parseCEL r policyID i actions m = Inr (entries, m') \<Longrightarrow>
    actions = map Some entries \<and> list_all (entry_checked r policyID) entries"
proof (induction actions arbitrary: i m entries m')
  case (Cons action actions)
  obtain e m1 es where e: "atAction i (validateEntry parseCEL r policyID action m) = Inr (e, m1)"
    and es: "validateEntries parseCEL r policyID (Suc i) actions m1 = Inr (es, m')" "entries = e # es"
    using Cons.prems by (auto split: prod.splits)
  have "action = Some e \<and> entry_checked r policyID e"
    using e by (auto simp: atAction_def validateEntry_def intro: validateAction_ok split: sum.splits option.splits if_splits)
  with Cons.IH [OF es(1)] es(2) show ?case by simp
qed simp

definition wrap :: "ActionEntry \<Rightarrow> PipelineActionEntry" where
  "wrap action = \<lparr>pa_Index = 0, pa_Entry = Some action\<rparr>"

lemma validateActions_ok:
  "validateActions parseCEL parse r policyID actions = Inr entries \<Longrightarrow>
    \<exists>es. actions = map Some es \<and> entries = map wrap es \<and> list_all (entry_checked r policyID) es"
  by (auto simp: validateActions_def wrap_def fun_eq_iff dest!: validateEntries_ok split: prod.splits)

lemma checkEntries_wrap: "list_all (entry_checked r policyID) es \<Longrightarrow> checkEntries i (map wrap es) = None"
  by (induction es arbitrary: i) (auto simp: wrap_def entry_checked_def valid_entry_def split: option.splits)

text \<open>No check reports that a pipeline was committed.\<close>

lemma atAction_Inl: "atAction i r = Inl e \<Longrightarrow> e \<noteq> CommittedNotNotified n"
  by (auto simp: atAction_def split: sum.splits)

lemma efold_Inl: "efold f xs s = Inl e \<Longrightarrow> (\<And>x s. f x s = Inl e \<Longrightarrow> P) \<Longrightarrow> P"
  by (induction xs arbitrary: s) (auto simp: ebind_case split: sum.splits)

lemma validateEntries_Inl: "validateEntries parseCEL r policyID i actions m = Inl e \<Longrightarrow> e \<noteq> CommittedNotNotified n"
  by (induction actions arbitrary: i m) (auto simp: ebind_case dest: atAction_Inl split: sum.splits prod.splits)

lemma validateActions_Inl: "validateActions parseCEL parse r policyID actions = Inl e \<Longrightarrow> e \<noteq> CommittedNotNotified n"
  by (auto simp: validateActions_def ebind_case validateCrossActionVars_def dest: validateEntries_Inl atAction_Inl
      elim!: efold_Inl split: sum.splits prod.splits if_splits)

lemma pipelineTargetRefs_Inl: "pipelineTargetRefs policyID policy = Inl e \<Longrightarrow> e \<noteq> CommittedNotNotified n"
proof -
  have "etraverse (\<lambda>ref. case ref of None \<Rightarrow> Inl (TargetRefNil policyID) | Some ref \<Rightarrow> Inr (targetRefFromProtobuf ref)) refs = Inl e \<Longrightarrow>
      e = TargetRefNil policyID" for refs
    by (induction refs) (auto simp: ebind_case split: sum.splits option.splits)
  then show "pipelineTargetRefs policyID policy = Inl e \<Longrightarrow> e \<noteq> CommittedNotNotified n"
    by (auto simp: pipelineTargetRefs_def Let_def split: if_splits)
qed

lemma validatePolicyRequest_Inl: "validatePolicyRequest policy = Inl e \<Longrightarrow> e \<noteq> CommittedNotNotified n"
  by (auto simp: validatePolicyRequest_def split: option.splits if_splits)

lemmas check_errors = validatePolicyRequest_Inl validateActions_Inl pipelineTargetRefs_Inl

lemma PipelineCommit_cases:
  assumes "PipelineCommit parseCEL parse notifier request s = (result, s')"
  obtains (failed) e where "result = Inl e" "\<And>n. e \<noteq> CommittedNotNotified n" "s' = s"
  | (committed) q policyID es refs where "request = Some q" "validatePolicyRequest (pq_Policy q) = Inr policyID"
      "pq_Actions q = map Some es" "list_all (entry_checked (es_registeredData s) policyID) es"
      "pipelineTargetRefs policyID (pq_Policy q) = Inr refs"
      "es_registeredData s' = SetPipelineTargetRefs policyID refs (fst (ReplacePipelineActions policyID (map wrap es) (es_registeredData s)))"
      "es_sessionStore s' = es_sessionStore s" "checkEntries 0 (map wrap es) = None"
      "result = Inr () \<or> (\<exists>n. result = Inl (CommittedNotNotified n))"
proof (cases "\<exists>q policyID entries refs. request = Some q \<and> validatePolicyRequest (pq_Policy q) = Inr policyID \<and>
    validateActions parseCEL parse (es_registeredData s) policyID (pq_Actions q) = Inr entries \<and>
    pipelineTargetRefs policyID (pq_Policy q) = Inr refs")
  case True
  then obtain q policyID entries refs where q: "request = Some q" "validatePolicyRequest (pq_Policy q) = Inr policyID"
    "validateActions parseCEL parse (es_registeredData s) policyID (pq_Actions q) = Inr entries"
    "pipelineTargetRefs policyID (pq_Policy q) = Inr refs" by blast
  obtain es where es: "pq_Actions q = map Some es" "entries = map wrap es" "list_all (entry_checked (es_registeredData s) policyID) es"
    using validateActions_ok [OF q(3)] by blast
  have none: "checkEntries 0 (map wrap es) = None" using es(3) by (rule checkEntries_wrap)
  then have "ReplacePipelineActions policyID entries (es_registeredData s) =
      (fst (ReplacePipelineActions policyID (map wrap es) (es_registeredData s)), None)"
    by (simp add: es(2) ReplacePipelineActions_def)
  with assms q have "es_registeredData s' = SetPipelineTargetRefs policyID refs (fst (ReplacePipelineActions policyID (map wrap es) (es_registeredData s)))"
      "es_sessionStore s' = es_sessionStore s" "result = Inr () \<or> (\<exists>n. result = Inl (CommittedNotNotified n))"
    by (auto simp: PipelineCommit_def Let_def dest!: changeNotifier_fst split: prod.splits option.splits)
  with q es none show ?thesis by (intro committed) auto
next
  case False
  then obtain e where "result = Inl e" "\<And>n. e \<noteq> CommittedNotNotified n" "s' = s"
    using assms by (auto simp: PipelineCommit_def ebind_case dest: check_errors split: option.splits sum.splits)
  then show ?thesis by (rule failed)
qed

lemma SetPipelineTargetRefs_lookups [simp]:
  "GetPipelineActions p phase (SetPipelineTargetRefs policyID refs r) = GetPipelineActions p phase r"
  "refs \<noteq> [] \<Longrightarrow> GetPipelineTargetRefs p (SetPipelineTargetRefs policyID refs r) = (if p = policyID then refs else GetPipelineTargetRefs p r)"
  by (simp_all add: SetPipelineTargetRefs_def GetPipelineActions_def actionsAt_def GetPipelineTargetRefs_def)

lemma Replace_targets: "GetPipelineTargetRefs p (fst (ReplacePipelineActions policyID entries r)) = GetPipelineTargetRefs p r"
  by (subst ReplacePipelineActions_frame) (simp add: GetPipelineTargetRefs_def)

lemma valid_entry_cong: "pa_Entry e = pa_Entry e' \<Longrightarrow> valid_entry e = valid_entry e'"
  by (simp add: valid_entry_def)

lemma Replace_pipeline:
  assumes "checkEntries 0 (map wrap es) = None"
  shows "map pa_Entry (GetPipelineActions p phase (fst (ReplacePipelineActions policyID (map wrap es) r))) =
    (if p = policyID then map Some (filter (\<lambda>e. phaseFromProto (ae_Phase e) = Some phase) es)
     else map pa_Entry (GetPipelineActions p phase r))"
  by (simp add: GetPipelineActions_def ReplacePipelineActions_at(1) [OF assms] phaseEntries_def filter_map comp_def wrap_def entryPhase_def)

definition pipelines_valid :: "('ast, 'val) RegisteredDataStore \<Rightarrow> bool" where
  "pipelines_valid r \<longleftrightarrow> (\<forall>p phase. list_all valid_entry (GetPipelineActions p phase r))"

lemma pipelines_valid_entries:
  assumes "pipelines_valid r" and "\<And>p phase. set (map pa_Entry (GetPipelineActions p phase r')) \<subseteq>
      set (map pa_Entry (GetPipelineActions p phase r)) \<union> {Some e |e. valid_entry (wrap e)}"
  shows "pipelines_valid r'"
  unfolding pipelines_valid_def
proof (intro allI, unfold list_all_iff, rule ballI)
  fix p phase e
  assume "e \<in> set (GetPipelineActions p phase r')"
  then have "pa_Entry e \<in> set (map pa_Entry (GetPipelineActions p phase r)) \<union> {Some e |e. valid_entry (wrap e)}"
    using assms(2) [of p phase] by auto
  then obtain e' where "valid_entry e'" "pa_Entry e = pa_Entry e'"
    using assms(1) unfolding pipelines_valid_def list_all_iff by (auto simp: wrap_def)
  then show "valid_entry e" using valid_entry_cong by metis
qed

lemma pipelines_valid_tables: "pipelines_valid r \<Longrightarrow> st_pipelineActions r' = st_pipelineActions r \<Longrightarrow> pipelines_valid r'"
  by (simp add: pipelines_valid_def GetPipelineActions_def actionsAt_def)

lemma pipelines_valid_clear:
  assumes "store_step\<^sup>*\<^sup>* NewRegisteredDataStore r" and "pipelines_valid r"
  shows "pipelines_valid (fst (ClearPolicyData ps r))"
  using assms(2) ClearPolicyData_lookups(4) [OF assms(1) prod.collapse [symmetric], of _ _ ps]
  by (simp add: pipelines_valid_def)

lemma pipelines_valid_commit:
  assumes "PipelineCommit parseCEL parse notifier request s = (result, s')" and "pipelines_valid (es_registeredData s)"
  shows "pipelines_valid (es_registeredData s')"
  using assms(1)
proof (cases rule: PipelineCommit_cases)
  case (committed q policyID es refs)
  have "valid_entry (wrap e)" if "e \<in> set es" for e
    using committed(4) that by (auto simp: list_all_iff entry_checked_def wrap_def)
  then have "set (map pa_Entry (GetPipelineActions p phase (es_registeredData s'))) \<subseteq>
      set (map pa_Entry (GetPipelineActions p phase (es_registeredData s))) \<union> {Some e |e. valid_entry (wrap e)}" for p phase
    unfolding committed(6) SetPipelineTargetRefs_lookups Replace_pipeline [OF committed(8)] by auto
  then show ?thesis by (rule pipelines_valid_entries [OF assms(2)])
qed (use assms in simp)

lemma setLocators_frame: "st_pipelineActions (snd (setLocators policyID domain binding entry refs r)) = st_pipelineActions r"
  by (induction refs arbitrary: r) (auto simp: Store_Set_def split: option.splits)

text \<open>A pipeline in the store came from a commit, so every entry of it is valid.\<close>

lemma pipelines_valid_step:
  assumes "service_step y z" and "store_step\<^sup>*\<^sup>* NewRegisteredDataStore (es_registeredData (sv_service y))"
    and "pipelines_valid (es_registeredData (sv_service y))"
  shows "pipelines_valid (es_registeredData (sv_service z))"
  using assms(1)
proof (cases rule: service_step.cases)
  case (sessions z')
  with assms(3) show ?thesis by (simp add: with_sessions_def)
next
  case (handshake parseVersion trs sars notifier gen request response s)
  from handshake(2) have "es_registeredData s = es_registeredData (sv_service y) \<or>
      (\<exists>ps. es_registeredData s = fst (ClearPolicyData ps (es_registeredData (sv_service y))))"
    by (cases rule: Handshake_parts)
       (auto simp: pruneStalePolicies_frame PruneToOwned_def Let_def split: prod.splits, metis fst_conv)
  with handshake(1) assms(3) pipelines_valid_clear [OF assms(2,3)] show ?thesis by auto
next
  case (release identity result s)
  with assms(3) show ?thesis by (auto simp: ReleaseSession_def split: option.splits)
next
  case (register_mutator notifier mrequest result s)
  have "st_pipelineActions (es_registeredData s) = st_pipelineActions (es_registeredData (sv_service y))"
    using register_mutator(2) by (auto simp: RegisterMutator_def Let_def split: option.splits sum.splits if_splits prod.splits)
      (metis setLocators_frame snd_conv)+
  then show ?thesis using register_mutator(1) pipelines_valid_tables [OF assms(3)] by simp
next
  case (clear_policy notifier crequest cresult s)
  with ClearPolicy_data [OF clear_policy(2)] assms(3) pipelines_valid_clear [OF assms(2,3)] show ?thesis by auto
next
  case (register_method url_Parse fetch q earlier key entry fds notifier result s)
  have "st_pipelineActions (es_registeredData s) = st_pipelineActions (es_registeredData (sv_service y))"
    using commitActionMethod_data [OF register_method(3)] by (simp add: SetUpstreamIfNameAvailable_def)
  then show ?thesis using register_method(1) pipelines_valid_tables [OF assms(3)] by simp
next
  case (pipeline_commit parseCEL parse notifier prequest result s)
  with pipelines_valid_commit [OF pipeline_commit(2) assms(3)] show ?thesis by simp
next
  case (subscribe eval equalVal send policyKind err events s)
  have "st_pipelineActions (es_registeredData s) = st_pipelineActions (es_registeredData (sv_service y))"
    using subscribe(2) by (auto simp: subscribeUpdate_def Let_def dest: notifyChanges_frame split: prod.splits)
  then show ?thesis using subscribe(1) pipelines_valid_tables [OF assms(3)] by simp
next
  case (resolve compile reval toValue rrequest rresult s)
  have "st_pipelineActions (es_registeredData s) = st_pipelineActions (es_registeredData (sv_service y))"
    using Resolve_data [OF resolve(2)] by (auto simp: SetSubscription_def)
  then show ?thesis using resolve(1) pipelines_valid_tables [OF assms(3)] by simp
qed

definition service_inv :: "('ast, 'val) service_system \<Rightarrow> bool" where
  "service_inv y \<longleftrightarrow> store_step\<^sup>*\<^sup>* NewRegisteredDataStore (es_registeredData (sv_service y)) \<and>
     session_step\<^sup>*\<^sup>* session_start (sessions_of y) \<and> pipelines_valid (es_registeredData (sv_service y))"

interpretation services: transition_system service_start service_step service_inv
proof
  show "service_inv service_start"
    by (simp add: service_inv_def service_start_def newExtensionService_def sessions_of_def session_start_def pipelines_valid_def
        GetPipelineActions_def actionsAt_def NewRegisteredDataStore_def)
next
  fix s t :: "('a, 'b) service_system"
  assume "service_step s t" "service_inv s"
  then show "service_inv t"
    using service_step_parts [of s t] pipelines_valid_step [of s t] unfolding service_inv_def by (meson rtranclp_trans)
qed

section \<open>An example run\<close>

text \<open>An extension registers a method and commits a pipeline that denies depending on its answer.\<close>

definition ex_pb_policy :: pbPolicy where
  "ex_pb_policy = \<lparr>pol_Metadata = Some \<lparr>md_Group = ''x'', md_Kind = ''ThreatPolicy'', md_Name = ''p'', md_Namespace = ''ns''\<rparr>,
     pol_TargetRefs = [Some \<lparr>pt_Group = ''gateway.networking.k8s.io'', pt_Kind = ''HTTPRoute'', pt_Name = ''toys'', pt_Namespace = ''ns'',
       pt_SectionName = []\<rparr>]\<rparr>"

definition ex_url :: "string \<Rightarrow> string + parsedURL" where
  "ex_url u = Inr \<lparr>url_Scheme = ''grpc'', url_Host = ''threat:80'', url_Hostname = ''threat'', url_Port = ''80''\<rparr>"

definition ex_fetch :: "string \<Rightarrow> string \<Rightarrow> string \<Rightarrow> string + FileDescriptorSet" where
  "ex_fetch host service method = Inr ex_fds"

definition ex_method :: RegisterActionMethodRequest where
  "ex_method = \<lparr>ra_Policy = Some ex_pb_policy, ra_Name = ''check'', ra_Url = ''grpc://threat:80'', ra_Service = ''acme.Threat'',
     ra_Method = ''Check'', ra_MessageTemplate = ''{}''\<rparr>"

definition ex_commit :: PipelineCommitRequest where
  "ex_commit = \<lparr>pq_Policy = Some ex_pb_policy, pq_Actions =
     [Some \<lparr>ae_Phase = PHASE_REQUEST, ae_Predicate = [], ae_Action = Some (ActionEntry_Grpc (Some \<lparr>ga_Method = ''check'', ga_Var = ''threat''\<rparr>))\<rparr>,
      Some \<lparr>ae_Phase = PHASE_REQUEST, ae_Predicate = ''threat.inner'',
        ae_Action = Some (ActionEntry_Deny (Some \<lparr>da_WithStatus = 403, da_WithHeaders = [], da_WithBody = []\<rparr>))\<rparr>]\<rparr>"

definition ex_cel :: "string \<Rightarrow> string + celExpr" where
  "ex_cel expr = Inr (SelectExpr (IdentExpr ''threat'') ''inner'')"

definition ex_registered :: "(nat, nat) extensionService" where
  "ex_registered = snd (commitActionMethod None ex_method ex_upstream_key ex_upstream ex_fds newExtensionService)"

definition ex_committed :: "(nat, nat) extensionService" where
  "ex_committed = snd (PipelineCommit (\<lambda>expr. None) ex_cel None (Some ex_commit) ex_registered)"

definition ex_system :: "(nat, nat) service_system" where
  "ex_system = service_start\<lparr>sv_service := ex_committed\<rparr>"

lemma ex_prepared:
  "prepareActionMethod ex_url ex_fetch ex_method (NewRegisteredDataStore :: (nat, nat) RegisteredDataStore) = Inr (ex_upstream_key, ex_upstream, ex_fds)"
  by code_simp

lemma ex_commit_result: "fst (PipelineCommit (\<lambda>expr. None) ex_cel None (Some ex_commit) ex_registered) = Inr ()"
  by code_simp

lemma ex_system_reachable: "service_step\<^sup>*\<^sup>* service_start ex_system"
proof -
  let ?y = "service_start\<lparr>sv_service := ex_registered\<rparr>"
  have "service_step service_start ?y"
    by (rule service_step.register_method [OF ex_prepared, where notifier = None]) (simp add: ex_registered_def service_start_def prod_eq_iff)
  moreover have "service_step ?y (?y\<lparr>sv_service := ex_committed\<rparr>)"
    by (rule service_step.pipeline_commit [where parseCEL = "\<lambda>expr. None" and parse = ex_cel and notifier = None and prequest = "Some ex_commit"])
       (simp add: ex_committed_def prod_eq_iff)
  ultimately show ?thesis by (simp add: ex_system_def converse_rtranclp_into_rtranclp)
qed

section \<open>Translation never fails\<close>

lemma translate_valid:
  assumes "list_all valid_entry (req @ resp)"
  shows "\<exists>acts. translatePipelineToActions req resp methods ups sources = Inr acts"
proof -
  let ?P = "collectProducers (req @ resp)"
  obtain m where m: "classifyAndConvert ?P sources (req @ resp) [] = Inr m" using classifyAndConvert_valid [OF assms] by blast
  obtain em out where "emit ?P methods ups sources m (req @ resp) [] = Inr (em, out)" using emit_valid [OF assms] by blast
  with m show ?thesis by (simp add: translate_eq Let_def)
qed

lemma mutatePolicy_total:
  assumes "pipelines_valid r"
  shows "\<exists>sets'. mutatePolicy relevant keys ups r p sets = Inr sets'"
proof -
  have "list_all valid_entry (GetPipelineActions p PipelinePhaseRequest r @ GetPipelineActions p PipelinePhaseResponse r)"
    using assms by (simp add: pipelines_valid_def)
  from translate_valid [OF this, of "Deref (map_of keys p) []" "Deref (map_of ups p) []" "[policyLocatorOf p]"]
  show ?thesis by (auto simp: mutatePolicy_def Let_def)
qed

lemma efold_total: "(\<And>x s. \<exists>s'. f x s = Inr s') \<Longrightarrow> \<exists>s'. efold f xs s = Inr s'"
proof (induction xs arbitrary: s)
  case (Cons x xs)
  obtain t where "f x s = Inr t" using Cons.prems by blast
  with Cons.IH [OF Cons.prems, of t] show ?case by simp
qed simp

lemma mutateWasmConfig_total: "pipelines_valid r \<Longrightarrow> \<exists>c. mutateWasmConfig sha256hex8 r cfg refs = Inr c"
proof -
  assume "pipelines_valid r"
  then have "\<exists>sets'. efold (mutatePolicy relevant keys ups r) ps sets = Inr sets'" for relevant keys ups ps sets
    by (intro efold_total mutatePolicy_total)
  then show ?thesis by (simp add: mutateWasmConfig_def Let_def)
qed

text \<open>
  C23.  Whatever extensions send and in whatever order, the data they registered can always be
  turned into a configuration: in every state the service can reach, the data mutator succeeds
  on every configuration and every list of targets.  One extension cannot block the gateways.
\<close>

theorem mutator_never_fails:
  assumes "service_step\<^sup>*\<^sup>* service_start y"
  shows "\<exists>c. mutateWasmConfig sha256hex8 (es_registeredData (sv_service y)) cfg refs = Inr c"
  using services.inv_reachable [OF assms] mutateWasmConfig_total unfolding service_inv_def by blast

theorem mutator_never_fails_witness:
  "\<exists>c. mutateWasmConfig id (es_registeredData (sv_service ex_system)) ex_plain_config [policyTargetRef ''HTTPRoute'' ''toys'' ''ns''] = Inr c"
  using mutator_never_fails [OF ex_system_reachable] .



definition committed :: "service_error + unit \<Rightarrow> bool" where
  "committed result = (case result of Inr _ \<Rightarrow> True | Inl e \<Rightarrow> (case e of CommittedNotNotified n \<Rightarrow> True | _ \<Rightarrow> False))"

text \<open>
  C24.  A commit happens as a whole or not at all.  When it is refused nothing changes.  When it
  is done (also when only the notification failed) the pipeline of the policy is, phase by phase
  and in order, the list of actions of the request; its targets are those of the policy; every
  action is well formed, calls a registered method, and denies with a status that is 0 or between
  100 and 599; the pipelines and targets of other policies and the sessions are as before.
\<close>

theorem PipelineCommit_atomic:
  assumes "PipelineCommit parseCEL parse notifier (Some q) s = (result, s')"
  shows "if committed result
    then \<exists>policyID es. validatePolicyRequest (pq_Policy q) = Inr policyID \<and> pq_Actions q = map Some es \<and>
      list_all (entry_checked (es_registeredData s) policyID) es \<and> es_sessionStore s' = es_sessionStore s \<and>
      map pa_Entry (GetPipelineActions p phase (es_registeredData s')) =
        (if p = policyID then map Some (filter (\<lambda>e. phaseFromProto (ae_Phase e) = Some phase) es)
         else map pa_Entry (GetPipelineActions p phase (es_registeredData s))) \<and>
      GetPipelineTargetRefs p (es_registeredData s') =
        (if p = policyID then map (targetRefFromProtobuf \<circ> the) (pol_TargetRefs (the (pq_Policy q)))
         else GetPipelineTargetRefs p (es_registeredData s))
    else s' = s"
  using assms
proof (cases rule: PipelineCommit_cases)
  case (failed e)
  then have "\<not> committed result" by (auto simp: committed_def split: service_error.splits)
  with failed(3) show ?thesis by simp
next
  case (committed q2 policyID es refs)
  have "committed result" using committed(9) by (auto simp: committed_def)
  moreover have "refs \<noteq> [] \<and> refs = map (targetRefFromProtobuf \<circ> the) (pol_TargetRefs (the (pq_Policy q)))"
    using committed(1,5) by (auto simp: pipelineTargetRefs_def Let_def etraverse_eq_Inr list_all2_conv_all_nth
        intro!: nth_equalityI split: if_splits option.splits)
  ultimately show ?thesis using committed
    by (intro if_P [THEN iffD2] exI [of _ policyID] exI [of _ es]) (auto simp: Replace_pipeline Replace_targets simp del: map_map)
qed

theorem PipelineCommit_atomic_witness:
  "\<exists>es. pq_Actions ex_commit = map Some es \<and> list_all (entry_checked (es_registeredData ex_registered) ex_policy) es \<and>
    map pa_Entry (GetPipelineActions ex_policy PipelinePhaseRequest (es_registeredData ex_committed)) = pq_Actions ex_commit"
proof -
  have c: "PipelineCommit (\<lambda>expr. None) ex_cel None (Some ex_commit) ex_registered = (Inr (), ex_committed)"
    by (simp add: prod_eq_iff ex_commit_result ex_committed_def)
  have p: "validatePolicyRequest (pq_Policy ex_commit) = Inr ex_policy" by code_simp
  have f: "filter (\<lambda>e. phaseFromProto (ae_Phase (the e)) = Some PipelinePhaseRequest) (pq_Actions ex_commit) = pq_Actions ex_commit"
    by code_simp
  have "committed (Inr ())" by (simp add: committed_def)
  with PipelineCommit_atomic [OF c, of ex_policy PipelinePhaseRequest] p obtain es where
    "pq_Actions ex_commit = map Some es" "list_all (entry_checked (es_registeredData ex_registered) ex_policy) es"
    "map pa_Entry (GetPipelineActions ex_policy PipelinePhaseRequest (es_registeredData ex_committed)) =
      map Some (filter (\<lambda>e. phaseFromProto (ae_Phase e) = Some PipelinePhaseRequest) es)" by auto
  with f show ?thesis by (auto simp: filter_map comp_def)
qed

section \<open>Handshakes\<close>

definition recognised ::
  "(TokenReviewSpec \<Rightarrow> string + TokenReviewStatus) \<Rightarrow> (SubjectAccessReviewSpec \<Rightarrow> string + bool) \<Rightarrow> HandshakeRequest \<Rightarrow>
    SessionStore \<Rightarrow> string \<Rightarrow> bool" where
  "recognised trs sars request store identity \<longleftrightarrow>
     matchBuiltin (hq_Token request) store = (identity, True) \<or>
     (\<not> snd (matchBuiltin (hq_Token request) store) \<and> isWarmupComplete store \<and>
      authenticateStandalone trs sars (hq_Token request) (hq_PolicyKind request) = Inr identity)"

lemma handshakeIdentity_iff:
  "handshakeIdentity trs sars (hq_Token request) (hq_PolicyKind request) store = Inr identity \<longleftrightarrow> recognised trs sars request store identity"
  by (auto simp: handshakeIdentity_def recognised_def Let_def split: prod.splits if_splits sum.splits)

lemma Handshake_accepts:
  assumes "Compatible parseVersion (hq_Version request) protocol_Version = None" "hq_PolicyKind request \<noteq> []"
    "ownedResourceIDs (hq_PolicyKind request) (hq_OwnedPolicies request) = Inr owned"
    "recognised trs sars request (es_sessionStore s) identity"
    "fst (CreateSession now gen identity (hq_PolicyKind request) (es_sessionStore s)) = Inr token"
    "Handshake parseVersion trs sars notifier now gen request s = (response, s')"
  shows "hr_Accepted response \<and> hr_SessionToken response = token"
  using assms by (auto simp: Handshake_def handshakeIdentity_iff [symmetric] Let_def split: prod.splits)

text \<open>The condition under which no live session stands in the way.\<close>

abbreviation free_for :: "int \<Rightarrow> string \<Rightarrow> string \<Rightarrow> SessionStore \<Rightarrow> bool" where
  "free_for now identity kind store \<equiv> list_all (\<lambda>(t, sess). \<not> conflicts identity kind sess \<or> isStaleLocked now store sess) (ss_sessions store)"

lemma Handshake_accepted_iff:
  assumes "sessions_ok (ss_sessions (es_sessionStore s))"
    and "Handshake parseVersion trs sars notifier now gen request s = (response, s')"
  shows "hr_Accepted response \<and> hr_SessionToken response = token \<longleftrightarrow>
      Compatible parseVersion (hq_Version request) protocol_Version = None \<and> hq_PolicyKind request \<noteq> [] \<and> gen = Inr token \<and>
      (\<exists>owned. ownedResourceIDs (hq_PolicyKind request) (hq_OwnedPolicies request) = Inr owned) \<and>
      (\<exists>identity. recognised trs sars request (es_sessionStore s) identity \<and>
        free_for now identity (hq_PolicyKind request) (es_sessionStore s))" (is "?l \<longleftrightarrow> ?r")
proof
  assume ?l
  from assms(2) show ?r
  proof (cases rule: Handshake_parts)
    case (accepted identity owned tok store)
    have "tok = token" using accepted(2) \<open>?l\<close> by simp
    with accepted CreateSession_Inr_iff [OF assms(1), of now gen identity "hq_PolicyKind request" token]
    show ?thesis by (auto simp: handshakeIdentity_iff)
  qed (use \<open>?l\<close> in auto)
next
  assume r: ?r
  then obtain identity owned where "recognised trs sars request (es_sessionStore s) identity"
    "ownedResourceIDs (hq_PolicyKind request) (hq_OwnedPolicies request) = Inr owned"
    "fst (CreateSession now gen identity (hq_PolicyKind request) (es_sessionStore s)) = Inr token"
    using CreateSession_Inr_iff [OF assms(1), of now gen _ "hq_PolicyKind request" token] by blast
  with r Handshake_accepts [OF _ _ _ _ _ assms(2)] show ?l by blast
qed

lemma Handshake_effect:
  assumes "sessions_ok (ss_sessions (es_sessionStore s))"
    and "Handshake parseVersion trs sars notifier now gen request s = (response, s')"
  shows "if hr_Accepted response
    then \<exists>owned identity. ownedResourceIDs (hq_PolicyKind request) (hq_OwnedPolicies request) = Inr owned \<and>
      recognised trs sars request (es_sessionStore s) identity \<and>
      ValidateSession (hr_SessionToken response) (es_sessionStore s') = (identity, True) \<and>
      es_registeredData s' = fst (PruneToOwned (hq_PolicyKind request) owned (es_registeredData s))
    else es_registeredData s' = es_registeredData s \<and> es_notices s' = es_notices s"
  using assms(2)
proof (cases rule: Handshake_parts)
  case (accepted identity owned token store)
  from CreateSession_Inr [OF assms(1) accepted(7)]
  have "ValidateSession token store = (identity, True)"
    by (auto simp: ValidateSession_def sessions_ok_def newSession_def)
  with accepted show ?thesis
    by (intro if_P [THEN iffD2] exI [of _ owned] exI [of _ identity]) (auto simp: handshakeIdentity_iff pruneStalePolicies_frame)
qed auto

lemma Handshake_keeps_live:
  assumes "sessions_ok (ss_sessions (es_sessionStore s))"
    and "Handshake parseVersion trs sars notifier now gen request s = (response, s')"
    and "map_of (ss_sessions (es_sessionStore s)) t = Some sess" "\<not> isStaleLocked now (es_sessionStore s) sess" "gen \<noteq> Inr t"
  shows "map_of (ss_sessions (es_sessionStore s')) t = Some sess"
proof -
  note keeps = CreateSession_keeps_live [OF assms(1,3-5), where policyKind = "hq_PolicyKind request"]
  from assms(2) show ?thesis
  proof (cases rule: Handshake_parts)
    case (refused identity e store)
    then show ?thesis using keeps [of identity] by simp
  next
    case (accepted identity owned token store)
    then show ?thesis using keeps [of identity] by (simp add: pruneStalePolicies_frame)
  qed (use assms(3) in simp)
qed

lemma reachable_sessions_ok:
  assumes "service_step\<^sup>*\<^sup>* service_start y"
  shows "sessions_ok (ss_sessions (es_sessionStore (sv_service y)))"
proof -
  have "session_step\<^sup>*\<^sup>* session_start (sessions_of y)" using services.inv_reachable [OF assms] by (simp add: service_inv_def)
  then show ?thesis using sessions.inv_reachable [of "sessions_of y"] by (simp add: session_inv_def sessions_of_def)
qed

text \<open>
  C25.  A handshake is accepted with a token exactly when the version fits, a kind is named, the
  owned policies are well formed, the caller is a built-in extension or, after the warm-up, a
  Kubernetes identity that may register the kind, and no live session stands in the way.  Then
  the token is valid for that identity and the data of the kind is pruned to the owned policies;
  otherwise registered data and notifications are untouched.  In no case does a live session
  under another token change.
\<close>

theorem Handshake_correct:
  assumes "service_step\<^sup>*\<^sup>* service_start y"
    and "Handshake parseVersion trs sars notifier now gen request (sv_service y) = (response, s)"
  shows "(hr_Accepted response \<and> hr_SessionToken response = token \<longleftrightarrow>
      Compatible parseVersion (hq_Version request) protocol_Version = None \<and> hq_PolicyKind request \<noteq> [] \<and> gen = Inr token \<and>
      (\<exists>owned. ownedResourceIDs (hq_PolicyKind request) (hq_OwnedPolicies request) = Inr owned) \<and>
      (\<exists>identity. recognised trs sars request (es_sessionStore (sv_service y)) identity \<and>
        free_for now identity (hq_PolicyKind request) (es_sessionStore (sv_service y)))) \<and>
    (if hr_Accepted response
     then \<exists>owned identity. ownedResourceIDs (hq_PolicyKind request) (hq_OwnedPolicies request) = Inr owned \<and>
       recognised trs sars request (es_sessionStore (sv_service y)) identity \<and>
       ValidateSession (hr_SessionToken response) (es_sessionStore s) = (identity, True) \<and>
       es_registeredData s = fst (PruneToOwned (hq_PolicyKind request) owned (es_registeredData (sv_service y)))
     else es_registeredData s = es_registeredData (sv_service y) \<and> es_notices s = es_notices (sv_service y)) \<and>
    (map_of (ss_sessions (es_sessionStore (sv_service y))) t = Some sess \<longrightarrow>
      \<not> isStaleLocked now (es_sessionStore (sv_service y)) sess \<longrightarrow> gen \<noteq> Inr t \<longrightarrow>
      map_of (ss_sessions (es_sessionStore s)) t = Some sess)"
  by (intro conjI impI Handshake_accepted_iff [OF reachable_sessions_ok [OF assms(1)] assms(2)]
      Handshake_effect [OF reachable_sessions_ok [OF assms(1)] assms(2)]
      Handshake_keeps_live [OF reachable_sessions_ok [OF assms(1)] assms(2)])

definition ex_review :: "TokenReviewSpec \<Rightarrow> string + TokenReviewStatus" where
  "ex_review spec = Inr \<lparr>trt_Error = [], trt_Authenticated = True, trt_Audiences = trs_Audiences spec,
     trt_User = \<lparr>user_Username = ''sa:ext'', user_UID = ''1'', user_Groups = [], user_Extra = None\<rparr>\<rparr>"

definition ex_handshake :: HandshakeRequest where
  "ex_handshake = \<lparr>hq_Version = ''0.1.2'', hq_PolicyKind = ''OIDCPolicy'', hq_Token = ''jwt'', hq_OwnedPolicies = []\<rparr>"

theorem Handshake_correct_witness:
  "\<exists>response s identity. Handshake (\<lambda>v. Inr (0, 1)) ex_review (\<lambda>spec. Inr True) None 0 (Inr ''token'') ex_handshake (sv_service ex_system) = (response, s) \<and>
    hr_Accepted response \<and> hr_SessionToken response = ''token'' \<and> ValidateSession ''token'' (es_sessionStore s) = (identity, True)"
proof -
  obtain response s where h: "Handshake (\<lambda>v. Inr (0, 1)) ex_review (\<lambda>spec. Inr True) None 0 (Inr ''token'') ex_handshake (sv_service ex_system) = (response, s)"
    by fastforce
  have e: "Compatible (\<lambda>v. Inr (0, 1)) (hq_Version ex_handshake) protocol_Version = None" "hq_PolicyKind ex_handshake \<noteq> []"
    "ownedResourceIDs (hq_PolicyKind ex_handshake) (hq_OwnedPolicies ex_handshake) = Inr []"
    "recognised ex_review (\<lambda>spec. Inr True) ex_handshake (es_sessionStore (sv_service ex_system)) ''sa:ext''"
    "free_for 0 ''sa:ext'' (hq_PolicyKind ex_handshake) (es_sessionStore (sv_service ex_system))"
    by code_simp+
  have "hr_Accepted response \<and> hr_SessionToken response = ''token''"
    using Handshake_correct [OF ex_system_reachable h, of "''token''"] e by blast
  with Handshake_correct [OF ex_system_reachable h, of "''token''"] h show ?thesis by auto
qed

section \<open>Action methods\<close>

lemma replaceInvalid_chars: "c \<in> set (replaceInvalid s) \<Longrightarrow> clusterNameChar c"
proof (induction s rule: replaceInvalid.induct)
  case (1 s)
  have "clusterNameChar (CHR ''-'')" by code_simp
  with 1 show ?case by (cases "s = []") (auto simp: replaceInvalid.simps [of s] replaceInvalid.simps [of "[]"] split: if_splits)
qed

lemma itoa_int_chars: "c \<in> set (itoa_int n) \<Longrightarrow> clusterNameChar c"
  using itoa_digits [of c] by (auto simp: itoa_int_def clusterNameChar_def inRange_def split: if_splits)

lemma generateClusterName_chars: "list_all clusterNameChar (generateClusterName host port)"
proof -
  have "list_all clusterNameChar ''ext-''" by code_simp
  then show ?thesis
    by (auto simp: generateClusterName_def list_all_iff dest: replaceInvalid_chars itoa_int_chars)
qed

text \<open>
  Different hosts can get the same cluster name: every character that is not allowed becomes a
  hyphen, and a hyphen is allowed.
\<close>

lemma cluster_names_collide: "generateClusterName ''a.b'' 80 = generateClusterName ''a-b'' 80 \<and> ''a.b'' \<noteq> ''a-b''"
  by code_simp

lemma checkActionMethod_Inr:
  "checkActionMethod q = Inr (policyID, ref) \<Longrightarrow> validatePolicyRequest (ra_Policy q) = Inr policyID"
  by (auto simp: checkActionMethod_def split: if_splits option.splits list.splits)

lemma prepareActionMethod_Inr:
  assumes "prepareActionMethod url_Parse fetch q r = Inr (key, entry, fds)"
  shows "validatePolicyRequest (ra_Policy q) = Inr (uk_Policy key) \<and> uk_Name key = ra_Name q \<and>
    list_all clusterNameChar (ue_ClusterName entry) \<and> (\<exists>host. fetch host (ra_Service q) (ra_Method q) = Inr fds) \<and>
    ue_Service entry = ra_Service q \<and> ue_Method entry = ra_Method q"
  using assms
  by (auto simp: prepareActionMethod_def actionMethodKey_def actionMethodEntry_def generateClusterName_chars
      dest!: checkActionMethod_Inr split: prod.splits if_splits sum.splits option.splits)

lemma commitActionMethod_result:
  "commitActionMethod notifier q key entry fds s = (result, s') \<Longrightarrow>
    (result = Inr () \<longleftrightarrow> \<not> IsUpstreamNameTaken key (es_registeredData s)) \<and> (result \<noteq> Inr () \<longrightarrow> s' = s)"
  by (auto simp: commitActionMethod_def Let_def SetUpstreamIfNameAvailable_def IsUpstreamNameTaken_def split: if_splits prod.splits)

lemma commitActionMethod_lookup:
  assumes "commitActionMethod notifier q key entry fds s = (Inr (), s')" and "store_inv (es_registeredData s)"
  shows "GetUpstreamByName (uk_Policy key) (uk_Name key) (es_registeredData s') = Some (key, entry) \<and>
    GetProtoDescriptor (cacheKeyOf entry) (es_registeredData s') = Some fds"
proof -
  have "es_registeredData s' = fst (SetUpstreamIfNameAvailable key entry fds (es_registeredData s))"
    and "\<not> IsUpstreamNameTaken key (es_registeredData s)"
    using commitActionMethod_data [OF assms(1)] commitActionMethod_result [OF assms(1)] by blast+
  moreover from this have "store_inv (es_registeredData s')" using store_inv_step [OF store_step.set_upstream assms(2)] by metis
  ultimately show ?thesis
    by (subst GetUpstreamByName_iff) (auto simp: SetUpstreamIfNameAvailable_def IsUpstreamNameTaken_def GetUpstream_def
        GetProtoDescriptor_def ProtoCache_Get_def ProtoCache_Set_def)
qed

text \<open>
  C26.  Registering a method succeeds exactly when the request is valid and its name is free both
  before and after the reflection call, whatever other handlers do in between.  Then the policy
  has this one method under the name, its descriptors can be served, and its cluster name is made
  of letters, digits and hyphens; otherwise the state is what the others left.
\<close>

theorem RegisterActionMethod_correct:
  assumes "service_step\<^sup>*\<^sup>* service_start y" and "sv_service y = meanwhile s"
    and "RegisterActionMethod url_Parse fetch notifier meanwhile (Some q) s = (result, s')"
  shows "(result = Inr () \<longleftrightarrow> (\<exists>key entry fds. prepareActionMethod url_Parse fetch q (es_registeredData s) = Inr (key, entry, fds) \<and>
      \<not> IsUpstreamNameTaken key (es_registeredData (meanwhile s)))) \<and>
    (if result = Inr ()
     then \<exists>policyID key entry fds. validatePolicyRequest (ra_Policy q) = Inr policyID \<and>
       GetUpstreamByName policyID (ra_Name q) (es_registeredData s') = Some (key, entry) \<and>
       ue_Service entry = ra_Service q \<and> ue_Method entry = ra_Method q \<and>
       (\<exists>host. fetch host (ra_Service q) (ra_Method q) = Inr fds) \<and>
       GetProtoDescriptor (cacheKeyOf entry) (es_registeredData s') = Some fds \<and> list_all clusterNameChar (ue_ClusterName entry)
     else s' = s \<or> s' = meanwhile s)"
proof (cases "prepareActionMethod url_Parse fetch q (es_registeredData s)")
  case (Inl e)
  with assms(3) show ?thesis by (auto simp: RegisterActionMethod_def)
next
  case (Inr kef)
  then obtain key entry fds where prep: "prepareActionMethod url_Parse fetch q (es_registeredData s) = Inr (key, entry, fds)"
    by (metis prod_cases3)
  with assms(3) have c: "commitActionMethod notifier q key entry fds (meanwhile s) = (result, s')"
    by (simp add: RegisterActionMethod_def)
  have "store_inv (es_registeredData (meanwhile s))"
    using services.inv_reachable [OF assms(1)] store.inv_reachable unfolding service_inv_def assms(2) by blast
  then have ok: "result = Inr () \<Longrightarrow> GetUpstreamByName (uk_Policy key) (uk_Name key) (es_registeredData s') = Some (key, entry) \<and>
      GetProtoDescriptor (cacheKeyOf entry) (es_registeredData s') = Some fds"
    using commitActionMethod_lookup c by blast
  show ?thesis
  proof (cases "result = Inr ()")
    case True
    then show ?thesis using commitActionMethod_result [OF c] prep ok [OF True] prepareActionMethod_Inr [OF prep] by auto
  next
    case False
    then show ?thesis using commitActionMethod_result [OF c] prep by auto
  qed
qed

theorem RegisterActionMethod_correct_witness:
  "\<exists>s' entry. RegisterActionMethod ex_url ex_fetch None id (Some ex_method) (newExtensionService :: (nat, nat) extensionService) = (Inr (), s') \<and>
    GetUpstreamByName ex_policy ''check'' (es_registeredData s') = Some (ex_upstream_key, entry)"
proof -
  let ?s = "newExtensionService :: (nat, nat) extensionService"
  obtain result s' where r: "RegisterActionMethod ex_url ex_fetch None id (Some ex_method) ?s = (result, s')" by fastforce
  have prep: "prepareActionMethod ex_url ex_fetch ex_method (es_registeredData ?s) = Inr (ex_upstream_key, ex_upstream, ex_fds)"
    using ex_prepared by (simp add: newExtensionService_def)
  have y: "sv_service service_start = id ?s" by (simp add: service_start_def)
  note correct = RegisterActionMethod_correct [OF rtranclp.rtrancl_refl y r]
  have free: "\<not> IsUpstreamNameTaken ex_upstream_key (es_registeredData (id ?s))" by code_simp
  then have ok: "result = Inr ()" using correct prep by blast
  have p: "validatePolicyRequest (ra_Policy ex_method) = Inr ex_policy" "ra_Name ex_method = ''check''" by code_simp+
  with correct ok obtain key entry where k: "GetUpstreamByName ex_policy ''check'' (es_registeredData s') = Some (key, entry)" by auto
  moreover have "case RegisterActionMethod ex_url ex_fetch None id (Some ex_method) ?s of (r, s') \<Rightarrow>
      map_option fst (GetUpstreamByName ex_policy ''check'' (es_registeredData s')) = Some ex_upstream_key" by code_simp
  ultimately show ?thesis using r ok by auto
qed

text \<open>
  A request to subscribe without a policy, or with a policy without metadata, panics.  So does a
  mutator for a policy with a nil target reference, after the ones before it were stored.
\<close>

lemma Resolve_panics:
  "eval cAst [] = (val, err) \<Longrightarrow> fst (Resolve (Some (\<lambda>e. Inr cAst)) eval toValue
     \<lparr>rq_Policy = None, rq_Expression = expr, rq_Subscribe = True\<rparr> s) = Inl ServicePanic"
  by (simp add: Resolve_def)

lemma RegisterMutator_panics:
  "fst (RegisterMutator None (Some \<lparr>rm_Policy = Some (ex_pb_policy\<lparr>pol_TargetRefs := [None]\<rparr>), rm_Domain = DOMAIN_AUTH,
     rm_Binding = ''b'', rm_Expression = ''e''\<rparr>) (newExtensionService :: (nat, nat) extensionService)) = Inl ServicePanic"
  by code_simp

text \<open>
  A changed value is recorded before the event is sent: when the stream fails, the event is lost,
  because the next update finds the value unchanged.
\<close>

definition ex_subscribed :: "(nat, nat) extensionService" where
  "ex_subscribed = newExtensionService\<lparr>es_registeredData := SetSubscription ex_policy ''expr''
     \<lparr>sub_CAst = 0, sub_Input = [(''self'', ex_pb_policy)], sub_Val = 0, sub_PolicyKind = ''ThreatPolicy''\<rparr> NewRegisteredDataStore\<rparr>"

lemma failed_send_loses_event:
  "case subscribeUpdate (\<lambda>ast input. Inr 1) (=) (\<lambda>md. Some ''closed'') ''ThreatPolicy'' ex_subscribed of
     (err, events, s) \<Rightarrow> err = Some (CelError ''closed'') \<and>
       fst (snd (subscribeUpdate (\<lambda>ast input. Inr 1) (=) (\<lambda>md. None) ''ThreatPolicy'' s)) = []"
  by code_simp

text \<open>The numbers reported for a cleared policy are exact as long as they fit 31 bits.\<close>

lemma int32_exact: "n < 2147483648 \<Longrightarrow> int32 n = int n"
  by (simp add: int32_def sint_uint unsigned_of_nat take_bit_nat_eq_self signed_take_bit_int_eq_self)

end
