(* ===== verification/Spec2Isabelle.thy ===== *)
theory Spec2Isabelle
  imports Policy_Discovery Plan_Policy Component_Mtls Auth_Configs Extension_Service_Safety
begin

text \<open>
  The Kuadrant operator attaches policies (rate limits, authentication, DNS, TLS) to gateways and
  routes of the Kubernetes Gateway API.  This development models the parts that decide what the
  data plane will do, and the service through which extensions take part in it.

  \<^bold>\<open>How the program works.\<close>  The topology of gateways, listeners, routes and route rules is a graph.
  For every path from a gateway class to a route rule the policies on the path are merged into an
  effective policy (\<open>api/v1\<close>).  The effective policies of a path become action specifications
  (\<open>internal/wasm/action_spec.go\<close>), these become actions, and the actions of all paths of a gateway
  become one configuration of the wasm module in the proxy (\<open>internal/wasm\<close>).  Limits go to
  Limitador through an index (\<open>internal/ratelimit\<close>).  Validators decide which policies count, and
  status updaters report what became of each policy (\<open>internal/controller\<close>).  Extensions connect over gRPC, open a session,
  register data, methods and pipelines of actions (\<open>internal/extension\<close>), and mutators add these to
  the configurations.

  \<^bold>\<open>Theories.\<close>
  \<^item> \<open>Go_Prelude\<close>: what the code uses of Go: results that may panic, errors as sums, pointers as
    options, maps as association lists in iteration order (\<open>gomap\<close>), strings as byte lists, the
    sorting routine with the locales \<open>go_weak_order\<close> and \<open>go_total_order\<close>, and the locale
    \<open>transition_system\<close> for invariants of reachable states.
  \<^item> \<open>Gateway_API\<close>: hostnames, route matches and their order, accepted routes and programmed
    gateways (\<open>internal/utils/hostname.go\<close>, \<open>internal/gatewayapi\<close>, \<open>internal/kuadrant\<close>).
  \<^item> \<open>Policy_Machinery\<close>: paths of the topology (\<open>internal/policymachinery/utils.go\<close>).
  \<^item> \<open>Merge_Strategies\<close>: \<open>api/v1/merge_strategies.go\<close>.  The interface \<open>MergeablePolicy\<close> is the locale
    \<open>mergeable_policy\<close>; the abstract specification, which rule wins on a path, and the lemmas are
    proved inside it.
  \<^item> \<open>Rate_Limit_Policy\<close>: \<open>api/v1/ratelimitpolicy_types.go\<close>, the interpretation of the locale.
  \<^item> \<open>Auth_Policy\<close>, \<open>Token_Rate_Limit_Policy\<close>: \<open>api/v1/authpolicy_types.go\<close> and
    \<open>api/v1alpha1/tokenratelimitpolicy_types.go\<close>, two more interpretations of it.
  \<^item> \<open>Rate_Limit_Index\<close>: \<open>internal/ratelimit/index.go\<close> and the slice helpers.
  \<^item> \<open>Policy_Conditions\<close>: errors of policies and the conditions made of them (\<open>internal/kuadrant\<close>).
  \<^item> \<open>Error_Retry\<close>: \<open>internal/controller/reconciliation_errors.go\<close>; the steps of the error tracker.
  \<^item> \<open>Wasm_JSON\<close>, \<open>Wasm_Types\<close>: the configuration, its equality and its wire form
    (\<open>internal/wasm/types.go\<close>).
  \<^item> \<open>Wasm_CEL\<close>, \<open>Wasm_Body_Refs\<close>: rendering of CEL (\<open>action_builder.go\<close>, \<open>cel_builder.go\<close>) and
    references to bodies in expressions.
  \<^item> \<open>Wasm_Action_Spec\<close>: from specifications to actions (\<open>action_spec.go\<close>).
  \<^item> \<open>Wasm_Config\<close>: services, observability and action sets of a gateway (\<open>utils.go\<close>).
  \<^item> \<open>CEL_Validation\<close>: \<open>internal/cel\<close>: issues, the environments of the policies and the rewriting of
    counter expressions.
  \<^item> \<open>Policy_Acceptance\<close>: the validators and the reconcilers of effective policies of the three kinds of
    data plane policies (\<open>internal/controller/*_policies_validator.go\<close>, \<open>effective_*_reconciler.go\<close>).
  \<^item> \<open>Rate_Limit_Workflow\<close>: from effective policies to specifications and to Limitador's limits
    (\<open>ratelimit_workflow_helpers.go\<close>, \<open>auth_workflow_helpers.go\<close>, \<open>limitador_limits_reconciler.go\<close>).
  \<^item> \<open>Data_Plane_Workflow\<close>: merging of specifications and the components of a gateway to wait for
    (\<open>data_plane_policies_workflow.go\<close>).
  \<^item> \<open>Policy_Enforcement\<close>: the three status updaters (\<open>*_policy_status_updater.go\<close>).
  \<^item> \<open>Gateway_Policies\<close>: policies that attach to gateways and listeners, what the validators of DNS
    and TLS policies share, and the locale \<open>oldest_policy_wins\<close> of their conflicts.
  \<^item> \<open>DNS_Policy\<close>: from DNS policies to DNS records and back to the status (\<open>dns_workflow.go\<close>,
    \<open>dnspolicies_validator.go\<close>, \<open>dnspolicy_dnsrecords.go\<close>, \<open>effective_dnspolicies_reconciler.go\<close>,
    \<open>dnspolicy_status_updater.go\<close>).
  \<^item> \<open>TLS_Policy\<close>: from TLS policies to certificates and back to the status (\<open>tls_workflow.go\<close>,
    \<open>tlspolicies_validator.go\<close>, \<open>effective_tls_policies_reconciler.go\<close>, \<open>tlspolicy_status_updater.go\<close>).
  \<^item> \<open>Managed_Objects\<close>: what the reconcilers of gateway resources share: find, create, compare, update,
    delete what is stale.  The locale \<open>managed_kind\<close> states what a kind of objects must promise, and
    proves there that one run puts the objects in place and the next does nothing.
  \<^item> \<open>Gateway_Clusters\<close>: the clusters of Authorino, Limitador and tracing for Istio and Envoy Gateway
    (\<open>istio_*_cluster_reconciler.go\<close>, \<open>envoy_gateway_*_cluster_reconciler.go\<close>, \<open>internal/istio\<close>,
    \<open>internal/envoygateway\<close>), instances of that locale.
  \<^item> \<open>Auth_Configs\<close>: the AuthConfig resources of Authorino (\<open>authconfigs_reconciler.go\<close>,
    \<open>internal/authorino/utils.go\<close>), another instance of it.
  \<^item> \<open>Wasm_Extensions\<close>: from the effective policies of all paths to the configuration and the wasm
    filter of each gateway, and the clusters of upstreams that extensions registered
    (\<open>istio_extension_reconciler.go\<close>, \<open>envoy_gateway_extension_reconciler.go\<close>).  The theory
    composes those of the policies, the configuration and the extensions.
  \<^item> \<open>Policy_Discovery\<close>: the conditions on routes, gateways and listeners that say which policies
    affect them (\<open>route_policy_discoverability_reconciler.go\<close>,
    \<open>gateway_policy_discoverability_reconciler.go\<close>, \<open>common.go\<close>).
  \<^item> \<open>Resource_Reconciler\<close>: create, update or delete one object (\<open>internal/reconcilers/base_reconciler.go\<close>);
    what a mutator promises is the locale \<open>resource_mutator\<close>.
  \<^item> \<open>Plan_Policy\<close>: the extension for plans (\<open>cmd/extensions/plan-policy\<close>), with its mutator as an instance
    of that locale.
  \<^item> \<open>Kuadrant_Status\<close>: the status of the Kuadrant resource (\<open>kuadrant_status_updater.go\<close>).
  \<^item> \<open>Component_Mtls\<close>: sidecars of Authorino and Limitador and the peer authentication
    (\<open>authorino_istio_integration_reconciler.go\<close>, \<open>limitador_istio_integration_reconciler.go\<close>,
    \<open>istio_peerauthentication_reconciler.go\<close>).
  \<^item> \<open>Extension_Sessions\<close>: \<open>session.go\<close>, \<open>interceptor.go\<close>, \<open>protocol.go\<close>; the steps of the session store.
  \<^item> \<open>Extension_Protocol\<close>: messages, descriptor sets and field accesses (\<open>proto_utils.go\<close>,
    \<open>cel_utils.go\<close>, \<open>pkg/extension/grpc/v1\<close>).
  \<^item> \<open>Extension_Store\<close>: \<open>RegisteredDataStore\<close> of \<open>registry.go\<close> and \<open>proto_cache.go\<close>; the steps of the store
    and the specification \<open>erase\<close> of clearing policies.
  \<^item> \<open>Extension_Pipeline\<close>: from a pipeline to actions (\<open>translatePipelineToActions\<close>).
  \<^item> \<open>Extension_Registry\<close>: the mutators and the mutator registry of \<open>registry.go\<close>.
  \<^item> \<open>Extension_Manager\<close>: settings, discovery, start and stop in \<open>manager.go\<close>, and \<open>authenticator.go\<close>.
  \<^item> \<open>Extension_Service\<close>: every handler of \<open>extensionService\<close> in \<open>manager.go\<close>, and the steps of the
    service.
  \<^item> \<open>Extension_Service_Safety\<close>: the service refines the two stores, and the properties of the
    handlers.

  \<^bold>\<open>What is proved.\<close>  For merging: the reduction over a path computes the abstract specification, the
  winner of each rule, that atomic overrides shield, and that sources are the contributing policies,
  for each of the three kinds of policies.  For the workflow: validation decides acceptance, exactly
  the accepted policies become effective, the gateways and Limitador are given the same limits under
  the same identifiers, Limitador is updated only when its limits change, a policy is reported as
  enforced exactly when it is in force, and failed operations are retried and then given up.
  For DNS and TLS: the oldest policy of a target wins, so records and certificates have one writer;
  excluded addresses are never published; a reconciliation is quiescent exactly when records or
  certificates are as asked for; and what the enforced condition means.  For the clusters of gateways:
  after one run every gateway with effective policies has its cluster as desired and no other has
  one, and the next run does nothing.  The same holds for the AuthConfigs, and these say exactly what
  the merge of the policies selects.  For the wasm filters: each gateway gets exactly the action sets
  of its own paths, nothing that reads auth data comes before auth, and extensions only add to what
  the policies ask for.  For what is reported: the statuses of routes and gateways name exactly the
  accepted policies and leave the entries of other controllers alone, and the Kuadrant resource is ready
  exactly when its dependencies and components are.  The limits of plans are counted after
  authentication, an object that is created or updated settles, and the gateways of Istio and
  Authorino agree on mTLS.
  For the configuration: services are closed, action sets exist for every hostname and match, wire
  forms are read back, equality means equality, text is confined to its literal, bindings are
  attached where their data exists, keys are fresh and the search for them ends.  For extensions:
  exclusive sessions that are neither hijacked nor stuck; a consistent store, exact clearing and
  pruning; a translation that loses no action; mutators that are independent of map order and only
  add; a service in which commits, handshakes and registrations happen as a whole and in which no
  sequence of requests can make the mutators fail.

  \<^bold>\<open>Conventions.\<close>  An operation on state is a function from the old to the new state; the
  operations that hold a lock from start to end are single steps, and between the two locked parts
  of \<open>RegisterActionMethod\<close> the state may change arbitrarily.  A panic is the value \<open>Panic\<close> or an
  error of its own.  A map is listed in the order in which Go happens to iterate over it; where the
  result must not depend on it, this is a theorem.  Error texts are constructors with the values
  they print.  Times are nanoseconds as integers.

  \<^bold>\<open>Bounds and fuel.\<close>  All recursion is structural or has a termination proof.  The one loop with fuel is
  \<open>freshKeyLoop\<close>, with one round more than there are used keys; \<open>freshKey_terminates\<close> shows that more
  rounds change nothing.

  \<^bold>\<open>Parameters.\<close>  Code outside the repository appears as an argument: locators and the graph of the
  policy-machinery library, SHA-256, the CEL parsers, environments and values, \<open>semver\<close>, \<open>url.Parse\<close>,
  \<open>time.ParseDuration\<close> in the settings, protobuf marshalling, the reflection client, the Kubernetes
  API and the random source.

  \<^bold>\<open>Not modelled.\<close>  The reconciler and the blocking graph of the extension package,
  out-of-process extensions, the extension SDK, the built-in extensions other than plans, deployment of the
  control plane, generated deep copies, logging, metrics and tracing.  They are I/O around library
  calls, or generated.
\<close>

end
